(* ===== verification/Prelude.thy ===== *)
theory Prelude
  imports Main "HOL-Library.Word" "HOL-Library.AList"
begin

text \<open>
  The prelude of the development: the names of the machine integers, the Rust containers the
  server's state is built from (\<open>HashMap\<close> as an association list, \<open>Vec\<close> as a list with its
  \<open>insert\<close>, \<open>remove\<close>, \<open>position\<close> and \<open>retain\<close>), byte slices, and the lemmas about them that the
  components share.
\<close>

unbundle bit_operations_syntax

named_theorems hm_simps \<open>what a lookup returns after each operation of a hash map\<close>
named_theorems vec_simps \<open>length, membership and distinctness of the vector operations\<close>

section \<open>Machine integers\<close>

type_synonym u8 = "8 word"
type_synonym u16 = "16 word"
type_synonym i16 = "16 word"
type_synonym u32 = "32 word"
type_synonym u64 = "64 word"

text \<open>\<open>i32::from(x)\<close> of an \<open>i16\<close> and of a \<open>u16\<close>: sums of a few of them never leave the range of an
  \<open>i32\<close>, so the model computes them in \<^typ>\<open>int\<close>.\<close>

abbreviation i32_of_i16 :: "i16 \<Rightarrow> int" where
  "i32_of_i16 x \<equiv> sint x"

abbreviation i32_of_u16 :: "u16 \<Rightarrow> int" where
  "i32_of_u16 x \<equiv> uint x"

lemma unat_of_nat_id: "n < 2 ^ LENGTH('a :: len) \<Longrightarrow> unat (of_nat n :: 'a word) = n"
  by (simp add: unsigned_of_nat take_bit_nat_eq_self)

lemma of_nat_word_inject:
  "m < 2 ^ LENGTH('a :: len) \<Longrightarrow> n < 2 ^ LENGTH('a) \<Longrightarrow>
    (of_nat m :: 'a word) = of_nat n \<longleftrightarrow> m = n"
  by (metis unat_of_nat_id)

section \<open>Hash maps\<close>

text \<open>
  A \<open>HashMap\<close> is an association list with distinct keys. The list order stands for the map's
  unspecified iteration order, \<open>hm_len\<close> for \<open>len()\<close>.
\<close>

type_synonym ('k, 'v) hashmap = "('k \<times> 'v) list"

definition hm_get :: "('k, 'v) hashmap \<Rightarrow> 'k \<Rightarrow> 'v option" where
  "hm_get m k = map_of m k"

definition hm_insert :: "'k \<Rightarrow> 'v \<Rightarrow> ('k, 'v) hashmap \<Rightarrow> ('k, 'v) hashmap" where
  "hm_insert k v m = AList.update k v m"

definition hm_remove :: "'k \<Rightarrow> ('k, 'v) hashmap \<Rightarrow> ('k, 'v) hashmap" where
  "hm_remove k m = AList.delete k m"

text \<open>\<open>if let Some(v) = m.get_mut(&k) { *v = f(v) }\<close>\<close>

definition hm_modify :: "'k \<Rightarrow> ('v \<Rightarrow> 'v) \<Rightarrow> ('k, 'v) hashmap \<Rightarrow> ('k, 'v) hashmap" where
  "hm_modify k f m = (case hm_get m k of None \<Rightarrow> m | Some v \<Rightarrow> hm_insert k (f v) m)"

definition hm_contains :: "('k, 'v) hashmap \<Rightarrow> 'k \<Rightarrow> bool" where
  "hm_contains m k = (case hm_get m k of None \<Rightarrow> False | Some _ \<Rightarrow> True)"

definition hm_keys :: "('k, 'v) hashmap \<Rightarrow> 'k list" where
  "hm_keys m = map fst m"

definition hm_values :: "('k, 'v) hashmap \<Rightarrow> 'v list" where
  "hm_values m = map snd m"

definition hm_len :: "('k, 'v) hashmap \<Rightarrow> nat" where
  "hm_len m = length m"

definition hm_retain :: "('k \<Rightarrow> 'v \<Rightarrow> bool) \<Rightarrow> ('k, 'v) hashmap \<Rightarrow> ('k, 'v) hashmap" where
  "hm_retain p m = filter (\<lambda>(k, v). p k v) m"

definition hm_wf :: "('k, 'v) hashmap \<Rightarrow> bool" where
  "hm_wf m \<longleftrightarrow> distinct (map fst m)"

text \<open>The contract of a hash map, which the components rely on, and two consequences.\<close>

locale hash_map =
  fixes get :: "'m \<Rightarrow> 'k \<Rightarrow> 'v option"
    and insert :: "'k \<Rightarrow> 'v \<Rightarrow> 'm \<Rightarrow> 'm"
    and remove :: "'k \<Rightarrow> 'm \<Rightarrow> 'm"
    and keys :: "'m \<Rightarrow> 'k list"
    and wf :: "'m \<Rightarrow> bool"
  assumes get_insert: "get (insert k v m) k' = (if k' = k then Some v else get m k')"
    and get_remove: "get (remove k m) k' = (if k' = k then None else get m k')"
    and keys_get: "k \<in> set (keys m) \<longleftrightarrow> get m k \<noteq> None"
    and wf_keys: "wf m \<Longrightarrow> distinct (keys m)"
    and wf_insert: "wf m \<Longrightarrow> wf (insert k v m)"
    and wf_remove: "wf m \<Longrightarrow> wf (remove k m)"
begin

lemma insert_remove_get: "get (remove k (insert k v m)) = get (remove k m)"
  by (rule ext) (simp add: get_insert get_remove)

lemma keys_insert: "set (keys (insert k v m)) = {k} \<union> set (keys m)"
  by (auto simp: keys_get get_insert split: if_splits)

lemma keys_remove: "set (keys (remove k m)) = set (keys m) - {k}"
  by (auto simp: keys_get get_remove split: if_splits)

lemma card_keys: "wf m \<Longrightarrow> card (set (keys m)) = length (keys m)"
  by (simp add: distinct_card wf_keys)

end

interpretation hm: hash_map hm_get hm_insert hm_remove hm_keys hm_wf
proof unfold_locales
  show "hm_get (hm_insert k v m) k' = (if k' = k then Some v else hm_get m k')"
    for k :: 'a and v :: 'b and m k'
    by (simp add: hm_get_def hm_insert_def update_conv')
  show "hm_get (hm_remove k m) k' = (if k' = k then None else hm_get m k')"
    for k :: 'a and m :: "('a, 'b) hashmap" and k'
    by (simp add: hm_get_def hm_remove_def delete_conv')
  show "(k \<in> set (hm_keys m)) = (hm_get m k \<noteq> None)" for k :: 'a and m :: "('a, 'b) hashmap"
    by (simp add: hm_keys_def hm_get_def map_of_eq_None_iff)
  show "hm_wf m \<Longrightarrow> distinct (hm_keys m)" for m :: "('a, 'b) hashmap"
    by (simp add: hm_wf_def hm_keys_def)
  show "hm_wf m \<Longrightarrow> hm_wf (hm_insert k v m)" for m :: "('a, 'b) hashmap" and k v
    by (simp add: hm_wf_def hm_insert_def distinct_update)
  show "hm_wf m \<Longrightarrow> hm_wf (hm_remove k m)" for m :: "('a, 'b) hashmap" and k
    by (simp add: hm_wf_def hm_remove_def distinct_delete)
qed

lemmas hm_get_insert [simp, hm_simps] = hm.get_insert
lemmas hm_get_remove [simp, hm_simps] = hm.get_remove

lemma hm_get_Nil [simp, hm_simps]: "hm_get [] k = None"
  by (simp add: hm_get_def)

lemma hm_get_Cons [hm_simps]: "hm_get ((k, v) # m) k' = (if k' = k then Some v else hm_get m k')"
  by (simp add: hm_get_def)

lemma hm_get_modify [simp, hm_simps]:
  "hm_get (hm_modify k f m) k' = (if k' = k then map_option f (hm_get m k) else hm_get m k')"
  by (simp add: hm_modify_def split: option.splits)

lemma hm_contains_iff [simp, hm_simps]: "hm_contains m k \<longleftrightarrow> hm_get m k \<noteq> None"
  by (simp add: hm_contains_def split: option.splits)

lemma hm_wf_Nil [simp]: "hm_wf []"
  by (simp add: hm_wf_def)

lemma hm_wf_insert [simp, intro]: "hm_wf m \<Longrightarrow> hm_wf (hm_insert k v m)"
  by (rule hm.wf_insert)

lemma hm_wf_remove [simp, intro]: "hm_wf m \<Longrightarrow> hm_wf (hm_remove k m)"
  by (rule hm.wf_remove)

lemma hm_wf_modify [simp, intro]: "hm_wf m \<Longrightarrow> hm_wf (hm_modify k f m)"
  by (simp add: hm_modify_def split: option.splits)

lemma hm_wf_retain [simp, intro]: "hm_wf m \<Longrightarrow> hm_wf (hm_retain p m)"
  unfolding hm_wf_def hm_retain_def by (induction m) auto

lemma hm_get_retain:
  assumes "hm_wf m"
  shows "hm_get (hm_retain p m) k =
    (case hm_get m k of None \<Rightarrow> None | Some v \<Rightarrow> if p k v then Some v else None)"
  using assms unfolding hm_wf_def hm_get_def hm_retain_def
proof (induction m)
  case (Cons a m)
  obtain x y where a: "a = (x, y)" by (cases a)
  have "k = x \<Longrightarrow> map_of m k = None"
    using Cons.prems a by (simp add: map_of_eq_None_iff)
  then show ?case using Cons a by (auto split: option.splits)
qed simp

lemma hm_len_keys: "hm_len m = length (hm_keys m)"
  by (simp add: hm_len_def hm_keys_def)

lemma finite_hm_keys [simp]: "finite (set (hm_keys m))"
  by simp

section \<open>Vectors\<close>

text \<open>\<open>iter().position(p)\<close>: the first index whose element satisfies \<open>p\<close>.\<close>

fun position :: "('a \<Rightarrow> bool) \<Rightarrow> 'a list \<Rightarrow> nat option" where
  "position p [] = None"
| "position p (x # xs) = (if p x then Some 0 else map_option Suc (position p xs))"

text \<open>\<open>Vec::insert(i, x)\<close> and \<open>Vec::remove(i)\<close>, which panic when the index is out of range; every
  call the model makes has its index in range.\<close>

definition vec_insert :: "nat \<Rightarrow> 'a \<Rightarrow> 'a list \<Rightarrow> 'a list" where
  "vec_insert i x xs = take i xs @ x # drop i xs"

definition vec_remove :: "nat \<Rightarrow> 'a list \<Rightarrow> 'a list" where
  "vec_remove i xs = take i xs @ drop (Suc i) xs"

lemma position_None: "position p xs = None \<longleftrightarrow> (\<forall>x \<in> set xs. \<not> p x)"
  by (induction xs) auto

lemma position_Some:
  "position p xs = Some i \<Longrightarrow> i < length xs \<and> p (xs ! i) \<and> (\<forall>j < i. \<not> p (xs ! j))"
proof (induction xs arbitrary: i)
  case (Cons x xs)
  show ?case
  proof (cases "p x")
    case False
    with Cons.prems obtain k where "position p xs = Some k" "i = Suc k" by auto
    with Cons.IH [of k] False show ?thesis
      by (auto simp: less_Suc_eq_0_disj)
  qed (use Cons.prems in auto)
qed simp

lemma position_eq_Some: "x \<in> set xs \<Longrightarrow> \<exists>i. position (\<lambda>y. y = x) xs = Some i"
  by (cases "position (\<lambda>y. y = x) xs") (auto simp: position_None)

lemma set_vec_insert [simp, vec_simps]: "set (vec_insert i x xs) = insert x (set xs)"
  unfolding vec_insert_def by (metis append_take_drop_id insert_is_Un list.set(2) set_append
      sup_commute sup_left_commute)

lemma length_vec_insert [simp, vec_simps]: "length (vec_insert i x xs) = Suc (length xs)"
  by (simp add: vec_insert_def)

lemma distinct_vec_insert [simp, vec_simps]:
  "distinct (vec_insert i x xs) \<longleftrightarrow> distinct xs \<and> x \<notin> set xs"
proof -
  have d: "distinct xs \<longleftrightarrow> distinct (take i xs @ drop i xs)"
    and m: "set xs = set (take i xs) \<union> set (drop i xs)"
    by (simp, metis append_take_drop_id set_append)
  show ?thesis
    by (subst d) (auto simp: vec_insert_def m simp del: append_take_drop_id)
qed

lemma vec_remove_split:
  "i < length xs \<Longrightarrow> xs = take i xs @ xs ! i # drop (Suc i) xs"
  by (rule id_take_nth_drop)

lemma set_vec_remove [vec_simps]:
  assumes "distinct xs" and "i < length xs"
  shows "set (vec_remove i xs) = set xs - {xs ! i}"
proof -
  have split: "xs = take i xs @ xs ! i # drop (Suc i) xs"
    using assms(2) by (rule vec_remove_split)
  have d: "distinct (take i xs @ xs ! i # drop (Suc i) xs)"
    using assms(1) split by simp
  have "set xs = insert (xs ! i) (set (vec_remove i xs))"
    unfolding vec_remove_def by (subst split) auto
  moreover have "xs ! i \<notin> set (vec_remove i xs)"
    using d unfolding vec_remove_def by auto
  ultimately show ?thesis by auto
qed

lemma distinct_vec_remove [vec_simps]:
  assumes "distinct xs"
  shows "distinct (vec_remove i xs)"
proof -
  have "set (take i xs) \<inter> set (drop (Suc i) xs) = {}"
    using assms by (intro set_take_disj_set_drop_if_distinct) auto
  then show ?thesis using assms by (auto simp: vec_remove_def)
qed

section \<open>Byte slices\<close>

text \<open>\<open>&buf[off..off + n]\<close>\<close>

definition slice :: "nat \<Rightarrow> nat \<Rightarrow> 'a list \<Rightarrow> 'a list" where
  "slice off n buf = take n (drop off buf)"

lemma length_slice [simp]: "off + n \<le> length buf \<Longrightarrow> length (slice off n buf) = n"
  by (simp add: slice_def)

lemma nth_slice [simp]: "i < n \<Longrightarrow> off + n \<le> length buf \<Longrightarrow> slice off n buf ! i = buf ! (off + i)"
  by (simp add: slice_def)

end
