(* ===== verification/Properties.thy ===== *)
theory Properties
  imports Prelude
begin

text \<open>
  Window properties (\<open>crates/xserver-core/src/properties.rs\<close>): the value a \<open>ChangeProperty\<close> leaves
  behind (\<open>apply_change\<close>) and the slice a \<open>GetProperty\<close> reads (\<open>slice_for_get\<close>).
  A \<open>usize\<close> or \<open>u64\<close> length is a natural number; \<open>checked_mul\<close> is written out with its bound and
  \<open>as u32\<close> is \<open>of_nat\<close>, which truncates.
\<close>

type_synonym AtomId = u32

definition MAX_PROPERTY_BYTES :: nat where
  "MAX_PROPERTY_BYTES = 64 * 1024 * 1024"

datatype PropertyFormat = F8 | F16 | F32

record PropertyValue =
  pv_type :: AtomId
  pv_format :: PropertyFormat
  pv_data :: "u8 list"

definition format_from_protocol :: "u8 \<Rightarrow> PropertyFormat option" where
  "format_from_protocol v =
     (if v = 8 then Some F8 else if v = 16 then Some F16 else if v = 32 then Some F32 else None)"

fun format_bytes :: "PropertyFormat \<Rightarrow> nat" where
  "format_bytes F8 = 1"
| "format_bytes F16 = 2"
| "format_bytes F32 = 4"

fun format_protocol_value :: "PropertyFormat \<Rightarrow> u8" where
  "format_protocol_value F8 = 8"
| "format_protocol_value F16 = 16"
| "format_protocol_value F32 = 32"

datatype ChangeMode = Replace | Prepend | Append

definition mode_from_protocol :: "u8 \<Rightarrow> ChangeMode option" where
  "mode_from_protocol v =
     (if v = 0 then Some Replace else if v = 1 then Some Prepend else if v = 2 then Some Append
      else None)"

datatype ChangePropertyError = PropBadValue | PropBadMatch | PropBadAlloc

text \<open>The \<open>match\<close> on mode and existing value, then the size cap.\<close>

definition combined_data ::
  "PropertyValue option \<Rightarrow> ChangeMode \<Rightarrow> AtomId \<Rightarrow> PropertyFormat \<Rightarrow> u8 list
    \<Rightarrow> ChangePropertyError + u8 list" where
  "combined_data existing mode new_type format data =
     (case (mode, existing) of
        (Replace, _) \<Rightarrow> Inr data
      | (_, None) \<Rightarrow> Inr data
      | (_, Some v) \<Rightarrow>
          if pv_type v \<noteq> new_type \<or> pv_format v \<noteq> format then Inl PropBadMatch
          else Inr (case mode of Prepend \<Rightarrow> data @ pv_data v | _ \<Rightarrow> pv_data v @ data))"

definition apply_change ::
  "PropertyValue option \<Rightarrow> ChangeMode \<Rightarrow> AtomId \<Rightarrow> PropertyFormat \<Rightarrow> u8 list
    \<Rightarrow> ChangePropertyError + PropertyValue" where
  "apply_change existing mode new_type format data =
     (case combined_data existing mode new_type format data of
        Inl e \<Rightarrow> Inl e
      | Inr combined \<Rightarrow>
          if length combined > MAX_PROPERTY_BYTES then Inl PropBadAlloc
          else Inr \<lparr>pv_type = new_type, pv_format = format, pv_data = combined\<rparr>)"

record GetPropertySlice =
  gs_type :: AtomId
  gs_format :: u8
  gs_bytes_after :: u32
  gs_value :: "u8 list"

definition checked_mul_u64 :: "nat \<Rightarrow> nat \<Rightarrow> nat option" where
  "checked_mul_u64 a b = (if a * b < 2 ^ 64 then Some (a * b) else None)"

definition slice_for_get ::
  "PropertyValue option \<Rightarrow> AtomId \<Rightarrow> u32 \<Rightarrow> u32 \<Rightarrow> ChangePropertyError + GetPropertySlice" where
  "slice_for_get property requested_type long_offset long_length =
     (case property of
        None \<Rightarrow> Inr \<lparr>gs_type = 0, gs_format = 0, gs_bytes_after = 0, gs_value = []\<rparr>
      | Some p \<Rightarrow>
          let total = length (pv_data p) in
          if \<not> (requested_type = 0 \<or> requested_type = pv_type p)
          then Inr \<lparr>gs_type = pv_type p, gs_format = format_protocol_value (pv_format p),
                    gs_bytes_after = of_nat total, gs_value = []\<rparr>
          else
            (case checked_mul_u64 (unat long_offset) 4 of
               None \<Rightarrow> Inl PropBadValue
             | Some offset_bytes \<Rightarrow>
                 if offset_bytes > total then Inl PropBadValue
                 else
                   (case checked_mul_u64 (unat long_length) 4 of
                      None \<Rightarrow> Inl PropBadValue
                    | Some want_bytes \<Rightarrow>
                        let remaining = total - offset_bytes;
                            len0 = min remaining want_bytes;
                            len_to_return = len0 - len0 mod format_bytes (pv_format p)
                        in Inr \<lparr>gs_type = pv_type p,
                                gs_format = format_protocol_value (pv_format p),
                                gs_bytes_after = of_nat (remaining - len_to_return),
                                gs_value = slice offset_bytes len_to_return (pv_data p)\<rparr>)))"

section \<open>Properties of the stored values\<close>

text \<open>The invariant of every stored property: under the size cap, and whole units.\<close>

definition property_wf :: "PropertyValue \<Rightarrow> bool" where
  "property_wf p \<longleftrightarrow> length (pv_data p) \<le> MAX_PROPERTY_BYTES \<and>
     length (pv_data p) mod format_bytes (pv_format p) = 0"

lemma format_bytes_cases: "format_bytes f = 1 \<or> format_bytes f = 2 \<or> format_bytes f = 4"
  by (cases f) auto

lemma format_bytes_dvd_4: "format_bytes f dvd 4"
  by (cases f) auto

lemma format_bytes_pos [simp]: "0 < format_bytes f"
  by (cases f) auto

lemma checked_mul_u32_4 [simp]: "checked_mul_u64 (unat (x :: u32)) 4 = Some (unat x * 4)"
proof -
  have "unat x < 2 ^ 32" using unsigned_less [of x] by simp
  then show ?thesis by (simp add: checked_mul_u64_def)
qed

lemma format_roundtrip:
  "format_from_protocol (format_protocol_value f) = Some f"
  by (cases f) (simp_all add: format_from_protocol_def)

lemma combined_data_whole:
  assumes "combined_data e m t f d = Inr c"
    and "\<forall>v. e = Some v \<longrightarrow> property_wf v" and "length d mod format_bytes f = 0"
  shows "length c mod format_bytes f = 0"
  using assms format_bytes_dvd_4 [of f]
  by (auto simp: combined_data_def property_wf_def mod_eq_0_iff_dvd
      split: ChangeMode.splits option.splits if_splits)

text \<open>
  \<open>ChangeProperty\<close>: whenever \<open>apply_change\<close> succeeds on whole units, the new value has the
  requested type and format, is under the size cap and in whole units, and its data is the new
  data alone in mode Replace or when the property did not exist, the new data before the old in
  mode Prepend and after it in mode Append (where type and format then equal the old ones).
\<close>

theorem apply_change_correct:
  assumes "apply_change existing mode t f data = Inr p"
    and "\<forall>v. existing = Some v \<longrightarrow> property_wf v"
    and "length data mod format_bytes f = 0"
  shows "property_wf p \<and> pv_type p = t \<and> pv_format p = f \<and>
    pv_data p = (case (mode, existing) of
        (Prepend, Some v) \<Rightarrow> data @ pv_data v
      | (Append, Some v) \<Rightarrow> pv_data v @ data
      | _ \<Rightarrow> data) \<and>
    (\<forall>v. mode \<noteq> Replace \<and> existing = Some v \<longrightarrow> pv_type v = t \<and> pv_format v = f)"
proof -
  obtain c where c: "combined_data existing mode t f data = Inr c"
    and p: "p = \<lparr>pv_type = t, pv_format = f, pv_data = c\<rparr>" "length c \<le> MAX_PROPERTY_BYTES"
    using assms(1) by (auto simp: apply_change_def split: sum.splits if_splits)
  have "length c mod format_bytes f = 0"
    using c assms(2,3) by (rule combined_data_whole)
  then have "property_wf p" using p by (simp add: property_wf_def)
  moreover have "c = (case (mode, existing) of
        (Prepend, Some v) \<Rightarrow> data @ pv_data v
      | (Append, Some v) \<Rightarrow> pv_data v @ data
      | _ \<Rightarrow> data) \<and>
    (\<forall>v. mode \<noteq> Replace \<and> existing = Some v \<longrightarrow> pv_type v = t \<and> pv_format v = f)"
    using c by (auto simp: combined_data_def split: ChangeMode.splits option.splits if_splits)
  ultimately show ?thesis using p by simp
qed

theorem apply_change_correct_witness:
  "property_wf \<lparr>pv_type = 31, pv_format = F16, pv_data = [1, 2, 3, 4]\<rparr>"
proof -
  have "apply_change (Some \<lparr>pv_type = 31, pv_format = F16, pv_data = [3, 4]\<rparr>) Prepend 31 F16 [1, 2]
      = Inr \<lparr>pv_type = 31, pv_format = F16, pv_data = [1, 2, 3, 4]\<rparr>"
    by (simp add: apply_change_def combined_data_def MAX_PROPERTY_BYTES_def)
  from apply_change_correct [OF this] show ?thesis
    by (simp add: property_wf_def MAX_PROPERTY_BYTES_def)
qed

section \<open>Reading a property\<close>

lemma slice_for_get_matching:
  assumes p: "property_wf p" and off: "unat off * 4 \<le> length (pv_data p)"
    and match: "ty = 0 \<or> ty = pv_type p"
  shows "slice_for_get (Some p) ty off n =
    Inr \<lparr>gs_type = pv_type p, gs_format = format_protocol_value (pv_format p),
        gs_bytes_after = of_nat (length (pv_data p) - unat off * 4
          - min (length (pv_data p) - unat off * 4) (unat n * 4)),
        gs_value = slice (unat off * 4) (min (length (pv_data p) - unat off * 4) (unat n * 4))
          (pv_data p)\<rparr>"
proof -
  let ?u = "format_bytes (pv_format p)"
  let ?m = "min (length (pv_data p) - unat off * 4) (unat n * 4)"
  have d4: "?u dvd x * 4" for x
    using format_bytes_dvd_4 by (rule dvd_mult)
  have "?u dvd length (pv_data p)"
    using p by (simp add: property_wf_def mod_eq_0_iff_dvd)
  then have "?u dvd length (pv_data p) - unat off * 4"
    using d4 by (rule dvd_diff_nat)
  then have "?u dvd ?m" using d4 by (auto simp: min_def)
  then have "?m mod ?u = 0" by (simp add: mod_eq_0_iff_dvd)
  moreover have "\<not> unat off * 4 > length (pv_data p)" using off by simp
  ultimately show ?thesis
    using match unfolding slice_for_get_def by (simp add: Let_def)
qed

text \<open>
  \<open>GetProperty\<close> accounts for every byte: a successful read of a stored property with a
  matching type returns the bytes from the offset on, at most \<open>4 * long_length\<close> of them, and
  offset, returned bytes and \<open>bytes_after\<close> (a 32-bit value that does not truncate) add up to the
  property's length; it fails with BadValue exactly when the offset is past the end.
\<close>

theorem get_property_accounts_for_all:
  assumes "property_wf p" and "ty = 0 \<or> ty = pv_type p"
  shows "case slice_for_get (Some p) ty off n of
      Inl e \<Rightarrow> e = PropBadValue \<and> length (pv_data p) < unat off * 4
    | Inr s \<Rightarrow> unat off * 4 \<le> length (pv_data p) \<and>
        gs_type s = pv_type p \<and> gs_format s = format_protocol_value (pv_format p) \<and>
        length (gs_value s) \<le> unat n * 4 \<and>
        take (length (gs_value s)) (drop (unat off * 4) (pv_data p)) = gs_value s \<and>
        unat off * 4 + length (gs_value s) + unat (gs_bytes_after s) = length (pv_data p)"
proof (cases "unat off * 4 \<le> length (pv_data p)")
  case True
  let ?r = "length (pv_data p) - unat off * 4"
  let ?m = "min ?r (unat n * 4)"
  have "length (pv_data p) < 2 ^ 32"
    using assms(1) by (simp add: property_wf_def MAX_PROPERTY_BYTES_def)
  then have "?r - ?m < 2 ^ LENGTH(32)" by simp
  then have u: "unat (of_nat (?r - ?m) :: u32) = ?r - ?m"
    by (rule unat_of_nat_id)
  show ?thesis
    unfolding slice_for_get_matching [OF assms(1) True assms(2)]
    using True u by (simp add: slice_def)
next
  case False
  then show ?thesis
    using assms(2) by (simp add: slice_for_get_def Let_def)
qed

theorem get_property_accounts_for_all_witness:
  "\<exists>s. slice_for_get (Some \<lparr>pv_type = 31, pv_format = F8, pv_data = [1, 2, 3, 4, 5, 6, 7]\<rparr>) 0 1 1
      = Inr s \<and> 4 + length (gs_value s) + unat (gs_bytes_after s) = 7"
proof -
  let ?p = "\<lparr>pv_type = 31, pv_format = F8, pv_data = [1, 2, 3, 4, 5, 6, 7 :: u8]\<rparr>"
  have "property_wf ?p" by (simp add: property_wf_def MAX_PROPERTY_BYTES_def)
  from get_property_accounts_for_all [OF this, of 0 1 1] show ?thesis
    by (auto split: sum.splits)
qed

text \<open>The loop of a client that reads \<open>n\<close> units at a time, advancing the offset by \<open>n\<close>.\<close>

definition read_chunk :: "PropertyValue \<Rightarrow> nat \<Rightarrow> nat \<Rightarrow> u8 list" where
  "read_chunk p n i =
     (case slice_for_get (Some p) 0 (of_nat (i * n)) (of_nat n) of
        Inl _ \<Rightarrow> [] | Inr s \<Rightarrow> gs_value s)"

lemma read_chunk_eq:
  assumes "property_wf p" and "n < 2 ^ 32" and "i * n * 4 \<le> length (pv_data p)"
  shows "read_chunk p n i = take (n * 4) (drop (i * n * 4) (pv_data p))"
proof -
  have "length (pv_data p) < 2 ^ 32"
    using assms(1) by (simp add: property_wf_def MAX_PROPERTY_BYTES_def)
  then have "i * n < 2 ^ LENGTH(32)" using assms(3) by simp
  then have o: "unat (of_nat (i * n) :: u32) = i * n" by (rule unat_of_nat_id)
  have l: "unat (of_nat n :: u32) = n"
    using assms(2) by (intro unat_of_nat_id) simp
  have "unat (of_nat (i * n) :: u32) * 4 \<le> length (pv_data p)" using assms(3) o by simp
  from slice_for_get_matching [OF assms(1) this, of 0 "of_nat n"] show ?thesis
    unfolding read_chunk_def o l by (simp add: slice_def min_def)
qed

lemma concat_chunks:
  "(\<And>i. i < k \<Longrightarrow> f i = take c (drop (i * c) xs)) \<Longrightarrow>
    concat (map f [0..<k]) = take (k * c) xs"
proof (induction k)
  case (Suc k)
  have "concat (map f [0..<Suc k]) = take (k * c) xs @ take c (drop (k * c) xs)"
    using Suc by simp
  also have "\<dots> = take (k * c + c) xs" by (simp add: take_add)
  finally show ?case by (simp add: add.commute)
qed simp

text \<open>
  A client that reads a property \<open>n\<close> units at a time, each read starting where the last
  one ended, gets the property's bytes in order, nothing lost and nothing twice: the first
  \<open>k\<close> reads concatenate to the first \<open>4 * n * k\<close> bytes, so the loop returns the whole property.
\<close>

theorem get_property_chunks_reassemble:
  assumes "property_wf p" and "n < 2 ^ 32" and "(k - 1) * n * 4 \<le> length (pv_data p)"
  shows "concat (map (read_chunk p n) [0..<k]) = take (k * (n * 4)) (pv_data p)"
proof (rule concat_chunks)
  fix i assume "i < k"
  then have "i * (n * 4) \<le> (k - 1) * (n * 4)" by (intro mult_right_mono) auto
  then have "i * n * 4 \<le> length (pv_data p)" using assms(3) by (simp only: mult.assoc)
  from read_chunk_eq [OF assms(1,2) this]
  show "read_chunk p n i = take (n * 4) (drop (i * (n * 4)) (pv_data p))"
    by (simp only: mult.assoc)
qed

theorem get_property_chunks_reassemble_witness:
  "concat (map (read_chunk \<lparr>pv_type = 31, pv_format = F8, pv_data = [1, 2, 3, 4, 5, 6, 7]\<rparr> 1) [0..<2])
     = [1, 2, 3, 4, 5, 6, 7]"
proof -
  have "property_wf \<lparr>pv_type = 31, pv_format = F8, pv_data = [1, 2, 3, 4, 5, 6, 7 :: u8]\<rparr>"
    by (simp add: property_wf_def MAX_PROPERTY_BYTES_def)
  from get_property_chunks_reassemble [OF this, of 1 2] show ?thesis by simp
qed

end
