(* ===== verification/GcParams.thy ===== *)
theory GcParams
  imports Prelude
begin

text \<open>
  The enumerations of a graphics context (\<open>crates/xserver-core/src/backend/params.rs\<close>) with the two
  conversions of each: from the protocol byte, which maps an unknown value to the default, and back.
\<close>

datatype LineStyle =
    LineStyle_Solid | LineStyle_OnOffDash | LineStyle_DoubleDash

definition LineStyle_from_protocol :: "u8 \<Rightarrow> LineStyle" where
  "LineStyle_from_protocol value =
     (if value = 1 then LineStyle_OnOffDash
      else if value = 2 then LineStyle_DoubleDash
      else LineStyle_Solid)"

fun LineStyle_protocol_value :: "LineStyle \<Rightarrow> u8" where
  "LineStyle_protocol_value LineStyle_Solid = 0"
| "LineStyle_protocol_value LineStyle_OnOffDash = 1"
| "LineStyle_protocol_value LineStyle_DoubleDash = 2"

datatype CapStyle =
    CapStyle_NotLast | CapStyle_Butt | CapStyle_Round | CapStyle_Projecting

definition CapStyle_from_protocol :: "u8 \<Rightarrow> CapStyle" where
  "CapStyle_from_protocol value =
     (if value = 0 then CapStyle_NotLast
      else if value = 2 then CapStyle_Round
      else if value = 3 then CapStyle_Projecting
      else CapStyle_Butt)"

fun CapStyle_protocol_value :: "CapStyle \<Rightarrow> u8" where
  "CapStyle_protocol_value CapStyle_NotLast = 0"
| "CapStyle_protocol_value CapStyle_Butt = 1"
| "CapStyle_protocol_value CapStyle_Round = 2"
| "CapStyle_protocol_value CapStyle_Projecting = 3"

datatype JoinStyle =
    JoinStyle_Miter | JoinStyle_Round | JoinStyle_Bevel

definition JoinStyle_from_protocol :: "u8 \<Rightarrow> JoinStyle" where
  "JoinStyle_from_protocol value =
     (if value = 1 then JoinStyle_Round
      else if value = 2 then JoinStyle_Bevel
      else JoinStyle_Miter)"

fun JoinStyle_protocol_value :: "JoinStyle \<Rightarrow> u8" where
  "JoinStyle_protocol_value JoinStyle_Miter = 0"
| "JoinStyle_protocol_value JoinStyle_Round = 1"
| "JoinStyle_protocol_value JoinStyle_Bevel = 2"

datatype FillStyle =
    FillStyle_Solid | FillStyle_Tiled | FillStyle_Stippled | FillStyle_OpaqueStippled

definition FillStyle_from_protocol :: "u8 \<Rightarrow> FillStyle" where
  "FillStyle_from_protocol value =
     (if value = 1 then FillStyle_Tiled
      else if value = 2 then FillStyle_Stippled
      else if value = 3 then FillStyle_OpaqueStippled
      else FillStyle_Solid)"

fun FillStyle_protocol_value :: "FillStyle \<Rightarrow> u8" where
  "FillStyle_protocol_value FillStyle_Solid = 0"
| "FillStyle_protocol_value FillStyle_Tiled = 1"
| "FillStyle_protocol_value FillStyle_Stippled = 2"
| "FillStyle_protocol_value FillStyle_OpaqueStippled = 3"

datatype FillRule =
    FillRule_EvenOdd | FillRule_Winding

definition FillRule_from_protocol :: "u8 \<Rightarrow> FillRule" where
  "FillRule_from_protocol value =
     (if value = 1 then FillRule_Winding
      else FillRule_EvenOdd)"

fun FillRule_protocol_value :: "FillRule \<Rightarrow> u8" where
  "FillRule_protocol_value FillRule_EvenOdd = 0"
| "FillRule_protocol_value FillRule_Winding = 1"

datatype GcFunction =
    GcFunction_Clear | GcFunction_And | GcFunction_AndReverse | GcFunction_Copy
  | GcFunction_AndInverted | GcFunction_NoOp | GcFunction_Xor | GcFunction_Or
  | GcFunction_Nor | GcFunction_Equiv | GcFunction_Invert | GcFunction_OrReverse
  | GcFunction_CopyInverted | GcFunction_OrInverted | GcFunction_Nand | GcFunction_Set

definition GcFunction_from_protocol :: "u8 \<Rightarrow> GcFunction" where
  "GcFunction_from_protocol value =
     (if value = 0 then GcFunction_Clear
      else if value = 1 then GcFunction_And
      else if value = 2 then GcFunction_AndReverse
      else if value = 4 then GcFunction_AndInverted
      else if value = 5 then GcFunction_NoOp
      else if value = 6 then GcFunction_Xor
      else if value = 7 then GcFunction_Or
      else if value = 8 then GcFunction_Nor
      else if value = 9 then GcFunction_Equiv
      else if value = 10 then GcFunction_Invert
      else if value = 11 then GcFunction_OrReverse
      else if value = 12 then GcFunction_CopyInverted
      else if value = 13 then GcFunction_OrInverted
      else if value = 14 then GcFunction_Nand
      else if value = 15 then GcFunction_Set
      else GcFunction_Copy)"

fun GcFunction_protocol_value :: "GcFunction \<Rightarrow> u8" where
  "GcFunction_protocol_value GcFunction_Clear = 0"
| "GcFunction_protocol_value GcFunction_And = 1"
| "GcFunction_protocol_value GcFunction_AndReverse = 2"
| "GcFunction_protocol_value GcFunction_Copy = 3"
| "GcFunction_protocol_value GcFunction_AndInverted = 4"
| "GcFunction_protocol_value GcFunction_NoOp = 5"
| "GcFunction_protocol_value GcFunction_Xor = 6"
| "GcFunction_protocol_value GcFunction_Or = 7"
| "GcFunction_protocol_value GcFunction_Nor = 8"
| "GcFunction_protocol_value GcFunction_Equiv = 9"
| "GcFunction_protocol_value GcFunction_Invert = 10"
| "GcFunction_protocol_value GcFunction_OrReverse = 11"
| "GcFunction_protocol_value GcFunction_CopyInverted = 12"
| "GcFunction_protocol_value GcFunction_OrInverted = 13"
| "GcFunction_protocol_value GcFunction_Nand = 14"
| "GcFunction_protocol_value GcFunction_Set = 15"

datatype SubwindowMode =
    SubwindowMode_ClipByChildren | SubwindowMode_IncludeInferiors

definition SubwindowMode_from_protocol :: "u8 \<Rightarrow> SubwindowMode" where
  "SubwindowMode_from_protocol value =
     (if value = 1 then SubwindowMode_IncludeInferiors
      else SubwindowMode_ClipByChildren)"

fun SubwindowMode_protocol_value :: "SubwindowMode \<Rightarrow> u8" where
  "SubwindowMode_protocol_value SubwindowMode_ClipByChildren = 0"
| "SubwindowMode_protocol_value SubwindowMode_IncludeInferiors = 1"

datatype ArcMode =
    ArcMode_Chord | ArcMode_PieSlice

definition ArcMode_from_protocol :: "u8 \<Rightarrow> ArcMode" where
  "ArcMode_from_protocol value =
     (if value = 0 then ArcMode_Chord
      else ArcMode_PieSlice)"

fun ArcMode_protocol_value :: "ArcMode \<Rightarrow> u8" where
  "ArcMode_protocol_value ArcMode_Chord = 0"
| "ArcMode_protocol_value ArcMode_PieSlice = 1"

section \<open>Round trips\<close>

lemma LineStyle_roundtrip [simp]: "LineStyle_from_protocol (LineStyle_protocol_value x) = x"
  by (cases x) (simp_all add: LineStyle_from_protocol_def)

lemma CapStyle_roundtrip [simp]: "CapStyle_from_protocol (CapStyle_protocol_value x) = x"
  by (cases x) (simp_all add: CapStyle_from_protocol_def)

lemma JoinStyle_roundtrip [simp]: "JoinStyle_from_protocol (JoinStyle_protocol_value x) = x"
  by (cases x) (simp_all add: JoinStyle_from_protocol_def)

lemma FillStyle_roundtrip [simp]: "FillStyle_from_protocol (FillStyle_protocol_value x) = x"
  by (cases x) (simp_all add: FillStyle_from_protocol_def)

lemma FillRule_roundtrip [simp]: "FillRule_from_protocol (FillRule_protocol_value x) = x"
  by (cases x) (simp_all add: FillRule_from_protocol_def)

lemma GcFunction_roundtrip [simp]: "GcFunction_from_protocol (GcFunction_protocol_value x) = x"
  by (cases x) (simp_all add: GcFunction_from_protocol_def)

lemma SubwindowMode_roundtrip [simp]: "SubwindowMode_from_protocol (SubwindowMode_protocol_value x) = x"
  by (cases x) (simp_all add: SubwindowMode_from_protocol_def)

lemma ArcMode_roundtrip [simp]: "ArcMode_from_protocol (ArcMode_protocol_value x) = x"
  by (cases x) (simp_all add: ArcMode_from_protocol_def)

end
