(* ===== verification/ResourceTypes.thy ===== *)
theory ResourceTypes
  imports Prelude Properties GcParams
begin

text \<open>
  The data of the server's resource table (\<open>crates/xserver-core/src/resources.rs\<close>) and of the requests
  that change it (\<open>crates/xserver-protocol/src/x11/mod.rs\<close>). A field of a struct is the record field
  of the same name behind the struct's prefix. The handles of the backend are non-zero 32-bit
  numbers (\<open>NonZeroU32\<close>), so a handle that may be missing is an option.
\<close>

type_synonym ResourceId = u32
type_synonym ClientId = u32
type_synonym VisualHandle = u32
type_synonym ColormapHandle = u32
type_synonym PixmapHandle = u32
type_synonym WindowHandle = u32
type_synonym PictureHandle = u32
type_synonym GlyphSetHandle = u32
type_synonym FontHandle = u32
type_synonym CursorHandle = u32

text \<open>\<open>from_raw\<close>: zero is no handle.\<close>

definition handle_from_raw :: "u32 \<Rightarrow> u32 option" where
  "handle_from_raw raw = (if raw = 0 then None else Some raw)"

definition SERVER_OWNER :: ClientId where "SERVER_OWNER = 0"
definition ROOT_WINDOW :: ResourceId where "ROOT_WINDOW = 0x100"
definition ROOT_COLORMAP :: ResourceId where "ROOT_COLORMAP = 0x101"
definition ROOT_VISUAL :: ResourceId where "ROOT_VISUAL = 0x102"
definition COMPOSITE_OVERLAY_WINDOW :: ResourceId where "COMPOSITE_OVERLAY_WINDOW = 0x103"
definition ARGB_VISUAL :: ResourceId where "ARGB_VISUAL = 0x103"
definition ARGB_COLORMAP :: ResourceId where "ARGB_COLORMAP = 0x104"
definition VISUAL_CLASS_TRUE_COLOR :: u8 where "VISUAL_CLASS_TRUE_COLOR = 4"

section \<open>Resources\<close>

record Visual =
  vis_id :: ResourceId
  vis_class :: u8
  vis_depth :: u8
  vis_bits_per_rgb :: u8
  vis_colormap_entries :: u16
  vis_red_mask :: u32
  vis_green_mask :: u32
  vis_blue_mask :: u32
  vis_alpha_mask :: u32
  vis_host_visual_xid :: "VisualHandle option"

record Colormap =
  cm_id :: ResourceId
  cm_visual :: ResourceId
  cm_host_colormap_xid :: "ColormapHandle option"
  cm_owner :: ClientId

datatype HostDrawableTarget =
    TargetWindow ResourceId WindowHandle u8
  | TargetPixmap ResourceId PixmapHandle u16 u16 u8

record ExposedRect =
  er_window :: ResourceId
  er_x :: i16
  er_y :: i16
  er_width :: u16
  er_height :: u16

record ReparentResult =
  rr_window :: ResourceId
  rr_old_parent :: ResourceId
  rr_new_parent :: ResourceId
  rr_x :: i16
  rr_y :: i16
  rr_override_redirect :: bool
  rr_host_xid :: "WindowHandle option"

datatype ReparentWindowError = ReparentBadWindow | ReparentBadMatch

datatype PictureKind = PictureDrawable | PictureSourceless

record PictureState =
  pict_client :: ClientId
  pict_host_picture_xid :: PictureHandle
  pict_host_owned_pixmap :: "PixmapHandle option"
  pict_kind :: PictureKind
  pict_drawable :: "ResourceId option"

record GlyphSetState =
  glyph_client :: ClientId
  glyph_host_glyphset_xid :: GlyphSetHandle

record NamedCompositePixmap =
  ncp_client_pixmap :: ResourceId
  ncp_host_pixmap :: PixmapHandle
  ncp_width :: u16
  ncp_height :: u16

record RedirectedBacking =
  rb_host_pixmap :: PixmapHandle
  rb_width :: u16
  rb_height :: u16
  rb_depth :: u8

datatype WindowClass = CopyFromParent | InputOutput | InputOnly | OtherClass u16

definition WindowClass_from_protocol :: "u16 \<Rightarrow> WindowClass" where
  "WindowClass_from_protocol value =
     (if value = 0 then CopyFromParent else if value = 1 then InputOutput
      else if value = 2 then InputOnly else OtherClass value)"

fun WindowClass_protocol_value :: "WindowClass \<Rightarrow> u16" where
  "WindowClass_protocol_value CopyFromParent = 0"
| "WindowClass_protocol_value InputOutput = 1"
| "WindowClass_protocol_value InputOnly = 2"
| "WindowClass_protocol_value (OtherClass value) = value"

datatype MapState = Unmapped | Unviewable | Viewable

fun MapState_protocol_value :: "MapState \<Rightarrow> u8" where
  "MapState_protocol_value Unmapped = 0"
| "MapState_protocol_value Unviewable = 1"
| "MapState_protocol_value Viewable = 2"

record Window =
  win_id :: ResourceId
  win_parent :: ResourceId
  win_children :: "ResourceId list"
  win_x :: i16
  win_y :: i16
  win_width :: u16
  win_height :: u16
  win_border_width :: u16
  win_depth :: u8
  win_visual :: ResourceId
  win_class :: WindowClass
  win_map_state :: MapState
  win_background_pixel :: u32
  win_background_pixmap :: "ResourceId option"
  win_background_none :: bool
  win_background_pixmap_host_xid :: "PixmapHandle option"
  win_border_pixmap_host_xid :: "PixmapHandle option"
  win_override_redirect :: bool
  win_bit_gravity :: u8
  win_win_gravity :: u8
  win_backing_store :: u8
  win_backing_planes :: u32
  win_backing_pixel :: u32
  win_save_under :: bool
  win_do_not_propagate_mask :: u16
  win_colormap :: ResourceId
  win_cursor :: "ResourceId option"
  win_owner :: ClientId
  win_properties :: "(AtomId, PropertyValue) hashmap"
  win_host_xid :: "WindowHandle option"
  win_composite_named_pixmaps :: "NamedCompositePixmap list"
  win_redirected_backing :: "RedirectedBacking option"

record ResolvedWindowBackground =
  rbg_background_pixel :: u32
  rbg_background_pixmap_host_xid :: "PixmapHandle option"
  rbg_tile_origin_offset :: "int \<times> int"

record Pixmap =
  pm_id :: ResourceId
  pm_drawable :: ResourceId
  pm_width :: u16
  pm_height :: u16
  pm_depth :: u8
  pm_owner :: ClientId
  pm_host_xid :: "PixmapHandle option"

record ClipRectangles =
  clip_ordering :: u8
  clip_x_origin :: i16
  clip_y_origin :: i16
  clip_rectangles :: "u8 list"

record Gc =
  gc_id :: ResourceId
  gc_drawable :: ResourceId
  gc_depth :: u8
  gc_foreground :: u32
  gc_background :: u32
  gc_line_width :: u16
  gc_font :: "ResourceId option"
  gc_clip_rectangles :: "ClipRectangles option"
  gc_clip_pixmap :: "ResourceId option"
  gc_clip_pixmap_host_xid :: "PixmapHandle option"
  gc_clip_x_origin :: i16
  gc_clip_y_origin :: i16
  gc_fill_style :: FillStyle
  gc_tile :: "ResourceId option"
  gc_stipple :: "ResourceId option"
  gc_tile_host_xid :: "PixmapHandle option"
  gc_stipple_host_xid :: "PixmapHandle option"
  gc_tile_x_origin :: i16
  gc_tile_y_origin :: i16
  gc_line_style :: LineStyle
  gc_cap_style :: CapStyle
  gc_join_style :: JoinStyle
  gc_fill_rule :: FillRule
  gc_function :: GcFunction
  gc_plane_mask :: u32
  gc_subwindow_mode :: SubwindowMode
  gc_graphics_exposures :: bool
  gc_dashes :: "u8 list"
  gc_dash_offset :: i16
  gc_arc_mode :: ArcMode
  gc_owner :: ClientId

record CharInfo =
  ci_left_side_bearing :: i16
  ci_right_side_bearing :: i16
  ci_character_width :: i16
  ci_ascent :: i16
  ci_descent :: i16
  ci_attributes :: u16

datatype FontPropValue = PropCard u32 | PropInt int | PropStr string

record FontMetrics =
  fm_min_bounds :: CharInfo
  fm_max_bounds :: CharInfo
  fm_min_char_or_byte2 :: u16
  fm_max_char_or_byte2 :: u16
  fm_default_char :: u16
  fm_draw_direction :: u8
  fm_min_byte1 :: u8
  fm_max_byte1 :: u8
  fm_all_chars_exist :: bool
  fm_font_ascent :: i16
  fm_font_descent :: i16
  fm_properties :: "u8 list"
  fm_named_properties :: "(string \<times> FontPropValue) list"
  fm_char_infos :: "CharInfo list"

record Font =
  font_id :: ResourceId
  font_name :: string
  font_host_xid :: FontHandle
  font_metrics :: FontMetrics
  font_owner :: ClientId

record Cursor =
  cur_id :: ResourceId
  cur_owner :: ClientId
  cur_host_xid :: "CursorHandle option"
  cur_name_atom :: "AtomId option"
  cur_anim :: bool

record ResourceTable =
  rt_windows :: "(u32, Window) hashmap"
  rt_pixmaps :: "(u32, Pixmap) hashmap"
  rt_gcs :: "(u32, Gc) hashmap"
  rt_fonts :: "(u32, Font) hashmap"
  rt_cursors :: "(u32, Cursor) hashmap"
  rt_pictures :: "(u32, PictureState) hashmap"
  rt_glyphsets :: "(u32, GlyphSetState) hashmap"
  rt_host_glyphset_refcounts :: "(u32, nat) hashmap"
  rt_visuals :: "(u32, Visual) hashmap"
  rt_colormaps :: "(u32, Colormap) hashmap"

record ClientRemovedResources =
  crr_closed_fonts :: "u32 list"
  crr_freed_pixmaps :: "u32 list"
  crr_freed_pictures :: "(u32 \<times> u32 option) list"
  crr_freed_glyphsets :: "u32 list"
  crr_freed_cursors :: "u32 list"

section \<open>Requests\<close>

record CreateWindowRequest =
  cw_depth :: u8
  cw_window :: ResourceId
  cw_parent :: ResourceId
  cw_x :: i16
  cw_y :: i16
  cw_width :: u16
  cw_height :: u16
  cw_border_width :: u16
  cw_class :: u16
  cw_visual :: ResourceId
  cw_value_mask :: u32
  cw_background_pixmap :: "ResourceId option"
  cw_background_pixel :: "u32 option"
  cw_bit_gravity :: "u8 option"
  cw_win_gravity :: "u8 option"
  cw_backing_store :: "u8 option"
  cw_backing_planes :: "u32 option"
  cw_backing_pixel :: "u32 option"
  cw_override_redirect :: "bool option"
  cw_save_under :: "bool option"
  cw_event_mask :: "u32 option"
  cw_do_not_propagate_mask :: "u16 option"
  cw_colormap :: "ResourceId option option"

record ChangeWindowAttributesRequest =
  cwa_window :: ResourceId
  cwa_value_mask :: u32
  cwa_background_pixmap :: "ResourceId option"
  cwa_background_pixel :: "u32 option"
  cwa_bit_gravity :: "u8 option"
  cwa_win_gravity :: "u8 option"
  cwa_backing_store :: "u8 option"
  cwa_backing_planes :: "u32 option"
  cwa_backing_pixel :: "u32 option"
  cwa_override_redirect :: "bool option"
  cwa_save_under :: "bool option"
  cwa_event_mask :: "u32 option"
  cwa_do_not_propagate_mask :: "u16 option"
  cwa_colormap :: "ResourceId option option"
  cwa_cursor :: "ResourceId option"

record ConfigureWindowRequest =
  cfg_window :: ResourceId
  cfg_value_mask :: u16
  cfg_x :: "i16 option"
  cfg_y :: "i16 option"
  cfg_width :: "u16 option"
  cfg_height :: "u16 option"
  cfg_border_width :: "u16 option"
  cfg_sibling :: "ResourceId option"
  cfg_stack_mode :: "u8 option"

record ReparentWindowRequest =
  rep_window :: ResourceId
  rep_parent :: ResourceId
  rep_x :: i16
  rep_y :: i16

record CreatePixmapRequest =
  cp_depth :: u8
  cp_pixmap :: ResourceId
  cp_drawable :: ResourceId
  cp_width :: u16
  cp_height :: u16

record SetClipRectanglesRequest =
  scr_gc :: ResourceId
  scr_clip :: ClipRectangles

end
