(* ===== verification/PresentScheduler.thy ===== *)
theory PresentScheduler
  imports Prelude ResourceTypes
begin

text \<open>
  The scheduler of the Present extension (\<open>crates/xserver-core/src/present_scheduler.rs\<close>): per window
  a queue of presented frames, from which a vblank submits the latest frame that is due and skips
  the earlier ones, and the choice of the path a frame takes to the screen.

  The closure \<open>alien_bo_for\<close>, which is called at most once, is the value it returns. The steps of a
  run are the calls the server makes: a request enqueues, a vblank picks, a destroyed window drains.
\<close>

section \<open>Frames and paths\<close>

datatype PresentPath = PathCopy | Flip u32 | DirectScanout u32

datatype PresentSync = Binary u32 | Timeline u32 u64

fun sync_is_unset :: "PresentSync \<Rightarrow> bool" where
  "sync_is_unset (Binary fence) = (fence = 0)"
| "sync_is_unset (Timeline syncobj v) = (syncobj = 0)"

record QueuedPresent =
  qp_serial :: u32
  qp_pixmap :: ResourceId
  qp_window :: ResourceId
  qp_options :: u32
  qp_target_msc :: u64
  qp_divisor :: u64
  qp_remainder :: u64
  qp_wait :: PresentSync
  qp_idle :: PresentSync
  qp_path :: PresentPath
  qp_valid_region :: u32
  qp_update_region :: u32

definition PRESENT_OPTION_COPY :: u32 where
  "PRESENT_OPTION_COPY = 0x2"

record PathSelectorInputs =
  ps_options :: u32
  ps_valid_region :: u32
  ps_update_region :: u32
  ps_pixmap_w :: u16
  ps_pixmap_h :: u16
  ps_pixmap_format :: u32
  ps_pixmap_modifier :: u64
  ps_window_w :: u16
  ps_window_h :: u16
  ps_window_covers_output :: bool
  ps_output_w :: u16
  ps_output_h :: u16
  ps_output_scanout_format_set :: "(u32 \<times> u64) list"

definition choose_path :: "PathSelectorInputs \<Rightarrow> bool \<Rightarrow> u32 option \<Rightarrow> PresentPath" where
  "choose_path inp flip_path_supported alien_bo_for =
     (if \<not> flip_path_supported then PathCopy
      else if ps_options inp AND PRESENT_OPTION_COPY \<noteq> 0 then PathCopy
      else
        let scanout_compat =
              (ps_pixmap_format inp, ps_pixmap_modifier inp) \<in> set (ps_output_scanout_format_set inp);
            regions_full = (ps_valid_region inp = 0 \<and> ps_update_region inp = 0);
            fullscreen_exact =
              (ps_pixmap_w inp = ps_output_w inp \<and> ps_pixmap_h inp = ps_output_h inp \<and>
               ps_window_covers_output inp \<and> regions_full \<and> scanout_compat)
        in case (fullscreen_exact, scanout_compat) of
             (True, _) \<Rightarrow> (case alien_bo_for of None \<Rightarrow> PathCopy | Some bo \<Rightarrow> DirectScanout bo)
           | (False, True) \<Rightarrow> (case alien_bo_for of None \<Rightarrow> PathCopy | Some bo \<Rightarrow> Flip bo)
           | (False, False) \<Rightarrow> PathCopy)"

section \<open>The queues\<close>

record PresentScheduler =
  sch_queues :: "(ResourceId, QueuedPresent list) hashmap"
  sch_last_flipped :: "(ResourceId, u32) hashmap"

definition scheduler_default :: PresentScheduler where
  "scheduler_default = \<lparr>sch_queues = [], sch_last_flipped = []\<rparr>"

definition enqueue :: "QueuedPresent \<Rightarrow> PresentScheduler \<Rightarrow> PresentScheduler" where
  "enqueue frame s =
     s\<lparr>sch_queues := hm_insert (qp_window frame)
         ((case hm_get (sch_queues s) (qp_window frame) of None \<Rightarrow> [] | Some q \<Rightarrow> q) @ [frame])
         (sch_queues s)\<rparr>"

definition drain_window :: "ResourceId \<Rightarrow> PresentScheduler \<Rightarrow> PresentScheduler \<times> QueuedPresent list" where
  "drain_window w s =
     (s\<lparr>sch_queues := hm_remove w (sch_queues s),
        sch_last_flipped := hm_remove w (sch_last_flipped s)\<rparr>,
      case hm_get (sch_queues s) w of None \<Rightarrow> [] | Some q \<Rightarrow> q)"

definition drain_client :: "u32 \<Rightarrow> PresentScheduler \<Rightarrow> PresentScheduler \<times> QueuedPresent list" where
  "drain_client client s = (s, [])"

definition schedule_satisfied :: "QueuedPresent \<Rightarrow> u64 \<Rightarrow> bool" where
  "schedule_satisfied frame current_msc =
     (if current_msc < qp_target_msc frame then False
      else if qp_divisor frame = 0 then True
      else current_msc mod qp_divisor frame = qp_remainder frame)"

text \<open>\<open>iter().enumerate().rev().find(p)\<close>: the last index whose element satisfies \<open>p\<close>.\<close>

definition last_position :: "('a \<Rightarrow> bool) \<Rightarrow> 'a list \<Rightarrow> nat option" where
  "last_position p xs = map_option (\<lambda>i. length xs - 1 - i) (position p (rev xs))"

definition pick_at_vblank ::
  "ResourceId \<Rightarrow> u64 \<Rightarrow> PresentScheduler
    \<Rightarrow> PresentScheduler \<times> (QueuedPresent option \<times> QueuedPresent list)" where
  "pick_at_vblank w current_msc s =
     (case hm_get (sch_queues s) w of
        None \<Rightarrow> (s, (None, []))
      | Some q \<Rightarrow>
          (case last_position (\<lambda>f. schedule_satisfied f current_msc) q of
             None \<Rightarrow> (s, (None, []))
           | Some idx \<Rightarrow>
               (case drop idx q of
                  [] \<Rightarrow> (s\<lparr>sch_queues := hm_insert w [] (sch_queues s)\<rparr>, (None, take idx q))
                | chosen # rest \<Rightarrow>
                    (s\<lparr>sch_queues := hm_insert w rest (sch_queues s)\<rparr>, (Some chosen, take idx q)))))"

definition record_flipped :: "ResourceId \<Rightarrow> u32 \<Rightarrow> PresentScheduler \<Rightarrow> PresentScheduler \<times> u32 option" where
  "record_flipped w alien_bo s =
     (s\<lparr>sch_last_flipped := hm_insert w alien_bo (sch_last_flipped s)\<rparr>,
      hm_get (sch_last_flipped s) w)"

definition last_flipped :: "PresentScheduler \<Rightarrow> ResourceId \<Rightarrow> u32 option" where
  "last_flipped s w = hm_get (sch_last_flipped s) w"

section \<open>Picking a frame\<close>

definition queue_of :: "PresentScheduler \<Rightarrow> ResourceId \<Rightarrow> QueuedPresent list" where
  "queue_of s w = (case hm_get (sch_queues s) w of None \<Rightarrow> [] | Some q \<Rightarrow> q)"

lemma last_position_None: "last_position p xs = None \<longleftrightarrow> (\<forall>x \<in> set xs. \<not> p x)"
  by (simp add: last_position_def position_None)

lemma last_position_Some:
  assumes "last_position p xs = Some i"
  shows "\<exists>ys x zs. xs = ys @ x # zs \<and> length ys = i \<and> p x \<and> (\<forall>z \<in> set zs. \<not> p z)"
proof -
  obtain j where j: "position p (rev xs) = Some j" "i = length xs - 1 - j"
    using assms by (auto simp: last_position_def)
  note pj = position_Some [OF j(1)]
  then have jl: "j < length xs" by simp
  have nth: "rev xs ! k = xs ! (length xs - 1 - k)" if "k < length xs" for k
    using that by (simp add: rev_nth)
  have "xs = take i xs @ xs ! i # drop (Suc i) xs"
    using jl j(2) by (intro id_take_nth_drop) simp
  moreover have "p (xs ! i)" using pj nth [OF jl] j(2) by simp
  moreover have "\<not> p z" if z: "z \<in> set (drop (Suc i) xs)" for z
  proof -
    obtain k where k: "k < length xs - Suc i" "z = xs ! (Suc i + k)"
      using z by (auto simp: in_set_conv_nth)
    let ?m = "length xs - 1 - (Suc i + k)"
    have "?m < j" "?m < length xs" "length xs - 1 - ?m = Suc i + k" using k(1) jl j(2) by auto
    then show ?thesis using pj nth [of ?m] k(2) by metis
  qed
  moreover have "length (take i xs) = i" using jl j(2) by simp
  ultimately show ?thesis by blast
qed

lemma pick_cases:
  obtains "pick_at_vblank w msc s = (s, (None, []))" "\<forall>f \<in> set (queue_of s w). \<not> schedule_satisfied f msc"
  | skipped f rest where "queue_of s w = skipped @ f # rest" "schedule_satisfied f msc"
      "\<forall>g \<in> set rest. \<not> schedule_satisfied g msc"
      "pick_at_vblank w msc s = (s\<lparr>sch_queues := hm_insert w rest (sch_queues s)\<rparr>, (Some f, skipped))"
proof (cases "hm_get (sch_queues s) w")
  case None
  then show thesis by (intro that(1)) (simp_all add: pick_at_vblank_def queue_of_def)
next
  case (Some q)
  show thesis
  proof (cases "last_position (\<lambda>f. schedule_satisfied f msc) q")
    case None
    then have "\<forall>f \<in> set q. \<not> schedule_satisfied f msc" by (simp add: last_position_None)
    then show thesis
      using Some None by (intro that(1)) (simp_all add: pick_at_vblank_def queue_of_def)
  next
    case (Some i)
    then obtain ys f zs where q: "q = ys @ f # zs" "length ys = i" "schedule_satisfied f msc"
      "\<forall>z \<in> set zs. \<not> schedule_satisfied z msc"
      using last_position_Some by metis
    show thesis
      using \<open>hm_get (sch_queues s) w = Some q\<close> Some q
      by (intro that(2) [of ys f zs]) (simp_all add: pick_at_vblank_def queue_of_def)
  qed
qed

lemma queue_insert [simp]:
  "queue_of (s\<lparr>sch_queues := hm_insert w q (sch_queues s)\<rparr>) v = (if v = w then q else queue_of s v)"
  by (simp add: queue_of_def)

text \<open>
  A vblank submits a frame exactly when some queued frame of the window is due, and then the
  latest one that is; the frames before it are the skipped ones, those after it stay queued and
  none of them is due; no other window is touched.
\<close>

theorem pick_latest_due:
  "case pick_at_vblank w msc s of (s', chosen, skipped) \<Rightarrow>
     (chosen = None) = (\<forall>f \<in> set (queue_of s w). \<not> schedule_satisfied f msc) \<and>
     (case chosen of
        None \<Rightarrow> s' = s \<and> skipped = []
      | Some f \<Rightarrow> schedule_satisfied f msc \<and> queue_of s w = skipped @ f # queue_of s' w \<and>
          (\<forall>g \<in> set (queue_of s' w). \<not> schedule_satisfied g msc) \<and>
          (\<forall>v. v \<noteq> w \<longrightarrow> queue_of s' v = queue_of s v))"
  by (rule pick_cases [where w = w and msc = msc and s = s]) auto

definition example_frame :: "u32 \<Rightarrow> u64 \<Rightarrow> u64 \<Rightarrow> u64 \<Rightarrow> QueuedPresent" where
  "example_frame serial target divisor remainder = \<lparr>qp_serial = serial, qp_pixmap = 7, qp_window = 9,
     qp_options = 0, qp_target_msc = target, qp_divisor = divisor, qp_remainder = remainder,
     qp_wait = Binary 0, qp_idle = Binary 0, qp_path = PathCopy, qp_valid_region = 0,
     qp_update_region = 0\<rparr>"

theorem pick_latest_due_witness:
  "queue_of (fst (pick_at_vblank 9 5 (enqueue (example_frame 1 0 0 0) scheduler_default))) 8 = []"
proof -
  let ?s = "enqueue (example_frame 1 0 0 0) scheduler_default"
  obtain s' c k where p: "pick_at_vblank 9 5 ?s = (s', c, k)" by (metis prod_cases3)
  have "queue_of ?s 8 = []"
    by (simp add: queue_of_def enqueue_def example_frame_def scheduler_default_def)
  moreover have "queue_of s' 8 = queue_of ?s 8"
    using pick_latest_due [where w = 9 and msc = 5 and s = ?s] unfolding p by (cases c) auto
  ultimately show ?thesis by (simp add: p)
qed

section \<open>Whole runs\<close>

datatype SchedulerCall =
    Enqueue QueuedPresent
  | Vblank ResourceId u64
  | WindowDestroyed ResourceId
  | Flipped ResourceId u32

text \<open>One call, and the frames of each window that it hands back, in order.\<close>

fun scheduler_call ::
  "SchedulerCall \<Rightarrow> PresentScheduler \<Rightarrow> PresentScheduler \<times> (ResourceId \<Rightarrow> QueuedPresent list)" where
  "scheduler_call (Enqueue frame) s = (enqueue frame s, \<lambda>v. [])"
| "scheduler_call (Vblank w msc) s =
     (case pick_at_vblank w msc s of
        (s', chosen, skipped) \<Rightarrow>
          (s', (\<lambda>v. [])(w := skipped @ (case chosen of None \<Rightarrow> [] | Some f \<Rightarrow> [f]))))"
| "scheduler_call (WindowDestroyed w) s =
     (case drain_window w s of (s', out) \<Rightarrow> (s', (\<lambda>v. [])(w := out)))"
| "scheduler_call (Flipped w bo) s = (fst (record_flipped w bo s), \<lambda>v. [])"

fun scheduler_run ::
  "SchedulerCall list \<Rightarrow> PresentScheduler \<Rightarrow> PresentScheduler \<times> (ResourceId \<Rightarrow> QueuedPresent list)" where
  "scheduler_run [] s = (s, \<lambda>v. [])"
| "scheduler_run (c # cs) s =
     (case scheduler_call c s of
        (s', out) \<Rightarrow> (case scheduler_run cs s' of (s'', out') \<Rightarrow> (s'', \<lambda>v. out v @ out' v)))"

fun presented :: "SchedulerCall list \<Rightarrow> ResourceId \<Rightarrow> QueuedPresent list" where
  "presented [] w = []"
| "presented (Enqueue f # cs) w = (if qp_window f = w then f # presented cs w else presented cs w)"
| "presented (c # cs) w = presented cs w"

lemma call_conserves:
  "queue_of s w @ presented [c] w = snd (scheduler_call c s) w @ queue_of (fst (scheduler_call c s)) w"
proof (cases c)
  case (Enqueue f)
  then show ?thesis by (simp add: enqueue_def queue_of_def)
next
  case (Vblank v msc)
  show ?thesis
    by (rule pick_cases [where w = v and msc = msc and s = s]) (simp_all add: Vblank)
next
  case (WindowDestroyed v)
  then show ?thesis by (simp add: drain_window_def queue_of_def)
next
  case (Flipped v bo)
  then show ?thesis by (simp add: record_flipped_def queue_of_def)
qed

lemma presented_Cons: "presented (c # cs) w = presented [c] w @ presented cs w"
  by (cases c) simp_all

lemma run_conserves:
  "queue_of s w @ presented cs w = snd (scheduler_run cs s) w @ queue_of (fst (scheduler_run cs s)) w"
proof (induction cs arbitrary: s)
  case (Cons c cs)
  have "queue_of s w @ presented (c # cs) w =
      snd (scheduler_call c s) w @ queue_of (fst (scheduler_call c s)) w @ presented cs w"
    using call_conserves [of s w c] by (subst presented_Cons) simp
  also have "\<dots> = snd (scheduler_run (c # cs) s) w @ queue_of (fst (scheduler_run (c # cs) s)) w"
    unfolding Cons.IH by (simp split: prod.splits)
  finally show ?case .
qed simp

text \<open>
  Claim C33. No frame is lost, doubled or reordered: in any run of the scheduler, the frames presented
  to a window are, in the order of the requests, those handed back so far (submitted, skipped, or
  drained with the window) followed by those still in its queue.
\<close>

theorem present_frames_conserved:
  "presented calls w =
     snd (scheduler_run calls scheduler_default) w @ queue_of (fst (scheduler_run calls scheduler_default)) w"
  using run_conserves [of scheduler_default w calls] by (simp add: queue_of_def scheduler_default_def)

section \<open>When a frame is due\<close>

lemma mod_hit:
  fixes t d r :: nat
  assumes "r < d"
  shows "\<exists>m. t \<le> m \<and> m < t + d \<and> m mod d = r"
proof -
  obtain q k where t: "t = q * d + k" "k < d"
    using assms mod_less_divisor [of d t] div_mult_mod_eq [of t d] by (metis gr_zeroI not_less_zero)
  show ?thesis
  proof (cases "k \<le> r")
    case True
    then show ?thesis using t assms by (intro exI [of _ "q * d + r"]) simp
  next
    case False
    have s: "Suc q * d = q * d + d" by simp
    have "t \<le> Suc q * d + r" "Suc q * d + r < t + d"
      using False t unfolding s by linarith+
    moreover have "(Suc q * d + r) mod d = r" using assms by (simp del: mult_Suc)
    ultimately show ?thesis by blast
  qed
qed

text \<open>
  When a frame is due: never before its target; without a divisor at every later vblank;
  with one, if the remainder is below it, at the target or fewer than \<open>divisor\<close> vblanks after it; and
  if the remainder is not below the divisor, at no vblank at all, so that only a later frame of the
  window can push it out.
\<close>

theorem schedule_due:
  assumes "unat (qp_target_msc f) + unat (qp_divisor f) < 2 ^ 64"
  shows "(\<forall>m. m < qp_target_msc f \<longrightarrow> \<not> schedule_satisfied f m) \<and>
    (if qp_divisor f = 0 then (\<forall>m. qp_target_msc f \<le> m \<longrightarrow> schedule_satisfied f m)
     else if qp_remainder f < qp_divisor f
     then (\<exists>m. qp_target_msc f \<le> m \<and> unat m < unat (qp_target_msc f) + unat (qp_divisor f) \<and>
       schedule_satisfied f m)
     else (\<forall>m. \<not> schedule_satisfied f m))"
proof -
  let ?t = "qp_target_msc f" and ?d = "qp_divisor f" and ?r = "qp_remainder f"
  have early: "\<not> schedule_satisfied f m" if "m < ?t" for m
    using that by (simp add: schedule_satisfied_def)
  show ?thesis
  proof (cases "?d = 0")
    case True
    then show ?thesis using early by (auto simp: schedule_satisfied_def)
  next
    case False
    show ?thesis
    proof (cases "?r < ?d")
      case True
      then have "unat ?r < unat ?d" by (simp add: word_less_nat_alt)
      then obtain m where m: "unat ?t \<le> m" "m < unat ?t + unat ?d" "m mod unat ?d = unat ?r"
        using mod_hit by blast
      have u: "unat (of_nat m :: u64) = m"
        using m(2) assms by (intro unat_of_nat_id) simp
      have "of_nat m mod ?d = ?r"
        by (rule word_unat_eq_iff [THEN iffD2]) (simp add: unat_mod_distrib u m(3))
      moreover have "?t \<le> of_nat m" using m(1) u by (simp add: word_le_nat_alt)
      ultimately have "?t \<le> of_nat m \<and> unat (of_nat m :: u64) < unat ?t + unat ?d \<and>
          schedule_satisfied f (of_nat m)"
        using m(2) u by (auto simp: schedule_satisfied_def)
      then show ?thesis using True False early by auto
    next
      case outside: False
      have "\<not> schedule_satisfied f m" for m
      proof -
        have "unat m mod unat ?d < unat ?d" using False by (simp add: unat_gt_0)
        then have "m mod ?d < ?d" by (simp add: word_less_nat_alt unat_mod_distrib)
        then show ?thesis using outside False by (auto simp: schedule_satisfied_def)
      qed
      then show ?thesis using outside False by auto
    qed
  qed
qed

theorem schedule_due_witness:
  "\<exists>m. unat m < 15 \<and> schedule_satisfied (example_frame 1 10 5 3) m"
  using schedule_due [of "example_frame 1 10 5 3"] by (auto simp: example_frame_def)

end
