(* ===== verification/GcRequests.thy ===== *)
theory GcRequests
  imports ResourceTypes
begin

text \<open>
  The requests that set the attributes of a graphics context
  (\<open>crates/xserver-protocol/src/x11/mod.rs\<close>), with the 23 attribute slots as options, and the
  projection of both onto one structure (\<open>crates/xserver-core/src/resources.rs\<close>).
\<close>

record CreateGcRequest =
  cgc_gc :: ResourceId
  cgc_drawable :: ResourceId
  cgc_function :: "u8 option"
  cgc_plane_mask :: "u32 option"
  cgc_foreground :: "u32 option"
  cgc_background :: "u32 option"
  cgc_line_width :: "u16 option"
  cgc_line_style :: "u8 option"
  cgc_cap_style :: "u8 option"
  cgc_join_style :: "u8 option"
  cgc_fill_style :: "u8 option"
  cgc_fill_rule :: "u8 option"
  cgc_tile :: "ResourceId option"
  cgc_stipple :: "ResourceId option"
  cgc_tile_x_origin :: "i16 option"
  cgc_tile_y_origin :: "i16 option"
  cgc_font :: "ResourceId option"
  cgc_subwindow_mode :: "u8 option"
  cgc_graphics_exposures :: "bool option"
  cgc_clip_x_origin :: "i16 option"
  cgc_clip_y_origin :: "i16 option"
  cgc_clip_mask :: "ResourceId option option"
  cgc_dash_offset :: "u16 option"
  cgc_dashes :: "u8 option"
  cgc_arc_mode :: "u8 option"

record GcChange =
  gch_gc :: ResourceId
  gch_function :: "u8 option"
  gch_plane_mask :: "u32 option"
  gch_foreground :: "u32 option"
  gch_background :: "u32 option"
  gch_line_width :: "u16 option"
  gch_line_style :: "u8 option"
  gch_cap_style :: "u8 option"
  gch_join_style :: "u8 option"
  gch_fill_style :: "u8 option"
  gch_fill_rule :: "u8 option"
  gch_tile :: "ResourceId option"
  gch_stipple :: "ResourceId option"
  gch_tile_x_origin :: "i16 option"
  gch_tile_y_origin :: "i16 option"
  gch_font :: "ResourceId option"
  gch_subwindow_mode :: "u8 option"
  gch_graphics_exposures :: "bool option"
  gch_clip_mask :: "ResourceId option option"
  gch_clip_x_origin :: "i16 option"
  gch_clip_y_origin :: "i16 option"
  gch_dash_offset :: "u16 option"
  gch_dashes :: "u8 option"
  gch_arc_mode :: "u8 option"

record GcChangeView =
  gcv_function :: "u8 option"
  gcv_plane_mask :: "u32 option"
  gcv_foreground :: "u32 option"
  gcv_background :: "u32 option"
  gcv_line_width :: "u16 option"
  gcv_line_style :: "u8 option"
  gcv_cap_style :: "u8 option"
  gcv_join_style :: "u8 option"
  gcv_fill_style :: "u8 option"
  gcv_fill_rule :: "u8 option"
  gcv_tile :: "ResourceId option"
  gcv_stipple :: "ResourceId option"
  gcv_tile_x_origin :: "i16 option"
  gcv_tile_y_origin :: "i16 option"
  gcv_font :: "ResourceId option"
  gcv_subwindow_mode :: "u8 option"
  gcv_graphics_exposures :: "bool option"
  gcv_clip_x_origin :: "i16 option"
  gcv_clip_y_origin :: "i16 option"
  gcv_clip_mask :: "ResourceId option option"
  gcv_dash_offset :: "u16 option"
  gcv_dashes :: "u8 option"
  gcv_arc_mode :: "u8 option"

end
