(* ===== verification/Windows.thy ===== *)
theory Windows
  imports ResourceTypes
begin

text \<open>
  The window tree of \<open>ResourceTable\<close> (\<open>crates/xserver-core/src/resources.rs\<close>): the initial table,
  creation, destruction, the composite overlay window (COW), configuration and restacking,
  mapping, circulation and reparenting. An operation on \<open>&mut self\<close> takes the table last and
  returns it; children are listed bottom to top.

  \<open>destroy_window_inner\<close> and \<open>promote_unviewable_descendants\<close> recurse into the children of a
  window that is already out of the way, so they are written here as loops over the list of
  windows still to visit, in the order in which the recursion visits them.
\<close>

abbreviation map_or :: "'b \<Rightarrow> ('a \<Rightarrow> 'b) \<Rightarrow> 'a option \<Rightarrow> 'b" where
  "map_or d f x \<equiv> case_option d f x"

abbreviation unwrap_or :: "'a option \<Rightarrow> 'a \<Rightarrow> 'a" where
  "unwrap_or x d \<equiv> case_option d (\<lambda>v. v) x"

section \<open>The table at start-up\<close>

definition root_window :: Window where
  "root_window = \<lparr>win_id = ROOT_WINDOW, win_parent = ROOT_WINDOW, win_children = [],
     win_x = 0, win_y = 0, win_width = 800, win_height = 600, win_border_width = 0,
     win_depth = 24, win_visual = ROOT_VISUAL, win_class = InputOutput, win_map_state = Viewable,
     win_background_pixel = 0x00FFFFFF, win_background_pixmap = None, win_background_none = False,
     win_background_pixmap_host_xid = None, win_border_pixmap_host_xid = None,
     win_override_redirect = False, win_bit_gravity = 0, win_win_gravity = 1,
     win_backing_store = 0, win_backing_planes = - 1, win_backing_pixel = 0,
     win_save_under = False, win_do_not_propagate_mask = 0, win_colormap = ROOT_COLORMAP,
     win_cursor = None, win_owner = SERVER_OWNER, win_properties = [], win_host_xid = None,
     win_composite_named_pixmaps = [], win_redirected_backing = None\<rparr>"

definition true_color_visual :: "ResourceId \<Rightarrow> u8 \<Rightarrow> u32 \<Rightarrow> Visual" where
  "true_color_visual i depth alpha = \<lparr>vis_id = i, vis_class = VISUAL_CLASS_TRUE_COLOR,
     vis_depth = depth, vis_bits_per_rgb = 8, vis_colormap_entries = 256,
     vis_red_mask = 0x00FF0000, vis_green_mask = 0x0000FF00, vis_blue_mask = 0x000000FF,
     vis_alpha_mask = alpha, vis_host_visual_xid = None\<rparr>"

definition default_table :: ResourceTable where
  "default_table = \<lparr>rt_windows = hm_insert ROOT_WINDOW root_window [],
     rt_pixmaps = [], rt_gcs = [], rt_fonts = [], rt_cursors = [], rt_pictures = [],
     rt_glyphsets = [], rt_host_glyphset_refcounts = [],
     rt_visuals = hm_insert ARGB_VISUAL (true_color_visual ARGB_VISUAL 32 0xFF000000)
       (hm_insert ROOT_VISUAL (true_color_visual ROOT_VISUAL 24 0) []),
     rt_colormaps =
       hm_insert ARGB_COLORMAP \<lparr>cm_id = ARGB_COLORMAP, cm_visual = ARGB_VISUAL,
           cm_host_colormap_xid = None, cm_owner = 0\<rparr>
         (hm_insert ROOT_COLORMAP \<lparr>cm_id = ROOT_COLORMAP, cm_visual = ROOT_VISUAL,
             cm_host_colormap_xid = None, cm_owner = 0\<rparr> [])\<rparr>"

definition window_placeholder :: "ResourceId \<Rightarrow> Window" where
  "window_placeholder i = \<lparr>win_id = i, win_parent = ROOT_WINDOW, win_children = [],
     win_x = 0, win_y = 0, win_width = 1, win_height = 1, win_border_width = 0,
     win_depth = 24, win_visual = ROOT_VISUAL, win_class = InputOutput, win_map_state = Unmapped,
     win_background_pixel = 0x00FFFFFF, win_background_pixmap = None, win_background_none = False,
     win_background_pixmap_host_xid = None, win_border_pixmap_host_xid = None,
     win_override_redirect = False, win_bit_gravity = 0, win_win_gravity = 1,
     win_backing_store = 0, win_backing_planes = - 1, win_backing_pixel = 0,
     win_save_under = False, win_do_not_propagate_mask = 0, win_colormap = ROOT_COLORMAP,
     win_cursor = None, win_owner = SERVER_OWNER, win_properties = [], win_host_xid = None,
     win_composite_named_pixmaps = [], win_redirected_backing = None\<rparr>"

definition window :: "ResourceTable \<Rightarrow> ResourceId \<Rightarrow> Window option" where
  "window t i = hm_get (rt_windows t) i"

definition children :: "ResourceTable \<Rightarrow> ResourceId \<Rightarrow> ResourceId list" where
  "children t parent = map_or [] win_children (window t parent)"

definition parent_of :: "ResourceTable \<Rightarrow> ResourceId \<Rightarrow> ResourceId option" where
  "parent_of t i = map_option win_parent (window t i)"

definition window_owner :: "ResourceTable \<Rightarrow> ResourceId \<Rightarrow> ClientId option" where
  "window_owner t i = map_option win_owner (window t i)"

text \<open>\<open>if let Some(w) = self.windows.get_mut(&i)\<close>\<close>

definition modify_window :: "ResourceId \<Rightarrow> (Window \<Rightarrow> Window) \<Rightarrow> ResourceTable \<Rightarrow> ResourceTable" where
  "modify_window i f t = t\<lparr>rt_windows := hm_modify i f (rt_windows t)\<rparr>"

definition insert_window :: "ResourceId \<Rightarrow> Window \<Rightarrow> ResourceTable \<Rightarrow> ResourceTable" where
  "insert_window i w t = t\<lparr>rt_windows := hm_insert i w (rt_windows t)\<rparr>"

section \<open>Creation\<close>

definition cow_aware_top_index :: "Window \<Rightarrow> nat" where
  "cow_aware_top_index parent =
     (if win_children parent \<noteq> [] \<and> last (win_children parent) = COMPOSITE_OVERLAY_WINDOW
      then length (win_children parent) - 1
      else length (win_children parent))"

definition new_window :: "ClientId \<Rightarrow> CreateWindowRequest \<Rightarrow> ResourceTable \<Rightarrow> Window" where
  "new_window owner r t =
     (let parent = window t (cw_parent r) in
      \<lparr>win_id = cw_window r, win_parent = cw_parent r, win_children = [],
       win_x = cw_x r, win_y = cw_y r, win_width = cw_width r, win_height = cw_height r,
       win_border_width = cw_border_width r,
       win_depth = (if cw_depth r = 0 then map_or 24 win_depth parent else cw_depth r),
       win_visual = (if cw_visual r = 0 then map_or ROOT_VISUAL win_visual parent else cw_visual r),
       win_class = (if cw_class r = 0 then map_or InputOutput win_class parent
                    else WindowClass_from_protocol (cw_class r)),
       win_map_state = Unmapped,
       win_background_pixel = unwrap_or (cw_background_pixel r) 0x00FFFFFF,
       win_background_pixmap =
         (case cw_background_pixmap r of Some p \<Rightarrow> if p \<noteq> 0 then Some p else None | None \<Rightarrow> None),
       win_background_none =
         (cw_background_pixel r = None \<and>
          \<not> (case cw_background_pixmap r of Some p \<Rightarrow> p \<noteq> 0 | None \<Rightarrow> False)),
       win_background_pixmap_host_xid =
         (case cw_background_pixmap r of
            Some p \<Rightarrow> if p > 1 then Option.bind (hm_get (rt_pixmaps t) p) pm_host_xid else None
          | None \<Rightarrow> None),
       win_border_pixmap_host_xid = None,
       win_override_redirect = unwrap_or (cw_override_redirect r) False,
       win_bit_gravity = unwrap_or (cw_bit_gravity r) 0,
       win_win_gravity = unwrap_or (cw_win_gravity r) 1,
       win_backing_store = unwrap_or (cw_backing_store r) 0,
       win_backing_planes = unwrap_or (cw_backing_planes r) (- 1),
       win_backing_pixel = unwrap_or (cw_backing_pixel r) 0,
       win_save_under = unwrap_or (cw_save_under r) False,
       win_do_not_propagate_mask = unwrap_or (cw_do_not_propagate_mask r) 0,
       win_colormap =
         (case cw_colormap r of
            Some (Some i) \<Rightarrow> i
          | _ \<Rightarrow> map_or ROOT_COLORMAP win_colormap parent),
       win_cursor = None, win_owner = owner, win_properties = [], win_host_xid = None,
       win_composite_named_pixmaps = [], win_redirected_backing = None\<rparr>)"

definition create_window :: "ClientId \<Rightarrow> CreateWindowRequest \<Rightarrow> ResourceTable \<Rightarrow> ResourceTable" where
  "create_window owner r t =
     (let w = new_window owner r t;
          parent_entry = unwrap_or (window t (cw_parent r)) (window_placeholder (cw_parent r));
          insert_at = cow_aware_top_index parent_entry;
          parent_entry' = parent_entry\<lparr>win_children :=
            vec_insert insert_at (cw_window r) (win_children parent_entry)\<rparr>
      in insert_window (cw_window r) w (insert_window (cw_parent r) parent_entry' t))"

section \<open>Destruction\<close>

function destroy_loop ::
  "ResourceTable \<Rightarrow> ResourceId list \<Rightarrow> ResourceId list \<Rightarrow> ResourceTable \<times> ResourceId list" where
  "destroy_loop t [] destroyed = (t, destroyed)"
| "destroy_loop t (i # pending) destroyed =
     (if i = ROOT_WINDOW then destroy_loop t pending destroyed
      else
        (case window t i of
           None \<Rightarrow> destroy_loop t pending destroyed
         | Some w \<Rightarrow>
             let t1 = t\<lparr>rt_windows := hm_remove i (rt_windows t)\<rparr>;
                 t2 = modify_window (win_parent w)
                   (\<lambda>p. p\<lparr>win_children := filter (\<lambda>c. c \<noteq> i) (win_children p)\<rparr>) t1
             in destroy_loop t2 (win_children w @ pending) (destroyed @ [i])))"
  by pat_completeness auto

lemma hm_len_remove: "hm_get m k \<noteq> None \<Longrightarrow> hm_len (hm_remove k m) < hm_len m"
  unfolding hm_len_def hm_remove_def hm_get_def
proof (induction m)
  case (Cons x m)
  have "length (AList.delete k m) \<le> length m" by (rule length_delete_le)
  then show ?case using Cons by (cases x) (auto split: if_splits)
qed simp

lemma hm_len_modify [simp]: "hm_len (hm_modify k f m) = hm_len m"
proof (cases "hm_get m k")
  case (Some v)
  have "map fst (AList.update k x m) = map fst m" if "k \<in> fst ` set m" for x
    using that by (simp add: update_keys)
  moreover have "k \<in> fst ` set m"
    using Some unfolding hm_get_def by (force dest: map_of_SomeD)
  ultimately show ?thesis
    using Some unfolding hm_modify_def hm_len_def hm_insert_def
    by (metis length_map option.simps(5))
qed (simp add: hm_modify_def)

termination destroy_loop
proof (relation "measures [\<lambda>(t, pending, d). hm_len (rt_windows t), \<lambda>(t, pending, d). length pending]")
  fix t i pending destroyed w t1 t2
  assume "window t i = Some w" "t1 = t\<lparr>rt_windows := hm_remove i (rt_windows t)\<rparr>"
    "t2 = modify_window (win_parent w)
       (\<lambda>p. p\<lparr>win_children := filter (\<lambda>c. c \<noteq> i) (win_children p)\<rparr>) t1"
  then have "hm_len (rt_windows t2) < hm_len (rt_windows t)"
    by (simp add: modify_window_def window_def hm_len_remove)
  then show "((t2, win_children w @ pending, destroyed @ [i]), t, i # pending, destroyed)
      \<in> measures [\<lambda>(t, pending, d). hm_len (rt_windows t), \<lambda>(t, pending, d). length pending]"
    by simp
qed auto

definition destroy_window :: "ResourceId \<Rightarrow> ResourceTable \<Rightarrow> ResourceTable \<times> ResourceId list" where
  "destroy_window i t = destroy_loop t [i] []"

text \<open>Every step of the recursion removes one window from the table, so it always ends.\<close>

definition materialize_cow_resource :: "WindowHandle \<Rightarrow> ResourceTable \<Rightarrow> ResourceTable" where
  "materialize_cow_resource host t =
     (let root = window t ROOT_WINDOW;
          cow = (window_placeholder COMPOSITE_OVERLAY_WINDOW)
            \<lparr>win_parent := ROOT_WINDOW, win_x := 0, win_y := 0,
             win_width := map_or 1 win_width root, win_height := map_or 1 win_height root,
             win_depth := 24, win_visual := map_or ROOT_VISUAL win_visual root,
             win_class := InputOutput, win_map_state := Viewable,
             win_override_redirect := True, win_host_xid := Some host\<rparr>
      in modify_window ROOT_WINDOW
           (\<lambda>r. r\<lparr>win_children :=
              vec_insert (cow_aware_top_index r) COMPOSITE_OVERLAY_WINDOW (win_children r)\<rparr>)
           (insert_window COMPOSITE_OVERLAY_WINDOW cow t))"

definition destroy_cow_resource :: "ResourceTable \<Rightarrow> ResourceTable" where
  "destroy_cow_resource t =
     (let t1 = modify_window ROOT_WINDOW
        (\<lambda>r. r\<lparr>win_children := filter (\<lambda>c. c \<noteq> COMPOSITE_OVERLAY_WINDOW) (win_children r)\<rparr>) t
      in t1\<lparr>rt_windows := hm_remove COMPOSITE_OVERLAY_WINDOW (rt_windows t1)\<rparr>)"

definition configure_notify_above_sibling :: "ResourceTable \<Rightarrow> ResourceId \<Rightarrow> ResourceId option" where
  "configure_notify_above_sibling t i =
     (case window t i of
        None \<Rightarrow> None
      | Some w \<Rightarrow>
          (case window t (win_parent w) of
             None \<Rightarrow> None
           | Some parent \<Rightarrow>
               (case position (\<lambda>c. c = i) (win_children parent) of
                  None \<Rightarrow> None
                | Some index \<Rightarrow>
                    if index = 0 then None else Some (win_children parent ! (index - 1)))))"

section \<open>Restacking\<close>

datatype RestackAction =
    NoOp | Top | Bottom | AboveSibling ResourceId | BelowSibling ResourceId

definition window_bounding_box :: "Window \<Rightarrow> int \<times> int \<times> int \<times> int" where
  "window_bounding_box w =
     (let bw = i32_of_u16 (win_border_width w);
          x0 = i32_of_i16 (win_x w);
          y0 = i32_of_i16 (win_y w)
      in (x0, y0, x0 + i32_of_u16 (win_width w) + 2 * bw, y0 + i32_of_u16 (win_height w) + 2 * bw))"

definition window_rects_overlap :: "Window \<Rightarrow> Window \<Rightarrow> bool" where
  "window_rects_overlap a b =
     (case (window_bounding_box a, window_bounding_box b) of
        ((ax0, ay0, ax1, ay1), (bx0, by0, bx1, by1)) \<Rightarrow>
          ax0 < bx1 \<and> bx0 < ax1 \<and> ay0 < by1 \<and> by0 < ay1)"

text \<open>The two occlusion scans, over the children above and below the window.\<close>

definition occludes_some :: "ResourceTable \<Rightarrow> Window \<Rightarrow> ResourceId option \<Rightarrow> ResourceId list \<Rightarrow> bool" where
  "occludes_some t w sibling others \<longleftrightarrow>
     list_ex (\<lambda>other_id.
       (case sibling of Some sib \<Rightarrow> other_id = sib | None \<Rightarrow> True) \<and>
       (case window t other_id of
          None \<Rightarrow> False
        | Some other \<Rightarrow> win_map_state other \<noteq> Unmapped \<and> window_rects_overlap w other)) others"

definition any_sibling_occludes_window ::
  "ResourceTable \<Rightarrow> ResourceId \<Rightarrow> nat \<Rightarrow> ResourceId option \<Rightarrow> bool" where
  "any_sibling_occludes_window t parent_id window_index sibling =
     (case window t parent_id of
        None \<Rightarrow> False
      | Some parent \<Rightarrow>
          if window_index < length (win_children parent)
          then
            (case window t (win_children parent ! window_index) of
               None \<Rightarrow> False
             | Some w \<Rightarrow>
                 win_map_state w \<noteq> Unmapped \<and>
                 occludes_some t w sibling (drop (Suc window_index) (win_children parent)))
          else False)"

definition window_occludes_any_sibling ::
  "ResourceTable \<Rightarrow> ResourceId \<Rightarrow> nat \<Rightarrow> ResourceId option \<Rightarrow> bool" where
  "window_occludes_any_sibling t parent_id window_index sibling =
     (case window t parent_id of
        None \<Rightarrow> False
      | Some parent \<Rightarrow>
          if window_index < length (win_children parent)
          then
            (case window t (win_children parent ! window_index) of
               None \<Rightarrow> False
             | Some w \<Rightarrow>
                 win_map_state w \<noteq> Unmapped \<and>
                 occludes_some t w sibling (take window_index (win_children parent)))
          else False)"

definition resolve_restack_action ::
  "ResourceTable \<Rightarrow> ResourceId \<Rightarrow> ResourceId \<Rightarrow> ResourceId option \<Rightarrow> u8 \<Rightarrow> RestackAction option" where
  "resolve_restack_action t window_id parent_id sibling stack_mode =
     (case window t parent_id of
        None \<Rightarrow> None
      | Some parent \<Rightarrow>
          (case position (\<lambda>c. c = window_id) (win_children parent) of
             None \<Rightarrow> None
           | Some window_index \<Rightarrow>
               if (case sibling of Some sib \<Rightarrow> sib \<notin> set (win_children parent) | None \<Rightarrow> False)
               then None
               else if stack_mode = 0
               then Some (case sibling of Some sib \<Rightarrow> AboveSibling sib | None \<Rightarrow> Top)
               else if stack_mode = 1
               then Some (case sibling of Some sib \<Rightarrow> BelowSibling sib | None \<Rightarrow> Bottom)
               else if stack_mode = 2
               then Some (if any_sibling_occludes_window t parent_id window_index sibling
                          then Top else NoOp)
               else if stack_mode = 3
               then Some (if window_occludes_any_sibling t parent_id window_index sibling
                          then Bottom else NoOp)
               else if stack_mode = 4
               then Some (if any_sibling_occludes_window t parent_id window_index sibling then Top
                          else if window_occludes_any_sibling t parent_id window_index sibling
                          then Bottom else NoOp)
               else None))"

text \<open>The effect of an action on the parent; \<open>index\<close> is the window's place among its children.\<close>

definition apply_restack :: "RestackAction \<Rightarrow> nat \<Rightarrow> ResourceId \<Rightarrow> Window \<Rightarrow> Window" where
  "apply_restack action index window_id parent =
     (let removed = parent\<lparr>win_children := vec_remove index (win_children parent)\<rparr>;
          place = (\<lambda>at. removed\<lparr>win_children := vec_insert at window_id (win_children removed)\<rparr>)
      in case action of
           NoOp \<Rightarrow> parent
         | Top \<Rightarrow> place (cow_aware_top_index removed)
         | Bottom \<Rightarrow> place 0
         | AboveSibling sibling_id \<Rightarrow>
             place (if sibling_id = COMPOSITE_OVERLAY_WINDOW then cow_aware_top_index removed
                    else map_or (length (win_children removed)) (\<lambda>i. i + 1)
                           (position (\<lambda>c. c = sibling_id) (win_children removed)))
         | BelowSibling sibling_id \<Rightarrow>
             place (unwrap_or (position (\<lambda>c. c = sibling_id) (win_children removed)) 0))"

definition restack_window ::
  "ResourceId \<Rightarrow> ResourceId option \<Rightarrow> u8 option \<Rightarrow> ResourceTable \<Rightarrow> ResourceTable" where
  "restack_window window_id sibling stack_mode t =
     (case stack_mode of
        None \<Rightarrow> t
      | Some mode \<Rightarrow>
          (case parent_of t window_id of
             None \<Rightarrow> t
           | Some parent_id \<Rightarrow>
               (case resolve_restack_action t window_id parent_id sibling mode of
                  None \<Rightarrow> t
                | Some action \<Rightarrow>
                    (case window t parent_id of
                       None \<Rightarrow> t
                     | Some parent \<Rightarrow>
                         (case position (\<lambda>c. c = window_id) (win_children parent) of
                            None \<Rightarrow> t
                          | Some index \<Rightarrow>
                              insert_window parent_id (apply_restack action index window_id parent) t)))))"

definition configure_geometry :: "ConfigureWindowRequest \<Rightarrow> Window \<Rightarrow> Window" where
  "configure_geometry r w = w\<lparr>win_x := unwrap_or (cfg_x r) (win_x w),
     win_y := unwrap_or (cfg_y r) (win_y w), win_width := unwrap_or (cfg_width r) (win_width w),
     win_height := unwrap_or (cfg_height r) (win_height w),
     win_border_width := unwrap_or (cfg_border_width r) (win_border_width w)\<rparr>"

definition configure_window :: "ConfigureWindowRequest \<Rightarrow> ResourceTable \<Rightarrow> ResourceTable \<times> Window option" where
  "configure_window r t =
     (case window t (cfg_window r) of
        None \<Rightarrow> (t, None)
      | Some w \<Rightarrow>
          let t1 = insert_window (cfg_window r) (configure_geometry r w) t;
              t2 = restack_window (cfg_window r) (cfg_sibling r) (cfg_stack_mode r) t1
          in (t2, window t2 (cfg_window r)))"

section \<open>Mapping\<close>

partial_function (option) promote_loop :: "ResourceTable \<Rightarrow> ResourceId list \<Rightarrow> ResourceTable option" where
  "promote_loop t pending =
     (case pending of
        [] \<Rightarrow> Some t
      | child # rest \<Rightarrow>
          (case window t child of
             None \<Rightarrow> promote_loop t rest
           | Some w \<Rightarrow>
               (if win_map_state w = Unmapped then promote_loop t rest
                else promote_loop
                  (modify_window child (\<lambda>w. w\<lparr>win_map_state := Viewable\<rparr>) t)
                  (win_children w @ rest))))"

definition promote_unviewable_descendants :: "ResourceId \<Rightarrow> ResourceTable \<Rightarrow> ResourceTable option" where
  "promote_unviewable_descendants root t = promote_loop t (children t root)"

text \<open>The Boolean says whether the window was unmapped; \<open>None\<close> stands for a recursion without end.\<close>

definition map_window :: "ResourceId \<Rightarrow> ResourceTable \<Rightarrow> (ResourceTable \<times> bool) option" where
  "map_window i t =
     (let parent_viewable =
        (case parent_of t i of
           Some pid \<Rightarrow> if pid = i then True
             else (case window t pid of Some p \<Rightarrow> win_map_state p = Viewable | None \<Rightarrow> False)
         | None \<Rightarrow> False)
      in case window t i of
           None \<Rightarrow> Some (t, False)
         | Some w \<Rightarrow>
             let was_unmapped = (win_map_state w = Unmapped);
                 t1 = modify_window i (\<lambda>w. w\<lparr>win_map_state :=
                   (if parent_viewable then Viewable else Unviewable)\<rparr>) t
             in if parent_viewable
                then map_option (\<lambda>t2. (t2, was_unmapped)) (promote_unviewable_descendants i t1)
                else Some (t1, was_unmapped))"

definition unmap_window :: "ResourceId \<Rightarrow> ResourceTable \<Rightarrow> ResourceTable \<times> bool" where
  "unmap_window i t =
     (if i = ROOT_WINDOW then (t, False)
      else
        (case window t i of
           None \<Rightarrow> (t, False)
         | Some w \<Rightarrow>
             (modify_window i (\<lambda>w. w\<lparr>win_map_state := Unmapped\<rparr>) t, win_map_state w \<noteq> Unmapped)))"

section \<open>Attributes\<close>

text \<open>The assignments of \<open>change_window_attributes\<close> to the window, in the order of the code;
  \<open>host\<close> is the handle of the new background pixmap, \<open>cmap\<close> the colormap resolved beforehand.\<close>

definition apply_window_attributes ::
  "ChangeWindowAttributesRequest \<Rightarrow> PixmapHandle option \<Rightarrow> ResourceId option \<Rightarrow> Window \<Rightarrow> Window" where
  "apply_window_attributes r host cmap w =
     (let w1 = (case cwa_background_pixmap r of
                  None \<Rightarrow> w
                | Some bg \<Rightarrow> w\<lparr>win_background_pixmap := (if bg = 0 then None else Some bg),
                                win_background_pixmap_host_xid := host,
                                win_background_none := (bg = 0)\<rparr>);
          w2 = (case cwa_background_pixel r of
                  None \<Rightarrow> w1
                | Some px \<Rightarrow> w1\<lparr>win_background_pixel := px, win_background_none := False\<rparr>)
      in w2\<lparr>win_bit_gravity := unwrap_or (cwa_bit_gravity r) (win_bit_gravity w2),
            win_win_gravity := unwrap_or (cwa_win_gravity r) (win_win_gravity w2),
            win_backing_store := unwrap_or (cwa_backing_store r) (win_backing_store w2),
            win_backing_planes := unwrap_or (cwa_backing_planes r) (win_backing_planes w2),
            win_backing_pixel := unwrap_or (cwa_backing_pixel r) (win_backing_pixel w2),
            win_override_redirect := unwrap_or (cwa_override_redirect r) (win_override_redirect w2),
            win_save_under := unwrap_or (cwa_save_under r) (win_save_under w2),
            win_do_not_propagate_mask :=
              unwrap_or (cwa_do_not_propagate_mask r) (win_do_not_propagate_mask w2),
            win_colormap := unwrap_or cmap (win_colormap w2),
            win_cursor := (case cwa_cursor r of Some c \<Rightarrow> Some c | None \<Rightarrow> win_cursor w2)\<rparr>)"

text \<open>The second component is the replaced background pixmap of the host, if any.\<close>

definition change_window_attributes ::
  "ChangeWindowAttributesRequest \<Rightarrow> ResourceTable \<Rightarrow> ResourceTable \<times> PixmapHandle option" where
  "change_window_attributes r t =
     (let host = (case cwa_background_pixmap r of
            None \<Rightarrow> None
          | Some bg \<Rightarrow> if bg = 0 then None else Option.bind (hm_get (rt_pixmaps t) bg) pm_host_xid);
          cmap = (case cwa_colormap r of
            None \<Rightarrow> None
          | Some (Some i) \<Rightarrow> Some i
          | Some None \<Rightarrow>
              Some (map_or ROOT_COLORMAP win_colormap
                (window t (unwrap_or (parent_of t (cwa_window r)) ROOT_WINDOW))))
      in case window t (cwa_window r) of
           None \<Rightarrow> (t, None)
         | Some w \<Rightarrow>
             (insert_window (cwa_window r) (apply_window_attributes r host cmap w) t,
              if cwa_background_pixmap r \<noteq> None \<and> win_background_pixmap_host_xid w \<noteq> host
              then win_background_pixmap_host_xid w else None))"

section \<open>Circulation, descent and reparenting\<close>

definition circulate_window :: "ResourceId \<Rightarrow> u8 \<Rightarrow> ResourceTable \<Rightarrow> ResourceTable \<times> ResourceId option" where
  "circulate_window container direction t =
     (case window t container of
        None \<Rightarrow> (t, None)
      | Some parent \<Rightarrow>
          let top = (if container = ROOT_WINDOW then cow_aware_top_index parent
                     else length (win_children parent));
              kids = win_children parent;
              put = (\<lambda>ks. insert_window container (parent\<lparr>win_children := ks\<rparr>) t)
          in if top < 2 then (t, None)
             else if direction = 0
             then (put (vec_insert 0 (kids ! (top - 1)) (vec_remove (top - 1) kids)),
                   Some (kids ! (top - 1)))
             else if direction = 1
             then (put (vec_insert (top - 1) (kids ! 0) (vec_remove 0 kids)), Some (kids ! 0))
             else (t, None))"

definition mapped_children_bottom_to_top :: "ResourceTable \<Rightarrow> ResourceId \<Rightarrow> ResourceId list option" where
  "mapped_children_bottom_to_top t parent =
     (case window t parent of
        None \<Rightarrow> None
      | Some p \<Rightarrow> Some (filter (\<lambda>c. case window t c of Some w \<Rightarrow> win_map_state w \<noteq> Unmapped
                                       | None \<Rightarrow> False) (win_children p)))"

function descendant_loop :: "ResourceTable \<Rightarrow> ResourceId \<Rightarrow> ResourceId \<Rightarrow> nat \<Rightarrow> bool" where
  "descendant_loop t ancestor current seen =
     (if current \<noteq> ROOT_WINDOW \<and> seen \<le> hm_len (rt_windows t)
      then
        (case window t current of
           None \<Rightarrow> False
         | Some w \<Rightarrow>
             if win_parent w = ancestor then True
             else if win_parent w = current then False
             else descendant_loop t ancestor (win_parent w) (seen + 1))
      else False)"
  by auto
termination by (relation "measure (\<lambda>(t, a, c, seen). Suc (hm_len (rt_windows t)) - seen)") auto

declare descendant_loop.simps [simp del]

definition is_descendant_of :: "ResourceTable \<Rightarrow> ResourceId \<Rightarrow> ResourceId \<Rightarrow> bool" where
  "is_descendant_of t candidate ancestor = descendant_loop t ancestor candidate 0"

definition reparent_window ::
  "ReparentWindowRequest \<Rightarrow> ResourceTable \<Rightarrow> ReparentWindowError + (ResourceTable \<times> ReparentResult)" where
  "reparent_window r t =
     (if rep_window r = ROOT_WINDOW \<or> rep_window r = rep_parent r \<or>
         is_descendant_of t (rep_parent r) (rep_window r)
      then Inl ReparentBadMatch
      else
        (case window t (rep_window r) of
           None \<Rightarrow> Inl ReparentBadWindow
         | Some w \<Rightarrow>
             if \<not> hm_contains (rt_windows t) (rep_parent r) then Inl ReparentBadWindow
             else
               let t1 = modify_window (win_parent w)
                     (\<lambda>p. p\<lparr>win_children := filter (\<lambda>c. c \<noteq> rep_window r) (win_children p)\<rparr>) t;
                   t2 = modify_window (rep_parent r)
                     (\<lambda>p. p\<lparr>win_children :=
                        vec_insert (cow_aware_top_index p) (rep_window r) (win_children p)\<rparr>) t1;
                   t3 = modify_window (rep_window r)
                     (\<lambda>w. w\<lparr>win_parent := rep_parent r, win_x := rep_x r, win_y := rep_y r\<rparr>) t2
               in Inr (t3, \<lparr>rr_window = rep_window r, rr_old_parent = win_parent w,
                           rr_new_parent = rep_parent r, rr_x = rep_x r, rr_y = rep_y r,
                           rr_override_redirect = win_override_redirect w,
                           rr_host_xid = win_host_xid w\<rparr>)))"

end
