(* ===== verification/Resources.thy ===== *)
theory Resources
  imports Windows
begin

text \<open>
  The other resources of \<open>ResourceTable\<close> (\<open>crates/xserver-core/src/resources.rs\<close>): visuals and
  colormaps, pixmaps, pictures, glyph sets with the reference counts of their host objects, fonts,
  cursors, window properties, and the sweep over everything a disconnecting client owns.
  The iteration order of a hash map is the order of its association list.
\<close>

section \<open>Identifiers\<close>

definition xid_in_use :: "ResourceTable \<Rightarrow> ResourceId \<Rightarrow> bool" where
  "xid_in_use t i \<longleftrightarrow> hm_contains (rt_windows t) i \<or> hm_contains (rt_pixmaps t) i \<or>
     hm_contains (rt_gcs t) i \<or> hm_contains (rt_fonts t) i \<or> hm_contains (rt_cursors t) i \<or>
     hm_contains (rt_colormaps t) i \<or> hm_contains (rt_pictures t) i \<or> hm_contains (rt_glyphsets t) i"

definition any_resource_exists :: "ResourceTable \<Rightarrow> ResourceId \<Rightarrow> bool" where
  "any_resource_exists t i \<longleftrightarrow> hm_contains (rt_windows t) i \<or> hm_contains (rt_pixmaps t) i \<or>
     hm_contains (rt_gcs t) i \<or> hm_contains (rt_fonts t) i \<or> hm_contains (rt_cursors t) i"

definition collect_xids_in :: "ResourceTable \<Rightarrow> u32 \<Rightarrow> u32 \<Rightarrow> u32 list" where
  "collect_xids_in t base msk =
     (let in_range = filter (\<lambda>i. i AND NOT msk = base) in
      in_range (hm_keys (rt_windows t)) @ in_range (hm_keys (rt_pixmaps t)) @
      in_range (hm_keys (rt_gcs t)) @ in_range (hm_keys (rt_fonts t)) @
      in_range (hm_keys (rt_cursors t)) @ in_range (hm_keys (rt_colormaps t)) @
      in_range (hm_keys (rt_pictures t)) @ in_range (hm_keys (rt_glyphsets t)))"

definition resource_owner :: "ResourceTable \<Rightarrow> ResourceId \<Rightarrow> ClientId option" where
  "resource_owner t i =
     (case hm_get (rt_windows t) i of Some w \<Rightarrow> Some (win_owner w) | None \<Rightarrow>
      (case hm_get (rt_pixmaps t) i of Some p \<Rightarrow> Some (pm_owner p) | None \<Rightarrow>
       (case hm_get (rt_gcs t) i of Some g \<Rightarrow> Some (gc_owner g) | None \<Rightarrow>
        (case hm_get (rt_fonts t) i of Some f \<Rightarrow> Some (font_owner f) | None \<Rightarrow>
         (case hm_get (rt_cursors t) i of Some c \<Rightarrow> Some (cur_owner c) | None \<Rightarrow>
          (case hm_get (rt_pictures t) i of Some p \<Rightarrow> Some (pict_client p) | None \<Rightarrow>
           (case hm_get (rt_glyphsets t) i of Some g \<Rightarrow> Some (glyph_client g) | None \<Rightarrow> None)))))))"

section \<open>Visuals and colormaps\<close>

definition visual :: "ResourceTable \<Rightarrow> ResourceId \<Rightarrow> Visual option" where
  "visual t i = hm_get (rt_visuals t) i"

definition is_known_visual :: "ResourceTable \<Rightarrow> ResourceId \<Rightarrow> bool" where
  "is_known_visual t i \<longleftrightarrow> hm_contains (rt_visuals t) i"

definition set_visual_host_xid :: "ResourceId \<Rightarrow> u32 \<Rightarrow> ResourceTable \<Rightarrow> ResourceTable \<times> bool" where
  "set_visual_host_xid i host t =
     (t\<lparr>rt_visuals := hm_modify i (\<lambda>v. v\<lparr>vis_host_visual_xid := handle_from_raw host\<rparr>) (rt_visuals t)\<rparr>,
      hm_contains (rt_visuals t) i)"

definition create_colormap :: "ClientId \<Rightarrow> ResourceId \<Rightarrow> ResourceId \<Rightarrow> ResourceTable \<Rightarrow> ResourceTable" where
  "create_colormap owner i vis t = t\<lparr>rt_colormaps := hm_insert i
     \<lparr>cm_id = i, cm_visual = vis, cm_host_colormap_xid = None, cm_owner = owner\<rparr> (rt_colormaps t)\<rparr>"

definition colormap :: "ResourceTable \<Rightarrow> ResourceId \<Rightarrow> Colormap option" where
  "colormap t i = hm_get (rt_colormaps t) i"

definition set_colormap_host_xid :: "ResourceId \<Rightarrow> u32 \<Rightarrow> ResourceTable \<Rightarrow> ResourceTable \<times> bool" where
  "set_colormap_host_xid i host t =
     (t\<lparr>rt_colormaps :=
        hm_modify i (\<lambda>c. c\<lparr>cm_host_colormap_xid := handle_from_raw host\<rparr>) (rt_colormaps t)\<rparr>,
      hm_contains (rt_colormaps t) i)"

definition free_colormap :: "ResourceId \<Rightarrow> ResourceTable \<Rightarrow> ResourceTable \<times> bool" where
  "free_colormap i t =
     (t\<lparr>rt_colormaps := hm_remove i (rt_colormaps t)\<rparr>, hm_contains (rt_colormaps t) i)"

definition colormap_for_visual :: "ResourceTable \<Rightarrow> ResourceId \<Rightarrow> Colormap option" where
  "colormap_for_visual t vis = List.find (\<lambda>c. cm_visual c = vis) (hm_values (rt_colormaps t))"

definition windows_with_colormap :: "ResourceTable \<Rightarrow> ResourceId \<Rightarrow> ResourceId list" where
  "windows_with_colormap t cmap =
     map fst (filter (\<lambda>(k, w). win_colormap w = cmap) (rt_windows t))"

section \<open>Pixmaps and pictures\<close>

definition create_pixmap :: "ClientId \<Rightarrow> CreatePixmapRequest \<Rightarrow> ResourceTable \<Rightarrow> ResourceTable" where
  "create_pixmap owner r t = t\<lparr>rt_pixmaps := hm_insert (cp_pixmap r)
     \<lparr>pm_id = cp_pixmap r, pm_drawable = cp_drawable r, pm_width = cp_width r,
      pm_height = cp_height r, pm_depth = cp_depth r, pm_owner = owner, pm_host_xid = None\<rparr>
     (rt_pixmaps t)\<rparr>"

definition free_pixmap :: "ResourceId \<Rightarrow> ResourceTable \<Rightarrow> ResourceTable \<times> Pixmap option" where
  "free_pixmap i t =
     (t\<lparr>rt_pixmaps := hm_remove i (rt_pixmaps t)\<rparr>, hm_get (rt_pixmaps t) i)"

definition pixmap :: "ResourceTable \<Rightarrow> ResourceId \<Rightarrow> Pixmap option" where
  "pixmap t i = hm_get (rt_pixmaps t) i"

definition set_pixmap_host_xid :: "ResourceId \<Rightarrow> PixmapHandle \<Rightarrow> ResourceTable \<Rightarrow> ResourceTable \<times> bool" where
  "set_pixmap_host_xid i h t =
     (t\<lparr>rt_pixmaps := hm_modify i (\<lambda>p. p\<lparr>pm_host_xid := Some h\<rparr>) (rt_pixmaps t)\<rparr>,
      hm_contains (rt_pixmaps t) i)"

definition host_xid_referenced_by_window_bg :: "ResourceTable \<Rightarrow> PixmapHandle \<Rightarrow> bool" where
  "host_xid_referenced_by_window_bg t h \<longleftrightarrow>
     list_ex (\<lambda>w. win_background_pixmap_host_xid w = Some h) (hm_values (rt_windows t))"

definition host_xid_referenced_by_gc :: "ResourceTable \<Rightarrow> PixmapHandle \<Rightarrow> bool" where
  "host_xid_referenced_by_gc t h \<longleftrightarrow>
     list_ex (\<lambda>gc. gc_clip_pixmap_host_xid gc = Some h \<or> gc_tile_host_xid gc = Some h \<or>
                   gc_stipple_host_xid gc = Some h) (hm_values (rt_gcs t))"

definition host_xid_owned_by_pixmap :: "ResourceTable \<Rightarrow> PixmapHandle \<Rightarrow> bool" where
  "host_xid_owned_by_pixmap t h \<longleftrightarrow>
     list_ex (\<lambda>p. pm_host_xid p = Some h) (hm_values (rt_pixmaps t))"

definition host_drawable_target :: "ResourceTable \<Rightarrow> ResourceId \<Rightarrow> HostDrawableTarget option" where
  "host_drawable_target t i =
     (case window t i of
        Some w \<Rightarrow>
          (case win_redirected_backing w of
             Some b \<Rightarrow> Some (TargetWindow i (rb_host_pixmap b) (rb_depth b))
           | None \<Rightarrow> map_option (\<lambda>h. TargetWindow i h (win_depth w)) (win_host_xid w))
      | None \<Rightarrow>
          (case pixmap t i of
             None \<Rightarrow> None
           | Some p \<Rightarrow> map_option (\<lambda>h. TargetPixmap i h (pm_width p) (pm_height p) (pm_depth p))
                         (pm_host_xid p)))"

definition create_picture :: "ResourceId \<Rightarrow> PictureState \<Rightarrow> ResourceTable \<Rightarrow> ResourceTable" where
  "create_picture i s t = t\<lparr>rt_pictures := hm_insert i s (rt_pictures t)\<rparr>"

definition free_picture :: "ResourceId \<Rightarrow> ResourceTable \<Rightarrow> ResourceTable \<times> PictureState option" where
  "free_picture i t =
     (t\<lparr>rt_pictures := hm_remove i (rt_pictures t)\<rparr>, hm_get (rt_pictures t) i)"

section \<open>Glyph sets\<close>

definition release_host_glyphset_ref :: "u32 \<Rightarrow> ResourceTable \<Rightarrow> ResourceTable \<times> bool" where
  "release_host_glyphset_ref host t =
     (case hm_get (rt_host_glyphset_refcounts t) host of
        None \<Rightarrow> (t, True)
      | Some count \<Rightarrow>
          if count > 1
          then (t\<lparr>rt_host_glyphset_refcounts :=
                   hm_insert host (count - 1) (rt_host_glyphset_refcounts t)\<rparr>, False)
          else (t\<lparr>rt_host_glyphset_refcounts :=
                   hm_remove host (rt_host_glyphset_refcounts t)\<rparr>, True))"

definition create_glyphset :: "ResourceId \<Rightarrow> GlyphSetState \<Rightarrow> ResourceTable \<Rightarrow> ResourceTable" where
  "create_glyphset i s t =
     (let t1 = (case hm_get (rt_glyphsets t) i of
                  None \<Rightarrow> t
                | Some old \<Rightarrow> fst (release_host_glyphset_ref (glyph_host_glyphset_xid old)
                    (t\<lparr>rt_glyphsets := hm_remove i (rt_glyphsets t)\<rparr>)));
          host = glyph_host_glyphset_xid s;
          count = unwrap_or (hm_get (rt_host_glyphset_refcounts t1) host) 0
      in t1\<lparr>rt_host_glyphset_refcounts :=
              hm_insert host (count + 1) (rt_host_glyphset_refcounts t1),
            rt_glyphsets := hm_insert i s (rt_glyphsets t1)\<rparr>)"

text \<open>The state is returned when the host object is to be freed.\<close>

definition free_glyphset :: "ResourceId \<Rightarrow> ResourceTable \<Rightarrow> ResourceTable \<times> GlyphSetState option" where
  "free_glyphset i t =
     (case hm_get (rt_glyphsets t) i of
        None \<Rightarrow> (t, None)
      | Some s \<Rightarrow>
          (case release_host_glyphset_ref (glyph_host_glyphset_xid s)
                  (t\<lparr>rt_glyphsets := hm_remove i (rt_glyphsets t)\<rparr>) of
             (t1, is_last) \<Rightarrow> (t1, if is_last then Some s else None)))"

definition reference_glyphset ::
  "ClientId \<Rightarrow> ResourceId \<Rightarrow> ResourceId \<Rightarrow> ResourceTable \<Rightarrow> ResourceTable \<times> bool" where
  "reference_glyphset client new_id existing_id t =
     (case hm_get (rt_glyphsets t) existing_id of
        None \<Rightarrow> (t, False)
      | Some existing \<Rightarrow>
          (create_glyphset new_id \<lparr>glyph_client = client,
             glyph_host_glyphset_xid = glyph_host_glyphset_xid existing\<rparr> t, True))"

section \<open>Fonts and cursors\<close>

definition install_font ::
  "ClientId \<Rightarrow> ResourceId \<Rightarrow> string \<Rightarrow> FontHandle \<Rightarrow> FontMetrics \<Rightarrow> ResourceTable \<Rightarrow> ResourceTable" where
  "install_font owner i nm host metrics t = t\<lparr>rt_fonts := hm_insert i
     \<lparr>font_id = i, font_name = nm, font_host_xid = host, font_metrics = metrics, font_owner = owner\<rparr>
     (rt_fonts t)\<rparr>"

definition close_font :: "ResourceId \<Rightarrow> ResourceTable \<Rightarrow> ResourceTable \<times> Font option" where
  "close_font i t = (t\<lparr>rt_fonts := hm_remove i (rt_fonts t)\<rparr>, hm_get (rt_fonts t) i)"

definition fontable :: "ResourceTable \<Rightarrow> ResourceId \<Rightarrow> Font option" where
  "fontable t i =
     (case hm_get (rt_fonts t) i of
        Some f \<Rightarrow> Some f
      | None \<Rightarrow> Option.bind (Option.bind (hm_get (rt_gcs t) i) gc_font) (hm_get (rt_fonts t)))"

definition create_cursor :: "ClientId \<Rightarrow> ResourceId \<Rightarrow> ResourceTable \<Rightarrow> ResourceTable" where
  "create_cursor owner i t = t\<lparr>rt_cursors := hm_insert i
     \<lparr>cur_id = i, cur_owner = owner, cur_host_xid = None, cur_name_atom = None, cur_anim = False\<rparr>
     (rt_cursors t)\<rparr>"

definition create_glyph_cursor :: "ClientId \<Rightarrow> ResourceId \<Rightarrow> ResourceTable \<Rightarrow> ResourceTable" where
  "create_glyph_cursor owner i t = t\<lparr>rt_cursors := hm_insert i
     \<lparr>cur_id = i, cur_owner = owner, cur_host_xid = None, cur_name_atom = None, cur_anim = False\<rparr>
     (rt_cursors t)\<rparr>"

definition set_cursor_host_xid :: "ResourceId \<Rightarrow> CursorHandle \<Rightarrow> ResourceTable \<Rightarrow> ResourceTable" where
  "set_cursor_host_xid i h t =
     t\<lparr>rt_cursors := hm_modify i (\<lambda>c. c\<lparr>cur_host_xid := Some h\<rparr>) (rt_cursors t)\<rparr>"

definition set_cursor_name_atom :: "ResourceId \<Rightarrow> AtomId \<Rightarrow> ResourceTable \<Rightarrow> ResourceTable" where
  "set_cursor_name_atom i a t =
     t\<lparr>rt_cursors := hm_modify i (\<lambda>c. c\<lparr>cur_name_atom := Some a\<rparr>) (rt_cursors t)\<rparr>"

definition set_cursor_anim :: "ResourceId \<Rightarrow> ResourceTable \<Rightarrow> ResourceTable" where
  "set_cursor_anim i t = t\<lparr>rt_cursors := hm_modify i (\<lambda>c. c\<lparr>cur_anim := True\<rparr>) (rt_cursors t)\<rparr>"

definition free_cursor :: "ResourceId \<Rightarrow> ResourceTable \<Rightarrow> ResourceTable \<times> u32 option" where
  "free_cursor i t = (t\<lparr>rt_cursors := hm_remove i (rt_cursors t)\<rparr>,
     Option.bind (hm_get (rt_cursors t) i) cur_host_xid)"

section \<open>Window properties\<close>

definition window_property :: "ResourceTable \<Rightarrow> ResourceId \<Rightarrow> AtomId \<Rightarrow> PropertyValue option" where
  "window_property t w atom = Option.bind (window t w) (\<lambda>v. hm_get (win_properties v) atom)"

definition set_window_property ::
  "ResourceId \<Rightarrow> AtomId \<Rightarrow> PropertyValue \<Rightarrow> ResourceTable \<Rightarrow> ResourceTable" where
  "set_window_property w atom v t =
     modify_window w (\<lambda>x. x\<lparr>win_properties := hm_insert atom v (win_properties x)\<rparr>) t"

definition delete_window_property ::
  "ResourceId \<Rightarrow> AtomId \<Rightarrow> ResourceTable \<Rightarrow> ResourceTable \<times> PropertyValue option" where
  "delete_window_property w atom t =
     (modify_window w (\<lambda>x. x\<lparr>win_properties := hm_remove atom (win_properties x)\<rparr>) t,
      window_property t w atom)"

section \<open>The resources of a disconnecting client\<close>

definition collect_owned_window_roots :: "ResourceTable \<Rightarrow> ClientId \<Rightarrow> ResourceId list" where
  "collect_owned_window_roots t client =
     map fst (filter (\<lambda>(k, w). win_owner w = client \<and>
       window_owner t (win_parent w) \<noteq> Some client) (rt_windows t))"

text \<open>The loop over the removed glyph sets, releasing one reference each.\<close>

fun release_glyphset_refs :: "u32 list \<Rightarrow> ResourceTable \<Rightarrow> ResourceTable \<times> u32 list" where
  "release_glyphset_refs [] t = (t, [])"
| "release_glyphset_refs (h # hs) t =
     (case release_host_glyphset_ref h t of
        (t1, is_last) \<Rightarrow>
          (case release_glyphset_refs hs t1 of
             (t2, freed) \<Rightarrow> (t2, if is_last then h # freed else freed)))"

definition remove_non_window_resources_owned_by ::
  "ClientId \<Rightarrow> ResourceTable \<Rightarrow> ResourceTable \<times> ClientRemovedResources" where
  "remove_non_window_resources_owned_by client t =
     (let freed_pixmaps = List.map_filter pm_host_xid
            (filter (\<lambda>p. pm_owner p = client) (hm_values (rt_pixmaps t)));
          freed_cursors = List.map_filter cur_host_xid
            (filter (\<lambda>c. cur_owner c = client) (hm_values (rt_cursors t)));
          closed_fonts = map font_host_xid
            (filter (\<lambda>f. font_owner f = client) (hm_values (rt_fonts t)));
          freed_pictures = map (\<lambda>p. (pict_host_picture_xid p, pict_host_owned_pixmap p))
            (filter (\<lambda>p. pict_client p = client) (hm_values (rt_pictures t)));
          removed_glyphsets = map glyph_host_glyphset_xid
            (filter (\<lambda>g. glyph_client g = client) (hm_values (rt_glyphsets t)));
          t1 = t\<lparr>rt_pixmaps := hm_retain (\<lambda>_ p. pm_owner p \<noteq> client) (rt_pixmaps t),
                rt_gcs := hm_retain (\<lambda>_ g. gc_owner g \<noteq> client) (rt_gcs t),
                rt_colormaps := hm_retain (\<lambda>_ c. cm_owner c \<noteq> client) (rt_colormaps t),
                rt_cursors := hm_retain (\<lambda>_ c. cur_owner c \<noteq> client) (rt_cursors t),
                rt_fonts := hm_retain (\<lambda>_ f. font_owner f \<noteq> client) (rt_fonts t),
                rt_pictures := hm_retain (\<lambda>_ p. pict_client p \<noteq> client) (rt_pictures t),
                rt_glyphsets := hm_retain (\<lambda>_ g. glyph_client g \<noteq> client) (rt_glyphsets t)\<rparr>
      in case release_glyphset_refs removed_glyphsets t1 of
           (t2, freed_glyphsets) \<Rightarrow>
             (t2, \<lparr>crr_closed_fonts = closed_fonts, crr_freed_pixmaps = freed_pixmaps,
                  crr_freed_pictures = freed_pictures, crr_freed_glyphsets = freed_glyphsets,
                  crr_freed_cursors = freed_cursors\<rparr>))"

end
