(* ===== verification/GcState.thy ===== *)
theory GcState
  imports GcParams GcRequests Windows Resources
begin

text \<open>
  Graphics contexts (\<open>crates/xserver-core/src/resources.rs\<close>): creation, the change of any of the 23
  attributes, dashes, clipping, copying, and the resolution of a context into the state a drawing
  request uses. A pixmap named by an attribute is resolved to the host's handle when the
  attribute is set, so that the context keeps it after the client frees the pixmap.
\<close>

section \<open>Creation and change\<close>

definition Gc_with_defaults :: "ResourceId \<Rightarrow> ResourceId \<Rightarrow> ClientId \<Rightarrow> Gc" where
  "Gc_with_defaults i drawable owner = \<lparr>gc_id = i, gc_drawable = drawable, gc_depth = 0,
     gc_foreground = 0, gc_background = 0x00FFFFFF, gc_line_width = 0, gc_font = None,
     gc_clip_rectangles = None, gc_clip_pixmap = None, gc_clip_pixmap_host_xid = None,
     gc_clip_x_origin = 0, gc_clip_y_origin = 0, gc_fill_style = FillStyle_Solid, gc_tile = None,
     gc_stipple = None, gc_tile_host_xid = None, gc_stipple_host_xid = None,
     gc_tile_x_origin = 0, gc_tile_y_origin = 0, gc_line_style = LineStyle_Solid,
     gc_cap_style = CapStyle_Butt, gc_join_style = JoinStyle_Miter, gc_fill_rule = FillRule_EvenOdd,
     gc_function = GcFunction_Copy, gc_plane_mask = - 1,
     gc_subwindow_mode = SubwindowMode_ClipByChildren, gc_graphics_exposures = True,
     gc_dashes = [4, 4], gc_dash_offset = 0, gc_arc_mode = ArcMode_PieSlice, gc_owner = owner\<rparr>"

text \<open>\<open>if let Some(v) = change { slot = f(v) }\<close>\<close>

abbreviation set_if :: "'a option \<Rightarrow> ('a \<Rightarrow> 'b) \<Rightarrow> 'b \<Rightarrow> 'b" where
  "set_if change f old \<equiv> (case change of Some v \<Rightarrow> f v | None \<Rightarrow> old)"

text \<open>The attributes are independent but for two pairs: a clip mask drops the clip rectangles, and a
  non-zero dash length, applied after the dash offset, sets the offset back to 0.\<close>

definition apply_gc_change :: "GcChangeView \<Rightarrow> Gc \<Rightarrow> Gc" where
  "apply_gc_change c g = g\<lparr>
       gc_function := set_if (gcv_function c) GcFunction_from_protocol (gc_function g),
       gc_plane_mask := set_if (gcv_plane_mask c) (\<lambda>v. v) (gc_plane_mask g),
       gc_foreground := set_if (gcv_foreground c) (\<lambda>v. v) (gc_foreground g),
       gc_background := set_if (gcv_background c) (\<lambda>v. v) (gc_background g),
       gc_line_width := set_if (gcv_line_width c) (\<lambda>v. v) (gc_line_width g),
       gc_line_style := set_if (gcv_line_style c) LineStyle_from_protocol (gc_line_style g),
       gc_cap_style := set_if (gcv_cap_style c) CapStyle_from_protocol (gc_cap_style g),
       gc_join_style := set_if (gcv_join_style c) JoinStyle_from_protocol (gc_join_style g),
       gc_fill_style := set_if (gcv_fill_style c) FillStyle_from_protocol (gc_fill_style g),
       gc_fill_rule := set_if (gcv_fill_rule c) FillRule_from_protocol (gc_fill_rule g),
       gc_tile := set_if (gcv_tile c) Some (gc_tile g),
       gc_stipple := set_if (gcv_stipple c) Some (gc_stipple g),
       gc_tile_x_origin := set_if (gcv_tile_x_origin c) (\<lambda>v. v) (gc_tile_x_origin g),
       gc_tile_y_origin := set_if (gcv_tile_y_origin c) (\<lambda>v. v) (gc_tile_y_origin g),
       gc_font := set_if (gcv_font c) Some (gc_font g),
       gc_subwindow_mode := set_if (gcv_subwindow_mode c) SubwindowMode_from_protocol (gc_subwindow_mode g),
       gc_graphics_exposures := set_if (gcv_graphics_exposures c) (\<lambda>v. v) (gc_graphics_exposures g),
       gc_clip_x_origin := set_if (gcv_clip_x_origin c) (\<lambda>v. v) (gc_clip_x_origin g),
       gc_clip_y_origin := set_if (gcv_clip_y_origin c) (\<lambda>v. v) (gc_clip_y_origin g),
       gc_clip_rectangles := set_if (gcv_clip_mask c) (\<lambda>_. None) (gc_clip_rectangles g),
       gc_clip_pixmap := set_if (gcv_clip_mask c) (\<lambda>m. m) (gc_clip_pixmap g),
       gc_dash_offset := set_if (gcv_dashes c)
         (\<lambda>n. if n \<noteq> 0 then 0 else set_if (gcv_dash_offset c) (\<lambda>v. v) (gc_dash_offset g))
         (set_if (gcv_dash_offset c) (\<lambda>v. v) (gc_dash_offset g)),
       gc_dashes := set_if (gcv_dashes c) (\<lambda>n. if n \<noteq> 0 then [n, n] else gc_dashes g) (gc_dashes g),
       gc_arc_mode := set_if (gcv_arc_mode c) ArcMode_from_protocol (gc_arc_mode g)\<rparr>"

text \<open>\<open>x.and_then(|p| self.pixmaps.get(p)).and_then(|p| p.host_xid)\<close>\<close>

definition pixmap_host :: "ResourceTable \<Rightarrow> ResourceId option \<Rightarrow> PixmapHandle option" where
  "pixmap_host t p = Option.bind p (\<lambda>i. Option.bind (hm_get (rt_pixmaps t) i) pm_host_xid)"

definition insert_gc :: "ResourceId \<Rightarrow> Gc \<Rightarrow> ResourceTable \<Rightarrow> ResourceTable" where
  "insert_gc i g t = t\<lparr>rt_gcs := hm_insert i g (rt_gcs t)\<rparr>"

definition modify_gc :: "ResourceId \<Rightarrow> (Gc \<Rightarrow> Gc) \<Rightarrow> ResourceTable \<Rightarrow> ResourceTable" where
  "modify_gc i f t = t\<lparr>rt_gcs := hm_modify i f (rt_gcs t)\<rparr>"

definition gc :: "ResourceTable \<Rightarrow> ResourceId \<Rightarrow> Gc option" where
  "gc t i = hm_get (rt_gcs t) i"

definition create_view :: "CreateGcRequest \<Rightarrow> GcChangeView" where
  "create_view r =
     \<lparr>gcv_function = cgc_function r, gcv_plane_mask = cgc_plane_mask r,
       gcv_foreground = cgc_foreground r, gcv_background = cgc_background r,
       gcv_line_width = cgc_line_width r, gcv_line_style = cgc_line_style r,
       gcv_cap_style = cgc_cap_style r, gcv_join_style = cgc_join_style r,
       gcv_fill_style = cgc_fill_style r, gcv_fill_rule = cgc_fill_rule r, gcv_tile = cgc_tile r,
       gcv_stipple = cgc_stipple r, gcv_tile_x_origin = cgc_tile_x_origin r,
       gcv_tile_y_origin = cgc_tile_y_origin r, gcv_font = cgc_font r,
       gcv_subwindow_mode = cgc_subwindow_mode r, gcv_graphics_exposures = cgc_graphics_exposures r,
       gcv_clip_x_origin = cgc_clip_x_origin r, gcv_clip_y_origin = cgc_clip_y_origin r,
       gcv_clip_mask = None, gcv_dash_offset = cgc_dash_offset r, gcv_dashes = cgc_dashes r,
       gcv_arc_mode = cgc_arc_mode r\<rparr>"

definition change_view :: "GcChange \<Rightarrow> GcChangeView" where
  "change_view r =
     \<lparr>gcv_function = gch_function r, gcv_plane_mask = gch_plane_mask r,
       gcv_foreground = gch_foreground r, gcv_background = gch_background r,
       gcv_line_width = gch_line_width r, gcv_line_style = gch_line_style r,
       gcv_cap_style = gch_cap_style r, gcv_join_style = gch_join_style r,
       gcv_fill_style = gch_fill_style r, gcv_fill_rule = gch_fill_rule r, gcv_tile = gch_tile r,
       gcv_stipple = gch_stipple r, gcv_tile_x_origin = gch_tile_x_origin r,
       gcv_tile_y_origin = gch_tile_y_origin r, gcv_font = gch_font r,
       gcv_subwindow_mode = gch_subwindow_mode r, gcv_graphics_exposures = gch_graphics_exposures r,
       gcv_clip_x_origin = gch_clip_x_origin r, gcv_clip_y_origin = gch_clip_y_origin r,
       gcv_clip_mask = gch_clip_mask r, gcv_dash_offset = gch_dash_offset r,
       gcv_dashes = gch_dashes r, gcv_arc_mode = gch_arc_mode r\<rparr>"

definition create_gc :: "ClientId \<Rightarrow> CreateGcRequest \<Rightarrow> ResourceTable \<Rightarrow> ResourceTable" where
  "create_gc owner r t =
     (let clip_pixmap = (case cgc_clip_mask r of Some (Some p) \<Rightarrow> Some p | _ \<Rightarrow> None);
          g = (Gc_with_defaults (cgc_gc r) (cgc_drawable r) owner)
            \<lparr>gc_depth := (case window t (cgc_drawable r) of
                 Some w \<Rightarrow> win_depth w
               | None \<Rightarrow> map_or 0 pm_depth (pixmap t (cgc_drawable r))),
             gc_tile_host_xid := pixmap_host t (cgc_tile r),
             gc_stipple_host_xid := pixmap_host t (cgc_stipple r),
             gc_clip_pixmap := clip_pixmap,
             gc_clip_pixmap_host_xid := pixmap_host t clip_pixmap\<rparr>
      in insert_gc (cgc_gc r) (apply_gc_change (create_view r) g) t)"

definition change_gc :: "GcChange \<Rightarrow> ResourceTable \<Rightarrow> ResourceTable" where
  "change_gc r t = modify_gc (gch_gc r)
     (\<lambda>g. let g1 = apply_gc_change (change_view r) g in
       g1\<lparr>gc_clip_pixmap_host_xid :=
            set_if (gch_clip_mask r) (\<lambda>m. pixmap_host t m) (gc_clip_pixmap_host_xid g1),
          gc_tile_host_xid := set_if (gch_tile r) (\<lambda>p. pixmap_host t (Some p)) (gc_tile_host_xid g1),
          gc_stipple_host_xid :=
            set_if (gch_stipple r) (\<lambda>p. pixmap_host t (Some p)) (gc_stipple_host_xid g1)\<rparr>) t"

section \<open>Dashes and clipping\<close>

definition set_dashes :: "ResourceId \<Rightarrow> u16 \<Rightarrow> u8 list \<Rightarrow> ResourceTable \<Rightarrow> ResourceTable" where
  "set_dashes i dash_offset dashes t = modify_gc i
     (\<lambda>g. let g1 = g\<lparr>gc_dash_offset := dash_offset\<rparr> in
       if dashes = [] then g1
       else if length dashes mod 2 = 0 then g1\<lparr>gc_dashes := dashes\<rparr>
       else g1\<lparr>gc_dashes := dashes @ dashes\<rparr>) t"

definition set_clip_rectangles :: "SetClipRectanglesRequest \<Rightarrow> ResourceTable \<Rightarrow> ResourceTable" where
  "set_clip_rectangles r t = modify_gc (scr_gc r)
     (\<lambda>g. g\<lparr>gc_clip_pixmap := None, gc_clip_pixmap_host_xid := None,
            gc_clip_rectangles := Some (scr_clip r)\<rparr>) t"

definition clear_gc_clip :: "ResourceId \<Rightarrow> ResourceTable \<Rightarrow> ResourceTable" where
  "clear_gc_clip i t = modify_gc i
     (\<lambda>g. g\<lparr>gc_clip_rectangles := None, gc_clip_pixmap := None, gc_clip_pixmap_host_xid := None\<rparr>) t"

section \<open>Copying\<close>

definition copy_gc_slots :: "u32 \<Rightarrow> Gc \<Rightarrow> Gc \<Rightarrow> Gc" where
  "copy_gc_slots m s d = d\<lparr>
       gc_function := (if m AND 0x1 \<noteq> 0 then gc_function s else gc_function d),
       gc_plane_mask := (if m AND 0x2 \<noteq> 0 then gc_plane_mask s else gc_plane_mask d),
       gc_foreground := (if m AND 0x4 \<noteq> 0 then gc_foreground s else gc_foreground d),
       gc_background := (if m AND 0x8 \<noteq> 0 then gc_background s else gc_background d),
       gc_line_width := (if m AND 0x10 \<noteq> 0 then gc_line_width s else gc_line_width d),
       gc_line_style := (if m AND 0x20 \<noteq> 0 then gc_line_style s else gc_line_style d),
       gc_cap_style := (if m AND 0x40 \<noteq> 0 then gc_cap_style s else gc_cap_style d),
       gc_join_style := (if m AND 0x80 \<noteq> 0 then gc_join_style s else gc_join_style d),
       gc_fill_style := (if m AND 0x100 \<noteq> 0 then gc_fill_style s else gc_fill_style d),
       gc_fill_rule := (if m AND 0x200 \<noteq> 0 then gc_fill_rule s else gc_fill_rule d),
       gc_tile := (if m AND 0x400 \<noteq> 0 then gc_tile s else gc_tile d),
       gc_tile_host_xid := (if m AND 0x400 \<noteq> 0 then gc_tile_host_xid s else gc_tile_host_xid d),
       gc_stipple := (if m AND 0x800 \<noteq> 0 then gc_stipple s else gc_stipple d),
       gc_stipple_host_xid := (if m AND 0x800 \<noteq> 0 then gc_stipple_host_xid s else gc_stipple_host_xid d),
       gc_tile_x_origin := (if m AND 0x1000 \<noteq> 0 then gc_tile_x_origin s else gc_tile_x_origin d),
       gc_tile_y_origin := (if m AND 0x2000 \<noteq> 0 then gc_tile_y_origin s else gc_tile_y_origin d),
       gc_font := (if m AND 0x4000 \<noteq> 0 then gc_font s else gc_font d),
       gc_subwindow_mode := (if m AND 0x8000 \<noteq> 0 then gc_subwindow_mode s else gc_subwindow_mode d),
       gc_graphics_exposures := (if m AND 0x10000 \<noteq> 0 then gc_graphics_exposures s else gc_graphics_exposures d),
       gc_clip_x_origin := (if m AND 0x20000 \<noteq> 0 then gc_clip_x_origin s else gc_clip_x_origin d),
       gc_clip_y_origin := (if m AND 0x40000 \<noteq> 0 then gc_clip_y_origin s else gc_clip_y_origin d),
       gc_clip_rectangles := (if m AND 0x80000 \<noteq> 0 then gc_clip_rectangles s else gc_clip_rectangles d),
       gc_clip_pixmap := (if m AND 0x80000 \<noteq> 0 then gc_clip_pixmap s else gc_clip_pixmap d),
       gc_clip_pixmap_host_xid := (if m AND 0x80000 \<noteq> 0 then gc_clip_pixmap_host_xid s else gc_clip_pixmap_host_xid d),
       gc_dash_offset := (if m AND 0x100000 \<noteq> 0 then gc_dash_offset s else gc_dash_offset d),
       gc_dashes := (if m AND 0x200000 \<noteq> 0 then gc_dashes s else gc_dashes d),
       gc_arc_mode := (if m AND 0x400000 \<noteq> 0 then gc_arc_mode s else gc_arc_mode d)\<rparr>"

definition copy_gc :: "ResourceId \<Rightarrow> ResourceId \<Rightarrow> u32 \<Rightarrow> ResourceTable \<Rightarrow> ResourceTable" where
  "copy_gc src dst value_mask t =
     (case hm_get (rt_gcs t) src of
        None \<Rightarrow> t
      | Some s \<Rightarrow> modify_gc dst (copy_gc_slots value_mask s) t)"

definition free_gc :: "ResourceId \<Rightarrow> ResourceTable \<Rightarrow> ResourceTable" where
  "free_gc i t = t\<lparr>rt_gcs := hm_remove i (rt_gcs t)\<rparr>"

definition set_gc_font :: "ResourceId \<Rightarrow> ResourceId \<Rightarrow> ResourceTable \<Rightarrow> ResourceTable" where
  "set_gc_font i f t = modify_gc i (\<lambda>g. g\<lparr>gc_font := Some f\<rparr>) t"

definition gc_foreground_of :: "ResourceTable \<Rightarrow> ResourceId \<Rightarrow> u32" where
  "gc_foreground_of t i = map_or 0 gc_foreground (gc t i)"

definition gc_background_of :: "ResourceTable \<Rightarrow> ResourceId \<Rightarrow> u32" where
  "gc_background_of t i = map_or 0x00FFFFFF gc_background (gc t i)"

definition gc_clip_rectangles_of :: "ResourceTable \<Rightarrow> ResourceId \<Rightarrow> ClipRectangles option" where
  "gc_clip_rectangles_of t i = Option.bind (gc t i) gc_clip_rectangles"

section \<open>Resolution for drawing\<close>

datatype GcClipState =
    GcClip_None | GcClip_Rectangles ClipRectangles | GcClip_Pixmap PixmapHandle i16 i16

datatype GcFillState = GcFill_Solid | GcFill_Tiled PixmapHandle i16 i16

datatype ClipState =
    Clip_None | Clip_Rectangles "i16 \<times> i16" ClipRectangles | Clip_Pixmap "i16 \<times> i16" PixmapHandle

datatype FillState =
    Fill_Solid
  | Fill_Tiled PixmapHandle "i16 \<times> i16"
  | Fill_Stippled PixmapHandle "i16 \<times> i16"
  | Fill_OpaqueStippled PixmapHandle "i16 \<times> i16"

record DrawState =
  ds_foreground :: u32
  ds_background :: u32
  ds_line_width :: u16
  ds_line_style :: LineStyle
  ds_cap_style :: CapStyle
  ds_join_style :: JoinStyle
  ds_fill_style :: FillStyle
  ds_fill_rule :: FillRule
  ds_function :: GcFunction
  ds_plane_mask :: u32
  ds_font :: "FontHandle option"
  ds_clip :: ClipState
  ds_fill :: FillState
  ds_subwindow_mode :: SubwindowMode
  ds_graphics_exposures :: bool
  ds_dashes :: "u8 list"
  ds_dash_offset :: i16
  ds_arc_mode :: ArcMode

definition gc_clip_state :: "ResourceTable \<Rightarrow> ResourceId \<Rightarrow> GcClipState" where
  "gc_clip_state t i =
     (case gc t i of
        None \<Rightarrow> GcClip_None
      | Some g \<Rightarrow>
          (case gc_clip_rectangles g of
             Some rects \<Rightarrow> GcClip_Rectangles rects
           | None \<Rightarrow>
               (case gc_clip_pixmap_host_xid g of
                  Some p \<Rightarrow> GcClip_Pixmap p (gc_clip_x_origin g) (gc_clip_y_origin g)
                | None \<Rightarrow> GcClip_None)))"

definition gc_fill_state :: "ResourceTable \<Rightarrow> ResourceId \<Rightarrow> GcFillState" where
  "gc_fill_state t i =
     (case gc t i of
        None \<Rightarrow> GcFill_Solid
      | Some g \<Rightarrow>
          (case gc_fill_style g of
             FillStyle_Tiled \<Rightarrow>
               (case gc_tile_host_xid g of
                  Some p \<Rightarrow> GcFill_Tiled p (gc_tile_x_origin g) (gc_tile_y_origin g)
                | None \<Rightarrow> GcFill_Solid)
           | _ \<Rightarrow> GcFill_Solid))"

text \<open>The two resolutions inside \<open>resolve_draw_state\<close>.\<close>

definition resolve_clip :: "Gc \<Rightarrow> ClipState" where
  "resolve_clip g =
     (case gc_clip_rectangles g of
        Some rects \<Rightarrow> Clip_Rectangles (gc_clip_x_origin g, gc_clip_y_origin g) rects
      | None \<Rightarrow>
          (case gc_clip_pixmap_host_xid g of
             Some p \<Rightarrow> Clip_Pixmap (gc_clip_x_origin g, gc_clip_y_origin g) p
           | None \<Rightarrow> Clip_None))"

definition resolve_fill :: "Gc \<Rightarrow> FillState" where
  "resolve_fill g =
     (let origin = (gc_tile_x_origin g, gc_tile_y_origin g) in
      case gc_fill_style g of
        FillStyle_Solid \<Rightarrow> Fill_Solid
      | FillStyle_Tiled \<Rightarrow> map_or Fill_Solid (\<lambda>p. Fill_Tiled p origin) (gc_tile_host_xid g)
      | FillStyle_Stippled \<Rightarrow> map_or Fill_Solid (\<lambda>p. Fill_Stippled p origin) (gc_stipple_host_xid g)
      | FillStyle_OpaqueStippled \<Rightarrow>
          map_or Fill_Solid (\<lambda>p. Fill_OpaqueStippled p origin) (gc_stipple_host_xid g))"

definition resolve_draw_state :: "ResourceTable \<Rightarrow> ResourceId \<Rightarrow> DrawState option" where
  "resolve_draw_state t i =
     (case hm_get (rt_gcs t) i of
        None \<Rightarrow> None
      | Some g \<Rightarrow> Some \<lparr>ds_foreground = gc_foreground g, ds_background = gc_background g,
          ds_line_width = gc_line_width g, ds_line_style = gc_line_style g,
          ds_cap_style = gc_cap_style g, ds_join_style = gc_join_style g,
          ds_fill_style = gc_fill_style g, ds_fill_rule = gc_fill_rule g,
          ds_function = gc_function g, ds_plane_mask = gc_plane_mask g,
          ds_font = map_option font_host_xid
            (Option.bind (gc_font g) (\<lambda>f. hm_get (rt_fonts t) f)),
          ds_clip = resolve_clip g, ds_fill = resolve_fill g,
          ds_subwindow_mode = gc_subwindow_mode g,
          ds_graphics_exposures = gc_graphics_exposures g, ds_dashes = gc_dashes g,
          ds_dash_offset = gc_dash_offset g, ds_arc_mode = gc_arc_mode g\<rparr>)"

end
