(* ===== verification/GcClaims.thy ===== *)
theory GcClaims
  imports GcState
begin

text \<open>
  What the requests on graphics contexts guarantee: an invariant of all contexts, the algebra of
  CopyGC, and the agreement of the three ways in which a context is resolved for drawing.
\<close>

section \<open>The contexts of a table\<close>

lemma gc_insert [simp]: "gc (insert_gc i g t) k = (if k = i then Some g else gc t k)"
  by (simp add: gc_def insert_gc_def)

lemma gc_modify [simp]: "gc (modify_gc i f t) k = (if k = i then map_option f (gc t i) else gc t k)"
  by (simp add: gc_def modify_gc_def)

lemma gc_free [simp]: "gc (free_gc i t) k = (if k = i then None else gc t k)"
  by (simp add: gc_def free_gc_def)

text \<open>
  Clip rectangles and a clip pixmap exclude each other, a host handle belongs to a pixmap that was
  set, and the dashes are a non-empty cycle of even length without a zero.
\<close>

definition gc_ok :: "Gc \<Rightarrow> bool" where
  "gc_ok g \<longleftrightarrow> (gc_clip_rectangles g = None \<or> gc_clip_pixmap g = None) \<and>
     (gc_clip_pixmap_host_xid g = None \<or> gc_clip_pixmap g \<noteq> None) \<and>
     (gc_tile_host_xid g = None \<or> gc_tile g \<noteq> None) \<and>
     (gc_stipple_host_xid g = None \<or> gc_stipple g \<noteq> None) \<and>
     gc_dashes g \<noteq> [] \<and> even (length (gc_dashes g)) \<and> 0 \<notin> set (gc_dashes g)"

text \<open>
  The requests on contexts, with the check of SetDashes; every other request leaves them alone or,
  when a client disconnects, drops some.
\<close>

inductive gc_step :: "ResourceTable \<Rightarrow> ResourceTable \<Rightarrow> bool" where
  create: "gc_step t (create_gc owner r t)"
| change: "gc_step t (change_gc r t)"
| dashes: "ds \<noteq> [] \<Longrightarrow> 0 \<notin> set ds \<Longrightarrow> gc_step t (set_dashes i off ds t)"
| clip_rects: "gc_step t (set_clip_rectangles sr t)"
| clear_clip: "gc_step t (clear_gc_clip i t)"
| copy: "gc_step t (copy_gc src dst m t)"
| free: "gc_step t (free_gc i t)"
| font: "gc_step t (set_gc_font i f t)"
| keep: "rt_gcs t' = hm_retain P (rt_gcs t) \<Longrightarrow> gc_step t t'"
| other: "rt_gcs t' = rt_gcs t \<Longrightarrow> gc_step t t'"

inductive gcs_reachable :: "ResourceTable \<Rightarrow> bool" where
  start: "gcs_reachable default_table"
| step: "gcs_reachable t \<Longrightarrow> gc_step t t' \<Longrightarrow> gcs_reachable t'"

definition gcs_inv :: "ResourceTable \<Rightarrow> bool" where
  "gcs_inv t \<longleftrightarrow> hm_wf (rt_gcs t) \<and> (\<forall>i g. gc t i = Some g \<longrightarrow> gc_ok g)"

lemma gcs_invD: "gcs_inv t \<Longrightarrow> gc t i = Some g \<Longrightarrow> gc_ok g"
  by (simp add: gcs_inv_def)

lemma gcs_inv_insert: "gcs_inv t \<Longrightarrow> gc_ok g \<Longrightarrow> gcs_inv (insert_gc i g t)"
  unfolding gcs_inv_def by (auto simp: insert_gc_def gc_def)

lemma gcs_inv_modify:
  "gcs_inv t \<Longrightarrow> (\<And>g. gc_ok g \<Longrightarrow> gc_ok (f g)) \<Longrightarrow> gcs_inv (modify_gc i f t)"
  unfolding gcs_inv_def by (auto simp: modify_gc_def gc_def split: if_splits)

lemma pixmap_host_None [simp]: "pixmap_host t None = None"
  by (simp add: pixmap_host_def)

lemma dashes_change:
  "gc_dashes (apply_gc_change c g) =
    (case gcv_dashes c of Some n \<Rightarrow> if n \<noteq> 0 then [n, n] else gc_dashes g | None \<Rightarrow> gc_dashes g)"
  by (simp add: apply_gc_change_def)

lemma gc_ok_create: "gc_ok (apply_gc_change (create_view r) ((Gc_with_defaults i d owner)
    \<lparr>gc_depth := dep, gc_tile_host_xid := pixmap_host t (cgc_tile r),
     gc_stipple_host_xid := pixmap_host t (cgc_stipple r),
     gc_clip_pixmap := p, gc_clip_pixmap_host_xid := pixmap_host t p\<rparr>))"
  by (cases p; cases "cgc_tile r"; cases "cgc_stipple r"; cases "cgc_dashes r")
    (simp_all add: gc_ok_def apply_gc_change_def create_view_def Gc_with_defaults_def)

lemma gc_ok_change:
  assumes "gc_ok g"
  shows "gc_ok ((apply_gc_change (change_view r) g)
    \<lparr>gc_clip_pixmap_host_xid := set_if (gch_clip_mask r) (\<lambda>m. pixmap_host t m)
       (gc_clip_pixmap_host_xid (apply_gc_change (change_view r) g)),
     gc_tile_host_xid := set_if (gch_tile r) (\<lambda>p. pixmap_host t (Some p))
       (gc_tile_host_xid (apply_gc_change (change_view r) g)),
     gc_stipple_host_xid := set_if (gch_stipple r) (\<lambda>p. pixmap_host t (Some p))
       (gc_stipple_host_xid (apply_gc_change (change_view r) g))\<rparr>)"
  using assms
  by (cases "gch_clip_mask r"; cases "gch_tile r"; cases "gch_stipple r"; cases "gch_dashes r")
    (auto simp: gc_ok_def apply_gc_change_def change_view_def)

lemma gc_ok_copy: "gc_ok s \<Longrightarrow> gc_ok d \<Longrightarrow> gc_ok (copy_gc_slots m s d)"
  by (simp add: gc_ok_def copy_gc_slots_def)

lemma gcs_inv_retain:
  assumes "gcs_inv t" and "rt_gcs t' = hm_retain P (rt_gcs t)"
  shows "gcs_inv t'"
  using assms unfolding gcs_inv_def by (auto simp: gc_def hm_get_retain split: option.splits if_splits)

lemma gc_step_inv: "gc_step t t' \<Longrightarrow> gcs_inv t \<Longrightarrow> gcs_inv t'"
proof (induction rule: gc_step.induct)
  case (create t owner r)
  then show ?case unfolding create_gc_def Let_def by (intro gcs_inv_insert gc_ok_create)
next
  case (change t r)
  then show ?case unfolding change_gc_def Let_def by (intro gcs_inv_modify gc_ok_change)
next
  case (copy t src dst m)
  then show ?case
    unfolding copy_gc_def
    by (auto simp: gc_def [symmetric] intro!: gcs_inv_modify gc_ok_copy split: option.splits
        dest: gcs_invD)
next
  case (free t i)
  then show ?case unfolding gcs_inv_def by (auto simp: free_gc_def gc_def)
next
  case (other t' t)
  then show ?case by (simp add: gcs_inv_def gc_def)
next
  case (keep t' P t)
  then show ?case by (rule gcs_inv_retain [rotated])
qed (auto simp: set_dashes_def set_clip_rectangles_def clear_gc_clip_def set_gc_font_def Let_def
    gc_ok_def intro!: gcs_inv_modify)

lemma gcs_reachable_inv: "gcs_reachable t \<Longrightarrow> gcs_inv t"
proof (induction rule: gcs_reachable.induct)
  case start
  then show ?case by (simp add: gcs_inv_def gc_def default_table_def)
qed (rule gc_step_inv)

text \<open>
  Claim C32. Whatever the clients request, every graphics context has a clip list or a clip pixmap or
  neither, never both; a host handle for its clip, tile or stipple only if it names such a pixmap;
  and a non-empty dash cycle of even length without a zero, so that walking it always advances.
\<close>

theorem gc_invariant:
  assumes "gcs_reachable t" and "gc t i = Some g"
  shows "(gc_clip_rectangles g = None \<or> gc_clip_pixmap g = None) \<and>
    (gc_clip_pixmap_host_xid g = None \<or> gc_clip_pixmap g \<noteq> None) \<and>
    (gc_tile_host_xid g = None \<or> gc_tile g \<noteq> None) \<and>
    (gc_stipple_host_xid g = None \<or> gc_stipple g \<noteq> None) \<and>
    gc_dashes g \<noteq> [] \<and> even (length (gc_dashes g)) \<and> 0 \<notin> set (gc_dashes g)"
  using gcs_invD [OF gcs_reachable_inv [OF assms(1)] assms(2)] unfolding gc_ok_def .

text \<open>A context with an odd dash list.\<close>

definition gc_request :: "ResourceId \<Rightarrow> CreateGcRequest" where
  "gc_request i = \<lparr>cgc_gc = i, cgc_drawable = ROOT_WINDOW, cgc_function = None,
     cgc_plane_mask = None, cgc_foreground = Some 0xFF0000, cgc_background = None,
     cgc_line_width = Some 3, cgc_line_style = None, cgc_cap_style = None, cgc_join_style = None,
     cgc_fill_style = None, cgc_fill_rule = None, cgc_tile = None, cgc_stipple = None,
     cgc_tile_x_origin = None, cgc_tile_y_origin = None, cgc_font = None,
     cgc_subwindow_mode = None, cgc_graphics_exposures = None, cgc_clip_x_origin = None,
     cgc_clip_y_origin = None, cgc_clip_mask = None, cgc_dash_offset = Some 5,
     cgc_dashes = Some 2, cgc_arc_mode = None\<rparr>"

definition dashed_table :: ResourceTable where
  "dashed_table = set_dashes 0x100001 1 [3, 1, 2] (create_gc 1 (gc_request 0x100001) default_table)"

lemma create_gc_present: "gc (create_gc owner r t) (cgc_gc r) \<noteq> None"
  by (simp add: create_gc_def Let_def)

lemma reachable_dashed: "gcs_reachable dashed_table"
proof -
  have "gcs_reachable (create_gc 1 (gc_request 0x100001) default_table)"
    by (rule gcs_reachable.step [OF gcs_reachable.start gc_step.create])
  then show ?thesis
    unfolding dashed_table_def by (rule gcs_reachable.step) (rule gc_step.dashes, simp_all)
qed

theorem gc_invariant_witness:
  "\<exists>g. gc dashed_table 0x100001 = Some g \<and> gc_dashes g = [3, 1, 2, 3, 1, 2] \<and>
     even (length (gc_dashes g))"
proof -
  obtain g0 where g0: "gc (create_gc 1 (gc_request 0x100001) default_table) 0x100001 = Some g0"
    using create_gc_present [of 1 "gc_request 0x100001" default_table] by (auto simp: gc_request_def)
  then have g: "gc dashed_table 0x100001 =
      Some (g0\<lparr>gc_dash_offset := 1, gc_dashes := [3, 1, 2, 3, 1, 2]\<rparr>)"
    by (simp add: dashed_table_def set_dashes_def Let_def)
  from gc_invariant [OF reachable_dashed g]
  have "even (length (gc_dashes (g0\<lparr>gc_dash_offset := 1, gc_dashes := [3, 1, 2, 3, 1, 2]\<rparr>)))" by blast
  then show ?thesis using g by simp
qed

section \<open>CopyGC\<close>

lemma or_test: "((m OR n) AND k = 0) = (m AND k = 0 \<and> n AND k = 0)" for m n k :: "'a :: len word"
  by (simp add: bit_eq_iff bit_simps) blast

lemma if_or: "(if p then a else if q then a else b) = (if p \<or> q then a else b)"
  by simp

lemma copy_slots_or:
  "copy_gc_slots n s (copy_gc_slots m s d) = copy_gc_slots (m OR n) s d"
  unfolding copy_gc_slots_def by (rule Gc.equality) (simp_all add: or_test)

definition GC_ALL :: u32 where
  "GC_ALL = 0x7FFFFF"

lemma copy_slots_all:
  "copy_gc_slots GC_ALL s d = s\<lparr>gc_id := gc_id d, gc_drawable := gc_drawable d,
     gc_depth := gc_depth d, gc_owner := gc_owner d\<rparr>"
  by (simp add: copy_gc_slots_def GC_ALL_def)

lemma copy_gc_get:
  "gc (copy_gc src dst m t) k = (case gc t src of
      None \<Rightarrow> gc t k
    | Some s \<Rightarrow> if k = dst then map_option (copy_gc_slots m s) (gc t dst) else gc t k)"
  by (simp add: copy_gc_def gc_def [symmetric] split: option.splits)

text \<open>
  CopyGC copies attribute by attribute: copying with one mask and then another is copying
  with their union, in any order; an empty mask changes nothing; the mask of all 23 attributes makes
  the destination equal to the source in all but its id, drawable, depth and owner; and no other
  context changes. (The two contexts need not exist.)
\<close>

theorem copy_gc_by_masks:
  assumes "src \<noteq> dst"
  shows "gc (copy_gc src dst n (copy_gc src dst m t)) = gc (copy_gc src dst (m OR n) t) \<and>
    gc (copy_gc src dst 0 t) = gc t \<and>
    (\<forall>s d. gc t src = Some s \<and> gc t dst = Some d \<longrightarrow>
      gc (copy_gc src dst GC_ALL t) dst = Some (s\<lparr>gc_id := gc_id d, gc_drawable := gc_drawable d,
        gc_depth := gc_depth d, gc_owner := gc_owner d\<rparr>)) \<and>
    (\<forall>k. k \<noteq> dst \<longrightarrow> gc (copy_gc src dst m t) k = gc t k)"
proof (intro conjI)
  show "gc (copy_gc src dst n (copy_gc src dst m t)) = gc (copy_gc src dst (m OR n) t)"
  proof
    fix k
    show "gc (copy_gc src dst n (copy_gc src dst m t)) k = gc (copy_gc src dst (m OR n) t) k"
    proof (cases "gc t src")
      case (Some s)
      then have "gc (copy_gc src dst m t) src = Some s" using assms by (simp add: copy_gc_get)
      then show ?thesis
        using Some by (simp add: copy_gc_get option.map_comp comp_def copy_slots_or)
    qed (use assms in \<open>simp add: copy_gc_get\<close>)
  qed
  have z: "copy_gc_slots 0 s = (\<lambda>d. d)" for s by (rule ext) (simp add: copy_gc_slots_def)
  show "gc (copy_gc src dst 0 t) = gc t"
  proof
    show "gc (copy_gc src dst 0 t) k = gc t k" for k
      by (cases "gc t dst") (auto simp: copy_gc_get z split: option.splits)
  qed
  show "\<forall>s d. gc t src = Some s \<and> gc t dst = Some d \<longrightarrow>
      gc (copy_gc src dst GC_ALL t) dst = Some (s\<lparr>gc_id := gc_id d, gc_drawable := gc_drawable d,
        gc_depth := gc_depth d, gc_owner := gc_owner d\<rparr>)"
    by (auto simp: copy_gc_get copy_slots_all)
  show "\<forall>k. k \<noteq> dst \<longrightarrow> gc (copy_gc src dst m t) k = gc t k"
    by (auto simp: copy_gc_get split: option.splits)
qed

theorem copy_gc_by_masks_witness:
  "gc (copy_gc 0x100001 0x100002 4 (copy_gc 0x100001 0x100002 8 dashed_table)) =
     gc (copy_gc 0x100001 0x100002 12 dashed_table)"
  using copy_gc_by_masks [of "0x100001" "0x100002" 4 8 dashed_table, THEN conjunct1] by simp

section \<open>Dashes and drawing\<close>

text \<open>A request that sets the dash offset and the dash length leaves the offset at 0.\<close>

lemma change_gc_loses_dash_offset:
  assumes "gc t (gch_gc r) = Some g" and "gch_dash_offset r = Some v" and "gch_dashes r = Some n" and "n \<noteq> 0"
  shows "\<exists>g'. gc (change_gc r t) (gch_gc r) = Some g' \<and> gc_dash_offset g' = 0 \<and> gc_dashes g' = [n, n]"
  using assms by (simp add: change_gc_def Let_def apply_gc_change_def change_view_def)

lemma free_pixmap_gcs: "rt_gcs (fst (free_pixmap p t)) = rt_gcs t" "rt_fonts (fst (free_pixmap p t)) = rt_fonts t"
  by (simp_all add: free_pixmap_def)

text \<open>
  The resolution of a context for drawing: \<open>resolve_draw_state\<close> fails exactly for an unknown
  context; \<open>gc_clip_state\<close> is its clip; \<open>gc_fill_state\<close> is its fill when that is solid or tiled and
  solid otherwise; and all three stay as they are when a client frees a pixmap that the context
  uses, since the context keeps the host's handle.
\<close>

theorem draw_state_resolutions:
  "(resolve_draw_state t i = None) = (gc t i = None) \<and>
   (case resolve_draw_state t i of
      None \<Rightarrow> gc_clip_state t i = GcClip_None \<and> gc_fill_state t i = GcFill_Solid
    | Some d \<Rightarrow>
        gc_clip_state t i = (case ds_clip d of
            Clip_None \<Rightarrow> GcClip_None
          | Clip_Rectangles _ rects \<Rightarrow> GcClip_Rectangles rects
          | Clip_Pixmap (x, y) p \<Rightarrow> GcClip_Pixmap p x y) \<and>
        gc_fill_state t i = (case ds_fill d of
            Fill_Tiled p (x, y) \<Rightarrow> GcFill_Tiled p x y
          | _ \<Rightarrow> GcFill_Solid)) \<and>
   resolve_draw_state (fst (free_pixmap p t)) i = resolve_draw_state t i \<and>
   gc_clip_state (fst (free_pixmap p t)) i = gc_clip_state t i \<and>
   gc_fill_state (fst (free_pixmap p t)) i = gc_fill_state t i"
proof (intro conjI)
  show "(resolve_draw_state t i = None) = (gc t i = None)"
    by (simp add: resolve_draw_state_def gc_def split: option.splits)
  show "case resolve_draw_state t i of
      None \<Rightarrow> gc_clip_state t i = GcClip_None \<and> gc_fill_state t i = GcFill_Solid
    | Some d \<Rightarrow>
        gc_clip_state t i = (case ds_clip d of
            Clip_None \<Rightarrow> GcClip_None
          | Clip_Rectangles _ rects \<Rightarrow> GcClip_Rectangles rects
          | Clip_Pixmap (x, y) p \<Rightarrow> GcClip_Pixmap p x y) \<and>
        gc_fill_state t i = (case ds_fill d of
            Fill_Tiled p (x, y) \<Rightarrow> GcFill_Tiled p x y
          | _ \<Rightarrow> GcFill_Solid)"
  proof (cases "gc t i")
    case None
    then show ?thesis
      by (simp add: resolve_draw_state_def gc_clip_state_def gc_fill_state_def gc_def)
  next
    case (Some g)
    have clip: "gc_clip_state t i = (case resolve_clip g of
            Clip_None \<Rightarrow> GcClip_None
          | Clip_Rectangles _ rects \<Rightarrow> GcClip_Rectangles rects
          | Clip_Pixmap (x, y) p \<Rightarrow> GcClip_Pixmap p x y)"
      using Some by (simp add: gc_clip_state_def resolve_clip_def split: option.splits)
    have fill: "gc_fill_state t i = (case resolve_fill g of
            Fill_Tiled p (x, y) \<Rightarrow> GcFill_Tiled p x y
          | _ \<Rightarrow> GcFill_Solid)"
      using Some
      by (simp add: gc_fill_state_def resolve_fill_def Let_def split: FillStyle.splits option.splits)
    show ?thesis using Some clip fill by (simp add: resolve_draw_state_def gc_def)
  qed
  show "resolve_draw_state (fst (free_pixmap p t)) i = resolve_draw_state t i"
    by (simp add: resolve_draw_state_def free_pixmap_gcs split: option.split)
  show "gc_clip_state (fst (free_pixmap p t)) i = gc_clip_state t i"
    by (simp add: gc_clip_state_def gc_def free_pixmap_gcs)
  show "gc_fill_state (fst (free_pixmap p t)) i = gc_fill_state t i"
    by (simp add: gc_fill_state_def gc_def free_pixmap_gcs)
qed

end
