(* ===== verification/Crossings.thy ===== *)
theory Crossings
  imports Windows
begin

text \<open>
  Crossing and focus events (\<open>crates/xserver-core/src/crossings.rs\<close>): the EnterNotify and LeaveNotify
  events of a pointer that moves between two windows, and the FocusIn and FocusOut events of a
  change of the input focus. Both walk the chains of ancestors of the two windows.
\<close>

definition NOTIFY_ANCESTOR :: u8 where "NOTIFY_ANCESTOR = 0"
definition NOTIFY_VIRTUAL :: u8 where "NOTIFY_VIRTUAL = 1"
definition NOTIFY_INFERIOR :: u8 where "NOTIFY_INFERIOR = 2"
definition NOTIFY_NONLINEAR :: u8 where "NOTIFY_NONLINEAR = 3"
definition NOTIFY_NONLINEAR_VIRTUAL :: u8 where "NOTIFY_NONLINEAR_VIRTUAL = 4"
definition NOTIFY_POINTER :: u8 where "NOTIFY_POINTER = 5"
definition NOTIFY_POINTER_ROOT :: u8 where "NOTIFY_POINTER_ROOT = 6"
definition NOTIFY_DETAIL_NONE :: u8 where "NOTIFY_DETAIL_NONE = 7"

lemmas notify_defs = NOTIFY_ANCESTOR_def NOTIFY_VIRTUAL_def NOTIFY_INFERIOR_def NOTIFY_NONLINEAR_def
  NOTIFY_NONLINEAR_VIRTUAL_def NOTIFY_POINTER_def NOTIFY_POINTER_ROOT_def NOTIFY_DETAIL_NONE_def

datatype CrossingKind = Enter | Leave

record CrossingEvent =
  ce_window :: ResourceId
  ce_kind :: CrossingKind
  ce_detail :: u8
  ce_child :: ResourceId

section \<open>Chains of ancestors\<close>

text \<open>The walk up from \<open>current\<close>; \<open>fuel\<close> is what is left of the 256 hops.\<close>

fun chain_loop :: "ResourceTable \<Rightarrow> ResourceId \<Rightarrow> nat \<Rightarrow> ResourceId list" where
  "chain_loop t current 0 = []"
| "chain_loop t current (Suc fuel) =
     (case window t current of
        None \<Rightarrow> []
      | Some w \<Rightarrow>
          if win_parent w = current then []
          else win_parent w # chain_loop t (win_parent w) fuel)"

definition ancestor_chain :: "ResourceTable \<Rightarrow> ResourceId \<Rightarrow> ResourceId list" where
  "ancestor_chain t start = start # chain_loop t start 256"

definition lowest_common_ancestor :: "ResourceId list \<Rightarrow> ResourceId list \<Rightarrow> ResourceId option" where
  "lowest_common_ancestor a b = List.find (\<lambda>w. w \<in> set a) b"

text \<open>The windows of a chain after its first and before \<open>stop\<close>, each with the one below it.\<close>

definition virtual_steps :: "ResourceId option \<Rightarrow> ResourceId list \<Rightarrow> (ResourceId \<times> ResourceId) list" where
  "virtual_steps stop chain = takeWhile (\<lambda>(child, w). Some w \<noteq> stop) (zip chain (tl chain))"

section \<open>Crossing events\<close>

definition endpoint :: "CrossingKind \<Rightarrow> u8 \<Rightarrow> ResourceId \<Rightarrow> CrossingEvent" where
  "endpoint kind detail w = \<lparr>ce_window = w, ce_kind = kind, ce_detail = detail, ce_child = 0\<rparr>"

definition intermediate :: "CrossingKind \<Rightarrow> u8 \<Rightarrow> ResourceId \<times> ResourceId \<Rightarrow> CrossingEvent" where
  "intermediate kind detail p =
     \<lparr>ce_window = snd p, ce_kind = kind, ce_detail = detail, ce_child = fst p\<rparr>"

definition compute_crossing_chain ::
  "ResourceTable \<Rightarrow> ResourceId \<Rightarrow> ResourceId \<Rightarrow> CrossingEvent list" where
  "compute_crossing_chain t start dest =
     (if start = dest then []
      else
        let from_chain = ancestor_chain t start;
            to_chain = ancestor_chain t dest
        in if dest \<in> set (tl from_chain)
           then [endpoint Leave NOTIFY_ANCESTOR start] @
                map (intermediate Leave NOTIFY_VIRTUAL) (virtual_steps (Some dest) from_chain) @
                [endpoint Enter NOTIFY_INFERIOR dest]
           else if start \<in> set (tl to_chain)
           then [endpoint Leave NOTIFY_INFERIOR start] @
                map (intermediate Enter NOTIFY_VIRTUAL) (rev (virtual_steps (Some start) to_chain)) @
                [endpoint Enter NOTIFY_ANCESTOR dest]
           else
             let common = lowest_common_ancestor from_chain to_chain
             in [endpoint Leave NOTIFY_NONLINEAR start] @
                map (intermediate Leave NOTIFY_NONLINEAR_VIRTUAL) (virtual_steps common from_chain) @
                map (intermediate Enter NOTIFY_NONLINEAR_VIRTUAL) (rev (virtual_steps common to_chain)) @
                [endpoint Enter NOTIFY_NONLINEAR dest])"

definition implicit_grab_crossings ::
  "ResourceTable \<Rightarrow> ResourceId \<Rightarrow> ResourceId \<Rightarrow> CrossingEvent list" where
  "implicit_grab_crossings t focus grab = compute_crossing_chain t focus grab"

definition normal_mode_crossings ::
  "ResourceTable \<Rightarrow> ResourceId \<Rightarrow> ResourceId \<Rightarrow> CrossingEvent list" where
  "normal_mode_crossings t start dest = compute_crossing_chain t start dest"

section \<open>Focus events\<close>

record FocusEvent =
  fe_window :: ResourceId
  fe_focus_in :: bool
  fe_detail :: u8

definition is_anc :: "ResourceTable \<Rightarrow> ResourceId \<Rightarrow> ResourceId \<Rightarrow> bool" where
  "is_anc t a b \<longleftrightarrow> a \<noteq> b \<and> a \<in> set (tl (ancestor_chain t b))"

fun run_until :: "bool \<Rightarrow> ResourceId \<Rightarrow> ResourceId list \<Rightarrow> ResourceId list" where
  "run_until inclusive stop [] = []"
| "run_until inclusive stop (w # ws) =
     (if \<not> inclusive \<and> w = stop then []
      else w # (if inclusive \<and> w = stop then [] else run_until inclusive stop ws))"

definition excluded :: "ResourceTable \<Rightarrow> ResourceId \<Rightarrow> ResourceId option \<Rightarrow> bool" where
  "excluded t p exclude = (case exclude of Some x \<Rightarrow> is_anc t x p \<or> is_anc t p x | None \<Rightarrow> False)"

abbreviation focus_out :: "u8 \<Rightarrow> ResourceId \<Rightarrow> FocusEvent" where
  "focus_out d w \<equiv> \<lparr>fe_window = w, fe_focus_in = False, fe_detail = d\<rparr>"

abbreviation focus_in :: "u8 \<Rightarrow> ResourceId \<Rightarrow> FocusEvent" where
  "focus_in d w \<equiv> \<lparr>fe_window = w, fe_focus_in = True, fe_detail = d\<rparr>"

definition out_pointer_run ::
  "ResourceTable \<Rightarrow> ResourceId \<Rightarrow> ResourceId \<Rightarrow> ResourceId option \<Rightarrow> bool \<Rightarrow> FocusEvent list" where
  "out_pointer_run t p pwin_parent exclude inclusive =
     (if \<not> (is_anc t pwin_parent p \<or> pwin_parent = p \<and> inclusive) then []
      else if excluded t p exclude then []
      else map (focus_out NOTIFY_POINTER) (run_until inclusive pwin_parent (ancestor_chain t p)))"

definition in_pointer_run ::
  "ResourceTable \<Rightarrow> ResourceId \<Rightarrow> ResourceId \<Rightarrow> ResourceId option \<Rightarrow> bool \<Rightarrow> FocusEvent list" where
  "in_pointer_run t p pwin_parent exclude inclusive =
     (if exclude = Some p \<or> pwin_parent \<noteq> p \<and> \<not> is_anc t pwin_parent p then []
      else if excluded t p exclude then []
      else map (focus_in NOTIFY_POINTER) (rev (run_until inclusive pwin_parent (ancestor_chain t p))))"

text \<open>The windows of a chain after its first and before \<open>stop\<close>.\<close>

definition chain_between :: "ResourceId option \<Rightarrow> ResourceId list \<Rightarrow> ResourceId list" where
  "chain_between stop chain = takeWhile (\<lambda>w. Some w \<noteq> stop) (tl chain)"

definition special_focus :: "u32 \<Rightarrow> bool" where
  "special_focus r \<longleftrightarrow> r = 0 \<or> r = 1"

definition root_detail :: "u32 \<Rightarrow> u8" where
  "root_detail r = (if r = 1 then NOTIFY_POINTER_ROOT else NOTIFY_DETAIL_NONE)"

definition focus_between_windows ::
  "ResourceTable \<Rightarrow> ResourceId \<Rightarrow> ResourceId \<Rightarrow> ResourceId \<Rightarrow> FocusEvent list" where
  "focus_between_windows t a b p =
     (if is_anc t b a
      then [focus_out NOTIFY_ANCESTOR a] @
           map (focus_out NOTIFY_VIRTUAL) (chain_between (Some b) (ancestor_chain t a)) @
           [focus_in NOTIFY_INFERIOR b] @ in_pointer_run t p b (Some a) False
      else if is_anc t a b
      then out_pointer_run t p a (Some b) False @ [focus_out NOTIFY_INFERIOR a] @
           map (focus_in NOTIFY_VIRTUAL) (rev (chain_between (Some a) (ancestor_chain t b))) @
           [focus_in NOTIFY_ANCESTOR b]
      else
        let common = lowest_common_ancestor (ancestor_chain t a) (ancestor_chain t b)
        in out_pointer_run t p a None False @ [focus_out NOTIFY_NONLINEAR a] @
           map (focus_out NOTIFY_NONLINEAR_VIRTUAL) (chain_between common (ancestor_chain t a)) @
           map (focus_in NOTIFY_NONLINEAR_VIRTUAL)
             (rev (chain_between common (ancestor_chain t b))) @
           [focus_in NOTIFY_NONLINEAR b] @ in_pointer_run t p b None False)"

definition focus_transition_events ::
  "ResourceTable \<Rightarrow> u32 \<Rightarrow> u32 \<Rightarrow> ResourceId \<Rightarrow> FocusEvent list" where
  "focus_transition_events t from_raw to_raw p =
     (if from_raw = to_raw then []
      else
        (case (special_focus from_raw, special_focus to_raw) of
           (True, True) \<Rightarrow>
             (if from_raw = 1 \<and> to_raw \<noteq> 1 then out_pointer_run t p ROOT_WINDOW None True else []) @
             [focus_out (root_detail from_raw) ROOT_WINDOW, focus_in (root_detail to_raw) ROOT_WINDOW] @
             (if to_raw = 1 then in_pointer_run t p ROOT_WINDOW None True else [])
         | (False, True) \<Rightarrow>
             out_pointer_run t p from_raw None False @ [focus_out NOTIFY_NONLINEAR from_raw] @
             map (focus_out NOTIFY_NONLINEAR_VIRTUAL) (tl (ancestor_chain t from_raw)) @
             [focus_in (root_detail to_raw) ROOT_WINDOW] @
             (if to_raw = 1 then in_pointer_run t p ROOT_WINDOW None True else [])
         | (True, False) \<Rightarrow>
             (if from_raw = 1 then out_pointer_run t p ROOT_WINDOW None True else []) @
             [focus_out (root_detail from_raw) ROOT_WINDOW] @
             (if to_raw \<noteq> ROOT_WINDOW
              then focus_in NOTIFY_NONLINEAR_VIRTUAL ROOT_WINDOW #
                   map (focus_in NOTIFY_NONLINEAR_VIRTUAL)
                     (rev (chain_between (Some ROOT_WINDOW) (ancestor_chain t to_raw)))
              else []) @
             [focus_in NOTIFY_NONLINEAR to_raw] @ in_pointer_run t p to_raw None False
         | (False, False) \<Rightarrow> focus_between_windows t from_raw to_raw p))"

end
