(* ===== verification/Forest.thy ===== *)
theory Forest
  imports Main
begin

text \<open>
  Trees given by their parent links: the distance of a node from the root (\<open>root_dist\<close>, defined
  exactly for the nodes that reach the root), descent (\<open>below\<close>), and the interface
  \<open>parent_forest\<close> of a state whose parent links form a tree, with what every such state gives:
  no cycles, and no distance as large as the number of nodes.
\<close>

inductive root_dist :: "('k \<Rightarrow> 'k option) \<Rightarrow> 'k \<Rightarrow> 'k \<Rightarrow> nat \<Rightarrow> bool"
  for par :: "'k \<Rightarrow> 'k option" and root :: 'k where
  zero: "root_dist par root root 0"
| step: "x \<noteq> root \<Longrightarrow> par x = Some p \<Longrightarrow> root_dist par root p n \<Longrightarrow> root_dist par root x (Suc n)"

inductive below :: "('k \<Rightarrow> 'k option) \<Rightarrow> 'k \<Rightarrow> 'k \<Rightarrow> 'k \<Rightarrow> bool"
  for par :: "'k \<Rightarrow> 'k option" and root :: 'k and a :: 'k where
  refl: "below par root a a"
| step: "x \<noteq> root \<Longrightarrow> par x = Some p \<Longrightarrow> below par root a p \<Longrightarrow> below par root a x"

inductive_cases root_distE: "root_dist par root x n"
inductive_cases belowE: "below par root a x"
inductive_simps root_dist_root: "root_dist par root root n"

lemma root_dist_unique: "root_dist par root x n \<Longrightarrow> root_dist par root x m \<Longrightarrow> n = m"
proof (induction arbitrary: m rule: root_dist.induct)
  case zero
  then show ?case by (simp add: root_dist_root)
next
  case (step x p n)
  from step.prems obtain k where "m = Suc k" "root_dist par root p k"
    using step.hyps(1,2) by (auto elim: root_distE)
  then show ?case using step.IH by simp
qed

lemma below_trans: "below par root b x \<Longrightarrow> below par root a b \<Longrightarrow> below par root a x"
  by (induction rule: below.induct) (auto intro: below.step)

lemma below_root: "below par root a root \<longleftrightarrow> a = root"
  by (auto intro: below.refl elim: belowE)

lemma below_dist:
  "below par root a x \<Longrightarrow> root_dist par root x n \<Longrightarrow>
    \<exists>m. root_dist par root a m \<and> m \<le> n \<and> (a \<noteq> x \<longrightarrow> m < n)"
proof (induction arbitrary: n rule: below.induct)
  case refl
  then show ?case by blast
next
  case (step x p)
  from step.prems step.hyps(1,2) obtain k where "n = Suc k" "root_dist par root p k"
    by (auto elim: root_distE)
  with step.IH [of k] show ?case by (metis le_SucI le_imp_less_Suc)
qed

lemma below_antisym:
  "below par root a x \<Longrightarrow> below par root x a \<Longrightarrow> root_dist par root x n \<Longrightarrow> a = x"
  by (metis below_dist root_dist_unique less_le_trans less_irrefl)

lemma root_below: "root_dist par root x n \<Longrightarrow> below par root root x"
  by (induction rule: root_dist.induct) (auto intro: below.intros)

lemma below_parent:
  "root_dist par root x n \<Longrightarrow> below par root a x \<Longrightarrow> a \<noteq> x \<Longrightarrow> par x = Some p \<Longrightarrow> below par root a p"
  by (auto elim: belowE)

lemma not_below_parent:
  "root_dist par root x n \<Longrightarrow> x \<noteq> root \<Longrightarrow> par x = Some p \<Longrightarrow> \<not> below par root x p"
  by (metis below_dist root_distE option.inject below.step below_antisym below.refl
      lessI not_less root_dist_unique)

text \<open>A node keeps its distance when no link on its way to the root changes.\<close>

lemma root_dist_cong:
  "root_dist par root x n \<Longrightarrow>
    (\<And>y. below par root y x \<Longrightarrow> y \<noteq> root \<Longrightarrow> par' y = par y) \<Longrightarrow> root_dist par' root x n"
proof (induction rule: root_dist.induct)
  case (step x p n)
  have "root_dist par' root p n"
    using step.hyps(1,2) step.prems by (intro step.IH) (blast intro: below.step)
  moreover have "par' x = Some p"
    using step.prems [OF below.refl step.hyps(1)] step.hyps(2) by simp
  ultimately show ?case using step.hyps(1) by (blast intro: root_dist.step)
qed (rule root_dist.zero)

lemma below_cong:
  "below par root a x \<Longrightarrow> (\<And>y. below par root y x \<Longrightarrow> y \<noteq> root \<Longrightarrow> par' y = par y) \<Longrightarrow>
    below par' root a x"
proof (induction rule: below.induct)
  case (step x p)
  have "below par' root a p" using step by (intro step.IH) (auto intro: below.step)
  then show ?case using step.hyps step.prems [OF below.refl] by (auto intro: below.step)
qed (rule below.refl)

text \<open>Moving a subtree: the new link of \<open>w\<close> leads outside its own subtree.\<close>

lemma root_dist_move:
  assumes "root_dist par root np k" and "\<not> below par root w np" and "w \<noteq> root"
    and "root_dist par root x n"
  shows "\<exists>m. root_dist (par(w := Some np)) root x m"
proof -
  let ?p = "par(w := Some np)"
  have out: "\<exists>m. root_dist ?p root y m" if "root_dist par root y j" "\<not> below par root w y" for y j
    using that
  proof (induction rule: root_dist.induct)
    case (step y p n)
    then have "y \<noteq> w" and p: "\<not> below par root w p" by (auto intro: below.intros)
    then have "?p y = Some p" using step.hyps(2) by simp
    with step.IH [OF p] step.hyps(1) show ?case by (blast intro: root_dist.step)
  qed (blast intro: root_dist.zero)
  obtain m where "root_dist ?p root np m" using out [OF assms(1,2)] by blast
  then have w: "root_dist ?p root w (Suc m)"
    using assms(3) by (auto intro: root_dist.step)
  show ?thesis
  proof (cases "below par root w x")
    case True
    then show ?thesis
    proof (induction rule: below.induct)
      case (step y p)
      then show ?case
      proof (cases "y = w")
        case False
        then have "?p y = Some p" using step.hyps(2) by simp
        with step show ?thesis by (blast intro: root_dist.step)
      qed (use w in blast)
    qed (use w in blast)
  qed (use out assms(4) in blast)
qed

text \<open>Every distance up to that of \<open>x\<close> occurs on its way to the root.\<close>

lemma dist_on_path:
  "root_dist par root x n \<Longrightarrow> m \<le> n \<Longrightarrow> \<exists>y. below par root y x \<and> root_dist par root y m"
proof (induction rule: root_dist.induct)
  case zero
  then show ?case by (auto intro: root_dist.zero below.refl)
next
  case (step x p n)
  show ?case
  proof (cases "m = Suc n")
    case True
    then show ?thesis using step.hyps by (blast intro: root_dist.step below.refl)
  next
    case False
    then show ?thesis using step by (metis below.step le_SucE)
  qed
qed

section \<open>The interface\<close>

locale parent_forest =
  fixes par :: "'s \<Rightarrow> 'k \<Rightarrow> 'k option"
    and root :: 'k
    and nodes :: "'s \<Rightarrow> 'k set"
    and inv :: "'s \<Rightarrow> bool"
  assumes finite_nodes: "inv s \<Longrightarrow> finite (nodes s)"
    and node_par: "inv s \<Longrightarrow> x \<in> nodes s \<longleftrightarrow> par s x \<noteq> None"
    and root_node: "inv s \<Longrightarrow> root \<in> nodes s"
    and rooted: "inv s \<Longrightarrow> x \<in> nodes s \<Longrightarrow> \<exists>n. root_dist (par s) root x n"
begin

lemma dist_node: "inv s \<Longrightarrow> root_dist (par s) root x n \<Longrightarrow> x \<in> nodes s"
  by (metis root_distE node_par root_node option.distinct(1))

lemma parent_node: "inv s \<Longrightarrow> x \<in> nodes s \<Longrightarrow> x \<noteq> root \<Longrightarrow> par s x = Some p \<Longrightarrow> p \<in> nodes s"
  by (metis rooted root_distE dist_node option.inject)

lemma dist_bound:
  assumes "inv s" and "root_dist (par s) root x n"
  shows "n < card (nodes s)"
proof -
  obtain f where f: "\<And>m. m \<le> n \<Longrightarrow> root_dist (par s) root (f m) m"
    using dist_on_path [OF assms(2)] by metis
  have "inj_on f {0..n}"
    using f by (intro inj_onI) (metis atLeastAtMost_iff root_dist_unique)
  moreover have "f ` {0..n} \<subseteq> nodes s"
    using dist_node [OF assms(1) f] by auto
  ultimately have "card {0..n} \<le> card (nodes s)"
    using finite_nodes [OF assms(1)] by (metis card_inj_on_le)
  then show ?thesis by simp
qed

lemma not_below_own_parent:
  "inv s \<Longrightarrow> x \<in> nodes s \<Longrightarrow> x \<noteq> root \<Longrightarrow> par s x = Some p \<Longrightarrow> \<not> below (par s) root x p"
  using rooted not_below_parent by metis

lemma parent_neq: "inv s \<Longrightarrow> x \<in> nodes s \<Longrightarrow> x \<noteq> root \<Longrightarrow> par s x \<noteq> Some x"
  using not_below_own_parent below.refl by metis

lemma below_node: "inv s \<Longrightarrow> x \<in> nodes s \<Longrightarrow> below (par s) root a x \<Longrightarrow> a \<in> nodes s"
  by (metis rooted below_dist dist_node)

end

end
