(* ===== verification/WindowTree.thy ===== *)
theory WindowTree
  imports Windows Forest "HOL-Library.Multiset"
begin

text \<open>
  The invariant of the window tree (\<open>tree_inv\<close>): the root is its own parent, the children list of a
  window holds, each once, exactly the windows that name it as their parent, and every window
  reaches the root. The lemmas show that \<open>is_descendant_of\<close> decides descent in such a tree, and
  that every operation of \<open>Windows\<close> keeps the invariant.
\<close>

definition tree_inv :: "ResourceTable \<Rightarrow> bool" where
  "tree_inv t \<longleftrightarrow> hm_wf (rt_windows t) \<and> parent_of t ROOT_WINDOW = Some ROOT_WINDOW \<and>
     (\<forall>k w. window t k = Some w \<longrightarrow> win_id w = k \<and> distinct (win_children w)) \<and>
     (\<forall>k c. c \<in> set (children t k) \<longleftrightarrow> c \<noteq> ROOT_WINDOW \<and> parent_of t c = Some k) \<and>
     (\<forall>k. window t k \<noteq> None \<longrightarrow> (\<exists>n. root_dist (parent_of t) ROOT_WINDOW k n))"

definition window_ids :: "ResourceTable \<Rightarrow> ResourceId set" where
  "window_ids t = set (hm_keys (rt_windows t))"

abbreviation descends :: "ResourceTable \<Rightarrow> ResourceId \<Rightarrow> ResourceId \<Rightarrow> bool" where
  "descends t a x \<equiv> below (parent_of t) ROOT_WINDOW a x"

lemma window_ids_iff: "x \<in> window_ids t \<longleftrightarrow> window t x \<noteq> None"
  by (simp add: window_ids_def window_def hm.keys_get)

lemma parent_of_None [simp]: "parent_of t x = None \<longleftrightarrow> window t x = None"
  by (simp add: parent_of_def)

lemma card_window_ids: "hm_wf (rt_windows t) \<Longrightarrow> card (window_ids t) = hm_len (rt_windows t)"
  by (simp add: window_ids_def hm.card_keys hm_len_keys)

interpretation wf: parent_forest parent_of ROOT_WINDOW window_ids tree_inv
proof unfold_locales
  show "tree_inv t \<Longrightarrow> finite (window_ids t)" for t by (simp add: window_ids_def)
  show "tree_inv t \<Longrightarrow> (x \<in> window_ids t) = (parent_of t x \<noteq> None)" for t x
    by (simp add: window_ids_iff)
  show "tree_inv t \<Longrightarrow> ROOT_WINDOW \<in> window_ids t" for t
    by (auto simp: window_ids_iff tree_inv_def parent_of_def)
  show "tree_inv t \<Longrightarrow> x \<in> window_ids t \<Longrightarrow> \<exists>n. root_dist (parent_of t) ROOT_WINDOW x n" for t x
    by (simp add: window_ids_iff tree_inv_def)
qed

lemma tree_children_iff:
  "tree_inv t \<Longrightarrow> c \<in> set (children t k) \<longleftrightarrow> c \<noteq> ROOT_WINDOW \<and> parent_of t c = Some k"
  unfolding tree_inv_def by blast

lemma tree_win_id: "tree_inv t \<Longrightarrow> window t k = Some w \<Longrightarrow> win_id w = k"
  by (simp add: tree_inv_def)

lemma tree_distinct: "tree_inv t \<Longrightarrow> window t k = Some w \<Longrightarrow> distinct (win_children w)"
  by (simp add: tree_inv_def)

lemma tree_root: "tree_inv t \<Longrightarrow> parent_of t ROOT_WINDOW = Some ROOT_WINDOW"
  by (simp add: tree_inv_def)

lemma tree_root_window:
  assumes "tree_inv t"
  obtains r where "window t ROOT_WINDOW = Some r" "win_parent r = ROOT_WINDOW"
  using tree_root [OF assms] by (auto simp: parent_of_def)

lemma tree_root_present: "tree_inv t \<Longrightarrow> window t ROOT_WINDOW \<noteq> None"
  by (metis tree_root parent_of_None option.distinct(1))

lemma tree_child:
  assumes "tree_inv t" and "window t k = Some w" and "c \<in> set (win_children w)"
  shows "c \<noteq> ROOT_WINDOW" "parent_of t c = Some k"
  using tree_children_iff [OF assms(1), of c k] assms(2,3) by (simp_all add: children_def)

lemma tree_in_parent:
  assumes "tree_inv t" and "window t c = Some w" and "c \<noteq> ROOT_WINDOW"
  obtains p where "window t (win_parent w) = Some p" "c \<in> set (win_children p)"
proof -
  have "c \<in> set (children t (win_parent w))"
    using tree_children_iff [OF assms(1)] assms(2,3) by (simp add: parent_of_def)
  then show thesis
    using that by (cases "window t (win_parent w)") (auto simp: children_def)
qed

section \<open>Descent\<close>

lemma descendant_loop_correct:
  assumes inv: "tree_inv t"
    and "root_dist (parent_of t) ROOT_WINDOW x n" and "seen + n \<le> hm_len (rt_windows t)"
  shows "descendant_loop t a x seen \<longleftrightarrow> a \<noteq> x \<and> descends t a x"
  using assms(2,3)
proof (induction arbitrary: seen rule: root_dist.induct)
  case zero
  then show ?case by (subst descendant_loop.simps) (auto simp: below_root)
next
  case (step x p n)
  have node: "x \<in> window_ids t" using step.hyps(2) by (auto simp: window_ids_iff parent_of_def)
  obtain w where w: "window t x = Some w" "win_parent w = p"
    using step.hyps(2) by (auto simp: parent_of_def)
  have px: "p \<noteq> x" using wf.parent_neq [OF inv node step.hyps(1)] step.hyps(2) by auto
  have "descendant_loop t a x seen \<longleftrightarrow> p = a \<or> descendant_loop t a p (seen + 1)"
    using step.hyps(1) w px step.prems by (subst descendant_loop.simps) auto
  also have "\<dots> \<longleftrightarrow> p = a \<or> descends t a p"
    using step.IH [of "seen + 1"] step.prems by (auto intro: below.refl)
  also have "\<dots> \<longleftrightarrow> descends t a p" by (auto intro: below.refl)
  also have "\<dots> \<longleftrightarrow> a \<noteq> x \<and> descends t a x"
  proof
    assume p: "descends t a p"
    moreover have "\<not> descends t x p"
      using wf.not_below_own_parent [OF inv node step.hyps(1,2)] .
    ultimately show "a \<noteq> x \<and> descends t a x"
      using step.hyps(1,2) by (auto intro: below.step)
  next
    assume "a \<noteq> x \<and> descends t a x"
    then show "descends t a p" using step.hyps(2) by (auto elim: belowE)
  qed
  finally show ?case .
qed

lemma is_descendant_of_iff:
  assumes inv: "tree_inv t"
  shows "is_descendant_of t x a \<longleftrightarrow> a \<noteq> x \<and> descends t a x"
proof (cases "window t x")
  case None
  then have p: "parent_of t x = None" by simp
  have "a = x" if "descends t a x"
    using that by (rule belowE) (simp_all only: p option.distinct)
  then show ?thesis
    using None by (auto simp: is_descendant_of_def descendant_loop.simps)
next
  case (Some w)
  then obtain n where n: "root_dist (parent_of t) ROOT_WINDOW x n"
    using inv by (auto simp: tree_inv_def)
  then have "n < hm_len (rt_windows t)"
    using wf.dist_bound [OF inv n] inv by (simp add: card_window_ids tree_inv_def)
  then show ?thesis
    unfolding is_descendant_of_def by (intro descendant_loop_correct [OF inv n]) simp
qed

section \<open>Changes that keep the links\<close>

text \<open>Two tables have the same shape when they agree on the parent and, up to order, the children
  of every window.\<close>

definition same_shape :: "ResourceTable \<Rightarrow> ResourceTable \<Rightarrow> bool" where
  "same_shape t t' \<longleftrightarrow> (\<forall>k. rel_option (\<lambda>w w'. win_id w' = win_id w \<and> win_parent w' = win_parent w \<and>
     mset (win_children w') = mset (win_children w)) (window t k) (window t' k))"

lemma same_shape_refl: "same_shape t t"
  unfolding same_shape_def by (auto intro: option.rel_refl)

lemma same_shape_trans: "same_shape t t' \<Longrightarrow> same_shape t' t'' \<Longrightarrow> same_shape t t''"
  unfolding same_shape_def
proof (intro allI)
  fix k
  let ?R = "\<lambda>w w'. win_id w' = win_id w \<and> win_parent w' = win_parent w \<and>
     mset (win_children w') = mset (win_children w)"
  assume "\<forall>k. rel_option ?R (window t k) (window t' k)" "\<forall>k. rel_option ?R (window t' k) (window t'' k)"
  then have "rel_option ?R (window t k) (window t' k)" "rel_option ?R (window t' k) (window t'' k)"
    by blast+
  then show "rel_option ?R (window t k) (window t'' k)"
    by (cases "window t k"; cases "window t' k"; cases "window t'' k") simp_all
qed

lemma same_shape_parent_of: "same_shape t t' \<Longrightarrow> parent_of t' k = parent_of t k"
  unfolding same_shape_def parent_of_def
  by (drule spec [of _ k]) (auto elim: option.rel_cases)

lemma same_shape_children: "same_shape t t' \<Longrightarrow> mset (children t' k) = mset (children t k)"
  unfolding same_shape_def children_def
  by (drule spec [of _ k]) (auto elim: option.rel_cases)

lemma same_shape_window:
  "same_shape t t' \<Longrightarrow> window t' k = Some w' \<Longrightarrow> \<exists>w. window t k = Some w \<and> win_id w' = win_id w \<and>
     mset (win_children w') = mset (win_children w)"
  unfolding same_shape_def by (drule spec [of _ k]) (auto elim: option.rel_cases)

lemma tree_inv_same_shape:
  assumes inv: "tree_inv t" and s: "same_shape t t'" and hw: "hm_wf (rt_windows t')"
  shows "tree_inv t'"
proof -
  have par: "parent_of t' = parent_of t"
    using same_shape_parent_of [OF s] by (rule ext)
  have ch: "set (children t' k) = set (children t k)" for k
    using same_shape_children [OF s, of k] by (rule mset_eq_setD)
  have "win_id w' = k \<and> distinct (win_children w')" if w: "window t' k = Some w'" for k w'
    using same_shape_window [OF s w] inv unfolding tree_inv_def by (metis mset_eq_imp_distinct_iff)
  moreover have "window t' k \<noteq> None \<longleftrightarrow> window t k \<noteq> None" for k
    using par by (metis parent_of_None)
  ultimately show ?thesis
    using inv hw unfolding tree_inv_def par ch by auto
qed

lemma window_modify [simp]:
  "window (modify_window i f t) k = (if k = i then map_option f (window t i) else window t k)"
  by (simp add: window_def modify_window_def)

lemma window_insert [simp]:
  "window (insert_window i w t) k = (if k = i then Some w else window t k)"
  by (simp add: window_def insert_window_def)

lemma wf_modify [simp]: "hm_wf (rt_windows t) \<Longrightarrow> hm_wf (rt_windows (modify_window i f t))"
  by (simp add: modify_window_def)

lemma wf_insert_window [simp]: "hm_wf (rt_windows t) \<Longrightarrow> hm_wf (rt_windows (insert_window i w t))"
  by (simp add: insert_window_def)

lemma same_shape_modify:
  assumes "\<And>w. window t i = Some w \<Longrightarrow> win_id (f w) = win_id w \<and> win_parent (f w) = win_parent w \<and>
    mset (win_children (f w)) = mset (win_children w)"
  shows "same_shape t (modify_window i f t)"
  using assms unfolding same_shape_def
  by (auto simp: option.rel_map intro: option.rel_refl split: option.splits)
    (auto simp: rel_option_iff split: option.splits)

lemma same_shape_insert:
  assumes "window t i = Some w" "win_id w' = win_id w" "win_parent w' = win_parent w"
    "mset (win_children w') = mset (win_children w)"
  shows "same_shape t (insert_window i w' t)"
  using assms unfolding same_shape_def
  by (auto intro: option.rel_refl)

lemma tree_inv_modify:
  assumes "tree_inv t" and "\<And>w. window t i = Some w \<Longrightarrow> win_id (f w) = win_id w \<and>
    win_parent (f w) = win_parent w \<and> mset (win_children (f w)) = mset (win_children w)"
  shows "tree_inv (modify_window i f t)"
  using assms(1)
  by (rule tree_inv_same_shape [OF _ same_shape_modify]) (use assms in \<open>auto simp: tree_inv_def\<close>)

lemma tree_inv_insert:
  assumes "tree_inv t" "window t i = Some w" "win_id w' = win_id w" "win_parent w' = win_parent w"
    "mset (win_children w') = mset (win_children w)"
  shows "tree_inv (insert_window i w' t)"
  using assms(1) by (rule tree_inv_same_shape [OF _ same_shape_insert [OF assms(2-)]])
    (use assms(1) in \<open>simp add: tree_inv_def\<close>)

lemma mset_vec_move:
  "i < length xs \<Longrightarrow> mset (vec_insert j (xs ! i) (vec_remove i xs)) = mset xs"
proof -
  assume i: "i < length xs"
  have "mset (vec_insert j x ys) = add_mset x (mset ys)" for x and ys :: "'a list"
    unfolding vec_insert_def by (metis append_take_drop_id mset.simps(2) mset_append
        union_mset_add_mset_right)
  moreover have "mset xs = add_mset (xs ! i) (mset (vec_remove i xs))"
    unfolding vec_remove_def by (subst id_take_nth_drop [OF i]) simp
  ultimately show ?thesis by simp
qed

section \<open>Operations that keep the shape\<close>

lemma configure_geometry_links [simp]:
  "win_id (configure_geometry r w) = win_id w" "win_parent (configure_geometry r w) = win_parent w"
  "win_children (configure_geometry r w) = win_children w"
  "win_map_state (configure_geometry r w) = win_map_state w"
  by (simp_all add: configure_geometry_def)

lemma apply_restack_links:
  assumes "position (\<lambda>c. c = i) (win_children p) = Some index"
  shows "win_id (apply_restack a index i p) = win_id p \<and>
    win_parent (apply_restack a index i p) = win_parent p \<and>
    mset (win_children (apply_restack a index i p)) = mset (win_children p)"
proof -
  have i: "index < length (win_children p)" "win_children p ! index = i"
    using position_Some [OF assms] by simp_all
  then have "mset (vec_insert j i (vec_remove index (win_children p))) = mset (win_children p)" for j
    using mset_vec_move [OF i(1), of j] by simp
  then show ?thesis
    by (cases a) (simp_all add: apply_restack_def Let_def)
qed

lemma restack_cases:
  obtains "restack_window i sib mode t = t"
  | m p action index where "mode = Some m" "parent_of t i = Some (win_id p)"
      "window t (win_id p) = Some p"
      "resolve_restack_action t i (win_id p) sib m = Some action"
      "position (\<lambda>c. c = i) (win_children p) = Some index"
      "restack_window i sib mode t = insert_window (win_id p) (apply_restack action index i p) t"
  | "\<exists>k w. window t k = Some w \<and> win_id w \<noteq> k"
proof (cases "restack_window i sib mode t = t")
  case False
  then obtain m pid p action index where
    m: "mode = Some m" "parent_of t i = Some pid" "resolve_restack_action t i pid sib m = Some action"
      "window t pid = Some p" "position (\<lambda>c. c = i) (win_children p) = Some index"
      "restack_window i sib mode t = insert_window pid (apply_restack action index i p) t"
    unfolding restack_window_def by (auto split: option.splits)
  then show thesis using that(2,3) by (cases "win_id p = pid") blast+
qed (rule that(1))

lemma restack_tree_inv:
  assumes inv: "tree_inv t"
  shows "tree_inv (restack_window i sib mode t)"
proof (cases rule: restack_cases [where t = t and i = i and sib = sib and mode = mode])
  case (2 m p action index)
  then show ?thesis
    using tree_inv_insert [OF inv] apply_restack_links [OF 2(5)] by simp
next
  case 3
  then show ?thesis using tree_win_id [OF inv] by blast
qed (use inv in simp)

lemma configure_tree_inv:
  assumes inv: "tree_inv t"
  shows "tree_inv (fst (configure_window r t))"
proof (cases "window t (cfg_window r)")
  case (Some w)
  then have "tree_inv (insert_window (cfg_window r) (configure_geometry r w) t)"
    using inv by (intro tree_inv_insert) simp_all
  then show ?thesis
    using Some by (simp add: configure_window_def Let_def restack_tree_inv)
qed (use inv in \<open>simp add: configure_window_def\<close>)

text \<open>A circulation moves one child; \<open>top\<close> is the end of the range it works in.\<close>

lemma circulate_cases:
  obtains "fst (circulate_window c d t) = t"
  | p k j where "window t c = Some p" "k < length (win_children p)"
      "k < (if c = ROOT_WINDOW then cow_aware_top_index p else length (win_children p))"
      "j < (if c = ROOT_WINDOW then cow_aware_top_index p else length (win_children p))"
      "fst (circulate_window c d t) = insert_window c (p\<lparr>win_children :=
         vec_insert j (win_children p ! k) (vec_remove k (win_children p))\<rparr>) t"
proof (cases "window t c")
  case (Some p)
  let ?top = "if c = ROOT_WINDOW then cow_aware_top_index p else length (win_children p)"
  have top: "?top \<le> length (win_children p)"
    by (simp add: cow_aware_top_index_def)
  show thesis
  proof (cases "2 \<le> ?top \<and> (d = 0 \<or> d = 1)")
    case True
    define k where "k = (if d = 0 then ?top - 1 else 0)"
    define j where "j = (if d = 0 then 0 else ?top - 1)"
    have "fst (circulate_window c d t) = insert_window c (p\<lparr>win_children :=
         vec_insert j (win_children p ! k) (vec_remove k (win_children p))\<rparr>) t"
      using Some True unfolding circulate_window_def k_def j_def
      by (auto simp: Let_def simp del: One_nat_def)
    moreover have k: "k < ?top" and j: "j < ?top" using True by (auto simp: k_def j_def)
    ultimately show thesis using that(2) [OF Some less_le_trans [OF k top] k j] by blast
  next
    case False
    then show thesis
      using Some by (intro that(1)) (auto simp: circulate_window_def Let_def)
  qed
qed (rule that(1), simp add: circulate_window_def)

lemma circulate_tree_inv:
  assumes inv: "tree_inv t"
  shows "tree_inv (fst (circulate_window c d t))"
proof (cases rule: circulate_cases [where c = c and d = d and t = t])
  case (2 p k j)
  then show ?thesis
    using tree_inv_insert [OF inv 2(1)] mset_vec_move [OF 2(2)] by simp
qed (use inv in simp)

lemma unmap_tree_inv: "tree_inv t \<Longrightarrow> tree_inv (fst (unmap_window i t))"
  by (auto simp: unmap_window_def intro!: tree_inv_modify split: option.splits)

lemma same_shape_set_state:
  "same_shape t (modify_window i (\<lambda>w. w\<lparr>win_map_state := s\<rparr>) t)"
  by (rule same_shape_modify) simp

lemma apply_window_attributes_links [simp]:
  "win_id (apply_window_attributes r h c w) = win_id w"
  "win_parent (apply_window_attributes r h c w) = win_parent w"
  "win_children (apply_window_attributes r h c w) = win_children w"
  by (simp_all add: apply_window_attributes_def Let_def split: option.splits)

lemma attributes_tree_inv: "tree_inv t \<Longrightarrow> tree_inv (fst (change_window_attributes r t))"
  by (auto simp: change_window_attributes_def Let_def intro!: tree_inv_insert split: option.splits)

end
