(* ===== verification/WindowTreeOps.thy ===== *)
theory WindowTreeOps
  imports WindowTree
begin

text \<open>
  Creation, reparenting and the composite overlay window keep the tree invariant; what each makes
  of the parent links.
\<close>

lemma parent_of_eq: "parent_of t k = Some p \<longleftrightarrow> (\<exists>w. window t k = Some w \<and> win_parent w = p)"
  by (auto simp: parent_of_def)

lemma children_eq: "window t k = Some w \<Longrightarrow> children t k = win_children w"
  by (simp add: children_def)

lemma children_modify_keep:
  "(\<And>w. win_children (f w) = win_children w) \<Longrightarrow> children (modify_window i f t) k = children t k"
  by (cases "window t i") (simp_all add: children_def)

lemma children_modify_filter:
  "children (modify_window i (\<lambda>p. p\<lparr>win_children := filter P (win_children p)\<rparr>) t) k =
    (if k = i then filter P (children t k) else children t k)"
  by (cases "window t i") (simp_all add: children_def)

lemma children_modify_insert:
  assumes "window t i \<noteq> None"
  shows "set (children (modify_window i
      (\<lambda>p. p\<lparr>win_children := vec_insert (pos p) x (win_children p)\<rparr>) t) k) =
    (if k = i then insert x (set (children t k)) else set (children t k))"
proof -
  obtain w where w: "window t i = Some w" using assms by blast
  show ?thesis
  proof (cases "k = i")
    case True
    have "children (modify_window i
      (\<lambda>p. p\<lparr>win_children := vec_insert (pos p) x (win_children p)\<rparr>) t) k =
      vec_insert (pos w) x (children t k)"
      using w True unfolding children_def window_modify by simp
    then show ?thesis using True by simp
  next
    case False
    then show ?thesis unfolding children_def window_modify by simp
  qed
qed

text \<open>A window that no window names as its parent and no list of children holds.\<close>

lemma absent_no_links:
  assumes inv: "tree_inv t" and "window t i = None"
  shows "parent_of t c \<noteq> Some i" "i \<notin> set (children t k)" "children t i = []"
proof -
  have "i \<noteq> ROOT_WINDOW" using tree_root_present [OF inv] assms(2) by auto
  then have "parent_of t ROOT_WINDOW \<noteq> Some i" using tree_root [OF inv] by simp
  show "children t i = []" using assms(2) by (simp add: children_def)
  then show "parent_of t c \<noteq> Some i"
    using tree_children_iff [OF inv, of c i] \<open>parent_of t ROOT_WINDOW \<noteq> Some i\<close>
    by (cases "c = ROOT_WINDOW") auto
  show "i \<notin> set (children t k)"
    using tree_children_iff [OF inv, of i k] assms(2) by (simp add: parent_of_def)
qed

text \<open>Linking a new window: what \<open>create_window\<close> and \<open>materialize_cow_resource\<close> have in common.\<close>

lemma tree_inv_link:
  assumes inv: "tree_inv t" and fresh: "window t i = None" and p: "window t pid = Some p"
    and w: "win_id w = i" "win_parent w = pid" "win_children w = []"
    and p': "win_id p' = pid" "win_parent p' = win_parent p"
      "win_children p' = vec_insert pos i (win_children p)"
    and get: "\<And>k. window t' k = (if k = i then Some w else if k = pid then Some p' else window t k)"
    and hw: "hm_wf (rt_windows t')"
  shows "tree_inv t'" "parent_of t' = (parent_of t)(i := Some pid)"
proof -
  have ip: "i \<noteq> pid" using fresh p by auto
  have ir: "i \<noteq> ROOT_WINDOW" using fresh tree_root_present [OF inv] by auto
  note abs = absent_no_links [OF inv fresh]
  show par: "parent_of t' = (parent_of t)(i := Some pid)"
    by (rule ext) (simp add: parent_of_def get w p'(2) p)
  have ch: "set (children t' k) = (if k = i then {} else if k = pid then insert i (set (children t pid))
      else set (children t k))" for k
    using p by (auto simp: children_def get w(3) p'(3))
  have d: "distinct (vec_insert pos i (win_children p))"
    using tree_distinct [OF inv p] abs(2) [of pid] p by (simp add: children_def)
  have dist: "\<exists>n. root_dist (parent_of t') ROOT_WINDOW k n" if "window t k \<noteq> None" for k
  proof -
    obtain n where n: "root_dist (parent_of t) ROOT_WINDOW k n"
      using inv \<open>window t k \<noteq> None\<close> by (auto simp: tree_inv_def)
    have "parent_of t' y = parent_of t y" if "descends t y k" for y
    proof -
      have "y \<in> window_ids t"
        using wf.below_node [OF inv _ that] \<open>window t k \<noteq> None\<close> by (simp add: window_ids_iff)
      then show ?thesis using fresh by (auto simp: par window_ids_iff)
    qed
    then show ?thesis using root_dist_cong [OF n] by blast
  qed
  have disti: "\<exists>n. root_dist (parent_of t') ROOT_WINDOW i n"
  proof -
    obtain n where "root_dist (parent_of t') ROOT_WINDOW pid n" using dist [of pid] p by auto
    then have "root_dist (parent_of t') ROOT_WINDOW i (Suc n)"
      using ir by (intro root_dist.step) (simp_all add: par)
    then show ?thesis ..
  qed
  have "win_id v = k \<and> distinct (win_children v)" if "window t' k = Some v" for k v
    using that inv d w(1,3) p'(1,3) unfolding get tree_inv_def by (auto split: if_splits)
  moreover have "c \<in> set (children t' k) \<longleftrightarrow> c \<noteq> ROOT_WINDOW \<and> parent_of t' c = Some k" for k c
    using tree_children_iff [OF inv, of c] abs(1,2) ir ip by (auto simp: ch par)
  moreover have "\<exists>n. root_dist (parent_of t') ROOT_WINDOW k n" if "window t' k \<noteq> None" for k
    using that dist [of k] disti p by (auto simp: get split: if_splits)
  ultimately show "tree_inv t'"
    using tree_root [OF inv] ir hw unfolding tree_inv_def by (simp add: par)
qed

lemma create_window_get:
  assumes "window t (cw_parent r) = Some p" and "cw_window r \<noteq> cw_parent r"
  shows "window (create_window owner r t) k =
    (if k = cw_window r then Some (new_window owner r t)
     else if k = cw_parent r then Some (p\<lparr>win_children :=
       vec_insert (cow_aware_top_index p) (cw_window r) (win_children p)\<rparr>)
     else window t k)"
  using assms by (simp add: create_window_def Let_def)

lemma new_window_links [simp]:
  "win_id (new_window owner r t) = cw_window r" "win_parent (new_window owner r t) = cw_parent r"
  "win_children (new_window owner r t) = []" "win_map_state (new_window owner r t) = Unmapped"
  by (simp_all add: new_window_def Let_def)

lemma create_tree_inv:
  assumes inv: "tree_inv t" and "window t (cw_window r) = None" and p: "window t (cw_parent r) = Some p"
  shows "tree_inv (create_window owner r t)"
    "parent_of (create_window owner r t) = (parent_of t)(cw_window r := Some (cw_parent r))"
proof -
  have ne: "cw_window r \<noteq> cw_parent r" using assms(2,3) by auto
  note link = tree_inv_link [OF inv assms(2) p, of "new_window owner r t"
      "p\<lparr>win_children := vec_insert (cow_aware_top_index p) (cw_window r) (win_children p)\<rparr>"
      "cow_aware_top_index p" "create_window owner r t"]
  have "hm_wf (rt_windows (create_window owner r t))"
    using inv by (simp add: create_window_def Let_def tree_inv_def)
  then show "tree_inv (create_window owner r t)"
    "parent_of (create_window owner r t) = (parent_of t)(cw_window r := Some (cw_parent r))"
    using link tree_win_id [OF inv p] create_window_get [OF p ne] by simp_all
qed

lemma materialize_tree_inv:
  assumes inv: "tree_inv t" and "window t COMPOSITE_OVERLAY_WINDOW = None"
  shows "tree_inv (materialize_cow_resource host t)"
proof -
  obtain r where r: "window t ROOT_WINDOW = Some r" using tree_root_present [OF inv] by auto
  have ne: "ROOT_WINDOW \<noteq> COMPOSITE_OVERLAY_WINDOW"
    by (simp add: ROOT_WINDOW_def COMPOSITE_OVERLAY_WINDOW_def)
  let ?t = "materialize_cow_resource host t"
  have "hm_wf (rt_windows ?t)"
    using inv by (simp add: materialize_cow_resource_def Let_def tree_inv_def)
  moreover obtain w where w: "window ?t COMPOSITE_OVERLAY_WINDOW = Some w"
      "win_id w = COMPOSITE_OVERLAY_WINDOW" "win_parent w = ROOT_WINDOW" "win_children w = []"
    using ne by (auto simp: materialize_cow_resource_def Let_def window_placeholder_def)
  moreover have "window ?t k = (if k = COMPOSITE_OVERLAY_WINDOW then Some w
      else if k = ROOT_WINDOW then Some (r\<lparr>win_children := vec_insert (cow_aware_top_index r)
        COMPOSITE_OVERLAY_WINDOW (win_children r)\<rparr>)
      else window t k)" for k
    using w(1) ne r by (auto simp: materialize_cow_resource_def Let_def)
  ultimately show ?thesis
    using tree_inv_link(1) [OF inv assms(2) r, of w
        "r\<lparr>win_children := vec_insert (cow_aware_top_index r) COMPOSITE_OVERLAY_WINDOW (win_children r)\<rparr>"
        "cow_aware_top_index r" ?t] tree_win_id [OF inv r]
    by simp
qed

section \<open>Reparenting\<close>

lemma reparent_Inr:
  assumes "reparent_window r t = Inr (t', res)"
  obtains w where "rep_window r \<noteq> ROOT_WINDOW" "rep_window r \<noteq> rep_parent r"
    "\<not> is_descendant_of t (rep_parent r) (rep_window r)"
    "window t (rep_window r) = Some w" "window t (rep_parent r) \<noteq> None"
    "t' = modify_window (rep_window r)
       (\<lambda>w. w\<lparr>win_parent := rep_parent r, win_x := rep_x r, win_y := rep_y r\<rparr>)
       (modify_window (rep_parent r) (\<lambda>p. p\<lparr>win_children :=
          vec_insert (cow_aware_top_index p) (rep_window r) (win_children p)\<rparr>)
         (modify_window (win_parent w) (\<lambda>p. p\<lparr>win_children :=
            filter (\<lambda>c. c \<noteq> rep_window r) (win_children p)\<rparr>) t))"
  using assms
  by (auto simp: reparent_window_def Let_def window_def split: option.splits if_splits)

lemma reparent_tree_inv:
  assumes inv: "tree_inv t" and ok: "reparent_window r t = Inr (t', res)"
  shows "tree_inv t'" "parent_of t' = (parent_of t)(rep_window r := Some (rep_parent r))"
proof -
  let ?w = "rep_window r" and ?p = "rep_parent r"
  obtain w where nr: "?w \<noteq> ROOT_WINDOW" and ne: "?w \<noteq> ?p"
    and nd: "\<not> is_descendant_of t ?p ?w" and w: "window t ?w = Some w" and p: "window t ?p \<noteq> None"
    and t': "t' = modify_window ?w
       (\<lambda>w. w\<lparr>win_parent := ?p, win_x := rep_x r, win_y := rep_y r\<rparr>)
       (modify_window ?p (\<lambda>p. p\<lparr>win_children :=
          vec_insert (cow_aware_top_index p) ?w (win_children p)\<rparr>)
         (modify_window (win_parent w) (\<lambda>p. p\<lparr>win_children :=
            filter (\<lambda>c. c \<noteq> ?w) (win_children p)\<rparr>) t))"
    using ok by (rule reparent_Inr)
  have old: "win_parent w \<noteq> ?w"
    using wf.parent_neq [OF inv, of ?w] nr w by (simp add: window_ids_iff parent_of_def)
  show par: "parent_of t' = (parent_of t)(?w := Some ?p)"
    using w ne by (intro ext) (auto simp: t' parent_of_def option.map_comp comp_def)
  define t1 where "t1 = modify_window (win_parent w) (\<lambda>p. p\<lparr>win_children :=
      filter (\<lambda>c. c \<noteq> ?w) (win_children p)\<rparr>) t"
  have ch1: "set (children t1 k) = (if k = win_parent w then set (children t k) - {?w}
      else set (children t k))" for k
    unfolding t1_def by (simp add: children_modify_filter set_diff_eq)
  have p1: "window t1 ?p \<noteq> None" using p by (auto simp: t1_def)
  have ch: "set (children t' k) = (if k = ?p then insert ?w (set (children t ?p)) else
      if k = win_parent w then set (children t k) - {?w} else set (children t k))" for k
    unfolding t' t1_def [symmetric]
    by (subst children_modify_keep) (auto simp: children_modify_insert [OF p1] ch1)
  have "win_id v = k \<and> distinct (win_children v)" if v: "window t' k = Some v" for k v
  proof -
    have "?p \<noteq> win_parent w \<Longrightarrow> ?w \<notin> set (children t ?p)"
      using tree_children_iff [OF inv, of ?w ?p] w by (auto simp: parent_of_def)
    then show ?thesis
      using v inv ne old unfolding t' tree_inv_def by (auto simp: children_def split: if_splits)
  qed
  moreover have "c \<in> set (children t' k) \<longleftrightarrow> c \<noteq> ROOT_WINDOW \<and> parent_of t' c = Some k" for k c
    using tree_children_iff [OF inv, of c] nr w by (auto simp: ch par parent_of_eq)
  moreover have "\<exists>n. root_dist (parent_of t') ROOT_WINDOW k n" if k: "window t' k \<noteq> None" for k
  proof -
    have "window t k \<noteq> None" using k by (auto simp: t' split: if_splits)
    then obtain n where n: "root_dist (parent_of t) ROOT_WINDOW k n" using inv by (auto simp: tree_inv_def)
    obtain m where m: "root_dist (parent_of t) ROOT_WINDOW ?p m" using inv p by (auto simp: tree_inv_def)
    have "\<not> descends t ?w ?p" using nd ne by (simp add: is_descendant_of_iff [OF inv])
    from root_dist_move [OF m this nr n] show ?thesis by (simp add: par)
  qed
  moreover have "hm_wf (rt_windows t')" using inv by (simp add: t' tree_inv_def)
  ultimately show "tree_inv t'"
    using tree_root [OF inv] nr unfolding tree_inv_def by (simp add: par)
qed

end
