(* ===== verification/WindowDestroy.thy ===== *)
theory WindowDestroy
  imports WindowTreeOps
begin

text \<open>
  Destroying a window of a well-formed tree removes exactly its subtree: the loop invariant of
  \<open>destroy_loop\<close>, the table it leaves, and the list of destroyed windows it returns.
\<close>

definition strip_child :: "ResourceId \<Rightarrow> ResourceId \<Rightarrow> ResourceId \<Rightarrow> Window \<Rightarrow> Window" where
  "strip_child i p k w =
     (if k = p then w\<lparr>win_children := filter (\<lambda>c. c \<noteq> i) (win_children w)\<rparr> else w)"

text \<open>
  The state of the loop that destroys \<open>i\<close>, a child of \<open>p\<close>, of the table \<open>t0\<close>: \<open>D\<close> holds the
  windows removed so far, in order; every child of one of them is removed or pending; every pending
  window is a child of a removed one.
\<close>

definition destroy_state ::
  "ResourceTable \<Rightarrow> ResourceId \<Rightarrow> ResourceId \<Rightarrow> ResourceTable \<Rightarrow> ResourceId list \<Rightarrow> ResourceId list \<Rightarrow> bool" where
  "destroy_state t0 i p t pending D \<longleftrightarrow>
     (\<forall>k. window t k = (if k \<in> set D then None else map_option (strip_child i p k) (window t0 k))) \<and>
     hm_wf (rt_windows t) \<and> distinct D \<and> distinct pending \<and> i \<in> set D \<and>
     (\<forall>d \<in> set D. descends t0 i d \<and> (d = i \<or> (\<exists>q \<in> set D. parent_of t0 d = Some q))) \<and>
     (\<forall>c \<in> set pending. descends t0 i c \<and> c \<notin> set D \<and> (\<exists>q \<in> set D. parent_of t0 c = Some q)) \<and>
     (\<forall>d \<in> set D. set (children t0 d) \<subseteq> set D \<union> set pending)"

lemma destroy_stateD:
  assumes "destroy_state t0 i p t pending D"
  shows "window t k = (if k \<in> set D then None else map_option (strip_child i p k) (window t0 k))"
    "hm_wf (rt_windows t)" "distinct D" "distinct pending" "i \<in> set D"
    "d \<in> set D \<Longrightarrow> descends t0 i d"
    "d \<in> set D \<Longrightarrow> d = i \<or> (\<exists>q \<in> set D. parent_of t0 d = Some q)"
    "c \<in> set pending \<Longrightarrow> descends t0 i c"
    "c \<in> set pending \<Longrightarrow> c \<notin> set D"
    "c \<in> set pending \<Longrightarrow> \<exists>q \<in> set D. parent_of t0 c = Some q"
    "d \<in> set D \<Longrightarrow> set (children t0 d) \<subseteq> set D \<union> set pending"
  using assms unfolding destroy_state_def by blast+

lemma modify_window_absent: "window t i = None \<Longrightarrow> modify_window i f t = t"
  by (simp add: modify_window_def window_def hm_modify_def)

lemma window_remove [simp]:
  "window (t\<lparr>rt_windows := hm_remove i (rt_windows t)\<rparr>) k = (if k = i then None else window t k)"
  by (simp add: window_def)

lemma destroy_state_step:
  assumes inv: "tree_inv t0" and i: "i \<noteq> ROOT_WINDOW" and p: "parent_of t0 i = Some p"
    and st: "destroy_state t0 i p t (c # rest) D" and w: "window t c = Some w"
  shows "c \<noteq> ROOT_WINDOW" and "window t (win_parent w) = None" and "win_parent w \<noteq> c"
    and "destroy_state t0 i p (t\<lparr>rt_windows := hm_remove c (rt_windows t)\<rparr>)
      (win_children w @ rest) (D @ [c])"
proof -
  note S = destroy_stateD [OF st]
  have c: "descends t0 i c" "c \<notin> set D" using S(8,9) [of c] by simp_all
  obtain q where q: "q \<in> set D" "parent_of t0 c = Some q" using S(10) [of c] by auto
  have i_node: "i \<in> window_ids t0" using p by (auto simp: window_ids_iff parent_of_def)
  have pi: "\<not> descends t0 i p" using wf.not_below_own_parent [OF inv i_node i p] .
  show "c \<noteq> ROOT_WINDOW" using c(1) i by (auto simp: below_root)
  have cp: "c \<noteq> p" using c(1) pi by auto
  have w0: "window t0 c = Some w" using w S(1) [of c] c(2) cp by (auto simp: strip_child_def)
  then have wq: "win_parent w = q" using q(2) by (simp add: parent_of_def)
  show wn: "window t (win_parent w) = None" using S(1) [of q] q(1) by (simp add: wq)
  show "win_parent w \<noteq> c" using wn w by auto
  have kids: "children t0 c = win_children w" using w0 by (simp add: children_def)
  have kid: "descends t0 i x \<and> x \<notin> set (D @ [c]) \<and> parent_of t0 x = Some c \<and> x \<notin> set rest"
    if x: "x \<in> set (win_children w)" for x
  proof -
    have px: "x \<noteq> ROOT_WINDOW" "parent_of t0 x = Some c"
      using tree_child [OF inv w0 x] .
    have "x \<in> window_ids t0" using px(2) by (auto simp: window_ids_iff parent_of_def)
    then have "x \<noteq> c" using wf.parent_neq [OF inv _ px(1)] px(2) by auto
    moreover have "x \<notin> set D"
    proof
      assume "x \<in> set D"
      then have "x = i" using S(7) [of x] px(2) c(2) by auto
      then show False using px(2) p cp by simp
    qed
    moreover have "x \<notin> set rest" using S(10) [of x] px(2) c(2) by auto
    ultimately show ?thesis using px c(1) by (auto intro: below.step)
  qed
  have "distinct (win_children w @ rest)"
    using tree_distinct [OF inv w0] S(4) kid by auto
  moreover have "c' \<noteq> c" if "c' \<in> set rest" for c' using S(4) that by auto
  moreover have "set (children t0 d) \<subseteq> set (D @ [c]) \<union> set (win_children w @ rest)"
    if "d \<in> set (D @ [c])" for d
    using that S(11) [of d] kids by auto
  moreover have "descends t0 i d \<and> (d = i \<or> (\<exists>q \<in> set (D @ [c]). parent_of t0 d = Some q))"
    if "d \<in> set (D @ [c])" for d
    using that S(6) [of d] S(7) [of d] c(1) q by auto
  moreover have "descends t0 i x \<and> x \<notin> set (D @ [c]) \<and> (\<exists>q \<in> set (D @ [c]). parent_of t0 x = Some q)"
    if "x \<in> set (win_children w @ rest)" for x
    using that kid S(8-10) [of x] calculation(2) by auto
  ultimately show "destroy_state t0 i p (t\<lparr>rt_windows := hm_remove c (rt_windows t)\<rparr>)
      (win_children w @ rest) (D @ [c])"
    unfolding destroy_state_def using S(1,2,3,5) c(2) by simp
qed

lemma destroy_loop_state:
  assumes inv: "tree_inv t0" and i: "i \<noteq> ROOT_WINDOW" and p: "parent_of t0 i = Some p"
  shows "destroy_state t0 i p t pending D \<Longrightarrow> destroy_loop t pending D = (t', D') \<Longrightarrow>
    destroy_state t0 i p t' [] D' \<and> (\<exists>E. D' = D @ E)"
proof (induction t pending D rule: destroy_loop.induct)
  case (1 t destroyed)
  then show ?case by simp
next
  case (2 t c rest D)
  note st = 2(4) and res = 2(5)
  have node: "c \<notin> set D" "descends t0 i c" "\<exists>q \<in> set D. parent_of t0 c = Some q"
    using destroy_stateD(8-10) [OF st, of c] by simp_all
  then obtain w where w: "window t c = Some w"
    using destroy_stateD(1) [OF st, of c] by (auto simp: parent_of_def)
  note step = destroy_state_step [OF inv i p st w]
  let ?t1 = "t\<lparr>rt_windows := hm_remove c (rt_windows t)\<rparr>"
  have m: "modify_window (win_parent w) f ?t1 = ?t1" for f
    using step(2) by (intro modify_window_absent) simp
  have "destroy_loop ?t1 (win_children w @ rest) (D @ [c]) = (t', D')"
    using res w step(1) by (simp add: m)
  moreover have IH: "destroy_state t0 i p ?t1 (win_children w @ rest) (D @ [c]) \<Longrightarrow>
      destroy_loop ?t1 (win_children w @ rest) (D @ [c]) = (t', D') \<Longrightarrow>
      destroy_state t0 i p t' [] D' \<and> (\<exists>E. D' = (D @ [c]) @ E)"
    using 2(3) [OF step(1) w HOL.refl HOL.refl] unfolding m .
  ultimately show ?case using step(4) by auto
qed

lemma destroy_window_correct:
  assumes inv: "tree_inv t" and i: "i \<noteq> ROOT_WINDOW" and w: "window t i = Some w"
    and d: "destroy_window i t = (t', D)"
  shows "set D = {k. descends t i k}" "distinct D" "hd D = i" "D \<noteq> []" "hm_wf (rt_windows t')"
    "window t' k = (if descends t i k then None
      else map_option (strip_child i (win_parent w) k) (window t k))"
proof -
  let ?p = "win_parent w"
  have p: "parent_of t i = Some ?p" using w by (simp add: parent_of_def)
  have i_node: "i \<in> window_ids t" using w by (simp add: window_ids_iff)
  have pi: "?p \<noteq> i" using wf.parent_neq [OF inv i_node i] p by auto
  let ?t1 = "t\<lparr>rt_windows := hm_remove i (rt_windows t)\<rparr>"
  let ?t2 = "modify_window ?p (\<lambda>p. p\<lparr>win_children := filter (\<lambda>c. c \<noteq> i) (win_children p)\<rparr>) ?t1"
  have run: "destroy_loop ?t2 (win_children w) [i] = (t', D)"
    using d i w by (simp add: destroy_window_def Let_def)
  have kid: "descends t i c \<and> c \<noteq> i \<and> parent_of t c = Some i" if c: "c \<in> set (win_children w)" for c
  proof -
    have pc: "c \<noteq> ROOT_WINDOW" "parent_of t c = Some i" using tree_child [OF inv w c] .
    moreover have "c \<in> window_ids t" using pc(2) by (auto simp: window_ids_iff parent_of_def)
    ultimately show ?thesis
      using wf.parent_neq [OF inv, of c] by (auto intro: below.intros)
  qed
  have "window ?t2 k = (if k = i then None else map_option (strip_child i ?p k) (window t k))" for k
    using pi by (cases "window t k") (auto simp: strip_child_def)
  moreover have "hm_wf (rt_windows ?t2)" using inv by (simp add: tree_inv_def)
  moreover have "children t i = win_children w" using w by (simp add: children_def)
  ultimately have "destroy_state t i ?p ?t2 (win_children w) [i]"
    unfolding destroy_state_def using kid tree_distinct [OF inv w]
    by (simp add: below.refl subset_insertI)
  from destroy_loop_state [OF inv i p this run]
  obtain E where st: "destroy_state t i ?p t' [] D" and E: "D = [i] @ E" by auto
  have "k \<in> set D" if "descends t i k" for k
    using that
  proof (induction rule: below.induct)
    case refl
    then show ?case using E by simp
  next
    case (step x q)
    then have "x \<in> set (children t q)" by (simp add: tree_children_iff [OF inv])
    then show ?case using destroy_stateD(11) [OF st step.IH] by auto
  qed
  then show D: "set D = {k. descends t i k}" using destroy_stateD(6) [OF st] by blast
  show "distinct D" "hd D = i" "D \<noteq> []" "hm_wf (rt_windows t')"
    using destroy_stateD(2,3) [OF st] E by simp_all
  show "window t' k = (if descends t i k then None
      else map_option (strip_child i ?p k) (window t k))"
    using destroy_stateD(1) [OF st, of k] D by simp
qed

lemma destroy_noop: "i = ROOT_WINDOW \<or> window t i = None \<Longrightarrow> destroy_window i t = (t, [])"
  by (auto simp: destroy_window_def)

lemma strip_child_links [simp]:
  "win_id (strip_child i p k w) = win_id w" "win_parent (strip_child i p k w) = win_parent w"
  "win_map_state (strip_child i p k w) = win_map_state w"
  "win_owner (strip_child i p k w) = win_owner w"
  by (simp_all add: strip_child_def)

lemma destroy_tree_inv:
  assumes inv: "tree_inv t"
  shows "tree_inv (fst (destroy_window i t))"
proof (cases "i = ROOT_WINDOW \<or> window t i = None")
  case False
  then obtain w where i: "i \<noteq> ROOT_WINDOW" and w: "window t i = Some w" by auto
  obtain t' D where d: "destroy_window i t = (t', D)" by (cases "destroy_window i t")
  note get = destroy_window_correct(6) [OF inv i w d]
  let ?p = "win_parent w"
  have rootout: "\<not> descends t i ROOT_WINDOW" using i by (simp add: below_root)
  have par: "parent_of t' k = (if descends t i k then None else parent_of t k)" for k
    by (simp add: parent_of_def get option.map_comp comp_def)
  have ch: "set (children t' k) = (if descends t i k then {} else set (children t k) - {i})" for k
  proof -
    have "k \<noteq> ?p \<Longrightarrow> i \<notin> set (children t k)"
      using tree_children_iff [OF inv, of i k] w by (auto simp: parent_of_def)
    then show ?thesis
      by (cases "window t k") (auto simp: children_def get strip_child_def)
  qed
  have "win_id v = k \<and> distinct (win_children v)" if v: "window t' k = Some v" for k v
    using v inv unfolding get tree_inv_def
    by (auto simp: strip_child_def split: if_splits)
  moreover have "c \<in> set (children t' k) \<longleftrightarrow> c \<noteq> ROOT_WINDOW \<and> parent_of t' c = Some k" for k c
  proof (cases "c \<noteq> ROOT_WINDOW \<and> parent_of t c = Some k")
    case True
    have "descends t i c \<longleftrightarrow> c = i \<or> descends t i k"
      using True by (auto intro: below.intros elim: belowE)
    then show ?thesis
      using True tree_children_iff [OF inv, of c k] by (auto simp: ch par)
  next
    case False
    then show ?thesis using tree_children_iff [OF inv, of c k] by (auto simp: ch par)
  qed
  moreover have "\<exists>n. root_dist (parent_of t') ROOT_WINDOW k n" if k: "window t' k \<noteq> None" for k
  proof -
    have out: "\<not> descends t i k" and "window t k \<noteq> None" using k by (auto simp: get split: if_splits)
    then obtain n where n: "root_dist (parent_of t) ROOT_WINDOW k n" using inv by (auto simp: tree_inv_def)
    have "parent_of t' y = parent_of t y" if "descends t y k" for y
      using below_trans [OF that, of i] out by (auto simp: par)
    then show ?thesis using root_dist_cong [OF n] by blast
  qed
  ultimately show ?thesis
    using destroy_window_correct(5) [OF inv i w d] tree_root [OF inv] rootout d
    unfolding tree_inv_def by (simp add: par)
qed (use inv in \<open>simp add: destroy_noop\<close>)

end
