(* ===== verification/WindowMapping.thy ===== *)
theory WindowMapping
  imports WindowDestroy
begin

text \<open>
  Map states. In a consistent table (\<open>view_inv\<close>) the root is viewable and a mapped window is
  viewable exactly when its parent is; then a window is viewable exactly when it and all its
  ancestors are mapped. \<open>map_window\<close> ends and keeps the table consistent; \<open>unmap_window\<close> does not
  keep it consistent.
\<close>

definition viewable :: "ResourceTable \<Rightarrow> ResourceId \<Rightarrow> bool" where
  "viewable t k \<longleftrightarrow> (case window t k of Some w \<Rightarrow> win_map_state w = Viewable | None \<Rightarrow> False)"

definition mapped :: "ResourceTable \<Rightarrow> ResourceId \<Rightarrow> bool" where
  "mapped t k \<longleftrightarrow> (case window t k of Some w \<Rightarrow> win_map_state w \<noteq> Unmapped | None \<Rightarrow> False)"

definition view_ok :: "ResourceTable \<Rightarrow> ResourceId \<Rightarrow> bool" where
  "view_ok t k \<longleftrightarrow> (case parent_of t k of
     Some p \<Rightarrow> mapped t k \<longrightarrow> (viewable t k \<longleftrightarrow> viewable t p)
   | None \<Rightarrow> True)"

definition view_inv :: "ResourceTable \<Rightarrow> bool" where
  "view_inv t \<longleftrightarrow> viewable t ROOT_WINDOW \<and> (\<forall>k. k \<noteq> ROOT_WINDOW \<longrightarrow> view_ok t k)"

lemma viewable_mapped: "viewable t k \<Longrightarrow> mapped t k"
  by (auto simp: viewable_def mapped_def split: option.splits)

lemma view_okI:
  "(\<And>p. parent_of t k = Some p \<Longrightarrow> mapped t k \<Longrightarrow> viewable t k \<longleftrightarrow> viewable t p) \<Longrightarrow> view_ok t k"
  by (auto simp: view_ok_def split: option.splits)

lemma view_okD:
  "view_ok t k \<Longrightarrow> parent_of t k = Some p \<Longrightarrow> mapped t k \<Longrightarrow> viewable t k \<longleftrightarrow> viewable t p"
  by (simp add: view_ok_def)

lemma viewable_iff_ancestors_mapped:
  assumes tree: "tree_inv t" and view: "view_inv t" and "window t k \<noteq> None"
  shows "viewable t k \<longleftrightarrow> (\<forall>a. descends t a k \<longrightarrow> mapped t a)"
proof -
  obtain n where "root_dist (parent_of t) ROOT_WINDOW k n"
    using tree assms(3) by (auto simp: tree_inv_def)
  then show ?thesis
  proof (induction rule: root_dist.induct)
    case zero
    then show ?case using view viewable_mapped by (auto simp: view_inv_def below_root)
  next
    case (step x p n)
    have "(\<forall>a. descends t a x \<longrightarrow> mapped t a) \<longleftrightarrow> mapped t x \<and> (\<forall>a. descends t a p \<longrightarrow> mapped t a)"
      using step.hyps(1,2) by (auto intro: below.intros elim: belowE)
    moreover have "viewable t x \<longleftrightarrow> mapped t x \<and> viewable t p"
      using view_okD [of t x p] view step.hyps(1,2) viewable_mapped [of t x]
      by (auto simp: view_inv_def)
    ultimately show ?case using step.IH by simp
  qed
qed

abbreviation set_state :: "ResourceId \<Rightarrow> MapState \<Rightarrow> ResourceTable \<Rightarrow> ResourceTable" where
  "set_state i s t \<equiv> modify_window i (\<lambda>w. w\<lparr>win_map_state := s\<rparr>) t"

lemma set_state_simps [simp]:
  "viewable (set_state i s t) k \<longleftrightarrow> (if k = i then s = Viewable \<and> window t i \<noteq> None else viewable t k)"
  "mapped (set_state i s t) k \<longleftrightarrow> (if k = i then s \<noteq> Unmapped \<and> window t i \<noteq> None else mapped t k)"
  by (auto simp: viewable_def mapped_def split: option.splits)

lemma set_state_parent [simp]: "parent_of (set_state i s t) k = parent_of t k"
  by (rule same_shape_parent_of [OF same_shape_set_state])

lemma set_state_children [simp]: "children (set_state i s t) k = children t k"
  by (rule children_modify_keep) simp

lemma set_state_tree: "tree_inv t \<Longrightarrow> tree_inv (set_state i s t)"
  by (rule tree_inv_modify) simp_all

section \<open>The promotion loop\<close>

definition promote_state :: "ResourceTable \<Rightarrow> ResourceId list \<Rightarrow> bool" where
  "promote_state t pending \<longleftrightarrow> tree_inv t \<and> viewable t ROOT_WINDOW \<and>
     (\<forall>c \<in> set pending. c \<noteq> ROOT_WINDOW \<and> (\<exists>p. parent_of t c = Some p \<and> viewable t p)) \<and>
     (\<forall>k. k \<noteq> ROOT_WINDOW \<longrightarrow> view_ok t k \<or> k \<in> set pending)"

text \<open>What the loop may change: unviewable windows become viewable.\<close>

definition promoted :: "ResourceTable \<Rightarrow> ResourceTable \<Rightarrow> bool" where
  "promoted t t' \<longleftrightarrow> (\<forall>k. window t' k = window t k \<or>
     (mapped t k \<and> window t' k = map_option (\<lambda>w. w\<lparr>win_map_state := Viewable\<rparr>) (window t k)))"

lemma promoted_refl: "promoted t t"
  by (simp add: promoted_def)

lemma promoted_set: "mapped t c \<Longrightarrow> promoted t (set_state c Viewable t)"
  by (simp add: promoted_def)

lemma promoted_mapped: "promoted t t' \<Longrightarrow> mapped t' k = mapped t k"
  unfolding promoted_def mapped_def
  by (drule spec [of _ k]) (auto split: option.splits)

lemma promoted_trans:
  assumes "promoted t t'" and "promoted t' t''"
  shows "promoted t t''"
  unfolding promoted_def
proof
  fix k
  have a: "window t' k = window t k \<or>
     (mapped t k \<and> window t' k = map_option (\<lambda>w. w\<lparr>win_map_state := Viewable\<rparr>) (window t k))"
    and b: "window t'' k = window t' k \<or>
     (mapped t' k \<and> window t'' k = map_option (\<lambda>w. w\<lparr>win_map_state := Viewable\<rparr>) (window t' k))"
    using assms unfolding promoted_def by blast+
  show "window t'' k = window t k \<or>
     (mapped t k \<and> window t'' k = map_option (\<lambda>w. w\<lparr>win_map_state := Viewable\<rparr>) (window t k))"
    using a b promoted_mapped [OF assms(1), of k] by (auto simp: option.map_comp comp_def)
qed

lemma promote_state_skip:
  "promote_state t (c # rest) \<Longrightarrow> \<not> mapped t c \<Longrightarrow> promote_state t rest"
  unfolding promote_state_def by (auto intro: view_okI)

lemma promote_state_visit:
  assumes st: "promote_state t (c # rest)" and w: "window t c = Some w" and m: "mapped t c"
  shows "promote_state (set_state c Viewable t) (win_children w @ rest)"
proof -
  have inv: "tree_inv t" using st by (simp add: promote_state_def)
  obtain p where p: "c \<noteq> ROOT_WINDOW" "parent_of t c = Some p" "viewable t p"
    using st by (auto simp: promote_state_def)
  have kids: "x \<in> set (win_children w) \<longleftrightarrow> x \<noteq> ROOT_WINDOW \<and> parent_of t x = Some c" for x
    using tree_children_iff [OF inv, of x c] w by (simp add: children_def)
  have "view_ok (set_state c Viewable t) k \<or> k \<in> set (win_children w @ rest)"
    if k: "k \<noteq> ROOT_WINDOW" for k
  proof (cases "parent_of t k = Some c \<or> k \<in> set rest")
    case False
    then have "k = c \<or> view_ok t k" using st k by (auto simp: promote_state_def)
    then show ?thesis
    proof
      assume "k = c"
      then show ?thesis using p w by (auto intro!: view_okI)
    next
      assume "view_ok t k"
      then show ?thesis
        using False p w view_okD [of t k] by (auto intro!: view_okI split: if_splits)
    qed
  qed (use kids k in auto)
  moreover have "x \<noteq> ROOT_WINDOW \<and> (\<exists>q. parent_of t x = Some q \<and> viewable (set_state c Viewable t) q)"
    if "x \<in> set (win_children w @ rest)" for x
  proof (cases "x \<in> set rest")
    case True
    then obtain q where "x \<noteq> ROOT_WINDOW" "parent_of t x = Some q" "viewable t q"
      using st by (auto simp: promote_state_def)
    then show ?thesis using w by auto
  qed (use that kids w in auto)
  ultimately show ?thesis
    using st p(1) set_state_tree [OF inv] unfolding promote_state_def by simp
qed

text \<open>Each visit replaces a window by windows farther from the root, whose distances are bounded.\<close>

definition tree_depth :: "ResourceTable \<Rightarrow> ResourceId \<Rightarrow> nat" where
  "tree_depth t k = (THE n. root_dist (parent_of t) ROOT_WINDOW k n)"

lemma tree_depth_eq: "root_dist (parent_of t) ROOT_WINDOW k n \<Longrightarrow> tree_depth t k = n"
  unfolding tree_depth_def by (rule the_equality) (auto intro: root_dist_unique)

lemma tree_depth_child:
  assumes inv: "tree_inv t" and "x \<noteq> ROOT_WINDOW" and "parent_of t x = Some c"
  shows "tree_depth t x = Suc (tree_depth t c)" "tree_depth t x < hm_len (rt_windows t)"
proof -
  have "window t x \<noteq> None" using assms(3) by (auto simp: parent_of_def)
  then obtain n where n: "root_dist (parent_of t) ROOT_WINDOW x n" using inv by (auto simp: tree_inv_def)
  then obtain m where m: "n = Suc m" "root_dist (parent_of t) ROOT_WINDOW c m"
    using assms(2,3) by (auto elim: root_distE)
  show "tree_depth t x = Suc (tree_depth t c)"
    using tree_depth_eq [OF n] tree_depth_eq [OF m(2)] m(1) by simp
  show "tree_depth t x < hm_len (rt_windows t)"
    using wf.dist_bound [OF inv n] inv tree_depth_eq [OF n]
    by (simp add: card_window_ids tree_inv_def)
qed

definition pending_measure :: "ResourceTable \<Rightarrow> ResourceId list \<Rightarrow> nat multiset" where
  "pending_measure t pending = image_mset (\<lambda>c. hm_len (rt_windows t) - tree_depth t c) (mset pending)"

lemma pending_measure_visit:
  assumes inv: "tree_inv t" and w: "window t c = Some w"
  shows "(pending_measure t (win_children w @ rest), pending_measure t (c # rest)) \<in> mult less_than"
proof -
  let ?f = "\<lambda>c. hm_len (rt_windows t) - tree_depth t c"
  have "?f x < ?f c" if "x \<in> set (win_children w)" for x
  proof -
    have "x \<noteq> ROOT_WINDOW" "parent_of t x = Some c" using tree_child [OF inv w that] .
    from tree_depth_child [OF inv this] show ?thesis by simp
  qed
  then have "(pending_measure t rest + image_mset ?f (mset (win_children w)),
      pending_measure t rest + {# ?f c #}) \<in> mult less_than"
    by (intro one_step_implies_mult) auto
  then show ?thesis by (simp add: pending_measure_def add.commute)
qed

lemma pending_measure_skip:
  "(pending_measure t rest, pending_measure t (c # rest)) \<in> mult less_than"
  using one_step_implies_mult [of "{# hm_len (rt_windows t) - tree_depth t c #}" "{#}" less_than
      "pending_measure t rest"]
  by (simp add: pending_measure_def)

lemma pending_measure_state [simp]: "pending_measure (set_state i s t) pending = pending_measure t pending"
proof -
  have "parent_of (set_state i s t) = parent_of t" by (rule ext) simp
  moreover have "hm_len (rt_windows (set_state i s t)) = hm_len (rt_windows t)"
    by (simp add: modify_window_def)
  ultimately show ?thesis by (simp add: pending_measure_def tree_depth_def)
qed

text \<open>The loop ends, and keeps whatever skipping and visiting a pending window keep.\<close>

lemma promote_loop_induct:
  assumes present: "\<And>t c rest. P t (c # rest) \<Longrightarrow> tree_inv t \<and> window t c \<noteq> None"
    and skip: "\<And>t c rest. P t (c # rest) \<Longrightarrow> \<not> mapped t c \<Longrightarrow> P t rest"
    and visit: "\<And>t c rest w. P t (c # rest) \<Longrightarrow> window t c = Some w \<Longrightarrow> mapped t c \<Longrightarrow>
      P (set_state c Viewable t) (win_children w @ rest)"
  shows "P t pending \<Longrightarrow> \<exists>t'. promote_loop t pending = Some t' \<and> P t' [] \<and> promoted t t'"
proof (induction "pending_measure t pending" arbitrary: t pending
    rule: wf_induct_rule [OF wf_mult [OF wf_less_than]])
  case (1 t pending)
  show ?case
  proof (cases pending)
    case Nil
    then show ?thesis using 1(2) by (subst promote_loop.simps) (simp add: promoted_refl)
  next
    case (Cons c rest)
    have st: "P t (c # rest)" using 1(2) Cons by simp
    obtain w where w: "window t c = Some w" and inv: "tree_inv t" using present [OF st] by auto
    show ?thesis
    proof (cases "mapped t c")
      case False
      then have "promote_loop t pending = promote_loop t rest"
        using w Cons by (subst promote_loop.simps) (simp add: mapped_def)
      then show ?thesis
        using 1(1) [OF _ skip [OF st False]] Cons pending_measure_skip by metis
    next
      case True
      let ?t = "set_state c Viewable t"
      have eq: "promote_loop t pending = promote_loop ?t (win_children w @ rest)"
        using w Cons True by (subst promote_loop.simps) (simp add: mapped_def)
      have m: "(pending_measure ?t (win_children w @ rest), pending_measure t pending) \<in> mult less_than"
        using pending_measure_visit [OF inv w] Cons by simp
      show ?thesis
        using 1(1) [OF m visit [OF st w True]] promoted_trans [OF promoted_set [OF True]] eq by auto
    qed
  qed
qed

lemma promote_loop_correct:
  "promote_state t pending \<Longrightarrow>
    \<exists>t'. promote_loop t pending = Some t' \<and> promote_state t' [] \<and> promoted t t'"
proof (rule promote_loop_induct [where P = promote_state])
  show "tree_inv t \<and> window t c \<noteq> None" if "promote_state t (c # rest)" for t c rest
    using that by (auto simp: promote_state_def parent_of_def)
qed (auto intro: promote_state_skip promote_state_visit)

lemma promote_loop_total:
  assumes "tree_inv t" and "\<forall>c \<in> set pending. window t c \<noteq> None"
  shows "\<exists>t'. promote_loop t pending = Some t' \<and> tree_inv t' \<and> promoted t t'"
proof -
  let ?P = "\<lambda>t pending. tree_inv t \<and> (\<forall>c \<in> set pending. window t c \<noteq> None)"
  have "\<exists>t'. promote_loop t pending = Some t' \<and> ?P t' [] \<and> promoted t t'"
  proof (rule promote_loop_induct [where P = ?P])
    fix t c rest w
    assume st: "?P t (c # rest)" and w: "window t c = Some w"
    have "window t x \<noteq> None" if "x \<in> set (win_children w)" for x
      using tree_child(2) [OF _ w that] st by (auto simp: parent_of_def)
    then show "?P (set_state c Viewable t) (win_children w @ rest)"
      using st set_state_tree by auto
  qed (use assms in auto)
  then show ?thesis by blast
qed

lemma promoted_children:
  assumes "promoted t t'"
  shows "children t' k = children t k"
proof -
  have "window t' k = window t k \<or>
      window t' k = map_option (\<lambda>w. w\<lparr>win_map_state := Viewable\<rparr>) (window t k)"
    using assms unfolding promoted_def by blast
  then show ?thesis by (cases "window t k") (auto simp: children_def)
qed

section \<open>Mapping a window\<close>

lemma promote_state_done: "promote_state t [] \<Longrightarrow> tree_inv t \<and> view_inv t"
  by (simp add: promote_state_def view_inv_def)

lemma map_window_start:
  assumes tree: "tree_inv t" and view: "view_inv t" and w: "window t i = Some w"
    and p: "parent_of t i = Some p" and pv: "i = ROOT_WINDOW \<or> viewable t p"
  shows "promote_state (set_state i Viewable t) (children (set_state i Viewable t) i)"
proof -
  have kids: "x \<in> set (children t i) \<longleftrightarrow> x \<noteq> ROOT_WINDOW \<and> parent_of t x = Some i" for x
    by (rule tree_children_iff [OF tree])
  have "view_ok (set_state i Viewable t) k \<or> k \<in> set (children t i)" if k: "k \<noteq> ROOT_WINDOW" for k
  proof (cases "parent_of t k = Some i")
    case False
    have "view_ok t k" using view k by (simp add: view_inv_def)
    then show ?thesis
      using False p pv w k view_okD [of t k] by (auto intro!: view_okI split: if_splits)
  qed (use kids k in auto)
  then show ?thesis
    using set_state_tree [OF tree] view w kids
    unfolding promote_state_def by (auto simp: view_inv_def)
qed

lemma map_window_correct:
  assumes tree: "tree_inv t" and view: "view_inv t" and w: "window t i = Some w"
  shows "\<exists>t'. map_window i t = Some (t', win_map_state w = Unmapped) \<and> tree_inv t' \<and> view_inv t' \<and>
    (\<forall>k. mapped t' k \<longleftrightarrow> k = i \<or> mapped t k)"
proof -
  obtain p where p: "parent_of t i = Some p" using w by (simp add: parent_of_def)
  have "\<not> (p = i \<and> i \<noteq> ROOT_WINDOW)"
    using wf.parent_neq [OF tree, of i] p w by (auto simp: window_ids_iff)
  moreover have "i = ROOT_WINDOW \<Longrightarrow> p = i" using p tree_root [OF tree] by simp
  ultimately have pi: "p = i \<longleftrightarrow> i = ROOT_WINDOW" by blast
  have pv: "(case window t p of Some q \<Rightarrow> win_map_state q = Viewable | None \<Rightarrow> False) = viewable t p"
    by (simp add: viewable_def)
  have wi: "window t i \<noteq> None" using w by simp
  show ?thesis
  proof (cases "i = ROOT_WINDOW \<or> viewable t p")
    case True
    from promote_loop_correct [OF map_window_start [OF tree view w p True]]
    obtain t' where t': "promote_unviewable_descendants i (set_state i Viewable t) = Some t'"
      "promote_state t' []" "promoted (set_state i Viewable t) t'"
      by (auto simp: promote_unviewable_descendants_def)
    have "map_window i t = Some (t', win_map_state w = Unmapped)"
      using True p pi pv w t'(1) by (auto simp: map_window_def Let_def)
    then show ?thesis
      using promote_state_done [OF t'(2)] promoted_mapped [OF t'(3)] w by auto
  next
    case False
    let ?t = "set_state i Unviewable t"
    have "map_window i t = Some (?t, win_map_state w = Unmapped)"
      using False p pi pv w by (simp add: map_window_def Let_def)
    moreover have "\<not> viewable t i"
      using view_okD [of t i p] view False p viewable_mapped [of t i] by (auto simp: view_inv_def)
    then have "view_ok ?t k" if "k \<noteq> ROOT_WINDOW" for k
      using view that False p w view_okD [of t k]
      by (auto intro!: view_okI simp: view_inv_def split: if_splits)
    moreover have "viewable ?t ROOT_WINDOW" using view False by (auto simp: view_inv_def)
    ultimately show ?thesis
      using set_state_tree [OF tree] wi by (auto simp: view_inv_def)
  qed
qed

text \<open>Whatever the map states, \<open>map_window\<close> ends and changes no link.\<close>

lemma map_window_total:
  assumes tree: "tree_inv t"
  shows "\<exists>t' b. map_window i t = Some (t', b) \<and> tree_inv t' \<and> (\<forall>k. children t' k = children t k)"
proof (cases "window t i")
  case (Some w)
  have kids: "\<forall>c \<in> set (children (set_state i Viewable t) i). window (set_state i Viewable t) c \<noteq> None"
    using tree_child(2) [OF tree Some] Some
    by (auto simp: children_def parent_of_def split: if_splits)
  obtain t' where "promote_unviewable_descendants i (set_state i Viewable t) = Some t'" "tree_inv t'"
      "promoted (set_state i Viewable t) t'"
    using promote_loop_total [OF set_state_tree [OF tree] kids]
    by (auto simp: promote_unviewable_descendants_def)
  then show ?thesis
    using Some promoted_children [of "set_state i Viewable t" t'] set_state_tree [OF tree]
    by (auto simp: map_window_def Let_def)
next
  case None
  then have "map_window i t = Some (t, False)" by (simp add: map_window_def Let_def)
  then show ?thesis using tree by blast
qed

end
