(* ===== verification/IdAllocator.thy ===== *)
theory IdAllocator
  imports Prelude
begin

text \<open>
  The allocator of client resource-id ranges (\<open>crates/xserver-core/src/server.rs\<close>, \<open>IdAllocator\<close>):
  each client gets a base, a multiple of 2^20 above the server's own range, and owns the ids that
  agree with it outside the low 20 bits. \<open>client_step\<close> is the use the server makes of it: a
  connection allocates; a disconnect in mode DestroyAll releases the base; a client that retains
  its resources keeps its base for good, so it stays in the list of bases in use.
\<close>

definition FIRST_CLIENT_BASE :: u32 where
  "FIRST_CLIENT_BASE = 0x00100000"

definition PER_CLIENT_MASK :: u32 where
  "PER_CLIENT_MASK = 0x000FFFFF"

record IdAllocator =
  ia_next_base :: u32
  ia_free_bases :: "u32 list"

definition IdAllocator_new :: IdAllocator where
  "IdAllocator_new = \<lparr>ia_next_base = FIRST_CLIENT_BASE, ia_free_bases = []\<rparr>"

definition checked_add_u32 :: "u32 \<Rightarrow> u32 \<Rightarrow> u32 option" where
  "checked_add_u32 a b = (if unat a + unat b < 2 ^ 32 then Some (a + b) else None)"

text \<open>\<open>Vec::pop\<close> takes the last element.\<close>

definition allocate :: "IdAllocator \<Rightarrow> (IdAllocator \<times> (u32 \<times> u32)) option" where
  "allocate ia =
     (if ia_free_bases ia \<noteq> []
      then Some (ia\<lparr>ia_free_bases := butlast (ia_free_bases ia)\<rparr>,
                 (last (ia_free_bases ia), PER_CLIENT_MASK))
      else
        (case checked_add_u32 (ia_next_base ia) FIRST_CLIENT_BASE of
           None \<Rightarrow> None
         | Some n \<Rightarrow> Some (ia\<lparr>ia_next_base := n\<rparr>, (ia_next_base ia, PER_CLIENT_MASK))))"

definition release :: "u32 \<Rightarrow> IdAllocator \<Rightarrow> IdAllocator" where
  "release base ia =
     (if base AND PER_CLIENT_MASK \<noteq> 0 \<or> base < FIRST_CLIENT_BASE then ia
      else ia\<lparr>ia_free_bases := ia_free_bases ia @ [base]\<rparr>)"

definition validate_owned :: "u32 \<Rightarrow> u32 \<Rightarrow> u32 \<Rightarrow> bool" where
  "validate_owned rid base msk \<longleftrightarrow> rid AND NOT msk = base"

section \<open>The bases in use\<close>

text \<open>A state is the allocator and the bases of the clients that are connected or retained.\<close>

inductive client_step :: "IdAllocator \<times> u32 list \<Rightarrow> IdAllocator \<times> u32 list \<Rightarrow> bool" where
  connect: "allocate ia = Some (ia', (base, m)) \<Longrightarrow> client_step (ia, live) (ia', base # live)"
| refuse: "allocate ia = None \<Longrightarrow> client_step (ia, live) (ia, live)"
| destroy: "base \<in> set live \<Longrightarrow> client_step (ia, live) (release base ia, remove1 base live)"

inductive_cases client_stepE: "client_step (ia, live) s"

inductive clients_reachable :: "IdAllocator \<times> u32 list \<Rightarrow> bool" where
  start: "clients_reachable (IdAllocator_new, [])"
| step: "clients_reachable s \<Longrightarrow> client_step s s' \<Longrightarrow> clients_reachable s'"

text \<open>
  The base number \<open>k\<close> is \<open>k * 2^20\<close>. Bases in use and free bases are the numbers from 1 up to the
  next one, each once.
\<close>

definition base_of :: "nat \<Rightarrow> u32" where
  "base_of k = of_nat (k * 0x100000)"

definition ids_inv :: "IdAllocator \<times> u32 list \<Rightarrow> bool" where
  "ids_inv s = (case s of (ia, live) \<Rightarrow>
     \<exists>n. 1 \<le> n \<and> n \<le> 4095 \<and> ia_next_base ia = base_of n \<and>
       distinct (live @ ia_free_bases ia) \<and>
       set (live @ ia_free_bases ia) = base_of ` {1..<n})"

lemma unat_base_of: "k \<le> 4095 \<Longrightarrow> unat (base_of k) = k * 0x100000"
  unfolding base_of_def by (rule unat_of_nat_id) simp

lemma base_of_inj: "j \<le> 4095 \<Longrightarrow> k \<le> 4095 \<Longrightarrow> base_of j = base_of k \<longleftrightarrow> j = k"
  by (metis unat_base_of mult_cancel2 zero_neq_numeral)

lemma base_of_Suc: "k < 4095 \<Longrightarrow> base_of k + FIRST_CLIENT_BASE = base_of (Suc k)"
  by (simp add: base_of_def FIRST_CLIENT_BASE_def)

lemma mask_eq: "PER_CLIENT_MASK = mask 20"
  by (simp add: PER_CLIENT_MASK_def mask_eq_exp_minus_1)

lemma unat_and_mask: "unat (x AND PER_CLIENT_MASK) = unat x mod 0x100000" for x :: u32
proof -
  have "x AND PER_CLIENT_MASK = x mod 0x100000"
    by (simp add: mask_eq take_bit_eq_mask [symmetric] take_bit_eq_mod)
  then show ?thesis by (simp add: unat_mod_distrib)
qed

lemma unat_and_not_mask:
  "unat (x AND NOT PER_CLIENT_MASK) = unat x div 0x100000 * 0x100000" for x :: u32
proof -
  let ?m = PER_CLIENT_MASK
  have "x - (x AND ?m) = x AND NOT (x AND ?m)"
    by (rule disjunctive_diff_eq_and_not) (auto simp: bit_eq_iff bit_simps)
  also have "\<dots> = x AND NOT ?m" by (auto simp: bit_eq_iff bit_simps)
  finally have "x AND NOT ?m = x - (x AND ?m)" ..
  moreover have "x AND ?m \<le> x" by (simp add: word_le_nat_alt unat_and_mask)
  ultimately have "unat (x AND NOT ?m) = unat x - unat x mod 0x100000"
    by (simp add: unat_sub unat_and_mask)
  then show ?thesis by (simp add: minus_mod_eq_div_mult)
qed

lemma base_of_aligned: "k \<le> 4095 \<Longrightarrow> base_of k AND PER_CLIENT_MASK = 0"
  by (metis unat_and_mask unat_base_of mod_mult_self2_is_0 unat_eq_zero)

lemma base_of_ge: "1 \<le> k \<Longrightarrow> k \<le> 4095 \<Longrightarrow> \<not> base_of k < FIRST_CLIENT_BASE"
  by (simp add: word_less_nat_alt unat_base_of FIRST_CLIENT_BASE_def)

lemma validate_owned_iff:
  "k \<le> 4095 \<Longrightarrow> validate_owned rid (base_of k) PER_CLIENT_MASK \<longleftrightarrow> unat rid div 0x100000 = k"
  unfolding validate_owned_def
  by (metis unat_and_not_mask unat_base_of mult_cancel2 zero_neq_numeral word_unat_eq_iff)

section \<open>Every reachable state\<close>

lemma ids_inv_new: "ids_inv (IdAllocator_new, [])"
  unfolding ids_inv_def IdAllocator_new_def
  by (auto simp: base_of_def FIRST_CLIENT_BASE_def intro!: exI [of _ 1])

lemma allocate_recycle:
  assumes "ia_free_bases ia \<noteq> []" and "allocate ia = Some (ia', (base, m))"
  shows "ia_next_base ia' = ia_next_base ia" "ia_free_bases ia = ia_free_bases ia' @ [base]"
    "m = PER_CLIENT_MASK"
  using assms by (auto simp: allocate_def)

lemma checked_add_base:
  "n \<le> 4095 \<Longrightarrow> checked_add_u32 (base_of n) FIRST_CLIENT_BASE =
    (if n < 4095 then Some (base_of (Suc n)) else None)"
  by (auto simp: checked_add_u32_def unat_base_of base_of_Suc)
    (auto simp: FIRST_CLIENT_BASE_def)

lemma ids_inv_step:
  assumes inv: "ids_inv s" and st: "client_step s s'"
  shows "ids_inv s'"
proof -
  obtain ia live where s: "s = (ia, live)" by (cases s)
  obtain n where n: "1 \<le> n" "n \<le> 4095" "ia_next_base ia = base_of n"
      "distinct (live @ ia_free_bases ia)" "set (live @ ia_free_bases ia) = base_of ` {1..<n}"
    using inv by (auto simp: ids_inv_def s)
  from st [unfolded s]
  consider (connect) ia' base m where "s' = (ia', base # live)" "allocate ia = Some (ia', (base, m))"
    | (refuse) "s' = (ia, live)"
    | (destroy) base where "s' = (release base ia, remove1 base live)" "base \<in> set live"
    by (elim client_stepE) blast+
  then show ?thesis
  proof cases
    case connect
    show ?thesis
    proof (cases "ia_free_bases ia = []")
      case True
      then have "n < 4095" and ia': "ia' = ia\<lparr>ia_next_base := base_of (Suc n)\<rparr>" "base = base_of n"
        using connect(2) n(2,3)
        by (auto simp: allocate_def checked_add_base split: if_splits)
      moreover have "base_of n \<notin> base_of ` {1..<n}"
        using n(2) by (auto simp: base_of_inj)
      moreover have "insert (base_of n) (base_of ` {1..<n}) = base_of ` {1..<Suc n}"
        using n(1) by (simp add: atLeastLessThanSuc)
      ultimately show ?thesis
        using n True unfolding connect(1) ids_inv_def by (auto intro!: exI [of _ "Suc n"])
    next
      case False
      note r = allocate_recycle [OF False connect(2)]
      show ?thesis
        using n unfolding connect(1) ids_inv_def r(2) by (auto simp: r(1) intro!: exI [of _ n])
    qed
  next
    case refuse
    then show ?thesis using inv s by simp
  next
    case destroy
    then have "base \<in> base_of ` {1..<n}" unfolding n(5) [symmetric] by simp
    then obtain k where k: "base = base_of k" "1 \<le> k" "k < n" by auto
    have rel: "release base ia = ia\<lparr>ia_free_bases := ia_free_bases ia @ [base]\<rparr>"
      using k n(2) by (simp add: release_def base_of_aligned base_of_ge)
    have "set (remove1 base live) = set live - {base}" using n(4) by (simp add: set_remove1_eq)
    then show ?thesis
      using n destroy(2) unfolding destroy(1) ids_inv_def rel
      by (auto simp: distinct_remove1 intro!: exI [of _ n])
  qed
qed

lemma reachable_ids_inv: "clients_reachable s \<Longrightarrow> ids_inv s"
  by (induction rule: clients_reachable.induct) (auto intro: ids_inv_new ids_inv_step)

text \<open>
  Claim C34. Id ranges never overlap: however clients connect and disconnect, in every reachable
  state no resource id is owned by two entries of the list of clients, an id of the server's own
  range (below 2^20) is owned by none, and the range a new connection gets shares no id with the
  range of any client connected or retained.
\<close>

theorem client_ranges_disjoint:
  assumes "clients_reachable (ia, live)"
  shows "distinct live \<and>
    (\<forall>b \<in> set live. \<forall>c \<in> set live. \<forall>rid. validate_owned rid b PER_CLIENT_MASK \<and>
       validate_owned rid c PER_CLIENT_MASK \<longrightarrow> b = c) \<and>
    (\<forall>b \<in> set live. \<forall>rid. validate_owned rid b PER_CLIENT_MASK \<longrightarrow> 0x100000 \<le> unat rid) \<and>
    (\<forall>ia' base m. allocate ia = Some (ia', (base, m)) \<longrightarrow>
       m = PER_CLIENT_MASK \<and> base \<notin> set live \<and> validate_owned base base m)"
proof -
  have new: "m = PER_CLIENT_MASK \<and> base \<notin> set live \<and> validate_owned base base m"
    if a: "allocate ia = Some (ia', (base, m))" for ia' base m
  proof -
    have m: "m = PER_CLIENT_MASK"
      using a by (auto simp: allocate_def split: if_splits option.splits)
    have "clients_reachable (ia', base # live)"
      using assms client_step.connect [OF a] by (rule clients_reachable.step)
    then have "ids_inv (ia', base # live)" by (rule reachable_ids_inv)
    then obtain n where n: "n \<le> 4095" "base \<notin> set live"
        "insert base (set live \<union> set (ia_free_bases ia')) = base_of ` {1..<n}"
      by (auto simp: ids_inv_def)
    then have "base \<in> base_of ` {1..<n}" by blast
    then obtain k where "base = base_of k" "k \<le> 4095" using n(1) by auto
    then show ?thesis
      using m n(2) by (simp add: validate_owned_iff unat_base_of)
  qed
  obtain n where n: "n \<le> 4095" "distinct live" "set live \<subseteq> base_of ` {1..<n}"
    using reachable_ids_inv [OF assms] by (auto simp: ids_inv_def)
  have own: "\<exists>k. b = base_of k \<and> 1 \<le> k \<and> unat rid div 0x100000 = k"
    if "b \<in> set live" "validate_owned rid b PER_CLIENT_MASK" for b rid
  proof -
    have "b \<in> base_of ` {1..<n}" using n(3) that(1) by blast
    then obtain k where "b = base_of k" "1 \<le> k" "k < n" by auto
    then show ?thesis using that(2) n(1) by (auto simp: validate_owned_iff)
  qed
  have uniq: "b = c" if "b \<in> set live" "c \<in> set live" "validate_owned rid b PER_CLIENT_MASK"
      "validate_owned rid c PER_CLIENT_MASK" for b c rid
    using own [OF that(1,3)] own [OF that(2,4)] by blast
  have low: "0x100000 \<le> unat rid" if "b \<in> set live" "validate_owned rid b PER_CLIENT_MASK" for b rid
    using own [OF that] by (metis Suc_le_eq One_nat_def div_greater_zero_iff)
  show ?thesis
    using n(2) new uniq low by blast
qed

theorem client_ranges_disjoint_witness:
  "distinct [0x200000 :: u32, 0x100000]"
proof -
  have a: "allocate IdAllocator_new = Some (\<lparr>ia_next_base = 0x200000, ia_free_bases = []\<rparr>,
      (0x100000, PER_CLIENT_MASK))"
    and b: "allocate \<lparr>ia_next_base = 0x200000, ia_free_bases = []\<rparr> =
      Some (\<lparr>ia_next_base = 0x300000, ia_free_bases = []\<rparr>, (0x200000, PER_CLIENT_MASK))"
    by (simp_all add: allocate_def IdAllocator_new_def FIRST_CLIENT_BASE_def checked_add_u32_def)
  have "clients_reachable (\<lparr>ia_next_base = 0x300000, ia_free_bases = []\<rparr>, [0x200000, 0x100000])"
    by (rule clients_reachable.step [OF clients_reachable.step [OF clients_reachable.start
          client_step.connect [OF a]] client_step.connect [OF b]])
  from client_ranges_disjoint [OF this] show ?thesis by blast
qed

text \<open>
  No range is lost: in every reachable state each of the bases handed out so far is in
  use or free, so a connection is refused only when 4094 clients hold a base at once.
\<close>

theorem allocate_fails_only_when_full:
  assumes "clients_reachable (ia, live)"
  shows "allocate ia = None \<longleftrightarrow> length live = 4094"
proof -
  obtain n where n: "1 \<le> n" "n \<le> 4095" "ia_next_base ia = base_of n"
      "distinct (live @ ia_free_bases ia)" "set (live @ ia_free_bases ia) = base_of ` {1..<n}"
    using reachable_ids_inv [OF assms] by (auto simp: ids_inv_def)
  have "inj_on base_of {1..<n}"
    using n(2) by (intro inj_onI) (auto simp: base_of_inj)
  then have "card (set (live @ ia_free_bases ia)) = n - 1"
    unfolding n(5) by (simp add: card_image)
  then have len: "length live + length (ia_free_bases ia) = n - 1"
    using distinct_card [OF n(4)] by simp
  show ?thesis
  proof (cases "ia_free_bases ia = []")
    case True
    then show ?thesis
      using len n(1,2,3) by (auto simp: allocate_def checked_add_base split: option.splits)
  next
    case False
    then have "0 < length (ia_free_bases ia)" by simp
    then have "length live < 4094" using len n(2) by linarith
    then show ?thesis using False by (simp add: allocate_def)
  qed
qed

theorem allocate_fails_only_when_full_witness: "allocate IdAllocator_new \<noteq> None"
  using allocate_fails_only_when_full [OF clients_reachable.start] by simp

end
