(* ===== verification/WindowSteps.thy ===== *)
theory WindowSteps
  imports WindowMapping Resources IdAllocator
begin

text \<open>
  The window requests as the core handles them
  (\<open>crates/xserver-core/src/core_loop/process_request.rs\<close>): the checks of the handlers, in their
  order, and the changes they make to the window tree, as steps of a transition system whose
  reachable states are well-formed trees with the overlay window on top.
\<close>

definition BAD_VALUE :: u8 where "BAD_VALUE = 2"
definition BAD_WINDOW :: u8 where "BAD_WINDOW = 3"
definition BAD_PIXMAP :: u8 where "BAD_PIXMAP = 4"
definition BAD_MATCH :: u8 where "BAD_MATCH = 8"
definition BAD_COLORMAP :: u8 where "BAD_COLORMAP = 12"
definition BAD_ID_CHOICE :: u8 where "BAD_ID_CHOICE = 14"

text \<open>What a handler decides before it changes anything: an error and its bad value, a request that
  is accepted without effect, or the change itself.\<close>

datatype verdict = Reject u8 u32 | Ignore | Proceed

section \<open>CreateWindow\<close>

definition INPUTONLY_LEGAL_MASK :: u32 where
  "INPUTONLY_LEGAL_MASK = 0x0020 OR 0x0200 OR 0x0800 OR 0x1000 OR 0x4000"

definition create_window_check :: "u32 \<Rightarrow> u32 \<Rightarrow> CreateWindowRequest \<Rightarrow> ResourceTable \<Rightarrow> verdict" where
  "create_window_check base msk r t =
     (case window t (cw_parent r) of
        None \<Rightarrow> Reject BAD_WINDOW (cw_parent r)
      | Some parent \<Rightarrow>
          let parent_class_value = WindowClass_protocol_value (win_class parent);
              effective_class = (if cw_class r = 0 then parent_class_value else cw_class r)
          in if effective_class \<noteq> 1 \<and> effective_class \<noteq> 2 then Reject BAD_VALUE (ucast (cw_class r))
             else if win_class parent = InputOnly \<and> effective_class \<noteq> 2 then Reject BAD_MATCH 0
             else if effective_class = 2 \<and> (cw_border_width r \<noteq> 0 \<or> cw_depth r \<noteq> 0)
             then Reject BAD_MATCH 0
             else if effective_class = 2 \<and> cw_value_mask r AND NOT INPUTONLY_LEGAL_MASK \<noteq> 0
             then Reject BAD_MATCH 0
             else if \<not> validate_owned (cw_window r) base msk \<or> any_resource_exists t (cw_window r)
             then Reject BAD_ID_CHOICE (cw_window r)
             else if \<not> (cw_visual r = 0 \<or> is_known_visual t (cw_visual r))
             then Reject BAD_MATCH (cw_visual r)
             else if (case cw_background_pixmap r of Some bg \<Rightarrow> bg > 1 \<and> pixmap t bg = None | None \<Rightarrow> False)
             then Reject BAD_PIXMAP (the (cw_background_pixmap r))
             else
               (case cw_colormap r of
                  Some (Some c) \<Rightarrow>
                    if colormap t c = None then Reject BAD_COLORMAP c else Proceed
                | _ \<Rightarrow> Proceed))"

section \<open>ConfigureWindow\<close>

definition configure_window_check :: "ConfigureWindowRequest \<Rightarrow> ResourceTable \<Rightarrow> verdict" where
  "configure_window_check r t =
     (if cfg_window r = ROOT_WINDOW then Ignore
      else
        (case window t (cfg_window r) of
           None \<Rightarrow> Reject BAD_WINDOW (cfg_window r)
         | Some w \<Rightarrow>
             if win_class w = InputOnly \<and> cfg_value_mask r AND 0x0010 \<noteq> 0 then Reject BAD_MATCH 0
             else if cfg_value_mask r AND 0x0020 \<noteq> 0 \<and> cfg_value_mask r AND 0x0040 = 0
             then Reject BAD_MATCH 0
             else if (case cfg_stack_mode r of Some mode \<Rightarrow> mode > 4 | None \<Rightarrow> False)
             then Reject BAD_VALUE (ucast (the (cfg_stack_mode r)))
             else
               (case (case cfg_sibling r of
                        None \<Rightarrow> None
                      | Some sibling \<Rightarrow>
                          (case window t sibling of
                             None \<Rightarrow> Some (BAD_WINDOW, sibling)
                           | Some s \<Rightarrow>
                               if win_parent s \<noteq> win_parent w \<or> sibling = cfg_window r
                               then Some (BAD_MATCH, 0) else None)) of
                  Some (code, bad) \<Rightarrow> Reject code bad
                | None \<Rightarrow>
                    if cfg_width r = Some 0 \<or> cfg_height r = Some 0 then Reject BAD_VALUE 0
                    else Proceed)))"

section \<open>Requests over all children\<close>

fun destroy_all :: "ResourceId list \<Rightarrow> ResourceTable \<Rightarrow> ResourceTable" where
  "destroy_all [] t = t"
| "destroy_all (k # ks) t = destroy_all ks (fst (destroy_window k t))"

fun map_all :: "ResourceId list \<Rightarrow> ResourceTable \<Rightarrow> ResourceTable option" where
  "map_all [] t = Some t"
| "map_all (k # ks) t =
     (case map_window k t of None \<Rightarrow> None | Some (t', _) \<Rightarrow> map_all ks t')"

fun unmap_all :: "ResourceId list \<Rightarrow> ResourceTable \<Rightarrow> ResourceTable" where
  "unmap_all [] t = t"
| "unmap_all (k # ks) t = unmap_all ks (fst (unmap_window k t))"

definition destroy_subwindows :: "ResourceId \<Rightarrow> ResourceTable \<Rightarrow> ResourceTable" where
  "destroy_subwindows parent t = destroy_all (children t parent) t"

definition map_subwindows :: "ResourceId \<Rightarrow> ResourceTable \<Rightarrow> ResourceTable option" where
  "map_subwindows parent t = map_all (children t parent) t"

definition unmap_subwindows :: "ResourceId \<Rightarrow> ResourceTable \<Rightarrow> ResourceTable" where
  "unmap_subwindows parent t =
     (case mapped_children_bottom_to_top t parent of None \<Rightarrow> t | Some cs \<Rightarrow> unmap_all cs t)"

section \<open>Steps\<close>

text \<open>
  A client's base is one that the allocator hands out. Two requests are left out of the system:
  a ConfigureWindow that restacks the overlay window itself, which a client may send and which
  moves it, and the final ReleaseOverlayWindow while the overlay has children or another parent
  than the root, which leaves dangling links (see \<open>destroy_cow_orphans_children\<close>).
\<close>

inductive window_step :: "ResourceTable \<Rightarrow> ResourceTable \<Rightarrow> bool" where
  create: "1 \<le> k \<Longrightarrow> k \<le> 4095 \<Longrightarrow> create_window_check (base_of k) PER_CLIENT_MASK r t = Proceed \<Longrightarrow>
     window_step t (create_window owner r t)"
| destroy: "window t i \<noteq> None \<Longrightarrow> window_step t (fst (destroy_window i t))"
| destroy_sub: "window t i \<noteq> None \<Longrightarrow> window_step t (destroy_subwindows i t)"
| configure: "configure_window_check r t = Proceed \<Longrightarrow>
     cfg_window r \<noteq> COMPOSITE_OVERLAY_WINDOW \<or> cfg_stack_mode r = None \<Longrightarrow>
     window_step t (fst (configure_window r t))"
| attributes: "window_step t (fst (change_window_attributes r t))"
| map: "map_window i t = Some (t', b) \<Longrightarrow> window_step t t'"
| map_sub: "map_subwindows i t = Some t' \<Longrightarrow> window_step t t'"
| unmap: "window_step t (fst (unmap_window i t))"
| unmap_sub: "window_step t (unmap_subwindows i t)"
| circulate: "window_step t (fst (circulate_window i d t))"
| reparent: "reparent_window r t = Inr (t', res) \<Longrightarrow> window_step t t'"
| get_overlay: "window t COMPOSITE_OVERLAY_WINDOW = None \<Longrightarrow>
     window_step t (materialize_cow_resource host t)"
| release_overlay: "children t COMPOSITE_OVERLAY_WINDOW = [] \<Longrightarrow>
     parent_of t COMPOSITE_OVERLAY_WINDOW = Some ROOT_WINDOW \<Longrightarrow> window_step t (destroy_cow_resource t)"

inductive windows_reachable :: "ResourceTable \<Rightarrow> bool" where
  start: "windows_reachable default_table"
| step: "windows_reachable t \<Longrightarrow> window_step t t' \<Longrightarrow> windows_reachable t'"

section \<open>The overlay window on top\<close>

definition cow_last :: "ResourceId list \<Rightarrow> bool" where
  "cow_last xs \<longleftrightarrow> (COMPOSITE_OVERLAY_WINDOW \<in> set xs \<longrightarrow> last xs = COMPOSITE_OVERLAY_WINDOW)"

definition top_index :: "ResourceId list \<Rightarrow> nat" where
  "top_index xs =
     (if xs \<noteq> [] \<and> last xs = COMPOSITE_OVERLAY_WINDOW then length xs - 1 else length xs)"

lemma cow_aware_top_index_eq: "cow_aware_top_index p = top_index (win_children p)"
  by (simp add: cow_aware_top_index_def top_index_def)

lemma last_drop_top: "i < length xs \<Longrightarrow> last (drop i xs) = last xs"
  by (simp add: last_drop)

lemma cow_last_insert:
  assumes "cow_last xs" and "x \<noteq> COMPOSITE_OVERLAY_WINDOW" and "i \<le> top_index xs"
  shows "cow_last (vec_insert i x xs)"
proof (cases "COMPOSITE_OVERLAY_WINDOW \<in> set xs")
  case True
  then have l: "last xs = COMPOSITE_OVERLAY_WINDOW" "xs \<noteq> []"
    using assms(1) by (auto simp: cow_last_def)
  then have "i \<le> length xs - 1" "0 < length xs" using assms(3) by (auto simp: top_index_def)
  then have "i < length xs" by linarith
  then have "last (vec_insert i x xs) = last xs" by (simp add: vec_insert_def last_drop)
  then show ?thesis using l by (simp add: cow_last_def)
next
  case False
  then show ?thesis using assms(2) by (simp add: cow_last_def)
qed

lemma cow_last_filter:
  assumes "cow_last xs"
  shows "cow_last (filter P xs)"
proof (cases "COMPOSITE_OVERLAY_WINDOW \<in> set (filter P xs)")
  case True
  then have "last xs = COMPOSITE_OVERLAY_WINDOW" "xs \<noteq> []" "P COMPOSITE_OVERLAY_WINDOW"
    using assms by (auto simp: cow_last_def)
  then have "xs = butlast xs @ [COMPOSITE_OVERLAY_WINDOW]" "P COMPOSITE_OVERLAY_WINDOW"
    by (metis append_butlast_last_id)+
  then obtain ys where ys: "xs = ys @ [COMPOSITE_OVERLAY_WINDOW]" "P COMPOSITE_OVERLAY_WINDOW" by blast
  then show ?thesis by (simp add: cow_last_def)
qed (auto simp: cow_last_def)

lemma cow_last_remove:
  assumes "cow_last xs" and "k < length xs" and "xs ! k \<noteq> COMPOSITE_OVERLAY_WINDOW"
  shows "cow_last (vec_remove k xs)"
proof (cases "COMPOSITE_OVERLAY_WINDOW \<in> set (vec_remove k xs)")
  case True
  then have "COMPOSITE_OVERLAY_WINDOW \<in> set xs"
    unfolding vec_remove_def by (auto dest: in_set_takeD in_set_dropD)
  then have l: "last xs = COMPOSITE_OVERLAY_WINDOW" using assms(1) by (simp add: cow_last_def)
  have "k \<noteq> length xs - 1"
    using assms(2,3) l by (metis last_conv_nth list.size(3) not_less_zero)
  then have "Suc k < length xs" using assms(2) by linarith
  then have "last (vec_remove k xs) = last xs" by (simp add: vec_remove_def last_drop)
  then show ?thesis using l by (simp add: cow_last_def)
qed (simp add: cow_last_def)

lemma top_index_le: "top_index xs \<le> length xs"
  by (simp add: top_index_def)

lemma position_top:
  assumes "position (\<lambda>c. c = s) xs = Some j" and "s \<noteq> COMPOSITE_OVERLAY_WINDOW"
  shows "j + 1 \<le> top_index xs"
proof -
  have j: "j < length xs" "xs ! j = s" using position_Some [OF assms(1)] by simp_all
  have "last xs = COMPOSITE_OVERLAY_WINDOW \<Longrightarrow> j \<noteq> length xs - 1"
    using j assms(2) by (metis last_conv_nth list.size(3) not_less_zero)
  then show ?thesis using j(1) by (auto simp: top_index_def)
qed

lemma position_le_top: "position (\<lambda>c. c = s) xs = Some j \<Longrightarrow> j \<le> top_index xs"
  using position_Some [of "\<lambda>c. c = s" xs j] by (auto simp: top_index_def)

abbreviation cow_top :: "ResourceTable \<Rightarrow> bool" where
  "cow_top t \<equiv> cow_last (children t ROOT_WINDOW)"

end
