(* ===== verification/WindowReachable.thy ===== *)
theory WindowReachable
  imports WindowSteps
begin

text \<open>
  Every reachable table is a tree rooted at the root window with the overlay window, when it is a
  child of the root, on top; and what the single requests do to it.
\<close>

definition table_inv :: "ResourceTable \<Rightarrow> bool" where
  "table_inv t \<longleftrightarrow> tree_inv t \<and> cow_top t"

lemma root_neq_cow [simp]: "ROOT_WINDOW \<noteq> COMPOSITE_OVERLAY_WINDOW"
  "COMPOSITE_OVERLAY_WINDOW \<noteq> ROOT_WINDOW"
  by (simp_all add: ROOT_WINDOW_def COMPOSITE_OVERLAY_WINDOW_def)

lemma window_default: "window default_table k = (if k = ROOT_WINDOW then Some root_window else None)"
  by (simp add: window_def default_table_def)

lemma table_inv_default: "table_inv default_table"
proof -
  have par: "parent_of default_table k = (if k = ROOT_WINDOW then Some ROOT_WINDOW else None)" for k
    by (simp add: parent_of_def window_default root_window_def)
  have ch: "children default_table k = []" for k
    by (simp add: children_def window_default root_window_def)
  have "hm_wf (rt_windows default_table)"
    by (simp add: default_table_def)
  then show ?thesis
    unfolding table_inv_def tree_inv_def
    by (auto simp: par ch window_default cow_last_def root_window_def intro: root_dist.zero)
qed

section \<open>Each request\<close>

lemma create_check_Proceed:
  assumes "create_window_check base msk r t = Proceed"
  obtains p where "window t (cw_parent r) = Some p" "validate_owned (cw_window r) base msk"
    "window t (cw_window r) = None"
  using assms
  by (auto simp: create_window_check_def any_resource_exists_def window_def Let_def
      split: option.splits if_splits)

lemma owned_not_cow:
  assumes "1 \<le> k" "k \<le> 4095" "validate_owned i (base_of k) PER_CLIENT_MASK"
  shows "i \<noteq> COMPOSITE_OVERLAY_WINDOW"
proof
  assume "i = COMPOSITE_OVERLAY_WINDOW"
  then have "unat i div 0x100000 = 0" by (simp add: COMPOSITE_OVERLAY_WINDOW_def)
  then show False using assms validate_owned_iff [of k i] by simp
qed

lemma children_create:
  assumes "window t (cw_parent r) = Some p" "cw_window r \<noteq> cw_parent r"
  shows "children (create_window owner r t) k =
    (if k = cw_window r then [] else if k = cw_parent r
     then vec_insert (top_index (win_children p)) (cw_window r) (win_children p) else children t k)"
  using assms by (simp add: children_def create_window_get cow_aware_top_index_eq)

lemma create_table_inv:
  assumes inv: "table_inv t" and k: "1 \<le> k" "k \<le> 4095"
    and ok: "create_window_check (base_of k) PER_CLIENT_MASK r t = Proceed"
  shows "table_inv (create_window owner r t)"
proof -
  obtain p where p: "window t (cw_parent r) = Some p"
    "validate_owned (cw_window r) (base_of k) PER_CLIENT_MASK" "window t (cw_window r) = None"
    using ok by (rule create_check_Proceed)
  have ne: "cw_window r \<noteq> cw_parent r" using p(1,3) by auto
  have nc: "cw_window r \<noteq> COMPOSITE_OVERLAY_WINDOW" using owned_not_cow [OF k p(2)] .
  have nr: "cw_window r \<noteq> ROOT_WINDOW"
    using tree_root_present [of t] inv p(3) by (auto simp: table_inv_def)
  have "cow_last (win_children p) \<Longrightarrow>
      cow_last (vec_insert (top_index (win_children p)) (cw_window r) (win_children p))"
    using cow_last_insert [OF _ nc] by simp
  moreover have "cw_parent r = ROOT_WINDOW \<Longrightarrow> cow_last (win_children p)"
    using inv p(1) by (simp add: table_inv_def children_def)
  ultimately have "cow_top (create_window owner r t)"
    using inv nr by (auto simp: children_create [OF p(1) ne] table_inv_def)
  then show ?thesis
    using create_tree_inv(1) [OF _ p(3,1)] inv by (simp add: table_inv_def)
qed

lemma destroy_children:
  assumes inv: "tree_inv t" and k: "\<not> descends t i k"
  shows "\<exists>P. children (fst (destroy_window i t)) k = filter P (children t k)"
proof (cases "i = ROOT_WINDOW \<or> window t i = None")
  case True
  then have "children (fst (destroy_window i t)) k = filter (\<lambda>_. True) (children t k)"
    by (simp add: destroy_noop)
  then show ?thesis by blast
next
  case False
  then obtain w where i: "i \<noteq> ROOT_WINDOW" and w: "window t i = Some w" by auto
  have get: "window (fst (destroy_window i t)) k =
      map_option (strip_child i (win_parent w) k) (window t k)"
    using destroy_window_correct(6) [OF inv i w prod.collapse [symmetric], of k] k by simp
  show ?thesis
  proof (cases "k = win_parent w")
    case True
    have "children (fst (destroy_window i t)) k = filter (\<lambda>c. c \<noteq> i) (children t k)"
      using get True by (cases "window t k") (simp_all add: children_def strip_child_def)
    then show ?thesis by blast
  next
    case False
    have "children (fst (destroy_window i t)) k = filter (\<lambda>_. True) (children t k)"
      using get False by (cases "window t k") (simp_all add: children_def strip_child_def)
    then show ?thesis by blast
  qed
qed

lemma destroy_table_inv:
  assumes inv: "table_inv t"
  shows "table_inv (fst (destroy_window i t))"
proof (cases "i = ROOT_WINDOW")
  case False
  then have "\<not> descends t i ROOT_WINDOW" by (simp add: below_root)
  then show ?thesis
    using destroy_children [of t i ROOT_WINDOW] destroy_tree_inv [of t i] inv
    by (auto simp: table_inv_def intro: cow_last_filter)
qed (use inv in \<open>simp add: destroy_noop\<close>)

lemma destroy_all_table_inv: "table_inv t \<Longrightarrow> table_inv (destroy_all ks t)"
  by (induction ks t rule: destroy_all.induct) (simp_all add: destroy_table_inv)

lemma table_inv_keep_children:
  "tree_inv t' \<Longrightarrow> children t' ROOT_WINDOW = children t ROOT_WINDOW \<Longrightarrow> table_inv t \<Longrightarrow> table_inv t'"
  by (simp add: table_inv_def)

lemma map_table_inv: "table_inv t \<Longrightarrow> map_window i t = Some (t', b) \<Longrightarrow> table_inv t'"
  using map_window_total [of t i] by (auto simp: table_inv_def)

lemma map_all_table_inv: "table_inv t \<Longrightarrow> map_all ks t = Some t' \<Longrightarrow> table_inv t'"
  by (induction ks arbitrary: t) (auto dest: map_table_inv split: option.splits)

lemma unmap_children: "children (fst (unmap_window i t)) k = children t k"
  by (auto simp: unmap_window_def split: option.splits)

lemma unmap_table_inv: "table_inv t \<Longrightarrow> table_inv (fst (unmap_window i t))"
  by (rule table_inv_keep_children [OF unmap_tree_inv]) (simp_all add: unmap_children table_inv_def)

lemma unmap_all_table_inv: "table_inv t \<Longrightarrow> table_inv (unmap_all ks t)"
  by (induction ks t rule: unmap_all.induct) (simp_all add: unmap_table_inv)

lemma children_insert_window:
  "children (insert_window i w t) k = (if k = i then win_children w else children t k)"
  by (simp add: children_def)

lemma attributes_table_inv: "table_inv t \<Longrightarrow> table_inv (fst (change_window_attributes r t))"
  by (rule table_inv_keep_children [OF attributes_tree_inv])
    (auto simp: table_inv_def change_window_attributes_def Let_def children_insert_window
      children_eq split: option.splits)

lemma cow_last_move:
  assumes "cow_last xs" and k: "k < top_index xs" and j: "j < top_index xs"
  shows "cow_last (vec_insert j (xs ! k) (vec_remove k xs))"
proof -
  have kl: "k < length xs" using k top_index_le [of xs] by simp
  show ?thesis
  proof (cases "COMPOSITE_OVERLAY_WINDOW \<in> set xs")
    case False
    then have "COMPOSITE_OVERLAY_WINDOW \<notin> set (vec_insert j (xs ! k) (vec_remove k xs))"
      using mset_eq_setD [OF mset_vec_move [OF kl, of j]] by simp
    then show ?thesis unfolding cow_last_def by blast
  next
    case True
    then have l: "last xs = COMPOSITE_OVERLAY_WINDOW" "xs \<noteq> []" using assms(1) by (auto simp: cow_last_def)
    then have t: "top_index xs = length xs - 1" by (simp add: top_index_def)
    then have "Suc k < length xs" using k by linarith
    then have ne: "last (vec_remove k xs) = last xs" "vec_remove k xs \<noteq> []"
      "length (vec_remove k xs) = length xs - 1"
      by (simp_all add: vec_remove_def last_drop)
    then have "j < length (vec_remove k xs)" using j t by simp
    then have "last (vec_insert j (xs ! k) (vec_remove k xs)) = last (vec_remove k xs)"
      by (simp add: vec_insert_def last_drop)
    then show ?thesis using ne l by (simp add: cow_last_def)
  qed
qed

lemma circulate_table_inv:
  assumes inv: "table_inv t"
  shows "table_inv (fst (circulate_window c d t))"
proof (cases rule: circulate_cases [where c = c and d = d and t = t])
  case (2 p k j)
  have "cow_top (fst (circulate_window c d t))"
  proof (cases "c = ROOT_WINDOW")
    case True
    then show ?thesis
      using 2 inv cow_last_move [of "win_children p" k j]
      by (simp add: children_insert_window table_inv_def children_eq cow_aware_top_index_eq)
  qed (use 2 inv in \<open>simp add: children_insert_window table_inv_def\<close>)
  then show ?thesis using circulate_tree_inv inv by (simp add: table_inv_def)
qed (use inv in simp)

section \<open>Restacking below the overlay\<close>

lemma resolve_sibling:
  assumes "resolve_restack_action t i p sib m = Some a" and "window t p = Some w"
  shows "a = AboveSibling s \<Longrightarrow> sib = Some s \<and> s \<in> set (win_children w)"
    "a = BelowSibling s \<Longrightarrow> sib = Some s \<and> s \<in> set (win_children w)"
  using assms by (auto simp: resolve_restack_action_def split: option.splits if_splits)

lemma apply_restack_cow_last:
  assumes "cow_last (win_children p)" and pos: "position (\<lambda>c. c = i) (win_children p) = Some index"
    and i: "i \<noteq> COMPOSITE_OVERLAY_WINDOW"
    and sib: "\<And>s. a = AboveSibling s \<Longrightarrow> s \<in> set (win_children p) \<and> s \<noteq> i"
  shows "cow_last (win_children (apply_restack a index i p))"
proof -
  have ix: "index < length (win_children p)" "win_children p ! index = i"
    using position_Some [OF pos] by simp_all
  let ?ys = "vec_remove index (win_children p)"
  have ys: "cow_last ?ys"
    using cow_last_remove [OF assms(1) ix(1)] ix(2) i by simp
  note ins = cow_last_insert [OF ys i]
  show ?thesis
  proof (cases a)
    case (AboveSibling s)
    show ?thesis
    proof (cases "s = COMPOSITE_OVERLAY_WINDOW")
      case False
      have "s \<in> set (win_children p)" "s \<noteq> i" using sib AboveSibling by auto
      then have "s \<in> set ?ys"
        using ix mset_vec_move [OF ix(1), of 0, THEN mset_eq_setD] by auto
      then obtain j where "position (\<lambda>c. c = s) ?ys = Some j" using position_eq_Some by metis
      then show ?thesis
        using AboveSibling False ins [of "j + 1"] position_top [of s ?ys j]
        by (simp add: apply_restack_def Let_def)
    qed (use AboveSibling ins in \<open>simp add: apply_restack_def Let_def cow_aware_top_index_eq\<close>)
  next
    case (BelowSibling s)
    then show ?thesis
      using ins position_le_top [of s ?ys]
      by (auto simp: apply_restack_def Let_def split: option.splits)
  qed (use ins assms(1) in \<open>simp_all add: apply_restack_def Let_def cow_aware_top_index_eq\<close>)
qed

lemma restack_cow_top:
  assumes inv: "table_inv t" and i: "mode = None \<or> i \<noteq> COMPOSITE_OVERLAY_WINDOW"
    and sib: "sib \<noteq> Some i"
  shows "cow_top (restack_window i sib mode t)"
proof (cases rule: restack_cases [where t = t and i = i and sib = sib and mode = mode])
  case (2 m p action index)
  have "cow_top (insert_window (win_id p) (apply_restack action index i p) t)"
  proof (cases "win_id p = ROOT_WINDOW")
    case True
    have c: "cow_last (win_children p)"
      using inv 2(3) True by (simp add: table_inv_def children_def)
    have s: "s \<in> set (win_children p) \<and> s \<noteq> i" if "action = AboveSibling s" for s
      using resolve_sibling(1) [OF 2(4,3) that] sib by auto
    show ?thesis
      using apply_restack_cow_last [OF c 2(5) _ s] i 2(1) True
      by (simp add: children_insert_window)
  qed (use inv in \<open>simp add: children_insert_window table_inv_def\<close>)
  then show ?thesis using 2(6) by simp
next
  case 3
  then show ?thesis using tree_win_id inv by (auto simp: table_inv_def)
qed (use inv in \<open>simp add: table_inv_def\<close>)

lemma configure_check_Proceed:
  "configure_window_check r t = Proceed \<Longrightarrow>
    cfg_window r \<noteq> ROOT_WINDOW \<and> window t (cfg_window r) \<noteq> None \<and> cfg_sibling r \<noteq> Some (cfg_window r)"
  by (auto simp: configure_window_check_def split: option.splits if_splits)

lemma configure_table_inv:
  assumes inv: "table_inv t" and ok: "configure_window_check r t = Proceed"
    and i: "cfg_window r \<noteq> COMPOSITE_OVERLAY_WINDOW \<or> cfg_stack_mode r = None"
  shows "table_inv (fst (configure_window r t))"
proof -
  obtain w where w: "window t (cfg_window r) = Some w" and s: "cfg_sibling r \<noteq> Some (cfg_window r)"
    using configure_check_Proceed [OF ok] by auto
  let ?t = "insert_window (cfg_window r) (configure_geometry r w) t"
  have "tree_inv ?t" using inv w by (intro tree_inv_insert) (simp_all add: table_inv_def)
  moreover have "children ?t k = children t k" for k
    using w by (simp add: children_insert_window children_eq)
  ultimately have ti: "table_inv ?t" using inv by (simp add: table_inv_def)
  then have "cow_top (restack_window (cfg_window r) (cfg_sibling r) (cfg_stack_mode r) ?t)"
    using restack_cow_top [of ?t "cfg_stack_mode r" "cfg_window r" "cfg_sibling r"] i s by blast
  then show ?thesis
    using ti w by (simp add: table_inv_def configure_window_def Let_def restack_tree_inv)
qed

section \<open>Reparenting and the overlay\<close>

lemma cow_last_insert_cow:
  "COMPOSITE_OVERLAY_WINDOW \<notin> set xs \<Longrightarrow> cow_last (vec_insert (top_index xs) COMPOSITE_OVERLAY_WINDOW xs)"
  by (cases "xs = []") (auto simp: top_index_def cow_last_def vec_insert_def)

lemma children_modify_top:
  assumes "window t i = Some w"
  shows "children (modify_window i (\<lambda>p. p\<lparr>win_children :=
      vec_insert (cow_aware_top_index p) x (win_children p)\<rparr>) t) k =
    (if k = i then vec_insert (top_index (children t i)) x (children t i) else children t k)"
proof (cases "k = i")
  case True
  then show ?thesis using assms unfolding children_def window_modify by (simp add: cow_aware_top_index_eq)
next
  case False
  then show ?thesis unfolding children_def window_modify by simp
qed

lemma reparent_table_inv:
  assumes inv: "table_inv t" and ok: "reparent_window r t = Inr (t', res)"
  shows "table_inv t'"
proof -
  let ?w = "rep_window r" and ?p = "rep_parent r"
  have tree: "tree_inv t" using inv by (simp add: table_inv_def)
  obtain w where w: "window t ?w = Some w" and p: "window t ?p \<noteq> None"
    and t': "t' = modify_window ?w
       (\<lambda>w. w\<lparr>win_parent := ?p, win_x := rep_x r, win_y := rep_y r\<rparr>)
       (modify_window ?p (\<lambda>p. p\<lparr>win_children :=
          vec_insert (cow_aware_top_index p) ?w (win_children p)\<rparr>)
         (modify_window (win_parent w) (\<lambda>p. p\<lparr>win_children :=
            filter (\<lambda>c. c \<noteq> ?w) (win_children p)\<rparr>) t))"
    using ok by (rule reparent_Inr)
  define t1 where "t1 = modify_window (win_parent w) (\<lambda>p. p\<lparr>win_children :=
      filter (\<lambda>c. c \<noteq> ?w) (win_children p)\<rparr>) t"
  have "window t1 ?p \<noteq> None" using p by (auto simp: t1_def)
  then obtain p1 where p1: "window t1 ?p = Some p1" by blast
  have c1: "children t1 ROOT_WINDOW = filter (\<lambda>c. c \<noteq> ?w) (children t ROOT_WINDOW)"
  proof (cases "win_parent w = ROOT_WINDOW")
    case False
    then have "?w \<notin> set (children t ROOT_WINDOW)"
      using tree_children_iff [OF tree, of ?w ROOT_WINDOW] w by (auto simp: parent_of_def)
    then have "filter (\<lambda>c. c \<noteq> ?w) (children t ROOT_WINDOW) = children t ROOT_WINDOW"
      by (auto simp: filter_id_conv)
    then show ?thesis using False unfolding t1_def children_modify_filter by simp
  qed (simp add: t1_def children_modify_filter)
  then have top1: "cow_top t1" using inv by (simp add: table_inv_def cow_last_filter)
  have c': "children t' ROOT_WINDOW = (if ROOT_WINDOW = ?p
      then vec_insert (top_index (children t1 ROOT_WINDOW)) ?w (children t1 ROOT_WINDOW)
      else children t1 ROOT_WINDOW)"
    unfolding t' t1_def [symmetric]
    by (subst children_modify_keep) (simp_all add: children_modify_top [OF p1])
  have "cow_top t'"
  proof (cases "?w = COMPOSITE_OVERLAY_WINDOW")
    case True
    then have "COMPOSITE_OVERLAY_WINDOW \<notin> set (children t1 ROOT_WINDOW)" by (simp add: c1)
    then show ?thesis using cow_last_insert_cow top1 True by (simp add: c')
  qed (use top1 cow_last_insert [OF top1] in \<open>simp add: c'\<close>)
  then show ?thesis using reparent_tree_inv(1) [OF tree ok] by (simp add: table_inv_def)
qed

lemma materialize_table_inv:
  assumes inv: "table_inv t" and fresh: "window t COMPOSITE_OVERLAY_WINDOW = None"
  shows "table_inv (materialize_cow_resource host t)"
proof -
  have tree: "tree_inv t" using inv by (simp add: table_inv_def)
  obtain r where r: "window t ROOT_WINDOW = Some r" using tree_root_present [OF tree] by auto
  have "COMPOSITE_OVERLAY_WINDOW \<notin> set (children t ROOT_WINDOW)"
    using absent_no_links(2) [OF tree fresh] .
  moreover have "children (materialize_cow_resource host t) ROOT_WINDOW =
      vec_insert (top_index (children t ROOT_WINDOW)) COMPOSITE_OVERLAY_WINDOW (children t ROOT_WINDOW)"
    unfolding materialize_cow_resource_def Let_def
    by (subst children_modify_top) (simp_all add: r children_insert_window)
  ultimately have "cow_top (materialize_cow_resource host t)"
    by (simp add: cow_last_insert_cow)
  then show ?thesis using materialize_tree_inv [OF tree fresh] by (simp add: table_inv_def)
qed

lemma destroy_cow_window:
  "window (destroy_cow_resource t) k = (if k = COMPOSITE_OVERLAY_WINDOW then None else
    if k = ROOT_WINDOW then map_option (\<lambda>r. r\<lparr>win_children :=
      filter (\<lambda>c. c \<noteq> COMPOSITE_OVERLAY_WINDOW) (win_children r)\<rparr>) (window t k) else window t k)"
  by (simp add: destroy_cow_resource_def Let_def)

lemma destroy_cow_table_inv:
  assumes inv: "table_inv t" and kids: "children t COMPOSITE_OVERLAY_WINDOW = []"
    and par: "parent_of t COMPOSITE_OVERLAY_WINDOW = Some ROOT_WINDOW"
  shows "table_inv (destroy_cow_resource t)"
proof -
  let ?c = COMPOSITE_OVERLAY_WINDOW
  have tree: "tree_inv t" using inv by (simp add: table_inv_def)
  obtain w where w: "window t ?c = Some w" "win_parent w = ROOT_WINDOW"
    using par by (auto simp: parent_of_def)
  have "parent_of t x \<noteq> Some ?c" if "x \<noteq> ROOT_WINDOW" for x
    using tree_children_iff [OF tree, of x ?c] kids that by simp
  then have down: "descends t ?c k \<longleftrightarrow> k = ?c" for k
  proof -
    have "k = ?c" if "descends t ?c k"
      using that by (induction rule: below.induct)
        (use \<open>\<And>x. x \<noteq> ROOT_WINDOW \<Longrightarrow> parent_of t x \<noteq> Some ?c\<close> in auto)
    then show ?thesis by (auto intro: below.refl)
  qed
  have "window (destroy_cow_resource t) k = window (fst (destroy_window ?c t)) k" for k
    using destroy_window_correct(6) [OF tree _ w(1) prod.collapse [symmetric], of k]
    by (cases "window t k") (auto simp: destroy_cow_window down w(2) strip_child_def)
  then have "same_shape (fst (destroy_window ?c t)) (destroy_cow_resource t)"
    unfolding same_shape_def by (simp add: option.rel_refl)
  moreover have "hm_wf (rt_windows (destroy_cow_resource t))"
    using tree by (simp add: destroy_cow_resource_def Let_def tree_inv_def)
  ultimately have "tree_inv (destroy_cow_resource t)"
    using tree_inv_same_shape destroy_tree_inv [OF tree] by blast
  moreover have "children (destroy_cow_resource t) ROOT_WINDOW =
      filter (\<lambda>c. c \<noteq> ?c) (children t ROOT_WINDOW)"
    by (cases "window t ROOT_WINDOW") (simp_all add: children_def destroy_cow_window)
  ultimately show ?thesis
    using inv by (simp add: table_inv_def cow_last_filter)
qed

lemma step_table_inv: "window_step t t' \<Longrightarrow> table_inv t \<Longrightarrow> table_inv t'"
proof (induction rule: window_step.induct)
  case (unmap_sub t i)
  then show ?case by (simp add: unmap_subwindows_def unmap_all_table_inv split: option.splits)
qed (auto intro: create_table_inv destroy_table_inv destroy_all_table_inv configure_table_inv
    attributes_table_inv map_table_inv map_all_table_inv unmap_table_inv circulate_table_inv
    reparent_table_inv materialize_table_inv destroy_cow_table_inv
    simp: destroy_subwindows_def map_subwindows_def)

lemma reachable_table_inv: "windows_reachable t \<Longrightarrow> table_inv t"
  by (induction rule: windows_reachable.induct) (auto intro: table_inv_default step_table_inv)

lemma reachable_tree: "windows_reachable t \<Longrightarrow> tree_inv t"
  using reachable_table_inv by (simp add: table_inv_def)

lemma tree_descends_root: "tree_inv t \<Longrightarrow> window t k \<noteq> None \<Longrightarrow> descends t ROOT_WINDOW k"
  unfolding tree_inv_def by (metis root_below)

lemma tree_antisym:
  "tree_inv t \<Longrightarrow> window t b \<noteq> None \<Longrightarrow> descends t a b \<Longrightarrow> descends t b a \<Longrightarrow> a = b"
  unfolding tree_inv_def using below_antisym by metis

lemma tree_children_distinct: "tree_inv t \<Longrightarrow> distinct (children t k)"
  by (auto simp: children_def tree_inv_def split: option.splits)

end
