(* ===== verification/WindowClaims.thy ===== *)
theory WindowClaims
  imports WindowReachable
begin

text \<open>The properties of the window tree, each with a concrete instance where it has hypotheses.\<close>

section \<open>A small tree\<close>

definition plain_window :: "ResourceId \<Rightarrow> ResourceId \<Rightarrow> CreateWindowRequest" where
  "plain_window i parent = \<lparr>cw_depth = 0, cw_window = i, cw_parent = parent, cw_x = 0, cw_y = 0,
     cw_width = 10, cw_height = 10, cw_border_width = 0, cw_class = 0, cw_visual = 0,
     cw_value_mask = 0, cw_background_pixmap = None, cw_background_pixel = None,
     cw_bit_gravity = None, cw_win_gravity = None, cw_backing_store = None,
     cw_backing_planes = None, cw_backing_pixel = None, cw_override_redirect = None,
     cw_save_under = None, cw_event_mask = None, cw_do_not_propagate_mask = None,
     cw_colormap = None\<rparr>"

text \<open>A top level \<open>0x100001\<close> with the child \<open>0x100002\<close>, and a top level \<open>0x100003\<close> above it.\<close>

definition tree1 :: ResourceTable where
  "tree1 = create_window 1 (plain_window 0x100001 ROOT_WINDOW) default_table"

definition tree2 :: ResourceTable where
  "tree2 = create_window 1 (plain_window 0x100002 0x100001) tree1"

definition tree3 :: ResourceTable where
  "tree3 = create_window 1 (plain_window 0x100003 ROOT_WINDOW) tree2"

lemma plain_check:
  assumes "window t p = Some w" and "win_class w = InputOutput"
    and "validate_owned i base msk" and "\<not> any_resource_exists t i"
  shows "create_window_check base msk (plain_window i p) t = Proceed"
  using assms by (simp add: create_window_check_def plain_window_def Let_def)

lemma plain_simps [simp]:
  "cw_window (plain_window i p) = i" "cw_parent (plain_window i p) = p"
  by (simp_all add: plain_window_def)

lemma new_plain:
  "new_window c (plain_window i p) t = (window_placeholder i)\<lparr>win_parent := p,
     win_width := 10, win_height := 10, win_depth := map_or 24 win_depth (window t p),
     win_visual := map_or ROOT_VISUAL win_visual (window t p),
     win_class := map_or InputOutput win_class (window t p), win_background_none := True,
     win_colormap := map_or ROOT_COLORMAP win_colormap (window t p), win_owner := c\<rparr>"
  by (simp add: new_window_def plain_window_def window_placeholder_def Let_def)

lemma owned_ids:
  "validate_owned 0x100001 (base_of 1) PER_CLIENT_MASK"
  "validate_owned 0x100002 (base_of 1) PER_CLIENT_MASK"
  "validate_owned 0x100003 (base_of 1) PER_CLIENT_MASK"
  by (simp_all add: validate_owned_iff)

lemma create_other_tables [simp]:
  "rt_pixmaps (create_window c r t) = rt_pixmaps t" "rt_gcs (create_window c r t) = rt_gcs t"
  "rt_fonts (create_window c r t) = rt_fonts t" "rt_cursors (create_window c r t) = rt_cursors t"
  "rt_colormaps (create_window c r t) = rt_colormaps t"
  "rt_visuals (create_window c r t) = rt_visuals t"
  "rt_pictures (create_window c r t) = rt_pictures t"
  "rt_glyphsets (create_window c r t) = rt_glyphsets t"
  by (simp_all add: create_window_def insert_window_def Let_def)

lemma exists_window:
  "rt_pixmaps t = [] \<Longrightarrow> rt_gcs t = [] \<Longrightarrow> rt_fonts t = [] \<Longrightarrow> rt_cursors t = [] \<Longrightarrow>
    any_resource_exists t i \<longleftrightarrow> window t i \<noteq> None"
  by (simp add: any_resource_exists_def window_def)

text \<open>Parents, children and map states of the three tables.\<close>

definition tree_window :: "ResourceId \<Rightarrow> ResourceId \<Rightarrow> ResourceId list \<Rightarrow> Window" where
  "tree_window i p cs = (window_placeholder i)\<lparr>win_parent := p, win_width := 10, win_height := 10,
     win_background_none := True, win_owner := 1, win_children := cs\<rparr>"

lemma tree1_window: "window tree1 k =
    (if k = 0x100001 then Some (tree_window 0x100001 ROOT_WINDOW [])
     else if k = ROOT_WINDOW then Some (root_window\<lparr>win_children := [0x100001]\<rparr>) else None)"
  by (simp add: tree1_def create_window_get [where p = root_window] window_default new_plain
      tree_window_def cow_aware_top_index_def vec_insert_def window_placeholder_def root_window_def
      ROOT_WINDOW_def)

lemma tree2_window: "window tree2 k =
    (if k = 0x100002 then Some (tree_window 0x100002 0x100001 [])
     else if k = 0x100001 then Some (tree_window 0x100001 ROOT_WINDOW [0x100002])
     else if k = ROOT_WINDOW then Some (root_window\<lparr>win_children := [0x100001]\<rparr>) else None)"
  by (simp add: tree2_def create_window_get [where p = "tree_window 0x100001 ROOT_WINDOW []"]
      tree1_window new_plain cow_aware_top_index_def vec_insert_def)
    (simp add: tree_window_def window_placeholder_def)

lemma tree3_window: "window tree3 k =
    (if k = 0x100003 then Some (tree_window 0x100003 ROOT_WINDOW [])
     else if k = 0x100002 then Some (tree_window 0x100002 0x100001 [])
     else if k = 0x100001 then Some (tree_window 0x100001 ROOT_WINDOW [0x100002])
     else if k = ROOT_WINDOW then Some (root_window\<lparr>win_children := [0x100001, 0x100003]\<rparr>)
     else None)"
  by (simp add: tree3_def create_window_get [where p = "root_window\<lparr>win_children := [0x100001]\<rparr>"]
      tree2_window new_plain cow_aware_top_index_def vec_insert_def ROOT_WINDOW_def
      COMPOSITE_OVERLAY_WINDOW_def)
    (simp add: tree_window_def window_placeholder_def root_window_def ROOT_WINDOW_def)

lemma tree_tables:
  "rt_pixmaps tree1 = []" "rt_gcs tree1 = []" "rt_fonts tree1 = []" "rt_cursors tree1 = []"
  "rt_pixmaps tree2 = []" "rt_gcs tree2 = []" "rt_fonts tree2 = []" "rt_cursors tree2 = []"
  by (simp_all add: tree2_def tree1_def default_table_def)

lemma default_tables:
  "rt_pixmaps default_table = []" "rt_gcs default_table = []" "rt_fonts default_table = []"
  "rt_cursors default_table = []"
  by (simp_all add: default_table_def)

lemma reachable3: "windows_reachable tree3"
proof -
  have c1: "create_window_check (base_of 1) PER_CLIENT_MASK (plain_window 0x100001 ROOT_WINDOW)
      default_table = Proceed"
    using owned_ids(1)
    by (intro plain_check [where w = root_window])
      (simp_all add: window_default exists_window default_tables root_window_def ROOT_WINDOW_def)
  have c2: "create_window_check (base_of 1) PER_CLIENT_MASK (plain_window 0x100002 0x100001)
      tree1 = Proceed"
    using owned_ids(2)
    by (intro plain_check [where w = "tree_window 0x100001 ROOT_WINDOW []"])
      (simp_all add: tree1_window exists_window tree_tables ROOT_WINDOW_def tree_window_def
        window_placeholder_def)
  have c3: "create_window_check (base_of 1) PER_CLIENT_MASK (plain_window 0x100003 ROOT_WINDOW)
      tree2 = Proceed"
    using owned_ids(3)
    by (intro plain_check [where w = "root_window\<lparr>win_children := [0x100001]\<rparr>"])
      (simp_all add: tree2_window exists_window tree_tables ROOT_WINDOW_def root_window_def)
  have "windows_reachable tree1" unfolding tree1_def
    by (rule windows_reachable.step [OF windows_reachable.start window_step.create [OF _ _ c1]]) simp_all
  then have "windows_reachable tree2" unfolding tree2_def
    by (rule windows_reachable.step [OF _ window_step.create [OF _ _ c2]]) simp_all
  then show ?thesis unfolding tree3_def
    by (rule windows_reachable.step [OF _ window_step.create [OF _ _ c3]]) simp_all
qed

section \<open>The tree\<close>



text \<open>
  \<open>is_descendant_of\<close>, a loop up the parent links that gives up after as many steps as there
  are windows, decides proper descent exactly in every reachable table, for ids of live windows
  and for others.
\<close>

theorem is_descendant_of_exact:
  assumes "windows_reachable t"
  shows "is_descendant_of t x a \<longleftrightarrow> a \<noteq> x \<and> descends t a x"
  using is_descendant_of_iff [OF reachable_tree [OF assms]] .

theorem is_descendant_of_exact_witness: "is_descendant_of tree3 0x100002 0x100001"
proof -
  have "descends tree3 0x100001 0x100002"
    by (rule below.step [OF _ _ below.refl])
      (simp_all add: ROOT_WINDOW_def parent_of_def tree3_window tree_window_def)
  then show ?thesis using is_descendant_of_exact [OF reachable3] by simp
qed

text \<open>
  Destroying a window removes exactly the window and its descendants, reports each of
  them once, the window first, and changes nothing else but the children list of its parent; the
  root cannot be destroyed.
\<close>

theorem destroy_window_removes_subtree:
  assumes "windows_reachable t" and "window t i = Some w"
  shows "case destroy_window i t of (t', D) \<Rightarrow>
    if i = ROOT_WINDOW then t' = t \<and> D = []
    else distinct D \<and> hd D = i \<and> set D = {k. descends t i k} \<and>
      (\<forall>k. window t' k =
        (if descends t i k then None
         else if k = win_parent w
         then map_option (\<lambda>p. p\<lparr>win_children := filter (\<lambda>c. c \<noteq> i) (win_children p)\<rparr>) (window t k)
         else window t k))"
proof (cases "i = ROOT_WINDOW")
  case True
  then show ?thesis by (simp add: destroy_noop)
next
  case False
  obtain t' D where d: "destroy_window i t = (t', D)" by fastforce
  note c = destroy_window_correct [OF reachable_tree [OF assms(1)] False assms(2) d]
  have "window t' k = (if descends t i k then None
         else if k = win_parent w
         then map_option (\<lambda>p. p\<lparr>win_children := filter (\<lambda>c. c \<noteq> i) (win_children p)\<rparr>) (window t k)
         else window t k)" for k
    using c(6) [of k] by (cases "window t k") (auto simp: strip_child_def)
  then show ?thesis using False c(1-3) d by simp
qed

theorem destroy_window_removes_subtree_witness:
  "window (fst (destroy_window 0x100001 tree3)) 0x100002 = None"
proof -
  have "descends tree3 0x100001 0x100002"
    by (rule below.step [OF _ _ below.refl])
      (simp_all add: ROOT_WINDOW_def parent_of_def tree3_window tree_window_def)
  moreover have "window tree3 0x100001 = Some (tree_window 0x100001 ROOT_WINDOW [0x100002])"
    by (simp add: tree3_window)
  ultimately show ?thesis
    using destroy_window_removes_subtree [OF reachable3, of "0x100001"]
    by (auto simp: ROOT_WINDOW_def split: prod.splits)
qed

section \<open>Reparenting\<close>

lemma reparent_children:
  assumes inv: "tree_inv t" and ok: "reparent_window r t = Inr (t', res)"
  shows "children t' k = (let others = filter (\<lambda>c. c \<noteq> rep_window r) (children t k) in
    if k = rep_parent r then vec_insert (top_index others) (rep_window r) others else others)"
proof -
  let ?w = "rep_window r" and ?p = "rep_parent r"
  obtain w where w: "window t ?w = Some w" and p: "window t ?p \<noteq> None"
    and t': "t' = modify_window ?w
       (\<lambda>w. w\<lparr>win_parent := ?p, win_x := rep_x r, win_y := rep_y r\<rparr>)
       (modify_window ?p (\<lambda>p. p\<lparr>win_children :=
          vec_insert (cow_aware_top_index p) ?w (win_children p)\<rparr>)
         (modify_window (win_parent w) (\<lambda>p. p\<lparr>win_children :=
            filter (\<lambda>c. c \<noteq> ?w) (win_children p)\<rparr>) t))"
    using ok by (rule reparent_Inr)
  define t1 where "t1 = modify_window (win_parent w) (\<lambda>p. p\<lparr>win_children :=
      filter (\<lambda>c. c \<noteq> ?w) (win_children p)\<rparr>) t"
  have "window t1 ?p \<noteq> None" using p by (auto simp: t1_def)
  then obtain p1 where p1: "window t1 ?p = Some p1" by blast
  have c1: "children t1 k = filter (\<lambda>c. c \<noteq> ?w) (children t k)" for k
  proof (cases "win_parent w = k")
    case False
    then have "?w \<notin> set (children t k)"
      using tree_children_iff [OF inv, of ?w k] w by (auto simp: parent_of_def)
    then have "filter (\<lambda>c. c \<noteq> ?w) (children t k) = children t k" by (auto simp: filter_id_conv)
    then show ?thesis using False unfolding t1_def children_modify_filter by simp
  qed (simp add: t1_def children_modify_filter)
  show ?thesis
    unfolding t' t1_def [symmetric] Let_def
    by (subst children_modify_keep) (simp_all add: children_modify_top [OF p1] c1)
qed

text \<open>
  ReparentWindow, over every reachable table: BadMatch exactly when the window is the
  root or the new parent is the window or one of its descendants, BadWindow exactly when this is
  not so and one of the two does not exist; otherwise the window leaves its old parent and is put
  on top of the other children of the new one, below the overlay window, no other link changes,
  and the result names the old parent.
\<close>

theorem reparent_window_exact:
  assumes "windows_reachable t"
  shows "case reparent_window r t of
      Inl e \<Rightarrow> (if rep_window r = ROOT_WINDOW \<or> descends t (rep_window r) (rep_parent r)
                then e = ReparentBadMatch
                else e = ReparentBadWindow \<and>
                  (window t (rep_window r) = None \<or> window t (rep_parent r) = None))
    | Inr (t', res) \<Rightarrow>
        rep_window r \<noteq> ROOT_WINDOW \<and> \<not> descends t (rep_window r) (rep_parent r) \<and>
        parent_of t' = (parent_of t)(rep_window r := Some (rep_parent r)) \<and>
        (\<forall>k. children t' k = (let others = filter (\<lambda>c. c \<noteq> rep_window r) (children t k) in
           if k = rep_parent r then vec_insert (top_index others) (rep_window r) others
           else others)) \<and>
        Some (rr_old_parent res) = parent_of t (rep_window r)"
proof -
  have inv: "tree_inv t" using reachable_tree [OF assms] .
  have test: "(rep_window r = ROOT_WINDOW \<or> rep_window r = rep_parent r \<or>
      is_descendant_of t (rep_parent r) (rep_window r)) \<longleftrightarrow>
    rep_window r = ROOT_WINDOW \<or> descends t (rep_window r) (rep_parent r)"
    unfolding is_descendant_of_iff [OF inv] by (auto intro: below.refl)
  show ?thesis
  proof (cases "reparent_window r t")
    case (Inl e)
    then show ?thesis
      unfolding reparent_window_def test by (auto simp: Let_def window_def split: option.splits if_splits)
  next
    case (Inr s)
    obtain t' res where s: "s = (t', res)" by (cases s)
    note ok = Inr [unfolded s]
    have "\<not> (rep_window r = ROOT_WINDOW \<or> descends t (rep_window r) (rep_parent r))"
      using ok unfolding reparent_window_def test by (auto split: if_splits)
    moreover have "Some (rr_old_parent res) = parent_of t (rep_window r)"
      using ok unfolding reparent_window_def
      by (auto simp: Let_def parent_of_def split: option.splits if_splits)
    moreover note reparent_tree_inv(2) [OF inv ok] reparent_children [OF inv ok]
    ultimately show ?thesis unfolding ok sum.case prod.case by blast
  qed
qed

theorem reparent_window_exact_witness:
  "reparent_window \<lparr>rep_window = 0x100001, rep_parent = 0x100002, rep_x = 0, rep_y = 0\<rparr> tree3 =
     Inl ReparentBadMatch"
proof -
  let ?r = "\<lparr>rep_window = 0x100001, rep_parent = 0x100002, rep_x = 0, rep_y = 0\<rparr>"
  have "descends tree3 0x100001 0x100002"
    by (rule below.step [OF _ _ below.refl])
      (simp_all add: ROOT_WINDOW_def parent_of_def tree3_window tree_window_def)
  then show ?thesis
    using reparent_window_exact [OF reachable3, of ?r]
    by (cases "reparent_window ?r tree3") (auto split: prod.splits if_splits)
qed

section \<open>Mapping and unmapping\<close>

lemma same_children_same_parents:
  assumes "tree_inv t" and "tree_inv t'" and "\<And>k. children t' k = children t k"
  shows "parent_of t' = parent_of t"
proof
  fix c
  show "parent_of t' c = parent_of t c"
  proof (cases "c = ROOT_WINDOW")
    case True
    then show ?thesis using tree_root [OF assms(1)] tree_root [OF assms(2)] by simp
  next
    case False
    then have "parent_of t' c = Some k \<longleftrightarrow> parent_of t c = Some k" for k
      using tree_children_iff [OF assms(1), of c k] tree_children_iff [OF assms(2), of c k] assms(3)
      by simp
    then show ?thesis by (metis not_None_eq)
  qed
qed

text \<open>
  In a reachable table whose map states agree with the tree, MapWindow ends, reports
  whether the window was unmapped, moves no window, and leaves viewable exactly the windows that
  are mapped, together with all their ancestors, once the window is: its mapped descendants that
  were waiting for it become viewable in the same step.
\<close>

theorem map_window_viewability:
  assumes "windows_reachable t" and "view_inv t" and "window t i \<noteq> None"
  shows "\<exists>t' was_unmapped. map_window i t = Some (t', was_unmapped) \<and>
    was_unmapped = (\<not> mapped t i) \<and> view_inv t' \<and> (\<forall>k. children t' k = children t k) \<and>
    (\<forall>k. viewable t' k = (window t k \<noteq> None \<and> (\<forall>a. descends t a k \<longrightarrow> a = i \<or> mapped t a)))"
proof -
  have inv: "tree_inv t" using reachable_tree [OF assms(1)] .
  obtain w where w: "window t i = Some w" using assms(3) by blast
  obtain t' where t': "map_window i t = Some (t', win_map_state w = Unmapped)" "tree_inv t'" "view_inv t'"
    and m: "\<And>k. mapped t' k \<longleftrightarrow> k = i \<or> mapped t k"
    using map_window_correct [OF inv assms(2) w] by blast
  have kids: "children t' k = children t k" for k
    using map_window_total [OF inv, of i] t'(1) by auto
  have par: "parent_of t' = parent_of t" using same_children_same_parents [OF inv t'(2) kids] .
  have there: "window t' k \<noteq> None \<longleftrightarrow> window t k \<noteq> None" for k
    using par by (metis parent_of_None)
  have "viewable t' k = (window t k \<noteq> None \<and> (\<forall>a. descends t a k \<longrightarrow> a = i \<or> mapped t a))" for k
  proof (cases "window t' k")
    case None
    then show ?thesis using there [of k] by (simp add: viewable_def)
  next
    case (Some v)
    then show ?thesis
      using viewable_iff_ancestors_mapped [OF t'(2,3), of k] there [of k] by (simp add: par m)
  qed
  then show ?thesis using t'(1,3) kids w by (auto simp: mapped_def)
qed

lemma tree3_view_inv: "view_inv tree3"
  unfolding view_inv_def
proof (intro conjI allI impI)
  show "viewable tree3 ROOT_WINDOW"
    by (simp add: viewable_def tree3_window root_window_def ROOT_WINDOW_def)
  have "\<not> mapped tree3 k" if "k \<noteq> ROOT_WINDOW" for k
    using that by (simp add: mapped_def tree3_window tree_window_def window_placeholder_def)
  then show "view_ok tree3 k" if "k \<noteq> ROOT_WINDOW" for k
    using that by (intro view_okI) simp
qed

theorem map_window_viewability_witness:
  "\<exists>t' b. map_window 0x100001 tree3 = Some (t', b) \<and> b \<and> view_inv t'"
proof -
  have w: "window tree3 0x100001 \<noteq> None" by (simp add: tree3_window)
  have "\<not> mapped tree3 0x100001"
    by (simp add: mapped_def tree3_window tree_window_def window_placeholder_def ROOT_WINDOW_def)
  then show ?thesis
    using map_window_viewability [OF reachable3 tree3_view_inv w] by blast
qed

lemma set_state_states:
  "viewable (fst (unmap_window i t)) k = (if k = i then i = ROOT_WINDOW \<and> viewable t i else viewable t k)"
  "mapped (fst (unmap_window i t)) k = (if k = i then i = ROOT_WINDOW \<and> mapped t i else mapped t k)"
  by (auto simp: unmap_window_def viewable_def mapped_def split: option.splits)

text \<open>
  UnmapWindow clears the state of the one window only: when it has a viewable child, that
  child stays viewable although its parent is now unmapped, so that the map states no longer agree
  with the tree.
\<close>

theorem unmap_leaves_viewable:
  assumes "i \<noteq> ROOT_WINDOW" and "c \<noteq> i" and "c \<noteq> ROOT_WINDOW"
    and "parent_of t c = Some i" and "viewable t c"
  shows "\<not> mapped (fst (unmap_window i t)) i \<and> viewable (fst (unmap_window i t)) c \<and>
    parent_of (fst (unmap_window i t)) c = Some i \<and> \<not> view_inv (fst (unmap_window i t))"
proof -
  let ?t = "fst (unmap_window i t)"
  have v: "\<not> mapped ?t i" "viewable ?t c"
    using assms by (simp_all add: set_state_states)
  have p: "parent_of ?t c = Some i"
    using assms(2,4) by (auto simp: unmap_window_def split: option.splits)
  have "\<not> viewable ?t i" using v(1) viewable_mapped by blast
  then have "\<not> view_ok ?t c" using view_okD [OF _ p] v(2) viewable_mapped by blast
  then show ?thesis using v p assms(3) by (auto simp: view_inv_def)
qed

definition mapped_pair :: ResourceTable where
  "mapped_pair = set_state 0x100002 Viewable (set_state 0x100001 Viewable tree3)"

lemma mapped_pair_window: "window mapped_pair k =
    (if k = 0x100003 then Some (tree_window 0x100003 ROOT_WINDOW [])
     else if k = 0x100002
     then Some ((tree_window 0x100002 0x100001 [])\<lparr>win_map_state := Viewable\<rparr>)
     else if k = 0x100001
     then Some ((tree_window 0x100001 ROOT_WINDOW [0x100002])\<lparr>win_map_state := Viewable\<rparr>)
     else if k = ROOT_WINDOW then Some (root_window\<lparr>win_children := [0x100001, 0x100003]\<rparr>)
     else None)"
  by (simp add: mapped_pair_def tree3_window)

lemma promote_Nil [simp]: "promote_loop t [] = Some t"
  by (subst promote_loop.simps) simp

lemma reachable_mapped_pair: "windows_reachable mapped_pair"
proof -
  let ?t = "set_state 0x100001 Viewable tree3"
  have "map_window 0x100001 tree3 = Some (?t, True)"
    by (simp add: map_window_def promote_unviewable_descendants_def parent_of_def children_def
        tree3_window tree_window_def window_placeholder_def root_window_def ROOT_WINDOW_def Let_def)
      (subst promote_loop.simps, simp add: tree3_window tree_window_def window_placeholder_def)
  then have r: "windows_reachable ?t"
    using windows_reachable.step [OF reachable3] window_step.map by blast
  have "map_window 0x100002 ?t = Some (mapped_pair, True)"
    by (simp add: map_window_def promote_unviewable_descendants_def parent_of_def children_def
        tree3_window tree_window_def window_placeholder_def mapped_pair_def ROOT_WINDOW_def Let_def)
  then show ?thesis
    using windows_reachable.step [OF r] window_step.map by blast
qed

theorem unmap_leaves_viewable_witness:
  "windows_reachable mapped_pair \<and> viewable (fst (unmap_window 0x100001 mapped_pair)) 0x100002 \<and>
     \<not> view_inv (fst (unmap_window 0x100001 mapped_pair))"
proof -
  have "parent_of mapped_pair 0x100002 = Some 0x100001" "viewable mapped_pair 0x100002"
    by (simp_all add: parent_of_def viewable_def mapped_pair_window tree_window_def)
  then show ?thesis
    using unmap_leaves_viewable [of "0x100001" "0x100002" mapped_pair] reachable_mapped_pair
    by (simp add: ROOT_WINDOW_def)
qed

section \<open>Stacking\<close>

text \<open>The children a circulation moves, and those it leaves alone: below the root, the overlay.\<close>

definition pinned_children :: "ResourceTable \<Rightarrow> ResourceId \<Rightarrow> ResourceId list" where
  "pinned_children t c =
     (if c = ROOT_WINDOW \<and> COMPOSITE_OVERLAY_WINDOW \<in> set (children t c)
      then [COMPOSITE_OVERLAY_WINDOW] else [])"

lemma pinned_top_index:
  assumes "cow_last xs" and "xs = movable @ pinned"
    and "pinned = (if COMPOSITE_OVERLAY_WINDOW \<in> set xs then [COMPOSITE_OVERLAY_WINDOW] else [])"
  shows "top_index xs = length movable"
proof (cases "COMPOSITE_OVERLAY_WINDOW \<in> set xs")
  case False
  then have "\<not> (xs \<noteq> [] \<and> last xs = COMPOSITE_OVERLAY_WINDOW)" using last_in_set by metis
  then have "top_index xs = length xs" "pinned = []"
    using False assms(3) by (auto simp: top_index_def)
  then show ?thesis using assms(2) by simp
next
  case True
  then have "last xs = COMPOSITE_OVERLAY_WINDOW" "xs \<noteq> []" "pinned = [COMPOSITE_OVERLAY_WINDOW]"
    using assms(1,3) by (auto simp: cow_last_def)
  then show ?thesis using assms(2) by (simp add: top_index_def)
qed

lemma rotate_down:
  "xs = ys @ pinned \<Longrightarrow> 2 \<le> length ys \<Longrightarrow>
    vec_insert 0 (xs ! (length ys - 1)) (vec_remove (length ys - 1) xs) = last ys # butlast ys @ pinned \<and>
    xs ! (length ys - 1) = last ys"
  by (cases ys rule: rev_cases) (simp_all add: vec_insert_def vec_remove_def nth_append)

lemma rotate_up:
  "xs = ys @ pinned \<Longrightarrow> 2 \<le> length ys \<Longrightarrow>
    vec_insert (length ys - 1) (xs ! 0) (vec_remove 0 xs) = tl ys @ hd ys # pinned \<and> xs ! 0 = hd ys"
  by (cases ys) (simp_all add: vec_insert_def vec_remove_def)

text \<open>
  CirculateWindow with at least two children to move: direction 0 (RaiseLowest) takes the
  topmost child to the bottom and direction 1 (LowerHighest) takes the lowest child to the top, the
  opposite of what the protocol's names say, as children are listed bottom to top; the order of
  the others is kept, the overlay window stays on top, and no other list of children changes.
\<close>

theorem circulate_rotates:
  assumes "windows_reachable t" and "children t c = movable @ pinned_children t c"
    and "2 \<le> length movable"
  shows "children (fst (circulate_window c 0 t)) c =
      last movable # butlast movable @ pinned_children t c \<and>
    snd (circulate_window c 0 t) = Some (last movable) \<and>
    children (fst (circulate_window c 1 t)) c = tl movable @ hd movable # pinned_children t c \<and>
    snd (circulate_window c 1 t) = Some (hd movable) \<and>
    (\<forall>d k. k \<noteq> c \<longrightarrow> children (fst (circulate_window c d t)) k = children t k)"
proof -
  have top: "cow_top t" using reachable_table_inv [OF assms(1)] by (simp add: table_inv_def)
  obtain p where p: "window t c = Some p"
    using assms(2,3) by (cases "window t c") (auto simp: children_def)
  have kids: "win_children p = movable @ pinned_children t c"
    using assms(2) p by (simp add: children_def)
  have t: "(if c = ROOT_WINDOW then cow_aware_top_index p else length (win_children p)) =
      length movable"
  proof (cases "c = ROOT_WINDOW")
    case True
    have "top_index (win_children p) = length movable"
    proof (rule pinned_top_index [OF _ kids])
      show "cow_last (win_children p)" using top p True by (simp add: children_def)
    qed (use True p in \<open>simp add: pinned_children_def children_def\<close>)
    then show ?thesis using True by (simp add: cow_aware_top_index_eq)
  qed (use kids in \<open>simp add: pinned_children_def\<close>)
  note rot = rotate_down [OF kids assms(3)] rotate_up [OF kids assms(3)]
  have "children (fst (circulate_window c d t)) k = children t k" if "k \<noteq> c" for d k
    using that p by (auto simp: circulate_window_def Let_def children_insert_window)
  moreover have "circulate_window c 0 t = (insert_window c (p\<lparr>win_children :=
      last movable # butlast movable @ pinned_children t c\<rparr>) t, Some (last movable))"
    unfolding rot(1) [THEN conjunct1, symmetric] unfolding rot(1) [THEN conjunct2, symmetric]
    using assms(3) by (simp add: circulate_window_def Let_def p t)
  moreover have "circulate_window c 1 t = (insert_window c (p\<lparr>win_children :=
      tl movable @ hd movable # pinned_children t c\<rparr>) t, Some (hd movable))"
    unfolding rot(2) [THEN conjunct1, symmetric] unfolding rot(2) [THEN conjunct2, symmetric]
    using assms(3) by (simp add: circulate_window_def Let_def p t)
  ultimately show ?thesis by (simp add: children_insert_window)
qed

theorem circulate_rotates_witness:
  "children tree3 ROOT_WINDOW = [0x100001, 0x100003] \<and>
     children (fst (circulate_window ROOT_WINDOW 0 tree3)) ROOT_WINDOW = [0x100003, 0x100001]"
proof -
  have kids: "children tree3 ROOT_WINDOW = [0x100001, 0x100003]"
    by (simp add: children_def tree3_window ROOT_WINDOW_def)
  have pinned: "pinned_children tree3 ROOT_WINDOW = []"
    by (simp add: pinned_children_def kids COMPOSITE_OVERLAY_WINDOW_def)
  have "children tree3 ROOT_WINDOW = [0x100001, 0x100003] @ pinned_children tree3 ROOT_WINDOW"
    by (simp add: kids pinned)
  from circulate_rotates [OF reachable3 this, THEN conjunct1] show ?thesis
    by (simp add: kids pinned)
qed

text \<open>The places a restacked window may take, by the action that was resolved.\<close>

abbreviation on_top :: "ResourceId list \<Rightarrow> bool" where
  "on_top up \<equiv> up = [] \<or> up = [COMPOSITE_OVERLAY_WINDOW]"

fun stacked :: "RestackAction \<Rightarrow> ResourceId list \<Rightarrow> ResourceId list \<Rightarrow> bool" where
  "stacked NoOp lo up = True"
| "stacked Top lo up = on_top up"
| "stacked Bottom lo up = (lo = [])"
| "stacked (AboveSibling s) lo up =
     (if s = COMPOSITE_OVERLAY_WINDOW then on_top up else lo \<noteq> [] \<and> last lo = s)"
| "stacked (BelowSibling s) lo up = (up \<noteq> [] \<and> hd up = s)"

lemma drop_top_index: "on_top (drop (top_index xs) xs)"
  by (cases xs rule: rev_cases) (simp_all add: top_index_def)

lemma filter_out: "x \<notin> set ys \<Longrightarrow> x \<notin> set zs \<Longrightarrow> filter (\<lambda>c. c \<noteq> x) (ys @ x # zs) = ys @ zs"
proof -
  assume "x \<notin> set ys" "x \<notin> set zs"
  then have "filter (\<lambda>c. c \<noteq> x) ys = ys" "filter (\<lambda>c. c \<noteq> x) zs = zs"
    by (auto intro: filter_True)
  then show ?thesis by simp
qed

lemma vec_remove_filter:
  assumes "distinct xs" and "k < length xs"
  shows "vec_remove k xs = filter (\<lambda>c. c \<noteq> xs ! k) xs"
proof -
  have split: "xs = take k xs @ xs ! k # drop (Suc k) xs" using assms(2) by (rule vec_remove_split)
  then have "distinct (take k xs @ xs ! k # drop (Suc k) xs)" using assms(1) by metis
  then have "xs ! k \<notin> set (take k xs)" "xs ! k \<notin> set (drop (Suc k) xs)" by auto
  from filter_out [OF this] split show ?thesis unfolding vec_remove_def by metis
qed

lemma apply_restack_stacked:
  assumes d: "distinct (win_children p)" and pos: "position (\<lambda>c. c = i) (win_children p) = Some index"
    and ab: "\<And>s. a = AboveSibling s \<Longrightarrow> s \<in> set (win_children p) \<and> s \<noteq> i"
    and be: "\<And>s. a = BelowSibling s \<Longrightarrow> s \<in> set (win_children p) \<and> s \<noteq> i"
  shows "\<exists>xs ys. filter (\<lambda>c. c \<noteq> i) (win_children p) = xs @ ys \<and>
    win_children (apply_restack a index i p) = xs @ i # ys \<and> stacked a xs ys \<and>
    (a = NoOp \<longrightarrow> xs @ i # ys = win_children p)"
proof -
  have ix: "index < length (win_children p)" "win_children p ! index = i"
    using position_Some [OF pos] by simp_all
  define others where "others = filter (\<lambda>c. c \<noteq> i) (win_children p)"
  have rem: "vec_remove index (win_children p) = others"
    using vec_remove_filter [OF d ix(1)] ix(2) by (simp add: others_def)
  have place: ?thesis if "stacked a (take k others) (drop k others)" "a \<noteq> NoOp"
      "win_children (apply_restack a index i p) = vec_insert k i others" for k
    unfolding others_def [symmetric]
    by (rule exI [of _ "take k others"], rule exI [of _ "drop k others"])
      (use that in \<open>simp add: vec_insert_def\<close>)
  have nth: "\<exists>k. position (\<lambda>c. c = s) others = Some k \<and> k < length others \<and> others ! k = s"
    if "s \<in> set (win_children p)" "s \<noteq> i" for s
  proof -
    have "s \<in> set others" using that by (simp add: others_def)
    then obtain k where k: "position (\<lambda>c. c = s) others = Some k" using position_eq_Some by metis
    then show ?thesis using position_Some [OF k] by blast
  qed
  show ?thesis
  proof (cases a)
    case NoOp
    have "others = take index (win_children p) @ drop (Suc index) (win_children p)"
      using rem by (simp add: vec_remove_def)
    moreover have "win_children p = take index (win_children p) @ i # drop (Suc index) (win_children p)"
      using vec_remove_split [OF ix(1)] ix(2) by simp
    ultimately show ?thesis
      unfolding others_def [symmetric]
      by (intro exI [of _ "take index (win_children p)"] exI [of _ "drop (Suc index) (win_children p)"])
        (simp add: NoOp apply_restack_def)
  next
    case Top
    show ?thesis
      by (rule place [of "top_index others"])
        (use drop_top_index [of others] in
          \<open>simp_all add: Top apply_restack_def Let_def rem cow_aware_top_index_eq\<close>)
  next
    case Bottom
    show ?thesis
      by (rule place [of 0]) (simp_all add: Bottom apply_restack_def Let_def rem)
  next
    case (AboveSibling s)
    show ?thesis
    proof (cases "s = COMPOSITE_OVERLAY_WINDOW")
      case True
      show ?thesis
        by (rule place [of "top_index others"])
          (use drop_top_index [of others] True in
            \<open>simp_all add: AboveSibling apply_restack_def Let_def rem cow_aware_top_index_eq\<close>)
    next
      case False
      obtain k where k: "position (\<lambda>c. c = s) others = Some k" "k < length others" "others ! k = s"
        using nth ab [OF AboveSibling] by blast
      have "last (take (Suc k) others) = s" "take (Suc k) others \<noteq> []"
        using k(2,3) by (auto simp: take_Suc_conv_app_nth)
      then show ?thesis
        by (intro place [of "Suc k"])
          (simp_all add: AboveSibling apply_restack_def Let_def rem False k(1))
    qed
  next
    case (BelowSibling s)
    obtain k where k: "position (\<lambda>c. c = s) others = Some k" "k < length others" "others ! k = s"
      using nth be [OF BelowSibling] by blast
    then have "drop k others \<noteq> [] \<and> hd (drop k others) = s" by (simp add: hd_drop_conv_nth)
    then show ?thesis
      by (intro place [of k]) (simp_all add: BelowSibling apply_restack_def Let_def rem k(1))
  qed
qed

lemma stack_modes:
  fixes m :: u8
  assumes "m \<le> 4"
  shows "m = 0 \<or> m = 1 \<or> m = 2 \<or> m = 3 \<or> m = 4"
proof -
  have word_of_nat_unat: "m = word_of_nat (unat m)" by simp
  have "unat m \<le> 4" using assms by (simp add: word_le_nat_alt)
  then have "unat m = 0 \<or> unat m = 1 \<or> unat m = 2 \<or> unat m = 3 \<or> unat m = 4" by linarith
  then have "m = word_of_nat 0 \<or> m = word_of_nat 1 \<or> m = word_of_nat 2 \<or> m = word_of_nat 3 \<or>
      m = word_of_nat 4"
    by (elim disjE) (metis word_of_nat_unat)+
  then show ?thesis by simp
qed

lemma resolve_action:
  assumes "window t p = Some w" and "position (\<lambda>c. c = i) (win_children w) = Some index"
    and "\<And>s. sib = Some s \<Longrightarrow> s \<in> set (win_children w)" and "m \<le> 4"
  shows "\<exists>a. resolve_restack_action t i p sib m = Some a \<and>
    (m = 0 \<longrightarrow> a = (case sib of Some s \<Rightarrow> AboveSibling s | None \<Rightarrow> Top)) \<and>
    (m = 1 \<longrightarrow> a = (case sib of Some s \<Rightarrow> BelowSibling s | None \<Rightarrow> Bottom)) \<and>
    (1 < m \<longrightarrow> a \<in> {NoOp, Top, Bottom}) \<and> (m = 2 \<longrightarrow> a \<noteq> Bottom) \<and> (m = 3 \<longrightarrow> a \<noteq> Top)"
proof -
  have "m = 0 \<or> m = 1 \<or> m = 2 \<or> m = 3 \<or> m = 4" using assms(4) by (rule stack_modes)
  moreover have "\<not> (case sib of Some s \<Rightarrow> s \<notin> set (win_children w) | None \<Rightarrow> False)"
    using assms(3) by (auto split: option.splits)
  ultimately show ?thesis
    using assms(1,2) by (elim disjE) (simp_all add: resolve_restack_action_def)
qed

lemma restack_stacked:
  assumes inv: "tree_inv t" and p: "parent_of t i = Some p" and i: "i \<noteq> ROOT_WINDOW"
    and sib: "\<And>s. sib = Some s \<Longrightarrow> s \<in> set (children t p) \<and> s \<noteq> i" and m: "m \<le> 4"
  shows "\<exists>a xs ys. filter (\<lambda>c. c \<noteq> i) (children t p) = xs @ ys \<and>
    children (restack_window i sib (Some m) t) p = xs @ i # ys \<and>
    stacked a xs ys \<and> (a = NoOp \<longrightarrow> xs @ i # ys = children t p) \<and>
    (m = 0 \<longrightarrow> a = (case sib of Some s \<Rightarrow> AboveSibling s | None \<Rightarrow> Top)) \<and>
    (m = 1 \<longrightarrow> a = (case sib of Some s \<Rightarrow> BelowSibling s | None \<Rightarrow> Bottom)) \<and>
    (1 < m \<longrightarrow> a \<in> {NoOp, Top, Bottom}) \<and> (m = 2 \<longrightarrow> a \<noteq> Bottom) \<and> (m = 3 \<longrightarrow> a \<noteq> Top)"
proof -
  have ip: "i \<in> set (children t p)" using tree_children_iff [OF inv] p i by simp
  then obtain w where w: "window t p = Some w" and kids: "children t p = win_children w"
    by (cases "window t p") (auto simp: children_def)
  obtain index where pos: "position (\<lambda>c. c = i) (win_children w) = Some index"
    using position_eq_Some ip kids by metis
  obtain a where a: "resolve_restack_action t i p sib m = Some a"
    and act: "(m = 0 \<longrightarrow> a = (case sib of Some s \<Rightarrow> AboveSibling s | None \<Rightarrow> Top)) \<and>
    (m = 1 \<longrightarrow> a = (case sib of Some s \<Rightarrow> BelowSibling s | None \<Rightarrow> Bottom)) \<and>
    (1 < m \<longrightarrow> a \<in> {NoOp, Top, Bottom}) \<and> (m = 2 \<longrightarrow> a \<noteq> Bottom) \<and> (m = 3 \<longrightarrow> a \<noteq> Top)"
    using resolve_action [OF w pos, of sib, OF _ m] sib kids by metis
  have s: "a = AboveSibling s \<Longrightarrow> s \<in> set (win_children w) \<and> s \<noteq> i"
    "a = BelowSibling s \<Longrightarrow> s \<in> set (win_children w) \<and> s \<noteq> i" for s
    using resolve_sibling [OF a w, of s] sib kids by auto
  obtain xs ys where r: "filter (\<lambda>c. c \<noteq> i) (win_children w) = xs @ ys"
    "win_children (apply_restack a index i w) = xs @ i # ys" "stacked a xs ys"
    "a = NoOp \<longrightarrow> xs @ i # ys = win_children w"
    using apply_restack_stacked [OF tree_distinct [OF inv w] pos s] by blast
  have "children (restack_window i sib (Some m) t) p = xs @ i # ys"
    using p a w pos r(2) by (simp add: restack_window_def children_insert_window)
  then show ?thesis using r(1,3,4) act kids by metis
qed


definition raise_tree3 :: ConfigureWindowRequest where
  "raise_tree3 = \<lparr>cfg_window = 0x100001, cfg_value_mask = 0x40, cfg_x = None, cfg_y = None,
     cfg_width = None, cfg_height = None, cfg_border_width = None, cfg_sibling = None,
     cfg_stack_mode = Some 0\<rparr>"


section \<open>Two requests that break the picture\<close>

text \<open>
  The final ReleaseOverlayWindow removes the overlay window and nothing below it: its
  children stay in the table and name a parent that no longer exists, so the table is no longer a
  tree.
\<close>

theorem destroy_cow_orphans_children:
  assumes "windows_reachable t" and "c \<in> set (children t COMPOSITE_OVERLAY_WINDOW)"
  shows "window (destroy_cow_resource t) COMPOSITE_OVERLAY_WINDOW = None \<and>
    parent_of (destroy_cow_resource t) c = Some COMPOSITE_OVERLAY_WINDOW \<and>
    \<not> tree_inv (destroy_cow_resource t)"
proof -
  let ?t = "destroy_cow_resource t"
  have inv: "tree_inv t" using reachable_tree [OF assms(1)] .
  have c: "c \<noteq> ROOT_WINDOW" "parent_of t c = Some COMPOSITE_OVERLAY_WINDOW"
    using assms(2) tree_children_iff [OF inv] by simp_all
  moreover have "window t COMPOSITE_OVERLAY_WINDOW \<noteq> None"
    using assms(2) by (cases "window t COMPOSITE_OVERLAY_WINDOW") (simp_all add: children_def)
  ultimately have "c \<noteq> COMPOSITE_OVERLAY_WINDOW"
    using c wf.parent_neq [OF inv, of COMPOSITE_OVERLAY_WINDOW] by (auto simp: window_ids_iff)
  then have p: "parent_of ?t c = Some COMPOSITE_OVERLAY_WINDOW"
    using c by (simp add: parent_of_def destroy_cow_window)
  have gone: "window ?t COMPOSITE_OVERLAY_WINDOW = None" by (simp add: destroy_cow_window)
  then have "\<not> tree_inv ?t" using absent_no_links(1) [of ?t] p by blast
  then show ?thesis using gone p by blast
qed

definition cow_tree :: ResourceTable where
  "cow_tree = create_window 1 (plain_window 0x100001 COMPOSITE_OVERLAY_WINDOW)
     (materialize_cow_resource 7 default_table)"

lemma cow_start: "window (materialize_cow_resource 7 default_table) k =
    (if k = ROOT_WINDOW then Some (root_window\<lparr>win_children := [COMPOSITE_OVERLAY_WINDOW]\<rparr>)
     else if k = COMPOSITE_OVERLAY_WINDOW
     then Some ((window_placeholder COMPOSITE_OVERLAY_WINDOW)\<lparr>win_width := 800, win_height := 600,
       win_map_state := Viewable, win_override_redirect := True, win_host_xid := Some 7\<rparr>)
     else None)"
  by (simp add: materialize_cow_resource_def Let_def window_default cow_aware_top_index_def
      vec_insert_def)
    (simp add: root_window_def window_placeholder_def ROOT_WINDOW_def)

lemma cow_children: "0x100001 \<in> set (children cow_tree COMPOSITE_OVERLAY_WINDOW)"
  by (simp add: cow_tree_def children_def create_window_def Let_def cow_start
      COMPOSITE_OVERLAY_WINDOW_def)

lemma reachable_cow_tree: "windows_reachable cow_tree"
proof -
  let ?t = "materialize_cow_resource 7 default_table"
  have "windows_reachable ?t"
    by (rule windows_reachable.step [OF windows_reachable.start window_step.get_overlay])
      (simp add: window_default)
  moreover have "create_window_check (base_of 1) PER_CLIENT_MASK
      (plain_window 0x100001 COMPOSITE_OVERLAY_WINDOW) ?t = Proceed"
  proof (rule plain_check)
    show "window ?t COMPOSITE_OVERLAY_WINDOW =
        Some (the (window ?t COMPOSITE_OVERLAY_WINDOW))" by (simp add: cow_start)
    show "win_class (the (window ?t COMPOSITE_OVERLAY_WINDOW)) = InputOutput"
      by (simp add: cow_start window_placeholder_def)
    show "validate_owned 0x100001 (base_of 1) PER_CLIENT_MASK" by (rule owned_ids)
    have "rt_pixmaps ?t = []" "rt_gcs ?t = []" "rt_fonts ?t = []" "rt_cursors ?t = []"
      by (simp_all add: materialize_cow_resource_def Let_def modify_window_def insert_window_def
          default_tables)
    then show "\<not> any_resource_exists ?t 0x100001"
      by (simp add: exists_window cow_start ROOT_WINDOW_def COMPOSITE_OVERLAY_WINDOW_def)
  qed
  ultimately show ?thesis
    unfolding cow_tree_def
    using windows_reachable.step window_step.create [of 1] by simp
qed

theorem destroy_cow_orphans_children_witness:
  "windows_reachable cow_tree \<and>
     parent_of (destroy_cow_resource cow_tree) 0x100001 = Some COMPOSITE_OVERLAY_WINDOW \<and>
     \<not> tree_inv (destroy_cow_resource cow_tree)"
  using destroy_cow_orphans_children [OF reachable_cow_tree cow_children] reachable_cow_tree by blast

definition table_with_colormap :: ResourceTable where
  "table_with_colormap = default_table\<lparr>rt_colormaps := hm_insert 0x100001
     \<lparr>cm_id = 0x100001, cm_visual = ROOT_VISUAL, cm_host_colormap_xid = None, cm_owner = 1\<rparr>
     (rt_colormaps default_table)\<rparr>"

text \<open>
  The test for an unused id in \<open>handle_create_window\<close> looks at five of the eight tables: a
  client may create a window under the id of a colormap that it owns, and then both exist.
\<close>

lemma create_window_takes_colormap_id:
  "let r = plain_window 0x100001 ROOT_WINDOW; t = table_with_colormap in
    xid_in_use t 0x100001 \<and> create_window_check (base_of 1) PER_CLIENT_MASK r t = Proceed \<and>
    colormap (create_window 1 r t) 0x100001 \<noteq> None \<and> window (create_window 1 r t) 0x100001 \<noteq> None"
proof -
  have w: "window table_with_colormap k = window default_table k" for k
    by (simp add: window_def table_with_colormap_def)
  have none: "rt_pixmaps table_with_colormap = []" "rt_gcs table_with_colormap = []"
    "rt_fonts table_with_colormap = []" "rt_cursors table_with_colormap = []"
    by (simp_all add: table_with_colormap_def default_tables)
  have c: "colormap table_with_colormap 0x100001 \<noteq> None"
    by (simp add: colormap_def table_with_colormap_def)
  have "create_window_check (base_of 1) PER_CLIENT_MASK (plain_window 0x100001 ROOT_WINDOW)
      table_with_colormap = Proceed"
    using owned_ids(1)
    by (intro plain_check [where w = root_window])
      (simp_all add: w window_default exists_window none root_window_def ROOT_WINDOW_def)
  moreover have "xid_in_use table_with_colormap 0x100001"
    by (simp add: xid_in_use_def table_with_colormap_def)
  moreover have "colormap (create_window 1 (plain_window 0x100001 ROOT_WINDOW) table_with_colormap)
      0x100001 \<noteq> None"
    using c by (simp add: colormap_def)
  ultimately show ?thesis
    by (simp add: create_window_def Let_def ROOT_WINDOW_def)
qed

end
