(* ===== verification/CrossingClaims.thy ===== *)
theory CrossingClaims
  imports Crossings WindowClaims
begin

text \<open>
  In a reachable window tree at most 256 levels deep, the crossing events are those of the X
  protocol; and a change of focus between two windows sends the same sequence as a crossing does.
\<close>

section \<open>The chain of a window is its list of ancestors\<close>

text \<open>A list of windows linked by their parents that ends at the root.\<close>

fun is_chain :: "ResourceTable \<Rightarrow> ResourceId list \<Rightarrow> bool" where
  "is_chain t [] = False"
| "is_chain t [x] = (x = ROOT_WINDOW)"
| "is_chain t (x # y # cs) = (x \<noteq> ROOT_WINDOW \<and> parent_of t x = Some y \<and> is_chain t (y # cs))"

lemma is_chain_suffix: "is_chain t (pre @ s # rest) \<Longrightarrow> is_chain t (s # rest)"
proof (induction pre)
  case (Cons x pre)
  then show ?case by (cases pre) auto
qed simp

lemma is_chain_set: "is_chain t (x # xs) \<Longrightarrow> set (x # xs) = {a. descends t a x}"
proof (induction xs arbitrary: x)
  case Nil
  then show ?case by (auto simp: below_root)
next
  case (Cons y ys)
  have "{a. descends t a x} = insert x {a. descends t a y}"
    using Cons.prems by (auto intro: below.intros elim: belowE)
  then show ?case using Cons.IH [of y] Cons.prems by simp
qed

lemma is_chain_distinct: "tree_inv t \<Longrightarrow> is_chain t cs \<Longrightarrow> distinct cs"
proof (induction cs rule: is_chain.induct)
  case (3 t x y cs)
  have "x \<in> window_ids t" using 3(3) by (auto simp: window_ids_iff parent_of_def)
  then have "x \<notin> set (y # cs)"
    using is_chain_set [of t y cs] wf.not_below_own_parent [OF 3(2), of x y] 3(3) by auto
  then show ?case using 3 by simp
qed simp_all

lemma chain_loop_is_chain:
  assumes inv: "tree_inv t"
  shows "root_dist (parent_of t) ROOT_WINDOW x n \<Longrightarrow> n \<le> fuel \<Longrightarrow> is_chain t (x # chain_loop t x fuel)"
proof (induction arbitrary: fuel rule: root_dist.induct)
  case zero
  obtain r where "window t ROOT_WINDOW = Some r" "win_parent r = ROOT_WINDOW"
    using tree_root [OF inv] by (auto simp: parent_of_def)
  then have "chain_loop t ROOT_WINDOW fuel = []" by (cases fuel) simp_all
  then show ?case by simp
next
  case (step x p n)
  obtain f where f: "fuel = Suc f" "n \<le> f" using step.prems by (cases fuel) auto
  have node: "x \<in> window_ids t" using step.hyps(2) by (auto simp: window_ids_iff parent_of_def)
  have px: "p \<noteq> x" using wf.parent_neq [OF inv node step.hyps(1)] step.hyps(2) by auto
  obtain w where w: "window t x = Some w" "win_parent w = p"
    using step.hyps(2) by (auto simp: parent_of_def)
  then show ?case using px f(1) step.hyps(1,2) step.IH [OF f(2)] by simp
qed

text \<open>A window at most 256 levels below the root.\<close>

definition shallow :: "ResourceTable \<Rightarrow> ResourceId \<Rightarrow> bool" where
  "shallow t x \<longleftrightarrow> (\<exists>n \<le> 256. root_dist (parent_of t) ROOT_WINDOW x n)"

lemma chain_is_chain: "tree_inv t \<Longrightarrow> shallow t x \<Longrightarrow> is_chain t (ancestor_chain t x)"
  unfolding shallow_def ancestor_chain_def by (auto intro: chain_loop_is_chain)

lemma chain_hd: obtains xs where "ancestor_chain t x = x # xs"
  by (simp add: ancestor_chain_def)

lemma chain_set: "tree_inv t \<Longrightarrow> shallow t x \<Longrightarrow> set (ancestor_chain t x) = {a. descends t a x}"
  using chain_is_chain [of t x] is_chain_set [of t x] by (metis chain_hd)

lemma chain_tl:
  assumes "tree_inv t" and "shallow t x"
  shows "a \<in> set (tl (ancestor_chain t x)) \<longleftrightarrow> a \<noteq> x \<and> descends t a x"
proof -
  obtain xs where xs: "ancestor_chain t x = x # xs" by (rule chain_hd)
  then have "distinct (x # xs)" "set (x # xs) = {a. descends t a x}"
    using is_chain_distinct [OF assms(1) chain_is_chain [OF assms]] chain_set [OF assms] by simp_all
  then show ?thesis using xs by auto
qed

section \<open>The part of a chain below a stop\<close>

lemma virtual_steps_split:
  "s \<notin> set (x # pre) \<Longrightarrow> virtual_steps (Some s) (x # pre @ s # rest) = zip (x # pre) pre"
proof (induction pre arbitrary: x)
  case Nil
  then show ?case by (simp add: virtual_steps_def)
next
  case (Cons y pre)
  have "virtual_steps (Some s) (y # pre @ s # rest) = zip (y # pre) pre"
    using Cons by simp
  then show ?case using Cons.prems by (auto simp: virtual_steps_def)
qed

text \<open>Below a proper ancestor \<open>s\<close> of \<open>x\<close>, the chain lists the ancestors of \<open>x\<close> that are not ancestors
  of \<open>s\<close>, each below the next.\<close>

lemma chain_below:
  assumes inv: "tree_inv t" and "shallow t x" and "s \<noteq> x" and "descends t s x"
  obtains pre rest where "ancestor_chain t x = x # pre @ s # rest"
    "virtual_steps (Some s) (ancestor_chain t x) = zip (x # pre) pre"
    "distinct (x # pre)" "set (x # pre) = {w. descends t w x \<and> \<not> descends t w s}"
    "is_chain t (x # pre @ s # rest)"
proof -
  obtain xs where xs: "ancestor_chain t x = x # xs" by (rule chain_hd)
  have "s \<in> set xs" using chain_tl [OF assms(1,2), of s] assms(3,4) xs by simp
  then obtain pre rest where split: "xs = pre @ s # rest" "s \<notin> set pre"
    by (meson split_list_first)
  have c: "is_chain t (x # pre @ s # rest)"
    using chain_is_chain [OF assms(1,2)] xs split(1) by simp
  then have d: "distinct (x # pre @ s # rest)" using is_chain_distinct [OF inv] by blast
  have "set (s # rest) = {a. descends t a s}"
    using is_chain_set is_chain_suffix [of t "x # pre" s rest] c by simp
  moreover have "set (x # pre @ s # rest) = {a. descends t a x}" using is_chain_set [OF c] .
  ultimately have "set (x # pre) = {w. descends t w x \<and> \<not> descends t w s}"
    using d by auto
  moreover have "virtual_steps (Some s) (ancestor_chain t x) = zip (x # pre) pre"
    using virtual_steps_split [of s x pre rest] split assms(3) xs by simp
  ultimately show thesis using that [of pre rest] xs split(1) d c by simp
qed

lemma is_chain_sorted: "is_chain t cs \<Longrightarrow> sorted_wrt (\<lambda>a b. descends t b a) cs"
proof (induction cs rule: is_chain.induct)
  case (3 t x y cs)
  have "descends t b x" if "b \<in> set (y # cs)" for b
    using that is_chain_set [of t y cs] 3(2) by (auto intro: below.step)
  then show ?case using 3 by simp
qed simp_all

lemma chain_links:
  "is_chain t (x # pre @ rest) \<Longrightarrow> (c, w) \<in> set (zip (x # pre) pre) \<Longrightarrow>
    parent_of t c = Some w \<and> c \<in> set (x # pre)"
proof (induction pre arbitrary: x)
  case (Cons y pre)
  then show ?case by auto
qed simp

section \<open>The events of one side\<close>

definition spec_detail :: "ResourceTable \<Rightarrow> ResourceId \<Rightarrow> ResourceId \<Rightarrow> ResourceId \<Rightarrow> u8" where
  "spec_detail t mine other w =
     (if w = mine
      then (if descends t other mine then NOTIFY_ANCESTOR
            else if descends t mine other then NOTIFY_INFERIOR else NOTIFY_NONLINEAR)
      else (if descends t other mine \<or> descends t mine other then NOTIFY_VIRTUAL
            else NOTIFY_NONLINEAR_VIRTUAL))"

text \<open>Detail and child of an event on the side of \<open>mine\<close>.\<close>

definition event_ok :: "ResourceTable \<Rightarrow> ResourceId \<Rightarrow> ResourceId \<Rightarrow> CrossingEvent \<Rightarrow> bool" where
  "event_ok t mine other e \<longleftrightarrow> ce_detail e = spec_detail t mine other (ce_window e) \<and>
     (if ce_window e = mine then ce_child e = 0
      else parent_of t (ce_child e) = Some (ce_window e) \<and> descends t (ce_child e) mine)"

definition side_events :: "CrossingKind \<Rightarrow> u8 \<Rightarrow> u8 \<Rightarrow> ResourceId \<Rightarrow> ResourceId list \<Rightarrow> CrossingEvent list" where
  "side_events kind d dv x pre = endpoint kind d x # map (intermediate kind dv) (zip (x # pre) pre)"

lemma map_snd_zip_tl: "map snd (zip (x # pre) pre) = pre"
  by (rule map_snd_zip_take [THEN trans]) simp

lemma side_windows: "map ce_window (side_events kind d dv x pre) = x # pre"
  by (simp add: side_events_def endpoint_def intermediate_def comp_def map_snd_zip_tl)

lemma side_kind: "e \<in> set (side_events kind d dv x pre) \<Longrightarrow> ce_kind e = kind"
  by (auto simp: side_events_def endpoint_def intermediate_def)

lemma side_ok:
  assumes c: "is_chain t (x # pre @ rest)" and d: "distinct (x # pre)"
    and "d = spec_detail t x other x"
    and "\<And>w. w \<noteq> x \<Longrightarrow> w \<in> set pre \<Longrightarrow> dv = spec_detail t x other w"
    and e: "e \<in> set (side_events kind d dv x pre)"
  shows "event_ok t x other e"
proof (cases "e = endpoint kind d x")
  case True
  then show ?thesis using assms(3) by (simp add: event_ok_def endpoint_def)
next
  case False
  then obtain c w where p: "(c, w) \<in> set (zip (x # pre) pre)" "e = intermediate kind dv (c, w)"
    using e by (auto simp: side_events_def)
  have w: "w \<in> set pre" using p(1) by (rule set_zip_rightD)
  then have "w \<noteq> x" using d by auto
  moreover have "parent_of t c = Some w" "c \<in> set (x # pre)" using chain_links [OF assms(1) p(1)] by simp_all
  moreover have "descends t c x" using is_chain_set [OF assms(1)] \<open>c \<in> set (x # pre)\<close> by auto
  ultimately show ?thesis
    using assms(4) [OF _ w] p(2) by (simp add: event_ok_def intermediate_def)
qed

lemma side_sorted:
  assumes "is_chain t (x # pre @ rest)"
  shows "sorted_wrt (\<lambda>a b. descends t b a) (x # pre)"
  using is_chain_sorted [OF assms] by (simp add: sorted_wrt_append)

lemma rev_side: "map (intermediate k dv) (rev (zip (x # pre) pre)) @ [endpoint k d x] =
    rev (side_events k d dv x pre)"
  by (simp add: side_events_def rev_map)

lemma find_first: "List.find P (xs @ c # ys) = Some c \<Longrightarrow> c \<notin> set xs \<Longrightarrow> x \<in> set xs \<Longrightarrow> \<not> P x"
  by (induction xs) (auto split: if_splits)

text \<open>Both sides together; \<open>low\<close> are the windows below the point where the two chains meet.\<close>

definition crossing_spec :: "ResourceTable \<Rightarrow> ResourceId \<Rightarrow> ResourceId \<Rightarrow> CrossingEvent list \<Rightarrow> bool" where
  "crossing_spec t start dest evs \<longleftrightarrow>
     (\<exists>leaves enters. evs = leaves @ enters \<and>
        (\<forall>e \<in> set leaves. ce_kind e = Leave \<and> event_ok t start dest e) \<and>
        (\<forall>e \<in> set enters. ce_kind e = Enter \<and> event_ok t dest start e) \<and>
        distinct (map ce_window leaves) \<and> distinct (map ce_window enters) \<and>
        set (map ce_window leaves) = {start} \<union> {w. descends t w start \<and> \<not> descends t w dest} \<and>
        set (map ce_window enters) = {dest} \<union> {w. descends t w dest \<and> \<not> descends t w start} \<and>
        sorted_wrt (\<lambda>a b. descends t b a) (map ce_window leaves) \<and>
        sorted_wrt (\<lambda>a b. descends t a b) (map ce_window enters))"

lemma crossing_specI:
  assumes "is_chain t (start # up @ r1)" "distinct (start # up)"
    "is_chain t (dest # down @ r2)" "distinct (dest # down)"
    and d1: "d1 = spec_detail t start dest start" "\<And>w. w \<noteq> start \<Longrightarrow> w \<in> set up \<Longrightarrow> v1 = spec_detail t start dest w"
    and d2: "d2 = spec_detail t dest start dest" "\<And>w. w \<noteq> dest \<Longrightarrow> w \<in> set down \<Longrightarrow> v2 = spec_detail t dest start w"
    and s1: "set (start # up) = {start} \<union> {w. descends t w start \<and> \<not> descends t w dest}"
    and s2: "set (dest # down) = {dest} \<union> {w. descends t w dest \<and> \<not> descends t w start}"
  shows "crossing_spec t start dest
    (side_events Leave d1 v1 start up @ rev (side_events Enter d2 v2 dest down))"
  unfolding crossing_spec_def
proof (intro exI conjI)
  let ?l = "side_events Leave d1 v1 start up" and ?e = "rev (side_events Enter d2 v2 dest down)"
  show "?l @ ?e = ?l @ ?e" by (rule HOL.refl)
  show "\<forall>e \<in> set ?l. ce_kind e = Leave \<and> event_ok t start dest e"
    using side_kind side_ok [OF assms(1,2) d1] by blast
  show "\<forall>e \<in> set ?e. ce_kind e = Enter \<and> event_ok t dest start e"
    using side_kind side_ok [OF assms(3,4) d2] unfolding set_rev by blast
  show "distinct (map ce_window ?l)" "distinct (map ce_window ?e)"
    using assms(2,4) unfolding rev_map [symmetric] side_windows distinct_rev by blast+
  show "set (map ce_window ?l) = {start} \<union> {w. descends t w start \<and> \<not> descends t w dest}"
    unfolding side_windows by (rule s1)
  show "set (map ce_window ?e) = {dest} \<union> {w. descends t w dest \<and> \<not> descends t w start}"
    unfolding rev_map [symmetric] side_windows set_rev by (rule s2)
  show "sorted_wrt (\<lambda>a b. descends t b a) (map ce_window ?l)"
    unfolding side_windows by (rule side_sorted [OF assms(1)])
  show "sorted_wrt (\<lambda>a b. descends t a b) (map ce_window ?e)"
    unfolding rev_map [symmetric] side_windows sorted_wrt_rev by (rule side_sorted [OF assms(3)])
qed

text \<open>
  Claim C4. For a pointer that moves between two windows of a reachable tree, both at most 256 levels
  deep, the events are those of the protocol: first a LeaveNotify, from the inside out, to the
  window that is left and to each of its ancestors that does not hold the new one; then an
  EnterNotify, from the outside in, to each ancestor of the new window that did not hold the old
  one and to the new window; each once, with the detail that says how the two windows are related,
  and with the child through which an intermediate window was crossed.
\<close>

theorem crossings_exact:
  assumes "windows_reachable t" and "shallow t start" and "shallow t dest" and "start \<noteq> dest"
  shows "crossing_spec t start dest (compute_crossing_chain t start dest)"
proof -
  have inv: "tree_inv t" using reachable_tree [OF assms(1)] .
  have here: "window t x \<noteq> None" if sh: "shallow t x" for x
  proof -
    obtain n where "root_dist (parent_of t) ROOT_WINDOW x n" using sh by (auto simp: shallow_def)
    then have "parent_of t x \<noteq> None"
      by (cases rule: root_dist.cases) (use tree_root [OF inv] in simp_all)
    then show ?thesis by simp
  qed
  have anti: "\<not> (descends t start dest \<and> descends t dest start)"
    using tree_antisym [OF inv here [OF assms(3)], of start] assms(4) by blast
  note up = chain_tl [OF inv assms(2)] and down = chain_tl [OF inv assms(3)]
  note one = is_chain.simps
  have self: "is_chain t (x # [] @ tl (ancestor_chain t x))" if "shallow t x" for x
    using chain_is_chain [OF inv that] by (simp add: ancestor_chain_def)
  show ?thesis
  proof (cases "descends t dest start")
    case True
    obtain pre rest where "ancestor_chain t start = start # pre @ dest # rest"
      and p: "virtual_steps (Some dest) (ancestor_chain t start) = zip (start # pre) pre"
      "distinct (start # pre)" "set (start # pre) = {w. descends t w start \<and> \<not> descends t w dest}"
      "is_chain t (start # pre @ dest # rest)"
      by (rule chain_below [OF inv assms(2) assms(4) [symmetric] True])
    have "{w. descends t w dest \<and> \<not> descends t w start} = {}"
      using below_trans [OF True] by blast
    then have "crossing_spec t start dest (side_events Leave NOTIFY_ANCESTOR NOTIFY_VIRTUAL start pre @
        rev (side_events Enter NOTIFY_INFERIOR NOTIFY_VIRTUAL dest []))"
      using p(3) anti True assms(4)
      by (intro crossing_specI [OF p(4,2) self [OF assms(3)]]) (auto simp: spec_detail_def)
    then show ?thesis
      using assms(4) True p(1) up [of dest]
      by (simp add: compute_crossing_chain_def Let_def side_events_def)
  next
    case nd: False
    show ?thesis
    proof (cases "descends t start dest")
      case True
      obtain pre rest where "ancestor_chain t dest = dest # pre @ start # rest"
        and p: "virtual_steps (Some start) (ancestor_chain t dest) = zip (dest # pre) pre"
        "distinct (dest # pre)" "set (dest # pre) = {w. descends t w dest \<and> \<not> descends t w start}"
        "is_chain t (dest # pre @ start # rest)"
        by (rule chain_below [OF inv assms(3,4) True])
      have "{w. descends t w start \<and> \<not> descends t w dest} = {}"
        using below_trans [OF True] by blast
      then have "crossing_spec t start dest (side_events Leave NOTIFY_INFERIOR NOTIFY_VIRTUAL start [] @
          rev (side_events Enter NOTIFY_ANCESTOR NOTIFY_VIRTUAL dest pre))"
        using p(3) nd True assms(4)
        by (intro crossing_specI [OF self [OF assms(2)] _ p(4,2)]) (auto simp: spec_detail_def)
      then show ?thesis
        using assms(4) nd True p(1) up [of dest] down [of start]
        unfolding rev_side [symmetric]
        by (simp add: compute_crossing_chain_def Let_def side_events_def)
    next
      case ns: False
      have "ROOT_WINDOW \<in> set (ancestor_chain t start)" "ROOT_WINDOW \<in> set (ancestor_chain t dest)"
        using chain_set [OF inv] assms(2,3) tree_descends_root [OF inv here] by auto
      then obtain c where c: "lowest_common_ancestor (ancestor_chain t start) (ancestor_chain t dest) = Some c"
        unfolding lowest_common_ancestor_def by (metis find_None_iff not_None_eq)
      then have both: "descends t c start" "descends t c dest"
        using chain_set [OF inv assms(2)] chain_set [OF inv assms(3)]
        unfolding lowest_common_ancestor_def find_Some_iff by auto
      have neq: "c \<noteq> start" "c \<noteq> dest" using both nd ns by auto
      obtain pre rest where "ancestor_chain t start = start # pre @ c # rest"
        and p: "virtual_steps (Some c) (ancestor_chain t start) = zip (start # pre) pre"
        "distinct (start # pre)" "set (start # pre) = {w. descends t w start \<and> \<not> descends t w c}"
        "is_chain t (start # pre @ c # rest)"
        by (rule chain_below [OF inv assms(2) neq(1) both(1)])
      obtain pre' rest' where q: "ancestor_chain t dest = dest # pre' @ c # rest'"
        "virtual_steps (Some c) (ancestor_chain t dest) = zip (dest # pre') pre'"
        "distinct (dest # pre')" "set (dest # pre') = {w. descends t w dest \<and> \<not> descends t w c}"
        "is_chain t (dest # pre' @ c # rest')"
        by (rule chain_below [OF inv assms(3) neq(2) both(2)])
      have "c \<notin> set (dest # pre')" using is_chain_distinct [OF inv q(5)] by auto
      moreover have "List.find (\<lambda>w. w \<in> set (ancestor_chain t start)) ((dest # pre') @ c # rest') = Some c"
        using c unfolding lowest_common_ancestor_def q(1) append_Cons .
      ultimately have first: "w \<notin> set (ancestor_chain t start)" if "w \<in> set (dest # pre')" for w
        using find_first that by metis
      have meet: "descends t w c \<longleftrightarrow> descends t w start \<and> descends t w dest" for w
      proof
        assume w: "descends t w start \<and> descends t w dest"
        then have "w \<in> set (ancestor_chain t start)" using chain_set [OF inv assms(2)] by simp
        then have "w \<notin> set (dest # pre')" using first by blast
        then show "descends t w c" using q(4) w by blast
      qed (use below_trans [OF both(1), of w] below_trans [OF both(2), of w] in blast)
      have "crossing_spec t start dest
          (side_events Leave NOTIFY_NONLINEAR NOTIFY_NONLINEAR_VIRTUAL start pre @
           rev (side_events Enter NOTIFY_NONLINEAR NOTIFY_NONLINEAR_VIRTUAL dest pre'))"
      proof (rule crossing_specI [OF p(4,2) q(5,3)])
        show "set (start # pre) = {start} \<union> {w. descends t w start \<and> \<not> descends t w dest}"
          using p(3) meet ns by (auto intro: below.refl)
        show "set (dest # pre') = {dest} \<union> {w. descends t w dest \<and> \<not> descends t w start}"
          using q(4) meet nd by (auto intro: below.refl)
      qed (simp_all add: spec_detail_def nd ns)
      then show ?thesis
        using assms(4) nd ns p(1) q(2) c up [of dest] down [of start]
        unfolding rev_side [symmetric]
        by (simp add: compute_crossing_chain_def Let_def side_events_def)
    qed
  qed
qed

lemma tree3_shallow: "shallow tree3 0x100002" "shallow tree3 0x100003"
proof -
  have top: "root_dist (parent_of tree3) ROOT_WINDOW k 1" if "k = 0x100001 \<or> k = 0x100003" for k
    using that unfolding One_nat_def
    by (intro root_dist.step [OF _ _ root_dist.zero])
      (auto simp: ROOT_WINDOW_def parent_of_def tree3_window tree_window_def)
  have "root_dist (parent_of tree3) ROOT_WINDOW 0x100002 (Suc 1)"
    by (rule root_dist.step [OF _ _ top])
      (auto simp: ROOT_WINDOW_def parent_of_def tree3_window tree_window_def)
  then show "shallow tree3 0x100002" unfolding shallow_def by (intro exI [of _ "Suc 1"]) simp
  show "shallow tree3 0x100003" unfolding shallow_def using top by (intro exI [of _ 1]) simp
qed

theorem crossings_exact_witness:
  "crossing_spec tree3 0x100002 0x100003 (compute_crossing_chain tree3 0x100002 0x100003)"
  by (rule crossings_exact [OF reachable3 tree3_shallow]) simp

section \<open>Focus events\<close>

definition focus_of :: "CrossingEvent \<Rightarrow> FocusEvent" where
  "focus_of e = \<lparr>fe_window = ce_window e, fe_focus_in = (ce_kind e = Enter), fe_detail = ce_detail e\<rparr>"

lemma snd_virtual_steps: "map snd (virtual_steps stop cs) = chain_between stop cs"
proof -
  have "map snd (takeWhile (\<lambda>(c, w). Some w \<noteq> stop) (zip xs ys)) =
      takeWhile (\<lambda>w. Some w \<noteq> stop) ys" if "length ys \<le> length xs" for xs ys :: "ResourceId list"
    using that
  proof (induction ys arbitrary: xs)
    case (Cons y ys)
    then show ?case by (cases xs) auto
  qed simp
  then show ?thesis by (simp add: virtual_steps_def chain_between_def)
qed

lemma focus_intermediate:
  "map (focus_of \<circ> intermediate Leave d) ps = map (focus_out d) (map snd ps)"
  "map (focus_of \<circ> intermediate Enter d) ps = map (focus_in d) (map snd ps)"
  by (simp_all add: focus_of_def intermediate_def)

lemma focus_endpoint:
  "focus_of (endpoint Leave d w) = focus_out d w" "focus_of (endpoint Enter d w) = focus_in d w"
  by (simp_all add: focus_of_def endpoint_def)

lemma pointer_runs_filtered:
  "filter (\<lambda>e. fe_detail e \<noteq> NOTIFY_POINTER) (out_pointer_run t p a x inc) = []"
  "filter (\<lambda>e. fe_detail e \<noteq> NOTIFY_POINTER) (in_pointer_run t p a x inc) = []"
  by (auto simp: out_pointer_run_def in_pointer_run_def filter_empty_conv)

lemma filter_focus_map:
  "d \<noteq> NOTIFY_POINTER \<Longrightarrow> filter (\<lambda>e. fe_detail e \<noteq> NOTIFY_POINTER) (map (focus_out d) ws) = map (focus_out d) ws"
  "d \<noteq> NOTIFY_POINTER \<Longrightarrow> filter (\<lambda>e. fe_detail e \<noteq> NOTIFY_POINTER) (map (focus_in d) ws) = map (focus_in d) ws"
  by (induction ws) auto

lemma notify_not_pointer:
  "NOTIFY_ANCESTOR \<noteq> NOTIFY_POINTER" "NOTIFY_VIRTUAL \<noteq> NOTIFY_POINTER"
  "NOTIFY_INFERIOR \<noteq> NOTIFY_POINTER" "NOTIFY_NONLINEAR \<noteq> NOTIFY_POINTER"
  "NOTIFY_NONLINEAR_VIRTUAL \<noteq> NOTIFY_POINTER"
  by (simp_all add: notify_defs)

text \<open>
  Whatever the window tree, and wherever the pointer is: when the input focus moves from
  one window to another, the FocusOut and FocusIn events, without those of detail NotifyPointer,
  are the LeaveNotify and EnterNotify events of a pointer that moves between the two windows, in
  the same order and with the same details.
\<close>

theorem focus_events_follow_crossings:
  assumes "\<not> special_focus a" and "\<not> special_focus b"
  shows "filter (\<lambda>e. fe_detail e \<noteq> NOTIFY_POINTER) (focus_transition_events t a b p) =
    map focus_of (compute_crossing_chain t a b)"
proof (cases "a = b")
  case True
  then show ?thesis by (simp add: focus_transition_events_def compute_crossing_chain_def)
next
  case False
  have "focus_transition_events t a b p = focus_between_windows t a b p"
    using assms False by (simp add: focus_transition_events_def)
  then show ?thesis
    using False
    by (simp add: focus_between_windows_def compute_crossing_chain_def is_anc_def Let_def
        pointer_runs_filtered filter_focus_map notify_not_pointer focus_intermediate focus_endpoint
        rev_map [symmetric] snd_virtual_steps)
qed

theorem focus_events_follow_crossings_witness:
  "map focus_of (compute_crossing_chain tree3 0x100002 0x100003) =
     filter (\<lambda>e. fe_detail e \<noteq> NOTIFY_POINTER)
       (focus_transition_events tree3 0x100002 0x100003 0x100001)"
  using focus_events_follow_crossings [of "0x100002" "0x100003" tree3 "0x100001"]
  by (simp add: special_focus_def)

end
