(* ===== verification/Wire.thy ===== *)
theory Wire
  imports Prelude
begin

text \<open>
  The byte-level codec of the protocol crate (\<open>x11/wire.rs\<close>): typed reads and writes in the
  client's byte order, padding to four bytes, the fixed reply header and the checked conversion of
  a byte length to protocol units. A read that indexes past the end of its slice panics in the
  source and is \<^const>\<open>None\<close> here.
\<close>

datatype ClientByteOrder = LittleEndian | BigEndian

datatype InvalidData = NotAligned nat | TooLarge nat

section \<open>Byte conversions of the standard library\<close>

definition u16_from_le_bytes :: "u8 \<Rightarrow> u8 \<Rightarrow> u16" where
  "u16_from_le_bytes b0 b1 = ucast b0 OR push_bit 8 (ucast b1)"

definition u16_from_be_bytes :: "u8 \<Rightarrow> u8 \<Rightarrow> u16" where
  "u16_from_be_bytes b0 b1 = u16_from_le_bytes b1 b0"

definition u32_from_le_bytes :: "u8 \<Rightarrow> u8 \<Rightarrow> u8 \<Rightarrow> u8 \<Rightarrow> u32" where
  "u32_from_le_bytes b0 b1 b2 b3 =
     ucast b0 OR push_bit 8 (ucast b1) OR push_bit 16 (ucast b2) OR push_bit 24 (ucast b3)"

definition u32_from_be_bytes :: "u8 \<Rightarrow> u8 \<Rightarrow> u8 \<Rightarrow> u8 \<Rightarrow> u32" where
  "u32_from_be_bytes b0 b1 b2 b3 = u32_from_le_bytes b3 b2 b1 b0"

definition u16_to_le_bytes :: "u16 \<Rightarrow> u8 list" where
  "u16_to_le_bytes v = [ucast v, ucast (drop_bit 8 v)]"

definition u32_to_le_bytes :: "u32 \<Rightarrow> u8 list" where
  "u32_to_le_bytes v =
     [ucast v, ucast (drop_bit 8 v), ucast (drop_bit 16 v), ucast (drop_bit 24 v)]"

definition u16_to_be_bytes :: "u16 \<Rightarrow> u8 list" where
  "u16_to_be_bytes v = rev (u16_to_le_bytes v)"

definition u32_to_be_bytes :: "u32 \<Rightarrow> u8 list" where
  "u32_to_be_bytes v = rev (u32_to_le_bytes v)"

section \<open>Reads and writes\<close>

definition read_u16 :: "ClientByteOrder \<Rightarrow> u8 list \<Rightarrow> u16 option" where
  "read_u16 byte_order bytes =
     (case bytes of
        b0 # b1 # _ \<Rightarrow>
          Some (case byte_order of
             LittleEndian \<Rightarrow> u16_from_le_bytes b0 b1
           | BigEndian \<Rightarrow> u16_from_be_bytes b0 b1)
      | _ \<Rightarrow> None)"

definition read_u32 :: "ClientByteOrder \<Rightarrow> u8 list \<Rightarrow> u32 option" where
  "read_u32 byte_order bytes =
     (case bytes of
        b0 # b1 # b2 # b3 # _ \<Rightarrow>
          Some (case byte_order of
             LittleEndian \<Rightarrow> u32_from_le_bytes b0 b1 b2 b3
           | BigEndian \<Rightarrow> u32_from_be_bytes b0 b1 b2 b3)
      | _ \<Rightarrow> None)"

definition read_u32_le :: "u8 list \<Rightarrow> u32 option" where
  "read_u32_le bytes =
     (case bytes of b0 # b1 # b2 # b3 # _ \<Rightarrow> Some (u32_from_le_bytes b0 b1 b2 b3) | _ \<Rightarrow> None)"

definition read_u16_le :: "u8 list \<Rightarrow> u16 option" where
  "read_u16_le bytes =
     (case bytes of b0 # b1 # _ \<Rightarrow> Some (u16_from_le_bytes b0 b1) | _ \<Rightarrow> None)"

definition read_i16_le :: "u8 list \<Rightarrow> i16 option" where
  "read_i16_le bytes =
     (case bytes of b0 # b1 # _ \<Rightarrow> Some (u16_from_le_bytes b0 b1) | _ \<Rightarrow> None)"

definition write_u16 :: "ClientByteOrder \<Rightarrow> u8 list \<Rightarrow> u16 \<Rightarrow> u8 list" where
  "write_u16 byte_order out value =
     (case byte_order of
        LittleEndian \<Rightarrow> out @ u16_to_le_bytes value
      | BigEndian \<Rightarrow> out @ u16_to_be_bytes value)"

definition write_i16 :: "ClientByteOrder \<Rightarrow> u8 list \<Rightarrow> i16 \<Rightarrow> u8 list" where
  "write_i16 byte_order out value =
     (case byte_order of
        LittleEndian \<Rightarrow> out @ u16_to_le_bytes value
      | BigEndian \<Rightarrow> out @ u16_to_be_bytes value)"

definition write_u32 :: "ClientByteOrder \<Rightarrow> u8 list \<Rightarrow> u32 \<Rightarrow> u8 list" where
  "write_u32 byte_order out value =
     (case byte_order of
        LittleEndian \<Rightarrow> out @ u32_to_le_bytes value
      | BigEndian \<Rightarrow> out @ u32_to_be_bytes value)"

definition byte_order_value :: "ClientByteOrder \<Rightarrow> u8" where
  "byte_order_value byte_order = (case byte_order of LittleEndian \<Rightarrow> 0 | BigEndian \<Rightarrow> 1)"

text \<open>\<open>usize\<close> is 64 bits wide; \<open>(len + 3) & !3\<close> wraps for the three largest lengths.\<close>

definition pad4 :: "u64 \<Rightarrow> u64" where
  "pad4 len = (len + 3) AND NOT 3"

function pad_vec4 :: "u8 list \<Rightarrow> u8 list" where
  "pad_vec4 out = (if length out mod 4 \<noteq> 0 then pad_vec4 (out @ [0]) else out)"
  by pat_completeness auto
termination
proof (relation "measure (\<lambda>out. (4 - length out mod 4) mod 4)", goal_cases)
  case (2 out)
  then have "length out mod 4 = 1 \<or> length out mod 4 = 2 \<or> length out mod 4 = 3" by presburger
  then show ?case by (auto simp: mod_Suc)
qed simp

declare pad_vec4.simps [simp del]

definition fixed_reply :: "ClientByteOrder \<Rightarrow> u16 \<Rightarrow> u8 \<Rightarrow> u32 \<Rightarrow> u8 list" where
  "fixed_reply byte_order sequence dat len =
     write_u32 byte_order (write_u16 byte_order [1, dat] sequence) len"

definition checked_units :: "nat \<Rightarrow> InvalidData + u16" where
  "checked_units byte_len =
     (if byte_len mod 4 \<noteq> 0 then Inl (NotAligned byte_len)
      else if byte_len div 4 < 2 ^ 16 then Inr (of_nat (byte_len div 4))
      else Inl (TooLarge byte_len))"

section \<open>The codec contract\<close>

text \<open>What a decoder of typed fields may rely on: a value written is read back whatever follows
  it, and a write appends a fixed number of bytes.\<close>

locale field_codec =
  fixes wr :: "ClientByteOrder \<Rightarrow> u8 list \<Rightarrow> 'v \<Rightarrow> u8 list"
    and rd :: "ClientByteOrder \<Rightarrow> u8 list \<Rightarrow> 'v option"
    and width :: nat
  assumes write_append: "wr bo out v = out @ wr bo [] v"
    and read_write: "rd bo (wr bo [] v @ rest) = Some v"
    and write_width: "length (wr bo [] v) = width"
    and write_swap: "wr BigEndian [] v = rev (wr LittleEndian [] v)"
    and read_swap: "length bs = width \<Longrightarrow> rd LittleEndian (rev bs) = rd BigEndian bs"
begin

lemma read_at: "rd bo (drop (length out) (wr bo out v @ rest)) = Some v"
  by (subst write_append) (simp add: read_write)

lemma write_inj: "wr bo out v = wr bo out w \<Longrightarrow> v = w"
  by (metis append_Nil2 option.inject read_write write_append same_append_eq)

lemma reversed_be_is_le: "rev (wr BigEndian [] v) = wr LittleEndian [] v"
  by (simp add: write_swap)

end

lemma u16_from_to_le: "u16_from_le_bytes (ucast v) (ucast (drop_bit 8 v)) = v"
  by (rule bit_word_eqI)
    (auto simp: u16_from_le_bytes_def bit_simps not_less)

lemma byte_of_32: "n < 32 \<Longrightarrow>
    (\<exists>k < 8. n = k) \<or> (\<exists>k < 8. n = 8 + k) \<or> (\<exists>k < 8. n = 16 + k) \<or> (\<exists>k < 8. n = 24 + (k :: nat))"
  by presburger

lemma u32_from_to_le:
  "u32_from_le_bytes (ucast v) (ucast (drop_bit 8 v)) (ucast (drop_bit 16 v)) (ucast (drop_bit 24 v)) = v"
proof (rule bit_word_eqI)
  fix n
  assume "n < LENGTH(32)"
  then show "bit (u32_from_le_bytes (ucast v) (ucast (drop_bit 8 v)) (ucast (drop_bit 16 v))
      (ucast (drop_bit 24 v))) n = bit v n"
    using byte_of_32 [of n] by (auto simp: u32_from_le_bytes_def bit_simps)
qed

lemmas codec_defs =
  read_u16_def read_u32_def write_u16_def write_i16_def write_u32_def
  u16_to_le_bytes_def u16_to_be_bytes_def u32_to_le_bytes_def u32_to_be_bytes_def
  u16_from_be_bytes_def u32_from_be_bytes_def

lemma length_2: "length bs = 2 \<longleftrightarrow> (\<exists>a b. bs = [a, b])"
  by (auto simp: numeral_eq_Suc length_Suc_conv)

lemma length_4: "length bs = 4 \<longleftrightarrow> (\<exists>a b c d. bs = [a, b, c, d])"
  by (auto simp: numeral_eq_Suc length_Suc_conv)

interpretation u16c: field_codec write_u16 read_u16 2
  by unfold_locales
    (auto simp: codec_defs u16_from_to_le length_2 split: ClientByteOrder.splits)

interpretation u32c: field_codec write_u32 read_u32 4
  by unfold_locales
    (auto simp: codec_defs u32_from_to_le length_4 split: ClientByteOrder.splits)

interpretation i16c: field_codec write_i16 read_u16 2
  by unfold_locales
    (auto simp: codec_defs u16_from_to_le length_2 split: ClientByteOrder.splits)

lemma read_u16_swap [simp]: "length bs = 2 \<Longrightarrow> read_u16 LittleEndian (rev bs) = read_u16 BigEndian bs"
  by (rule u16c.read_swap)

lemma read_u32_swap [simp]: "length bs = 4 \<Longrightarrow> read_u32 LittleEndian (rev bs) = read_u32 BigEndian bs"
  by (rule u32c.read_swap)

lemma read_u32_le_eq: "read_u32_le bs = read_u32 LittleEndian bs"
  by (simp add: read_u32_le_def read_u32_def split: list.splits)

lemma read_u16_le_eq: "read_u16_le bs = read_u16 LittleEndian bs"
  by (simp add: read_u16_le_def read_u16_def split: list.splits)

section \<open>Padding and units\<close>

lemma length_pad_vec4: "length (pad_vec4 out) mod 4 = 0"
proof (induction out rule: pad_vec4.induct)
  case (1 out)
  then show ?case by (cases "length out mod 4 = 0") (auto simp: pad_vec4.simps [of out])
qed

lemma pad_vec4_eq: "pad_vec4 out = out @ replicate ((4 - length out mod 4) mod 4) 0"
proof (induction out rule: pad_vec4.induct)
  case (1 out)
  show ?case
  proof (cases "length out mod 4 = 0")
    case True
    then show ?thesis by (simp add: pad_vec4.simps [of out])
  next
    case False
    then have m: "length out mod 4 = 1 \<or> length out mod 4 = 2 \<or> length out mod 4 = 3"
      by presburger
    have "pad_vec4 out = (out @ [0]) @ replicate ((4 - length (out @ [0]) mod 4) mod 4) 0"
      using False 1 by (simp add: pad_vec4.simps [of out])
    then show ?thesis using m by (elim disjE) (simp_all add: mod_Suc numeral_2_eq_2 numeral_3_eq_3)
  qed
qed

lemma checked_units_Inr:
  "checked_units n = Inr u \<Longrightarrow> n = 4 * unat u"
  by (auto simp: checked_units_def unat_of_nat split: if_splits)

end
