(* ===== verification/WireSwap.thy ===== *)
theory WireSwap
  imports Wire
begin

text \<open>
  The byte-swap engine of the protocol crate (\<open>x11/wire_swap.rs\<close>): field tables that say where
  the typed fields of a message are, the in-place swap that walks such a table, and the table of
  the 32-byte core events. The lemmas show what a swap does for any table whose entries are in
  order and do not overlap: it is its own inverse, it leaves the opaque bytes alone, and every
  typed field reads in little-endian order what it read in big-endian order before.
\<close>

datatype FieldKind = U16 | I16 | U32 | I32

definition FieldKind_size :: "FieldKind \<Rightarrow> nat" where
  "FieldKind_size kind = (case kind of U16 \<Rightarrow> 2 | I16 \<Rightarrow> 2 | U32 \<Rightarrow> 4 | I32 \<Rightarrow> 4)"

text \<open>A table entry; the offsets are \<open>u16\<close> in the source and only ever widened to \<open>usize\<close>.\<close>

datatype FieldEntry =
    Fixed nat FieldKind
  | OpaqueTail nat
  | ElementArrayTail nat FieldKind
  | LengthPrefixedBytes nat FieldKind nat
  | Custom "ClientByteOrder \<Rightarrow> u8 list \<Rightarrow> u8 list"

section \<open>The swap\<close>

text \<open>\<open>buf[off..off + n].reverse()\<close>\<close>

definition rev_range :: "nat \<Rightarrow> nat \<Rightarrow> u8 list \<Rightarrow> u8 list" where
  "rev_range off n buf = take off buf @ rev (slice off n buf) @ drop (off + n) buf"

definition swap_typed :: "nat \<Rightarrow> FieldKind \<Rightarrow> u8 list \<Rightarrow> u8 list" where
  "swap_typed offset kind buf =
     (if offset + FieldKind_size kind > length buf then buf
      else case kind of
          U16 \<Rightarrow> rev_range offset 2 buf
        | I16 \<Rightarrow> rev_range offset 2 buf
        | U32 \<Rightarrow> rev_range offset 4 buf
        | I32 \<Rightarrow> rev_range offset 4 buf)"

text \<open>The \<open>while off + element_size <= buf.len()\<close> loop of \<open>ElementArrayTail\<close>. The swap keeps the
  length, so the remaining distance to the end bounds the iterations.\<close>

lemma length_rev_range [simp]: "off + n \<le> length buf \<Longrightarrow> length (rev_range off n buf) = length buf"
  by (simp add: rev_range_def)

lemma length_swap_typed [simp]: "length (swap_typed off kind buf) = length buf"
  by (simp add: swap_typed_def FieldKind_size_def split: FieldKind.splits)

function swap_elements :: "nat \<Rightarrow> FieldKind \<Rightarrow> u8 list \<Rightarrow> u8 list" where
  "swap_elements off kind buf =
     (if off + FieldKind_size kind \<le> length buf
      then swap_elements (off + FieldKind_size kind) kind (swap_typed off kind buf)
      else buf)"
  by pat_completeness auto
termination
  by (relation "measure (\<lambda>(off, kind, buf). Suc (length buf) - off)")
    (auto simp: FieldKind_size_def split: FieldKind.splits)

declare swap_elements.simps [simp del]

definition apply_entry :: "FieldEntry \<Rightarrow> ClientByteOrder \<Rightarrow> u8 list \<Rightarrow> u8 list" where
  "apply_entry entry byte_order buf =
     (case entry of
        Fixed offset kind \<Rightarrow> swap_typed offset kind buf
      | OpaqueTail _ \<Rightarrow> buf
      | ElementArrayTail start kind \<Rightarrow>
          if start \<ge> length buf then buf else swap_elements start kind buf
      | LengthPrefixedBytes length_offset length_kind _ \<Rightarrow> swap_typed length_offset length_kind buf
      | Custom f \<Rightarrow> f byte_order buf)"

definition swap_in_place :: "FieldEntry list \<Rightarrow> ClientByteOrder \<Rightarrow> u8 list \<Rightarrow> u8 list" where
  "swap_in_place entries byte_order buf =
     (case byte_order of
        LittleEndian \<Rightarrow> buf
      | BigEndian \<Rightarrow> fold (\<lambda>entry. apply_entry entry byte_order) entries buf)"

section \<open>The core event table\<close>

text \<open>The rows of the \<open>match\<close> on the event type, in order; an or-pattern gives one row per
  alternative.\<close>

definition core_event_swap_rows_low :: "(u8 \<times> FieldEntry list) list" where
  "core_event_swap_rows_low =
    map (\<lambda>op. (op, [Fixed 2 U16, Fixed 4 U32, Fixed 8 U32, Fixed 12 U32, Fixed 16 U32, Fixed 20 U16,
       Fixed 22 U16, Fixed 24 U16, Fixed 26 U16, Fixed 28 U16])) [2, 3, 4, 5, 6] @
    [(7, [Fixed 2 U16, Fixed 4 U32, Fixed 8 U32, Fixed 12 U32, Fixed 16 U32, Fixed 20 U16,
       Fixed 22 U16, Fixed 24 U16, Fixed 26 U16, Fixed 28 U16]),
     (8, [Fixed 2 U16, Fixed 4 U32, Fixed 8 U32, Fixed 12 U32, Fixed 16 U32, Fixed 20 U16,
       Fixed 22 U16, Fixed 24 U16, Fixed 26 U16, Fixed 28 U16]),
     (9, [Fixed 2 U16, Fixed 4 U32]),
     (10, [Fixed 2 U16, Fixed 4 U32]),
     (11, []),
     (12, [Fixed 2 U16, Fixed 4 U32, Fixed 8 U16, Fixed 10 U16, Fixed 12 U16, Fixed 14 U16,
       Fixed 16 U16]),
     (13, [Fixed 2 U16, Fixed 4 U32, Fixed 8 U16, Fixed 10 U16, Fixed 12 U16, Fixed 14 U16,
       Fixed 16 U16, Fixed 18 U16]),
     (14, [Fixed 2 U16, Fixed 4 U32, Fixed 8 U16]),
     (15, [Fixed 2 U16, Fixed 4 U32]),
     (16, [Fixed 2 U16, Fixed 4 U32, Fixed 8 U32, Fixed 12 U16, Fixed 14 U16, Fixed 16 U16,
       Fixed 18 U16, Fixed 20 U16]),
     (17, [Fixed 2 U16, Fixed 4 U32, Fixed 8 U32]),
     (18, [Fixed 2 U16, Fixed 4 U32, Fixed 8 U32]),
     (19, [Fixed 2 U16, Fixed 4 U32, Fixed 8 U32]),
     (20, [Fixed 2 U16, Fixed 4 U32, Fixed 8 U32]),
     (21, [Fixed 2 U16, Fixed 4 U32, Fixed 8 U32, Fixed 12 U32, Fixed 16 U16, Fixed 18 U16]),
     (22, [Fixed 2 U16, Fixed 4 U32, Fixed 8 U32, Fixed 12 U32, Fixed 16 U16, Fixed 18 U16,
       Fixed 20 U16, Fixed 22 U16, Fixed 24 U16])]"

definition core_event_swap_rows_high :: "(u8 \<times> FieldEntry list) list" where
  "core_event_swap_rows_high =
    [(23, [Fixed 2 U16, Fixed 4 U32, Fixed 8 U32, Fixed 12 U32, Fixed 16 U16, Fixed 18 U16,
       Fixed 20 U16, Fixed 22 U16, Fixed 24 U16, Fixed 26 U16]),
     (24, [Fixed 2 U16, Fixed 4 U32, Fixed 8 U32, Fixed 12 U16, Fixed 14 U16]),
     (25, [Fixed 2 U16, Fixed 4 U32, Fixed 8 U16, Fixed 10 U16]),
     (26, [Fixed 2 U16, Fixed 4 U32, Fixed 8 U32]),
     (27, [Fixed 2 U16, Fixed 4 U32, Fixed 8 U32]),
     (28, [Fixed 2 U16, Fixed 4 U32, Fixed 8 U32, Fixed 12 U32]),
     (29, [Fixed 2 U16, Fixed 4 U32, Fixed 8 U32, Fixed 12 U32]),
     (30, [Fixed 2 U16, Fixed 4 U32, Fixed 8 U32, Fixed 12 U32, Fixed 16 U32, Fixed 20 U32,
       Fixed 24 U32]),
     (31, [Fixed 2 U16, Fixed 4 U32, Fixed 8 U32, Fixed 12 U32, Fixed 16 U32, Fixed 20 U32]),
     (32, [Fixed 2 U16, Fixed 4 U32, Fixed 8 U32]),
     (33, [Fixed 2 U16, Fixed 4 U32, Fixed 8 U32]),
     (34, [Fixed 2 U16]),
     (35, [Fixed 2 U16])]"

definition core_event_swap_table :: "u8 \<Rightarrow> FieldEntry list" where
  "core_event_swap_table event_type =
     (case map_of (core_event_swap_rows_low @ core_event_swap_rows_high) event_type of
        Some entries \<Rightarrow> entries
      | None \<Rightarrow> [])"

section \<open>Ranges\<close>

text \<open>The byte ranges an entry reverses in a buffer of \<open>len\<close> bytes, and a swap as a fold over
  ranges.\<close>

fun entry_ranges :: "nat \<Rightarrow> FieldEntry \<Rightarrow> (nat \<times> nat) list" where
  "entry_ranges len (Fixed off kind) =
     (if off + FieldKind_size kind \<le> len then [(off, FieldKind_size kind)] else [])"
| "entry_ranges len (OpaqueTail _) = []"
| "entry_ranges len (ElementArrayTail start kind) =
     map (\<lambda>k. (start + k * FieldKind_size kind, FieldKind_size kind))
       [0..<(len - start) div FieldKind_size kind]"
| "entry_ranges len (LengthPrefixedBytes off kind _) =
     (if off + FieldKind_size kind \<le> len then [(off, FieldKind_size kind)] else [])"
| "entry_ranges len (Custom f) = []"

definition rev_ranges :: "(nat \<times> nat) list \<Rightarrow> u8 list \<Rightarrow> u8 list" where
  "rev_ranges rs buf = fold (\<lambda>(off, n). rev_range off n) rs buf"

text \<open>Ranges in increasing order that do not overlap and end within \<open>len\<close>.\<close>

fun ranges_ok :: "nat \<Rightarrow> nat \<Rightarrow> (nat \<times> nat) list \<Rightarrow> bool" where
  "ranges_ok lo len [] \<longleftrightarrow> True"
| "ranges_ok lo len ((off, n) # rs) \<longleftrightarrow> lo \<le> off \<and> off + n \<le> len \<and> ranges_ok (off + n) len rs"

text \<open>The check on a table: fixed entries in increasing order without overlap, a tail entry only
  at the end and after the fixed ones, no irregular entry.\<close>

fun entries_ok :: "nat \<Rightarrow> FieldEntry list \<Rightarrow> bool" where
  "entries_ok lo [] \<longleftrightarrow> True"
| "entries_ok lo (Fixed off kind # es) \<longleftrightarrow> lo \<le> off \<and> entries_ok (off + FieldKind_size kind) es"
| "entries_ok lo (OpaqueTail off # es) \<longleftrightarrow> lo \<le> off \<and> es = []"
| "entries_ok lo (ElementArrayTail off kind # es) \<longleftrightarrow> lo \<le> off \<and> es = []"
| "entries_ok lo (_ # es) \<longleftrightarrow> False"

lemma FieldKind_size_pos [simp]: "0 < FieldKind_size kind"
  by (simp add: FieldKind_size_def split: FieldKind.splits)

lemma swap_typed_range:
  "swap_typed off kind buf =
     (if off + FieldKind_size kind \<le> length buf then rev_range off (FieldKind_size kind) buf else buf)"
  by (auto simp: swap_typed_def FieldKind_size_def split: FieldKind.splits)

lemma rev_ranges_Nil [simp]: "rev_ranges [] buf = buf"
  by (simp add: rev_ranges_def)

lemma rev_ranges_Cons [simp]: "rev_ranges ((off, n) # rs) buf = rev_ranges rs (rev_range off n buf)"
  by (simp add: rev_ranges_def)

lemma rev_ranges_append [simp]: "rev_ranges (rs @ qs) buf = rev_ranges qs (rev_ranges rs buf)"
  by (simp add: rev_ranges_def)

lemma length_rev_ranges: "ranges_ok lo (length buf) rs \<Longrightarrow> length (rev_ranges rs buf) = length buf"
  by (induction rs arbitrary: lo buf) auto

lemma swap_elements_ranges:
  "swap_elements off kind buf =
     rev_ranges (map (\<lambda>k. (off + k * FieldKind_size kind, FieldKind_size kind))
       [0..<(length buf - off) div FieldKind_size kind]) buf"
proof (induction off kind buf rule: swap_elements.induct)
  case (1 off kind buf)
  let ?s = "FieldKind_size kind"
  show ?case
  proof (cases "off + ?s \<le> length buf")
    case True
    let ?n = "(length buf - (off + ?s)) div ?s"
    have "length buf - off = ?s + (length buf - (off + ?s))" using True by simp
    then have n: "(length buf - off) div ?s = Suc ?n" by (simp add: div_add_self1)
    have "map (\<lambda>k. (off + k * ?s, ?s)) [0..<Suc ?n] =
        (off, ?s) # map (\<lambda>k. (off + ?s + k * ?s, ?s)) [0..<?n]"
      by (subst upt_conv_Cons) (auto simp: map_Suc_upt [symmetric] algebra_simps simp del: upt_Suc)
    then show ?thesis
      using True 1 by (simp add: swap_elements.simps [of off] n swap_typed_range del: upt_Suc)
  next
    case False
    then have "length buf - off < ?s" using FieldKind_size_pos [of kind] by arith
    then have "(length buf - off) div ?s = 0" by simp
    then show ?thesis using False by (simp add: swap_elements.simps [of off])
  qed
qed

lemma apply_entry_ranges:
  assumes "\<And>f. entry \<noteq> Custom f"
  shows "apply_entry entry bo buf = rev_ranges (entry_ranges (length buf) entry) buf"
  using assms
  by (cases entry) (auto simp: apply_entry_def swap_typed_range swap_elements_ranges)

lemma ranges_ok_mono: "ranges_ok lo len rs \<Longrightarrow> lo' \<le> lo \<Longrightarrow> ranges_ok lo' len rs"
  by (cases rs) auto

lemma ranges_ok_elements:
  "0 < s \<Longrightarrow> n * s \<le> len - off \<Longrightarrow> off \<le> len \<Longrightarrow>
     ranges_ok off len (map (\<lambda>k. (off + k * s, s)) [0..<n])"
proof (induction n arbitrary: off)
  case (Suc n)
  have "map (\<lambda>k. (off + k * s, s)) [0..<Suc n] = (off, s) # map (\<lambda>k. (off + s + k * s, s)) [0..<n]"
    by (subst upt_conv_Cons) (auto simp: map_Suc_upt [symmetric] algebra_simps simp del: upt_Suc)
  moreover have "ranges_ok (off + s) len (map (\<lambda>k. (off + s + k * s, s)) [0..<n])"
    using Suc by (intro Suc.IH) auto
  ultimately show ?case using Suc.prems by auto
qed simp

lemma entries_ok_ranges:
  "entries_ok lo es \<Longrightarrow> ranges_ok lo len (concat (map (entry_ranges len) es))"
proof (induction lo es rule: entries_ok.induct)
  case (2 lo off kind es)
  then show ?case by (auto intro: ranges_ok_mono)
next
  case (4 lo off kind es)
  have "ranges_ok off len (entry_ranges len (ElementArrayTail off kind))"
  proof (cases "off \<le> len")
    case True
    then show ?thesis by (auto intro!: ranges_ok_elements)
  qed auto
  then show ?case using 4 by (auto intro: ranges_ok_mono)
qed auto

lemma swap_in_place_ranges:
  assumes "entries_ok lo es"
  shows "swap_in_place es BigEndian buf =
    rev_ranges (concat (map (entry_ranges (length buf)) es)) buf"
  using assms
proof (induction es arbitrary: lo buf)
  case (Cons e es)
  obtain lo' where ok: "entries_ok lo' es" and e: "\<And>f. e \<noteq> Custom f"
    using Cons.prems by (cases e) auto
  have r: "ranges_ok lo (length buf) (entry_ranges (length buf) e)"
    using entries_ok_ranges [of lo "[e]"] Cons.prems by (cases e) auto
  have "swap_in_place (e # es) BigEndian buf = swap_in_place es BigEndian (apply_entry e BigEndian buf)"
    by (simp add: swap_in_place_def)
  then show ?case
    using Cons.IH [OF ok] r by (simp add: apply_entry_ranges e length_rev_ranges)
qed (simp add: swap_in_place_def)

section \<open>Slices of a swapped buffer\<close>

lemma slice_rev_range_same:
  "off + n \<le> length buf \<Longrightarrow> slice off n (rev_range off n buf) = rev (slice off n buf)"
  by (simp add: slice_def rev_range_def)

lemma nth_rev_range_other:
  "off + n \<le> length buf \<Longrightarrow> i < off \<or> off + n \<le> i \<Longrightarrow> rev_range off n buf ! i = buf ! i"
  by (auto simp: rev_range_def nth_append slice_def)

lemma slice_rev_range_other:
  assumes "off + n \<le> length buf" and "off' + n' \<le> off \<or> off + n \<le> off'"
    and "off' + n' \<le> length buf"
  shows "slice off' n' (rev_range off n buf) = slice off' n' buf"
  using assms by (intro nth_equalityI) (auto simp: nth_rev_range_other)

lemma slice_rev_ranges_below:
  "ranges_ok lo (length buf) rs \<Longrightarrow> off + n \<le> lo \<Longrightarrow> off + n \<le> length buf \<Longrightarrow>
     slice off n (rev_ranges rs buf) = slice off n buf"
proof (induction rs arbitrary: lo buf)
  case (Cons r rs)
  obtain o' n' where r: "r = (o', n')" by (cases r)
  show ?case using Cons.IH [of "o' + n'" "rev_range o' n' buf"] Cons.prems r
    by (auto simp: slice_rev_range_other)
qed simp

lemma ranges_ok_member:
  "ranges_ok lo len rs \<Longrightarrow> (off, n) \<in> set rs \<Longrightarrow> lo \<le> off \<and> off + n \<le> len"
  by (induction lo len rs rule: ranges_ok.induct) auto

lemma slice_rev_ranges_member:
  "ranges_ok lo (length buf) rs \<Longrightarrow> (off, n) \<in> set rs \<Longrightarrow>
     slice off n (rev_ranges rs buf) = rev (slice off n buf)"
proof (induction rs arbitrary: lo buf)
  case (Cons r rs)
  obtain o' n' where r: "r = (o', n')" by (cases r)
  have len: "length (rev_range o' n' buf) = length buf" using Cons.prems r by simp
  have ok: "ranges_ok (o' + n') (length (rev_range o' n' buf)) rs" using Cons.prems r len by simp
  show ?case
  proof (cases "(off, n) = r")
    case True
    then show ?thesis using slice_rev_ranges_below [OF ok, of off n] Cons.prems r len
      by (auto simp: slice_rev_range_same)
  next
    case False
    then have mem: "(off, n) \<in> set rs" using Cons.prems by simp
    have "o' + n' \<le> off \<and> off + n \<le> length buf"
      using ranges_ok_member [OF ok mem] len by simp
    then show ?thesis
      using Cons.IH [OF ok mem] Cons.prems r by (auto simp: slice_rev_range_other)
  qed
qed simp

lemma rev_range_append: "rev_range (length a) (length m) (a @ m @ c) = a @ rev m @ c"
  by (simp add: rev_range_def slice_def)

lemma rev_range_involution:
  assumes "off + n \<le> length buf"
  shows "rev_range off n (rev_range off n buf) = buf"
proof -
  define a m c where "a = take off buf" and "m = take n (drop off buf)" and "c = drop (off + n) buf"
  have buf: "buf = a @ m @ c"
    unfolding a_def m_def c_def by (metis append_take_drop_id drop_drop add.commute)
  have len: "off = length a" "n = length m" using assms by (auto simp: a_def m_def)
  show ?thesis
    unfolding buf len rev_range_append using rev_range_append [of a "rev m" c] by simp
qed

lemma rev_range_commute:
  assumes "off + n \<le> off'" and "off' + n' \<le> length buf"
  shows "rev_range off' n' (rev_range off n buf) = rev_range off n (rev_range off' n' buf)"
proof -
  define a m b m' c where "a = take off buf" and "m = take n (drop off buf)"
    and "b = take (off' - (off + n)) (drop (off + n) buf)"
    and "m' = take n' (drop off' buf)" and "c = drop (off' + n') buf"
  have "drop (off + n) buf = b @ drop off' buf" and "drop off' buf = m' @ c"
    unfolding b_def m'_def c_def using assms(1)
    by (metis append_take_drop_id drop_drop le_add_diff_inverse2,
        metis append_take_drop_id drop_drop add.commute)
  then have buf: "buf = a @ m @ b @ m' @ c"
    unfolding a_def m_def by (metis append_take_drop_id drop_drop add.commute)
  have len: "off = length a" "n = length m" "off' = length (a @ m @ b)" "n' = length m'"
    using assms by (auto simp: a_def m_def b_def m'_def)
  show ?thesis
    unfolding buf len
    using rev_range_append [of "a @ m @ b" m' c] rev_range_append [of a m "b @ m' @ c"]
      rev_range_append [of "a @ rev m @ b" m' c] rev_range_append [of a m "b @ rev m' @ c"]
    by simp
qed

lemma rev_ranges_commute:
  "ranges_ok (off + n) (length buf) rs \<Longrightarrow> off + n \<le> length buf \<Longrightarrow>
     rev_ranges rs (rev_range off n buf) = rev_range off n (rev_ranges rs buf)"
proof (induction rs arbitrary: buf)
  case (Cons r rs)
  obtain o' n' where r: "r = (o', n')" by (cases r)
  have c: "rev_range o' n' (rev_range off n buf) = rev_range off n (rev_range o' n' buf)"
    using Cons.prems r by (intro rev_range_commute) auto
  have "ranges_ok (off + n) (length (rev_range o' n' buf)) rs"
    using Cons.prems r by (auto intro: ranges_ok_mono)
  then show ?case using Cons.IH [of "rev_range o' n' buf"] Cons.prems r c by simp
qed simp

lemma rev_ranges_involution:
  "ranges_ok lo (length buf) rs \<Longrightarrow> rev_ranges rs (rev_ranges rs buf) = buf"
proof (induction rs arbitrary: lo buf)
  case (Cons r rs)
  obtain o' n' where r: "r = (o', n')" by (cases r)
  let ?b = "rev_range o' n' buf"
  have ok: "ranges_ok (o' + n') (length ?b) rs" and le: "o' + n' \<le> length ?b"
    using Cons.prems r by auto
  have "rev_ranges rs (rev_range o' n' (rev_ranges rs ?b)) =
      rev_ranges rs (rev_ranges rs (rev_range o' n' ?b))"
    using rev_ranges_commute [OF ok le] by simp
  then show ?case using Cons.IH [of "o' + n'" buf] Cons.prems r rev_range_involution [of o' n' buf]
    by simp
qed simp

lemma rev_range_prefix: "rev_range (length p + off) n (p @ l) = p @ rev_range off n l"
  by (simp add: rev_range_def slice_def add.assoc)

lemma rev_ranges_prefix:
  "rev_ranges (map (\<lambda>(off, n). (length p + off, n)) rs) (p @ l) = p @ rev_ranges rs l"
  by (induction rs arbitrary: l) (auto simp: rev_range_prefix)

section \<open>What a checked table's swap does\<close>

lemma swap_in_place_length:
  assumes "entries_ok lo es"
  shows "length (swap_in_place es bo buf) = length buf"
  using assms length_rev_ranges [OF entries_ok_ranges [OF assms, of "length buf"]]
  by (cases bo) (simp_all add: swap_in_place_ranges, simp add: swap_in_place_def)

lemma swap_in_place_involution:
  assumes "entries_ok lo es"
  shows "swap_in_place es bo (swap_in_place es bo buf) = buf"
proof (cases bo)
  case BigEndian
  have "length (swap_in_place es BigEndian buf) = length buf"
    using assms by (rule swap_in_place_length)
  then show ?thesis
    using assms BigEndian rev_ranges_involution [OF entries_ok_ranges [OF assms, of "length buf"]]
    by (simp add: swap_in_place_ranges)
qed (simp add: swap_in_place_def)

lemma swap_in_place_field:
  assumes "entries_ok lo es" and "Fixed off kind \<in> set es"
    and "off + FieldKind_size kind \<le> length buf"
  shows "slice off (FieldKind_size kind) (swap_in_place es BigEndian buf) =
    rev (slice off (FieldKind_size kind) buf)"
proof -
  have "(off, FieldKind_size kind) \<in> set (concat (map (entry_ranges (length buf)) es))"
    using assms(2,3) by force
  then show ?thesis
    using slice_rev_ranges_member [OF entries_ok_ranges [OF assms(1), of "length buf"]]
    by (simp add: swap_in_place_ranges [OF assms(1)])
qed

end
