(* ===== verification/RequestSwap.thy ===== *)
theory RequestSwap
  imports WireSwap
begin

text \<open>
  The per-opcode swap tables of inbound requests (\<open>x11/request_swap.rs\<close>) and
  \<open>swap_request_body\<close>, which the reader thread of a big-endian client runs on every request body
  before dispatch. Offsets are relative to the body, without the four-byte request header. The
  tables are split where the source's \<open>match\<close> is long; rows keep the source's order.
\<close>

section \<open>The tables\<close>

definition core_request_swap_rows_windows :: "(u8 \<times> FieldEntry list) list" where
  "core_request_swap_rows_windows =
    [(1, [Fixed 0 U32, Fixed 4 U32, Fixed 8 I16, Fixed 10 I16, Fixed 12 U16, Fixed 14 U16,
       Fixed 16 U16, Fixed 18 U16, Fixed 20 U32, Fixed 24 U32, ElementArrayTail 28 U32]),
     (2, [Fixed 0 U32, Fixed 4 U32, ElementArrayTail 8 U32])] @
    map (\<lambda>op. (op, [Fixed 0 U32])) [3, 4, 5, 6, 8, 9, 10, 11, 13, 14, 15, 21, 23, 38, 79, 81, 82, 83, 95, 113] @
    [(7, [Fixed 0 U32, Fixed 4 U32, Fixed 8 I16, Fixed 10 I16]),
     (12, [Fixed 0 U32, Fixed 4 U16, ElementArrayTail 8 U32]),
     (16, [Fixed 0 U16, OpaqueTail 4]),
     (17, [Fixed 0 U32]),
     (18, [Fixed 0 U32, Fixed 4 U32, Fixed 8 U32, Fixed 16 U32, OpaqueTail 20]),
     (19, [Fixed 0 U32, Fixed 4 U32]),
     (20, [Fixed 0 U32, Fixed 4 U32, Fixed 8 U32, Fixed 12 U32, Fixed 16 U32]),
     (22, [Fixed 0 U32, Fixed 4 U32, Fixed 8 U32]),
     (24, [Fixed 0 U32, Fixed 4 U32, Fixed 8 U32, Fixed 12 U32, Fixed 16 U32]),
     (25, [Fixed 0 U32, Fixed 4 U32, OpaqueTail 8]),
     (26, [Fixed 0 U32, Fixed 4 U16, Fixed 8 U32, Fixed 12 U32, Fixed 16 U32]),
     (27, [Fixed 0 U32]),
     (28, [Fixed 0 U32, Fixed 4 U16, Fixed 8 U32, Fixed 12 U32, Fixed 20 U16]),
     (29, [Fixed 0 U32, Fixed 4 U16]),
     (30, [Fixed 0 U32, Fixed 4 U32, Fixed 8 U16]),
     (31, [Fixed 0 U32, Fixed 4 U32]),
     (32, [Fixed 0 U32]),
     (33, [Fixed 0 U32, Fixed 4 U16]),
     (34, [Fixed 0 U32, Fixed 4 U16]),
     (35, [Fixed 0 U32]),
     (39, [Fixed 0 U32, Fixed 4 U32, Fixed 8 U32])]"

definition core_request_swap_rows_drawing :: "(u8 \<times> FieldEntry list) list" where
  "core_request_swap_rows_drawing =
    [(40, [Fixed 0 U32, Fixed 4 U32, Fixed 8 I16, Fixed 10 I16]),
     (41, [Fixed 0 U32, Fixed 4 U32, Fixed 8 I16, Fixed 10 I16, Fixed 12 U16, Fixed 14 U16,
       Fixed 16 I16, Fixed 18 I16]),
     (42, [Fixed 0 U32, Fixed 4 U32]),
     (45, [Fixed 0 U32, Fixed 4 U16, OpaqueTail 8]),
     (46, [Fixed 0 U32]),
     (47, [Fixed 0 U32]),
     (48, [Fixed 0 U32, ElementArrayTail 4 U16]),
     (49, [Fixed 0 U16, Fixed 2 U16, OpaqueTail 4]),
     (50, [Fixed 0 U16, Fixed 2 U16, OpaqueTail 4]),
     (51, [Fixed 0 U16, OpaqueTail 4]),
     (53, [Fixed 0 U32, Fixed 4 U32, Fixed 8 U16, Fixed 10 U16]),
     (54, [Fixed 0 U32]),
     (55, [Fixed 0 U32, Fixed 4 U32, Fixed 8 U32, ElementArrayTail 12 U32]),
     (56, [Fixed 0 U32, Fixed 4 U32, ElementArrayTail 8 U32]),
     (57, [Fixed 0 U32, Fixed 4 U32, Fixed 8 U32]),
     (58, [Fixed 0 U32, Fixed 4 U16, Fixed 6 U16, OpaqueTail 8]),
     (59, [Fixed 0 U32, Fixed 4 I16, Fixed 6 I16, ElementArrayTail 8 U16]),
     (60, [Fixed 0 U32]),
     (61, [Fixed 0 U32, Fixed 4 I16, Fixed 6 I16, Fixed 8 U16, Fixed 10 U16]),
     (62, [Fixed 0 U32, Fixed 4 U32, Fixed 8 U32, Fixed 12 I16, Fixed 14 I16, Fixed 16 I16,
       Fixed 18 I16, Fixed 20 U16, Fixed 22 U16]),
     (63, [Fixed 0 U32, Fixed 4 U32, Fixed 8 U32, Fixed 12 I16, Fixed 14 I16, Fixed 16 I16,
       Fixed 18 I16, Fixed 20 U16, Fixed 22 U16, Fixed 24 U32])] @
    map (\<lambda>op. (op, [Fixed 0 U32, Fixed 4 U32, ElementArrayTail 8 U16])) [64, 65, 66, 67, 70] @
    [(68, [Fixed 0 U32, Fixed 4 U32, ElementArrayTail 8 U16]),
     (71, [Fixed 0 U32, Fixed 4 U32, ElementArrayTail 8 U16]),
     (69, [Fixed 0 U32, Fixed 4 U32, Fixed 10 U16, ElementArrayTail 12 I16]),
     (72, [Fixed 0 U32, Fixed 4 U32, Fixed 8 U16, Fixed 10 U16, Fixed 12 I16, Fixed 14 I16,
       OpaqueTail 16]),
     (73, [Fixed 0 U32, Fixed 4 I16, Fixed 6 I16, Fixed 8 U16, Fixed 10 U16, Fixed 12 U32])] @
    map (\<lambda>op. (op, [Fixed 0 U32, Fixed 4 U32, Fixed 8 I16, Fixed 10 I16, OpaqueTail 12])) [74, 75, 76, 77]"

definition core_request_swap_rows_colour :: "(u8 \<times> FieldEntry list) list" where
  "core_request_swap_rows_colour =
    [(78, [Fixed 0 U32, Fixed 4 U32, Fixed 8 U32]),
     (80, [Fixed 0 U32, Fixed 4 U32]),
     (84, [Fixed 0 U32, Fixed 4 U16, Fixed 6 U16, Fixed 8 U16]),
     (85, [Fixed 0 U32, Fixed 4 U16, OpaqueTail 8]),
     (86, [Fixed 0 U32, Fixed 4 U16, Fixed 6 U16]),
     (87, [Fixed 0 U32, Fixed 4 U16, Fixed 6 U16, Fixed 8 U16, Fixed 10 U16]),
     (88, [Fixed 0 U32, Fixed 4 U32, ElementArrayTail 8 U32]),
     (89, [Fixed 0 U32, ElementArrayTail 4 U16]),
     (90, [Fixed 0 U32, Fixed 4 U32, Fixed 8 U16, OpaqueTail 12]),
     (91, [Fixed 0 U32, ElementArrayTail 4 U32]),
     (92, [Fixed 0 U32, Fixed 4 U16, OpaqueTail 8]),
     (93, [Fixed 0 U32, Fixed 4 U32, Fixed 8 U32, Fixed 12 U16, Fixed 14 U16, Fixed 16 U16,
       Fixed 18 U16, Fixed 20 U16, Fixed 22 U16, Fixed 24 U16, Fixed 26 U16]),
     (94, [Fixed 0 U32, Fixed 4 U32, Fixed 8 U32, Fixed 12 U16, Fixed 14 U16, Fixed 16 U16,
       Fixed 18 U16, Fixed 20 U16, Fixed 22 U16, Fixed 24 U16, Fixed 26 U16]),
     (96, [Fixed 0 U32, Fixed 4 U16, Fixed 6 U16, Fixed 8 U16, Fixed 10 U16, Fixed 12 U16,
       Fixed 14 U16]),
     (97, [Fixed 0 U32, Fixed 4 U16, Fixed 6 U16]),
     (98, [Fixed 0 U16, OpaqueTail 4]),
     (100, [ElementArrayTail 4 U32]),
     (101, []),
     (102, [Fixed 0 U32, ElementArrayTail 4 U32]),
     (105, [Fixed 0 I16, Fixed 2 I16, Fixed 4 I16]),
     (107, [Fixed 0 I16, Fixed 2 I16]),
     (109, [Fixed 2 U16, OpaqueTail 4]),
     (114, [Fixed 0 U32, Fixed 4 U16, Fixed 6 I16, ElementArrayTail 8 U32])]"

definition xi_request_swap_rows_xi1 :: "(u8 \<times> FieldEntry list) list" where
  "xi_request_swap_rows_xi1 =
    [(1, [Fixed 0 U16, OpaqueTail 4]),
     (2, []),
     (3, []),
     (4, []),
     (5, []),
     (6, [Fixed 0 U32, Fixed 4 U16, ElementArrayTail 8 U32]),
     (7, [Fixed 0 U32]),
     (8, [Fixed 0 U32, Fixed 4 U16, ElementArrayTail 8 U32]),
     (9, [Fixed 0 U32]),
     (10, [Fixed 0 U32, Fixed 4 U32]),
     (11, []),
     (12, []),
     (13, [Fixed 0 U32, Fixed 4 U32, Fixed 8 U16, ElementArrayTail 16 U32]),
     (14, [Fixed 0 U32]),
     (15, [Fixed 0 U32, Fixed 4 U16, Fixed 6 U16, ElementArrayTail 16 U32]),
     (16, [Fixed 0 U32, Fixed 4 U16]),
     (17, [Fixed 0 U32, Fixed 6 U16, Fixed 8 U16, ElementArrayTail 16 U32]),
     (18, [Fixed 0 U32, Fixed 4 U16]),
     (19, [Fixed 0 U32]),
     (20, []),
     (21, [Fixed 0 U32, Fixed 4 U32]),
     (22, []),
     (23, [Fixed 0 U32, OpaqueTail 8]),
     (24, []),
     (25, [ElementArrayTail 4 U32]),
     (26, []),
     (27, []),
     (28, []),
     (29, []),
     (30, []),
     (31, [Fixed 0 U32, Fixed 6 U16, OpaqueTail 12]),
     (32, []),
     (33, [ElementArrayTail 4 U32]),
     (34, [Fixed 0 U16]),
     (35, [Fixed 0 U16, OpaqueTail 4]),
     (36, []),
     (37, [Fixed 0 U32, Fixed 4 U32, Fixed 12 U32, OpaqueTail 16]),
     (38, [Fixed 0 U32]),
     (39, [Fixed 0 U32, Fixed 4 U32, Fixed 8 U32, Fixed 12 U32])]"

definition xi_request_swap_rows_xi2 :: "(u8 \<times> FieldEntry list) list" where
  "xi_request_swap_rows_xi2 =
    [(40, [Fixed 0 U32, Fixed 4 U16]),
     (41, [Fixed 0 U32, Fixed 4 U32, Fixed 8 U32, Fixed 12 U32, Fixed 16 U16, Fixed 18 U16,
       Fixed 20 U32, Fixed 24 U32, Fixed 28 U16]),
     (42, [Fixed 0 U32, Fixed 4 U32, Fixed 8 U16]),
     (43, [OpaqueTail 4]),
     (44, [Fixed 0 U32, Fixed 4 U16]),
     (45, [Fixed 0 U32]),
     (46, [Fixed 0 U32, Fixed 4 U16, OpaqueTail 8]),
     (47, [Fixed 0 U16, Fixed 2 U16]),
     (48, [Fixed 0 U16]),
     (49, [Fixed 0 U32, Fixed 4 U32, Fixed 8 U16]),
     (50, [Fixed 0 U16]),
     (51, [Fixed 0 U32, Fixed 4 U32, Fixed 8 U32, Fixed 12 U16, Fixed 18 U16]),
     (52, [Fixed 0 U32, Fixed 4 U16]),
     (53, [Fixed 0 U32, Fixed 4 U16, Fixed 8 U32, Fixed 12 U32]),
     (54, [Fixed 0 U32, Fixed 4 U32, Fixed 8 U32, Fixed 12 U32, Fixed 16 U16, Fixed 18 U16,
       Fixed 20 U16, OpaqueTail 28]),
     (55, [Fixed 0 U32, Fixed 4 U32, Fixed 8 U16, Fixed 10 U16, ElementArrayTail 16 U32]),
     (56, [Fixed 0 U16]),
     (57, [Fixed 0 U16, Fixed 4 U32, Fixed 8 U32, Fixed 12 U32, OpaqueTail 16]),
     (58, [Fixed 0 U16, Fixed 4 U32]),
     (59, [Fixed 0 U16, Fixed 4 U32, Fixed 8 U32, Fixed 12 U32, Fixed 16 U32]),
     (60, [Fixed 0 U32]),
     (61, [Fixed 0 U32, ElementArrayTail 4 U32])]"

definition core_request_swap_table :: "u8 \<Rightarrow> FieldEntry list option" where
  "core_request_swap_table opcode =
     map_of (core_request_swap_rows_windows @ core_request_swap_rows_drawing
       @ core_request_swap_rows_colour) opcode"

definition xi_request_swap_table :: "u8 \<Rightarrow> FieldEntry list option" where
  "xi_request_swap_table minor = map_of (xi_request_swap_rows_xi1 @ xi_request_swap_rows_xi2) minor"

definition extension_request_swap_table :: "u8 \<Rightarrow> u8 \<Rightarrow> FieldEntry list option" where
  "extension_request_swap_table major minor =
     (if major = 137 then xi_request_swap_table minor else None)"

section \<open>The swap of a request body\<close>

definition swap_request_body :: "u8 \<Rightarrow> u8 \<Rightarrow> ClientByteOrder \<Rightarrow> u8 list \<Rightarrow> u8 list" where
  "swap_request_body major minor byte_order body =
     (case byte_order of
        LittleEndian \<Rightarrow> body
      | BigEndian \<Rightarrow>
          (let entries =
             (if major < 128 then core_request_swap_table major
              else extension_request_swap_table major minor)
           in case entries of
                Some entries \<Rightarrow> swap_in_place entries byte_order body
              | None \<Rightarrow> body))"

text \<open>The table that \<open>swap_request_body\<close> selects.\<close>

definition request_swap_table :: "u8 \<Rightarrow> u8 \<Rightarrow> FieldEntry list option" where
  "request_swap_table major minor =
     (if major < 128 then core_request_swap_table major
      else extension_request_swap_table major minor)"

lemma swap_request_body_table:
  "swap_request_body major minor BigEndian body =
     (case request_swap_table major minor of
        Some es \<Rightarrow> swap_in_place es BigEndian body | None \<Rightarrow> body)"
  by (simp add: swap_request_body_def request_swap_table_def Let_def)

section \<open>Every table passes the check\<close>

lemma core_rows_ok:
  "list_all (\<lambda>(op, es). entries_ok 0 es)
     (core_request_swap_rows_windows @ core_request_swap_rows_drawing @ core_request_swap_rows_colour)"
  by (simp add: core_request_swap_rows_windows_def core_request_swap_rows_drawing_def
      core_request_swap_rows_colour_def FieldKind_size_def)

lemma xi_rows_ok:
  "list_all (\<lambda>(op, es). entries_ok 0 es) (xi_request_swap_rows_xi1 @ xi_request_swap_rows_xi2)"
  by (simp add: xi_request_swap_rows_xi1_def xi_request_swap_rows_xi2_def FieldKind_size_def)

lemma event_rows_ok:
  "list_all (\<lambda>(t, es). entries_ok 2 es) (core_event_swap_rows_low @ core_event_swap_rows_high)"
  by (simp add: core_event_swap_rows_low_def core_event_swap_rows_high_def FieldKind_size_def)

lemma rows_ok_map_of:
  "list_all (\<lambda>(op, es). P es) rows \<Longrightarrow> map_of rows op = Some es \<Longrightarrow> P es"
  by (auto simp: list_all_iff dest: map_of_SomeD)

lemma request_swap_table_ok: "request_swap_table major minor = Some es \<Longrightarrow> entries_ok 0 es"
  using rows_ok_map_of [OF core_rows_ok] rows_ok_map_of [OF xi_rows_ok]
  by (auto simp: request_swap_table_def core_request_swap_table_def xi_request_swap_table_def
      extension_request_swap_table_def simp del: map_of_append split: if_splits)

lemma core_event_swap_table_ok: "entries_ok 2 (core_event_swap_table t)"
  using rows_ok_map_of [OF event_rows_ok]
  by (auto simp: core_event_swap_table_def simp del: map_of_append split: option.splits)

lemma swap_request_body_length [simp]:
  "length (swap_request_body major minor bo body) = length body"
  by (cases bo)
    (auto simp: swap_request_body_table swap_in_place_length [OF request_swap_table_ok]
      split: option.splits, simp add: swap_request_body_def)

section \<open>Text requests\<close>

text \<open>\<open>query_text_extents_request\<close> (\<open>x11/mod.rs\<close>): the CHAR2B string of a QueryTextExtents body,
  with the last character dropped when the header's odd-length flag is set.\<close>

fun char2b_pairs :: "u8 list \<Rightarrow> (u8 \<times> u8) list" where
  "char2b_pairs (a # b # rest) = (a, b) # char2b_pairs rest"
| "char2b_pairs _ = []"

definition query_text_extents_request :: "u8 \<Rightarrow> u8 list \<Rightarrow> (u32 \<times> (u8 \<times> u8) list) option" where
  "query_text_extents_request odd_length body =
     (if length body < 4 then None
      else case read_u32_le (slice 0 4 body) of
          None \<Rightarrow> None
        | Some fontable \<Rightarrow>
            (let string_bytes = drop 4 body; pad = (if odd_length \<noteq> 0 then 2 else 0)
             in if length string_bytes < pad then None
                else Some (fontable, char2b_pairs (take (length string_bytes - pad) string_bytes))))"

section \<open>Properties\<close>

text \<open>Claim C2. Swapping a request body twice gives the body back, for every opcode, every minor,
  every byte order and every body: no table reverses a byte twice, so a swap never loses data.\<close>

theorem swap_request_body_involution:
  "swap_request_body major minor bo (swap_request_body major minor bo body) = body"
proof (cases bo)
  case BigEndian
  then show ?thesis
    by (auto simp: swap_request_body_table swap_in_place_involution [OF request_swap_table_ok]
        split: option.splits)
qed (simp add: swap_request_body_def)

text \<open>After the swap of a big-endian client's request, a little-endian read of a typed
  field that the opcode's table lists returns what the client wrote there in big-endian order, for
  16-bit and 32-bit fields alike.\<close>

theorem swap_request_body_field:
  assumes "request_swap_table major minor = Some es" and "Fixed off kind \<in> set es"
    and "off + FieldKind_size kind \<le> length body"
  shows "(if FieldKind_size kind = 2
      then read_u16_le (slice off 2 (swap_request_body major minor BigEndian body))
        = read_u16 BigEndian (slice off 2 body)
      else read_u32_le (slice off 4 (swap_request_body major minor BigEndian body))
        = read_u32 BigEndian (slice off 4 body))"
proof -
  have "slice off (FieldKind_size kind) (swap_request_body major minor BigEndian body) =
      rev (slice off (FieldKind_size kind) body)"
    using swap_in_place_field [OF request_swap_table_ok [OF assms(1)] assms(2,3)] assms(1)
    by (simp add: swap_request_body_table)
  then show ?thesis using assms(3)
    by (auto simp: read_u16_le_eq read_u32_le_eq FieldKind_size_def split: FieldKind.splits)
qed

theorem swap_request_body_field_witness:
  "request_swap_table 16 0 = Some [Fixed 0 U16, OpaqueTail 4] \<and>
   read_u16_le (slice 0 2 (swap_request_body 16 0 BigEndian [0, 3, 9, 9, 65, 66, 67, 0])) = Some 3"
proof -
  have t: "request_swap_table 16 0 = Some [Fixed 0 U16, OpaqueTail 4]"
    by (simp add: request_swap_table_def core_request_swap_table_def
        core_request_swap_rows_windows_def)
  have "read_u16 BigEndian (slice 0 2 [0, 3, 9, 9, 65, 66, 67, 0]) = Some 3"
    by (simp add: read_u16_def slice_def u16_from_be_bytes_def u16_from_le_bytes_def)
  then show ?thesis
    using t swap_request_body_field [OF t, of 0 U16 "[0, 3, 9, 9, 65, 66, 67, 0]"]
    by (simp add: FieldKind_size_def)
qed

text \<open>The event table never touches the type and detail bytes of an event, and
  re-encoding an event template twice gives the template back.\<close>

theorem core_event_swap_frame:
  "take 2 (swap_in_place (core_event_swap_table t) bo ev) = take 2 ev
   \<and> swap_in_place (core_event_swap_table t) bo (swap_in_place (core_event_swap_table t) bo ev) = ev"
proof
  let ?es = "core_event_swap_table t"
  show "swap_in_place ?es bo (swap_in_place ?es bo ev) = ev"
    by (rule swap_in_place_involution [OF core_event_swap_table_ok])
  let ?rs = "concat (map (entry_ranges (length ev)) ?es)"
  have ok: "ranges_ok 2 (length ev) ?rs"
    by (rule entries_ok_ranges [OF core_event_swap_table_ok])
  have "take 2 (rev_ranges ?rs ev) = take 2 ev"
  proof (cases "2 \<le> length ev")
    case True
    then show ?thesis using slice_rev_ranges_below [OF ok, of 0 2] by (simp add: slice_def)
  next
    case False
    then have "?rs = []" using ok by (cases ?rs) auto
    then show ?thesis by (simp only: rev_ranges_Nil)
  qed
  then show "take 2 (swap_in_place ?es bo ev) = take 2 ev"
    by (cases bo) (simp_all add: swap_in_place_ranges [OF core_event_swap_table_ok],
        simp add: swap_in_place_def)
qed

text \<open>GrabButton carries its modifiers in the last two bytes of its 20-byte body (offset
  18, where the handler reads them), but the table lists offset 20, past the end: for a
  big-endian client the swap leaves the modifiers in the client's byte order, so the server grabs
  the button with the two modifier bytes exchanged.\<close>

theorem grab_button_modifiers_not_swapped:
  assumes "length body = 20"
  shows "slice 18 2 (swap_request_body 28 minor BigEndian body) = slice 18 2 body"
proof -
  have t: "request_swap_table 28 minor =
      Some [Fixed 0 U32, Fixed 4 U16, Fixed 8 U32, Fixed 12 U32, Fixed 20 U16]"
    by (simp add: request_swap_table_def core_request_swap_table_def
        core_request_swap_rows_windows_def)
  have rs: "concat (map (entry_ranges (length body))
        [Fixed 0 U32, Fixed 4 U16, Fixed 8 U32, Fixed 12 U32, Fixed 20 U16])
      = [(0, 4), (4, 2), (8, 4), (12, 4)]"
    using assms by (simp add: FieldKind_size_def)
  have "entries_ok 0 [Fixed 0 U32, Fixed 4 U16, Fixed 8 U32, Fixed 12 U32, Fixed 20 U16]"
    using request_swap_table_ok [OF t] .
  then show ?thesis
    using assms
    by (simp add: swap_request_body_table t swap_in_place_ranges rs slice_rev_range_other)
qed

theorem grab_button_modifiers_not_swapped_witness:
  "read_u16_le (slice 18 2 (swap_request_body 28 0 BigEndian
     ([0, 0, 1, 0, 0, 4, 1, 1, 0, 0, 0, 0, 0, 0, 0, 0, 1, 0, 0, 8])))
   = Some 0x0800"
proof -
  have "slice 18 2 (swap_request_body 28 0 BigEndian
     ([0, 0, 1, 0, 0, 4, 1, 1, 0, 0, 0, 0, 0, 0, 0, 0, 1, 0, 0, 8])) = [0, 8]"
    by (subst grab_button_modifiers_not_swapped) (simp_all add: slice_def)
  then show ?thesis by (simp add: read_u16_le_def u16_from_le_bytes_def)
qed

lemma char2b_pairs_elements:
  "rev_ranges (map (\<lambda>k. (k * 2, 2)) [0..<length s div 2]) s = concat (map (\<lambda>(a, b). [b, a]) (char2b_pairs s))
     @ drop (2 * (length s div 2)) s"
proof (induction s rule: char2b_pairs.induct)
  case (1 a b rest)
  have shift: "rev_ranges (map (\<lambda>k. (Suc (Suc (k * 2)), 2)) ks) (x # y # l) =
      x # y # rev_ranges (map (\<lambda>k. (k * 2, 2)) ks) l" for ks x y and l :: "u8 list"
    using rev_ranges_prefix [of "[x, y]" "map (\<lambda>k. (k * 2, 2)) ks" l]
    by (simp add: comp_def)
  have "map (\<lambda>k. (k * 2, 2 :: nat)) [0..<Suc (length rest div 2)] =
      (0, 2) # map (\<lambda>k. (Suc (Suc (k * 2)), 2)) [0..<length rest div 2]"
    by (subst upt_conv_Cons) (auto simp: map_Suc_upt [symmetric] simp del: upt_Suc)
  moreover have "rev_range 0 2 (a # b # rest) = b # a # rest"
    by (simp add: rev_range_def slice_def)
  ultimately show ?case using 1 by (simp add: shift del: upt_Suc)
qed auto

lemma char2b_pairs_swapped:
  "char2b_pairs (concat (map (\<lambda>(a, b). [b, a]) ps) @ rest) = map (\<lambda>(a, b). (b, a)) ps @ char2b_pairs rest"
  by (induction ps) auto

lemma char2b_pairs_short: "length s < 2 \<Longrightarrow> char2b_pairs s = []"
  by (cases s rule: char2b_pairs.cases) auto

lemma query_text_extents_table:
  "request_swap_table 48 minor = Some [Fixed 0 U32, ElementArrayTail 4 U16]"
  by (simp add: request_swap_table_def core_request_swap_table_def
      core_request_swap_rows_windows_def core_request_swap_rows_drawing_def)

text \<open>A CHAR2B string is a sequence of byte pairs in both byte orders, and the
  QueryTextExtents decoder reads it as pairs, but the table swaps it as 16-bit words: the decoder
  sees every character of a big-endian client with its two bytes exchanged.\<close>

theorem query_text_extents_be_chars_exchanged:
  assumes "length body = 4 + 2 * n"
    and "query_text_extents_request 0 (swap_request_body 48 minor BigEndian body) = Some (font, chars)"
  shows "chars = map (\<lambda>(b1, b2). (b2, b1)) (char2b_pairs (drop 4 body))"
proof -
  define s where "s = drop 4 body"
  note t = query_text_extents_table [of minor]
  have body: "body = take 4 body @ s" and l4: "length (take 4 body) = 4" and ls: "length s = 2 * n"
    using assms(1) by (auto simp: s_def)
  obtain a b c d where hd: "take 4 body = [a, b, c, d]"
    using l4 unfolding length_4 by blast
  have rs: "concat (map (entry_ranges (length body)) [Fixed 0 U32, ElementArrayTail 4 U16]) =
      (0, 4) # map (\<lambda>k. (4 + k * 2, 2)) [0..<n]"
    using assms(1) by (simp add: FieldKind_size_def)
  have shift: "rev_ranges (map (\<lambda>k. (4 + k * 2, 2)) ks) (w # x # y # z # l) =
      w # x # y # z # rev_ranges (map (\<lambda>k. (k * 2, 2)) ks) l" for ks w x y z and l :: "u8 list"
  proof -
    have "length [w, x, y, z] = 4" by simp
    then show ?thesis
      using rev_ranges_prefix [of "[w, x, y, z]" "map (\<lambda>k. (k * 2, 2)) ks" l]
      by (simp only: map_map comp_def prod.case append_Cons append_Nil)
  qed
  have "rev_range 0 4 body = [d, c, b, a] @ s"
    by (subst body, subst hd) (simp add: rev_range_def slice_def)
  moreover have "swap_request_body 48 minor BigEndian body =
      rev_ranges ((0, 4) # map (\<lambda>k. (4 + k * 2, 2)) [0..<n]) body"
    by (simp only: swap_request_body_table t option.case
        swap_in_place_ranges [OF request_swap_table_ok [OF t]] rs)
  ultimately have "swap_request_body 48 minor BigEndian body =
      [d, c, b, a] @ rev_ranges (map (\<lambda>k. (k * 2, 2)) [0..<n]) s"
    by (simp add: shift)
  also have "rev_ranges (map (\<lambda>k. (k * 2, 2)) [0..<n]) s = concat (map (\<lambda>(a, b). [b, a]) (char2b_pairs s))"
    using char2b_pairs_elements [of s] ls by simp
  finally have "chars = char2b_pairs (concat (map (\<lambda>(a, b). [b, a]) (char2b_pairs s)))"
    using assms(2)
    by (auto simp: query_text_extents_request_def Let_def slice_def split: option.splits if_splits)
  then show ?thesis
    using char2b_pairs_swapped [of "char2b_pairs s" "[]"] by (simp add: s_def)
qed

theorem query_text_extents_be_chars_exchanged_witness:
  "query_text_extents_request 0 (swap_request_body 48 0 BigEndian [0, 0, 0, 7, 0x26, 0x03])
    = Some (7, map (\<lambda>(b1, b2). (b2, b1)) (char2b_pairs (drop 4 [0, 0, 0, 7, 0x26, 0x03])))"
proof -
  have e: "query_text_extents_request 0 (swap_request_body 48 0 BigEndian [0, 0, 0, 7, 0x26, 0x03])
      = Some (7, [(0x03, 0x26)])"
  proof -
    have ok: "entries_ok 0 [Fixed 0 U32, ElementArrayTail 4 U16]"
      by (rule request_swap_table_ok [OF query_text_extents_table])
    have r1: "rev_range 0 4 [0, 0, 0, 7, 0x26, 0x03] = [7, 0, 0, 0, 0x26, 0x03]"
      and r2: "rev_range 4 2 [7, 0, 0, 0, 0x26, 0x03] = [7, 0, 0, 0, 0x03, 0x26]"
      by (simp_all add: rev_range_def slice_def)
    have rs: "concat (map (entry_ranges 6) [Fixed 0 U32, ElementArrayTail 4 U16]) = [(0, 4), (4, 2)]"
      by (simp add: FieldKind_size_def)
    have "length [0, 0, 0, 7, 0x26, 0x03 :: u8] = 6" by simp
    then have sw: "swap_request_body 48 0 BigEndian [0, 0, 0, 7, 0x26, 0x03] = [7, 0, 0, 0, 0x03, 0x26]"
      by (simp only: swap_request_body_table query_text_extents_table option.case
          swap_in_place_ranges [OF ok] rs rev_ranges_Cons rev_ranges_Nil r1 r2)
    have u: "u32_from_le_bytes 7 0 0 0 = 7" by (simp add: u32_from_le_bytes_def)
    show ?thesis
      unfolding sw by (simp add: slice_def query_text_extents_request_def read_u32_le_def u)
  qed
  have "[(0x03, 0x26)] = map (\<lambda>(b1, b2). (b2, b1)) (char2b_pairs (drop 4 [0, 0, 0, 7, 0x26, 0x03]))"
    by (rule query_text_extents_be_chars_exchanged [OF _ e, of 1]) simp
  then show ?thesis using e by (simp only:)
qed

end
