(* ===== verification/RequestLengths.thy ===== *)
theory RequestLengths
  imports RequestSwap
begin

text \<open>
  Length and value validation of requests (\<open>x11/request_lengths.rs\<close>) and the gate that
  \<open>process_request\<close> puts in front of every handler. Lengths are in four-byte units; the body is the
  request without its header. The slices the source takes are guarded by the length tests in front
  of them, so the little-endian readers of this file index without a bounds branch. Sums of
  \<open>u32\<close> wrap, as in a release build.
\<close>

datatype LenSpec = FixedLen u32 | AtLeast u32

section \<open>Length contracts\<close>

definition core_request_length_rows :: "(u8 \<times> LenSpec) list" where
  "core_request_length_rows =
    [(1, AtLeast 8), (2, AtLeast 3), (3, FixedLen 2), (4, FixedLen 2), (5, FixedLen 2),
     (6, FixedLen 2), (7, FixedLen 4), (8, FixedLen 2), (9, FixedLen 2), (10, FixedLen 2),
     (11, FixedLen 2), (12, AtLeast 3), (13, FixedLen 2), (14, FixedLen 2), (15, FixedLen 2),
     (16, AtLeast 2), (17, FixedLen 2), (18, AtLeast 6), (19, FixedLen 3), (20, FixedLen 6),
     (21, FixedLen 2), (22, FixedLen 4), (23, FixedLen 2), (24, FixedLen 6), (25, FixedLen 11),
     (26, FixedLen 6), (27, FixedLen 2), (28, FixedLen 6), (29, FixedLen 3), (30, FixedLen 4),
     (31, FixedLen 4), (32, FixedLen 2), (33, FixedLen 4), (34, FixedLen 3), (35, FixedLen 2),
     (36, FixedLen 1), (37, FixedLen 1), (38, FixedLen 2), (39, FixedLen 4), (40, FixedLen 4),
     (41, FixedLen 6), (42, FixedLen 3), (43, FixedLen 1), (44, FixedLen 1), (45, AtLeast 3),
     (46, FixedLen 2), (47, FixedLen 2), (48, AtLeast 2), (49, AtLeast 2), (50, AtLeast 2),
     (51, AtLeast 2), (52, FixedLen 1), (53, FixedLen 4), (54, FixedLen 2), (55, AtLeast 4),
     (56, AtLeast 3), (57, FixedLen 4), (58, AtLeast 3), (59, AtLeast 3), (60, FixedLen 2),
     (61, FixedLen 4), (62, FixedLen 7), (63, FixedLen 8), (64, AtLeast 3), (65, AtLeast 3),
     (66, AtLeast 3), (67, AtLeast 3), (68, AtLeast 3), (69, AtLeast 4), (70, AtLeast 3),
     (71, AtLeast 3), (72, AtLeast 6), (73, FixedLen 5), (74, AtLeast 4), (75, AtLeast 4),
     (76, AtLeast 4), (77, AtLeast 4), (78, FixedLen 4), (79, FixedLen 2), (80, FixedLen 3),
     (81, FixedLen 2), (82, FixedLen 2), (83, FixedLen 2), (84, FixedLen 4), (85, AtLeast 3),
     (86, FixedLen 3), (87, FixedLen 4), (88, AtLeast 3), (89, AtLeast 1), (90, AtLeast 4),
     (91, AtLeast 2), (92, AtLeast 3), (93, FixedLen 8), (94, FixedLen 8), (95, FixedLen 2),
     (96, FixedLen 5), (97, FixedLen 3), (98, AtLeast 2), (99, FixedLen 1), (100, AtLeast 2),
     (101, FixedLen 2), (102, AtLeast 2), (103, FixedLen 1), (104, FixedLen 1),
     (105, FixedLen 3), (106, FixedLen 1), (107, FixedLen 3), (108, FixedLen 1),
     (109, AtLeast 2), (110, FixedLen 1), (111, FixedLen 1), (112, FixedLen 1),
     (113, FixedLen 2), (114, AtLeast 3), (115, FixedLen 1), (116, AtLeast 1),
     (117, FixedLen 1), (118, AtLeast 1), (119, FixedLen 1), (127, AtLeast 1)]"

definition xi_request_length_rows :: "(u8 \<times> LenSpec) list" where
  "xi_request_length_rows =
    [(1, AtLeast 2), (2, FixedLen 1), (3, FixedLen 2), (4, FixedLen 2), (5, FixedLen 2),
     (6, AtLeast 3), (7, FixedLen 2), (8, AtLeast 3), (9, FixedLen 2), (10, FixedLen 4),
     (11, FixedLen 2), (12, FixedLen 2), (13, AtLeast 5), (14, FixedLen 3), (15, AtLeast 5),
     (16, FixedLen 4), (17, AtLeast 5), (18, FixedLen 4), (19, FixedLen 3), (20, FixedLen 2),
     (21, FixedLen 4), (22, FixedLen 2), (23, AtLeast 3), (24, FixedLen 2), (25, AtLeast 2),
     (26, FixedLen 2), (27, AtLeast 2), (28, FixedLen 2), (29, AtLeast 2), (30, FixedLen 2),
     (31, AtLeast 4), (32, FixedLen 2), (33, AtLeast 2), (34, FixedLen 2), (35, AtLeast 3),
     (36, FixedLen 2), (37, AtLeast 5), (38, FixedLen 3), (39, FixedLen 6), (40, FixedLen 3),
     (41, FixedLen 9), (42, FixedLen 4), (43, AtLeast 2), (44, FixedLen 3), (45, FixedLen 2),
     (46, AtLeast 3), (47, FixedLen 2), (48, FixedLen 2), (49, AtLeast 4), (50, AtLeast 2),
     (51, AtLeast 6), (52, FixedLen 3), (53, AtLeast 3), (54, AtLeast 8), (55, AtLeast 5),
     (56, FixedLen 2), (57, AtLeast 5), (58, FixedLen 3), (59, FixedLen 6), (60, FixedLen 2),
     (61, AtLeast 2)]"

definition core_request_length :: "u8 \<Rightarrow> LenSpec option" where
  "core_request_length opcode = map_of core_request_length_rows opcode"

definition validate_core_request_length :: "u8 \<Rightarrow> u32 \<Rightarrow> bool" where
  "validate_core_request_length opcode length_units =
     (case core_request_length opcode of
        Some (FixedLen n) \<Rightarrow> length_units = n
      | Some (AtLeast n) \<Rightarrow> length_units \<ge> n
      | None \<Rightarrow> True)"

definition xi_request_length :: "u8 \<Rightarrow> LenSpec option" where
  "xi_request_length minor = map_of xi_request_length_rows minor"

definition validate_xi_request_length :: "u8 \<Rightarrow> u32 \<Rightarrow> bool" where
  "validate_xi_request_length minor length_units =
     (case xi_request_length minor of
        Some (FixedLen n) \<Rightarrow> length_units = n
      | Some (AtLeast n) \<Rightarrow> length_units \<ge> n
      | None \<Rightarrow> True)"

section \<open>Readers and arithmetic helpers\<close>

text \<open>\<open>bytes.div_ceil(4)\<close>\<close>

definition pad_units :: "u32 \<Rightarrow> u32" where
  "pad_units bytes = bytes div 4 + (if bytes mod 4 = 0 then 0 else 1)"

text \<open>\<open>read_u16_le(&body[i..i + 2])\<close> and \<open>read_u32_le(&body[i..i + 4])\<close> of this file, both \<open>u32\<close>.\<close>

definition le16_at :: "u8 list \<Rightarrow> nat \<Rightarrow> u32" where
  "le16_at body i = ucast (body ! i) OR push_bit 8 (ucast (body ! (i + 1)))"

definition le32_at :: "u8 list \<Rightarrow> nat \<Rightarrow> u32" where
  "le32_at body i =
     ucast (body ! i) OR push_bit 8 (ucast (body ! (i + 1)))
       OR push_bit 16 (ucast (body ! (i + 2))) OR push_bit 24 (ucast (body ! (i + 3)))"

definition count_ones :: "u32 \<Rightarrow> u32" where
  "count_ones w = of_nat (length (filter (bit w) [0..<32]))"

definition checked_mul :: "u32 \<Rightarrow> u32 \<Rightarrow> u32 option" where
  "checked_mul a b = (if unat a * unat b < 2 ^ 32 then Some (a * b) else None)"

abbreviation u32_of_u8 :: "u8 \<Rightarrow> u32" where
  "u32_of_u8 b \<equiv> ucast b"

section \<open>Content-derived lengths\<close>

definition xi_exact_required_length :: "u8 \<Rightarrow> u8 list \<Rightarrow> u32 option" where
  "xi_exact_required_length minor body =
     (if minor = 1 \<and> length body \<ge> 2 then Some (2 + pad_units (le16_at body 0))
      else if minor = 6 \<and> length body \<ge> 6 then Some (3 + le16_at body 4)
      else if minor = 8 \<and> length body \<ge> 6 then Some (3 + le16_at body 4)
      else if minor = 13 \<and> length body \<ge> 10 then Some (5 + le16_at body 8)
      else if minor = 15 \<and> length body \<ge> 6 then Some (5 + le16_at body 4)
      else if minor = 17 \<and> length body \<ge> 8 then Some (5 + le16_at body 6)
      else if minor = 25 \<and> length body \<ge> 4 then
        Some (2 + u32_of_u8 (body ! 2) * u32_of_u8 (body ! 3))
      else if minor = 27 \<and> length body \<ge> 2 then Some (2 + 2 * u32_of_u8 (body ! 1))
      else if minor = 29 \<and> length body \<ge> 2 then Some (2 + pad_units (u32_of_u8 (body ! 1)))
      else if minor = 31 \<and> length body \<ge> 9 then
        Some (4 + 8 * u32_of_u8 (body ! 8) + le16_at body 6)
      else if minor = 33 \<and> length body \<ge> 3 then Some (2 + u32_of_u8 (body ! 2))
      else if minor = 35 \<and> length body \<ge> 8 then Some (2 + pad_units (le16_at body 6))
      else None)"

definition validate_xi_exact_request_length :: "u8 \<Rightarrow> u32 \<Rightarrow> u8 list \<Rightarrow> bool" where
  "validate_xi_exact_request_length minor length_units body =
     (case xi_exact_required_length minor body of
        Some required \<Rightarrow> length_units = required
      | None \<Rightarrow> True)"

text \<open>\<open>exact_required_length\<close> is one \<open>match\<close> on the opcode. Its arms that compute a length from
  the content are the first definition, the arms that test the shape of a list tail, with
  \<open>u32::MAX\<close> as the length that never matches, the second.\<close>

definition exact_required_content :: "u8 \<Rightarrow> u8 \<Rightarrow> u8 list \<Rightarrow> u32 option" where
  "exact_required_content opcode header_data body =
     (if opcode = 1 \<and> length body \<ge> 28 then Some (8 + count_ones (le32_at body 24))
      else if opcode = 2 \<and> length body \<ge> 8 then Some (3 + count_ones (le32_at body 4))
      else if opcode = 12 \<and> length body \<ge> 6 then Some (3 + count_ones (le16_at body 4))
      else if opcode = 16 \<and> length body \<ge> 2 then Some (2 + pad_units (le16_at body 0))
      else if opcode = 18 \<and> length body \<ge> 20 then
        (let format = u32_of_u8 (body ! 12)
         in if format \<noteq> 8 \<and> format \<noteq> 16 \<and> format \<noteq> 32 then None
            else case checked_mul (le32_at body 16) (format div 8) of
                None \<Rightarrow> None
              | Some bytes \<Rightarrow> Some (6 + pad_units bytes))
      else if opcode = 45 \<and> length body \<ge> 6 then Some (3 + pad_units (le16_at body 4))
      else if (opcode = 49 \<or> opcode = 50) \<and> length body \<ge> 4 then Some (2 + pad_units (le16_at body 2))
      else if opcode = 55 \<and> length body \<ge> 12 then Some (4 + count_ones (le32_at body 8))
      else if opcode = 56 \<and> length body \<ge> 8 then Some (3 + count_ones (le32_at body 4))
      else if opcode = 58 \<and> length body \<ge> 8 then Some (3 + pad_units (le16_at body 6))
      else if (opcode = 85 \<or> opcode = 92) \<and> length body \<ge> 6 then Some (3 + pad_units (le16_at body 4))
      else if opcode = 90 \<and> length body \<ge> 10 then Some (4 + pad_units (le16_at body 8))
      else if opcode = 98 \<and> length body \<ge> 2 then Some (2 + pad_units (le16_at body 0))
      else if opcode = 100 \<and> length body \<ge> 2 then
        (case checked_mul (u32_of_u8 header_data) (u32_of_u8 (body ! 1)) of
           None \<Rightarrow> None
         | Some n \<Rightarrow> Some (2 + n))
      else if opcode = 102 \<and> length body \<ge> 4 then Some (2 + count_ones (le32_at body 0))
      else if opcode = 109 \<and> length body \<ge> 4 then Some (2 + pad_units (le16_at body 2))
      else if opcode = 114 \<and> length body \<ge> 6 then Some (3 + le16_at body 4)
      else if opcode = 116 then Some (1 + pad_units (u32_of_u8 header_data))
      else if opcode = 118 then Some (1 + 2 * u32_of_u8 header_data)
      else None)"

text \<open>\<open>None\<close> when the body is a fixed prefix and a whole number of items, the sentinel otherwise.\<close>

definition shape_check :: "u8 list \<Rightarrow> nat \<Rightarrow> nat \<Rightarrow> u32 option" where
  "shape_check body fixed item =
     (if length body \<ge> fixed \<and> (length body - fixed) mod item = 0 then None else Some (- 1))"

definition exact_required_shape :: "u8 \<Rightarrow> u8 \<Rightarrow> u8 list \<Rightarrow> u32 option" where
  "exact_required_shape opcode header_data body =
     (if opcode = 59 then shape_check body 8 8
      else if opcode = 89 then shape_check body 4 12
      else if opcode = 88 then shape_check body 8 4
      else if opcode = 64 \<or> opcode = 65 then shape_check body 8 4
      else if opcode = 66 \<or> opcode = 67 \<or> opcode = 70 then shape_check body 8 8
      else if opcode = 68 \<or> opcode = 71 then shape_check body 8 12
      else if opcode = 76 \<and> length body \<ge> 12 then
        (let n = u32_of_u8 header_data;
             body_units = of_nat (length body div 4) :: u32;
             expected_units = 4 + pad_units n
         in if body_units = expected_units - 1 then None else Some (- 1))
      else if opcode = 77 \<and> length body \<ge> 12 then
        (let n = 2 * u32_of_u8 header_data;
             body_units = of_nat (length body div 4) :: u32;
             expected_units = 4 + pad_units n
         in if body_units = expected_units - 1 then None else Some (- 1))
      else None)"

definition exact_required_length :: "u8 \<Rightarrow> u8 \<Rightarrow> u8 list \<Rightarrow> u32 option" where
  "exact_required_length opcode header_data body =
     (if opcode \<in> {59, 89, 88, 64, 65, 66, 67, 70, 68, 71, 76, 77}
      then exact_required_shape opcode header_data body
      else exact_required_content opcode header_data body)"

definition validate_exact_request_length :: "u8 \<Rightarrow> u8 \<Rightarrow> u32 \<Rightarrow> u8 list \<Rightarrow> bool" where
  "validate_exact_request_length opcode header_data length_units body =
     (case exact_required_length opcode header_data body of
        None \<Rightarrow> True
      | Some required \<Rightarrow>
          (let total_bytes = unat length_units * 4;
               big_requests = (length body \<le> total_bytes \<and> total_bytes - length body = 8);
               adjusted = (if big_requests then required + 1 else required)
           in length_units = adjusted))"

section \<open>Value masks and value lists\<close>

definition check_mask_u32 :: "u8 list \<Rightarrow> nat \<Rightarrow> u32 \<Rightarrow> u32 option" where
  "check_mask_u32 body off valid_bits =
     (if length body < off + 4 then None
      else let mask = le32_at body off
           in if mask AND NOT valid_bits \<noteq> 0 then Some mask else None)"

definition check_mask_u16 :: "u8 list \<Rightarrow> nat \<Rightarrow> u16 \<Rightarrow> u32 option" where
  "check_mask_u16 body off valid_bits =
     (if length body < off + 2 then None
      else let mask = (ucast (le16_at body off) :: u16)
           in if mask AND NOT valid_bits \<noteq> 0 then Some (ucast mask) else None)"

definition CW_VALID :: u32 where "CW_VALID = 0x7FFF"
definition CFG_VALID :: u16 where "CFG_VALID = 0x7F"
definition GC_VALID :: u32 where "GC_VALID = 0x3FFFFF"
definition KB_VALID :: u32 where "KB_VALID = 0xFF"

definition invalid_value_mask :: "u8 \<Rightarrow> u8 list \<Rightarrow> u32 option" where
  "invalid_value_mask opcode body =
     (if opcode = 1 then check_mask_u32 body 24 CW_VALID
      else if opcode = 2 then check_mask_u32 body 4 CW_VALID
      else if opcode = 12 then check_mask_u16 body 4 CFG_VALID
      else if opcode = 55 then check_mask_u32 body 8 GC_VALID
      else if opcode = 56 then check_mask_u32 body 4 GC_VALID
      else if opcode = 57 then check_mask_u32 body 8 GC_VALID
      else if opcode = 102 then check_mask_u32 body 0 KB_VALID
      else None)"

text \<open>The \<open>for bit in 0..32\<close> loop, with the bits still to visit and the ordinal of the next value.\<close>

fun validate_value_list_loop ::
  "u8 list \<Rightarrow> nat \<Rightarrow> u32 \<Rightarrow> (nat \<Rightarrow> u32 \<Rightarrow> u32 option) \<Rightarrow> nat list \<Rightarrow> nat \<Rightarrow> u32 option" where
  "validate_value_list_loop body values_start value_mask validate_bit [] idx = None"
| "validate_value_list_loop body values_start value_mask validate_bit (b # bits) idx =
     (if \<not> bit value_mask b then validate_value_list_loop body values_start value_mask validate_bit bits idx
      else let off = values_start + idx * 4
           in if length body < off + 4 then None
              else case validate_bit b (le32_at body off) of
                  Some bad \<Rightarrow> Some bad
                | None \<Rightarrow>
                    validate_value_list_loop body values_start value_mask validate_bit bits (idx + 1))"

definition validate_value_list ::
  "u8 list \<Rightarrow> nat \<Rightarrow> u32 \<Rightarrow> (nat \<Rightarrow> u32 \<Rightarrow> u32 option) \<Rightarrow> u32 option" where
  "validate_value_list body values_start value_mask validate_bit =
     validate_value_list_loop body values_start value_mask validate_bit [0..<32] 0"

definition cw_validate_bit :: "nat \<Rightarrow> u32 \<Rightarrow> u32 option" where
  "cw_validate_bit b v =
     (if b = 4 \<and> v > 10 then Some v
      else if b = 5 \<and> v > 10 then Some v
      else if b = 6 \<and> v > 2 then Some v
      else if b = 9 \<and> v > 1 then Some v
      else if b = 10 \<and> v > 1 then Some v
      else if b = 11 \<and> v AND NOT 0x01ffffff \<noteq> 0 then Some v
      else if b = 12 \<and> v AND NOT 0x3F4F \<noteq> 0 then Some v
      else None)"

definition gc_validate_bit :: "nat \<Rightarrow> u32 \<Rightarrow> u32 option" where
  "gc_validate_bit b v =
     (if b = 0 \<and> v > 15 then Some v
      else if b = 5 \<and> v > 2 then Some v
      else if b = 6 \<and> v > 3 then Some v
      else if b = 7 \<and> v > 2 then Some v
      else if b = 8 \<and> v > 3 then Some v
      else if b = 9 \<and> v > 1 then Some v
      else if b = 15 \<and> v > 1 then Some v
      else if b = 16 \<and> v > 1 then Some v
      else if b = 22 \<and> v > 1 then Some v
      else None)"

definition cfg_validate_bit :: "nat \<Rightarrow> u32 \<Rightarrow> u32 option" where
  "cfg_validate_bit b v = (if b = 6 \<and> v > 4 then Some v else None)"

definition kb_validate_bit :: "nat \<Rightarrow> u32 \<Rightarrow> u32 option" where
  "kb_validate_bit b v =
     (let as_i8 = sint (ucast (v AND 0xff) :: u8);
          as_i16 = sint (ucast (v AND 0xffff) :: u16)
      in if b = 0 \<and> \<not> (as_i8 = - 1 \<or> (0 \<le> as_i8 \<and> as_i8 \<le> 100)) then Some v
         else if b = 1 \<and> \<not> (as_i8 = - 1 \<or> (0 \<le> as_i8 \<and> as_i8 \<le> 100)) then Some v
         else if b = 2 \<and> as_i16 < - 1 then Some v
         else if b = 3 \<and> as_i16 < - 1 then Some v
         else if b = 5 \<and> v > 1 then Some v
         else if b = 7 \<and> v > 2 then Some v
         else None)"

section \<open>Scalar ranges\<close>

definition or_else :: "'a option \<Rightarrow> 'a option \<Rightarrow> 'a option" where
  "or_else a b = (case a of Some x \<Rightarrow> Some x | None \<Rightarrow> b)"

definition bad_bool :: "u8 \<Rightarrow> u32 option" where
  "bad_bool b = (if b > 1 then Some (u32_of_u8 b) else None)"

definition check_byte_range :: "u8 list \<Rightarrow> nat \<Rightarrow> u8 \<Rightarrow> u32 option" where
  "check_byte_range body off max_inclusive =
     (if length body \<le> off then None
      else if body ! off > max_inclusive then Some (u32_of_u8 (body ! off)) else None)"

text \<open>ChangePointerControl (105); \<open>as u32\<close> of an \<open>i16\<close> sign-extends.\<close>

definition pointer_control_value :: "u8 list \<Rightarrow> u32 option" where
  "pointer_control_value body =
     (let num = u16_from_le_bytes (body ! 0) (body ! 1);
          den = u16_from_le_bytes (body ! 2) (body ! 3);
          thr = u16_from_le_bytes (body ! 4) (body ! 5);
          do_accel = body ! 6;
          do_thr = body ! 7
      in if do_accel > 1 then Some (u32_of_u8 do_accel)
         else if do_thr > 1 then Some (u32_of_u8 do_thr)
         else if do_accel = 1 \<and> sint num < - 1 then Some (scast num)
         else if do_accel = 1 \<and> sint den < - 1 then Some (scast den)
         else if do_accel = 1 \<and> den = 0 then Some 0
         else if do_thr = 1 \<and> sint thr < - 1 then Some (scast thr)
         else None)"

definition header_range :: "u8 \<Rightarrow> u8 \<Rightarrow> u32 option" where
  "header_range header_data max_inclusive =
     (if header_data > max_inclusive then Some (u32_of_u8 header_data) else None)"

definition invalid_value :: "u8 \<Rightarrow> u8 \<Rightarrow> u8 list \<Rightarrow> u32 option" where
  "invalid_value opcode header_data body =
     (if opcode = 26 then
        or_else (or_else (bad_bool header_data) (check_byte_range body 6 1)) (check_byte_range body 7 1)
      else if opcode = 28 then
        or_else (or_else (or_else (bad_bool header_data) (check_byte_range body 6 1))
          (check_byte_range body 7 1)) (check_byte_range body 16 5)
      else if opcode = 31 then
        or_else (or_else (bad_bool header_data) (check_byte_range body 8 1)) (check_byte_range body 9 1)
      else if opcode = 33 then
        or_else (or_else (bad_bool header_data) (check_byte_range body 7 1)) (check_byte_range body 8 1)
      else if opcode = 63 then
        (if length body < 28 then None
         else let plane = le32_at body 24
              in if count_ones plane = 1 then None else Some plane)
      else if opcode = 1 \<and> length body \<ge> 28 then
        validate_value_list body 28 (le32_at body 24) cw_validate_bit
      else if opcode = 2 \<and> length body \<ge> 8 then
        validate_value_list body 8 (le32_at body 4) cw_validate_bit
      else if opcode = 55 \<and> length body \<ge> 12 then
        validate_value_list body 12 (le32_at body 8) gc_validate_bit
      else if opcode = 56 \<and> length body \<ge> 8 then
        validate_value_list body 8 (le32_at body 4) gc_validate_bit
      else if opcode = 102 \<and> length body \<ge> 4 then
        validate_value_list body 4 (le32_at body 0) kb_validate_bit
      else if opcode = 105 \<and> length body \<ge> 8 then pointer_control_value body
      else if opcode = 6 then header_range header_data 1
      else if opcode = 12 \<and> length body \<ge> 6 then
        validate_value_list body 8 (le16_at body 4) cfg_validate_bit
      else if opcode = 13 then header_range header_data 1
      else if opcode = 25 then header_range header_data 1
      else if opcode = 35 then header_range header_data 7
      else if opcode = 78 then header_range header_data 1
      else if opcode = 104 then
        (if - 100 \<le> sint header_data \<and> sint header_data \<le> 100 then None
         else Some (u32_of_u8 header_data))
      else if opcode = 107 \<and> length body \<ge> 6 then
        (if body ! 4 > 2 then Some (u32_of_u8 (body ! 4))
         else if body ! 5 > 2 then Some (u32_of_u8 (body ! 5))
         else None)
      else if opcode = 115 then header_range header_data 1
      else None)"

section \<open>The gate in front of the handlers\<close>

record RequestHeader =
  rh_opcode :: u8
  rh_data :: u8
  rh_length_units :: u32

datatype gate_result =
    GateError u8 u32 \<comment> \<open>the X error code and its bad value\<close>
  | GatePass

definition BAD_VALUE :: u8 where "BAD_VALUE = 2"
definition BAD_LENGTH :: u8 where "BAD_LENGTH = 16"

definition max_length_units :: "bool \<Rightarrow> u32" where
  "max_length_units big_enabled = (if big_enabled then 256 * 1024 else 0xFFFF)"

text \<open>The checks at the head of \<open>process_request\<close>, up to the dispatch on the opcode.\<close>

definition request_gate :: "bool \<Rightarrow> RequestHeader \<Rightarrow> u8 list \<Rightarrow> gate_result" where
  "request_gate big_enabled header body =
     (if \<not> validate_core_request_length (rh_opcode header) (rh_length_units header)
      then GateError BAD_LENGTH 0
      else if rh_length_units header > max_length_units big_enabled then GateError BAD_LENGTH 0
      else if \<not> validate_exact_request_length (rh_opcode header) (rh_data header)
                 (rh_length_units header) body
      then GateError BAD_LENGTH 0
      else case invalid_value_mask (rh_opcode header) body of
          Some bad \<Rightarrow> GateError BAD_VALUE bad
        | None \<Rightarrow>
            (case invalid_value (rh_opcode header) (rh_data header) body of
               Some bad \<Rightarrow> GateError BAD_VALUE bad
             | None \<Rightarrow> GatePass))"

end
