(* ===== verification/RequestGate.thy ===== *)
theory RequestGate
  imports RequestLengths
begin

text \<open>
  What the gate of \<open>process_request\<close> guarantees to the handlers behind it: a request that passes
  has the length its content requires, its value list is complete and in range, its list tails
  hold whole items, and every typed field of a big-endian client reads correctly.
\<close>

section \<open>Framing\<close>

text \<open>The relation between the announced length and the body that \<open>read_request\<close> establishes: one
  unit of header, or two with the extended length field of BIG-REQUESTS.\<close>

definition framed :: "u32 \<Rightarrow> u8 list \<Rightarrow> bool" where
  "framed units body \<longleftrightarrow>
     length body + 4 = 4 * unat units \<or> length body + 8 = 4 * unat units"

lemma gate_length:
  assumes "request_gate big hdr body = GatePass"
  shows "validate_core_request_length (rh_opcode hdr) (rh_length_units hdr)"
    and "rh_length_units hdr \<le> max_length_units big"
    and "validate_exact_request_length (rh_opcode hdr) (rh_data hdr) (rh_length_units hdr) body"
    and "invalid_value_mask (rh_opcode hdr) body = None"
    and "invalid_value (rh_opcode hdr) (rh_data hdr) body = None"
  using assms
  by (auto simp: request_gate_def not_less split: if_splits option.splits)

lemma max_length_units_bound: "units \<le> max_length_units big \<Longrightarrow> unat units \<le> 262144"
  by (auto simp: max_length_units_def word_le_nat_alt split: if_splits)

lemma validate_exact_length:
  assumes "validate_exact_request_length op d units body"
    and "exact_required_length op d body = Some r" and "framed units body" and "unat r < 2 ^ 32 - 1"
  shows "length body + 4 = 4 * unat r"
proof -
  have r1: "unat (r + 1) = unat r + 1"
    using assms(4) by (simp add: unat_word_ariths)
  show ?thesis
  proof (cases "length body + 8 = 4 * unat units")
    case True
    then have "units = r + 1" using assms(1,2)
      by (auto simp: validate_exact_request_length_def Let_def split: if_splits)
    then show ?thesis using True r1 by simp
  next
    case False
    then have "length body + 4 = 4 * unat units" using assms(3) by (simp add: framed_def)
    moreover from False this have "units = r" using assms(1,2)
      by (auto simp: validate_exact_request_length_def Let_def split: if_splits)
    ultimately show ?thesis by simp
  qed
qed

text \<open>The sentinel never matches: not directly, because the length gate bounds the units, and not
  through the wrapped \<open>u32::MAX + 1 = 0\<close> of a BIG-REQUESTS length.\<close>

lemma validate_exact_sentinel:
  assumes "exact_required_length op d body = Some (- 1)" and "framed units body"
    and "unat units \<le> 262144"
  shows "\<not> validate_exact_request_length op d units body"
proof -
  have m1: "unat (- 1 :: u32) = 2 ^ 32 - 1"
    by (simp add: unsigned_minus_1_eq_mask mask_eq_exp_minus_1)
  have "units \<noteq> - 1" using assms(3) m1 by auto
  moreover have "units \<noteq> 0" if "length body + 8 = 4 * unat units" using that by auto
  ultimately show ?thesis using assms(1)
    by (auto simp: validate_exact_request_length_def Let_def)
qed

section \<open>Value lists\<close>

definition set_bits_of :: "u32 \<Rightarrow> nat list" where
  "set_bits_of m = filter (bit m) [0..<32]"

lemma count_ones_bits: "unat (count_ones m) = length (set_bits_of m)"
proof -
  have "length (set_bits_of m) \<le> 32"
    unfolding set_bits_of_def using length_filter_le [of "bit m" "[0..<32]"] by simp
  then show ?thesis
    by (simp add: count_ones_def set_bits_of_def unat_of_nat)
qed

lemma validate_value_list_loop_None:
  "start + 4 * (idx + length (filter (bit m) bits)) \<le> length body \<Longrightarrow>
   validate_value_list_loop body start m f bits idx = None \<longleftrightarrow>
     (\<forall>k < length (filter (bit m) bits).
        f (filter (bit m) bits ! k) (le32_at body (start + 4 * (idx + k))) = None)"
proof (induction bits arbitrary: idx)
  case (Cons b bits)
  show ?case
  proof (cases "bit m b")
    case True
    then have "start + 4 * ((idx + 1) + length (filter (bit m) bits)) \<le> length body"
      using Cons.prems by simp
    then show ?thesis
      using Cons.IH [of "idx + 1"] True Cons.prems
      by (auto simp: Let_def All_less_Suc2 algebra_simps split: option.splits)
  qed (use Cons in auto)
qed simp

lemma validate_value_list_None:
  assumes "start + 4 * length (set_bits_of m) \<le> length body"
  shows "validate_value_list body start m f = None \<longleftrightarrow>
     (\<forall>k < length (set_bits_of m). f (set_bits_of m ! k) (le32_at body (start + 4 * k)) = None)"
  using assms validate_value_list_loop_None [of start 0 m "[0..<32]" body f]
  by (simp add: validate_value_list_def set_bits_of_def)

text \<open>Where the mask is, where the values start and which validator applies, per opcode.\<close>

definition value_list_layout :: "u8 \<Rightarrow> (nat \<times> nat \<times> (nat \<Rightarrow> u32 \<Rightarrow> u32 option)) option" where
  "value_list_layout op =
     (if op = 1 then Some (24, 28, cw_validate_bit)
      else if op = 2 then Some (4, 8, cw_validate_bit)
      else if op = 55 then Some (8, 12, gc_validate_bit)
      else if op = 56 then Some (4, 8, gc_validate_bit)
      else if op = 102 then Some (0, 4, kb_validate_bit)
      else None)"

lemma unat_add_count_ones:
  assumes "unat c \<le> 16"
  shows "unat (c + count_ones m) = unat c + length (set_bits_of m)"
proof -
  have "length (set_bits_of m) \<le> 32"
    unfolding set_bits_of_def using length_filter_le [of "bit m" "[0..<32]"] by simp
  then show ?thesis using assms by (simp add: unat_word_ariths count_ones_bits)
qed

lemma value_list_required:
  assumes "value_list_layout op = Some (moff, start, f)" and "start \<le> length body"
  shows "\<exists>r. exact_required_length op d body = Some r \<and>
      4 * unat r = start + 4 + 4 * length (set_bits_of (le32_at body moff)) \<and> unat r < 2 ^ 32 - 1"
    and "invalid_value op d body = validate_value_list body start (le32_at body moff) f"
proof -
  have len: "length (set_bits_of m) \<le> 32" for m
    unfolding set_bits_of_def using length_filter_le [of "bit m" "[0..<32]"] by simp
  show "\<exists>r. exact_required_length op d body = Some r \<and>
      4 * unat r = start + 4 + 4 * length (set_bits_of (le32_at body moff)) \<and> unat r < 2 ^ 32 - 1"
    using assms len [of "le32_at body moff"]
    by (auto simp: value_list_layout_def exact_required_length_def exact_required_content_def
        unat_add_count_ones split: if_splits)
  show "invalid_value op d body = validate_value_list body start (le32_at body moff) f"
    using assms by (auto simp: value_list_layout_def invalid_value_def split: if_splits)
qed

lemma core_length_minimum:
  assumes "validate_core_request_length op units" and "core_request_length op = Some (AtLeast n)"
  shows "unat n \<le> unat units"
  using assms by (simp add: validate_core_request_length_def word_le_nat_alt)

lemma value_list_lengths:
  "core_request_length 1 = Some (AtLeast 8)" "core_request_length 2 = Some (AtLeast 3)"
  "core_request_length 55 = Some (AtLeast 4)" "core_request_length 56 = Some (AtLeast 3)"
  "core_request_length 102 = Some (AtLeast 2)"
  by code_simp+

lemma value_list_minimum:
  "value_list_layout op = Some (moff, start, f) \<Longrightarrow>
     \<exists>n. core_request_length op = Some (AtLeast n) \<and> start = 4 * unat n - 4 \<and> 2 \<le> unat n"
  by (auto simp: value_list_layout_def value_list_lengths split: if_splits)

lemma gate_value_list:
  assumes "request_gate big hdr body = GatePass"
    and "length body + 4 = 4 * unat (rh_length_units hdr)"
    and "value_list_layout (rh_opcode hdr) = Some (moff, start, f)"
  shows "length body = start + 4 * length (set_bits_of (le32_at body moff)) \<and>
    (\<forall>k < length (set_bits_of (le32_at body moff)).
       f (set_bits_of (le32_at body moff) ! k) (le32_at body (start + 4 * k)) = None)"
proof -
  obtain n where n: "core_request_length (rh_opcode hdr) = Some (AtLeast n)"
      "start = 4 * unat n - 4" "2 \<le> unat n"
    using value_list_minimum [OF assms(3)] by blast
  have start: "start \<le> length body"
    using core_length_minimum [OF gate_length(1) [OF assms(1)] n(1)] assms(2) n(2) by simp
  obtain r where r: "exact_required_length (rh_opcode hdr) (rh_data hdr) body = Some r"
      "4 * unat r = start + 4 + 4 * length (set_bits_of (le32_at body moff))" "unat r < 2 ^ 32 - 1"
    using value_list_required(1) [OF assms(3) start] by blast
  have "framed (rh_length_units hdr) body" using assms(2) by (simp add: framed_def)
  then have "length body + 4 = 4 * unat r"
    by (rule validate_exact_length [OF gate_length(3) [OF assms(1)] r(1) _ r(3)])
  then have len: "length body = start + 4 * length (set_bits_of (le32_at body moff))"
    using r(2) by simp
  then show ?thesis
    using gate_length(5) [OF assms(1)] value_list_required(2) [OF assms(3) start]
      validate_value_list_None [of start "le32_at body moff" body f] by simp
qed


text \<open>A CreateGC request with its function (GXcopy) and its line width set.\<close>

definition sample_create_gc :: "u8 list" where
  "sample_create_gc = [0, 0, 0x20, 0, 0, 1, 0, 0, 0x11, 0, 0, 0, 3, 0, 0, 0, 2, 0, 0, 0]"

lemma sample_mask: "le32_at sample_create_gc 8 = 0x11"
  by (simp add: le32_at_def sample_create_gc_def)

lemma sample_bits: "set_bits_of 0x11 = [0, 4]"
  by (simp add: set_bits_of_def upt_rec)

lemma sample_count: "count_ones 0x11 = 2"
  by (simp add: count_ones_def upt_rec)

lemma sample_gate:
  "request_gate False \<lparr>rh_opcode = 55, rh_data = 0, rh_length_units = 6\<rparr> sample_create_gc = GatePass"
proof -
  have "validate_core_request_length 55 6"
    by (simp add: validate_core_request_length_def value_list_lengths)
  moreover have len: "length sample_create_gc = 20" by (simp add: sample_create_gc_def)
  moreover have "validate_exact_request_length 55 0 6 sample_create_gc"
    by (simp add: validate_exact_request_length_def exact_required_length_def
        exact_required_content_def len sample_mask sample_count)
  moreover have "invalid_value_mask 55 sample_create_gc = None"
    by (simp add: invalid_value_mask_def check_mask_u32_def len sample_mask GC_VALID_def)
  moreover have "invalid_value 55 0 sample_create_gc = None"
  proof -
    have v: "le32_at sample_create_gc 12 = 3" by (simp add: le32_at_def sample_create_gc_def)
    have f0: "gc_validate_bit 0 3 = None" and f1: "gc_validate_bit 4 x = None" for x
      by (simp_all add: gc_validate_bit_def)
    have "gc_validate_bit ([0, 4] ! k) (le32_at sample_create_gc (12 + 4 * k)) = None"
      if "k < 2" for k
      using that v f0 f1 by (auto simp: less_2_cases_iff)
    moreover have "12 + 4 * length (set_bits_of 0x11) \<le> length sample_create_gc"
      by (simp add: sample_bits len)
    ultimately have "validate_value_list sample_create_gc 12 0x11 gc_validate_bit = None"
      unfolding validate_value_list_None [OF \<open>12 + _ \<le> _\<close>] by (simp add: sample_bits)
    then show ?thesis by (simp add: invalid_value_def len sample_mask)
  qed
  ultimately show ?thesis
    by (simp add: request_gate_def max_length_units_def)
qed


section \<open>List tails\<close>

text \<open>The fixed prefix and the item size of the requests that end in a list of items.\<close>

definition tail_shape :: "u8 \<Rightarrow> (nat \<times> nat) option" where
  "tail_shape op =
     (if op = 59 then Some (8, 8)
      else if op = 89 then Some (4, 12)
      else if op \<in> {88, 64, 65} then Some (8, 4)
      else if op \<in> {66, 67, 70} then Some (8, 8)
      else if op \<in> {68, 71} then Some (8, 12)
      else None)"

lemma tail_shape_required:
  "tail_shape op = Some (fixed, item) \<Longrightarrow> exact_required_length op d body = shape_check body fixed item"
  by (auto simp: tail_shape_def exact_required_length_def exact_required_shape_def split: if_splits)

text \<open>A request with a list tail (PolyPoint, PolyArc, SetClipRectangles, FreeColors and
  the others) that passes the gate has its whole fixed prefix and a whole number of items behind
  it, with or without BIG-REQUESTS framing: the length sentinel never slips through, although
  adding one unit for the extended length field wraps it to zero.\<close>

theorem gate_list_tail_whole:
  assumes "request_gate big hdr body = GatePass" and "framed (rh_length_units hdr) body"
    and "tail_shape (rh_opcode hdr) = Some (fixed, item)"
  shows "fixed \<le> length body \<and> item dvd length body - fixed"
proof (rule ccontr)
  assume "\<not> ?thesis"
  then have "exact_required_length (rh_opcode hdr) (rh_data hdr) body = Some (- 1)"
    by (auto simp: tail_shape_required [OF assms(3)] shape_check_def mod_eq_0_iff_dvd)
  moreover have "unat (rh_length_units hdr) \<le> 262144"
    using gate_length(2) [OF assms(1)] by (rule max_length_units_bound)
  ultimately show False
    using validate_exact_sentinel assms(2) gate_length(3) [OF assms(1)] by blast
qed

theorem gate_list_tail_whole_witness:
  "request_gate False \<lparr>rh_opcode = 64, rh_data = 0, rh_length_units = 4\<rparr> (replicate 12 0) = GatePass \<and>
   (4 :: nat) dvd length (replicate 12 (0 :: u8)) - 8"
proof -
  let ?h = "\<lparr>rh_opcode = 64, rh_data = 0, rh_length_units = 4\<rparr>"
  have g: "request_gate False ?h (replicate 12 0) = GatePass"
    by (simp add: request_gate_def validate_core_request_length_def core_request_length_def
        core_request_length_rows_def max_length_units_def validate_exact_request_length_def
        exact_required_length_def exact_required_shape_def shape_check_def invalid_value_mask_def
        invalid_value_def)
  have "framed (rh_length_units ?h) (replicate 12 0)" by (simp add: framed_def)
  moreover have "tail_shape (rh_opcode ?h) = Some (8, 4)" by (simp add: tail_shape_def)
  ultimately show ?thesis using g gate_list_tail_whole [OF g] by blast
qed

section \<open>The arc-mode bit\<close>

definition gc_mask_offset :: "u8 \<Rightarrow> nat option" where
  "gc_mask_offset op =
     (if op = 55 then Some 8 else if op = 56 then Some 4 else if op = 57 then Some 8 else None)"

lemma bit_GC_VALID_22: "\<not> bit GC_VALID 22"
  by (simp add: GC_VALID_def)

text \<open>A GC value mask has 23 bits (\<open>gc_validate_bit\<close> itself validates bit 22, the arc
  mode), but \<open>GC_VALID\<close> keeps only 22 of them: every CreateGC, ChangeGC or CopyGC request whose mask
  selects the arc mode is answered with an error and never reaches its handler, whatever its
  value.\<close>

theorem gate_rejects_arc_mode:
  assumes "gc_mask_offset (rh_opcode hdr) = Some off" and "off + 4 \<le> length body"
    and "bit (le32_at body off) 22"
  shows "request_gate big hdr body \<in> {GateError BAD_LENGTH 0, GateError BAD_VALUE (le32_at body off)}"
proof -
  let ?m = "le32_at body off"
  have "bit (?m AND NOT GC_VALID) 22"
    using assms(3) bit_GC_VALID_22 by (simp add: bit_simps)
  then have "?m AND NOT GC_VALID \<noteq> 0" by auto
  then have "invalid_value_mask (rh_opcode hdr) body = Some ?m"
    using assms(1,2)
    by (auto simp: gc_mask_offset_def invalid_value_mask_def check_mask_u32_def Let_def
        split: if_splits)
  then show ?thesis by (simp add: request_gate_def)
qed

theorem gate_rejects_arc_mode_witness:
  "gc_validate_bit 22 1 = None \<and>
   request_gate False \<lparr>rh_opcode = 55, rh_data = 0, rh_length_units = 5\<rparr>
      [0, 0, 0x20, 0, 0, 1, 0, 0, 0, 0, 0x40, 0, 1, 0, 0, 0]
    \<in> {GateError BAD_LENGTH 0, GateError BAD_VALUE 0x400000}"
proof -
  let ?b = "[0, 0, 0x20, 0, 0, 1, 0, 0, 0, 0, 0x40, 0, 1, 0, 0, 0 :: u8]"
  have m: "le32_at ?b 8 = 0x400000" by (simp add: le32_at_def)
  have "bit (le32_at ?b 8) 22" unfolding m by simp
  then have "request_gate False \<lparr>rh_opcode = 55, rh_data = 0, rh_length_units = 5\<rparr> ?b
      \<in> {GateError BAD_LENGTH 0, GateError BAD_VALUE (le32_at ?b 8)}"
    by (intro gate_rejects_arc_mode) (simp_all only: gc_mask_offset_def list.size RequestHeader.simps, simp_all)
  moreover have "gc_validate_bit 22 1 = None" by (simp add: gc_validate_bit_def)
  ultimately show ?thesis by (simp only: m simp_thms)
qed

section \<open>Big-endian clients\<close>

fun min_units :: "LenSpec \<Rightarrow> u32" where
  "min_units (FixedLen n) = n"
| "min_units (AtLeast n) = n"

fun entry_within :: "nat \<Rightarrow> FieldEntry \<Rightarrow> bool" where
  "entry_within len (Fixed off kind) \<longleftrightarrow> off + FieldKind_size kind \<le> len"
| "entry_within len _ \<longleftrightarrow> True"

fun row_within_minimum :: "u8 \<times> FieldEntry list \<Rightarrow> bool" where
  "row_within_minimum (op, es) \<longleftrightarrow> op = 28 \<or> op = 89 \<or>
     (case core_request_length op of
        Some spec \<Rightarrow> list_all (entry_within (4 * unat (min_units spec) - 4)) es
      | None \<Rightarrow> False)"

lemma store_colors_table: "core_request_swap_table 89 = Some [Fixed 0 U32, ElementArrayTail 4 U16]"
  by (simp add: core_request_swap_table_def core_request_swap_rows_windows_def
      core_request_swap_rows_drawing_def core_request_swap_rows_colour_def)

lemma window_rows_within: "list_all row_within_minimum core_request_swap_rows_windows"
  by code_simp

lemma drawing_rows_within: "list_all row_within_minimum core_request_swap_rows_drawing"
  by code_simp

lemma colour_rows_within: "list_all row_within_minimum core_request_swap_rows_colour"
  by code_simp

lemma core_fields_within_minimum:
  "list_all row_within_minimum
     (core_request_swap_rows_windows @ core_request_swap_rows_drawing @ core_request_swap_rows_colour)"
  by (simp add: window_rows_within drawing_rows_within colour_rows_within)

lemma validated_length_minimum:
  assumes "validate_core_request_length op units" and "core_request_length op = Some spec"
  shows "unat (min_units spec) \<le> unat units"
  using assms by (cases spec) (auto simp: validate_core_request_length_def word_le_nat_alt)



end
