(* ===== verification/Framing.thy ===== *)
theory Framing
  imports RequestGate
begin

text \<open>
  From bytes to requests: \<open>read_request\<close> (\<open>crates/xserver-protocol/src/x11/mod.rs\<close>) and the loop of a
  client's reader thread (\<open>crates/xserver-core/src/core_loop/client_reader.rs\<close>).

  A socket is the list of the bytes the peer will still deliver and the kind of the error that
  follows them (\<open>UnexpectedEof\<close> for an orderly close). What the thread gets from its environment
  in one turn of the loop is an \<open>Env\<close>: the result of \<open>try_recv\<close>, the descriptors that arrived with
  the bytes of the frame, whether \<open>send\<close> succeeded, and what \<open>recv\<close> returns at the barrier.
\<close>

datatype ErrorKind = UnexpectedEof | ConnectionReset | BrokenPipe | InvalidDataKind | OtherKind

type_synonym socket = "u8 list \<times> ErrorKind"

definition read_exact :: "nat \<Rightarrow> socket \<Rightarrow> ErrorKind + (u8 list \<times> socket)" where
  "read_exact n s = (case s of (bs, e) \<Rightarrow>
     if n \<le> length bs then Inr (take n bs, (drop n bs, e)) else Inl e)"

text \<open>The drain loop of an over-long request, 64 KiB at a time.\<close>

function drain_body :: "nat \<Rightarrow> socket \<Rightarrow> ErrorKind + socket" where
  "drain_body remaining s =
     (if remaining = 0 then Inr s
      else
        (case read_exact (min remaining 65536) s of
           Inl e \<Rightarrow> Inl e
         | Inr (_, s') \<Rightarrow> drain_body (remaining - min remaining 65536) s'))"
  by auto
termination by (relation "measure fst") auto

declare drain_body.simps [simp del]

definition read_request_max_units :: "bool \<Rightarrow> u32" where
  "read_request_max_units big = (if big then 256 * 1024 else 0xFFFF)"

text \<open>The length words: the units, the length of the body and the \<open>malformed\<close> flag.\<close>

definition read_length ::
  "ClientByteOrder \<Rightarrow> bool \<Rightarrow> u8 list \<Rightarrow> socket \<Rightarrow> ErrorKind + (u32 \<times> nat \<times> bool \<times> socket)" where
  "read_length byte_order big header s =
     (let units16 = ucast (the (read_u16 byte_order (drop 2 header))) :: u32 in
      if units16 = 0 \<and> big
      then
        (case read_exact 4 s of
           Inl e \<Rightarrow> Inl e
         | Inr (big_len, s') \<Rightarrow>
             let length_units = the (read_u32 byte_order big_len) in
             if length_units < 2 then Inr (length_units, 0, True, s')
             else Inr (length_units, unat length_units * 4 - 8, False, s'))
      else if units16 < 1 then Inl InvalidDataKind
      else Inr (units16, unat units16 * 4 - 4, False, s))"

definition read_request ::
  "ClientByteOrder \<Rightarrow> bool \<Rightarrow> socket
    \<Rightarrow> ErrorKind + ((RequestHeader \<times> u8 list) option \<times> socket)" where
  "read_request byte_order big s =
     (case read_exact 4 s of
        Inl e \<Rightarrow>
          if e = UnexpectedEof \<or> e = ConnectionReset \<or> e = BrokenPipe then Inr (None, s) else Inl e
      | Inr (header, s1) \<Rightarrow>
          (case read_length byte_order big header s1 of
             Inl e \<Rightarrow> Inl e
           | Inr (length_units, body_len, malformed0, s2) \<Rightarrow>
               let malformed = (malformed0 \<or> length_units > read_request_max_units big);
                   request = \<lparr>rh_opcode = header ! 0, rh_data = header ! 1,
                     rh_length_units = (if malformed then - 1 else length_units)\<rparr>
               in if malformed
                  then
                    (case drain_body body_len s2 of
                       Inl e \<Rightarrow> Inl e
                     | Inr s3 \<Rightarrow> Inr (Some (request, []), s3))
                  else
                    (case read_exact body_len s2 of
                       Inl e \<Rightarrow> Inl e
                     | Inr (body, s3) \<Rightarrow> Inr (Some (request, body), s3))))"

section \<open>The reader thread\<close>

definition expected_fd_count :: "u8 \<Rightarrow> u8 \<Rightarrow> u8 list \<Rightarrow> nat" where
  "expected_fd_count major minor body =
     (if major = 130 \<and> minor = 6 then 1
      else if major = 147
      then
        (if minor = 2 then 1 else if minor = 4 then 1
         else if minor = 7
         then (if length body \<ge> 9 then unat (min 4 (max 1 (body ! 8))) else 1)
         else if minor = 10 then 1 else 0)
      else 0)"

text \<open>The pop loop: the first descriptor is attached, the others are closed.\<close>

fun pop_fds :: "nat \<Rightarrow> nat option \<Rightarrow> nat list \<Rightarrow> nat list \<Rightarrow> nat option \<times> nat list \<times> nat list" where
  "pop_fds 0 attached closed fds = (attached, closed, fds)"
| "pop_fds (Suc n) attached closed [] = (attached, closed, [])"
| "pop_fds (Suc n) attached closed (fd # fds) =
     (case attached of
        None \<Rightarrow> pop_fds n (Some fd) closed fds
      | Some _ \<Rightarrow> pop_fds n attached (closed @ [fd]) fds)"

datatype ReaderControl = ApplyBigRequests | IgnoreBigRequests | Shutdown

datatype TryRecv = Received ReaderControl | EmptyChannel | Disconnected

record ReaderState =
  rs_socket :: socket
  rs_fds :: "nat list"
  rs_big :: bool
  rs_sequence :: u16

record Env =
  env_try_recv :: TryRecv
  env_arrived :: "nat list"
  env_sent :: bool
  env_recv :: "ReaderControl option"

datatype CoreMessage =
    Request u16 RequestHeader "u8 list" "nat option"
  | ClientDisconnected ErrorKind

datatype LoopEnd = Continue ReaderState | ReturnOk | ReturnErr ErrorKind

definition BIG_REQUESTS_ENABLE_MINOR :: u8 where
  "BIG_REQUESTS_ENABLE_MINOR = 0"

text \<open>One turn of the loop in \<open>run\<close>: the messages sent to the core and how the turn ends.\<close>

definition reader_turn ::
  "ClientByteOrder \<Rightarrow> u8 \<Rightarrow> Env \<Rightarrow> ReaderState \<Rightarrow> CoreMessage list \<times> LoopEnd" where
  "reader_turn byte_order big_requests_major env st =
     (if env_try_recv env = Received Shutdown \<or> env_try_recv env = Disconnected
      then ([], ReturnOk)
      else
        (case read_request byte_order (rs_big st) (rs_socket st) of
           Inl e \<Rightarrow> ([], ReturnErr e)
         | Inr (None, _) \<Rightarrow> ([ClientDisconnected UnexpectedEof], ReturnOk)
         | Inr (Some (header, body0), socket) \<Rightarrow>
             let body = swap_request_body (rh_opcode header) (rh_data header) byte_order body0;
                 sequence = rs_sequence st + 1;
                 fd_count = expected_fd_count (rh_opcode header) (rh_data header) body;
                 popped = pop_fds fd_count None [] (rs_fds st @ env_arrived env);
                 is_enable = (rh_opcode header = big_requests_major \<and>
                   rh_data header = BIG_REQUESTS_ENABLE_MINOR);
                 st1 = st\<lparr>rs_socket := socket, rs_sequence := sequence,
                         rs_fds := snd (snd popped)\<rparr>
             in if \<not> env_sent env then ([], ReturnErr OtherKind)
                else
                  ([Request sequence header body (fst popped)],
                   if is_enable
                   then
                     (case env_recv env of
                        Some ApplyBigRequests \<Rightarrow> Continue (st1\<lparr>rs_big := True\<rparr>)
                      | Some IgnoreBigRequests \<Rightarrow> Continue st1
                      | Some Shutdown \<Rightarrow> ReturnOk
                      | None \<Rightarrow> ReturnOk)
                   else Continue st1)))"

fun reader_run ::
  "ClientByteOrder \<Rightarrow> u8 \<Rightarrow> Env list \<Rightarrow> ReaderState \<Rightarrow> CoreMessage list \<times> LoopEnd" where
  "reader_run byte_order major [] st = ([], Continue st)"
| "reader_run byte_order major (env # envs) st =
     (case reader_turn byte_order major env st of
        (ms, Continue st') \<Rightarrow>
          (case reader_run byte_order major envs st' of (ms', end') \<Rightarrow> (ms @ ms', end'))
      | (ms, end') \<Rightarrow> (ms, end'))"

section \<open>The frames of a client\<close>

text \<open>What a client writes: the short header, or the BIG-REQUESTS one with its 32-bit length.\<close>

record Frame =
  fr_opcode :: u8
  fr_data :: u8
  fr_extended :: bool
  fr_body :: "u8 list"

definition frame_units :: "Frame \<Rightarrow> nat" where
  "frame_units f = length (fr_body f) div 4 + (if fr_extended f then 2 else 1)"

definition encode_frame :: "ClientByteOrder \<Rightarrow> Frame \<Rightarrow> u8 list" where
  "encode_frame bo f =
     [fr_opcode f, fr_data f] @
     (if fr_extended f then write_u16 bo [] 0 @ write_u32 bo [] (of_nat (frame_units f))
      else write_u16 bo [] (of_nat (frame_units f))) @ fr_body f"

definition frame_ok :: "bool \<Rightarrow> Frame \<Rightarrow> bool" where
  "frame_ok big f \<longleftrightarrow> length (fr_body f) mod 4 = 0 \<and>
     (if fr_extended f then big \<and> frame_units f \<le> 262144 else frame_units f \<le> 0xFFFF)"

definition frame_header :: "Frame \<Rightarrow> RequestHeader" where
  "frame_header f =
     \<lparr>rh_opcode = fr_opcode f, rh_data = fr_data f, rh_length_units = of_nat (frame_units f)\<rparr>"

section \<open>Reading a frame back\<close>

lemma read_exact_append [simp]:
  "n = length bs \<Longrightarrow> read_exact n (bs @ rest, e) = Inr (bs, (rest, e))"
  by (simp add: read_exact_def)

lemma drain_body_ok:
  "n \<le> length bs \<Longrightarrow> drain_body n (bs, e) = Inr (drop n bs, e)"
proof (induction n arbitrary: bs rule: less_induct)
  case (less n)
  show ?case
  proof (cases "n = 0")
    case False
    let ?k = "min n 65536"
    have "n - ?k < n" "n - ?k \<le> length (drop ?k bs)" using False less.prems by auto
    from less.IH [OF this] have "drain_body (n - ?k) (drop ?k bs, e) = Inr (drop n bs, e)"
      by simp
    then show ?thesis
      using False less.prems by (subst drain_body.simps) (simp add: read_exact_def)
  qed (simp add: drain_body.simps)
qed

lemma frame_units_body: "length (fr_body f) mod 4 = 0 \<Longrightarrow>
    frame_units f * 4 = length (fr_body f) + (if fr_extended f then 8 else 4)"
  by (auto simp: frame_units_def div_mult_mod_eq minus_mod_eq_div_mult algebra_simps)

lemma unat_frame_units32: "frame_units f < 2 ^ 32 \<Longrightarrow> unat (of_nat (frame_units f) :: u32) = frame_units f"
  by (rule unat_of_nat_id) simp

lemma ucast_units16:
  assumes "n \<le> 0xFFFF"
  shows "ucast (of_nat n :: u16) = (of_nat n :: u32)"
proof -
  have "unat (of_nat n :: u16) = n" using assms by (intro unat_of_nat_id) simp
  then show ?thesis by (metis of_nat_unat)
qed

lemma length_write16: "length (write_u16 bo [] v) = 2"
  by (rule u16c.write_width)

lemma length_write32: "length (write_u32 bo [] v) = 4"
  by (rule u32c.write_width)

text \<open>The header of either form, and what \<open>read_length\<close> makes of it.\<close>

lemma read_short_header:
  assumes "\<not> fr_extended f"
  shows "read_exact 4 (encode_frame bo f @ rest, e) =
    Inr ([fr_opcode f, fr_data f] @ write_u16 bo [] (of_nat (frame_units f)), (fr_body f @ rest, e))"
proof -
  have "encode_frame bo f @ rest =
      ([fr_opcode f, fr_data f] @ write_u16 bo [] (of_nat (frame_units f))) @ (fr_body f @ rest)"
    using assms by (simp add: encode_frame_def)
  then show ?thesis by (simp only:) (rule read_exact_append, simp add: length_write16)
qed

lemma read_long_header:
  assumes "fr_extended f"
  shows "read_exact 4 (encode_frame bo f @ rest, e) =
    Inr ([fr_opcode f, fr_data f] @ write_u16 bo [] 0,
      (write_u32 bo [] (of_nat (frame_units f)) @ fr_body f @ rest, e))"
proof -
  have "encode_frame bo f @ rest = ([fr_opcode f, fr_data f] @ write_u16 bo [] 0) @
      (write_u32 bo [] (of_nat (frame_units f)) @ fr_body f @ rest)"
    using assms by (simp add: encode_frame_def)
  then show ?thesis by (simp only:) (rule read_exact_append, simp add: length_write16)
qed

lemma read_length_short:
  assumes "1 \<le> frame_units f" and "frame_units f \<le> 0xFFFF"
  shows "read_length bo big ([a, b] @ write_u16 bo [] (of_nat (frame_units f))) s =
    Inr (of_nat (frame_units f), frame_units f * 4 - 4, False, s)"
proof -
  have r: "read_u16 bo (write_u16 bo [] (of_nat (frame_units f))) = Some (of_nat (frame_units f))"
    using u16c.read_write [of bo _ "[]"] by simp
  have u: "unat (of_nat (frame_units f) :: u32) = frame_units f"
    using assms(2) by (intro unat_frame_units32) simp
  have "\<not> (of_nat (frame_units f) :: u32) < 1"
    using assms(1) u by (simp add: word_less_nat_alt)
  moreover have "(of_nat (frame_units f) :: u32) \<noteq> 0"
    using assms(1) u by (metis unsigned_0 not_one_le_zero)
  ultimately show ?thesis
    by (simp add: read_length_def Let_def r ucast_units16 [OF assms(2)] u)
qed

lemma read_length_long:
  assumes "2 \<le> frame_units f" and "frame_units f < 2 ^ 32"
  shows "read_length bo True ([a, b] @ write_u16 bo [] 0)
      (write_u32 bo [] (of_nat (frame_units f)) @ rest, e) =
    Inr (of_nat (frame_units f), frame_units f * 4 - 8, False, (rest, e))"
proof -
  have r: "read_u16 bo (write_u16 bo [] 0) = Some 0"
    using u16c.read_write [of bo 0 "[]"] by simp
  have r4: "read_u32 bo (write_u32 bo [] v) = Some v" for v
    using u32c.read_write [of bo v "[]"] by simp
  have u: "unat (of_nat (frame_units f) :: u32) = frame_units f"
    using assms(2) by (rule unat_frame_units32)
  have "\<not> (of_nat (frame_units f) :: u32) < 2"
    using assms(1) u by (simp add: word_less_nat_alt)
  then show ?thesis
    by (simp add: read_length_def Let_def r r4 read_exact_append length_write32 u)
qed

lemma frame_units_ge: "1 \<le> frame_units f" "fr_extended f \<Longrightarrow> 2 \<le> frame_units f"
  by (simp_all add: frame_units_def)

text \<open>
  Framing round trip: in both byte orders, with the short length field or (once enabled)
  the extended one, reading a request a client encoded within the size limit returns exactly its
  opcode, data byte, length and body, and leaves exactly the bytes after it in the socket.
\<close>

theorem read_request_roundtrip:
  assumes "frame_ok big f"
  shows "read_request bo big (encode_frame bo f @ rest, e) =
    Inr (Some (frame_header f, fr_body f), (rest, e))"
proof (cases "fr_extended f")
  case False
  then have l: "frame_units f \<le> 0xFFFF" "length (fr_body f) = frame_units f * 4 - 4"
    using assms frame_units_body [of f] by (auto simp: frame_ok_def)
  have u: "unat (of_nat (frame_units f) :: u32) = frame_units f"
    using l(1) by (intro unat_frame_units32) simp
  have m: "\<not> of_nat (frame_units f) > read_request_max_units big"
    using l(1) u by (auto simp: read_request_max_units_def word_less_nat_alt)
  show ?thesis
    unfolding read_request_def read_short_header [OF False]
    using m l(2) by (simp add: read_length_short [OF frame_units_ge(1) l(1), simplified] Let_def
        frame_header_def)
next
  case True
  then have l: "frame_units f \<le> 262144" "length (fr_body f) = frame_units f * 4 - 8" "big"
    using assms frame_units_body [of f] by (auto simp: frame_ok_def)
  have lt: "frame_units f < 2 ^ 32" using l(1) by simp
  have u: "unat (of_nat (frame_units f) :: u32) = frame_units f"
    using lt by (rule unat_frame_units32)
  have m: "\<not> of_nat (frame_units f) > read_request_max_units big"
    using l(1,3) u by (auto simp: read_request_max_units_def word_less_nat_alt)
  show ?thesis
    unfolding read_request_def read_long_header [OF True]
    using m l(2,3)
    by (simp add: read_length_long [OF frame_units_ge(2) [OF True] lt, simplified] Let_def
        frame_header_def)
qed

theorem read_request_roundtrip_witness:
  "read_request BigEndian True
     (encode_frame BigEndian \<lparr>fr_opcode = 8, fr_data = 0, fr_extended = True, fr_body = [0, 0x40, 0, 1]\<rparr>
       @ [7], UnexpectedEof) =
   Inr (Some (\<lparr>rh_opcode = 8, rh_data = 0, rh_length_units = 3\<rparr>, [0, 0x40, 0, 1]), ([7], UnexpectedEof))"
proof -
  have "frame_ok True \<lparr>fr_opcode = 8, fr_data = 0, fr_extended = True, fr_body = [0, 0x40, 0, 1]\<rparr>"
    by (simp add: frame_ok_def frame_units_def)
  from read_request_roundtrip [OF this] show ?thesis
    by (simp add: frame_header_def frame_units_def)
qed

lemma gate_rejects_sentinel:
  "rh_length_units hdr = - 1 \<Longrightarrow> request_gate big hdr body = GateError BAD_LENGTH 0"
proof -
  assume h: "rh_length_units hdr = - 1"
  have "unat (- 1 :: u32) = 2 ^ 32 - 1"
    by (simp add: unsigned_minus_1_eq_mask mask_eq_exp_minus_1)
  then have "rh_length_units hdr > max_length_units big"
    unfolding h by (simp add: word_less_nat_alt max_length_units_def)
  then show ?thesis by (simp add: request_gate_def)
qed

text \<open>
  An over-long BIG-REQUESTS request does not break the stream: the reader drains its
  whole payload without keeping it, stays in sync with the bytes that follow, and hands the core a
  header that the validation of \<open>process_request\<close> answers with BadLength.
\<close>

theorem read_request_too_long_drained:
  assumes "fr_extended f" and "length (fr_body f) mod 4 = 0"
    and "262144 < frame_units f" and "frame_units f < 2 ^ 32"
  shows "\<exists>hdr. read_request bo True (encode_frame bo f @ rest, e) = Inr (Some (hdr, []), (rest, e)) \<and>
    rh_opcode hdr = fr_opcode f \<and> rh_data hdr = fr_data f \<and>
    (\<forall>big. request_gate big hdr [] = GateError BAD_LENGTH 0)"
proof -
  have l: "length (fr_body f) = frame_units f * 4 - 8"
    using frame_units_body [OF assms(2)] assms(1) by simp
  have u: "unat (of_nat (frame_units f) :: u32) = frame_units f"
    using assms(4) by (rule unat_frame_units32)
  have m: "of_nat (frame_units f) > read_request_max_units True"
    using assms(3) u by (simp add: read_request_max_units_def word_less_nat_alt)
  have d: "drain_body (frame_units f * 4 - 8) (fr_body f @ rest, e) = Inr (rest, e)"
    using drain_body_ok [of "frame_units f * 4 - 8" "fr_body f @ rest" e] l by simp
  let ?hdr = "\<lparr>rh_opcode = fr_opcode f, rh_data = fr_data f, rh_length_units = - 1\<rparr>"
  have "read_request bo True (encode_frame bo f @ rest, e) = Inr (Some (?hdr, []), (rest, e))"
    unfolding read_request_def read_long_header [OF assms(1)]
    using m d by (simp add: read_length_long [OF frame_units_ge(2) [OF assms(1)] assms(4), simplified])
  moreover have "request_gate big ?hdr [] = GateError BAD_LENGTH 0" for big
    by (rule gate_rejects_sentinel) simp
  ultimately show ?thesis by (intro exI [of _ ?hdr]) simp
qed

theorem read_request_too_long_drained_witness:
  "\<exists>hdr. read_request LittleEndian True
      (encode_frame LittleEndian \<lparr>fr_opcode = 72, fr_data = 2, fr_extended = True,
         fr_body = replicate 1048576 0\<rparr> @ [5], UnexpectedEof) = Inr (Some (hdr, []), ([5], UnexpectedEof))"
proof -
  let ?f = "\<lparr>fr_opcode = 72, fr_data = 2, fr_extended = True, fr_body = replicate 1048576 0\<rparr>"
  have u: "frame_units ?f = 262146" by (simp add: frame_units_def)
  show ?thesis
    using read_request_too_long_drained [of ?f LittleEndian "[5]" UnexpectedEof] u by auto
qed

lemma read_exact_Inr:
  "read_exact n s = Inr (bs, s') \<longleftrightarrow> length bs = n \<and> fst s = bs @ fst s' \<and> snd s' = snd s"
  by (cases s; cases s') (auto simp: read_exact_def)

text \<open>
  Whatever bytes a client sends, a request the reader hands to the core either has a
  body of the length its header announces (short or extended form) and at most 4 * 262144 bytes, or
  it carries no body and the core answers BadLength; so the validation always runs on bodies that
  match their length field.
\<close>

theorem read_request_frames_bodies:
  assumes "read_request bo big s = Inr (Some (hdr, body), s')"
  shows "(body = [] \<and> (\<forall>b. request_gate b hdr body = GateError BAD_LENGTH 0)) \<or>
    (framed (rh_length_units hdr) body \<and> length body \<le> 4 * 262144)"
proof -
  obtain header s1 where h: "read_exact 4 s = Inr (header, s1)"
    using assms by (auto simp: read_request_def split: sum.splits if_splits)
  obtain units n m0 s2 where l: "read_length bo big header s1 = Inr (units, n, m0, s2)"
    using assms h by (auto simp: read_request_def split: sum.splits if_splits)
  show ?thesis
  proof (cases "m0 \<or> units > read_request_max_units big")
    case True
    then have "body = []" "rh_length_units hdr = - 1"
      using assms h l by (auto simp: read_request_def Let_def split: sum.splits)
    then show ?thesis using gate_rejects_sentinel by blast
  next
    case False
    then have b: "length body = n" "rh_length_units hdr = units"
      using assms h l by (auto simp: read_request_def Let_def read_exact_Inr split: sum.splits)
    have n: "n = unat units * 4 - 4 \<and> 1 \<le> unat units \<or> n = unat units * 4 - 8 \<and> 2 \<le> unat units"
      using l False
      by (auto simp: read_length_def Let_def word_less_nat_alt split: sum.splits if_splits)
    have "unat units \<le> unat (read_request_max_units big)"
      using False by (simp add: word_less_nat_alt)
    also have "\<dots> \<le> 262144" by (simp add: read_request_max_units_def)
    finally show ?thesis using b n by (auto simp: framed_def)
  qed
qed

theorem read_request_frames_bodies_witness:
  "framed 2 [1, 2, 3, 4]"
proof -
  have "frame_ok False \<lparr>fr_opcode = 3, fr_data = 0, fr_extended = False, fr_body = [1, 2, 3, 4]\<rparr>"
    by (simp add: frame_ok_def frame_units_def)
  from read_request_roundtrip [OF this, of LittleEndian "[]" UnexpectedEof]
  have r: "read_request LittleEndian False (encode_frame LittleEndian \<lparr>fr_opcode = 3, fr_data = 0,
      fr_extended = False, fr_body = [1, 2, 3, 4]\<rparr> @ [], UnexpectedEof) =
    Inr (Some (\<lparr>rh_opcode = 3, rh_data = 0, rh_length_units = 2\<rparr>, [1, 2, 3, 4]), ([], UnexpectedEof))"
    by (simp add: frame_header_def frame_units_def)
  from read_request_frames_bodies [OF r] show ?thesis by simp
qed

section \<open>A whole conversation\<close>

text \<open>
  \<open>is_enable\<close> recognises the BigRequests Enable; a conversation is well formed when every frame is
  within the limit in force when it is written, the extended form being allowed after an Enable.
\<close>

definition is_enable :: "u8 \<Rightarrow> Frame \<Rightarrow> bool" where
  "is_enable major f \<longleftrightarrow> fr_opcode f = major \<and> fr_data f = BIG_REQUESTS_ENABLE_MINOR"

fun frames_ok :: "u8 \<Rightarrow> bool \<Rightarrow> Frame list \<Rightarrow> bool" where
  "frames_ok major big [] = True"
| "frames_ok major big (f # fs) =
     (frame_ok big f \<and> frames_ok major (big \<or> is_enable major f) fs)"

text \<open>The requests the core should see: in order, numbered from the next sequence number, with the
  body in the server's byte order and the descriptor the opcode calls for.\<close>

definition decoded_body :: "ClientByteOrder \<Rightarrow> Frame \<Rightarrow> u8 list" where
  "decoded_body bo f = swap_request_body (fr_opcode f) (fr_data f) bo (fr_body f)"

fun expected_messages :: "ClientByteOrder \<Rightarrow> u16 \<Rightarrow> nat list \<Rightarrow> Frame list \<Rightarrow> nat list list \<Rightarrow> CoreMessage list" where
  "expected_messages bo n fds (f # fs) (a # as) =
     (case pop_fds (expected_fd_count (fr_opcode f) (fr_data f) (decoded_body bo f)) None [] (fds @ a) of
        (fd, _, fds') \<Rightarrow>
          Request (n + 1) (frame_header f) (decoded_body bo f) fd # expected_messages bo (n + 1) fds' fs as)"
| "expected_messages bo n fds _ _ = []"

text \<open>The environment of a live connection: nothing waits in the control channel, the core takes
  every message and grants every Enable.\<close>

definition live_env :: "nat list \<Rightarrow> Env" where
  "live_env a = \<lparr>env_try_recv = EmptyChannel, env_arrived = a, env_sent = True,
     env_recv = Some ApplyBigRequests\<rparr>"

lemma reader_turn_frame:
  assumes "frame_ok (rs_big st) f" and "rs_socket st = (encode_frame bo f @ rest, e)"
  shows "reader_turn bo major (live_env a) st =
    (case pop_fds (expected_fd_count (fr_opcode f) (fr_data f) (decoded_body bo f)) None [] (rs_fds st @ a) of
      (fd, _, fds') \<Rightarrow>
        ([Request (rs_sequence st + 1) (frame_header f) (decoded_body bo f) fd],
         Continue (st\<lparr>rs_socket := (rest, e), rs_sequence := rs_sequence st + 1, rs_fds := fds',
           rs_big := rs_big st \<or> is_enable major f\<rparr>)))"
  unfolding reader_turn_def assms(2) read_request_roundtrip [OF assms(1)]
  by (cases st) (auto simp: live_env_def Let_def frame_header_def decoded_body_def is_enable_def
      split: prod.splits)

text \<open>
  Claim C8. A client's conversation arrives whole: for a well-formed sequence of requests, in both
  byte orders, across the switch to BIG-REQUESTS and with descriptors arriving along the way, the
  reader sends the core exactly those requests, in order, numbered consecutively (modulo 2^16),
  with the bodies in the server's byte order, and then waits for the next one.
\<close>

theorem reader_run_conversation:
  assumes "frames_ok major (rs_big st) fs" and "length as = length fs"
    and "rs_socket st = (concat (map (encode_frame bo) fs) @ rest, e)"
  shows "\<exists>st'. reader_run bo major (map live_env as) st =
      (expected_messages bo (rs_sequence st) (rs_fds st) fs as, Continue st') \<and>
    rs_socket st' = (rest, e) \<and>
    rs_sequence st' = rs_sequence st + of_nat (length fs) \<and>
    rs_big st' = (rs_big st \<or> list_ex (is_enable major) fs)"
  using assms
proof (induction fs arbitrary: as st)
  case (Cons f fs)
  obtain a as' where as: "as = a # as'" using Cons.prems(2) by (cases as) auto
  have s: "rs_socket st = (encode_frame bo f @ (concat (map (encode_frame bo) fs) @ rest), e)"
    using Cons.prems(3) by simp
  obtain fd cl fds' where p: "pop_fds (expected_fd_count (fr_opcode f) (fr_data f) (decoded_body bo f))
      None [] (rs_fds st @ a) = (fd, cl, fds')" by (metis prod_cases3)
  let ?st = "st\<lparr>rs_socket := (concat (map (encode_frame bo) fs) @ rest, e),
      rs_sequence := rs_sequence st + 1, rs_fds := fds', rs_big := rs_big st \<or> is_enable major f\<rparr>"
  have ok: "frame_ok (rs_big st) f" "frames_ok major (rs_big ?st) fs" "length as' = length fs"
    using Cons.prems(1,2) as by auto
  have turn: "reader_turn bo major (live_env a) st =
      ([Request (rs_sequence st + 1) (frame_header f) (decoded_body bo f) fd], Continue ?st)"
    using reader_turn_frame [OF ok(1) s, of major a] p by simp
  obtain st' where "reader_run bo major (map live_env as') ?st =
      (expected_messages bo (rs_sequence ?st) (rs_fds ?st) fs as', Continue st')"
    "rs_socket st' = (rest, e)" "rs_sequence st' = rs_sequence ?st + of_nat (length fs)"
    "rs_big st' = (rs_big ?st \<or> list_ex (is_enable major) fs)"
    using Cons.IH [OF ok(2,3)] by auto
  then show ?case
    using turn p as by (intro exI [of _ st']) (simp add: add.assoc)
qed (auto intro: exI [of _ st])

theorem reader_run_conversation_witness:
  "\<exists>st'. fst (reader_run BigEndian 133 [live_env [], live_env []]
      \<lparr>rs_socket = (concat (map (encode_frame BigEndian)
          [\<lparr>fr_opcode = 133, fr_data = 0, fr_extended = False, fr_body = []\<rparr>,
           \<lparr>fr_opcode = 43, fr_data = 0, fr_extended = True, fr_body = []\<rparr>]) @ [], UnexpectedEof),
       rs_fds = [], rs_big = False, rs_sequence = - 1\<rparr>) = st' \<and> length st' = 2"
proof -
  let ?fs = "[\<lparr>fr_opcode = 133, fr_data = 0, fr_extended = False, fr_body = []\<rparr>,
      \<lparr>fr_opcode = 43, fr_data = 0, fr_extended = True, fr_body = []\<rparr>]"
  let ?st = "\<lparr>rs_socket = (concat (map (encode_frame BigEndian) ?fs) @ [], UnexpectedEof),
      rs_fds = [], rs_big = False, rs_sequence = - 1\<rparr>"
  have "frames_ok 133 (rs_big ?st) ?fs"
    by (simp add: frame_ok_def frame_units_def is_enable_def BIG_REQUESTS_ENABLE_MINOR_def)
  from reader_run_conversation [OF this, of "[[], []]" BigEndian "[]" UnexpectedEof]
  obtain st' where "reader_run BigEndian 133 (map live_env [[], []]) ?st =
      (expected_messages BigEndian (- 1) [] ?fs [[], []], Continue st')" by auto
  then show ?thesis by (simp del: reader_run.simps split: prod.splits)
qed

end
