(* ===== verification/Atoms.thy ===== *)
theory Atoms
  imports Prelude Properties
begin

text \<open>
  Atoms: the two tables of predefined atoms (\<open>crates/xserver-protocol/src/x11/atoms.rs\<close>, one \<open>match\<close>
  from names to numbers and one back) and the server's \<open>AtomTable\<close>
  (\<open>crates/xserver-core/src/server.rs\<close>), which interns further names from 69 on.
\<close>

definition well_known_atom_rows :: "(string \<times> AtomId) list" where
  "well_known_atom_rows =
    [(''PRIMARY'', 1), (''SECONDARY'', 2), (''ARC'', 3), (''ATOM'', 4), (''BITMAP'', 5),
     (''CARDINAL'', 6), (''COLORMAP'', 7), (''CURSOR'', 8), (''CUT_BUFFER0'', 9),
     (''CUT_BUFFER1'', 10), (''CUT_BUFFER2'', 11), (''CUT_BUFFER3'', 12), (''CUT_BUFFER4'', 13),
     (''CUT_BUFFER5'', 14), (''CUT_BUFFER6'', 15), (''CUT_BUFFER7'', 16), (''DRAWABLE'', 17),
     (''FONT'', 18), (''INTEGER'', 19), (''PIXMAP'', 20), (''POINT'', 21), (''RECTANGLE'', 22),
     (''RESOURCE_MANAGER'', 23), (''RGB_COLOR_MAP'', 24), (''RGB_BEST_MAP'', 25),
     (''RGB_BLUE_MAP'', 26), (''RGB_DEFAULT_MAP'', 27), (''RGB_GRAY_MAP'', 28),
     (''RGB_GREEN_MAP'', 29), (''RGB_RED_MAP'', 30), (''STRING'', 31), (''VISUALID'', 32),
     (''WINDOW'', 33), (''WM_COMMAND'', 34), (''WM_HINTS'', 35), (''WM_CLIENT_MACHINE'', 36),
     (''WM_ICON_NAME'', 37), (''WM_ICON_SIZE'', 38), (''WM_NAME'', 39),
     (''WM_NORMAL_HINTS'', 40), (''WM_SIZE_HINTS'', 41), (''WM_ZOOM_HINTS'', 42),
     (''MIN_SPACE'', 43), (''NORM_SPACE'', 44), (''MAX_SPACE'', 45), (''END_SPACE'', 46),
     (''SUPERSCRIPT_X'', 47), (''SUPERSCRIPT_Y'', 48), (''SUBSCRIPT_X'', 49),
     (''SUBSCRIPT_Y'', 50), (''UNDERLINE_POSITION'', 51), (''UNDERLINE_THICKNESS'', 52),
     (''STRIKEOUT_ASCENT'', 53), (''STRIKEOUT_DESCENT'', 54), (''ITALIC_ANGLE'', 55),
     (''X_HEIGHT'', 56), (''QUAD_WIDTH'', 57), (''WEIGHT'', 58), (''POINT_SIZE'', 59),
     (''RESOLUTION'', 60), (''COPYRIGHT'', 61), (''NOTICE'', 62), (''FONT_NAME'', 63),
     (''FAMILY_NAME'', 64), (''FULL_NAME'', 65), (''CAP_HEIGHT'', 66), (''WM_CLASS'', 67),
     (''WM_TRANSIENT_FOR'', 68)]"

definition well_known_atom :: "string \<Rightarrow> AtomId option" where
  "well_known_atom name = map_of well_known_atom_rows name"

definition well_known_atom_name_rows :: "(AtomId \<times> string) list" where
  "well_known_atom_name_rows =
    [(1, ''PRIMARY''), (2, ''SECONDARY''), (3, ''ARC''), (4, ''ATOM''), (5, ''BITMAP''),
     (6, ''CARDINAL''), (7, ''COLORMAP''), (8, ''CURSOR''), (9, ''CUT_BUFFER0''),
     (10, ''CUT_BUFFER1''), (11, ''CUT_BUFFER2''), (12, ''CUT_BUFFER3''), (13, ''CUT_BUFFER4''),
     (14, ''CUT_BUFFER5''), (15, ''CUT_BUFFER6''), (16, ''CUT_BUFFER7''), (17, ''DRAWABLE''),
     (18, ''FONT''), (19, ''INTEGER''), (20, ''PIXMAP''), (21, ''POINT''), (22, ''RECTANGLE''),
     (23, ''RESOURCE_MANAGER''), (24, ''RGB_COLOR_MAP''), (25, ''RGB_BEST_MAP''),
     (26, ''RGB_BLUE_MAP''), (27, ''RGB_DEFAULT_MAP''), (28, ''RGB_GRAY_MAP''),
     (29, ''RGB_GREEN_MAP''), (30, ''RGB_RED_MAP''), (31, ''STRING''), (32, ''VISUALID''),
     (33, ''WINDOW''), (34, ''WM_COMMAND''), (35, ''WM_HINTS''), (36, ''WM_CLIENT_MACHINE''),
     (37, ''WM_ICON_NAME''), (38, ''WM_ICON_SIZE''), (39, ''WM_NAME''),
     (40, ''WM_NORMAL_HINTS''), (41, ''WM_SIZE_HINTS''), (42, ''WM_ZOOM_HINTS''),
     (43, ''MIN_SPACE''), (44, ''NORM_SPACE''), (45, ''MAX_SPACE''), (46, ''END_SPACE''),
     (47, ''SUPERSCRIPT_X''), (48, ''SUPERSCRIPT_Y''), (49, ''SUBSCRIPT_X''),
     (50, ''SUBSCRIPT_Y''), (51, ''UNDERLINE_POSITION''), (52, ''UNDERLINE_THICKNESS''),
     (53, ''STRIKEOUT_ASCENT''), (54, ''STRIKEOUT_DESCENT''), (55, ''ITALIC_ANGLE''),
     (56, ''X_HEIGHT''), (57, ''QUAD_WIDTH''), (58, ''WEIGHT''), (59, ''POINT_SIZE''),
     (60, ''RESOLUTION''), (61, ''COPYRIGHT''), (62, ''NOTICE''), (63, ''FONT_NAME''),
     (64, ''FAMILY_NAME''), (65, ''FULL_NAME''), (66, ''CAP_HEIGHT''), (67, ''WM_CLASS''),
     (68, ''WM_TRANSIENT_FOR'')]"

definition well_known_atom_name :: "AtomId \<Rightarrow> string option" where
  "well_known_atom_name atom = map_of well_known_atom_name_rows atom"

section \<open>The atom table\<close>

record AtomTable =
  at_by_name :: "(string, AtomId) hashmap"
  at_names :: "(AtomId, string) hashmap"
  at_next_id :: u32

definition AtomTable_new :: AtomTable where
  "AtomTable_new = \<lparr>at_by_name = [], at_names = [], at_next_id = 69\<rparr>"

definition intern :: "string \<Rightarrow> bool \<Rightarrow> AtomTable \<Rightarrow> AtomTable \<times> AtomId" where
  "intern name only_if_exists t =
     (case well_known_atom name of
        Some atom \<Rightarrow> (t, atom)
      | None \<Rightarrow>
          (case hm_get (at_by_name t) name of
             Some atom \<Rightarrow> (t, atom)
           | None \<Rightarrow>
               if only_if_exists then (t, 0)
               else
                 let atom = at_next_id t in
                 (t\<lparr>at_next_id := at_next_id t + 1,
                    at_by_name := hm_insert name atom (at_by_name t),
                    at_names := hm_insert atom name (at_names t)\<rparr>, atom)))"

definition atom_name :: "AtomTable \<Rightarrow> AtomId \<Rightarrow> string option" where
  "atom_name t atom =
     (case well_known_atom_name atom of
        Some n \<Rightarrow> Some n
      | None \<Rightarrow> hm_get (at_names t) atom)"

definition atom_exists :: "AtomTable \<Rightarrow> AtomId \<Rightarrow> bool" where
  "atom_exists t atom \<longleftrightarrow>
     atom \<noteq> 0 \<and> (well_known_atom_name atom \<noteq> None \<or> hm_contains (at_names t) atom)"

section \<open>The two tables agree\<close>

lemma atom_rows_swap:
  "well_known_atom_name_rows = map (\<lambda>(n, a). (a, n)) well_known_atom_rows"
  by (simp add: well_known_atom_name_rows_def well_known_atom_rows_def)

lemma atom_rows_distinct:
  "distinct (map fst well_known_atom_rows)" "distinct (map snd well_known_atom_rows)"
  by code_simp+

lemma atom_rows_range: "\<forall>a \<in> set (map snd well_known_atom_rows). 1 \<le> a \<and> a \<le> 68"
  by code_simp

lemma well_known_agree: "well_known_atom n = Some a \<longleftrightarrow> well_known_atom_name a = Some n"
proof -
  have d: "distinct (map fst well_known_atom_name_rows)"
    using atom_rows_distinct(2) unfolding atom_rows_swap by (simp add: case_prod_beta comp_def)
  have "well_known_atom n = Some a \<longleftrightarrow> (n, a) \<in> set well_known_atom_rows"
    unfolding well_known_atom_def using atom_rows_distinct(1) by simp
  also have "\<dots> \<longleftrightarrow> (a, n) \<in> set well_known_atom_name_rows"
    unfolding atom_rows_swap by force
  also have "\<dots> \<longleftrightarrow> well_known_atom_name a = Some n"
    unfolding well_known_atom_name_def using d by simp
  finally show ?thesis .
qed

lemma well_known_range: "well_known_atom_name a = Some n \<Longrightarrow> 1 \<le> a \<and> a < 69"
proof -
  assume "well_known_atom_name a = Some n"
  then have "(n, a) \<in> set well_known_atom_rows"
    unfolding well_known_agree [symmetric] well_known_atom_def by (rule map_of_SomeD)
  then have "1 \<le> a \<and> a \<le> 68" using atom_rows_range by force
  then show ?thesis by (simp add: word_le_nat_alt word_less_nat_alt)
qed

section \<open>The invariant of the table\<close>

definition at_inv :: "AtomTable \<Rightarrow> bool" where
  "at_inv t \<longleftrightarrow>
     (\<forall>n a. hm_get (at_by_name t) n = Some a \<longleftrightarrow> hm_get (at_names t) a = Some n) \<and>
     (\<forall>n a. hm_get (at_by_name t) n = Some a \<longrightarrow>
        well_known_atom n = None \<and> 69 \<le> a \<and> a < at_next_id t) \<and>
     69 \<le> at_next_id t"

lemma at_inv_new: "at_inv AtomTable_new"
  by (simp add: at_inv_def AtomTable_new_def)

lemma at_inv_get:
  "at_inv t \<Longrightarrow> hm_get (at_by_name t) n = Some a \<longleftrightarrow> hm_get (at_names t) a = Some n"
  by (simp add: at_inv_def)

lemma at_inv_by_name:
  "at_inv t \<Longrightarrow> hm_get (at_by_name t) n = Some a \<Longrightarrow>
    well_known_atom n = None \<and> 69 \<le> unat a \<and> a < at_next_id t"
  unfolding at_inv_def word_le_nat_alt by auto

lemma atom_name_iff:
  assumes "at_inv t"
  shows "atom_name t a = Some n \<longleftrightarrow> well_known_atom n = Some a \<or> hm_get (at_by_name t) n = Some a"
proof -
  have "well_known_atom_name a = None" if g: "hm_get (at_names t) a = Some n"
  proof (cases "well_known_atom_name a")
    case (Some m)
    have "69 \<le> unat a" using at_inv_by_name [OF assms] g at_inv_get [OF assms] by blast
    then show ?thesis using well_known_range [OF Some] by (simp add: word_less_nat_alt)
  qed simp
  then show ?thesis
    unfolding atom_name_def at_inv_get [OF assms]
    by (auto simp: well_known_agree split: option.splits)
qed

lemma atom_name_nonzero: "at_inv t \<Longrightarrow> atom_name t a = Some n \<Longrightarrow> a \<noteq> 0"
  using well_known_range [of a n] at_inv_by_name [of t n a]
  by (auto simp: atom_name_iff well_known_agree)

lemma at_inv_intern:
  assumes inv: "at_inv t" and room: "at_next_id t \<noteq> - 1"
  shows "at_inv (fst (intern n oie t))"
proof -
  have nowrap: "unat (at_next_id t + 1) = Suc (unat (at_next_id t))"
    using room by (metis add.commute add.right_inverse add_left_cancel unatSuc)
  have fresh: "hm_get (at_names t) (at_next_id t) = None"
  proof (cases "hm_get (at_names t) (at_next_id t)")
    case (Some m)
    then have "hm_get (at_by_name t) m = Some (at_next_id t)" using inv by (simp add: at_inv_def)
    then show ?thesis using inv unfolding at_inv_def by blast
  qed simp
  show ?thesis
  proof (cases "well_known_atom n = None \<and> hm_get (at_by_name t) n = None \<and> \<not> oie")
    case True
    let ?a = "at_next_id t"
    have step: "fst (intern n oie t) = t\<lparr>at_next_id := ?a + 1,
        at_by_name := hm_insert n ?a (at_by_name t), at_names := hm_insert ?a n (at_names t)\<rparr>"
      using True by (simp add: intern_def Let_def)
    have lt: "x < ?a \<Longrightarrow> x < ?a + 1" "?a < ?a + 1" "69 \<le> ?a \<Longrightarrow> 69 \<le> ?a + 1" for x
      using nowrap by (simp_all add: word_less_nat_alt word_le_nat_alt)
    have get: "\<And>m b. hm_get (at_by_name t) m = Some b \<longleftrightarrow> hm_get (at_names t) b = Some m"
      and old: "\<And>m b. hm_get (at_by_name t) m = Some b \<Longrightarrow>
          well_known_atom m = None \<and> 69 \<le> b \<and> b < ?a" and base: "69 \<le> ?a"
      using inv unfolding at_inv_def by blast+
    have nb: "hm_get (at_names t) b \<noteq> Some n" for b
      using True get by (metis option.distinct(1))
    have na: "hm_get (at_by_name t) m \<noteq> Some ?a" for m
      using get fresh by (metis option.distinct(1))
    show ?thesis
      unfolding step at_inv_def
      using get old base lt nb na True by auto
  qed (use inv in \<open>auto simp: intern_def split: option.splits\<close>)
qed

text \<open>A sequence of \<open>InternAtom\<close> requests, from an empty table.\<close>

fun run_interns :: "(string \<times> bool) list \<Rightarrow> AtomTable \<Rightarrow> AtomTable" where
  "run_interns [] t = t"
| "run_interns ((n, oie) # rs) t = run_interns rs (fst (intern n oie t))"

lemma intern_next_id:
  "at_next_id t \<noteq> - 1 \<Longrightarrow> unat (at_next_id (fst (intern n oie t))) \<le> Suc (unat (at_next_id t))"
proof -
  assume "at_next_id t \<noteq> - 1"
  then have "unat (at_next_id t + 1) = Suc (unat (at_next_id t))"
    by (metis add.commute add.right_inverse add_left_cancel unatSuc)
  then show ?thesis by (auto simp: intern_def Let_def split: option.splits)
qed

lemma not_minus_one: "unat (x :: u32) < 2 ^ 32 - 1 \<Longrightarrow> x \<noteq> - 1"
  by (auto simp: unsigned_minus_1_eq_mask mask_eq_exp_minus_1)

lemma at_inv_run:
  "at_inv t \<Longrightarrow> unat (at_next_id t) + length rs < 2 ^ 32 \<Longrightarrow> at_inv (run_interns rs t) \<and>
    unat (at_next_id (run_interns rs t)) \<le> unat (at_next_id t) + length rs"
proof (induction rs arbitrary: t)
  case (Cons r rs)
  obtain n oie where r: "r = (n, oie)" by (cases r)
  have "at_next_id t \<noteq> - 1" using Cons.prems(2) by (intro not_minus_one) simp
  then have "at_inv (fst (intern n oie t))"
    and "unat (at_next_id (fst (intern n oie t))) \<le> Suc (unat (at_next_id t))"
    using Cons.prems(1) by (auto intro: at_inv_intern intern_next_id)
  with Cons.IH [of "fst (intern n oie t)"] Cons.prems(2) show ?case
    by (simp add: r)
qed simp

text \<open>Names an interning keeps.\<close>

lemma intern_keeps_names:
  assumes inv: "at_inv t" and room: "at_next_id t \<noteq> - 1" and a: "atom_name t a = Some m"
  shows "atom_name (fst (intern n oie t)) a = Some m"
proof -
  have inv': "at_inv (fst (intern n oie t))" using inv room by (rule at_inv_intern)
  show ?thesis
    using a unfolding atom_name_iff [OF inv] atom_name_iff [OF inv']
    by (auto simp: intern_def Let_def split: option.splits)
qed

text \<open>
  Interning: in a table built by fewer than 2^32 - 69 requests, \<open>intern\<close> returns an atom
  whose name is the string interned, a second interning of the string (with either flag) changes
  nothing and returns the same atom, no other atom has that name, and every atom named before
  keeps its name.
\<close>

theorem intern_roundtrip:
  assumes "length rs + 70 < 2 ^ 32" and "t = run_interns rs AtomTable_new"
    and "intern n False t = (t', a)"
  shows "a \<noteq> 0 \<and> atom_exists t' a \<and> atom_name t' a = Some n \<and> intern n oie t' = (t', a) \<and>
    (\<forall>b. atom_name t' b = Some n \<longrightarrow> b = a) \<and>
    (\<forall>b m. atom_name t b = Some m \<longrightarrow> atom_name t' b = Some m)"
proof -
  have run: "at_inv t" "unat (at_next_id t) \<le> 69 + length rs"
    using at_inv_run [OF at_inv_new, of rs] assms(1,2) by (simp_all add: AtomTable_new_def)
  then have room: "at_next_id t \<noteq> - 1" using assms(1) by (intro not_minus_one) simp
  have inv': "at_inv t'" using at_inv_intern [OF run(1) room, of n False] assms(3) by simp
  have known: "well_known_atom n = Some a \<or> hm_get (at_by_name t') n = Some a"
    and excl: "well_known_atom n = Some a \<or> well_known_atom n = None"
    using assms(3) by (auto simp: intern_def Let_def split: option.splits)
  have name: "atom_name t' a = Some n"
    using known unfolding atom_name_iff [OF inv'] .
  have "a \<noteq> 0" using inv' name by (rule atom_name_nonzero)
  moreover have "atom_exists t' a"
    using name \<open>a \<noteq> 0\<close> by (auto simp: atom_exists_def atom_name_def split: option.splits)
  moreover have "intern n oie t' = (t', a)"
    using known excl by (auto simp: intern_def)
  moreover have "\<forall>b. atom_name t' b = Some n \<longrightarrow> b = a"
  proof (intro allI impI)
    fix b assume "atom_name t' b = Some n"
    then have "well_known_atom n = Some b \<or> hm_get (at_by_name t') n = Some b"
      by (simp only: atom_name_iff [OF inv'])
    then show "b = a"
      using known at_inv_by_name [OF inv', of n a] at_inv_by_name [OF inv', of n b]
      by (metis option.inject option.distinct(1))
  qed
  moreover have "\<forall>b m. atom_name t b = Some m \<longrightarrow> atom_name t' b = Some m"
    using intern_keeps_names [OF run(1) room, of _ _ n False] assms(3) by simp
  ultimately show ?thesis using name by blast
qed

theorem intern_roundtrip_witness:
  "atom_name (fst (intern ''_NET_WM_NAME'' False AtomTable_new)) 69 = Some ''_NET_WM_NAME''"
proof -
  have "well_known_atom ''_NET_WM_NAME'' = None" by code_simp
  then have "intern ''_NET_WM_NAME'' False AtomTable_new =
      (fst (intern ''_NET_WM_NAME'' False AtomTable_new), 69)"
    by (simp add: intern_def AtomTable_new_def)
  from intern_roundtrip [of "[]" AtomTable_new, OF _ _ this] show ?thesis by simp
qed

text \<open>
  An \<open>InternAtom\<close> with \<open>only-if-exists\<close> never creates an atom: the table is unchanged and
  the answer is the atom of that name, or 0 exactly when no atom has it; and the atoms that exist
  are the ones with a name.
\<close>

theorem intern_only_if_exists:
  assumes "length rs + 70 < 2 ^ 32" and "t = run_interns rs AtomTable_new"
  shows "fst (intern n True t) = t \<and>
    (case snd (intern n True t) of a \<Rightarrow>
       if a = 0 then (\<forall>b. atom_name t b \<noteq> Some n) else atom_name t a = Some n) \<and>
    (atom_exists t b \<longleftrightarrow> atom_name t b \<noteq> None)"
proof -
  have inv: "at_inv t"
    using at_inv_run [OF at_inv_new, of rs] assms by (simp add: AtomTable_new_def)
  have z: "atom_name t b = Some m \<Longrightarrow> b \<noteq> 0" for b m
    using inv by (rule atom_name_nonzero)
  have "atom_exists t b \<longleftrightarrow> atom_name t b \<noteq> None"
    using z [of b] by (auto simp: atom_exists_def atom_name_def split: option.splits)
  moreover have "fst (intern n True t) = t"
    by (auto simp: intern_def split: option.splits)
  moreover have "case snd (intern n True t) of a \<Rightarrow>
       if a = 0 then (\<forall>b. atom_name t b \<noteq> Some n) else atom_name t a = Some n"
    using z [of "snd (intern n True t)" n] unfolding atom_name_iff [OF inv]
    by (auto simp: intern_def split: option.splits)
  ultimately show ?thesis by simp
qed

theorem intern_only_if_exists_witness:
  "fst (intern ''FOO'' True AtomTable_new) = AtomTable_new"
  using intern_only_if_exists [of "[]" AtomTable_new "''FOO''"] by simp

end
