(* ===== verification/Glyphsets.thy ===== *)
theory Glyphsets
  imports Resources "HOL-Library.Multiset"
begin

text \<open>
  Reference counts of host glyph sets: the count of a host object is the number of glyph-set
  resources that name it, so the object is freed exactly with the last of them, one at a time
  (\<open>free_glyphset\<close>) or with all the resources of a client (\<open>release_glyphset_refs\<close>).
\<close>

definition refcount :: "('v \<Rightarrow> 'h) \<Rightarrow> ('k, 'v) hashmap \<Rightarrow> 'h \<Rightarrow> nat" where
  "refcount f m h = count (image_mset (\<lambda>kv. f (snd kv)) (mset m)) h"

definition uses :: "ResourceTable \<Rightarrow> u32 \<Rightarrow> nat" where
  "uses t h = refcount glyph_host_glyphset_xid (rt_glyphsets t) h"

text \<open>\<open>hs\<close> lists references of removed resources that are still to be released.\<close>

definition refs_inv :: "ResourceTable \<Rightarrow> u32 list \<Rightarrow> bool" where
  "refs_inv t hs \<longleftrightarrow> hm_wf (rt_glyphsets t) \<and>
     (\<forall>h. hm_get (rt_host_glyphset_refcounts t) h =
       (let n = uses t h + count (mset hs) h in if n = 0 then None else Some n))"

abbreviation glyph_inv :: "ResourceTable \<Rightarrow> bool" where
  "glyph_inv t \<equiv> refs_inv t []"

lemma mset_hm_remove:
  "hm_wf m \<Longrightarrow> hm_get m k = Some v \<Longrightarrow> mset m = add_mset (k, v) (mset (hm_remove k m))"
  unfolding hm_wf_def hm_get_def hm_remove_def
proof (induction m)
  case (Cons a m)
  show ?case
  proof (cases "fst a = k")
    case True
    then have "k \<notin> fst ` set m" using Cons.prems(1) by auto
    then have "AList.delete k m = m" by (simp add: delete_idem)
    then show ?thesis using True Cons.prems by (cases a) auto
  next
    case False
    then show ?thesis using Cons by (cases a) auto
  qed
qed simp

lemma mset_hm_insert:
  "hm_get m k = None \<Longrightarrow> mset (hm_insert k v m) = add_mset (k, v) (mset m)"
  unfolding hm_get_def hm_insert_def by (induction m) (auto split: if_splits)

lemma refcount_Nil [simp]: "refcount f [] h = 0"
  by (simp add: refcount_def)

lemma refcount_insert:
  "hm_get m k = None \<Longrightarrow> refcount f (hm_insert k v m) h = refcount f m h + (if f v = h then 1 else 0)"
  by (simp add: refcount_def mset_hm_insert)

lemma refcount_remove:
  "hm_wf m \<Longrightarrow> hm_get m k = Some v \<Longrightarrow>
    refcount f m h = refcount f (hm_remove k m) h + (if f v = h then 1 else 0)"
  by (simp add: refcount_def mset_hm_remove [of m k v])

lemma refcount_retain:
  "refcount f m h = count (mset (map f (filter P (hm_values m)))) h +
    refcount f (hm_retain (\<lambda>_ v. \<not> P v) m) h"
  unfolding refcount_def hm_values_def hm_retain_def by (induction m) auto

lemma refcount_zero_iff:
  "hm_wf m \<Longrightarrow> refcount f m h = 0 \<longleftrightarrow> (\<forall>k g. hm_get m k = Some g \<longrightarrow> f g \<noteq> h)"
proof -
  assume w: "hm_wf m"
  have "refcount f m h = 0 \<longleftrightarrow> h \<notin> (\<lambda>kv. f (snd kv)) ` set m"
    by (auto simp: refcount_def count_eq_zero_iff)
  moreover have "(k, g) \<in> set m \<longleftrightarrow> hm_get m k = Some g" for k g
    using w unfolding hm_wf_def hm_get_def by simp
  ultimately show ?thesis by force
qed

lemma refs_invD:
  "refs_inv t hs \<Longrightarrow> hm_get (rt_host_glyphset_refcounts t) h =
    (if uses t h + count (mset hs) h = 0 then None else Some (uses t h + count (mset hs) h))"
  by (simp add: refs_inv_def Let_def)

text \<open>Dropping a resource leaves its reference to be released; a release takes one away.\<close>

lemma refs_inv_drop:
  assumes inv: "refs_inv t hs" and s: "hm_get (rt_glyphsets t) i = Some s"
  shows "refs_inv (t\<lparr>rt_glyphsets := hm_remove i (rt_glyphsets t)\<rparr>) (glyph_host_glyphset_xid s # hs)"
proof -
  let ?t = "t\<lparr>rt_glyphsets := hm_remove i (rt_glyphsets t)\<rparr>" and ?h = "glyph_host_glyphset_xid s"
  have "uses t h = uses ?t h + (if ?h = h then 1 else 0)" for h
    using refcount_remove [OF _ s, of glyph_host_glyphset_xid h] inv
    unfolding uses_def refs_inv_def by simp
  then have "uses t h + count (mset hs) h = uses ?t h + count (mset (?h # hs)) h" for h by simp
  then show ?thesis using inv unfolding refs_inv_def by simp
qed

lemma refs_inv_release:
  assumes inv: "refs_inv t (h # hs)" and r: "release_host_glyphset_ref h t = (t', freed)"
  shows "refs_inv t' hs" "freed \<longleftrightarrow> uses t h + count (mset hs) h = 0"
    "rt_glyphsets t' = rt_glyphsets t"
proof -
  have c: "hm_get (rt_host_glyphset_refcounts t) h = Some (Suc (uses t h + count (mset hs) h))"
    using refs_invD [OF inv, of h] by simp
  show g: "rt_glyphsets t' = rt_glyphsets t"
    using r by (auto simp: release_host_glyphset_ref_def split: option.splits if_splits)
  show "freed \<longleftrightarrow> uses t h + count (mset hs) h = 0"
    using r c by (auto simp: release_host_glyphset_ref_def split: if_splits)
  have u: "uses t' k = uses t k" for k by (simp add: uses_def g)
  have "hm_get (rt_host_glyphset_refcounts t') k =
      (if uses t k + count (mset hs) k = 0 then None else Some (uses t k + count (mset hs) k))" for k
    using r c refs_invD [OF inv, of k]
    by (auto simp: release_host_glyphset_ref_def split: if_splits)
  then show "refs_inv t' hs"
    using inv by (simp add: refs_inv_def Let_def u g)
qed

lemma uses_cong: "rt_glyphsets t' = rt_glyphsets t \<Longrightarrow> uses t' h = uses t h"
  by (simp add: uses_def)

lemma create_glyphset_inv:
  assumes inv: "glyph_inv t"
  shows "glyph_inv (create_glyphset i s t)"
proof -
  obtain t1 where t1: "glyph_inv t1" "hm_get (rt_glyphsets t1) i = None"
    "create_glyphset i s t = t1\<lparr>rt_host_glyphset_refcounts := hm_insert (glyph_host_glyphset_xid s)
       (unwrap_or (hm_get (rt_host_glyphset_refcounts t1) (glyph_host_glyphset_xid s)) 0 + 1)
       (rt_host_glyphset_refcounts t1), rt_glyphsets := hm_insert i s (rt_glyphsets t1)\<rparr>"
  proof (cases "hm_get (rt_glyphsets t) i")
    case None
    then show thesis using that [of t] inv by (simp add: create_glyphset_def Let_def)
  next
    case (Some old)
    obtain t' fr where r: "release_host_glyphset_ref (glyph_host_glyphset_xid old)
        (t\<lparr>rt_glyphsets := hm_remove i (rt_glyphsets t)\<rparr>) = (t', fr)" by fastforce
    note rel = refs_inv_release [OF refs_inv_drop [OF inv Some] r]
    show thesis using that [of t'] rel Some r by (simp add: create_glyphset_def Let_def)
  qed
  let ?h = "glyph_host_glyphset_xid s"
  have u: "uses (create_glyphset i s t) h = uses t1 h + (if ?h = h then 1 else 0)" for h
    unfolding t1(3) uses_def by (simp add: refcount_insert [OF t1(2)])
  have "unwrap_or (hm_get (rt_host_glyphset_refcounts t1) ?h) 0 = uses t1 ?h"
    using refs_invD [OF t1(1), of ?h] by simp
  then have "hm_get (rt_host_glyphset_refcounts (create_glyphset i s t)) h =
      (if uses t1 h + (if ?h = h then 1 else 0) = 0 then None
       else Some (uses t1 h + (if ?h = h then 1 else 0)))" for h
    using refs_invD [OF t1(1), of h] unfolding t1(3) by simp
  moreover have "hm_wf (rt_glyphsets (create_glyphset i s t))"
    using t1(1) unfolding t1(3) by (simp add: refs_inv_def)
  ultimately show ?thesis unfolding refs_inv_def u by (simp add: Let_def)
qed

lemma free_glyphset_inv:
  assumes inv: "glyph_inv t"
  shows "glyph_inv (fst (free_glyphset i t))"
proof (cases "hm_get (rt_glyphsets t) i")
  case (Some s)
  obtain t' fr where r: "release_host_glyphset_ref (glyph_host_glyphset_xid s)
      (t\<lparr>rt_glyphsets := hm_remove i (rt_glyphsets t)\<rparr>) = (t', fr)" by fastforce
  show ?thesis
    using refs_inv_release(1) [OF refs_inv_drop [OF inv Some] r] Some r by (simp add: free_glyphset_def)
qed (use inv in \<open>simp add: free_glyphset_def\<close>)

lemma uses_zero_iff:
  "hm_wf (rt_glyphsets t) \<Longrightarrow> uses t h = 0 \<longleftrightarrow>
    (\<forall>k g. hm_get (rt_glyphsets t) k = Some g \<longrightarrow> glyph_host_glyphset_xid g \<noteq> h)"
  unfolding uses_def by (rule refcount_zero_iff)

text \<open>
  Freeing a glyph set releases its host object exactly with the last resource that names
  it: with correct reference counts, \<open>free_glyphset\<close> hands the host object back if and only if no
  other glyph set refers to it, removes only this resource, and keeps the counts correct; and so
  does making another glyph set or alias.
\<close>

theorem free_glyphset_last_reference:
  assumes inv: "glyph_inv t" and s: "hm_get (rt_glyphsets t) i = Some s"
    and r: "free_glyphset i t = (t', res)"
  shows "glyph_inv t' \<and> glyph_inv (create_glyphset j s' t) \<and>
    hm_get (rt_glyphsets t') k = (if k = i then None else hm_get (rt_glyphsets t) k) \<and>
    res = (if \<forall>k g. k \<noteq> i \<and> hm_get (rt_glyphsets t) k = Some g \<longrightarrow>
               glyph_host_glyphset_xid g \<noteq> glyph_host_glyphset_xid s
           then Some s else None)"
proof -
  let ?t = "t\<lparr>rt_glyphsets := hm_remove i (rt_glyphsets t)\<rparr>" and ?h = "glyph_host_glyphset_xid s"
  obtain t1 fr where rel: "release_host_glyphset_ref ?h ?t = (t1, fr)" by fastforce
  note d = refs_inv_release [OF refs_inv_drop [OF inv s] rel]
  have w: "hm_wf (rt_glyphsets ?t)" using inv by (simp add: refs_inv_def)
  have t': "t' = t1" "res = (if fr then Some s else None)"
    using r s rel by (auto simp: free_glyphset_def)
  have "uses ?t ?h = 0 \<longleftrightarrow> (\<forall>k g. k \<noteq> i \<and> hm_get (rt_glyphsets t) k = Some g \<longrightarrow>
      glyph_host_glyphset_xid g \<noteq> ?h)"
    unfolding uses_zero_iff [OF w] by auto
  then have "fr \<longleftrightarrow> (\<forall>k g. k \<noteq> i \<and> hm_get (rt_glyphsets t) k = Some g \<longrightarrow>
      glyph_host_glyphset_xid g \<noteq> ?h)"
    using d(2) by simp
  then have "res = (if \<forall>k g. k \<noteq> i \<and> hm_get (rt_glyphsets t) k = Some g \<longrightarrow>
      glyph_host_glyphset_xid g \<noteq> ?h then Some s else None)"
    unfolding t'(2) by (rule arg_cong)
  then show ?thesis
    using d(1,3) t'(1) create_glyphset_inv [OF inv] by simp
qed

lemma glyph_inv_default: "glyph_inv default_table"
  by (simp add: refs_inv_def default_table_def uses_def)

theorem free_glyphset_last_reference_witness:
  "snd (free_glyphset 7 (fst (reference_glyphset 1 8 7
     (create_glyphset 7 \<lparr>glyph_client = 1, glyph_host_glyphset_xid = 5\<rparr> default_table)))) = None"
proof -
  let ?s = "\<lparr>glyph_client = 1, glyph_host_glyphset_xid = 5\<rparr>"
  let ?t = "create_glyphset 8 ?s (create_glyphset 7 ?s default_table)"
  have inv: "glyph_inv ?t"
    by (intro create_glyphset_inv glyph_inv_default)
  have g: "hm_get (rt_glyphsets ?t) 7 = Some ?s" "hm_get (rt_glyphsets ?t) 8 = Some ?s"
    by (simp_all add: create_glyphset_def default_table_def Let_def)
  have eq: "fst (reference_glyphset 1 8 7 (create_glyphset 7 ?s default_table)) = ?t"
    by (simp add: reference_glyphset_def create_glyphset_def default_table_def Let_def)
  show ?thesis
    unfolding eq
    using free_glyphset_last_reference [OF inv g(1) prod.collapse [symmetric]] g(2) by force
qed

section \<open>All the glyph sets of a client\<close>

lemma release_glyphset_refs_inv:
  "refs_inv t hs \<Longrightarrow> release_glyphset_refs hs t = (t', freed) \<Longrightarrow>
    glyph_inv t' \<and> rt_glyphsets t' = rt_glyphsets t \<and> distinct freed \<and>
    set freed = {h \<in> set hs. uses t h = 0}"
proof (induction hs arbitrary: t t' freed)
  case (Cons h hs)
  obtain t1 fr where r: "release_host_glyphset_ref h t = (t1, fr)" by fastforce
  obtain t2 freed' where rs: "release_glyphset_refs hs t1 = (t2, freed')" by fastforce
  note rel = refs_inv_release [OF Cons.prems(1) r]
  have IH: "glyph_inv t2 \<and> rt_glyphsets t2 = rt_glyphsets t1 \<and> distinct freed' \<and>
      set freed' = {h \<in> set hs. uses t1 h = 0}"
    by (rule Cons.IH [OF rel(1) rs])
  have u: "uses t1 k = uses t k" for k using rel(3) by (rule uses_cong)
  have res: "t' = t2" "freed = (if fr then h # freed' else freed')"
    using Cons.prems(2) r rs by auto
  have "fr \<longleftrightarrow> uses t h = 0 \<and> h \<notin> set hs"
    using rel(2) by (simp add: count_eq_zero_iff)
  then show ?case
    using IH rel(3) u res by auto
qed simp

text \<open>
  When a client disconnects, the sweep over its glyph sets frees each host object at
  most once and exactly those that no glyph set of another client still names, and leaves the
  reference counts correct.
\<close>

theorem disconnect_frees_unshared_glyphsets:
  assumes inv: "glyph_inv t" and r: "remove_non_window_resources_owned_by client t = (t', removed)"
  shows "glyph_inv t' \<and> distinct (crr_freed_glyphsets removed) \<and>
    set (crr_freed_glyphsets removed) =
      {glyph_host_glyphset_xid g | g k. hm_get (rt_glyphsets t) k = Some g \<and> glyph_client g = client} -
      {glyph_host_glyphset_xid g | g k. hm_get (rt_glyphsets t) k = Some g \<and> glyph_client g \<noteq> client}"
proof -
  let ?own = "\<lambda>g. glyph_client g = client"
  let ?hs = "map glyph_host_glyphset_xid (filter ?own (hm_values (rt_glyphsets t)))"
  have w: "hm_wf (rt_glyphsets t)" using inv by (simp add: refs_inv_def)
  have val: "g \<in> set (hm_values (rt_glyphsets t)) \<longleftrightarrow> (\<exists>k. hm_get (rt_glyphsets t) k = Some g)" for g
    using w unfolding hm_values_def hm_wf_def hm_get_def by force
  obtain t1 where t1: "release_glyphset_refs ?hs t1 = (t', crr_freed_glyphsets removed)"
    "rt_glyphsets t1 = hm_retain (\<lambda>_ g. glyph_client g \<noteq> client) (rt_glyphsets t)"
    "rt_host_glyphset_refcounts t1 = rt_host_glyphset_refcounts t"
    using r by (auto simp: remove_non_window_resources_owned_by_def Let_def split: prod.splits)
  have w1: "hm_wf (rt_glyphsets t1)" unfolding t1(2) using w by simp
  have "uses t h = count (mset ?hs) h + uses t1 h" for h
    unfolding uses_def t1(2) by (rule refcount_retain)
  then have "refs_inv t1 ?hs"
    using inv w1 unfolding refs_inv_def t1(3) by (simp add: Let_def add.commute)
  from release_glyphset_refs_inv [OF this t1(1)]
  have res: "glyph_inv t'" "distinct (crr_freed_glyphsets removed)"
    "set (crr_freed_glyphsets removed) = {h \<in> set ?hs. uses t1 h = 0}" by blast+
  let ?A = "{glyph_host_glyphset_xid g | g k. hm_get (rt_glyphsets t) k = Some g \<and> glyph_client g = client}"
  let ?B = "{glyph_host_glyphset_xid g | g k. hm_get (rt_glyphsets t) k = Some g \<and> glyph_client g \<noteq> client}"
  have "uses t1 h = 0 \<longleftrightarrow> h \<notin> ?B" for h
  proof -
    have "hm_get (rt_glyphsets t1) k = Some g \<longleftrightarrow> hm_get (rt_glyphsets t) k = Some g \<and> glyph_client g \<noteq> client"
      for k g unfolding t1(2) by (auto simp: hm_get_retain [OF w] split: option.splits)
    then show ?thesis unfolding uses_zero_iff [OF w1] by auto
  qed
  moreover have "set ?hs = ?A"
    using val by auto
  ultimately have "set (crr_freed_glyphsets removed) = ?A - ?B"
    unfolding res(3) by (simp only: set_diff_eq)
  then show ?thesis using res(1,2) by (simp only: simp_thms)
qed

theorem disconnect_frees_unshared_glyphsets_witness:
  "set (crr_freed_glyphsets (snd (remove_non_window_resources_owned_by 1
     (create_glyphset 8 \<lparr>glyph_client = 2, glyph_host_glyphset_xid = 5\<rparr>
       (create_glyphset 7 \<lparr>glyph_client = 1, glyph_host_glyphset_xid = 5\<rparr> default_table))))) = {}"
proof -
  let ?t = "create_glyphset 8 \<lparr>glyph_client = 2, glyph_host_glyphset_xid = 5\<rparr>
       (create_glyphset 7 \<lparr>glyph_client = 1, glyph_host_glyphset_xid = 5\<rparr> default_table)"
  have inv: "glyph_inv ?t" by (intro create_glyphset_inv glyph_inv_default)
  have g: "hm_get (rt_glyphsets ?t) k =
      (if k = 8 then Some \<lparr>glyph_client = 2, glyph_host_glyphset_xid = 5\<rparr>
       else if k = 7 then Some \<lparr>glyph_client = 1, glyph_host_glyphset_xid = 5\<rparr> else None)" for k
    by (simp add: create_glyphset_def default_table_def Let_def)
  have "{glyph_host_glyphset_xid x | x k. hm_get (rt_glyphsets ?t) k = Some x \<and> glyph_client x = 1} \<subseteq> {5}"
    by (auto simp: g split: if_splits)
  moreover have "5 \<in> {glyph_host_glyphset_xid x | x k. hm_get (rt_glyphsets ?t) k = Some x \<and> glyph_client x \<noteq> 1}"
    using g [of 8] by force
  ultimately show ?thesis
    unfolding disconnect_frees_unshared_glyphsets [OF inv prod.collapse [symmetric], of 1,
        THEN conjunct2, THEN conjunct2]
    by (simp only: Diff_eq_empty_iff) (erule subset_trans, simp only: insert_subset empty_subsetI simp_thms)
qed

end
