(* ===== verification/ClientIo.thy ===== *)
theory ClientIo
  imports Framing "HOL-Library.Sublist"
begin

text \<open>
  The server's side of a client's socket (\<open>crates/xserver-core/src/core_loop/client_io.rs\<close>):
  \<open>write_or_buffer\<close>, \<open>buffer_or_disconnect\<close> and \<open>drain_outbound\<close>, and the poller's tokens of the
  client sockets (\<open>core_loop/poll_tokens.rs\<close>).

  A writer is the list of the bytes the kernel has taken so far and the results of the next calls
  of \<open>write\<close>: \<open>Accepts f k\<close> takes at most \<open>k\<close> bytes of what it is given, \<open>Fails e\<close> is an error. The
  queue is a \<open>VecDeque\<close>; \<open>f\<close> is the length of its first slice when \<open>as_slices\<close> is called, which is
  not empty unless the queue is. When the list of results is used up the socket blocks.
\<close>

section \<open>The writer\<close>

datatype WriteError = WouldBlockErr | BrokenPipeErr | ConnectionResetErr | ConnectionAbortedErr | OtherErr

datatype WriteTurn = Accepts nat nat | Fails WriteError

record Writer =
  wr_sent :: "u8 list"
  wr_turns :: "WriteTurn list"

definition first_slice :: "Writer \<Rightarrow> nat" where
  "first_slice w = (case wr_turns w of Accepts f k # ts \<Rightarrow> max 1 f | _ \<Rightarrow> 1)"

definition kernel_write :: "u8 list \<Rightarrow> Writer \<Rightarrow> (WriteError + nat) \<times> Writer" where
  "kernel_write bs w =
     (case wr_turns w of
        [] \<Rightarrow> (Inl WouldBlockErr, w)
      | Fails e # ts \<Rightarrow> (Inl e, w\<lparr>wr_turns := ts\<rparr>)
      | Accepts f k # ts \<Rightarrow>
          (Inr (min k (length bs)), w\<lparr>wr_sent := wr_sent w @ take k bs, wr_turns := ts\<rparr>))"

section \<open>Writing and buffering\<close>

definition OUTBOUND_CAP :: nat where
  "OUTBOUND_CAP = 4 * 1024 * 1024"

datatype WriteOutcome = Done | WouldBlock | Disconnect

record ClientOut =
  co_outbound :: "u8 list"
  co_writer :: Writer

definition disconnect_kind :: "WriteError \<Rightarrow> bool" where
  "disconnect_kind k \<longleftrightarrow> k = BrokenPipeErr \<or> k = ConnectionResetErr \<or> k = ConnectionAbortedErr"

definition buffer_or_disconnect :: "u8 list \<Rightarrow> ClientOut \<Rightarrow> WriteOutcome \<times> ClientOut" where
  "buffer_or_disconnect bytes c =
     (if co_outbound c \<noteq> [] \<and> length (co_outbound c) + length bytes > OUTBOUND_CAP
      then (Disconnect, c)
      else (WouldBlock, c\<lparr>co_outbound := co_outbound c @ bytes\<rparr>))"

function drain_outbound :: "ClientOut \<Rightarrow> (WriteError + WriteOutcome) \<times> ClientOut" where
  "drain_outbound c =
     (if co_outbound c = [] then (Inr Done, c)
      else
        let chunk = take (min (first_slice (co_writer c)) (8 * 1024)) (co_outbound c)
        in case kernel_write chunk (co_writer c) of
             (Inr n, w) \<Rightarrow>
               if n = 0 then (Inr Disconnect, c\<lparr>co_writer := w\<rparr>)
               else drain_outbound (c\<lparr>co_outbound := drop n (co_outbound c), co_writer := w\<rparr>)
           | (Inl e, w) \<Rightarrow>
               (if e = WouldBlockErr then Inr WouldBlock
                else if disconnect_kind e then Inr Disconnect else Inl e,
                c\<lparr>co_writer := w\<rparr>))"
  by auto
termination
  by (relation "measure (\<lambda>c. length (co_outbound c))")
    (auto simp: kernel_write_def first_slice_def split: list.splits WriteTurn.splits)

declare drain_outbound.simps [simp del]

definition write_or_buffer :: "u8 list \<Rightarrow> ClientOut \<Rightarrow> (WriteError + WriteOutcome) \<times> ClientOut" where
  "write_or_buffer bytes c =
     (let (drained, c1) = (if co_outbound c \<noteq> [] then drain_outbound c else (Inr Done, c))
      in case drained of
           Inl e \<Rightarrow> (Inl e, c1)
         | Inr WouldBlock \<Rightarrow> map_prod Inr (\<lambda>c. c) (buffer_or_disconnect bytes c1)
         | Inr Disconnect \<Rightarrow> (Inr Disconnect, c1)
         | Inr Done \<Rightarrow>
             (case kernel_write bytes (co_writer c1) of
                (Inr n, w) \<Rightarrow>
                  if n = length bytes then (Inr Done, c1\<lparr>co_writer := w\<rparr>)
                  else if n = 0 then (Inr Disconnect, c1\<lparr>co_writer := w\<rparr>)
                  else map_prod Inr (\<lambda>c. c) (buffer_or_disconnect (drop n bytes) (c1\<lparr>co_writer := w\<rparr>))
              | (Inl e, w) \<Rightarrow>
                  if e = WouldBlockErr
                  then map_prod Inr (\<lambda>c. c) (buffer_or_disconnect bytes (c1\<lparr>co_writer := w\<rparr>))
                  else if disconnect_kind e then (Inr Disconnect, c1\<lparr>co_writer := w\<rparr>)
                  else (Inl e, c1\<lparr>co_writer := w\<rparr>)))"

section \<open>Calls on one connection\<close>

text \<open>The buffers the server submits and the writability reports of the poller, until a call ends
  the connection: \<open>Disconnect\<close> or an error makes the caller drop the client.\<close>

datatype ClientCall = Submit "u8 list" | Writable

fun client_call :: "ClientCall \<Rightarrow> ClientOut \<Rightarrow> (WriteError + WriteOutcome) \<times> ClientOut" where
  "client_call (Submit bytes) c = write_or_buffer bytes c"
| "client_call Writable c = drain_outbound c"

fun alive :: "WriteError + WriteOutcome \<Rightarrow> bool" where
  "alive (Inr Disconnect) = False"
| "alive (Inr _) = True"
| "alive (Inl _) = False"

fun client_calls :: "ClientCall list \<Rightarrow> WriteError + WriteOutcome \<Rightarrow> ClientOut \<Rightarrow> (WriteError + WriteOutcome) \<times> ClientOut" where
  "client_calls [] r c = (r, c)"
| "client_calls (x # xs) r c =
     (case client_call x c of (r', c') \<Rightarrow> if alive r' then client_calls xs r' c' else (r', c'))"

fun submitted :: "ClientCall list \<Rightarrow> u8 list" where
  "submitted [] = []"
| "submitted (Submit bytes # xs) = bytes @ submitted xs"
| "submitted (Writable # xs) = submitted xs"

fun largest :: "ClientCall list \<Rightarrow> nat" where
  "largest [] = 0"
| "largest (Submit bytes # xs) = max (length bytes) (largest xs)"
| "largest (Writable # xs) = largest xs"

definition new_connection :: "WriteTurn list \<Rightarrow> ClientOut" where
  "new_connection turns = \<lparr>co_outbound = [], co_writer = \<lparr>wr_sent = [], wr_turns = turns\<rparr>\<rparr>"

text \<open>What has left the server and what still waits, in order.\<close>

definition stream_of :: "ClientOut \<Rightarrow> u8 list" where
  "stream_of c = wr_sent (co_writer c) @ co_outbound c"

lemma kernel_write_sent:
  "kernel_write bs w = (r, w') \<Longrightarrow>
     wr_sent w' = wr_sent w @ (case r of Inr n \<Rightarrow> take n bs | Inl _ \<Rightarrow> [])"
  by (auto simp: kernel_write_def min_def split: list.splits WriteTurn.splits)

lemma kernel_write_le: "kernel_write bs w = (Inr n, w') \<Longrightarrow> n \<le> length bs"
  by (auto simp: kernel_write_def split: list.splits WriteTurn.splits)

text \<open>Draining moves bytes from the front of the queue to the socket and changes nothing else.\<close>

lemma drain_stream:
  assumes "drain_outbound c = (r, c')"
  shows "stream_of c' = stream_of c \<and> length (co_outbound c') \<le> length (co_outbound c) \<and>
    (r = Inr Done \<longrightarrow> co_outbound c' = [])"
  using assms
proof (induction c rule: drain_outbound.induct)
  case (1 c)
  let ?chunk = "take (min (first_slice (co_writer c)) (8 * 1024)) (co_outbound c)"
  show ?case
  proof (cases "co_outbound c = []")
    case True
    then show ?thesis using 1(2) by (simp add: drain_outbound.simps)
  next
    case False
    obtain res w where kw: "kernel_write ?chunk (co_writer c) = (res, w)" by fastforce
    note sent = kernel_write_sent [OF kw]
    show ?thesis
    proof (cases res)
      case (Inl e)
      then show ?thesis using 1(2) False kw sent
        by (auto simp: drain_outbound.simps [of c] stream_of_def split: if_splits)
    next
      case (Inr n)
      have n: "n \<le> length ?chunk" using kw Inr kernel_write_le by blast
      then have "n \<le> min (first_slice (co_writer c)) (8 * 1024)"
        by (simp only: length_take min.bounded_iff)
      then have tk: "take n ?chunk = take n (co_outbound c)" by (simp only: take_take min.absorb1)
      show ?thesis
      proof (cases "n = 0")
        case True
        then show ?thesis using 1(2) False kw sent Inr
          by (auto simp: drain_outbound.simps [of c] stream_of_def)
      next
        case n0: False
        let ?c1 = "c\<lparr>co_outbound := drop n (co_outbound c), co_writer := w\<rparr>"
        have "drain_outbound ?c1 = (r, c')"
          using 1(2) False kw Inr n0 by (simp add: drain_outbound.simps [of c])
        then have "stream_of c' = stream_of ?c1 \<and> length (co_outbound c') \<le> length (co_outbound ?c1) \<and>
            (r = Inr Done \<longrightarrow> co_outbound c' = [])"
          using 1(1) [OF False _ kw [symmetric] Inr n0] by blast
        moreover have "stream_of ?c1 = stream_of c"
          using sent Inr tk by (simp add: stream_of_def)
        ultimately show ?thesis by auto
      qed
    qed
  qed
qed

lemma buffer_stream:
  assumes "buffer_or_disconnect bytes c = (out, c')"
  shows "stream_of c' = stream_of c @ (if out = Disconnect then [] else bytes) \<and> out \<noteq> Done \<and>
    length (co_outbound c') \<le> max (length (co_outbound c)) (max OUTBOUND_CAP (length bytes))"
  using assms by (auto simp: buffer_or_disconnect_def stream_of_def split: if_splits)

text \<open>One submission: everything given is on the way, and in the case of an end a part from the
  front.\<close>

lemma direct_write_stream:
  assumes "kernel_write bytes (co_writer c) = (Inr n, w)" "co_outbound c = []"
  shows "stream_of (c\<lparr>co_writer := w\<rparr>) = stream_of c @ take n bytes"
  using kernel_write_sent [OF assms(1)] assms(2) by (simp add: stream_of_def)

lemma write_stream:
  assumes "write_or_buffer bytes c = (r, c')"
  shows "(if alive r then stream_of c' = stream_of c @ bytes
          else \<exists>k. stream_of c' = stream_of c @ take k bytes) \<and>
    length (co_outbound c') \<le> max (length (co_outbound c)) (max OUTBOUND_CAP (length bytes)) \<and>
    (r = Inr Done \<longrightarrow> co_outbound c' = [])"
proof -
  obtain d c1 where dr: "(if co_outbound c \<noteq> [] then drain_outbound c else (Inr Done, c)) = (d, c1)"
    by fastforce
  have c1: "stream_of c1 = stream_of c" "length (co_outbound c1) \<le> length (co_outbound c)"
      "d = Inr Done \<Longrightarrow> co_outbound c1 = []"
    using dr drain_stream [of c d c1] by (auto split: if_splits)
  have run: "(case d of Inl e \<Rightarrow> (Inl e, c1)
       | Inr WouldBlock \<Rightarrow> map_prod Inr (\<lambda>c. c) (buffer_or_disconnect bytes c1)
       | Inr Disconnect \<Rightarrow> (Inr Disconnect, c1)
       | Inr Done \<Rightarrow>
           (case kernel_write bytes (co_writer c1) of
              (Inr n, w) \<Rightarrow>
                if n = length bytes then (Inr Done, c1\<lparr>co_writer := w\<rparr>)
                else if n = 0 then (Inr Disconnect, c1\<lparr>co_writer := w\<rparr>)
                else map_prod Inr (\<lambda>c. c) (buffer_or_disconnect (drop n bytes) (c1\<lparr>co_writer := w\<rparr>))
            | (Inl e, w) \<Rightarrow>
                if e = WouldBlockErr
                then map_prod Inr (\<lambda>c. c) (buffer_or_disconnect bytes (c1\<lparr>co_writer := w\<rparr>))
                else if disconnect_kind e then (Inr Disconnect, c1\<lparr>co_writer := w\<rparr>)
                else (Inl e, c1\<lparr>co_writer := w\<rparr>))) = (r, c')"
    using assms dr unfolding write_or_buffer_def by simp
  have none: "stream_of c1 = stream_of c @ take 0 bytes" using c1 by simp
  have buffered: ?thesis if bo: "buffer_or_disconnect rest c2 = (out, c')" "r = Inr out"
      "stream_of c2 = stream_of c @ take n bytes" "rest = drop n bytes"
      "length (co_outbound c2) \<le> length (co_outbound c)" for rest c2 n out
    using buffer_stream [OF bo(1)] bo(2-5) by (cases out) (auto simp: max_def split: if_splits)
  show ?thesis
  proof (cases d)
    case (Inl e)
    then show ?thesis using run c1 none by auto
  next
    case d: (Inr out)
    show ?thesis
    proof (cases out)
      case WouldBlock
      then show ?thesis using run d c1 none buffered [of bytes c1 _ 0] by (auto simp: map_prod_def split: prod.splits)
    next
      case Disconnect
      then show ?thesis using run d c1 none by auto
    next
      case Done
      then have e: "co_outbound c1 = []" using d c1 by simp
      obtain res w where kw: "kernel_write bytes (co_writer c1) = (res, w)" by fastforce
      show ?thesis
      proof (cases res)
        case (Inl e')
        have "stream_of (c1\<lparr>co_writer := w\<rparr>) = stream_of c @ take 0 bytes"
          using kernel_write_sent [OF kw] Inl c1 by (simp add: stream_of_def)
        then show ?thesis
          using run d Done kw Inl c1 e buffered [of bytes "c1\<lparr>co_writer := w\<rparr>" _ 0]
          by (auto simp: map_prod_def split: prod.splits if_splits)
      next
        case (Inr n)
        then have st: "stream_of (c1\<lparr>co_writer := w\<rparr>) = stream_of c @ take n bytes"
          using direct_write_stream kw e c1 by metis
        then show ?thesis
          using run d Done kw Inr c1 e buffered [of "drop n bytes" "c1\<lparr>co_writer := w\<rparr>" _ n]
          by (auto simp: map_prod_def split: prod.splits if_splits)
      qed
    qed
  qed
qed

lemma call_stream:
  assumes "client_call x c = (r, c')"
  shows "(if alive r then stream_of c' = stream_of c @ submitted [x]
          else prefix (stream_of c') (stream_of c @ submitted [x])) \<and>
    length (co_outbound c') \<le> max (length (co_outbound c)) (max OUTBOUND_CAP (largest [x])) \<and>
    (r = Inr Done \<longrightarrow> co_outbound c' = [])"
proof (cases x)
  case (Submit bytes)
  then show ?thesis using write_stream [of bytes c r c'] assms
    by (cases "alive r") (auto simp: take_is_prefix)
next
  case Writable
  then show ?thesis using drain_stream [of c r c'] assms by (simp add: max_def)
qed

lemma submitted_Cons: "submitted (x # xs) = submitted [x] @ submitted xs"
  by (cases x) auto

lemma largest_Cons: "largest (x # xs) = max (largest [x]) (largest xs)"
  by (cases x) auto

lemma calls_stream:
  assumes "client_calls xs r0 c = (r, c')" "r0 = Inr Done \<longrightarrow> co_outbound c = []"
    "alive r0"
  shows "(if alive r then stream_of c' = stream_of c @ submitted xs
          else prefix (stream_of c') (stream_of c @ submitted xs)) \<and>
    length (co_outbound c') \<le> max (length (co_outbound c)) (max OUTBOUND_CAP (largest xs)) \<and>
    (r = Inr Done \<longrightarrow> co_outbound c' = [])"
  using assms
proof (induction xs arbitrary: r0 c)
  case (Cons x xs)
  obtain r1 c1 where c1: "client_call x c = (r1, c1)" by fastforce
  note one = call_stream [OF c1]
  show ?case
  proof (cases "alive r1")
    case True
    then have rest: "client_calls xs r1 c1 = (r, c')" using Cons.prems(1) c1 by simp
    note ih = Cons.IH [OF rest _ True]
    show ?thesis using ih one True
      unfolding submitted_Cons [of x xs] largest_Cons [of x xs] by auto
  next
    case False
    then have "r = r1" "c' = c1" using Cons.prems(1) c1 by auto
    then show ?thesis using one False
      unfolding submitted_Cons [of x xs] largest_Cons [of x xs]
      by (auto simp: prefix_append intro: prefix_order.trans)
  qed
qed simp

text \<open>
  Whatever the kernel accepts and whenever the socket becomes writable: on a connection
  that is still up, the bytes the socket has taken followed by the bytes that wait in the queue are
  exactly the submitted buffers in the order of their submission; on one that was given up they
  are a part of them from the front. A result \<open>Done\<close> means that the queue is empty.
\<close>

theorem outbound_in_order:
  "case client_calls calls (Inr Done) (new_connection turns) of (r, c) \<Rightarrow>
     (if alive r then wr_sent (co_writer c) @ co_outbound c = submitted calls
      else prefix (wr_sent (co_writer c) @ co_outbound c) (submitted calls)) \<and>
     (if r = Inr Done then wr_sent (co_writer c) = submitted calls else True)"
proof -
  obtain r c where rc: "client_calls calls (Inr Done) (new_connection turns) = (r, c)" by fastforce
  show ?thesis
    using calls_stream [OF rc] rc by (auto simp: new_connection_def stream_of_def)
qed

text \<open>
  Claim C35. The queue of a client never holds more than 4 MiB, or the largest single buffer when
  that is more: a client that does not read is dropped before the next buffer is queued.
\<close>

theorem outbound_bounded:
  "length (co_outbound (snd (client_calls calls (Inr Done) (new_connection turns))))
     \<le> max (4 * 1024 * 1024) (largest calls)"
proof -
  obtain r c where rc: "client_calls calls (Inr Done) (new_connection turns) = (r, c)" by fastforce
  show ?thesis
    using calls_stream [OF rc] rc by (simp add: new_connection_def OUTBOUND_CAP_def)
qed

section \<open>Progress\<close>

fun takes_some :: "WriteTurn \<Rightarrow> bool" where
  "takes_some (Accepts f k) = (0 < k)"
| "takes_some (Fails e) = False"

lemma list_all_take_le: "list_all P (take n xs) \<Longrightarrow> m \<le> n \<Longrightarrow> list_all P (take m xs)"
  using set_take_subset_set_take [of m n xs] by (auto simp: list_all_iff)

text \<open>
  Once the socket takes at least one byte with each of the next writes, for as many writes
  as there are bytes in the queue, \<open>drain_outbound\<close> returns \<open>Done\<close> with the queue empty and the
  queued bytes sent, whatever the sizes of the slices.
\<close>

theorem drain_completes:
  "list_all takes_some (take (length (co_outbound c)) (wr_turns (co_writer c))) \<Longrightarrow>
   length (co_outbound c) \<le> length (wr_turns (co_writer c)) \<Longrightarrow>
   (case drain_outbound c of (r, c') \<Rightarrow> r = Inr Done \<and> co_outbound c' = [] \<and>
      wr_sent (co_writer c') = wr_sent (co_writer c) @ co_outbound c)"
proof (induction c rule: drain_outbound.induct)
  case (1 c)
  let ?chunk = "take (min (first_slice (co_writer c)) (8 * 1024)) (co_outbound c)"
  show ?case
  proof (cases "co_outbound c = []")
    case False
    then obtain x ts where ts: "wr_turns (co_writer c) = x # ts" "takes_some x"
      using 1(2,3) by (cases "wr_turns (co_writer c)"; cases "co_outbound c") auto
    then obtain f k where x: "x = Accepts f k" "0 < k" by (cases x) auto
    let ?n = "min k (length ?chunk)"
    define w where "w = (co_writer c)\<lparr>wr_sent := wr_sent (co_writer c) @ take k ?chunk, wr_turns := ts\<rparr>"
    have kw: "kernel_write ?chunk (co_writer c) = (Inr ?n, w)"
      unfolding kernel_write_def w_def using ts x by simp
    have n0: "?n \<noteq> 0" using False x ts by (simp add: first_slice_def)
    let ?c1 = "c\<lparr>co_outbound := drop ?n (co_outbound c), co_writer := w\<rparr>"
    have step: "drain_outbound c = drain_outbound ?c1"
      unfolding drain_outbound.simps [of c] Let_def
      by (simp only: False kw n0 if_False prod.case sum.case)
    have len: "length (co_outbound ?c1) \<le> length (wr_turns (co_writer ?c1))"
        "length (co_outbound ?c1) < length (co_outbound c)"
      using 1(3) ts n0 by (auto simp: w_def)
    have "list_all takes_some (take (length (co_outbound c) - 1) ts)"
      using 1(2) ts by (cases "length (co_outbound c)") auto
    then have "list_all takes_some (take (length (co_outbound ?c1)) (wr_turns (co_writer ?c1)))"
      using list_all_take_le [of _ "length (co_outbound c) - 1" ts "length (co_outbound ?c1)"] len(2)
      by (simp add: w_def del: length_drop)
    from 1(1) [OF False HOL.refl kw [symmetric] HOL.refl n0 this len(1)]
    have ih: "case drain_outbound ?c1 of (r, c') \<Rightarrow> r = Inr Done \<and> co_outbound c' = [] \<and>
        wr_sent (co_writer c') = wr_sent (co_writer ?c1) @ co_outbound ?c1" .
    have "take k ?chunk = take ?n (co_outbound c)"
      by (simp add: min_def)
    then have "wr_sent (co_writer ?c1) @ co_outbound ?c1 = wr_sent (co_writer c) @ co_outbound c"
      unfolding w_def by simp
    then show ?thesis using ih step by (simp del: length_take)
  qed (simp add: drain_outbound.simps)
qed

theorem drain_completes_witness:
  "case drain_outbound \<lparr>co_outbound = [1, 2, 3], co_writer = \<lparr>wr_sent = [], wr_turns =
       [Accepts 2 1, Accepts 1 8, Accepts 9 9]\<rparr>\<rparr> of (r, c') \<Rightarrow>
     r = Inr Done \<and> co_outbound c' = [] \<and> wr_sent (co_writer c') = [1, 2, 3]"
  using drain_completes [of "\<lparr>co_outbound = [1, 2, 3], co_writer = \<lparr>wr_sent = [], wr_turns =
       [Accepts 2 1, Accepts 1 8, Accepts 9 9]\<rparr>\<rparr>"] by simp

end
