(* ===== verification/Regions.thy ===== *)
theory Regions
  imports Prelude "HOL-Library.Product_Lexorder"
begin

text \<open>
  Regions as lists of rectangles: the region algebra of \<open>crates/xserver-core/src/nested.rs\<close>
  (\<open>normalize_region_rects\<close>, \<open>union_regions\<close>, \<open>intersect_regions\<close>, \<open>subtract_regions\<close>,
  \<open>region_extents\<close>, \<open>bitmap_to_yx_banded_rects\<close> \<open>\<dots>\<close>), which the SHAPE, XFIXES and DAMAGE requests
  share.

  The code computes edges in \<open>i32\<close> from an \<open>i16\<close> origin and a \<open>u16\<close> size; no sum leaves the range of
  an \<open>i32\<close>, so edges are of type \<^typ>\<open>int\<close>. The results are clamped into \<open>i16\<close> and \<open>u16\<close> again.
\<close>

section \<open>Rectangles\<close>

record RegionRect =
  rect_x :: i16
  rect_y :: i16
  rect_width :: u16
  rect_height :: u16

definition rect_is_empty :: "RegionRect \<Rightarrow> bool" where
  "rect_is_empty r \<longleftrightarrow> rect_width r = 0 \<or> rect_height r = 0"

definition edge_l :: "RegionRect \<Rightarrow> int" where "edge_l r = i32_of_i16 (rect_x r)"
definition edge_t :: "RegionRect \<Rightarrow> int" where "edge_t r = i32_of_i16 (rect_y r)"
definition edge_r :: "RegionRect \<Rightarrow> int" where "edge_r r = i32_of_i16 (rect_x r) + i32_of_u16 (rect_width r)"
definition edge_b :: "RegionRect \<Rightarrow> int" where "edge_b r = i32_of_i16 (rect_y r) + i32_of_u16 (rect_height r)"

definition clamp_i16 :: "int \<Rightarrow> i16" where
  "clamp_i16 v = word_of_int (max (- 32768) (min 32767 v))"

definition clamp_u16 :: "int \<Rightarrow> u16" where
  "clamp_u16 v = word_of_int (max 0 (min 65535 v))"

text \<open>The rectangle with the given origin and size, clamped the way the code builds its results.\<close>

definition mk_rect :: "int \<Rightarrow> int \<Rightarrow> int \<Rightarrow> int \<Rightarrow> RegionRect" where
  "mk_rect x y w h = \<lparr>rect_x = clamp_i16 x, rect_y = clamp_i16 y,
     rect_width = clamp_u16 w, rect_height = clamp_u16 h\<rparr>"

section \<open>The canonical form\<close>

lemma sorted_remdups_adj_less: "sorted xs \<Longrightarrow> sorted_wrt (<) (remdups_adj (xs :: 'a :: linorder list))"
  by (induction xs rule: remdups_adj.induct) auto

fun merge_spans :: "int \<times> int \<Rightarrow> (int \<times> int) list \<Rightarrow> (int \<times> int) list" where
  "merge_spans current [] = [current]"
| "merge_spans (a, b) ((c, d) # spans) =
     (if c \<le> b then merge_spans (a, max b d) spans
      else (a, b) # merge_spans (c, d) spans)"

definition y_edges :: "RegionRect list \<Rightarrow> int list" where
  "y_edges rects = remdups_adj (sort (concat (map (\<lambda>r. [edge_t r, edge_b r]) rects)))"

definition band_spans :: "RegionRect list \<Rightarrow> int \<times> int \<Rightarrow> (int \<times> int) list" where
  "band_spans rects band =
     sort (map (\<lambda>r. (edge_l r, edge_r r)) (filter (\<lambda>r. edge_t r \<le> fst band \<and> edge_b r \<ge> snd band) rects))"

definition band_rects :: "RegionRect list \<Rightarrow> int \<times> int \<Rightarrow> RegionRect list" where
  "band_rects rects band =
     (if snd band \<le> fst band then []
      else case band_spans rects band of
          [] \<Rightarrow> []
        | span # spans \<Rightarrow>
            map (\<lambda>(a, b). mk_rect a (fst band) (b - a) (snd band - fst band))
              (merge_spans span spans))"

definition normalize_region_rects :: "RegionRect list \<Rightarrow> RegionRect list" where
  "normalize_region_rects rects0 =
     (let rects = filter (\<lambda>r. \<not> rect_is_empty r) rects0
      in if rects = [] then []
         else concat (map (band_rects rects) (zip (y_edges rects) (tl (y_edges rects)))))"

section \<open>The operations\<close>

definition region_extents :: "RegionRect list \<Rightarrow> RegionRect" where
  "region_extents rects =
     (case rects of
        [] \<Rightarrow> \<lparr>rect_x = 0, rect_y = 0, rect_width = 0, rect_height = 0\<rparr>
      | r # rs \<Rightarrow>
          (let a1 = fold (\<lambda>q m. min m (edge_l q)) rs (edge_l r);
               b1 = fold (\<lambda>q m. min m (edge_t q)) rs (edge_t r);
               a2 = fold (\<lambda>q m. max m (edge_r q)) rs (edge_r r);
               b2 = fold (\<lambda>q m. max m (edge_b q)) rs (edge_b r)
           in mk_rect a1 b1 (a2 - a1) (b2 - b1)))"

definition intersect_rect :: "RegionRect \<Rightarrow> RegionRect \<Rightarrow> RegionRect option" where
  "intersect_rect a b =
     (let l = max (edge_l a) (edge_l b); t = max (edge_t a) (edge_t b);
          r = min (edge_r a) (edge_r b); m = min (edge_b a) (edge_b b)
      in if r \<le> l \<or> m \<le> t then None else Some (mk_rect l t (r - l) (m - t)))"

definition intersect_regions :: "RegionRect list \<Rightarrow> RegionRect list \<Rightarrow> RegionRect list" where
  "intersect_regions a b =
     normalize_region_rects
       (concat (map (\<lambda>ar. List.map_filter (\<lambda>br. intersect_rect ar br) b) a))"

definition subtract_rect :: "RegionRect \<Rightarrow> RegionRect \<Rightarrow> RegionRect list" where
  "subtract_rect a b =
     (case intersect_rect a b of
        None \<Rightarrow> [a]
      | Some i \<Rightarrow>
          (if edge_t a < edge_t i
           then [a\<lparr>rect_height := clamp_u16 (edge_t i - edge_t a)\<rparr>] else []) @
          (if edge_b i < edge_b a
           then [a\<lparr>rect_y := clamp_i16 (edge_b i), rect_height := clamp_u16 (edge_b a - edge_b i)\<rparr>] else []) @
          (if edge_l a < edge_l i
           then [\<lparr>rect_x = rect_x a, rect_y = rect_y i,
                  rect_width = clamp_u16 (edge_l i - edge_l a), rect_height = rect_height i\<rparr>] else []) @
          (if edge_r i < edge_r a
           then [\<lparr>rect_x = clamp_i16 (edge_r i), rect_y = rect_y i,
                  rect_width = clamp_u16 (edge_r a - edge_r i), rect_height = rect_height i\<rparr>] else []))"

text \<open>The loop over the rectangles to take away. In \<open>union_regions\<close> the code leaves it when nothing is
  left; in \<open>subtract_regions\<close> the further rounds then do nothing.\<close>

fun subtract_all :: "RegionRect list \<Rightarrow> RegionRect list \<Rightarrow> RegionRect list" where
  "subtract_all pieces [] = pieces"
| "subtract_all pieces (s # ss) =
     (if pieces = [] then [] else subtract_all (concat (map (\<lambda>p. subtract_rect p s) pieces)) ss)"

fun union_loop :: "RegionRect list \<Rightarrow> RegionRect list \<Rightarrow> RegionRect list" where
  "union_loop result [] = result"
| "union_loop result (s # ss) = union_loop (result @ subtract_all [s] result) ss"

definition union_regions :: "RegionRect list \<Rightarrow> RegionRect list \<Rightarrow> RegionRect list" where
  "union_regions current source = normalize_region_rects (union_loop current source)"

definition subtract_regions :: "RegionRect list \<Rightarrow> RegionRect list \<Rightarrow> RegionRect list" where
  "subtract_regions current source = normalize_region_rects (subtract_all current source)"

definition saturating_add_i16 :: "i16 \<Rightarrow> i16 \<Rightarrow> i16" where
  "saturating_add_i16 a b = clamp_i16 (sint a + sint b)"

definition translate_region :: "i16 \<Rightarrow> i16 \<Rightarrow> RegionRect list \<Rightarrow> RegionRect list" where
  "translate_region dx dy rects =
     map (\<lambda>r. r\<lparr>rect_x := saturating_add_i16 (rect_x r) dx,
                rect_y := saturating_add_i16 (rect_y r) dy\<rparr>) rects"

definition offset_rects :: "RegionRect list \<Rightarrow> i16 \<Rightarrow> i16 \<Rightarrow> RegionRect list" where
  "offset_rects rects dx dy = normalize_region_rects (translate_region dx dy rects)"

section \<open>Bitmaps\<close>

text \<open>The product of two \<open>u32\<close> does not saturate a 64-bit \<open>usize\<close>.\<close>

text \<open>The runs of set pixels of one row: start and length, \<open>x\<close> being the column of the first pixel of
  the rest of the row.\<close>

function row_runs :: "nat \<Rightarrow> u8 list \<Rightarrow> (nat \<times> nat) list" where
  "row_runs x [] = []"
| "row_runs x (p # ps) =
     (if p \<noteq> 0
      then (x, Suc (length (takeWhile (\<lambda>q. q \<noteq> 0) ps)))
             # row_runs (Suc x + length (takeWhile (\<lambda>q. q \<noteq> 0) ps)) (dropWhile (\<lambda>q. q \<noteq> 0) ps)
      else row_runs (Suc x) ps)"
  by pat_completeness auto
termination by (relation "measure (\<lambda>(x, ps). length ps)") (auto simp: le_imp_less_Suc length_dropWhile_le)

function band_runs :: "nat \<Rightarrow> (nat \<times> nat) list list \<Rightarrow> RegionRect list" where
  "band_runs y [] = []"
| "band_runs y (runs # rows) =
     (if runs = [] then band_runs (Suc y) rows
      else
        let n = Suc (length (takeWhile (\<lambda>q. q = runs) rows))
        in map (\<lambda>(start, run_w). \<lparr>rect_x = of_nat start, rect_y = of_nat y,
                   rect_width = of_nat run_w, rect_height = of_nat n\<rparr>) runs @
           band_runs (y + n) (dropWhile (\<lambda>q. q = runs) rows))"
  by pat_completeness auto
termination by (relation "measure (\<lambda>(y, rows). length rows)") (auto simp: le_imp_less_Suc length_dropWhile_le)

definition bitmap_to_yx_banded_rects :: "u8 list \<Rightarrow> u32 \<Rightarrow> u32 \<Rightarrow> RegionRect list" where
  "bitmap_to_yx_banded_rects bytes width height =
     (let w = unat width; h = unat height
      in if w = 0 \<or> h = 0 \<or> length bytes < w * h then []
         else band_runs 0 (map (\<lambda>y. row_runs 0 (take w (drop (y * w) bytes))) [0..<h]))"

section \<open>The pixels of a region\<close>

definition covers :: "RegionRect \<Rightarrow> int \<times> int \<Rightarrow> bool" where
  "covers r p \<longleftrightarrow> edge_l r \<le> fst p \<and> fst p < edge_r r \<and> edge_t r \<le> snd p \<and> snd p < edge_b r"

definition in_region :: "RegionRect list \<Rightarrow> int \<times> int \<Rightarrow> bool" where
  "in_region rects p \<longleftrightarrow> list_ex (\<lambda>r. covers r p) rects"

text \<open>The rectangle does not reach past the coordinates an \<open>i16\<close> can name.\<close>

definition fits :: "RegionRect \<Rightarrow> bool" where
  "fits r \<longleftrightarrow> edge_r r \<le> 32767 \<and> edge_b r \<le> 32767"

lemmas edge_defs = edge_l_def edge_t_def edge_r_def edge_b_def

lemma in_region_simps [simp]:
  "\<not> in_region [] p"
  "in_region (r # rs) p \<longleftrightarrow> covers r p \<or> in_region rs p"
  "in_region (rs @ qs) p \<longleftrightarrow> in_region rs p \<or> in_region qs p"
  by (auto simp: in_region_def)

lemma in_region_concat: "in_region (concat rss) p \<longleftrightarrow> (\<exists>rs\<in>set rss. in_region rs p)"
  by (induction rss) auto

lemma in_region_iff: "in_region rs p \<longleftrightarrow> (\<exists>r\<in>set rs. covers r p)"
  by (simp add: in_region_def list_ex_iff)

lemma i16_range: "- 32768 \<le> sint (x :: i16)" "sint (x :: i16) \<le> 32767"
  using sint_ge [of x] sint_lt [of x] by auto

lemma u16_range: "0 \<le> uint (x :: u16)" "uint (x :: u16) \<le> 65535"
  using uint_bounded [of x] by auto

lemma sint_clamp: "- 32768 \<le> v \<Longrightarrow> v \<le> 32767 \<Longrightarrow> sint (clamp_i16 v) = v"
  unfolding clamp_i16_def
  by (simp add: signed_of_int signed_take_bit_int_eq_self)

lemma uint_clamp: "0 \<le> v \<Longrightarrow> v \<le> 65535 \<Longrightarrow> uint (clamp_u16 v) = v"
  unfolding clamp_u16_def
  by (simp add: unsigned_of_int take_bit_int_eq_self)

lemma edge_bounds:
  "- 32768 \<le> edge_l r" "edge_l r \<le> 32767" "- 32768 \<le> edge_t r" "edge_t r \<le> 32767"
  "edge_l r \<le> edge_r r" "edge_t r \<le> edge_b r"
  using i16_range u16_range unfolding edge_defs by auto

lemma mk_rect_edges:
  assumes "- 32768 \<le> x" "x \<le> 32767" "- 32768 \<le> y" "y \<le> 32767"
    "0 \<le> w" "w \<le> 65535" "0 \<le> h" "h \<le> 65535"
  shows "edge_l (mk_rect x y w h) = x" "edge_t (mk_rect x y w h) = y"
    "edge_r (mk_rect x y w h) = x + w" "edge_b (mk_rect x y w h) = y + h"
  using assms by (auto simp: mk_rect_def edge_defs sint_clamp uint_clamp)

lemma empty_edges: "rect_is_empty r \<longleftrightarrow> edge_l r = edge_r r \<or> edge_t r = edge_b r"
  unfolding rect_is_empty_def edge_defs by (auto simp: word_uint_eq_iff)

lemma empty_covers: "rect_is_empty r \<Longrightarrow> \<not> covers r p"
  by (auto simp: empty_edges covers_def)

end
