(* ===== verification/RegionClaims.thy ===== *)
theory RegionClaims
  imports Regions
begin

text \<open>
  The region algebra is the algebra of pixel sets, as long as no rectangle reaches past the
  coordinates of an \<open>i16\<close> (\<open>fits\<close>); the normal form is the canonical YX-banded one.
\<close>

section \<open>Two rectangles\<close>

lemma intersect_rect_None: "intersect_rect a b = None \<Longrightarrow> covers a p \<Longrightarrow> \<not> covers b p"
  by (auto simp: intersect_rect_def Let_def covers_def split: if_splits)

lemma intersect_rect_Some:
  assumes "intersect_rect a b = Some i"
  shows "edge_l i = max (edge_l a) (edge_l b)" "edge_t i = max (edge_t a) (edge_t b)"
    "edge_r i = min (edge_r a) (edge_r b)" "edge_b i = min (edge_b a) (edge_b b)"
    "edge_l i < edge_r i" "edge_t i < edge_b i"
proof -
  let ?l = "max (edge_l a) (edge_l b)" and ?t = "max (edge_t a) (edge_t b)"
  let ?r = "min (edge_r a) (edge_r b)" and ?m = "min (edge_b a) (edge_b b)"
  have i: "i = mk_rect ?l ?t (?r - ?l) (?m - ?t)" and lt: "?l < ?r" "?t < ?m"
    using assms by (auto simp: intersect_rect_def Let_def split: if_splits)
  have w: "edge_r a - edge_l a \<le> 65535" "edge_b a - edge_t a \<le> 65535"
    using u16_range by (auto simp: edge_defs)
  have "- 32768 \<le> ?l" "?l \<le> 32767" "- 32768 \<le> ?t" "?t \<le> 32767"
    using edge_bounds [of a] edge_bounds [of b] by auto
  moreover have "0 \<le> ?r - ?l" "?r - ?l \<le> 65535" "0 \<le> ?m - ?t" "?m - ?t \<le> 65535"
    using lt w by linarith+
  ultimately have e: "edge_l i = ?l" "edge_t i = ?t" "edge_r i = ?l + (?r - ?l)" "edge_b i = ?t + (?m - ?t)"
    unfolding i by (rule mk_rect_edges)+
  show "edge_l i = ?l" "edge_t i = ?t" "edge_r i = ?r" "edge_b i = ?m"
    using e by linarith+
  then show "edge_l i < edge_r i" "edge_t i < edge_b i" using lt by simp_all
qed

lemma intersect_rect_covers:
  "intersect_rect a b = Some i \<Longrightarrow> covers i p \<longleftrightarrow> covers a p \<and> covers b p"
  by (auto simp: covers_def intersect_rect_Some)

lemma intersect_rect_fits: "intersect_rect a b = Some i \<Longrightarrow> fits a \<Longrightarrow> fits i"
  by (auto simp: fits_def intersect_rect_Some)

lemma intersect_rect_option:
  "(case intersect_rect a b of None \<Rightarrow> False | Some i \<Rightarrow> covers i p) \<longleftrightarrow> covers a p \<and> covers b p"
  using intersect_rect_None intersect_rect_covers by (cases "intersect_rect a b") auto

text \<open>The four strips left when \<open>i\<close> is cut out of \<open>a\<close>.\<close>

lemma strip_edges:
  assumes "edge_t a \<le> t" "t \<le> 32767" "0 \<le> h" "h \<le> 65535"
  shows "edge_l (a\<lparr>rect_y := clamp_i16 t, rect_height := clamp_u16 h\<rparr>) = edge_l a"
    "edge_r (a\<lparr>rect_y := clamp_i16 t, rect_height := clamp_u16 h\<rparr>) = edge_r a"
    "edge_t (a\<lparr>rect_y := clamp_i16 t, rect_height := clamp_u16 h\<rparr>) = t"
    "edge_b (a\<lparr>rect_y := clamp_i16 t, rect_height := clamp_u16 h\<rparr>) = t + h"
    "edge_l (a\<lparr>rect_height := clamp_u16 h\<rparr>) = edge_l a"
    "edge_r (a\<lparr>rect_height := clamp_u16 h\<rparr>) = edge_r a"
    "edge_t (a\<lparr>rect_height := clamp_u16 h\<rparr>) = edge_t a"
    "edge_b (a\<lparr>rect_height := clamp_u16 h\<rparr>) = edge_t a + h"
proof -
  have "- 32768 \<le> t" using assms(1) edge_bounds(3) [of a] by linarith
  then have "sint (clamp_i16 t) = t" using assms(2) by (rule sint_clamp)
  moreover have "uint (clamp_u16 h) = h" using assms(3,4) by (rule uint_clamp)
  ultimately show "edge_l (a\<lparr>rect_y := clamp_i16 t, rect_height := clamp_u16 h\<rparr>) = edge_l a"
    "edge_r (a\<lparr>rect_y := clamp_i16 t, rect_height := clamp_u16 h\<rparr>) = edge_r a"
    "edge_t (a\<lparr>rect_y := clamp_i16 t, rect_height := clamp_u16 h\<rparr>) = t"
    "edge_b (a\<lparr>rect_y := clamp_i16 t, rect_height := clamp_u16 h\<rparr>) = t + h"
    "edge_l (a\<lparr>rect_height := clamp_u16 h\<rparr>) = edge_l a"
    "edge_r (a\<lparr>rect_height := clamp_u16 h\<rparr>) = edge_r a"
    "edge_t (a\<lparr>rect_height := clamp_u16 h\<rparr>) = edge_t a"
    "edge_b (a\<lparr>rect_height := clamp_u16 h\<rparr>) = edge_t a + h"
    by (simp_all add: edge_defs)
qed

lemma side_edges:
  assumes "0 \<le> w" "w \<le> 65535"
  shows "edge_l \<lparr>rect_x = rect_x a, rect_y = rect_y i, rect_width = clamp_u16 w, rect_height = rect_height i\<rparr> = edge_l a"
    "edge_r \<lparr>rect_x = rect_x a, rect_y = rect_y i, rect_width = clamp_u16 w, rect_height = rect_height i\<rparr> = edge_l a + w"
    "edge_t \<lparr>rect_x = x, rect_y = rect_y i, rect_width = y, rect_height = rect_height i\<rparr> = edge_t i"
    "edge_b \<lparr>rect_x = x, rect_y = rect_y i, rect_width = y, rect_height = rect_height i\<rparr> = edge_b i"
    "- 32768 \<le> l \<Longrightarrow> l \<le> 32767 \<Longrightarrow>
       edge_l \<lparr>rect_x = clamp_i16 l, rect_y = rect_y i, rect_width = clamp_u16 w, rect_height = rect_height i\<rparr> = l"
    "- 32768 \<le> l \<Longrightarrow> l \<le> 32767 \<Longrightarrow>
       edge_r \<lparr>rect_x = clamp_i16 l, rect_y = rect_y i, rect_width = clamp_u16 w, rect_height = rect_height i\<rparr> = l + w"
  using assms by (simp_all add: edge_defs sint_clamp uint_clamp)

lemma four_strips:
  assumes "(la :: int) \<le> li" "li < ri" "ri \<le> ra" "(ta :: int) \<le> ti" "ti < bi" "bi \<le> ba"
  shows "(ta < ti \<and> la \<le> x \<and> x < ra \<and> ta \<le> y \<and> y < ti) \<or>
      (bi < ba \<and> la \<le> x \<and> x < ra \<and> bi \<le> y \<and> y < ba) \<or>
      (la < li \<and> la \<le> x \<and> x < li \<and> ti \<le> y \<and> y < bi) \<or>
      (ri < ra \<and> ri \<le> x \<and> x < ra \<and> ti \<le> y \<and> y < bi) \<longleftrightarrow>
    (la \<le> x \<and> x < ra \<and> ta \<le> y \<and> y < ba) \<and> \<not> (li \<le> x \<and> x < ri \<and> ti \<le> y \<and> y < bi)"
proof (cases "ti \<le> y \<and> y < bi")
  case True
  then show ?thesis using assms by (cases "x < li"; cases "x < ri") auto
next
  case False
  then show ?thesis using assms by (cases "y < ti") auto
qed

lemma subtract_rect_exact:
  assumes a: "fits a"
  shows "(in_region (subtract_rect a b) p \<longleftrightarrow> covers a p \<and> \<not> covers b p) \<and>
    (\<forall>r\<in>set (subtract_rect a b). fits r)"
proof (cases "intersect_rect a b")
  case None
  then show ?thesis using a intersect_rect_None [OF None, of p] by (auto simp: subtract_rect_def)
next
  case (Some i)
  note i = intersect_rect_Some [OF Some]
  have le: "edge_l a \<le> edge_l i" "edge_l i < edge_r i" "edge_r i \<le> edge_r a"
      "edge_t a \<le> edge_t i" "edge_t i < edge_b i" "edge_b i \<le> edge_b a"
    using i by simp_all
  note ab = edge_bounds [of a]
  have w: "edge_r a - edge_l a \<le> 65535" "edge_b a - edge_t a \<le> 65535"
    using u16_range by (auto simp: edge_defs)
  have top: "0 \<le> edge_t i - edge_t a" "edge_t i - edge_t a \<le> 65535"
    using le w by linarith+
  have bot: "edge_t a \<le> edge_b i" "edge_b i \<le> 32767" "0 \<le> edge_b a - edge_b i" "edge_b a - edge_b i \<le> 65535"
    using le w a unfolding fits_def by linarith+
  have left: "0 \<le> edge_l i - edge_l a" "edge_l i - edge_l a \<le> 65535"
    using le w by linarith+
  have right: "- 32768 \<le> edge_r i" "edge_r i \<le> 32767" "0 \<le> edge_r a - edge_r i" "edge_r a - edge_r i \<le> 65535"
    using le w a ab unfolding fits_def by linarith+
  note e = strip_edges(5-8) [OF order.refl ab(4) top] strip_edges(1-4) [OF bot]
    side_edges(1-4) [OF left] side_edges(5,6) [OF right(3,4,1,2)]
  have cov: "covers b p \<and> covers a p \<longleftrightarrow> covers i p" using intersect_rect_covers [OF Some] by blast
  have split: "in_region (subtract_rect a b) p \<longleftrightarrow> covers a p \<and> \<not> covers i p"
  proof -
    have "in_region (subtract_rect a b) p \<longleftrightarrow>
        (edge_t a < edge_t i \<and> edge_l a \<le> fst p \<and> fst p < edge_r a \<and> edge_t a \<le> snd p \<and> snd p < edge_t i) \<or>
        (edge_b i < edge_b a \<and> edge_l a \<le> fst p \<and> fst p < edge_r a \<and> edge_b i \<le> snd p \<and> snd p < edge_b a) \<or>
        (edge_l a < edge_l i \<and> edge_l a \<le> fst p \<and> fst p < edge_l i \<and> edge_t i \<le> snd p \<and> snd p < edge_b i) \<or>
        (edge_r i < edge_r a \<and> edge_r i \<le> fst p \<and> fst p < edge_r a \<and> edge_t i \<le> snd p \<and> snd p < edge_b i)"
      unfolding subtract_rect_def Some by (simp add: covers_def e)
    also have "\<dots> \<longleftrightarrow> covers a p \<and> \<not> covers i p"
      unfolding covers_def by (rule four_strips) (use le in simp_all)
    finally show ?thesis .
  qed
  moreover have "\<forall>r\<in>set (subtract_rect a b). fits r"
    unfolding subtract_rect_def Some fits_def
    using a [unfolded fits_def] le by (auto simp: e)
  ultimately show ?thesis using cov by blast
qed

lemma subtract_pieces_exact:
  assumes "\<forall>r\<in>set pieces. fits r"
  shows "(in_region (concat (map (\<lambda>q. subtract_rect q s) pieces)) p \<longleftrightarrow>
      in_region pieces p \<and> \<not> covers s p) \<and>
    (\<forall>r\<in>set (concat (map (\<lambda>q. subtract_rect q s) pieces)). fits r)"
  using assms
proof (induction pieces)
  case (Cons q qs)
  then show ?case using subtract_rect_exact [of q s p] by auto
qed simp

lemma subtract_all_exact:
  assumes "\<forall>r\<in>set pieces. fits r"
  shows "(in_region (subtract_all pieces ss) p \<longleftrightarrow> in_region pieces p \<and> \<not> in_region ss p) \<and>
    (\<forall>r\<in>set (subtract_all pieces ss). fits r)"
  using assms
proof (induction ss arbitrary: pieces)
  case (Cons s ss)
  note one = subtract_pieces_exact [OF Cons.prems, of s p]
  note rest = Cons.IH [OF one [THEN conjunct2]]
  show ?case
  proof (cases "pieces = []")
    case False
    then show ?thesis using one rest by simp
  qed simp
qed simp

lemma union_loop_exact:
  assumes "\<forall>r\<in>set result. fits r" "\<forall>s\<in>set ss. fits s"
  shows "(in_region (union_loop result ss) p \<longleftrightarrow> in_region result p \<or> in_region ss p) \<and>
    (\<forall>r\<in>set (union_loop result ss). fits r)"
  using assms
proof (induction ss arbitrary: result)
  case (Cons s ss)
  have one: "(in_region (subtract_all [s] result) p \<longleftrightarrow> in_region [s] p \<and> \<not> in_region result p) \<and>
      (\<forall>r\<in>set (subtract_all [s] result). fits r)"
    by (rule subtract_all_exact) (use Cons.prems in simp)
  have "\<forall>r\<in>set (result @ subtract_all [s] result). fits r" using one Cons.prems by auto
  note rest = Cons.IH [OF this]
  show ?case using one rest Cons.prems by auto
qed simp

section \<open>The normal form\<close>

text \<open>Two neighbours of a strictly increasing list of edges around a value.\<close>

lemma edge_gap:
  assumes "sorted_wrt (<) ys" "a \<in> set ys" "b \<in> set ys" "a \<le> z" "z < b"
  shows "\<exists>(u, v)\<in>set (zip ys (tl ys)). u \<le> z \<and> z < (v :: int) \<and> (\<forall>e\<in>set ys. e \<le> u \<or> v \<le> e)"
  using assms
proof (induction ys arbitrary: a)
  case (Cons y ys)
  show ?case
  proof (cases "\<exists>c\<in>set ys. c \<le> z")
    case True
    then obtain c where c: "c \<in> set ys" "c \<le> z" by blast
    have srt: "sorted_wrt (<) ys" using Cons.prems(1) by simp
    have "b \<in> set ys" using Cons.prems(1,3,5) c by auto
    then obtain u v where uv: "(u, v) \<in> set (zip ys (tl ys))" "u \<le> z" "z < v"
        "\<forall>e\<in>set ys. e \<le> u \<or> v \<le> e"
      using Cons.IH [OF srt c(1) _ c(2) Cons.prems(5)] by auto
    have "u \<in> set ys" using uv(1) by (rule set_zip_leftD)
    then have "y \<le> u" using Cons.prems(1) by auto
    then show ?thesis using uv by (cases ys) auto
  next
    case False
    then have ay: "a = y" using Cons.prems(2,4) by auto
    then have "b \<in> set ys" using Cons.prems(3,4,5) by auto
    then obtain v vs where ys: "ys = v # vs" by (cases ys) auto
    have "z < v" "\<forall>e\<in>set vs. v \<le> e" using False ys Cons.prems(1) by auto
    then show ?thesis using ay ys Cons.prems(4) by auto
  qed
qed simp

lemma y_edges_sorted: "sorted_wrt (<) (y_edges rects)"
  unfolding y_edges_def by (rule sorted_remdups_adj_less) simp

lemma set_y_edges: "set (y_edges rects) = edge_t ` set rects \<union> edge_b ` set rects"
  by (auto simp: y_edges_def)

text \<open>Bands: consecutive edges.\<close>

lemma zip_tl_sorted:
  assumes "sorted_wrt (<) (ys :: int list)"
  shows "sorted_wrt (\<lambda>p q. snd p \<le> fst q) (zip ys (tl ys)) \<and>
    (\<forall>p\<in>set (zip ys (tl ys)). fst p \<in> set ys \<and> snd p \<in> set ys \<and> fst p < snd p)"
  using assms
proof (induction ys rule: induct_list012)
  case (3 y z ys)
  have "sorted_wrt (<) (z # ys)" using "3.prems" by simp
  note ih = "3.IH"(2) [OF this]
  have "\<forall>p\<in>set (zip (z # ys) ys). fst p \<in> set (z # ys)" by (auto dest: set_zip_leftD)
  moreover have "\<forall>e\<in>set (z # ys). z \<le> e" using "3.prems" by auto
  ultimately have "\<forall>p\<in>set (zip (z # ys) ys). z \<le> fst p" by blast
  then show ?case using ih "3.prems" by auto
qed simp_all

lemma merge_spans_covers:
  assumes "sorted_wrt (\<lambda>p q. fst p \<le> fst q) (cur # spans)"
  shows "(\<exists>(a, b)\<in>set (merge_spans cur spans). a \<le> x \<and> x < b) \<longleftrightarrow>
    (\<exists>(a, b)\<in>set (cur # spans). a \<le> (x :: int) \<and> x < b)"
  using assms
proof (induction cur spans rule: merge_spans.induct)
  case (2 a b c d spans)
  have ac: "a \<le> c" using 2(3) by auto
  have srt: "sorted_wrt (\<lambda>p q. fst p \<le> fst q) ((c, d) # spans)" using 2(3) by simp
  show ?case
  proof (cases "c \<le> b")
    case True
    have "sorted_wrt (\<lambda>p q. fst p \<le> fst q) ((a, max b d) # spans)" using 2(3) by auto
    then have "(\<exists>(a', b')\<in>set (merge_spans (a, max b d) spans). a' \<le> x \<and> x < b') \<longleftrightarrow>
        (\<exists>(a', b')\<in>set ((a, max b d) # spans). a' \<le> x \<and> x < b')"
      by (rule 2(1) [OF True])
    then show ?thesis using True ac by (auto simp: max_def)
  next
    case False
    then show ?thesis using 2(2) [OF False srt] by auto
  qed
qed auto

text \<open>The merged spans are apart, and their ends are ends of the given ones.\<close>

lemma merge_spans_apart:
  assumes "sorted_wrt (\<lambda>p q. fst p \<le> fst q) (cur # spans)" "\<forall>(a, b)\<in>set (cur # spans). a < b"
  shows "sorted_wrt (\<lambda>p q. snd p < (fst q :: int)) (merge_spans cur spans) \<and>
    (\<forall>(a, b)\<in>set (merge_spans cur spans). a < b \<and> a \<in> fst ` set (cur # spans) \<and>
       b \<in> snd ` set (cur # spans) \<and> fst cur \<le> a)"
  using assms
proof (induction cur spans rule: merge_spans.induct)
  case (2 a b c d spans)
  show ?case
  proof (cases "c \<le> b")
    case True
    have "sorted_wrt (\<lambda>p q. fst p \<le> fst q) ((a, max b d) # spans)"
        "\<forall>(a, b)\<in>set ((a, max b d) # spans). a < b"
      using 2(3,4) by auto
    note ih = 2(1) [OF True this]
    show ?thesis using ih True by (auto simp: max_def split: if_splits)
  next
    case False
    have "sorted_wrt (\<lambda>p q. fst p \<le> fst q) ((c, d) # spans)"
        "\<forall>(a, b)\<in>set ((c, d) # spans). a < b" and ac: "a \<le> c"
      using 2(3,4) by auto
    note ih = 2(2) [OF False this(1,2)]
    show ?thesis using ih False ac 2(4) by fastforce
  qed
qed auto

lemma band_spans_sorted: "sorted_wrt (\<lambda>p q. fst p \<le> fst q) (band_spans rects band)"
proof (rule sorted_wrt_mono_rel)
  show "sorted_wrt (\<le>) (band_spans rects band)" by (simp add: band_spans_def)
qed auto

lemma set_band_spans:
  "set (band_spans rects band) =
     (\<lambda>r. (edge_l r, edge_r r)) ` {r \<in> set rects. edge_t r \<le> fst band \<and> snd band \<le> edge_b r}"
  by (auto simp: band_spans_def)

text \<open>One band of the normal form.\<close>

lemma band_rects_exact:
  assumes rects: "\<forall>r\<in>set rects. fits r \<and> \<not> rect_is_empty r"
    and band: "fst band < snd band" "- 32768 \<le> fst band" "snd band \<le> 32767"
  shows "(in_region (band_rects rects band) p \<longleftrightarrow> fst band \<le> snd p \<and> snd p < snd band \<and>
      (\<exists>r\<in>set rects. edge_t r \<le> fst band \<and> snd band \<le> edge_b r \<and> edge_l r \<le> fst p \<and> fst p < edge_r r)) \<and>
    (\<forall>r\<in>set (band_rects rects band). edge_t r = fst band \<and> edge_b r = snd band \<and>
       edge_l r < edge_r r \<and> fits r) \<and>
    sorted_wrt (\<lambda>r q. edge_r r < edge_l q) (band_rects rects band)"
proof (cases "band_spans rects band")
  case Nil
  then have "{r \<in> set rects. edge_t r \<le> fst band \<and> snd band \<le> edge_b r} = {}"
    using set_band_spans [of rects band] by simp
  then show ?thesis using band Nil by (auto simp: band_rects_def)
next
  case (Cons cur spans)
  let ?ms = "merge_spans cur spans"
  let ?f = "\<lambda>(a, b). mk_rect a (fst band) (b - a) (snd band - fst band)"
  have br: "band_rects rects band = map ?f ?ms" using Cons band by (simp add: band_rects_def)
  have srt: "sorted_wrt (\<lambda>p q. fst p \<le> fst q) (cur # spans)"
    using band_spans_sorted [of rects band] Cons by simp
  have ne: "\<forall>(a, b)\<in>set (cur # spans). a < b \<and> - 32768 \<le> a \<and> b \<le> 32767"
    using rects edge_bounds set_band_spans [of rects band] Cons
    by (auto simp: fits_def empty_edges order_neq_le_trans)
  then have "\<forall>(a, b)\<in>set (cur # spans). a < b" by blast
  note apart = merge_spans_apart [OF srt this]
  have edges: "edge_l (?f s) = fst s" "edge_r (?f s) = snd s" "edge_t (?f s) = fst band"
      "edge_b (?f s) = snd band" "fst s < snd s" "snd s \<le> 32767" if "s \<in> set ?ms" for s
  proof -
    obtain a b where s: "s = (a, b)" by (cases s)
    then have ab: "a < b" "a \<in> fst ` set (cur # spans)" "b \<in> snd ` set (cur # spans)"
      using apart that by auto
    then have r: "- 32768 \<le> a" "b \<le> 32767" using ne by auto
    have m: "- 32768 \<le> a" "a \<le> 32767" "- 32768 \<le> fst band" "fst band \<le> 32767" "0 \<le> b - a"
        "b - a \<le> 65535" "0 \<le> snd band - fst band" "snd band - fst band \<le> 65535"
      using ab(1) r band by linarith+
    show "edge_l (?f s) = fst s" "edge_r (?f s) = snd s" "edge_t (?f s) = fst band"
      "edge_b (?f s) = snd band" "fst s < snd s" "snd s \<le> 32767"
      using mk_rect_edges [OF m] s ab r by simp_all
  qed
  have cov: "in_region (band_rects rects band) p \<longleftrightarrow>
      (\<exists>s\<in>set ?ms. fst s \<le> fst p \<and> fst p < snd s) \<and> fst band \<le> snd p \<and> snd p < snd band"
    unfolding br in_region_iff covers_def set_map bex_simps using edges by auto
  have "(\<exists>s\<in>set ?ms. fst s \<le> fst p \<and> fst p < snd s) \<longleftrightarrow>
      (\<exists>s\<in>set (band_spans rects band). fst s \<le> fst p \<and> fst p < snd s)"
    using merge_spans_covers [OF srt, of "fst p"] Cons by (simp add: case_prod_unfold)
  then have "in_region (band_rects rects band) p \<longleftrightarrow> fst band \<le> snd p \<and> snd p < snd band \<and>
      (\<exists>r\<in>set rects. edge_t r \<le> fst band \<and> snd band \<le> edge_b r \<and> edge_l r \<le> fst p \<and> fst p < edge_r r)"
    unfolding cov set_band_spans by auto
  moreover have "\<forall>r\<in>set (band_rects rects band). edge_t r = fst band \<and> edge_b r = snd band \<and>
       edge_l r < edge_r r \<and> fits r"
    unfolding br set_map fits_def using edges band(3) by auto
  moreover have "sorted_wrt (\<lambda>r q. edge_r r < edge_l q) (band_rects rects band)"
    unfolding br sorted_wrt_map
    by (rule sorted_wrt_mono_rel [of ?ms "\<lambda>p q. snd p < fst q"]) (use apart edges in auto)
  ultimately show ?thesis by blast
qed

text \<open>The canonical list: no empty rectangle, the bands from top to bottom without overlap, the
  rectangles of a band from left to right and apart.\<close>

definition next_in_region :: "RegionRect \<Rightarrow> RegionRect \<Rightarrow> bool" where
  "next_in_region r q \<longleftrightarrow> edge_b r \<le> edge_t q \<or>
     edge_t r = edge_t q \<and> edge_b r = edge_b q \<and> edge_r r < edge_l q"

definition yx_banded :: "RegionRect list \<Rightarrow> bool" where
  "yx_banded rs \<longleftrightarrow> list_all (\<lambda>r. \<not> rect_is_empty r) rs \<and> sorted_wrt next_in_region rs"

lemma sorted_wrt_concat:
  assumes "\<forall>xs\<in>set xss. sorted_wrt P xs"
    "sorted_wrt (\<lambda>xs ys. \<forall>x\<in>set xs. \<forall>y\<in>set ys. P x y) xss"
  shows "sorted_wrt P (concat xss)"
  using assms by (induction xss) (auto simp: sorted_wrt_append)

lemma normalize_exact:
  assumes fits: "\<forall>r\<in>set rects. fits r"
  shows "(in_region (normalize_region_rects rects) p \<longleftrightarrow> in_region rects p) \<and>
    yx_banded (normalize_region_rects rects) \<and> (\<forall>r\<in>set (normalize_region_rects rects). fits r)"
proof -
  let ?rs = "filter (\<lambda>r. \<not> rect_is_empty r) rects"
  let ?ys = "y_edges ?rs"
  let ?bands = "zip ?ys (tl ?ys)"
  have rs: "\<forall>r\<in>set ?rs. fits r \<and> \<not> rect_is_empty r" using fits by simp
  have norm: "normalize_region_rects rects = concat (map (band_rects ?rs) ?bands)"
    by (simp add: normalize_region_rects_def Let_def y_edges_def)
  note bs = zip_tl_sorted [OF y_edges_sorted [of ?rs]]
  have range: "\<forall>y\<in>set ?ys. - 32768 \<le> y \<and> y \<le> 32767"
    unfolding set_y_edges using rs edge_bounds(3,4) order_trans [OF edge_bounds(3,6)]
    by (auto simp: fits_def)
  have band: "fst b < snd b" "- 32768 \<le> fst b" "snd b \<le> 32767" if "b \<in> set ?bands" for b
    using bs range that by blast+
  note exact = band_rects_exact [OF rs band]
  have shape: "\<forall>r\<in>set (band_rects ?rs b). edge_t r = fst b \<and> edge_b r = snd b \<and> edge_l r < edge_r r \<and> fits r"
      "sorted_wrt (\<lambda>r q. edge_r r < edge_l q) (band_rects ?rs b)" if "b \<in> set ?bands" for b
    using band_rects_exact [OF rs band [OF that]] by blast+
  have same: "in_region rects p \<longleftrightarrow> in_region ?rs p"
    unfolding in_region_iff using empty_covers [of _ p] by auto
  have "in_region (normalize_region_rects rects) p \<longleftrightarrow>
      (\<exists>b\<in>set ?bands. fst b \<le> snd p \<and> snd p < snd b \<and>
        (\<exists>r\<in>set ?rs. edge_t r \<le> fst b \<and> snd b \<le> edge_b r \<and> edge_l r \<le> fst p \<and> fst p < edge_r r))"
    unfolding norm in_region_concat set_map bex_simps using exact by blast
  also have "\<dots> \<longleftrightarrow> in_region ?rs p"
  proof
    assume "in_region ?rs p"
    then obtain r where r: "r \<in> set ?rs" "covers r p" unfolding in_region_iff by blast
    have "edge_t r \<in> set ?ys" "edge_b r \<in> set ?ys" using r(1) unfolding set_y_edges by blast+
    then obtain b where b: "b \<in> set ?bands" "fst b \<le> snd p" "snd p < snd b"
        "\<forall>e\<in>set ?ys. e \<le> fst b \<or> snd b \<le> e"
      using edge_gap [OF y_edges_sorted, of "edge_t r" ?rs "edge_b r" "snd p"] r(2)
      unfolding covers_def by fastforce
    have "edge_t r \<le> fst b" "snd b \<le> edge_b r"
      using b \<open>edge_t r \<in> set ?ys\<close> \<open>edge_b r \<in> set ?ys\<close> r(2) unfolding covers_def by force+
    then show "\<exists>b\<in>set ?bands. fst b \<le> snd p \<and> snd p < snd b \<and>
        (\<exists>r\<in>set ?rs. edge_t r \<le> fst b \<and> snd b \<le> edge_b r \<and> edge_l r \<le> fst p \<and> fst p < edge_r r)"
      using b r unfolding covers_def by blast
  qed (force simp: in_region_iff covers_def)
  finally have cov: "in_region (normalize_region_rects rects) p \<longleftrightarrow> in_region rects p"
    using same by simp
  have "sorted_wrt next_in_region (concat (map (band_rects ?rs) ?bands))"
  proof (rule sorted_wrt_concat)
    show "\<forall>xs\<in>set (map (band_rects ?rs) ?bands). sorted_wrt next_in_region xs"
    proof
      fix xs assume "xs \<in> set (map (band_rects ?rs) ?bands)"
      then obtain b where b: "b \<in> set ?bands" "xs = band_rects ?rs b" by auto
      show "sorted_wrt next_in_region xs"
        unfolding b(2)
        by (rule sorted_wrt_mono_rel [OF _ shape(2) [OF b(1)]])
          (use shape(1) [OF b(1)] in \<open>simp add: next_in_region_def\<close>)
    qed
    show "sorted_wrt (\<lambda>xs ys. \<forall>x\<in>set xs. \<forall>y\<in>set ys. next_in_region x y) (map (band_rects ?rs) ?bands)"
      unfolding sorted_wrt_map
      by (rule sorted_wrt_mono_rel [OF _ bs [THEN conjunct1]])
        (use shape(1) in \<open>simp add: next_in_region_def\<close>)
  qed
  then have srt: "sorted_wrt next_in_region (normalize_region_rects rects)" unfolding norm .
  have "\<not> rect_is_empty r \<and> fits r" if "b \<in> set ?bands" "r \<in> set (band_rects ?rs b)" for b r
  proof -
    have "edge_t r = fst b \<and> edge_b r = snd b \<and> edge_l r < edge_r r \<and> fits r"
      using shape(1) [OF that(1)] that(2) by (rule bspec)
    then show ?thesis using band(1) [OF that(1)] by (simp add: empty_edges)
  qed
  then have "\<forall>r\<in>set (normalize_region_rects rects). \<not> rect_is_empty r \<and> fits r"
    unfolding norm set_concat set_map by blast
  then show ?thesis using cov srt unfolding yx_banded_def list_all_iff by blast
qed

section \<open>The operations on pixel sets\<close>

lemma set_map_filter: "set (List.map_filter f xs) = {y. \<exists>x\<in>set xs. f x = Some y}"
  by (induction xs) (auto simp: List.map_filter_simps split: option.splits)

lemma intersections_exact:
  assumes "\<forall>r\<in>set a. fits r"
  shows "(in_region (concat (map (\<lambda>ar. List.map_filter (\<lambda>br. intersect_rect ar br) b) a)) p
      \<longleftrightarrow> in_region a p \<and> in_region b p) \<and>
    (\<forall>r\<in>set (concat (map (\<lambda>ar. List.map_filter (\<lambda>br. intersect_rect ar br) b) a)). fits r)"
proof -
  have "set (concat (map (\<lambda>ar. List.map_filter (\<lambda>br. intersect_rect ar br) b) a))
      = {i. \<exists>ar\<in>set a. \<exists>br\<in>set b. intersect_rect ar br = Some i}"
    by (auto simp: set_map_filter)
  then have s: "i \<in> set (concat (map (\<lambda>ar. List.map_filter (\<lambda>br. intersect_rect ar br) b) a))
      \<longleftrightarrow> (\<exists>ar\<in>set a. \<exists>br\<in>set b. intersect_rect ar br = Some i)" for i
    by blast
  have "(\<exists>i. intersect_rect ar br = Some i \<and> covers i p) \<longleftrightarrow> covers ar p \<and> covers br p" for ar br
    using intersect_rect_option [where a = ar and b = br and p = p] by (cases "intersect_rect ar br") auto
  then have "in_region (concat (map (\<lambda>ar. List.map_filter (\<lambda>br. intersect_rect ar br) b) a)) p
      \<longleftrightarrow> in_region a p \<and> in_region b p"
    unfolding in_region_iff Bex_def s by blast
  then show ?thesis using s assms intersect_rect_fits by blast
qed

lemma union_regions_exact:
  assumes "\<forall>r\<in>set a. fits r" "\<forall>r\<in>set b. fits r"
  shows "(in_region (union_regions a b) p \<longleftrightarrow> in_region a p \<or> in_region b p) \<and>
    yx_banded (union_regions a b) \<and> (\<forall>r\<in>set (union_regions a b). fits r)"
  unfolding union_regions_def
  using union_loop_exact [OF assms, of p]
    normalize_exact [OF union_loop_exact [OF assms, THEN conjunct2], of p] by blast

lemma intersect_regions_exact:
  assumes "\<forall>r\<in>set a. fits r"
  shows "(in_region (intersect_regions a b) p \<longleftrightarrow> in_region a p \<and> in_region b p) \<and>
    yx_banded (intersect_regions a b) \<and> (\<forall>r\<in>set (intersect_regions a b). fits r)"
  unfolding intersect_regions_def
  using intersections_exact [OF assms, of b p]
    normalize_exact [OF intersections_exact [OF assms, THEN conjunct2], of b p] by blast

lemma subtract_regions_exact:
  assumes "\<forall>r\<in>set a. fits r"
  shows "(in_region (subtract_regions a b) p \<longleftrightarrow> in_region a p \<and> \<not> in_region b p) \<and>
    yx_banded (subtract_regions a b) \<and> (\<forall>r\<in>set (subtract_regions a b). fits r)"
  unfolding subtract_regions_def
  using subtract_all_exact [OF assms, of b p]
    normalize_exact [OF subtract_all_exact [OF assms, THEN conjunct2], of b p] by blast

text \<open>
  Claim C28. On regions whose rectangles stay within the coordinates of an \<open>i16\<close>, union,
  intersection and subtraction are the operations on the sets of pixels, and every result is in the
  canonical form: no empty rectangle, the bands in order without overlap, the rectangles of a band
  in order and apart.
\<close>

theorem region_operations_exact:
  assumes "list_all fits a" "list_all fits b"
  shows "(in_region (union_regions a b) p \<longleftrightarrow> in_region a p \<or> in_region b p) \<and>
    (in_region (intersect_regions a b) p \<longleftrightarrow> in_region a p \<and> in_region b p) \<and>
    (in_region (subtract_regions a b) p \<longleftrightarrow> in_region a p \<and> \<not> in_region b p) \<and>
    (in_region (normalize_region_rects a) p \<longleftrightarrow> in_region a p) \<and>
    yx_banded (union_regions a b) \<and> yx_banded (intersect_regions a b) \<and>
    yx_banded (subtract_regions a b) \<and> yx_banded (normalize_region_rects a)"
proof -
  have ab: "\<forall>r\<in>set a. fits r" "\<forall>r\<in>set b. fits r" using assms by (simp_all add: list_all_iff)
  show ?thesis
    using union_regions_exact [OF ab, of p] intersect_regions_exact [OF ab(1), of b p]
      subtract_regions_exact [OF ab(1), of b p] normalize_exact [OF ab(1), of p] by blast
qed

definition screen_rect :: RegionRect where
  "screen_rect = \<lparr>rect_x = 0, rect_y = 0, rect_width = 800, rect_height = 600\<rparr>"

definition popup_rect :: RegionRect where
  "popup_rect = \<lparr>rect_x = 100, rect_y = 50, rect_width = 300, rect_height = 200\<rparr>"

lemma sample_edges:
  "edge_l screen_rect = 0" "edge_t screen_rect = 0" "edge_r screen_rect = 800" "edge_b screen_rect = 600"
  "edge_l popup_rect = 100" "edge_t popup_rect = 50" "edge_r popup_rect = 400" "edge_b popup_rect = 250"
  by (simp_all add: edge_defs screen_rect_def popup_rect_def)

lemma sample_fits: "list_all fits [screen_rect]" "list_all fits [popup_rect]"
  by (simp_all add: fits_def sample_edges)

theorem region_operations_exact_witness:
  "in_region (subtract_regions [screen_rect] [popup_rect]) (99, 60) \<and>
   \<not> in_region (subtract_regions [screen_rect] [popup_rect]) (100, 60) \<and>
   in_region (intersect_regions [screen_rect] [popup_rect]) (100, 60) \<and>
   yx_banded (subtract_regions [screen_rect] [popup_rect])"
  using region_operations_exact [OF sample_fits, of "(99, 60)"]
    region_operations_exact [OF sample_fits, of "(100, 60)"]
  by (simp add: covers_def sample_edges)

section \<open>Past the range of the coordinates\<close>

text \<open>
  A rectangle may reach past the coordinates of an \<open>i16\<close>, and then the clamped origin of a
  strip moves it: what is left of (0, 0, 65535, 1) without (0, 0, 40000, 1) starts at 40000, which is
  clamped to 32767, so the pixel 32767 stays in the region although it was taken away.
\<close>

theorem subtract_past_coordinate_range:
  "let a = \<lparr>rect_x = 0, rect_y = 0, rect_width = 65535, rect_height = 1\<rparr>;
       b = \<lparr>rect_x = 0, rect_y = 0, rect_width = 40000, rect_height = 1\<rparr>
   in in_region [b] (32767, 0) \<and> in_region (subtract_regions [a] [b]) (32767, 0)"
  by code_simp

section \<open>Extents\<close>

lemma Min_min: "finite S \<Longrightarrow> Min (insert (min m a) S) = min (m :: int) (Min (insert a S))"
  by (cases "S = {}") (simp_all add: min.assoc)

lemma Max_max: "finite S \<Longrightarrow> Max (insert (max m a) S) = max (m :: int) (Max (insert a S))"
  by (cases "S = {}") (simp_all add: max.assoc)

lemma fold_min: "fold (\<lambda>q m. min m (f q)) qs m0 = Min (insert (m0 :: int) (f ` set qs))"
  by (induction qs arbitrary: m0) (simp_all add: Min_min)

lemma fold_max: "fold (\<lambda>q m. max m (f q)) qs m0 = Max (insert (m0 :: int) (f ` set qs))"
  by (induction qs arbitrary: m0) (simp_all add: Max_max)

lemma region_extents_edges:
  assumes "rects \<noteq> []" "\<forall>r\<in>set rects. fits r"
  shows "edge_l (region_extents rects) = Min (edge_l ` set rects)"
    "edge_t (region_extents rects) = Min (edge_t ` set rects)"
    "edge_r (region_extents rects) = Max (edge_r ` set rects)"
    "edge_b (region_extents rects) = Max (edge_b ` set rects)"
proof -
  let ?l = "Min (edge_l ` set rects)" and ?t = "Min (edge_t ` set rects)"
  let ?r = "Max (edge_r ` set rects)" and ?m = "Max (edge_b ` set rects)"
  have e: "region_extents rects = mk_rect ?l ?t (?r - ?l) (?m - ?t)"
    using assms(1) by (cases rects) (auto simp: region_extents_def fold_min fold_max Let_def)
  obtain q where q: "q \<in> set rects" using assms(1) by (cases rects) auto
  have mem: "?l \<in> edge_l ` set rects" "?t \<in> edge_t ` set rects" "?r \<in> edge_r ` set rects"
      "?m \<in> edge_b ` set rects"
    using q by (auto intro!: Min_in Max_in)
  have q': "?l \<le> edge_l q" "?t \<le> edge_t q" "edge_r q \<le> ?r" "edge_b q \<le> ?m"
    using q by (auto intro!: Min_le Max_ge)
  have "- 32768 \<le> ?l" "- 32768 \<le> ?t" using mem edge_bounds by auto
  moreover have "?r \<le> 32767" "?m \<le> 32767" using mem assms(2) by (auto simp: fits_def)
  moreover have "edge_l q \<le> edge_r q" "edge_t q \<le> edge_b q" by (rule edge_bounds)+
  ultimately have "- 32768 \<le> ?l" "?l \<le> 32767" "- 32768 \<le> ?t" "?t \<le> 32767" "0 \<le> ?r - ?l"
      "?r - ?l \<le> 65535" "0 \<le> ?m - ?t" "?m - ?t \<le> 65535"
    using q' by linarith+
  note edges = mk_rect_edges [OF this]
  show "edge_l (region_extents rects) = ?l" "edge_t (region_extents rects) = ?t"
    "edge_r (region_extents rects) = ?r" "edge_b (region_extents rects) = ?m"
    unfolding e using edges by linarith+
qed

section \<open>Bitmaps\<close>

lemma takeWhile_split: "length (takeWhile P xs) + length (dropWhile P xs) = length xs"
  by (metis length_append takeWhile_dropWhile_id)

lemma nth_dropWhile_eq: "dropWhile P xs ! i = xs ! (length (takeWhile P xs) + i)"
  by (metis nth_append_length_plus takeWhile_dropWhile_id)

lemma nth_takeWhile_holds: "i < length (takeWhile P xs) \<Longrightarrow> P (xs ! i)"
  by (metis nth_mem set_takeWhileD takeWhile_nth)

text \<open>The runs of a row: the set pixels, from left to right and apart.\<close>

lemma row_runs_pixels:
  "(\<exists>(s, n)\<in>set (row_runs x ps). s \<le> i \<and> i < s + n) \<longleftrightarrow>
     x \<le> i \<and> i < x + length ps \<and> ps ! (i - x) \<noteq> 0"
proof (induction x ps rule: row_runs.induct)
  case (2 x p ps)
  show ?case
  proof (cases "p \<noteq> 0")
    case True
    let ?k = "length (takeWhile (\<lambda>q. q \<noteq> 0) ps)" and ?rest = "dropWhile (\<lambda>q. q \<noteq> 0) ps"
    have len: "?k + length ?rest = length ps" by (rule takeWhile_split)
    have first: "(p # ps) ! (i - x) \<noteq> 0" if "x \<le> i" "i < x + Suc ?k"
    proof (cases "i = x")
      case False
      then show ?thesis using that nth_takeWhile_holds [of "i - Suc x" "\<lambda>q. q \<noteq> 0" ps]
        by (simp add: nth_Cons')
    qed (use True in simp)
    have later: "(p # ps) ! (i - x) = ?rest ! (i - (Suc x + ?k))" if "Suc x + ?k \<le> i"
      using that by (simp add: nth_dropWhile_eq nth_Cons')
    have "(\<exists>(s, n)\<in>set (row_runs x (p # ps)). s \<le> i \<and> i < s + n) \<longleftrightarrow>
        (x \<le> i \<and> i < x + Suc ?k) \<or>
        (Suc x + ?k \<le> i \<and> i < Suc x + ?k + length ?rest \<and> ?rest ! (i - (Suc x + ?k)) \<noteq> 0)"
      using 2(1) [OF True] True by simp
    then show ?thesis using first later len by (cases "i < x + Suc ?k") auto
  next
    case False
    then have "(\<exists>(s, n)\<in>set (row_runs x (p # ps)). s \<le> i \<and> i < s + n) \<longleftrightarrow>
        Suc x \<le> i \<and> i < Suc x + length ps \<and> ps ! (i - Suc x) \<noteq> 0"
      using 2(2) by simp
    then show ?thesis using False by (cases "i = x") (auto simp: nth_Cons')
  qed
qed simp

lemma row_runs_bounds: "\<forall>(s, n)\<in>set (row_runs x ps). x \<le> s \<and> 0 < n \<and> s + n \<le> x + length ps"
proof (induction x ps rule: row_runs.induct)
  case (2 x p ps)
  have "length (takeWhile (\<lambda>q. q \<noteq> 0) ps) \<le> length ps" by (rule length_takeWhile_le)
  then show ?case
    using 2 takeWhile_split [of "\<lambda>q. q \<noteq> 0" ps] by (cases "p \<noteq> 0") fastforce+
qed simp

lemma row_runs_apart: "sorted_wrt (\<lambda>r q. fst r + snd r < fst q) (row_runs x ps)"
proof (induction x ps rule: row_runs.induct)
  case (2 x p ps)
  show ?case
  proof (cases "p \<noteq> 0")
    case True
    let ?y = "Suc x + length (takeWhile (\<lambda>q. q \<noteq> 0) ps)" and ?rest = "dropWhile (\<lambda>q. q \<noteq> 0) ps"
    have "\<forall>(s, n)\<in>set (row_runs ?y ?rest). ?y < s"
    proof (cases ?rest)
      case Nil
      then show ?thesis by (simp only: row_runs.simps) simp
    next
      case (Cons q qs)
      then have "q = 0" using hd_dropWhile [of "\<lambda>q. q \<noteq> 0" ps] by simp
      then have "row_runs ?y ?rest = row_runs (Suc ?y) qs" using Cons by simp
      then show ?thesis using row_runs_bounds [of "Suc ?y" qs] by fastforce
    qed
    then show ?thesis using 2(1) [OF True] True by (auto simp: case_prod_unfold)
  next
    case False
    then show ?thesis using 2(2) by simp
  qed
qed simp

lemma run_edges:
  assumes "s + n \<le> 32767" "y + m \<le> 32767"
  shows "edge_l \<lparr>rect_x = of_nat s, rect_y = of_nat y, rect_width = of_nat n, rect_height = of_nat m\<rparr> = int s"
    "edge_t \<lparr>rect_x = of_nat s, rect_y = of_nat y, rect_width = of_nat n, rect_height = of_nat m\<rparr> = int y"
    "edge_r \<lparr>rect_x = of_nat s, rect_y = of_nat y, rect_width = of_nat n, rect_height = of_nat m\<rparr> = int (s + n)"
    "edge_b \<lparr>rect_x = of_nat s, rect_y = of_nat y, rect_width = of_nat n, rect_height = of_nat m\<rparr> = int (y + m)"
proof -
  have "sint (of_nat k :: i16) = int k" if "k \<le> 32767" for k
    using that by (simp add: signed_of_nat signed_take_bit_int_eq_self)
  moreover have "uint (of_nat k :: u16) = int k" if "k \<le> 32767" for k
    using that by (simp add: unsigned_of_nat take_bit_nat_eq_self)
  ultimately show "edge_l \<lparr>rect_x = of_nat s, rect_y = of_nat y, rect_width = of_nat n, rect_height = of_nat m\<rparr> = int s"
    "edge_t \<lparr>rect_x = of_nat s, rect_y = of_nat y, rect_width = of_nat n, rect_height = of_nat m\<rparr> = int y"
    "edge_r \<lparr>rect_x = of_nat s, rect_y = of_nat y, rect_width = of_nat n, rect_height = of_nat m\<rparr> = int (s + n)"
    "edge_b \<lparr>rect_x = of_nat s, rect_y = of_nat y, rect_width = of_nat n, rect_height = of_nat m\<rparr> = int (y + m)"
    using assms by (simp_all add: edge_defs)
qed

definition runs_ok :: "(nat \<times> nat) list \<Rightarrow> bool" where
  "runs_ok runs \<longleftrightarrow> (\<forall>(s, n)\<in>set runs. 0 < n \<and> s + n \<le> 32767) \<and>
     sorted_wrt (\<lambda>r q. fst r + snd r < fst q) runs"

definition run_rects :: "nat \<Rightarrow> nat \<Rightarrow> (nat \<times> nat) list \<Rightarrow> RegionRect list" where
  "run_rects y n runs = map (\<lambda>(start, run_w). \<lparr>rect_x = of_nat start, rect_y = of_nat y,
     rect_width = of_nat run_w, rect_height = of_nat n\<rparr>) runs"

lemma run_rects_exact:
  assumes "runs_ok runs" "y + m \<le> 32767" "0 < m"
  shows "(in_region (run_rects y m runs) (int i, int j) \<longleftrightarrow> y \<le> j \<and> j < y + m \<and>
      (\<exists>(s, n)\<in>set runs. s \<le> i \<and> i < s + n)) \<and>
    (\<forall>r\<in>set (run_rects y m runs). edge_t r = int y \<and> edge_b r = int (y + m) \<and> edge_l r < edge_r r) \<and>
    sorted_wrt next_in_region (run_rects y m runs)"
proof -
  have e: "s + n \<le> 32767" "0 < n" if "(s, n) \<in> set runs" for s n
    using assms(1) that unfolding runs_ok_def by auto
  note edges = run_edges [OF e(1) assms(2)]
  have "sorted_wrt next_in_region (run_rects y m runs)"
    unfolding run_rects_def sorted_wrt_map
    by (rule sorted_wrt_mono_rel [OF _ assms(1) [unfolded runs_ok_def, THEN conjunct2]])
      (auto simp: next_in_region_def edges)
  moreover have cov: "covers \<lparr>rect_x = of_nat s, rect_y = of_nat y, rect_width = of_nat n, rect_height = of_nat m\<rparr>
      (int i, int j) \<longleftrightarrow> y \<le> j \<and> j < y + m \<and> s \<le> i \<and> i < s + n" if "(s, n) \<in> set runs" for s n
    unfolding covers_def edges [OF that] by auto
  have "in_region (run_rects y m runs) (int i, int j) \<longleftrightarrow> y \<le> j \<and> j < y + m \<and>
      (\<exists>(s, n)\<in>set runs. s \<le> i \<and> i < s + n)"
  proof
    assume "in_region (run_rects y m runs) (int i, int j)"
    then obtain s n where sn: "(s, n) \<in> set runs" "covers \<lparr>rect_x = of_nat s, rect_y = of_nat y,
        rect_width = of_nat n, rect_height = of_nat m\<rparr> (int i, int j)"
      unfolding in_region_iff run_rects_def by auto
    then show "y \<le> j \<and> j < y + m \<and> (\<exists>(s, n)\<in>set runs. s \<le> i \<and> i < s + n)"
      using cov [OF sn(1)] by blast
  next
    assume "y \<le> j \<and> j < y + m \<and> (\<exists>(s, n)\<in>set runs. s \<le> i \<and> i < s + n)"
    then obtain s n where sn: "(s, n) \<in> set runs" "covers \<lparr>rect_x = of_nat s, rect_y = of_nat y,
        rect_width = of_nat n, rect_height = of_nat m\<rparr> (int i, int j)"
      using cov by blast
    then show "in_region (run_rects y m runs) (int i, int j)"
      unfolding in_region_iff run_rects_def by force
  qed
  moreover have "\<forall>r\<in>set (run_rects y m runs). edge_t r = int y \<and> edge_b r = int (y + m) \<and> edge_l r < edge_r r"
  proof
    fix r assume "r \<in> set (run_rects y m runs)"
    then obtain s n where sn: "(s, n) \<in> set runs" "r = \<lparr>rect_x = of_nat s, rect_y = of_nat y,
        rect_width = of_nat n, rect_height = of_nat m\<rparr>"
      by (auto simp: run_rects_def)
    show "edge_t r = int y \<and> edge_b r = int (y + m) \<and> edge_l r < edge_r r"
      unfolding sn(2) edges [OF sn(1)] using e(2) [OF sn(1)] by simp
  qed
  ultimately show ?thesis by blast
qed

text \<open>Rows of equal runs make one band.\<close>

lemma band_runs_exact:
  assumes "\<forall>runs\<in>set rows. runs_ok runs" "y + length rows \<le> 32767"
  shows "(in_region (band_runs y rows) (int i, int j) \<longleftrightarrow> y \<le> j \<and> j < y + length rows \<and>
      (\<exists>(s, n)\<in>set (rows ! (j - y)). s \<le> i \<and> i < s + n)) \<and>
    (\<forall>r\<in>set (band_runs y rows). int y \<le> edge_t r \<and> edge_t r < edge_b r \<and> edge_l r < edge_r r) \<and>
    sorted_wrt next_in_region (band_runs y rows)"
  using assms
proof (induction y rows rule: band_runs.induct)
  case (2 y runs rows)
  show ?case
  proof (cases "runs = []")
    case True
    note ih = 2(1) [OF True] 2(3,4)
    then have ih': "(in_region (band_runs (Suc y) rows) (int i, int j) \<longleftrightarrow> Suc y \<le> j \<and> j < Suc y + length rows \<and>
        (\<exists>(s, n)\<in>set (rows ! (j - Suc y)). s \<le> i \<and> i < s + n)) \<and>
      (\<forall>r\<in>set (band_runs (Suc y) rows). int (Suc y) \<le> edge_t r \<and> edge_t r < edge_b r \<and> edge_l r < edge_r r) \<and>
      sorted_wrt next_in_region (band_runs (Suc y) rows)"
      by simp
    show ?thesis using ih' True by (cases "j = y") (auto simp: nth_Cons')
  next
    case False
    let ?k = "length (takeWhile (\<lambda>q. q = runs) rows)" and ?rest = "dropWhile (\<lambda>q. q = runs) rows"
    have len: "?k + length ?rest = length rows" by (rule takeWhile_split)
    have ok: "runs_ok runs" using 2(3) by simp
    have b: "y + Suc ?k \<le> 32767" using 2(4) len by simp
    note top = run_rects_exact [OF ok b zero_less_Suc, of i j]
    have rest: "(in_region (band_runs (y + Suc ?k) ?rest) (int i, int j) \<longleftrightarrow>
        y + Suc ?k \<le> j \<and> j < y + Suc ?k + length ?rest \<and>
        (\<exists>(s, n)\<in>set (?rest ! (j - (y + Suc ?k))). s \<le> i \<and> i < s + n)) \<and>
      (\<forall>r\<in>set (band_runs (y + Suc ?k) ?rest). int (y + Suc ?k) \<le> edge_t r \<and> edge_t r < edge_b r \<and> edge_l r < edge_r r) \<and>
      sorted_wrt next_in_region (band_runs (y + Suc ?k) ?rest)"
      using 2(2) [OF False HOL.refl] 2(3,4) len set_dropWhileD [of _ "\<lambda>q. q = runs" rows] by auto
    have br: "band_runs y (runs # rows) = run_rects y (Suc ?k) runs @ band_runs (y + Suc ?k) ?rest"
      using False by (simp add: run_rects_def)
    have first: "(runs # rows) ! (j - y) = runs" if "y \<le> j" "j < y + Suc ?k"
      using that nth_takeWhile_holds [of "j - Suc y" "\<lambda>q. q = runs" rows] by (auto simp: nth_Cons')
    have later: "(runs # rows) ! (j - y) = ?rest ! (j - (y + Suc ?k))" if "y + Suc ?k \<le> j"
      using that by (simp add: nth_dropWhile_eq nth_Cons')
    define A where "A \<longleftrightarrow> (\<exists>(s, n)\<in>set runs. s \<le> i \<and> i < s + n)"
    define B where "B \<longleftrightarrow> (\<exists>(s, n)\<in>set (?rest ! (j - (y + Suc ?k))). s \<le> i \<and> i < s + n)"
    define C where "C \<longleftrightarrow> (\<exists>(s, n)\<in>set ((runs # rows) ! (j - y)). s \<le> i \<and> i < s + n)"
    have "C \<longleftrightarrow> A" if "y \<le> j" "j < y + Suc ?k" unfolding C_def A_def first [OF that] by (rule HOL.refl)
    moreover have "C \<longleftrightarrow> B" if "y + Suc ?k \<le> j" unfolding C_def B_def later [OF that] by (rule HOL.refl)
    moreover define I where "I \<longleftrightarrow> in_region (band_runs y (runs # rows)) (int i, int j)"
    moreover have "I \<longleftrightarrow> (y \<le> j \<and> j < y + Suc ?k \<and> A) \<or> (y + Suc ?k \<le> j \<and> j < y + Suc ?k + length ?rest \<and> B)"
      unfolding I_def br in_region_simps top [THEN conjunct1] rest [THEN conjunct1] A_def B_def by (rule HOL.refl)
    moreover have "y + length (runs # rows) = y + Suc ?k + length ?rest" using len by simp
    ultimately have pixels: "I \<longleftrightarrow> y \<le> j \<and> j < y + length (runs # rows) \<and> C"
      by linarith
    note tb = top [THEN conjunct2, THEN conjunct1] and rb = rest [THEN conjunct2, THEN conjunct1]
    have "\<forall>r\<in>set (band_runs y (runs # rows)). int y \<le> edge_t r \<and> edge_t r < edge_b r \<and> edge_l r < edge_r r"
    proof
      fix r assume "r \<in> set (band_runs y (runs # rows))"
      then consider "r \<in> set (run_rects y (Suc ?k) runs)" | "r \<in> set (band_runs (y + Suc ?k) ?rest)"
        unfolding br set_append by blast
      then show "int y \<le> edge_t r \<and> edge_t r < edge_b r \<and> edge_l r < edge_r r"
        by cases (use bspec [OF tb, of r] bspec [OF rb, of r] in simp_all)
    qed
    moreover have "sorted_wrt next_in_region (band_runs y (runs # rows))"
      unfolding br sorted_wrt_append
    proof (intro conjI ballI)
      fix r q assume "r \<in> set (run_rects y (Suc ?k) runs)" "q \<in> set (band_runs (y + Suc ?k) ?rest)"
      then show "next_in_region r q"
        using bspec [OF tb, of r] bspec [OF rb, of q] by (simp add: next_in_region_def)
    qed (use top rest in blast)+
    ultimately show ?thesis using pixels unfolding I_def C_def by blast
  qed
qed simp

text \<open>
  The rectangles made of a bitmap of at most 32767 by 32767 pixels cover exactly its set
  pixels, and they are in the canonical form that \<open>GetRectangles\<close> promises.
\<close>

theorem bitmap_rects_exact:
  assumes "unat width \<le> 32767" "unat height \<le> 32767" "unat width * unat height \<le> length bytes"
  shows "(in_region (bitmap_to_yx_banded_rects bytes width height) (int i, int j) \<longleftrightarrow>
      i < unat width \<and> j < unat height \<and> bytes ! (j * unat width + i) \<noteq> 0) \<and>
    yx_banded (bitmap_to_yx_banded_rects bytes width height)"
proof (cases "unat width = 0 \<or> unat height = 0")
  case True
  then show ?thesis by (auto simp: bitmap_to_yx_banded_rects_def Let_def yx_banded_def)
next
  case False
  let ?w = "unat width" and ?h = "unat height"
  let ?row = "\<lambda>y. take ?w (drop (y * ?w) bytes)"
  let ?rows = "map (\<lambda>y. row_runs 0 (?row y)) [0..<?h]"
  have bm: "bitmap_to_yx_banded_rects bytes width height = band_runs 0 ?rows"
    using False assms(3) by (simp add: bitmap_to_yx_banded_rects_def Let_def)
  have len: "length (?row y) = ?w" if "y < ?h" for y
  proof -
    have "y * ?w + ?w \<le> ?h * ?w" using mult_le_mono1 [of "Suc y" ?h ?w] that by simp
    then have "?w \<le> length bytes - y * ?w" using assms(3) by (simp add: mult.commute)
    then show ?thesis by simp
  qed
  have ok: "\<forall>runs\<in>set ?rows. runs_ok runs"
  proof
    fix runs assume "runs \<in> set ?rows"
    then obtain y where y: "y < ?h" "runs = row_runs 0 (?row y)" by auto
    show "runs_ok runs"
      using row_runs_bounds [of 0 "?row y"] row_runs_apart [of 0 "?row y"] len [OF y(1)] assms(1)
      unfolding y(2) runs_ok_def by fastforce
  qed
  have "0 + length ?rows \<le> 32767" using assms(2) by simp
  note exact = band_runs_exact [OF ok this, of i j]
  have pixel: "(\<exists>(s, n)\<in>set (?rows ! (j - 0)). s \<le> i \<and> i < s + n) \<longleftrightarrow> i < ?w \<and> bytes ! (j * ?w + i) \<noteq> 0"
    if "j < ?h"
  proof -
    have "?rows ! (j - 0) = row_runs 0 (?row j)" using that by simp
    then have runs: "(\<exists>(s, n)\<in>set (?rows ! (j - 0)). s \<le> i \<and> i < s + n) \<longleftrightarrow> i < ?w \<and> ?row j ! i \<noteq> 0"
      using row_runs_pixels [of 0 "?row j" i] len [OF that] by (simp only: diff_zero add_0 le0 simp_thms)
    have "?row j ! i = bytes ! (j * ?w + i)" if "i < ?w"
    proof -
      have "j * ?w \<le> length bytes" using len [OF \<open>j < ?h\<close>] False by (auto split: if_splits)
      then show ?thesis using that by (simp add: nth_take nth_drop)
    qed
    then show ?thesis unfolding runs by auto
  qed
  have banded: "yx_banded (band_runs 0 ?rows)"
    using exact unfolding yx_banded_def list_all_iff empty_edges by (auto dest: bspec)
  have "in_region (band_runs 0 ?rows) (int i, int j) \<longleftrightarrow> j < ?h \<and>
      (\<exists>(s, n)\<in>set (?rows ! (j - 0)). s \<le> i \<and> i < s + n)"
    using exact [THEN conjunct1] by (simp only: length_map length_upt add_0 diff_zero le0 simp_thms)
  then show ?thesis using pixel banded unfolding bm by blast
qed

theorem bitmap_rects_exact_witness:
  "in_region (bitmap_to_yx_banded_rects [0, 1, 1, 0, 1, 1] 3 2) (int 1, int 1) \<and>
   \<not> in_region (bitmap_to_yx_banded_rects [0, 1, 1, 0, 1, 1] 3 2) (int 0, int 1)"
  using bitmap_rects_exact [of 3 2 "[0, 1, 1, 0, 1, 1]" 1 1]
    bitmap_rects_exact [of 3 2 "[0, 1, 1, 0, 1, 1]" 0 1]
  by simp

end
