(* ===== verification/InputTypes.thy ===== *)
theory InputTypes
  imports ResourceTypes
begin

text \<open>
  The input side of the server state: the events of the host, the active and passive device grabs,
  the keyboard focus, and the freeze state of a device (\<open>crates/xserver-core/src/server.rs\<close>,
  \<open>host_x11/pump.rs\<close>).
\<close>

section \<open>Events of the host\<close>

datatype PointerEventKind = ButtonPress | ButtonRelease | MotionNotify | EnterNotify | LeaveNotify

record HostPointerEvent =
  hp_kind :: PointerEventKind
  hp_host_xid :: u32
  hp_detail :: u8
  hp_time :: u32
  hp_root_x :: i16
  hp_root_y :: i16
  hp_event_x :: i16
  hp_event_y :: i16
  hp_state :: u16
  hp_crossing_mode :: u8
  hp_child :: u32

record HostKeyEvent =
  hk_pressed :: bool
  hk_keycode :: u8
  hk_time :: u32
  hk_root_x :: i16
  hk_root_y :: i16
  hk_event_x :: i16
  hk_event_y :: i16
  hk_state :: u16

section \<open>Grabs of the core protocol\<close>

datatype ActiveKeyboardGrabSource = Explicit | PassiveKey u8

record ActiveKeyboardGrab =
  ak_owner :: ClientId
  ak_window :: ResourceId
  ak_source :: ActiveKeyboardGrabSource
  ak_owner_events :: bool
  ak_via_xi2 :: bool

record ActivePointerGrab =
  ap_owner :: ClientId
  ap_window :: ResourceId
  ap_event_mask :: u16
  ap_cursor :: ResourceId
  ap_time :: u32
  ap_owner_events :: bool
  ap_via_xi2 :: bool

record CoreFocus =
  cf_raw :: u32
  cf_revert_to :: u8
  cf_time :: u32

definition CoreFocus_default :: CoreFocus where
  "CoreFocus_default = \<lparr>cf_raw = 1, cf_revert_to = 0, cf_time = 0\<rparr>"

section \<open>Device grabs and focus of the input extension\<close>

record Xi1PassiveGrab =
  xp_owner :: ClientId
  xp_device :: u16
  xp_window :: ResourceId
  xp_detail :: u8
  xp_modifiers :: u16
  xp_owner_events :: bool
  xp_this_mode :: u8
  xp_other_mode :: u8
  xp_is_key :: bool

record Xi1ActiveGrab =
  xa_owner :: ClientId
  xa_device :: u16
  xa_window :: ResourceId
  xa_owner_events :: bool
  xa_this_mode :: u8
  xa_other_mode :: u8
  xa_passive_detail :: "u8 option"

text \<open>The order of the constructors is the order of \<open>derive(PartialOrd)\<close>.\<close>

datatype Xi1SyncState =
  Thawed | FreezeNextEvent | FreezeBothNextEvent | FrozenNoEvent | FrozenWithEvent

primrec sync_rank :: "Xi1SyncState \<Rightarrow> nat" where
  "sync_rank Thawed = 0"
| "sync_rank FreezeNextEvent = 1"
| "sync_rank FreezeBothNextEvent = 2"
| "sync_rank FrozenNoEvent = 3"
| "sync_rank FrozenWithEvent = 4"

instantiation Xi1SyncState :: linorder
begin

definition less_eq_Xi1SyncState :: "Xi1SyncState \<Rightarrow> Xi1SyncState \<Rightarrow> bool" where
  "less_eq_Xi1SyncState a b \<longleftrightarrow> sync_rank a \<le> sync_rank b"

definition less_Xi1SyncState :: "Xi1SyncState \<Rightarrow> Xi1SyncState \<Rightarrow> bool" where
  "less_Xi1SyncState a b \<longleftrightarrow> sync_rank a < sync_rank b"

instance
proof
  show "x = y" if "x \<le> y" "y \<le> x" for x y :: Xi1SyncState
    using that by (cases x; cases y) (simp_all add: less_eq_Xi1SyncState_def)
qed (auto simp: less_eq_Xi1SyncState_def less_Xi1SyncState_def)

end

record Xi1DeviceFocus =
  xf_focus :: u32
  xf_revert_to :: u8
  xf_time :: u32

definition Xi1DeviceFocus_default :: Xi1DeviceFocus where
  "Xi1DeviceFocus_default = \<lparr>xf_focus = 1, xf_revert_to = 0, xf_time = 0\<rparr>"

type_synonym i32 = "32 word"

record Xi1DeviceInputState =
  xs_keys_down :: "u8 list"
  xs_buttons_down :: "u8 list"
  xs_valuator_mode :: u8
  xs_valuators :: "i32 list"

definition Xi1DeviceInputState_default :: Xi1DeviceInputState where
  "Xi1DeviceInputState_default = \<lparr>xs_keys_down = replicate 32 0, xs_buttons_down = replicate 32 0,
     xs_valuator_mode = 0, xs_valuators = replicate 4 0\<rparr>"

datatype Xi1FocusRoute = Walk | WalkUpTo ResourceId | WindowOnly ResourceId | DropEvent

record Xi1MotionAxes =
  mx_first :: u8
  mx_count :: u8
  mx_values :: "i32 list"

record Xi1QueuedEvent =
  xq_device :: u16
  xq_evcode :: u8
  xq_detail :: u8
  xq_time :: u32
  xq_root_x :: i16
  xq_root_y :: i16
  xq_event_x :: i16
  xq_event_y :: i16
  xq_state_mask :: u16
  xq_natural_target :: ResourceId
  xq_focus_route :: Xi1FocusRoute
  xq_axes :: "Xi1MotionAxes option"
  xq_replay_floor :: "ResourceId option"

record Xi1Freeze =
  fz_state :: Xi1SyncState
  fz_other :: "ClientId option"
  fz_stored :: "Xi1QueuedEvent option"
  fz_queue :: "Xi1QueuedEvent list"
  fz_core_keys :: "HostKeyEvent list"

definition Xi1Freeze_default :: Xi1Freeze where
  "Xi1Freeze_default =
     \<lparr>fz_state = Thawed, fz_other = None, fz_stored = None, fz_queue = [], fz_core_keys = []\<rparr>"

definition frozen :: "Xi1Freeze \<Rightarrow> bool" where
  "frozen f \<longleftrightarrow> fz_other f \<noteq> None \<or> fz_state f \<ge> FrozenNoEvent"

lemma frozen_states [simp]:
  "Thawed < FrozenNoEvent" "FreezeNextEvent < FrozenNoEvent" "FreezeBothNextEvent < FrozenNoEvent"
  "FrozenNoEvent \<le> FrozenWithEvent"
  by (simp_all add: less_Xi1SyncState_def less_eq_Xi1SyncState_def)

section \<open>Devices and event codes\<close>

definition DEVICEID_SLAVE_POINTER :: u16 where "DEVICEID_SLAVE_POINTER = 4"
definition DEVICEID_SLAVE_KEYBOARD :: u16 where "DEVICEID_SLAVE_KEYBOARD = 5"

definition XI_DEVICE_VALUATOR_OFFSET :: u8 where "XI_DEVICE_VALUATOR_OFFSET = 0"
definition XI_DEVICE_KEY_PRESS_OFFSET :: u8 where "XI_DEVICE_KEY_PRESS_OFFSET = 1"
definition XI_DEVICE_KEY_RELEASE_OFFSET :: u8 where "XI_DEVICE_KEY_RELEASE_OFFSET = 2"
definition XI_DEVICE_BUTTON_PRESS_OFFSET :: u8 where "XI_DEVICE_BUTTON_PRESS_OFFSET = 3"
definition XI_DEVICE_BUTTON_RELEASE_OFFSET :: u8 where "XI_DEVICE_BUTTON_RELEASE_OFFSET = 4"
definition XI_DEVICE_MOTION_NOTIFY_OFFSET :: u8 where "XI_DEVICE_MOTION_NOTIFY_OFFSET = 5"
definition XI_DEVICE_FOCUS_IN_OFFSET :: u8 where "XI_DEVICE_FOCUS_IN_OFFSET = 6"
definition XI_DEVICE_FOCUS_OUT_OFFSET :: u8 where "XI_DEVICE_FOCUS_OUT_OFFSET = 7"
definition XI_DEVICE_STATE_NOTIFY_OFFSET :: u8 where "XI_DEVICE_STATE_NOTIFY_OFFSET = 10"
definition XI_DEVICE_KEY_STATE_NOTIFY_OFFSET :: u8 where "XI_DEVICE_KEY_STATE_NOTIFY_OFFSET = 13"
definition XI1_MORE_EVENTS :: u8 where "XI1_MORE_EVENTS = 0x80"

lemmas xi_offsets = XI_DEVICE_VALUATOR_OFFSET_def XI_DEVICE_KEY_PRESS_OFFSET_def
  XI_DEVICE_KEY_RELEASE_OFFSET_def XI_DEVICE_BUTTON_PRESS_OFFSET_def
  XI_DEVICE_BUTTON_RELEASE_OFFSET_def XI_DEVICE_MOTION_NOTIFY_OFFSET_def
  XI_DEVICE_FOCUS_IN_OFFSET_def XI_DEVICE_FOCUS_OUT_OFFSET_def XI_DEVICE_STATE_NOTIFY_OFFSET_def
  XI_DEVICE_KEY_STATE_NOTIFY_OFFSET_def

end
