(* ===== verification/ServerTypes.thy ===== *)
theory ServerTypes
  imports ClientIo Regions Resources Atoms IdAllocator InputTypes PresentScheduler
begin

text \<open>
  The part of \<open>ServerState\<close> and \<open>ClientState\<close> (\<open>crates/xserver-core/src/server.rs\<close>) that the modelled
  components share: the resource table, the clients with their selections and output queues, the
  grabs, the regions, the damage objects and the timers. Fields of components that are not modelled
  are left out; a table of which only the keys matter maps them to the owning client.
\<close>

section \<open>Positions\<close>

fun absolute_loop :: "ResourceTable \<Rightarrow> nat \<Rightarrow> ResourceId \<Rightarrow> int \<Rightarrow> int \<Rightarrow> int \<times> int" where
  "absolute_loop t 0 current ax ay = (ax, ay)"
| "absolute_loop t (Suc n) current ax ay =
     (if current = ROOT_WINDOW then (ax, ay)
      else
        (case window t current of
           None \<Rightarrow> (ax, ay)
         | Some w \<Rightarrow>
             let ax' = ax + i32_of_i16 (win_x w); ay' = ay + i32_of_i16 (win_y w)
             in if win_parent w = current then (ax', ay')
                else absolute_loop t n (win_parent w) ax' ay'))"

definition window_absolute_position :: "ResourceTable \<Rightarrow> ResourceId \<Rightarrow> int \<times> int" where
  "window_absolute_position t i = absolute_loop t 256 i 0 0"

text \<open>\<open>try_from(..).unwrap_or(MAX)\<close>\<close>

definition i16_or_max :: "int \<Rightarrow> i16" where
  "i16_or_max v = (if - 32768 \<le> v \<and> v \<le> 32767 then word_of_int v else 0x7FFF)"

section \<open>Regions, shapes and damage\<close>

record XFixesRegion =
  xr_owner :: ClientId
  xr_rects :: "RegionRect list"

record ShapeWindowState =
  sw_bounding :: "RegionRect list option"
  sw_clip :: "RegionRect list option"
  sw_input :: "RegionRect list option"

definition shape_default :: ShapeWindowState where
  "shape_default = \<lparr>sw_bounding = None, sw_clip = None, sw_input = None\<rparr>"

definition KIND_BOUNDING :: u8 where "KIND_BOUNDING = 0"
definition KIND_CLIP :: u8 where "KIND_CLIP = 1"
definition KIND_INPUT :: u8 where "KIND_INPUT = 2"

text \<open>\<open>rects_mut\<close> gives the slot of a kind: \<open>None\<close> where there is no slot.\<close>

definition shape_rects :: "u8 \<Rightarrow> ShapeWindowState \<Rightarrow> RegionRect list option" where
  "shape_rects kind s =
     (if kind = KIND_BOUNDING then sw_bounding s
      else if kind = KIND_CLIP then sw_clip s
      else if kind = KIND_INPUT then sw_input s else None)"

definition shape_rects_set :: "u8 \<Rightarrow> RegionRect list option \<Rightarrow> ShapeWindowState \<Rightarrow> ShapeWindowState option" where
  "shape_rects_set kind rects s =
     (if kind = KIND_BOUNDING then Some (s\<lparr>sw_bounding := rects\<rparr>)
      else if kind = KIND_CLIP then Some (s\<lparr>sw_clip := rects\<rparr>)
      else if kind = KIND_INPUT then Some (s\<lparr>sw_input := rects\<rparr>) else None)"

record DamageObject =
  dmg_owner :: ClientId
  dmg_drawable :: ResourceId
  dmg_level :: u8
  dmg_rects :: "RegionRect list"
  dmg_fired :: bool
  dmg_last_geometry :: "RegionRect option"

section \<open>Grabs\<close>

record PassiveButtonGrab =
  bg_owner :: ClientId
  bg_window :: ResourceId
  bg_button :: u8
  bg_modifiers :: u16
  bg_owner_events :: bool
  bg_event_mask :: u32
  bg_pointer_mode :: u8
  bg_keyboard_mode :: u8
  bg_confine_to :: ResourceId
  bg_via_xi2 :: bool

record KeyGrab =
  kg_owner :: ClientId
  kg_window :: ResourceId
  kg_keycode :: u8
  kg_modifiers :: u16
  kg_owner_events :: bool
  kg_pointer_mode :: u8
  kg_keyboard_mode :: u8
  kg_via_xi2 :: bool

section \<open>Timers\<close>

text \<open>An \<open>Instant\<close> is the number of milliseconds since the start of the server. \<open>timestamp_now\<close> is the
  field \<open>st_timestamp\<close>: one step of the server sees one value of the clock.\<close>

record DpmsState =
  dpms_kms_capable :: bool
  dpms_enabled :: bool
  dpms_power_level :: u8
  dpms_standby_ms :: u32
  dpms_suspend_ms :: u32
  dpms_off_ms :: u32
  dpms_last_activity :: nat
  dpms_selected_by :: "ClientId list"

datatype ScreenSaverActive = SaverOff | SaverOn | SaverCycle

record ScreenSaverState =
  ss_timeout_ms :: u32
  ss_interval_ms :: u32
  ss_prefer_blanking :: bool
  ss_allow_exposures :: bool
  ss_active :: ScreenSaverActive
  ss_forced :: bool
  ss_selected_by :: "(ClientId, u32) hashmap"
  ss_suspend_counts :: "(ClientId, u32) hashmap"
  ss_next_cycle :: "nat option"

definition dpms_new :: "bool \<Rightarrow> nat \<Rightarrow> DpmsState" where
  "dpms_new kms_capable now = \<lparr>dpms_kms_capable = kms_capable, dpms_enabled = kms_capable,
     dpms_power_level = 0, dpms_standby_ms = 600000, dpms_suspend_ms = 600000, dpms_off_ms = 600000,
     dpms_last_activity = now, dpms_selected_by = []\<rparr>"

definition screensaver_new :: ScreenSaverState where
  "screensaver_new = \<lparr>ss_timeout_ms = 600000, ss_interval_ms = 600000, ss_prefer_blanking = True,
     ss_allow_exposures = True, ss_active = SaverOff, ss_forced = False, ss_selected_by = [],
     ss_suspend_counts = [], ss_next_cycle = None\<rparr>"

record SyncCounter =
  sc_owner :: ClientId
  sc_value :: int

record SyncAlarm =
  sa_owner :: ClientId
  sa_counter :: u32
  sa_wait_value :: int
  sa_delta :: int
  sa_test_type :: u8
  sa_events :: bool
  sa_state :: u8

record SyncFence =
  sf_owner :: ClientId
  sf_triggered :: bool

section \<open>Tables of the extensions\<close>

text \<open>\<open>SyncPendingAwait\<close>, \<open>GlxDrawable\<close>, \<open>PresentEventSelection\<close> and \<open>RedirectRecord\<close>, with the fields that
  the modelled handlers read.\<close>

record SyncPendingAwait =
  pa_client :: ClientId
  pa_sequence :: u16
  pa_fences :: "u32 list"

record GlxDrawable =
  gd_owner :: ClientId
  gd_export_host_xid :: "u32 option"

record PresentEventSelection =
  pe_owner :: ClientId
  pe_window :: ResourceId
  pe_event_mask :: u32

datatype CompositeRedirectMode = RedirectAutomatic | RedirectManual

record RedirectRecord =
  rr_mode :: CompositeRedirectMode
  rr_owner :: ClientId

section \<open>Clients and the server\<close>

record ClientState =
  cs_byte_order :: ClientByteOrder
  cs_last_sequence :: u16
  cs_resource_id_base :: u32
  cs_resource_id_mask :: u32
  cs_event_masks :: "(ResourceId, u32) hashmap"
  cs_save_set :: "ResourceId list"
  cs_big_requests_enabled :: bool
  cs_xi2_masks :: "(ResourceId \<times> u16, u32) hashmap"
  cs_out :: ClientOut
  cs_focused_window :: ResourceId
  cs_xi1_window_event_classes :: "(ResourceId, u32 list) hashmap"

record ServerState =
  st_atoms :: AtomTable
  st_resources :: ResourceTable
  st_clients :: "(ClientId, ClientState) hashmap"
  st_selections :: "(AtomId, ResourceId \<times> u32) hashmap"
  st_pointer_grab :: "(ClientId \<times> ResourceId) option"
  st_pointer_root :: "i16 \<times> i16"
  st_active_pointer_grab :: "ActivePointerGrab option"
  st_button_grabs :: "PassiveButtonGrab list"
  st_pointer_grab_is_passive :: bool
  st_frozen_pointer_event :: "HostPointerEvent option"
  st_frozen_pointer_queue :: "HostPointerEvent list"
  st_key_grabs :: "KeyGrab list"
  st_xi1_passive_grabs :: "Xi1PassiveGrab list"
  st_xi1_active_grabs :: "(u16, Xi1ActiveGrab) hashmap"
  st_xi1_last_grab_time :: u32
  st_last_pointer_grab_time :: u32
  st_last_keyboard_grab_time :: u32
  st_core_focus :: CoreFocus
  st_pointer_mapping_override :: "u8 list option"
  st_keys_down :: "u8 list"
  st_pointer_confine_to :: ResourceId
  st_buttons_down :: u16
  st_confine_warp_active :: bool
  st_xi1_last_input_time :: u32
  st_xi1_frozen :: "(u16, Xi1Freeze) hashmap"
  st_xi1_device_focus :: "(u16, Xi1DeviceFocus) hashmap"
  st_xi1_device_input_state :: "(u16, Xi1DeviceInputState) hashmap"
  st_active_keyboard_grab :: "ActiveKeyboardGrab option"
  st_frozen_keyboard_event :: "HostKeyEvent option"
  st_xfixes_regions :: "(u32, XFixesRegion) hashmap"
  st_xfixes_selection_masks :: "(ClientId \<times> ResourceId \<times> AtomId, u32) hashmap"
  st_xfixes_cursor_masks :: "(ClientId \<times> ResourceId, u32) hashmap"
  st_shape_windows :: "(ResourceId, ShapeWindowState) hashmap"
  st_shape_select_masks :: "(ClientId \<times> ResourceId, bool) hashmap"
  st_sync_counters :: "(u32, SyncCounter) hashmap"
  st_sync_alarms :: "(u32, SyncAlarm) hashmap"
  st_sync_fences :: "(u32, SyncFence) hashmap"
  st_per_device_last_activity :: "(u8, nat) hashmap"
  st_damage_objects :: "(u32, DamageObject) hashmap"
  st_composite_redirects :: "(ResourceId \<times> bool, RedirectRecord) hashmap"
  st_present_event_selections :: "(u32, PresentEventSelection) hashmap"
  st_present_msc :: "(ResourceId, u64) hashmap"
  st_present_scheduler :: PresentScheduler
  st_mit_shm_segments :: "(u32, ClientId) hashmap"
  st_glx_contexts :: "(u32, ClientId) hashmap"
  st_glx_drawables :: "(u32, GlxDrawable) hashmap"
  st_id_allocator :: IdAllocator
  st_randr_select_masks :: "(ClientId \<times> ResourceId, u16) hashmap"
  st_xkb_select_event_masks :: "(ClientId \<times> u16, u16) hashmap"
  st_close_down_modes :: "(ClientId, u8) hashmap"
  st_zombie_clients :: "(ClientId, u8) hashmap"
  st_sync_pending_awaits :: "SyncPendingAwait list"
  st_scroll_axis_value :: "i32 list"
  st_idletime_last_evaluated :: "(u32, int) hashmap"
  st_timestamp :: u32
  st_dpms :: DpmsState
  st_screensaver :: ScreenSaverState

definition server_new :: ServerState where
  "server_new = \<lparr>st_atoms = AtomTable_new, st_resources = default_table, st_clients = [], st_selections = [],
     st_pointer_grab = None, st_pointer_root = (0, 0), st_active_pointer_grab = None,
     st_button_grabs = [], st_pointer_grab_is_passive = False, st_frozen_pointer_event = None,
     st_frozen_pointer_queue = [], st_key_grabs = [], st_xi1_passive_grabs = [],
     st_xi1_active_grabs = [], st_xi1_last_grab_time = 0, st_last_pointer_grab_time = 0,
     st_last_keyboard_grab_time = 0, st_core_focus = CoreFocus_default,
     st_pointer_mapping_override = None, st_keys_down = replicate 32 0, st_pointer_confine_to = 0,
     st_buttons_down = 0, st_confine_warp_active = False, st_xi1_last_input_time = 0,
     st_xi1_frozen = [], st_xi1_device_focus = [], st_xi1_device_input_state = [],
     st_active_keyboard_grab = None, st_frozen_keyboard_event = None,
     st_xfixes_regions = [], st_xfixes_selection_masks = [], st_xfixes_cursor_masks = [],
     st_shape_windows = [], st_shape_select_masks = [],
     st_sync_counters = [], st_sync_alarms = [], st_sync_fences = [],
     st_per_device_last_activity = [], st_damage_objects = [], st_composite_redirects = [],
     st_present_event_selections = [], st_present_msc = [], st_present_scheduler = scheduler_default,
     st_mit_shm_segments = [], st_glx_contexts = [], st_glx_drawables = [],
     st_id_allocator = IdAllocator_new, st_randr_select_masks = [], st_xkb_select_event_masks = [],
     st_close_down_modes = [], st_zombie_clients = [], st_sync_pending_awaits = [],
     st_scroll_axis_value = [0, 0], st_idletime_last_evaluated = [], st_timestamp = 0,
     st_dpms = dpms_new False 0, st_screensaver = screensaver_new\<rparr>"

section \<open>Identifiers in use\<close>

definition xid_occupied :: "ServerState \<Rightarrow> u32 \<Rightarrow> bool" where
  "xid_occupied st i \<longleftrightarrow> xid_in_use (st_resources st) i \<or>
     hm_contains (st_xfixes_regions st) i \<or> hm_contains (st_sync_counters st) i \<or>
     hm_contains (st_sync_alarms st) i \<or> hm_contains (st_sync_fences st) i \<or>
     hm_contains (st_damage_objects st) i \<or> hm_contains (st_mit_shm_segments st) i \<or>
     hm_contains (st_glx_contexts st) i \<or> hm_contains (st_glx_drawables st) i \<or>
     hm_contains (st_present_event_selections st) i"

definition used_xids_in :: "ServerState \<Rightarrow> u32 \<Rightarrow> u32 \<Rightarrow> u32 list" where
  "used_xids_in st base msk =
     (let in_range = filter (\<lambda>i. i AND NOT msk = base) in
      remdups_adj (sort (collect_xids_in (st_resources st) base msk @
        in_range (hm_keys (st_xfixes_regions st)) @ in_range (hm_keys (st_sync_counters st)) @
        in_range (hm_keys (st_sync_alarms st)) @ in_range (hm_keys (st_sync_fences st)) @
        in_range (hm_keys (st_damage_objects st)) @ in_range (hm_keys (st_mit_shm_segments st)) @
        in_range (hm_keys (st_glx_contexts st)) @ in_range (hm_keys (st_glx_drawables st)) @
        in_range (hm_keys (st_present_event_selections st)))))"

end
