(* ===== verification/Delivery.thy ===== *)
theory Delivery
  imports ServerTypes
begin

text \<open>
  How replies, errors and events reach the clients: \<open>write_to_client\<close> and \<open>emit_x11_error\<close>
  (\<open>crates/xserver-core/src/core_loop/process_request.rs\<close>), \<open>write_error\<close>
  (\<open>crates/xserver-protocol/src/x11/mod.rs\<close>) and the fanout of
  \<open>crates/xserver-core/src/core_loop/fanout.rs\<close>. Every path ends in \<open>write_or_buffer\<close>.

  The errors of \<open>io::Result\<close> that remain (writing into a vector) never happen, so a handler returns a
  \<open>RequestOutcome\<close>.
\<close>

datatype RequestOutcome = Handled | DisconnectClient ClientId

section \<open>Replies and errors\<close>

definition set_client :: "ClientId \<Rightarrow> ClientState \<Rightarrow> ServerState \<Rightarrow> ServerState" where
  "set_client i c st = st\<lparr>st_clients := hm_insert i c (st_clients st)\<rparr>"

definition write_to_client :: "ClientState \<Rightarrow> ClientId \<Rightarrow> u8 list \<Rightarrow> ClientState \<times> RequestOutcome" where
  "write_to_client client client_id bytes =
     (case write_or_buffer bytes (cs_out client) of
        (r, out) \<Rightarrow>
          (client\<lparr>cs_out := out\<rparr>,
           case r of
             Inr Done \<Rightarrow> Handled
           | Inr WouldBlock \<Rightarrow> Handled
           | Inr Disconnect \<Rightarrow> DisconnectClient client_id
           | Inl _ \<Rightarrow> DisconnectClient client_id))"

text \<open>\<open>let Some(client) = state.clients.get_mut(..) else { return Ok(Handled) }; write_to_client(..)\<close>\<close>

definition send_reply :: "ClientId \<Rightarrow> (ClientByteOrder \<Rightarrow> u8 list) \<Rightarrow> ServerState \<Rightarrow> ServerState \<times> RequestOutcome" where
  "send_reply client_id encode st =
     (case hm_get (st_clients st) client_id of
        None \<Rightarrow> (st, Handled)
      | Some client \<Rightarrow>
          (case write_to_client client client_id (encode (cs_byte_order client)) of
             (client', outcome) \<Rightarrow> (set_client client_id client' st, outcome)))"

definition BAD_REQUEST :: u8 where "BAD_REQUEST = 1"
definition BAD_WINDOW :: u8 where "BAD_WINDOW = 3"
definition BAD_MATCH :: u8 where "BAD_MATCH = 8"
definition BAD_GC :: u8 where "BAD_GC = 13"
definition BAD_ID_CHOICE :: u8 where "BAD_ID_CHOICE = 14"

definition write_error :: "ClientByteOrder \<Rightarrow> u16 \<Rightarrow> u8 \<Rightarrow> u32 \<Rightarrow> u16 \<Rightarrow> u8 \<Rightarrow> u8 list" where
  "write_error byte_order sequence error_code bad_value minor_opcode major_opcode =
     write_u16 byte_order
       (write_u32 byte_order (write_u16 byte_order [0, error_code] sequence) bad_value)
       minor_opcode @ [major_opcode] @ replicate 21 0"

definition emit_x11_error_with_minor ::
  "ClientId \<Rightarrow> u16 \<Rightarrow> u8 \<Rightarrow> u32 \<Rightarrow> u16 \<Rightarrow> u8 \<Rightarrow> ServerState \<Rightarrow> ServerState \<times> RequestOutcome" where
  "emit_x11_error_with_minor client_id sequence code bad_value minor_opcode major_opcode st =
     send_reply client_id
       (\<lambda>byte_order. write_error byte_order sequence code bad_value minor_opcode major_opcode) st"

definition emit_x11_error ::
  "ClientId \<Rightarrow> u16 \<Rightarrow> u8 \<Rightarrow> u32 \<Rightarrow> u8 \<Rightarrow> ServerState \<Rightarrow> ServerState \<times> RequestOutcome" where
  "emit_x11_error client_id sequence code bad_value major_opcode st =
     emit_x11_error_with_minor client_id sequence code bad_value 0 major_opcode st"

section \<open>Events\<close>

definition event_mask_of :: "ClientState \<Rightarrow> ResourceId \<Rightarrow> u32" where
  "event_mask_of c w = unwrap_or (hm_get (cs_event_masks c) w) 0"

definition subscribers_by_id :: "ServerState \<Rightarrow> ResourceId \<Rightarrow> u32 \<Rightarrow> ClientId list" where
  "subscribers_by_id st w mask_bits =
     map fst (filter (\<lambda>(i, c). event_mask_of c w AND mask_bits \<noteq> 0) (st_clients st))"

fun propagation_loop ::
  "ServerState \<Rightarrow> u32 \<Rightarrow> nat \<Rightarrow> ResourceId \<Rightarrow> i16 \<Rightarrow> i16 \<Rightarrow> ResourceId option
    \<Rightarrow> (ResourceId \<times> i16 \<times> i16 \<times> ClientId list \<times> ResourceId) option" where
  "propagation_loop st mask_bits 0 current x y child = None"
| "propagation_loop st mask_bits (Suc n) current x y child =
     (let subs = subscribers_by_id st current mask_bits
      in if subs \<noteq> [] then Some (current, x, y, subs, unwrap_or child 0)
         else
           (case window (st_resources st) current of
              None \<Rightarrow> None
            | Some w \<Rightarrow>
                if win_parent w = current then None
                else propagation_loop st mask_bits n (win_parent w) (x + win_x w) (y + win_y w)
                       (Some current)))"

definition pointer_propagation_target_by_id ::
  "ServerState \<Rightarrow> ResourceId \<Rightarrow> i16 \<Rightarrow> i16 \<Rightarrow> u32
    \<Rightarrow> (ResourceId \<times> i16 \<times> i16 \<times> ClientId list \<times> ResourceId) option" where
  "pointer_propagation_target_by_id st start start_x start_y mask_bits =
     propagation_loop st mask_bits 256 start start_x start_y None"

definition client_target_id :: "ServerState \<Rightarrow> ClientId \<Rightarrow> ClientId option" where
  "client_target_id st i = (if hm_contains (st_clients st) i then Some i else None)"

definition selection_owner_target_id :: "ServerState \<Rightarrow> AtomId \<Rightarrow> (ResourceId \<times> ClientId) option" where
  "selection_owner_target_id st selection =
     (case hm_get (st_selections st) selection of
        None \<Rightarrow> None
      | Some (owner_window, _) \<Rightarrow>
          (case window_owner (st_resources st) owner_window of
             None \<Rightarrow> None
           | Some owner_client \<Rightarrow>
               (case client_target_id st owner_client of
                  None \<Rightarrow> None
                | Some target \<Rightarrow> Some (owner_window, target))))"

text \<open>The loop over the recipients, the ones already served in \<open>seen\<close>; the result lists the clients
  whose connection is to be closed.\<close>

fun fanout_loop ::
  "(ClientState \<Rightarrow> u8 list) \<Rightarrow> ClientId list \<Rightarrow> ClientId list \<Rightarrow> ServerState \<Rightarrow> ServerState \<times> ClientId list" where
  "fanout_loop encode seen [] st = (st, [])"
| "fanout_loop encode seen (i # ids) st =
     (if i \<in> set seen then fanout_loop encode seen ids st
      else
        (case hm_get (st_clients st) i of
           None \<Rightarrow> fanout_loop encode (i # seen) ids st
         | Some client \<Rightarrow>
             (case write_to_client client i (encode client) of
                (client', outcome) \<Rightarrow>
                  (case fanout_loop encode (i # seen) ids (set_client i client' st) of
                     (st', dropped) \<Rightarrow>
                       (st', (if outcome = Handled then [] else [i]) @ dropped)))))"

definition fanout_event_to_clients ::
  "ClientId list \<Rightarrow> (u16 \<Rightarrow> ClientByteOrder \<Rightarrow> u8 list) \<Rightarrow> ServerState \<Rightarrow> ServerState \<times> ClientId list" where
  "fanout_event_to_clients client_ids encode st =
     fanout_loop (\<lambda>c. encode (cs_last_sequence c) (cs_byte_order c)) [] client_ids st"

definition emit_window_event_to_state ::
  "ResourceId \<Rightarrow> u32 \<Rightarrow> (u16 \<Rightarrow> ClientByteOrder \<Rightarrow> u8 list) \<Rightarrow> ServerState \<Rightarrow> ServerState \<times> ClientId list" where
  "emit_window_event_to_state w mask_bits encode st =
     (let targets = subscribers_by_id st w mask_bits
      in if targets = [] then (st, []) else fanout_event_to_clients targets encode st)"

text \<open>A template event in the byte order of its author, swapped to the order of each recipient, with
  the recipient's sequence number.\<close>

definition raw_event_for :: "u8 list \<Rightarrow> ClientByteOrder \<Rightarrow> ClientState \<Rightarrow> u8 list" where
  "raw_event_for event template_byte_order client =
     (let entries = core_event_swap_table (event ! 0 AND 0x7f);
          native = swap_in_place entries template_byte_order event;
          buf = swap_in_place entries (cs_byte_order client) native;
          seq_bytes = (case cs_byte_order client of
              LittleEndian \<Rightarrow> u16_to_le_bytes (cs_last_sequence client)
            | BigEndian \<Rightarrow> u16_to_be_bytes (cs_last_sequence client))
      in buf[2 := seq_bytes ! 0, 3 := seq_bytes ! 1])"

definition fanout_raw_event_to_clients ::
  "ClientId list \<Rightarrow> u8 list \<Rightarrow> ClientByteOrder \<Rightarrow> ServerState \<Rightarrow> ServerState \<times> ClientId list" where
  "fanout_raw_event_to_clients client_ids event template_byte_order st =
     fanout_loop (raw_event_for event template_byte_order) [] client_ids st"

end
