(* ===== verification/XcMisc.thy ===== *)
theory XcMisc
  imports Delivery IdAllocator
begin

text \<open>
  XC-MISC, the recycling of identifiers for long-lived clients: \<open>largest_free_xid_gap\<close> and
  \<open>handle_xcmisc_request\<close> of \<open>crates/xserver-core/src/core_loop/process_request.rs\<close>, with the replies
  of \<open>crates/xserver-protocol/src/x11/mod.rs\<close>.
\<close>

section \<open>The largest gap\<close>

definition saturating_add_u32 :: "u32 \<Rightarrow> u32 \<Rightarrow> u32" where
  "saturating_add_u32 a b = (if unat a + unat b < 2 ^ 32 then a + b else - 1)"

text \<open>The state is the start and the length of the best run so far and the cursor.\<close>

fun gap_loop :: "u32 \<Rightarrow> u32 \<Rightarrow> u32 list \<Rightarrow> u32 \<times> u64 \<times> u32 \<Rightarrow> u32 \<times> u64 \<times> u32" where
  "gap_loop lo hi [] s = s"
| "gap_loop lo hi (u # us) (best_start, best_len, cursor) =
     (if u < lo then gap_loop lo hi us (best_start, best_len, cursor)
      else if u > hi then (best_start, best_len, cursor)
      else
        (let len = ucast (u - cursor) :: u64;
             cursor' = max cursor (saturating_add_u32 u 1)
         in if u > cursor \<and> len > best_len then gap_loop lo hi us (cursor, len, cursor')
            else gap_loop lo hi us (best_start, best_len, cursor')))"

definition largest_free_xid_gap :: "u32 \<Rightarrow> u32 \<Rightarrow> u32 list \<Rightarrow> u32 \<times> u32" where
  "largest_free_xid_gap base msk used_sorted =
     (let lo = max base 1; hi = base OR msk in
      case gap_loop lo hi used_sorted (0, 0, lo) of
        (best_start, best_len, cursor) \<Rightarrow>
          (let len = ucast (hi - cursor) + 1 :: u64;
               (start, n) = (if cursor \<le> hi \<and> len > best_len then (cursor, len)
                             else (best_start, best_len))
           in if n = 0 then (0, 1) else (start, ucast n)))"

section \<open>The list of free identifiers\<close>

text \<open>The loop of GetXIDList; it stops at \<open>hi\<close> or when \<open>limit\<close> identifiers are found. The distance to
  \<open>hi\<close> bounds the iterations.\<close>

function free_ids :: "ServerState \<Rightarrow> nat \<Rightarrow> u32 \<Rightarrow> u32 \<Rightarrow> u32 list \<Rightarrow> u32 list" where
  "free_ids st limit hi i ids =
     (if length ids < limit
      then
        let ids' = (if xid_occupied st i then ids else ids @ [i])
        in if i = hi then ids' else free_ids st limit hi (i + 1) ids'
      else ids)"
  by auto
termination
proof (relation "measure (\<lambda>(st, limit, hi, i, ids). unat (hi - i))", goal_cases)
  case (2 st limit hi i ids ids')
  then have "hi - i \<noteq> 0" by simp
  then have "unat (hi - i - 1) < unat (hi - i)" by (simp add: unat_minus_one unat_gt_0)
  then have "unat (hi - (i + 1)) < unat (hi - i)" by (simp only: diff_diff_eq)
  then show ?case by simp
qed simp

declare free_ids.simps [simp del]

definition xid_list :: "ServerState \<Rightarrow> u32 \<Rightarrow> u32 \<Rightarrow> u32 \<Rightarrow> u32 list" where
  "xid_list st base msk want =
     free_ids st (min (unat want) (unat msk + 1)) (base OR msk) (max base 1) []"

section \<open>The handler\<close>

definition write_xcmisc_get_version_reply :: "ClientByteOrder \<Rightarrow> u16 \<Rightarrow> u8 list" where
  "write_xcmisc_get_version_reply byte_order sequence =
     write_u16 byte_order (write_u16 byte_order
       (write_u32 byte_order (write_u16 byte_order [1, 0] sequence) 0) 1) 1 @ replicate 20 0"

definition write_xcmisc_get_xid_range_reply :: "ClientByteOrder \<Rightarrow> u16 \<Rightarrow> u32 \<Rightarrow> u32 \<Rightarrow> u8 list" where
  "write_xcmisc_get_xid_range_reply byte_order sequence start_id n =
     write_u32 byte_order (write_u32 byte_order
       (write_u32 byte_order (write_u16 byte_order [1, 0] sequence) 0) start_id) n @ replicate 16 0"

definition write_xcmisc_get_xid_list_reply :: "ClientByteOrder \<Rightarrow> u16 \<Rightarrow> u32 list \<Rightarrow> u8 list" where
  "write_xcmisc_get_xid_list_reply byte_order sequence ids =
     foldl (write_u32 byte_order)
       (write_u32 byte_order (write_u32 byte_order (write_u16 byte_order [1, 0] sequence)
          (of_nat (length ids))) (of_nat (length ids)) @ replicate 20 0) ids"

definition handle_xcmisc_request ::
  "ClientId \<Rightarrow> u16 \<Rightarrow> RequestHeader \<Rightarrow> u8 list \<Rightarrow> ServerState \<Rightarrow> ServerState \<times> RequestOutcome" where
  "handle_xcmisc_request client_id sequence header body st =
     (let minor = rh_data header;
          fail = (\<lambda>code. emit_x11_error_with_minor client_id sequence code 0 (ucast minor)
                    (rh_opcode header) st)
      in if minor = 0
         then (if length body \<noteq> 4 then fail BAD_LENGTH
               else send_reply client_id (\<lambda>o'. write_xcmisc_get_version_reply o' sequence) st)
         else if minor = 1
         then (if body \<noteq> [] then fail BAD_LENGTH
               else case hm_get (st_clients st) client_id of
                   None \<Rightarrow> (st, Handled)
                 | Some c \<Rightarrow>
                     (let base = cs_resource_id_base c; msk = cs_resource_id_mask c;
                          (start_id, n) = largest_free_xid_gap base msk (used_xids_in st base msk)
                      in send_reply client_id
                           (\<lambda>o'. write_xcmisc_get_xid_range_reply o' sequence start_id n) st))
         else if minor = 2
         then (if length body \<noteq> 4 then fail BAD_LENGTH
               else case hm_get (st_clients st) client_id of
                   None \<Rightarrow> (st, Handled)
                 | Some c \<Rightarrow>
                     (let ids = xid_list st (cs_resource_id_base c) (cs_resource_id_mask c)
                            (u32_from_le_bytes (body ! 0) (body ! 1) (body ! 2) (body ! 3))
                      in send_reply client_id
                           (\<lambda>o'. write_xcmisc_get_xid_list_reply o' sequence ids) st))
         else fail BAD_REQUEST)"

section \<open>The gap is free and no gap is larger\<close>

text \<open>A run of \<open>m\<close> identifiers from \<open>a\<close> without an identifier in \<open>U\<close>.\<close>

definition run_free :: "nat set \<Rightarrow> nat \<Rightarrow> nat \<Rightarrow> bool" where
  "run_free U a m \<longleftrightarrow> (\<forall>v\<in>U. v < a \<or> a + m \<le> v)"

definition gap_inv :: "nat \<Rightarrow> nat \<Rightarrow> nat set \<Rightarrow> nat list \<Rightarrow> nat \<times> nat \<times> nat \<Rightarrow> bool" where
  "gap_inv lo hi U us s \<longleftrightarrow> (case s of (best_start, best_len, cursor) \<Rightarrow>
     lo \<le> cursor \<and> (cursor = lo \<or> cursor - 1 \<in> U \<and> lo < cursor) \<and>
     sorted_wrt (<) us \<and> set us \<subseteq> U \<and> (\<forall>v\<in>set us. v < lo \<or> cursor \<le> v) \<and>
     (\<forall>v\<in>U. v < cursor \<or> v \<in> set us \<or> hi < v) \<and>
     (0 < best_len \<longrightarrow> lo \<le> best_start \<and> best_start + best_len \<le> hi + 1 \<and> run_free U best_start best_len) \<and>
     (\<forall>a m. lo \<le> a \<and> a + m \<le> cursor \<and> run_free U a m \<longrightarrow> m \<le> best_len))"

text \<open>A free run that ends after the cursor starts at it or after it.\<close>

lemma run_after_cursor:
  assumes "cursor = lo \<or> cursor - 1 \<in> U \<and> lo < cursor" "run_free U a m" "lo \<le> a" "cursor < a + m"
  shows "cursor \<le> a"
  using assms unfolding run_free_def by (cases "cursor = lo") (auto dest!: bspec)

lemma gap_inv_step:
  assumes "gap_inv lo hi U (u # us) (bs, bl, cur)" "lo \<le> u" "u \<le> hi"
  shows "cur \<le> u"
    "gap_inv lo hi U us (if cur < u \<and> bl < u - cur then (cur, u - cur, Suc u) else (bs, bl, Suc u))"
proof -
  note inv = assms(1) [unfolded gap_inv_def prod.case]
  show cu: "cur \<le> u" using inv assms(2) by auto
  have uU: "u \<in> U" using inv by auto
  have free: "run_free U cur (u - cur)"
    unfolding run_free_def
  proof
    fix v assume "v \<in> U"
    then have "v < cur \<or> v \<in> set (u # us) \<or> hi < v" using inv by blast
    then show "v < cur \<or> cur + (u - cur) \<le> v" using inv assms(3) cu by auto
  qed
  have bound: "m \<le> max bl (u - cur)" if "lo \<le> a" "a + m \<le> Suc u" "run_free U a m" for a m
  proof (cases "a + m \<le> cur")
    case True
    then show ?thesis using inv that by (simp add: le_max_iff_disj)
  next
    case False
    have "u < a \<or> a + m \<le> u" using that(3) uU unfolding run_free_def by blast
    moreover have "cur \<le> a" using run_after_cursor [of cur lo U a m] inv that False by auto
    ultimately show ?thesis using that by auto
  qed
  have rest: "sorted_wrt (<) us" "set us \<subseteq> U" "\<forall>v\<in>set us. v < lo \<or> Suc u \<le> v" "lo \<le> Suc u"
      "Suc u = lo \<or> Suc u - 1 \<in> U \<and> lo < Suc u"
    using inv uU assms(2) by auto
  have all: "\<forall>v\<in>U. v < Suc u \<or> v \<in> set us \<or> hi < v"
  proof
    fix v assume "v \<in> U"
    then have "v < cur \<or> v = u \<or> v \<in> set us \<or> hi < v" using inv by auto
    then show "v < Suc u \<or> v \<in> set us \<or> hi < v" using cu by auto
  qed
  show "gap_inv lo hi U us (if cur < u \<and> bl < u - cur then (cur, u - cur, Suc u) else (bs, bl, Suc u))"
  proof (cases "cur < u \<and> bl < u - cur")
    case True
    then have "m \<le> u - cur" if "lo \<le> a" "a + m \<le> Suc u" "run_free U a m" for a m
      using bound [OF that] by simp
    moreover have "lo \<le> cur" using inv by blast
    ultimately show ?thesis using True rest all free cu assms(3) unfolding gap_inv_def by auto
  next
    case False
    then have "m \<le> bl" if "lo \<le> a" "a + m \<le> Suc u" "run_free U a m" for a m
      using bound [OF that] cu by auto
    then show ?thesis using False rest all inv unfolding gap_inv_def by auto
  qed
qed

lemma gap_inv_skip: "gap_inv lo hi U (u # us) s \<Longrightarrow> u < lo \<Longrightarrow> gap_inv lo hi U us s"
  unfolding gap_inv_def by (cases s) auto

lemma gap_inv_break:
  assumes "gap_inv lo hi U us s" "\<forall>v\<in>set us. v < lo \<or> hi < v"
  shows "gap_inv lo hi U [] s"
proof -
  obtain bs bl c where s: "s = (bs, bl, c)" by (cases s)
  note inv = assms(1) [unfolded gap_inv_def s prod.case]
  have "\<forall>v\<in>U. v < c \<or> v \<in> set [] \<or> hi < v"
  proof
    fix v assume "v \<in> U"
    then have "v < c \<or> v \<in> set us \<or> hi < v" using inv by blast
    then show "v < c \<or> v \<in> set [] \<or> hi < v" using assms(2) inv by auto
  qed
  then show ?thesis using inv unfolding gap_inv_def s prod.case by simp
qed

lemma unat_u64: "unat (ucast (x :: u32) :: u64) = unat x"
  by transfer simp

lemma unat_u32: "unat (x :: u64) < 2 ^ 32 \<Longrightarrow> unat (ucast x :: u32) = unat x"
  by (simp add: unsigned_ucast_eq take_bit_nat_eq_self)

text \<open>The word program follows these steps: no sum wraps around below \<open>2 ^ 32 - 1\<close>.\<close>

definition nat_state :: "u32 \<times> u64 \<times> u32 \<Rightarrow> nat \<times> nat \<times> nat" where
  "nat_state s = (case s of (bs, bl, cur) \<Rightarrow> (unat bs, unat bl, unat cur))"

lemma gap_loop_inv:
  assumes "gap_inv (unat lo) (unat hi) U (map unat us) (nat_state s)" "unat hi < 2 ^ 32 - 1"
  shows "gap_inv (unat lo) (unat hi) U [] (nat_state (gap_loop lo hi us s))"
  using assms
proof (induction lo hi us s rule: gap_loop.induct)
  case (2 lo hi u us bs bl cur)
  note inv = 2(4) [unfolded nat_state_def prod.case list.map]
  show ?case
  proof (cases "u < lo")
    case True
    then have "gap_inv (unat lo) (unat hi) U (map unat us) (nat_state (bs, bl, cur))"
      using gap_inv_skip [OF inv] by (simp add: nat_state_def word_less_nat_alt)
    then show ?thesis using 2(1) [OF True] 2(5) True by simp
  next
    case ge: False
    show ?thesis
    proof (cases "u > hi")
      case True
      have "\<forall>v\<in>set (unat u # map unat us). unat hi < v"
        using inv True unfolding gap_inv_def by (auto simp: word_less_nat_alt)
      then show ?thesis using gap_inv_break [OF inv] ge True by (simp add: nat_state_def)
    next
      case le: False
      have b: "unat lo \<le> unat u" "unat u \<le> unat hi"
        using ge le by (auto simp: word_less_nat_alt)
      note step = gap_inv_step [OF inv b]
      let ?len = "ucast (u - cur) :: u64" and ?cur = "max cur (saturating_add_u32 u 1)"
      have len: "unat ?len = unat u - unat cur"
        using step(1) by (simp add: unat_u64 unat_sub word_le_nat_alt)
      have cur': "unat ?cur = Suc (unat u)"
      proof -
        have "unat (u + 1) = Suc (unat u)" using b(2) 2(5) by (simp add: unat_word_ariths)
        then show ?thesis
          using step(1) b(2) 2(5) by (simp add: saturating_add_u32_def max_def word_le_nat_alt)
      qed
      show ?thesis
      proof (cases "u > cur \<and> ?len > bl")
        case True
        then have "gap_inv (unat lo) (unat hi) U (map unat us) (nat_state (cur, ?len, ?cur))"
          using step(2) len cur' by (simp add: nat_state_def word_less_nat_alt)
        moreover have "gap_loop lo hi (u # us) (bs, bl, cur) = gap_loop lo hi us (cur, ?len, ?cur)"
          using ge le True by (simp add: Let_def)
        ultimately show ?thesis using 2(2) [OF ge le HOL.refl HOL.refl True] 2(5) by (simp only:)
      next
        case False
        then have "gap_inv (unat lo) (unat hi) U (map unat us) (nat_state (bs, bl, ?cur))"
          using step(2) len cur' by (auto simp: nat_state_def word_less_nat_alt)
        moreover have "gap_loop lo hi (u # us) (bs, bl, cur) = gap_loop lo hi us (bs, bl, ?cur)"
          using ge le False by (auto simp: Let_def)
        ultimately show ?thesis using 2(3) [OF ge le HOL.refl HOL.refl False] 2(5) by (simp only:)
      qed
    qed
  qed
qed simp

lemma largest_gap_exact:
  assumes srt: "sorted_wrt (<) used" and hi: "unat (base OR msk) < 2 ^ 32 - 1"
    and lo: "unat (max base 1) \<le> unat (base OR msk)"
    and range: "\<forall>u\<in>set used. unat (max base 1) \<le> unat u \<and> unat u \<le> unat (base OR msk)"
    and res: "largest_free_xid_gap base msk used = (start, n)"
  defines "U \<equiv> unat ` set used" and "l \<equiv> unat (max base 1)" and "h \<equiv> unat (base OR msk)"
  shows "(if \<exists>v. l \<le> v \<and> v \<le> h \<and> v \<notin> U
      then 0 < n \<and> l \<le> unat start \<and> unat start + unat n \<le> h + 1 \<and> run_free U (unat start) (unat n) \<and>
        (\<forall>a m. l \<le> a \<and> a + m \<le> h + 1 \<and> run_free U a m \<longrightarrow> m \<le> unat n)
      else start = 0 \<and> n = 1)"
proof -
  obtain bs bl cur where gl: "gap_loop (max base 1) (base OR msk) used (0, 0, max base 1) = (bs, bl, cur)"
    by (metis prod_cases3)
  have "sorted_wrt (<) (map unat used)"
    using srt unfolding sorted_wrt_map by (rule sorted_wrt_mono_rel [rotated]) (simp add: word_less_nat_alt)
  then have "gap_inv l h U (map unat used) (nat_state (0, 0, max base 1))"
    using range unfolding gap_inv_def nat_state_def prod.case l_def h_def U_def
    by (auto simp: run_free_def)
  from gap_loop_inv [OF this [unfolded l_def h_def] hi]
  have inv: "gap_inv l h U [] (unat bs, unat bl, unat cur)"
    unfolding gl nat_state_def prod.case l_def h_def .
  note inv = inv [unfolded gap_inv_def prod.case]
  have in_range: "v \<le> h" if "v \<in> U" for v using that range unfolding U_def h_def by auto
  have below: "\<forall>v\<in>U. v < unat cur"
  proof
    fix v assume v: "v \<in> U"
    then have "v < unat cur \<or> v \<in> set [] \<or> h < v" using inv by blast
    then show "v < unat cur" using in_range [OF v] by simp
  qed
  have c: "unat cur \<le> Suc h"
  proof -
    have "unat cur = l \<or> unat cur - 1 \<in> U" using inv by blast
    then show ?thesis using in_range [of "unat cur - 1"] lo unfolding l_def h_def by auto
  qed
  define ins where "ins \<longleftrightarrow> cur \<le> base OR msk \<and> (ucast ((base OR msk) - cur) + 1 :: u64) > bl"
  define N where "N = (if unat cur \<le> h \<and> unat bl < Suc h - unat cur then Suc h - unat cur else unat bl)"
  define S where "S = (if unat cur \<le> h \<and> unat bl < Suc h - unat cur then unat cur else unat bs)"
  have len: "unat (ucast ((base OR msk) - cur) + 1 :: u64) = Suc h - unat cur" if "cur \<le> base OR msk"
  proof -
    have "unat ((base OR msk) - cur) = h - unat cur"
      using that unfolding h_def by (simp add: unat_sub)
    moreover have "h < 2 ^ 32" unfolding h_def using unsigned_less [of "base OR msk"] by simp
    ultimately have "unat (ucast ((base OR msk) - cur) :: u64) = h - unat cur" "h - unat cur < 2 ^ 32"
      by (simp_all add: unat_u64)
    then show ?thesis using that unfolding h_def
      by (simp add: unat_word_ariths word_le_nat_alt Suc_diff_le)
  qed
  have ins: "ins \<longleftrightarrow> unat cur \<le> h \<and> unat bl < Suc h - unat cur"
    using len unfolding ins_def h_def by (auto simp: word_le_nat_alt word_less_nat_alt)
  have l: "1 \<le> l" unfolding l_def by (auto simp: max_def word_le_nat_alt)
  have ends: "l \<le> unat cur" "0 < unat bl \<longrightarrow> l \<le> unat bs \<and> unat bs + unat bl \<le> h + 1"
    using inv by blast+
  have N_le: "N \<le> h" if "0 < N"
    using ends that l unfolding N_def by auto
  define n64 where "n64 = (if ins then ucast ((base OR msk) - cur) + 1 else bl)"
  have n64: "unat n64 = N"
    using ins len unfolding n64_def N_def h_def ins_def by (auto simp: word_le_nat_alt)
  then have zero: "n64 = 0 \<longleftrightarrow> N = 0" by (metis unat_0 unat_eq_0)
  have res': "start = (if n64 = 0 then 0 else if ins then cur else bs)"
      "n = (if n64 = 0 then 1 else ucast n64)"
    using res unfolding largest_free_xid_gap_def Let_def gl prod.case ins_def [symmetric]
    by (auto simp: n64_def split: if_splits)
  have F1: "l \<le> S \<and> S + N \<le> h + 1 \<and> run_free U S N" if "0 < N"
    using inv below that unfolding S_def N_def by (auto simp: run_free_def)
  have F2: "m \<le> N" if "l \<le> a" "a + m \<le> h + 1" "run_free U a m" for a m
  proof (cases "a + m \<le> unat cur")
    case True
    then show ?thesis using inv that unfolding N_def by fastforce
  next
    case False
    then have "unat cur \<le> a" using run_after_cursor [of "unat cur" l U a m] inv that by auto
    then show ?thesis using that False unfolding N_def by auto
  qed
  show ?thesis
  proof (cases "N = 0")
    case True
    have none: "\<not> (\<exists>v. l \<le> v \<and> v \<le> h \<and> v \<notin> U)"
    proof
      assume "\<exists>v. l \<le> v \<and> v \<le> h \<and> v \<notin> U"
      then obtain v where "l \<le> v" "v \<le> h" "v \<notin> U" by blast
      moreover from this have "run_free U v 1" unfolding run_free_def by (metis Suc_eq_plus1 Suc_leI linorder_neqE_nat)
      ultimately show False using F2 [of v 1] True by simp
    qed
    have "start = 0 \<and> n = 1" using res' True zero by simp
    then show ?thesis using none by (simp only: if_False)
  next
    case False
    then have N: "0 < N" by simp
    have start: "unat start = S" using res' ins N zero unfolding S_def by auto
    have "N < 2 ^ 32" using N_le [OF N] hi unfolding h_def by simp
    then have n: "unat n = N" using res' N zero n64 by (simp add: unat_u32)
    have "S \<notin> U" using F1 [OF N] N unfolding run_free_def by auto
    then have some: "\<exists>v. l \<le> v \<and> v \<le> h \<and> v \<notin> U" using F1 [OF N] N by (intro exI [of _ S]) auto
    have "0 < n" using n N by (simp add: word_less_nat_alt)
    then show ?thesis using F1 [OF N] F2 start n some by (simp only: if_True) blast
  qed
qed

section \<open>For the range of a client\<close>

text \<open>An identifier that the client with base number \<open>k\<close> may take: its own and free.\<close>

definition id_free :: "ServerState \<Rightarrow> nat \<Rightarrow> u32 \<Rightarrow> bool" where
  "id_free st k i \<longleftrightarrow> validate_owned i (base_of k) PER_CLIENT_MASK \<and> \<not> xid_occupied st i"

lemma set_used_xids_in:
  "i \<in> set (used_xids_in st base msk) \<longleftrightarrow> xid_occupied st i \<and> validate_owned i base msk"
  unfolding used_xids_in_def collect_xids_in_def xid_occupied_def xid_in_use_def validate_owned_def Let_def
  by (cases "i AND NOT msk = base")
    (simp_all add: hm.keys_get [folded hm_contains_iff] disj_ac del: hm_contains_iff)

lemma sorted_used_xids_in: "sorted_wrt (<) (used_xids_in st base msk)"
  unfolding used_xids_in_def Let_def by (rule sorted_remdups_adj_less) simp

lemma base_or_mask:
  assumes "1 \<le> k" "k \<le> 4094"
  shows "unat (base_of k OR PER_CLIENT_MASK) = k * 0x100000 + 0xFFFFF"
proof -
  have "base_of k OR PER_CLIENT_MASK = base_of k + PER_CLIENT_MASK"
    using base_of_aligned [of k] assms by (simp add: disjunctive_add_eq_or)
  then show ?thesis
    using assms by (simp add: unat_word_ariths unat_base_of PER_CLIENT_MASK_def)
qed

lemma owned_iff_range:
  assumes "1 \<le> k" "k \<le> 4094"
  shows "validate_owned i (base_of k) PER_CLIENT_MASK \<longleftrightarrow>
    k * 0x100000 \<le> unat i \<and> unat i \<le> k * 0x100000 + 0xFFFFF"
  using assms by (subst validate_owned_iff) (auto simp: div_nat_eqI)

lemma base_at_least_1: "1 \<le> k \<Longrightarrow> k \<le> 4094 \<Longrightarrow> max (base_of k) 1 = base_of k"
  by (simp add: max_def word_le_nat_alt unat_base_of)

lemma run_index:
  fixes i start n :: u32
  assumes "i - start < n" "unat start + unat n < 2 ^ 32"
  shows "unat start \<le> unat i \<and> unat i < unat start + unat n"
proof -
  have "unat (start + (i - start)) = unat start + unat (i - start)"
    using assms by (intro unat_word_ariths(1) [THEN trans] mod_less) (simp add: word_less_nat_alt)
  then have "unat i = unat start + unat (i - start)" by simp
  moreover have "unat (i - start) < unat n" using assms(1) by (simp add: word_less_nat_alt)
  ultimately show ?thesis by linarith
qed

text \<open>
  GetXIDRange answers a run of identifiers that the client owns and nobody uses, no run of such
  identifiers is longer, and the answer is (0, 1) only when there is none.
\<close>

theorem xid_range_free:
  assumes "1 \<le> k" "k \<le> 4094"
    and "largest_free_xid_gap (base_of k) PER_CLIENT_MASK (used_xids_in st (base_of k) PER_CLIENT_MASK)
      = (start, n)"
  shows "if \<exists>i. id_free st k i
    then 0 < n \<and> (\<forall>i. i - start < n \<longrightarrow> id_free st k i) \<and>
      (\<forall>a m. (\<forall>j<m. id_free st k (a + of_nat j)) \<longrightarrow> m \<le> unat n)
    else start = 0 \<and> n = 1"
proof -
  let ?used = "used_xids_in st (base_of k) PER_CLIENT_MASK"
  let ?l = "k * 0x100000" and ?h = "k * 0x100000 + 0xFFFFF"
  let ?U = "unat ` set ?used"
  note facts = base_or_mask [OF assms(1,2)] base_at_least_1 [OF assms(1,2)]
    owned_iff_range [OF assms(1,2)]
  have lo: "unat (base_of k) = ?l" using assms by (simp add: unat_base_of)
  have h32: "?h < 2 ^ 32 - 1" using assms(2) by simp
  have "\<forall>u\<in>set ?used. unat (max (base_of k) 1) \<le> unat u \<and> unat u \<le> unat (base_of k OR PER_CLIENT_MASK)"
    by (simp add: set_used_xids_in facts lo)
  moreover have "unat (base_of k OR PER_CLIENT_MASK) < 2 ^ 32 - 1"
      "unat (max (base_of k) 1) \<le> unat (base_of k OR PER_CLIENT_MASK)"
    using h32 by (simp_all add: facts lo)
  ultimately have gap: "if \<exists>v. ?l \<le> v \<and> v \<le> ?h \<and> v \<notin> ?U
      then 0 < n \<and> ?l \<le> unat start \<and> unat start + unat n \<le> ?h + 1 \<and>
        run_free ?U (unat start) (unat n) \<and>
        (\<forall>a m. ?l \<le> a \<and> a + m \<le> ?h + 1 \<and> run_free ?U a m \<longrightarrow> m \<le> unat n)
      else start = 0 \<and> n = 1"
    using largest_gap_exact [OF sorted_used_xids_in _ _ _ assms(3)] unfolding facts lo by blast
  have free: "id_free st k i \<longleftrightarrow> ?l \<le> unat i \<and> unat i \<le> ?h \<and> unat i \<notin> ?U" for i
    unfolding id_free_def facts
    by (auto simp: image_iff set_used_xids_in facts dest: word_unat_eq_iff [THEN iffD2])
  have ex: "(\<exists>i. id_free st k i) \<longleftrightarrow> (\<exists>v. ?l \<le> v \<and> v \<le> ?h \<and> v \<notin> ?U)"
  proof
    assume "\<exists>v. ?l \<le> v \<and> v \<le> ?h \<and> v \<notin> ?U"
    then obtain v where v: "?l \<le> v" "v \<le> ?h" "v \<notin> ?U" by blast
    then have "unat (of_nat v :: u32) = v" using h32 by (intro unat_of_nat_id) simp
    then have "id_free st k (of_nat v)" using v free by simp
    then show "\<exists>i. id_free st k i" ..
  next
    assume "\<exists>i. id_free st k i"
    then show "\<exists>v. ?l \<le> v \<and> v \<le> ?h \<and> v \<notin> ?U" using free by blast
  qed
  show ?thesis
  proof (cases "\<exists>i. id_free st k i")
    case False
    then show ?thesis using gap unfolding ex if_not_P [OF False [unfolded ex]] by (simp only: if_False)
  next
    case True
    have gap: "0 < n \<and> ?l \<le> unat start \<and> unat start + unat n \<le> ?h + 1 \<and>
        run_free ?U (unat start) (unat n) \<and>
        (\<forall>a m. ?l \<le> a \<and> a + m \<le> ?h + 1 \<and> run_free ?U a m \<longrightarrow> m \<le> unat n)"
      using gap unfolding if_P [OF True [unfolded ex]] .
    then have rng: "?l \<le> unat start" "unat start + unat n \<le> ?h + 1"
      and rf: "run_free ?U (unat start) (unat n)" and pos: "0 < n"
      by blast+
    have longest: "m \<le> unat n" if "?l \<le> a" "a + m \<le> ?h + 1" "run_free ?U a m" for a m
      using gap that by blast
    have "id_free st k i" if "i - start < n" for i
    proof -
      have "unat start \<le> unat i \<and> unat i < unat start + unat n"
        using run_index [OF that] rng h32 by simp
      moreover have "unat i \<notin> ?U"
        using rf [unfolded run_free_def, THEN bspec, of "unat i"] calculation by fastforce
      ultimately have "?l \<le> unat i" "unat i \<le> ?h" "unat i \<notin> ?U" using rng by linarith+
      then show ?thesis using free by blast
    qed
    moreover have "m \<le> unat n" if m: "\<forall>j<m. id_free st k (a + of_nat j)" for a m
    proof (cases "m = 0")
      case False
      then have a: "?l \<le> unat a" "unat a \<le> ?h" using m [THEN spec, of 0] free by simp_all
      have sums: "unat (a + of_nat j) = unat a + j" if "unat a + j \<le> ?h + 1" for j
      proof -
        have "unat (of_nat j :: u32) = j" using that h32 by (intro unat_of_nat_id) simp
        then show ?thesis using that h32 by (simp add: unat_word_ariths)
      qed
      have fits: "unat a + m \<le> ?h + 1"
      proof (rule ccontr)
        assume long: "\<not> unat a + m \<le> ?h + 1"
        define j where "j = ?h + 1 - unat a"
        have "j < m" using long a unfolding j_def by linarith
        then have "id_free st k (a + of_nat j)" using m by blast
        moreover have "unat a + j = ?h + 1" using a unfolding j_def by linarith
        ultimately show False using free sums [of j] by simp
      qed
      have "run_free ?U (unat a) m"
        unfolding run_free_def
      proof (intro ballI, rule ccontr)
        fix v assume v: "v \<in> ?U" "\<not> (v < unat a \<or> unat a + m \<le> v)"
        define j where "j = v - unat a"
        have j: "unat a + j = v" "j < m" using v(2) unfolding j_def by linarith+
        then have "id_free st k (a + of_nat j)" using m by blast
        moreover have "unat (a + of_nat j) = v" using sums [of j] j fits by linarith
        ultimately show False using free v(1) by simp
      qed
      with a(1) fits show ?thesis by (rule longest)
    qed simp
    ultimately show ?thesis unfolding if_P [OF True] using pos by blast
  qed
qed

text \<open>The identifiers from \<open>i\<close> on, \<open>m\<close> of them.\<close>

definition ids_from :: "u32 \<Rightarrow> nat \<Rightarrow> u32 list" where
  "ids_from i m = map (\<lambda>j. i + of_nat j) [0..<m]"

lemma ids_from_Suc: "ids_from i (Suc m) = i # ids_from (i + 1) m"
  unfolding ids_from_def by (simp add: upt_conv_Cons map_Suc_upt [symmetric] add.assoc del: upt_Suc)

lemma free_ids_eq:
  "free_ids st limit hi i ids =
     ids @ take (limit - length ids) (filter (\<lambda>x. \<not> xid_occupied st x) (ids_from i (Suc (unat (hi - i)))))"
proof (induction st limit hi i ids rule: free_ids.induct)
  case (1 st limit hi i ids)
  show ?case
  proof (cases "length ids < limit \<and> i \<noteq> hi")
    case True
    then have "hi - i \<noteq> 0" by auto
    then have "unat (hi - i) = Suc (unat (hi - i - 1))" by (simp add: unat_minus_one unat_gt_0)
    also have "hi - i - 1 = hi - (i + 1)" by simp
    finally have n: "unat (hi - i) = Suc (unat (hi - (i + 1)))" .
    from True have len: "limit - length ids = Suc (limit - Suc (length ids))" by linarith
    show ?thesis
      using 1 True unfolding n ids_from_Suc [of i]
      by (subst free_ids.simps) (simp add: Let_def len)
  next
    case False
    then show ?thesis
      by (subst free_ids.simps) (auto simp: ids_from_Suc Let_def ids_from_def Suc_diff_Suc)
  qed
qed

lemma take_min_length: "length xs \<le> m \<Longrightarrow> take (min w m) xs = take w xs"
  by (cases "w \<le> m") simp_all

text \<open>
  GetXIDList answers the first \<open>want\<close> identifiers, in ascending order, that the client owns and nobody
  uses, or all of them when there are fewer.
\<close>

theorem xid_list_exact:
  assumes "1 \<le> k" "k \<le> 4094"
  shows "xid_list st (base_of k) PER_CLIENT_MASK want =
    take (unat want) (filter (id_free st k) (ids_from (base_of k) 0x100000))"
proof -
  have "base_of k OR PER_CLIENT_MASK = base_of k + PER_CLIENT_MASK"
    using base_of_aligned [of k] assms by (simp add: disjunctive_add_eq_or)
  then have d: "unat ((base_of k OR PER_CLIENT_MASK) - base_of k) = 0xFFFFF"
    by (simp add: PER_CLIENT_MASK_def)
  have own: "id_free st k x \<longleftrightarrow> \<not> xid_occupied st x" if "x \<in> set (ids_from (base_of k) 0x100000)" for x
  proof -
    obtain j where j: "x = base_of k + of_nat j" "j < 0x100000"
      using \<open>x \<in> _\<close> unfolding ids_from_def by auto
    have "unat (of_nat j :: u32) = j" using j(2) by (intro unat_of_nat_id) simp
    then have "unat x = k * 0x100000 + j"
      using j assms by (simp add: unat_word_ariths unat_base_of)
    then show ?thesis using j(2) owned_iff_range [OF assms] unfolding id_free_def by simp
  qed
  have "length (filter p (ids_from (base_of k) 0x100000)) \<le> 0x100000" for p
    by (rule order_trans [OF length_filter_le]) (simp add: ids_from_def)
  then have "take (min w 0x100000) (filter p (ids_from (base_of k) 0x100000)) =
      take w (filter p (ids_from (base_of k) 0x100000))" for p w
    by (rule take_min_length)
  moreover have "filter (\<lambda>x. \<not> xid_occupied st x) (ids_from (base_of k) 0x100000) =
      filter (id_free st k) (ids_from (base_of k) 0x100000)"
    using own by (intro filter_cong) simp_all
  moreover have "unat PER_CLIENT_MASK + 1 = 0x100000" "Suc 0xFFFFF = 0x100000"
    by (simp_all add: PER_CLIENT_MASK_def)
  ultimately show ?thesis
    unfolding xid_list_def free_ids_eq base_at_least_1 [OF assms] d by (simp only: append_Nil list.size diff_zero)
qed

lemma server_new_ids:
  "xid_occupied server_new i \<longleftrightarrow> i = ROOT_WINDOW \<or> i = ROOT_COLORMAP \<or> i = ARGB_COLORMAP"
  by (auto simp: xid_occupied_def xid_in_use_def server_new_def default_table_def)

lemma server_new_free: "id_free server_new k i \<longleftrightarrow> validate_owned i (base_of k) PER_CLIENT_MASK"
  if "1 \<le> k" "k \<le> 4094"
proof -
  have "\<not> validate_owned x (base_of k) PER_CLIENT_MASK" if "xid_occupied server_new x" for x
    using that \<open>1 \<le> k\<close> \<open>k \<le> 4094\<close> unfolding server_new_ids
    by (auto simp: validate_owned_iff ROOT_WINDOW_def ROOT_COLORMAP_def ARGB_COLORMAP_def)
  then show ?thesis unfolding id_free_def by blast
qed

theorem xid_range_free_witness:
  "largest_free_xid_gap (base_of 1) PER_CLIENT_MASK (used_xids_in server_new (base_of 1) PER_CLIENT_MASK)
      = (0x100000, 0x100000) \<and>
    id_free server_new 1 0x1FFFFF"
proof -
  have "set (used_xids_in server_new (base_of 1) PER_CLIENT_MASK) = {}"
  proof (rule equals0I)
    fix x assume "x \<in> set (used_xids_in server_new (base_of 1) PER_CLIENT_MASK)"
    then show False
      using server_new_free [of 1 x] unfolding set_used_xids_in id_free_def by simp
  qed
  then have "used_xids_in server_new (base_of 1) PER_CLIENT_MASK = []" by simp
  moreover have gap: "largest_free_xid_gap (base_of 1) PER_CLIENT_MASK [] = (0x100000, 0x100000)"
    by (simp add: largest_free_xid_gap_def base_of_def PER_CLIENT_MASK_def)
  ultimately have eq: "largest_free_xid_gap (base_of 1) PER_CLIENT_MASK
      (used_xids_in server_new (base_of 1) PER_CLIENT_MASK) = (0x100000, 0x100000)" by simp
  have "\<forall>i. i - 0x100000 < (0x100000 :: u32) \<longrightarrow> id_free server_new 1 i"
    using xid_range_free [OF _ _ eq] by (simp split: if_splits)
  then have "id_free server_new 1 0x1FFFFF" by simp
  then show ?thesis using eq by blast
qed

theorem xid_list_exact_witness: "xid_list server_new (base_of 2) PER_CLIENT_MASK 2 = [0x200000, 0x200001]"
proof -
  have free: "id_free server_new 2 0x200000" "id_free server_new 2 0x200001"
    by (simp_all add: server_new_free validate_owned_iff)
  have "ids_from (base_of 2) 0x100000 = base_of 2 # (base_of 2 + 1) # ids_from (base_of 2 + 2) 0xFFFFE"
    using ids_from_Suc [of "base_of 2" "0xFFFFF"] ids_from_Suc [of "base_of 2 + 1" "0xFFFFE"]
    by (simp add: add.assoc)
  moreover have "base_of 2 = 0x200000" by (simp add: base_of_def)
  ultimately have "filter (id_free server_new 2) (ids_from (base_of 2) 0x100000) =
      0x200000 # 0x200001 # filter (id_free server_new 2) (ids_from 0x200002 0xFFFFE)"
    using free by simp
  then show ?thesis
    unfolding xid_list_exact [of 2 server_new 2, simplified] by (simp add: numeral_2_eq_2)
qed

end
