(* ===== verification/Shapes.thy ===== *)
theory Shapes
  imports Delivery
begin

text \<open>
  The SHAPE extension: the requests and replies of \<open>crates/xserver-protocol/src/x11/shape.rs\<close>, the
  shape functions of \<open>crates/xserver-core/src/nested.rs\<close> and \<open>handle_shape_request\<close> with
  \<open>mirror_shape_to_host_state\<close> of \<open>crates/xserver-core/src/core_loop/process_request.rs\<close>.

  The backend is the argument \<open>read_depth1\<close> (what it reads back of a depth-1 pixmap, if it can) and
  the list of the \<open>set_shape_rectangles\<close> calls it gets, whose results the code ignores.
\<close>

section \<open>Requests\<close>

record RectanglesRequest =
  rq_op :: u8
  rq_dest_kind :: u8
  rq_ordering :: u8
  rq_dest :: u32
  rq_x_off :: i16
  rq_y_off :: i16

record MaskRequest =
  mq_op :: u8
  mq_dest_kind :: u8
  mq_dest :: u32
  mq_x_off :: i16
  mq_y_off :: i16
  mq_src :: u32

record CombineRequest =
  cq_op :: u8
  cq_dest_kind :: u8
  cq_src_kind :: u8
  cq_dest :: u32
  cq_x_off :: i16
  cq_y_off :: i16
  cq_src :: u32

record OffsetRequest =
  oq_dest_kind :: u8
  oq_dest :: u32
  oq_x_off :: i16
  oq_y_off :: i16

record SelectInputRequest =
  si_window :: u32
  si_enable :: bool

definition OP_SET :: u8 where "OP_SET = 0"
definition OP_UNION :: u8 where "OP_UNION = 1"
definition OP_INTERSECT :: u8 where "OP_INTERSECT = 2"
definition OP_SUBTRACT :: u8 where "OP_SUBTRACT = 3"
definition OP_INVERT :: u8 where "OP_INVERT = 4"
definition ORDERING_YX_BANDED :: u8 where "ORDERING_YX_BANDED = 3"

text \<open>The values at offset \<open>n\<close>; every use is behind a check of the length.\<close>

definition u16_le_at :: "u8 list \<Rightarrow> nat \<Rightarrow> u16" where
  "u16_le_at b n = u16_from_le_bytes (b ! n) (b ! (n + 1))"

definition u32_le_at :: "u8 list \<Rightarrow> nat \<Rightarrow> u32" where
  "u32_le_at b n = u32_from_le_bytes (b ! n) (b ! (n + 1)) (b ! (n + 2)) (b ! (n + 3))"

definition rect_le_at :: "u8 list \<Rightarrow> nat \<Rightarrow> RegionRect" where
  "rect_le_at b n = \<lparr>rect_x = u16_le_at b n, rect_y = u16_le_at b (n + 2),
     rect_width = u16_le_at b (n + 4), rect_height = u16_le_at b (n + 6)\<rparr>"

function parse_rectangles :: "u8 list \<Rightarrow> RegionRect list" where
  "parse_rectangles bytes =
     (if length bytes < 8 then []
      else
        let rect = rect_le_at bytes 0; rest = parse_rectangles (drop 8 bytes)
        in if rect_is_empty rect then rest else rect # rest)"
  by auto
termination by (relation "measure length") auto

declare parse_rectangles.simps [simp del]

definition parse_rectangles_request :: "u8 list \<Rightarrow> (RectanglesRequest \<times> RegionRect list) option" where
  "parse_rectangles_request body =
     (if length body < 12 then None
      else Some (\<lparr>rq_op = body ! 0, rq_dest_kind = body ! 1, rq_ordering = body ! 2,
          rq_dest = u32_le_at body 4, rq_x_off = u16_le_at body 8, rq_y_off = u16_le_at body 10\<rparr>,
        parse_rectangles (drop 12 body)))"

definition parse_mask_request :: "u8 list \<Rightarrow> MaskRequest option" where
  "parse_mask_request body =
     (if length body < 16 then None
      else Some \<lparr>mq_op = body ! 0, mq_dest_kind = body ! 1, mq_dest = u32_le_at body 4,
        mq_x_off = u16_le_at body 8, mq_y_off = u16_le_at body 10, mq_src = u32_le_at body 12\<rparr>)"

definition parse_combine_request :: "u8 list \<Rightarrow> CombineRequest option" where
  "parse_combine_request body =
     (if length body < 16 then None
      else Some \<lparr>cq_op = body ! 0, cq_dest_kind = body ! 1, cq_src_kind = body ! 2,
        cq_dest = u32_le_at body 4, cq_x_off = u16_le_at body 8, cq_y_off = u16_le_at body 10,
        cq_src = u32_le_at body 12\<rparr>)"

definition parse_offset_request :: "u8 list \<Rightarrow> OffsetRequest option" where
  "parse_offset_request body =
     (if length body < 12 then None
      else Some \<lparr>oq_dest_kind = body ! 0, oq_dest = u32_le_at body 4,
        oq_x_off = u16_le_at body 8, oq_y_off = u16_le_at body 10\<rparr>)"

definition parse_select_input_request :: "u8 list \<Rightarrow> SelectInputRequest option" where
  "parse_select_input_request body =
     (if length body < 8 then None
      else Some \<lparr>si_window = u32_le_at body 0, si_enable = (body ! 4 \<noteq> 0)\<rparr>)"

definition parse_window :: "u8 list \<Rightarrow> u32 option" where
  "parse_window body = (if length body < 4 then None else Some (u32_le_at body 0))"

definition parse_get_rectangles_request :: "u8 list \<Rightarrow> (u32 \<times> u8) option" where
  "parse_get_rectangles_request body =
     (if length body < 8 then None else Some (u32_le_at body 0, body ! 4))"

section \<open>Replies\<close>

definition u8_of_bool :: "bool \<Rightarrow> u8" where
  "u8_of_bool b = (if b then 1 else 0)"

definition write_rect :: "ClientByteOrder \<Rightarrow> u8 list \<Rightarrow> RegionRect \<Rightarrow> u8 list" where
  "write_rect byte_order out r =
     write_u16 byte_order (write_u16 byte_order
       (write_i16 byte_order (write_i16 byte_order out (rect_x r)) (rect_y r))
       (rect_width r)) (rect_height r)"

definition shape_encode_query_version_reply :: "ClientByteOrder \<Rightarrow> u16 \<Rightarrow> u8 list" where
  "shape_encode_query_version_reply byte_order sequence =
     write_u16 byte_order (write_u16 byte_order (fixed_reply byte_order sequence 0 0) 1) 1 @ replicate 20 0"

definition encode_query_extents_reply ::
  "ClientByteOrder \<Rightarrow> u16 \<Rightarrow> bool \<Rightarrow> bool \<Rightarrow> RegionRect \<Rightarrow> RegionRect \<Rightarrow> u8 list" where
  "encode_query_extents_reply byte_order sequence bounding_shaped clip_shaped bounding clip =
     write_u32 byte_order
       (write_rect byte_order
         (write_rect byte_order
           (write_u16 byte_order
             (fixed_reply byte_order sequence 0 0 @ [u8_of_bool bounding_shaped, u8_of_bool clip_shaped]) 0)
           bounding) clip) 0"

definition encode_input_selected_reply :: "ClientByteOrder \<Rightarrow> u16 \<Rightarrow> bool \<Rightarrow> u8 list" where
  "encode_input_selected_reply byte_order sequence enabled =
     fixed_reply byte_order sequence (u8_of_bool enabled) 0 @ replicate 24 0"

definition encode_get_rectangles_reply :: "ClientByteOrder \<Rightarrow> u16 \<Rightarrow> u8 \<Rightarrow> RegionRect list \<Rightarrow> u8 list" where
  "encode_get_rectangles_reply byte_order sequence order rects =
     foldl (write_rect byte_order)
       (write_u32 byte_order (fixed_reply byte_order sequence order (of_nat (length rects * 2)))
          (of_nat (length rects)) @ replicate 20 0) rects"

section \<open>The shapes of a window\<close>

definition default_shape_rect :: "ServerState \<Rightarrow> ResourceId \<Rightarrow> u8 \<Rightarrow> RegionRect" where
  "default_shape_rect st w kind =
     (case window (st_resources st) w of
        None \<Rightarrow> \<lparr>rect_x = 0, rect_y = 0, rect_width = 0, rect_height = 0\<rparr>
      | Some v \<Rightarrow>
          if kind = KIND_BOUNDING
          then let bw = i32_of_u16 (win_border_width v)
               in mk_rect (- bw) (- bw) (i32_of_u16 (win_width v) + 2 * bw)
                    (i32_of_u16 (win_height v) + 2 * bw)
          else \<lparr>rect_x = 0, rect_y = 0, rect_width = win_width v, rect_height = win_height v\<rparr>)"

definition shape_set_rects :: "ServerState \<Rightarrow> ResourceId \<Rightarrow> u8 \<Rightarrow> RegionRect list option" where
  "shape_set_rects st w kind =
     (case hm_get (st_shape_windows st) w of None \<Rightarrow> None | Some s \<Rightarrow> shape_rects kind s)"

definition shape_rects_for :: "ServerState \<Rightarrow> ResourceId \<Rightarrow> u8 \<Rightarrow> RegionRect list" where
  "shape_rects_for st w kind =
     (case shape_set_rects st w kind of
        Some rects \<Rightarrow> rects
      | None \<Rightarrow> normalize_region_rects [default_shape_rect st w kind])"

definition shape_mask_source_rects :: "ServerState \<Rightarrow> ResourceId \<Rightarrow> RegionRect list" where
  "shape_mask_source_rects st source =
     (case pixmap (st_resources st) source of
        None \<Rightarrow> []
      | Some p \<Rightarrow> normalize_region_rects
          [\<lparr>rect_x = 0, rect_y = 0, rect_width = pm_width p, rect_height = pm_height p\<rparr>])"

definition shape_kind_is_set :: "ServerState \<Rightarrow> ResourceId \<Rightarrow> u8 \<Rightarrow> bool" where
  "shape_kind_is_set st w kind \<longleftrightarrow> shape_set_rects st w kind \<noteq> None"

definition apply_shape_op :: "RegionRect list \<Rightarrow> RegionRect list \<Rightarrow> u8 \<Rightarrow> RegionRect list" where
  "apply_shape_op current source op =
     (if op = OP_SET then normalize_region_rects source
      else if op = OP_UNION then union_regions current source
      else if op = OP_INTERSECT then intersect_regions current source
      else if op = OP_SUBTRACT then subtract_regions current source
      else if op = OP_INVERT then normalize_region_rects source
      else current)"

definition set_shape_rects :: "ResourceId \<Rightarrow> u8 \<Rightarrow> RegionRect list \<Rightarrow> ServerState \<Rightarrow> ServerState" where
  "set_shape_rects w kind rects st =
     (let s = unwrap_or (hm_get (st_shape_windows st) w) shape_default
      in st\<lparr>st_shape_windows := hm_insert w
           (unwrap_or (shape_rects_set kind (Some (normalize_region_rects rects)) s) s)
           (st_shape_windows st)\<rparr>)"

definition clear_shape_rects :: "ResourceId \<Rightarrow> u8 \<Rightarrow> ServerState \<Rightarrow> ServerState" where
  "clear_shape_rects w kind st =
     (case hm_get (st_shape_windows st) w of
        None \<Rightarrow> st
      | Some s \<Rightarrow>
          (case shape_rects_set kind None s of
             None \<Rightarrow> st
           | Some s' \<Rightarrow>
               st\<lparr>st_shape_windows :=
                 (if sw_bounding s' = None \<and> sw_clip s' = None \<and> sw_input s' = None
                  then hm_remove w (st_shape_windows st)
                  else hm_insert w s' (st_shape_windows st))\<rparr>))"

text \<open>\<open>set_shape_rectangles\<close> with the host window, the kind and the rectangles.\<close>

type_synonym ShapeCall = "u32 \<times> u8 \<times> RegionRect list"

definition mirror_shape_to_host_state :: "ServerState \<Rightarrow> ResourceId \<Rightarrow> u8 \<Rightarrow> ShapeCall list" where
  "mirror_shape_to_host_state st w kind =
     (if kind \<noteq> KIND_BOUNDING \<and> kind \<noteq> KIND_CLIP \<and> kind \<noteq> KIND_INPUT then []
      else
        (case window (st_resources st) w of
           None \<Rightarrow> []
         | Some v \<Rightarrow>
             (case win_host_xid v of
                None \<Rightarrow> []
              | Some h \<Rightarrow> [(h, kind, shape_rects_for st w kind)])))"

section \<open>The handler\<close>

text \<open>The source region of a Mask request: the pixels of the bitmap where the backend can read them,
  otherwise the extents of the pixmap.\<close>

definition mask_source ::
  "(u32 \<Rightarrow> (u32 \<times> u32 \<times> u8 list) option) \<Rightarrow> ServerState \<Rightarrow> ResourceId \<Rightarrow> RegionRect list" where
  "mask_source read_depth1 st src =
     (case pixmap (st_resources st) src of
        None \<Rightarrow> shape_mask_source_rects st src
      | Some p \<Rightarrow>
          (case pm_host_xid p of
             None \<Rightarrow> shape_mask_source_rects st src
           | Some h \<Rightarrow>
               (case read_depth1 h of
                  None \<Rightarrow> shape_mask_source_rects st src
                | Some (w, ht, bytes) \<Rightarrow> bitmap_to_yx_banded_rects bytes w ht)))"

definition shape_combine ::
  "ResourceId \<Rightarrow> u8 \<Rightarrow> u8 \<Rightarrow> RegionRect list \<Rightarrow> ServerState \<Rightarrow> ServerState \<times> ShapeCall list" where
  "shape_combine w kind op source st =
     (let current = shape_rects_for st w kind;
          st' = set_shape_rects w kind (apply_shape_op current source op) st
      in (st', mirror_shape_to_host_state st' w kind))"

definition shape_offset ::
  "ResourceId \<Rightarrow> u8 \<Rightarrow> i16 \<Rightarrow> i16 \<Rightarrow> ServerState \<Rightarrow> ServerState \<times> ShapeCall list" where
  "shape_offset w kind dx dy st =
     (case hm_get (st_shape_windows st) w of
        None \<Rightarrow> (st, [])
      | Some s \<Rightarrow>
          (case shape_rects kind s of
             None \<Rightarrow> (st, [])
           | Some rects \<Rightarrow>
               (let st' = st\<lparr>st_shape_windows := hm_insert w
                      (unwrap_or (shape_rects_set kind (Some (translate_region dx dy rects)) s) s)
                      (st_shape_windows st)\<rparr>
                in (st', mirror_shape_to_host_state st' w kind))))"

text \<open>The requests that change a shape or a selection.\<close>

definition shape_update ::
  "(u32 \<Rightarrow> (u32 \<times> u32 \<times> u8 list) option) \<Rightarrow> ClientId \<Rightarrow> u8 \<Rightarrow> u8 list \<Rightarrow> ServerState
    \<Rightarrow> ServerState \<times> ShapeCall list" where
  "shape_update read_depth1 client_id minor body st =
     (if minor = 1
      then (case parse_rectangles_request body of
              None \<Rightarrow> (st, [])
            | Some (req, rects) \<Rightarrow>
                shape_combine (rq_dest req) (rq_dest_kind req) (rq_op req)
                  (offset_rects rects (rq_x_off req) (rq_y_off req)) st)
      else if minor = 2
      then (case parse_mask_request body of
              None \<Rightarrow> (st, [])
            | Some req \<Rightarrow>
                if mq_src req = 0
                then (let st' = clear_shape_rects (mq_dest req) (mq_dest_kind req) st
                      in (st', mirror_shape_to_host_state st' (mq_dest req) (mq_dest_kind req)))
                else shape_combine (mq_dest req) (mq_dest_kind req) (mq_op req)
                  (offset_rects (mask_source read_depth1 st (mq_src req)) (mq_x_off req) (mq_y_off req)) st)
      else if minor = 3
      then (case parse_combine_request body of
              None \<Rightarrow> (st, [])
            | Some req \<Rightarrow>
                shape_combine (cq_dest req) (cq_dest_kind req) (cq_op req)
                  (offset_rects (shape_rects_for st (cq_src req) (cq_src_kind req))
                     (cq_x_off req) (cq_y_off req)) st)
      else if minor = 4
      then (case parse_offset_request body of
              None \<Rightarrow> (st, [])
            | Some req \<Rightarrow> shape_offset (oq_dest req) (oq_dest_kind req) (oq_x_off req) (oq_y_off req) st)
      else if minor = 6
      then (case parse_select_input_request body of
              None \<Rightarrow> (st, [])
            | Some req \<Rightarrow>
                let key = (client_id, si_window req)
                in (if si_enable req
                    then st\<lparr>st_shape_select_masks := hm_insert key True (st_shape_select_masks st)\<rparr>
                    else st\<lparr>st_shape_select_masks := hm_remove key (st_shape_select_masks st)\<rparr>, []))
      else (st, []))"

text \<open>The requests with a reply.\<close>

definition shape_query :: "ClientId \<Rightarrow> u16 \<Rightarrow> u8 \<Rightarrow> u8 list \<Rightarrow> ServerState \<Rightarrow> (ClientByteOrder \<Rightarrow> u8 list) option" where
  "shape_query client_id sequence minor body st =
     (if minor = 0 then Some (\<lambda>o'. shape_encode_query_version_reply o' sequence)
      else if minor = 5
      then (let w = unwrap_or (parse_window body) ROOT_WINDOW
            in Some (\<lambda>o'. encode_query_extents_reply o' sequence
                 (shape_kind_is_set st w KIND_BOUNDING) (shape_kind_is_set st w KIND_CLIP)
                 (region_extents (shape_rects_for st w KIND_BOUNDING))
                 (region_extents (shape_rects_for st w KIND_CLIP))))
      else if minor = 7
      then (let w = unwrap_or (parse_window body) ROOT_WINDOW
            in Some (\<lambda>o'. encode_input_selected_reply o' sequence
                 (unwrap_or (hm_get (st_shape_select_masks st) (client_id, w)) False)))
      else if minor = 8
      then (let (w, kind) = unwrap_or (parse_get_rectangles_request body) (ROOT_WINDOW, KIND_BOUNDING)
            in Some (\<lambda>o'. encode_get_rectangles_reply o' sequence ORDERING_YX_BANDED
                 (shape_rects_for st w kind)))
      else None)"

definition handle_shape_request ::
  "(u32 \<Rightarrow> (u32 \<times> u32 \<times> u8 list) option) \<Rightarrow> ClientId \<Rightarrow> u16 \<Rightarrow> RequestHeader \<Rightarrow> u8 list \<Rightarrow> ServerState
    \<Rightarrow> ServerState \<times> ShapeCall list \<times> RequestOutcome" where
  "handle_shape_request read_depth1 client_id sequence header body st =
     (case shape_query client_id sequence (rh_data header) body st of
        Some encode \<Rightarrow> (case send_reply client_id encode st of (st', r) \<Rightarrow> (st', [], r))
      | None \<Rightarrow>
          (case shape_update read_depth1 client_id (rh_data header) body st of
             (st', calls) \<Rightarrow> (st', calls, Handled)))"

end
