(* ===== verification/ShapeClaims.thy ===== *)
theory ShapeClaims
  imports Shapes RegionClaims
begin

text \<open>
  What the SHAPE requests do: the region of the window afterwards as a set of pixels, and the agreement
  of the host window with the server's table after every run of requests.
\<close>

section \<open>One slot changes\<close>

definition shape_kinds :: "u8 list" where
  "shape_kinds = [KIND_BOUNDING, KIND_CLIP, KIND_INPUT]"

lemmas kind_defs = KIND_BOUNDING_def KIND_CLIP_def KIND_INPUT_def

lemma shape_rects_set_Some:
  "shape_rects_set kind r s = Some s' \<Longrightarrow> kind \<in> set shape_kinds \<and>
    shape_rects k s' = (if k = kind then r else shape_rects k s)"
  by (auto simp: shape_rects_set_def shape_rects_def shape_kinds_def kind_defs split: if_splits)

lemma shape_rects_set_None:
  "shape_rects_set kind r s = None \<longleftrightarrow> kind \<notin> set shape_kinds"
  by (auto simp: shape_rects_set_def shape_kinds_def)

lemma shape_rects_default [simp]: "shape_rects k shape_default = None"
  by (simp add: shape_rects_def shape_default_def)

lemma shape_rects_none: "k \<notin> set shape_kinds \<Longrightarrow> shape_rects k s = None"
  by (simp add: shape_rects_def shape_kinds_def)

lemma all_slots_none:
  "sw_bounding s = None \<and> sw_clip s = None \<and> sw_input s = None \<Longrightarrow> shape_rects k s = None"
  by (simp add: shape_rects_def)

lemma shape_set_rects_default:
  "shape_set_rects st w k = shape_rects k (unwrap_or (hm_get (st_shape_windows st) w) shape_default)"
  by (simp add: shape_set_rects_def split: option.splits)

lemma set_shape_rects_get:
  "shape_set_rects (set_shape_rects w kind rects st) w' k =
    (if w' = w \<and> k = kind \<and> kind \<in> set shape_kinds then Some (normalize_region_rects rects)
     else shape_set_rects st w' k)"
proof (cases "shape_rects_set kind (Some (normalize_region_rects rects))
    (unwrap_or (hm_get (st_shape_windows st) w) shape_default)")
  case None
  then have "kind \<notin> set shape_kinds" by (simp add: shape_rects_set_None)
  then show ?thesis
    by (simp add: set_shape_rects_def Let_def None shape_set_rects_default)
next
  case (Some s')
  note shape_rects_set_Some [OF Some]
  then show ?thesis
    by (simp add: set_shape_rects_def Let_def Some shape_set_rects_default)
qed

lemma set_shape_rects_resources [simp]: "st_resources (set_shape_rects w kind rects st) = st_resources st"
  by (simp add: set_shape_rects_def Let_def)

lemma clear_shape_rects_get:
  "shape_set_rects (clear_shape_rects w kind st) w' k =
    (if w' = w \<and> k = kind then None else shape_set_rects st w' k)"
proof (cases "hm_get (st_shape_windows st) w")
  case (Some s)
  show ?thesis
  proof (cases "shape_rects_set kind None s")
    case None
    then have "kind \<notin> set shape_kinds" by (simp add: shape_rects_set_None)
    then show ?thesis
      using shape_rects_none [of kind s] by (simp add: clear_shape_rects_def Some None shape_set_rects_def)
  next
    case set: (Some s')
    have "shape_rects k s' = (if k = kind then None else shape_rects k s)"
      using shape_rects_set_Some [OF set] by blast
    then show ?thesis
      using all_slots_none [of s' k] by (auto simp: clear_shape_rects_def Some set shape_set_rects_def)
  qed
qed (simp add: clear_shape_rects_def shape_set_rects_def)

lemma clear_shape_rects_resources [simp]: "st_resources (clear_shape_rects w kind st) = st_resources st"
  by (simp add: clear_shape_rects_def split: option.splits)

lemma default_shape_rect_resources:
  "st_resources st' = st_resources st \<Longrightarrow> default_shape_rect st' w k = default_shape_rect st w k"
  by (simp add: default_shape_rect_def)

lemma shape_rects_for_cong:
  assumes "st_resources st' = st_resources st" "shape_set_rects st' w k = shape_set_rects st w k"
  shows "shape_rects_for st' w k = shape_rects_for st w k"
  unfolding shape_rects_for_def default_shape_rect_resources [OF assms(1)] assms(2) ..

section \<open>The region afterwards\<close>

text \<open>What the operations of the extension are to do with one pixel.\<close>

definition shape_op_pixel :: "u8 \<Rightarrow> bool \<Rightarrow> bool \<Rightarrow> bool" where
  "shape_op_pixel op cur src \<longleftrightarrow>
     (if op = OP_SET then src
      else if op = OP_UNION then cur \<or> src
      else if op = OP_INTERSECT then cur \<and> src
      else if op = OP_SUBTRACT then cur \<and> \<not> src
      else if op = OP_INVERT then src \<and> \<not> cur
      else cur)"

lemma apply_shape_op_pixels:
  assumes "\<forall>r\<in>set cur. fits r" "\<forall>r\<in>set src. fits r" "op \<noteq> OP_INVERT"
  shows "(in_region (apply_shape_op cur src op) p \<longleftrightarrow> shape_op_pixel op (in_region cur p) (in_region src p)) \<and>
    (\<forall>r\<in>set (apply_shape_op cur src op). fits r)"
  using assms normalize_exact [OF assms(2), of p] union_regions_exact [OF assms(1,2), of p]
    intersect_regions_exact [OF assms(1), of src p] subtract_regions_exact [OF assms(1), of src p]
  unfolding apply_shape_op_def shape_op_pixel_def by simp

text \<open>
  Rectangles, Mask and Combine end in the same step. On regions within the coordinates, the new
  region of the window has exactly the pixels of the operation (Set, Union, Intersect, Subtract), in
  YX-banded form, the host gets this region, and no other region of any window changes.
\<close>

theorem shape_combine_pixels:
  assumes "kind \<in> set shape_kinds" "op \<noteq> OP_INVERT"
    and "list_all fits (shape_rects_for st w kind)" "list_all fits source"
  shows "case shape_combine w kind op source st of (st', calls) \<Rightarrow>
    (in_region (shape_rects_for st' w kind) p \<longleftrightarrow>
       shape_op_pixel op (in_region (shape_rects_for st w kind) p) (in_region source p)) \<and>
    yx_banded (shape_rects_for st' w kind) \<and>
    (\<forall>w' k. if (w', k) = (w, kind) then True else shape_rects_for st' w' k = shape_rects_for st w' k) \<and>
    (\<forall>v h. if window (st_resources st) w = Some v \<and> win_host_xid v = Some h
       then calls = [(h, kind, shape_rects_for st' w kind)] else True)"
proof -
  define rects where "rects = apply_shape_op (shape_rects_for st w kind) source op"
  define st' where "st' = set_shape_rects w kind rects st"
  have run: "shape_combine w kind op source st = (st', mirror_shape_to_host_state st' w kind)"
    by (simp add: shape_combine_def rects_def st'_def Let_def)
  have fits: "\<forall>r\<in>set (shape_rects_for st w kind). fits r" "\<forall>r\<in>set source. fits r"
    using assms(3,4) by (simp_all add: list_all_iff)
  note op = apply_shape_op_pixels [OF fits assms(2), folded rects_def]
  have get: "shape_rects_for st' w kind = normalize_region_rects rects"
    using assms(1) by (simp add: shape_rects_for_def st'_def set_shape_rects_get)
  have "in_region (shape_rects_for st' w kind) p \<longleftrightarrow>
      shape_op_pixel op (in_region (shape_rects_for st w kind) p) (in_region source p)"
    unfolding get using normalize_exact [OF op [THEN conjunct2], of p] op [of p] by blast
  moreover have "yx_banded (shape_rects_for st' w kind)"
    unfolding get using normalize_exact [OF op [THEN conjunct2], of p] by blast
  moreover have "shape_rects_for st' w' k = shape_rects_for st w' k" if "(w', k) \<noteq> (w, kind)" for w' k
    using that by (intro shape_rects_for_cong) (auto simp: st'_def set_shape_rects_get)
  moreover have "mirror_shape_to_host_state st' w kind = [(h, kind, shape_rects_for st' w kind)]"
    if "window (st_resources st) w = Some v \<and> win_host_xid v = Some h" for v h
    using that assms(1) by (auto simp: mirror_shape_to_host_state_def st'_def shape_kinds_def)
  ultimately show ?thesis unfolding run by auto
qed

text \<open>A window of 10 by 10 pixels without a shape gets the left half of it.\<close>

definition shape_window :: Window where
  "shape_window = root_window\<lparr>win_id := 0x200001, win_width := 10, win_height := 10, win_host_xid := Some 77\<rparr>"

definition shape_state :: ServerState where
  "shape_state = server_new\<lparr>st_resources := (st_resources server_new)
     \<lparr>rt_windows := hm_insert 0x200001 shape_window (rt_windows (st_resources server_new))\<rparr>\<rparr>"

definition left_half :: RegionRect where
  "left_half = \<lparr>rect_x = 0, rect_y = 0, rect_width = 5, rect_height = 10\<rparr>"

lemma shape_state_rects:
  "shape_rects_for shape_state 0x200001 KIND_BOUNDING =
    [\<lparr>rect_x = 0, rect_y = 0, rect_width = 10, rect_height = 10\<rparr>]"
  by code_simp

theorem shape_combine_pixels_witness:
  "case shape_combine 0x200001 KIND_BOUNDING OP_INTERSECT [left_half] shape_state of (st', calls) \<Rightarrow>
     in_region (shape_rects_for st' 0x200001 KIND_BOUNDING) (4, 9) \<and>
     \<not> in_region (shape_rects_for st' 0x200001 KIND_BOUNDING) (5, 9) \<and>
     calls = [(77, KIND_BOUNDING, shape_rects_for st' 0x200001 KIND_BOUNDING)]"
proof -
  have f: "list_all fits (shape_rects_for shape_state 0x200001 KIND_BOUNDING)" "list_all fits [left_half]"
    unfolding shape_state_rects by (simp_all add: fits_def edge_defs left_half_def)
  have k: "KIND_BOUNDING \<in> set shape_kinds" "OP_INTERSECT \<noteq> OP_INVERT"
    by (simp_all add: shape_kinds_def OP_INTERSECT_def OP_INVERT_def)
  have w: "window (st_resources shape_state) 0x200001 = Some shape_window" "win_host_xid shape_window = Some 77"
    by (simp_all add: window_def shape_state_def shape_window_def)
  obtain st' calls where r: "shape_combine 0x200001 KIND_BOUNDING OP_INTERSECT [left_half] shape_state = (st', calls)"
    by (cases "shape_combine 0x200001 KIND_BOUNDING OP_INTERSECT [left_half] shape_state")
  note run = shape_combine_pixels [OF k f, unfolded r prod.case]
  have "in_region (shape_rects_for st' 0x200001 KIND_BOUNDING) p \<longleftrightarrow>
      0 \<le> fst p \<and> fst p < 5 \<and> 0 \<le> snd p \<and> snd p < 10" for p
    using run [THEN conjunct1, of p] unfolding shape_state_rects
    by (auto simp: shape_op_pixel_def OP_INTERSECT_def OP_SET_def OP_UNION_def covers_def edge_defs left_half_def)
  moreover have "calls = [(77, KIND_BOUNDING, shape_rects_for st' 0x200001 KIND_BOUNDING)]"
    using run [THEN conjunct2, THEN conjunct2, THEN conjunct2, THEN spec, THEN spec, of shape_window 77] w by simp
  ultimately show ?thesis unfolding r by simp
qed

text \<open>
  Invert is to keep the part of the source outside the present region. The code takes the whole
  source: a pixel in both stays.
\<close>

theorem shape_invert_keeps_overlap:
  assumes "list_all fits (shape_rects_for st w kind)" "list_all fits source"
    and "in_region (shape_rects_for st w kind) p" "in_region source p"
  shows "in_region (apply_shape_op (shape_rects_for st w kind) source OP_INVERT) p \<and>
    \<not> shape_op_pixel OP_INVERT (in_region (shape_rects_for st w kind) p) (in_region source p)"
  using normalize_exact [of source p] assms
  by (simp add: apply_shape_op_def shape_op_pixel_def list_all_iff OP_INVERT_def OP_SET_def OP_UNION_def
      OP_INTERSECT_def OP_SUBTRACT_def)

theorem shape_invert_keeps_overlap_witness:
  "in_region (apply_shape_op (shape_rects_for shape_state 0x200001 KIND_BOUNDING) [left_half] OP_INVERT) (0, 0)"
  using shape_invert_keeps_overlap [of shape_state "0x200001" KIND_BOUNDING "[left_half]" "(0, 0)"]
  unfolding shape_state_rects by (simp add: fits_def covers_def edge_defs left_half_def)

section \<open>The host follows the table\<close>

text \<open>The shapes a host keeps: of each window and kind the last ones it was given.\<close>

definition host_shapes :: "ShapeCall list \<Rightarrow> (u32 \<times> u8, RegionRect list) hashmap" where
  "host_shapes calls = foldl (\<lambda>m (h, kind, rects). hm_insert (h, kind) rects m) [] calls"

fun shape_run ::
  "(u32 \<Rightarrow> (u32 \<times> u32 \<times> u8 list) option) \<Rightarrow> (ClientId \<times> u8 \<times> u8 list) list
    \<Rightarrow> ServerState \<times> ShapeCall list \<Rightarrow> ServerState \<times> ShapeCall list" where
  "shape_run read_depth1 [] s = s"
| "shape_run read_depth1 ((client_id, minor, body) # reqs) (st, calls) =
     (case shape_update read_depth1 client_id minor body st of
        (st', added) \<Rightarrow> shape_run read_depth1 reqs (st', calls @ added))"

definition host_windows_distinct :: "ResourceTable \<Rightarrow> bool" where
  "host_windows_distinct t \<longleftrightarrow> (\<forall>w w' v v' h. window t w = Some v \<and> window t w' = Some v' \<and>
     win_host_xid v = Some h \<and> win_host_xid v' = Some h \<longrightarrow> w = w')"

text \<open>The host has the region of the table, or none where the table has none.\<close>

definition mirrored :: "ServerState \<Rightarrow> ShapeCall list \<Rightarrow> bool" where
  "mirrored st calls \<longleftrightarrow> (\<forall>w v h kind. window (st_resources st) w = Some v \<and> win_host_xid v = Some h \<and>
     kind \<in> set shape_kinds \<longrightarrow>
     (case hm_get (host_shapes calls) (h, kind) of
        Some rects \<Rightarrow> rects = shape_rects_for st w kind
      | None \<Rightarrow> \<not> shape_kind_is_set st w kind))"

lemma host_shapes_append:
  "host_shapes (calls @ [(h, kind, rects)]) = hm_insert (h, kind) rects (host_shapes calls)"
  by (simp add: host_shapes_def)

lemma mirror_cases:
  assumes "window (st_resources st) w = Some v" "win_host_xid v = Some h"
  shows "mirror_shape_to_host_state st w kind =
    (if kind \<in> set shape_kinds then [(h, kind, shape_rects_for st w kind)] else [])"
  using assms by (auto simp: mirror_shape_to_host_state_def shape_kinds_def)

text \<open>A change of one slot, followed by the call of the mirror.\<close>

lemma mirrored_step:
  assumes m: "mirrored st calls" and d: "host_windows_distinct (st_resources st)"
    and r: "st_resources st' = st_resources st"
    and o': "\<And>w' k. (w', k) \<noteq> (w, kind) \<Longrightarrow> shape_set_rects st' w' k = shape_set_rects st w' k"
  shows "mirrored st' (calls @ mirror_shape_to_host_state st' w kind)"
  unfolding mirrored_def
proof (intro allI impI, elim conjE)
  fix w' v h k
  assume w': "window (st_resources st') w' = Some v" and h: "win_host_xid v = Some h"
    and k: "k \<in> set shape_kinds"
  have old: "case hm_get (host_shapes calls) (h, k) of
      Some rects \<Rightarrow> rects = shape_rects_for st w' k | None \<Rightarrow> \<not> shape_kind_is_set st w' k"
    using m w' h k unfolding mirrored_def r by blast
  show "case hm_get (host_shapes (calls @ mirror_shape_to_host_state st' w kind)) (h, k) of
      Some rects \<Rightarrow> rects = shape_rects_for st' w' k | None \<Rightarrow> \<not> shape_kind_is_set st' w' k"
  proof (cases "(w', k) = (w, kind)")
    case True
    then show ?thesis
      using mirror_cases [of st' w v h kind] w' h k by (simp add: host_shapes_append)
  next
    case False
    have keep: "shape_rects_for st' w' k = shape_rects_for st w' k"
        "shape_kind_is_set st' w' k = shape_kind_is_set st w' k"
      using shape_rects_for_cong [OF r o' [OF False]] o' [OF False] by (simp_all add: shape_kind_is_set_def)
    have "hm_get (host_shapes (calls @ mirror_shape_to_host_state st' w kind)) (h, k) =
        hm_get (host_shapes calls) (h, k)"
    proof (cases "\<exists>u g. window (st_resources st') w = Some u \<and> win_host_xid u = Some g \<and> kind \<in> set shape_kinds")
      case True
      then obtain u g where u: "window (st_resources st') w = Some u" "win_host_xid u = Some g"
          "kind \<in> set shape_kinds" by blast
      have "(h, k) \<noteq> (g, kind)"
        using d w' h u False unfolding host_windows_distinct_def r by blast
      then show ?thesis using mirror_cases [OF u(1,2), of kind] u(3) by (auto simp: host_shapes_append)
    next
      case False
      then have "mirror_shape_to_host_state st' w kind = []"
        by (auto simp: mirror_shape_to_host_state_def shape_kinds_def split: option.splits)
      then show ?thesis by simp
    qed
    then show ?thesis using old unfolding keep by simp
  qed
qed

lemma mirrored_combine:
  assumes "mirrored st calls" "host_windows_distinct (st_resources st)"
    and "shape_combine w kind op source st = (st', added)"
  shows "mirrored st' (calls @ added) \<and> st_resources st' = st_resources st"
proof -
  have s: "st' = set_shape_rects w kind (apply_shape_op (shape_rects_for st w kind) source op) st"
      "added = mirror_shape_to_host_state st' w kind"
    using assms(3) by (auto simp: shape_combine_def Let_def)
  show ?thesis
    unfolding s(2) using assms(1,2) by (intro conjI mirrored_step) (auto simp: s(1) set_shape_rects_get)
qed

lemma mirrored_clear:
  assumes "mirrored st calls" "host_windows_distinct (st_resources st)" "st' = clear_shape_rects w kind st"
  shows "mirrored st' (calls @ mirror_shape_to_host_state st' w kind)"
  using assms(1,2) by (rule mirrored_step) (auto simp: assms(3) clear_shape_rects_get)

lemma mirrored_offset:
  assumes "mirrored st calls" "host_windows_distinct (st_resources st)"
    and "shape_offset w kind dx dy st = (st', added)"
  shows "mirrored st' (calls @ added) \<and> st_resources st' = st_resources st"
proof (cases "shape_set_rects st w kind")
  case None
  then have "st' = st \<and> added = []"
    using assms(3) by (auto simp: shape_offset_def shape_set_rects_def split: option.splits)
  then show ?thesis using assms(1) by simp
next
  case (Some rects)
  then obtain s where s: "hm_get (st_shape_windows st) w = Some s" "shape_rects kind s = Some rects"
    by (auto simp: shape_set_rects_def split: option.splits)
  have "shape_rects_set kind (Some (translate_region dx dy rects)) s \<noteq> None"
    using s(2) shape_rects_none [of kind s] by (auto simp: shape_rects_set_None)
  then obtain s' where s': "shape_rects_set kind (Some (translate_region dx dy rects)) s = Some s'" by blast
  have st': "st' = st\<lparr>st_shape_windows := hm_insert w s' (st_shape_windows st)\<rparr>"
      "added = mirror_shape_to_host_state st' w kind"
    using assms(3) s s' by (auto simp: shape_offset_def Let_def)
  have "shape_rects k s' = (if k = kind then Some (translate_region dx dy rects) else shape_rects k s)" for k
    using shape_rects_set_Some [OF s'] by blast
  then show ?thesis
    unfolding st'(2) using assms(1,2)
    by (intro conjI mirrored_step) (auto simp: st'(1) shape_set_rects_def s)
qed

lemma shape_update_cases:
  obtains (combine) w kind op source where "shape_update rd i minor body st = shape_combine w kind op source st"
  | (clear) w kind where "shape_update rd i minor body st =
      (clear_shape_rects w kind st, mirror_shape_to_host_state (clear_shape_rects w kind st) w kind)"
  | (offset) w kind dx dy where "shape_update rd i minor body st = shape_offset w kind dx dy st"
  | (other) m where "shape_update rd i minor body st = (st\<lparr>st_shape_select_masks := m\<rparr>, [])"
proof -
  have same: thesis if "shape_update rd i minor body st = (st, [])"
    using other [of "st_shape_select_masks st"] that by simp
  consider "minor = 1" | "minor = 2" | "minor = 3" | "minor = 4" | "minor = 6"
    | "minor \<notin> {1, 2, 3, 4, 6}" by blast
  then show thesis
  proof cases
    case 1
    then show ?thesis
      by (cases "parse_rectangles_request body") (auto simp: shape_update_def intro: combine same)
  next
    case 2
    show ?thesis
    proof (cases "parse_mask_request body")
      case None
      with 2 show ?thesis by (auto simp: shape_update_def intro: same)
    next
      case (Some req)
      with 2 show ?thesis
        by (cases "mq_src req = 0") (auto simp: shape_update_def Let_def intro: clear combine)
    qed
  next
    case 3
    then show ?thesis
      by (cases "parse_combine_request body") (auto simp: shape_update_def intro: combine same)
  next
    case 4
    then show ?thesis
      by (cases "parse_offset_request body") (auto simp: shape_update_def intro: offset same)
  next
    case 5
    show ?thesis
    proof (cases "parse_select_input_request body")
      case None
      with 5 show ?thesis by (auto simp: shape_update_def intro: same)
    next
      case (Some req)
      with 5 show ?thesis
        by (cases "si_enable req") (auto simp: shape_update_def Let_def intro: other)
    qed
  next
    case 6
    then show ?thesis by (intro same) (auto simp: shape_update_def)
  qed
qed

lemma mirrored_update:
  assumes "mirrored st calls" "host_windows_distinct (st_resources st)"
    and "shape_update rd i minor body st = (st', added)"
  shows "mirrored st' (calls @ added) \<and> st_resources st' = st_resources st"
proof (rule shape_update_cases [of rd i minor body st])
  fix w kind op source
  assume "shape_update rd i minor body st = shape_combine w kind op source st"
  then show ?thesis using mirrored_combine [OF assms(1,2)] assms(3) by metis
next
  fix w kind
  assume "shape_update rd i minor body st =
      (clear_shape_rects w kind st, mirror_shape_to_host_state (clear_shape_rects w kind st) w kind)"
  then have "st' = clear_shape_rects w kind st" "added = mirror_shape_to_host_state st' w kind"
    using assms(3) by simp_all
  then show ?thesis using mirrored_clear [OF assms(1,2)] by simp
next
  fix w kind dx dy
  assume "shape_update rd i minor body st = shape_offset w kind dx dy st"
  then show ?thesis using mirrored_offset [OF assms(1,2)] assms(3) by metis
next
  fix m
  assume "shape_update rd i minor body st = (st\<lparr>st_shape_select_masks := m\<rparr>, [])"
  then have st': "st' = st\<lparr>st_shape_select_masks := m\<rparr>" "added = []" using assms(3) by simp_all
  have same: "shape_set_rects st' w k = shape_set_rects st w k" for w k
    by (simp add: st' shape_set_rects_def)
  have "shape_rects_for st' = shape_rects_for st" "shape_kind_is_set st' = shape_kind_is_set st"
    using same shape_rects_for_cong [of st' st] by (auto simp: st' shape_kind_is_set_def fun_eq_iff)
  moreover have "st_resources st' = st_resources st" by (simp add: st')
  ultimately show ?thesis using assms(1) unfolding mirrored_def st'(2) append_Nil2 by (simp only: simp_thms)
qed

lemma mirrored_run:
  "mirrored st calls \<Longrightarrow> host_windows_distinct (st_resources st) \<Longrightarrow>
    mirrored (fst (shape_run rd reqs (st, calls))) (snd (shape_run rd reqs (st, calls)))"
proof (induction reqs arbitrary: st calls)
  case (Cons req reqs)
  obtain i minor body where req: "req = (i, minor, body)" by (cases req)
  obtain st' added where u: "shape_update rd i minor body st = (st', added)"
    by (cases "shape_update rd i minor body st")
  note step = mirrored_update [OF Cons.prems u]
  then show ?case using Cons.IH [of st' "calls @ added"] Cons.prems by (simp add: req u)
qed simp

text \<open>
  Claim C25. Start with no shapes and a host that has none, and with windows that have host windows of their own.
  After any sequence of SHAPE requests of any clients, with any contents and whatever the backend reads
  of the bitmaps, the host shape of every window and kind is the one of the table; a kind the host was
  never given a region of has none in the table.
\<close>

theorem shape_requests_mirrored:
  assumes "host_windows_distinct (st_resources st)" "st_shape_windows st = []"
    and "shape_run rd reqs (st, []) = (st', calls)"
    and "window (st_resources st') w = Some v" "win_host_xid v = Some h"
    and "kind \<in> set shape_kinds"
  shows "case hm_get (host_shapes calls) (h, kind) of
      Some rects \<Rightarrow> rects = shape_rects_for st' w kind
    | None \<Rightarrow> \<not> shape_kind_is_set st' w kind"
proof -
  have "mirrored st []"
    by (simp add: mirrored_def host_shapes_def shape_kind_is_set_def shape_set_rects_def assms(2))
  then have "mirrored st' calls" using mirrored_run [OF _ assms(1)] assms(3) by (metis fst_conv snd_conv)
  then show ?thesis using assms(4-6) unfolding mirrored_def by blast
qed

text \<open>Rectangles with one rectangle, then Offset by (1, 2).\<close>

theorem shape_requests_mirrored_witness:
  "hm_get (host_shapes (snd (shape_run (\<lambda>_. None)
      [(1, 1, [0, 0, 0, 0, 1, 0, 0x20, 0, 0, 0, 0, 0, 0, 0, 0, 0, 5, 0, 10, 0]),
       (1, 4, [0, 0, 0, 0, 1, 0, 0x20, 0, 1, 0, 2, 0])] (shape_state, [])))) (77, KIND_BOUNDING)
    = Some [\<lparr>rect_x = 1, rect_y = 2, rect_width = 5, rect_height = 10\<rparr>]"
  (is "hm_get (host_shapes (snd ?run)) _ = _")
proof -
  obtain st' calls where r: "?run = (st', calls)" by (cases ?run)
  have d: "host_windows_distinct (st_resources shape_state)"
    by (auto simp: host_windows_distinct_def window_def shape_state_def shape_window_def server_new_def
        default_table_def root_window_def hm_get_Cons split: if_splits)
  have e: "st_shape_windows shape_state = []" by (simp add: shape_state_def server_new_def)
  have vals: "win_host_xid (the (window (st_resources (fst ?run)) 0x200001)) = Some 77"
      "window (st_resources (fst ?run)) 0x200001 \<noteq> None"
      "shape_set_rects (fst ?run) 0x200001 KIND_BOUNDING =
        Some [\<lparr>rect_x = 1, rect_y = 2, rect_width = 5, rect_height = 10\<rparr>]"
    by code_simp+
  then obtain v where v: "window (st_resources st') 0x200001 = Some v" "win_host_xid v = Some 77"
    unfolding r by auto
  have "KIND_BOUNDING \<in> set shape_kinds" by (simp add: shape_kinds_def)
  note claim = shape_requests_mirrored [OF d e r v this]
  moreover have "shape_set_rects st' 0x200001 KIND_BOUNDING =
        Some [\<lparr>rect_x = 1, rect_y = 2, rect_width = 5, rect_height = 10\<rparr>]"
    using vals(3) unfolding r by simp
  ultimately show ?thesis
    unfolding r by (auto simp: shape_rects_for_def shape_kind_is_set_def split: option.splits)
qed

end
