(* ===== verification/XFixes.thy ===== *)
theory XFixes
  imports Shapes GcState
begin

text \<open>
  The XFIXES extension: the requests and replies of \<open>crates/xserver-protocol/src/x11/xfixes.rs\<close> and
  \<open>handle_xfixes_request\<close> of \<open>crates/xserver-core/src/core_loop/process_request.rs\<close>.

  The parsers of pairs, triplets and structures are written out at their uses through the offsets
  they read. The backend is the record \<open>XFixesBackend\<close> of what it answers and the list of the calls it
  gets; the results of these calls are ignored by the code.
\<close>

section \<open>Requests\<close>

definition parse_u32_pair :: "u8 list \<Rightarrow> (u32 \<times> u32) option" where
  "parse_u32_pair body = (if length body < 8 then None else Some (u32_le_at body 0, u32_le_at body 4))"

definition parse_u32_triplet :: "u8 list \<Rightarrow> (u32 \<times> u32 \<times> u32) option" where
  "parse_u32_triplet body =
     (if length body < 12 then None
      else Some (u32_le_at body 0, u32_le_at body 4, u32_le_at body 8))"

definition parse_create_region :: "u8 list \<Rightarrow> (u32 \<times> RegionRect list) option" where
  "parse_create_region body =
     (if length body < 4 then None else Some (u32_le_at body 0, parse_rectangles (drop 4 body)))"

definition parse_create_region_from_window :: "u8 list \<Rightarrow> (u32 \<times> u32 \<times> u8) option" where
  "parse_create_region_from_window body =
     (if length body < 12 then None else Some (u32_le_at body 0, u32_le_at body 4, body ! 8))"

definition parse_translate_region :: "u8 list \<Rightarrow> (u32 \<times> i16 \<times> i16) option" where
  "parse_translate_region body =
     (if length body < 8 then None
      else Some (u32_le_at body 0, u16_le_at body 4, u16_le_at body 6))"

definition parse_invert_region :: "u8 list \<Rightarrow> (u32 \<times> RegionRect \<times> u32) option" where
  "parse_invert_region body =
     (if length body < 16 then None
      else Some (u32_le_at body 0, rect_le_at body 4, u32_le_at body 12))"

text \<open>Mode, target, map and window.\<close>

definition parse_change_save_set :: "u8 list \<Rightarrow> (u8 \<times> u8 \<times> u8 \<times> u32) option" where
  "parse_change_save_set body =
     (if length body < 8 then None else Some (body ! 0, body ! 1, body ! 2, u32_le_at body 4))"

text \<open>Context or picture, region and origin.\<close>

definition parse_set_clip_region :: "u8 list \<Rightarrow> (u32 \<times> u32 \<times> i16 \<times> i16) option" where
  "parse_set_clip_region body =
     (if length body < 12 then None
      else Some (u32_le_at body 0, u32_le_at body 4, u16_le_at body 8, u16_le_at body 10))"

text \<open>Destination, kind, offset and region.\<close>

definition parse_set_window_shape_region :: "u8 list \<Rightarrow> (u32 \<times> u8 \<times> i16 \<times> i16 \<times> u32) option" where
  "parse_set_window_shape_region body =
     (if length body < 16 then None
      else Some (u32_le_at body 0, body ! 4, u16_le_at body 8, u16_le_at body 10, u32_le_at body 12))"

definition parse_change_cursor_by_name :: "u8 list \<Rightarrow> (u32 \<times> u8 list) option" where
  "parse_change_cursor_by_name body =
     (if length body < 8 then None
      else
        let nbytes = unat (u16_le_at body 4)
        in if length body < 8 + nbytes then None else Some (u32_le_at body 0, take nbytes (drop 8 body)))"

section \<open>Replies\<close>

definition xfixes_encode_query_version_reply :: "ClientByteOrder \<Rightarrow> u16 \<Rightarrow> u32 \<Rightarrow> u32 \<Rightarrow> u8 list" where
  "xfixes_encode_query_version_reply byte_order sequence major minor =
     write_u32 byte_order (write_u32 byte_order (fixed_reply byte_order sequence 0 0) major) minor
       @ replicate 16 0"

record ActiveCursorImage =
  img_width :: u16
  img_height :: u16
  img_hot_x :: u16
  img_hot_y :: u16
  img_x :: i16
  img_y :: i16
  img_serial :: u32
  img_bgra_bytes :: "u8 list"

definition no_cursor_image :: ActiveCursorImage where
  "no_cursor_image = \<lparr>img_width = 0, img_height = 0, img_hot_x = 0, img_hot_y = 0, img_x = 0,
     img_y = 0, img_serial = 0, img_bgra_bytes = []\<rparr>"

definition premultiply :: "u8 \<Rightarrow> u8 \<Rightarrow> u8" where
  "premultiply c a =
     (let prod = ucast c * ucast a + 127 :: u16
      in ucast (drop_bit 8 (prod + drop_bit 8 prod)))"

definition premultiplied_argb :: "u8 \<Rightarrow> u8 \<Rightarrow> u8 \<Rightarrow> u8 \<Rightarrow> u32" where
  "premultiplied_argb b g r a =
     push_bit 24 (ucast a) OR push_bit 16 (ucast (premultiply r a)) OR
     push_bit 8 (ucast (premultiply g a)) OR ucast (premultiply b a)"

fun append_premultiplied_argb :: "ClientByteOrder \<Rightarrow> u8 list \<Rightarrow> u8 list \<Rightarrow> u8 list" where
  "append_premultiplied_argb byte_order out (b # g # r # a # pixels) =
     append_premultiplied_argb byte_order (write_u32 byte_order out (premultiplied_argb b g r a)) pixels"
| "append_premultiplied_argb byte_order out pixels = out"

text \<open>The position, the size, the hot spot and the serial of the cursor.\<close>

definition write_cursor_fields :: "ClientByteOrder \<Rightarrow> u8 list \<Rightarrow> ActiveCursorImage \<Rightarrow> u8 list" where
  "write_cursor_fields byte_order out img =
     write_u32 byte_order
       (foldl (write_u16 byte_order) out
          [img_x img, img_y img, img_width img, img_height img, img_hot_x img, img_hot_y img])
       (img_serial img)"

definition pixel_count :: "ActiveCursorImage \<Rightarrow> nat" where
  "pixel_count img = unat (img_width img) * unat (img_height img)"

definition encode_get_cursor_image_reply :: "ClientByteOrder \<Rightarrow> u16 \<Rightarrow> ActiveCursorImage \<Rightarrow> u8 list" where
  "encode_get_cursor_image_reply byte_order sequence img =
     append_premultiplied_argb byte_order
       (write_cursor_fields byte_order (fixed_reply byte_order sequence 0 (of_nat (pixel_count img))) img
          @ replicate 8 0)
       (img_bgra_bytes img)"

definition encode_get_cursor_image_empty_reply :: "ClientByteOrder \<Rightarrow> u16 \<Rightarrow> u8 list" where
  "encode_get_cursor_image_empty_reply byte_order sequence =
     write_cursor_fields byte_order (fixed_reply byte_order sequence 0 0) no_cursor_image @ replicate 8 0"

text \<open>\<open>Vec::resize\<close> cuts the vector or fills it up with zeros.\<close>

definition vec_resize :: "nat \<Rightarrow> u8 list \<Rightarrow> u8 list" where
  "vec_resize n v = take n v @ replicate (n - length v) 0"

definition encode_get_cursor_image_and_name_reply ::
  "ClientByteOrder \<Rightarrow> u16 \<Rightarrow> ActiveCursorImage \<Rightarrow> u32 \<Rightarrow> u8 list \<Rightarrow> u8 list" where
  "encode_get_cursor_image_and_name_reply byte_order sequence img cursor_atom name =
     (let name_padded = (length name + 3) div 4 * 4;
          payload_bytes = pixel_count img * 4;
          head = write_u16 byte_order (write_u16 byte_order (write_u32 byte_order
            (write_cursor_fields byte_order
              (fixed_reply byte_order sequence 0 (of_nat (pixel_count img + name_padded div 4))) img)
            cursor_atom) (of_nat (length name))) 0
      in vec_resize (32 + payload_bytes + name_padded)
           (append_premultiplied_argb byte_order head (img_bgra_bytes img) @ name))"

definition encode_get_cursor_name_reply :: "ClientByteOrder \<Rightarrow> u16 \<Rightarrow> u32 \<Rightarrow> u8 list \<Rightarrow> u8 list" where
  "encode_get_cursor_name_reply byte_order sequence atom name =
     (let nbytes = length name; pad = (4 - nbytes mod 4) mod 4
      in write_u16 byte_order
           (write_u32 byte_order (fixed_reply byte_order sequence 0 (of_nat ((nbytes + pad) div 4))) atom)
           (of_nat (min nbytes 65535)) @ replicate 18 0 @ name @ replicate pad 0)"

definition encode_fetch_region_reply ::
  "ClientByteOrder \<Rightarrow> u16 \<Rightarrow> RegionRect \<Rightarrow> RegionRect list \<Rightarrow> u8 list" where
  "encode_fetch_region_reply byte_order sequence extents rects =
     foldl (write_rect byte_order)
       (write_rect byte_order (fixed_reply byte_order sequence 0 (of_nat (length rects * 2))) extents
          @ replicate 16 0) rects"

section \<open>The requests on regions\<close>

definition XFIXES_MAJOR_OPCODE :: u8 where "XFIXES_MAJOR_OPCODE = 140"
definition RENDER_FIRST_ERROR :: u8 where "RENDER_FIRST_ERROR = 152"
definition SELECTION_ALL_EVENTS_MASK :: u32 where "SELECTION_ALL_EVENTS_MASK = 7"

definition xfixes_region_xid_already_taken :: "ServerState \<Rightarrow> u32 \<Rightarrow> bool" where
  "xfixes_region_xid_already_taken st rid \<longleftrightarrow>
     hm_contains (st_xfixes_regions st) rid \<or> xid_in_use (st_resources st) rid"

definition xid_out_of_client_range :: "ServerState \<Rightarrow> ClientId \<Rightarrow> u32 \<Rightarrow> bool" where
  "xid_out_of_client_range st client_id xid =
     (case hm_get (st_clients st) client_id of
        None \<Rightarrow> False
      | Some c \<Rightarrow> xid AND NOT (cs_resource_id_mask c) \<noteq> cs_resource_id_base c)"

definition insert_region :: "u32 \<Rightarrow> ClientId \<Rightarrow> RegionRect list \<Rightarrow> ServerState \<Rightarrow> ServerState" where
  "insert_region i owner rects st =
     st\<lparr>st_xfixes_regions := hm_insert i \<lparr>xr_owner = owner, xr_rects = rects\<rparr> (st_xfixes_regions st)\<rparr>"

definition region_rects :: "ServerState \<Rightarrow> u32 \<Rightarrow> RegionRect list" where
  "region_rects st i = (case hm_get (st_xfixes_regions st) i of None \<Rightarrow> [] | Some r \<Rightarrow> xr_rects r)"

text \<open>What the backend answers: the picture's client clip and the cursor that is shown.\<close>

record XFixesBackend =
  be_read_depth1 :: "u32 \<Rightarrow> (u32 \<times> u32 \<times> u8 list) option"
  be_picture_client_clip_rects :: "u32 \<Rightarrow> RegionRect list option option"
  be_active_cursor_image :: "ActiveCursorImage option"

datatype XFixesHostCall =
    HostSetShape ShapeCall
  | HostChangePicture u32 "u8 list"
  | HostSetPictureClip u32 "u8 list"
  | HostChangeCursorByName u32 "u8 list"

definition xfixes_error :: "ClientId \<Rightarrow> u16 \<Rightarrow> u8 \<Rightarrow> u32 \<Rightarrow> ServerState \<Rightarrow> ServerState \<times> RequestOutcome" where
  "xfixes_error client_id sequence code bad_value st =
     emit_x11_error client_id sequence code bad_value XFIXES_MAJOR_OPCODE st"

text \<open>CreateRegion and its variants: the source of the rectangles is looked at after the identifier.\<close>

definition create_region_source ::
  "XFixesBackend \<Rightarrow> u8 \<Rightarrow> u8 list \<Rightarrow> ServerState \<Rightarrow> (u8 \<times> u32) + RegionRect list" where
  "create_region_source be minor body st =
     (if minor = 5 then Inr (normalize_region_rects (parse_rectangles (drop 4 body)))
      else if minor = 6 then Inr []
      else
        (let source = u32_le_at body 4 in
         if minor = 8
         then (case gc (st_resources st) source of
                 None \<Rightarrow> Inl (BAD_GC, source)
               | Some g \<Rightarrow>
                   (case gc_clip_rectangles g of
                      None \<Rightarrow> Inl (BAD_MATCH, source)
                    | Some clip \<Rightarrow> Inr (parse_rectangles (clip_rectangles clip))))
         else if minor = 7
         then (let kind = body ! 8 in
               if window (st_resources st) source = None then Inl (BAD_WINDOW, source)
               else if kind > 1 then Inl (BAD_VALUE, ucast kind)
               else Inr (shape_rects_for st source kind))
         else
           (case hm_get (rt_pictures (st_resources st)) source of
              None \<Rightarrow> Inl (RENDER_FIRST_ERROR + 1, source)
            | Some p \<Rightarrow>
                if pict_kind p = PictureSourceless then Inl (RENDER_FIRST_ERROR + 1, source)
                else
                  (case be_picture_client_clip_rects be (pict_host_picture_xid p) of
                     None \<Rightarrow> Inl (BAD_MATCH, source)
                   | Some None \<Rightarrow> Inl (BAD_MATCH, source)
                   | Some (Some rects) \<Rightarrow> Inr (normalize_region_rects rects)))))"

definition create_region_length :: "u8 \<Rightarrow> nat" where
  "create_region_length minor = (if minor = 5 then 4 else if minor = 7 then 12 else 8)"

definition create_region_request ::
  "XFixesBackend \<Rightarrow> ClientId \<Rightarrow> u16 \<Rightarrow> u8 \<Rightarrow> u8 list \<Rightarrow> ServerState \<Rightarrow> ServerState \<times> RequestOutcome" where
  "create_region_request be client_id sequence minor body st =
     (if length body < create_region_length minor then (st, Handled)
      else
        let region = u32_le_at body 0
        in if xfixes_region_xid_already_taken st region \<or> xid_out_of_client_range st client_id region
           then xfixes_error client_id sequence BAD_ID_CHOICE region st
           else
             (case create_region_source be minor body st of
                Inl (code, bad_value) \<Rightarrow> xfixes_error client_id sequence code bad_value st
              | Inr rects \<Rightarrow> (insert_region region client_id rects st, Handled)))"

text \<open>The requests that change regions: DestroyRegion (10), SetRegion (11), CopyRegion (12),
  Union, Intersect, Subtract (13 to 15), InvertRegion (16), TranslateRegion (17), RegionExtents (18).\<close>

definition change_region_request :: "ClientId \<Rightarrow> u8 \<Rightarrow> u8 list \<Rightarrow> ServerState \<Rightarrow> ServerState" where
  "change_region_request client_id minor body st =
     (if minor = 10
      then (if 4 \<le> length body
            then st\<lparr>st_xfixes_regions := hm_remove (u32_le_at body 0) (st_xfixes_regions st)\<rparr>
            else st)
      else if minor = 11
      then (case parse_create_region body of
              None \<Rightarrow> st
            | Some (region, rects) \<Rightarrow>
                insert_region region
                  (case hm_get (st_xfixes_regions st) region of None \<Rightarrow> client_id | Some r \<Rightarrow> xr_owner r)
                  (normalize_region_rects rects) st)
      else if minor = 12
      then (case parse_u32_pair body of
              None \<Rightarrow> st
            | Some (source, dest) \<Rightarrow> insert_region dest client_id (region_rects st source) st)
      else if minor = 13 \<or> minor = 14 \<or> minor = 15
      then (case parse_u32_triplet body of
              None \<Rightarrow> st
            | Some (source1, source2, dest) \<Rightarrow>
                (let a = region_rects st source1; b = region_rects st source2
                 in insert_region dest client_id
                      (if minor = 13 then union_regions a b
                       else if minor = 14 then intersect_regions a b
                       else subtract_regions a b) st))
      else if minor = 16
      then (case parse_invert_region body of
              None \<Rightarrow> st
            | Some (source, bounds, dest) \<Rightarrow>
                insert_region dest client_id
                  (subtract_regions (normalize_region_rects [bounds]) (region_rects st source)) st)
      else if minor = 17
      then (case parse_translate_region body of
              None \<Rightarrow> st
            | Some (region, dx, dy) \<Rightarrow>
                st\<lparr>st_xfixes_regions := hm_modify region
                     (\<lambda>r. r\<lparr>xr_rects := translate_region dx dy (xr_rects r)\<rparr>) (st_xfixes_regions st)\<rparr>)
      else if minor = 18
      then (case parse_u32_pair body of
              None \<Rightarrow> st
            | Some (source, dest) \<Rightarrow>
                insert_region dest client_id
                  (normalize_region_rects [region_extents (region_rects st source)]) st)
      else st)"

section \<open>The uses of regions\<close>

definition rect_le_bytes :: "RegionRect \<Rightarrow> u8 list" where
  "rect_le_bytes r = u16_to_le_bytes (rect_x r) @ u16_to_le_bytes (rect_y r) @
     u16_to_le_bytes (rect_width r) @ u16_to_le_bytes (rect_height r)"

definition set_gc_clip_region :: "u8 list \<Rightarrow> ServerState \<Rightarrow> ServerState" where
  "set_gc_clip_region body st =
     (case parse_set_clip_region body of
        None \<Rightarrow> st
      | Some (g, region, x_origin, y_origin) \<Rightarrow>
          st\<lparr>st_resources :=
            (if region = 0 then clear_gc_clip g (st_resources st)
             else set_clip_rectangles \<lparr>scr_gc = g, scr_clip = \<lparr>clip_ordering = 0,
                 clip_x_origin = x_origin, clip_y_origin = y_origin,
                 clip_rectangles = concat (map rect_le_bytes (region_rects st region))\<rparr>\<rparr>
               (st_resources st))\<rparr>)"

definition set_window_shape_region :: "u8 list \<Rightarrow> ServerState \<Rightarrow> ServerState \<times> XFixesHostCall list" where
  "set_window_shape_region body st =
     (case parse_set_window_shape_region body of
        None \<Rightarrow> (st, [])
      | Some (dest, kind, dx, dy, region) \<Rightarrow>
          (let st' = (if region = 0 then clear_shape_rects dest kind st
                      else set_shape_rects dest kind (offset_rects (region_rects st region) dx dy) st)
           in (st', map HostSetShape (mirror_shape_to_host_state st' dest kind))))"

definition set_picture_clip_region :: "u8 list \<Rightarrow> ServerState \<Rightarrow> XFixesHostCall list" where
  "set_picture_clip_region body st =
     (case parse_set_clip_region body of
        None \<Rightarrow> []
      | Some (pic, region, x_origin, y_origin) \<Rightarrow>
          (case hm_get (rt_pictures (st_resources st)) pic of
             None \<Rightarrow> []
           | Some p \<Rightarrow>
               if region = 0
               then [HostChangePicture (pict_host_picture_xid p)
                       (u32_to_le_bytes pic @ u32_to_le_bytes 0x40 @ u32_to_le_bytes 0)]
               else [HostSetPictureClip (pict_host_picture_xid p)
                       (u32_to_le_bytes pic @ u16_to_le_bytes x_origin @ u16_to_le_bytes y_origin @
                        concat (map rect_le_bytes (region_rects st region)))]))"

section \<open>Selections, save sets and cursors\<close>

definition select_selection_input ::
  "ClientId \<Rightarrow> u16 \<Rightarrow> u8 list \<Rightarrow> ServerState \<Rightarrow> ServerState \<times> RequestOutcome" where
  "select_selection_input client_id sequence body st =
     (case parse_u32_triplet body of
        None \<Rightarrow> (st, Handled)
      | Some (w, selection, event_mask) \<Rightarrow>
          if window (st_resources st) w = None then xfixes_error client_id sequence BAD_WINDOW w st
          else if event_mask AND NOT SELECTION_ALL_EVENTS_MASK \<noteq> 0
          then xfixes_error client_id sequence BAD_VALUE event_mask st
          else
            (let key = (client_id, w, selection)
             in (st\<lparr>st_xfixes_selection_masks :=
                   (if event_mask = 0 then hm_remove key (st_xfixes_selection_masks st)
                    else hm_insert key event_mask (st_xfixes_selection_masks st))\<rparr>, Handled)))"

definition select_cursor_input :: "ClientId \<Rightarrow> u8 list \<Rightarrow> ServerState \<Rightarrow> ServerState" where
  "select_cursor_input client_id body st =
     (case parse_u32_pair body of
        None \<Rightarrow> st
      | Some (w, event_mask) \<Rightarrow>
          st\<lparr>st_xfixes_cursor_masks :=
               (if event_mask = 0 then hm_remove (client_id, w) (st_xfixes_cursor_masks st)
                else hm_insert (client_id, w) event_mask (st_xfixes_cursor_masks st))\<rparr>)"

text \<open>The save set is a hash set; here a list without repetitions.\<close>

definition change_save_set :: "ClientId \<Rightarrow> u8 list \<Rightarrow> ServerState \<Rightarrow> ServerState" where
  "change_save_set client_id body st =
     (case parse_change_save_set body of
        None \<Rightarrow> st
      | Some (mode, target, map_mode, w) \<Rightarrow>
          (case hm_get (st_clients st) client_id of
             None \<Rightarrow> st
           | Some c \<Rightarrow>
               set_client client_id
                 (c\<lparr>cs_save_set :=
                    (if mode = 0 then List.insert w (cs_save_set c)
                     else if mode = 1 then remove1 w (cs_save_set c)
                     else cs_save_set c)\<rparr>) st))"

text \<open>Well-formed UTF-8 (the table of the Unicode standard), as \<open>std::str::from_utf8\<close> accepts it.\<close>

definition utf8_tail :: "u8 \<Rightarrow> bool" where
  "utf8_tail b \<longleftrightarrow> 0x80 \<le> b \<and> b \<le> 0xBF"

fun utf8_valid :: "u8 list \<Rightarrow> bool" where
  "utf8_valid [] = True"
| "utf8_valid (a # rest) =
     (if a < 0x80 then utf8_valid rest
      else
        (case rest of
           [] \<Rightarrow> False
         | b # rest2 \<Rightarrow>
             if 0xC2 \<le> a \<and> a \<le> 0xDF then utf8_tail b \<and> utf8_valid rest2
             else
               (case rest2 of
                  [] \<Rightarrow> False
                | c # rest3 \<Rightarrow>
                    if 0xE0 \<le> a \<and> a \<le> 0xEF
                    then utf8_tail b \<and> (a = 0xE0 \<longrightarrow> 0xA0 \<le> b) \<and> (a = 0xED \<longrightarrow> b \<le> 0x9F) \<and>
                         utf8_tail c \<and> utf8_valid rest3
                    else
                      (case rest3 of
                         [] \<Rightarrow> False
                       | d # rest4 \<Rightarrow>
                           0xF0 \<le> a \<and> a \<le> 0xF4 \<and> utf8_tail b \<and> (a = 0xF0 \<longrightarrow> 0x90 \<le> b) \<and>
                           (a = 0xF4 \<longrightarrow> b \<le> 0x8F) \<and> utf8_tail c \<and> utf8_tail d \<and> utf8_valid rest4))))"

definition bytes_of_string :: "string \<Rightarrow> u8 list" where
  "bytes_of_string s = map of_char s"

definition string_of_bytes :: "u8 list \<Rightarrow> string" where
  "string_of_bytes b = map (\<lambda>x. char_of (unat x)) b"

definition set_cursor_name_request :: "u8 list \<Rightarrow> ServerState \<Rightarrow> ServerState" where
  "set_cursor_name_request body st =
     (case parse_change_cursor_by_name body of
        None \<Rightarrow> st
      | Some (cursor, name) \<Rightarrow>
          (case intern (if utf8_valid name then string_of_bytes name else []) False (st_atoms st) of
             (atoms, atom) \<Rightarrow>
               st\<lparr>st_atoms := atoms, st_resources := set_cursor_name_atom cursor atom (st_resources st)\<rparr>))"

definition cursor_name_of :: "u8 list \<Rightarrow> ServerState \<Rightarrow> AtomId \<times> u8 list" where
  "cursor_name_of body st =
     (let cursor = (if 4 \<le> length body then u32_le_at body 0 else 0);
          atom = unwrap_or (Option.bind (hm_get (rt_cursors (st_resources st)) cursor) cur_name_atom) 0
      in (atom, case atom_name (st_atoms st) atom of None \<Rightarrow> [] | Some n \<Rightarrow> bytes_of_string n))"

definition change_cursor_by_name :: "u8 list \<Rightarrow> ServerState \<Rightarrow> XFixesHostCall list" where
  "change_cursor_by_name body st =
     (case parse_change_cursor_by_name body of
        None \<Rightarrow> []
      | Some (cursor, name) \<Rightarrow>
          (case Option.bind (hm_get (rt_cursors (st_resources st)) cursor) cur_host_xid of
             None \<Rightarrow> []
           | Some h \<Rightarrow> [HostChangeCursorByName h name]))"

section \<open>The handler\<close>

definition xfixes_query ::
  "XFixesBackend \<Rightarrow> u16 \<Rightarrow> u8 \<Rightarrow> u8 list \<Rightarrow> ServerState \<Rightarrow> (ClientByteOrder \<Rightarrow> u8 list) option" where
  "xfixes_query be sequence minor body st =
     (if minor = 0 then Some (\<lambda>o'. xfixes_encode_query_version_reply o' sequence 5 0)
      else if minor = 4
      then Some (\<lambda>o'. case be_active_cursor_image be of
             None \<Rightarrow> encode_get_cursor_image_empty_reply o' sequence
           | Some img \<Rightarrow> encode_get_cursor_image_reply o' sequence img)
      else if minor = 25
      then Some (\<lambda>o'. case be_active_cursor_image be of
             None \<Rightarrow> encode_get_cursor_image_and_name_reply o' sequence no_cursor_image 0 []
           | Some img \<Rightarrow> encode_get_cursor_image_and_name_reply o' sequence img 0 [])
      else if minor = 19
      then (let rects = region_rects st (if 4 \<le> length body then u32_le_at body 0 else 0)
            in Some (\<lambda>o'. encode_fetch_region_reply o' sequence (region_extents rects) rects))
      else if minor = 24
      then (case cursor_name_of body st of
              (atom, name) \<Rightarrow> Some (\<lambda>o'. encode_get_cursor_name_reply o' sequence atom name))
      else None)"

definition xfixes_update ::
  "XFixesBackend \<Rightarrow> ClientId \<Rightarrow> u16 \<Rightarrow> u8 \<Rightarrow> u8 list \<Rightarrow> ServerState
    \<Rightarrow> ServerState \<times> XFixesHostCall list \<times> RequestOutcome" where
  "xfixes_update be client_id sequence minor body st =
     (if minor = 1 then (change_save_set client_id body st, [], Handled)
      else if minor = 2
      then (case select_selection_input client_id sequence body st of (st', r) \<Rightarrow> (st', [], r))
      else if minor = 3 then (select_cursor_input client_id body st, [], Handled)
      else if 5 \<le> minor \<and> minor \<le> 9
      then (case create_region_request be client_id sequence minor body st of (st', r) \<Rightarrow> (st', [], r))
      else if 10 \<le> minor \<and> minor \<le> 18 then (change_region_request client_id minor body st, [], Handled)
      else if minor = 20 then (set_gc_clip_region body st, [], Handled)
      else if minor = 21
      then (case set_window_shape_region body st of (st', calls) \<Rightarrow> (st', calls, Handled))
      else if minor = 22 then (st, set_picture_clip_region body st, Handled)
      else if minor = 23 then (set_cursor_name_request body st, [], Handled)
      else if minor = 27 then (st, change_cursor_by_name body st, Handled)
      else (st, [], Handled))"

definition handle_xfixes_request ::
  "XFixesBackend \<Rightarrow> ClientId \<Rightarrow> u16 \<Rightarrow> RequestHeader \<Rightarrow> u8 list \<Rightarrow> ServerState
    \<Rightarrow> ServerState \<times> XFixesHostCall list \<times> RequestOutcome" where
  "handle_xfixes_request be client_id sequence header body st =
     (case xfixes_query be sequence (rh_data header) body st of
        Some encode \<Rightarrow> (case send_reply client_id encode st of (st', r) \<Rightarrow> (st', [], r))
      | None \<Rightarrow> xfixes_update be client_id sequence (rh_data header) body st)"

end
