(* ===== verification/XFixesClaims.thy ===== *)
theory XFixesClaims
  imports XFixes RegionClaims GcClaims
begin

text \<open>
  The XFIXES regions as sets of pixels: the requests refine the set operations. Further the round trip
  of a region through the clip of a graphics context and the identifiers that CopyRegion accepts.
\<close>

section \<open>Bytes\<close>

lemma u32_le_at_bytes: "u32_le_at (u32_to_le_bytes a @ rest) 0 = a"
  by (simp add: u32_le_at_def u32_to_le_bytes_def u32_from_to_le)

lemma u32_le_at_bytes_4: "u32_le_at (u32_to_le_bytes a @ u32_to_le_bytes b @ rest) 4 = b"
  by (simp add: u32_le_at_def u32_to_le_bytes_def u32_from_to_le)

lemma length_u32_to_le_bytes [simp]: "length (u32_to_le_bytes a) = 4"
  by (simp add: u32_to_le_bytes_def)

lemma length_rect_le_bytes [simp]: "length (rect_le_bytes r) = 8"
  by (simp add: rect_le_bytes_def u16_to_le_bytes_def)

lemma rect_le_at_bytes: "rect_le_at (rect_le_bytes r @ rest) 0 = r"
  by (simp add: rect_le_at_def rect_le_bytes_def u16_le_at_def u16_to_le_bytes_def u16_from_to_le)

lemma parse_rectangles_bytes:
  "list_all (\<lambda>r. \<not> rect_is_empty r) rects \<Longrightarrow> parse_rectangles (concat (map rect_le_bytes rects)) = rects"
proof (induction rects)
  case Nil
  then show ?case by (subst parse_rectangles.simps) simp
next
  case (Cons r rects)
  then show ?case by (subst parse_rectangles.simps) (simp add: rect_le_at_bytes Let_def)
qed

section \<open>Regions as sets\<close>

type_synonym pixels = "(int \<times> int) set"

definition pixels_of :: "RegionRect list \<Rightarrow> pixels" where
  "pixels_of rects = {p. in_region rects p}"

definition abs_regions :: "ServerState \<Rightarrow> u32 \<Rightarrow> pixels option" where
  "abs_regions st i = map_option (\<lambda>r. pixels_of (xr_rects r)) (hm_get (st_xfixes_regions st) i)"

text \<open>The rectangles that enclose a set: no smaller one does.\<close>

definition bounding_box :: "pixels \<Rightarrow> pixels" where
  "bounding_box s = {(x, y). (\<exists>p\<in>s. fst p \<le> x) \<and> (\<exists>p\<in>s. x \<le> fst p) \<and>
     (\<exists>p\<in>s. snd p \<le> y) \<and> (\<exists>p\<in>s. y \<le> snd p)}"

definition shift :: "int \<Rightarrow> int \<Rightarrow> pixels \<Rightarrow> pixels" where
  "shift dx dy s = (\<lambda>(x, y). (x + dx, y + dy)) ` s"

text \<open>What the requests 10 to 18 are to do with a table of pixel sets.\<close>

definition region_spec :: "u8 \<Rightarrow> u8 list \<Rightarrow> (u32 \<Rightarrow> pixels option) \<Rightarrow> u32 \<Rightarrow> pixels option" where
  "region_spec minor body m =
     (let get = (\<lambda>i. case m i of None \<Rightarrow> {} | Some s \<Rightarrow> s);
          a = u32_le_at body 0; b = u32_le_at body 4; c = u32_le_at body 8 in
      if length body < (if minor \<le> 11 then 4 else if minor = 12 \<or> minor = 17 \<or> minor = 18 then 8
           else if minor = 16 then 16 else 12) then m
      else if minor = 10 then m(a := None)
      else if minor = 11 then m(a \<mapsto> pixels_of (parse_rectangles (drop 4 body)))
      else if minor = 12 then m(b \<mapsto> get a)
      else if minor = 13 then m(c \<mapsto> get a \<union> get b)
      else if minor = 14 then m(c \<mapsto> get a \<inter> get b)
      else if minor = 15 then m(c \<mapsto> get a - get b)
      else if minor = 16 then m(u32_le_at body 12 \<mapsto> pixels_of [rect_le_at body 4] - get a)
      else if minor = 17 then m(a := map_option (shift (sint (u16_le_at body 4)) (sint (u16_le_at body 6))) (m a))
      else if minor = 18 then m(b \<mapsto> bounding_box (get a))
      else m)"

definition rect_ok :: "RegionRect \<Rightarrow> bool" where
  "rect_ok r \<longleftrightarrow> fits r \<and> \<not> rect_is_empty r"

definition regions_ok :: "ServerState \<Rightarrow> bool" where
  "regions_ok st \<longleftrightarrow> (\<forall>i r. hm_get (st_xfixes_regions st) i = Some r \<longrightarrow> list_all rect_ok (xr_rects r))"

text \<open>The rectangle stays within the coordinates when it is moved.\<close>

definition moves_within :: "int \<Rightarrow> int \<Rightarrow> RegionRect \<Rightarrow> bool" where
  "moves_within dx dy r \<longleftrightarrow> - 32768 \<le> edge_l r + dx \<and> edge_r r + dx \<le> 32767 \<and>
     - 32768 \<le> edge_t r + dy \<and> edge_b r + dy \<le> 32767"

definition request_within :: "u8 \<Rightarrow> u8 list \<Rightarrow> ServerState \<Rightarrow> bool" where
  "request_within minor body st \<longleftrightarrow>
     (if minor = 11 then list_all fits (parse_rectangles (drop 4 body))
      else if minor = 16 then fits (rect_le_at body 4)
      else if minor = 17 then list_all (moves_within (sint (u16_le_at body 4)) (sint (u16_le_at body 6)))
        (region_rects st (u32_le_at body 0))
      else True)"

lemma pixels_rects: "pixels_of (region_rects st i) = (case abs_regions st i of None \<Rightarrow> {} | Some s \<Rightarrow> s)"
  by (simp add: region_rects_def abs_regions_def pixels_of_def split: option.splits)

lemma regions_ok_rects: "regions_ok st \<Longrightarrow> list_all rect_ok (region_rects st i)"
  by (simp add: regions_ok_def region_rects_def split: option.splits)

lemma rect_ok_fits: "list_all rect_ok rects \<Longrightarrow> \<forall>r\<in>set rects. fits r"
  by (simp add: list_all_iff rect_ok_def)

lemma banded_ok: "yx_banded rects \<Longrightarrow> \<forall>r\<in>set rects. fits r \<Longrightarrow> list_all rect_ok rects"
  by (simp add: yx_banded_def list_all_iff rect_ok_def)

lemma abs_insert: "abs_regions (insert_region i c rects st) = (abs_regions st)(i \<mapsto> pixels_of rects)"
  by (rule ext) (simp add: abs_regions_def insert_region_def)

lemma regions_ok_insert:
  "regions_ok st \<Longrightarrow> list_all rect_ok rects \<Longrightarrow> regions_ok (insert_region i c rects st)"
  by (auto simp: regions_ok_def insert_region_def)

text \<open>Each operation on rectangles is the operation on their pixels.\<close>

lemma normalize_pixels:
  assumes "\<forall>r\<in>set rects. fits r"
  shows "pixels_of (normalize_region_rects rects) = pixels_of rects"
    "list_all rect_ok (normalize_region_rects rects)"
  using normalize_exact [OF assms] by (auto simp: pixels_of_def intro: banded_ok)

lemma union_pixels:
  assumes "list_all rect_ok a" "list_all rect_ok b"
  shows "pixels_of (union_regions a b) = pixels_of a \<union> pixels_of b"
    "list_all rect_ok (union_regions a b)"
  using union_regions_exact [OF assms [THEN rect_ok_fits]] by (auto simp: pixels_of_def intro: banded_ok)

lemma intersect_pixels:
  assumes "list_all rect_ok a"
  shows "pixels_of (intersect_regions a b) = pixels_of a \<inter> pixels_of b"
    "list_all rect_ok (intersect_regions a b)"
  using intersect_regions_exact [OF assms [THEN rect_ok_fits], of b] by (auto simp: pixels_of_def intro: banded_ok)

lemma subtract_pixels:
  assumes "list_all rect_ok a"
  shows "pixels_of (subtract_regions a b) = pixels_of a - pixels_of b"
    "list_all rect_ok (subtract_regions a b)"
  using subtract_regions_exact [OF assms [THEN rect_ok_fits], of b] by (auto simp: pixels_of_def intro: banded_ok)

lemma moved_edges:
  assumes "moves_within (sint dx) (sint dy) r"
  defines "q \<equiv> r\<lparr>rect_x := saturating_add_i16 (rect_x r) dx, rect_y := saturating_add_i16 (rect_y r) dy\<rparr>"
  shows "edge_l q = edge_l r + sint dx" "edge_r q = edge_r r + sint dx"
    "edge_t q = edge_t r + sint dy" "edge_b q = edge_b r + sint dy"
proof -
  have b: "- 32768 \<le> edge_l r + sint dx" "edge_l r + sint dx \<le> 32767"
      "- 32768 \<le> edge_t r + sint dy" "edge_t r + sint dy \<le> 32767"
    using assms(1) edge_bounds(5,6) [of r] unfolding moves_within_def by linarith+
  have "i32_of_i16 (rect_x q) = edge_l r + sint dx" "i32_of_i16 (rect_y q) = edge_t r + sint dy"
    using sint_clamp [OF b(1,2)] sint_clamp [OF b(3,4)]
    by (simp_all add: q_def saturating_add_i16_def edge_defs)
  then show "edge_l q = edge_l r + sint dx" "edge_r q = edge_r r + sint dx"
    "edge_t q = edge_t r + sint dy" "edge_b q = edge_b r + sint dy"
    by (simp_all add: edge_defs q_def)
qed

lemma in_region_translate:
  assumes "list_all (moves_within (sint dx) (sint dy)) rects"
  shows "in_region (translate_region dx dy rects) (x, y) \<longleftrightarrow> in_region rects (x - sint dx, y - sint dy)"
  using assms
proof (induction rects)
  case (Cons r rects)
  note e = moved_edges [of dx dy r]
  have "covers (r\<lparr>rect_x := saturating_add_i16 (rect_x r) dx, rect_y := saturating_add_i16 (rect_y r) dy\<rparr>) (x, y)
      \<longleftrightarrow> covers r (x - sint dx, y - sint dy)"
    using e Cons.prems unfolding covers_def fst_conv snd_conv by (simp, linarith)
  then show ?case using Cons by (simp add: translate_region_def)
qed (simp add: translate_region_def)

lemma translate_pixels:
  assumes "list_all (moves_within (sint dx) (sint dy)) rects" "list_all rect_ok rects"
  shows "pixels_of (translate_region dx dy rects) = shift (sint dx) (sint dy) (pixels_of rects)"
    "list_all rect_ok (translate_region dx dy rects)"
proof -
  show "pixels_of (translate_region dx dy rects) = shift (sint dx) (sint dy) (pixels_of rects)"
  proof (rule set_eqI)
    fix p :: "int \<times> int"
    obtain x y where p: "p = (x, y)" by (cases p)
    have "p \<in> shift (sint dx) (sint dy) (pixels_of rects) \<longleftrightarrow> (x - sint dx, y - sint dy) \<in> pixels_of rects"
      unfolding shift_def p by (force simp: image_iff)
    then show "p \<in> pixels_of (translate_region dx dy rects) \<longleftrightarrow> p \<in> shift (sint dx) (sint dy) (pixels_of rects)"
      using in_region_translate [OF assms(1), of x y] by (simp add: pixels_of_def p)
  qed
  show "list_all rect_ok (translate_region dx dy rects)"
    using assms
  proof (induction rects)
    case (Cons r rects)
    let ?q = "r\<lparr>rect_x := saturating_add_i16 (rect_x r) dx, rect_y := saturating_add_i16 (rect_y r) dy\<rparr>"
    have m: "moves_within (sint dx) (sint dy) r" using Cons.prems by simp
    have "fits ?q" using moved_edges [OF m] m unfolding fits_def moves_within_def by simp
    moreover have "rect_is_empty ?q = rect_is_empty r" by (simp add: rect_is_empty_def)
    ultimately have "rect_ok ?q" using Cons.prems by (simp add: rect_ok_def)
    then show ?case using Cons by (simp add: translate_region_def)
  qed (simp add: translate_region_def)
qed

text \<open>The corners of a rectangle are pixels of it.\<close>

lemma rect_corners:
  assumes "rect_ok r"
  shows "covers r (edge_l r, edge_t r)" "covers r (edge_r r - 1, edge_b r - 1)"
  using assms edge_bounds(5,6) [of r] unfolding rect_ok_def empty_edges covers_def by auto

lemma reaches:
  assumes ok: "list_all rect_ok rects"
  shows "(\<exists>p\<in>pixels_of rects. fst p \<le> x) \<longleftrightarrow> (\<exists>r\<in>set rects. edge_l r \<le> x)"
    "(\<exists>p\<in>pixels_of rects. x \<le> fst p) \<longleftrightarrow> (\<exists>r\<in>set rects. x < edge_r r)"
    "(\<exists>p\<in>pixels_of rects. snd p \<le> x) \<longleftrightarrow> (\<exists>r\<in>set rects. edge_t r \<le> x)"
    "(\<exists>p\<in>pixels_of rects. x \<le> snd p) \<longleftrightarrow> (\<exists>r\<in>set rects. x < edge_b r)"
proof -
  have corner: "(edge_l r, edge_t r) \<in> pixels_of rects" "(edge_r r - 1, edge_b r - 1) \<in> pixels_of rects"
    if "r \<in> set rects" for r
    using rect_corners [of r] that ok by (auto simp: pixels_of_def in_region_iff list_all_iff)
  have inside: "\<exists>r\<in>set rects. edge_l r \<le> fst p \<and> fst p < edge_r r \<and> edge_t r \<le> snd p \<and> snd p < edge_b r"
    if "p \<in> pixels_of rects" for p
    using that by (auto simp: pixels_of_def in_region_iff covers_def)
  show "(\<exists>p\<in>pixels_of rects. fst p \<le> x) \<longleftrightarrow> (\<exists>r\<in>set rects. edge_l r \<le> x)"
  proof
    assume "\<exists>p\<in>pixels_of rects. fst p \<le> x"
    then obtain p where p: "p \<in> pixels_of rects" "fst p \<le> x" by blast
    then show "\<exists>r\<in>set rects. edge_l r \<le> x" using inside [OF p(1)] by force
  next
    assume "\<exists>r\<in>set rects. edge_l r \<le> x"
    then obtain r where r: "r \<in> set rects" "edge_l r \<le> x" by blast
    then show "\<exists>p\<in>pixels_of rects. fst p \<le> x" by (intro bexI [OF _ corner(1) [OF r(1)]]) simp
  qed
  show "(\<exists>p\<in>pixels_of rects. x \<le> fst p) \<longleftrightarrow> (\<exists>r\<in>set rects. x < edge_r r)"
  proof
    assume "\<exists>p\<in>pixels_of rects. x \<le> fst p"
    then obtain p where p: "p \<in> pixels_of rects" "x \<le> fst p" by blast
    then show "\<exists>r\<in>set rects. x < edge_r r" using inside [OF p(1)] by force
  next
    assume "\<exists>r\<in>set rects. x < edge_r r"
    then obtain r where r: "r \<in> set rects" "x < edge_r r" by blast
    then show "\<exists>p\<in>pixels_of rects. x \<le> fst p" by (intro bexI [OF _ corner(2) [OF r(1)]]) simp
  qed
  show "(\<exists>p\<in>pixels_of rects. snd p \<le> x) \<longleftrightarrow> (\<exists>r\<in>set rects. edge_t r \<le> x)"
  proof
    assume "\<exists>p\<in>pixels_of rects. snd p \<le> x"
    then obtain p where p: "p \<in> pixels_of rects" "snd p \<le> x" by blast
    then show "\<exists>r\<in>set rects. edge_t r \<le> x" using inside [OF p(1)] by force
  next
    assume "\<exists>r\<in>set rects. edge_t r \<le> x"
    then obtain r where r: "r \<in> set rects" "edge_t r \<le> x" by blast
    then show "\<exists>p\<in>pixels_of rects. snd p \<le> x" by (intro bexI [OF _ corner(1) [OF r(1)]]) simp
  qed
  show "(\<exists>p\<in>pixels_of rects. x \<le> snd p) \<longleftrightarrow> (\<exists>r\<in>set rects. x < edge_b r)"
  proof
    assume "\<exists>p\<in>pixels_of rects. x \<le> snd p"
    then obtain p where p: "p \<in> pixels_of rects" "x \<le> snd p" by blast
    then show "\<exists>r\<in>set rects. x < edge_b r" using inside [OF p(1)] by force
  next
    assume "\<exists>r\<in>set rects. x < edge_b r"
    then obtain r where r: "r \<in> set rects" "x < edge_b r" by blast
    then show "\<exists>p\<in>pixels_of rects. x \<le> snd p" by (intro bexI [OF _ corner(2) [OF r(1)]]) simp
  qed
qed

lemma extents_pixels:
  assumes ok: "list_all rect_ok rects"
  shows "pixels_of (normalize_region_rects [region_extents rects]) = bounding_box (pixels_of rects)"
    "list_all rect_ok (normalize_region_rects [region_extents rects])"
proof -
  have "fits (region_extents rects) \<and> pixels_of [region_extents rects] = bounding_box (pixels_of rects)"
  proof (cases "rects = []")
    case True
    then show ?thesis
      by (auto simp: region_extents_def fits_def edge_defs pixels_of_def covers_def bounding_box_def)
  next
    case False
    note e = region_extents_edges [OF False rect_ok_fits [OF ok]]
    have ne: "finite (f ` set rects)" "f ` set rects \<noteq> {}" for f :: "RegionRect \<Rightarrow> int"
      using False by simp_all
    have "fits (region_extents rects)"
      using rect_ok_fits [OF ok] unfolding fits_def e by (auto simp: Max_le_iff [OF ne])
    moreover have "pixels_of [region_extents rects] = bounding_box (pixels_of rects)"
      unfolding bounding_box_def reaches [OF ok]
      by (auto simp: pixels_of_def covers_def e Min_le_iff [OF ne] Max_gr_iff [OF ne])
    ultimately show ?thesis by blast
  qed
  then show "pixels_of (normalize_region_rects [region_extents rects]) = bounding_box (pixels_of rects)"
    "list_all rect_ok (normalize_region_rects [region_extents rects])"
    using normalize_pixels [of "[region_extents rects]"] by simp_all
qed

lemma change_region_cases:
  fixes minor :: u8
  assumes "10 \<le> minor" "minor \<le> 18"
  shows "minor = 10 \<or> minor = 11 \<or> minor = 12 \<or> minor = 13 \<or> minor = 14 \<or> minor = 15 \<or>
    minor = 16 \<or> minor = 17 \<or> minor = 18"
proof -
  have "10 \<le> unat minor" "unat minor \<le> 18" using assms by (simp_all add: word_le_nat_alt)
  then have "unat minor \<in> {10..18}" by simp
  moreover have "minor = of_nat (unat minor)" by simp
  ultimately have "minor \<in> (of_nat :: nat \<Rightarrow> u8) ` {10..18}" by blast
  moreover have "{10..18} = {10, 11, 12, 13, 14, 15, 16, 17, 18 :: nat}" by auto
  ultimately show ?thesis by auto
qed


definition region_state :: ServerState where
  "region_state = insert_region 0x200001 2
     [\<lparr>rect_x = 0, rect_y = 0, rect_width = 10, rect_height = 10\<rparr>]
     (insert_region 0x200002 2 [\<lparr>rect_x = 4, rect_y = 4, rect_width = 10, rect_height = 2\<rparr>] server_new)"

lemma region_state_table:
  "st_xfixes_regions region_state =
    [(0x200002, \<lparr>xr_owner = 2, xr_rects = [\<lparr>rect_x = 4, rect_y = 4, rect_width = 10, rect_height = 2\<rparr>]\<rparr>),
     (0x200001, \<lparr>xr_owner = 2, xr_rects = [\<lparr>rect_x = 0, rect_y = 0, rect_width = 10, rect_height = 10\<rparr>]\<rparr>)]"
  by (simp add: region_state_def insert_region_def server_new_def hm_insert_def)

lemma region_state_ok: "regions_ok region_state"
  unfolding regions_ok_def region_state_table
  by (auto simp: hm_get_Cons rect_ok_def fits_def edge_defs rect_is_empty_def split: if_splits)


section \<open>Through the clip of a graphics context\<close>

text \<open>
  A region set as the clip of a graphics context (SetGCClipRegion) and read back
  (CreateRegionFromGC) is the same region, whatever the origin of the clip.
\<close>

theorem gc_clip_region_roundtrip:
  assumes "regions_ok st" "gc (st_resources st) g \<noteq> None" "region \<noteq> 0"
    and "parse_set_clip_region body = Some (g, region, x_origin, y_origin)"
    and "u32_le_at body' 4 = g"
  shows "create_region_source be 8 body' (set_gc_clip_region body st) = Inr (region_rects st region)"
proof -
  obtain c where "gc (st_resources st) g = Some c" using assms(2) by blast
  then have "gc (st_resources (set_gc_clip_region body st)) g = Some (c\<lparr>gc_clip_pixmap := None,
      gc_clip_pixmap_host_xid := None, gc_clip_rectangles := Some \<lparr>clip_ordering = 0,
        clip_x_origin = x_origin, clip_y_origin = y_origin,
        clip_rectangles = concat (map rect_le_bytes (region_rects st region))\<rparr>\<rparr>)"
    using assms(3,4) by (simp add: set_gc_clip_region_def set_clip_rectangles_def modify_gc_def gc_def)
  moreover have "list_all (\<lambda>r. \<not> rect_is_empty r) (region_rects st region)"
    using regions_ok_rects [OF assms(1)] by (simp add: list_all_iff rect_ok_def)
  ultimately show ?thesis
    using assms(5) by (simp add: create_region_source_def parse_rectangles_bytes)
qed

theorem gc_clip_region_roundtrip_witness:
  "let st = region_state\<lparr>st_resources := create_gc 2 (gc_request 0x100001) default_table\<rparr>;
       clip = set_gc_clip_region (u32_to_le_bytes 0x100001 @ u32_to_le_bytes 0x200002 @ [1, 0, 2, 0]) st
   in create_region_source \<lparr>be_read_depth1 = \<lambda>_. None, be_picture_client_clip_rects = \<lambda>_. None,
          be_active_cursor_image = None\<rparr> 8 (u32_to_le_bytes 0x200003 @ u32_to_le_bytes 0x100001) clip =
        Inr [\<lparr>rect_x = 4, rect_y = 4, rect_width = 10, rect_height = 2\<rparr>]"
proof -
  define st where "st = region_state\<lparr>st_resources := create_gc 2 (gc_request 0x100001) default_table\<rparr>"
  have "regions_ok st" using region_state_ok by (simp add: regions_ok_def st_def)
  moreover have "gc (st_resources st) 0x100001 \<noteq> None"
    using create_gc_present [of 2 "gc_request 0x100001" default_table] by (simp add: st_def gc_request_def)
  moreover have "parse_set_clip_region (u32_to_le_bytes 0x100001 @ u32_to_le_bytes 0x200002 @ [1, 0, 2, 0])
      = Some (0x100001, 0x200002, 1, 2)"
    by code_simp
  moreover have "u32_le_at (u32_to_le_bytes 0x200003 @ u32_to_le_bytes 0x100001) 4 = 0x100001"
    by code_simp
  moreover have "region_rects st 0x200002 = [\<lparr>rect_x = 4, rect_y = 4, rect_width = 10, rect_height = 2\<rparr>]"
    by (simp add: st_def region_rects_def region_state_table hm_get_Cons)
  ultimately show ?thesis
    using gc_clip_region_roundtrip [of st "0x100001" "0x200002"] unfolding st_def [symmetric] Let_def by simp
qed

section \<open>Identifiers\<close>

text \<open>
  CreateRegion refuses an identifier that is outside the client's range or in use. CopyRegion with the
  same destination makes the client the owner of a region of that identifier, also when the region
  belongs to another client or a window has the identifier. (The protocol asks for an existing region.)
\<close>

theorem copy_region_takes_any_id:
  assumes "xid_out_of_client_range st client_id dest \<or> xfixes_region_xid_already_taken st dest"
  shows "create_region_request be client_id sequence 5 (u32_to_le_bytes dest) st =
      xfixes_error client_id sequence BAD_ID_CHOICE dest st \<and>
    hm_get (st_xfixes_regions (change_region_request client_id 12 (u32_to_le_bytes src @ u32_to_le_bytes dest) st)) dest =
      Some \<lparr>xr_owner = client_id, xr_rects = region_rects st src\<rparr>"
proof
  have d: "u32_le_at (u32_to_le_bytes dest) 0 = dest" using u32_le_at_bytes [of dest "[]"] by simp
  show "create_region_request be client_id sequence 5 (u32_to_le_bytes dest) st =
      xfixes_error client_id sequence BAD_ID_CHOICE dest st"
    using assms by (auto simp: create_region_request_def create_region_length_def d)
  have "u32_le_at (u32_to_le_bytes src @ u32_to_le_bytes dest) 4 = dest"
    using u32_le_at_bytes_4 [of src dest "[]"] by simp
  then show "hm_get (st_xfixes_regions (change_region_request client_id 12 (u32_to_le_bytes src @ u32_to_le_bytes dest) st)) dest =
      Some \<lparr>xr_owner = client_id, xr_rects = region_rects st src\<rparr>"
    by (simp add: change_region_request_def parse_u32_pair_def u32_le_at_bytes insert_region_def)
qed

text \<open>Client 3 takes the root window's identifier and a region of client 2.\<close>

theorem copy_region_takes_any_id_witness:
  "hm_get (st_xfixes_regions (change_region_request 3 12
      (u32_to_le_bytes 0x200002 @ u32_to_le_bytes ROOT_WINDOW) region_state)) ROOT_WINDOW \<noteq> None \<and>
   map_option xr_owner (hm_get (st_xfixes_regions (change_region_request 3 12
      (u32_to_le_bytes 0x200002 @ u32_to_le_bytes 0x200001) region_state)) 0x200001) = Some 3"
proof -
  have "xid_in_use (st_resources region_state) ROOT_WINDOW"
    by (simp add: region_state_def insert_region_def server_new_def xid_in_use_def default_table_def)
  then have t: "xfixes_region_xid_already_taken region_state ROOT_WINDOW"
      "xfixes_region_xid_already_taken region_state 0x200001"
    by (simp_all add: xfixes_region_xid_already_taken_def region_state_table hm_get_Cons)
  note claim = copy_region_takes_any_id [OF disjI2, where client_id = 3 and src = "0x200002" and sequence = 0
      and be = "\<lparr>be_read_depth1 = \<lambda>_. None, be_picture_client_clip_rects = \<lambda>_. None, be_active_cursor_image = None\<rparr>"]
  show ?thesis using claim [OF t(1)] claim [OF t(2)] by simp
qed

section \<open>Cursor pixels\<close>

text \<open>The comment at the code promises rounding to the nearest value: 128 / 255 rounds to 1.\<close>

lemma premultiply_rounds_half_down: "premultiply 128 1 = 0 \<and> 2 * (128 * 1) > (255 :: nat)"
  by code_simp

end
