(* ===== verification/Damage.thy ===== *)
theory Damage
  imports XFixes
begin

text \<open>
  The DAMAGE extension: the requests and the event of \<open>crates/xserver-protocol/src/x11/damage.rs\<close>, the
  accumulation of damage up the window tree of \<open>crates/xserver-core/src/core_loop/damage_fanout.rs\<close> and
  \<open>handle_damage_request\<close> of \<open>crates/xserver-core/src/core_loop/process_request.rs\<close>.

  The time of an event (\<open>timestamp_now\<close>) is an argument. The rectangles of an event and of a region have
  the same fields and are one record here. The diagnostics have no counterpart.
\<close>

section \<open>Events and replies\<close>

definition RAW_RECTANGLES :: u8 where "RAW_RECTANGLES = 0"
definition DELTA_RECTANGLES :: u8 where "DELTA_RECTANGLES = 1"
definition BOUNDING_BOX :: u8 where "BOUNDING_BOX = 2"
definition NON_EMPTY :: u8 where "NON_EMPTY = 3"
definition MORE_FLAG :: u8 where "MORE_FLAG = 0x80"
definition DAMAGE_FIRST_EVENT :: u8 where "DAMAGE_FIRST_EVENT = 91"

definition damage_encode_query_version_reply :: "ClientByteOrder \<Rightarrow> u16 \<Rightarrow> u32 \<Rightarrow> u32 \<Rightarrow> u8 list" where
  "damage_encode_query_version_reply byte_order sequence major minor =
     write_u32 byte_order (write_u32 byte_order (fixed_reply byte_order sequence 0 0) major) minor
       @ replicate 16 0"

definition encode_damage_notify_event ::
  "ClientByteOrder \<Rightarrow> u8 \<Rightarrow> u16 \<Rightarrow> u8 \<Rightarrow> u32 \<Rightarrow> u32 \<Rightarrow> u32 \<Rightarrow> RegionRect \<Rightarrow> RegionRect \<Rightarrow> u8 list" where
  "encode_damage_notify_event byte_order first_event sequence level drawable damage timestamp area geometry =
     write_rect byte_order
       (write_rect byte_order
         (write_u32 byte_order (write_u32 byte_order (write_u32 byte_order
           (write_u16 byte_order [first_event, level] sequence) drawable) damage) timestamp)
         area) geometry"

record PendingNotify =
  pn_owner :: ClientId
  pn_damage_id :: u32
  pn_level :: u8
  pn_drawable :: u32
  pn_area :: RegionRect
  pn_geometry :: RegionRect

definition encode_damage_notify :: "PendingNotify \<Rightarrow> u32 \<Rightarrow> u16 \<Rightarrow> ClientByteOrder \<Rightarrow> u8 list" where
  "encode_damage_notify n timestamp sequence byte_order =
     encode_damage_notify_event byte_order DAMAGE_FIRST_EVENT sequence (pn_level n) (pn_drawable n)
       (pn_damage_id n) timestamp (pn_area n) (pn_geometry n)"

text \<open>The events go out one by one; the clients to close are listed once.\<close>

definition add_dropped :: "ClientId list \<Rightarrow> ClientId list \<Rightarrow> ClientId list" where
  "add_dropped ids dropped = fold (\<lambda>c ds. if c \<in> set ds then ds else ds @ [c]) ids dropped"

fun send_notifies ::
  "u32 \<Rightarrow> PendingNotify list \<Rightarrow> ServerState \<times> ClientId list \<Rightarrow> ServerState \<times> ClientId list" where
  "send_notifies timestamp [] s = s"
| "send_notifies timestamp (n # ns) (st, dropped) =
     (case fanout_event_to_clients [pn_owner n] (encode_damage_notify n timestamp) st of
        (st', extras) \<Rightarrow> send_notifies timestamp ns (st', add_dropped extras dropped))"

section \<open>Geometry\<close>

definition drawable_full_rect :: "ServerState \<Rightarrow> ResourceId \<Rightarrow> RegionRect" where
  "drawable_full_rect st drawable =
     (case window (st_resources st) drawable of
        Some w \<Rightarrow> \<lparr>rect_x = 0, rect_y = 0, rect_width = win_width w, rect_height = win_height w\<rparr>
      | None \<Rightarrow>
          (case pixmap (st_resources st) drawable of
             None \<Rightarrow> \<lparr>rect_x = 0, rect_y = 0, rect_width = 0, rect_height = 0\<rparr>
           | Some p \<Rightarrow> \<lparr>rect_x = 0, rect_y = 0, rect_width = pm_width p, rect_height = pm_height p\<rparr>))"

definition u16_or_max :: "int \<Rightarrow> u16" where
  "u16_or_max v = (if 0 \<le> v \<and> v \<le> 65535 then word_of_int v else 0xFFFF)"

text \<open>The geometry that an event reports.\<close>

definition report_geometry :: "ServerState \<Rightarrow> ResourceId \<Rightarrow> RegionRect" where
  "report_geometry st drawable =
     (let full = drawable_full_rect st drawable;
          (gx, gy) =
            (if window (st_resources st) drawable \<noteq> None
             then (case window_absolute_position (st_resources st) drawable of
                     (ax, ay) \<Rightarrow> (i16_or_max ax, i16_or_max ay))
             else (0, 0))
      in \<lparr>rect_x = gx, rect_y = gy, rect_width = rect_width full, rect_height = rect_height full\<rparr>)"

section \<open>Accumulating\<close>

definition set_damage_objects :: "(u32, DamageObject) hashmap \<Rightarrow> ServerState \<Rightarrow> ServerState" where
  "set_damage_objects objs st = st\<lparr>st_damage_objects := objs\<rparr>"

text \<open>One object of the level: the rectangle is added; the event is queued or not.\<close>

definition level_allows_emit :: "DamageObject \<Rightarrow> RegionRect \<Rightarrow> bool" where
  "level_allows_emit d geom \<longleftrightarrow>
     (if dmg_level d = RAW_RECTANGLES \<or> dmg_level d = DELTA_RECTANGLES \<or> dmg_level d = BOUNDING_BOX then True
      else if dmg_level d = NON_EMPTY
      then \<not> dmg_fired d \<or> (case dmg_last_geometry d of None \<Rightarrow> False | Some prev \<Rightarrow> prev \<noteq> geom)
      else False)"

definition accumulate_object ::
  "(ClientId, ClientState) hashmap \<Rightarrow> ResourceId \<Rightarrow> RegionRect \<Rightarrow> RegionRect \<Rightarrow> RegionRect \<Rightarrow> u32 \<Rightarrow> DamageObject
    \<Rightarrow> DamageObject \<times> PendingNotify list" where
  "accumulate_object clients level_drawable rect geom full damage_id d =
     (let d1 = d\<lparr>dmg_rects := dmg_rects d @ [rect]\<rparr>
      in if hm_contains clients (dmg_owner d) \<and> level_allows_emit d geom
         then (d1\<lparr>dmg_fired := True, dmg_last_geometry := Some geom\<rparr>,
               [\<lparr>pn_owner = dmg_owner d, pn_damage_id = damage_id, pn_level = dmg_level d,
                 pn_drawable = level_drawable,
                 pn_area = (if dmg_level d = NON_EMPTY
                    then \<lparr>rect_x = 0, rect_y = 0, rect_width = rect_width full, rect_height = rect_height full\<rparr>
                    else rect),
                 pn_geometry = geom\<rparr>])
         else (d1, []))"

fun accumulate_objects ::
  "(u32 \<Rightarrow> DamageObject \<Rightarrow> DamageObject \<times> PendingNotify list) \<Rightarrow> u32 list
    \<Rightarrow> (u32, DamageObject) hashmap \<times> PendingNotify list \<Rightarrow> (u32, DamageObject) hashmap \<times> PendingNotify list" where
  "accumulate_objects f [] s = s"
| "accumulate_objects f (i # ids) (objs, pending) =
     (case hm_get objs i of
        None \<Rightarrow> accumulate_objects f ids (objs, pending)
      | Some d \<Rightarrow>
          (case f i d of
             (d', notifies) \<Rightarrow> accumulate_objects f ids (hm_insert i d' objs, pending @ notifies)))"

definition accumulate_at_level ::
  "ResourceId \<Rightarrow> int \<Rightarrow> int \<Rightarrow> int \<Rightarrow> int \<Rightarrow> ServerState \<times> PendingNotify list \<Rightarrow> ServerState \<times> PendingNotify list" where
  "accumulate_at_level level_drawable rx ry rw rh s =
     (case s of (st, pending) \<Rightarrow>
        let ids = map fst (filter (\<lambda>(i, d). dmg_drawable d = level_drawable) (st_damage_objects st));
            rect = \<lparr>rect_x = i16_or_max rx, rect_y = i16_or_max ry,
                    rect_width = u16_or_max rw, rect_height = u16_or_max rh\<rparr>;
            (objs, pending') = accumulate_objects
              (accumulate_object (st_clients st) level_drawable rect (report_geometry st level_drawable)
                 (drawable_full_rect st level_drawable))
              ids (st_damage_objects st, pending)
        in (set_damage_objects objs st, pending'))"

text \<open>The walk up the tree; the counter is \<open>ANCESTOR_WALK_MAX_DEPTH\<close>.\<close>

fun ancestor_walk ::
  "nat \<Rightarrow> ResourceId \<Rightarrow> int \<Rightarrow> int \<Rightarrow> int \<Rightarrow> int \<Rightarrow> ServerState \<times> PendingNotify list
    \<Rightarrow> ServerState \<times> PendingNotify list" where
  "ancestor_walk 0 current rx ry rw rh s = s"
| "ancestor_walk (Suc n) current rx ry rw rh s =
     (case window (st_resources (fst s)) current of
        None \<Rightarrow> s
      | Some w \<Rightarrow>
          let parent = win_parent w in
          if parent = current then s
          else
            (case window (st_resources (fst s)) parent of
               None \<Rightarrow> s
             | Some p \<Rightarrow>
                 let rx' = rx + i32_of_i16 (win_x w); ry' = ry + i32_of_i16 (win_y w);
                     l = max rx' 0; t = max ry' 0;
                     r = min (rx' + rw) (i32_of_u16 (win_width p));
                     b = min (ry' + rh) (i32_of_u16 (win_height p))
                 in if r \<le> l \<or> b \<le> t then s
                    else ancestor_walk n parent l t (r - l) (b - t)
                           (accumulate_at_level parent l t (r - l) (b - t) s)))"

definition ANCESTOR_WALK_MAX_DEPTH :: nat where
  "ANCESTOR_WALK_MAX_DEPTH = 32"

definition accumulate_damage_to_state ::
  "u32 \<Rightarrow> ResourceId \<Rightarrow> RegionRect \<Rightarrow> ServerState \<Rightarrow> ServerState \<times> ClientId list" where
  "accumulate_damage_to_state timestamp drawable rect st =
     (if rect_width rect = 0 \<or> rect_height rect = 0 then (st, [])
      else
        (let x = i32_of_i16 (rect_x rect); y = i32_of_i16 (rect_y rect);
             w = i32_of_u16 (rect_width rect); h = i32_of_u16 (rect_height rect);
             (st', pending) = ancestor_walk ANCESTOR_WALK_MAX_DEPTH drawable x y w h
               (accumulate_at_level drawable x y w h (st, []))
         in send_notifies timestamp pending (st', [])))"

definition accumulate_damage_full_to_state ::
  "u32 \<Rightarrow> ResourceId \<Rightarrow> ServerState \<Rightarrow> ServerState \<times> ClientId list" where
  "accumulate_damage_full_to_state timestamp drawable st =
     (let r = drawable_full_rect st drawable
      in accumulate_damage_to_state timestamp drawable (r\<lparr>rect_x := 0, rect_y := 0\<rparr>) st)"

definition mapped_child_clip_rects :: "ServerState \<Rightarrow> ResourceId \<Rightarrow> RegionRect list" where
  "mapped_child_clip_rects st drawable =
     map (\<lambda>w. \<lparr>rect_x = win_x w, rect_y = win_y w, rect_width = win_width w, rect_height = win_height w\<rparr>)
       (filter (\<lambda>w. win_class w = InputOutput \<and> win_map_state w \<noteq> Unmapped)
          (List.map_filter (window (st_resources st)) (children (st_resources st) drawable)))"

fun accumulate_rects ::
  "u32 \<Rightarrow> ResourceId \<Rightarrow> RegionRect list \<Rightarrow> ServerState \<times> ClientId list \<Rightarrow> ServerState \<times> ClientId list" where
  "accumulate_rects timestamp drawable [] s = s"
| "accumulate_rects timestamp drawable (rect # rects) (st, dropped) =
     (case accumulate_damage_to_state timestamp drawable rect st of
        (st', more_dropped) \<Rightarrow>
          accumulate_rects timestamp drawable rects (st', add_dropped more_dropped dropped))"

definition accumulate_damage_clip_by_children_to_state ::
  "u32 \<Rightarrow> ResourceId \<Rightarrow> ServerState \<Rightarrow> ServerState \<times> ClientId list" where
  "accumulate_damage_clip_by_children_to_state timestamp drawable st =
     (let full = drawable_full_rect st drawable in
      if rect_width full = 0 \<or> rect_height full = 0 then (st, [])
      else
        (let child_rects = mapped_child_clip_rects st drawable;
             visible = (if child_rects = [] then [full] else subtract_regions [full] child_rects)
         in accumulate_rects timestamp drawable visible (st, [])))"

section \<open>Reporting again\<close>

text \<open>The events of the levels 0 and 1: one for each rectangle, all but the last with the flag.\<close>

definition rereport_events :: "u32 \<Rightarrow> DamageObject \<Rightarrow> RegionRect \<Rightarrow> RegionRect \<Rightarrow> PendingNotify list option" where
  "rereport_events damage_id d full geometry =
     (let notify = (\<lambda>level area. \<lparr>pn_owner = dmg_owner d, pn_damage_id = damage_id, pn_level = level,
            pn_drawable = dmg_drawable d, pn_area = area, pn_geometry = geometry\<rparr>)
      in if dmg_level d = RAW_RECTANGLES \<or> dmg_level d = DELTA_RECTANGLES
         then Some (map (\<lambda>(idx, rect). notify
                (if idx + 1 < length (dmg_rects d) then dmg_level d OR MORE_FLAG else dmg_level d) rect)
              (zip [0..<length (dmg_rects d)] (dmg_rects d)))
         else if dmg_level d = BOUNDING_BOX
         then Some [notify (dmg_level d) (region_extents (dmg_rects d))]
         else if dmg_level d = NON_EMPTY
         then Some [notify (dmg_level d)
              \<lparr>rect_x = 0, rect_y = 0, rect_width = rect_width full, rect_height = rect_height full\<rparr>]
         else None)"

definition report_existing_damage_to_state :: "u32 \<Rightarrow> u32 \<Rightarrow> ServerState \<Rightarrow> ServerState \<times> ClientId list" where
  "report_existing_damage_to_state timestamp damage_id st =
     (case hm_get (st_damage_objects st) damage_id of
        None \<Rightarrow> (st, [])
      | Some d \<Rightarrow>
          if dmg_fired d \<or> dmg_rects d = [] \<or> \<not> hm_contains (st_clients st) (dmg_owner d) then (st, [])
          else
            let geometry = report_geometry st (dmg_drawable d) in
            (case rereport_events damage_id d (drawable_full_rect st (dmg_drawable d)) geometry of
               None \<Rightarrow> (st, [])
             | Some pending \<Rightarrow>
                 send_notifies timestamp pending
                   (set_damage_objects (hm_insert damage_id
                      (d\<lparr>dmg_fired := True, dmg_last_geometry := Some geometry\<rparr>) (st_damage_objects st)) st, [])))"

section \<open>The requests\<close>

definition damage_create :: "u32 \<Rightarrow> ClientId \<Rightarrow> u8 list \<Rightarrow> ServerState \<Rightarrow> ServerState" where
  "damage_create timestamp client_id body st =
     (if length body < 12 then st
      else
        let damage = u32_le_at body 0; drawable = u32_le_at body 4;
            st' = set_damage_objects (hm_insert damage
              \<lparr>dmg_owner = client_id, dmg_drawable = drawable, dmg_level = body ! 8, dmg_rects = [],
               dmg_fired = False, dmg_last_geometry = None\<rparr> (st_damage_objects st)) st
        in (case window (st_resources st') drawable of
              None \<Rightarrow> st'
            | Some w \<Rightarrow>
                if win_map_state w = Viewable then fst (accumulate_damage_full_to_state timestamp drawable st')
                else st'))"

definition damage_add :: "u8 list \<Rightarrow> ServerState \<Rightarrow> ServerState" where
  "damage_add body st =
     (case parse_u32_pair body of
        None \<Rightarrow> st
      | Some (drawable, region) \<Rightarrow>
          (let rects = (if region = 0 then [drawable_full_rect st drawable] else region_rects st region)
           in set_damage_objects
                (map (\<lambda>(i, d). (i, if dmg_drawable d = drawable
                    then d\<lparr>dmg_rects := normalize_region_rects (dmg_rects d @ rects)\<rparr> else d))
                  (st_damage_objects st)) st))"

definition damage_subtract :: "u32 \<Rightarrow> ClientId \<Rightarrow> u8 list \<Rightarrow> ServerState \<Rightarrow> ServerState" where
  "damage_subtract timestamp client_id body st =
     (case parse_u32_triplet body of
        None \<Rightarrow> st
      | Some (damage_id, repair, parts) \<Rightarrow>
          (let object = hm_get (st_damage_objects st) damage_id;
               old_damage = (case object of None \<Rightarrow> [] | Some d \<Rightarrow> normalize_region_rects (dmg_rects d));
               level = (case object of None \<Rightarrow> 0 | Some d \<Rightarrow> dmg_level d);
               (parts_rects, new_damage) =
                 (if repair = 0 then (old_damage, [])
                  else (intersect_regions old_damage (region_rects st repair),
                        subtract_regions old_damage (region_rects st repair)));
               st1 = (if parts \<noteq> 0 then insert_region parts client_id parts_rects st else st);
               st2 = set_damage_objects (hm_modify damage_id
                   (\<lambda>d. d\<lparr>dmg_rects := new_damage, dmg_fired := False\<rparr>) (st_damage_objects st1)) st1
           in if repair \<noteq> 0 \<and> level \<noteq> RAW_RECTANGLES \<and>
                 (case hm_get (st_damage_objects st2) damage_id of None \<Rightarrow> False | Some d \<Rightarrow> dmg_rects d \<noteq> [])
              then fst (report_existing_damage_to_state timestamp damage_id st2)
              else st2))"

definition damage_version :: "u8 list \<Rightarrow> u32 \<times> u32" where
  "damage_version body =
     (case (if length body < 8 then (1, 1) else (u32_le_at body 0, u32_le_at body 4)) of
        (client_major, client_minor) \<Rightarrow>
          (let major = min 1 client_major
           in (major, if major < 1 then client_minor else min 1 client_minor)))"

definition handle_damage_request ::
  "u32 \<Rightarrow> ClientId \<Rightarrow> u16 \<Rightarrow> RequestHeader \<Rightarrow> u8 list \<Rightarrow> ServerState \<Rightarrow> ServerState \<times> RequestOutcome" where
  "handle_damage_request timestamp client_id sequence header body st =
     (let minor = rh_data header in
      if minor = 0
      then (case damage_version body of (major, minor_ver) \<Rightarrow>
              send_reply client_id
                (\<lambda>o'. damage_encode_query_version_reply o' sequence major minor_ver) st)
      else if minor = 1 then (damage_create timestamp client_id body st, Handled)
      else if minor = 2
      then (if length body < 4 then (st, Handled)
            else (set_damage_objects (hm_remove (u32_le_at body 0) (st_damage_objects st)) st, Handled))
      else if minor = 3 then (damage_subtract timestamp client_id body st, Handled)
      else if minor = 4 then (damage_add body st, Handled)
      else (st, Handled))"

end
