(* ===== verification/DamageClaims.thy ===== *)
theory DamageClaims
  imports Damage XFixesClaims WindowTree
begin

text \<open>
  What DamageSubtract does with the pixels of a damage object, which rectangles a paint adds to the
  damage objects of a window and its ancestors, and how many events an object sends.
\<close>

section \<open>Sending leaves the tables alone\<close>

lemma set_client_tables [simp]:
  "st_damage_objects (set_client i c st) = st_damage_objects st"
  "st_xfixes_regions (set_client i c st) = st_xfixes_regions st"
  "st_resources (set_client i c st) = st_resources st"
  by (simp_all add: set_client_def)

lemma fanout_loop_tables:
  "fanout_loop encode seen ids st = (st', dropped) \<Longrightarrow>
    st_damage_objects st' = st_damage_objects st \<and> st_xfixes_regions st' = st_xfixes_regions st \<and>
    st_resources st' = st_resources st"
proof (induction encode seen ids st arbitrary: st' dropped rule: fanout_loop.induct)
  case (2 encode seen i ids st)
  show ?case
  proof (cases "i \<in> set seen")
    case True
    then show ?thesis using 2(1) [OF True] 2(4) by simp
  next
    case new: False
    show ?thesis
    proof (cases "hm_get (st_clients st) i")
      case None
      then show ?thesis using 2(2) [OF new None] 2(4) new by simp
    next
      case (Some client)
      obtain client' outcome where w: "write_to_client client i (encode client) = (client', outcome)"
        by (cases "write_to_client client i (encode client)")
      obtain s1 d1 where r: "fanout_loop encode (i # seen) ids (set_client i client' st) = (s1, d1)"
        by (cases "fanout_loop encode (i # seen) ids (set_client i client' st)")
      have "st' = s1" using 2(4) new Some w r by simp
      then show ?thesis using 2(3) [OF new Some w [symmetric] r] by simp
    qed
  qed
qed simp

lemma send_notifies_tables:
  "send_notifies ts ns (st, ds) = (st', ds') \<Longrightarrow>
    st_damage_objects st' = st_damage_objects st \<and> st_xfixes_regions st' = st_xfixes_regions st \<and>
    st_resources st' = st_resources st"
proof (induction ns arbitrary: st ds)
  case (Cons n ns)
  obtain s1 ex where f: "fanout_event_to_clients [pn_owner n] (encode_damage_notify n ts) st = (s1, ex)"
    by (cases "fanout_event_to_clients [pn_owner n] (encode_damage_notify n ts) st")
  have "st_damage_objects s1 = st_damage_objects st \<and> st_xfixes_regions s1 = st_xfixes_regions st \<and>
      st_resources s1 = st_resources st"
    using f unfolding fanout_event_to_clients_def by (rule fanout_loop_tables)
  then show ?case using Cons.IH [of s1] Cons.prems f by simp
qed simp

section \<open>Subtract\<close>

text \<open>Only the flag and the geometry of an object change when it is reported again.\<close>

lemma rereport_tables:
  assumes "report_existing_damage_to_state ts i st = (st', ds)"
  shows "st_xfixes_regions st' = st_xfixes_regions st"
    "map_option dmg_rects (hm_get (st_damage_objects st') j) = map_option dmg_rects (hm_get (st_damage_objects st) j)"
    "j \<noteq> i \<Longrightarrow> hm_get (st_damage_objects st') j = hm_get (st_damage_objects st) j"
proof -
  have "st' = st \<or> (\<exists>d ns g. hm_get (st_damage_objects st) i = Some d \<and>
      send_notifies ts ns (set_damage_objects (hm_insert i
        (d\<lparr>dmg_fired := True, dmg_last_geometry := Some g\<rparr>) (st_damage_objects st)) st, []) = (st', ds))"
    using assms by (auto simp: report_existing_damage_to_state_def Let_def split: option.splits if_splits)
  then consider "st' = st" | d ns g where "hm_get (st_damage_objects st) i = Some d"
      "send_notifies ts ns (set_damage_objects (hm_insert i
        (d\<lparr>dmg_fired := True, dmg_last_geometry := Some g\<rparr>) (st_damage_objects st)) st, []) = (st', ds)" by blast
  then show "st_xfixes_regions st' = st_xfixes_regions st"
    "map_option dmg_rects (hm_get (st_damage_objects st') j) = map_option dmg_rects (hm_get (st_damage_objects st) j)"
    "j \<noteq> i \<Longrightarrow> hm_get (st_damage_objects st') j = hm_get (st_damage_objects st) j"
    by (cases; auto dest!: send_notifies_tables simp: set_damage_objects_def)+
qed

text \<open>
  DamageSubtract splits the damage of the object: what the repair region covers goes into the parts
  region, the rest stays; without a repair region all of it goes. No pixel is lost or invented, and no
  other object or region changes.
\<close>

theorem damage_subtract_splits:
  assumes "hm_get (st_damage_objects st) i = Some d" "list_all fits (dmg_rects d)"
    and "parse_u32_triplet body = Some (i, repair, parts)" "parts \<noteq> 0"
    and run: "damage_subtract ts client_id body st = st'"
  shows "let old = pixels_of (dmg_rects d);
        rep = (if repair = 0 then UNIV else pixels_of (region_rects st repair))
    in map_option (\<lambda>d. pixels_of (dmg_rects d)) (hm_get (st_damage_objects st') i) = Some (old - rep) \<and>
    pixels_of (region_rects st' parts) = old \<inter> rep \<and>
    (\<forall>j. if j = i then True else hm_get (st_damage_objects st') j = hm_get (st_damage_objects st) j) \<and>
    (\<forall>r. if r = parts then True else region_rects st' r = region_rects st r)"
proof -
  define old where "old = pixels_of (dmg_rects d)"
  define rep where "rep = (if repair = 0 then UNIV else pixels_of (region_rects st repair))"
  define norm where "norm = normalize_region_rects (dmg_rects d)"
  have norm: "pixels_of norm = old" "list_all rect_ok norm"
    using normalize_pixels [of "dmg_rects d"] assms(2) by (simp_all add: norm_def old_def list_all_iff)
  define rects where "rects = (if repair = 0 then norm else intersect_regions norm (region_rects st repair))"
  define rest where "rest = (if repair = 0 then [] else subtract_regions norm (region_rects st repair))"
  define st2 where "st2 = set_damage_objects (hm_modify i
      (\<lambda>d. d\<lparr>dmg_rects := rest, dmg_fired := False\<rparr>) (st_damage_objects st)) (insert_region parts client_id rects st)"
  have pix: "pixels_of rects = old \<inter> rep" "pixels_of rest = old - rep"
    using intersect_pixels [OF norm(2)] subtract_pixels [OF norm(2)] norm(1)
    by (auto simp: rects_def rest_def rep_def pixels_of_def)
  have "st' = st2 \<or> (\<exists>ds. report_existing_damage_to_state ts i st2 = (st', ds))"
    unfolding run [symmetric] damage_subtract_def assms(3)
    by (simp add: assms(1,4) Let_def norm_def [symmetric] rects_def rest_def st2_def insert_region_def)
      (metis fst_conv surj_pair)
  then have tables: "st_xfixes_regions st' = st_xfixes_regions st2"
      "map_option dmg_rects (hm_get (st_damage_objects st') i) = map_option dmg_rects (hm_get (st_damage_objects st2) i)"
      "\<And>j. j \<noteq> i \<Longrightarrow> hm_get (st_damage_objects st') j = hm_get (st_damage_objects st2) j"
    using rereport_tables by blast+
  have "map_option dmg_rects (hm_get (st_damage_objects st') i) = Some rest"
    unfolding tables(2) using assms(1) by (simp add: st2_def set_damage_objects_def)
  then have "map_option (\<lambda>d. pixels_of (dmg_rects d)) (hm_get (st_damage_objects st') i) = Some (old - rep)"
    using pix(2) by (auto simp: map_option_case split: option.splits)
  moreover have "pixels_of (region_rects st' parts) = old \<inter> rep"
    using pix(1) by (simp add: region_rects_def tables(1) st2_def set_damage_objects_def insert_region_def)
  moreover have "region_rects st' r = region_rects st r" if "r \<noteq> parts" for r
    using that by (simp add: region_rects_def tables(1) st2_def set_damage_objects_def insert_region_def)
  moreover have "hm_get (st_damage_objects st') j = hm_get (st_damage_objects st) j" if "j \<noteq> i" for j
    using that tables(3) [OF that] by (simp add: st2_def set_damage_objects_def)
  ultimately show ?thesis unfolding Let_def old_def [symmetric] rep_def [symmetric] by simp
qed

section \<open>Paints and ancestors\<close>

text \<open>One step up: where a pixel of a window is in the parent, if the parent shows it.\<close>

definition pixel_up :: "ResourceTable \<Rightarrow> ResourceId \<times> int \<times> int \<Rightarrow> (ResourceId \<times> int \<times> int) option" where
  "pixel_up t s = (case s of (c, x, y) \<Rightarrow>
     (case window t c of
        None \<Rightarrow> None
      | Some w \<Rightarrow>
          if win_parent w = c then None
          else
            (case window t (win_parent w) of
               None \<Rightarrow> None
             | Some p \<Rightarrow>
                 let x' = x + sint (win_x w); y' = y + sint (win_y w)
                 in if 0 \<le> x' \<and> x' < uint (win_width p) \<and> 0 \<le> y' \<and> y' < uint (win_height p)
                    then Some (win_parent w, x', y') else None)))"

text \<open>The pixel \<open>p\<close> of window \<open>c\<close> is the pixel \<open>q\<close> of \<open>a\<close>, which is \<open>c\<close> or an ancestor.\<close>

definition appears :: "ResourceTable \<Rightarrow> ResourceId \<Rightarrow> int \<times> int \<Rightarrow> ResourceId \<Rightarrow> int \<times> int \<Rightarrow> bool" where
  "appears t c p a q \<longleftrightarrow> (\<lambda>s s'. pixel_up t s = Some s')\<^sup>*\<^sup>* (c, p) (a, q)"

type_synonym box = "int \<times> int \<times> int \<times> int"

definition in_box :: "box \<Rightarrow> int \<times> int \<Rightarrow> bool" where
  "in_box b p \<longleftrightarrow> (case b of (x, y, w, h) \<Rightarrow> x \<le> fst p \<and> fst p < x + w \<and> y \<le> snd p \<and> snd p < y + h)"

text \<open>The levels above \<open>c\<close> that the walk visits, each with the box it adds there.\<close>

fun damage_levels :: "ResourceTable \<Rightarrow> nat \<Rightarrow> ResourceId \<Rightarrow> box \<Rightarrow> (ResourceId \<times> box) list" where
  "damage_levels t 0 c b = []"
| "damage_levels t (Suc n) c (rx, ry, rw, rh) =
     (case window t c of
        None \<Rightarrow> []
      | Some w \<Rightarrow>
          if win_parent w = c then []
          else
            (case window t (win_parent w) of
               None \<Rightarrow> []
             | Some p \<Rightarrow>
                 let rx' = rx + i32_of_i16 (win_x w); ry' = ry + i32_of_i16 (win_y w);
                     l = max rx' 0; tp = max ry' 0;
                     r = min (rx' + rw) (i32_of_u16 (win_width p));
                     b = min (ry' + rh) (i32_of_u16 (win_height p))
                 in if r \<le> l \<or> b \<le> tp then []
                    else (win_parent w, (l, tp, r - l, b - tp)) # damage_levels t n (win_parent w) (l, tp, r - l, b - tp)))"

definition add_level :: "ResourceId \<times> box \<Rightarrow> ServerState \<times> PendingNotify list \<Rightarrow> ServerState \<times> PendingNotify list" where
  "add_level l s = (case l of (a, x, y, w, h) \<Rightarrow> accumulate_at_level a x y w h s)"

lemma accumulate_at_level_resources [simp]:
  "st_resources (fst (accumulate_at_level a x y w h s)) = st_resources (fst s)"
  by (auto simp: accumulate_at_level_def set_damage_objects_def Let_def split: prod.splits)

lemma ancestor_walk_levels:
  "ancestor_walk n c rx ry rw rh s = fold add_level (damage_levels (st_resources (fst s)) n c (rx, ry, rw, rh)) s"
proof (induction n arbitrary: c rx ry rw rh s)
  case (Suc n)
  let ?t = "st_resources (fst s)"
  show ?case
  proof (cases "window ?t c")
    case (Some w)
    show ?thesis
    proof (cases "win_parent w = c \<or> window ?t (win_parent w) = None")
      case True
      then show ?thesis by (auto simp: Some Let_def)
    next
      case False
      then obtain v where v: "win_parent w \<noteq> c" "window ?t (win_parent w) = Some v" by blast
      show ?thesis
        unfolding ancestor_walk.simps damage_levels.simps Some option.case v Let_def if_not_P [OF v(1)]
        by (simp add: Suc.IH add_level_def)
    qed
  qed simp
qed simp

text \<open>A step of a pixel is a step of the box.\<close>

lemma pixel_up_None:
  "window t c = None \<Longrightarrow> pixel_up t (c, p) = None"
  "window t c = Some w \<Longrightarrow> win_parent w = c \<Longrightarrow> pixel_up t (c, p) = None"
  "window t c = Some w \<Longrightarrow> window t (win_parent w) = None \<Longrightarrow> pixel_up t (c, p) = None"
  by (auto simp: pixel_up_def split: prod.splits)

lemma pixel_up_box:
  fixes rx ry rw rh :: int
  assumes "window t c = Some w" "win_parent w \<noteq> c" "window t (win_parent w) = Some v"
  defines "l \<equiv> max (rx + sint (win_x w)) 0" and "tp \<equiv> max (ry + sint (win_y w)) 0"
    and "r \<equiv> min (rx + sint (win_x w) + rw) (uint (win_width v))"
    and "b \<equiv> min (ry + sint (win_y w) + rh) (uint (win_height v))"
  shows "(\<exists>p. in_box (rx, ry, rw, rh) p \<and> pixel_up t (c, p) = Some s) \<longleftrightarrow>
    fst s = win_parent w \<and> l \<le> fst (snd s) \<and> fst (snd s) < r \<and> tp \<le> snd (snd s) \<and> snd (snd s) < b"
proof -
  obtain a x y where s: "s = (a, x, y)" by (cases s)
  have up: "pixel_up t (c, p) = Some s \<longleftrightarrow> a = win_parent w \<and> x = fst p + sint (win_x w) \<and> y = snd p + sint (win_y w) \<and>
      0 \<le> x \<and> x < uint (win_width v) \<and> 0 \<le> y \<and> y < uint (win_height v)" for p
    using assms(1-3) by (cases p) (auto simp: pixel_up_def s Let_def)
  show ?thesis
  proof
    assume "\<exists>p. in_box (rx, ry, rw, rh) p \<and> pixel_up t (c, p) = Some s"
    then show "fst s = win_parent w \<and> l \<le> fst (snd s) \<and> fst (snd s) < r \<and> tp \<le> snd (snd s) \<and> snd (snd s) < b"
      unfolding up by (auto simp: in_box_def s l_def r_def tp_def b_def)
  next
    assume h: "fst s = win_parent w \<and> l \<le> fst (snd s) \<and> fst (snd s) < r \<and> tp \<le> snd (snd s) \<and> snd (snd s) < b"
    show "\<exists>p. in_box (rx, ry, rw, rh) p \<and> pixel_up t (c, p) = Some s"
      unfolding up using h
      by (intro exI [of _ "(x - sint (win_x w), y - sint (win_y w))"])
        (auto simp: in_box_def s l_def r_def tp_def b_def)
  qed
qed

lemma appears_step:
  "appears t c p a q \<longleftrightarrow> (a, q) = (c, p) \<or> (\<exists>c' p'. pixel_up t (c, p) = Some (c', p') \<and> appears t c' p' a q)"
proof
  assume "appears t c p a q"
  then show "(a, q) = (c, p) \<or> (\<exists>c' p'. pixel_up t (c, p) = Some (c', p') \<and> appears t c' p' a q)"
    unfolding appears_def by (rule converse_rtranclpE) auto
next
  assume "(a, q) = (c, p) \<or> (\<exists>c' p'. pixel_up t (c, p) = Some (c', p') \<and> appears t c' p' a q)"
  then show "appears t c p a q"
    unfolding appears_def by (auto intro: converse_rtranclp_into_rtranclp)
qed

lemma pixel_up_dist:
  assumes "pixel_up t (c, p) = Some (c', p')" "root_dist (parent_of t) ROOT_WINDOW c k"
    "parent_of t ROOT_WINDOW = Some ROOT_WINDOW"
  shows "\<exists>m. k = Suc m \<and> root_dist (parent_of t) ROOT_WINDOW c' m"
proof -
  obtain w where w: "window t c = Some w" "win_parent w \<noteq> c" "c' = win_parent w"
    using assms(1) by (cases p) (auto simp: pixel_up_def Let_def split: option.splits if_splits)
  then have par: "parent_of t c = Some c'" by (simp add: parent_of_def)
  then have "c \<noteq> ROOT_WINDOW" using assms(3) w by auto
  with assms(2) par show ?thesis by (auto elim: root_distE)
qed

lemma appears_dist:
  assumes "appears t c p a q" "root_dist (parent_of t) ROOT_WINDOW c k"
    "parent_of t ROOT_WINDOW = Some ROOT_WINDOW"
  shows "\<exists>m. root_dist (parent_of t) ROOT_WINDOW a m \<and> m \<le> k \<and> (m = k \<longrightarrow> (a, q) = (c, p))"
  using assms(1,2) unfolding appears_def
proof (induction arbitrary: k rule: converse_rtranclp_induct2)
  case refl
  then show ?case by blast
next
  case (step c p c' p')
  obtain m where m: "k = Suc m" "root_dist (parent_of t) ROOT_WINDOW c' m"
    using pixel_up_dist [OF step(1) step(4) assms(3)] by blast
  with step(3) [OF m(2)] show ?case by (auto simp: le_Suc_eq)
qed

definition in_boxes :: "(ResourceId \<times> box) list \<Rightarrow> ResourceId \<Rightarrow> int \<times> int \<Rightarrow> bool" where
  "in_boxes levels a q \<longleftrightarrow> (case map_of levels a of None \<Rightarrow> False | Some b \<Rightarrow> in_box b q)"

text \<open>The boxes are never empty, lie in the parent and belong to ever nearer windows to the root.\<close>

definition level_ok :: "ResourceTable \<Rightarrow> ResourceId \<times> box \<Rightarrow> bool" where
  "level_ok t l \<longleftrightarrow> (case l of (a, x, y, w, h) \<Rightarrow> 0 \<le> x \<and> 0 \<le> y \<and> 0 < w \<and> 0 < h \<and>
     (\<exists>v. window t a = Some v \<and> x + w \<le> uint (win_width v) \<and> y + h \<le> uint (win_height v)))"

lemma damage_levels_exact:
  assumes "root_dist (parent_of t) ROOT_WINDOW c k" "k \<le> n" "parent_of t ROOT_WINDOW = Some ROOT_WINDOW"
  shows "list_all (level_ok t) (damage_levels t n c b) \<and>
    (\<forall>l\<in>set (damage_levels t n c b). \<exists>m<k. root_dist (parent_of t) ROOT_WINDOW (fst l) m) \<and>
    distinct (map fst (damage_levels t n c b)) \<and>
    (\<forall>a q. (\<exists>p. in_box b p \<and> appears t c p a q) \<longleftrightarrow>
       (if a = c then in_box b q else in_boxes (damage_levels t n c b) a q))"
  using assms(1,2)
proof (induction n arbitrary: c k b)
  case 0
  then have "c = ROOT_WINDOW" by (auto elim: root_distE)
  then obtain w where "window t c = Some w" "win_parent w = c"
    using assms(3) by (auto simp: parent_of_def)
  then have "pixel_up t (c, p) = None" for p by (rule pixel_up_None(2))
  then have "appears t c p a q \<longleftrightarrow> (a, q) = (c, p)" for p a q
    using appears_step [of t c p a q] by simp
  then show ?case by (auto simp: in_boxes_def)
next
  case (Suc n)
  obtain rx ry rw rh where b: "b = (rx, ry, rw, rh)" by (cases b)
  have self: "p = q" if ap: "appears t c p c q" for p q
  proof -
    obtain m where "root_dist (parent_of t) ROOT_WINDOW c m" "m = k \<longrightarrow> (c, q) = (c, p)"
      using appears_dist [OF ap Suc.prems(1) assms(3)] by blast
    then show ?thesis using root_dist_unique [OF Suc.prems(1)] by blast
  qed
  have none: ?case if levels: "damage_levels t (Suc n) c b = []"
      and stuck: "\<And>p s. in_box b p \<Longrightarrow> pixel_up t (c, p) \<noteq> Some s"
  proof -
    have only: "appears t c p a q \<longleftrightarrow> a = c \<and> q = p" if "in_box b p" for p a q
      using appears_step [of t c p a q] stuck [OF that] by auto
    have "(\<exists>p. in_box b p \<and> appears t c p a q) \<longleftrightarrow> (if a = c then in_box b q else False)" for a q
      using only by metis
    then have "(\<exists>p. in_box b p \<and> appears t c p a q) \<longleftrightarrow>
       (if a = c then in_box b q else in_boxes (damage_levels t (Suc n) c b) a q)" for a q
      unfolding levels by (simp add: in_boxes_def)
    then show ?thesis unfolding levels by simp
  qed
  show ?case
  proof (cases "\<exists>w v. window t c = Some w \<and> win_parent w \<noteq> c \<and> window t (win_parent w) = Some v")
    case False
    have "damage_levels t (Suc n) c b = []"
      using False by (auto simp: b split: option.splits)
    moreover have "pixel_up t (c, p) \<noteq> Some s" for p s
      using False by (auto simp: pixel_up_def split: option.splits prod.splits if_splits)
    ultimately show ?thesis by (rule none)
  next
    case True
    then obtain w v where wv: "window t c = Some w" "win_parent w \<noteq> c" "window t (win_parent w) = Some v"
      by blast
    define l tp r d where "l = max (rx + sint (win_x w)) 0" and "tp = max (ry + sint (win_y w)) 0"
      and "r = min (rx + sint (win_x w) + rw) (uint (win_width v))"
      and "d = min (ry + sint (win_y w) + rh) (uint (win_height v))"
    let ?c = "win_parent w" and ?b = "(l, tp, r - l, d - tp)"
    note up = pixel_up_box [OF wv, of rx ry rw rh, folded b l_def tp_def r_def d_def]
    show ?thesis
    proof (cases "r \<le> l \<or> d \<le> tp")
      case True
      have "damage_levels t (Suc n) c b = []"
        using True by (simp add: b wv l_def tp_def r_def d_def Let_def)
      moreover have "pixel_up t (c, p) \<noteq> Some s" if "in_box b p" for p s
      proof
        assume "pixel_up t (c, p) = Some s"
        with \<open>in_box b p\<close> have "\<exists>p. in_box b p \<and> pixel_up t (c, p) = Some s" by blast
        then show False using True unfolding up by linarith
      qed
      ultimately show ?thesis by (rule none)
    next
      case False
      have levels: "damage_levels t (Suc n) c b = (?c, ?b) # damage_levels t n ?c ?b"
        using False by (simp add: b wv l_def tp_def r_def d_def Let_def)
      have box: "(\<exists>p. in_box b p \<and> pixel_up t (c, p) = Some (c', p')) \<longleftrightarrow> c' = ?c \<and> in_box ?b p'" for c' p'
        using up [of "(c', p')"] by (cases p') (auto simp: in_box_def)
      have "(l, tp) \<in> {q. in_box ?b q}" using False by (auto simp: in_box_def)
      then obtain p0 where "pixel_up t (c, p0) = Some (?c, (l, tp))" using box by blast
      then obtain m where m: "k = Suc m" "root_dist (parent_of t) ROOT_WINDOW ?c m"
        using pixel_up_dist [OF _ Suc.prems(1) assms(3)] by blast
      have mn: "m \<le> n" using m(1) Suc.prems(2) by simp
      note IH = Suc.IH [OF m(2) mn, of ?b]
      let ?ls = "damage_levels t n ?c ?b"
      have ok: "list_all (level_ok t) ?ls" and dist: "\<forall>l\<in>set ?ls. \<exists>j<m. root_dist (parent_of t) ROOT_WINDOW (fst l) j"
        and distinct: "distinct (map fst ?ls)"
        and exact: "\<And>a q. (\<exists>p. in_box ?b p \<and> appears t ?c p a q) \<longleftrightarrow> (if a = ?c then in_box ?b q else in_boxes ?ls a q)"
        using IH by blast+
      have away: "?c \<notin> fst ` set ?ls"
      proof
        assume "?c \<in> fst ` set ?ls"
        then obtain x where x: "x \<in> set ?ls" "fst x = ?c" by force
        obtain j where "j < m" "root_dist (parent_of t) ROOT_WINDOW (fst x) j" using bspec [OF dist x(1)] by blast
        then show False using root_dist_unique [OF m(2)] unfolding x(2) by blast
      qed
      have "level_ok t (?c, ?b)"
        using False wv by (auto simp: level_ok_def l_def tp_def r_def d_def)
      moreover have "\<forall>l\<in>set ((?c, ?b) # ?ls). \<exists>j<k. root_dist (parent_of t) ROOT_WINDOW (fst l) j"
        using dist m by (auto simp: less_Suc_eq)
      moreover note away
      moreover have "(\<exists>p. in_box b p \<and> appears t c p a q) \<longleftrightarrow>
          (if a = c then in_box b q else in_boxes ((?c, ?b) # ?ls) a q)" for a q
      proof (cases "a = c")
        case True
        have "appears t c p c q \<longleftrightarrow> p = q" for p
          using self [of p q] by (auto simp: appears_def)
        then show ?thesis unfolding True by (simp del: split_paired_Ex)
      next
        case other: False
        have "(\<exists>p. in_box b p \<and> appears t c p a q) \<longleftrightarrow> (\<exists>p'. in_box ?b p' \<and> appears t ?c p' a q)"
        proof
          assume "\<exists>p. in_box b p \<and> appears t c p a q"
          then obtain p where p: "in_box b p" "appears t c p a q" by blast
          then obtain c' p' where "pixel_up t (c, p) = Some (c', p')" "appears t c' p' a q"
            using appears_step [of t c p a q] other by blast
          then show "\<exists>p'. in_box ?b p' \<and> appears t ?c p' a q" using box [of c' p'] p(1) by blast
        next
          assume "\<exists>p'. in_box ?b p' \<and> appears t ?c p' a q"
          then obtain p' where p': "in_box ?b p'" "appears t ?c p' a q" by blast
          then obtain p where "in_box b p" "pixel_up t (c, p) = Some (?c, p')" using box [of ?c p'] by blast
          then show "\<exists>p. in_box b p \<and> appears t c p a q" using appears_step [of t c p a q] p'(2) by blast
        qed
        also have "\<dots> \<longleftrightarrow> in_boxes ((?c, ?b) # ?ls) a q"
          unfolding exact by (simp add: in_boxes_def)
        finally show ?thesis using other by simp
      qed
      ultimately show ?thesis using ok distinct unfolding levels by simp
    qed
  qed
qed

text \<open>What one level does to the rectangles of the objects.\<close>

definition box_rect :: "box \<Rightarrow> RegionRect" where
  "box_rect b = (case b of (x, y, w, h) \<Rightarrow> \<lparr>rect_x = i16_or_max x, rect_y = i16_or_max y,
     rect_width = u16_or_max w, rect_height = u16_or_max h\<rparr>)"

abbreviation object_rects :: "(u32, DamageObject) hashmap \<Rightarrow> u32 \<Rightarrow> (ResourceId \<times> RegionRect list) option" where
  "object_rects objs i \<equiv> map_option (\<lambda>d. (dmg_drawable d, dmg_rects d)) (hm_get objs i)"

lemma accumulate_object_rects:
  "(dmg_drawable (fst (accumulate_object cl a rect g f i d)), dmg_rects (fst (accumulate_object cl a rect g f i d))) =
    (dmg_drawable d, dmg_rects d @ [rect])"
  by (simp add: accumulate_object_def Let_def)

lemma accumulate_objects_rects:
  assumes "distinct ids"
  shows "object_rects (fst (accumulate_objects (accumulate_object cl a rect g f) ids (objs, pending))) i =
    (if i \<in> set ids then map_option (\<lambda>(dr, rs). (dr, rs @ [rect])) (object_rects objs i)
     else object_rects objs i)"
  using assms
proof (induction ids arbitrary: objs pending)
  case (Cons k ids)
  show ?case
  proof (cases "hm_get objs k")
    case None
    then show ?thesis using Cons by auto
  next
    case (Some d)
    obtain d' ns where d': "accumulate_object cl a rect g f k d = (d', ns)"
      by (cases "accumulate_object cl a rect g f k d")
    then have "(dmg_drawable d', dmg_rects d') = (dmg_drawable d, dmg_rects d @ [rect])"
      using accumulate_object_rects [of cl a rect g f k d] by simp
    then show ?thesis using Cons Some d' by auto
  qed
qed simp

lemma accumulate_objects_wf:
  "hm_wf objs \<Longrightarrow> hm_wf (fst (accumulate_objects f ids (objs, pending)))"
  by (induction ids arbitrary: objs pending) (auto split: option.splits prod.splits)

lemma level_ids:
  assumes "hm_wf objs"
  shows "distinct (map fst (filter (\<lambda>(i, d). dmg_drawable d = a) objs))"
    "i \<in> set (map fst (filter (\<lambda>(i, d). dmg_drawable d = a) objs)) \<longleftrightarrow>
      (case hm_get objs i of None \<Rightarrow> False | Some d \<Rightarrow> dmg_drawable d = a)"
proof -
  show "distinct (map fst (filter (\<lambda>(i, d). dmg_drawable d = a) objs))"
    using assms unfolding hm_wf_def by (rule distinct_map_filter)
  have "(i, d) \<in> set objs \<longleftrightarrow> hm_get objs i = Some d" for d
    using assms unfolding hm_wf_def hm_get_def by simp
  then show "i \<in> set (map fst (filter (\<lambda>(i, d). dmg_drawable d = a) objs)) \<longleftrightarrow>
      (case hm_get objs i of None \<Rightarrow> False | Some d \<Rightarrow> dmg_drawable d = a)"
    by (cases "hm_get objs i") force+
qed

lemma add_level_objects:
  assumes "hm_wf (st_damage_objects st)" and st'_def: "st' = fst (add_level (a, b) (st, pending))"
  shows "hm_wf (st_damage_objects st') \<and> st_resources st' = st_resources st \<and>
    object_rects (st_damage_objects st') i =
      map_option (\<lambda>(dr, rs). (dr, if dr = a then rs @ [box_rect b] else rs)) (object_rects (st_damage_objects st) i)"
proof -
  obtain x y w h where b: "b = (x, y, w, h)" by (cases b)
  let ?ids = "map fst (filter (\<lambda>(i, d). dmg_drawable d = a) (st_damage_objects st))"
  let ?f = "accumulate_object (st_clients st) a (box_rect b) (report_geometry st a) (drawable_full_rect st a)"
  let ?r = "accumulate_objects ?f ?ids (st_damage_objects st, pending)"
  have st': "st' = set_damage_objects (fst ?r) st"
    by (simp add: st'_def add_level_def b accumulate_at_level_def box_rect_def Let_def split: prod.splits)
  have "object_rects (fst ?r) i =
      map_option (\<lambda>(dr, rs). (dr, if dr = a then rs @ [box_rect b] else rs)) (object_rects (st_damage_objects st) i)"
    unfolding accumulate_objects_rects [OF level_ids(1) [OF assms(1)]] level_ids(2) [OF assms(1)]
    by (cases "hm_get (st_damage_objects st) i") simp_all
  then show ?thesis
    using accumulate_objects_wf [OF assms(1)] by (simp add: st' set_damage_objects_def)
qed

lemma add_levels_objects:
  assumes "hm_wf (st_damage_objects (fst s))"
  shows "object_rects (st_damage_objects (fst (fold add_level ls s))) i =
    map_option (\<lambda>(dr, rs). (dr, rs @ map (\<lambda>l. box_rect (snd l)) (filter (\<lambda>l. fst l = dr) ls)))
      (object_rects (st_damage_objects (fst s)) i)"
  using assms
proof (induction ls arbitrary: s)
  case Nil
  then show ?case by (cases "hm_get (st_damage_objects (fst s)) i") simp_all
next
  case (Cons l ls)
  obtain st pending where s: "s = (st, pending)" by (cases s)
  obtain a b where l: "l = (a, b)" by (cases l)
  note one = add_level_objects [of st _ a b pending i, OF _ HOL.refl]
  have "object_rects (st_damage_objects (fst (fold add_level (l # ls) s))) i =
      map_option (\<lambda>(dr, rs). (dr, rs @ map (\<lambda>l. box_rect (snd l)) (filter (\<lambda>l. fst l = dr) ls)))
      (object_rects (st_damage_objects (fst (add_level l s))) i)"
    using Cons.IH [of "add_level l s"] one Cons.prems by (simp add: s l)
  moreover have "object_rects (st_damage_objects (fst (add_level l s))) i =
      map_option (\<lambda>(dr, rs). (dr, if dr = a then rs @ [box_rect b] else rs)) (object_rects (st_damage_objects st) i)"
    using one Cons.prems by (simp add: s l)
  ultimately show ?case
    by (cases "hm_get (st_damage_objects st) i") (auto simp: s l)
qed

text \<open>Boxes inside windows are rectangles.\<close>

lemma box_rect_pixels:
  assumes "- 32768 \<le> x" "x \<le> 32767" "- 32768 \<le> y" "y \<le> 32767" "0 \<le> w" "w \<le> 65535" "0 \<le> h" "h \<le> 65535"
  shows "covers (box_rect (x, y, w, h)) p \<longleftrightarrow> in_box (x, y, w, h) p"
proof -
  have "edge_l (box_rect (x, y, w, h)) = x" "edge_t (box_rect (x, y, w, h)) = y"
    "edge_r (box_rect (x, y, w, h)) = x + w" "edge_b (box_rect (x, y, w, h)) = y + h"
    using assms by (simp_all add: box_rect_def edge_defs i16_or_max_def u16_or_max_def
        signed_of_int signed_take_bit_int_eq_self unsigned_of_int take_bit_int_eq_self)
  then show ?thesis by (simp add: covers_def in_box_def)
qed

definition leaf_box :: "RegionRect \<Rightarrow> box" where
  "leaf_box r = (sint (rect_x r), sint (rect_y r), uint (rect_width r), uint (rect_height r))"

lemma leaf_box_rect: "in_box (leaf_box r) p \<longleftrightarrow> covers r p"
  by (simp add: leaf_box_def in_box_def covers_def edge_defs)

lemma box_rect_leaf: "box_rect (leaf_box r) = r"
  using i16_range u16_range by (simp add: leaf_box_def box_rect_def i16_or_max_def u16_or_max_def)

definition small_windows :: "ResourceTable \<Rightarrow> bool" where
  "small_windows t \<longleftrightarrow> (\<forall>i w. window t i = Some w \<longrightarrow> uint (win_width w) \<le> 32767 \<and> uint (win_height w) \<le> 32767)"

lemma level_rect_pixels:
  assumes "level_ok t (a, b)" "small_windows t"
  shows "covers (box_rect b) p \<longleftrightarrow> in_box b p"
proof -
  obtain x y w h where b: "b = (x, y, w, h)" by (cases b)
  obtain v where v: "window t a = Some v" "0 \<le> x" "0 \<le> y" "0 < w" "0 < h"
      "x + w \<le> uint (win_width v)" "y + h \<le> uint (win_height v)"
    using assms(1) by (auto simp: level_ok_def b)
  have "uint (win_width v) \<le> 32767" "uint (win_height v) \<le> 32767"
    using assms(2) v(1) by (simp_all add: small_windows_def)
  then show ?thesis unfolding b using v by (intro box_rect_pixels) linarith+
qed

lemma map_of_filter_fst:
  "distinct (map fst ls) \<Longrightarrow>
    filter (\<lambda>l. fst l = a) ls = (case map_of ls a of None \<Rightarrow> [] | Some b \<Rightarrow> [(a, b)])"
proof (induction ls)
  case (Cons l ls)
  have "filter (\<lambda>l. fst l = a) ls = []" if "fst l = a"
  proof -
    have "fst l \<notin> fst ` set ls" using Cons.prems by simp
    then show ?thesis unfolding that by (auto simp: filter_empty_conv image_iff)
  qed
  then show ?case using Cons by (cases l) auto
qed simp

text \<open>
  Claim C27. A paint of a rectangle in a window adds to every damage object of the window and of its ancestors
  exactly one rectangle: the part of the paint that the ancestors in between show, at its place in the
  ancestor. Where nothing is shown, and to all other objects, nothing is added. (Windows no larger than
  32767 and a tree at most 32 deep above the window: the bound of the walk.)
\<close>

theorem damage_reaches_ancestors:
  assumes "parent_of (st_resources st) ROOT_WINDOW = Some ROOT_WINDOW"
    and "root_dist (parent_of (st_resources st)) ROOT_WINDOW drawable k" "k \<le> 32"
    and "small_windows (st_resources st)" "hm_wf (st_damage_objects st)"
    and "hm_get (st_damage_objects st) i = Some d" "\<not> rect_is_empty rect"
    and "accumulate_damage_to_state ts drawable rect st = (st', dropped)"
  shows "\<exists>d'. hm_get (st_damage_objects st') i = Some d' \<and> dmg_drawable d' = dmg_drawable d \<and>
    (let shown = {q. \<exists>p. covers rect p \<and> appears (st_resources st) drawable p (dmg_drawable d) q}
     in if shown = {} then dmg_rects d' = dmg_rects d
        else \<exists>r. dmg_rects d' = dmg_rects d @ [r] \<and> pixels_of [r] = shown)"
proof -
  let ?t = "st_resources st" and ?b = "leaf_box rect" and ?a = "dmg_drawable d"
  let ?ls = "(drawable, ?b) # damage_levels ?t 32 drawable ?b"
  define shown where "shown = {q. \<exists>p. covers rect p \<and> appears ?t drawable p ?a q}"
  define s where "s = fold add_level ?ls (st, [])"
  note exact = damage_levels_exact [OF assms(2,3,1), of ?b]
  have "rect_width rect \<noteq> 0" "rect_height rect \<noteq> 0" using assms(7) by (auto simp: rect_is_empty_def)
  moreover have res: "st_resources (fst (add_level (drawable, ?b) (st, []))) = ?t"
    using add_level_objects [OF assms(5) HOL.refl, of drawable ?b "[]" i] by blast
  ultimately have "accumulate_damage_to_state ts drawable rect st = send_notifies ts (snd s) (fst s, [])"
    by (simp add: accumulate_damage_to_state_def ancestor_walk_levels ANCESTOR_WALK_MAX_DEPTH_def s_def Let_def
        add_level_def leaf_box_def res [unfolded add_level_def leaf_box_def prod.case] split: prod.splits)
  then have "st_damage_objects st' = st_damage_objects (fst s)"
    using assms(8) send_notifies_tables by metis
  then have objs: "object_rects (st_damage_objects st') i =
      Some (?a, dmg_rects d @ map (\<lambda>l. box_rect (snd l)) (filter (\<lambda>l. fst l = ?a) ?ls))"
    using add_levels_objects [of "(st, [])" ?ls i] assms(5,6) by (simp add: s_def)
  have "\<forall>l\<in>set (damage_levels ?t 32 drawable ?b). \<exists>m<k. root_dist (parent_of ?t) ROOT_WINDOW (fst l) m"
    using exact by blast
  then have "drawable \<notin> fst ` set (damage_levels ?t 32 drawable ?b)"
    using root_dist_unique [OF assms(2)] by fastforce
  then have distinct: "distinct (map fst ?ls)" using exact by simp
  have all: "(\<exists>p. in_box ?b p \<and> appears ?t drawable p ?a q) \<longleftrightarrow>
      (if ?a = drawable then in_box ?b q else in_boxes (damage_levels ?t 32 drawable ?b) ?a q)" for q
    using exact by blast
  have "shown = {q. in_boxes ?ls ?a q}"
    unfolding shown_def leaf_box_rect [symmetric] all by (simp add: in_boxes_def)
  then have shown: "shown = (case map_of ?ls ?a of None \<Rightarrow> {} | Some b \<Rightarrow> {q. in_box b q})"
    by (auto simp: in_boxes_def split: option.splits)
  have ok: "level_ok ?t (?a, b)" if "map_of ?ls ?a = Some b" "?a \<noteq> drawable" for b
    using exact map_of_SomeD [of "damage_levels ?t 32 drawable ?b" ?a b] that by (auto simp: list_all_iff)
  have shown_level: "shown = {q. covers (box_rect b) q} \<and> shown \<noteq> {}" if b: "map_of ?ls ?a = Some b" for b
  proof (cases "?a = drawable")
    case True
    then have "b = ?b" using b by simp
    moreover have "covers rect (edge_l rect, edge_t rect)"
      using assms(7) edge_bounds(5,6) [of rect] unfolding empty_edges covers_def by auto
    ultimately show ?thesis using shown b by (auto simp: box_rect_leaf leaf_box_rect)
  next
    case False
    obtain x y w h where xy: "b = (x, y, w, h)" by (cases b)
    have "in_box b (x, y)" using ok [OF b False] by (auto simp: level_ok_def in_box_def xy)
    then show ?thesis using shown b level_rect_pixels [OF ok [OF b False] assms(4)] by auto
  qed
  obtain d' where d': "hm_get (st_damage_objects st') i = Some d'" "dmg_drawable d' = ?a"
      "dmg_rects d' = dmg_rects d @ map (\<lambda>l. box_rect (snd l)) (filter (\<lambda>l. fst l = ?a) ?ls)"
    using objs by auto
  show ?thesis
  proof (cases "map_of ?ls ?a")
    case None
    then have "shown = {}" "dmg_rects d' = dmg_rects d"
      using shown d'(3) unfolding map_of_filter_fst [OF distinct] by simp_all
    then show ?thesis using d' unfolding shown_def [symmetric] Let_def by simp
  next
    case (Some b)
    then have "dmg_rects d' = dmg_rects d @ [box_rect b]"
      using d'(3) unfolding map_of_filter_fst [OF distinct] by simp
    then show ?thesis
      using d' shown_level [OF Some] unfolding shown_def [symmetric] Let_def by (auto simp: pixels_of_def)
  qed
qed

text \<open>A window at the right edge of the root window; the object 0x200010 watches the root window and
  0x200011 the window.\<close>

definition edge_window :: Window where
  "edge_window = root_window\<lparr>win_id := 0x200005, win_x := 795, win_width := 10, win_height := 10\<rparr>"

definition root_object :: DamageObject where
  "root_object = \<lparr>dmg_owner = 2, dmg_drawable = ROOT_WINDOW, dmg_level = 2, dmg_rects = [], dmg_fired = False,
     dmg_last_geometry = None\<rparr>"

definition damage_state :: ServerState where
  "damage_state = region_state
     \<lparr>st_resources := default_table\<lparr>rt_windows := hm_insert 0x200005 edge_window (rt_windows default_table)\<rparr>,
      st_damage_objects := [(0x200010, root_object),
        (0x200011, root_object\<lparr>dmg_drawable := 0x200005,
           dmg_rects := [\<lparr>rect_x = 0, rect_y = 0, rect_width = 10, rect_height = 10\<rparr>]\<rparr>)]\<rparr>"

lemma damage_state_windows:
  "window (st_resources damage_state) i =
    (if i = 0x200005 then Some edge_window else if i = ROOT_WINDOW then Some root_window else None)"
  by (simp add: damage_state_def window_def default_table_def)

theorem damage_reaches_ancestors_witness:
  "\<exists>r d'. hm_get (st_damage_objects (fst (accumulate_damage_to_state 0 0x200005
        \<lparr>rect_x = 0, rect_y = 0, rect_width = 10, rect_height = 10\<rparr> damage_state))) 0x200010 = Some d' \<and>
      dmg_rects d' = [r] \<and> covers r (799, 9)"
proof -
  let ?t = "st_resources damage_state"
  let ?rect = "\<lparr>rect_x = 0, rect_y = 0, rect_width = 10, rect_height = 10\<rparr> :: RegionRect"
  obtain st' dropped where run: "accumulate_damage_to_state 0 0x200005 ?rect damage_state = (st', dropped)"
    by (cases "accumulate_damage_to_state 0 0x200005 ?rect damage_state")
  have root: "parent_of ?t ROOT_WINDOW = Some ROOT_WINDOW"
    by (simp add: parent_of_def damage_state_windows root_window_def ROOT_WINDOW_def)
  have "parent_of ?t 0x200005 = Some ROOT_WINDOW"
    by (simp add: parent_of_def damage_state_windows edge_window_def root_window_def)
  then have dist: "root_dist (parent_of ?t) ROOT_WINDOW 0x200005 (Suc 0)"
    by (intro root_dist.step [of _ _ _ ROOT_WINDOW] root_dist.zero)
      (simp_all add: ROOT_WINDOW_def)
  have small: "small_windows ?t"
    by (simp add: small_windows_def damage_state_windows edge_window_def root_window_def)
  have wf: "hm_wf (st_damage_objects damage_state)"
    and obj: "hm_get (st_damage_objects damage_state) 0x200010 = Some root_object"
    by (simp_all add: damage_state_def hm_wf_def hm_get_Cons)
  have "pixel_up ?t (0x200005, (4, 9)) = Some (ROOT_WINDOW, (799, 9))"
    by (simp add: pixel_up_def damage_state_windows edge_window_def root_window_def ROOT_WINDOW_def)
  then have "appears ?t 0x200005 (4, 9) ROOT_WINDOW (799, 9)"
    by (auto simp: appears_step [of _ "0x200005"] appears_def)
  moreover have "covers ?rect (4, 9)" by (simp add: covers_def edge_defs)
  ultimately have shown: "(799, 9) \<in> {q. \<exists>p. covers ?rect p \<and> appears ?t 0x200005 p (dmg_drawable root_object) q}"
    by (auto simp: root_object_def)
  have "\<not> rect_is_empty ?rect" by (simp add: rect_is_empty_def)
  note claim = damage_reaches_ancestors [OF root dist _ small wf obj this run, unfolded Let_def]
  obtain d' where d': "hm_get (st_damage_objects st') 0x200010 = Some d'"
      and r: "\<exists>r. dmg_rects d' = dmg_rects root_object @ [r] \<and>
        pixels_of [r] = {q. \<exists>p. covers ?rect p \<and> appears ?t 0x200005 p (dmg_drawable root_object) q}"
    using claim shown by (auto split: if_splits)
  then show ?thesis
    using shown unfolding run by (auto simp: root_object_def pixels_of_def)
qed

text \<open>The whole damage of an object is taken into the region 0x200001.\<close>

theorem damage_subtract_splits_witness:
  "pixels_of (region_rects (damage_subtract 0 2
      (u32_to_le_bytes 0x200011 @ u32_to_le_bytes 0x200002 @ u32_to_le_bytes 0x200001) damage_state) 0x200001) =
    pixels_of [\<lparr>rect_x = 0, rect_y = 0, rect_width = 10, rect_height = 10\<rparr>] \<inter>
    pixels_of [\<lparr>rect_x = 4, rect_y = 4, rect_width = 10, rect_height = 2\<rparr>]"
proof -
  let ?body = "u32_to_le_bytes 0x200011 @ u32_to_le_bytes 0x200002 @ u32_to_le_bytes 0x200001"
  have body: "parse_u32_triplet ?body = Some (0x200011, 0x200002, 0x200001)" by code_simp
  obtain d where d: "hm_get (st_damage_objects damage_state) 0x200011 = Some d"
      "dmg_rects d = [\<lparr>rect_x = 0, rect_y = 0, rect_width = 10, rect_height = 10\<rparr>]"
    by (simp add: damage_state_def hm_get_Cons)
  then have fits: "list_all fits (dmg_rects d)" by (simp add: fits_def edge_defs)
  have "region_rects damage_state 0x200002 = [\<lparr>rect_x = 4, rect_y = 4, rect_width = 10, rect_height = 2\<rparr>]"
    using region_state_table by (simp add: region_rects_def damage_state_def hm_get_Cons)
  then show ?thesis
    using damage_subtract_splits [OF d(1) fits body _ HOL.refl, of 0 2] d(2) by (simp add: Let_def)
qed

section \<open>The number of events\<close>

text \<open>Paints that reach one object between two Subtracts, its geometry unchanged.\<close>

fun paint_run ::
  "(ClientId, ClientState) hashmap \<Rightarrow> ResourceId \<Rightarrow> RegionRect \<Rightarrow> RegionRect \<Rightarrow> u32 \<Rightarrow> RegionRect list
    \<Rightarrow> DamageObject \<Rightarrow> DamageObject \<times> PendingNotify list" where
  "paint_run cl a geom full i [] d = (d, [])"
| "paint_run cl a geom full i (rect # rects) d =
     (case accumulate_object cl a rect geom full i d of
        (d1, notifies) \<Rightarrow>
          (case paint_run cl a geom full i rects d1 of (d2, further) \<Rightarrow> (d2, notifies @ further)))"

lemma accumulate_object_fields:
  assumes "accumulate_object cl a rect geom full i d = (d', ns)"
  shows "dmg_level d' = dmg_level d" "dmg_owner d' = dmg_owner d"
    "length ns = (if hm_contains cl (dmg_owner d) \<and> level_allows_emit d geom then 1 else 0)"
    "ns \<noteq> [] \<Longrightarrow> dmg_fired d' \<and> dmg_last_geometry d' = Some geom"
    "ns = [] \<Longrightarrow> dmg_fired d' = dmg_fired d \<and> dmg_last_geometry d' = dmg_last_geometry d"
  using assms by (auto simp: accumulate_object_def Let_def split: if_splits)

text \<open>An object that has told its client about this geometry is quiet in mode NonEmpty.\<close>

lemma paint_run_reported:
  assumes "dmg_level d = NON_EMPTY" "dmg_fired d" "dmg_last_geometry d = Some geom"
  shows "snd (paint_run cl a geom full i rects d) = []"
  using assms
proof (induction rects arbitrary: d)
  case (Cons rect rects)
  obtain d1 ns where o': "accumulate_object cl a rect geom full i d = (d1, ns)"
    by (cases "accumulate_object cl a rect geom full i d")
  have "\<not> level_allows_emit d geom"
    using Cons.prems by (simp add: level_allows_emit_def NON_EMPTY_def RAW_RECTANGLES_def DELTA_RECTANGLES_def BOUNDING_BOX_def)
  then have "ns = []" using accumulate_object_fields(3) [OF o'] by (simp del: hm_contains_iff)
  then show ?case
    using Cons.IH [of d1] Cons.prems accumulate_object_fields [OF o'] by (simp add: o' case_prod_beta)
qed simp

lemma paint_run_every:
  assumes "dmg_level d \<in> {RAW_RECTANGLES, DELTA_RECTANGLES, BOUNDING_BOX}" "hm_contains cl (dmg_owner d)"
  shows "length (snd (paint_run cl a geom full i rects d)) = length rects"
  using assms
proof (induction rects arbitrary: d)
  case (Cons rect rects)
  obtain d1 ns where o': "accumulate_object cl a rect geom full i d = (d1, ns)"
    by (cases "accumulate_object cl a rect geom full i d")
  have "level_allows_emit d geom" using Cons.prems(1) by (auto simp: level_allows_emit_def)
  then have "length ns = 1" using accumulate_object_fields(3) [OF o'] Cons.prems(2) by simp
  then show ?case
    using Cons.IH [of d1] Cons.prems accumulate_object_fields(1,2) [OF o'] by (simp add: o' case_prod_beta)
qed simp

lemma paint_run_silent:
  assumes "\<not> hm_contains cl (dmg_owner d) \<or>
    dmg_level d \<notin> {RAW_RECTANGLES, DELTA_RECTANGLES, BOUNDING_BOX, NON_EMPTY}"
  shows "snd (paint_run cl a geom full i rects d) = []"
  using assms
proof (induction rects arbitrary: d)
  case (Cons rect rects)
  obtain d1 ns where o': "accumulate_object cl a rect geom full i d = (d1, ns)"
    by (cases "accumulate_object cl a rect geom full i d")
  have "\<not> (hm_contains cl (dmg_owner d) \<and> level_allows_emit d geom)"
    using Cons.prems by (auto simp: level_allows_emit_def)
  then have "ns = []" using accumulate_object_fields(3) [OF o'] by (simp only: if_False length_0_conv)
  then show ?case
    using Cons.IH [of d1] Cons.prems accumulate_object_fields(1,2) [OF o'] by (simp add: o' case_prod_beta)
qed simp

text \<open>
  After a Subtract, an object in mode RawRectangles, DeltaRectangles or BoundingBox sends one event for
  every paint; in mode NonEmpty it sends one event for all of them; nothing is sent to an owner that is
  gone. (The comment at the flag promises at most one event also for BoundingBox.)
\<close>

theorem damage_event_counts:
  "length (snd (paint_run cl a geom full i rects (d\<lparr>dmg_fired := False\<rparr>))) =
    (if \<not> hm_contains cl (dmg_owner d) then 0
     else if dmg_level d \<in> {RAW_RECTANGLES, DELTA_RECTANGLES, BOUNDING_BOX} then length rects
     else if dmg_level d = NON_EMPTY then min 1 (length rects)
     else 0)"
proof (cases "hm_contains cl (dmg_owner d) \<and> dmg_level d = NON_EMPTY")
  case True
  let ?d = "d\<lparr>dmg_fired := False\<rparr>"
  have other: "dmg_level d \<notin> {RAW_RECTANGLES, DELTA_RECTANGLES, BOUNDING_BOX}"
    using True by (simp add: NON_EMPTY_def RAW_RECTANGLES_def DELTA_RECTANGLES_def BOUNDING_BOX_def)
  show ?thesis
  proof (cases rects)
    case (Cons rect rest)
    obtain d1 ns where o': "accumulate_object cl a rect geom full i ?d = (d1, ns)"
      by (cases "accumulate_object cl a rect geom full i ?d")
    have "level_allows_emit ?d geom" using True other by (simp add: level_allows_emit_def)
    then have ns: "length ns = 1" using accumulate_object_fields(3) [OF o'] True by simp
    then have "ns \<noteq> []" by auto
    then have "dmg_level d1 = NON_EMPTY" "dmg_fired d1" "dmg_last_geometry d1 = Some geom"
      using accumulate_object_fields [OF o'] True by auto
    then have "snd (paint_run cl a geom full i rest d1) = []" by (rule paint_run_reported)
    then show ?thesis using True other ns by (simp add: Cons o' case_prod_beta)
  qed simp
next
  case False
  then show ?thesis
    using paint_run_every [of "d\<lparr>dmg_fired := False\<rparr>" cl a geom full i rects]
      paint_run_silent [of cl "d\<lparr>dmg_fired := False\<rparr>" a geom full i rects] by auto
qed

end
