(* ===== verification/HitTest.thy ===== *)
theory HitTest
  imports Delivery Crossings
begin

text \<open>
  Where an input event belongs (\<open>crates/xserver-core/src/server.rs\<close>, \<open>core_loop/key_fanout.rs\<close>): the window
  under the pointer, the walk up to a window where the event is selected, and the lookup of the
  passive grabs of buttons and keys.

  The source descends recursively from a window to the topmost child that contains the point, with
  no bound; here the descent carries the number of windows of the table as a bound. In a tree of
  windows a descent passes each window at most once, so the bound is never the reason to stop
  (lemma \<open>hit_descent_unfold\<close> of \<open>HitTestClaims\<close>). The chain of ancestors is the one of \<open>Crossings\<close>:
  the source writes the same loop of 256 steps in each place.
\<close>

section \<open>The window under a point\<close>

definition rect_has_point :: "RegionRect \<Rightarrow> i16 \<Rightarrow> i16 \<Rightarrow> bool" where
  "rect_has_point r x y \<longleftrightarrow>
     (let rx = i32_of_i16 (rect_x r); ry = i32_of_i16 (rect_y r);
          rr = rx + i32_of_u16 (rect_width r); rb = ry + i32_of_u16 (rect_height r);
          px = i32_of_i16 x; py = i32_of_i16 y
      in px \<ge> rx \<and> py \<ge> ry \<and> px < rr \<and> py < rb)"

definition window_input_contains :: "ServerState \<Rightarrow> ResourceId \<Rightarrow> i16 \<Rightarrow> i16 \<Rightarrow> bool" where
  "window_input_contains st w x y =
     (case Option.bind (hm_get (st_shape_windows st) w) sw_input of
        None \<Rightarrow> True
      | Some rects \<Rightarrow> list_ex (\<lambda>r. rect_has_point r x y) rects)"

definition hit_test_child ::
  "ServerState \<Rightarrow> ResourceId \<Rightarrow> i16 \<Rightarrow> i16 \<Rightarrow> (ResourceId \<times> i16 \<times> i16) option" where
  "hit_test_child st child_id parent_x parent_y =
     (case window (st_resources st) child_id of
        None \<Rightarrow> None
      | Some child \<Rightarrow>
          if win_map_state child = Unmapped then None
          else
            let child_x = parent_x - win_x child; child_y = parent_y - win_y child
            in if sint child_x < 0 \<or> sint child_y < 0 \<or>
                  sint child_x \<ge> sint (i16_or_max (uint (win_width child))) \<or>
                  sint child_y \<ge> sint (i16_or_max (uint (win_height child))) \<or>
                  \<not> window_input_contains st child_id child_x child_y
               then None else Some (child_id, child_x, child_y))"

text \<open>Children are listed bottom to top.\<close>

fun first_hit ::
  "ServerState \<Rightarrow> ResourceId list \<Rightarrow> i16 \<Rightarrow> i16 \<Rightarrow> (ResourceId \<times> i16 \<times> i16) option" where
  "first_hit st [] x y = None"
| "first_hit st (c # cs) x y =
     (case hit_test_child st c x y of Some hit \<Rightarrow> Some hit | None \<Rightarrow> first_hit st cs x y)"

definition hit_test_children ::
  "ServerState \<Rightarrow> ResourceId \<Rightarrow> i16 \<Rightarrow> i16 \<Rightarrow> (ResourceId \<times> i16 \<times> i16) option" where
  "hit_test_children st parent x y =
     (case window (st_resources st) parent of
        None \<Rightarrow> None
      | Some w \<Rightarrow> first_hit st (rev (win_children w)) x y)"

definition direct_child_at :: "ServerState \<Rightarrow> ResourceId \<Rightarrow> i16 \<Rightarrow> i16 \<Rightarrow> ResourceId option" where
  "direct_child_at st parent x y = map_option fst (hit_test_children st parent x y)"

fun pointer_target_at_inner ::
  "ServerState \<Rightarrow> nat \<Rightarrow> ResourceId \<times> i16 \<times> i16 \<Rightarrow> ResourceId \<times> i16 \<times> i16" where
  "pointer_target_at_inner st 0 best = best"
| "pointer_target_at_inner st (Suc n) (parent, x, y) =
     (case hit_test_children st parent x y of
        None \<Rightarrow> (parent, x, y)
      | Some hit \<Rightarrow> pointer_target_at_inner st n hit)"

definition window_bound :: "ServerState \<Rightarrow> nat" where
  "window_bound st = hm_len (rt_windows (st_resources st))"

definition pointer_target_at ::
  "ServerState \<Rightarrow> ResourceId \<Rightarrow> i16 \<Rightarrow> i16 \<Rightarrow> (ResourceId \<times> i16 \<times> i16) option" where
  "pointer_target_at st top_level x y =
     (case window (st_resources st) top_level of
        None \<Rightarrow> None
      | Some w \<Rightarrow>
          if win_map_state w = Unmapped then None
          else Some (pointer_target_at_inner st (window_bound st) (top_level, x, y)))"

definition root_pointer_target_at ::
  "ServerState \<Rightarrow> i16 \<Rightarrow> i16 \<Rightarrow> (ResourceId \<times> i16 \<times> i16) option" where
  "root_pointer_target_at st x y = pointer_target_at st ROOT_WINDOW x y"

fun top_level_loop :: "ResourceTable \<Rightarrow> nat \<Rightarrow> ResourceId \<Rightarrow> ResourceId \<Rightarrow> ResourceId" where
  "top_level_loop t 0 current topmost = topmost"
| "top_level_loop t (Suc n) current topmost =
     (case window t current of
        None \<Rightarrow> topmost
      | Some w \<Rightarrow>
          if win_parent w = current \<or> win_parent w = ROOT_WINDOW then topmost
          else top_level_loop t n (win_parent w) (win_parent w))"

definition top_level_for_target :: "ServerState \<Rightarrow> ResourceId \<Rightarrow> ResourceId" where
  "top_level_for_target st target = top_level_loop (st_resources st) 256 target target"

text \<open>The deepest window at the cached position of the pointer; the origin of each window on the way
  is computed from the root.\<close>

fun deepest_loop :: "ServerState \<Rightarrow> nat \<Rightarrow> ResourceId \<Rightarrow> ResourceId" where
  "deepest_loop st 0 w = w"
| "deepest_loop st (Suc n) w =
     (case window_absolute_position (st_resources st) w of
        (ox, oy) \<Rightarrow>
          let wx = i16_or_max (sint (fst (st_pointer_root st)) - ox);
              wy = i16_or_max (sint (snd (st_pointer_root st)) - oy)
          in (case direct_child_at st w wx wy of
                Some child \<Rightarrow> if child \<noteq> w then deepest_loop st n child else w
              | None \<Rightarrow> w))"

definition deepest_window_at_pointer :: "ServerState \<Rightarrow> ResourceId" where
  "deepest_window_at_pointer st = deepest_loop st (window_bound st) ROOT_WINDOW"

section \<open>Selections\<close>

text \<open>An \<open>EventTarget\<close> is the connection of a client, and is the client here.\<close>

definition subscribers :: "ServerState \<Rightarrow> ResourceId \<Rightarrow> u32 \<Rightarrow> ClientId list" where
  "subscribers st w mask_bit =
     map fst (filter (\<lambda>(i, c). event_mask_of c w AND mask_bit \<noteq> 0) (st_clients st))"

fun pointer_propagation_loop ::
  "ServerState \<Rightarrow> u32 \<Rightarrow> nat \<Rightarrow> ResourceId \<Rightarrow> i16 \<Rightarrow> i16 \<Rightarrow> (ResourceId \<times> i16 \<times> i16 \<times> ClientId list) option" where
  "pointer_propagation_loop st mask_bit 0 current x y = None"
| "pointer_propagation_loop st mask_bit (Suc n) current x y =
     (let subs = subscribers st current mask_bit
      in if subs \<noteq> [] then Some (current, x, y, subs)
         else
           (case window (st_resources st) current of
              None \<Rightarrow> None
            | Some w \<Rightarrow>
                if win_parent w = current then None
                else pointer_propagation_loop st mask_bit n (win_parent w) (x + win_x w) (y + win_y w)))"

definition pointer_propagation_target ::
  "ServerState \<Rightarrow> ResourceId \<Rightarrow> i16 \<Rightarrow> i16 \<Rightarrow> u32 \<Rightarrow> (ResourceId \<times> i16 \<times> i16 \<times> ClientId list) option" where
  "pointer_propagation_target st start start_x start_y mask_bit =
     pointer_propagation_loop st mask_bit 256 start start_x start_y"

definition drop_window_subscriptions :: "ResourceId list \<Rightarrow> ServerState \<Rightarrow> ServerState" where
  "drop_window_subscriptions ws st = st\<lparr>st_clients := map (\<lambda>(i, c).
     (i, c\<lparr>cs_event_masks := fold hm_remove ws (cs_event_masks c)\<rparr>)) (st_clients st)\<rparr>"

text \<open>\<open>for window in [target, fallback]\<close>; the second round is skipped when they are the same.\<close>

fun first_mask :: "ClientState \<Rightarrow> ResourceId \<Rightarrow> u16 list \<Rightarrow> u32 option" where
  "first_mask c w [] = None"
| "first_mask c w (dev # devs) =
     (case hm_get (cs_xi2_masks c) (w, dev) of Some m \<Rightarrow> Some m | None \<Rightarrow> first_mask c w devs)"

definition xi2_mask_for_client :: "ClientState \<Rightarrow> ResourceId \<Rightarrow> ResourceId \<Rightarrow> u16 list \<Rightarrow> u32" where
  "xi2_mask_for_client c target fallback device_candidates =
     (case first_mask c target device_candidates of
        Some m \<Rightarrow> m
      | None \<Rightarrow>
          if fallback = target then 0
          else unwrap_or (first_mask c fallback device_candidates) 0)"

section \<open>Passive grabs\<close>

definition modifiers_match :: "u16 \<Rightarrow> u16 \<Rightarrow> bool" where
  "modifiers_match modifiers state_mask \<longleftrightarrow> modifiers = 0x8000 \<or> modifiers = state_mask AND 0x00FF"

definition button_grab_matches :: "ServerState \<Rightarrow> u8 \<Rightarrow> u16 \<Rightarrow> PassiveButtonGrab \<Rightarrow> bool" where
  "button_grab_matches st button state_mask g \<longleftrightarrow>
     (bg_button g = 0 \<or> bg_button g = button) \<and> modifiers_match (bg_modifiers g) state_mask \<and>
     (bg_confine_to g = 0 \<or>
      map_or False (\<lambda>w. win_map_state w = Viewable) (window (st_resources st) (bg_confine_to g)))"

definition key_grab_matches :: "u8 \<Rightarrow> u16 \<Rightarrow> KeyGrab \<Rightarrow> bool" where
  "key_grab_matches keycode state_mask g \<longleftrightarrow>
     (kg_keycode g = 0 \<or> kg_keycode g = keycode) \<and> modifiers_match (kg_modifiers g) state_mask"

text \<open>The two nested loops of the lookups: the windows in turn, and for each the grabs in turn.\<close>

fun first_grab :: "('g \<Rightarrow> ResourceId) \<Rightarrow> ('g \<Rightarrow> bool) \<Rightarrow> 'g list \<Rightarrow> ResourceId list \<Rightarrow> 'g option" where
  "first_grab grab_window matches grabs [] = None"
| "first_grab grab_window matches grabs (w # ws) =
     (case List.find (\<lambda>g. grab_window g = w \<and> matches g) grabs of
        Some g \<Rightarrow> Some g
      | None \<Rightarrow> first_grab grab_window matches grabs ws)"

text \<open>\<open>1u16 << (button - 1)\<close> for a button above 16 stops a debug build; a release build, modelled here,
  takes the shift modulo 16.\<close>

definition other_button_down :: "ServerState \<Rightarrow> u8 \<Rightarrow> bool" where
  "other_button_down st button \<longleftrightarrow>
     button \<ge> 1 \<and> st_buttons_down st AND NOT (push_bit (unat (button - 1) mod 16) 1) \<noteq> 0"

definition find_passive_grab ::
  "ServerState \<Rightarrow> ResourceId \<Rightarrow> u8 \<Rightarrow> u16 \<Rightarrow> PassiveButtonGrab option" where
  "find_passive_grab st w button state_mask =
     (if other_button_down st button then None
      else first_grab bg_window (button_grab_matches st button state_mask) (st_button_grabs st)
             (rev (ancestor_chain (st_resources st) w)))"

definition find_key_grab :: "ServerState \<Rightarrow> ResourceId \<Rightarrow> u8 \<Rightarrow> u16 \<Rightarrow> KeyGrab option" where
  "find_key_grab st w keycode state_mask =
     (let chain = ancestor_chain (st_resources st) w;
          chain = (if ROOT_WINDOW \<in> set chain then chain else chain @ [ROOT_WINDOW])
      in first_grab kg_window (key_grab_matches keycode state_mask) (st_key_grabs st) (rev chain))"

end
