(* ===== verification/EventWire.thy ===== *)
theory EventWire
  imports Delivery
begin

text \<open>
  The wire form of the input events: the core events of \<open>crates/xserver-protocol/src/x11/mod.rs\<close>, the
  XInput2 events of the same file and the XI 1.x events of \<open>crates/xserver-core/src/xinput/mod.rs\<close>.
  An encoder appends to the buffer of one event and is the list of the bytes it appends.
\<close>

definition enc16 :: "ClientByteOrder \<Rightarrow> u16 \<Rightarrow> u8 list" where
  "enc16 order v = write_u16 order [] v"

definition enc32 :: "ClientByteOrder \<Rightarrow> u32 \<Rightarrow> u8 list" where
  "enc32 order v = write_u32 order [] v"

lemma length_enc16 [simp]: "length (enc16 order v) = 2"
  by (simp add: enc16_def write_u16_def u16_to_le_bytes_def u16_to_be_bytes_def split: ClientByteOrder.split)

lemma length_enc32 [simp]: "length (enc32 order v) = 4"
  by (simp add: enc32_def write_u32_def u32_to_le_bytes_def u32_to_be_bytes_def split: ClientByteOrder.split)

section \<open>Core events\<close>

record KeyEvent =
  ke_pressed :: bool
  ke_keycode :: u8
  ke_sequence :: u16
  ke_time :: u32
  ke_root :: ResourceId
  ke_event :: ResourceId
  ke_root_x :: i16
  ke_root_y :: i16
  ke_event_x :: i16
  ke_event_y :: i16
  ke_state :: u16

record PointerEvent =
  pv_sequence :: u16
  pv_detail :: u8
  pv_time :: u32
  pv_root :: ResourceId
  pv_event :: ResourceId
  pv_child :: ResourceId
  pv_root_x :: i16
  pv_root_y :: i16
  pv_event_x :: i16
  pv_event_y :: i16
  pv_state :: u16

record CrossingWire =
  cw_sequence :: u16
  cw_time :: u32
  cw_root :: ResourceId
  cw_event :: ResourceId
  cw_child :: ResourceId
  cw_root_x :: i16
  cw_root_y :: i16
  cw_event_x :: i16
  cw_event_y :: i16
  cw_state :: u16
  cw_detail :: u8
  cw_mode :: u8

definition encode_key_event :: "ClientByteOrder \<Rightarrow> KeyEvent \<Rightarrow> u8 list" where
  "encode_key_event order e =
     [if ke_pressed e then 2 else 3, ke_keycode e] @ enc16 order (ke_sequence e) @
     enc32 order (ke_time e) @ enc32 order (ke_root e) @ enc32 order (ke_event e) @ enc32 order 0 @
     enc16 order (ke_root_x e) @ enc16 order (ke_root_y e) @ enc16 order (ke_event_x e) @
     enc16 order (ke_event_y e) @ enc16 order (ke_state e) @ [1, 0]"

definition encode_focus_event_with_mode_detail ::
  "u16 \<Rightarrow> ClientByteOrder \<Rightarrow> bool \<Rightarrow> ResourceId \<Rightarrow> u8 \<Rightarrow> u8 \<Rightarrow> u8 list" where
  "encode_focus_event_with_mode_detail sequence order focus_in win mode detail =
     [if focus_in then 9 else 10, detail] @ enc16 order sequence @ enc32 order win @ [mode] @
     replicate 23 0"

definition encode_destroy_notify_event ::
  "u16 \<Rightarrow> ClientByteOrder \<Rightarrow> ResourceId \<Rightarrow> ResourceId \<Rightarrow> u8 list" where
  "encode_destroy_notify_event sequence order event_window win =
     [17, 0] @ enc16 order sequence @ enc32 order event_window @ enc32 order win @ replicate 20 0"

definition encode_unmap_notify_event ::
  "u16 \<Rightarrow> ClientByteOrder \<Rightarrow> ResourceId \<Rightarrow> ResourceId \<Rightarrow> bool \<Rightarrow> u8 list" where
  "encode_unmap_notify_event sequence order event_window win from_configure =
     [18, 0] @ enc16 order sequence @ enc32 order event_window @ enc32 order win @
     [of_bool from_configure] @ replicate 19 0"

definition encode_pointer_event_code :: "u8 \<Rightarrow> ClientByteOrder \<Rightarrow> PointerEvent \<Rightarrow> u8 list" where
  "encode_pointer_event_code event_code order e =
     [event_code, pv_detail e] @ enc16 order (pv_sequence e) @
     enc32 order (pv_time e) @ enc32 order (pv_root e) @ enc32 order (pv_event e) @
     enc32 order (pv_child e) @ enc16 order (pv_root_x e) @ enc16 order (pv_root_y e) @
     enc16 order (pv_event_x e) @ enc16 order (pv_event_y e) @ enc16 order (pv_state e) @ [1, 0]"

definition encode_button_press_event :: "ClientByteOrder \<Rightarrow> PointerEvent \<Rightarrow> u8 list" where
  "encode_button_press_event order e = encode_pointer_event_code 4 order e"

definition encode_button_release_event :: "ClientByteOrder \<Rightarrow> PointerEvent \<Rightarrow> u8 list" where
  "encode_button_release_event order e = encode_pointer_event_code 5 order e"

definition encode_motion_notify_event :: "ClientByteOrder \<Rightarrow> PointerEvent \<Rightarrow> u8 list" where
  "encode_motion_notify_event order e = encode_pointer_event_code 6 order e"

definition encode_crossing_event :: "u8 \<Rightarrow> ClientByteOrder \<Rightarrow> CrossingWire \<Rightarrow> u8 list" where
  "encode_crossing_event event_code order e =
     [event_code, cw_detail e] @ enc16 order (cw_sequence e) @
     enc32 order (cw_time e) @ enc32 order (cw_root e) @ enc32 order (cw_event e) @
     enc32 order (cw_child e) @ enc16 order (cw_root_x e) @ enc16 order (cw_root_y e) @
     enc16 order (cw_event_x e) @ enc16 order (cw_event_y e) @ enc16 order (cw_state e) @
     [cw_mode e, 0x03]"

definition encode_enter_notify_event :: "ClientByteOrder \<Rightarrow> CrossingWire \<Rightarrow> u8 list" where
  "encode_enter_notify_event order e = encode_crossing_event 7 order e"

definition encode_leave_notify_event :: "ClientByteOrder \<Rightarrow> CrossingWire \<Rightarrow> u8 list" where
  "encode_leave_notify_event order e = encode_crossing_event 8 order e"

definition write_grab_reply :: "ClientByteOrder \<Rightarrow> u16 \<Rightarrow> u8 \<Rightarrow> u8 list" where
  "write_grab_reply order sequence status = fixed_reply order sequence status 0 @ replicate 24 0"

section \<open>XInput2 events\<close>

definition XI2_MAJOR_OPCODE :: u8 where "XI2_MAJOR_OPCODE = 137"
definition XI_POINTER_EMULATED :: u32 where "XI_POINTER_EMULATED = 0x00010000"

text \<open>\<open>(i32::from(v) << 16) as u32\<close> and \<open>i32::from(v) as u32\<close>\<close>

definition fp1616 :: "i16 \<Rightarrow> u32" where
  "fp1616 v = push_bit 16 (ucast v)"

definition i32_bits :: "i16 \<Rightarrow> u32" where
  "i32_bits v = scast v"

text \<open>The modifiers, the group and the mask of the buttons held before the event.\<close>

definition xi2_modifiers :: "ClientByteOrder \<Rightarrow> u16 \<Rightarrow> u8 list" where
  "xi2_modifiers order state_mask =
     (let modifier_bits = ucast (state_mask AND 0x00FF)
      in enc32 order modifier_bits @ enc32 order 0 @ enc32 order 0 @ enc32 order modifier_bits @
         replicate 4 0)"

definition xi2_pre_buttons :: "u16 \<Rightarrow> u32" where
  "xi2_pre_buttons state_mask = ucast (drop_bit 7 state_mask AND 0x3e)"

definition encode_xi2_device_event ::
  "ClientByteOrder \<Rightarrow> u16 \<Rightarrow> u8 \<Rightarrow> u16 \<Rightarrow> u16 \<Rightarrow> u32 \<Rightarrow> ResourceId \<Rightarrow> ResourceId \<Rightarrow> ResourceId \<Rightarrow>
    i16 \<Rightarrow> i16 \<Rightarrow> i16 \<Rightarrow> i16 \<Rightarrow> u16 \<Rightarrow> u32 \<Rightarrow> u16 \<Rightarrow> u32 \<Rightarrow> u8 list" where
  "encode_xi2_device_event order sequence major_opcode evtype deviceid time root event child
      root_x root_y event_x event_y state_mask detail sourceid flags =
     (let include_axes = (evtype = 6);
          valuator_mask = (if include_axes then 3 else 0);
          extra_bytes = 16 + 12 + 16 + 4 + 4 * 8 + 4 * 2;
          axes_bytes = (if include_axes then 16 else 0);
          length_units = (extra_bytes + axes_bytes) div 4
      in [35, major_opcode] @ enc16 order sequence @ enc32 order length_units @
         enc16 order evtype @ enc16 order deviceid @ enc32 order time @ enc32 order detail @
         enc32 order root @ enc32 order event @ enc32 order child @
         enc32 order (fp1616 root_x) @ enc32 order (fp1616 root_y) @
         enc32 order (fp1616 event_x) @ enc32 order (fp1616 event_y) @
         enc16 order 8 @ enc16 order 2 @ enc16 order sourceid @ enc16 order 0 @ enc32 order flags @
         xi2_modifiers order state_mask @
         enc32 order (xi2_pre_buttons state_mask) @ concat (replicate 7 (enc32 order 0)) @
         enc32 order valuator_mask @ enc32 order 0 @
         (if include_axes
          then enc32 order (i32_bits root_x) @ enc32 order 0 @ enc32 order (i32_bits root_y) @ enc32 order 0
          else []))"

definition encode_xi2_motion_with_scroll ::
  "ClientByteOrder \<Rightarrow> u16 \<Rightarrow> u8 \<Rightarrow> u16 \<Rightarrow> u32 \<Rightarrow> ResourceId \<Rightarrow> ResourceId \<Rightarrow>
    i16 \<Rightarrow> i16 \<Rightarrow> i16 \<Rightarrow> i16 \<Rightarrow> u16 \<Rightarrow> u16 \<Rightarrow> u8 \<Rightarrow> i32 \<Rightarrow> u8 list" where
  "encode_xi2_motion_with_scroll order sequence major_opcode deviceid time root event
      root_x root_y event_x event_y state_mask sourceid scroll_axis scroll_value =
     [35, major_opcode] @ enc16 order sequence @ enc32 order 28 @
     enc16 order 6 @ enc16 order deviceid @ enc32 order time @ enc32 order 0 @
     enc32 order root @ enc32 order event @ enc32 order 0 @
     enc32 order (fp1616 root_x) @ enc32 order (fp1616 root_y) @
     enc32 order (fp1616 event_x) @ enc32 order (fp1616 event_y) @
     enc16 order 8 @ enc16 order 2 @ enc16 order sourceid @ enc16 order 0 @ enc32 order 0 @
     xi2_modifiers order state_mask @
     enc32 order (xi2_pre_buttons state_mask) @ concat (replicate 7 (enc32 order 0)) @
     enc32 order (3 OR push_bit (unat scroll_axis) 1) @ enc32 order 0 @
     enc32 order (i32_bits root_x) @ enc32 order 0 @ enc32 order (i32_bits root_y) @ enc32 order 0 @
     enc32 order scroll_value @ enc32 order 0"

definition encode_xi2_raw_event ::
  "ClientByteOrder \<Rightarrow> u16 \<Rightarrow> u8 \<Rightarrow> u16 \<Rightarrow> u16 \<Rightarrow> u32 \<Rightarrow> u32 \<Rightarrow> u16 \<Rightarrow> i32 \<Rightarrow> i32 \<Rightarrow> u8 list" where
  "encode_xi2_raw_event order sequence major_opcode evtype deviceid time detail sourceid raw_x raw_y =
     (let axes = enc32 order raw_x @ enc32 order 0 @ enc32 order raw_y @ enc32 order 0
      in [35, major_opcode] @ enc16 order sequence @ enc32 order 9 @
         enc16 order evtype @ enc16 order deviceid @ enc32 order time @ enc32 order detail @
         enc16 order sourceid @ enc16 order 2 @ enc32 order 0 @ replicate 4 0 @
         enc32 order 3 @ axes @ axes)"

definition encode_xi2_crossing_event ::
  "ClientByteOrder \<Rightarrow> u16 \<Rightarrow> u8 \<Rightarrow> u16 \<Rightarrow> u16 \<Rightarrow> u32 \<Rightarrow> ResourceId \<Rightarrow> ResourceId \<Rightarrow>
    i16 \<Rightarrow> i16 \<Rightarrow> i16 \<Rightarrow> i16 \<Rightarrow> u16 \<Rightarrow> u8 \<Rightarrow> u8 \<Rightarrow> u16 \<Rightarrow> u8 list" where
  "encode_xi2_crossing_event order sequence major_opcode evtype deviceid time root event
      root_x root_y event_x event_y state_mask mode detail sourceid =
     [35, major_opcode] @ enc16 order sequence @ enc32 order 11 @
     enc16 order evtype @ enc16 order deviceid @ enc32 order time @ enc16 order sourceid @
     [mode, detail] @ enc32 order root @ enc32 order event @ enc32 order 0 @
     enc32 order (fp1616 root_x) @ enc32 order (fp1616 root_y) @
     enc32 order (fp1616 event_x) @ enc32 order (fp1616 event_y) @
     [1, of_bool (evtype = 9 \<or> evtype = 10)] @ enc16 order 1 @
     xi2_modifiers order state_mask @ enc32 order 0"

definition encode_xi2_focus_event ::
  "ClientByteOrder \<Rightarrow> u16 \<Rightarrow> u8 \<Rightarrow> u16 \<Rightarrow> u16 \<Rightarrow> u32 \<Rightarrow> ResourceId \<Rightarrow>
    i16 \<Rightarrow> i16 \<Rightarrow> i16 \<Rightarrow> i16 \<Rightarrow> u8 \<Rightarrow> u8 \<Rightarrow> u8 list" where
  "encode_xi2_focus_event order sequence major_opcode evtype deviceid time event
      root_x root_y event_x event_y mode detail =
     encode_xi2_crossing_event order sequence major_opcode evtype deviceid time 0x100 event
       root_x root_y event_x event_y 0 mode detail deviceid"

section \<open>XI 1.x events\<close>

definition XI_FIRST_EVENT :: u8 where "XI_FIRST_EVENT = 66"

definition encode_xi1_device_input_event ::
  "ClientByteOrder \<Rightarrow> u8 \<Rightarrow> u8 \<Rightarrow> u16 \<Rightarrow> u32 \<Rightarrow> u32 \<Rightarrow> u32 \<Rightarrow> u32 \<Rightarrow> i16 \<Rightarrow> i16 \<Rightarrow> i16 \<Rightarrow> i16 \<Rightarrow> u16 \<Rightarrow> u16 \<Rightarrow> u8 list" where
  "encode_xi1_device_input_event order event_type detail sequence time root event_window child
      root_x root_y event_x event_y state_mask deviceid =
     [event_type, detail] @ enc16 order sequence @ enc32 order time @ enc32 order root @
     enc32 order event_window @ enc32 order child @
     enc16 order root_x @ enc16 order root_y @ enc16 order event_x @ enc16 order event_y @
     enc16 order state_mask @ [1, ucast deviceid AND 0x7f]"

definition encode_xi1_device_focus_event ::
  "ClientByteOrder \<Rightarrow> u8 \<Rightarrow> u8 \<Rightarrow> u16 \<Rightarrow> u32 \<Rightarrow> u32 \<Rightarrow> u8 \<Rightarrow> u16 \<Rightarrow> u8 list" where
  "encode_xi1_device_focus_event order event_type detail sequence time win mode deviceid =
     [event_type, detail] @ enc16 order sequence @ enc32 order time @ enc32 order win @
     [mode, ucast deviceid] @ replicate 18 0"

definition encode_xi1_device_state_notify ::
  "ClientByteOrder \<Rightarrow> u8 \<Rightarrow> u8 \<Rightarrow> u16 \<Rightarrow> u32 \<Rightarrow> u8 \<Rightarrow> u8 \<Rightarrow> u8 \<Rightarrow> u8 \<Rightarrow> u8 list \<Rightarrow> u8 list \<Rightarrow> i32 list \<Rightarrow> u8 list" where
  "encode_xi1_device_state_notify order event_type deviceid sequence time num_keys num_buttons
      num_valuators classes_reported buttons keys valuators =
     [event_type, deviceid] @ enc16 order sequence @ enc32 order time @
     [num_keys, num_buttons, num_valuators, classes_reported] @ buttons @ keys @
     concat (map (enc32 order) valuators)"

definition encode_xi1_device_key_state_notify ::
  "ClientByteOrder \<Rightarrow> u8 \<Rightarrow> u8 \<Rightarrow> u16 \<Rightarrow> u8 list \<Rightarrow> u8 list" where
  "encode_xi1_device_key_state_notify order event_type deviceid sequence keys =
     [event_type, deviceid] @ enc16 order sequence @ keys"

definition encode_xi1_device_valuator ::
  "ClientByteOrder \<Rightarrow> u8 \<Rightarrow> u8 \<Rightarrow> u16 \<Rightarrow> u16 \<Rightarrow> u8 \<Rightarrow> u8 \<Rightarrow> i32 list \<Rightarrow> u8 list" where
  "encode_xi1_device_valuator order event_type deviceid sequence device_state num_valuators
      first_valuator valuators =
     [event_type, deviceid] @ enc16 order sequence @ enc16 order device_state @
     [num_valuators, first_valuator] @ concat (map (enc32 order) valuators)"

section \<open>Lengths\<close>

text \<open>Every event is a multiple of four bytes of at least 32, and the length field of a generic event
  counts the words beyond the first 32 bytes.\<close>

lemmas encoders = encode_key_event_def encode_focus_event_with_mode_detail_def
  encode_destroy_notify_event_def encode_unmap_notify_event_def encode_pointer_event_code_def
  encode_button_press_event_def encode_button_release_event_def encode_motion_notify_event_def
  encode_crossing_event_def encode_enter_notify_event_def encode_leave_notify_event_def
  write_grab_reply_def encode_xi1_device_input_event_def encode_xi1_device_focus_event_def
  encode_xi1_device_state_notify_def encode_xi1_device_key_state_notify_def
  encode_xi1_device_valuator_def

lemma length_xi2_modifiers [simp]: "length (xi2_modifiers order s) = 20"
  by (simp add: xi2_modifiers_def Let_def)

lemma length_concat_enc32 [simp]: "length (concat (map (enc32 order) vs)) = 4 * length vs"
  by (induction vs) simp_all

lemma length_core_events [simp]:
  "length (encode_key_event order ke) = 32"
  "length (encode_pointer_event_code code order pe) = 32"
  "length (encode_crossing_event code order ce) = 32"
  "length (encode_focus_event_with_mode_detail sequence order b w mode detail) = 32"
  by (simp_all add: encoders)

lemma length_xi2_device_event:
  "length (encode_xi2_device_event order sequence op evtype dev time root ev child rx ry ex ey s detail src flags) =
    (if evtype = 6 then 136 else 120)"
  by (simp add: encode_xi2_device_event_def Let_def eval_nat_numeral)

end
