(* ===== verification/DeviceFocus.thy ===== *)
theory DeviceFocus
  imports HitTest EventWire
begin

text \<open>
  The focus of the keyboards: the core focus transition of
  \<open>crates/xserver-core/src/core_loop/process_request.rs\<close>, the focus of an XI 1.x device
  (\<open>core_loop/xi1_focus.rs\<close>) with its events, the revert when the focus window dies or becomes
  unviewable, and the DeviceStateNotify snapshot that follows a DeviceFocusIn
  (\<open>core_loop/xi1_state_notify.rs\<close>).
\<close>

section \<open>Timestamps\<close>

definition time_after :: "u32 \<Rightarrow> u32 \<Rightarrow> bool" where
  "time_after a b \<longleftrightarrow> a \<noteq> b \<and> a - b < 0x80000000"

section \<open>Core focus events\<close>

definition FOCUS_CHANGE_MASK :: u32 where "FOCUS_CHANGE_MASK = 0x00200000"

definition emit_xi2_focus_event_to_state ::
  "ResourceId \<Rightarrow> u16 \<Rightarrow> u8 \<Rightarrow> u8 \<Rightarrow> u8 \<Rightarrow> i16 \<Rightarrow> i16 \<Rightarrow> ServerState \<Rightarrow> ServerState \<times> ClientId list" where
  "emit_xi2_focus_event_to_state win evtype xi2_major_opcode mode detail root_x root_y st =
     (let targets = map fst (filter (\<lambda>(i, c).
            unwrap_or (first_mask c win [5, 3, 1, 0]) 0 AND push_bit (unat evtype) 1 \<noteq> 0) (st_clients st))
      in if targets = [] then (st, [])
         else
           (case window_absolute_position (st_resources st) win of
              (origin_x, origin_y) \<Rightarrow>
                let event_x = i16_or_max (sint root_x - origin_x);
                    event_y = i16_or_max (sint root_y - origin_y)
                in fanout_event_to_clients targets (\<lambda>sequence order.
                     encode_xi2_focus_event order sequence xi2_major_opcode evtype 3 0 win
                       root_x root_y event_x event_y mode detail) st))"

definition core_focus_step :: "u8 \<Rightarrow> i16 \<times> i16 \<Rightarrow> FocusEvent \<Rightarrow> ServerState \<Rightarrow> ServerState" where
  "core_focus_step mode ptr e st =
     (let st = fst (emit_window_event_to_state (fe_window e) FOCUS_CHANGE_MASK (\<lambda>sequence order.
            encode_focus_event_with_mode_detail sequence order (fe_focus_in e) (fe_window e) mode
              (fe_detail e)) st)
      in fst (emit_xi2_focus_event_to_state (fe_window e) (if fe_focus_in e then 9 else 10)
            XI2_MAJOR_OPCODE mode (fe_detail e) (fst ptr) (snd ptr) st))"

definition core_focus_events :: "u32 \<Rightarrow> u32 \<Rightarrow> u8 \<Rightarrow> ServerState \<Rightarrow> FocusEvent list" where
  "core_focus_events from_raw to_raw mode st =
     (if from_raw = to_raw \<and> (mode = 1 \<or> mode = 2) \<and> to_raw > 1
      then [focus_out NOTIFY_NONLINEAR to_raw, focus_in NOTIFY_NONLINEAR to_raw]
      else focus_transition_events (st_resources st) from_raw to_raw (deepest_window_at_pointer st))"

definition emit_core_focus_transition :: "u32 \<Rightarrow> u32 \<Rightarrow> u8 \<Rightarrow> ServerState \<Rightarrow> ServerState" where
  "emit_core_focus_transition from_raw to_raw mode st =
     fold (core_focus_step mode (st_pointer_root st)) (core_focus_events from_raw to_raw mode st) st"

section \<open>State snapshots\<close>

definition xi1_device_has_keys :: "u16 \<Rightarrow> bool" where
  "xi1_device_has_keys d \<longleftrightarrow> d = 3 \<or> d = 5"

definition xi1_device_has_buttons :: "u16 \<Rightarrow> bool" where
  "xi1_device_has_buttons d \<longleftrightarrow> d = 2 \<or> d = 4"

definition xi1_device_has_valuators :: "u16 \<Rightarrow> bool" where
  "xi1_device_has_valuators d \<longleftrightarrow> d = 2 \<or> d = 4"

definition event_class :: "u16 \<Rightarrow> u8 \<Rightarrow> u32" where
  "event_class deviceid evcode = push_bit 8 (ucast deviceid) OR ucast evcode"

definition class_selectors :: "ServerState \<Rightarrow> ResourceId \<Rightarrow> u32 \<Rightarrow> ClientId list" where
  "class_selectors st win cls = map fst (filter (\<lambda>(i, c).
     map_or False (\<lambda>s. cls \<in> set s) (hm_get (cs_xi1_window_event_classes c) win)) (st_clients st))"

definition encode_state_notify_chain ::
  "ClientByteOrder \<Rightarrow> u16 \<Rightarrow> u16 \<Rightarrow> u32 \<Rightarrow> Xi1DeviceInputState \<Rightarrow> bool \<Rightarrow> bool \<Rightarrow> bool \<Rightarrow> i32 list \<Rightarrow> u8 list" where
  "encode_state_notify_chain order sequence deviceid time dev_state has_keys has_buttons has_valuators axes =
     (let dev_byte = ucast deviceid;
          num_keys = (if has_keys then 255 - 8 else 0);
          more_keys = (has_keys \<and> num_keys > (32 :: u8));
          more_valuators = has_valuators;
          classes_reported = (if has_keys then 1 else 0) OR (if has_buttons then 2 else 0) OR
            (if has_valuators then 4 OR push_bit 6 (xs_valuator_mode dev_state) else 0);
          lead_dev_byte = (if more_keys \<or> more_valuators then dev_byte OR XI1_MORE_EVENTS else dev_byte)
      in encode_xi1_device_state_notify order (XI_FIRST_EVENT + XI_DEVICE_STATE_NOTIFY_OFFSET)
           lead_dev_byte sequence time num_keys (if has_buttons then 7 else 0)
           (if has_valuators then 3 else 0) classes_reported
           (take 4 (xs_buttons_down dev_state)) (take 4 (xs_keys_down dev_state)) (take 3 axes) @
         (if more_keys
          then encode_xi1_device_key_state_notify order (XI_FIRST_EVENT + XI_DEVICE_KEY_STATE_NOTIFY_OFFSET)
                 (if more_valuators then dev_byte OR XI1_MORE_EVENTS else dev_byte) sequence
                 (take 28 (drop 4 (xs_keys_down dev_state)))
          else []) @
         (if more_valuators
          then encode_xi1_device_valuator order (XI_FIRST_EVENT + XI_DEVICE_VALUATOR_OFFSET) dev_byte
                 sequence 0 (4 - 3) 3 [axes ! 3, 0, 0, 0, 0, 0]
          else []))"

definition device_input_state :: "ServerState \<Rightarrow> u16 \<Rightarrow> Xi1DeviceInputState" where
  "device_input_state st d = unwrap_or (hm_get (st_xi1_device_input_state st) d) Xi1DeviceInputState_default"

definition deliver_state_notify :: "u16 \<Rightarrow> ResourceId \<Rightarrow> ServerState \<Rightarrow> ServerState" where
  "deliver_state_notify deviceid win st =
     (let targets = class_selectors st win
            (event_class deviceid (XI_FIRST_EVENT + XI_DEVICE_STATE_NOTIFY_OFFSET))
      in if targets = [] then st
         else
           let dev_state = device_input_state st deviceid
           in fst (fanout_event_to_clients targets (\<lambda>sequence order.
                encode_state_notify_chain order sequence deviceid (st_timestamp st) dev_state
                  (xi1_device_has_keys deviceid) (xi1_device_has_buttons deviceid)
                  (xi1_device_has_valuators deviceid) (xs_valuators dev_state)) st))"

section \<open>The focus of a device\<close>

definition REVERT_TO_POINTER_ROOT :: u8 where "REVERT_TO_POINTER_ROOT = 1"
definition REVERT_TO_PARENT :: u8 where "REVERT_TO_PARENT = 2"
definition REVERT_TO_FOLLOW_KEYBOARD :: u8 where "REVERT_TO_FOLLOW_KEYBOARD = 3"

datatype Xi1FocusTarget = FNone | FPointerRoot | FWindow ResourceId

definition device_focus :: "ServerState \<Rightarrow> u16 \<Rightarrow> Xi1DeviceFocus" where
  "device_focus st d = unwrap_or (hm_get (st_xi1_device_focus st) d) Xi1DeviceFocus_default"

definition focus_target :: "u32 \<Rightarrow> Xi1FocusTarget" where
  "focus_target raw = (if raw = 0 then FNone else if raw = 1 then FPointerRoot else FWindow raw)"

definition resolve_focus :: "ServerState \<Rightarrow> u32 \<Rightarrow> Xi1FocusTarget" where
  "resolve_focus st raw = (if raw = 3 then focus_target (cf_raw (st_core_focus st)) else focus_target raw)"

definition resolve_raw_window_only :: "u32 \<Rightarrow> Xi1FocusTarget" where
  "resolve_raw_window_only raw = (if raw = 0 \<or> raw = 3 then FNone else focus_target raw)"

definition focus_event_mode :: "ServerState \<Rightarrow> u16 \<Rightarrow> u8" where
  "focus_event_mode st d = (if hm_contains (st_xi1_active_grabs st) d then 3 else 0)"

section \<open>Walks over the tree\<close>

fun is_ancestor_loop :: "ResourceTable \<Rightarrow> nat \<Rightarrow> ResourceId \<Rightarrow> ResourceId \<Rightarrow> bool" where
  "is_ancestor_loop t 0 a current = False"
| "is_ancestor_loop t (Suc n) a current =
     (case parent_of t current of
        None \<Rightarrow> False
      | Some p \<Rightarrow> if p = current then False else p = a \<or> is_ancestor_loop t n a p)"

definition is_ancestor :: "ServerState \<Rightarrow> ResourceId \<Rightarrow> ResourceId \<Rightarrow> bool" where
  "is_ancestor st a b \<longleftrightarrow> a \<noteq> b \<and> is_ancestor_loop (st_resources st) 256 a b"

fun in_subtree_loop :: "ResourceTable \<Rightarrow> nat \<Rightarrow> ResourceId \<Rightarrow> ResourceId \<Rightarrow> bool" where
  "in_subtree_loop t 0 root current = False"
| "in_subtree_loop t (Suc n) root current =
     (current = root \<or>
      (case parent_of t current of
         None \<Rightarrow> False
       | Some p \<Rightarrow> if p = current then False else in_subtree_loop t n root p))"

definition in_subtree :: "ServerState \<Rightarrow> ResourceId \<Rightarrow> ResourceId \<Rightarrow> bool" where
  "in_subtree st w root = in_subtree_loop (st_resources st) 256 root w"

fun viewable_loop :: "ResourceTable \<Rightarrow> nat \<Rightarrow> ResourceId \<Rightarrow> bool" where
  "viewable_loop t 0 current = False"
| "viewable_loop t (Suc n) current =
     (case window t current of
        None \<Rightarrow> False
      | Some w \<Rightarrow>
          if win_map_state w = Unmapped then False
          else if win_parent w = current then True
          else viewable_loop t n (win_parent w))"

definition window_viewable :: "ServerState \<Rightarrow> ResourceId \<Rightarrow> bool" where
  "window_viewable st w =
     (case window (st_resources st) w of
        None \<Rightarrow> False
      | Some x \<Rightarrow> win_map_state x = Viewable \<and> viewable_loop (st_resources st) 256 w)"

fun viable_ancestor_loop :: "ServerState \<Rightarrow> nat \<Rightarrow> ResourceId option \<Rightarrow> ResourceId \<Rightarrow> ResourceId" where
  "viable_ancestor_loop st 0 dying_subtree current = ROOT_WINDOW"
| "viable_ancestor_loop st (Suc n) dying_subtree current =
     (case parent_of (st_resources st) current of
        None \<Rightarrow> ROOT_WINDOW
      | Some p \<Rightarrow>
          if p = current then ROOT_WINDOW
          else if \<not> map_or False (in_subtree st p) dying_subtree \<and>
                  (p = ROOT_WINDOW \<or> window_viewable st p) then p
          else viable_ancestor_loop st n dying_subtree p)"

definition closest_viable_ancestor :: "ServerState \<Rightarrow> ResourceId \<Rightarrow> ResourceId option \<Rightarrow> ResourceId" where
  "closest_viable_ancestor st w dying_subtree = viable_ancestor_loop st 256 dying_subtree w"

text \<open>\<open>common_ancestor\<close>: the first window of the second chain, neither end, that is in the first.\<close>

fun self_chain :: "ResourceTable \<Rightarrow> nat \<Rightarrow> ResourceId \<Rightarrow> ResourceId list" where
  "self_chain t 0 current = []"
| "self_chain t (Suc n) current =
     current #
     (case parent_of t current of
        None \<Rightarrow> []
      | Some p \<Rightarrow> if p = current then [] else self_chain t n p)"

definition common_ancestor :: "ServerState \<Rightarrow> ResourceId \<Rightarrow> ResourceId \<Rightarrow> ResourceId" where
  "common_ancestor st a b =
     (let a_chain = self_chain (st_resources st) 256 a
      in unwrap_or (List.find (\<lambda>w. w \<in> set a_chain \<and> w \<noteq> a \<and> w \<noteq> b) (self_chain (st_resources st) 256 b))
           ROOT_WINDOW)"

section \<open>Focus events of a device\<close>

record DeviceFocusEvent =
  df_in :: bool
  df_detail :: u8
  df_window :: ResourceId

definition emit_device_focus :: "u16 \<Rightarrow> bool \<Rightarrow> u8 \<Rightarrow> u8 \<Rightarrow> ResourceId \<Rightarrow> ServerState \<Rightarrow> ServerState" where
  "emit_device_focus deviceid is_in mode detail win st =
     (let event_type = XI_FIRST_EVENT + (if is_in then XI_DEVICE_FOCUS_IN_OFFSET else XI_DEVICE_FOCUS_OUT_OFFSET);
          targets = class_selectors st win (event_class deviceid event_type);
          st = (if targets = [] then st
                else fst (fanout_event_to_clients targets (\<lambda>sequence order.
                  encode_xi1_device_focus_event order event_type detail sequence (st_timestamp st) win
                    mode deviceid) st))
      in if is_in then deliver_state_notify deviceid win st else st)"

text \<open>\<open>focus_out_chain\<close> walks up from the parent of the child, \<open>focus_in_chain\<close> lists the same windows
  from the top; both give the windows here, the events are \<open>out_events\<close> and \<open>in_events\<close>.\<close>

fun out_chain_windows :: "ResourceTable \<Rightarrow> nat \<Rightarrow> ResourceId option \<Rightarrow> ResourceId \<Rightarrow> ResourceId list" where
  "out_chain_windows t 0 ancestor current = []"
| "out_chain_windows t (Suc n) ancestor current =
     (case parent_of t current of
        None \<Rightarrow> []
      | Some p \<Rightarrow> if Some p = ancestor \<or> p = current then [] else p # out_chain_windows t n ancestor p)"

definition focus_out_chain :: "ServerState \<Rightarrow> ResourceId \<Rightarrow> ResourceId option \<Rightarrow> u8 \<Rightarrow> DeviceFocusEvent list" where
  "focus_out_chain st child ancestor detail =
     map (\<lambda>w. \<lparr>df_in = False, df_detail = detail, df_window = w\<rparr>)
       (out_chain_windows (st_resources st) 256 ancestor child)"

definition focus_in_chain :: "ServerState \<Rightarrow> ResourceId \<Rightarrow> ResourceId \<Rightarrow> u8 \<Rightarrow> DeviceFocusEvent list" where
  "focus_in_chain st ancestor child detail =
     map (\<lambda>w. \<lparr>df_in = True, df_detail = detail, df_window = w\<rparr>)
       (rev (out_chain_windows (st_resources st) 256 (Some ancestor) child))"

abbreviation df_out :: "u8 \<Rightarrow> ResourceId \<Rightarrow> DeviceFocusEvent list" where
  "df_out d w \<equiv> [\<lparr>df_in = False, df_detail = d, df_window = w\<rparr>]"

abbreviation df_enter :: "u8 \<Rightarrow> ResourceId \<Rightarrow> DeviceFocusEvent list" where
  "df_enter d w \<equiv> [\<lparr>df_in = True, df_detail = d, df_window = w\<rparr>]"

text \<open>The sequence of events of a change; no event changes what the sequence depends on (the tree, the
  shapes and the position of the pointer), so it is computed first and sent afterwards.\<close>

definition special_detail :: "Xi1FocusTarget \<Rightarrow> u8" where
  "special_detail f = (if f = FNone then NOTIFY_DETAIL_NONE else NOTIFY_POINTER_ROOT)"

definition leave_special :: "ServerState \<Rightarrow> Xi1FocusTarget \<Rightarrow> DeviceFocusEvent list" where
  "leave_special st fr =
     (let sprite = deepest_window_at_pointer st
      in (if fr = FPointerRoot
          then df_out NOTIFY_POINTER sprite @ focus_out_chain st sprite (Some ROOT_WINDOW) NOTIFY_POINTER
          else []) @
         df_out (special_detail fr) ROOT_WINDOW)"

definition device_focus_windows :: "ServerState \<Rightarrow> ResourceId \<Rightarrow> ResourceId \<Rightarrow> DeviceFocusEvent list" where
  "device_focus_windows st f t =
     (let sprite = deepest_window_at_pointer st
      in if is_ancestor st t f
         then df_out NOTIFY_ANCESTOR f @ focus_out_chain st f (Some t) NOTIFY_VIRTUAL @
              df_enter NOTIFY_INFERIOR t @
              (if is_ancestor st t sprite \<and> sprite \<noteq> f \<and> \<not> is_ancestor st f sprite \<and>
                  \<not> is_ancestor st sprite f
               then focus_in_chain st t sprite NOTIFY_POINTER else [])
         else if is_ancestor st f t
         then (if is_ancestor st f sprite \<and> sprite \<noteq> f \<and> \<not> is_ancestor st t sprite \<and>
                  \<not> is_ancestor st sprite t
               then df_out NOTIFY_POINTER sprite @ focus_out_chain st sprite (Some f) NOTIFY_POINTER
               else []) @
              df_out NOTIFY_INFERIOR f @ focus_in_chain st f t NOTIFY_VIRTUAL @
              df_enter NOTIFY_ANCESTOR t
         else
           let common = common_ancestor st f t
           in (if is_ancestor st f sprite then focus_out_chain st sprite (Some f) NOTIFY_POINTER else []) @
              df_out NOTIFY_NONLINEAR f @
              (if f \<noteq> ROOT_WINDOW then focus_out_chain st f (Some common) NOTIFY_NONLINEAR_VIRTUAL else []) @
              (if t \<noteq> ROOT_WINDOW then focus_in_chain st common t NOTIFY_NONLINEAR_VIRTUAL else []) @
              df_enter NOTIFY_NONLINEAR t @
              (if is_ancestor st t sprite then focus_in_chain st t sprite NOTIFY_POINTER else []))"

definition device_focus_list ::
  "ServerState \<Rightarrow> Xi1FocusTarget \<Rightarrow> Xi1FocusTarget \<Rightarrow> DeviceFocusEvent list" where
  "device_focus_list st fr to =
     (let sprite = deepest_window_at_pointer st
      in if fr = to then []
         else
           case to of
             FWindow t \<Rightarrow>
               (case fr of
                  FWindow f \<Rightarrow> device_focus_windows st f t
                | _ \<Rightarrow>
                    leave_special st fr @
                    (if t \<noteq> ROOT_WINDOW then focus_in_chain st ROOT_WINDOW t NOTIFY_NONLINEAR_VIRTUAL else []) @
                    df_enter NOTIFY_NONLINEAR t @
                    (if is_ancestor st t sprite then focus_in_chain st t sprite NOTIFY_POINTER else []))
           | _ \<Rightarrow>
               (case fr of
                  FWindow f \<Rightarrow>
                    (if is_ancestor st f sprite
                     then df_out NOTIFY_POINTER sprite @ focus_out_chain st sprite (Some f) NOTIFY_POINTER
                     else []) @
                    df_out NOTIFY_NONLINEAR f @ focus_out_chain st f None NOTIFY_NONLINEAR_VIRTUAL
                | _ \<Rightarrow> leave_special st fr) @
               df_enter (special_detail to) ROOT_WINDOW @
               (if to = FPointerRoot
                then focus_in_chain st ROOT_WINDOW sprite NOTIFY_POINTER @ df_enter NOTIFY_POINTER sprite
                else []))"

definition device_focus_events ::
  "u16 \<Rightarrow> Xi1FocusTarget \<Rightarrow> Xi1FocusTarget \<Rightarrow> u8 \<Rightarrow> ServerState \<Rightarrow> ServerState" where
  "device_focus_events deviceid fr to mode st =
     fold (\<lambda>e. emit_device_focus deviceid (df_in e) mode (df_detail e) (df_window e))
       (device_focus_list st fr to) st"

section \<open>Changes of the focus\<close>

definition insert_device_focus :: "u16 \<Rightarrow> Xi1DeviceFocus \<Rightarrow> ServerState \<Rightarrow> ServerState" where
  "insert_device_focus d f st = st\<lparr>st_xi1_device_focus := hm_insert d f (st_xi1_device_focus st)\<rparr>"

definition set_device_focus :: "u16 \<Rightarrow> u32 \<Rightarrow> u8 \<Rightarrow> u32 \<Rightarrow> ServerState \<Rightarrow> ServerState" where
  "set_device_focus deviceid raw_focus revert_to time st =
     insert_device_focus deviceid \<lparr>xf_focus = raw_focus, xf_revert_to = revert_to, xf_time = time\<rparr>
       (device_focus_events deviceid (resolve_focus st (xf_focus (device_focus st deviceid)))
          (resolve_focus st raw_focus) (focus_event_mode st deviceid) st)"

definition key_delivery_route :: "ServerState \<Rightarrow> u16 \<Rightarrow> ResourceId \<times> Xi1FocusRoute" where
  "key_delivery_route st deviceid =
     (let sprite = deepest_window_at_pointer st
      in case resolve_focus st (xf_focus (device_focus st deviceid)) of
           FNone \<Rightarrow> (sprite, DropEvent)
         | FPointerRoot \<Rightarrow> (sprite, Walk)
         | FWindow f \<Rightarrow>
             if f = sprite \<or> is_ancestor st f sprite then (sprite, WalkUpTo f) else (f, WindowOnly f))"

definition do_revert :: "u16 \<Rightarrow> ResourceId \<Rightarrow> ResourceId option \<Rightarrow> ServerState \<Rightarrow> ServerState" where
  "do_revert dev w dying_subtree st =
     (let f = device_focus st dev;
          (to_target, new_raw, new_revert) =
            (if xf_revert_to f = REVERT_TO_PARENT
             then (let parent = closest_viable_ancestor st w dying_subtree in (FWindow parent, parent, 0))
             else if xf_revert_to f = REVERT_TO_POINTER_ROOT then (FPointerRoot, 1, xf_revert_to f)
             else if xf_revert_to f = REVERT_TO_FOLLOW_KEYBOARD then (resolve_focus st 3, 3, xf_revert_to f)
             else (FNone, 0, xf_revert_to f))
      in insert_device_focus dev \<lparr>xf_focus = new_raw, xf_revert_to = new_revert, xf_time = xf_time f\<rparr>
           (device_focus_events dev (FWindow w) to_target (focus_event_mode st dev) st))"

definition revert_step :: "(ServerState \<Rightarrow> ResourceId \<Rightarrow> bool) \<Rightarrow> ResourceId option \<Rightarrow> u16 \<Rightarrow> ServerState \<Rightarrow> ServerState" where
  "revert_step lost dying_subtree dev st =
     (case resolve_raw_window_only (xf_focus (device_focus st dev)) of
        FWindow w \<Rightarrow> if lost st w then do_revert dev w dying_subtree st else st
      | _ \<Rightarrow> st)"

definition revert_unviewable_focus :: "ServerState \<Rightarrow> ServerState" where
  "revert_unviewable_focus st =
     fold (revert_step (\<lambda>st w. \<not> window_viewable st w) None) (hm_keys (st_xi1_device_focus st)) st"

definition revert_focus_for_dying_subtree :: "ResourceId \<Rightarrow> ServerState \<Rightarrow> ServerState" where
  "revert_focus_for_dying_subtree dying_root st =
     (if dying_root = ROOT_WINDOW then st
      else fold (revert_step (\<lambda>st w. in_subtree st w dying_root) (Some dying_root))
             (hm_keys (st_xi1_device_focus st)) st)"

end
