(* ===== verification/DeliveryClaims.thy ===== *)
theory DeliveryClaims
  imports DeviceFocus
begin

text \<open>
  The fanout of an event: it changes nothing but the clients, each connected recipient gets the
  event exactly once, and the clients to drop are listed once, in the order of the recipients.
\<close>

section \<open>What a fanout leaves alone\<close>

lemma set_client_eq: "set_client i c st = st\<lparr>st_clients := hm_insert i c (st_clients st)\<rparr>"
  by (simp add: set_client_def)

lemma fanout_loop_frame: "\<exists>cl. fst (fanout_loop encode seen ids st) = st\<lparr>st_clients := cl\<rparr>"
proof (induction ids arbitrary: seen st)
  case Nil
  have "st = st\<lparr>st_clients := st_clients st\<rparr>" by simp
  then show ?case unfolding fanout_loop.simps fst_conv by blast
next
  case (Cons i ids)
  show ?case
  proof (cases "i \<in> set seen \<or> hm_get (st_clients st) i = None")
    case True
    then show ?thesis using Cons.IH by auto
  next
    case False
    then obtain c where c: "i \<notin> set seen" "hm_get (st_clients st) i = Some c" by auto
    obtain cl where "fst (fanout_loop encode (i # seen) ids
        (set_client i (fst (write_to_client c i (encode c))) st)) =
        (set_client i (fst (write_to_client c i (encode c))) st)\<lparr>st_clients := cl\<rparr>"
      using Cons.IH by blast
    then show ?thesis using c by (auto simp: case_prod_beta set_client_eq)
  qed
qed

lemma fanout_frame: "\<exists>cl. fst (fanout_event_to_clients ids encode st) = st\<lparr>st_clients := cl\<rparr>"
  unfolding fanout_event_to_clients_def by (rule fanout_loop_frame)

text \<open>Two states that differ in their clients only; every delivery is of this kind.\<close>

definition same_but_clients :: "ServerState \<Rightarrow> ServerState \<Rightarrow> bool" where
  "same_but_clients st st' \<longleftrightarrow> (\<exists>cl. st' = st\<lparr>st_clients := cl\<rparr>)"

lemma same_but_clientsI: "st' = st\<lparr>st_clients := cl\<rparr> \<Longrightarrow> same_but_clients st st'"
  unfolding same_but_clients_def by blast

lemma same_but_clients_refl [simp, intro]: "same_but_clients st st"
  by (rule same_but_clientsI [where cl = "st_clients st"]) simp

lemma same_but_clients_trans [trans]:
  assumes "same_but_clients a b" and "same_but_clients b c"
  shows "same_but_clients a c"
proof -
  obtain x y where b: "b = a\<lparr>st_clients := x\<rparr>" and c: "c = b\<lparr>st_clients := y\<rparr>"
    using assms unfolding same_but_clients_def by blast
  have "c = a\<lparr>st_clients := y\<rparr>" unfolding c b by simp
  then show ?thesis by (rule same_but_clientsI)
qed

lemma fanout_same [simp]: "same_but_clients st (fst (fanout_event_to_clients ids encode st))"
  unfolding same_but_clients_def by (rule fanout_frame)

lemma send_reply_same [simp]: "same_but_clients st (fst (send_reply i encode st))"
  by (auto simp: send_reply_def case_prod_beta set_client_eq intro: same_but_clientsI split: option.split)

lemma emit_window_event_same [simp]: "same_but_clients st (fst (emit_window_event_to_state w m encode st))"
  by (simp add: emit_window_event_to_state_def Let_def)

lemma same_but_clients_fold:
  "(\<And>e st. same_but_clients st (f e st)) \<Longrightarrow> same_but_clients st (fold f es st)"
proof (induction es arbitrary: st)
  case (Cons e es)
  have "same_but_clients st (f e st)" by (rule Cons.prems)
  also have "same_but_clients (f e st) (fold f es (f e st))" by (rule Cons.IH [OF Cons.prems])
  finally show ?case by simp
qed simp

lemma xi2_focus_same [simp]:
  "same_but_clients st (fst (emit_xi2_focus_event_to_state w ev op mode detail x y st))"
  by (simp add: emit_xi2_focus_event_to_state_def Let_def case_prod_beta)

lemma core_focus_same [simp]: "same_but_clients st (emit_core_focus_transition a b mode st)"
  unfolding emit_core_focus_transition_def
proof (rule same_but_clients_fold)
  fix e st
  show "same_but_clients st (core_focus_step mode p e st)" for p
    unfolding core_focus_step_def Let_def
    by (rule same_but_clients_trans [OF emit_window_event_same xi2_focus_same])
qed

lemma state_notify_same [simp]: "same_but_clients st (deliver_state_notify d w st)"
  by (simp add: deliver_state_notify_def Let_def)

lemma emit_device_focus_same [simp]: "same_but_clients st (emit_device_focus d is_in mode detail w st)"
proof -
  have "same_but_clients st (if b then st else fst (fanout_event_to_clients ids enc st))" for b ids enc
    by simp
  then show ?thesis
    unfolding emit_device_focus_def Let_def
    by (auto intro: same_but_clients_trans [OF _ state_notify_same])
qed

lemma device_focus_events_same [simp]: "same_but_clients st (device_focus_events d fr to mode st)"
  unfolding device_focus_events_def by (intro same_but_clients_fold) simp

section \<open>Each recipient once\<close>

lemma fanout_loop_get:
  "hm_get (st_clients (fst (fanout_loop encode seen ids st))) i =
    (if i \<in> set ids - set seen
     then map_option (\<lambda>c. fst (write_to_client c i (encode c))) (hm_get (st_clients st) i)
     else hm_get (st_clients st) i)"
  by (induction ids arbitrary: seen st)
    (auto simp: case_prod_beta set_client_eq split: option.split)

lemma fanout_loop_dropped:
  "snd (fanout_loop encode seen ids st) =
    filter (\<lambda>i. \<exists>c. hm_get (st_clients st) i = Some c \<and> snd (write_to_client c i (encode c)) \<noteq> Handled)
      (filter (\<lambda>i. i \<notin> set seen) (rev (remdups (rev ids))))"
proof (induction ids arbitrary: seen st rule: rev_induct)
  case (snoc i ids)
  have app: "snd (fanout_loop encode seen (xs @ [y]) st) = snd (fanout_loop encode seen xs st) @
      (if y \<in> set seen \<union> set xs then []
       else case hm_get (st_clients st) y of None \<Rightarrow> []
            | Some c \<Rightarrow> if snd (write_to_client c y (encode c)) = Handled then [] else [y])" for xs y
  proof (induction xs arbitrary: seen st)
    case (Cons a xs)
    show ?case
      using Cons.IH [of "a # seen"] Cons.IH [of seen]
      by (auto simp: case_prod_beta set_client_eq split: option.split)
  qed (auto simp: case_prod_beta split: option.split)
  show ?case
    unfolding app snoc.IH by (auto split: option.split)
qed simp

text \<open>Claim C12. A fanout writes the event, with the recipient's own sequence number and byte order, exactly once
  to every connected recipient of the list, however often it is listed, and to nobody else; the
  clients to drop are the recipients whose write did not succeed, once each, in the order of the
  list; nothing but the clients changes.\<close>

theorem fanout_exactly_once:
  "(\<forall>i. hm_get (st_clients (fst (fanout_event_to_clients ids encode st))) i =
      (if i \<in> set ids
       then map_option (\<lambda>c. fst (write_to_client c i (encode (cs_last_sequence c) (cs_byte_order c))))
              (hm_get (st_clients st) i)
       else hm_get (st_clients st) i)) \<and>
   snd (fanout_event_to_clients ids encode st) =
     filter (\<lambda>i. \<exists>c. hm_get (st_clients st) i = Some c \<and>
         snd (write_to_client c i (encode (cs_last_sequence c) (cs_byte_order c))) \<noteq> Handled)
       (rev (remdups (rev ids))) \<and>
   fst (fanout_event_to_clients ids encode st) =
     st\<lparr>st_clients := st_clients (fst (fanout_event_to_clients ids encode st))\<rparr>"
proof (intro conjI allI)
  show "fst (fanout_event_to_clients ids encode st) =
      st\<lparr>st_clients := st_clients (fst (fanout_event_to_clients ids encode st))\<rparr>"
    using fanout_frame [of ids encode st] by auto
qed (simp_all add: fanout_event_to_clients_def fanout_loop_get fanout_loop_dropped)

end
