(* ===== verification/Alarms.thy ===== *)
theory Alarms
  imports EventWire Shapes "HOL-Library.Monad_Syntax"
begin

text \<open>
  The SYNC extension: counters, alarms and fences (\<open>crates/xserver-protocol/src/x11/sync.rs\<close> and
  \<open>handle_sync_request\<close>, \<open>apply_alarm_attributes\<close>, \<open>evaluate_alarms_for_counter\<close> of
  \<open>crates/xserver-core/src/core_loop/process_request.rs\<close>).

  An \<open>i64\<close> is the integer it stands for, with the checked and the saturating additions of the source
  written out. \<open>Instant::now()\<close> is the argument \<open>now\<close> in milliseconds, one value for one call; the log
  lines and the call of the backend that wakes a DRI3 fence have no effect on the state.
\<close>

section \<open>Codec\<close>

abbreviation (input) SERVERTIME_COUNTER :: u32 where "SERVERTIME_COUNTER \<equiv> 0x106"
abbreviation (input) IDLETIME_COUNTER :: u32 where "IDLETIME_COUNTER \<equiv> 0x107"
abbreviation (input) IDLETIME_DEVICE_VCP :: u32 where "IDLETIME_DEVICE_VCP \<equiv> 0x108"
abbreviation (input) IDLETIME_DEVICE_VCK :: u32 where "IDLETIME_DEVICE_VCK \<equiv> 0x109"
abbreviation (input) TEST_POSITIVE_TRANSITION :: u32 where "TEST_POSITIVE_TRANSITION \<equiv> 0"
abbreviation (input) TEST_NEGATIVE_TRANSITION :: u32 where "TEST_NEGATIVE_TRANSITION \<equiv> 1"
abbreviation (input) TEST_POSITIVE_COMPARISON :: u32 where "TEST_POSITIVE_COMPARISON \<equiv> 2"
abbreviation (input) TEST_NEGATIVE_COMPARISON :: u32 where "TEST_NEGATIVE_COMPARISON \<equiv> 3"
abbreviation (input) ALARM_STATE_ACTIVE :: u8 where "ALARM_STATE_ACTIVE \<equiv> 0"
abbreviation (input) ALARM_STATE_INACTIVE :: u8 where "ALARM_STATE_INACTIVE \<equiv> 1"

definition SYNC_FIRST_EVENT :: u8 where "SYNC_FIRST_EVENT = 83"

definition i64_min :: int where "i64_min = - (2 ^ 63)"
definition i64_max :: int where "i64_max = 2 ^ 63 - 1"

definition checked_add_i64 :: "int \<Rightarrow> int \<Rightarrow> int option" where
  "checked_add_i64 a b = (if i64_min \<le> a + b \<and> a + b \<le> i64_max then Some (a + b) else None)"

definition saturating_add_i64 :: "int \<Rightarrow> int \<Rightarrow> int" where
  "saturating_add_i64 a b = max i64_min (min i64_max (a + b))"

definition read_i64_at :: "u8 list \<Rightarrow> nat \<Rightarrow> int" where
  "read_i64_at b k = sint (u32_le_at b k) * 2 ^ 32 + uint (u32_le_at b (k + 4))"

definition enc_i64 :: "ClientByteOrder \<Rightarrow> int \<Rightarrow> u8 list" where
  "enc_i64 order v = enc32 order (word_of_int (v div 2 ^ 32)) @ enc32 order (word_of_int v)"

definition parse_initialize :: "u8 list \<Rightarrow> (u8 \<times> u8) option" where
  "parse_initialize body = (if length body < 4 then None else Some (body ! 0, body ! 1))"

definition parse_counter_value :: "u8 list \<Rightarrow> (u32 \<times> int) option" where
  "parse_counter_value body = (if length body < 12 then None else Some (u32_le_at body 0, read_i64_at body 4))"

definition parse_resource :: "u8 list \<Rightarrow> u32 option" where
  "parse_resource body = (if length body < 4 then None else Some (u32_le_at body 0))"

record AlarmAttributes =
  aa_counter :: "u32 option"
  aa_value_type :: "u32 option"
  aa_value :: "int option"
  aa_test_type :: "u32 option"
  aa_delta :: "int option"
  aa_events :: "bool option"

text \<open>One field of the value list: nothing when its bit is clear, a failure when the list is too short.\<close>

definition take_field :: "bool \<Rightarrow> nat \<Rightarrow> (nat \<Rightarrow> 'a) \<Rightarrow> u8 list \<Rightarrow> nat \<Rightarrow> ('a option \<times> nat) option" where
  "take_field present width read vals off =
     (if \<not> present then Some (None, off)
      else if length vals < off + width then None
      else Some (Some (read off), off + width))"

definition parse_alarm_attributes :: "u8 list \<Rightarrow> (u32 \<times> AlarmAttributes) option" where
  "parse_alarm_attributes body =
     (if length body < 8 then None
      else
        let alarm = u32_le_at body 0; m = u32_le_at body 4; vals = drop 8 body
        in do {
             (counter, off) \<leftarrow> take_field (m AND 1 \<noteq> 0) 4 (u32_le_at vals) vals 0;
             (value_type, off) \<leftarrow> take_field (m AND 2 \<noteq> 0) 4 (u32_le_at vals) vals off;
             (val, off) \<leftarrow> take_field (m AND 4 \<noteq> 0) 8 (read_i64_at vals) vals off;
             (test_type, off) \<leftarrow> take_field (m AND 8 \<noteq> 0) 4 (u32_le_at vals) vals off;
             (delta, off) \<leftarrow> take_field (m AND 16 \<noteq> 0) 8 (read_i64_at vals) vals off;
             (events, off) \<leftarrow> take_field (m AND 32 \<noteq> 0) 4 (\<lambda>k. vals ! k \<noteq> 0) vals off;
             Some (alarm, \<lparr>aa_counter = counter, aa_value_type = value_type, aa_value = val,
               aa_test_type = test_type, aa_delta = delta, aa_events = events\<rparr>)
           })"

definition trigger_fires :: "u32 \<Rightarrow> int \<Rightarrow> int \<Rightarrow> int \<Rightarrow> bool" where
  "trigger_fires test_type old new wait_value =
     (if test_type = TEST_POSITIVE_TRANSITION then old < wait_value \<and> new \<ge> wait_value
      else if test_type = TEST_NEGATIVE_TRANSITION then old > wait_value \<and> new \<le> wait_value
      else if test_type = TEST_POSITIVE_COMPARISON then new \<ge> wait_value
      else if test_type = TEST_NEGATIVE_COMPARISON then new \<le> wait_value
      else False)"

definition comparison_satisfied :: "u32 \<Rightarrow> int \<Rightarrow> int \<Rightarrow> bool" where
  "comparison_satisfied test_type val wait_value =
     (if test_type = TEST_POSITIVE_TRANSITION \<or> test_type = TEST_POSITIVE_COMPARISON then val \<ge> wait_value
      else if test_type = TEST_NEGATIVE_TRANSITION \<or> test_type = TEST_NEGATIVE_COMPARISON then val \<le> wait_value
      else False)"

definition encode_alarm_notify_event ::
  "ClientByteOrder \<Rightarrow> u8 \<Rightarrow> u16 \<Rightarrow> u32 \<Rightarrow> int \<Rightarrow> int \<Rightarrow> u32 \<Rightarrow> u8 \<Rightarrow> u8 list" where
  "encode_alarm_notify_event order first_event sequence alarm counter_value alarm_value time alarm_state =
     [first_event + 1, 1] @ enc16 order sequence @ enc32 order alarm @ enc_i64 order counter_value @
     enc_i64 order alarm_value @ enc32 order time @ [alarm_state] @ replicate 3 0"

definition parse_create_fence :: "u8 list \<Rightarrow> (u32 \<times> u32 \<times> bool) option" where
  "parse_create_fence body =
     (if length body < 12 then None else Some (u32_le_at body 0, u32_le_at body 4, body ! 8 \<noteq> 0))"

definition parse_await_fence :: "u8 list \<Rightarrow> u32 list option" where
  "parse_await_fence body =
     (if length body mod 4 \<noteq> 0 then None
      else Some (map (\<lambda>k. u32_le_at body (4 * k)) [0..<length body div 4]))"

definition sync_fixed_reply :: "ClientByteOrder \<Rightarrow> u16 \<Rightarrow> u32 \<Rightarrow> u8 list" where
  "sync_fixed_reply order sequence units = [1, 0] @ enc16 order sequence @ enc32 order units"

definition encode_query_fence_reply :: "ClientByteOrder \<Rightarrow> u16 \<Rightarrow> bool \<Rightarrow> u8 list" where
  "encode_query_fence_reply order sequence triggered =
     sync_fixed_reply order sequence 0 @ [of_bool triggered] @ replicate 23 0"

definition encode_initialize_reply :: "ClientByteOrder \<Rightarrow> u16 \<Rightarrow> u8 \<Rightarrow> u8 \<Rightarrow> u8 list" where
  "encode_initialize_reply order sequence major minor =
     sync_fixed_reply order sequence 0 @ [major, minor] @ enc16 order 0 @ replicate 20 0"

definition system_counters :: "(u32 \<times> string) list" where
  "system_counters = [(SERVERTIME_COUNTER, ''SERVERTIME''), (IDLETIME_COUNTER, ''IDLETIME''),
     (IDLETIME_DEVICE_VCP, ''DEVICEIDLETIME 2''), (IDLETIME_DEVICE_VCK, ''DEVICEIDLETIME 3'')]"

definition next_multiple_of_4 :: "nat \<Rightarrow> nat" where
  "next_multiple_of_4 k = (k + 3) div 4 * 4"

definition system_counter_entry :: "ClientByteOrder \<Rightarrow> u32 \<times> string \<Rightarrow> u8 list" where
  "system_counter_entry order = (\<lambda>(counter, name).
     (let entry = enc32 order counter @ enc_i64 order 4 @ enc16 order (word_of_nat (length name)) @
            map of_char name
      in entry @ replicate (next_multiple_of_4 (14 + length name) - length entry) 0))"

definition encode_list_system_counters_reply :: "ClientByteOrder \<Rightarrow> u16 \<Rightarrow> u8 list" where
  "encode_list_system_counters_reply order sequence =
     (let payload_len = sum_list (map (\<lambda>(_, name). next_multiple_of_4 (14 + length name)) system_counters)
      in sync_fixed_reply order sequence (word_of_nat (payload_len div 4)) @
         enc32 order (word_of_nat (length system_counters)) @ replicate 20 0 @
         concat (map (system_counter_entry order) system_counters))"

definition encode_query_counter_reply :: "ClientByteOrder \<Rightarrow> u16 \<Rightarrow> int \<Rightarrow> u8 list" where
  "encode_query_counter_reply order sequence val =
     sync_fixed_reply order sequence 0 @ enc_i64 order val @ replicate 16 0"

definition encode_query_alarm_reply ::
  "ClientByteOrder \<Rightarrow> u16 \<Rightarrow> u32 \<Rightarrow> int \<Rightarrow> int \<Rightarrow> bool \<Rightarrow> u8 \<Rightarrow> u8 list" where
  "encode_query_alarm_reply order sequence counter wait_value delta events alarm_state =
     sync_fixed_reply order sequence 2 @ enc32 order counter @ enc32 order 0 @ enc_i64 order wait_value @
     enc32 order 0 @ enc_i64 order delta @ [of_bool events, alarm_state] @ replicate 2 0"

definition encode_get_priority_reply :: "ClientByteOrder \<Rightarrow> u16 \<Rightarrow> u32 \<Rightarrow> u8 list" where
  "encode_get_priority_reply order sequence priority =
     sync_fixed_reply order sequence 0 @ enc32 order priority @ replicate 20 0"

section \<open>Idle time\<close>

text \<open>Milliseconds from an earlier instant, at most \<open>u32::MAX\<close>; zero when the instant is in the future.\<close>

definition idle_since :: "nat \<Rightarrow> nat \<Rightarrow> int" where
  "idle_since now baseline = int (min (now - baseline) (2 ^ 32 - 1))"

definition idletime_baseline :: "ServerState \<Rightarrow> u32 \<Rightarrow> nat" where
  "idletime_baseline st counter =
     (if counter = IDLETIME_DEVICE_VCP
      then unwrap_or (hm_get (st_per_device_last_activity st) 2) (dpms_last_activity (st_dpms st))
      else if counter = IDLETIME_DEVICE_VCK
      then unwrap_or (hm_get (st_per_device_last_activity st) 3) (dpms_last_activity (st_dpms st))
      else dpms_last_activity (st_dpms st))"

definition is_idletime :: "u32 \<Rightarrow> bool" where
  "is_idletime counter \<longleftrightarrow> counter \<in> {IDLETIME_COUNTER, IDLETIME_DEVICE_VCP, IDLETIME_DEVICE_VCK}"

definition idletime_current_idle :: "nat \<Rightarrow> ServerState \<Rightarrow> u32 \<Rightarrow> int" where
  "idletime_current_idle now st counter = idle_since now (idletime_baseline st counter)"

text \<open>The value of a counter that an alarm is tested against when it is created or changed.\<close>

definition current_value :: "nat \<Rightarrow> ServerState \<Rightarrow> u32 \<Rightarrow> int" where
  "current_value now st counter =
     (if is_idletime counter then idletime_current_idle now st counter
      else map_or 0 sc_value (hm_get (st_sync_counters st) counter))"

section \<open>Alarms\<close>

definition SyncAlarm_default :: SyncAlarm where
  "SyncAlarm_default = \<lparr>sa_owner = 0, sa_counter = 0, sa_wait_value = 0, sa_delta = 0, sa_test_type = 0,
     sa_events = False, sa_state = ALARM_STATE_ACTIVE\<rparr>"

definition apply_alarm_attributes :: "nat \<Rightarrow> ServerState \<Rightarrow> AlarmAttributes \<Rightarrow> SyncAlarm \<Rightarrow> SyncAlarm" where
  "apply_alarm_attributes now st attrs a =
     (let a = a\<lparr>sa_counter := unwrap_or (aa_counter attrs) (sa_counter a)\<rparr>;
          a = a\<lparr>sa_test_type := map_or (sa_test_type a)
                  (\<lambda>t. if t < 256 then ucast t else 0) (aa_test_type attrs)\<rparr>;
          a = a\<lparr>sa_delta := unwrap_or (aa_delta attrs) (sa_delta a)\<rparr>;
          a = a\<lparr>sa_events := unwrap_or (aa_events attrs) (sa_events a)\<rparr>
      in if aa_value attrs \<noteq> None \<or> aa_value_type attrs \<noteq> None
         then
           let val = unwrap_or (aa_value attrs) 0
           in a\<lparr>sa_wait_value :=
                  (if aa_value_type attrs = Some 1
                   then saturating_add_i64 (current_value now st (sa_counter a)) val
                   else val)\<rparr>
         else a)"

text \<open>The re-arm loop, with the rounds that its guard leaves; the flag says that the sum overflowed.\<close>

fun rearm_loop :: "nat \<Rightarrow> u32 \<Rightarrow> int \<Rightarrow> int \<Rightarrow> int \<Rightarrow> int \<times> bool" where
  "rearm_loop 0 test_type new delta w = (w, False)"
| "rearm_loop (Suc n) test_type new delta w =
     (if comparison_satisfied test_type new w
      then
        (case checked_add_i64 w delta of
           Some nxt \<Rightarrow> if nxt \<noteq> w then rearm_loop n test_type new delta nxt else (w, False)
         | None \<Rightarrow> (w, True))
      else (w, False))"

definition alarm_fired :: "int \<Rightarrow> SyncAlarm \<Rightarrow> SyncAlarm" where
  "alarm_fired new a =
     (let test_type = ucast (sa_test_type a) :: u32;
          fired_wait = sa_wait_value a;
          is_comparison = (test_type = TEST_POSITIVE_COMPARISON \<or> test_type = TEST_NEGATIVE_COMPARISON)
      in if sa_delta a = 0
         then a\<lparr>sa_state := (if is_comparison then ALARM_STATE_INACTIVE else ALARM_STATE_ACTIVE)\<rparr>
         else
           (case rearm_loop 1000000 test_type new (sa_delta a) fired_wait of
              (w, overflowed) \<Rightarrow>
                if overflowed then a\<lparr>sa_state := ALARM_STATE_INACTIVE\<rparr>
                else a\<lparr>sa_wait_value := w, sa_state := ALARM_STATE_ACTIVE\<rparr>))"

definition alarm_fires :: "int \<Rightarrow> int \<Rightarrow> SyncAlarm \<Rightarrow> bool" where
  "alarm_fires old new a \<longleftrightarrow> trigger_fires (ucast (sa_test_type a)) old new (sa_wait_value a)"

definition alarm_notify :: "u32 \<Rightarrow> u32 \<Rightarrow> int \<Rightarrow> SyncAlarm \<Rightarrow> u16 \<Rightarrow> ClientByteOrder \<Rightarrow> u8 list" where
  "alarm_notify time alarm_id new a sequence order =
     encode_alarm_notify_event order SYNC_FIRST_EVENT sequence alarm_id new (sa_wait_value a) time
       (sa_state (alarm_fired new a))"

text \<open>The body of the loop over the candidates.\<close>

definition evaluate_alarm :: "int \<Rightarrow> int \<Rightarrow> u32 \<Rightarrow> u32 \<Rightarrow> ServerState \<Rightarrow> ServerState" where
  "evaluate_alarm old new time alarm_id st =
     (case hm_get (st_sync_alarms st) alarm_id of
        None \<Rightarrow> st
      | Some a \<Rightarrow>
          if \<not> alarm_fires old new a then st
          else
            let st = st\<lparr>st_sync_alarms := hm_modify alarm_id (\<lambda>_. alarm_fired new a) (st_sync_alarms st)\<rparr>
            in if sa_events a
               then fst (fanout_event_to_clients [sa_owner a] (alarm_notify time alarm_id new a) st)
               else st)"

definition watches :: "u32 \<Rightarrow> SyncAlarm \<Rightarrow> bool" where
  "watches counter a \<longleftrightarrow> sa_counter a = counter \<and> sa_state a = ALARM_STATE_ACTIVE"

definition evaluate_alarms_for_counter :: "u32 \<Rightarrow> int \<Rightarrow> int \<Rightarrow> ServerState \<Rightarrow> ServerState" where
  "evaluate_alarms_for_counter counter old new st =
     fold (evaluate_alarm old new (st_timestamp st))
       (map fst (filter (\<lambda>(_, a). watches counter a) (st_sync_alarms st))) st"

section \<open>Requests\<close>

definition set_counter :: "u32 \<Rightarrow> (int \<Rightarrow> int) \<Rightarrow> ServerState \<Rightarrow> ServerState" where
  "set_counter counter f st =
     (case hm_get (st_sync_counters st) counter of
        None \<Rightarrow> st
      | Some c \<Rightarrow>
          evaluate_alarms_for_counter counter (sc_value c) (f (sc_value c))
            (st\<lparr>st_sync_counters := hm_modify counter (\<lambda>c. c\<lparr>sc_value := f (sc_value c)\<rparr>)
                  (st_sync_counters st)\<rparr>))"

text \<open>Store an alarm and test it at once.\<close>

definition store_alarm :: "nat \<Rightarrow> u32 \<Rightarrow> SyncAlarm \<Rightarrow> ServerState \<Rightarrow> ServerState" where
  "store_alarm now alarm a st =
     (let st = st\<lparr>st_sync_alarms := hm_insert alarm a (st_sync_alarms st)\<rparr>;
          now_value = current_value now st (sa_counter a)
      in evaluate_alarms_for_counter (sa_counter a) now_value now_value st)"

definition create_alarm :: "nat \<Rightarrow> ClientId \<Rightarrow> u8 list \<Rightarrow> ServerState \<Rightarrow> ServerState" where
  "create_alarm now client_id body st =
     (case parse_alarm_attributes body of
        None \<Rightarrow> st
      | Some (alarm, attrs) \<Rightarrow>
          store_alarm now alarm
            (apply_alarm_attributes now st attrs
              (SyncAlarm_default\<lparr>sa_owner := client_id, sa_state := ALARM_STATE_ACTIVE, sa_events := True\<rparr>)) st)"

definition change_alarm :: "nat \<Rightarrow> u8 list \<Rightarrow> ServerState \<Rightarrow> ServerState" where
  "change_alarm now body st =
     (case parse_alarm_attributes body of
        None \<Rightarrow> st
      | Some (alarm, attrs) \<Rightarrow>
          (case hm_get (st_sync_alarms st) alarm of
             None \<Rightarrow> st
           | Some a \<Rightarrow>
               store_alarm now alarm
                 ((apply_alarm_attributes now st attrs a)\<lparr>sa_state := ALARM_STATE_ACTIVE\<rparr>) st))"

definition await_fence :: "ClientId \<Rightarrow> u16 \<Rightarrow> u8 list \<Rightarrow> ServerState \<Rightarrow> ServerState" where
  "await_fence client_id sequence body st =
     (case parse_await_fence body of
        None \<Rightarrow> st
      | Some fences \<Rightarrow>
          if list_ex (\<lambda>f. map_or False sf_triggered (hm_get (st_sync_fences st) f)) fences then st
          else st\<lparr>st_sync_pending_awaits := st_sync_pending_awaits st @
                    [\<lparr>pa_client = client_id, pa_sequence = sequence, pa_fences = fences\<rparr>]\<rparr>)"

text \<open>The requests that change the tables and send no reply.\<close>

definition sync_update :: "nat \<Rightarrow> ClientId \<Rightarrow> u16 \<Rightarrow> u8 \<Rightarrow> u8 list \<Rightarrow> ServerState \<Rightarrow> ServerState" where
  "sync_update now client_id sequence minor body st =
     (if minor = 2 then
        (case parse_counter_value body of
           Some (counter, val) \<Rightarrow> st\<lparr>st_sync_counters :=
             hm_insert counter \<lparr>sc_owner = client_id, sc_value = val\<rparr> (st_sync_counters st)\<rparr>
         | None \<Rightarrow> st)
      else if minor = 3 then
        (case parse_counter_value body of Some (counter, val) \<Rightarrow> set_counter counter (\<lambda>_. val) st | None \<Rightarrow> st)
      else if minor = 4 then
        (case parse_counter_value body of
           Some (counter, delta) \<Rightarrow> set_counter counter (\<lambda>old. saturating_add_i64 old delta) st | None \<Rightarrow> st)
      else if minor = 6 then
        (case parse_resource body of
           Some counter \<Rightarrow> st\<lparr>st_sync_counters := hm_remove counter (st_sync_counters st)\<rparr> | None \<Rightarrow> st)
      else if minor = 8 then create_alarm now client_id body st
      else if minor = 9 then change_alarm now body st
      else if minor = 11 then
        (case parse_resource body of
           Some alarm \<Rightarrow> st\<lparr>st_sync_alarms := hm_remove alarm (st_sync_alarms st)\<rparr> | None \<Rightarrow> st)
      else if minor = 14 then
        (case parse_create_fence body of
           Some (_, fence, triggered) \<Rightarrow> st\<lparr>st_sync_fences :=
             hm_insert fence \<lparr>sf_owner = client_id, sf_triggered = triggered\<rparr> (st_sync_fences st)\<rparr>
         | None \<Rightarrow> st)
      else if minor = 15 then
        (case parse_resource body of
           Some fence \<Rightarrow> st\<lparr>
             st_sync_fences := hm_modify fence (\<lambda>f. f\<lparr>sf_triggered := True\<rparr>) (st_sync_fences st),
             st_sync_pending_awaits := filter (\<lambda>a. fence \<notin> set (pa_fences a)) (st_sync_pending_awaits st)\<rparr>
         | None \<Rightarrow> st)
      else if minor = 16 then
        (case parse_resource body of
           Some fence \<Rightarrow> st\<lparr>
             st_sync_fences := hm_modify fence (\<lambda>f. f\<lparr>sf_triggered := False\<rparr>) (st_sync_fences st)\<rparr>
         | None \<Rightarrow> st)
      else if minor = 17 then
        (case parse_resource body of
           Some fence \<Rightarrow> st\<lparr>st_sync_fences := hm_remove fence (st_sync_fences st)\<rparr> | None \<Rightarrow> st)
      else if minor = 19 then await_fence client_id sequence body st
      else st)"

definition sync_query ::
  "nat \<Rightarrow> u16 \<Rightarrow> u8 \<Rightarrow> u8 list \<Rightarrow> ServerState \<Rightarrow> (ClientByteOrder \<Rightarrow> u8 list) option" where
  "sync_query now sequence minor body st =
     (if minor = 0 then
        (let (client_major, client_minor) = unwrap_or (parse_initialize body) (3, 0);
             major = min 3 client_major
         in Some (\<lambda>order. encode_initialize_reply order sequence major (if major < 3 then client_minor else 1)))
      else if minor = 1 then Some (\<lambda>order. encode_list_system_counters_reply order sequence)
      else if minor = 5 then
        (let counter = unwrap_or (parse_resource body) 0
         in Some (\<lambda>order. encode_query_counter_reply order sequence
              (if counter = SERVERTIME_COUNTER then uint (st_timestamp st) else current_value now st counter)))
      else if minor = 10 then
        (let a = unwrap_or (hm_get (st_sync_alarms st) (unwrap_or (parse_resource body) 0)) SyncAlarm_default
         in Some (\<lambda>order. encode_query_alarm_reply order sequence (sa_counter a) (sa_wait_value a)
              (sa_delta a) (sa_events a) (sa_state a)))
      else if minor = 13 then Some (\<lambda>order. encode_get_priority_reply order sequence 0)
      else if minor = 18 then
        Some (\<lambda>order. encode_query_fence_reply order sequence
          (map_or False sf_triggered (hm_get (st_sync_fences st) (unwrap_or (parse_resource body) 0))))
      else None)"

definition handle_sync_request ::
  "nat \<Rightarrow> ClientId \<Rightarrow> u16 \<Rightarrow> u8 \<Rightarrow> u8 list \<Rightarrow> ServerState \<Rightarrow> ServerState \<times> RequestOutcome" where
  "handle_sync_request now client_id sequence minor body st =
     (case sync_query now sequence minor body st of
        Some reply \<Rightarrow> send_reply client_id reply st
      | None \<Rightarrow> (sync_update now client_id sequence minor body st, Handled))"

end
