(* ===== verification/AlarmClaims.thy ===== *)
theory AlarmClaims
  imports Alarms DeliveryClaims
begin

text \<open>
  What the evaluation of alarms does: the re-arm loop in closed form, the exact effect on the table, and
  when an evaluated counter is at rest.
\<close>

section \<open>The re-arm loop\<close>

definition in_i64 :: "int \<Rightarrow> bool" where
  "in_i64 v \<longleftrightarrow> i64_min \<le> v \<and> v \<le> i64_max"

definition positive_test :: "u32 \<Rightarrow> bool" where
  "positive_test t \<longleftrightarrow> t = TEST_POSITIVE_TRANSITION \<or> t = TEST_POSITIVE_COMPARISON"

definition negative_test :: "u32 \<Rightarrow> bool" where
  "negative_test t \<longleftrightarrow> t = TEST_NEGATIVE_TRANSITION \<or> t = TEST_NEGATIVE_COMPARISON"

text \<open>How far the value is past the threshold, and how far one round takes the threshold.\<close>

definition past :: "u32 \<Rightarrow> int \<Rightarrow> int \<Rightarrow> int" where
  "past t new w = (if positive_test t then new - w else w - new)"

definition stride :: "u32 \<Rightarrow> int \<Rightarrow> int" where
  "stride t delta = (if positive_test t then delta else - delta)"

lemma satisfied_past:
  "positive_test t \<or> negative_test t \<Longrightarrow> comparison_satisfied t new w \<longleftrightarrow> 0 \<le> past t new w"
  by (auto simp: comparison_satisfied_def past_def positive_test_def negative_test_def)

lemma past_step: "past t new (w + delta) = past t new w - stride t delta"
  by (simp add: past_def stride_def)

definition rearmed :: "nat \<Rightarrow> u32 \<Rightarrow> int \<Rightarrow> int \<Rightarrow> int \<Rightarrow> int \<times> bool" where
  "rearmed n t new delta w =
     (let k = past t new w div stride t delta + 1
      in if past t new w < 0 then (w, False)
         else if k \<le> int n
              then (if in_i64 (w + k * delta) then (w + k * delta, False) else (w + (k - 1) * delta, True))
              else (w + int n * delta, False))"

lemma between_in_i64:
  assumes "in_i64 new" "in_i64 w" "0 \<le> stride t delta" "stride t delta \<le> past t new w"
  shows "in_i64 (w + delta)"
  using assms by (auto simp: in_i64_def stride_def past_def split: if_splits)

lemma rearm_loop_closed:
  assumes t: "positive_test t \<or> negative_test t" and s: "0 < stride t delta" and new: "in_i64 new"
  shows "in_i64 w \<Longrightarrow> rearm_loop n t new delta w = rearmed n t new delta w"
proof (induction n arbitrary: w)
  case 0
  show ?case
  proof (cases "past t new w < 0")
    case False
    then have "0 \<le> past t new w div stride t delta" using s by (simp add: pos_imp_zdiv_nonneg_iff)
    then show ?thesis using False by (simp add: rearmed_def Let_def)
  qed (simp add: rearmed_def)
next
  case (Suc n)
  have d: "delta \<noteq> 0" using s by (auto simp: stride_def split: if_splits)
  show ?case
  proof (cases "past t new w < 0")
    case True
    then show ?thesis using satisfied_past [OF t] by (simp add: rearmed_def)
  next
    case past: False
    then have sat: "comparison_satisfied t new w" using satisfied_past [OF t] by simp
    show ?thesis
    proof (cases "past t new w < stride t delta")
      case True
      then have k: "past t new w div stride t delta = 0" using past by simp
      have stop: "rearm_loop n t new delta (w + delta) = (w + delta, False)"
        using True past satisfied_past [OF t, of new "w + delta"]
        by (cases n) (simp_all add: past_step)
      show ?thesis
        using sat past d stop
        by (simp add: rearmed_def Let_def k checked_add_i64_def in_i64_def)
    next
      case False
      have ok: "in_i64 (w + delta)" by (rule between_in_i64 [OF new Suc.prems, of t]) (use s False in simp_all)
      have k: "(past t new w - stride t delta) div stride t delta = past t new w div stride t delta - 1"
        using s div_add_self2 [of "stride t delta" "past t new w - stride t delta"] by simp
      have "rearm_loop (Suc n) t new delta w = rearmed n t new delta (w + delta)"
        using sat d ok Suc.IH [OF ok] by (simp add: checked_add_i64_def in_i64_def)
      also have "\<dots> = rearmed (Suc n) t new delta w"
        using past False unfolding rearmed_def Let_def past_step k by (simp add: algebra_simps)
      finally show ?thesis .
    qed
  qed
qed

text \<open>A delta of the wrong sign never ends the loop before its guard does.\<close>

lemma rearm_loop_wrong_sign:
  assumes t: "positive_test t \<or> negative_test t" and s: "stride t delta < 0"
  shows "0 \<le> past t new w \<Longrightarrow> (\<And>k. k \<le> n \<Longrightarrow> in_i64 (w + int k * delta)) \<Longrightarrow>
    rearm_loop n t new delta w = (w + int n * delta, False)"
proof (induction n arbitrary: w)
  case (Suc n)
  have "in_i64 (w + delta)" using Suc.prems(2) [of 1] by simp
  moreover have "in_i64 (w + delta + int k * delta)" if "k \<le> n" for k
    using Suc.prems(2) [of "Suc k"] that by (simp add: algebra_simps)
  moreover have "0 \<le> past t new (w + delta)" using Suc.prems(1) s by (simp add: past_step)
  moreover have "delta \<noteq> 0" using s by (auto simp: stride_def split: if_splits)
  ultimately show ?case
    using Suc.IH [of "w + delta"] satisfied_past [OF t, of new w] Suc.prems(1)
    by (simp add: checked_add_i64_def in_i64_def algebra_simps)
qed simp

section \<open>One alarm\<close>

definition alarm_test :: "SyncAlarm \<Rightarrow> u32" where
  "alarm_test a = ucast (sa_test_type a)"

definition directed :: "SyncAlarm \<Rightarrow> bool" where
  "directed a \<longleftrightarrow> (positive_test (alarm_test a) \<or> negative_test (alarm_test a)) \<and>
     0 < stride (alarm_test a) (sa_delta a)"

definition rounds :: "int \<Rightarrow> SyncAlarm \<Rightarrow> int" where
  "rounds new a = past (alarm_test a) new (sa_wait_value a) div stride (alarm_test a) (sa_delta a) + 1"

lemma fires_satisfied:
  "alarm_fires old new a \<Longrightarrow> comparison_satisfied (alarm_test a) new (sa_wait_value a)"
  by (auto simp: alarm_fires_def alarm_test_def trigger_fires_def comparison_satisfied_def split: if_splits)

lemma fires_test: "alarm_fires old new a \<Longrightarrow> positive_test (alarm_test a) \<or> negative_test (alarm_test a)"
  by (auto simp: alarm_fires_def alarm_test_def trigger_fires_def positive_test_def negative_test_def
      split: if_splits)

lemma rearmed_when_directed:
  assumes fires: "alarm_fires old new a" and directed: "directed a"
    and range: "in_i64 new" "in_i64 (sa_wait_value a)"
  shows "alarm_fired new a =
    (if rounds new a \<le> 1000000
     then (if in_i64 (sa_wait_value a + rounds new a * sa_delta a)
           then a\<lparr>sa_wait_value := sa_wait_value a + rounds new a * sa_delta a, sa_state := ALARM_STATE_ACTIVE\<rparr>
           else a\<lparr>sa_state := ALARM_STATE_INACTIVE\<rparr>)
     else a\<lparr>sa_wait_value := sa_wait_value a + 1000000 * sa_delta a, sa_state := ALARM_STATE_ACTIVE\<rparr>)"
proof -
  let ?t = "alarm_test a"
  have t: "positive_test ?t \<or> negative_test ?t" using directed by (simp add: directed_def)
  have s: "0 < stride ?t (sa_delta a)" using directed by (simp add: directed_def)
  then have d: "sa_delta a \<noteq> 0" by (auto simp: stride_def split: if_splits)
  have p: "\<not> past ?t new (sa_wait_value a) < 0"
    using fires_satisfied [OF fires] satisfied_past [OF t] by simp
  have loop: "rearm_loop 1000000 (ucast (sa_test_type a)) new (sa_delta a) (sa_wait_value a) =
      rearmed 1000000 ?t new (sa_delta a) (sa_wait_value a)"
    using rearm_loop_closed [OF t s range] by (simp add: alarm_test_def)
  show ?thesis
    using p d unfolding alarm_fired_def Let_def loop
    by (simp add: rearmed_def Let_def rounds_def)
qed

text \<open>
  An alarm that fires is re-armed past the value of the counter: its threshold moves by the
  least number of deltas that puts it beyond the value. When that threshold is not an \<open>i64\<close> the alarm
  becomes inactive with its threshold unchanged; when more than a million deltas are needed the loop
  gives up after a million.
\<close>

theorem alarm_rearmed_past_value:
  assumes fires: "alarm_fires old new a" and directed: "directed a"
    and range: "in_i64 new" "in_i64 (sa_wait_value a)"
  shows "alarm_fired new a =
    (if rounds new a \<le> 1000000
     then (if in_i64 (sa_wait_value a + rounds new a * sa_delta a)
           then a\<lparr>sa_wait_value := sa_wait_value a + rounds new a * sa_delta a, sa_state := ALARM_STATE_ACTIVE\<rparr>
           else a\<lparr>sa_state := ALARM_STATE_INACTIVE\<rparr>)
     else a\<lparr>sa_wait_value := sa_wait_value a + 1000000 * sa_delta a, sa_state := ALARM_STATE_ACTIVE\<rparr>)"
  by (rule rearmed_when_directed [OF assms])

lemma alarm_rearmed_past_value_witness:
  "alarm_fired 7 (SyncAlarm_default\<lparr>sa_test_type := 2, sa_wait_value := 1, sa_delta := 4\<rparr>) =
    SyncAlarm_default\<lparr>sa_test_type := 2, sa_wait_value := 9, sa_delta := 4\<rparr>"
  using alarm_rearmed_past_value [of 0 7 "SyncAlarm_default\<lparr>sa_test_type := 2, sa_wait_value := 1, sa_delta := 4\<rparr>"]
  by (simp add: alarm_fires_def trigger_fires_def directed_def alarm_test_def stride_def positive_test_def
      in_i64_def i64_min_def i64_max_def rounds_def past_def SyncAlarm_default_def)



section \<open>The table\<close>

definition evaluated :: "u32 \<Rightarrow> int \<Rightarrow> int \<Rightarrow> SyncAlarm \<Rightarrow> SyncAlarm" where
  "evaluated counter old new a =
     (if watches counter a \<and> alarm_fires old new a then alarm_fired new a else a)"

definition notify_alarm :: "u32 \<Rightarrow> int \<Rightarrow> u32 \<times> SyncAlarm \<Rightarrow> ServerState \<Rightarrow> ServerState" where
  "notify_alarm time new = (\<lambda>(i, a) st.
     fst (fanout_event_to_clients [sa_owner a] (alarm_notify time i new a) st))"

lemma fanout_loop_alarms:
  "fanout_loop encode seen ids (st\<lparr>st_sync_alarms := m\<rparr>) =
    (case fanout_loop encode seen ids st of (st', dropped) \<Rightarrow> (st'\<lparr>st_sync_alarms := m\<rparr>, dropped))"
proof (induction encode seen ids st rule: fanout_loop.induct)
  case (2 encode seen i ids st)
  have "set_client j c (st\<lparr>st_sync_alarms := m\<rparr>) = (set_client j c st)\<lparr>st_sync_alarms := m\<rparr>" for j c
    by (simp add: set_client_def)
  then show ?case using 2 by (simp split: option.split prod.split)
qed simp

lemma notify_alarm_alarms:
  "notify_alarm time new x (st\<lparr>st_sync_alarms := m\<rparr>) = (notify_alarm time new x st)\<lparr>st_sync_alarms := m\<rparr>"
  by (simp only: notify_alarm_def fanout_event_to_clients_def fanout_loop_alarms split_beta fst_conv)

lemma fold_notify_alarms:
  "fold (notify_alarm time new) xs (st\<lparr>st_sync_alarms := m\<rparr>) =
    (fold (notify_alarm time new) xs st)\<lparr>st_sync_alarms := m\<rparr>"
  by (induction xs arbitrary: st) (simp_all add: notify_alarm_alarms)

lemma same_but_clients_notify: "same_but_clients st (notify_alarm time new x st)"
  by (simp add: notify_alarm_def split_beta)

lemma hm_at:
  assumes "distinct (map fst (ys @ (i, a) # xs))"
  shows "hm_get (ys @ (i, a) # xs) i = Some a"
    "hm_modify i f (ys @ (i, a) # xs) = ys @ (i, f a) # xs"
proof -
  have i: "i \<notin> fst ` set ys" using assms by auto
  then show get: "hm_get (ys @ (i, a) # xs) i = Some a"
    by (simp add: hm_get_def map_add_def map_of_eq_None_iff [symmetric] split: option.split)
  have "AList.update i v (ys @ (i, a) # xs) = ys @ (i, v) # xs" for v
    using i by (induction ys) auto
  then show "hm_modify i f (ys @ (i, a) # xs) = ys @ (i, f a) # xs"
    by (simp add: hm_modify_def get hm_insert_def)
qed

lemma evaluate_fold:
  "st_sync_alarms st = ys @ xs \<Longrightarrow> distinct (map fst (ys @ xs)) \<Longrightarrow>
   fold (evaluate_alarm old new time) (map fst (filter (\<lambda>(_, a). watches counter a) xs)) st =
     (fold (notify_alarm time new)
       (filter (\<lambda>(_, a). watches counter a \<and> alarm_fires old new a \<and> sa_events a) xs) st)
     \<lparr>st_sync_alarms := ys @ map (\<lambda>(i, a). (i, evaluated counter old new a)) xs\<rparr>"
proof (induction xs arbitrary: ys st)
  case Nil
  then show ?case by simp
next
  case (Cons x xs)
  obtain i a where x: "x = (i, a)" by (cases x)
  note at = hm_at [OF Cons.prems(2) [unfolded x]]
  let ?a = "evaluated counter old new a"
  define st' where "st' = (if watches counter a \<and> alarm_fires old new a \<and> sa_events a
    then notify_alarm time new (i, a) st else st)\<lparr>st_sync_alarms := ys @ (i, ?a) # xs\<rparr>"
  have IH: "fold (evaluate_alarm old new time) (map fst (filter (\<lambda>(_, a). watches counter a) xs)) st' =
     (fold (notify_alarm time new)
       (filter (\<lambda>(_, a). watches counter a \<and> alarm_fires old new a \<and> sa_events a) xs) st')
     \<lparr>st_sync_alarms := ys @ (i, ?a) # map (\<lambda>(i, a). (i, evaluated counter old new a)) xs\<rparr>"
    using Cons.IH [of st' "ys @ [(i, ?a)]"] Cons.prems(2) by (simp add: st'_def x)
  have "(if watches counter a then evaluate_alarm old new time i st else st) = st'"
    using Cons.prems(1)
    by (simp add: evaluate_alarm_def at x st'_def evaluated_def Let_def notify_alarm_alarms [symmetric])
      (simp add: notify_alarm_def)
  then show ?case
    using IH by (auto simp: x st'_def fold_notify_alarms)
qed

lemma evaluate_alarms_exact:
  assumes "hm_wf (st_sync_alarms st)"
  shows "evaluate_alarms_for_counter counter old new st =
    (fold (notify_alarm (st_timestamp st) new)
      (filter (\<lambda>(_, a). watches counter a \<and> alarm_fires old new a \<and> sa_events a) (st_sync_alarms st)) st)
    \<lparr>st_sync_alarms := map (\<lambda>(i, a). (i, evaluated counter old new a)) (st_sync_alarms st)\<rparr>"
  unfolding evaluate_alarms_for_counter_def
  using evaluate_fold [of st "[]" "st_sync_alarms st"] assms by (simp add: hm_wf_def)


text \<open>A table with one alarm of each kind.\<close>

definition two_alarms :: ServerState where
  "two_alarms = server_new\<lparr>st_sync_alarms :=
     [(1, SyncAlarm_default\<lparr>sa_counter := 9, sa_test_type := 2, sa_wait_value := 5, sa_delta := 3\<rparr>),
      (2, SyncAlarm_default\<lparr>sa_counter := 9, sa_test_type := 0, sa_wait_value := 20\<rparr>)]\<rparr>"


definition settles :: "int \<Rightarrow> SyncAlarm \<Rightarrow> bool" where
  "settles new a \<longleftrightarrow> in_i64 (sa_wait_value a) \<and>
     (sa_delta a = 0 \<or> directed a \<and> rounds new a \<le> 1000000)"

lemma same_value_fires:
  "alarm_fires new new a \<longleftrightarrow>
    (alarm_test a = TEST_POSITIVE_COMPARISON \<or> alarm_test a = TEST_NEGATIVE_COMPARISON) \<and>
    comparison_satisfied (alarm_test a) new (sa_wait_value a)"
  by (auto simp: alarm_fires_def trigger_fires_def alarm_test_def comparison_satisfied_def)

lemma comparison_fires:
  "alarm_fires new new a \<Longrightarrow> alarm_fires old new a"
  by (auto simp: alarm_fires_def trigger_fires_def split: if_splits)

lemma past_rounds:
  assumes "0 < stride (alarm_test a) (sa_delta a)"
  shows "past (alarm_test a) new (sa_wait_value a + rounds new a * sa_delta a) < 0"
proof -
  let ?s = "stride (alarm_test a) (sa_delta a)" and ?p = "past (alarm_test a) new (sa_wait_value a)"
  have "past (alarm_test a) new (sa_wait_value a + rounds new a * sa_delta a) = ?p - rounds new a * ?s"
    by (simp add: past_def stride_def)
  also have "\<dots> = ?p mod ?s - ?s"
    by (simp add: rounds_def algebra_simps minus_div_mult_eq_mod [symmetric])
  also have "\<dots> < 0" using assms by simp
  finally show ?thesis .
qed

lemma evaluated_is_quiet:
  assumes new: "in_i64 new" and a: "watches counter a \<Longrightarrow> settles new a"
  shows "\<not> (watches counter (evaluated counter old new a) \<and> alarm_fires new new (evaluated counter old new a))"
proof (cases "watches counter a \<and> alarm_fires old new a")
  case False
  then show ?thesis using comparison_fires by (auto simp: evaluated_def)
next
  case True
  then have s: "in_i64 (sa_wait_value a)" "sa_delta a = 0 \<or> directed a \<and> rounds new a \<le> 1000000"
    using a by (simp_all add: settles_def)
  have e: "evaluated counter old new a = alarm_fired new a" using True by (simp add: evaluated_def)
  show ?thesis
  proof (cases "sa_delta a = 0")
    case True
    then show ?thesis
      unfolding e same_value_fires by (auto simp: alarm_fired_def Let_def watches_def alarm_test_def)
  next
    case False
    then have d: "directed a" "rounds new a \<le> 1000000" using s(2) by simp_all
    then have t: "positive_test (alarm_test a) \<or> negative_test (alarm_test a)"
      "0 < stride (alarm_test a) (sa_delta a)" by (simp_all add: directed_def)
    have f: "alarm_fired new a =
      (if in_i64 (sa_wait_value a + rounds new a * sa_delta a)
       then a\<lparr>sa_wait_value := sa_wait_value a + rounds new a * sa_delta a, sa_state := ALARM_STATE_ACTIVE\<rparr>
       else a\<lparr>sa_state := ALARM_STATE_INACTIVE\<rparr>)"
      using rearmed_when_directed [OF conjunct2 [OF True] d(1) new s(1)] d(2) by simp
    show ?thesis
      using past_rounds [OF t(2), of new] satisfied_past [OF t(1), of new]
      unfolding e f same_value_fires
      by (simp add: watches_def alarm_test_def)
  qed
qed

text \<open>
  An evaluated counter is at rest: evaluating it again at the same value, as the next turn of the main
  loop does, fires no alarm and changes nothing, as long as every alarm on the counter has a delta of
  zero or of the right sign and needs at most a million deltas.
\<close>

theorem evaluation_settles:
  assumes wf: "hm_wf (st_sync_alarms st)" and new: "in_i64 new"
    and alarms: "\<forall>(i, a) \<in> set (st_sync_alarms st). watches counter a \<longrightarrow> settles new a"
  shows "evaluate_alarms_for_counter counter new new (evaluate_alarms_for_counter counter old new st) =
    evaluate_alarms_for_counter counter old new st"
proof -
  let ?st = "evaluate_alarms_for_counter counter old new st"
  have tab: "st_sync_alarms ?st = map (\<lambda>(i, a). (i, evaluated counter old new a)) (st_sync_alarms st)"
    unfolding evaluate_alarms_exact [OF wf] by simp
  have quiet: "\<not> (watches counter b \<and> alarm_fires new new b)" if b: "(i, b) \<in> set (st_sync_alarms ?st)" for i b
  proof -
    obtain a where a: "(i, a) \<in> set (st_sync_alarms st)" "b = evaluated counter old new a"
      using b unfolding tab by auto
    then have "watches counter a \<longrightarrow> settles new a" using alarms by blast
    then show ?thesis unfolding a(2) by (intro evaluated_is_quiet [OF new]) blast
  qed
  have "map (\<lambda>(i, a). (i, evaluated counter new new a)) (st_sync_alarms ?st) = st_sync_alarms ?st"
    by (rule map_idI) (use quiet in \<open>auto simp: evaluated_def\<close>)
  moreover have "filter (\<lambda>(_, a). watches counter a \<and> alarm_fires new new a \<and> sa_events a)
      (st_sync_alarms ?st) = []"
    using quiet by (auto simp: filter_empty_conv)
  moreover have "hm_wf (st_sync_alarms ?st)"
    using wf unfolding tab hm_wf_def by (simp add: case_prod_unfold comp_def)
  ultimately show ?thesis using evaluate_alarms_exact [of ?st counter new new] by simp
qed

lemma evaluation_settles_witness:
  "evaluate_alarms_for_counter 9 11 11 (evaluate_alarms_for_counter 9 0 11 two_alarms) =
    evaluate_alarms_for_counter 9 0 11 two_alarms"
  by (rule evaluation_settles)
    (auto simp: two_alarms_def hm_wf_def in_i64_def i64_min_def i64_max_def settles_def directed_def
      positive_test_def alarm_test_def stride_def rounds_def past_def SyncAlarm_default_def)

end
