(* ===== verification/DeviceSync.thy ===== *)
theory DeviceSync
  imports DeviceFocus "HOL-Library.Monad_Syntax"
begin

text \<open>
  Delivery of device events under grabs (\<open>crates/xserver-core/src/core_loop/pointer_fanout.rs\<close> and
  \<open>core_loop/key_fanout.rs\<close>): the routing of an XI 1.x device event through freeze, active grab,
  passive grab and selection, the routing of a key, and \<open>xi1_compute_freezes\<close>, which replays the
  events that waited for a device to thaw.

  Routing and replaying call each other: a replayed release may end a grab, which thaws a device,
  which replays. A routing function therefore takes the replay as its argument \<open>cf\<close>, and the replay
  is defined by recursion on a bound on the nested and consecutive replays. \<open>None\<close> is the value
  of a replay that runs out of its bound; \<open>xi1_compute_freezes\<close> starts with one more than the
  weight of the queues, which is always enough (\<open>DeviceSyncClaims\<close>).

  The queues of the source are double-ended; they are only pushed at the back and popped at the
  front. What a replayed event drops (clients whose connection ends) is discarded, as in the source.
\<close>

section \<open>The freeze table\<close>

definition entry_freeze :: "u16 \<Rightarrow> (Xi1Freeze \<Rightarrow> Xi1Freeze) \<Rightarrow> ServerState \<Rightarrow> ServerState" where
  "entry_freeze d f st = st\<lparr>st_xi1_frozen :=
     hm_insert d (f (unwrap_or (hm_get (st_xi1_frozen st) d) Xi1Freeze_default)) (st_xi1_frozen st)\<rparr>"

definition modify_freeze :: "u16 \<Rightarrow> (Xi1Freeze \<Rightarrow> Xi1Freeze) \<Rightarrow> ServerState \<Rightarrow> ServerState" where
  "modify_freeze d f st = st\<lparr>st_xi1_frozen := hm_modify d f (st_xi1_frozen st)\<rparr>"

definition device_frozen :: "ServerState \<Rightarrow> u16 \<Rightarrow> bool" where
  "device_frozen st d \<longleftrightarrow> map_or False frozen (hm_get (st_xi1_frozen st) d)"

definition sync_state :: "ServerState \<Rightarrow> u16 \<Rightarrow> Xi1SyncState" where
  "sync_state st d = map_or Thawed fz_state (hm_get (st_xi1_frozen st) d)"

definition sync_other :: "ServerState \<Rightarrow> u16 \<Rightarrow> ClientId option" where
  "sync_other st d = Option.bind (hm_get (st_xi1_frozen st) d) fz_other"

definition xi1_other_input_device :: "u16 \<Rightarrow> u16" where
  "xi1_other_input_device d =
     (if d = DEVICEID_SLAVE_POINTER then DEVICEID_SLAVE_KEYBOARD else DEVICEID_SLAVE_POINTER)"

definition xi1_device_grab_owner :: "ServerState \<Rightarrow> u16 \<Rightarrow> ClientId option" where
  "xi1_device_grab_owner st d =
     (case hm_get (st_xi1_active_grabs st) d of
        Some g \<Rightarrow> Some (xa_owner g)
      | None \<Rightarrow>
          if d = DEVICEID_SLAVE_POINTER then map_option ap_owner (st_active_pointer_grab st)
          else map_option ak_owner (st_active_keyboard_grab st))"

text \<open>\<open>if sync.other == Some(owner) { sync.other = None }\<close>\<close>

definition release_hold :: "ClientId \<Rightarrow> Xi1Freeze \<Rightarrow> Xi1Freeze" where
  "release_hold owner f = (if fz_other f = Some owner then f\<lparr>fz_other := None\<rparr> else f)"

section \<open>Selection\<close>

fun bounded_walk ::
  "ServerState \<Rightarrow> u32 \<Rightarrow> ResourceId option \<Rightarrow> nat \<Rightarrow> ResourceId \<Rightarrow> (ClientId list \<times> ResourceId) option" where
  "bounded_walk st cls stop_at 0 w = None"
| "bounded_walk st cls stop_at (Suc n) w =
     (let targets = class_selectors st w cls
      in if targets \<noteq> [] then Some (targets, w)
         else if w = ROOT_WINDOW \<or> stop_at = Some w then None
         else
           (case parent_of (st_resources st) w of
              None \<Rightarrow> None
            | Some p \<Rightarrow> if p = w then None else bounded_walk st cls stop_at n p))"

text \<open>The walks up have no bound in the source; a walk in a tree takes at most one step per window.\<close>

definition compute_xi1_targets_bounded ::
  "ServerState \<Rightarrow> ResourceId \<Rightarrow> u8 \<Rightarrow> u16 \<Rightarrow> ResourceId option \<Rightarrow> (ClientId list \<times> ResourceId) option" where
  "compute_xi1_targets_bounded st target evcode deviceid stop_at =
     bounded_walk st (event_class deviceid evcode) stop_at (Suc (window_bound st)) target"

definition xi1_window_selectors :: "ServerState \<Rightarrow> ResourceId \<Rightarrow> u8 \<Rightarrow> u16 \<Rightarrow> ClientId list" where
  "xi1_window_selectors st w evcode deviceid = class_selectors st w (event_class deviceid evcode)"

definition compute_xi1_route_targets ::
  "ServerState \<Rightarrow> Xi1QueuedEvent \<Rightarrow> (ClientId list \<times> ResourceId) option" where
  "compute_xi1_route_targets st q =
     (case xq_focus_route q of
        Walk \<Rightarrow> compute_xi1_targets_bounded st (xq_natural_target q) (xq_evcode q) (xq_device q) None
      | WalkUpTo stop \<Rightarrow>
          compute_xi1_targets_bounded st (xq_natural_target q) (xq_evcode q) (xq_device q) (Some stop)
      | WindowOnly w \<Rightarrow>
          (let targets = xi1_window_selectors st w (xq_evcode q) (xq_device q)
           in if targets = [] then None else Some (targets, w))
      | DropEvent \<Rightarrow> None)"

fun in_chain_loop :: "ResourceTable \<Rightarrow> nat \<Rightarrow> ResourceId \<Rightarrow> ResourceId \<Rightarrow> bool" where
  "in_chain_loop t 0 grab_window w = False"
| "in_chain_loop t (Suc n) grab_window w =
     (if w = grab_window then True
      else if w = ROOT_WINDOW then False
      else
        (case parent_of t w of
           None \<Rightarrow> False
         | Some p \<Rightarrow> if p = w then False else in_chain_loop t n grab_window p))"

definition xi1_window_in_chain :: "ServerState \<Rightarrow> ResourceId \<Rightarrow> ResourceId \<Rightarrow> bool" where
  "xi1_window_in_chain st target grab_window =
     in_chain_loop (st_resources st) (Suc (window_bound st)) grab_window target"

definition is_motion :: "Xi1QueuedEvent \<Rightarrow> bool" where
  "is_motion q \<longleftrightarrow> xq_evcode q = XI_FIRST_EVENT + XI_DEVICE_MOTION_NOTIFY_OFFSET"

definition is_press :: "Xi1QueuedEvent \<Rightarrow> bool" where
  "is_press q \<longleftrightarrow> xq_evcode q = XI_FIRST_EVENT + XI_DEVICE_KEY_PRESS_OFFSET \<or>
     xq_evcode q = XI_FIRST_EVENT + XI_DEVICE_BUTTON_PRESS_OFFSET"

definition is_release :: "Xi1QueuedEvent \<Rightarrow> bool" where
  "is_release q \<longleftrightarrow> xq_evcode q = XI_FIRST_EVENT + XI_DEVICE_KEY_RELEASE_OFFSET \<or>
     xq_evcode q = XI_FIRST_EVENT + XI_DEVICE_BUTTON_RELEASE_OFFSET"

definition xi1_event_bytes ::
  "Xi1QueuedEvent \<Rightarrow> ResourceId \<Rightarrow> u16 \<Rightarrow> ClientByteOrder \<Rightarrow> u8 list" where
  "xi1_event_bytes q event_window sequence order =
     encode_xi1_device_input_event order (xq_evcode q) (xq_detail q) sequence (xq_time q) ROOT_WINDOW
       event_window 0 (xq_root_x q) (xq_root_y q) (xq_event_x q) (xq_event_y q) (xq_state_mask q)
       (if is_motion q then xq_device q OR ucast XI1_MORE_EVENTS else xq_device q) @
     (if is_motion q then
        (case (case xq_axes q of
                 Some a \<Rightarrow> (min (mx_count a) 6, mx_first a, mx_values a)
               | None \<Rightarrow> (2, 0, [scast (xq_root_x q), scast (xq_root_y q), 0, 0, 0, 0])) of
           (num, first_v, vs) \<Rightarrow>
             encode_xi1_device_valuator order (XI_FIRST_EVENT + XI_DEVICE_VALUATOR_OFFSET)
               (ucast (xq_device q)) sequence (xq_state_mask q) num first_v vs)
      else [])"

definition xi1_fan_device_event ::
  "ClientId list \<Rightarrow> ResourceId \<Rightarrow> Xi1QueuedEvent \<Rightarrow> ServerState \<Rightarrow> ServerState \<times> ClientId list" where
  "xi1_fan_device_event targets event_window q st =
     fanout_event_to_clients targets (xi1_event_bytes q event_window) st"

section \<open>The state of the device\<close>

definition set_slot :: "Xi1MotionAxes \<Rightarrow> nat \<Rightarrow> i32 list \<Rightarrow> i32 list" where
  "set_slot a i vs =
     (let k = unat (mx_first a) + i in if k < length vs then vs[k := mx_values a ! i] else vs)"

definition update_axes :: "Xi1QueuedEvent \<Rightarrow> ServerState \<Rightarrow> ServerState" where
  "update_axes q st =
     (if is_motion q then
        let s = device_input_state st (xq_device q);
            vs = (case xq_axes q of
                    Some a \<Rightarrow> fold (set_slot a) [0..<min (unat (mx_count a)) 6] (xs_valuators s)
                  | None \<Rightarrow> (xs_valuators s)[0 := scast (xq_root_x q), 1 := scast (xq_root_y q)])
        in st\<lparr>st_xi1_device_input_state :=
             hm_insert (xq_device q) (s\<lparr>xs_valuators := vs\<rparr>) (st_xi1_device_input_state st)\<rparr>
      else st)"

definition set_bit_in :: "bool \<Rightarrow> u8 \<Rightarrow> u8 list \<Rightarrow> u8 list" where
  "set_bit_in on detail bits =
     (let byte = unat detail div 8; b = push_bit (unat detail mod 8) 1
      in bits[byte := (if on then bits ! byte OR b else bits ! byte AND NOT b)])"

definition update_bits :: "Xi1QueuedEvent \<Rightarrow> ServerState \<Rightarrow> ServerState" where
  "update_bits q st =
     (if is_press q \<or> is_release q then
        let is_key = (xq_evcode q = XI_FIRST_EVENT + XI_DEVICE_KEY_PRESS_OFFSET \<or>
              xq_evcode q = XI_FIRST_EVENT + XI_DEVICE_KEY_RELEASE_OFFSET);
            s = device_input_state st (xq_device q);
            s = (if is_key then s\<lparr>xs_keys_down := set_bit_in (is_press q) (xq_detail q) (xs_keys_down s)\<rparr>
                 else s\<lparr>xs_buttons_down := set_bit_in (is_press q) (xq_detail q) (xs_buttons_down s)\<rparr>)
        in st\<lparr>st_xi1_device_input_state := hm_insert (xq_device q) s (st_xi1_device_input_state st)\<rparr>
      else st)"

section \<open>Freezing\<close>

definition xi1_freeze_this_event_if_needed ::
  "u16 \<Rightarrow> ClientId \<Rightarrow> Xi1QueuedEvent \<Rightarrow> ServerState \<Rightarrow> ServerState" where
  "xi1_freeze_this_event_if_needed d owner q st =
     (let hold = entry_freeze d (\<lambda>f. f\<lparr>fz_state := FrozenWithEvent, fz_stored := Some q\<rparr>)
      in case sync_state st d of
           FreezeBothNextEvent \<Rightarrow>
             (let other_dev = xi1_other_input_device d;
                  other_owner = xi1_device_grab_owner st other_dev
              in hold (entry_freeze other_dev (\<lambda>other.
                   if fz_state other = FreezeBothNextEvent \<and> other_owner = Some owner
                   then other\<lparr>fz_state := FrozenNoEvent\<rparr>
                   else other\<lparr>fz_other := Some owner\<rparr>) st))
         | FreezeNextEvent \<Rightarrow> hold st
         | _ \<Rightarrow> st)"

definition xi1_check_grab_for_syncs ::
  "(ServerState \<Rightarrow> ServerState option) \<Rightarrow> u16 \<Rightarrow> ClientId \<Rightarrow> bool \<Rightarrow> bool \<Rightarrow> ServerState \<Rightarrow> ServerState option" where
  "xi1_check_grab_for_syncs cf d owner this_sync other_sync st =
     cf (entry_freeze (xi1_other_input_device d)
           (\<lambda>other. if other_sync then other\<lparr>fz_other := Some owner\<rparr> else release_hold owner other)
        (entry_freeze d
           (\<lambda>sync. if this_sync then sync\<lparr>fz_state := FrozenNoEvent\<rparr>
                   else release_hold owner (sync\<lparr>fz_state := Thawed\<rparr>)) st))"

definition xi1_deactivate_device_grab ::
  "(ServerState \<Rightarrow> ServerState option) \<Rightarrow> u16 \<Rightarrow> ServerState \<Rightarrow> ServerState option" where
  "xi1_deactivate_device_grab cf d st =
     (case hm_get (st_xi1_active_grabs st) d of
        None \<Rightarrow> Some st
      | Some grab \<Rightarrow>
          cf (modify_freeze (xi1_other_input_device d) (release_hold (xa_owner grab))
             (modify_freeze d (\<lambda>sync. sync\<lparr>fz_state := Thawed, fz_stored := None\<rparr>)
               (st\<lparr>st_xi1_active_grabs := hm_remove d (st_xi1_active_grabs st)\<rparr>))))"

definition xi1_core_grab_bridge_release ::
  "(ServerState \<Rightarrow> ServerState option) \<Rightarrow> u16 \<Rightarrow> ClientId \<Rightarrow> ServerState \<Rightarrow> ServerState option" where
  "xi1_core_grab_bridge_release cf d owner st =
     cf (modify_freeze (xi1_other_input_device d) (release_hold owner)
        (if \<not> hm_contains (st_xi1_active_grabs st) d
         then modify_freeze d (\<lambda>sync. sync\<lparr>fz_state := Thawed, fz_stored := None\<rparr>) st
         else st))"

section \<open>Routing a device event\<close>

definition passive_device_grab :: "ServerState \<Rightarrow> Xi1QueuedEvent \<Rightarrow> Xi1PassiveGrab option" where
  "passive_device_grab st q = List.find (\<lambda>g.
     xp_device g = xq_device q \<and> (xp_detail g = 0 \<or> xp_detail g = xq_detail q) \<and>
     modifiers_match (xp_modifiers g) (xq_state_mask q) \<and>
     xi1_window_in_chain st (xq_natural_target q) (xp_window g) \<and>
     \<not> map_or False (\<lambda>floor. xi1_window_in_chain st floor (xp_window g)) (xq_replay_floor q))
     (st_xi1_passive_grabs st)"

definition route_active_grab ::
  "(ServerState \<Rightarrow> ServerState option) \<Rightarrow> Xi1QueuedEvent \<Rightarrow> bool \<Rightarrow> Xi1ActiveGrab \<Rightarrow> ServerState
    \<Rightarrow> (ServerState \<times> ClientId list) option" where
  "route_active_grab cf q allow_freeze grab st =
     (let event_window =
            (case compute_xi1_route_targets st q of
               Some (clients, w) \<Rightarrow>
                 if xa_owner_events grab \<and> xa_owner grab \<in> set clients then w else xa_window grab
             | None \<Rightarrow> xa_window grab);
          (st, dropped) = xi1_fan_device_event [xa_owner grab] event_window q st;
          st = (if allow_freeze \<and> (is_press q \<or> is_release q)
                then xi1_freeze_this_event_if_needed (xq_device q) (xa_owner grab) q st else st)
      in do {
           st \<leftarrow> (if is_release q \<and> xa_passive_detail grab = Some (xq_detail q)
                 then xi1_deactivate_device_grab cf (xq_device q) st else Some st);
           Some (st, dropped)
         })"

definition activate_passive_grab ::
  "(ServerState \<Rightarrow> ServerState option) \<Rightarrow> Xi1QueuedEvent \<Rightarrow> bool \<Rightarrow> Xi1PassiveGrab \<Rightarrow> ServerState
    \<Rightarrow> (ServerState \<times> ClientId list) option" where
  "activate_passive_grab cf q allow_freeze g st =
     (let st = st\<lparr>st_xi1_active_grabs := hm_insert (xq_device q)
                \<lparr>xa_owner = xp_owner g, xa_device = xq_device q, xa_window = xp_window g,
                 xa_owner_events = xp_owner_events g, xa_this_mode = xp_this_mode g,
                 xa_other_mode = xp_other_mode g, xa_passive_detail = Some (xq_detail q)\<rparr>
                (st_xi1_active_grabs st), st_xi1_last_grab_time := xq_time q\<rparr>
      in do {
           st \<leftarrow> (if allow_freeze
                 then xi1_check_grab_for_syncs cf (xq_device q) (xp_owner g) (xp_this_mode g = 0)
                        (xp_other_mode g = 0) st
                 else Some st);
           (let (st, dropped) = xi1_fan_device_event [xp_owner g] (xp_window g) q st;
                st = (if allow_freeze
                      then entry_freeze (xq_device q) (\<lambda>sync.
                             if fz_state sync = FrozenNoEvent
                             then sync\<lparr>fz_state := FrozenWithEvent, fz_stored := Some q\<rparr> else sync) st
                      else st)
            in Some (st, dropped))
         })"

definition route_selection ::
  "Xi1QueuedEvent \<Rightarrow> bool \<Rightarrow> ServerState \<Rightarrow> ServerState \<times> ClientId list" where
  "route_selection q allow_freeze st =
     (let (st, dropped) =
            (case compute_xi1_route_targets st q of
               Some (targets, w) \<Rightarrow> xi1_fan_device_event targets w q st
             | None \<Rightarrow> (st, []));
          st = (if allow_freeze \<and> (is_press q \<or> is_release q)
                then (case xi1_device_grab_owner st (xq_device q) of
                        Some owner \<Rightarrow> xi1_freeze_this_event_if_needed (xq_device q) owner q st
                      | None \<Rightarrow> st)
                else st)
      in (st, dropped))"

definition xi1_route_device_event ::
  "(ServerState \<Rightarrow> ServerState option) \<Rightarrow> Xi1QueuedEvent \<Rightarrow> bool \<Rightarrow> ServerState
    \<Rightarrow> (ServerState \<times> ClientId list) option" where
  "xi1_route_device_event cf q allow_freeze st =
     (let st = st\<lparr>st_xi1_last_input_time := max (st_xi1_last_input_time st) (xq_time q)\<rparr>
      in if device_frozen st (xq_device q)
         then Some (entry_freeze (xq_device q) (\<lambda>f. f\<lparr>fz_queue := fz_queue f @ [q]\<rparr>) st, [])
         else
           let st = update_bits q (update_axes q st)
           in case hm_get (st_xi1_active_grabs st) (xq_device q) of
                Some grab \<Rightarrow> route_active_grab cf q allow_freeze grab st
              | None \<Rightarrow>
                  (case (if is_press q then passive_device_grab st q else None) of
                     Some g \<Rightarrow> activate_passive_grab cf q allow_freeze g st
                   | None \<Rightarrow> Some (route_selection q allow_freeze st)))"

section \<open>Routing a key\<close>

definition key_mask :: "HostKeyEvent \<Rightarrow> u32" where
  "key_mask e = (if hk_pressed e then 1 else 2)"

definition xi2_evtype_for :: "HostKeyEvent \<Rightarrow> u16" where
  "xi2_evtype_for e = (if hk_pressed e then 2 else 3)"

definition key_event_wire :: "HostKeyEvent \<Rightarrow> u16 \<Rightarrow> ResourceId \<Rightarrow> KeyEvent" where
  "key_event_wire e sequence target = \<lparr>ke_pressed = hk_pressed e, ke_keycode = hk_keycode e,
     ke_sequence = sequence, ke_time = hk_time e, ke_root = ROOT_WINDOW, ke_event = target,
     ke_root_x = hk_root_x e, ke_root_y = hk_root_y e, ke_event_x = hk_event_x e,
     ke_event_y = hk_event_y e, ke_state = hk_state e\<rparr>"

definition encode_key_xi2 :: "ClientByteOrder \<Rightarrow> u16 \<Rightarrow> HostKeyEvent \<Rightarrow> ResourceId \<Rightarrow> u8 list" where
  "encode_key_xi2 order sequence e target =
     encode_xi2_device_event order sequence XI2_MAJOR_OPCODE (xi2_evtype_for e) 3 (hk_time e)
       ROOT_WINDOW target 0 (hk_root_x e) (hk_root_y e) (hk_event_x e) (hk_event_y e) (hk_state e)
       (ucast (hk_keycode e)) 5 0"

definition merge_dropped :: "ClientId list \<Rightarrow> ClientId list \<Rightarrow> ClientId list" where
  "merge_dropped into extra = fold (\<lambda>i acc. if i \<in> set acc then acc else acc @ [i]) extra into"

definition deliver_key_to_window ::
  "HostKeyEvent \<Rightarrow> ResourceId \<Rightarrow> ServerState \<Rightarrow> ServerState \<times> ClientId list" where
  "deliver_key_to_window e target st =
     (let xi2_targets = map fst (filter (\<lambda>(i, c).
            xi2_mask_for_client c target target [5, 3, 1, 0] AND push_bit (unat (xi2_evtype_for e)) 1 \<noteq> 0)
            (st_clients st));
          core_targets = filter (\<lambda>i. i \<notin> set xi2_targets) (subscribers_by_id st target (key_mask e));
          (st, dropped) =
            (if core_targets = [] then (st, [])
             else fanout_event_to_clients core_targets
                    (\<lambda>sequence order. encode_key_event order (key_event_wire e sequence target)) st)
      in if xi2_targets = [] then (st, dropped)
         else
           (case fanout_event_to_clients xi2_targets
                   (\<lambda>sequence order. encode_key_xi2 order sequence e target) st of
              (st, extra) \<Rightarrow> (st, merge_dropped dropped extra)))"

definition deliver_key_to_grab_owner ::
  "HostKeyEvent \<Rightarrow> ClientId \<Rightarrow> ResourceId \<Rightarrow> bool \<Rightarrow> ServerState \<Rightarrow> ServerState \<times> ClientId list" where
  "deliver_key_to_grab_owner e owner grab_window via_xi2 st =
     (if via_xi2
      then fanout_event_to_clients [owner]
             (\<lambda>sequence order. encode_key_xi2 order sequence e grab_window) st
      else fanout_event_to_clients [owner]
             (\<lambda>sequence order. encode_key_event order (key_event_wire e sequence grab_window)) st)"

datatype KeyRoute =
    RouteDrop
  | PassiveGrabOwner (kr_owner: ClientId) (kr_window: ResourceId) (kr_freeze: bool)
      (kr_owner_events: bool) (kr_via_xi2: bool)
  | RouteWindow ResourceId

definition current_focus :: "ServerState \<Rightarrow> ResourceId" where
  "current_focus st =
     (if cf_raw (st_core_focus st) = 0 then 0
      else if cf_raw (st_core_focus st) = 1 then deepest_window_at_pointer st
      else cf_raw (st_core_focus st))"

text \<open>Under an active grab the two branches of the source, passive and explicit, return the same route.\<close>

definition key_route ::
  "(ServerState \<Rightarrow> ServerState option) \<Rightarrow> HostKeyEvent \<Rightarrow> ServerState \<Rightarrow> (ServerState \<times> KeyRoute) option" where
  "key_route cf e st =
     (case st_active_keyboard_grab st of
        Some g \<Rightarrow> do {
          st \<leftarrow> (if \<not> hk_pressed e \<and> ak_source g = PassiveKey (hk_keycode e)
                then do {
                  st \<leftarrow> xi1_core_grab_bridge_release cf DEVICEID_SLAVE_KEYBOARD (ak_owner g)
                         (st\<lparr>st_active_keyboard_grab := None, st_frozen_keyboard_event := None\<rparr>);
                  Some (emit_core_focus_transition (ak_window g) (cf_raw (st_core_focus st)) 2 st)
                }
                else Some st);
          Some (st, PassiveGrabOwner (ak_owner g) (ak_window g) False (ak_owner_events g) (ak_via_xi2 g))
        }
      | None \<Rightarrow>
          let focus = current_focus st;
              grab_walk_start = (if focus = 0 then ROOT_WINDOW else focus)
          in case (if hk_pressed e then find_key_grab st grab_walk_start (hk_keycode e) (hk_state e) else None) of
               Some g \<Rightarrow>
                 (let st = st\<lparr>st_active_keyboard_grab := Some \<lparr>ak_owner = kg_owner g, ak_window = kg_window g,
                            ak_source = PassiveKey (hk_keycode e), ak_owner_events = kg_owner_events g,
                            ak_via_xi2 = kg_via_xi2 g\<rparr>\<rparr>;
                      st = emit_core_focus_transition (cf_raw (st_core_focus st)) (kg_window g) 1 st
                  in do {
                       st \<leftarrow> xi1_check_grab_for_syncs cf DEVICEID_SLAVE_KEYBOARD (kg_owner g)
                              (kg_keyboard_mode g = 0) (kg_pointer_mode g = 0) st;
                       Some (st, PassiveGrabOwner (kg_owner g) (kg_window g) (kg_keyboard_mode g = 0)
                                   (kg_owner_events g) (kg_via_xi2 g))
                     })
             | None \<Rightarrow> Some (st, if focus = 0 then RouteDrop else RouteWindow focus))"

definition xi1_key_event :: "ServerState \<Rightarrow> HostKeyEvent \<Rightarrow> Xi1QueuedEvent" where
  "xi1_key_event st e =
     (case key_delivery_route st DEVICEID_SLAVE_KEYBOARD of
        (natural, focus_route) \<Rightarrow>
          \<lparr>xq_device = DEVICEID_SLAVE_KEYBOARD,
           xq_evcode = XI_FIRST_EVENT +
             (if hk_pressed e then XI_DEVICE_KEY_PRESS_OFFSET else XI_DEVICE_KEY_RELEASE_OFFSET),
           xq_detail = hk_keycode e, xq_time = hk_time e, xq_root_x = hk_root_x e,
           xq_root_y = hk_root_y e, xq_event_x = hk_event_x e, xq_event_y = hk_event_y e,
           xq_state_mask = hk_state e, xq_natural_target = natural, xq_focus_route = focus_route,
           xq_axes = None, xq_replay_floor = None\<rparr>)"

definition deliver_xi1_focused_key ::
  "(ServerState \<Rightarrow> ServerState option) \<Rightarrow> HostKeyEvent \<Rightarrow> ServerState \<Rightarrow> (ServerState \<times> ClientId list) option" where
  "deliver_xi1_focused_key cf e st = xi1_route_device_event cf (xi1_key_event st e) True st"

fun first_subscribed :: "ServerState \<Rightarrow> u32 \<Rightarrow> ResourceId \<Rightarrow> ResourceId list \<Rightarrow> ResourceId" where
  "first_subscribed st mask_bit focus [] = focus"
| "first_subscribed st mask_bit focus (w # ws) =
     (if subscribers_by_id st w mask_bit \<noteq> [] then w
      else if w = focus then focus
      else first_subscribed st mask_bit focus ws)"

definition focused_walk_target :: "ServerState \<Rightarrow> ResourceId \<Rightarrow> HostKeyEvent \<Rightarrow> ResourceId" where
  "focused_walk_target st focus e =
     (let chain = ancestor_chain (st_resources st) (deepest_window_at_pointer st)
      in if focus \<notin> set chain then focus else first_subscribed st (key_mask e) focus chain)"

fun natural_loop :: "ServerState \<Rightarrow> u32 \<Rightarrow> ClientId \<Rightarrow> nat \<Rightarrow> ResourceId \<Rightarrow> ResourceId option" where
  "natural_loop st mask_bit owner 0 w = None"
| "natural_loop st mask_bit owner (Suc n) w =
     (let subs = subscribers_by_id st w mask_bit
      in if subs \<noteq> [] then (if owner \<in> set subs then Some w else None)
         else
           (case window (st_resources st) w of
              None \<Rightarrow> None
            | Some x \<Rightarrow> if win_parent x = w then None else natural_loop st mask_bit owner n (win_parent x)))"

definition key_grabbed_natural_target :: "ServerState \<Rightarrow> HostKeyEvent \<Rightarrow> ClientId \<Rightarrow> ResourceId option" where
  "key_grabbed_natural_target st e owner =
     (let focus = current_focus st; p = deepest_window_at_pointer st
      in if focus = 0 then None
         else natural_loop st (key_mask e) owner 256
                (if focus \<in> set (ancestor_chain (st_resources st) p) then p else focus))"

definition deliver_routed_key ::
  "(ServerState \<Rightarrow> ServerState option) \<Rightarrow> HostKeyEvent \<Rightarrow> ServerState \<Rightarrow> (ServerState \<times> ClientId list) option" where
  "deliver_routed_key cf e st = do {
     (st, route) \<leftarrow> key_route cf e st;
     (case route of
        RouteDrop \<Rightarrow> deliver_xi1_focused_key cf e st
      | PassiveGrabOwner owner grab_window freeze owner_events via_xi2 \<Rightarrow>
          (let st = (if freeze \<and> hk_pressed e then st\<lparr>st_frozen_keyboard_event := Some e\<rparr> else st);
               target = (if owner_events then key_grabbed_natural_target st e owner else None);
               (st, dropped) = deliver_key_to_grab_owner e owner (unwrap_or target grab_window) via_xi2 st
           in do {
                (st, extra) \<leftarrow> deliver_xi1_focused_key cf e st;
                Some (st, merge_dropped dropped extra)
              })
      | RouteWindow w \<Rightarrow>
          (let (st, dropped) = deliver_key_to_window e (focused_walk_target st w e) st
           in do {
                (st, extra) \<leftarrow> deliver_xi1_focused_key cf e st;
                Some (st, merge_dropped dropped extra)
              }))
   }"

section \<open>Replaying\<close>

text \<open>The end of \<open>xi1_compute_freezes\<close>: withheld pointer events of a pointer that thawed otherwise.\<close>

definition drop_stale_pointer_events :: "ServerState \<Rightarrow> ServerState" where
  "drop_stale_pointer_events st =
     (if \<not> device_frozen st DEVICEID_SLAVE_POINTER \<and> st_frozen_pointer_event st = None
      then st\<lparr>st_frozen_pointer_queue := []\<rparr> else st)"

definition compute_with :: "(u16 \<Rightarrow> ServerState \<Rightarrow> ServerState option) \<Rightarrow> ServerState \<Rightarrow> ServerState option" where
  "compute_with flush_device st = do {
     st \<leftarrow> flush_device DEVICEID_SLAVE_POINTER st;
     st \<leftarrow> flush_device DEVICEID_SLAVE_KEYBOARD st;
     Some (drop_stale_pointer_events st)
   }"

text \<open>One round of the \<open>while let\<close> loop of a device and what follows it.\<close>

definition flush_step ::
  "(u16 \<Rightarrow> ServerState \<Rightarrow> ServerState option) \<Rightarrow> u16 \<Rightarrow> ServerState \<Rightarrow> ServerState option" where
  "flush_step flush_device d st =
     (case hm_get (st_xi1_frozen st) d of
        None \<Rightarrow> Some st
      | Some f \<Rightarrow>
          if frozen f then Some st
          else
            (case fz_core_keys f of
               e # es \<Rightarrow> do {
                 (st, _) \<leftarrow> deliver_routed_key (compute_with flush_device) e
                             (modify_freeze d (\<lambda>f. f\<lparr>fz_core_keys := es\<rparr>) st);
                 flush_device d st
               }
             | [] \<Rightarrow>
                 (case fz_queue f of
                    [] \<Rightarrow> Some st
                  | q # qs \<Rightarrow> do {
                      (st, _) \<leftarrow> xi1_route_device_event (compute_with flush_device) q True
                                  (modify_freeze d (\<lambda>f. f\<lparr>fz_queue := qs\<rparr>) st);
                      flush_device d st
                    })))"

primrec flush_device :: "nat \<Rightarrow> u16 \<Rightarrow> ServerState \<Rightarrow> ServerState option" where
  "flush_device 0 = (\<lambda>d st. None)"
| "flush_device (Suc n) = flush_step (flush_device n)"

text \<open>A replayed key may come back as one device event, so a key weighs two.\<close>

definition queue_weight :: "Xi1Freeze \<Rightarrow> nat" where
  "queue_weight f = 2 * length (fz_core_keys f) + length (fz_queue f)"

definition device_weight :: "ServerState \<Rightarrow> u16 \<Rightarrow> nat" where
  "device_weight st d = map_or 0 queue_weight (hm_get (st_xi1_frozen st) d)"

definition waiting_weight :: "ServerState \<Rightarrow> nat" where
  "waiting_weight st = device_weight st DEVICEID_SLAVE_POINTER + device_weight st DEVICEID_SLAVE_KEYBOARD"

definition xi1_compute_freezes :: "ServerState \<Rightarrow> ServerState option" where
  "xi1_compute_freezes st = compute_with (flush_device (Suc (waiting_weight st))) st"

definition xi1_thaw_device :: "u16 \<Rightarrow> ServerState \<Rightarrow> ServerState option" where
  "xi1_thaw_device d st =
     xi1_compute_freezes (modify_freeze d (\<lambda>f. f\<lparr>fz_state := Thawed, fz_other := None\<rparr>) st)"

text \<open>\<open>replay_frozen_key_to_focus\<close>\<close>

definition replay_frozen_key_to_focus ::
  "HostKeyEvent \<Rightarrow> ServerState \<Rightarrow> (ServerState \<times> ClientId list) option" where
  "replay_frozen_key_to_focus e st =
     (let focus = current_focus st
      in if focus = 0 then Some (st, [])
         else
           (let (st, dropped) = deliver_key_to_window e focus st
            in do {
                 (st, extra) \<leftarrow> deliver_xi1_focused_key xi1_compute_freezes e st;
                 Some (st, merge_dropped dropped extra)
               }))"

end
