(* ===== verification/DeviceGrabs.thy ===== *)
theory DeviceGrabs
  imports DeviceSync Shapes
begin

text \<open>
  The grab and focus requests of the XI 1.x device extension, from \<open>handle_xi2_request\<close>
  (\<open>crates/xserver-core/src/core_loop/process_request.rs\<close>): GrabDevice, UngrabDevice, the passive grabs
  of keys and buttons, AllowDeviceEvents and SetDeviceFocus. Each arm has its own function of the
  body; an arm that succeeds ends in the write of its (possibly empty) reply.
\<close>

definition BAD_VALUE :: u8 where "BAD_VALUE = 2"
definition BAD_CURSOR :: u8 where "BAD_CURSOR = 6"
definition BAD_ACCESS :: u8 where "BAD_ACCESS = 10"
definition XI1_ERROR_BAD_DEVICE :: u8 where "XI1_ERROR_BAD_DEVICE = 157"
definition XI1_ERROR_BAD_CLASS :: u8 where "XI1_ERROR_BAD_CLASS = 157 + 4"
definition XI1_KEY_MIN :: u8 where "XI1_KEY_MIN = 8"
definition XI1_USE_X_KEYBOARD :: u16 where "XI1_USE_X_KEYBOARD = 255"

definition xi1_device_valid :: "u16 \<Rightarrow> bool" where
  "xi1_device_valid i \<longleftrightarrow> 2 \<le> i \<and> i \<le> 5"

definition xi1_modifiers_valid :: "u16 \<Rightarrow> bool" where
  "xi1_modifiers_valid modifiers \<longleftrightarrow> modifiers = 0x8000 \<or> modifiers AND NOT 0x00FF = 0"

definition xi1_event_class_device :: "u32 \<Rightarrow> u16" where
  "xi1_event_class_device cls = ucast (drop_bit 8 cls AND 0xFF)"

definition xi1_window_exists :: "ServerState \<Rightarrow> u32 \<Rightarrow> bool" where
  "xi1_window_exists st xid \<longleftrightarrow> window (st_resources st) xid \<noteq> None"

definition xi1_error ::
  "ClientId \<Rightarrow> u16 \<Rightarrow> u8 \<times> u32 \<Rightarrow> u8 \<Rightarrow> ServerState \<Rightarrow> ServerState \<times> RequestOutcome" where
  "xi1_error client_id sequence err minor st =
     emit_x11_error_with_minor client_id sequence (fst err) (snd err) (ucast minor) XI2_MAJOR_OPCODE st"

text \<open>A sequence of early returns: the first check that fails gives the error.\<close>

fun first_error :: "(bool \<times> u8 \<times> u32) list \<Rightarrow> (u8 \<times> u32) option" where
  "first_error [] = None"
| "first_error ((failed, err) # checks) = (if failed then Some err else first_error checks)"

definition byte_or_zero :: "u8 list \<Rightarrow> nat \<Rightarrow> u8" where
  "byte_or_zero body k = (if k < length body then body ! k else 0)"

text \<open>The event classes after the fixed part of a request; a short list ends the loop.\<close>

fun class_list_error :: "(u32 \<Rightarrow> bool) \<Rightarrow> u8 list \<Rightarrow> nat \<Rightarrow> nat \<Rightarrow> (u8 \<times> u32) option" where
  "class_list_error ok body off 0 = None"
| "class_list_error ok body off (Suc n) =
     (if off + 4 > length body then None
      else if \<not> ok (u32_le_at body off) then Some (XI1_ERROR_BAD_CLASS, u32_le_at body off)
      else class_list_error ok body (off + 4) n)"

definition orelse :: "'a option \<Rightarrow> 'a option \<Rightarrow> 'a option" where
  "orelse a b = (case a of None \<Rightarrow> b | Some x \<Rightarrow> Some x)"

definition is_viewable :: "ServerState \<Rightarrow> ResourceId \<Rightarrow> bool" where
  "is_viewable st w = map_or False (\<lambda>x. win_map_state x = Viewable) (window (st_resources st) w)"

section \<open>Active grabs\<close>

definition grab_device_error :: "u8 list \<Rightarrow> ServerState \<Rightarrow> (u8 \<times> u32) option" where
  "grab_device_error body st =
     (let dev = ucast (body ! 13); win = u32_le_at body 0
      in orelse
        (first_error
          [(\<not> xi1_device_valid dev, XI1_ERROR_BAD_DEVICE, ucast dev),
           (\<not> xi1_window_exists st win, BAD_WINDOW, win),
           (body ! 10 > 1, BAD_VALUE, ucast (body ! 10)),
           (body ! 11 > 1, BAD_VALUE, ucast (body ! 11)),
           (body ! 12 > 1, BAD_VALUE, ucast (body ! 12))])
        (class_list_error
          (\<lambda>cls. xi1_device_valid (xi1_event_class_device cls) \<and> xi1_event_class_device cls = dev)
          body 16 (unat (u16_le_at body 8))))"

definition grab_device_status :: "ClientId \<Rightarrow> u8 list \<Rightarrow> ServerState \<Rightarrow> u8" where
  "grab_device_status client_id body st =
     (let dev = ucast (body ! 13); win = u32_le_at body 0; time = u32_le_at body 4;
          now = max (max (st_timestamp st) (st_xi1_last_input_time st)) (st_xi1_last_grab_time st)
      in if map_or False (\<lambda>g. xa_owner g \<noteq> client_id) (hm_get (st_xi1_active_grabs st) dev) then 1
         else if \<not> is_viewable st win then 3
         else if time \<noteq> 0 \<and> (time < st_xi1_last_grab_time st \<or> time > now) then 2
         else 0)"

definition establish_device_grab :: "ClientId \<Rightarrow> u8 list \<Rightarrow> ServerState \<Rightarrow> ServerState option" where
  "establish_device_grab client_id body st =
     (let dev = ucast (body ! 13); time = u32_le_at body 4;
          now = max (max (st_timestamp st) (st_xi1_last_input_time st)) (st_xi1_last_grab_time st)
      in xi1_check_grab_for_syncs xi1_compute_freezes dev client_id (body ! 10 = 0) (body ! 11 = 0)
           (st\<lparr>st_xi1_active_grabs := hm_insert dev
                 \<lparr>xa_owner = client_id, xa_device = dev, xa_window = u32_le_at body 0,
                  xa_owner_events = (body ! 12 \<noteq> 0), xa_this_mode = body ! 10,
                  xa_other_mode = body ! 11, xa_passive_detail = None\<rparr> (st_xi1_active_grabs st),
               st_xi1_last_grab_time := (if time = 0 then now else time)\<rparr>))"

definition xi1_grab_device ::
  "ClientId \<Rightarrow> u16 \<Rightarrow> u8 list \<Rightarrow> ServerState \<Rightarrow> (ServerState \<times> RequestOutcome) option" where
  "xi1_grab_device client_id sequence body st =
     (if length body < 16 then Some (st, Handled)
      else
        (case grab_device_error body st of
           Some err \<Rightarrow> Some (xi1_error client_id sequence err 13 st)
         | None \<Rightarrow>
             (let status = grab_device_status client_id body st
              in do {
                   st \<leftarrow> (if status = 0 then establish_device_grab client_id body st else Some st);
                   Some (send_reply client_id (\<lambda>order.
                     fixed_reply order sequence 0 0 @ [status] @ replicate 23 0) st)
                 })))"

definition xi1_ungrab_device ::
  "ClientId \<Rightarrow> u16 \<Rightarrow> u8 list \<Rightarrow> ServerState \<Rightarrow> (ServerState \<times> RequestOutcome) option" where
  "xi1_ungrab_device client_id sequence body st =
     (let time = u32_from_le_bytes (byte_or_zero body 0) (byte_or_zero body 1) (byte_or_zero body 2)
            (byte_or_zero body 3);
          dev = ucast (byte_or_zero body 4)
      in if \<not> xi1_device_valid dev
         then Some (xi1_error client_id sequence (XI1_ERROR_BAD_DEVICE, ucast dev) 14 st)
         else do {
           st \<leftarrow> (if (time = 0 \<or> time \<ge> st_xi1_last_grab_time st \<and> time \<le> st_timestamp st) \<and>
                     map_or False (\<lambda>g. xa_owner g = client_id) (hm_get (st_xi1_active_grabs st) dev)
                 then xi1_deactivate_device_grab xi1_compute_freezes dev st
                 else Some st);
           Some (send_reply client_id (\<lambda>_. []) st)
         })"

section \<open>Passive grabs\<close>

definition mod_device_errors :: "u16 \<Rightarrow> (bool \<times> u8 \<times> u32) list" where
  "mod_device_errors mod_dev =
     [(mod_dev \<noteq> XI1_USE_X_KEYBOARD \<and> \<not> xi1_device_valid mod_dev, XI1_ERROR_BAD_DEVICE, ucast mod_dev),
      (mod_dev \<noteq> XI1_USE_X_KEYBOARD \<and> \<not> xi1_device_has_keys mod_dev, BAD_MATCH, 0)]"

text \<open>Another client's grab that covers some of the same events, and the grab that the new one
  replaces.\<close>

definition overlaps :: "u8 \<Rightarrow> u8 \<Rightarrow> bool" where
  "overlaps a b \<longleftrightarrow> a = b \<or> a = 0 \<or> b = 0"

definition modifiers_overlap :: "u16 \<Rightarrow> u16 \<Rightarrow> bool" where
  "modifiers_overlap a b \<longleftrightarrow> a = b \<or> a = 0x8000 \<or> b = 0x8000"

definition xi1_grab_conflicts :: "Xi1PassiveGrab \<Rightarrow> ServerState \<Rightarrow> bool" where
  "xi1_grab_conflicts n st \<longleftrightarrow> list_ex (\<lambda>g.
     xp_is_key g = xp_is_key n \<and> xp_owner g \<noteq> xp_owner n \<and> xp_device g = xp_device n \<and>
     xp_window g = xp_window n \<and> overlaps (xp_detail g) (xp_detail n) \<and>
     modifiers_overlap (xp_modifiers g) (xp_modifiers n)) (st_xi1_passive_grabs st)"

definition add_xi1_grab :: "Xi1PassiveGrab \<Rightarrow> ServerState \<Rightarrow> ServerState" where
  "add_xi1_grab n st = st\<lparr>st_xi1_passive_grabs := filter (\<lambda>g. \<not>
     (xp_is_key g = xp_is_key n \<and> xp_owner g = xp_owner n \<and> xp_device g = xp_device n \<and>
      xp_window g = xp_window n \<and> xp_detail g = xp_detail n \<and> xp_modifiers g = xp_modifiers n))
     (st_xi1_passive_grabs st) @ [n]\<rparr>"

definition xi1_passive_grab ::
  "ClientId \<Rightarrow> u16 \<Rightarrow> u8 \<Rightarrow> (u8 \<times> u32) option \<Rightarrow> Xi1PassiveGrab \<Rightarrow> ServerState \<Rightarrow> ServerState \<times> RequestOutcome" where
  "xi1_passive_grab client_id sequence minor err n st =
     (case err of
        Some e \<Rightarrow> xi1_error client_id sequence e minor st
      | None \<Rightarrow>
          if xi1_grab_conflicts n st then xi1_error client_id sequence (BAD_ACCESS, 0) minor st
          else send_reply client_id (\<lambda>_. []) (add_xi1_grab n st))"

definition xi1_grab_device_key ::
  "ClientId \<Rightarrow> u16 \<Rightarrow> u8 list \<Rightarrow> ServerState \<Rightarrow> ServerState \<times> RequestOutcome" where
  "xi1_grab_device_key client_id sequence body st =
     (if length body < 16 then (st, Handled)
      else
        let modifiers = u16_le_at body 6; mod_dev = ucast (body ! 8); dev = ucast (body ! 9);
            key = body ! 10; this_mode = body ! 11; other_mode = body ! 12; owner_events = body ! 13;
            win = u32_le_at body 0
        in xi1_passive_grab client_id sequence 15
             (orelse
               (first_error ([(\<not> xi1_device_valid dev, XI1_ERROR_BAD_DEVICE, ucast dev)] @
                  mod_device_errors mod_dev @
                  [(key \<noteq> 0 \<and> key < XI1_KEY_MIN, BAD_VALUE, ucast key),
                   (\<not> xi1_modifiers_valid modifiers, BAD_VALUE, ucast modifiers),
                   (this_mode > 1 \<or> other_mode > 1 \<or> owner_events > 1, BAD_VALUE,
                     ucast (max (max this_mode other_mode) owner_events)),
                   (\<not> xi1_window_exists st win, BAD_WINDOW, win)]))
               (class_list_error (\<lambda>cls. xi1_device_valid (xi1_event_class_device cls)) body 16
                 (unat (u16_le_at body 4))))
             \<lparr>xp_owner = client_id, xp_device = dev, xp_window = win, xp_detail = key,
              xp_modifiers = modifiers, xp_owner_events = (owner_events \<noteq> 0),
              xp_this_mode = this_mode, xp_other_mode = other_mode, xp_is_key = True\<rparr> st)"

definition xi1_grab_device_button ::
  "ClientId \<Rightarrow> u16 \<Rightarrow> u8 list \<Rightarrow> ServerState \<Rightarrow> ServerState \<times> RequestOutcome" where
  "xi1_grab_device_button client_id sequence body st =
     (if length body < 16 then (st, Handled)
      else
        let dev = ucast (body ! 4); mod_dev = ucast (body ! 5); modifiers = u16_le_at body 8;
            this_mode = body ! 10; other_mode = body ! 11; owner_events = body ! 13;
            win = u32_le_at body 0; button = body ! 12
        in xi1_passive_grab client_id sequence 17
             (orelse
               (first_error ([(\<not> xi1_device_valid dev, XI1_ERROR_BAD_DEVICE, ucast dev)] @
                  mod_device_errors mod_dev @
                  [(\<not> xi1_modifiers_valid modifiers, BAD_VALUE, ucast modifiers),
                   (this_mode > 1 \<or> other_mode > 1 \<or> owner_events > 1, BAD_VALUE,
                     ucast (max (max this_mode other_mode) owner_events)),
                   (\<not> xi1_window_exists st win, BAD_WINDOW, win)]))
               (class_list_error (\<lambda>cls. xi1_device_valid (xi1_event_class_device cls)) body 16
                 (unat (u16_le_at body 6))))
             \<lparr>xp_owner = client_id, xp_device = dev, xp_window = win, xp_detail = button,
              xp_modifiers = modifiers, xp_owner_events = (owner_events \<noteq> 0),
              xp_this_mode = this_mode, xp_other_mode = other_mode, xp_is_key = False\<rparr> st)"

definition remove_xi1_grabs ::
  "bool \<Rightarrow> ClientId \<Rightarrow> u16 \<Rightarrow> ResourceId \<Rightarrow> u8 \<Rightarrow> u16 \<Rightarrow> ServerState \<Rightarrow> ServerState" where
  "remove_xi1_grabs is_key client_id dev win detail modifiers st =
     st\<lparr>st_xi1_passive_grabs := filter (\<lambda>g. \<not>
       (xp_is_key g = is_key \<and> xp_owner g = client_id \<and> xp_device g = dev \<and> xp_window g = win \<and>
        (detail = 0 \<or> xp_detail g = detail) \<and> (modifiers = 0x8000 \<or> xp_modifiers g = modifiers)))
       (st_xi1_passive_grabs st)\<rparr>"

text \<open>UngrabDeviceKey (minor 16) and UngrabDeviceButton (minor 18) share the layout of the body.\<close>

definition xi1_ungrab_device_detail ::
  "bool \<Rightarrow> ClientId \<Rightarrow> u16 \<Rightarrow> u8 list \<Rightarrow> ServerState \<Rightarrow> ServerState \<times> RequestOutcome" where
  "xi1_ungrab_device_detail is_key client_id sequence body st =
     (if length body < 9 then (st, Handled)
      else
        let modifiers = u16_le_at body 4; mod_dev = ucast (body ! 6); detail = body ! 7;
            dev = ucast (body ! 8); win = u32_le_at body 0; minor = (if is_key then 16 else 18);
            has_class = (if is_key then xi1_device_has_keys dev else xi1_device_has_buttons dev)
        in case first_error
             [(\<not> xi1_device_valid dev, XI1_ERROR_BAD_DEVICE, ucast dev),
              (mod_dev \<noteq> XI1_USE_X_KEYBOARD \<and> \<not> xi1_device_valid mod_dev, XI1_ERROR_BAD_DEVICE, ucast mod_dev),
              (\<not> has_class \<or> mod_dev \<noteq> XI1_USE_X_KEYBOARD \<and> \<not> xi1_device_has_keys mod_dev, BAD_MATCH, 0),
              (is_key \<and> detail \<noteq> 0 \<and> detail < XI1_KEY_MIN, BAD_VALUE, ucast detail),
              (\<not> xi1_modifiers_valid modifiers, BAD_VALUE, ucast modifiers),
              (\<not> xi1_window_exists st win, BAD_WINDOW, win)] of
             Some err \<Rightarrow> xi1_error client_id sequence err minor st
           | None \<Rightarrow>
               send_reply client_id (\<lambda>_. []) (remove_xi1_grabs is_key client_id dev win detail modifiers st))"

section \<open>AllowDeviceEvents\<close>

definition thaw :: "Xi1Freeze \<Rightarrow> Xi1Freeze" where "thaw f = f\<lparr>fz_state := Thawed\<rparr>"
definition unhold :: "Xi1Freeze \<Rightarrow> Xi1Freeze" where "unhold f = f\<lparr>fz_other := None\<rparr>"

text \<open>ReplayThisDevice: the grab ends, and the event that it held is routed again. The grab ends
  through \<open>xi1_deactivate_device_grab\<close>, which replays what waits.\<close>

definition replay_this_device :: "ClientId \<Rightarrow> u16 \<Rightarrow> bool \<Rightarrow> ServerState \<Rightarrow> ServerState option" where
  "replay_this_device client_id dev this_synced st =
     (let st = (if this_synced then modify_freeze dev unhold st else st);
          stored = Option.bind (hm_get (st_xi1_frozen st) dev) fz_stored;
          st = modify_freeze dev (\<lambda>f. f\<lparr>fz_stored := None\<rparr>) st;
          replay_floor = map_option xa_window (hm_get (st_xi1_active_grabs st) dev)
      in do {
           st \<leftarrow> (if hm_contains (st_xi1_active_grabs st) dev
                 then xi1_deactivate_device_grab xi1_compute_freezes dev st
                 else Some (modify_freeze dev thaw st));
           st \<leftarrow> (case stored of
                   Some q \<Rightarrow> map_option fst
                     (xi1_route_device_event xi1_compute_freezes (q\<lparr>xq_replay_floor := replay_floor\<rparr>) True st)
                 | None \<Rightarrow> Some st);
           xi1_compute_freezes st
         })"

text \<open>One device of AsyncAll and SyncAll.\<close>

definition allow_all_step :: "ClientId \<Rightarrow> Xi1SyncState \<Rightarrow> u16 \<Rightarrow> ServerState \<Rightarrow> ServerState" where
  "allow_all_step client_id new_state d st =
     (let st = (if xi1_device_grab_owner st d = Some client_id
                then entry_freeze d (\<lambda>f. f\<lparr>fz_state := new_state\<rparr>) st else st)
      in if sync_other st d = Some client_id then modify_freeze d unhold st else st)"

text \<open>The two early returns: the device has to be frozen by the client, and the time has to lie between
  the last grab and now.\<close>

definition this_synced :: "ClientId \<Rightarrow> u16 \<Rightarrow> ServerState \<Rightarrow> bool" where
  "this_synced client_id dev st \<longleftrightarrow> sync_other st dev = Some client_id \<and>
     xi1_device_grab_owner st (xi1_other_input_device dev) = Some client_id"

definition others_frozen :: "ClientId \<Rightarrow> u16 \<Rightarrow> ServerState \<Rightarrow> bool" where
  "others_frozen client_id dev st \<longleftrightarrow>
     xi1_device_grab_owner st (xi1_other_input_device dev) = Some client_id \<and>
     sync_state st (xi1_other_input_device dev) \<ge> FrozenNoEvent"

definition allow_device_gate :: "ClientId \<Rightarrow> u16 \<Rightarrow> u32 \<Rightarrow> ServerState \<Rightarrow> bool" where
  "allow_device_gate client_id dev time st \<longleftrightarrow>
     (let this_frozen_by_grab = (xi1_device_grab_owner st dev = Some client_id \<and>
            sync_state st dev \<ge> FrozenNoEvent);
          now = max (max (st_timestamp st) (st_xi1_last_input_time st)) (st_xi1_last_grab_time st)
      in (this_frozen_by_grab \<or> this_synced client_id dev st) \<and>
         \<not> (time \<noteq> 0 \<and> (time_after time now \<or> time_after (st_xi1_last_grab_time st) time)))"

definition allow_device_mode :: "ClientId \<Rightarrow> u8 \<Rightarrow> u16 \<Rightarrow> ServerState \<Rightarrow> ServerState option" where
  "allow_device_mode client_id mode dev st =
     (let other_dev = xi1_other_input_device dev;
          this_grabbed = (xi1_device_grab_owner st dev = Some client_id);
          synced = this_synced client_id dev st
      in if mode = 0 then
           xi1_compute_freezes
             ((if synced then modify_freeze dev unhold else (\<lambda>st. st))
              ((if this_grabbed then modify_freeze dev thaw else (\<lambda>st. st)) st))
         else if mode = 1 then
           (if this_grabbed then
              xi1_compute_freezes
                ((if synced then modify_freeze dev unhold else (\<lambda>st. st))
                 (entry_freeze dev (\<lambda>f. f\<lparr>fz_state := FreezeNextEvent\<rparr>) st))
            else Some st)
         else if mode = 2 then
           (if this_grabbed \<and> sync_state st dev = FrozenWithEvent
            then replay_this_device client_id dev synced st else Some st)
         else if mode = 3 then
           (if others_frozen client_id dev st then
              let st = (if xi1_device_grab_owner st other_dev = Some client_id
                        then modify_freeze other_dev thaw st else st)
              in xi1_compute_freezes
                   (if sync_other st other_dev = Some client_id then modify_freeze other_dev unhold st else st)
            else Some st)
         else
           (if others_frozen client_id dev st then
              let new_state = (if mode = 4 then Thawed else FreezeBothNextEvent)
              in xi1_compute_freezes
                   (allow_all_step client_id new_state other_dev (allow_all_step client_id new_state dev st))
            else Some st))"

definition xi1_allow_device_events ::
  "ClientId \<Rightarrow> u16 \<Rightarrow> u8 list \<Rightarrow> ServerState \<Rightarrow> (ServerState \<times> RequestOutcome) option" where
  "xi1_allow_device_events client_id sequence body st =
     (let mode = byte_or_zero body 4; dev = ucast (byte_or_zero body 5)
      in case first_error
           [(\<not> xi1_device_valid dev, XI1_ERROR_BAD_DEVICE, ucast dev),
            (mode > 5, BAD_VALUE, ucast mode)] of
           Some err \<Rightarrow> Some (xi1_error client_id sequence err 19 st)
         | None \<Rightarrow>
             if \<not> allow_device_gate client_id dev (u32_le_at body 0) st then Some (st, Handled)
             else do {
               st \<leftarrow> allow_device_mode client_id mode dev st;
               Some (send_reply client_id (\<lambda>_. []) st)
             })"

section \<open>SetDeviceFocus\<close>

definition xi1_set_device_focus ::
  "ClientId \<Rightarrow> u16 \<Rightarrow> u8 list \<Rightarrow> ServerState \<Rightarrow> ServerState \<times> RequestOutcome" where
  "xi1_set_device_focus client_id sequence body st =
     (if length body < 10 then (st, Handled)
      else
        let focus = u32_le_at body 0; req_time = u32_le_at body 4; revert_to = body ! 8;
            dev = ucast (body ! 9); special = (focus = 0 \<or> focus = 1 \<or> focus = 3)
        in case first_error
             [(\<not> xi1_device_valid dev, XI1_ERROR_BAD_DEVICE, ucast dev),
              (revert_to > 3, BAD_VALUE, ucast revert_to),
              (\<not> special \<and> window (st_resources st) focus = None, BAD_WINDOW, focus),
              (\<not> special \<and> \<not> is_viewable st focus, BAD_MATCH, 0)] of
             Some err \<Rightarrow> xi1_error client_id sequence err 21 st
           | None \<Rightarrow>
               (let now = st_timestamp st; time = (if req_time = 0 then now else req_time);
                    prev = device_focus st dev
                in if time_after time now \<or> time_after (xf_time prev) time then (st, Handled)
                   else send_reply client_id (\<lambda>_. []) (set_device_focus dev focus revert_to time st)))"

end
