(* ===== verification/CoreGrabs.thy ===== *)
theory CoreGrabs
  imports DeviceGrabs
begin

text \<open>
  The grab requests of the core protocol, from
  \<open>crates/xserver-core/src/core_loop/process_request.rs\<close>: GrabPointer, UngrabPointer, GrabButton,
  UngrabButton, ChangeActivePointerGrab, GrabKeyboard, UngrabKeyboard, GrabKey, UngrabKey, and the
  release of grabs whose window stops being viewable.

  The backend moves the pointer on behalf of a confining grab; its method \<open>warp_pointer_root\<close> may feed
  the motion back into the server, so it is the argument \<open>warp\<close>.
\<close>

definition POINTER_GRAB_MASK :: u32 where "POINTER_GRAB_MASK = 0x7FFC"
definition ANY_MODIFIER :: u16 where "ANY_MODIFIER = 0x8000"

definition cursor_exists :: "ServerState \<Rightarrow> ResourceId \<Rightarrow> bool" where
  "cursor_exists st c \<longleftrightarrow> hm_contains (rt_cursors (st_resources st)) c"

definition no_window :: "ServerState \<Rightarrow> ResourceId \<Rightarrow> bool" where
  "no_window st w \<longleftrightarrow> window (st_resources st) w = None"

definition optional_time :: "u8 list \<Rightarrow> u32" where
  "optional_time body = (if length body < 4 then 0 else u32_le_at body 0)"

text \<open>The current time that a grab request is compared with.\<close>

definition grab_now :: "ServerState \<Rightarrow> u32 \<Rightarrow> u32" where
  "grab_now st grab_time = max (max (st_timestamp st) (st_xi1_last_input_time st)) grab_time"

definition time_outside :: "ServerState \<Rightarrow> u32 \<Rightarrow> u32 \<Rightarrow> bool" where
  "time_outside st grab_time time \<longleftrightarrow>
     time \<noteq> 0 \<and> (time_after time (grab_now st grab_time) \<or> time_after grab_time time)"

section \<open>Confinement and crossings\<close>

definition clamp :: "int \<Rightarrow> int \<Rightarrow> int \<Rightarrow> int" where
  "clamp lo hi v = max lo (min hi v)"

text \<open>The nearest position inside the window, whose pixels are \<open>x0 .. x1 - 1\<close> by \<open>y0 .. y1 - 1\<close>.\<close>

definition confined_position :: "ServerState \<Rightarrow> ResourceId \<Rightarrow> Window \<Rightarrow> int \<Rightarrow> int \<Rightarrow> int \<times> int" where
  "confined_position st win w px py =
     (let (x0, y0) = window_absolute_position (st_resources st) win;
          x1 = x0 + uint (win_width w); y1 = y0 + uint (win_height w)
      in (clamp x0 (max (x1 - 1) x0) px, clamp y0 (max (y1 - 1) y0) py))"

definition confine_pointer_now ::
  "(ServerState \<Rightarrow> int \<Rightarrow> int \<Rightarrow> ServerState) \<Rightarrow> ServerState \<Rightarrow> ServerState" where
  "confine_pointer_now warp st =
     (let win = st_pointer_confine_to st
      in if win = 0 then st
         else
           (case window (st_resources st) win of
              None \<Rightarrow> st
            | Some w \<Rightarrow>
                if win_map_state w \<noteq> Viewable then st
                else
                  let px = sint (fst (st_pointer_root st)); py = sint (snd (st_pointer_root st));
                      (cx, cy) = confined_position st win w px py
                  in if cx \<noteq> px \<or> cy \<noteq> py then warp st cx cy else st))"

definition grab_crossing_wire ::
  "ServerState \<Rightarrow> u8 \<Rightarrow> CrossingEvent \<Rightarrow> u16 \<Rightarrow> ClientByteOrder \<Rightarrow> u8 list" where
  "grab_crossing_wire st mode e sequence order =
     (let (ox, oy) = window_absolute_position (st_resources st) (ce_window e);
          crossing = \<lparr>cw_sequence = sequence, cw_time = st_timestamp st, cw_root = ROOT_WINDOW,
            cw_event = ce_window e, cw_child = ce_child e, cw_root_x = fst (st_pointer_root st),
            cw_root_y = snd (st_pointer_root st),
            cw_event_x = i16_or_max (sint (fst (st_pointer_root st)) - ox),
            cw_event_y = i16_or_max (sint (snd (st_pointer_root st)) - oy),
            cw_state = 0, cw_detail = ce_detail e, cw_mode = mode\<rparr>
      in if ce_kind e = Enter then encode_enter_notify_event order crossing
         else encode_leave_notify_event order crossing)"

definition emit_core_pointer_grab_chain :: "ResourceId \<Rightarrow> ResourceId \<Rightarrow> u8 \<Rightarrow> ServerState \<Rightarrow> ServerState" where
  "emit_core_pointer_grab_chain from_win to_win mode st =
     (if from_win = to_win then st
      else fold (\<lambda>e st. fst (emit_window_event_to_state (ce_window e)
             (if ce_kind e = Enter then 0x10 else 0x20) (grab_crossing_wire st mode e) st))
             (normal_mode_crossings (st_resources st) from_win to_win) st)"

section \<open>The pointer\<close>

definition deactivate_core_pointer_grab :: "ClientId \<Rightarrow> ServerState \<Rightarrow> ServerState option" where
  "deactivate_core_pointer_grab client_id st =
     (let prev = (case st_active_pointer_grab st of
            Some g \<Rightarrow> if ap_owner g = client_id then Some (ap_window g) else None | None \<Rightarrow> None)
      in do {
           st \<leftarrow> xi1_core_grab_bridge_release xi1_compute_freezes DEVICEID_SLAVE_POINTER client_id
             (st\<lparr>st_pointer_confine_to := 0, st_pointer_grab := None, st_pointer_grab_is_passive := False,
                st_active_pointer_grab := None, st_frozen_pointer_event := None,
                st_frozen_pointer_queue := []\<rparr>);
           Some (case prev of
                   Some w \<Rightarrow> emit_core_pointer_grab_chain w (deepest_window_at_pointer st) 2 st
                 | None \<Rightarrow> st)
         })"

definition grab_pointer_error :: "u8 \<Rightarrow> u8 list \<Rightarrow> ServerState \<Rightarrow> (u8 \<times> u32) option" where
  "grab_pointer_error data body st =
     (let win = u32_le_at body 0; event_mask = ucast (u16_le_at body 4) :: u32;
          confine_to = u32_le_at body 8; cursor = u32_le_at body 12
      in first_error
           [(event_mask AND NOT POINTER_GRAB_MASK \<noteq> 0, BAD_VALUE, event_mask),
            (confine_to \<noteq> 0 \<and> no_window st confine_to, BAD_WINDOW, confine_to),
            (body ! 7 > 1, BAD_VALUE, ucast (body ! 7)),
            (body ! 6 > 1, BAD_VALUE, ucast (body ! 6)),
            (data > 1, BAD_VALUE, ucast data),
            (no_window st win, BAD_WINDOW, win),
            (cursor \<noteq> 0 \<and> \<not> cursor_exists st cursor, BAD_CURSOR, cursor)])"

text \<open>Frozen for a grab of another client on the other device.\<close>

definition frozen_by_other :: "ClientId \<Rightarrow> u16 \<Rightarrow> ServerState \<Rightarrow> bool" where
  "frozen_by_other client_id d st \<longleftrightarrow>
     map_or False (\<lambda>f. frozen f \<and> map_or False (\<lambda>c. c \<noteq> client_id) (fz_other f))
       (hm_get (st_xi1_frozen st) d)"

definition grab_pointer_status :: "ClientId \<Rightarrow> u8 list \<Rightarrow> ServerState \<Rightarrow> u8" where
  "grab_pointer_status client_id body st =
     (let confine_to = u32_le_at body 8
      in if map_or False (\<lambda>g. ap_owner g \<noteq> client_id) (st_active_pointer_grab st) \<or>
            map_or False (\<lambda>(c, _). c \<noteq> client_id) (st_pointer_grab st) then 1
         else if \<not> is_viewable st (u32_le_at body 0) \<or> confine_to \<noteq> 0 \<and> \<not> is_viewable st confine_to then 3
         else if time_outside st (st_last_pointer_grab_time st) (u32_le_at body 16) then 2
         else if frozen_by_other client_id DEVICEID_SLAVE_POINTER st then 4
         else 0)"

definition establish_pointer_grab ::
  "(ServerState \<Rightarrow> int \<Rightarrow> int \<Rightarrow> ServerState) \<Rightarrow> ClientId \<Rightarrow> u8 \<Rightarrow> u8 list \<Rightarrow> ServerState \<Rightarrow> ServerState option" where
  "establish_pointer_grab warp client_id data body st =
     (let win = u32_le_at body 0; time = u32_le_at body 16;
          prev = (case st_active_pointer_grab st of
            Some g \<Rightarrow> if ap_owner g = client_id then Some (ap_window g) else None | None \<Rightarrow> None)
      in do {
           st \<leftarrow> xi1_check_grab_for_syncs xi1_compute_freezes DEVICEID_SLAVE_POINTER client_id
             (body ! 6 = 0) (body ! 7 = 0)
             (st\<lparr>st_pointer_grab := Some (client_id, win), st_pointer_grab_is_passive := False,
                st_active_pointer_grab := Some \<lparr>ap_owner = client_id, ap_window = win,
                  ap_event_mask = u16_le_at body 4, ap_cursor = u32_le_at body 12, ap_time = time,
                  ap_owner_events = (data \<noteq> 0), ap_via_xi2 = False\<rparr>,
                st_last_pointer_grab_time :=
                  (if time = 0 then grab_now st (st_last_pointer_grab_time st) else time)\<rparr>);
           (let st = emit_core_pointer_grab_chain (unwrap_or prev (deepest_window_at_pointer st)) win 1 st
            in Some (confine_pointer_now warp (st\<lparr>st_pointer_confine_to := u32_le_at body 8\<rparr>)))
         })"

definition send_grab_reply :: "ClientId \<Rightarrow> u16 \<Rightarrow> u8 \<Rightarrow> ServerState \<Rightarrow> ServerState \<times> RequestOutcome" where
  "send_grab_reply client_id sequence status st =
     send_reply client_id (\<lambda>order. write_grab_reply order sequence status) st"

definition core_error ::
  "ClientId \<Rightarrow> u16 \<Rightarrow> u8 \<times> u32 \<Rightarrow> u8 \<Rightarrow> ServerState \<Rightarrow> ServerState \<times> RequestOutcome" where
  "core_error client_id sequence err opcode st =
     emit_x11_error client_id sequence (fst err) (snd err) opcode st"

definition handle_grab_pointer ::
  "(ServerState \<Rightarrow> int \<Rightarrow> int \<Rightarrow> ServerState) \<Rightarrow> ClientId \<Rightarrow> u16 \<Rightarrow> u8 \<Rightarrow> u8 list \<Rightarrow> ServerState
    \<Rightarrow> (ServerState \<times> RequestOutcome) option" where
  "handle_grab_pointer warp client_id sequence data body st =
     (if length body < 20 then Some (send_grab_reply client_id sequence 0 st)
      else
        (case grab_pointer_error data body st of
           Some err \<Rightarrow> Some (core_error client_id sequence err 26 st)
         | None \<Rightarrow>
             (let status = grab_pointer_status client_id body st
              in do {
                   st \<leftarrow> (if status = 0 then establish_pointer_grab warp client_id data body st else Some st);
                   Some (send_grab_reply client_id sequence status st)
                 })))"

definition held_by_client :: "ClientId \<Rightarrow> ServerState \<Rightarrow> bool" where
  "held_by_client client_id st \<longleftrightarrow>
     map_or False (\<lambda>g. ap_owner g = client_id) (st_active_pointer_grab st) \<or>
     map_or False (\<lambda>(c, _). c = client_id) (st_pointer_grab st)"

definition handle_ungrab_pointer :: "ClientId \<Rightarrow> u8 list \<Rightarrow> ServerState \<Rightarrow> ServerState option" where
  "handle_ungrab_pointer client_id body st =
     (if time_outside st (st_last_pointer_grab_time st) (optional_time body) then Some st
      else if \<not> held_by_client client_id st then Some st
      else deactivate_core_pointer_grab client_id st)"

definition modifiers_invalid :: "u16 \<Rightarrow> bool" where
  "modifiers_invalid m \<longleftrightarrow> m \<noteq> ANY_MODIFIER \<and> m AND NOT 0x00FF \<noteq> 0"

definition grab_button_error :: "u8 \<Rightarrow> u8 list \<Rightarrow> ServerState \<Rightarrow> (u8 \<times> u32) option" where
  "grab_button_error data body st =
     (let win = u32_le_at body 0; event_mask = ucast (u16_le_at body 4) :: u32;
          confine_to = u32_le_at body 8; cursor = u32_le_at body 12; modifiers = u16_le_at body 18
      in first_error
           [(body ! 6 > 1, BAD_VALUE, ucast (body ! 6)),
            (body ! 7 > 1, BAD_VALUE, ucast (body ! 7)),
            (modifiers_invalid modifiers, BAD_VALUE, ucast modifiers),
            (data > 1, BAD_VALUE, ucast data),
            (event_mask AND NOT POINTER_GRAB_MASK \<noteq> 0, BAD_VALUE, event_mask),
            (no_window st win, BAD_WINDOW, win),
            (confine_to \<noteq> 0 \<and> no_window st confine_to, BAD_WINDOW, confine_to),
            (cursor \<noteq> 0 \<and> \<not> cursor_exists st cursor, BAD_CURSOR, cursor)])"

definition button_grab_conflict :: "PassiveButtonGrab \<Rightarrow> ServerState \<Rightarrow> bool" where
  "button_grab_conflict n st \<longleftrightarrow> list_ex (\<lambda>g.
     bg_window g = bg_window n \<and> bg_owner g \<noteq> bg_owner n \<and> \<not> bg_via_xi2 g \<and>
     overlaps (bg_button g) (bg_button n) \<and> modifiers_overlap (bg_modifiers g) (bg_modifiers n))
     (st_button_grabs st)"

definition add_button_grab :: "PassiveButtonGrab \<Rightarrow> ServerState \<Rightarrow> ServerState" where
  "add_button_grab n st = st\<lparr>st_button_grabs := filter (\<lambda>g. \<not>
     (bg_owner g = bg_owner n \<and> bg_window g = bg_window n \<and> bg_button g = bg_button n \<and>
      bg_modifiers g = bg_modifiers n)) (st_button_grabs st) @ [n]\<rparr>"

definition handle_grab_button ::
  "ClientId \<Rightarrow> u16 \<Rightarrow> u8 \<Rightarrow> u8 list \<Rightarrow> ServerState \<Rightarrow> ServerState \<times> RequestOutcome" where
  "handle_grab_button client_id sequence data body st =
     (if length body < 20 then (st, Handled)
      else
        (case grab_button_error data body st of
           Some err \<Rightarrow> core_error client_id sequence err 28 st
         | None \<Rightarrow>
             (let n = \<lparr>bg_owner = client_id, bg_window = u32_le_at body 0, bg_button = body ! 16,
                    bg_modifiers = u16_le_at body 18, bg_owner_events = (data \<noteq> 0),
                    bg_event_mask = ucast (u16_le_at body 4), bg_pointer_mode = body ! 6,
                    bg_keyboard_mode = body ! 7, bg_confine_to = u32_le_at body 8, bg_via_xi2 = False\<rparr>
              in if button_grab_conflict n st then core_error client_id sequence (BAD_ACCESS, 0) 28 st
                 else (add_button_grab n st, Handled))))"

definition handle_ungrab_button ::
  "ClientId \<Rightarrow> u16 \<Rightarrow> u8 \<Rightarrow> u8 list \<Rightarrow> ServerState \<Rightarrow> ServerState \<times> RequestOutcome" where
  "handle_ungrab_button client_id sequence button body st =
     (if length body < 6 then (st, Handled)
      else
        let win = u32_le_at body 0; modifiers = u16_le_at body 4
        in case first_error
             [(modifiers_invalid modifiers, BAD_VALUE, ucast modifiers),
              (no_window st win, BAD_WINDOW, win)] of
             Some err \<Rightarrow> core_error client_id sequence err 29 st
           | None \<Rightarrow>
               (st\<lparr>st_button_grabs := filter (\<lambda>g. \<not>
                  (bg_owner g = client_id \<and> bg_window g = win \<and> (bg_button g = button \<or> button = 0) \<and>
                   (bg_modifiers g = modifiers \<or> modifiers = ANY_MODIFIER))) (st_button_grabs st)\<rparr>, Handled))"

definition handle_change_active_pointer_grab ::
  "ClientId \<Rightarrow> u16 \<Rightarrow> u8 list \<Rightarrow> ServerState \<Rightarrow> ServerState \<times> RequestOutcome" where
  "handle_change_active_pointer_grab client_id sequence body st =
     (if length body < 12 then (st, Handled)
      else
        let cursor = u32_le_at body 0; time = u32_le_at body 4; event_mask = u16_le_at body 8
        in case first_error
             [(ucast event_mask AND NOT POINTER_GRAB_MASK \<noteq> 0, BAD_VALUE, ucast event_mask),
              (cursor \<noteq> 0 \<and> \<not> cursor_exists st cursor, BAD_CURSOR, cursor)] of
             Some err \<Rightarrow> core_error client_id sequence err 30 st
           | None \<Rightarrow>
               (case st_active_pointer_grab st of
                  Some g \<Rightarrow>
                    if ap_owner g = client_id \<and> \<not> time_outside st (st_last_pointer_grab_time st) time
                    then (st\<lparr>st_active_pointer_grab :=
                            Some (g\<lparr>ap_event_mask := event_mask, ap_cursor := cursor\<rparr>)\<rparr>, Handled)
                    else (st, Handled)
                | None \<Rightarrow> (st, Handled)))"

section \<open>The keyboard\<close>

definition deactivate_core_keyboard_grab :: "ClientId \<Rightarrow> ServerState \<Rightarrow> ServerState option" where
  "deactivate_core_keyboard_grab client_id st =
     (case st_active_keyboard_grab st of
        None \<Rightarrow> Some st
      | Some g \<Rightarrow>
          if ak_owner g \<noteq> client_id then Some st
          else do {
            st \<leftarrow> xi1_core_grab_bridge_release xi1_compute_freezes DEVICEID_SLAVE_KEYBOARD client_id
              (st\<lparr>st_active_keyboard_grab := None, st_frozen_keyboard_event := None\<rparr>);
            Some (emit_core_focus_transition (ak_window g) (cf_raw (st_core_focus st)) 2 st)
          })"

definition grab_keyboard_error :: "u8 \<Rightarrow> u8 list \<Rightarrow> ServerState \<Rightarrow> (u8 \<times> u32) option" where
  "grab_keyboard_error data body st =
     (let win = u32_le_at body 0
      in first_error
           [(body ! 9 > 1, BAD_VALUE, ucast (body ! 9)),
            (body ! 8 > 1, BAD_VALUE, ucast (body ! 8)),
            (data > 1, BAD_VALUE, ucast data),
            (no_window st win, BAD_WINDOW, win)])"

definition grab_keyboard_status :: "ClientId \<Rightarrow> u8 list \<Rightarrow> ServerState \<Rightarrow> u8" where
  "grab_keyboard_status client_id body st =
     (if map_or False (\<lambda>g. ak_owner g \<noteq> client_id) (st_active_keyboard_grab st) then 1
      else if \<not> is_viewable st (u32_le_at body 0) then 3
      else if time_outside st (st_last_keyboard_grab_time st) (u32_le_at body 4) then 2
      else if frozen_by_other client_id DEVICEID_SLAVE_KEYBOARD st then 4
      else 0)"

definition establish_keyboard_grab :: "ClientId \<Rightarrow> u8 \<Rightarrow> u8 list \<Rightarrow> ServerState \<Rightarrow> ServerState option" where
  "establish_keyboard_grab client_id data body st =
     (let win = u32_le_at body 0; time = u32_le_at body 4;
          prev = (case st_active_keyboard_grab st of
            Some g \<Rightarrow> if ak_owner g = client_id then Some (ak_window g) else None | None \<Rightarrow> None)
      in do {
           st \<leftarrow> xi1_check_grab_for_syncs xi1_compute_freezes DEVICEID_SLAVE_KEYBOARD client_id
             (body ! 9 = 0) (body ! 8 = 0)
             (st\<lparr>st_active_keyboard_grab := Some \<lparr>ak_owner = client_id, ak_window = win,
                  ak_source = Explicit, ak_owner_events = (data \<noteq> 0), ak_via_xi2 = False\<rparr>,
                st_last_keyboard_grab_time :=
                  (if time = 0 then grab_now st (st_last_keyboard_grab_time st) else time)\<rparr>);
           Some (emit_core_focus_transition (unwrap_or prev (cf_raw (st_core_focus st))) win 1 st)
         })"

definition handle_grab_keyboard ::
  "ClientId \<Rightarrow> u16 \<Rightarrow> u8 \<Rightarrow> u8 list \<Rightarrow> ServerState \<Rightarrow> (ServerState \<times> RequestOutcome) option" where
  "handle_grab_keyboard client_id sequence data body st =
     (if length body < 12 then Some (send_grab_reply client_id sequence 0 st)
      else
        (case grab_keyboard_error data body st of
           Some err \<Rightarrow> Some (core_error client_id sequence err 31 st)
         | None \<Rightarrow>
             (let status = grab_keyboard_status client_id body st
              in do {
                   st \<leftarrow> (if status = 0 then establish_keyboard_grab client_id data body st else Some st);
                   Some (send_grab_reply client_id sequence status st)
                 })))"

definition handle_ungrab_keyboard :: "ClientId \<Rightarrow> u8 list \<Rightarrow> ServerState \<Rightarrow> ServerState option" where
  "handle_ungrab_keyboard client_id body st =
     (if time_outside st (st_last_keyboard_grab_time st) (optional_time body) then Some st
      else deactivate_core_keyboard_grab client_id st)"

text \<open>\<open>parse_grab_key\<close> and \<open>parse_ungrab_key\<close> read these fields of a body that is long enough.\<close>

definition key_grab_conflict :: "KeyGrab \<Rightarrow> ServerState \<Rightarrow> bool" where
  "key_grab_conflict n st \<longleftrightarrow> list_ex (\<lambda>g.
     kg_window g = kg_window n \<and> kg_owner g \<noteq> kg_owner n \<and> \<not> kg_via_xi2 g \<and>
     overlaps (kg_keycode g) (kg_keycode n) \<and> modifiers_overlap (kg_modifiers g) (kg_modifiers n))
     (st_key_grabs st)"

definition add_key_grab :: "KeyGrab \<Rightarrow> ServerState \<Rightarrow> ServerState" where
  "add_key_grab n st = st\<lparr>st_key_grabs := filter (\<lambda>g. \<not>
     (kg_owner g = kg_owner n \<and> kg_window g = kg_window n \<and> kg_keycode g = kg_keycode n \<and>
      kg_modifiers g = kg_modifiers n)) (st_key_grabs st) @ [n]\<rparr>"

definition parse_grab_key :: "ClientId \<Rightarrow> u8 list \<Rightarrow> bool \<Rightarrow> KeyGrab option" where
  "parse_grab_key client_id body owner_events =
     (if length body < 12 then None
      else Some \<lparr>kg_owner = client_id, kg_window = u32_le_at body 0, kg_keycode = body ! 6,
        kg_modifiers = u16_le_at body 4, kg_owner_events = owner_events, kg_pointer_mode = body ! 7,
        kg_keyboard_mode = body ! 8, kg_via_xi2 = False\<rparr>)"

definition handle_grab_key ::
  "ClientId \<Rightarrow> u16 \<Rightarrow> u8 \<Rightarrow> u8 list \<Rightarrow> ServerState \<Rightarrow> ServerState \<times> RequestOutcome" where
  "handle_grab_key client_id sequence data body st =
     (case parse_grab_key client_id body (data \<noteq> 0) of
        None \<Rightarrow> (st, Handled)
      | Some n \<Rightarrow>
          (case first_error
             [(kg_keyboard_mode n > 1, BAD_VALUE, ucast (kg_keyboard_mode n)),
              (kg_pointer_mode n > 1, BAD_VALUE, ucast (kg_pointer_mode n)),
              (data > 1, BAD_VALUE, ucast data),
              (modifiers_invalid (kg_modifiers n), BAD_VALUE, ucast (kg_modifiers n)),
              (kg_keycode n \<noteq> 0 \<and> kg_keycode n < 8, BAD_VALUE, ucast (kg_keycode n)),
              (no_window st (kg_window n), BAD_WINDOW, kg_window n)] of
             Some err \<Rightarrow> core_error client_id sequence err 33 st
           | None \<Rightarrow>
               if key_grab_conflict n st then core_error client_id sequence (BAD_ACCESS, 0) 33 st
               else (add_key_grab n st, Handled)))"

definition handle_ungrab_key ::
  "ClientId \<Rightarrow> u16 \<Rightarrow> u8 \<Rightarrow> u8 list \<Rightarrow> ServerState \<Rightarrow> ServerState \<times> RequestOutcome" where
  "handle_ungrab_key client_id sequence keycode body st =
     (if length body < 6 then (st, Handled)
      else
        let win = u32_le_at body 0; modifiers = u16_le_at body 4
        in case first_error
             [(no_window st win, BAD_WINDOW, win),
              (keycode \<noteq> 0 \<and> keycode < 8, BAD_VALUE, ucast keycode),
              (modifiers_invalid modifiers, BAD_VALUE, ucast modifiers)] of
             Some err \<Rightarrow> core_error client_id sequence err 34 st
           | None \<Rightarrow>
               (st\<lparr>st_key_grabs := filter (\<lambda>g. \<not>
                  (kg_owner g = client_id \<and> kg_window g = win \<and> (kg_keycode g = keycode \<or> keycode = 0) \<and>
                   (kg_modifiers g = modifiers \<or> modifiers = ANY_MODIFIER))) (st_key_grabs st)\<rparr>, Handled))"

section \<open>Windows that stop being viewable\<close>

definition release_core_grabs_for_unviewable :: "ServerState \<Rightarrow> ServerState option" where
  "release_core_grabs_for_unviewable st = do {
     st \<leftarrow> (case st_pointer_grab st of
             Some (owner, win) \<Rightarrow>
               if \<not> is_viewable st win \<or>
                  st_pointer_confine_to st \<noteq> 0 \<and> \<not> is_viewable st (st_pointer_confine_to st)
               then deactivate_core_pointer_grab owner st else Some st
           | None \<Rightarrow> Some st);
     (case st_active_keyboard_grab st of
        Some g \<Rightarrow>
          if \<not> is_viewable st (ak_window g) then deactivate_core_keyboard_grab (ak_owner g) st else Some st
      | None \<Rightarrow> Some st)
   }"

end
