(* ===== verification/Timers.thy ===== *)
theory Timers
  imports Alarms
begin

text \<open>
  The idle timers: DPMS, the screen saver and the IDLETIME alarms. The state is in \<open>ServerState\<close>; the
  deadlines are from \<open>crates/xserver-core/src/server.rs\<close>, the evaluations after a poll from
  \<open>core_loop/run.rs\<close>, the transitions and requests from \<open>core_loop/process_request.rs\<close>, the codecs from
  \<open>crates/xserver-protocol/src/x11/dpms.rs\<close> and \<open>screensaver.rs\<close>.

  \<open>Instant::now()\<close> is the argument \<open>now\<close>. The backend is told every power level; its error is logged
  and ignored, so the call does not appear. A debug build stops at a transition to \<open>Cycle\<close>; the model is
  the release build, which ignores it.
\<close>

section \<open>Wire\<close>

definition DPMS_MAJOR_OPCODE :: u8 where "DPMS_MAJOR_OPCODE = 134"
definition MIT_SCREEN_SAVER_MAJOR_OPCODE :: u8 where "MIT_SCREEN_SAVER_MAJOR_OPCODE = 150"
definition MIT_SCREEN_SAVER_FIRST_EVENT :: u8 where "MIT_SCREEN_SAVER_FIRST_EVENT = 92"
definition TIMER_BAD_VALUE :: u8 where "TIMER_BAD_VALUE = 2"
definition TIMER_BAD_ACCESS :: u8 where "TIMER_BAD_ACCESS = 10"
definition TIMER_BAD_LENGTH :: u8 where "TIMER_BAD_LENGTH = 16"

definition parse_set_timeouts_request :: "u8 list \<Rightarrow> (u16 \<times> u16 \<times> u16) option" where
  "parse_set_timeouts_request body =
     (if length body < 8 then None else Some (u16_le_at body 0, u16_le_at body 2, u16_le_at body 4))"

definition parse_force_level_request :: "u8 list \<Rightarrow> u16 option" where
  "parse_force_level_request body = (if length body < 4 then None else Some (u16_le_at body 0))"

definition dpms_parse_select_input :: "u8 list \<Rightarrow> u32 option" where
  "dpms_parse_select_input body = (if length body < 4 then None else Some (u32_le_at body 0))"

definition dpms_encode_get_version_reply :: "ClientByteOrder \<Rightarrow> u16 \<Rightarrow> u8 list" where
  "dpms_encode_get_version_reply order sequence =
     fixed_reply order sequence 0 0 @ enc16 order 1 @ enc16 order 2 @ replicate 20 0"

definition encode_capable_reply :: "ClientByteOrder \<Rightarrow> u16 \<Rightarrow> bool \<Rightarrow> u8 list" where
  "encode_capable_reply order sequence capable =
     fixed_reply order sequence 0 0 @ [of_bool capable] @ replicate 23 0"

definition encode_get_timeouts_reply :: "ClientByteOrder \<Rightarrow> u16 \<Rightarrow> u16 \<Rightarrow> u16 \<Rightarrow> u16 \<Rightarrow> u8 list" where
  "encode_get_timeouts_reply order sequence standby suspend off =
     fixed_reply order sequence 0 0 @ enc16 order standby @ enc16 order suspend @ enc16 order off @
     replicate 18 0"

definition encode_info_reply :: "ClientByteOrder \<Rightarrow> u16 \<Rightarrow> u16 \<Rightarrow> bool \<Rightarrow> u8 list" where
  "encode_info_reply order sequence power_level enabled =
     fixed_reply order sequence 0 0 @ enc16 order power_level @ [of_bool enabled] @ replicate 21 0"

definition encode_dpms_info_notify_event ::
  "ClientByteOrder \<Rightarrow> u16 \<Rightarrow> u8 \<Rightarrow> u32 \<Rightarrow> u16 \<Rightarrow> bool \<Rightarrow> u8 list" where
  "encode_dpms_info_notify_event order sequence extension_opcode timestamp power_level enabled =
     [35, extension_opcode] @ enc16 order sequence @ enc32 order 0 @ enc16 order 0 @ enc16 order 0 @
     enc32 order timestamp @ enc16 order power_level @ [of_bool enabled] @ replicate 13 0"

definition ss_parse_query_info :: "u8 list \<Rightarrow> u32 option" where
  "ss_parse_query_info body = (if length body < 4 then None else Some (u32_le_at body 0))"

definition ss_parse_select_input :: "u8 list \<Rightarrow> (u32 \<times> u32) option" where
  "ss_parse_select_input body =
     (if length body < 8 then None else Some (u32_le_at body 0, u32_le_at body 4))"

definition ss_parse_suspend :: "u8 list \<Rightarrow> bool option" where
  "ss_parse_suspend body = (if body = [] then None else Some (body ! 0 \<noteq> 0))"

definition ss_encode_query_version_reply :: "ClientByteOrder \<Rightarrow> u16 \<Rightarrow> u8 list" where
  "ss_encode_query_version_reply order sequence =
     fixed_reply order sequence 0 0 @ enc16 order 1 @ enc16 order 1 @ replicate 20 0"

definition encode_query_info_reply ::
  "ClientByteOrder \<Rightarrow> u16 \<Rightarrow> u8 \<Rightarrow> u32 \<Rightarrow> u32 \<Rightarrow> u32 \<Rightarrow> u32 \<Rightarrow> u8 \<Rightarrow> u8 list" where
  "encode_query_info_reply order sequence saver_state win til_or_since idle event_mask kind =
     fixed_reply order sequence saver_state 0 @ enc32 order win @ enc32 order til_or_since @
     enc32 order idle @ enc32 order event_mask @ [kind] @ replicate 7 0"

definition encode_screen_saver_notify_event ::
  "ClientByteOrder \<Rightarrow> u16 \<Rightarrow> u8 \<Rightarrow> u8 \<Rightarrow> u32 \<Rightarrow> u32 \<Rightarrow> u32 \<Rightarrow> u8 \<Rightarrow> bool \<Rightarrow> u8 list" where
  "encode_screen_saver_notify_event order sequence first_event saver_state timestamp root win kind forced =
     [first_event, saver_state] @ enc16 order sequence @ enc32 order timestamp @ enc32 order root @
     enc32 order win @ [kind, of_bool forced] @ replicate 14 0"

section \<open>Deadlines\<close>

definition next_dpms_level :: "u8 \<Rightarrow> u32 \<Rightarrow> DpmsState \<Rightarrow> u8" where
  "next_dpms_level current idle_ms d =
     (if current < 3 \<and> dpms_off_ms d > 0 \<and> idle_ms \<ge> dpms_off_ms d then 3
      else if current < 2 \<and> dpms_suspend_ms d > 0 \<and> idle_ms \<ge> dpms_suspend_ms d then 2
      else if current < 1 \<and> dpms_standby_ms d > 0 \<and> idle_ms \<ge> dpms_standby_ms d then 1
      else current)"

text \<open>The minimum over the non-zero values, kept in a mutable option in the source.\<close>

definition push_ms :: "u32 \<Rightarrow> u32 option \<Rightarrow> u32 option" where
  "push_ms ms nxt = (if ms > 0 then Some (map_or ms (\<lambda>n. min n ms) nxt) else nxt)"

definition dpms_next_timeout :: "DpmsState \<Rightarrow> u32 option" where
  "dpms_next_timeout d =
     (let lvl = dpms_power_level d;
          nxt = (if lvl < 1 then push_ms (dpms_standby_ms d) None else None);
          nxt = (if lvl < 2 then push_ms (dpms_suspend_ms d) nxt else nxt)
      in if lvl < 3 then push_ms (dpms_off_ms d) nxt else nxt)"

definition dpms_transition_deadline :: "ServerState \<Rightarrow> nat option" where
  "dpms_transition_deadline st =
     (let d = st_dpms st
      in if \<not> dpms_enabled d \<or> \<not> dpms_kms_capable d then None
         else if ss_suspend_counts (st_screensaver st) \<noteq> [] then None
         else map_option (\<lambda>ms. dpms_last_activity d + unat ms) (dpms_next_timeout d))"

definition screensaver_idle_deadline :: "ServerState \<Rightarrow> nat option" where
  "screensaver_idle_deadline st =
     (let s = st_screensaver st
      in if ss_timeout_ms s = 0 \<or> ss_suspend_counts s \<noteq> [] \<or> ss_active s = SaverOn \<or>
            dpms_power_level (st_dpms st) \<noteq> 0
         then None
         else Some (dpms_last_activity (st_dpms st) + unat (ss_timeout_ms s)))"

definition screensaver_cycle_deadline :: "ServerState \<Rightarrow> nat option" where
  "screensaver_cycle_deadline st =
     (let s = st_screensaver st
      in if ss_active s \<noteq> SaverOn \<or> ss_suspend_counts s \<noteq> [] \<or> dpms_power_level (st_dpms st) \<noteq> 0
         then None
         else ss_next_cycle s)"

definition alarm_fire_at :: "nat \<Rightarrow> ServerState \<Rightarrow> SyncAlarm \<Rightarrow> nat option" where
  "alarm_fire_at now st a =
     (let test_type = ucast (sa_test_type a) :: u32; baseline = idletime_baseline st (sa_counter a)
      in if sa_state a \<noteq> ALARM_STATE_ACTIVE then None
         else if \<not> is_idletime (sa_counter a) then None
         else if test_type \<noteq> TEST_POSITIVE_TRANSITION \<and> test_type \<noteq> TEST_POSITIVE_COMPARISON then None
         else if sa_wait_value a < 0 then None
         else if idle_since now baseline \<ge> sa_wait_value a then None
         else Some (baseline + nat (sa_wait_value a)))"

definition earlier :: "nat option \<Rightarrow> nat option \<Rightarrow> nat option" where
  "earlier e x = (case x of None \<Rightarrow> e | Some t \<Rightarrow> Some (map_or t (\<lambda>u. min u t) e))"

definition idletime_alarm_deadline :: "nat \<Rightarrow> ServerState \<Rightarrow> nat option" where
  "idletime_alarm_deadline now st =
     (if ss_suspend_counts (st_screensaver st) \<noteq> [] then None
      else foldl earlier None (map (alarm_fire_at now st) (hm_values (st_sync_alarms st))))"

text \<open>The deadlines of the timers that the main loop chains into its poll timeout.\<close>

definition timer_deadline :: "nat \<Rightarrow> ServerState \<Rightarrow> nat option" where
  "timer_deadline now st = foldl earlier None
     [dpms_transition_deadline st, screensaver_idle_deadline st, screensaver_cycle_deadline st,
      idletime_alarm_deadline now st]"

section \<open>Transitions\<close>

definition emit_dpms_notify :: "ServerState \<Rightarrow> ServerState" where
  "emit_dpms_notify st =
     (let subscribers = dpms_selected_by (st_dpms st);
          level = ucast (dpms_power_level (st_dpms st)); enabled = dpms_enabled (st_dpms st)
      in if subscribers = [] then st
         else
           (case fanout_event_to_clients subscribers
                   (\<lambda>sequence order. encode_dpms_info_notify_event order sequence DPMS_MAJOR_OPCODE
                      (st_timestamp st) level enabled) st of
              (st, dropped) \<Rightarrow>
                st\<lparr>st_dpms := (st_dpms st)\<lparr>dpms_selected_by :=
                     filter (\<lambda>c. c \<notin> set dropped) (dpms_selected_by (st_dpms st))\<rparr>\<rparr>))"

definition notify_state_code :: "ScreenSaverActive \<Rightarrow> u8" where
  "notify_state_code s = (case s of SaverOff \<Rightarrow> 0 | SaverOn \<Rightarrow> 1 | SaverCycle \<Rightarrow> 2)"

definition deliver_mask_for :: "ScreenSaverActive \<Rightarrow> u32" where
  "deliver_mask_for s = (case s of SaverOff \<Rightarrow> 1 | SaverOn \<Rightarrow> 1 | SaverCycle \<Rightarrow> 2)"

definition saver_kind :: "ServerState \<Rightarrow> u8" where
  "saver_kind st = (if ss_prefer_blanking (st_screensaver st) then 0 else 1)"

definition emit_screen_saver_notify :: "ScreenSaverActive \<Rightarrow> bool \<Rightarrow> ServerState \<Rightarrow> ServerState" where
  "emit_screen_saver_notify notify_state forced st =
     (let subs = map fst (filter (\<lambda>(_, m). m AND deliver_mask_for notify_state \<noteq> 0)
            (ss_selected_by (st_screensaver st)))
      in if subs = [] then st
         else
           (case fanout_event_to_clients subs
                   (\<lambda>sequence order. encode_screen_saver_notify_event order sequence
                      MIT_SCREEN_SAVER_FIRST_EVENT (notify_state_code notify_state) (st_timestamp st)
                      ROOT_WINDOW 0 (saver_kind st) forced) st of
              (st, dropped) \<Rightarrow>
                st\<lparr>st_screensaver := (st_screensaver st)\<lparr>ss_selected_by :=
                     fold hm_remove dropped (ss_selected_by (st_screensaver st))\<rparr>\<rparr>))"

definition apply_screen_saver_transition :: "nat \<Rightarrow> ScreenSaverActive \<Rightarrow> bool \<Rightarrow> ServerState \<Rightarrow> ServerState" where
  "apply_screen_saver_transition now new forced st =
     (if new = SaverCycle \<or> ss_active (st_screensaver st) = new then st
      else
        emit_screen_saver_notify new forced
          (st\<lparr>st_screensaver := (st_screensaver st)\<lparr>ss_active := new, ss_forced := forced,
             ss_next_cycle :=
               (if new = SaverOn \<and> ss_interval_ms (st_screensaver st) > 0
                then Some (now + unat (ss_interval_ms (st_screensaver st))) else None)\<rparr>\<rparr>))"

definition apply_dpms_transition :: "nat \<Rightarrow> u8 \<Rightarrow> ServerState \<Rightarrow> ServerState" where
  "apply_dpms_transition now new_level st =
     (let old = dpms_power_level (st_dpms st);
          st = st\<lparr>st_dpms := (st_dpms st)\<lparr>dpms_power_level := new_level\<rparr>\<rparr>;
          st = (if new_level \<noteq> 0 \<and> ss_active (st_screensaver st) = SaverOff
                then apply_screen_saver_transition now SaverOn True st
                else if new_level = 0 \<and> ss_active (st_screensaver st) = SaverOn
                then apply_screen_saver_transition now SaverOff False st
                else st)
      in if new_level \<noteq> old then emit_dpms_notify st else st)"

section \<open>Idle alarms\<close>

definition set_evaluated :: "u32 \<Rightarrow> int \<Rightarrow> ServerState \<Rightarrow> ServerState" where
  "set_evaluated counter idle st =
     st\<lparr>st_idletime_last_evaluated := hm_insert counter idle (st_idletime_last_evaluated st)\<rparr>"

definition evaluate_idletime_negative_alarms_on_input_wake :: "u8 \<Rightarrow> int \<Rightarrow> int \<Rightarrow> ServerState \<Rightarrow> ServerState" where
  "evaluate_idletime_negative_alarms_on_input_wake device_id prior_global prior_device st =
     (if ss_suspend_counts (st_screensaver st) \<noteq> [] then st
      else
        let st = set_evaluated IDLETIME_COUNTER 0 (evaluate_alarms_for_counter IDLETIME_COUNTER prior_global 0 st)
        in if device_id = 2 then
             set_evaluated IDLETIME_DEVICE_VCP 0
               (evaluate_alarms_for_counter IDLETIME_DEVICE_VCP prior_device 0 st)
           else if device_id = 3 then
             set_evaluated IDLETIME_DEVICE_VCK 0
               (evaluate_alarms_for_counter IDLETIME_DEVICE_VCK prior_device 0 st)
           else st)"

definition reset_idletime_state_after_suspend_release :: "nat \<Rightarrow> ServerState \<Rightarrow> ServerState" where
  "reset_idletime_state_after_suspend_release now st =
     st\<lparr>st_per_device_last_activity := map (\<lambda>(d, _). (d, now)) (st_per_device_last_activity st),
        st_idletime_last_evaluated := []\<rparr>"

text \<open>What both \<open>pointer_event_fanout_to_state\<close> (device 2) and \<open>key_event_fanout_to_state\<close> (device 3) do
  to the timers before they deliver an event.\<close>

definition input_wake :: "nat \<Rightarrow> u8 \<Rightarrow> ServerState \<Rightarrow> ServerState" where
  "input_wake now device_id st =
     (let prior_global = idle_since now (dpms_last_activity (st_dpms st));
          prior_device = map_or prior_global (idle_since now)
            (hm_get (st_per_device_last_activity st) device_id);
          st = st\<lparr>st_dpms := (st_dpms st)\<lparr>dpms_last_activity := now\<rparr>,
                  st_per_device_last_activity := hm_insert device_id now (st_per_device_last_activity st)\<rparr>;
          st = evaluate_idletime_negative_alarms_on_input_wake device_id prior_global prior_device st;
          st = (if dpms_enabled (st_dpms st) \<and> dpms_power_level (st_dpms st) \<noteq> 0
                then apply_dpms_transition now 0 st else st)
      in if ss_active (st_screensaver st) = SaverOn
         then apply_screen_saver_transition now SaverOff False st else st)"

section \<open>After a poll\<close>

definition due :: "nat \<Rightarrow> nat option \<Rightarrow> bool" where
  "due now deadline \<longleftrightarrow> map_or False (\<lambda>t. now \<ge> t) deadline"

definition dpms_cascade :: "nat \<Rightarrow> ServerState \<Rightarrow> ServerState" where
  "dpms_cascade now st =
     (if due now (dpms_transition_deadline st)
      then
        let idle_ms = word_of_nat (min (now - dpms_last_activity (st_dpms st)) (2 ^ 32 - 1));
            target = next_dpms_level (dpms_power_level (st_dpms st)) idle_ms (st_dpms st)
        in if target \<noteq> dpms_power_level (st_dpms st) then apply_dpms_transition now target st else st
      else st)"

definition evaluate_screen_saver_post_poll :: "nat \<Rightarrow> ServerState \<Rightarrow> ServerState" where
  "evaluate_screen_saver_post_poll now st =
     (let st = (if due now (screensaver_idle_deadline st)
                then apply_screen_saver_transition now SaverOn False st else st)
      in if due now (screensaver_cycle_deadline st)
         then
           let st = emit_screen_saver_notify SaverCycle False st
           in st\<lparr>st_screensaver := (st_screensaver st)\<lparr>ss_next_cycle :=
                 Some (now + unat (ss_interval_ms (st_screensaver st)))\<rparr>\<rparr>
         else st)"

definition evaluate_idletime_counter :: "nat \<Rightarrow> u32 \<Rightarrow> ServerState \<Rightarrow> ServerState" where
  "evaluate_idletime_counter now counter st =
     (if list_ex (watches counter) (hm_values (st_sync_alarms st))
      then
        let current_idle = idle_since now (idletime_baseline st counter);
            old_idle = unwrap_or (hm_get (st_idletime_last_evaluated st) counter) 0
        in set_evaluated counter current_idle (evaluate_alarms_for_counter counter old_idle current_idle st)
      else st)"

definition evaluate_idletime_alarms_post_poll :: "nat \<Rightarrow> ServerState \<Rightarrow> ServerState" where
  "evaluate_idletime_alarms_post_poll now st =
     (if ss_suspend_counts (st_screensaver st) \<noteq> [] then st
      else fold (evaluate_idletime_counter now)
             [IDLETIME_COUNTER, IDLETIME_DEVICE_VCP, IDLETIME_DEVICE_VCK] st)"

definition post_poll :: "nat \<Rightarrow> ServerState \<Rightarrow> ServerState" where
  "post_poll now st =
     evaluate_idletime_alarms_post_poll now (evaluate_screen_saver_post_poll now (dpms_cascade now st))"

section \<open>Requests\<close>

definition dpms_error :: "ClientId \<Rightarrow> u16 \<Rightarrow> u8 \<Rightarrow> u8 \<times> u32 \<Rightarrow> ServerState \<Rightarrow> ServerState \<times> RequestOutcome" where
  "dpms_error client_id sequence minor err st =
     emit_x11_error_with_minor client_id sequence (fst err) (snd err) (ucast minor) DPMS_MAJOR_OPCODE st"

definition nonzero_violates :: "u16 \<Rightarrow> u16 \<Rightarrow> bool" where
  "nonzero_violates a b \<longleftrightarrow> a \<noteq> 0 \<and> b \<noteq> 0 \<and> a > b"

definition dpms_set_timeouts :: "u8 list \<Rightarrow> ServerState \<Rightarrow> (u8 \<times> u32) + ServerState" where
  "dpms_set_timeouts body st =
     (case parse_set_timeouts_request body of
        None \<Rightarrow> Inl (TIMER_BAD_LENGTH, 0)
      | Some (standby, suspend, off) \<Rightarrow>
          if nonzero_violates suspend off then Inl (TIMER_BAD_VALUE, ucast off)
          else if nonzero_violates standby suspend then Inl (TIMER_BAD_VALUE, ucast suspend)
          else Inr (st\<lparr>st_dpms := (st_dpms st)\<lparr>dpms_standby_ms := ucast standby * 1000,
            dpms_suspend_ms := ucast suspend * 1000, dpms_off_ms := ucast off * 1000\<rparr>\<rparr>))"

definition dpms_enable :: "ServerState \<Rightarrow> ServerState" where
  "dpms_enable st =
     (if \<not> dpms_enabled (st_dpms st)
      then emit_dpms_notify (st\<lparr>st_dpms := (st_dpms st)\<lparr>dpms_enabled := True\<rparr>\<rparr>) else st)"

definition dpms_disable :: "nat \<Rightarrow> ServerState \<Rightarrow> ServerState" where
  "dpms_disable now st =
     (let was_enabled = dpms_enabled (st_dpms st); st = apply_dpms_transition now 0 st
      in if was_enabled
         then emit_dpms_notify (st\<lparr>st_dpms := (st_dpms st)\<lparr>dpms_enabled := False\<rparr>\<rparr>) else st)"

definition dpms_force_level :: "nat \<Rightarrow> u8 list \<Rightarrow> ServerState \<Rightarrow> (u8 \<times> u32) + ServerState" where
  "dpms_force_level now body st =
     (if \<not> dpms_enabled (st_dpms st) then Inl (BAD_MATCH, 0)
      else
        (case parse_force_level_request body of
           None \<Rightarrow> Inl (TIMER_BAD_LENGTH, 0)
         | Some level \<Rightarrow>
             if level > 3 then Inl (TIMER_BAD_VALUE, ucast level)
             else Inr (apply_dpms_transition now (ucast level) st)))"

definition dpms_select_input :: "ClientId \<Rightarrow> u8 list \<Rightarrow> ServerState \<Rightarrow> (u8 \<times> u32) + ServerState" where
  "dpms_select_input client_id body st =
     (case dpms_parse_select_input body of
        None \<Rightarrow> Inl (TIMER_BAD_LENGTH, 0)
      | Some m \<Rightarrow>
          if m AND NOT 1 \<noteq> 0 then Inl (TIMER_BAD_VALUE, m)
          else Inr (st\<lparr>st_dpms := (st_dpms st)\<lparr>dpms_selected_by :=
            (if m AND 1 \<noteq> 0
             then List.insert client_id (dpms_selected_by (st_dpms st))
             else filter (\<lambda>c. c \<noteq> client_id) (dpms_selected_by (st_dpms st)))\<rparr>\<rparr>))"

definition dpms_update :: "nat \<Rightarrow> ClientId \<Rightarrow> u8 \<Rightarrow> u8 list \<Rightarrow> ServerState \<Rightarrow> (u8 \<times> u32) + ServerState" where
  "dpms_update now client_id minor body st =
     (if minor = 3 then dpms_set_timeouts body st
      else if minor = 4 then Inr (dpms_enable st)
      else if minor = 5 then Inr (dpms_disable now st)
      else if minor = 6 then dpms_force_level now body st
      else if minor = 8 then dpms_select_input client_id body st
      else Inl (BAD_REQUEST, 0))"

definition dpms_query :: "u16 \<Rightarrow> u8 \<Rightarrow> ServerState \<Rightarrow> (ClientByteOrder \<Rightarrow> u8 list) option" where
  "dpms_query sequence minor st =
     (let d = st_dpms st
      in if minor = 0 then Some (\<lambda>order. dpms_encode_get_version_reply order sequence)
         else if minor = 1 then Some (\<lambda>order. encode_capable_reply order sequence (dpms_kms_capable d))
         else if minor = 2 then
           Some (\<lambda>order. encode_get_timeouts_reply order sequence (ucast (dpms_standby_ms d div 1000))
             (ucast (dpms_suspend_ms d div 1000)) (ucast (dpms_off_ms d div 1000)))
         else if minor = 7 then
           Some (\<lambda>order. encode_info_reply order sequence (ucast (dpms_power_level d)) (dpms_enabled d))
         else None)"

definition handle_dpms_request ::
  "nat \<Rightarrow> ClientId \<Rightarrow> u16 \<Rightarrow> u8 \<Rightarrow> u8 list \<Rightarrow> ServerState \<Rightarrow> ServerState \<times> RequestOutcome" where
  "handle_dpms_request now client_id sequence minor body st =
     (case dpms_query sequence minor st of
        Some reply \<Rightarrow> send_reply client_id reply st
      | None \<Rightarrow>
          (case dpms_update now client_id minor body st of
             Inl err \<Rightarrow> dpms_error client_id sequence minor err st
           | Inr st \<Rightarrow> (st, Handled)))"

definition saver_query_info :: "nat \<Rightarrow> ClientId \<Rightarrow> u16 \<Rightarrow> ServerState \<Rightarrow> ClientByteOrder \<Rightarrow> u8 list" where
  "saver_query_info now client_id sequence st order =
     (let s = st_screensaver st; timeout = ss_timeout_ms s;
          last_input = word_of_nat (now - dpms_last_activity (st_dpms st)) :: u32;
          (reply_state, til_or_since) =
            (if ss_active s = SaverOn then (1, if timeout > 0 then last_input - timeout else 0)
             else if timeout = 0 then (3, 0)
             else if timeout < last_input then (0, 0)
             else (0, timeout - last_input))
      in encode_query_info_reply order sequence reply_state 0 til_or_since last_input
           (unwrap_or (hm_get (ss_selected_by s) client_id) 0) (saver_kind st))"

definition saver_select_input :: "ClientId \<Rightarrow> u32 \<Rightarrow> ServerState \<Rightarrow> ServerState" where
  "saver_select_input client_id m st = st\<lparr>st_screensaver := (st_screensaver st)\<lparr>ss_selected_by :=
     (if m = 0 then hm_remove client_id (ss_selected_by (st_screensaver st))
      else hm_insert client_id m (ss_selected_by (st_screensaver st)))\<rparr>\<rparr>"

definition saver_suspend :: "nat \<Rightarrow> ClientId \<Rightarrow> bool \<Rightarrow> ServerState \<Rightarrow> ServerState" where
  "saver_suspend now client_id suspend st =
     (let s = st_screensaver st; counts = ss_suspend_counts s
      in if suspend
         then st\<lparr>st_screensaver := s\<lparr>ss_suspend_counts :=
                hm_insert client_id (unwrap_or (hm_get counts client_id) 0 + 1) counts\<rparr>\<rparr>
         else
           (case hm_get counts client_id of
              None \<Rightarrow> st
            | Some c \<Rightarrow>
                if c > 1
                then st\<lparr>st_screensaver := s\<lparr>ss_suspend_counts := hm_insert client_id (c - 1) counts\<rparr>\<rparr>
                else
                  let counts = hm_remove client_id counts;
                      st = st\<lparr>st_screensaver := s\<lparr>ss_suspend_counts := counts\<rparr>\<rparr>
                  in if counts = [] \<and> ss_active s = SaverOff \<and> dpms_power_level (st_dpms st) = 0
                     then reset_idletime_state_after_suspend_release now
                            (st\<lparr>st_dpms := (st_dpms st)\<lparr>dpms_last_activity := now\<rparr>\<rparr>)
                     else st))"

definition handle_screen_saver_request ::
  "nat \<Rightarrow> ClientId \<Rightarrow> u16 \<Rightarrow> u8 \<Rightarrow> u8 list \<Rightarrow> ServerState \<Rightarrow> ServerState \<times> RequestOutcome" where
  "handle_screen_saver_request now client_id sequence minor body st =
     (let error = (\<lambda>code. emit_x11_error_with_minor client_id sequence code 0 (ucast minor)
            MIT_SCREEN_SAVER_MAJOR_OPCODE st)
      in if minor = 0 then send_reply client_id (\<lambda>order. ss_encode_query_version_reply order sequence) st
         else if minor = 1 then
           (if ss_parse_query_info body = None then error TIMER_BAD_LENGTH
            else send_reply client_id (saver_query_info now client_id sequence st) st)
         else if minor = 2 then
           (case ss_parse_select_input body of
              None \<Rightarrow> error TIMER_BAD_LENGTH
            | Some (_, m) \<Rightarrow> (saver_select_input client_id m st, Handled))
         else if minor = 3 then error TIMER_BAD_ACCESS
         else if minor = 4 then
           (if ss_parse_query_info body = None then error TIMER_BAD_LENGTH else (st, Handled))
         else if minor = 5 then
           (case ss_parse_suspend body of
              None \<Rightarrow> error TIMER_BAD_LENGTH
            | Some suspend \<Rightarrow> (saver_suspend now client_id suspend st, Handled))
         else error BAD_REQUEST)"

definition handle_get_screen_saver :: "ClientId \<Rightarrow> u16 \<Rightarrow> ServerState \<Rightarrow> ServerState \<times> RequestOutcome" where
  "handle_get_screen_saver client_id sequence st =
     (let s = st_screensaver st
      in send_reply client_id (\<lambda>order. fixed_reply order sequence 0 0 @
           enc16 order (ucast (ss_timeout_ms s div 1000)) @ enc16 order (ucast (ss_interval_ms s div 1000)) @
           [of_bool (ss_prefer_blanking s), of_bool (ss_allow_exposures s)] @ replicate 18 0) st)"

definition saver_seconds :: "u16 \<Rightarrow> u32" where
  "saver_seconds t = (if t = 0xffff then 600000 else ucast t * 1000)"

definition handle_set_screen_saver ::
  "ClientId \<Rightarrow> u16 \<Rightarrow> u8 list \<Rightarrow> ServerState \<Rightarrow> ServerState \<times> RequestOutcome" where
  "handle_set_screen_saver client_id sequence body st =
     (let timeout = u16_le_at body 0; interval = u16_le_at body 2; prefer_blanking = body ! 4;
          allow_exposures = body ! 5;
          error = (\<lambda>code v. emit_x11_error client_id sequence code v 107 st)
      in if length body < 8 then error TIMER_BAD_LENGTH 0
         else if sint timeout < -1 then error TIMER_BAD_VALUE (ucast timeout)
         else if sint interval < -1 then error TIMER_BAD_VALUE (ucast interval)
         else if prefer_blanking > 2 then error TIMER_BAD_VALUE (ucast prefer_blanking)
         else if allow_exposures > 2 then error TIMER_BAD_VALUE (ucast allow_exposures)
         else (st\<lparr>st_screensaver := (st_screensaver st)\<lparr>
                ss_timeout_ms := saver_seconds timeout, ss_interval_ms := saver_seconds interval,
                ss_prefer_blanking := (prefer_blanking \<noteq> 0),
                ss_allow_exposures := (allow_exposures \<noteq> 0)\<rparr>\<rparr>, Handled))"

definition handle_force_screen_saver ::
  "nat \<Rightarrow> ClientId \<Rightarrow> u16 \<Rightarrow> u8 \<Rightarrow> ServerState \<Rightarrow> ServerState \<times> RequestOutcome" where
  "handle_force_screen_saver now client_id sequence mode st =
     (if mode > 1 then emit_x11_error client_id sequence TIMER_BAD_VALUE (ucast mode) 115 st
      else if mode = 0 then
        (let st = apply_screen_saver_transition now SaverOff True st
         in (st\<lparr>st_dpms := (st_dpms st)\<lparr>dpms_last_activity := now\<rparr>\<rparr>, Handled))
      else (apply_screen_saver_transition now SaverOn True st, Handled))"

end
