(* ===== verification/PointerFanout.thy ===== *)
theory PointerFanout
  imports CoreGrabs Timers
begin

text \<open>
  The entry of input events: \<open>pointer_event_fanout_to_state\<close>
  (\<open>crates/xserver-core/src/core_loop/pointer_fanout.rs\<close>) and \<open>key_event_fanout_to_state\<close>
  (\<open>core_loop/key_fanout.rs\<close>), and AllowEvents, which replays what a synchronous grab withheld
  (\<open>handle_allow_events\<close> and \<open>apply_allow_events\<close> of \<open>core_loop/process_request.rs\<close>).

  A step returns the clients whose connection is to be closed next to the state. \<open>None\<close> is the value of
  a replay that does not end, which never happens (\<open>InputClaims\<close>). \<open>warp\<close> is the method
  \<open>warp_pointer_root\<close> of the backend, \<open>xid_map\<close> its map of host windows.
\<close>

type_synonym warp = "ServerState \<Rightarrow> int \<Rightarrow> int \<Rightarrow> ServerState"
type_synonym HostXidMap = "(u32, ResourceId) hashmap"

definition is_button :: "HostPointerEvent \<Rightarrow> bool" where
  "is_button e \<longleftrightarrow> hp_kind e = ButtonPress \<or> hp_kind e = ButtonRelease"

definition is_crossing :: "HostPointerEvent \<Rightarrow> bool" where
  "is_crossing e \<longleftrightarrow> hp_kind e = EnterNotify \<or> hp_kind e = LeaveNotify"

section \<open>Before the delivery\<close>

text \<open>The pointer mapping; an entry of zero disables the button.\<close>

definition map_button :: "ServerState \<Rightarrow> HostPointerEvent \<Rightarrow> HostPointerEvent option" where
  "map_button st e =
     (case st_pointer_mapping_override st of
        None \<Rightarrow> Some e
      | Some m \<Rightarrow>
          if is_button e \<and> hp_detail e \<noteq> 0 \<and> unat (hp_detail e) - 1 < length m
          then
            let mapped = m ! (unat (hp_detail e) - 1)
            in if mapped = 0 then None else Some (e\<lparr>hp_detail := mapped\<rparr>)
          else Some e)"

definition track_buttons :: "HostPointerEvent \<Rightarrow> ServerState \<Rightarrow> ServerState" where
  "track_buttons e st =
     (if is_button e \<and> 1 \<le> hp_detail e \<and> hp_detail e \<le> 16
      then
        let b = push_bit (unat (hp_detail e) - 1) 1
        in st\<lparr>st_buttons_down :=
             (if hp_kind e = ButtonPress then st_buttons_down st OR b else st_buttons_down st AND NOT b)\<rparr>
      else st)"

definition confine_event :: "warp \<Rightarrow> HostPointerEvent \<Rightarrow> ServerState \<Rightarrow> ServerState \<times> HostPointerEvent" where
  "confine_event warp e st =
     (let win = st_pointer_confine_to st
      in if win = 0 then (st, e)
         else
           (case window (st_resources st) win of
              None \<Rightarrow> (st, e)
            | Some w \<Rightarrow>
                if win_map_state w \<noteq> Viewable then (st, e)
                else
                  let px = sint (hp_root_x e); py = sint (hp_root_y e);
                      (cx, cy) = confined_position st win w px py
                  in if cx = px \<and> cy = py then (st, e)
                     else
                       (if st_confine_warp_active st then st
                        else (warp (st\<lparr>st_confine_warp_active := True\<rparr>) cx cy)\<lparr>st_confine_warp_active := False\<rparr>,
                        e\<lparr>hp_root_x := word_of_int cx, hp_root_y := word_of_int cy\<rparr>)))"

definition translate_host_event :: "ServerState \<Rightarrow> HostXidMap \<Rightarrow> HostPointerEvent \<Rightarrow> HostPointerEvent" where
  "translate_host_event st xid_map e =
     (case Option.bind (hm_get xid_map (hp_host_xid e)) (window (st_resources st)) of
        None \<Rightarrow> e
      | Some w \<Rightarrow> e\<lparr>hp_root_x := win_x w + hp_event_x e, hp_root_y := win_y w + hp_event_y e\<rparr>)"

text \<open>The freeze gate: an event of a frozen pointer waits.\<close>

definition pointer_withheld :: "bool \<Rightarrow> bool \<Rightarrow> HostPointerEvent \<Rightarrow> ServerState \<Rightarrow> bool" where
  "pointer_withheld handle_grabs is_replay e st \<longleftrightarrow>
     \<not> is_replay \<and> handle_grabs \<and>
     (device_frozen st DEVICEID_SLAVE_POINTER \<or>
      st_pointer_grab_is_passive st \<and> st_frozen_pointer_event st \<noteq> None) \<and>
     \<not> is_crossing e"

section \<open>The targets\<close>

definition top_level_of_event :: "ServerState \<Rightarrow> HostXidMap \<Rightarrow> HostPointerEvent \<Rightarrow> ResourceId option" where
  "top_level_of_event st xid_map e =
     (case root_pointer_target_at st (hp_root_x e) (hp_root_y e) of
        Some (target, _, _) \<Rightarrow> Some (top_level_for_target st target)
      | None \<Rightarrow> hm_get xid_map (hp_host_xid e))"

definition target_of_event :: "ServerState \<Rightarrow> HostXidMap \<Rightarrow> HostPointerEvent \<Rightarrow> ResourceId \<times> i16 \<times> i16" where
  "target_of_event st xid_map e =
     (case root_pointer_target_at st (hp_root_x e) (hp_root_y e) of
        Some hit \<Rightarrow> hit
      | None \<Rightarrow>
          (case hm_get xid_map (hp_host_xid e) of
             None \<Rightarrow> (ROOT_WINDOW, hp_event_x e, hp_event_y e)
           | Some tlw \<Rightarrow>
               unwrap_or (pointer_target_at st tlw (hp_event_x e) (hp_event_y e))
                 (tlw, hp_event_x e, hp_event_y e)))"

record GrabTarget =
  gt_window :: ResourceId
  gt_client :: ClientId
  gt_x :: int
  gt_y :: int
  gt_owner_events :: bool
  gt_via_xi2 :: bool

text \<open>The passive grab that is active is looked up among the button grabs, the newest first.\<close>

definition active_grab_target :: "ServerState \<Rightarrow> GrabTarget option" where
  "active_grab_target st =
     (case st_pointer_grab st of
        None \<Rightarrow> None
      | Some (client_id, grab_window) \<Rightarrow>
          (case client_target_id st client_id of
             None \<Rightarrow> None
           | Some target \<Rightarrow>
               (let (gx, gy) = window_absolute_position (st_resources st) grab_window;
                    (owner_events, via_xi2) =
                      (if st_pointer_grab_is_passive st
                       then (case List.find (\<lambda>g. bg_owner g = client_id \<and> bg_window g = grab_window)
                                    (rev (st_button_grabs st)) of
                               Some g \<Rightarrow> (bg_owner_events g, bg_via_xi2 g) | None \<Rightarrow> (False, False))
                       else (case st_active_pointer_grab st of
                               Some g \<Rightarrow> if ap_owner g = client_id then (ap_owner_events g, ap_via_xi2 g)
                                         else (False, False)
                             | None \<Rightarrow> (False, False)))
                in Some \<lparr>gt_window = grab_window, gt_client = target, gt_x = gx, gt_y = gy,
                     gt_owner_events = owner_events, gt_via_xi2 = via_xi2\<rparr>)))"

definition qualifies_for_natural :: "ServerState \<Rightarrow> ResourceId \<Rightarrow> GrabTarget \<Rightarrow> bool" where
  "qualifies_for_natural st target g \<longleftrightarrow>
     target = gt_window g \<or> is_descendant_of (st_resources st) target (gt_window g) \<or>
     window_owner (st_resources st) target = Some (gt_client g)"

fun grabbed_natural_loop ::
  "ServerState \<Rightarrow> u32 \<Rightarrow> ClientId \<Rightarrow> nat \<Rightarrow> ResourceId \<Rightarrow> i16 \<Rightarrow> i16 \<Rightarrow> ResourceId option
    \<Rightarrow> (ResourceId \<times> i16 \<times> i16 \<times> ResourceId) option" where
  "grabbed_natural_loop st mask_bits owner 0 current x y child = None"
| "grabbed_natural_loop st mask_bits owner (Suc n) current x y child =
     (let subs = subscribers_by_id st current mask_bits
      in if subs \<noteq> []
         then (if owner \<in> set subs then Some (current, x, y, unwrap_or child 0) else None)
         else
           (case window (st_resources st) current of
              None \<Rightarrow> None
            | Some w \<Rightarrow>
                if win_parent w = current then None
                else grabbed_natural_loop st mask_bits owner n (win_parent w) (x + win_x w) (y + win_y w)
                       (Some current)))"

definition grabbed_natural_target ::
  "ServerState \<Rightarrow> ResourceId \<times> i16 \<times> i16 \<Rightarrow> u32 \<Rightarrow> ClientId \<Rightarrow> (ResourceId \<times> i16 \<times> i16 \<times> ResourceId) option" where
  "grabbed_natural_target st hit mask_bits owner =
     (case hit of (start, x, y) \<Rightarrow> grabbed_natural_loop st mask_bits owner 256 start x y None)"

definition clamp_grab_coord :: "i16 \<Rightarrow> int \<Rightarrow> i16" where
  "clamp_grab_coord root_coord grab_origin =
     word_of_int (clamp (- 32768) 32767 (sint root_coord - grab_origin))"

definition try_match_passive_grab ::
  "ServerState \<Rightarrow> HostXidMap \<Rightarrow> HostPointerEvent \<Rightarrow> PassiveButtonGrab option" where
  "try_match_passive_grab st xid_map e =
     (case (case root_pointer_target_at st (hp_root_x e) (hp_root_y e) of
              Some (hit, _, _) \<Rightarrow> Some hit
            | None \<Rightarrow> map_option (\<lambda>_. fst (target_of_event st xid_map e)) (hm_get xid_map (hp_host_xid e))) of
        None \<Rightarrow> None
      | Some hit \<Rightarrow> find_passive_grab st hit (hp_detail e) (hp_state e))"

definition pointer_mask_bit :: "PointerEventKind \<Rightarrow> u16 \<Rightarrow> u32" where
  "pointer_mask_bit kind state_mask =
     (case kind of
        ButtonPress \<Rightarrow> 0x4
      | ButtonRelease \<Rightarrow> 0x8
      | MotionNotify \<Rightarrow>
          (let held = drop_bit 8 state_mask AND 0x1f
           in if held = 0 then 0x40
              else fold (\<lambda>n bits. if held AND push_bit n 1 \<noteq> 0 then bits OR push_bit n 0x100 else bits)
                     [0..<5] (0x40 OR 0x2000))
      | EnterNotify \<Rightarrow> 0x10
      | LeaveNotify \<Rightarrow> 0x20)"

definition xi2_evtype :: "PointerEventKind \<Rightarrow> u16" where
  "xi2_evtype kind = (case kind of ButtonPress \<Rightarrow> 4 | ButtonRelease \<Rightarrow> 5 | MotionNotify \<Rightarrow> 6
     | EnterNotify \<Rightarrow> 7 | LeaveNotify \<Rightarrow> 8)"

definition xi2_raw_evtype :: "PointerEventKind \<Rightarrow> u16 option" where
  "xi2_raw_evtype kind = (case kind of ButtonPress \<Rightarrow> Some 15 | ButtonRelease \<Rightarrow> Some 16
     | MotionNotify \<Rightarrow> Some 17 | EnterNotify \<Rightarrow> None | LeaveNotify \<Rightarrow> None)"

definition mask_has :: "u32 \<Rightarrow> u16 \<Rightarrow> bool" where
  "mask_has m evtype \<longleftrightarrow> m AND push_bit (unat evtype) 1 \<noteq> 0"

definition xi2_device_targets :: "ServerState \<Rightarrow> ResourceId \<Rightarrow> ResourceId \<Rightarrow> u16 \<Rightarrow> ClientId list" where
  "xi2_device_targets st target top_level evtype =
     map fst (filter (\<lambda>(i, c). mask_has (xi2_mask_for_client c target top_level [4, 2, 1, 0]) evtype)
       (st_clients st))"

definition xi2_raw_targets :: "ServerState \<Rightarrow> ResourceId \<Rightarrow> ResourceId \<Rightarrow> u16 option \<Rightarrow> ClientId list" where
  "xi2_raw_targets st target top_level raw_evtype =
     (case raw_evtype of
        None \<Rightarrow> []
      | Some r \<Rightarrow> map fst (filter (\<lambda>(i, c).
          mask_has (xi2_mask_for_client c target top_level [4, 2, 1, 0]) r \<or>
          mask_has (xi2_mask_for_client c ROOT_WINDOW ROOT_WINDOW [1, 0, 4, 2]) r) (st_clients st)))"

definition encode_pointer_event ::
  "HostPointerEvent \<Rightarrow> PointerEventKind \<Rightarrow> ResourceId \<Rightarrow> ResourceId \<Rightarrow> i16 \<Rightarrow> i16
    \<Rightarrow> u16 \<Rightarrow> ClientByteOrder \<Rightarrow> u8 list" where
  "encode_pointer_event e kind target_window child event_x event_y sequence order =
     (let pointer = \<lparr>pv_sequence = sequence, pv_detail = hp_detail e, pv_time = hp_time e,
            pv_root = ROOT_WINDOW, pv_event = target_window, pv_child = child, pv_root_x = hp_root_x e,
            pv_root_y = hp_root_y e, pv_event_x = event_x, pv_event_y = event_y, pv_state = hp_state e\<rparr>;
          crossing = \<lparr>cw_sequence = sequence, cw_time = hp_time e, cw_root = ROOT_WINDOW,
            cw_event = target_window, cw_child = hp_child e, cw_root_x = hp_root_x e,
            cw_root_y = hp_root_y e, cw_event_x = event_x, cw_event_y = event_y, cw_state = hp_state e,
            cw_detail = hp_detail e, cw_mode = hp_crossing_mode e\<rparr>
      in case kind of
           ButtonPress \<Rightarrow> encode_button_press_event order pointer
         | ButtonRelease \<Rightarrow> encode_button_release_event order pointer
         | MotionNotify \<Rightarrow> encode_motion_notify_event order (pointer\<lparr>pv_detail := 0\<rparr>)
         | EnterNotify \<Rightarrow> encode_enter_notify_event order crossing
         | LeaveNotify \<Rightarrow> encode_leave_notify_event order crossing)"

section \<open>Core delivery\<close>

type_synonym step_result = "ServerState \<times> ClientId list"

text \<open>Delivery that appends to the list of dropped clients.\<close>

definition deliver :: "ClientId list \<Rightarrow> (u16 \<Rightarrow> ClientByteOrder \<Rightarrow> u8 list) \<Rightarrow> step_result \<Rightarrow> step_result" where
  "deliver ids encode r =
     (case fanout_event_to_clients ids encode (fst r) of
        (st, extras) \<Rightarrow> (st, merge_dropped (snd r) extras))"

text \<open>Step 2, the active grab: the new result, and whether the grab took the event.\<close>

definition redirect_to_grab :: "bool \<Rightarrow> HostPointerEvent \<Rightarrow> ResourceId \<Rightarrow> step_result \<Rightarrow> step_result \<times> bool" where
  "redirect_to_grab handle_grabs e target r =
     (case (if handle_grabs then active_grab_target (fst r) else None) of
        None \<Rightarrow> (r, False)
      | Some g \<Rightarrow>
          if \<not> is_crossing e \<and> (\<not> gt_owner_events g \<or> \<not> qualifies_for_natural (fst r) target g)
          then
            (if gt_via_xi2 g then r
             else deliver [gt_client g]
                    (encode_pointer_event e (hp_kind e) (gt_window g) 0
                      (clamp_grab_coord (hp_root_x e) (gt_x g)) (clamp_grab_coord (hp_root_y e) (gt_y g))) r,
             True)
          else (r, False))"

definition release_passive_grab_on_button_release :: "PointerEventKind \<Rightarrow> ServerState \<Rightarrow> ServerState option" where
  "release_passive_grab_on_button_release kind st =
     (if kind = ButtonRelease \<and> st_pointer_grab_is_passive st
      then
        let owner = map_option fst (st_pointer_grab st);
            st = st\<lparr>st_pointer_grab := None, st_pointer_grab_is_passive := False,
                   st_frozen_pointer_event := None, st_pointer_confine_to := 0\<rparr>
        in case owner of
             None \<Rightarrow> Some st
           | Some c \<Rightarrow> xi1_core_grab_bridge_release xi1_compute_freezes DEVICEID_SLAVE_POINTER c st
      else Some st)"

text \<open>The delivery of the activating press; the flag says that somebody got it.\<close>

definition deliver_activating_press ::
  "PassiveButtonGrab \<Rightarrow> HostPointerEvent \<Rightarrow> ResourceId \<times> i16 \<times> i16 \<Rightarrow> step_result \<Rightarrow> step_result \<times> bool" where
  "deliver_activating_press g e hit r =
     (let bits = pointer_mask_bit (hp_kind e) (hp_state e)
      in case (if bg_owner_events g then grabbed_natural_target (fst r) hit bits (bg_owner g) else None) of
           Some (w, x, y, child) \<Rightarrow>
             (deliver [bg_owner g] (encode_pointer_event e ButtonPress w child x y) r, True)
         | None \<Rightarrow>
             (case (if bg_event_mask g AND bits \<noteq> 0 then client_target_id (fst r) (bg_owner g) else None) of
                Some c \<Rightarrow>
                  (deliver [c] (encode_pointer_event e ButtonPress (bg_window g) 0 (hp_event_x e) (hp_event_y e)) r,
                   True)
              | None \<Rightarrow> (r, False)))"

text \<open>Step 3, a passive grab that a press activates.\<close>

definition activate_button_grab ::
  "warp \<Rightarrow> PassiveButtonGrab \<Rightarrow> HostPointerEvent \<Rightarrow> ResourceId \<times> i16 \<times> i16 \<Rightarrow> step_result \<Rightarrow> step_result option" where
  "activate_button_grab warp g e hit r =
     (let st = (fst r)\<lparr>st_pointer_grab := Some (bg_owner g, bg_window g), st_pointer_grab_is_passive := True\<rparr>;
          ((st, dropped), delivered) = deliver_activating_press g e hit (st, snd r);
          st = (if delivered \<and> bg_pointer_mode g = 0 then st\<lparr>st_frozen_pointer_event := Some e\<rparr> else st)
      in do {
           st \<leftarrow> xi1_check_grab_for_syncs xi1_compute_freezes DEVICEID_SLAVE_POINTER (bg_owner g)
                  (bg_pointer_mode g = 0) (bg_keyboard_mode g = 0) st;
           (let st = st\<lparr>st_pointer_confine_to := bg_confine_to g\<rparr>
            in Some (if bg_confine_to g \<noteq> 0 then confine_pointer_now warp st else st, dropped))
         })"

text \<open>Step 4, the propagation; a client that gets the XI2 form does not get the core form.\<close>

definition propagate ::
  "bool \<Rightarrow> HostPointerEvent \<Rightarrow> ResourceId \<times> i16 \<times> i16 \<Rightarrow> ResourceId \<Rightarrow> step_result \<Rightarrow> step_result" where
  "propagate is_replay e hit top_level r =
     (case hit of
        (target, tx, ty) \<Rightarrow>
          (let st = fst r;
               (w, x, y, core_targets, child) =
                 unwrap_or (pointer_propagation_target_by_id st target tx ty
                   (pointer_mask_bit (hp_kind e) (hp_state e))) (target, tx, ty, [], 0);
               core_targets =
                 (if is_replay then core_targets
                  else filter (\<lambda>c. c \<notin> set (xi2_device_targets st target top_level (xi2_evtype (hp_kind e))))
                         core_targets)
           in deliver core_targets (encode_pointer_event e (hp_kind e) w child x y) r))"

definition core_fanout ::
  "warp \<Rightarrow> HostXidMap \<Rightarrow> bool \<Rightarrow> bool \<Rightarrow> HostPointerEvent \<Rightarrow> ResourceId \<times> i16 \<times> i16 \<Rightarrow> ResourceId option
    \<Rightarrow> step_result \<Rightarrow> step_result option" where
  "core_fanout warp xid_map handle_grabs is_replay e hit top_level r =
     (case redirect_to_grab handle_grabs e (fst hit) r of
        (r, redirected) \<Rightarrow> do {
          st \<leftarrow> release_passive_grab_on_button_release (hp_kind e) (fst r);
          (let r = (st, snd r);
               grab = (if \<not> redirected \<and> st_pointer_grab st = None \<and> handle_grabs \<and> hp_kind e = ButtonPress
                       then try_match_passive_grab st xid_map e else None)
           in case grab of
                Some g \<Rightarrow> activate_button_grab warp g e hit r
              | None \<Rightarrow>
                  Some (if \<not> redirected \<and> (top_level \<noteq> None \<or> is_crossing e)
                        then propagate is_replay e hit (unwrap_or top_level ROOT_WINDOW) r else r))
        })"

section \<open>Delivery to the extensions\<close>

definition xi1_offset :: "PointerEventKind \<Rightarrow> u8 option" where
  "xi1_offset kind = (case kind of
     ButtonPress \<Rightarrow> Some XI_DEVICE_BUTTON_PRESS_OFFSET
   | ButtonRelease \<Rightarrow> Some XI_DEVICE_BUTTON_RELEASE_OFFSET
   | MotionNotify \<Rightarrow> Some XI_DEVICE_MOTION_NOTIFY_OFFSET
   | EnterNotify \<Rightarrow> None
   | LeaveNotify \<Rightarrow> None)"

definition xi1_pointer_event :: "HostPointerEvent \<Rightarrow> ResourceId \<times> i16 \<times> i16 \<Rightarrow> u8 \<Rightarrow> Xi1QueuedEvent" where
  "xi1_pointer_event e hit offset =
     (case hit of (target, tx, ty) \<Rightarrow>
        \<lparr>xq_device = DEVICEID_SLAVE_POINTER, xq_evcode = XI_FIRST_EVENT + offset,
         xq_detail = (if hp_kind e = MotionNotify then 0 else hp_detail e), xq_time = hp_time e,
         xq_root_x = hp_root_x e, xq_root_y = hp_root_y e, xq_event_x = tx, xq_event_y = ty,
         xq_state_mask = hp_state e, xq_natural_target = target, xq_focus_route = Walk, xq_axes = None,
         xq_replay_floor = None\<rparr>)"

definition xi1_fanout :: "HostPointerEvent \<Rightarrow> ResourceId \<times> i16 \<times> i16 \<Rightarrow> step_result \<Rightarrow> step_result option" where
  "xi1_fanout e hit r =
     (case xi1_offset (hp_kind e) of
        None \<Rightarrow> Some r
      | Some offset \<Rightarrow> do {
          (st, extras) \<leftarrow> xi1_route_device_event xi1_compute_freezes (xi1_pointer_event e hit offset) True (fst r);
          Some (st, merge_dropped (snd r) extras)
        })"

text \<open>Where the XI2 form goes: the clients, the event window and the position in it.\<close>

definition xi2_destination ::
  "bool \<Rightarrow> HostPointerEvent \<Rightarrow> ResourceId \<times> i16 \<times> i16 \<Rightarrow> ResourceId \<Rightarrow> ServerState
    \<Rightarrow> ClientId list \<times> ResourceId \<times> i16 \<times> i16" where
  "xi2_destination handle_grabs e hit top_level st =
     (case hit of
        (target, tx, ty) \<Rightarrow>
          (let targets = xi2_device_targets st target top_level (xi2_evtype (hp_kind e));
               targets =
                 (if handle_grabs \<and> hp_kind e = ButtonPress \<and> st_pointer_grab_is_passive st \<and>
                     st_frozen_pointer_event st \<noteq> None
                  then (case st_pointer_grab st of
                          Some (owner, _) \<Rightarrow> filter (\<lambda>c. c = owner) targets | None \<Rightarrow> targets)
                  else targets)
           in case (if handle_grabs \<and> \<not> is_crossing e then active_grab_target st else None) of
                None \<Rightarrow> (targets, target, tx, ty)
              | Some g \<Rightarrow>
                  if \<not> gt_owner_events g \<or> \<not> qualifies_for_natural st target g
                  then
                    (if gt_via_xi2 g
                     then ([gt_client g], gt_window g, clamp_grab_coord (hp_root_x e) (gt_x g),
                           clamp_grab_coord (hp_root_y e) (gt_y g))
                     else ([], target, tx, ty))
                  else (targets, target, tx, ty)))"

text \<open>A wheel button moves a scroll axis, whose value is cumulative.\<close>

definition scroll_axis :: "HostPointerEvent \<Rightarrow> (nat \<times> i32) option" where
  "scroll_axis e =
     (if hp_kind e = ButtonPress \<and> 4 \<le> hp_detail e \<and> hp_detail e \<le> 7
      then Some (if hp_detail e < 6 then 0 else 1, if even (unat (hp_detail e)) then - 1 else 1)
      else None)"

definition advance_scroll_axis :: "HostPointerEvent \<Rightarrow> ServerState \<Rightarrow> ServerState \<times> (u8 \<times> i32) option" where
  "advance_scroll_axis e st =
     (case scroll_axis e of
        None \<Rightarrow> (st, None)
      | Some (i, delta) \<Rightarrow>
          (let v = st_scroll_axis_value st ! i + delta
           in (st\<lparr>st_scroll_axis_value := (st_scroll_axis_value st)[i := v]\<rparr>,
               Some (if i = 0 then 2 else 3, v))))"

definition encode_xi2_pointer ::
  "HostPointerEvent \<Rightarrow> ResourceId \<Rightarrow> i16 \<Rightarrow> i16 \<Rightarrow> (u8 \<times> i32) option \<Rightarrow> u16 \<Rightarrow> ClientByteOrder \<Rightarrow> u8 list" where
  "encode_xi2_pointer e w x y scroll sequence order =
     (let evtype = xi2_evtype (hp_kind e)
      in if is_crossing e
         then encode_xi2_crossing_event order sequence XI2_MAJOR_OPCODE evtype 2 (hp_time e) ROOT_WINDOW w
                (hp_root_x e) (hp_root_y e) x y (hp_state e) 0 0 4
         else
           (case scroll of
              Some (axis, v) \<Rightarrow> encode_xi2_motion_with_scroll order sequence XI2_MAJOR_OPCODE 2 (hp_time e)
                ROOT_WINDOW w (hp_root_x e) (hp_root_y e) x y (hp_state e) 4 axis v
            | None \<Rightarrow> []) @
           encode_xi2_device_event order sequence XI2_MAJOR_OPCODE evtype 2 (hp_time e) ROOT_WINDOW w 0
             (hp_root_x e) (hp_root_y e) x y (hp_state e) (ucast (hp_detail e)) 4
             (if is_button e \<and> 4 \<le> hp_detail e \<and> hp_detail e \<le> 7 then XI_POINTER_EMULATED else 0))"

definition xi2_fanout ::
  "bool \<Rightarrow> HostPointerEvent \<Rightarrow> ResourceId \<times> i16 \<times> i16 \<Rightarrow> ResourceId \<Rightarrow> step_result \<Rightarrow> step_result" where
  "xi2_fanout handle_grabs e hit top_level r =
     (case xi2_destination handle_grabs e hit top_level (fst r) of
        (targets, w, x, y) \<Rightarrow>
          (let r = (case xi2_raw_evtype (hp_kind e) of
                 None \<Rightarrow> r
               | Some raw \<Rightarrow> deliver (xi2_raw_targets (fst r) (fst hit) top_level (Some raw))
                   (\<lambda>sequence order. encode_xi2_raw_event order sequence XI2_MAJOR_OPCODE raw 2 (hp_time e)
                      (ucast (hp_detail e)) 4 (scast (hp_root_x e)) (scast (hp_root_y e))) r);
               (st, scroll) = advance_scroll_axis e (fst r)
           in deliver targets (encode_xi2_pointer e w x y scroll) (st, snd r)))"

section \<open>The entry points\<close>

definition fanout_translated ::
  "warp \<Rightarrow> HostXidMap \<Rightarrow> bool \<Rightarrow> bool \<Rightarrow> HostPointerEvent \<Rightarrow> ServerState \<Rightarrow> step_result option" where
  "fanout_translated warp xid_map handle_grabs is_replay e st =
     (let hit = target_of_event st xid_map e; top_level = top_level_of_event st xid_map e
      in do {
           r \<leftarrow> core_fanout warp xid_map handle_grabs is_replay e hit top_level (st, []);
           (if is_replay then Some r
            else do {
              r \<leftarrow> xi1_fanout e hit r;
              Some (case top_level of None \<Rightarrow> r | Some tlw \<Rightarrow> xi2_fanout handle_grabs e hit tlw r)
            })
         })"

definition pointer_event_fanout_to_state ::
  "warp \<Rightarrow> nat \<Rightarrow> HostXidMap \<Rightarrow> bool \<Rightarrow> bool \<Rightarrow> HostPointerEvent \<Rightarrow> ServerState \<Rightarrow> step_result option" where
  "pointer_event_fanout_to_state warp now xid_map handle_grabs is_replay event st =
     (case map_button st event of
        None \<Rightarrow> Some (st, [])
      | Some e \<Rightarrow>
          (let st = track_buttons e st;
               (st, e) = (if is_replay then (st, e) else confine_event warp e st);
               st = input_wake now 2 st;
               e = translate_host_event st xid_map e;
               st = st\<lparr>st_pointer_root := (hp_root_x e, hp_root_y e)\<rparr>
           in if pointer_withheld handle_grabs is_replay e st
              then Some (st\<lparr>st_frozen_pointer_queue := st_frozen_pointer_queue st @ [e]\<rparr>, [])
              else fanout_translated warp xid_map handle_grabs is_replay e st))"

definition key_event_fanout_to_state :: "nat \<Rightarrow> HostKeyEvent \<Rightarrow> ServerState \<Rightarrow> step_result option" where
  "key_event_fanout_to_state now event st =
     (let st = input_wake now 3
            (st\<lparr>st_keys_down := set_bit_in (hk_pressed event) (hk_keycode event) (st_keys_down st)\<rparr>)
      in if device_frozen st DEVICEID_SLAVE_KEYBOARD
         then Some (entry_freeze DEVICEID_SLAVE_KEYBOARD
                (\<lambda>f. f\<lparr>fz_core_keys := fz_core_keys f @ [event]\<rparr>) st, [])
         else deliver_routed_key xi1_compute_freezes event st)"

section \<open>AllowEvents\<close>

definition xi2_allow_mode_to_core :: "u8 \<Rightarrow> u16 \<Rightarrow> u8 option" where
  "xi2_allow_mode_to_core xi2_mode deviceid =
     (let kbd = (if deviceid = 3 then 3 else 0)
      in if xi2_mode \<le> 2 then Some (xi2_mode + kbd)
         else if xi2_mode = 3 then Some (3 - kbd)
         else if xi2_mode = 4 then Some 6
         else if xi2_mode = 5 then Some 7
         else None)"

definition grab_owner_of :: "ServerState \<Rightarrow> u16 \<Rightarrow> ClientId option" where
  "grab_owner_of st dev =
     orelse (xi1_device_grab_owner st dev)
       (if dev = DEVICEID_SLAVE_POINTER then map_option fst (st_pointer_grab st) else None)"

definition allow_device :: "u8 \<Rightarrow> u16" where
  "allow_device mode = (if mode \<le> 2 then DEVICEID_SLAVE_POINTER else DEVICEID_SLAVE_KEYBOARD)"

definition allow_grab_time :: "ServerState \<Rightarrow> u8 \<Rightarrow> u32" where
  "allow_grab_time st mode = (if mode \<le> 2 then st_last_pointer_grab_time st else st_last_keyboard_grab_time st)"

text \<open>The early returns: the device has to be frozen by a grab of this client, or on its behalf.\<close>

definition allow_gate :: "ClientId \<Rightarrow> u8 \<Rightarrow> u32 \<Rightarrow> ServerState \<Rightarrow> bool" where
  "allow_gate client_id mode time st \<longleftrightarrow>
     (let dev = allow_device mode;
          core_frozen = (if mode \<le> 2 then st_frozen_pointer_event st \<noteq> None
                         else st_frozen_keyboard_event st \<noteq> None)
      in \<not> time_outside st (allow_grab_time st mode) time \<and>
         (grab_owner_of st dev = Some client_id \<and> (sync_state st dev \<ge> FrozenNoEvent \<or> core_frozen) \<or>
          sync_other st dev = Some client_id))"

definition allow_set_state :: "ClientId \<Rightarrow> Xi1SyncState \<Rightarrow> u16 \<Rightarrow> ServerState \<Rightarrow> ServerState" where
  "allow_set_state client_id s dev st = entry_freeze dev (\<lambda>f. release_hold client_id (f\<lparr>fz_state := s\<rparr>)) st"

definition allow_both :: "ClientId \<Rightarrow> Xi1SyncState \<Rightarrow> u16 \<Rightarrow> ServerState \<Rightarrow> ServerState" where
  "allow_both client_id s dev st =
     (if grab_owner_of st dev = Some client_id \<or> sync_other st dev = Some client_id
      then allow_set_state client_id s dev st else st)"

definition pointer_held_by :: "ClientId \<Rightarrow> ServerState \<Rightarrow> bool" where
  "pointer_held_by client_id st \<longleftrightarrow>
     grab_owner_of st DEVICEID_SLAVE_POINTER = Some client_id \<and>
     sync_state st DEVICEID_SLAVE_POINTER \<ge> FrozenNoEvent"

definition allow_transition :: "ClientId \<Rightarrow> u8 \<Rightarrow> ServerState \<Rightarrow> ServerState" where
  "allow_transition client_id mode st =
     (let ptr = DEVICEID_SLAVE_POINTER; kbd = DEVICEID_SLAVE_KEYBOARD
      in if mode = 0 \<or> mode = 2 then allow_set_state client_id Thawed ptr st
         else if mode = 1 then allow_set_state client_id FreezeNextEvent ptr st
         else if mode = 3 \<or> mode = 5 then allow_set_state client_id Thawed kbd st
         else if mode = 4 then allow_set_state client_id FreezeNextEvent kbd st
         else if pointer_held_by client_id st
         then (let s = (if mode = 6 then Thawed else FreezeBothNextEvent)
               in allow_both client_id s kbd (allow_both client_id s ptr st))
         else st)"

definition allow_release_pointer ::
  "ClientId \<Rightarrow> u8 \<Rightarrow> HostPointerEvent option \<Rightarrow> HostPointerEvent list \<Rightarrow> ServerState \<Rightarrow> ServerState option" where
  "allow_release_pointer client_id mode frozen_event queue st =
     (if mode \<noteq> 2 then Some st
      else if st_pointer_grab_is_passive st
      then Some (st\<lparr>st_pointer_grab := None, st_pointer_grab_is_passive := False, st_pointer_confine_to := 0\<rparr>)
      else if (frozen_event \<noteq> None \<or> queue \<noteq> []) \<and>
              map_or False (\<lambda>g. ap_owner g = client_id) (st_active_pointer_grab st)
      then deactivate_core_pointer_grab client_id st
      else Some st)"

definition allow_release_keyboard ::
  "ClientId \<Rightarrow> u8 \<Rightarrow> HostKeyEvent option \<Rightarrow> ServerState \<Rightarrow> ServerState option" where
  "allow_release_keyboard client_id mode frozen_event st =
     (case st_active_keyboard_grab st of
        None \<Rightarrow> Some st
      | Some g \<Rightarrow>
          if mode \<noteq> 5 \<or> ak_owner g \<noteq> client_id then Some st
          else if ak_source g \<noteq> Explicit then Some (st\<lparr>st_active_keyboard_grab := None\<rparr>)
          else if frozen_event \<noteq> None \<or>
                  map_or False (\<lambda>f. fz_core_keys f \<noteq> [] \<or> fz_queue f \<noteq> [])
                    (hm_get (st_xi1_frozen st) DEVICEID_SLAVE_KEYBOARD)
          then deactivate_core_keyboard_grab client_id st
          else Some st)"

text \<open>The withheld events go through the whole fanout, past the grabs and the freeze gate.\<close>

fun play_queue :: "warp \<Rightarrow> nat \<Rightarrow> HostXidMap \<Rightarrow> HostPointerEvent list \<Rightarrow> ServerState \<Rightarrow> ServerState option" where
  "play_queue warp now xid_map [] st = Some st"
| "play_queue warp now xid_map (e # es) st = do {
     (st, _) \<leftarrow> pointer_event_fanout_to_state warp now xid_map False False e st;
     play_queue warp now xid_map es st
   }"

definition apply_allow_events ::
  "warp \<Rightarrow> nat \<Rightarrow> HostXidMap \<Rightarrow> ClientId \<Rightarrow> u8 \<Rightarrow> u32 \<Rightarrow> ServerState \<Rightarrow> ServerState option" where
  "apply_allow_events warp now xid_map client_id mode time st =
     (if \<not> allow_gate client_id mode time st then Some st
      else
        let st = allow_transition client_id mode st;
            pointer_side = (mode \<le> 2 \<or> mode = 6 \<or> mode = 7);
            frozen_pointer = (if pointer_side then st_frozen_pointer_event st else None);
            queue = (if pointer_side then st_frozen_pointer_queue st else []);
            st = (if pointer_side
                  then st\<lparr>st_frozen_pointer_event := None, st_frozen_pointer_queue := []\<rparr> else st)
        in do {
             st \<leftarrow> allow_release_pointer client_id mode frozen_pointer queue st;
             (let frozen_key = (if mode \<ge> 3 then st_frozen_keyboard_event st else None);
                  st = (if mode \<ge> 3 then st\<lparr>st_frozen_keyboard_event := None\<rparr> else st)
              in do {
                   st \<leftarrow> allow_release_keyboard client_id mode frozen_key st;
                   st \<leftarrow> (if mode \<noteq> 2 then play_queue warp now xid_map queue st
                         else (case frozen_pointer of
                                 Some e \<Rightarrow> play_queue warp now xid_map (e # queue) st
                               | None \<Rightarrow> Some st));
                   st \<leftarrow> (case (if mode = 5 then frozen_key else None) of
                           Some e \<Rightarrow> map_option fst (replay_frozen_key_to_focus e st)
                         | None \<Rightarrow> Some st);
                   xi1_compute_freezes st
                 })
           })"

definition handle_allow_events ::
  "warp \<Rightarrow> nat \<Rightarrow> HostXidMap \<Rightarrow> ClientId \<Rightarrow> u16 \<Rightarrow> u8 \<Rightarrow> u8 list \<Rightarrow> ServerState
    \<Rightarrow> (ServerState \<times> RequestOutcome) option" where
  "handle_allow_events warp now xid_map client_id sequence mode body st =
     (if mode > 7 then Some (emit_x11_error client_id sequence BAD_VALUE (ucast mode) 35 st)
      else map_option (\<lambda>st. (st, Handled))
             (apply_allow_events warp now xid_map client_id mode (optional_time body) st))"

end
