(* ===== verification/InputSteps.thy ===== *)
theory InputSteps
  imports PointerFanout RequestLengths
begin

text \<open>
  The sequences of input and requests that a session consists of, as far as they concern input: the host
  events enter through the two fanouts, the requests through the dispatch of
  \<open>process_request\<close> (\<open>crates/xserver-core/src/core_loop/process_request.rs\<close>), of which the arms of the
  grab requests are modelled here, those of the core protocol and those of XInput 1 behind the length
  gate of \<open>handle_xi2_request\<close>. Unmapping a window ends with the release of grabs on unviewable windows.
\<close>

definition handled :: "ServerState option \<Rightarrow> (ServerState \<times> RequestOutcome) option" where
  "handled r = map_option (\<lambda>st. (st, Handled)) r"

definition core_grab_request ::
  "warp \<Rightarrow> nat \<Rightarrow> HostXidMap \<Rightarrow> ClientId \<Rightarrow> u16 \<Rightarrow> RequestHeader \<Rightarrow> u8 list \<Rightarrow> ServerState
    \<Rightarrow> (ServerState \<times> RequestOutcome) option" where
  "core_grab_request warp now xid_map client_id sequence header body st =
     (let opcode = rh_opcode header; data = rh_data header
      in if opcode = 26 then handle_grab_pointer warp client_id sequence data body st
         else if opcode = 27 then handled (handle_ungrab_pointer client_id body st)
         else if opcode = 28 then Some (handle_grab_button client_id sequence data body st)
         else if opcode = 29 then Some (handle_ungrab_button client_id sequence data body st)
         else if opcode = 30 then Some (handle_change_active_pointer_grab client_id sequence body st)
         else if opcode = 31 then handle_grab_keyboard client_id sequence data body st
         else if opcode = 32 then handled (handle_ungrab_keyboard client_id body st)
         else if opcode = 33 then Some (handle_grab_key client_id sequence data body st)
         else if opcode = 34 then Some (handle_ungrab_key client_id sequence data body st)
         else if opcode = 35 then handle_allow_events warp now xid_map client_id sequence data body st
         else Some (st, Handled))"

definition xi1_grab_request ::
  "ClientId \<Rightarrow> u16 \<Rightarrow> RequestHeader \<Rightarrow> u8 list \<Rightarrow> ServerState \<Rightarrow> (ServerState \<times> RequestOutcome) option" where
  "xi1_grab_request client_id sequence header body st =
     (let minor = rh_data header
      in if \<not> validate_xi_request_length minor (rh_length_units header) \<or>
            \<not> validate_xi_exact_request_length minor (rh_length_units header) body
         then Some (emit_x11_error_with_minor client_id sequence 16 0 (ucast minor) (rh_opcode header) st)
         else if minor = 13 then xi1_grab_device client_id sequence body st
         else if minor = 14 then xi1_ungrab_device client_id sequence body st
         else if minor = 15 then Some (xi1_grab_device_key client_id sequence body st)
         else if minor = 16 then Some (xi1_ungrab_device_detail True client_id sequence body st)
         else if minor = 17 then Some (xi1_grab_device_button client_id sequence body st)
         else if minor = 18 then Some (xi1_ungrab_device_detail False client_id sequence body st)
         else if minor = 19 then xi1_allow_device_events client_id sequence body st
         else if minor = 21 then Some (xi1_set_device_focus client_id sequence body st)
         else Some (st, Handled))"

text \<open>One step of a session. \<open>Viewability\<close> is the part of an unmap that ends grabs.\<close>

datatype InputStep =
    HostPointer nat HostXidMap HostPointerEvent
  | HostKey nat HostKeyEvent
  | CoreGrab nat HostXidMap ClientId u16 RequestHeader "u8 list"
  | DeviceGrab ClientId u16 RequestHeader "u8 list"
  | Poll nat
  | Viewability

primrec input_step :: "warp \<Rightarrow> InputStep \<Rightarrow> ServerState \<Rightarrow> ServerState option" where
  "input_step warp (HostPointer now xid_map e) st =
     map_option fst (pointer_event_fanout_to_state warp now xid_map True False e st)"
| "input_step warp (HostKey now e) st = map_option fst (key_event_fanout_to_state now e st)"
| "input_step warp (CoreGrab now xid_map client_id sequence header body) st =
     map_option fst (core_grab_request warp now xid_map client_id sequence header body st)"
| "input_step warp (DeviceGrab client_id sequence header body) st =
     map_option fst (xi1_grab_request client_id sequence header body st)"
| "input_step warp (Poll now) st = Some (post_poll now st)"
| "input_step warp Viewability st = release_core_grabs_for_unviewable st"

fun input_steps :: "warp \<Rightarrow> InputStep list \<Rightarrow> ServerState \<Rightarrow> ServerState option" where
  "input_steps warp [] st = Some st"
| "input_steps warp (s # ss) st = Option.bind (input_step warp s st) (input_steps warp ss)"

end
