(* ===== verification/DeviceSyncClaims.thy ===== *)
theory DeviceSyncClaims
  imports DeviceGrabs DeliveryClaims
begin

text \<open>
  The freeze machine always comes to rest: a replay ends, with no event left waiting for a device that
  is not frozen, and every request and every input event keeps it so.
\<close>

section \<open>Queues and their weight\<close>

abbreviation PTR :: u16 where "PTR \<equiv> DEVICEID_SLAVE_POINTER"
abbreviation KBD :: u16 where "KBD \<equiv> DEVICEID_SLAVE_KEYBOARD"

lemma devices_differ [simp]: "PTR \<noteq> KBD" "KBD \<noteq> PTR"
  by (simp_all add: DEVICEID_SLAVE_POINTER_def DEVICEID_SLAVE_KEYBOARD_def)

definition device_queues :: "ServerState \<Rightarrow> u16 \<Rightarrow> HostKeyEvent list \<times> Xi1QueuedEvent list" where
  "device_queues st d = map_or ([], []) (\<lambda>f. (fz_core_keys f, fz_queue f)) (hm_get (st_xi1_frozen st) d)"

definition queues_ok :: "ServerState \<Rightarrow> bool" where
  "queues_ok st \<longleftrightarrow> (\<forall>d. \<forall>q \<in> set (snd (device_queues st d)). xq_device q = d)"

definition settled :: "ServerState \<Rightarrow> u16 \<Rightarrow> bool" where
  "settled st d \<longleftrightarrow> device_frozen st d \<or> device_queues st d = ([], [])"

definition at_rest :: "ServerState \<Rightarrow> bool" where
  "at_rest st \<longleftrightarrow> queues_ok st \<and> settled st PTR \<and> settled st KBD"

lemma device_weight_queues:
  "device_weight st d = 2 * length (fst (device_queues st d)) + length (snd (device_queues st d))"
  by (simp add: device_weight_def device_queues_def queue_weight_def split: option.split)

lemma waiting_weight_queues:
  "(\<And>d. device_queues st' d = device_queues st d) \<Longrightarrow> waiting_weight st' = waiting_weight st"
  by (simp add: waiting_weight_def device_weight_queues)

lemma queues_ok_cong: "(\<And>d. device_queues st' d = device_queues st d) \<Longrightarrow> queues_ok st' = queues_ok st"
  by (simp add: queues_ok_def)

text \<open>A step that leaves the queues alone and lets no frozen device thaw.\<close>

definition quiet :: "ServerState \<Rightarrow> ServerState \<Rightarrow> bool" where
  "quiet st st' \<longleftrightarrow> (\<forall>d. device_queues st' d = device_queues st d \<and> (device_frozen st d \<longrightarrow> device_frozen st' d))"

text \<open>What a routing step may do: leave no event behind, add at most \<open>n\<close> to the weight.\<close>

definition progress :: "nat \<Rightarrow> ServerState \<Rightarrow> ServerState \<Rightarrow> bool" where
  "progress n st st' \<longleftrightarrow> queues_ok st' \<and> waiting_weight st' \<le> waiting_weight st + n \<and>
     (\<forall>d \<in> {PTR, KBD}. settled st d \<longrightarrow> settled st' d)"

lemma quiet_refl [simp]: "quiet st st"
  by (simp add: quiet_def)

lemma quiet_trans [trans]: "quiet a b \<Longrightarrow> quiet b c \<Longrightarrow> quiet a c"
  by (simp add: quiet_def)

lemma quiet_queues_ok: "quiet st st' \<Longrightarrow> queues_ok st \<Longrightarrow> queues_ok st'"
  by (rule queues_ok_cong [THEN iffD2]) (simp_all add: quiet_def)

lemma quiet_weight: "quiet st st' \<Longrightarrow> waiting_weight st' = waiting_weight st"
  by (rule waiting_weight_queues) (simp add: quiet_def)

lemma quiet_settled: "quiet st st' \<Longrightarrow> settled st d \<Longrightarrow> settled st' d"
  unfolding quiet_def settled_def by metis

lemma quiet_progress: "quiet st st' \<Longrightarrow> queues_ok st \<Longrightarrow> progress 0 st st'"
  by (simp add: progress_def quiet_queues_ok quiet_weight quiet_settled)

lemma progress_trans:
  "progress m a b \<Longrightarrow> progress n b c \<Longrightarrow> progress (m + n) a c"
  by (auto simp: progress_def)

lemma quiet_then: "quiet a b \<Longrightarrow> progress n b c \<Longrightarrow> progress n a c"
  by (simp add: progress_def quiet_weight quiet_settled)

lemma then_quiet: "progress n a b \<Longrightarrow> quiet b c \<Longrightarrow> progress n a c"
  by (simp add: progress_def quiet_weight quiet_settled quiet_queues_ok)

lemma same_frozen_quiet: "st_xi1_frozen st' = st_xi1_frozen st \<Longrightarrow> quiet st st'"
  by (simp add: quiet_def device_queues_def device_frozen_def)

lemma same_but_clients_fields:
  assumes "same_but_clients st st'"
  shows "st_xi1_frozen st' = st_xi1_frozen st" "st_xi1_active_grabs st' = st_xi1_active_grabs st"
    "st_core_focus st' = st_core_focus st" "st_resources st' = st_resources st"
    "st_active_pointer_grab st' = st_active_pointer_grab st"
    "st_active_keyboard_grab st' = st_active_keyboard_grab st"
    "st_xi1_passive_grabs st' = st_xi1_passive_grabs st"
  using assms by (auto simp: same_but_clients_def)

lemma same_but_clients_quiet: "same_but_clients st st' \<Longrightarrow> quiet st st'"
  by (intro same_frozen_quiet same_but_clients_fields)

lemma queues_entry_freeze:
  assumes "\<And>f. fz_core_keys (g f) = fz_core_keys f" "\<And>f. fz_queue (g f) = fz_queue f"
  shows "device_queues (entry_freeze d g st) d' = device_queues st d'"
  using assms by (simp add: entry_freeze_def device_queues_def Xi1Freeze_default_def split: option.split)

lemma queues_modify_freeze:
  assumes "\<And>f. fz_core_keys (g f) = fz_core_keys f" "\<And>f. fz_queue (g f) = fz_queue f"
  shows "device_queues (modify_freeze d g st) d' = device_queues st d'"
  using assms by (simp add: modify_freeze_def device_queues_def split: option.split)

lemma quiet_entry_freeze:
  assumes "\<And>f. fz_core_keys (g f) = fz_core_keys f" "\<And>f. fz_queue (g f) = fz_queue f"
    and "\<And>f. frozen f \<Longrightarrow> frozen (g f)"
  shows "quiet st (entry_freeze d g st)"
  unfolding quiet_def
proof (intro allI conjI impI)
  show "device_queues (entry_freeze d g st) d' = device_queues st d'" for d'
    by (rule queues_entry_freeze [OF assms(1,2)])
  show "device_frozen (entry_freeze d g st) d'" if "device_frozen st d'" for d'
    using that assms(3) by (auto simp: entry_freeze_def device_frozen_def split: option.splits)
qed

lemma frozen_set_other [simp]: "frozen (f\<lparr>fz_other := Some c\<rparr>)"
  by (simp add: frozen_def)

lemma frozen_set_state: "s \<ge> FrozenNoEvent \<Longrightarrow> frozen (f\<lparr>fz_state := s\<rparr>)"
  by (simp add: frozen_def)

section \<open>Routing with a replay that works\<close>

text \<open>A replay that returns for states of weight up to \<open>k\<close> and leaves nothing behind.\<close>

definition replays :: "nat \<Rightarrow> (ServerState \<Rightarrow> ServerState option) \<Rightarrow> bool" where
  "replays k cf \<longleftrightarrow> (\<forall>st. queues_ok st \<longrightarrow> waiting_weight st \<le> k \<longrightarrow>
     (\<exists>st'. cf st = Some st' \<and> at_rest st' \<and> waiting_weight st' \<le> waiting_weight st))"

lemma replays_after:
  assumes cf: "replays k cf" and st: "queues_ok st" "waiting_weight st \<le> k"
    and same: "\<And>d. device_queues st1 d = device_queues st d"
  shows "\<exists>st'. cf st1 = Some st' \<and> progress 0 st st' \<and> settled st' PTR \<and> settled st' KBD"
proof -
  have ok: "queues_ok st1" using queues_ok_cong [OF same] st(1) by blast
  have w: "waiting_weight st1 = waiting_weight st" by (rule waiting_weight_queues [OF same])
  obtain st' where st': "cf st1 = Some st'" "at_rest st'" "waiting_weight st' \<le> waiting_weight st1"
    using cf ok w st(2) unfolding replays_def by (metis order_refl)
  then have "progress 0 st st'" using w by (simp add: progress_def at_rest_def)
  then show ?thesis using st'(1,2) unfolding at_rest_def by blast
qed

lemma quiet_fan [simp]: "quiet st (fst (xi1_fan_device_event ids w q st))"
  unfolding xi1_fan_device_event_def by (rule same_but_clients_quiet [OF fanout_same])

lemma quiet_update_axes [simp]: "quiet st (update_axes q st)"
  by (rule same_frozen_quiet) (simp add: update_axes_def Let_def)

lemma quiet_update_bits [simp]: "quiet st (update_bits q st)"
  by (rule same_frozen_quiet) (simp add: update_bits_def Let_def)

lemma quiet_freeze_this_event [simp]: "quiet st (xi1_freeze_this_event_if_needed d owner q st)"
proof -
  have hold: "quiet s (entry_freeze d (\<lambda>f. f\<lparr>fz_state := FrozenWithEvent, fz_stored := Some q\<rparr>) s)" for s
    by (rule quiet_entry_freeze) (simp_all add: frozen_def)
  have other: "quiet st (entry_freeze e (\<lambda>other. if fz_state other = FreezeBothNextEvent \<and> b
      then other\<lparr>fz_state := FrozenNoEvent\<rparr> else other\<lparr>fz_other := Some owner\<rparr>) st)" for e b
    by (rule quiet_entry_freeze) (simp_all add: frozen_def)
  show ?thesis
    unfolding xi1_freeze_this_event_if_needed_def Let_def
    by (cases "sync_state st d") (simp_all add: hold quiet_trans [OF other hold])
qed

lemma release_hold_queues [simp]:
  "fz_core_keys (release_hold c f) = fz_core_keys f" "fz_queue (release_hold c f) = fz_queue f"
  by (simp_all add: release_hold_def)

lemma check_grab_replays:
  assumes "replays k cf" "queues_ok st" "waiting_weight st \<le> k"
  shows "\<exists>st'. xi1_check_grab_for_syncs cf d owner this_sync other_sync st = Some st' \<and> progress 0 st st' \<and>
    settled st' PTR \<and> settled st' KBD"
  unfolding xi1_check_grab_for_syncs_def
  by (rule replays_after [OF assms])
    (subst queues_entry_freeze, simp, simp, rule queues_entry_freeze, simp_all)

lemma deactivate_replays:
  assumes "replays k cf" "queues_ok st" "waiting_weight st \<le> k"
  shows "\<exists>st'. xi1_deactivate_device_grab cf d st = Some st' \<and> progress 0 st st'"
proof (cases "hm_get (st_xi1_active_grabs st) d")
  case None
  then show ?thesis
    using quiet_progress [OF quiet_refl assms(2)] by (simp add: xi1_deactivate_device_grab_def)
next
  case (Some g)
  let ?st = "modify_freeze (xi1_other_input_device d) (release_hold (xa_owner g))
    (modify_freeze d (\<lambda>sync. sync\<lparr>fz_state := Thawed, fz_stored := None\<rparr>)
      (st\<lparr>st_xi1_active_grabs := hm_remove d (st_xi1_active_grabs st)\<rparr>))"
  have same: "device_queues ?st e = device_queues st e" for e
    by (subst queues_modify_freeze, simp, simp, subst queues_modify_freeze, simp_all add: device_queues_def)
  then show ?thesis
    using replays_after [OF assms, of ?st] Some by (auto simp: xi1_deactivate_device_grab_def)
qed

lemma bridge_release_replays:
  assumes "replays k cf" "queues_ok st" "waiting_weight st \<le> k"
  shows "\<exists>st'. xi1_core_grab_bridge_release cf d owner st = Some st' \<and> progress 0 st st' \<and>
    settled st' PTR \<and> settled st' KBD"
  unfolding xi1_core_grab_bridge_release_def
proof (rule replays_after [OF assms])
  show "device_queues (modify_freeze (xi1_other_input_device d) (release_hold owner)
      (if \<not> hm_contains (st_xi1_active_grabs st) d
       then modify_freeze d (\<lambda>sync. sync\<lparr>fz_state := Thawed, fz_stored := None\<rparr>) st else st)) e =
      device_queues st e" for e
    by (subst queues_modify_freeze, simp, simp) (simp add: queues_modify_freeze)
qed

section \<open>Routing an event\<close>

lemma progress_keeps:
  "progress 0 st st' \<Longrightarrow> queues_ok st'" "progress 0 st st' \<Longrightarrow> waiting_weight st' \<le> waiting_weight st"
  by (simp_all add: progress_def)

lemma route_active_grab_progress:
  assumes cf: "replays k cf" and st: "queues_ok st" "waiting_weight st \<le> k"
  shows "\<exists>st' dr. route_active_grab cf q allow grab st = Some (st', dr) \<and> progress 0 st st'"
proof -
  define w where "w = (case compute_xi1_route_targets st q of
      Some (clients, w) \<Rightarrow> if xa_owner_events grab \<and> xa_owner grab \<in> set clients then w else xa_window grab
    | None \<Rightarrow> xa_window grab)"
  define s1 where "s1 = fst (xi1_fan_device_event [xa_owner grab] w q st)"
  define s2 where "s2 = (if allow \<and> (is_press q \<or> is_release q)
    then xi1_freeze_this_event_if_needed (xq_device q) (xa_owner grab) q s1 else s1)"
  have "quiet st s1" unfolding s1_def by (rule quiet_fan)
  moreover have "quiet s1 s2" unfolding s2_def by simp
  ultimately have q2: "quiet st s2" by (rule quiet_trans)
  have ok: "queues_ok s2" "waiting_weight s2 \<le> k"
    using quiet_queues_ok [OF q2 st(1)] quiet_weight [OF q2] st(2) by simp_all
  obtain s3 where s3: "(if is_release q \<and> xa_passive_detail grab = Some (xq_detail q)
      then xi1_deactivate_device_grab cf (xq_device q) s2 else Some s2) = Some s3" "progress 0 s2 s3"
    using deactivate_replays [OF cf ok] quiet_progress [OF quiet_refl ok(1)] by (metis (full_types))
  have "route_active_grab cf q allow grab st =
      Some (s3, snd (xi1_fan_device_event [xa_owner grab] w q st))"
    using s3(1) unfolding route_active_grab_def Let_def case_prod_beta w_def [symmetric] s1_def [symmetric]
      s2_def [symmetric] by simp
  then show ?thesis using quiet_then [OF q2 s3(2)] by blast
qed

lemma activate_passive_grab_progress:
  assumes cf: "replays k cf" and st: "queues_ok st" "waiting_weight st \<le> k"
  shows "\<exists>st' dr. activate_passive_grab cf q allow g st = Some (st', dr) \<and> progress 0 st st'"
proof -
  define s1 where "s1 = st\<lparr>st_xi1_active_grabs := hm_insert (xq_device q)
      \<lparr>xa_owner = xp_owner g, xa_device = xq_device q, xa_window = xp_window g,
       xa_owner_events = xp_owner_events g, xa_this_mode = xp_this_mode g,
       xa_other_mode = xp_other_mode g, xa_passive_detail = Some (xq_detail q)\<rparr>
      (st_xi1_active_grabs st), st_xi1_last_grab_time := xq_time q\<rparr>"
  have q1: "quiet st s1" by (rule same_frozen_quiet) (simp add: s1_def)
  have ok: "queues_ok s1" "waiting_weight s1 \<le> k"
    using quiet_queues_ok [OF q1 st(1)] quiet_weight [OF q1] st(2) by simp_all
  obtain s2 where s2: "(if allow then xi1_check_grab_for_syncs cf (xq_device q) (xp_owner g)
      (xp_this_mode g = 0) (xp_other_mode g = 0) s1 else Some s1) = Some s2" "progress 0 s1 s2"
    using check_grab_replays [OF cf ok] quiet_progress [OF quiet_refl ok(1)] by (metis (full_types))
  define s3 where "s3 = fst (xi1_fan_device_event [xp_owner g] (xp_window g) q s2)"
  define s4 where "s4 = (if allow then entry_freeze (xq_device q) (\<lambda>sync.
      if fz_state sync = FrozenNoEvent then sync\<lparr>fz_state := FrozenWithEvent, fz_stored := Some q\<rparr> else sync) s3
    else s3)"
  have "quiet s2 s3" unfolding s3_def by (rule quiet_fan)
  moreover have "quiet s3 s4"
  proof (cases allow)
    case True
    then show ?thesis unfolding s4_def if_P [OF True]
      by (intro quiet_entry_freeze) (simp_all add: frozen_def)
  qed (simp add: s4_def)
  ultimately have "quiet s2 s4" by (rule quiet_trans)
  then have "progress 0 st s4"
    using quiet_then [OF q1 s2(2)] by (rule then_quiet [rotated])
  moreover have "activate_passive_grab cf q allow g st =
      Some (s4, snd (xi1_fan_device_event [xp_owner g] (xp_window g) q s2))"
    using s2(1) unfolding activate_passive_grab_def Let_def s1_def [symmetric]
    by (simp add: case_prod_beta s3_def s4_def)
  ultimately show ?thesis by blast
qed

lemma route_selection_quiet: "quiet st (fst (route_selection q allow st))"
proof -
  define s1 where "s1 = fst (case compute_xi1_route_targets st q of
      Some (targets, w) \<Rightarrow> xi1_fan_device_event targets w q st | None \<Rightarrow> (st, []))"
  have "quiet st s1" unfolding s1_def by (auto split: option.split)
  moreover have "quiet s1 (if allow \<and> (is_press q \<or> is_release q)
      then (case xi1_device_grab_owner s1 (xq_device q) of
              Some owner \<Rightarrow> xi1_freeze_this_event_if_needed (xq_device q) owner q s1 | None \<Rightarrow> s1)
      else s1)"
    by (auto split: option.split)
  ultimately show ?thesis
    unfolding route_selection_def Let_def case_prod_beta fst_conv s1_def [symmetric]
    by (rule quiet_trans)
qed

lemma device_frozen_clock [simp]:
  "device_frozen (st\<lparr>st_xi1_last_input_time := t\<rparr>) d = device_frozen st d"
  by (simp add: device_frozen_def)

lemma device_queues_push:
  "device_queues (entry_freeze d (\<lambda>f. f\<lparr>fz_queue := fz_queue f @ [q]\<rparr>) st) e =
    (if e = d then (fst (device_queues st d), snd (device_queues st d) @ [q]) else device_queues st e)"
  by (simp add: entry_freeze_def device_queues_def Xi1Freeze_default_def split: option.split)

lemma push_progress:
  assumes ok: "queues_ok st" and frozen: "device_frozen st (xq_device q)"
  shows "progress 1 st (entry_freeze (xq_device q) (\<lambda>f. f\<lparr>fz_queue := fz_queue f @ [q]\<rparr>) st)"
proof -
  let ?st = "entry_freeze (xq_device q) (\<lambda>f. f\<lparr>fz_queue := fz_queue f @ [q]\<rparr>) st"
  have fr: "device_frozen ?st d = device_frozen st d" for d
    using frozen by (auto simp: entry_freeze_def device_frozen_def frozen_def split: option.splits)
  have "settled ?st d" if "settled st d" for d
    using that frozen by (cases "d = xq_device q") (simp_all add: settled_def fr device_queues_push)
  moreover have "queues_ok ?st"
    using ok by (auto simp: queues_ok_def device_queues_push)
  moreover have "waiting_weight ?st \<le> waiting_weight st + 1"
    by (cases "xq_device q = PTR"; cases "xq_device q = KBD")
      (simp_all add: waiting_weight_def device_weight_queues device_queues_push)
  ultimately show ?thesis by (simp add: progress_def)
qed

lemma route_progress:
  assumes cf: "replays k cf" and st: "queues_ok st" "waiting_weight st \<le> k"
  shows "\<exists>st' dr. xi1_route_device_event cf q allow st = Some (st', dr) \<and>
    progress (if device_frozen st (xq_device q) then 1 else 0) st st'"
proof -
  define s0 where "s0 = st\<lparr>st_xi1_last_input_time := max (st_xi1_last_input_time st) (xq_time q)\<rparr>"
  have q0: "quiet st s0" by (rule same_frozen_quiet) (simp add: s0_def)
  have fr: "device_frozen s0 (xq_device q) = device_frozen st (xq_device q)" by (simp add: s0_def)
  have ok0: "queues_ok s0" by (rule quiet_queues_ok [OF q0 st(1)])
  show ?thesis
  proof (cases "device_frozen st (xq_device q)")
    case True
    then show ?thesis
      using quiet_then [OF q0 push_progress [OF ok0]] fr
      unfolding xi1_route_device_event_def Let_def s0_def [symmetric] by simp
  next
    case False
    define s1 where "s1 = update_bits q (update_axes q s0)"
    have "quiet s0 s1" unfolding s1_def by (rule quiet_trans [OF quiet_update_axes quiet_update_bits])
    with q0 have q1: "quiet st s1" by (rule quiet_trans)
    have ok: "queues_ok s1" "waiting_weight s1 \<le> k"
      using quiet_queues_ok [OF q1 st(1)] quiet_weight [OF q1] st(2) by simp_all
    have eq: "xi1_route_device_event cf q allow st =
        (case hm_get (st_xi1_active_grabs s1) (xq_device q) of
           Some grab \<Rightarrow> route_active_grab cf q allow grab s1
         | None \<Rightarrow> (case (if is_press q then passive_device_grab s1 q else None) of
             Some g \<Rightarrow> activate_passive_grab cf q allow g s1
           | None \<Rightarrow> Some (route_selection q allow s1)))"
      using False fr unfolding xi1_route_device_event_def Let_def s0_def [symmetric] s1_def [symmetric]
      by simp
    have "\<exists>st' dr. xi1_route_device_event cf q allow st = Some (st', dr) \<and> progress 0 s1 st'"
    proof (cases "hm_get (st_xi1_active_grabs s1) (xq_device q)")
      case (Some grab)
      then show ?thesis unfolding eq using route_active_grab_progress [OF cf ok] by simp
    next
      case none: None
      show ?thesis
      proof (cases "if is_press q then passive_device_grab s1 q else None")
        case (Some g)
        then show ?thesis
          unfolding eq none option.case using activate_passive_grab_progress [OF cf ok] by simp
      next
        case None
        have "progress 0 s1 (fst (route_selection q allow s1))"
          by (rule quiet_progress [OF route_selection_quiet ok(1)])
        then show ?thesis unfolding eq none option.case None
          by (metis prod.collapse)
      qed
    qed
    then show ?thesis using quiet_then [OF q1] False by (metis (full_types))
  qed
qed

section \<open>Routing a key\<close>

lemma quiet_core_focus [simp]: "quiet st (emit_core_focus_transition a b mode st)"
  by (rule same_but_clients_quiet [OF core_focus_same])

lemma quiet_fanout [simp]: "quiet st a \<Longrightarrow> quiet st (fst (fanout_event_to_clients ids enc a))"
  by (rule quiet_trans [OF _ same_but_clients_quiet [OF fanout_same]])

lemma quiet_key_to_window [simp]: "quiet st (fst (deliver_key_to_window e w st))"
  by (simp add: deliver_key_to_window_def Let_def case_prod_beta)

lemma quiet_key_to_grab_owner [simp]: "quiet st (fst (deliver_key_to_grab_owner e owner w via st))"
  by (simp add: deliver_key_to_grab_owner_def same_but_clients_quiet)

lemma key_route_progress:
  assumes cf: "replays k cf" and st: "queues_ok st" "waiting_weight st \<le> k"
  shows "\<exists>st' route. key_route cf e st = Some (st', route) \<and> progress 0 st st'"
proof (cases "st_active_keyboard_grab st")
  case grabbed: (Some g)
  show ?thesis
  proof (cases "\<not> hk_pressed e \<and> ak_source g = PassiveKey (hk_keycode e)")
    case True
    let ?s = "st\<lparr>st_active_keyboard_grab := None, st_frozen_keyboard_event := None\<rparr>"
    have q: "quiet st ?s" by (rule same_frozen_quiet) simp
    obtain s1 where s1: "xi1_core_grab_bridge_release cf KBD (ak_owner g) ?s = Some s1" "progress 0 ?s s1"
      using bridge_release_replays [OF cf quiet_queues_ok [OF q st(1)]] quiet_weight [OF q] st(2) by auto
    have "progress 0 st (emit_core_focus_transition (ak_window g) (cf_raw (st_core_focus s1)) 2 s1)"
      by (rule then_quiet [OF quiet_then [OF q s1(2)] quiet_core_focus])
    then show ?thesis using grabbed True s1(1) by (simp add: key_route_def)
  next
    case False
    then show ?thesis
      using grabbed quiet_progress [OF quiet_refl st(1)] by (auto simp: key_route_def)
  qed
next
  case none: None
  let ?walk = "if current_focus st = 0 then ROOT_WINDOW else current_focus st"
  show ?thesis
  proof (cases "if hk_pressed e then find_key_grab st ?walk (hk_keycode e) (hk_state e) else None")
    case None
    then show ?thesis
      using none quiet_progress [OF quiet_refl st(1)] by (simp add: key_route_def Let_def)
  next
    case (Some g)
    define s1 where "s1 = st\<lparr>st_active_keyboard_grab := Some \<lparr>ak_owner = kg_owner g,
      ak_window = kg_window g, ak_source = PassiveKey (hk_keycode e),
      ak_owner_events = kg_owner_events g, ak_via_xi2 = kg_via_xi2 g\<rparr>\<rparr>"
    define s2 where "s2 = emit_core_focus_transition (cf_raw (st_core_focus s1)) (kg_window g) 1 s1"
    have "quiet st s1" by (rule same_frozen_quiet) (simp add: s1_def)
    moreover have "quiet s1 s2" by (simp add: s2_def)
    ultimately have q: "quiet st s2" by (rule quiet_trans)
    obtain s3 where s3: "xi1_check_grab_for_syncs cf KBD (kg_owner g) (kg_keyboard_mode g = 0)
        (kg_pointer_mode g = 0) s2 = Some s3" "progress 0 s2 s3"
      using check_grab_replays [OF cf quiet_queues_ok [OF q st(1)]] quiet_weight [OF q] st(2) by metis
    have "key_route cf e st = Some (s3, PassiveGrabOwner (kg_owner g) (kg_window g)
        (kg_keyboard_mode g = 0) (kg_owner_events g) (kg_via_xi2 g))"
      using s3(1) none Some by (simp add: key_route_def Let_def s1_def s2_def)
    then show ?thesis using quiet_then [OF q s3(2)] by blast
  qed
qed

lemma focused_key_progress:
  assumes cf: "replays k cf" and st: "queues_ok st" "waiting_weight st \<le> k"
  shows "\<exists>st' dr. deliver_xi1_focused_key cf e st = Some (st', dr) \<and> progress 1 st st'"
proof -
  obtain st' dr where r: "xi1_route_device_event cf (xi1_key_event st e) True st = Some (st', dr)"
    "progress (if device_frozen st (xq_device (xi1_key_event st e)) then 1 else 0) st st'"
    using route_progress [OF cf st] by blast
  then have "progress 1 st st'" by (auto simp: progress_def split: if_splits)
  then show ?thesis using r(1) by (simp add: deliver_xi1_focused_key_def)
qed

lemma routed_key_progress:
  assumes cf: "replays k cf" and st: "queues_ok st" "waiting_weight st \<le> k"
  shows "\<exists>st' dr. deliver_routed_key cf e st = Some (st', dr) \<and> progress 1 st st'"
proof -
  obtain s1 route where r: "key_route cf e st = Some (s1, route)" "progress 0 st s1"
    using key_route_progress [OF cf st] by blast
  have deliver: "\<exists>st' dr. deliver_xi1_focused_key cf e s2 = Some (st', dr) \<and> progress 1 st st'"
    if q: "quiet s1 s2" for s2
  proof -
    have p: "progress 0 st s2" by (rule then_quiet [OF r(2) q])
    have "queues_ok s2" "waiting_weight s2 \<le> k"
      using progress_keeps [OF p] st(2) by simp_all
    then obtain st' dr where "deliver_xi1_focused_key cf e s2 = Some (st', dr)" "progress 1 s2 st'"
      using focused_key_progress [OF cf] by blast
    then show ?thesis using progress_trans [OF p] by fastforce
  qed
  show ?thesis
  proof (cases route)
    case RouteDrop
    then show ?thesis using deliver [OF quiet_refl] r(1) by (simp add: deliver_routed_key_def)
  next
    case (PassiveGrabOwner owner w freeze owner_events via)
    define s2 where "s2 = (if freeze \<and> hk_pressed e then s1\<lparr>st_frozen_keyboard_event := Some e\<rparr> else s1)"
    define t where "t = unwrap_or (if owner_events then key_grabbed_natural_target s2 e owner else None) w"
    define s3 where "s3 = fst (deliver_key_to_grab_owner e owner t via s2)"
    have "quiet s1 s2" by (rule same_frozen_quiet) (simp add: s2_def)
    moreover have "quiet s2 s3" by (simp add: s3_def)
    ultimately have "quiet s1 s3" by (rule quiet_trans)
    then obtain st' dr where d: "deliver_xi1_focused_key cf e s3 = Some (st', dr)" "progress 1 st st'"
      using deliver by blast
    have "deliver_routed_key cf e st =
        Some (st', merge_dropped (snd (deliver_key_to_grab_owner e owner t via s2)) dr)"
      using r(1) d(1) unfolding deliver_routed_key_def PassiveGrabOwner s3_def t_def
      by (simp only: Let_def case_prod_beta bind.bind_lunit KeyRoute.case fst_conv snd_conv s2_def)
    then show ?thesis using d(2) by blast
  next
    case (RouteWindow w)
    define s2 where "s2 = fst (deliver_key_to_window e (focused_walk_target s1 w e) s1)"
    have "quiet s1 s2" by (simp add: s2_def)
    then obtain st' dr where d: "deliver_xi1_focused_key cf e s2 = Some (st', dr)" "progress 1 st st'"
      using deliver by blast
    have "deliver_routed_key cf e st =
        Some (st', merge_dropped (snd (deliver_key_to_window e (focused_walk_target s1 w e) s1)) dr)"
      using r(1) d(1) unfolding deliver_routed_key_def RouteWindow Let_def case_prod_beta
      by (simp add: s2_def [symmetric])
    then show ?thesis using d(2) by blast
  qed
qed

section \<open>Replaying\<close>

lemma device_queues_pop:
  assumes "hm_get (st_xi1_frozen st) d = Some f"
  shows "device_queues (modify_freeze d g st) e =
      (if e = d then (fz_core_keys (g f), fz_queue (g f)) else device_queues st e)"
  using assms by (simp add: modify_freeze_def device_queues_def)

text \<open>Taking an event off the front of the queue of a device that is not frozen.\<close>

lemma pop_event:
  assumes f: "hm_get (st_xi1_frozen st) d = Some f" and d: "d \<in> {PTR, KBD}" and ok: "queues_ok st"
    and sub: "length (fz_core_keys (g f)) \<le> length (fz_core_keys f)" "set (fz_queue (g f)) \<subseteq> set (fz_queue f)"
      "length (fz_queue (g f)) \<le> length (fz_queue f)"
    and same: "\<And>f. fz_state (g f) = fz_state f" "\<And>f. fz_other (g f) = fz_other f"
  shows "queues_ok (modify_freeze d g st)"
    "waiting_weight (modify_freeze d g st) + 2 * (length (fz_core_keys f) - length (fz_core_keys (g f))) +
      (length (fz_queue f) - length (fz_queue (g f))) = waiting_weight st"
    "\<And>e. e \<noteq> d \<Longrightarrow> settled st e \<Longrightarrow> settled (modify_freeze d g st) e"
    "device_frozen (modify_freeze d g st) d = frozen f"
proof -
  have q: "device_queues st d = (fz_core_keys f, fz_queue f)" using f by (simp add: device_queues_def)
  show "queues_ok (modify_freeze d g st)"
    unfolding queues_ok_def device_queues_pop [OF f]
  proof (intro allI ballI)
    fix e x
    assume x: "x \<in> set (snd (if e = d then (fz_core_keys (g f), fz_queue (g f)) else device_queues st e))"
    then have "x \<in> set (snd (device_queues st e))" using sub(2) q by (auto split: if_splits)
    then show "xq_device x = e" using ok unfolding queues_ok_def by blast
  qed
  show "waiting_weight (modify_freeze d g st) + 2 * (length (fz_core_keys f) - length (fz_core_keys (g f))) +
      (length (fz_queue f) - length (fz_queue (g f))) = waiting_weight st"
    using d sub(1,3) q
    by (auto simp: waiting_weight_def device_weight_queues device_queues_pop [OF f])
  show "settled (modify_freeze d g st) e" if "e \<noteq> d" "settled st e" for e
    using that f by (simp add: settled_def device_queues_pop [OF f]) (simp add: modify_freeze_def device_frozen_def)
  show "device_frozen (modify_freeze d g st) d = frozen f"
    using f same by (simp add: modify_freeze_def device_frozen_def frozen_def)
qed

definition flushed :: "u16 \<Rightarrow> ServerState \<Rightarrow> ServerState \<Rightarrow> bool" where
  "flushed d st st' \<longleftrightarrow> queues_ok st' \<and> waiting_weight st' \<le> waiting_weight st \<and> settled st' d \<and>
     (\<forall>e \<in> {PTR, KBD}. e \<noteq> d \<longrightarrow> settled st e \<longrightarrow> settled st' e)"

definition flushes :: "nat \<Rightarrow> (u16 \<Rightarrow> ServerState \<Rightarrow> ServerState option) \<Rightarrow> bool" where
  "flushes n fl \<longleftrightarrow> (\<forall>d \<in> {PTR, KBD}. \<forall>st. queues_ok st \<longrightarrow> waiting_weight st < n \<longrightarrow>
     (\<exists>st'. fl d st = Some st' \<and> flushed d st st'))"

lemma quiet_drop_stale [simp]: "quiet st (drop_stale_pointer_events st)"
  by (rule same_frozen_quiet) (simp add: drop_stale_pointer_events_def)

lemma compute_with_replays:
  assumes fl: "flushes n fl"
  shows "queues_ok st \<Longrightarrow> waiting_weight st < n \<Longrightarrow>
    \<exists>st'. compute_with fl st = Some st' \<and> at_rest st' \<and> waiting_weight st' \<le> waiting_weight st"
proof -
  assume st: "queues_ok st" "waiting_weight st < n"
  obtain s1 where s1: "fl PTR st = Some s1" "flushed PTR st s1"
    using fl st unfolding flushes_def by blast
  then have ok1: "queues_ok s1" "waiting_weight s1 \<le> waiting_weight st" "settled s1 PTR"
    by (simp_all add: flushed_def)
  have lt: "waiting_weight s1 < n" using ok1(2) st(2) by simp
  obtain s2 where s2: "fl KBD s1 = Some s2" "flushed KBD s1 s2"
    using fl ok1(1) lt unfolding flushes_def by blast
  have "at_rest s2" "waiting_weight s2 \<le> waiting_weight st"
    using s2(2) ok1 by (auto simp: flushed_def at_rest_def)
  moreover have "compute_with fl st = Some (drop_stale_pointer_events s2)"
    by (simp add: compute_with_def s1(1) s2(1))
  ultimately show ?thesis
    using quiet_settled [OF quiet_drop_stale] quiet_queues_ok [OF quiet_drop_stale]
      quiet_weight [OF quiet_drop_stale] by (auto simp: at_rest_def)
qed

lemma compute_replays:
  assumes "flushes n fl" "k < n"
  shows "replays k (compute_with fl)"
  using compute_with_replays [OF assms(1)] assms(2) unfolding replays_def by (meson le_less_trans)

text \<open>What is left to do after one event has been taken and routed.\<close>

lemma flush_rest:
  assumes fl: "flushes n fl" and d: "d \<in> {PTR, KBD}"
    and st1: "waiting_weight st1 + m = waiting_weight st" "waiting_weight st \<le> n"
      "\<And>e. e \<noteq> d \<Longrightarrow> settled st e \<Longrightarrow> settled st1 e"
    and p: "progress m' st1 st2" "m' < m"
  shows "\<exists>st'. fl d st2 = Some st' \<and> flushed d st st'"
proof -
  have w: "waiting_weight st2 < n" "waiting_weight st2 \<le> waiting_weight st" "queues_ok st2"
    using p st1(1,2) by (auto simp: progress_def)
  obtain st' where st': "fl d st2 = Some st'" "flushed d st2 st'"
    using fl d w(1,3) unfolding flushes_def by blast
  have "settled st' e" if "e \<in> {PTR, KBD}" "e \<noteq> d" "settled st e" for e
    using st'(2) st1(3) [OF that(2,3)] p(1) that(1,2) unfolding flushed_def progress_def by blast
  then have "flushed d st st'" using st'(2) w(2) unfolding flushed_def by (meson le_trans)
  then show ?thesis using st'(1) by blast
qed

lemma flush_step_flushes:
  assumes fl: "flushes n fl"
  shows "flushes (Suc n) (flush_step fl)"
  unfolding flushes_def
proof (intro ballI allI impI)
  fix d st
  assume d: "d \<in> {PTR, KBD}" and ok: "queues_ok st" and "waiting_weight st < Suc n"
  then have n: "waiting_weight st \<le> n" by simp
  have here: "flushed d st st" if "settled st d" using that ok by (simp add: flushed_def)
  show "\<exists>st'. flush_step fl d st = Some st' \<and> flushed d st st'"
  proof (cases "hm_get (st_xi1_frozen st) d")
    case None
    then show ?thesis using here by (simp add: flush_step_def settled_def device_queues_def)
  next
    case (Some f)
    note f = Some
    show ?thesis
    proof (cases "frozen f")
      case True
      then show ?thesis using here f by (simp add: flush_step_def settled_def device_frozen_def)
    next
      case thawed: False
      show ?thesis
      proof (cases "fz_core_keys f")
        case (Cons e es)
        let ?st1 = "modify_freeze d (\<lambda>f. f\<lparr>fz_core_keys := es\<rparr>) st"
        note pop = pop_event [OF f d ok, where g = "\<lambda>f. f\<lparr>fz_core_keys := es\<rparr>"]
        have w: "waiting_weight ?st1 + 2 = waiting_weight st" using pop(2) Cons by simp
        have st1: "queues_ok ?st1" "\<And>e. e \<noteq> d \<Longrightarrow> settled st e \<Longrightarrow> settled ?st1 e"
          using pop(1,3) Cons by simp_all
        have "replays (waiting_weight ?st1) (compute_with fl)"
          by (rule compute_replays [OF fl]) (use w n in simp)
        then obtain st2 dr where st2: "deliver_routed_key (compute_with fl) e ?st1 = Some (st2, dr)"
          "progress 1 ?st1 st2"
          using routed_key_progress st1(1) by blast
        have "\<exists>st'. fl d st2 = Some st' \<and> flushed d st st'"
          by (rule flush_rest [OF fl d w n st1(2) st2(2)]) simp_all
        then show ?thesis using f thawed Cons st2(1) by (simp add: flush_step_def)
      next
        case no_keys: Nil
        show ?thesis
        proof (cases "fz_queue f")
          case Nil
          then show ?thesis
            using here f thawed no_keys by (simp add: flush_step_def settled_def device_queues_def)
        next
          case (Cons q qs)
          let ?st1 = "modify_freeze d (\<lambda>f. f\<lparr>fz_queue := qs\<rparr>) st"
          note pop = pop_event [OF f d ok, where g = "\<lambda>f. f\<lparr>fz_queue := qs\<rparr>"]
          have w: "waiting_weight ?st1 + 1 = waiting_weight st" using pop(2) Cons by auto
          have st1: "queues_ok ?st1" "\<And>e. e \<noteq> d \<Longrightarrow> settled st e \<Longrightarrow> settled ?st1 e"
            "device_frozen ?st1 d = False"
            using pop(1,3,4) Cons thawed by auto
          have q: "xq_device q = d"
            using ok f Cons unfolding queues_ok_def device_queues_def by force
          have "replays (waiting_weight ?st1) (compute_with fl)"
            by (rule compute_replays [OF fl]) (use w n in simp)
          then obtain st2 dr where st2: "xi1_route_device_event (compute_with fl) q True ?st1 = Some (st2, dr)"
            "progress 0 ?st1 st2"
            using route_progress [of _ _ ?st1 q] st1(1,3) unfolding q if_False by force
          have "\<exists>st'. fl d st2 = Some st' \<and> flushed d st st'"
            by (rule flush_rest [OF fl d w n st1(2) st2(2)]) simp_all
          then show ?thesis using f thawed no_keys Cons st2(1) by (simp add: flush_step_def)
        qed
      qed
    qed
  qed
qed

lemma flush_device_flushes: "flushes n (flush_device n)"
  by (induction n) (simp_all add: flush_step_flushes, simp add: flushes_def)

lemma compute_freezes_replays: "replays k xi1_compute_freezes"
  unfolding replays_def xi1_compute_freezes_def
  by (intro allI impI compute_with_replays [OF flush_device_flushes]) simp_all

section \<open>The requests\<close>

lemma progress_rest: "progress n st st' \<Longrightarrow> at_rest st \<Longrightarrow> at_rest st'"
  by (simp add: progress_def at_rest_def)

lemma quiet_rest: "quiet st st' \<Longrightarrow> at_rest st \<Longrightarrow> at_rest st'"
  using quiet_queues_ok quiet_settled unfolding at_rest_def by blast

lemma rest_queues: "at_rest st \<Longrightarrow> queues_ok st"
  by (simp add: at_rest_def)

abbreviation same_queues :: "ServerState \<Rightarrow> ServerState \<Rightarrow> bool" where
  "same_queues st st' \<equiv> \<forall>d. device_queues st' d = device_queues st d"

lemma same_queues_ok: "same_queues st st' \<Longrightarrow> queues_ok st \<Longrightarrow> queues_ok st'"
  by (rule queues_ok_cong [THEN iffD2]) simp_all

lemma rests_after:
  assumes "queues_ok st" "same_queues st s"
  shows "\<exists>s'. xi1_compute_freezes s = Some s' \<and> at_rest s'"
  using compute_freezes_replays [of "waiting_weight s"] same_queues_ok [OF assms(2,1)]
  unfolding replays_def by blast

lemma same_queues_thaw [simp]: "device_queues (modify_freeze d thaw st) e = device_queues st e"
  by (rule queues_modify_freeze) (simp_all add: thaw_def)

lemma same_queues_unhold [simp]: "device_queues (modify_freeze d unhold st) e = device_queues st e"
  by (rule queues_modify_freeze) (simp_all add: unhold_def)

lemma same_queues_state [simp]:
  "device_queues (entry_freeze d (\<lambda>f. f\<lparr>fz_state := s\<rparr>) st) e = device_queues st e"
  by (rule queues_entry_freeze) simp_all

lemma same_queues_stored [simp]:
  "device_queues (modify_freeze d (\<lambda>f. f\<lparr>fz_stored := q\<rparr>) st) e = device_queues st e"
  by (rule queues_modify_freeze) simp_all

lemma establish_rests:
  assumes "at_rest st"
  shows "\<exists>st'. establish_device_grab client body st = Some st' \<and> at_rest st'"
proof -
  let ?now = "max (max (st_timestamp st) (st_xi1_last_input_time st)) (st_xi1_last_grab_time st)"
  let ?dev = "ucast (body ! 13) :: u16"
  let ?st = "st\<lparr>st_xi1_active_grabs := hm_insert ?dev
      \<lparr>xa_owner = client, xa_device = ?dev, xa_window = u32_le_at body 0,
       xa_owner_events = (body ! 12 \<noteq> 0), xa_this_mode = body ! 10,
       xa_other_mode = body ! 11, xa_passive_detail = None\<rparr> (st_xi1_active_grabs st),
      st_xi1_last_grab_time := (if u32_le_at body 4 = 0 then ?now else u32_le_at body 4)\<rparr>"
  have q: "quiet st ?st" by (rule same_frozen_quiet) simp
  show ?thesis
    using check_grab_replays [OF compute_freezes_replays quiet_queues_ok [OF q rest_queues [OF assms]] order_refl]
      progress_rest quiet_rest [OF q assms]
    unfolding establish_device_grab_def Let_def by blast
qed

lemma quiet_error [simp]: "quiet st (fst (xi1_error client_id sequence err minor st))"
  unfolding xi1_error_def emit_x11_error_with_minor_def
  by (rule same_but_clients_quiet [OF send_reply_same])

lemma quiet_reply [simp]: "quiet st (fst (send_reply client_id f st))"
  by (rule same_but_clients_quiet [OF send_reply_same])

text \<open>The claims below are about a request that always answers, in a state that is again at rest.\<close>

definition answers :: "(ServerState \<times> RequestOutcome) option \<Rightarrow> bool" where
  "answers r \<longleftrightarrow> (case r of Some (st, _) \<Rightarrow> at_rest st | None \<Rightarrow> False)"

lemma answers_some: "at_rest (fst x) \<Longrightarrow> answers (Some x)"
  by (simp add: answers_def split_beta)

lemma answers_reply:
  assumes "\<exists>s'. r = Some s' \<and> at_rest s'"
  shows "answers (do { st \<leftarrow> r; Some (send_reply client_id f st) })"
  using assms by (auto intro!: answers_some quiet_rest [OF quiet_reply])

lemma grab_device_rests: "at_rest st \<Longrightarrow> answers (xi1_grab_device client_id sequence body st)"
  using establish_rests [of st client_id body]
  by (auto simp: xi1_grab_device_def Let_def intro!: answers_some answers_reply quiet_rest [OF quiet_error]
      quiet_rest [OF quiet_reply]
      split: option.split)

lemma deactivate_rests:
  assumes "at_rest st"
  shows "\<exists>st'. xi1_deactivate_device_grab xi1_compute_freezes dev st = Some st' \<and> at_rest st'"
  using deactivate_replays [OF compute_freezes_replays rest_queues [OF assms] order_refl]
    progress_rest [OF _ assms] by blast

lemma ungrab_device_rests: "at_rest st \<Longrightarrow> answers (xi1_ungrab_device client_id sequence body st)"
  using deactivate_rests [of st]
  by (auto simp: xi1_ungrab_device_def Let_def intro!: answers_some answers_reply quiet_rest [OF quiet_error]
      quiet_rest [OF quiet_reply])


lemma quiet_passive_grab:
  "quiet st (fst (xi1_passive_grab client_id sequence minor err n st))"
proof -
  have "quiet st (add_xi1_grab n st)" by (rule same_frozen_quiet) (simp add: add_xi1_grab_def)
  then have "quiet st (fst (send_reply client_id (\<lambda>_. []) (add_xi1_grab n st)))"
    by (rule quiet_trans) simp
  then show ?thesis by (simp add: xi1_passive_grab_def split: option.split)
qed

lemma rest_if: "(c \<Longrightarrow> at_rest (fst a)) \<Longrightarrow> (\<not> c \<Longrightarrow> at_rest (fst b)) \<Longrightarrow> at_rest (fst (if c then a else b))"
  by simp

lemma rest_case:
  "(\<And>e. at_rest (fst (f e))) \<Longrightarrow> at_rest (fst g) \<Longrightarrow>
    at_rest (fst (case x of Some e \<Rightarrow> f e | None \<Rightarrow> g))"
  by (cases x) simp_all

lemma passive_grabs_rest:
  assumes "at_rest st"
  shows "at_rest (fst (xi1_grab_device_key client_id sequence body st))"
    "at_rest (fst (xi1_grab_device_button client_id sequence body st))"
    "at_rest (fst (xi1_ungrab_device_detail is_key client_id sequence body st))"
proof -
  show "at_rest (fst (xi1_grab_device_key client_id sequence body st))"
    unfolding xi1_grab_device_key_def Let_def
    using quiet_rest [OF quiet_passive_grab assms] assms by simp
  show "at_rest (fst (xi1_grab_device_button client_id sequence body st))"
    unfolding xi1_grab_device_button_def Let_def
    using quiet_rest [OF quiet_passive_grab assms] assms by simp
  have "quiet st (remove_xi1_grabs is_key client_id dev win detail modifiers st)" for dev win detail modifiers
    by (rule same_frozen_quiet) (simp add: remove_xi1_grabs_def)
  then have "at_rest (fst (send_reply client_id (\<lambda>_. [])
      (remove_xi1_grabs is_key client_id dev win detail modifiers st)))" for dev win detail modifiers
    using quiet_rest [OF quiet_trans [OF _ quiet_reply] assms] by blast
  then show "at_rest (fst (xi1_ungrab_device_detail is_key client_id sequence body st))"
    unfolding xi1_ungrab_device_detail_def Let_def
    by (intro rest_if rest_case quiet_rest [OF quiet_error assms]) (simp_all add: assms)
qed

lemma replay_this_rests:
  assumes "at_rest st"
  shows "\<exists>st'. replay_this_device client_id dev synced st = Some st' \<and> at_rest st'"
proof -
  define s1 where "s1 = modify_freeze dev (\<lambda>f. f\<lparr>fz_stored := None\<rparr>)
    (if synced then modify_freeze dev unhold st else st)"
  have ok1: "queues_ok s1" by (rule same_queues_ok [OF _ rest_queues [OF assms]]) (simp add: s1_def)
  obtain s2 where s2: "(if hm_contains (st_xi1_active_grabs s1) dev
      then xi1_deactivate_device_grab xi1_compute_freezes dev s1
      else Some (modify_freeze dev thaw s1)) = Some s2" "queues_ok s2"
  proof (cases "hm_contains (st_xi1_active_grabs s1) dev")
    case True
    then show ?thesis
      using that deactivate_replays [OF compute_freezes_replays ok1 order_refl, of dev] progress_keeps(1)
      by (metis (full_types))
  next
    case False
    have "queues_ok (modify_freeze dev thaw s1)" by (rule same_queues_ok [OF _ ok1]) simp
    then show ?thesis using that False by simp
  qed
  have routed: "\<exists>s3. map_option fst (xi1_route_device_event xi1_compute_freezes q True s2) = Some s3 \<and> queues_ok s3" for q
    using route_progress [OF compute_freezes_replays s2(2) order_refl, of q True]
    by (auto simp: progress_def)
  define stored where "stored = Option.bind (hm_get (st_xi1_frozen
    (if synced then modify_freeze dev unhold st else st)) dev) fz_stored"
  obtain s3 where s3: "(case stored of
      Some q \<Rightarrow> map_option fst (xi1_route_device_event xi1_compute_freezes
        (q\<lparr>xq_replay_floor := map_option xa_window (hm_get (st_xi1_active_grabs s1) dev)\<rparr>) True s2)
    | None \<Rightarrow> Some s2) = Some s3" "queues_ok s3"
  proof (cases stored)
    case None
    then show ?thesis using that s2(2) by simp
  next
    case (Some q)
    then show ?thesis
      using that routed [of "q\<lparr>xq_replay_floor := map_option xa_window (hm_get (st_xi1_active_grabs s1) dev)\<rparr>"]
      unfolding Some option.case by blast
  qed
  obtain s4 where "xi1_compute_freezes s3 = Some s4" "at_rest s4"
    using rests_after [OF s3(2)] by blast
  then show ?thesis
    using s2(1) s3(1)
    unfolding replay_this_device_def Let_def s1_def [symmetric] stored_def [symmetric] by simp
qed

lemma same_queues_allow_all [simp]:
  "device_queues (allow_all_step client_id new_state d st) e = device_queues st e"
  by (simp add: allow_all_step_def Let_def)

lemma exists_if:
  "(c \<Longrightarrow> \<exists>s. a = Some s \<and> P s) \<Longrightarrow> (\<not> c \<Longrightarrow> \<exists>s. b = Some s \<and> P s) \<Longrightarrow>
    \<exists>s. (if c then a else b) = Some s \<and> P s"
  by simp

lemma allow_mode_rests:
  assumes rest: "at_rest st"
  shows "\<exists>st'. allow_device_mode client_id mode dev st = Some st' \<and> at_rest st'"
proof -
  have same: "\<exists>st'. Some st = Some st' \<and> at_rest st'" using rest by simp
  show ?thesis
    unfolding allow_device_mode_def Let_def
    by (intro exists_if rests_after [OF rest_queues [OF rest]] replay_this_rests [OF rest] same) simp_all
qed

lemma allow_device_events_rests: "at_rest st \<Longrightarrow> answers (xi1_allow_device_events client_id sequence body st)"
  using allow_mode_rests [of st]
  by (auto simp: xi1_allow_device_events_def Let_def intro!: answers_some answers_reply
      quiet_rest [OF quiet_error] quiet_rest [OF quiet_reply] split: option.split)

lemma set_device_focus_rests:
  assumes "at_rest st"
  shows "at_rest (fst (xi1_set_device_focus client_id sequence body st))"
proof -
  have "quiet st (set_device_focus dev focus revert time st)" for dev focus revert time
    unfolding set_device_focus_def
    by (rule quiet_trans [OF same_but_clients_quiet [OF device_focus_events_same] same_frozen_quiet])
      (simp add: insert_device_focus_def)
  then have "at_rest (fst (send_reply client_id (\<lambda>_. []) (set_device_focus dev focus revert time st)))"
    for dev focus revert time
    using quiet_rest [OF quiet_trans [OF _ quiet_reply] assms] by blast
  then show ?thesis
    unfolding xi1_set_device_focus_def Let_def
    using quiet_rest [OF quiet_error assms] assms by (simp del: first_error.simps split: option.split)
qed


section \<open>The bound of a replay does not matter\<close>

definition extends :: "'a option \<Rightarrow> 'a option \<Rightarrow> bool" where
  "extends r r' \<longleftrightarrow> (\<forall>x. r = Some x \<longrightarrow> r' = Some x)"

lemma extends_refl: "extends r r" and extends_none: "extends None r"
  by (simp_all add: extends_def)

lemma extends_bind:
  "extends a b \<Longrightarrow> (\<And>x. extends (f x) (g x)) \<Longrightarrow> extends (a \<bind> f) (b \<bind> g)"
  by (cases a) (simp_all add: extends_def)

lemma extends_if: "extends a a' \<Longrightarrow> extends b b' \<Longrightarrow> extends (if c then a else b) (if c then a' else b')"
  by simp

lemma extends_option:
  "extends a a' \<Longrightarrow> (\<And>x. extends (f x) (f' x)) \<Longrightarrow>
    extends (case r of None \<Rightarrow> a | Some x \<Rightarrow> f x) (case r of None \<Rightarrow> a' | Some x \<Rightarrow> f' x)"
  by (cases r) simp_all

lemma extends_prod:
  "(\<And>x y. extends (f x y) (f' x y)) \<Longrightarrow> extends (case p of (x, y) \<Rightarrow> f x y) (case p of (x, y) \<Rightarrow> f' x y)"
  by (cases p) simp

lemma extends_list:
  "extends a a' \<Longrightarrow> (\<And>x xs. extends (f x xs) (f' x xs)) \<Longrightarrow>
    extends (case l of [] \<Rightarrow> a | x # xs \<Rightarrow> f x xs) (case l of [] \<Rightarrow> a' | x # xs \<Rightarrow> f' x xs)"
  by (cases l) simp_all

lemma extends_route_case:
  "extends a a' \<Longrightarrow> (\<And>o1 w b1 b2 b3. extends (f o1 w b1 b2 b3) (f' o1 w b1 b2 b3)) \<Longrightarrow>
    (\<And>w. extends (g w) (g' w)) \<Longrightarrow> extends
    (case r of RouteDrop \<Rightarrow> a | PassiveGrabOwner o1 w b1 b2 b3 \<Rightarrow> f o1 w b1 b2 b3 | RouteWindow w \<Rightarrow> g w)
    (case r of RouteDrop \<Rightarrow> a' | PassiveGrabOwner o1 w b1 b2 b3 \<Rightarrow> f' o1 w b1 b2 b3 | RouteWindow w \<Rightarrow> g' w)"
  by (cases r) simp_all

lemmas extends_intros = extends_bind extends_if extends_option extends_prod extends_list extends_route_case
  extends_refl

abbreviation refines :: "(ServerState \<Rightarrow> ServerState option) \<Rightarrow> (ServerState \<Rightarrow> ServerState option) \<Rightarrow> bool" where
  "refines cf cf' \<equiv> \<forall>st. extends (cf st) (cf' st)"

lemma route_event_extends:
  assumes cf: "refines cf cf'"
  shows "extends (xi1_route_device_event cf q allow st) (xi1_route_device_event cf' q allow st)"
  unfolding xi1_route_device_event_def route_active_grab_def activate_passive_grab_def
    xi1_deactivate_device_grab_def xi1_check_grab_for_syncs_def Let_def
  by (intro extends_intros cf [rule_format])

lemma routed_key_extends:
  assumes cf: "refines cf cf'"
  shows "extends (deliver_routed_key cf e st) (deliver_routed_key cf' e st)"
  unfolding deliver_routed_key_def key_route_def deliver_xi1_focused_key_def
    xi1_core_grab_bridge_release_def xi1_check_grab_for_syncs_def Let_def
  by (intro extends_intros cf [rule_format] route_event_extends [OF cf])

lemma compute_with_extends:
  "(\<And>d. refines (fl d) (fl' d)) \<Longrightarrow> refines (compute_with fl) (compute_with fl')"
  unfolding compute_with_def by (intro allI extends_intros) simp_all

lemma flush_step_extends:
  assumes fl: "\<And>d. refines (fl d) (fl' d)"
  shows "refines (flush_step fl d) (flush_step fl' d)"
  unfolding flush_step_def
  by (intro allI extends_intros routed_key_extends route_event_extends compute_with_extends fl fl [rule_format])

lemma flush_device_mono: "refines (flush_device n d) (flush_device (n + k) d)"
proof (induction n arbitrary: d)
  case 0
  then show ?case by (simp add: extends_none)
next
  case (Suc n)
  then show ?case using flush_step_extends [of "flush_device n" "flush_device (n + k)"] by simp
qed

lemma more_fuel:
  "xi1_compute_freezes st = Some st' \<Longrightarrow> waiting_weight st < n \<Longrightarrow> compute_with (flush_device n) st = Some st'"
  using compute_with_extends [of "flush_device (Suc (waiting_weight st))" "flush_device n"]
    flush_device_mono [of "Suc (waiting_weight st)" _ "n - Suc (waiting_weight st)"]
  by (simp add: xi1_compute_freezes_def extends_def)

text \<open>
  Claim C9. A replay ends, however often events that it delivers freeze and thaw the devices again: it returns
  after no more rounds than the weight of the queues, whatever larger bound is used, and then no event
  waits for a device that is not frozen.
\<close>

theorem replay_comes_to_rest:
  assumes "queues_ok st"
  shows "\<exists>st'. (\<forall>n > waiting_weight st. compute_with (flush_device n) st = Some st') \<and>
    xi1_compute_freezes st = Some st' \<and> at_rest st' \<and> waiting_weight st' \<le> waiting_weight st"
proof -
  obtain st' where st': "xi1_compute_freezes st = Some st'" "at_rest st'" "waiting_weight st' \<le> waiting_weight st"
    using compute_freezes_replays [of "waiting_weight st"] assms unfolding replays_def by blast
  then show ?thesis using more_fuel [OF st'(1)] by blast
qed

text \<open>A waiting motion event on a pointer that is no longer frozen.\<close>

definition waiting_motion :: Xi1QueuedEvent where
  "waiting_motion = \<lparr>xq_device = PTR, xq_evcode = XI_FIRST_EVENT + XI_DEVICE_MOTION_NOTIFY_OFFSET,
     xq_detail = 0, xq_time = 5, xq_root_x = 1, xq_root_y = 2, xq_event_x = 1, xq_event_y = 2,
     xq_state_mask = 0, xq_natural_target = ROOT_WINDOW, xq_focus_route = Walk, xq_axes = None,
     xq_replay_floor = None\<rparr>"

definition waiting_state :: ServerState where
  "waiting_state = server_new\<lparr>st_xi1_frozen := [(PTR, Xi1Freeze_default\<lparr>fz_queue := [waiting_motion]\<rparr>)]\<rparr>"

lemma waiting_state_ok: "queues_ok waiting_state" "waiting_weight waiting_state = 1"
  by (auto simp: queues_ok_def device_queues_def waiting_state_def hm_get_def Xi1Freeze_default_def
      waiting_motion_def waiting_weight_def device_weight_def queue_weight_def)

lemma replay_comes_to_rest_witness:
  "\<exists>st'. xi1_compute_freezes waiting_state = Some st' \<and> at_rest st'"
  using replay_comes_to_rest [OF waiting_state_ok(1)] by blast

end
