(* ===== verification/TimerClaims.thy ===== *)
theory TimerClaims
  imports Timers AlarmClaims
begin

text \<open>
  The idle timers: what input and the main loop do to them, and that the loop never finds a deadline in
  the past that it has just served.
\<close>

section \<open>What the notifications leave alone\<close>

lemma fanout_keeps:
  "st_dpms (fst (fanout_event_to_clients ids enc st)) = st_dpms st"
  "st_screensaver (fst (fanout_event_to_clients ids enc st)) = st_screensaver st"
  "st_sync_alarms (fst (fanout_event_to_clients ids enc st)) = st_sync_alarms st"
  "st_per_device_last_activity (fst (fanout_event_to_clients ids enc st)) = st_per_device_last_activity st"
  "st_idletime_last_evaluated (fst (fanout_event_to_clients ids enc st)) = st_idletime_last_evaluated st"
  using fanout_same [of st ids enc] by (auto simp: same_but_clients_def)

lemma dpms_notify_keeps [simp]:
  "st_screensaver (emit_dpms_notify st) = st_screensaver st"
  "st_sync_alarms (emit_dpms_notify st) = st_sync_alarms st"
  "st_per_device_last_activity (emit_dpms_notify st) = st_per_device_last_activity st"
  "st_idletime_last_evaluated (emit_dpms_notify st) = st_idletime_last_evaluated st"
  "dpms_power_level (st_dpms (emit_dpms_notify st)) = dpms_power_level (st_dpms st)"
  "dpms_enabled (st_dpms (emit_dpms_notify st)) = dpms_enabled (st_dpms st)"
  "dpms_kms_capable (st_dpms (emit_dpms_notify st)) = dpms_kms_capable (st_dpms st)"
  "dpms_last_activity (st_dpms (emit_dpms_notify st)) = dpms_last_activity (st_dpms st)"
  "dpms_standby_ms (st_dpms (emit_dpms_notify st)) = dpms_standby_ms (st_dpms st)"
  "dpms_suspend_ms (st_dpms (emit_dpms_notify st)) = dpms_suspend_ms (st_dpms st)"
  "dpms_off_ms (st_dpms (emit_dpms_notify st)) = dpms_off_ms (st_dpms st)"
  by (simp_all add: emit_dpms_notify_def Let_def split_beta fanout_keeps)

lemma saver_notify_keeps [simp]:
  "st_dpms (emit_screen_saver_notify s f st) = st_dpms st"
  "st_sync_alarms (emit_screen_saver_notify s f st) = st_sync_alarms st"
  "st_per_device_last_activity (emit_screen_saver_notify s f st) = st_per_device_last_activity st"
  "st_idletime_last_evaluated (emit_screen_saver_notify s f st) = st_idletime_last_evaluated st"
  "ss_active (st_screensaver (emit_screen_saver_notify s f st)) = ss_active (st_screensaver st)"
  "ss_timeout_ms (st_screensaver (emit_screen_saver_notify s f st)) = ss_timeout_ms (st_screensaver st)"
  "ss_interval_ms (st_screensaver (emit_screen_saver_notify s f st)) = ss_interval_ms (st_screensaver st)"
  "ss_suspend_counts (st_screensaver (emit_screen_saver_notify s f st)) = ss_suspend_counts (st_screensaver st)"
  "ss_next_cycle (st_screensaver (emit_screen_saver_notify s f st)) = ss_next_cycle (st_screensaver st)"
  by (simp_all add: emit_screen_saver_notify_def Let_def split_beta fanout_keeps)

lemma saver_transition_keeps [simp]:
  "st_dpms (apply_screen_saver_transition now s f st) = st_dpms st"
  "st_sync_alarms (apply_screen_saver_transition now s f st) = st_sync_alarms st"
  "st_per_device_last_activity (apply_screen_saver_transition now s f st) = st_per_device_last_activity st"
  "ss_timeout_ms (st_screensaver (apply_screen_saver_transition now s f st)) = ss_timeout_ms (st_screensaver st)"
  "ss_interval_ms (st_screensaver (apply_screen_saver_transition now s f st)) = ss_interval_ms (st_screensaver st)"
  "ss_suspend_counts (st_screensaver (apply_screen_saver_transition now s f st)) =
    ss_suspend_counts (st_screensaver st)"
  "ss_active (st_screensaver (apply_screen_saver_transition now s f st)) =
    (if s = SaverCycle then ss_active (st_screensaver st) else s)"
  by (simp_all add: apply_screen_saver_transition_def)

lemma saver_transition_cycle:
  "ss_next_cycle (st_screensaver (apply_screen_saver_transition now SaverOn f st)) =
    (if ss_active (st_screensaver st) = SaverOn then ss_next_cycle (st_screensaver st)
     else if ss_interval_ms (st_screensaver st) > 0
          then Some (now + unat (ss_interval_ms (st_screensaver st))) else None)"
  by (simp add: apply_screen_saver_transition_def)

lemma dpms_transition_keeps [simp]:
  "st_sync_alarms (apply_dpms_transition now l st) = st_sync_alarms st"
  "st_per_device_last_activity (apply_dpms_transition now l st) = st_per_device_last_activity st"
  "dpms_power_level (st_dpms (apply_dpms_transition now l st)) = l"
  "dpms_enabled (st_dpms (apply_dpms_transition now l st)) = dpms_enabled (st_dpms st)"
  "dpms_kms_capable (st_dpms (apply_dpms_transition now l st)) = dpms_kms_capable (st_dpms st)"
  "dpms_last_activity (st_dpms (apply_dpms_transition now l st)) = dpms_last_activity (st_dpms st)"
  "dpms_standby_ms (st_dpms (apply_dpms_transition now l st)) = dpms_standby_ms (st_dpms st)"
  "dpms_suspend_ms (st_dpms (apply_dpms_transition now l st)) = dpms_suspend_ms (st_dpms st)"
  "dpms_off_ms (st_dpms (apply_dpms_transition now l st)) = dpms_off_ms (st_dpms st)"
  "ss_interval_ms (st_screensaver (apply_dpms_transition now l st)) = ss_interval_ms (st_screensaver st)"
  "ss_timeout_ms (st_screensaver (apply_dpms_transition now l st)) = ss_timeout_ms (st_screensaver st)"
  "ss_suspend_counts (st_screensaver (apply_dpms_transition now l st)) = ss_suspend_counts (st_screensaver st)"
  by (simp_all add: apply_dpms_transition_def Let_def)

lemma dpms_transition_saver [simp]:
  "ss_active (st_screensaver (apply_dpms_transition now l st)) =
    (if ss_active (st_screensaver st) = SaverCycle then SaverCycle
     else if l = 0 then SaverOff else SaverOn)"
  by (cases "ss_active (st_screensaver st)") (simp_all add: apply_dpms_transition_def Let_def)

lemma evaluate_alarm_keeps:
  "st_dpms (evaluate_alarm old new time i st) = st_dpms st"
  "st_screensaver (evaluate_alarm old new time i st) = st_screensaver st"
  "st_per_device_last_activity (evaluate_alarm old new time i st) = st_per_device_last_activity st"
  by (simp_all add: evaluate_alarm_def Let_def fanout_keeps split: option.split)

lemma evaluate_alarms_keeps [simp]:
  "st_dpms (evaluate_alarms_for_counter c old new st) = st_dpms st"
  "st_screensaver (evaluate_alarms_for_counter c old new st) = st_screensaver st"
  "st_per_device_last_activity (evaluate_alarms_for_counter c old new st) = st_per_device_last_activity st"
proof -
  have "st_dpms (fold (evaluate_alarm old new time) is st) = st_dpms st \<and>
    st_screensaver (fold (evaluate_alarm old new time) is st) = st_screensaver st \<and>
    st_per_device_last_activity (fold (evaluate_alarm old new time) is st) = st_per_device_last_activity st" for time "is"
    by (induction "is" arbitrary: st) (simp_all add: evaluate_alarm_keeps)
  then show "st_dpms (evaluate_alarms_for_counter c old new st) = st_dpms st"
    "st_screensaver (evaluate_alarms_for_counter c old new st) = st_screensaver st"
    "st_per_device_last_activity (evaluate_alarms_for_counter c old new st) = st_per_device_last_activity st"
    unfolding evaluate_alarms_for_counter_def by blast+
qed

lemma set_evaluated_keeps [simp]:
  "st_dpms (set_evaluated c i st) = st_dpms st" "st_screensaver (set_evaluated c i st) = st_screensaver st"
  "st_per_device_last_activity (set_evaluated c i st) = st_per_device_last_activity st"
  "st_sync_alarms (set_evaluated c i st) = st_sync_alarms st"
  by (simp_all add: set_evaluated_def)

lemma wake_alarms_keeps [simp]:
  "st_dpms (evaluate_idletime_negative_alarms_on_input_wake d g p st) = st_dpms st"
  "st_screensaver (evaluate_idletime_negative_alarms_on_input_wake d g p st) = st_screensaver st"
  "st_per_device_last_activity (evaluate_idletime_negative_alarms_on_input_wake d g p st) =
    st_per_device_last_activity st"
  by (simp_all add: evaluate_idletime_negative_alarms_on_input_wake_def Let_def)

lemma idle_alarms_keeps [simp]:
  "st_dpms (evaluate_idletime_alarms_post_poll now st) = st_dpms st"
  "st_screensaver (evaluate_idletime_alarms_post_poll now st) = st_screensaver st"
  "st_per_device_last_activity (evaluate_idletime_alarms_post_poll now st) = st_per_device_last_activity st"
  by (simp_all add: evaluate_idletime_alarms_post_poll_def evaluate_idletime_counter_def Let_def)

section \<open>The invariant\<close>

definition timers_ok :: "ServerState \<Rightarrow> bool" where
  "timers_ok st \<longleftrightarrow> dpms_power_level (st_dpms st) \<le> 3 \<and> ss_active (st_screensaver st) \<noteq> SaverCycle \<and>
     (\<not> dpms_enabled (st_dpms st) \<longrightarrow> dpms_power_level (st_dpms st) = 0)"

datatype TimerStep =
    Input nat u8
  | PollReturns nat
  | DpmsRequest nat ClientId u16 u8 "u8 list"
  | ScreenSaverRequest nat ClientId u16 u8 "u8 list"
  | SetScreenSaver ClientId u16 "u8 list"
  | ForceScreenSaver nat ClientId u16 u8

primrec timer_step :: "TimerStep \<Rightarrow> ServerState \<Rightarrow> ServerState" where
  "timer_step (Input now d) st = input_wake now d st"
| "timer_step (PollReturns now) st = post_poll now st"
| "timer_step (DpmsRequest now c s minor body) st = fst (handle_dpms_request now c s minor body st)"
| "timer_step (ScreenSaverRequest now c s minor body) st =
     fst (handle_screen_saver_request now c s minor body st)"
| "timer_step (SetScreenSaver c s body) st = fst (handle_set_screen_saver c s body st)"
| "timer_step (ForceScreenSaver now c s mode) st = fst (handle_force_screen_saver now c s mode st)"

lemma reply_keeps [simp]:
  "st_dpms (fst (send_reply c f st)) = st_dpms st"
  "st_screensaver (fst (send_reply c f st)) = st_screensaver st"
  using send_reply_same [of st c f] by (auto simp: same_but_clients_def)

lemma error_keeps [simp]:
  "st_dpms (fst (emit_x11_error_with_minor c s code v m j st)) = st_dpms st"
  "st_screensaver (fst (emit_x11_error_with_minor c s code v m j st)) = st_screensaver st"
  "st_dpms (fst (emit_x11_error c s code v j st)) = st_dpms st"
  "st_screensaver (fst (emit_x11_error c s code v j st)) = st_screensaver st"
  by (simp_all add: emit_x11_error_with_minor_def emit_x11_error_def)

lemma next_level_le: "l \<le> 3 \<Longrightarrow> next_dpms_level l idle d \<le> 3"
  by (simp add: next_dpms_level_def)

lemma timers_ok_cascade: "timers_ok st \<Longrightarrow> timers_ok (dpms_cascade now st)"
  by (auto simp: timers_ok_def dpms_cascade_def Let_def next_level_le due_def dpms_transition_deadline_def)

lemma timers_ok_wake: "timers_ok st \<Longrightarrow> timers_ok (input_wake now d st)"
  by (auto simp: timers_ok_def input_wake_def Let_def)

lemma timers_ok_poll: "timers_ok st \<Longrightarrow> timers_ok (post_poll now st)"
  using timers_ok_cascade [of st now]
  by (auto simp: timers_ok_def post_poll_def evaluate_screen_saver_post_poll_def Let_def)

lemma level_word: "\<not> (3 :: u16) < l \<Longrightarrow> (ucast l :: u8) \<le> 3"
  by (simp add: word_le_nat_alt word_less_nat_alt unsigned_ucast_eq take_bit_nat_eq_self)

lemma timers_ok_dpms:
  assumes "timers_ok st"
  shows "timers_ok (fst (handle_dpms_request now c s minor body st))"
proof -
  have "timers_ok st'" if "dpms_update now c minor body st = Inr st'" for st'
    using that assms
    by (auto simp: dpms_update_def dpms_set_timeouts_def dpms_enable_def dpms_disable_def
        dpms_force_level_def dpms_select_input_def Let_def timers_ok_def level_word
        split: if_splits option.splits)
  then show ?thesis
    using assms by (auto simp: handle_dpms_request_def dpms_error_def timers_ok_def
        split: option.split sum.split)
qed

lemma timers_ok_step: "timers_ok st \<Longrightarrow> timers_ok (timer_step e st)"
proof (cases e)
  case (ScreenSaverRequest now c s minor body)
  assume "timers_ok st"
  then show ?thesis
    by (auto simp: ScreenSaverRequest handle_screen_saver_request_def timers_ok_def saver_select_input_def
        saver_suspend_def Let_def reset_idletime_state_after_suspend_release_def
        split: option.split)
next
  case (SetScreenSaver c s body)
  assume "timers_ok st"
  then show ?thesis by (auto simp: SetScreenSaver handle_set_screen_saver_def timers_ok_def Let_def)
next
  case (ForceScreenSaver now c s mode)
  assume "timers_ok st"
  then show ?thesis by (auto simp: ForceScreenSaver handle_force_screen_saver_def timers_ok_def Let_def)
qed (simp_all add: timers_ok_wake timers_ok_poll timers_ok_dpms)

text \<open>
  Claim C29. Whatever the clients request, however input and polls interleave: the power level is one of the four
  levels, it is On while DPMS is disabled, and the value \<open>Cycle\<close>, which exists for events only, is never
  the state of the saver.
\<close>

theorem timers_stay_well_typed:
  assumes "timers_ok st"
  shows "timers_ok (fold timer_step steps st)"
  using assms by (induction steps arbitrary: st) (simp_all add: timers_ok_step)

lemma timers_stay_well_typed_witness: "timers_ok (fold timer_step [Input 5 2, PollReturns 700000] server_new)"
  by (rule timers_stay_well_typed) (simp add: timers_ok_def server_new_def dpms_new_def screensaver_new_def)

text \<open>
  Input wakes the screen: whatever power level and saver state it meets, afterwards the level is On, the
  saver is off, and both idle clocks start again at the time of the event.
\<close>

theorem input_wakes_the_screen:
  assumes "timers_ok st"
  shows "dpms_power_level (st_dpms (input_wake now d st)) = 0 \<and>
    ss_active (st_screensaver (input_wake now d st)) = SaverOff \<and>
    dpms_last_activity (st_dpms (input_wake now d st)) = now \<and>
    hm_get (st_per_device_last_activity (input_wake now d st)) d = Some now"
  using assms
  by (cases "ss_active (st_screensaver st)") (auto simp: timers_ok_def input_wake_def Let_def)

lemma input_wakes_the_screen_witness:
  "ss_active (st_screensaver (input_wake 9 2 (timer_step (ForceScreenSaver 5 0 0 1) server_new))) = SaverOff"
  using input_wakes_the_screen [OF timers_ok_step [of server_new], of 9 2 "ForceScreenSaver 5 0 0 1"]
  by (simp add: timers_ok_def server_new_def dpms_new_def screensaver_new_def)

section \<open>Deadlines after a poll\<close>

lemma next_timeout_later:
  "dpms_next_timeout (d\<lparr>dpms_power_level := next_dpms_level l idle d\<rparr>) = Some ms \<Longrightarrow> idle < ms"
proof -
  have "(l :: u8) < 1 \<Longrightarrow> l < 2" "l < 2 \<Longrightarrow> l < 3" by unat_arith+
  then show "dpms_next_timeout (d\<lparr>dpms_power_level := next_dpms_level l idle d\<rparr>) = Some ms \<Longrightarrow> idle < ms"
    by (auto simp: dpms_next_timeout_def next_dpms_level_def push_ms_def Let_def min_def not_le
        split: if_splits option.splits)
qed

lemma same_next_timeout:
  assumes "dpms_power_level d' = dpms_power_level d" "dpms_standby_ms d' = dpms_standby_ms d"
    "dpms_suspend_ms d' = dpms_suspend_ms d" "dpms_off_ms d' = dpms_off_ms d"
  shows "dpms_next_timeout d' = dpms_next_timeout d"
  using assms by (simp add: dpms_next_timeout_def Let_def)

lemma idle_word_less:
  assumes "(word_of_nat (min (now - last_input) (2 ^ 32 - 1)) :: u32) < ms"
  shows "now < last_input + unat ms"
proof -
  let ?idle = "min (now - last_input) (2 ^ 32 - 1)"
  have "unat (word_of_nat ?idle :: u32) = ?idle"
    by (rule unat_of_nat_id) simp
  then have "?idle < unat ms" using assms by (simp add: word_less_nat_alt)
  moreover have "unat ms < 2 ^ 32" using unsigned_less [of ms] by simp
  ultimately show ?thesis by (auto simp: min_def split: if_splits)
qed

lemma dpms_deadline_ahead:
  assumes "dpms_transition_deadline (dpms_cascade now st) = Some t"
  shows "now < t"
proof (cases "due now (dpms_transition_deadline st)")
  case False
  then show ?thesis using assms by (simp add: dpms_cascade_def due_def)
next
  case True
  define d where "d = st_dpms st"
  define idle :: u32 where "idle = word_of_nat (min (now - dpms_last_activity d) (2 ^ 32 - 1))"
  define l where "l = next_dpms_level (dpms_power_level d) idle d"
  have c: "dpms_cascade now st = (if l \<noteq> dpms_power_level d then apply_dpms_transition now l st else st)"
    using True by (simp add: dpms_cascade_def Let_def l_def idle_def d_def)
  let ?d = "st_dpms (dpms_cascade now st)"
  have "dpms_next_timeout ?d = dpms_next_timeout (d\<lparr>dpms_power_level := l\<rparr>)"
    by (rule same_next_timeout) (simp_all add: c d_def)
  then have later: "dpms_next_timeout ?d = Some ms \<Longrightarrow> idle < ms" for ms
    using next_timeout_later [of "dpms_power_level d" idle d] by (simp add: l_def)
  have last: "dpms_last_activity ?d = dpms_last_activity d" by (simp add: c d_def)
  obtain ms where ms: "dpms_next_timeout ?d = Some ms" "t = dpms_last_activity ?d + unat ms"
    using assms by (auto simp: dpms_transition_deadline_def Let_def split: if_splits)
  then show ?thesis using idle_word_less [of now "dpms_last_activity d" ms] later [OF ms(1)]
    by (simp add: idle_def last)
qed

lemma same_dpms_deadline:
  assumes "st_dpms st' = st_dpms st"
    "ss_suspend_counts (st_screensaver st') = ss_suspend_counts (st_screensaver st)"
  shows "dpms_transition_deadline st' = dpms_transition_deadline st"
  using assms by (simp add: dpms_transition_deadline_def Let_def)

lemma saver_poll_keeps [simp]:
  "st_dpms (evaluate_screen_saver_post_poll now st) = st_dpms st"
  "ss_suspend_counts (st_screensaver (evaluate_screen_saver_post_poll now st)) =
    ss_suspend_counts (st_screensaver st)"
  "ss_interval_ms (st_screensaver (evaluate_screen_saver_post_poll now st)) = ss_interval_ms (st_screensaver st)"
  by (simp_all add: evaluate_screen_saver_post_poll_def Let_def)

lemma saver_idle_ahead:
  "screensaver_idle_deadline (evaluate_screen_saver_post_poll now st) = Some t \<Longrightarrow> now < t"
  by (auto simp: evaluate_screen_saver_post_poll_def screensaver_idle_deadline_def Let_def due_def
      split: if_splits)

lemma saver_cycle_ahead:
  assumes "ss_interval_ms (st_screensaver st) \<noteq> 0"
  shows "screensaver_cycle_deadline (evaluate_screen_saver_post_poll now st) = Some t \<Longrightarrow> now < t"
proof -
  have "0 < unat (ss_interval_ms (st_screensaver st))" using assms by (simp add: unat_gt_0)
  then show "screensaver_cycle_deadline (evaluate_screen_saver_post_poll now st) = Some t \<Longrightarrow> now < t"
    by (auto simp: evaluate_screen_saver_post_poll_def screensaver_cycle_deadline_def Let_def due_def
        split: if_splits)
qed

lemma alarm_ahead:
  assumes "now < 2 ^ 32" "alarm_fire_at now st a = Some t"
  shows "now < t"
  using assms
  by (auto simp: alarm_fire_at_def Let_def idle_since_def min_def not_le split: if_splits)

lemma foldl_earlier:
  "foldl earlier e xs = Some t \<Longrightarrow> e = Some t \<or> Some t \<in> set xs"
proof (induction xs arbitrary: e)
  case (Cons x xs)
  then have "earlier e x = Some t \<or> Some t \<in> set xs" by simp
  then show ?case by (auto simp: earlier_def min_def split: option.splits if_splits)
qed simp

lemma timer_deadline_member:
  "timer_deadline now st = Some t \<Longrightarrow>
    Some t \<in> {dpms_transition_deadline st, screensaver_idle_deadline st, screensaver_cycle_deadline st,
      idletime_alarm_deadline now st}"
  unfolding timer_deadline_def by (drule foldl_earlier) auto

lemma idletime_ahead:
  assumes "now < 2 ^ 32" "idletime_alarm_deadline now st = Some t"
  shows "now < t"
proof -
  have "Some t \<in> alarm_fire_at now st ` set (hm_values (st_sync_alarms st))"
    using assms(2) foldl_earlier [of None "map (alarm_fire_at now st) (hm_values (st_sync_alarms st))" t]
    by (auto simp: idletime_alarm_deadline_def split: if_splits)
  then show ?thesis using alarm_ahead [OF assms(1)] by force
qed



text \<open>
  An interval of zero breaks it. SetScreenSaver may set it while the saver is active with a cycle
  scheduled; from then on every poll finds the deadline of the cycle due, sends a Cycle event and
  schedules the next one for the same instant. The activation itself schedules no cycle for an interval
  of zero.
\<close>

theorem zero_interval_spins:
  assumes "ss_active (st_screensaver st) = SaverOn" "ss_next_cycle (st_screensaver st) = Some t"
    and "ss_suspend_counts (st_screensaver st) = []" "dpms_power_level (st_dpms st) = 0"
    and "\<not> dpms_enabled (st_dpms st)" "sorted (t # polls)" "polls \<noteq> []"
  shows "screensaver_cycle_deadline
    (fold post_poll polls (fst (handle_set_screen_saver client sequence [88, 2, 0, 0, 1, 1, 0, 0] st))) =
    Some (last polls)"
proof -
  define cycles where "cycles t st \<longleftrightarrow> ss_active (st_screensaver st) = SaverOn \<and>
    ss_next_cycle (st_screensaver st) = Some t \<and> ss_suspend_counts (st_screensaver st) = [] \<and>
    dpms_power_level (st_dpms st) = 0 \<and> \<not> dpms_enabled (st_dpms st) \<and>
    ss_interval_ms (st_screensaver st) = 0" for t and st :: ServerState
  have step: "cycles now (post_poll now st)" if "cycles t st" "t \<le> now" for t now st
    using that
    by (simp add: cycles_def post_poll_def dpms_cascade_def dpms_transition_deadline_def due_def
        evaluate_screen_saver_post_poll_def screensaver_idle_deadline_def screensaver_cycle_deadline_def Let_def)
  have steps: "cycles t st \<Longrightarrow> sorted (t # polls) \<Longrightarrow> cycles (last (t # polls)) (fold post_poll polls st)" for t st
  proof (induction polls arbitrary: t st)
    case (Cons now polls)
    then show ?case using Cons.IH [OF step [OF Cons.prems(1), of now]] by simp
  qed simp
  have "cycles t (fst (handle_set_screen_saver client sequence [88, 2, 0, 0, 1, 1, 0, 0] st))"
    using assms(1-5)
    by (simp add: cycles_def handle_set_screen_saver_def u16_le_at_def u16_from_le_bytes_def saver_seconds_def Let_def)
  then have "cycles (last (t # polls))
      (fold post_poll polls (fst (handle_set_screen_saver client sequence [88, 2, 0, 0, 1, 1, 0, 0] st)))"
    using steps assms(6) by blast
  then show ?thesis using assms(7) by (simp add: cycles_def screensaver_cycle_deadline_def)
qed

definition saver_active_state :: ServerState where
  "saver_active_state = fst (handle_force_screen_saver 0 0 0 1
     (server_new\<lparr>st_dpms := (st_dpms server_new)\<lparr>dpms_enabled := False\<rparr>\<rparr>))"

lemma zero_interval_spins_witness:
  "screensaver_cycle_deadline (fold post_poll [600000, 600000, 600007]
    (fst (handle_set_screen_saver 1 1 [88, 2, 0, 0, 1, 1, 0, 0] saver_active_state))) = Some 600007"
  using zero_interval_spins [of saver_active_state 600000 "[600000, 600000, 600007]" 1 1]
  by (simp add: saver_active_state_def handle_force_screen_saver_def apply_screen_saver_transition_def
      server_new_def screensaver_new_def dpms_new_def)

end
