(* ===== verification/InputClaims.thy ===== *)
theory InputClaims
  imports InputSteps DeviceSyncClaims TimerClaims
begin

text \<open>
  What holds of every sequence of input events and grab requests: no step gets stuck in a replay, and
  between steps no event waits for a device that is not frozen. Then what an active grab does to an
  event, and where AllowEvents leaves the queue of withheld events.
\<close>

section \<open>Steps that keep the queues at rest\<close>

definition keeps :: "ServerState \<Rightarrow> ServerState \<Rightarrow> bool" where
  "keeps st st' \<longleftrightarrow> queues_ok st' \<and> (\<forall>d \<in> {PTR, KBD}. settled st d \<longrightarrow> settled st' d)"

definition goes :: "ServerState \<Rightarrow> ServerState option \<Rightarrow> bool" where
  "goes st r \<longleftrightarrow> (\<exists>st'. r = Some st' \<and> keeps st st')"

text \<open>What the pointer warp of the backend has to respect.\<close>

definition warp_ok :: "warp \<Rightarrow> bool" where
  "warp_ok warp \<longleftrightarrow> (\<forall>st x y. queues_ok st \<longrightarrow> keeps st (warp st x y))"

lemma keeps_queues: "keeps st st' \<Longrightarrow> queues_ok st'"
  by (simp add: keeps_def)

lemma progress_keeps_all: "progress n st st' \<Longrightarrow> keeps st st'"
  by (simp add: progress_def keeps_def)

lemma quiet_keeps: "quiet st st' \<Longrightarrow> queues_ok st \<Longrightarrow> keeps st st'"
  by (rule progress_keeps_all [OF quiet_progress])

lemma keeps_trans [trans]: "keeps a b \<Longrightarrow> keeps b c \<Longrightarrow> keeps a c"
  by (simp add: keeps_def)

lemma keeps_refl: "queues_ok st \<Longrightarrow> keeps st st"
  by (simp add: keeps_def)

lemma keeps_rest: "keeps st st' \<Longrightarrow> at_rest st \<Longrightarrow> at_rest st'"
  by (simp add: keeps_def at_rest_def)

lemma rest_keeps: "at_rest st' \<Longrightarrow> keeps st st'"
  by (simp add: keeps_def at_rest_def)

lemma keeps_frozen: "keeps st st1 \<Longrightarrow> st_xi1_frozen st' = st_xi1_frozen st1 \<Longrightarrow> keeps st st'"
  by (rule keeps_trans [OF _ quiet_keeps [OF same_frozen_quiet]]) (auto simp: keeps_queues)

lemma goes_some: "keeps st st' \<Longrightarrow> goes st (Some st')"
  by (simp add: goes_def)

lemma goes_after: "keeps st st1 \<Longrightarrow> goes st1 r \<Longrightarrow> goes st r"
  unfolding goes_def using keeps_trans by blast

lemma goes_bind: "goes st r \<Longrightarrow> (\<And>s. keeps st s \<Longrightarrow> goes st (f s)) \<Longrightarrow> goes st (r \<bind> f)"
  by (auto simp: goes_def)

lemma goes_bind_fst:
  "goes st (map_option fst r) \<Longrightarrow> (\<And>s dr. keeps st s \<Longrightarrow> goes st (map_option fst (f (s, dr)))) \<Longrightarrow>
    goes st (map_option fst (r \<bind> f))"
  by (auto simp: goes_def)

lemma goes_bind_pair:
  "goes st (map_option fst r) \<Longrightarrow> (\<And>s dr. keeps st s \<Longrightarrow> goes st (f (s, dr))) \<Longrightarrow> goes st (r \<bind> f)"
  by (auto simp: goes_def)

lemma goes_if: "(c \<Longrightarrow> goes st a) \<Longrightarrow> (\<not> c \<Longrightarrow> goes st b) \<Longrightarrow> goes st (if c then a else b)"
  by simp

lemma goes_case:
  "(x = None \<Longrightarrow> goes st a) \<Longrightarrow> (\<And>y. x = Some y \<Longrightarrow> goes st (f y)) \<Longrightarrow>
    goes st (case x of None \<Rightarrow> a | Some y \<Rightarrow> f y)"
  by (cases x) simp_all

lemma goes_case_fst:
  "(x = None \<Longrightarrow> goes st (map_option fst a)) \<Longrightarrow> (\<And>y. x = Some y \<Longrightarrow> goes st (map_option fst (f y))) \<Longrightarrow>
    goes st (map_option fst (case x of None \<Rightarrow> a | Some y \<Rightarrow> f y))"
  by (cases x) simp_all

lemma goes_if_fst:
  "(c \<Longrightarrow> goes st (map_option fst a)) \<Longrightarrow> (\<not> c \<Longrightarrow> goes st (map_option fst b)) \<Longrightarrow>
    goes st (map_option fst (if c then a else b))"
  by simp

lemma goes_some_fst: "keeps st (fst x) \<Longrightarrow> goes st (map_option fst (Some x))"
  by (simp add: goes_some)

lemma goes_replay:
  assumes "queues_ok st"
  shows "goes st (xi1_compute_freezes st)"
  using rests_after [OF assms] by (auto simp: goes_def intro: rest_keeps)

lemma goes_check_grab:
  assumes "queues_ok st"
  shows "goes st (xi1_check_grab_for_syncs xi1_compute_freezes d owner a b st)"
  unfolding goes_def using check_grab_replays [OF compute_freezes_replays assms order_refl]
  by (blast intro: progress_keeps_all)

lemma goes_bridge:
  assumes "queues_ok st"
  shows "goes st (xi1_core_grab_bridge_release xi1_compute_freezes d owner st)"
  unfolding goes_def using bridge_release_replays [OF compute_freezes_replays assms order_refl]
  by (blast intro: progress_keeps_all)

lemma goes_route:
  assumes "queues_ok st"
  shows "goes st (map_option fst (xi1_route_device_event xi1_compute_freezes q allow st))"
  using route_progress [OF compute_freezes_replays assms order_refl]
  by (fastforce simp: goes_def intro: progress_keeps_all)

lemma goes_routed_key:
  assumes "queues_ok st"
  shows "goes st (map_option fst (deliver_routed_key xi1_compute_freezes e st))"
  using routed_key_progress [OF compute_freezes_replays assms order_refl]
  by (fastforce simp: goes_def intro: progress_keeps_all)

lemma goes_focused_key:
  assumes "queues_ok st"
  shows "goes st (map_option fst (deliver_xi1_focused_key xi1_compute_freezes e st))"
  using focused_key_progress [OF compute_freezes_replays assms order_refl]
  by (fastforce simp: goes_def intro: progress_keeps_all)

section \<open>The timers leave the devices alone\<close>

lemma fanout_frozen [simp]: "st_xi1_frozen (fst (fanout_event_to_clients ids enc st)) = st_xi1_frozen st"
  by (rule same_but_clients_fields(1) [OF fanout_same])

lemma dpms_notify_frozen [simp]: "st_xi1_frozen (emit_dpms_notify st) = st_xi1_frozen st"
  by (simp add: emit_dpms_notify_def Let_def split_beta)

lemma saver_notify_frozen [simp]: "st_xi1_frozen (emit_screen_saver_notify s f st) = st_xi1_frozen st"
  by (simp add: emit_screen_saver_notify_def Let_def split_beta)

lemma saver_transition_frozen [simp]:
  "st_xi1_frozen (apply_screen_saver_transition now s f st) = st_xi1_frozen st"
  by (simp add: apply_screen_saver_transition_def)

lemma dpms_transition_frozen [simp]: "st_xi1_frozen (apply_dpms_transition now l st) = st_xi1_frozen st"
  by (simp add: apply_dpms_transition_def Let_def)

lemma evaluate_alarms_frozen [simp]:
  "st_xi1_frozen (evaluate_alarms_for_counter c old new st) = st_xi1_frozen st"
proof -
  have "st_xi1_frozen (evaluate_alarm old new time i st) = st_xi1_frozen st" for time i st
    by (simp add: evaluate_alarm_def Let_def split: option.split)
  then have "st_xi1_frozen (fold (evaluate_alarm old new time) is st) = st_xi1_frozen st" for time "is"
    by (induction "is" arbitrary: st) simp_all
  then show ?thesis unfolding evaluate_alarms_for_counter_def by blast
qed

lemma set_evaluated_frozen [simp]: "st_xi1_frozen (set_evaluated c i st) = st_xi1_frozen st"
  by (simp add: set_evaluated_def)

lemma input_wake_frozen [simp]: "st_xi1_frozen (input_wake now d st) = st_xi1_frozen st"
  by (simp add: input_wake_def Let_def evaluate_idletime_negative_alarms_on_input_wake_def)

lemma post_poll_frozen [simp]: "st_xi1_frozen (post_poll now st) = st_xi1_frozen st"
  by (simp add: post_poll_def dpms_cascade_def evaluate_screen_saver_post_poll_def
      evaluate_idletime_alarms_post_poll_def evaluate_idletime_counter_def Let_def)

section \<open>Pointer events\<close>

lemma deliver_frozen [simp]: "st_xi1_frozen (fst (deliver ids enc r)) = st_xi1_frozen (fst r)"
  by (simp add: deliver_def case_prod_beta)

lemma warp_keeps: "warp_ok warp \<Longrightarrow> queues_ok st \<Longrightarrow> keeps st (warp st x y)"
  by (simp add: warp_ok_def)

lemma keeps_same: "queues_ok st \<Longrightarrow> st_xi1_frozen st' = st_xi1_frozen st \<Longrightarrow> keeps st st'"
  by (rule quiet_keeps [OF same_frozen_quiet])

lemma confine_now_keeps:
  assumes "warp_ok warp" "queues_ok st"
  shows "keeps st (confine_pointer_now warp st)"
  using assms unfolding confine_pointer_now_def Let_def
  by (auto intro: warp_keeps keeps_same split: option.split prod.split)

lemma confine_event_keeps:
  assumes warp: "warp_ok warp" and st: "queues_ok st"
  shows "keeps st (fst (confine_event warp e st))"
proof -
  have a: "keeps st (st\<lparr>st_confine_warp_active := True\<rparr>)" by (rule keeps_same [OF st]) simp
  have "keeps st (warp (st\<lparr>st_confine_warp_active := True\<rparr>) x y)" for x y
    by (rule keeps_trans [OF a warp_keeps [OF warp keeps_queues [OF a]]])
  then have w: "keeps st ((warp (st\<lparr>st_confine_warp_active := True\<rparr>) x y)\<lparr>st_confine_warp_active := False\<rparr>)" for x y
    by (rule keeps_frozen) simp
  show ?thesis unfolding confine_event_def Let_def
    using w keeps_same [OF st, of st] by (auto split: option.split prod.split)
qed

lemma redirect_frozen [simp]:
  "st_xi1_frozen (fst (fst (redirect_to_grab handle_grabs e target r))) = st_xi1_frozen (fst r)"
  by (simp add: redirect_to_grab_def split: option.split)

lemma activating_press_frozen [simp]:
  "st_xi1_frozen (fst (fst (deliver_activating_press g e hit r))) = st_xi1_frozen (fst r)"
  by (simp add: deliver_activating_press_def Let_def split: option.split)

lemma propagate_frozen [simp]: "st_xi1_frozen (fst (propagate is_replay e hit top_level r)) = st_xi1_frozen (fst r)"
  by (simp add: propagate_def Let_def case_prod_beta)

lemma advance_frozen [simp]: "st_xi1_frozen (fst (advance_scroll_axis e st)) = st_xi1_frozen st"
  by (simp add: advance_scroll_axis_def Let_def case_prod_beta split: option.split)

lemma xi2_fanout_frozen [simp]: "st_xi1_frozen (fst (xi2_fanout handle_grabs e hit top_level r)) = st_xi1_frozen (fst r)"
  by (simp add: xi2_fanout_def Let_def case_prod_beta split: option.split)

lemma release_passive_goes:
  assumes "queues_ok st"
  shows "goes st (release_passive_grab_on_button_release kind st)"
proof -
  let ?st = "st\<lparr>st_pointer_grab := None, st_pointer_grab_is_passive := False,
    st_frozen_pointer_event := None, st_pointer_confine_to := 0\<rparr>"
  have k: "keeps st ?st" by (rule keeps_same [OF assms]) simp
  show ?thesis
    unfolding release_passive_grab_on_button_release_def Let_def
    by (intro goes_if goes_case goes_some k keeps_same [OF assms] refl
        goes_after [OF k goes_bridge [OF keeps_queues [OF k]]])
qed

lemma activate_goes:
  assumes warp: "warp_ok warp" and st: "queues_ok (fst r)"
  shows "goes (fst r) (map_option fst (activate_button_grab warp g e hit r))"
proof -
  define s where "s = (fst r)\<lparr>st_pointer_grab := Some (bg_owner g, bg_window g), st_pointer_grab_is_passive := True\<rparr>"
  define p where "p = deliver_activating_press g e hit (s, snd r)"
  define t where "t = (if snd p \<and> bg_pointer_mode g = 0 then (fst (fst p))\<lparr>st_frozen_pointer_event := Some e\<rparr> else fst (fst p))"
  have t: "keeps (fst r) t" by (rule keeps_same [OF st]) (simp add: t_def p_def s_def)
  have "goes t (xi1_check_grab_for_syncs xi1_compute_freezes DEVICEID_SLAVE_POINTER (bg_owner g)
      (bg_pointer_mode g = 0) (bg_keyboard_mode g = 0) t)"
    by (rule goes_check_grab [OF keeps_queues [OF t]])
  then obtain u where u: "xi1_check_grab_for_syncs xi1_compute_freezes DEVICEID_SLAVE_POINTER (bg_owner g)
      (bg_pointer_mode g = 0) (bg_keyboard_mode g = 0) t = Some u" "keeps t u"
    unfolding goes_def by blast
  let ?u = "u\<lparr>st_pointer_confine_to := bg_confine_to g\<rparr>"
  have ku: "keeps (fst r) ?u" by (rule keeps_frozen [OF keeps_trans [OF t u(2)]]) simp
  have "keeps (fst r) (if bg_confine_to g \<noteq> 0 then confine_pointer_now warp ?u else ?u)"
    by (rule if_split [THEN iffD2]) (use ku keeps_trans [OF ku confine_now_keeps [OF warp keeps_queues [OF ku]]] in blast)
  moreover have "map_option fst (activate_button_grab warp g e hit r) =
      Some (if bg_confine_to g \<noteq> 0 then confine_pointer_now warp ?u else ?u)"
    using u(1) unfolding activate_button_grab_def Let_def t_def p_def s_def
    by (simp add: case_prod_beta)
  ultimately show ?thesis by (simp only: goes_some)
qed

lemma core_fanout_goes:
  assumes warp: "warp_ok warp" and st: "queues_ok (fst r)"
  shows "goes (fst r) (map_option fst (core_fanout warp xid_map handle_grabs is_replay e hit top_level r))"
proof -
  define p where "p = redirect_to_grab handle_grabs e (fst hit) r"
  have p: "keeps (fst r) (fst (fst p))" by (rule keeps_same [OF st]) (simp add: p_def)
  obtain s where s: "release_passive_grab_on_button_release (hp_kind e) (fst (fst p)) = Some s" "keeps (fst (fst p)) s"
    using release_passive_goes [OF keeps_queues [OF p]] unfolding goes_def by blast
  have ks: "keeps (fst r) s" by (rule keeps_trans [OF p s(2)])
  have act: "goes (fst r) (map_option fst (activate_button_grab warp g e hit (s, dr)))" for g dr
    by (rule goes_after [OF ks activate_goes [OF warp, where r = "(s, dr)", unfolded fst_conv, OF keeps_queues [OF ks]]])
  have pg: "goes (fst r) (map_option fst (Some (if c then propagate is_replay e hit tlw (s, dr) else (s, dr))))" for c tlw dr
    using keeps_frozen [OF ks, of "fst (propagate is_replay e hit tlw (s, dr))"] ks by (simp add: goes_some)
  show ?thesis
    unfolding core_fanout_def p_def [symmetric] case_prod_beta s(1) bind.bind_lunit Let_def fst_conv snd_conv
    by (rule goes_case_fst) (rule pg, rule act)
qed

lemma xi1_fanout_goes:
  assumes "queues_ok (fst r)"
  shows "goes (fst r) (map_option fst (xi1_fanout e hit r))"
proof (cases "xi1_offset (hp_kind e)")
  case None
  then show ?thesis by (simp add: xi1_fanout_def goes_some keeps_same [OF assms])
next
  case (Some offset)
  then show ?thesis unfolding xi1_fanout_def option.case Some
    by (intro goes_bind_fst [OF goes_route [OF assms]]) (simp add: goes_some)
qed

lemma fanout_translated_goes:
  assumes warp: "warp_ok warp" and st: "queues_ok st"
  shows "goes st (map_option fst (fanout_translated warp xid_map handle_grabs is_replay e st))"
  unfolding fanout_translated_def Let_def
proof (rule goes_bind_fst)
  show "goes st (map_option fst (core_fanout warp xid_map handle_grabs is_replay e
      (target_of_event st xid_map e) (top_level_of_event st xid_map e) (st, [])))"
    using core_fanout_goes [OF warp, of "(st, [])"] st by simp
next
  fix s dr
  assume s: "keeps st s"
  have "goes st (map_option fst (xi1_fanout e (target_of_event st xid_map e) (s, dr)))"
    using goes_after [OF s xi1_fanout_goes [of "(s, dr)", unfolded fst_conv, OF keeps_queues [OF s]]] .
  then have "goes st (map_option fst (xi1_fanout e (target_of_event st xid_map e) (s, dr) \<bind>
      (\<lambda>r. Some (case top_level_of_event st xid_map e of None \<Rightarrow> r
        | Some tlw \<Rightarrow> xi2_fanout handle_grabs e (target_of_event st xid_map e) tlw r))))"
    by (rule goes_bind_fst)
      (auto intro!: goes_some intro: keeps_frozen split: option.split)
  then show "goes st (map_option fst (if is_replay then Some (s, dr)
      else do {
        r \<leftarrow> xi1_fanout e (target_of_event st xid_map e) (s, dr);
        Some (case top_level_of_event st xid_map e of None \<Rightarrow> r
              | Some tlw \<Rightarrow> xi2_fanout handle_grabs e (target_of_event st xid_map e) tlw r)
      }))"
    using s by (simp add: goes_some)
qed

lemma track_buttons_frozen [simp]: "st_xi1_frozen (track_buttons e st) = st_xi1_frozen st"
  by (simp add: track_buttons_def Let_def)

lemma pointer_fanout_goes:
  assumes warp: "warp_ok warp" and st: "queues_ok st"
  shows "goes st (map_option fst (pointer_event_fanout_to_state warp now xid_map handle_grabs is_replay event st))"
proof (cases "map_button st event")
  case None
  then show ?thesis by (simp add: pointer_event_fanout_to_state_def goes_some keeps_same [OF st])
next
  case (Some e)
  define p where "p = (if is_replay then (track_buttons e st, e) else confine_event warp e (track_buttons e st))"
  have t: "keeps st (track_buttons e st)" by (rule keeps_same [OF st]) simp
  have kp: "keeps st (fst p)"
    using t keeps_trans [OF t confine_event_keeps [OF warp keeps_queues [OF t]]] by (simp add: p_def)
  define e' where "e' = translate_host_event (input_wake now 2 (fst p)) xid_map (snd p)"
  define s where "s = (input_wake now 2 (fst p))\<lparr>st_pointer_root := (hp_root_x e', hp_root_y e')\<rparr>"
  have ks: "keeps st s" by (rule keeps_frozen [OF kp]) (simp add: s_def)
  have f: "goes st (map_option fst (fanout_translated warp xid_map handle_grabs is_replay e' s))"
    by (rule goes_after [OF ks fanout_translated_goes [OF warp keeps_queues [OF ks]]])
  have q: "keeps st (s\<lparr>st_frozen_pointer_queue := x\<rparr>)" for x
    by (rule keeps_frozen [OF ks]) simp
  have "pointer_event_fanout_to_state warp now xid_map handle_grabs is_replay event st =
     (if pointer_withheld handle_grabs is_replay e' s
      then Some (s\<lparr>st_frozen_pointer_queue := st_frozen_pointer_queue s @ [e']\<rparr>, [])
      else fanout_translated warp xid_map handle_grabs is_replay e' s)"
    unfolding pointer_event_fanout_to_state_def Some option.case Let_def p_def [symmetric]
    by (simp only: case_prod_beta s_def e'_def)
  then show ?thesis using f q by (simp add: goes_some)
qed

section \<open>Key events\<close>

lemma device_queues_push_key:
  "device_queues (entry_freeze d (\<lambda>f. f\<lparr>fz_core_keys := fz_core_keys f @ [e]\<rparr>) st) d' =
    (if d' = d then (fst (device_queues st d) @ [e], snd (device_queues st d)) else device_queues st d')"
  by (simp add: entry_freeze_def device_queues_def Xi1Freeze_default_def split: option.split)

lemma push_key_keeps:
  assumes ok: "queues_ok st" and frozen: "device_frozen st d"
  shows "keeps st (entry_freeze d (\<lambda>f. f\<lparr>fz_core_keys := fz_core_keys f @ [e]\<rparr>) st)"
proof -
  let ?st = "entry_freeze d (\<lambda>f. f\<lparr>fz_core_keys := fz_core_keys f @ [e]\<rparr>) st"
  have fr: "device_frozen ?st d' = device_frozen st d'" for d'
    using frozen by (auto simp: entry_freeze_def device_frozen_def frozen_def split: option.splits)
  have "settled ?st d'" if "settled st d'" for d'
    using that frozen by (cases "d' = d") (simp_all add: settled_def fr device_queues_push_key)
  moreover have "queues_ok ?st"
    using ok by (auto simp: queues_ok_def device_queues_push_key)
  ultimately show ?thesis by (simp add: keeps_def)
qed

lemma key_fanout_goes:
  assumes st: "queues_ok st"
  shows "goes st (map_option fst (key_event_fanout_to_state now event st))"
proof -
  define s where "s = input_wake now 3 (st\<lparr>st_keys_down := set_bit_in (hk_pressed event) (hk_keycode event) (st_keys_down st)\<rparr>)"
  have s: "keeps st s" by (rule keeps_same [OF st]) (simp add: s_def)
  show ?thesis
    unfolding key_event_fanout_to_state_def Let_def s_def [symmetric]
    using push_key_keeps [OF keeps_queues [OF s], of KBD event] goes_after [OF s goes_routed_key [OF keeps_queues [OF s]]]
    by (auto intro: goes_some keeps_trans [OF s])
qed

section \<open>Grab requests\<close>

lemma grab_chain_same [simp]: "same_but_clients st (emit_core_pointer_grab_chain a b mode st)"
  unfolding emit_core_pointer_grab_chain_def
  by (auto intro: same_but_clients_fold)

lemma grab_chain_frozen [simp]: "st_xi1_frozen (emit_core_pointer_grab_chain a b mode st) = st_xi1_frozen st"
  by (rule same_but_clients_fields(1) [OF grab_chain_same])

lemma core_focus_frozen [simp]: "st_xi1_frozen (emit_core_focus_transition a b mode st) = st_xi1_frozen st"
  by (rule same_but_clients_fields(1) [OF core_focus_same])

lemma deactivate_pointer_goes:
  assumes st: "queues_ok st"
  shows "goes st (deactivate_core_pointer_grab client_id st)"
proof -
  let ?st = "st\<lparr>st_pointer_confine_to := 0, st_pointer_grab := None, st_pointer_grab_is_passive := False,
    st_active_pointer_grab := None, st_frozen_pointer_event := None, st_frozen_pointer_queue := []\<rparr>"
  have k: "keeps st ?st" by (rule keeps_same [OF st]) simp
  show ?thesis
    unfolding deactivate_core_pointer_grab_def Let_def
    by (rule goes_bind [OF goes_after [OF k goes_bridge [OF keeps_queues [OF k]]]])
      (auto intro!: goes_some intro: keeps_frozen split: option.split)
qed

lemma deactivate_keyboard_goes:
  assumes st: "queues_ok st"
  shows "goes st (deactivate_core_keyboard_grab client_id st)"
proof -
  let ?st = "st\<lparr>st_active_keyboard_grab := None, st_frozen_keyboard_event := None\<rparr>"
  have k: "keeps st ?st" by (rule keeps_same [OF st]) simp
  show ?thesis
    unfolding deactivate_core_keyboard_grab_def
    by (intro goes_case goes_if goes_some keeps_refl [OF st]
        goes_bind [OF goes_after [OF k goes_bridge [OF keeps_queues [OF k]]]])
      (rule keeps_frozen, assumption, simp)
qed

lemma establish_pointer_goes:
  assumes warp: "warp_ok warp" and st: "queues_ok st"
  shows "goes st (establish_pointer_grab warp client_id data body st)"
proof -
  have k: "keeps st (st\<lparr>st_pointer_grab := g, st_pointer_grab_is_passive := False, st_active_pointer_grab := a,
      st_last_pointer_grab_time := t\<rparr>)" for g a t
    by (rule keeps_same [OF st]) simp
  show ?thesis
    unfolding establish_pointer_grab_def Let_def
  proof (rule goes_bind [OF goes_after [OF k goes_check_grab [OF keeps_queues [OF k]]]])
    fix s :: ServerState
    assume s: "keeps st s"
    have c: "keeps st ((emit_core_pointer_grab_chain w u 1 s)\<lparr>st_pointer_confine_to := c\<rparr>)" for w u c
      by (rule keeps_frozen [OF s]) simp
    show "goes st (Some (confine_pointer_now warp
        ((emit_core_pointer_grab_chain (unwrap_or (case st_active_pointer_grab st of None \<Rightarrow> None
            | Some g \<Rightarrow> if ap_owner g = client_id then Some (ap_window g) else None) (deepest_window_at_pointer s))
          (u32_le_at body 0) 1 s)\<lparr>st_pointer_confine_to := u32_le_at body 8\<rparr>)))"
      by (rule goes_some [OF keeps_trans [OF c confine_now_keeps [OF warp keeps_queues [OF c]]]])
  qed
qed

lemma establish_keyboard_goes:
  assumes st: "queues_ok st"
  shows "goes st (establish_keyboard_grab client_id data body st)"
proof -
  have k: "keeps st (st\<lparr>st_active_keyboard_grab := g, st_last_keyboard_grab_time := t\<rparr>)" for g t
    by (rule keeps_same [OF st]) simp
  show ?thesis
    unfolding establish_keyboard_grab_def Let_def
    by (rule goes_bind [OF goes_after [OF k goes_check_grab [OF keeps_queues [OF k]]]])
      (auto intro!: goes_some intro: keeps_frozen)
qed

lemma reply_goes: "keeps st s \<Longrightarrow> keeps st (fst (send_reply client_id f s))"
  by (rule keeps_trans [OF _ quiet_keeps [OF quiet_reply]]) (auto simp: keeps_queues)

lemma answered_keeps:
  "keeps st s \<Longrightarrow> keeps st (fst (send_grab_reply client_id sequence status s))"
  "keeps st s \<Longrightarrow> keeps st (fst (core_error client_id sequence err opcode s))"
  "keeps st s \<Longrightarrow> keeps st (fst (emit_x11_error client_id sequence code bad opcode s))"
  "keeps st s \<Longrightarrow> keeps st (fst (emit_x11_error_with_minor client_id sequence code bad minor opcode s))"
  by (simp_all add: send_grab_reply_def core_error_def emit_x11_error_def emit_x11_error_with_minor_def
      case_prod_beta reply_goes)

lemma core_grab_goes:
  assumes warp: "warp_ok warp" and st: "queues_ok st"
  shows "goes st (map_option fst (handle_grab_pointer warp client_id sequence data body st))"
    "goes st (map_option fst (handle_grab_keyboard client_id sequence data body st))"
    "goes st (handle_ungrab_pointer client_id body st)" "goes st (handle_ungrab_keyboard client_id body st)"
proof -
  note refl = keeps_refl [OF st]
  have reply: "goes st r \<Longrightarrow> goes st (map_option fst (do { s \<leftarrow> r; Some (send_grab_reply client_id sequence status s) }))"
    for r status
    unfolding goes_def by (elim exE conjE) (simp add: answered_keeps)
  show "goes st (map_option fst (handle_grab_pointer warp client_id sequence data body st))"
    unfolding handle_grab_pointer_def Let_def
    by (intro goes_if_fst goes_case_fst reply goes_if establish_pointer_goes [OF warp st] goes_some goes_some_fst
        answered_keeps refl)
  show "goes st (map_option fst (handle_grab_keyboard client_id sequence data body st))"
    unfolding handle_grab_keyboard_def Let_def
    by (intro goes_if_fst goes_case_fst reply goes_if establish_keyboard_goes [OF st] goes_some goes_some_fst
        answered_keeps refl)
  show "goes st (handle_ungrab_pointer client_id body st)" "goes st (handle_ungrab_keyboard client_id body st)"
    unfolding handle_ungrab_pointer_def handle_ungrab_keyboard_def
    by (intro goes_if goes_some refl deactivate_pointer_goes deactivate_keyboard_goes st)+
qed

lemma fst_if: "fst (if c then a else b) = (if c then fst a else fst b)"
  by simp

lemma passive_requests_keep:
  assumes st: "queues_ok st"
  shows "keeps st (fst (handle_grab_button client_id sequence data body st))"
    "keeps st (fst (handle_ungrab_button client_id sequence button body st))"
    "keeps st (fst (handle_change_active_pointer_grab client_id sequence body st))"
    "keeps st (fst (handle_grab_key client_id sequence data body st))"
    "keeps st (fst (handle_ungrab_key client_id sequence keycode body st))"
proof -
  note answers = answered_keeps [OF keeps_refl [OF st]] keeps_same [OF st]
  show "keeps st (fst (handle_grab_button client_id sequence data body st))"
    unfolding handle_grab_button_def Let_def add_button_grab_def
    by (cases "grab_button_error data body st") (auto intro: answers)
  show "keeps st (fst (handle_ungrab_button client_id sequence button body st))"
    unfolding handle_ungrab_button_def Let_def
    by (auto intro: answers simp del: first_error.simps split: option.split)
  show "keeps st (fst (handle_change_active_pointer_grab client_id sequence body st))"
    unfolding handle_change_active_pointer_grab_def Let_def
    by (auto intro: answers simp del: first_error.simps split: option.split)
  show "keeps st (fst (handle_grab_key client_id sequence data body st))"
    unfolding handle_grab_key_def add_key_grab_def
    by (auto intro: answers simp del: first_error.simps split: option.split)
  show "keeps st (fst (handle_ungrab_key client_id sequence keycode body st))"
    unfolding handle_ungrab_key_def Let_def
    by (auto intro: answers simp del: first_error.simps split: option.split)
qed

lemma unviewable_goes:
  assumes st: "queues_ok st"
  shows "goes st (release_core_grabs_for_unviewable st)"
proof -
  have p: "goes st (case st_pointer_grab st of
      Some (owner, win) \<Rightarrow>
        if \<not> is_viewable st win \<or> st_pointer_confine_to st \<noteq> 0 \<and> \<not> is_viewable st (st_pointer_confine_to st)
        then deactivate_core_pointer_grab owner st else Some st
    | None \<Rightarrow> Some st)"
    using deactivate_pointer_goes [OF st] keeps_refl [OF st]
    by (auto intro: goes_some split: option.split)
  show ?thesis
    unfolding release_core_grabs_for_unviewable_def
    by (rule goes_bind [OF p])
      (auto intro: goes_some goes_after [OF _ deactivate_keyboard_goes [OF keeps_queues]] split: option.split)
qed

section \<open>AllowEvents\<close>

lemma play_queue_goes:
  assumes warp: "warp_ok warp" and st: "queues_ok st"
  shows "goes st (play_queue warp now xid_map es st)"
  using st
proof (induction es arbitrary: st)
  case Nil
  then show ?case by (simp add: goes_some keeps_refl)
next
  case (Cons e es)
  have "goes st (pointer_event_fanout_to_state warp now xid_map False False e st \<bind>
      (\<lambda>(st, uu). play_queue warp now xid_map es st))"
    by (rule goes_bind_pair [OF pointer_fanout_goes [OF warp Cons.prems]])
      (auto intro: goes_after [OF _ Cons.IH [OF keeps_queues]])
  then show ?case by simp
qed

lemma same_queues_keep:
  assumes "queues_ok st" "same_queues st s"
  shows "queues_ok s"
  by (rule same_queues_ok [OF assms(2,1)])

lemma same_queues_set_state [simp]:
  "device_queues (allow_set_state client_id s dev st) d = device_queues st d"
  unfolding allow_set_state_def by (rule queues_entry_freeze) simp_all

lemma same_queues_both [simp]: "device_queues (allow_both client_id s dev st) d = device_queues st d"
  by (simp add: allow_both_def)

lemma same_queues_transition [simp]: "device_queues (allow_transition client_id mode st) d = device_queues st d"
  by (simp add: allow_transition_def Let_def)

lemma replay_key_goes:
  assumes st: "queues_ok st"
  shows "goes st (map_option fst (replay_frozen_key_to_focus e st))"
proof -
  let ?s = "fst (deliver_key_to_window e (current_focus st) st)"
  have s: "keeps st ?s" by (rule quiet_keeps [OF quiet_key_to_window st])
  have f: "goes st (map_option fst (deliver_xi1_focused_key xi1_compute_freezes e ?s))"
    by (rule goes_after [OF s goes_focused_key [OF keeps_queues [OF s]]])
  have "goes st (map_option fst (deliver_xi1_focused_key xi1_compute_freezes e ?s \<bind>
      (\<lambda>(s, extra). Some (s, merge_dropped dropped extra))))" for dropped
    by (rule goes_bind_fst [OF f]) (simp add: goes_some)
  then show ?thesis
    unfolding replay_frozen_key_to_focus_def Let_def case_prod_beta
    using goes_some [OF keeps_refl [OF st]] by simp
qed

lemma release_pointer_goes:
  assumes st: "queues_ok st"
  shows "goes st (allow_release_pointer client_id mode frozen_event queue st)"
  unfolding allow_release_pointer_def
  by (intro goes_if goes_some keeps_same [OF st] deactivate_pointer_goes [OF st]) simp_all

lemma release_keyboard_goes:
  assumes st: "queues_ok st"
  shows "goes st (allow_release_keyboard client_id mode frozen_event st)"
  unfolding allow_release_keyboard_def
  by (intro goes_case goes_if goes_some keeps_same [OF st] deactivate_keyboard_goes [OF st]) simp_all

lemma goes_obtains:
  assumes "goes st r" "queues_ok st"
  obtains s where "r = Some s" "queues_ok s"
  using assms by (auto simp: goes_def keeps_def)

text \<open>The end of AllowEvents: everything before the last replay keeps the queues well formed, and the
  replay brings them to rest.\<close>

lemma apply_allow_rests:
  assumes warp: "warp_ok warp" and rest: "at_rest st"
  shows "\<exists>st'. apply_allow_events warp now xid_map client_id mode time st = Some st' \<and> at_rest st'"
proof (cases "allow_gate client_id mode time st")
  case False
  then show ?thesis using rest by (simp add: apply_allow_events_def)
next
  case True
  define side where "side = (mode \<le> 2 \<or> mode = 6 \<or> mode = 7)"
  define s0 where "s0 = allow_transition client_id mode st"
  define fp where "fp = (if side then st_frozen_pointer_event s0 else None)"
  define q where "q = (if side then st_frozen_pointer_queue s0 else [])"
  define s1 where "s1 = (if side then s0\<lparr>st_frozen_pointer_event := None, st_frozen_pointer_queue := []\<rparr> else s0)"
  have "queues_ok s0" by (rule same_queues_keep [OF rest_queues [OF rest]]) (simp add: s0_def)
  then have "queues_ok s1" by (rule same_queues_keep) (simp add: s1_def device_queues_def)
  then obtain s2 where s2: "allow_release_pointer client_id mode fp q s1 = Some s2" "queues_ok s2"
    using goes_obtains [OF release_pointer_goes] by blast
  define fk where "fk = (if mode \<ge> 3 then st_frozen_keyboard_event s2 else None)"
  define s3 where "s3 = (if mode \<ge> 3 then s2\<lparr>st_frozen_keyboard_event := None\<rparr> else s2)"
  have "queues_ok s3" by (rule same_queues_keep [OF s2(2)]) (simp add: s3_def device_queues_def)
  then obtain s4 where s4: "allow_release_keyboard client_id mode fk s3 = Some s4" "queues_ok s4"
    using goes_obtains [OF release_keyboard_goes] by blast
  define played where "played = (if mode \<noteq> 2 then play_queue warp now xid_map q s4
    else (case fp of Some e \<Rightarrow> play_queue warp now xid_map (e # q) s4 | None \<Rightarrow> Some s4))"
  have "goes s4 played" unfolding played_def
    by (intro goes_if goes_case play_queue_goes [OF warp s4(2)] goes_some keeps_refl [OF s4(2)])
  then obtain s5 where s5: "played = Some s5" "queues_ok s5" by (rule goes_obtains [OF _ s4(2)])
  define again where "again = (case (if mode = 5 then fk else None) of
      Some e \<Rightarrow> map_option fst (replay_frozen_key_to_focus e s5) | None \<Rightarrow> Some s5)"
  have "goes s5 again" unfolding again_def
    by (intro goes_case replay_key_goes [OF s5(2)] goes_some keeps_refl [OF s5(2)])
  then obtain s6 where s6: "again = Some s6" "queues_ok s6" by (rule goes_obtains [OF _ s5(2)])
  obtain s7 where s7: "xi1_compute_freezes s6 = Some s7" "at_rest s7"
    using rests_after [OF s6(2), of s6] by blast
  have "apply_allow_events warp now xid_map client_id mode time st = Some s7"
    unfolding apply_allow_events_def Let_def side_def [symmetric] s0_def [symmetric] fp_def [symmetric] q_def [symmetric]
      s1_def [symmetric] s2(1) bind.bind_lunit fk_def [symmetric] s3_def [symmetric] s4(1) played_def [symmetric] s5(1)
      again_def [symmetric] s6(1) s7(1)
    using True by simp
  then show ?thesis using s7(2) by blast
qed

section \<open>Sessions\<close>

lemma handle_allow_goes:
  assumes "warp_ok warp" "at_rest st"
  shows "goes st (map_option fst (handle_allow_events warp now xid_map client_id sequence mode body st))"
  unfolding handle_allow_events_def
  using apply_allow_rests [OF assms, of now xid_map client_id mode "optional_time body"]
  by (auto intro: goes_some answered_keeps keeps_refl rest_queues [OF assms(2)] goes_some [OF rest_keeps])

lemma core_grab_request_rests:
  assumes warp: "warp_ok warp" and rest: "at_rest st"
  shows "goes st (map_option fst (core_grab_request warp now xid_map client_id sequence header body st))"
proof -
  have handled: "goes st r \<Longrightarrow> goes st (map_option fst (handled r))" for r
    by (cases r) (simp_all add: handled_def)
  note st = rest_queues [OF rest]
  show ?thesis
    unfolding core_grab_request_def Let_def
    by (intro goes_if_fst handled core_grab_goes [OF warp st] goes_some_fst passive_requests_keep [OF st]
        handle_allow_goes [OF warp rest]) (simp add: keeps_refl [OF st])
qed

lemma answers_goes: "answers r \<Longrightarrow> goes st (map_option fst r)"
  by (cases r) (auto simp: answers_def intro: goes_some [OF rest_keeps])

lemma xi1_grab_request_rests:
  assumes rest: "at_rest st"
  shows "goes st (map_option fst (xi1_grab_request client_id sequence header body st))"
  unfolding xi1_grab_request_def Let_def
  by (intro goes_if_fst answers_goes [OF grab_device_rests] answers_goes [OF ungrab_device_rests]
      answers_goes [OF allow_device_events_rests] goes_some_fst rest_keeps [OF passive_grabs_rest(1)] rest_keeps [OF passive_grabs_rest(2)]
      rest_keeps [OF passive_grabs_rest(3)] rest_keeps [OF set_device_focus_rests] answered_keeps
      keeps_refl rest_queues rest) (simp add: keeps_refl rest_queues [OF rest])

lemma input_step_rests:
  assumes warp: "warp_ok warp" and rest: "at_rest st"
  shows "\<exists>st'. input_step warp s st = Some st' \<and> at_rest st'"
proof -
  note st = rest_queues [OF rest]
  have "goes st (input_step warp s st)"
    by (cases s)
      (simp_all add: pointer_fanout_goes [OF warp st] key_fanout_goes [OF st] core_grab_request_rests [OF warp rest]
        xi1_grab_request_rests [OF rest] unviewable_goes [OF st] goes_some keeps_same [OF st])
  then show ?thesis unfolding goes_def using keeps_rest [OF _ rest] by blast
qed


text \<open>A warp that only moves the pointer, and a session that freezes the keyboard.\<close>

definition move_pointer :: warp where
  "move_pointer st x y = st\<lparr>st_pointer_root := (word_of_int x, word_of_int y)\<rparr>"


section \<open>An active grab\<close>

definition grab_event :: "HostPointerEvent \<Rightarrow> GrabTarget \<Rightarrow> u16 \<Rightarrow> ClientByteOrder \<Rightarrow> u8 list" where
  "grab_event e g = encode_pointer_event e (hp_kind e) (gt_window g) 0
     (clamp_grab_coord (hp_root_x e) (gt_x g)) (clamp_grab_coord (hp_root_y e) (gt_y g))"

text \<open>The events that a grab takes.\<close>

definition taken :: "ServerState \<Rightarrow> HostPointerEvent \<Rightarrow> ResourceId \<Rightarrow> GrabTarget \<Rightarrow> bool" where
  "taken st e target g \<longleftrightarrow> \<not> is_crossing e \<and> \<not> (gt_owner_events g \<and> qualifies_for_natural st target g) \<and>
     \<not> (hp_kind e = ButtonRelease \<and> st_pointer_grab_is_passive st)"

lemma core_fanout_taken:
  assumes g: "active_grab_target st = Some g" and e: "taken st e (fst hit) g"
  shows "core_fanout warp xid_map True is_replay e hit top_level (st, dropped) =
    Some (if gt_via_xi2 g then (st, dropped) else deliver [gt_client g] (grab_event e g) (st, dropped))"
proof -
  define r where "r = (if gt_via_xi2 g then (st, dropped) else deliver [gt_client g] (grab_event e g) (st, dropped))"
  have redirect: "redirect_to_grab True e (fst hit) (st, dropped) = (r, True)"
    using g e by (auto simp: redirect_to_grab_def r_def grab_event_def taken_def)
  have "st_pointer_grab_is_passive (fst (fanout_event_to_clients ids enc st)) = st_pointer_grab_is_passive st" for ids enc
    using fanout_same [of st ids enc] by (auto simp: same_but_clients_def)
  then have "st_pointer_grab_is_passive (fst r) = st_pointer_grab_is_passive st"
    by (simp add: r_def deliver_def case_prod_beta)
  then have rel: "release_passive_grab_on_button_release (hp_kind e) (fst r) = Some (fst r)"
    using e by (auto simp: release_passive_grab_on_button_release_def taken_def)
  show ?thesis
    unfolding core_fanout_def redirect fst_conv case_prod_conv rel bind.bind_lunit Let_def by (simp add: r_def)
qed


text \<open>A client with a grab of the root window that selects no event, and a motion.\<close>

definition plain_client :: ClientState where
  "plain_client = \<lparr>cs_byte_order = LittleEndian, cs_last_sequence = 3, cs_resource_id_base = 0x200000,
     cs_resource_id_mask = 0xFFFFF, cs_event_masks = [], cs_save_set = [], cs_big_requests_enabled = False,
     cs_xi2_masks = [], cs_out = \<lparr>co_outbound = [], co_writer = \<lparr>wr_sent = [], wr_turns = []\<rparr>\<rparr>, cs_focused_window = 0,
     cs_xi1_window_event_classes = []\<rparr>"

definition grabbed_state :: ServerState where
  "grabbed_state = server_new\<lparr>st_clients := [(7, plain_client)], st_pointer_grab := Some (7, ROOT_WINDOW),
     st_active_pointer_grab := Some \<lparr>ap_owner = 7, ap_window = ROOT_WINDOW, ap_event_mask = 0, ap_cursor = 0,
       ap_time = 0, ap_owner_events = False, ap_via_xi2 = False\<rparr>\<rparr>"

definition a_motion :: HostPointerEvent where
  "a_motion = \<lparr>hp_kind = MotionNotify, hp_host_xid = 0, hp_detail = 0, hp_time = 5, hp_root_x = 1, hp_root_y = 1,
     hp_event_x = 1, hp_event_y = 1, hp_state = 0, hp_crossing_mode = 0, hp_child = 0\<rparr>"

lemma grabbed_target:
  "active_grab_target grabbed_state = Some \<lparr>gt_window = ROOT_WINDOW, gt_client = 7,
     gt_x = fst (window_absolute_position (st_resources grabbed_state) ROOT_WINDOW),
     gt_y = snd (window_absolute_position (st_resources grabbed_state) ROOT_WINDOW),
     gt_owner_events = False, gt_via_xi2 = False\<rparr>"
  by (simp add: active_grab_target_def grabbed_state_def server_new_def client_target_id_def hm_contains_def
      hm_get_def case_prod_beta)

lemma motion_taken: "\<not> gt_owner_events g \<Longrightarrow> taken st a_motion target g"
  by (simp add: taken_def is_crossing_def a_motion_def)


text \<open>
  The event mask of a GrabPointer plays no part in this. The protocol reports an event to the owner only
  if the mask of the grab selects it; here the owner gets every event that the grab takes, even when the
  mask selects none.
\<close>

theorem grab_event_mask_ignored:
  assumes g: "st_active_pointer_grab st = Some g" "ap_event_mask g = 0" "\<not> ap_owner_events g" "\<not> ap_via_xi2 g"
    and held: "st_pointer_grab st = Some (ap_owner g, win)" "\<not> st_pointer_grab_is_passive st"
    and owner: "hm_contains (st_clients st) (ap_owner g)" and e: "\<not> is_crossing e"
  shows "\<exists>t. gt_client t = ap_owner g \<and> gt_window t = win \<and>
    core_fanout warp xid_map True is_replay e hit top_level (st, dropped) =
      Some (deliver [ap_owner g] (grab_event e t) (st, dropped))"
proof -
  define t where "t = \<lparr>gt_window = win, gt_client = ap_owner g,
    gt_x = fst (window_absolute_position (st_resources st) win),
    gt_y = snd (window_absolute_position (st_resources st) win), gt_owner_events = False, gt_via_xi2 = False\<rparr>"
  have "active_grab_target st = Some t"
    using g held owner by (simp add: active_grab_target_def client_target_id_def case_prod_beta t_def)
  moreover have "taken st e (fst hit) t"
    using e held(2) by (simp add: taken_def t_def)
  ultimately have "core_fanout warp xid_map True is_replay e hit top_level (st, dropped) =
      Some (if gt_via_xi2 t then (st, dropped) else deliver [gt_client t] (grab_event e t) (st, dropped))"
    by (rule core_fanout_taken)
  then show ?thesis by (intro exI [of _ t]) (simp add: t_def)
qed

lemma grab_event_mask_ignored_witness:
  "\<exists>t. gt_client t = 7 \<and> core_fanout move_pointer [] True False a_motion (ROOT_WINDOW, 1, 1) None (grabbed_state, []) =
    Some (deliver [7] (grab_event a_motion t) (grabbed_state, []))"
  using grab_event_mask_ignored [of grabbed_state "the (st_active_pointer_grab grabbed_state)" ROOT_WINDOW a_motion move_pointer "[]" False "(ROOT_WINDOW, 1, 1)" None "[]"]
  by (force simp: grabbed_state_def server_new_def is_crossing_def a_motion_def hm_contains_def hm_get_def)

section \<open>AllowEvents and the queue\<close>

text \<open>
  ReplayPointer throws the withheld events away when the pointer was frozen without an event, as a
  synchronous GrabPointer does: whatever events the queue held, the outcome is the one it has for a
  queue of a single motion, so no withheld event reaches a client.
\<close>

theorem replay_pointer_drops_queue:
  assumes "st_frozen_pointer_event st = None" "queue \<noteq> []"
    and "allow_gate client_id 2 time (st\<lparr>st_frozen_pointer_queue := queue\<rparr>)"
  shows "apply_allow_events warp now xid_map client_id 2 time (st\<lparr>st_frozen_pointer_queue := queue\<rparr>) =
    apply_allow_events warp now xid_map client_id 2 time (st\<lparr>st_frozen_pointer_queue := [a_motion]\<rparr>)"
proof -
  have gate: "allow_gate client_id 2 time (st\<lparr>st_frozen_pointer_queue := q\<rparr>) =
    allow_gate client_id 2 time (st\<lparr>st_frozen_pointer_queue := q'\<rparr>)" for q q'
    by (simp add: allow_gate_def time_outside_def grab_now_def allow_grab_time_def grab_owner_of_def
        xi1_device_grab_owner_def sync_state_def sync_other_def Let_def cong: option.case_cong)
  have tr: "allow_transition client_id 2 (st\<lparr>st_frozen_pointer_queue := q\<rparr>) =
    (allow_transition client_id 2 st)\<lparr>st_frozen_pointer_queue := q\<rparr>" for q
    by (simp add: allow_transition_def Let_def allow_set_state_def entry_freeze_def)
  have none: "st_frozen_pointer_event (allow_transition client_id 2 st) = None"
    using assms(1) by (simp add: allow_transition_def Let_def allow_set_state_def entry_freeze_def)
  have rel: "allow_release_pointer client_id 2 None queue s = allow_release_pointer client_id 2 None [a_motion] s" for s
    using assms(2) by (simp add: allow_release_pointer_def)
  have "apply_allow_events warp now xid_map client_id 2 time (st\<lparr>st_frozen_pointer_queue := q\<rparr>) = do {
      s \<leftarrow> allow_release_pointer client_id 2 None q
        ((allow_transition client_id 2 st)\<lparr>st_frozen_pointer_event := None, st_frozen_pointer_queue := []\<rparr>);
      s \<leftarrow> allow_release_keyboard client_id 2 None s;
      xi1_compute_freezes s }" if "allow_gate client_id 2 time (st\<lparr>st_frozen_pointer_queue := q\<rparr>)" for q
    using that by (simp add: apply_allow_events_def Let_def tr none)
  from this [OF assms(3)] this [OF assms(3) [unfolded gate [of queue "[a_motion]"]]] show ?thesis
    by (simp only: rel)
qed

definition frozen_grab_state :: ServerState where
  "frozen_grab_state = grabbed_state\<lparr>st_xi1_frozen :=
     [(DEVICEID_SLAVE_POINTER, Xi1Freeze_default\<lparr>fz_state := FrozenNoEvent\<rparr>)]\<rparr>"

lemma replay_pointer_drops_queue_witness:
  "apply_allow_events move_pointer 9 [] 7 2 0 (frozen_grab_state\<lparr>st_frozen_pointer_queue := [a_motion, a_motion]\<rparr>) =
    apply_allow_events move_pointer 9 [] 7 2 0 (frozen_grab_state\<lparr>st_frozen_pointer_queue := [a_motion]\<rparr>)"
  by (rule replay_pointer_drops_queue)
    (simp_all add: frozen_grab_state_def grabbed_state_def server_new_def allow_gate_def time_outside_def
      grab_owner_of_def xi1_device_grab_owner_def sync_state_def sync_other_def orelse_def allow_device_def hm_get_def less_eq_Xi1SyncState_def)

end
