(* ===== verification/HitTestClaims.thy ===== *)
theory HitTestClaims
  imports HitTest CrossingClaims
begin

text \<open>
  The window under the pointer is the deepest one, reached through the topmost child at each level, and
  the bound of the descent plays no part; a press activates the outermost passive grab on the way to the
  window it hits.
\<close>

section \<open>The topmost child\<close>

lemma first_hit_append:
  "\<forall>d \<in> set pre. hit_test_child st d x y = None \<Longrightarrow> hit_test_child st c x y = Some h \<Longrightarrow>
    first_hit st (pre @ c # post) x y = Some h"
  by (induction pre) simp_all

lemma first_hit_split:
  "first_hit st cs x y = Some h \<Longrightarrow> \<exists>pre c post. cs = pre @ c # post \<and>
    (\<forall>d \<in> set pre. hit_test_child st d x y = None) \<and> hit_test_child st c x y = Some h"
proof (induction cs)
  case (Cons c cs)
  show ?case
  proof (cases "hit_test_child st c x y")
    case None
    then obtain pre c' post where "cs = pre @ c' # post" "\<forall>d \<in> set pre. hit_test_child st d x y = None"
      "hit_test_child st c' x y = Some h" using Cons by auto
    then show ?thesis using None by (intro exI [of _ "c # pre"] exI [of _ c'] exI [of _ post]) simp
  next
    case (Some h')
    then show ?thesis using Cons.prems by (intro exI [of _ "[]"] exI [of _ c] exI [of _ cs]) simp
  qed
qed simp

lemma first_hit_none: "first_hit st cs x y = None \<longleftrightarrow> (\<forall>c \<in> set cs. hit_test_child st c x y = None)"
  by (induction cs) (auto split: option.split)

lemma hit_children_first: "hit_test_children st p x y = first_hit st (rev (children (st_resources st) p)) x y"
  by (simp add: hit_test_children_def children_def split: option.split)

lemma hit_child_id: "hit_test_child st c x y = Some h \<Longrightarrow> fst h = c"
  by (auto simp: hit_test_child_def Let_def split: option.splits if_splits)

text \<open>The descent as the protocol has it: from a window to the topmost of its children that contain the
  point, until there is none.\<close>

inductive hit_path :: "ServerState \<Rightarrow> ResourceId \<times> i16 \<times> i16 \<Rightarrow> ResourceId \<times> i16 \<times> i16 \<Rightarrow> bool" for st where
  here: "hit_path st h h"
| down: "children (st_resources st) p = lower @ c # upper \<Longrightarrow> hit_test_child st c x y = Some h \<Longrightarrow>
    (\<forall>d \<in> set upper. hit_test_child st d x y = None) \<Longrightarrow> hit_path st h h' \<Longrightarrow> hit_path st (p, x, y) h'"

definition nothing_inside :: "ServerState \<Rightarrow> ResourceId \<times> i16 \<times> i16 \<Rightarrow> bool" where
  "nothing_inside st h \<longleftrightarrow> (\<forall>c \<in> set (children (st_resources st) (fst h)).
     hit_test_child st c (fst (snd h)) (snd (snd h)) = None)"

lemma nothing_inside_iff: "nothing_inside st (p, x, y) \<longleftrightarrow> hit_test_children st p x y = None"
  by (simp add: nothing_inside_def hit_children_first first_hit_none)

lemma hit_children_some:
  "hit_test_children st p x y = Some h \<longleftrightarrow> (\<exists>lower c upper. children (st_resources st) p = lower @ c # upper \<and>
    hit_test_child st c x y = Some h \<and> (\<forall>d \<in> set upper. hit_test_child st d x y = None))"
  (is "_ \<longleftrightarrow> ?topmost")
proof
  assume "hit_test_children st p x y = Some h"
  then obtain pre c post where r: "rev (children (st_resources st) p) = pre @ c # post"
    "\<forall>d \<in> set pre. hit_test_child st d x y = None" "hit_test_child st c x y = Some h"
    using first_hit_split unfolding hit_children_first by blast
  have "children (st_resources st) p = rev (pre @ c # post)" using r(1) by (metis rev_rev_ident)
  then have "children (st_resources st) p = rev post @ c # rev pre" by simp
  then show ?topmost using r(2,3) by (metis set_rev)
next
  assume ?topmost
  then obtain lower c upper where "children (st_resources st) p = lower @ c # upper"
    "hit_test_child st c x y = Some h" "\<forall>d \<in> set upper. hit_test_child st d x y = None" by blast
  then show "hit_test_children st p x y = Some h"
    unfolding hit_children_first by (simp add: first_hit_append)
qed

section \<open>The bound of the descent\<close>

lemma hit_child_deeper:
  assumes inv: "tree_inv (st_resources st)" and hit: "hit_test_children st p x y = Some h"
    and dist: "root_dist (parent_of (st_resources st)) ROOT_WINDOW p n"
  shows "root_dist (parent_of (st_resources st)) ROOT_WINDOW (fst h) (Suc n)"
proof -
  obtain lower c upper where c: "children (st_resources st) p = lower @ c # upper"
      "hit_test_child st c x y = Some h"
    using hit unfolding hit_children_some by blast
  then have "c \<noteq> ROOT_WINDOW" "parent_of (st_resources st) c = Some p"
    using tree_children_iff [OF inv, of c p] by simp_all
  then show ?thesis using hit_child_id [OF c(2)] dist by (auto intro: root_dist.step)
qed

lemma dist_window_bound:
  "tree_inv (st_resources st) \<Longrightarrow> root_dist (parent_of (st_resources st)) ROOT_WINDOW p n \<Longrightarrow> n < window_bound st"
  unfolding window_bound_def
  by (metis wf.dist_bound card_window_ids tree_inv_def)

lemma hit_path_step: "hit_test_children st p x y = Some h \<Longrightarrow> hit_path st h h' \<Longrightarrow> hit_path st (p, x, y) h'"
  unfolding hit_children_some by (elim exE conjE) (rule hit_path.down)

lemma inner_path: "hit_path st h (pointer_target_at_inner st n h)"
proof (induction n arbitrary: h)
  case (Suc n)
  obtain p x y where h: "h = (p, x, y)" by (cases h)
  show ?case
    unfolding h using hit_path_step [OF _ Suc.IH, of p x y]
    by (auto intro: hit_path.here split: option.split)
qed (simp add: hit_path.here)

lemma inner_deepest:
  assumes inv: "tree_inv (st_resources st)"
  shows "root_dist (parent_of (st_resources st)) ROOT_WINDOW (fst h) k \<Longrightarrow> window_bound st \<le> n + k \<Longrightarrow>
    nothing_inside st (pointer_target_at_inner st n h)"
proof (induction n arbitrary: h k)
  case 0
  then show ?case using dist_window_bound [OF inv 0(1)] by simp
next
  case (Suc n)
  obtain p x y where h: "h = (p, x, y)" by (cases h)
  show ?case
  proof (cases "hit_test_children st p x y")
    case None
    then show ?thesis by (simp add: h nothing_inside_iff)
  next
    case (Some h')
    then show ?thesis using Suc.IH [OF hit_child_deeper [OF inv Some]] Suc.prems by (simp add: h)
  qed
qed

text \<open>A path that ends where nothing is inside is the one the descent takes.\<close>

lemma path_inner:
  assumes inv: "tree_inv (st_resources st)"
  shows "hit_path st h h' \<Longrightarrow> nothing_inside st h' \<Longrightarrow>
    root_dist (parent_of (st_resources st)) ROOT_WINDOW (fst h) k \<Longrightarrow> window_bound st \<le> n + k \<Longrightarrow>
    pointer_target_at_inner st n h = h'"
proof (induction arbitrary: k n rule: hit_path.induct)
  case (here h)
  obtain p x y where h: "h = (p, x, y)" by (cases h)
  show ?case using here(1) by (cases n) (simp_all add: h nothing_inside_iff)
next
  case (down p lower c upper x y h h')
  have hit: "hit_test_children st p x y = Some h"
    unfolding hit_children_some using down.hyps(1-3) by blast
  have "n \<noteq> 0" using dist_window_bound [OF inv down.prems(2)] down.prems(3) by auto
  then obtain m where n: "n = Suc m" by (cases n) auto
  then show ?case
    using hit down.IH [OF down.prems(1) hit_child_deeper [OF inv hit], of k m] down.prems by simp
qed

text \<open>The recursion of the source: the bound never ends the descent.\<close>

lemma hit_descent_unfold:
  assumes inv: "tree_inv (st_resources st)" and p: "window (st_resources st) p \<noteq> None"
  shows "pointer_target_at_inner st (window_bound st) (p, x, y) =
    (case hit_test_children st p x y of None \<Rightarrow> (p, x, y) | Some h \<Rightarrow> pointer_target_at_inner st (window_bound st) h)"
proof -
  obtain k where k: "root_dist (parent_of (st_resources st)) ROOT_WINDOW p k"
    using inv p unfolding tree_inv_def by blast
  show ?thesis
  proof (cases "hit_test_children st p x y")
    case None
    then show ?thesis by (cases "window_bound st") simp_all
  next
    case (Some h)
    have d: "root_dist (parent_of (st_resources st)) ROOT_WINDOW (fst h) (Suc k)"
      by (rule hit_child_deeper [OF inv Some]) (simp add: k)
    have deep: "nothing_inside st (pointer_target_at_inner st (window_bound st) h)"
      by (rule inner_deepest [OF inv d]) simp
    show ?thesis
      using path_inner [OF inv hit_path_step [OF Some inner_path] deep, of k] k Some by simp
  qed
qed

section \<open>The window under the pointer\<close>

text \<open>
  Claim C10. The window under a point of the screen is found by descending from the root, at each level to the
  topmost mapped child whose rectangle and input shape contain the point, until no child does: the hit
  is the end of that path and there is no other.
\<close>

theorem pointer_hits_deepest:
  assumes "windows_reachable (st_resources st)"
  shows "root_pointer_target_at st x y = Some h \<longleftrightarrow>
    map_option win_map_state (window (st_resources st) ROOT_WINDOW) \<noteq> Some Unmapped \<and>
    hit_path st (ROOT_WINDOW, x, y) h \<and> nothing_inside st h"
proof -
  have inv: "tree_inv (st_resources st)" by (rule reachable_tree [OF assms])
  obtain r where r: "window (st_resources st) ROOT_WINDOW = Some r" by (rule tree_root_window [OF inv])
  have d: "root_dist (parent_of (st_resources st)) ROOT_WINDOW (fst (ROOT_WINDOW, x, y)) 0"
    by (simp add: root_dist.zero)
  have "pointer_target_at_inner st (window_bound st) (ROOT_WINDOW, x, y) = h \<longleftrightarrow>
      hit_path st (ROOT_WINDOW, x, y) h \<and> nothing_inside st h"
    using inner_path [of st "(ROOT_WINDOW, x, y)" "window_bound st"] inner_deepest [OF inv d, of "window_bound st"]
      path_inner [OF inv _ _ d, of h "window_bound st"] by auto
  then show ?thesis
    unfolding root_pointer_target_at_def pointer_target_at_def by (simp add: r)
qed

text \<open>The pair of mapped windows of \<open>WindowClaims\<close>: a point of the inner one.\<close>

definition pair_state :: ServerState where
  "pair_state = server_new\<lparr>st_resources := mapped_pair\<rparr>"

lemma pair_hit: "hit_test_child pair_state 0x100001 5 6 = Some (0x100001, 5, 6)"
    "hit_test_child pair_state 0x100002 5 6 = Some (0x100002, 5, 6)"
    "hit_test_child pair_state 0x100003 5 6 = None"
  by (simp_all add: hit_test_child_def pair_state_def server_new_def mapped_pair_window tree_window_def
      window_placeholder_def window_input_contains_def hm_get_def i16_or_max_def Let_def)

lemma pair_children:
  "children mapped_pair ROOT_WINDOW = [0x100001, 0x100003]" "children mapped_pair 0x100001 = [0x100002]"
  "children mapped_pair 0x100002 = []"
  by (simp_all add: children_def mapped_pair_window tree_window_def window_placeholder_def ROOT_WINDOW_def root_window_def)

theorem pointer_hits_deepest_witness: "root_pointer_target_at pair_state 5 6 = Some (0x100002, 5, 6)"
proof -
  have inner: "hit_path pair_state (0x100001, 5, 6) (0x100002, 5, 6)"
    by (rule hit_path.down [where lower = "[]" and upper = "[]", OF _ pair_hit(2) _ hit_path.here])
      (simp_all add: pair_state_def pair_children)
  have "hit_path pair_state (ROOT_WINDOW, 5, 6) (0x100002, 5, 6)"
    by (rule hit_path.down [where lower = "[]" and upper = "[0x100003]", OF _ pair_hit(1) _ inner])
      (simp add: pair_state_def pair_children, simp add: pair_hit(3))
  then show ?thesis
    by (subst pointer_hits_deepest)
      (simp_all add: pair_state_def reachable_mapped_pair nothing_inside_def pair_children mapped_pair_window
        ROOT_WINDOW_def root_window_def)
qed

section \<open>The passive grab of a press\<close>

lemma first_grab_some:
  "first_grab gw m gs ws = Some g \<Longrightarrow> \<exists>pre post. ws = pre @ gw g # post \<and>
    (\<forall>u \<in> set pre. \<forall>h \<in> set gs. gw h = u \<longrightarrow> \<not> m h) \<and> g \<in> set gs \<and> m g"
proof (induction ws)
  case (Cons w ws)
  show ?case
  proof (cases "List.find (\<lambda>g. gw g = w \<and> m g) gs")
    case None
    then obtain pre post where "ws = pre @ gw g # post" "\<forall>u \<in> set pre. \<forall>h \<in> set gs. gw h = u \<longrightarrow> \<not> m h"
      "g \<in> set gs" "m g" using Cons by auto
    then show ?thesis using None
      by (intro exI [of _ "w # pre"] exI [of _ post]) (auto simp: find_None_iff)
  next
    case (Some g')
    then have "g' \<in> set gs" "gw g' = w" "m g'"
      by (auto simp: find_Some_iff)
    then show ?thesis using Some Cons.prems by (intro exI [of _ "[]"] exI [of _ ws]) simp
  qed
qed simp

lemma first_grab_none: "first_grab gw m gs ws = None \<longleftrightarrow> (\<forall>h \<in> set gs. gw h \<in> set ws \<longrightarrow> \<not> m h)"
proof (induction ws)
  case (Cons w ws)
  show ?case
  proof (cases "List.find (\<lambda>g. gw g = w \<and> m g) gs")
    case None
    then have "\<forall>h \<in> set gs. gw h = w \<longrightarrow> \<not> m h" by (auto simp: find_None_iff)
    then show ?thesis using None Cons.IH by auto
  next
    case (Some g)
    then have "g \<in> set gs" "gw g = w" "m g" by (auto simp: find_Some_iff)
    then show ?thesis using Some by auto
  qed
qed simp

text \<open>
  Claim C11. The passive grab that a press activates is an outermost one: it matches the button and the modifiers,
  its window is the window that was hit or an ancestor of it, and every other matching grab on the way
  is on the same window or further inside. There is none exactly when another button is down or no grab
  on the way matches.
\<close>

theorem outermost_grab_wins:
  assumes reach: "windows_reachable (st_resources st)" and shallow: "shallow (st_resources st) w"
  shows "case find_passive_grab st w button state_mask of
      Some g \<Rightarrow> \<not> other_button_down st button \<and> g \<in> set (st_button_grabs st) \<and>
        button_grab_matches st button state_mask g \<and> descends (st_resources st) (bg_window g) w \<and>
        (\<forall>h \<in> set (st_button_grabs st). button_grab_matches st button state_mask h \<and>
          descends (st_resources st) (bg_window h) w \<longrightarrow> descends (st_resources st) (bg_window g) (bg_window h))
    | None \<Rightarrow> other_button_down st button \<or>
        (\<forall>h \<in> set (st_button_grabs st). button_grab_matches st button state_mask h \<longrightarrow>
          \<not> descends (st_resources st) (bg_window h) w)"
proof -
  let ?t = "st_resources st" and ?m = "button_grab_matches st button state_mask"
  have inv: "tree_inv ?t" by (rule reachable_tree [OF reach])
  have chain: "set (ancestor_chain ?t w) = {a. descends ?t a w}" by (rule chain_set [OF inv shallow])
  show ?thesis
  proof (cases "find_passive_grab st w button state_mask")
    case None
    then show ?thesis using chain by (auto simp: find_passive_grab_def first_grab_none split: if_splits)
  next
    case (Some g)
    then have up: "\<not> other_button_down st button"
      and f: "first_grab bg_window ?m (st_button_grabs st) (rev (ancestor_chain ?t w)) = Some g"
      by (auto simp: find_passive_grab_def split: if_splits)
    obtain pre post where p: "rev (ancestor_chain ?t w) = pre @ bg_window g # post"
      "\<forall>u \<in> set pre. \<forall>h \<in> set (st_button_grabs st). bg_window h = u \<longrightarrow> \<not> ?m h" "g \<in> set (st_button_grabs st)" "?m g"
      using first_grab_some [OF f] by blast
    have c: "ancestor_chain ?t w = rev post @ bg_window g # rev pre"
      using arg_cong [OF p(1), of rev] by simp
    have inner: "descends ?t (bg_window g) u" if "u \<in> set (bg_window g # post)" for u
    proof (cases "u = bg_window g")
      case True
      then show ?thesis by (simp add: below.refl)
    next
      case False
      then have "u \<in> set (rev post)" using that by simp
      then obtain xs ys where "rev post = xs @ u # ys" by (auto dest: split_list)
      then have "is_chain ?t (xs @ u # (ys @ bg_window g # rev pre))"
        using chain_is_chain [OF inv shallow] c by simp
      from is_chain_set [OF is_chain_suffix [OF this]] show ?thesis by auto
    qed
    have "descends ?t (bg_window g) (bg_window h)"
      if "h \<in> set (st_button_grabs st)" "?m h" "descends ?t (bg_window h) w" for h
    proof -
      have "bg_window h \<in> set (ancestor_chain ?t w)" using that(3) chain by simp
      then have "bg_window h \<in> set (bg_window g # post)" using c p(2) that(1,2) by auto
      then show ?thesis by (rule inner)
    qed
    moreover have "descends ?t (bg_window g) w"
    proof -
      have "bg_window g \<in> set (ancestor_chain ?t w)" by (simp add: c)
      then show ?thesis by (simp add: chain)
    qed
    ultimately show ?thesis unfolding Some using up p(3,4) by simp
  qed
qed

text \<open>A grab on the root takes precedence over the same grab on a top level.\<close>

definition any_button :: "ClientId \<Rightarrow> ResourceId \<Rightarrow> PassiveButtonGrab" where
  "any_button client_id w = \<lparr>bg_owner = client_id, bg_window = w, bg_button = 0, bg_modifiers = 0x8000,
     bg_owner_events = False, bg_event_mask = 4, bg_pointer_mode = 1, bg_keyboard_mode = 1,
     bg_confine_to = 0, bg_via_xi2 = False\<rparr>"

theorem outermost_grab_wins_witness:
  "find_passive_grab (pair_state\<lparr>st_button_grabs := [any_button 1 0x100001, any_button 2 ROOT_WINDOW]\<rparr>)
     0x100002 1 0 = Some (any_button 2 ROOT_WINDOW)"
proof -
  let ?st = "pair_state\<lparr>st_button_grabs := [any_button 1 0x100001, any_button 2 ROOT_WINDOW]\<rparr>"
  have par: "parent_of mapped_pair 0x100002 = Some 0x100001" "parent_of mapped_pair 0x100001 = Some ROOT_WINDOW"
    by (simp_all add: parent_of_def mapped_pair_window tree_window_def ROOT_WINDOW_def)
  have d1: "root_dist (parent_of mapped_pair) ROOT_WINDOW 0x100001 (Suc 0)"
    by (rule root_dist.step [where par = "parent_of mapped_pair", OF _ par(2)]) (simp add: ROOT_WINDOW_def, rule root_dist.zero)
  have d2: "root_dist (parent_of mapped_pair) ROOT_WINDOW 0x100002 (Suc (Suc 0))"
    by (rule root_dist.step [where par = "parent_of mapped_pair", OF _ par(1) d1]) (simp add: ROOT_WINDOW_def)
  have sh: "shallow (st_resources ?st) 0x100002"
    unfolding shallow_def using d2 by (intro exI [of _ 2]) (simp add: pair_state_def numeral_2_eq_2)
  have reach: "windows_reachable (st_resources ?st)" by (simp add: pair_state_def reachable_mapped_pair)
  have m: "button_grab_matches ?st 1 0 (any_button c w)" for c w
    by (simp add: button_grab_matches_def modifiers_match_def any_button_def)
  have up: "\<not> other_button_down ?st 1"
    by (simp add: other_button_down_def pair_state_def server_new_def)
  have "descends mapped_pair ROOT_WINDOW 0x100002" "\<not> descends mapped_pair 0x100001 ROOT_WINDOW"
    using root_below [OF d2] by (simp_all add: below_root ROOT_WINDOW_def)
  then show ?thesis
    using outermost_grab_wins [OF reach sh, of 1 0] m up
    by (cases "find_passive_grab ?st 0x100002 1 0") (auto simp: any_button_def pair_state_def)
qed

end
