(* ===== verification/Selections.thy ===== *)
theory Selections
  imports XFixes Timers HitTest
begin

text \<open>
  Selections and events between clients (\<open>crates/xserver-core/src/core_loop/process_request.rs\<close>):
  SetSelectionOwner, GetSelectionOwner, ConvertSelection, SendEvent, and what becomes of a selection when
  its owner window is destroyed or its owner disconnects. The encoders are those of
  \<open>crates/xserver-protocol/src/x11/mod.rs\<close> and \<open>xfixes.rs\<close>.
\<close>

section \<open>The events\<close>

definition encode_selection_request_event ::
  "u16 \<Rightarrow> ClientByteOrder \<Rightarrow> u32 \<Rightarrow> ResourceId \<Rightarrow> ResourceId \<Rightarrow> AtomId \<Rightarrow> AtomId \<Rightarrow> AtomId \<Rightarrow> u8 list" where
  "encode_selection_request_event sequence order time owner requestor selection target property =
     [30, 0] @ enc16 order sequence @ enc32 order time @ enc32 order owner @ enc32 order requestor @
     enc32 order selection @ enc32 order target @ enc32 order property @ replicate 4 0"

definition encode_selection_clear_event ::
  "u16 \<Rightarrow> ClientByteOrder \<Rightarrow> u32 \<Rightarrow> ResourceId \<Rightarrow> AtomId \<Rightarrow> u8 list" where
  "encode_selection_clear_event sequence order time owner selection =
     [29, 0] @ enc16 order sequence @ enc32 order time @ enc32 order owner @ enc32 order selection @
     replicate 16 0"

definition encode_selection_notify_event ::
  "ClientByteOrder \<Rightarrow> u8 \<Rightarrow> u8 \<Rightarrow> u16 \<Rightarrow> u32 \<Rightarrow> u32 \<Rightarrow> u32 \<Rightarrow> u32 \<Rightarrow> u32 \<Rightarrow> u8 list" where
  "encode_selection_notify_event order first_event subtype sequence win owner selection timestamp selection_timestamp =
     [first_event, subtype] @ enc16 order sequence @ enc32 order win @ enc32 order owner @
     enc32 order selection @ enc32 order timestamp @ enc32 order selection_timestamp @ replicate 8 0"

definition write_get_selection_owner_reply :: "ClientByteOrder \<Rightarrow> u16 \<Rightarrow> ResourceId \<Rightarrow> u8 list" where
  "write_get_selection_owner_reply byte_order sequence owner =
     write_u32 byte_order (fixed_reply byte_order sequence 0 0) owner @ replicate 20 0"

definition XFIXES_FIRST_EVENT :: u8 where "XFIXES_FIRST_EVENT = 87"
definition SELECTION_NOTIFY_SET_OWNER :: u8 where "SELECTION_NOTIFY_SET_OWNER = 0"
definition SELECTION_NOTIFY_WINDOW_DESTROY :: u8 where "SELECTION_NOTIFY_WINDOW_DESTROY = 1"
definition SELECTION_NOTIFY_CLIENT_CLOSE :: u8 where "SELECTION_NOTIFY_CLIENT_CLOSE = 2"

definition SELECTION_BAD_ATOM :: u8 where "SELECTION_BAD_ATOM = 5"

section \<open>Notifications of XFIXES\<close>

definition fanout_xfixes_selection_notify ::
  "AtomId \<Rightarrow> u8 \<Rightarrow> u32 \<Rightarrow> u32 \<Rightarrow> u32 \<Rightarrow> ServerState \<Rightarrow> ServerState" where
  "fanout_xfixes_selection_notify selection subtype owner_window timestamp selection_timestamp st =
     (let mask_bit = push_bit (unat subtype) (1 :: u32);
          matched = map (\<lambda>((cid, win, _), _). (cid, win))
            (filter (\<lambda>((_, _, sel), m). sel = selection \<and> m AND mask_bit \<noteq> 0) (st_xfixes_selection_masks st))
      in fold (\<lambda>(cid, win) st. fst (fanout_event_to_clients [cid]
             (\<lambda>seq order. encode_selection_notify_event order XFIXES_FIRST_EVENT subtype seq win owner_window
                selection timestamp selection_timestamp) st)) matched st)"

definition drop_selections_owned_by_windows :: "ResourceId list \<Rightarrow> u8 \<Rightarrow> ServerState \<Rightarrow> ServerState" where
  "drop_selections_owned_by_windows owned_windows subtype st =
     (let to_drop = map (\<lambda>(sel, (_, t)). (sel, t))
            (filter (\<lambda>(_, (owner, _)). owner \<in> set owned_windows) (st_selections st));
          now = st_timestamp st
      in fold (\<lambda>(sel, prior) st.
             (let st = fanout_xfixes_selection_notify sel subtype 0 now prior st
              in st\<lparr>st_selections := hm_remove sel (st_selections st)\<rparr>)) to_drop st)"

definition fanout_xfixes_selection_client_close_for_client :: "ClientId \<Rightarrow> ServerState \<Rightarrow> ServerState" where
  "fanout_xfixes_selection_client_close_for_client cid st =
     (let client_windows = filter (\<lambda>win. window_owner (st_resources st) win = Some cid)
            (map fst (hm_values (st_selections st)))
      in if client_windows = [] then st
         else drop_selections_owned_by_windows client_windows SELECTION_NOTIFY_CLIENT_CLOSE st)"

section \<open>The requests\<close>

text \<open>\<open>ClientTimeToServerTime\<close> as the handler has it, the checks in their order, and the update.\<close>

definition resolved_time :: "u32 \<Rightarrow> ServerState \<Rightarrow> u32" where
  "resolved_time time_val st = (if time_val = 0 then st_timestamp st else time_val)"

definition selection_time_refused :: "AtomId \<Rightarrow> u32 \<Rightarrow> ServerState \<Rightarrow> bool" where
  "selection_time_refused selection time st \<longleftrightarrow>
     (case hm_get (st_selections st) selection of Some (_, prior) \<Rightarrow> time < prior | None \<Rightarrow> False)"

definition change_selection_owner ::
  "ClientId \<Rightarrow> ResourceId \<Rightarrow> AtomId \<Rightarrow> u32 \<Rightarrow> ServerState \<Rightarrow> ServerState" where
  "change_selection_owner client_id win selection time st =
     (let old = selection_owner_target_id st selection;
          st1 = st\<lparr>st_selections := (if win = 0 then hm_remove selection (st_selections st)
                    else hm_insert selection (win, time) (st_selections st))\<rparr>;
          st2 = (case old of
                   Some (old_window, old_target) \<Rightarrow>
                     if win = 0 \<or> old_target \<noteq> client_id
                     then fst (fanout_event_to_clients [old_target]
                            (\<lambda>seq order. encode_selection_clear_event seq order time old_window selection) st1)
                     else st1
                 | None \<Rightarrow> st1)
      in fanout_xfixes_selection_notify selection SELECTION_NOTIFY_SET_OWNER win (st_timestamp st) time st2)"

definition handle_set_selection_owner ::
  "ClientId \<Rightarrow> u16 \<Rightarrow> u8 list \<Rightarrow> ServerState \<Rightarrow> ServerState \<times> RequestOutcome" where
  "handle_set_selection_owner client_id sequence body st =
     (if length body < 8 then (st, Handled)
      else
        let win = u32_le_at body 0; selection = u32_le_at body 4;
            time_val = (if length body \<ge> 12 then u32_le_at body 8 else 0);
            time = resolved_time time_val st
        in if time_val \<noteq> 0 \<and> time_val > st_timestamp st then (st, Handled)
           else if win \<noteq> 0 \<and> window (st_resources st) win = None
           then emit_x11_error client_id sequence BAD_WINDOW win 22 st
           else if \<not> atom_exists (st_atoms st) selection
           then emit_x11_error client_id sequence SELECTION_BAD_ATOM selection 22 st
           else if selection_time_refused selection time st then (st, Handled)
           else (change_selection_owner client_id win selection time st, Handled))"

definition handle_get_selection_owner ::
  "ClientId \<Rightarrow> u16 \<Rightarrow> u8 list \<Rightarrow> ServerState \<Rightarrow> ServerState \<times> RequestOutcome" where
  "handle_get_selection_owner client_id sequence body st =
     (let owner = (if length body \<ge> 4
            then (case hm_get (st_selections st) (u32_le_at body 0) of Some (w, _) \<Rightarrow> w | None \<Rightarrow> 0) else 0)
      in send_reply client_id (\<lambda>order. write_get_selection_owner_reply order sequence owner) st)"

text \<open>The template of a refusal: a SelectionNotify without property.\<close>

definition refusal_template :: "u32 \<Rightarrow> ResourceId \<Rightarrow> AtomId \<Rightarrow> AtomId \<Rightarrow> u8 list" where
  "refusal_template time requestor selection target =
     [31, 0, 0, 0] @ u32_to_le_bytes time @ u32_to_le_bytes requestor @ u32_to_le_bytes selection @
     u32_to_le_bytes target @ replicate 12 0"

definition handle_convert_selection :: "u8 list \<Rightarrow> ServerState \<Rightarrow> ServerState" where
  "handle_convert_selection body st =
     (if length body < 20 then st
      else
        let requestor = u32_le_at body 0; selection = u32_le_at body 4; target = u32_le_at body 8;
            property = u32_le_at body 12; time_val = u32_le_at body 16
        in case selection_owner_target_id st selection of
             Some (owner_window, owner_id) \<Rightarrow>
               fst (fanout_event_to_clients [owner_id]
                 (\<lambda>seq order. encode_selection_request_event seq order time_val owner_window requestor
                    selection target property) st)
           | None \<Rightarrow>
               (case Option.bind (window_owner (st_resources st) requestor) (client_target_id st) of
                  Some rt \<Rightarrow>
                    fst (fanout_raw_event_to_clients [rt]
                      (refusal_template time_val requestor selection target) LittleEndian st)
                | None \<Rightarrow> st))"

section \<open>SendEvent\<close>

record SendEventRequest =
  se_propagate :: bool
  se_destination :: ResourceId
  se_event_mask :: u32
  se_event :: "u8 list"

definition send_event_request :: "u8 \<Rightarrow> u8 list \<Rightarrow> SendEventRequest option" where
  "send_event_request propagate body =
     (if length body < 40 then None
      else Some \<lparr>se_propagate = propagate \<noteq> 0, se_destination = u32_le_at body 0,
                se_event_mask = u32_le_at body 4, se_event = take 32 (drop 8 body)\<rparr>)"

text \<open>The loops over the ancestors; the tables bound them.\<close>

fun send_event_loop :: "ServerState \<Rightarrow> u32 \<Rightarrow> bool \<Rightarrow> nat \<Rightarrow> ResourceId \<Rightarrow> ClientId list" where
  "send_event_loop st event_mask propagate 0 current = []"
| "send_event_loop st event_mask propagate (Suc n) current =
     (let t = subscribers_by_id st current event_mask
      in if t \<noteq> [] \<or> \<not> propagate then t
         else (case parent_of (st_resources st) current of
                 None \<Rightarrow> []
               | Some parent \<Rightarrow>
                   if parent = current then [] else send_event_loop st event_mask propagate n parent))"

fun xi2_covers_loop :: "ServerState \<Rightarrow> ClientState \<Rightarrow> u32 \<Rightarrow> nat \<Rightarrow> ResourceId \<Rightarrow> bool" where
  "xi2_covers_loop st c xi2_bit 0 current = False"
| "xi2_covers_loop st c xi2_bit (Suc n) current =
     (if list_ex (\<lambda>deviceid. unwrap_or (hm_get (cs_xi2_masks c) (current, deviceid)) 0 AND xi2_bit \<noteq> 0) [0, 1, 2, 3]
      then True
      else (case parent_of (st_resources st) current of
              None \<Rightarrow> False
            | Some parent \<Rightarrow> if parent = current then False else xi2_covers_loop st c xi2_bit n parent))"

definition send_event_targets :: "ServerState \<Rightarrow> SendEventRequest \<Rightarrow> ClientId list" where
  "send_event_targets st req =
     (let destination = se_destination req; bound = Suc (window_bound st);
          targets =
            (if destination = 0xFFFFFFFF then subscribers_by_id st ROOT_WINDOW (se_event_mask req)
             else if se_event_mask req = 0
             then (case Option.bind (window_owner (st_resources st) destination) (client_target_id st) of
                     Some i \<Rightarrow> [i] | None \<Rightarrow> [])
             else send_event_loop st (se_event_mask req) (se_propagate req) bound destination);
          core_type = se_event req ! 0 AND 0x7F
      in if 4 \<le> core_type \<and> core_type \<le> 8
         then filter (\<lambda>target.
                (case hm_get (st_clients st) target of
                   None \<Rightarrow> True
                 | Some c \<Rightarrow> \<not> xi2_covers_loop st c (push_bit (unat core_type) 1) bound destination)) targets
         else targets)"

definition handle_send_event :: "ClientId \<Rightarrow> u8 \<Rightarrow> u8 list \<Rightarrow> ServerState \<Rightarrow> ServerState" where
  "handle_send_event client_id data body st =
     (let sender_byte_order =
            (case hm_get (st_clients st) client_id of Some c \<Rightarrow> cs_byte_order c | None \<Rightarrow> LittleEndian)
      in case send_event_request data body of
           None \<Rightarrow> st
         | Some req \<Rightarrow>
             let event_copy = (se_event req)[0 := se_event req ! 0 OR 0x80]
             in fst (fanout_raw_event_to_clients (send_event_targets st req) event_copy sender_byte_order st))"

end
