(* ===== verification/Teardown.thy ===== *)
theory Teardown
  imports Selections CoreGrabs
begin

text \<open>
  The end of windows and of clients: DestroyWindow and DestroySubwindows, SetInputFocus and the focus that
  reverts, the save set, SetCloseDownMode and KillClient
  (\<open>crates/xserver-core/src/core_loop/process_request.rs\<close>) and the cleanup after a disconnect
  (\<open>crates/xserver-core/src/core_loop/process_disconnect.rs\<close>).

  The calls to the backend are collected in a list in their order. The backend's answers are not used by
  the code. The socket of a client that disconnects is closed by its writer and its reader thread, which
  are not part of the state.
\<close>

datatype HostCall =
    CallDestroySubwindow u32
  | CallUnregisterWindow u32
  | CallEventMask u32 u32 bool
  | CallCloseFont u32
  | CallFreePixmap u32
  | CallFreePicture u32
  | CallFreeGlyphset u32
  | CallFreeCursor u32
  | CallReleaseGlxExport u32
  | CallReleaseBacking u32
  | CallSceneParticipation u32 bool
  | CallTriggerFence u32
  | CallSignalSyncobj u32 u64

definition POINTER_EVENT_MASK :: u32 where "POINTER_EVENT_MASK = 0x807C"
definition SUBWINDOW_EVENT_MASK :: u32 where "SUBWINDOW_EVENT_MASK = 0x8000"

section \<open>The windows that go\<close>

record PendingDestroy =
  pd_window :: ResourceId
  pd_parent :: ResourceId
  pd_was_mapped :: bool
  pd_host_xid :: "WindowHandle option"
  pd_on_window :: "ClientId list"
  pd_on_parent :: "ClientId list"

text \<open>The recursion descends the tree, which is not deeper than the table is long.\<close>

fun destroy_order_within :: "ResourceTable \<Rightarrow> nat \<Rightarrow> ResourceId \<Rightarrow> ResourceId list" where
  "destroy_order_within t 0 root = []"
| "destroy_order_within t (Suc n) root =
     (case window t root of
        None \<Rightarrow> []
      | Some w \<Rightarrow> concat (map (destroy_order_within t n) (win_children w)) @ [root])"

definition collect_destroy_order :: "ResourceTable \<Rightarrow> ResourceId \<Rightarrow> ResourceId list" where
  "collect_destroy_order t root = destroy_order_within t (Suc (hm_len (rt_windows t))) root"

fun bg_pixmaps_within :: "ResourceTable \<Rightarrow> nat \<Rightarrow> ResourceId \<Rightarrow> u32 list" where
  "bg_pixmaps_within t 0 i = []"
| "bg_pixmaps_within t (Suc n) i =
     (case window t i of
        None \<Rightarrow> []
      | Some w \<Rightarrow> (case win_background_pixmap_host_xid w of None \<Rightarrow> [] | Some xid \<Rightarrow> [xid]) @
          concat (map (bg_pixmaps_within t n) (win_children w)))"

definition collect_bg_pixmap_host_xids :: "ResourceTable \<Rightarrow> ResourceId \<Rightarrow> u32 list" where
  "collect_bg_pixmap_host_xids t root = bg_pixmaps_within t (Suc (hm_len (rt_windows t))) root"

definition pending_destroy :: "ServerState \<Rightarrow> ResourceId \<Rightarrow> PendingDestroy" where
  "pending_destroy st w =
     (let (parent, was_mapped, host_xid) =
            (case window (st_resources st) w of
               None \<Rightarrow> (ROOT_WINDOW, False, None)
             | Some win \<Rightarrow> (win_parent win, win_map_state win \<noteq> Unmapped, win_host_xid win))
      in \<lparr>pd_window = w, pd_parent = parent, pd_was_mapped = was_mapped, pd_host_xid = host_xid,
          pd_on_window = subscribers_by_id st w 0x00020000,
          pd_on_parent = subscribers_by_id st parent 0x00080000\<rparr>)"

definition fanout_destroy_sequence :: "PendingDestroy \<Rightarrow> ServerState \<Rightarrow> ServerState" where
  "fanout_destroy_sequence p st =
     (let w = pd_window p; parent = pd_parent p;
          st = (if pd_was_mapped p
                then
                  let st = fst (fanout_event_to_clients (pd_on_window p)
                        (\<lambda>seq order. encode_unmap_notify_event seq order w w False) st)
                  in fst (fanout_event_to_clients (pd_on_parent p)
                        (\<lambda>seq order. encode_unmap_notify_event seq order parent w False) st)
                else st);
          st = fst (fanout_event_to_clients (pd_on_window p)
                 (\<lambda>seq order. encode_destroy_notify_event seq order w w) st)
      in fst (fanout_event_to_clients (pd_on_parent p)
           (\<lambda>seq order. encode_destroy_notify_event seq order parent w) st))"

section \<open>The core focus\<close>

fun revert_parent_loop :: "ResourceTable \<Rightarrow> ResourceId list \<Rightarrow> nat \<Rightarrow> ResourceId \<Rightarrow> ResourceId" where
  "revert_parent_loop t dying 0 parent = parent"
| "revert_parent_loop t dying (Suc n) parent =
     (if parent = ROOT_WINDOW then parent
      else
        (case window t parent of
           None \<Rightarrow> ROOT_WINDOW
         | Some w \<Rightarrow>
             if win_map_state w = Viewable \<and> parent \<notin> set dying then parent
             else if win_parent w = parent then parent
             else revert_parent_loop t dying n (win_parent w)))"

text \<open>\<open>focused_window\<close> of every client follows the focus; None and PointerRoot are the root there.\<close>

definition mirror_focus :: "u32 \<Rightarrow> ServerState \<Rightarrow> ServerState" where
  "mirror_focus to_raw st =
     (let mirror = (if to_raw \<le> 1 then ROOT_WINDOW else to_raw)
      in st\<lparr>st_clients := map (\<lambda>(i, c). (i, c\<lparr>cs_focused_window := mirror\<rparr>)) (st_clients st)\<rparr>)"

definition revert_core_focus_from :: "ResourceId \<Rightarrow> ResourceId list \<Rightarrow> ServerState \<Rightarrow> ServerState" where
  "revert_core_focus_from win dying st =
     (if cf_raw (st_core_focus st) \<noteq> win \<or> win = ROOT_WINDOW then st
      else
        let mode = (if st_active_keyboard_grab st \<noteq> None then 3 else 0);
            revert_to = cf_revert_to (st_core_focus st);
            start = (case window (st_resources st) win of None \<Rightarrow> ROOT_WINDOW | Some w \<Rightarrow> win_parent w);
            (to_raw, new_revert) =
              (if revert_to = 2
               then (revert_parent_loop (st_resources st) dying (Suc (hm_len (rt_windows (st_resources st)))) start, 0)
               else if revert_to = 1 then (1, revert_to)
               else (0, revert_to));
            st = emit_core_focus_transition win to_raw mode st
        in mirror_focus to_raw
             (st\<lparr>st_core_focus := (st_core_focus st)\<lparr>cf_raw := to_raw, cf_revert_to := new_revert\<rparr>\<rparr>))"

definition revert_core_focus_if_unviewable :: "ServerState \<Rightarrow> ServerState" where
  "revert_core_focus_if_unviewable st =
     (let raw = cf_raw (st_core_focus st)
      in if raw \<le> 1 then st
         else if (case window (st_resources st) raw of Some w \<Rightarrow> win_map_state w = Viewable | None \<Rightarrow> False) then st
         else revert_core_focus_from raw [] st)"

definition focus_now :: "ServerState \<Rightarrow> u32" where
  "focus_now st = max (max (st_timestamp st) (st_xi1_last_input_time st)) (cf_time (st_core_focus st))"

definition handle_set_input_focus ::
  "ClientId \<Rightarrow> u16 \<Rightarrow> u8 \<Rightarrow> u8 list \<Rightarrow> ServerState \<Rightarrow> ServerState \<times> RequestOutcome" where
  "handle_set_input_focus client_id sequence revert_to body st =
     (if length body < 4 then (st, Handled)
      else
        let win = u32_le_at body 0; w = window (st_resources st) win;
            time = (if length body \<ge> 8 then u32_le_at body 4 else 0)
        in if revert_to > 2 then emit_x11_error client_id sequence BAD_VALUE (ucast revert_to) 42 st
           else if win > 1 \<and> w = None then emit_x11_error client_id sequence BAD_WINDOW win 42 st
           else if win > 1 \<and> map_option win_map_state w \<noteq> Some Viewable
           then emit_x11_error client_id sequence BAD_MATCH win 42 st
           else if time \<noteq> 0 \<and> (time_after time (focus_now st) \<or> time_after (cf_time (st_core_focus st)) time)
           then (st, Handled)
           else
             let from_raw = cf_raw (st_core_focus st); now = focus_now st;
                 st = (if from_raw \<noteq> win then emit_core_focus_transition from_raw win 0 st else st);
                 st = st\<lparr>st_core_focus := \<lparr>cf_raw = win, cf_revert_to = revert_to,
                        cf_time = (if time = 0 then now else time)\<rparr>\<rparr>
             in (mirror_focus win st, Handled))"

section \<open>DestroyWindow\<close>

definition idle_calls :: "QueuedPresent \<Rightarrow> HostCall list" where
  "idle_calls frame =
     (case qp_idle frame of
        Binary fence \<Rightarrow> if fence = 0 then [] else [CallTriggerFence fence]
      | Timeline syncobj v \<Rightarrow> if syncobj = 0 then [] else [CallSignalSyncobj syncobj v])"

fun drain_windows :: "ResourceId list \<Rightarrow> PresentScheduler \<Rightarrow> PresentScheduler \<times> HostCall list" where
  "drain_windows [] s = (s, [])"
| "drain_windows (w # ws) s =
     (case drain_window w s of
        (s1, drained) \<Rightarrow>
          (case drain_windows ws s1 of (s2, calls) \<Rightarrow> (s2, concat (map idle_calls drained) @ calls)))"

definition backing_of :: "ResourceTable \<Rightarrow> ResourceId \<Rightarrow> u32 option" where
  "backing_of t w = Option.bind (window t w) (\<lambda>win. map_option rb_host_pixmap (win_redirected_backing win))"

definition revert_dying_focus :: "ResourceId list \<Rightarrow> ServerState \<Rightarrow> ServerState" where
  "revert_dying_focus order st =
     (let focus_win = cf_raw (st_core_focus st)
      in if focus_win > 1 \<and> focus_win \<in> set order then revert_core_focus_from focus_win order st else st)"

definition orphaned_backgrounds :: "ResourceTable \<Rightarrow> u32 list \<Rightarrow> HostCall list" where
  "orphaned_backgrounds t xids =
     map CallFreePixmap (filter (\<lambda>xid. xid \<noteq> 0 \<and> \<not> host_xid_referenced_by_window_bg t xid \<and>
       \<not> host_xid_owned_by_pixmap t xid) xids)"

definition teardown_calls :: "PendingDestroy \<Rightarrow> HostCall list" where
  "teardown_calls p =
     (case pd_host_xid p of
        None \<Rightarrow> []
      | Some xid \<Rightarrow> [CallUnregisterWindow xid, CallEventMask xid POINTER_EVENT_MASK False,
          CallEventMask xid SUBWINDOW_EVENT_MASK False, CallDestroySubwindow xid])"

text \<open>Everything up to the deletion of the windows from the table.\<close>

definition forget_subtree :: "ResourceId list \<Rightarrow> ResourceId \<Rightarrow> ServerState \<Rightarrow> ServerState \<times> HostCall list" where
  "forget_subtree order root st =
     (let backings = List.map_filter (backing_of (st_resources st)) order;
          (sched, idle) = drain_windows order (st_present_scheduler st);
          st = st\<lparr>st_present_scheduler := sched,
                 st_composite_redirects :=
                   hm_retain (\<lambda>(w, _) _. w \<notin> set order) (st_composite_redirects st)\<rparr>;
          st = drop_selections_owned_by_windows order SELECTION_NOTIFY_WINDOW_DESTROY st;
          st = st\<lparr>st_resources := fst (destroy_window root (st_resources st))\<rparr>
      in (drop_window_subscriptions order st, idle @ map CallReleaseBacking backings))"

definition destroy_window_subtree :: "ResourceId \<Rightarrow> ServerState \<Rightarrow> (ServerState \<times> HostCall list) option" where
  "destroy_window_subtree root st =
     (let st = revert_focus_for_dying_subtree root st;
          order = collect_destroy_order (st_resources st) root;
          st = revert_dying_focus order st;
          pending = map (pending_destroy st) order;
          bg_pixmap_xids = collect_bg_pixmap_host_xids (st_resources st) root;
          (st, calls) = forget_subtree order root st;
          calls = calls @ orphaned_backgrounds (st_resources st) bg_pixmap_xids @
            concat (map teardown_calls pending);
          st = fold fanout_destroy_sequence pending st
      in map_option (\<lambda>st. (st, calls)) (release_core_grabs_for_unviewable st))"

fun destroy_each :: "ResourceId list \<Rightarrow> ServerState \<Rightarrow> (ServerState \<times> HostCall list) option" where
  "destroy_each [] st = Some (st, [])"
| "destroy_each (k # ks) st =
     (case destroy_window_subtree k st of
        None \<Rightarrow> None
      | Some (st1, calls) \<Rightarrow>
          map_option (\<lambda>(st2, calls'). (st2, calls @ calls')) (destroy_each ks st1))"

definition window_answer ::
  "(ServerState \<times> RequestOutcome) \<Rightarrow> (ServerState \<times> HostCall list \<times> RequestOutcome) option" where
  "window_answer r = Some (fst r, [], snd r)"

definition handle_destroy_window ::
  "ClientId \<Rightarrow> u16 \<Rightarrow> u8 list \<Rightarrow> ServerState \<Rightarrow> (ServerState \<times> HostCall list \<times> RequestOutcome) option" where
  "handle_destroy_window client_id sequence body st =
     (if length body < 4 then window_answer (st, Handled)
      else
        let win = u32_le_at body 0
        in if window (st_resources st) win = None
           then window_answer (emit_x11_error client_id sequence BAD_WINDOW win 4 st)
           else map_option (\<lambda>(st, calls). (st, calls, Handled)) (destroy_window_subtree win st))"

definition handle_destroy_subwindows ::
  "ClientId \<Rightarrow> u16 \<Rightarrow> u8 list \<Rightarrow> ServerState \<Rightarrow> (ServerState \<times> HostCall list \<times> RequestOutcome) option" where
  "handle_destroy_subwindows client_id sequence body st =
     (if length body < 4 then window_answer (st, Handled)
      else
        let parent = u32_le_at body 0
        in if window (st_resources st) parent = None
           then window_answer (emit_x11_error client_id sequence BAD_WINDOW parent 5 st)
           else map_option (\<lambda>(st, calls). (st, calls, Handled))
                  (destroy_each (children (st_resources st) parent) st))"

end
