(* ===== verification/Disconnect.thy ===== *)
theory Disconnect
  imports Teardown
begin

text \<open>
  The cleanup after a disconnect (\<open>crates/xserver-core/src/core_loop/process_disconnect.rs\<close>) with
  SetCloseDownMode, KillClient and ChangeSaveSet
  (\<open>crates/xserver-core/src/core_loop/process_request.rs\<close>).
\<close>

section \<open>The windows of the client\<close>

text \<open>One root of the windows of the client: the pending notifications in \<open>pending\<close>, all destroyed windows
  in \<open>gone\<close>.\<close>

definition destroy_owned_root ::
  "ResourceId \<Rightarrow> ServerState \<times> PendingDestroy list \<times> ResourceId list
    \<Rightarrow> ServerState \<times> PendingDestroy list \<times> ResourceId list" where
  "destroy_owned_root root r =
     (case r of
        (st, pending, gone) \<Rightarrow>
          (let st = revert_focus_for_dying_subtree root st;
               order = collect_destroy_order (st_resources st) root;
               st' = st\<lparr>st_resources := fst (destroy_window root (st_resources st))\<rparr>
           in (st', pending @ map (pending_destroy st) order, gone @ order)))"

definition destroy_owned_windows ::
  "ClientId \<Rightarrow> ServerState \<Rightarrow> ServerState \<times> PendingDestroy list \<times> ResourceId list" where
  "destroy_owned_windows client_id st =
     (case fold destroy_owned_root (collect_owned_window_roots (st_resources st) client_id) (st, [], []) of
        (st, pending, gone) \<Rightarrow> (drop_window_subscriptions gone st, pending, gone))"

definition no_removed_resources :: ClientRemovedResources where
  "no_removed_resources = \<lparr>crr_closed_fonts = [], crr_freed_pixmaps = [], crr_freed_pictures = [],
     crr_freed_glyphsets = [], crr_freed_cursors = []\<rparr>"

definition removed_calls :: "ClientRemovedResources \<Rightarrow> HostCall list" where
  "removed_calls removed =
     map CallCloseFont (crr_closed_fonts removed) @ map CallFreePixmap (crr_freed_pixmaps removed) @
     concat (map (\<lambda>(pic, owned). CallFreePicture pic #
       (case owned of None \<Rightarrow> [] | Some pix \<Rightarrow> [CallFreePixmap pix])) (crr_freed_pictures removed)) @
     map CallFreeGlyphset (crr_freed_glyphsets removed) @ map CallFreeCursor (crr_freed_cursors removed)"

definition disconnect_window_calls :: "PendingDestroy \<Rightarrow> HostCall list" where
  "disconnect_window_calls p =
     (case pd_host_xid p of
        None \<Rightarrow> [] | Some xid \<Rightarrow> [CallDestroySubwindow xid, CallUnregisterWindow xid])"

definition drop_non_window_resources :: "ClientId \<Rightarrow> ServerState \<Rightarrow> ServerState \<times> ClientRemovedResources" where
  "drop_non_window_resources client_id st =
     (case remove_non_window_resources_owned_by client_id (st_resources st) of
        (t, removed) \<Rightarrow> (st\<lparr>st_resources := t\<rparr>, removed))"

section \<open>Redirected windows\<close>

definition teardown_redirect_for_window :: "ResourceId \<Rightarrow> ServerState \<Rightarrow> ServerState \<times> HostCall list" where
  "teardown_redirect_for_window w st =
     (case window (st_resources st) w of
        None \<Rightarrow> (st, [])
      | Some win \<Rightarrow>
          let st' = st\<lparr>st_resources := modify_window w (\<lambda>x. x\<lparr>win_redirected_backing := None\<rparr>) (st_resources st)\<rparr>
          in case win_redirected_backing win of
               None \<Rightarrow> (st', [])
             | Some backing \<Rightarrow>
                 (st', CallReleaseBacking (rb_host_pixmap backing) #
                   (case win_host_xid win of None \<Rightarrow> [] | Some host \<Rightarrow> [CallSceneParticipation host True])))"

fun teardown_redirects :: "ResourceId list \<Rightarrow> ServerState \<Rightarrow> ServerState \<times> HostCall list" where
  "teardown_redirects [] st = (st, [])"
| "teardown_redirects (w # ws) st =
     (case teardown_redirect_for_window w st of
        (st1, calls) \<Rightarrow>
          (case teardown_redirects ws st1 of (st2, calls') \<Rightarrow> (st2, calls @ calls')))"

definition redirect_windows :: "ResourceTable \<Rightarrow> (ResourceId \<times> bool) list \<Rightarrow> ResourceId list" where
  "redirect_windows t redirects =
     concat (map (\<lambda>(w, subwindows). if subwindows then children t w else [w]) redirects)"

definition drop_redirects :: "ClientId \<Rightarrow> ResourceId list \<Rightarrow> ServerState \<Rightarrow> ServerState \<times> HostCall list" where
  "drop_redirects client_id dead st =
     (let owned = map fst (filter (\<lambda>(_, r). rr_owner r = client_id) (st_composite_redirects st));
          (st, calls) = teardown_redirects (redirect_windows (st_resources st) owned) st
      in (st\<lparr>st_composite_redirects := hm_retain (\<lambda>(w, _) r. rr_owner r \<noteq> client_id \<and> w \<notin> set dead)
             (st_composite_redirects st)\<rparr>, calls))"

section \<open>The tables of the extensions\<close>

definition drop_extension_state ::
  "ClientId \<Rightarrow> ResourceId list \<Rightarrow> ServerState \<Rightarrow> ServerState \<times> HostCall list" where
  "drop_extension_state c dead st =
     (let exports = List.map_filter gd_export_host_xid
            (filter (\<lambda>d. gd_owner d = c) (hm_values (st_glx_drawables st)));
          st = st\<lparr>
            st_xfixes_regions := hm_retain (\<lambda>_ r. xr_owner r \<noteq> c) (st_xfixes_regions st),
            st_xfixes_selection_masks := hm_retain (\<lambda>(owner, _, _) _. owner \<noteq> c) (st_xfixes_selection_masks st),
            st_xfixes_cursor_masks := hm_retain (\<lambda>(owner, _) _. owner \<noteq> c) (st_xfixes_cursor_masks st),
            st_shape_windows := hm_retain (\<lambda>w _. w \<notin> set dead) (st_shape_windows st),
            st_shape_select_masks :=
              hm_retain (\<lambda>(owner, w) _. owner \<noteq> c \<and> w \<notin> set dead) (st_shape_select_masks st),
            st_sync_counters := hm_retain (\<lambda>_ x. sc_owner x \<noteq> c) (st_sync_counters st),
            st_sync_alarms := hm_retain (\<lambda>_ x. sa_owner x \<noteq> c) (st_sync_alarms st),
            st_sync_fences := hm_retain (\<lambda>_ x. sf_owner x \<noteq> c) (st_sync_fences st),
            st_sync_pending_awaits := filter (\<lambda>a. pa_client a \<noteq> c) (st_sync_pending_awaits st),
            st_glx_contexts := hm_retain (\<lambda>_ owner. owner \<noteq> c) (st_glx_contexts st),
            st_glx_drawables := hm_retain (\<lambda>_ d. gd_owner d \<noteq> c) (st_glx_drawables st),
            st_damage_objects := hm_retain (\<lambda>_ d. dmg_owner d \<noteq> c \<and> dmg_drawable d \<notin> set dead)
              (st_damage_objects st)\<rparr>;
          (st, redirect_calls) = drop_redirects c dead st
      in (st\<lparr>
            st_present_event_selections := hm_retain (\<lambda>_ s. pe_owner s \<noteq> c \<and> pe_window s \<notin> set dead)
              (st_present_event_selections st),
            st_present_msc := hm_retain (\<lambda>w _. w \<notin> set dead) (st_present_msc st),
            st_mit_shm_segments := hm_retain (\<lambda>_ owner. owner \<noteq> c) (st_mit_shm_segments st),
            st_randr_select_masks :=
              hm_retain (\<lambda>(owner, w) _. owner \<noteq> c \<and> w \<notin> set dead) (st_randr_select_masks st),
            st_xkb_select_event_masks := hm_retain (\<lambda>(owner, _) _. owner \<noteq> c) (st_xkb_select_event_masks st)\<rparr>,
          map CallReleaseGlxExport exports @ redirect_calls))"

definition drop_timer_state :: "nat \<Rightarrow> ClientId \<Rightarrow> ServerState \<Rightarrow> ServerState" where
  "drop_timer_state now c st =
     (let was_suspending = hm_contains (ss_suspend_counts (st_screensaver st)) c;
          st = st\<lparr>st_dpms := (st_dpms st)\<lparr>dpms_selected_by := filter (\<lambda>i. i \<noteq> c) (dpms_selected_by (st_dpms st))\<rparr>,
                 st_screensaver := (st_screensaver st)\<lparr>
                   ss_selected_by := hm_remove c (ss_selected_by (st_screensaver st)),
                   ss_suspend_counts := hm_remove c (ss_suspend_counts (st_screensaver st))\<rparr>\<rparr>
      in if was_suspending \<and> ss_suspend_counts (st_screensaver st) = [] \<and>
            ss_active (st_screensaver st) = SaverOff \<and> dpms_power_level (st_dpms st) = 0
         then reset_idletime_state_after_suspend_release now
                (st\<lparr>st_dpms := (st_dpms st)\<lparr>dpms_last_activity := now\<rparr>\<rparr>)
         else st)"

section \<open>The grabs\<close>

definition drop_core_grabs :: "ClientId \<Rightarrow> ServerState \<Rightarrow> ServerState" where
  "drop_core_grabs c st =
     (let st = st\<lparr>st_button_grabs := filter (\<lambda>g. bg_owner g \<noteq> c) (st_button_grabs st),
                 st_key_grabs := filter (\<lambda>g. kg_owner g \<noteq> c) (st_key_grabs st)\<rparr>;
          st = (if map_option fst (st_pointer_grab st) = Some c
                then st\<lparr>st_pointer_grab := None, st_pointer_grab_is_passive := False,
                       st_frozen_pointer_event := None, st_frozen_pointer_queue := []\<rparr>
                else st);
          st = (if map_option ap_owner (st_active_pointer_grab st) = Some c
                then st\<lparr>st_active_pointer_grab := None\<rparr> else st)
      in if map_option ak_owner (st_active_keyboard_grab st) = Some c
         then st\<lparr>st_active_keyboard_grab := None, st_frozen_keyboard_event := None\<rparr> else st)"

fun for_devices :: "(u16 \<Rightarrow> ServerState \<Rightarrow> ServerState option) \<Rightarrow> u16 list \<Rightarrow> ServerState \<Rightarrow> ServerState option" where
  "for_devices f [] st = Some st"
| "for_devices f (d # ds) st = Option.bind (f d st) (for_devices f ds)"

definition drop_device_grabs :: "ClientId \<Rightarrow> ServerState \<Rightarrow> ServerState option" where
  "drop_device_grabs c st =
     (let st = st\<lparr>st_xi1_passive_grabs := filter (\<lambda>g. xp_owner g \<noteq> c) (st_xi1_passive_grabs st)\<rparr>;
          released = map fst (filter (\<lambda>(_, g). xa_owner g = c) (st_xi1_active_grabs st))
      in Option.bind (for_devices (xi1_deactivate_device_grab xi1_compute_freezes) released st)
           (\<lambda>st. if released = [] \<and> st_xi1_active_grabs st = []
              then for_devices xi1_thaw_device
                     (map fst (filter (\<lambda>(_, f). frozen f) (st_xi1_frozen st))) st
              else Some st))"

section \<open>The disconnect\<close>

definition forget_client :: "ClientId \<Rightarrow> bool \<Rightarrow> ServerState \<Rightarrow> ServerState" where
  "forget_client c retain st =
     (let released_base = map_option cs_resource_id_base (hm_get (st_clients st) c);
          st = st\<lparr>st_clients := hm_remove c (st_clients st)\<rparr>
      in case (if retain then None else released_base) of
           None \<Rightarrow> st
         | Some base \<Rightarrow> st\<lparr>st_id_allocator := release base (st_id_allocator st)\<rparr>)"

definition process_disconnect :: "nat \<Rightarrow> ClientId \<Rightarrow> ServerState \<Rightarrow> (ServerState \<times> HostCall list) option" where
  "process_disconnect now c st =
     (if \<not> hm_contains (st_clients st) c then Some (st, [])
      else
        let close_mode = unwrap_or (hm_get (st_close_down_modes st) c) 0;
            retain = (close_mode = 1 \<or> close_mode = 2);
            st = st\<lparr>st_close_down_modes := hm_remove c (st_close_down_modes st)\<rparr>;
            st = fanout_xfixes_selection_client_close_for_client c st;
            (st, pending, dead) = destroy_owned_windows c st;
            (st, removed) =
              (if retain
               then (st\<lparr>st_zombie_clients := hm_insert c close_mode (st_zombie_clients st)\<rparr>, no_removed_resources)
               else drop_non_window_resources c st);
            st = forget_client c retain st;
            (st, calls) = drop_extension_state c dead st;
            st = drop_core_grabs c (drop_timer_state now c st)
        in map_option (\<lambda>st.
             (fold fanout_destroy_sequence pending
                (st\<lparr>st_selections := hm_retain (\<lambda>_ (w, _). w \<notin> set dead) (st_selections st)\<rparr>),
              calls @ concat (map disconnect_window_calls pending) @ removed_calls removed))
             (drop_device_grabs c st))"

definition destroy_zombie_resources :: "ClientId \<Rightarrow> ServerState \<Rightarrow> ServerState \<times> HostCall list" where
  "destroy_zombie_resources zombie st =
     (let (st, pending, dead) = destroy_owned_windows zombie st;
          (st, removed) = drop_non_window_resources zombie st
      in (fold fanout_destroy_sequence pending st,
          concat (map disconnect_window_calls pending) @ removed_calls removed))"

section \<open>The requests\<close>

definition handle_change_save_set :: "ClientId \<Rightarrow> u8 \<Rightarrow> u8 list \<Rightarrow> ServerState \<Rightarrow> ServerState" where
  "handle_change_save_set client_id mode body st =
     (case (if length body \<ge> 4 then hm_get (st_clients st) client_id else None) of
        None \<Rightarrow> st
      | Some c \<Rightarrow>
          let win = u32_le_at body 0
          in if mode = 0 then set_client client_id (c\<lparr>cs_save_set := List.insert win (cs_save_set c)\<rparr>) st
             else if mode = 1
             then set_client client_id (c\<lparr>cs_save_set := filter (\<lambda>w. w \<noteq> win) (cs_save_set c)\<rparr>) st
             else st)"

definition handle_set_close_down_mode :: "ClientId \<Rightarrow> u16 \<Rightarrow> u8 \<Rightarrow> ServerState \<Rightarrow> ServerState \<times> RequestOutcome" where
  "handle_set_close_down_mode client_id sequence mode st =
     (if mode > 2 then emit_x11_error client_id sequence BAD_VALUE (ucast mode) 112 st
      else if mode = 0
      then (st\<lparr>st_close_down_modes := hm_remove client_id (st_close_down_modes st)\<rparr>, Handled)
      else (st\<lparr>st_close_down_modes := hm_insert client_id mode (st_close_down_modes st)\<rparr>, Handled))"

definition remove_zombie :: "ClientId \<Rightarrow> ServerState \<times> HostCall list \<Rightarrow> ServerState \<times> HostCall list" where
  "remove_zombie z r =
     (case destroy_zombie_resources z (fst r) of
        (st, calls) \<Rightarrow> (st\<lparr>st_zombie_clients := hm_remove z (st_zombie_clients st)\<rparr>, snd r @ calls))"

definition handle_kill_client ::
  "nat \<Rightarrow> ClientId \<Rightarrow> u16 \<Rightarrow> u8 list \<Rightarrow> ServerState
    \<Rightarrow> (ServerState \<times> HostCall list \<times> RequestOutcome) option" where
  "handle_kill_client now client_id sequence body st =
     (if length body < 4 then window_answer (st, Handled)
      else
        let resource = u32_le_at body 0
        in if resource = 0
           then (case fold remove_zombie (map fst (filter (\<lambda>(_, mode). mode = 2) (st_zombie_clients st))) (st, []) of
                   (st, calls) \<Rightarrow> Some (st, calls, Handled))
           else
             (case resource_owner (st_resources st) resource of
                None \<Rightarrow> window_answer (emit_x11_error client_id sequence BAD_VALUE resource 113 st)
              | Some owner \<Rightarrow>
                  if owner = SERVER_OWNER then window_answer (st, Handled)
                  else if hm_contains (st_zombie_clients st) owner
                  then (case remove_zombie owner (st, []) of (st, calls) \<Rightarrow> Some (st, calls, Handled))
                  else if owner = client_id then window_answer (st, DisconnectClient client_id)
                  else if hm_contains (st_clients st) owner
                  then map_option (\<lambda>(st, calls). (st, calls, Handled)) (process_disconnect now owner st)
                  else window_answer (st, Handled)))"

end
