(* ===== verification/InputFrame.thy ===== *)
theory InputFrame
  imports Disconnect DeliveryClaims
begin

text \<open>
  What the delivery and the replay of events leave alone: everything but the queues and states of the
  clients, the state and the focus of the input devices
  and the grabs that an event activates. The frame of a state is
  its unchanged part, so that a step keeps the frame by an equation that the simplifier applies.
\<close>

definition frame :: "ServerState \<Rightarrow> (ClientId \<Rightarrow> bool) \<times> ServerState" where
  "frame st = ((\<lambda>i. hm_get (st_clients st) i \<noteq> None), st\<lparr>st_clients := [], st_xi1_device_input_state := [],
     st_xi1_frozen := [], st_xi1_device_focus := [], st_xi1_active_grabs := [], st_xi1_last_grab_time := 0, st_xi1_last_input_time := 0,
     st_active_keyboard_grab := None, st_frozen_keyboard_event := None, st_frozen_pointer_queue := []\<rparr>)"

definition frames :: "ServerState \<Rightarrow> ServerState option \<Rightarrow> bool" where
  "frames st r \<longleftrightarrow> (\<forall>st'. r = Some st' \<longrightarrow> frame st' = frame st)"

lemma frames_Some [simp]: "frames st (Some st') \<longleftrightarrow> frame st' = frame st"
  by (auto simp: frames_def)

lemma frames_None [simp]: "frames st None"
  by (simp add: frames_def)

lemma frames_bind: "frames st r \<Longrightarrow> (\<And>s. frame s = frame st \<Longrightarrow> frames st (f s)) \<Longrightarrow> frames st (Option.bind r f)"
  by (cases r) auto

lemma frames_after: "frames s r \<Longrightarrow> frame s = frame st \<Longrightarrow> frames st r"
  by (simp add: frames_def)

section \<open>Deliveries\<close>

lemma frame_set_clients:
  "(\<And>i. (hm_get cl i \<noteq> None) = (hm_get (st_clients st) i \<noteq> None)) \<Longrightarrow> frame (st\<lparr>st_clients := cl\<rparr>) = frame st"
  by (simp add: frame_def)

lemma frame_fanout_loop [simp]: "frame (fst (fanout_loop encode seen ids st)) = frame st"
proof -
  obtain cl where cl: "fst (fanout_loop encode seen ids st) = st\<lparr>st_clients := cl\<rparr>"
    using fanout_loop_frame by blast
  have "(hm_get cl i \<noteq> None) = (hm_get (st_clients st) i \<noteq> None)" for i
    using arg_cong [OF cl, of st_clients] fanout_loop_get [of encode seen ids st i]
    by (cases "hm_get (st_clients st) i") (auto split: if_splits)
  then show ?thesis unfolding cl by (rule frame_set_clients)
qed

lemma frame_fanout [simp]: "frame (fst (fanout_event_to_clients ids encode st)) = frame st"
  by (simp add: fanout_event_to_clients_def)

lemma frame_raw_fanout [simp]: "frame (fst (fanout_raw_event_to_clients ids e order st)) = frame st"
  by (simp add: fanout_raw_event_to_clients_def)

lemma frame_fold: "(\<And>x s. frame (f x s) = frame s) \<Longrightarrow> frame (fold f xs st) = frame st"
  by (induction xs arbitrary: st) simp_all

lemma frame_window_event [simp]: "frame (fst (emit_window_event_to_state w m encode st)) = frame st"
  by (simp add: emit_window_event_to_state_def Let_def)

lemma frame_xi2_focus [simp]: "frame (fst (emit_xi2_focus_event_to_state w ev op mode detail x y st)) = frame st"
  by (simp add: emit_xi2_focus_event_to_state_def Let_def case_prod_beta)

lemma frame_core_focus [simp]: "frame (emit_core_focus_transition a b mode st) = frame st"
  unfolding emit_core_focus_transition_def by (rule frame_fold) (simp add: core_focus_step_def Let_def)

lemma frame_state_notify [simp]: "frame (deliver_state_notify d w st) = frame st"
  by (simp add: deliver_state_notify_def Let_def)

lemma frame_device_focus_event [simp]: "frame (emit_device_focus d is_in mode detail w st) = frame st"
  by (simp add: emit_device_focus_def Let_def)

lemma frame_device_focus_events [simp]: "frame (device_focus_events d fr to mode st) = frame st"
  unfolding device_focus_events_def by (rule frame_fold) simp

lemma frame_insert_focus [simp]: "frame (insert_device_focus d f st) = frame st"
  by (simp add: frame_def insert_device_focus_def)

lemma frame_revert_focus [simp]: "frame (revert_focus_for_dying_subtree r st) = frame st"
proof -
  have "frame (revert_step lost dying dev s) = frame s" for lost dying dev s
    by (auto simp: revert_step_def do_revert_def Let_def case_prod_beta split: Xi1FocusTarget.split)
  then show ?thesis
    unfolding revert_focus_for_dying_subtree_def by (auto intro: frame_fold)
qed

lemma frame_destroy_sequence [simp]: "frame (fanout_destroy_sequence p st) = frame st"
  by (simp add: fanout_destroy_sequence_def Let_def)

lemma frame_selection_notify [simp]:
  "frame (fanout_xfixes_selection_notify sel subtype w t t' st) = frame st"
  unfolding fanout_xfixes_selection_notify_def Let_def by (rule frame_fold) (simp add: case_prod_beta)

section \<open>The freeze table and the device state\<close>

lemma frame_freezes [simp]:
  "frame (entry_freeze d f st) = frame st" "frame (modify_freeze d f st) = frame st"
  by (simp_all add: frame_def entry_freeze_def modify_freeze_def)

lemma frame_device_state [simp]: "frame (update_bits q st) = frame st" "frame (update_axes q st) = frame st"
  by (simp_all add: frame_def update_bits_def update_axes_def Let_def)

lemma frame_freeze_event [simp]: "frame (xi1_freeze_this_event_if_needed d owner q st) = frame st"
  by (simp add: xi1_freeze_this_event_if_needed_def Let_def split: Xi1SyncState.split)

lemma frame_fan [simp]: "frame (fst (xi1_fan_device_event targets w q st)) = frame st"
  by (simp add: xi1_fan_device_event_def)

lemma frame_grab_fields [simp]:
  "frame (st\<lparr>st_xi1_active_grabs := g\<rparr>) = frame st" "frame (st\<lparr>st_xi1_last_grab_time := t\<rparr>) = frame st"
  "frame (st\<lparr>st_xi1_last_input_time := t\<rparr>) = frame st" "frame (st\<lparr>st_active_keyboard_grab := k\<rparr>) = frame st"
  "frame (st\<lparr>st_frozen_keyboard_event := e\<rparr>) = frame st" "frame (st\<lparr>st_frozen_pointer_queue := q\<rparr>) = frame st"
  by (simp_all add: frame_def)

lemma frame_drop_stale [simp]: "frame (drop_stale_pointer_events st) = frame st"
  by (simp add: drop_stale_pointer_events_def)

lemma frame_key_to_window [simp]: "frame (fst (deliver_key_to_window e w st)) = frame st"
  by (simp add: deliver_key_to_window_def Let_def case_prod_beta)

lemma frame_key_to_owner [simp]: "frame (fst (deliver_key_to_grab_owner e owner w via st)) = frame st"
  by (simp add: deliver_key_to_grab_owner_def)

section \<open>The replay\<close>

text \<open>The steps of the replay take the replay itself as an argument.\<close>

definition frame_ok :: "(ServerState \<Rightarrow> ServerState option) \<Rightarrow> bool" where
  "frame_ok cf \<longleftrightarrow> (\<forall>st. frames st (cf st))"

lemma frame_okD: "frame_ok cf \<Longrightarrow> frame s = frame st \<Longrightarrow> frames st (cf s)"
  unfolding frame_ok_def by (blast intro: frames_after)

lemma frames_if: "(c \<Longrightarrow> frames st a) \<Longrightarrow> (\<not> c \<Longrightarrow> frames st b) \<Longrightarrow> frames st (if c then a else b)"
  by simp

lemma frames_check_grab: "frame_ok cf \<Longrightarrow> frames st (xi1_check_grab_for_syncs cf d owner this other st)"
  unfolding xi1_check_grab_for_syncs_def by (erule frame_okD) simp

lemma frames_deactivate: "frame_ok cf \<Longrightarrow> frames st (xi1_deactivate_device_grab cf d st)"
  unfolding xi1_deactivate_device_grab_def by (auto split: option.split intro: frame_okD)

lemma frames_bridge: "frame_ok cf \<Longrightarrow> frames st (xi1_core_grab_bridge_release cf d owner st)"
  unfolding xi1_core_grab_bridge_release_def by (erule frame_okD) simp

abbreviation frames_fst :: "ServerState \<Rightarrow> (ServerState \<times> 'a) option \<Rightarrow> bool" where
  "frames_fst st r \<equiv> frames st (map_option fst r)"

lemma frames_fst_bind:
  "frames st r \<Longrightarrow> (\<And>s. frame s = frame st \<Longrightarrow> frames_fst st (f s)) \<Longrightarrow> frames_fst st (Option.bind r f)"
  by (cases r) auto

lemma frames_fst_bind_pair:
  "frames_fst st r \<Longrightarrow> (\<And>s x. frame s = frame st \<Longrightarrow> frames_fst st (f (s, x))) \<Longrightarrow> frames_fst st (Option.bind r f)"
  by (cases r) auto

lemma frames_active_grab: "frame_ok cf \<Longrightarrow> frames_fst st (route_active_grab cf q allow grab st)"
  unfolding route_active_grab_def Let_def case_prod_beta
  by (rule frames_fst_bind) (auto intro!: frames_if frames_after [OF frames_deactivate])

lemma frames_passive_grab: "frame_ok cf \<Longrightarrow> frames_fst st (activate_passive_grab cf q allow g st)"
  unfolding activate_passive_grab_def Let_def case_prod_beta
  by (rule frames_fst_bind) (auto intro!: frames_if frames_after [OF frames_check_grab])

lemma frame_route_selection [simp]: "frame (fst (route_selection q allow st)) = frame st"
  by (simp add: route_selection_def Let_def case_prod_beta split: option.split)

lemma frames_route: "frame_ok cf \<Longrightarrow> frames_fst st (xi1_route_device_event cf q allow st)"
  unfolding xi1_route_device_event_def Let_def
  by (auto split: option.split intro!: frames_after [OF frames_active_grab] frames_after [OF frames_passive_grab])

lemma frames_key_route: "frame_ok cf \<Longrightarrow> frames_fst st (key_route cf e st)"
  unfolding key_route_def Let_def
  by (auto split: option.split intro!: frames_fst_bind frames_bind frames_if frames_after [OF frames_bridge]
      frames_after [OF frames_check_grab])

lemma frames_focused_key: "frame_ok cf \<Longrightarrow> frame s = frame st \<Longrightarrow> frames_fst st (deliver_xi1_focused_key cf e s)"
  unfolding deliver_xi1_focused_key_def by (rule frames_after [OF frames_route])

lemma frames_routed_key: "frame_ok cf \<Longrightarrow> frames_fst st (deliver_routed_key cf e st)"
  unfolding deliver_routed_key_def Let_def case_prod_beta
  by (rule frames_fst_bind_pair [OF frames_key_route])
    (auto split: KeyRoute.split intro!: frames_fst_bind_pair frames_focused_key)

lemma frames_compute_with: "(\<And>d st. frames st (fl d st)) \<Longrightarrow> frame_ok (compute_with fl)"
  unfolding frame_ok_def compute_with_def by (auto intro!: frames_bind intro: frames_after)

lemma frames_flush: "frames st (flush_device n d st)"
proof (induction n arbitrary: d st)
  case (Suc n)
  have cf: "frame_ok (compute_with (flush_device n))" by (rule frames_compute_with) (rule Suc.IH)
  have next_round: "frames st (Option.bind r (\<lambda>(s, _). flush_device n d s))" if "frames_fst st r" for st r
    using that Suc.IH by (cases r) (auto elim!: frames_after [rotated])
  show ?case
    by (auto simp: flush_step_def split: option.split list.split
        intro!: next_round frames_after [OF frames_routed_key [OF cf]] frames_after [OF frames_route [OF cf]])
qed simp

lemma frame_ok_compute: "frame_ok xi1_compute_freezes"
proof -
  have "frames st (compute_with (flush_device n) st)" for n st
    using frames_compute_with [OF frames_flush] by (simp add: frame_ok_def)
  then show ?thesis unfolding frame_ok_def xi1_compute_freezes_def by blast
qed

lemma frames_thaw: "frames st (xi1_thaw_device d st)"
  unfolding xi1_thaw_device_def by (rule frame_okD [OF frame_ok_compute]) simp

end
