(* ===== verification/TeardownTree.thy ===== *)
theory TeardownTree
  imports InputFrame WindowDestroy
begin

text \<open>
  The windows that a teardown removes: the order in which \<open>collect_destroy_order\<close> lists a subtree, and the
  table that is left when a client's windows are destroyed root by root.
\<close>

section \<open>The windows of a subtree\<close>

lemma below_top_cases:
  assumes "below par root a x" "a \<noteq> x"
  shows "\<exists>c. c \<noteq> root \<and> par c = Some a \<and> below par root c x"
  using assms
proof (induction rule: below.induct)
  case (step x p)
  show ?case
  proof (cases "a = p")
    case True
    then show ?thesis using step.hyps by (blast intro: below.refl)
  next
    case False
    then obtain c where "c \<noteq> root" "par c = Some a" "below par root c p" using step.IH by blast
    then show ?thesis using step.hyps(1,2) by (blast intro: below.step)
  qed
qed simp

lemma descends_present: "descends t i k \<Longrightarrow> window t i \<noteq> None \<Longrightarrow> window t k \<noteq> None"
  by (induction rule: below.induct) (auto simp: parent_of_def)

lemma dist_table_bound:
  "tree_inv t \<Longrightarrow> root_dist (parent_of t) ROOT_WINDOW i n \<Longrightarrow> n < hm_len (rt_windows t)"
  by (metis wf.dist_bound card_window_ids tree_inv_def)

lemma subtree_children:
  assumes inv: "tree_inv t" and w: "window t i = Some w"
  shows "{k. descends t i k} = insert i (\<Union>c \<in> set (win_children w). {k. descends t c k})"
proof -
  have kids: "c \<in> set (win_children w) \<longleftrightarrow> c \<noteq> ROOT_WINDOW \<and> parent_of t c = Some i" for c
    using tree_children_iff [OF inv, of c i] w by (simp add: children_def)
  have "descends t i k" if "c \<in> set (win_children w)" "descends t c k" for c k
  proof (rule below_trans [OF that(2)])
    show "descends t i c" using that(1) kids [of c] by (auto intro: below.step below.refl)
  qed
  moreover have "\<exists>c \<in> set (win_children w). descends t c k" if "descends t i k" "k \<noteq> i" for k
    using below_top_cases [of "parent_of t" ROOT_WINDOW i k] that kids by auto
  ultimately show ?thesis by (auto intro: below.refl)
qed

lemma destroy_order_within_set:
  assumes inv: "tree_inv t"
  shows "root_dist (parent_of t) ROOT_WINDOW i d \<Longrightarrow> window t i \<noteq> None \<Longrightarrow> hm_len (rt_windows t) < n + d \<Longrightarrow>
    set (destroy_order_within t n i) = {k. descends t i k}"
proof (induction n arbitrary: i d)
  case 0
  then show ?case using dist_table_bound [OF inv 0(1)] by simp
next
  case (Suc n)
  then obtain w where w: "window t i = Some w" by auto
  have "set (destroy_order_within t n c) = {k. descends t c k}" if "c \<in> set (win_children w)" for c
  proof (rule Suc.IH [where d = "Suc d"])
    show "root_dist (parent_of t) ROOT_WINDOW c (Suc d)"
      using tree_child [OF inv w that] Suc.prems(1) by (auto intro: root_dist.step)
    show "window t c \<noteq> None" using tree_child(2) [OF inv w that] by (auto simp: parent_of_def)
    show "hm_len (rt_windows t) < n + Suc d" using Suc.prems(3) by simp
  qed
  then show ?case by (simp add: w subtree_children [OF inv w])
qed

lemma destroy_order_set:
  assumes "tree_inv t"
  shows "set (collect_destroy_order t i) = (if window t i = None then {} else {k. descends t i k})"
proof (cases "window t i = None")
  case False
  then obtain d where "root_dist (parent_of t) ROOT_WINDOW i d" using assms by (auto simp: tree_inv_def)
  then have "set (destroy_order_within t (Suc (hm_len (rt_windows t))) i) = {k. descends t i k}"
    by (rule destroy_order_within_set [OF assms]) (use False in simp_all)
  then show ?thesis using False by (auto simp: collect_destroy_order_def simp del: destroy_order_within.simps)
qed (simp add: collect_destroy_order_def)

section \<open>Removing several subtrees\<close>

text \<open>\<open>t'\<close> is what is left of \<open>t\<close> without the subtrees of the windows in \<open>R\<close>; owners and parents of the
  windows that are left are unchanged.\<close>

definition without_subtrees :: "ResourceTable \<Rightarrow> ResourceId set \<Rightarrow> ResourceTable \<Rightarrow> bool" where
  "without_subtrees t R t' \<longleftrightarrow> tree_inv t' \<and>
     (\<forall>k. window t' k = None \<longleftrightarrow> window t k = None \<or> (\<exists>r \<in> R. window t r \<noteq> None \<and> descends t r k)) \<and>
     (\<forall>k. window t' k \<noteq> None \<longrightarrow> window_owner t' k = window_owner t k \<and> parent_of t' k = parent_of t k)"

lemma without_none: "tree_inv t \<Longrightarrow> without_subtrees t {} t"
  by (simp add: without_subtrees_def)

lemma without_subtreesD:
  assumes "without_subtrees t R t'"
  shows "tree_inv t'"
    "window t' k = None \<longleftrightarrow> window t k = None \<or> (\<exists>r \<in> R. window t r \<noteq> None \<and> descends t r k)"
    "window t' k \<noteq> None \<Longrightarrow> window_owner t' k = window_owner t k \<and> parent_of t' k = parent_of t k"
  using assms unfolding without_subtrees_def by blast+

lemma ancestor_present:
  assumes inv: "tree_inv t"
  shows "descends t a k \<Longrightarrow> window t k \<noteq> None \<Longrightarrow> window t a \<noteq> None"
proof (induction rule: below.induct)
  case (step x p)
  have "x \<in> set (children t p)" using step.hyps by (simp add: tree_children_iff [OF inv])
  then have "window t p \<noteq> None" by (cases "window t p") (simp_all add: children_def)
  then show ?case by (rule step.IH)
qed

text \<open>Above a window that is left nothing was removed.\<close>

lemma without_descends:
  assumes inv: "tree_inv t" and wo: "without_subtrees t R t'" and k: "window t' k \<noteq> None"
  shows "descends t' a k \<longleftrightarrow> descends t a k"
proof -
  have same: "parent_of t' y = parent_of t y" if "window t' y \<noteq> None" for y
    using without_subtreesD(3) [OF wo that] by blast
  have up: "window t' y \<noteq> None" if "descends t y k" for y
  proof
    assume gone: "window t' y = None"
    have "window t k \<noteq> None" using k without_subtreesD(2) [OF wo, of k] by metis
    then have "window t y \<noteq> None" by (rule ancestor_present [OF inv that])
    then obtain r where "r \<in> R" "window t r \<noteq> None" "descends t r y"
      using gone without_subtreesD(2) [OF wo, of y] by metis
    then have "window t' k = None" using below_trans [OF that] without_subtreesD(2) [OF wo, of k] by metis
    then show False using k by simp
  qed
  have up': "window t' y \<noteq> None" if "descends t' y k" for y
    by (rule ancestor_present [OF without_subtreesD(1) [OF wo] that k])
  show ?thesis
  proof
    assume "descends t' a k"
    then show "descends t a k" by (rule below_cong) (use same up' in simp)
  next
    assume "descends t a k"
    then show "descends t' a k" by (rule below_cong) (use same up in simp)
  qed
qed

lemma without_step:
  assumes inv: "tree_inv t" and wo: "without_subtrees t R t'" and i: "i \<noteq> ROOT_WINDOW"
  shows "without_subtrees t (insert i R) (fst (destroy_window i t'))"
proof (cases "window t' i")
  case None
  then have eq: "fst (destroy_window i t') = t'" by (simp add: destroy_noop)
  have "window t' k = None" if "window t i \<noteq> None" "descends t i k" for k
  proof (rule ccontr)
    assume k: "window t' k \<noteq> None"
    then have "descends t' i k" using that(2) without_descends [OF inv wo k] by blast
    then show False using ancestor_present [OF without_subtreesD(1) [OF wo] _ k] None by blast
  qed
  then have "window t' k = None \<longleftrightarrow> window t k = None \<or>
      (\<exists>r \<in> insert i R. window t r \<noteq> None \<and> descends t r k)" for k
    using without_subtreesD(2) [OF wo, of k] by blast
  then show ?thesis
    using without_subtreesD(1) [OF wo] without_subtreesD(3) [OF wo] eq unfolding without_subtrees_def by simp
next
  case (Some w)
  have inv': "tree_inv t'" by (rule without_subtreesD(1) [OF wo])
  obtain t2 D where d: "destroy_window i t' = (t2, D)" by (cases "destroy_window i t'")
  have get: "window t2 k = (if descends t' i k then None
      else map_option (strip_child i (win_parent w) k) (window t' k))" for k
    by (rule destroy_window_correct(6) [OF inv' i Some d])
  have i_t: "window t i \<noteq> None" using Some without_subtreesD(2) [OF wo, of i] by auto
  have gone: "window t2 k = None \<longleftrightarrow> window t' k = None \<or> descends t i k" for k
    using get [of k] without_descends [OF inv wo, of k i] descends_present [of t' i k] Some
    by (cases "window t' k") auto
  have kept: "window_owner t2 k = window_owner t' k \<and> parent_of t2 k = parent_of t' k" if "window t2 k \<noteq> None" for k
    using get [of k] that by (cases "window t' k") (auto simp: window_owner_def parent_of_def split: if_splits)
  have "tree_inv t2" using destroy_tree_inv [OF inv', of i] d by simp
  moreover have "window t2 k = None \<longleftrightarrow> window t k = None \<or>
      (\<exists>r \<in> insert i R. window t r \<noteq> None \<and> descends t r k)" for k
    using gone [of k] without_subtreesD(2) [OF wo, of k] i_t by blast
  moreover have "window_owner t2 k = window_owner t k \<and> parent_of t2 k = parent_of t k" if "window t2 k \<noteq> None" for k
    using kept [OF that] without_subtreesD(3) [OF wo, of k] gone [of k] that by auto
  ultimately show ?thesis unfolding without_subtrees_def d fst_conv by blast
qed

section \<open>The windows of a client\<close>

lemma owned_roots_iff:
  assumes "hm_wf (rt_windows t)"
  shows "r \<in> set (collect_owned_window_roots t c) \<longleftrightarrow>
    window_owner t r = Some c \<and> (\<forall>p. parent_of t r = Some p \<longrightarrow> window_owner t p \<noteq> Some c)"
proof -
  have "(k, w) \<in> set (rt_windows t) \<longleftrightarrow> window t k = Some w" for k w
    using assms by (simp add: window_def hm_get_def hm_wf_def)
  then show ?thesis
    unfolding collect_owned_window_roots_def by (force simp: window_owner_def parent_of_def)
qed

lemma owned_root_above:
  assumes inv: "tree_inv t" and root: "window_owner t ROOT_WINDOW \<noteq> Some c"
  shows "root_dist (parent_of t) ROOT_WINDOW a n \<Longrightarrow> window_owner t a = Some c \<Longrightarrow>
    \<exists>r \<in> set (collect_owned_window_roots t c). descends t r a"
proof (induction rule: root_dist.induct)
  case zero
  then show ?case using root by simp
next
  case (step x p n)
  show ?case
  proof (cases "window_owner t p = Some c")
    case True
    then obtain r where "r \<in> set (collect_owned_window_roots t c)" "descends t r p" using step.IH by blast
    then show ?thesis using step.hyps(1,2) by (blast intro: below.step)
  next
    case False
    then have "x \<in> set (collect_owned_window_roots t c)"
      using step.hyps(2) step.prems inv by (simp add: owned_roots_iff tree_inv_def)
    then show ?thesis by (blast intro: below.refl)
  qed
qed

text \<open>Which windows go with a client: its own and everything inside them.\<close>

definition inside_windows_of :: "ResourceTable \<Rightarrow> ClientId \<Rightarrow> ResourceId \<Rightarrow> bool" where
  "inside_windows_of t c k \<longleftrightarrow> (\<exists>a. window_owner t a = Some c \<and> descends t a k)"

lemma owned_roots_cover:
  assumes inv: "tree_inv t" and root: "window_owner t ROOT_WINDOW \<noteq> Some c"
  shows "(\<exists>r \<in> set (collect_owned_window_roots t c). window t r \<noteq> None \<and> descends t r k) \<longleftrightarrow>
    inside_windows_of t c k"
proof
  assume "\<exists>r \<in> set (collect_owned_window_roots t c). window t r \<noteq> None \<and> descends t r k"
  then show "inside_windows_of t c k"
    using owned_roots_iff [of t _ c] inv unfolding inside_windows_of_def tree_inv_def by blast
next
  assume "inside_windows_of t c k"
  then obtain a where a: "window_owner t a = Some c" "descends t a k" by (auto simp: inside_windows_of_def)
  then have "window t a \<noteq> None" by (auto simp: window_owner_def)
  then obtain n where "root_dist (parent_of t) ROOT_WINDOW a n" using inv by (auto simp: tree_inv_def)
  from owned_root_above [OF inv root this a(1)]
  obtain r where r: "r \<in> set (collect_owned_window_roots t c)" "descends t r a" by blast
  then have "window_owner t r = Some c" using owned_roots_iff [of t r c] inv by (simp add: tree_inv_def)
  then have "window t r \<noteq> None" by (auto simp: window_owner_def)
  then show "\<exists>r \<in> set (collect_owned_window_roots t c). window t r \<noteq> None \<and> descends t r k"
    using r below_trans [OF a(2) r(2)] by blast
qed

end
