(* ===== verification/DisconnectClaims.thy ===== *)
theory DisconnectClaims
  imports TeardownTree DeviceSyncClaims WindowClaims
begin

text \<open>
  What a disconnect leaves behind: nothing of the client, and no window inside one of its windows; in
  particular not the windows of its save set.
\<close>

section \<open>Fields of the frame\<close>

lemma frame_client: "hm_get (st_clients st) i \<noteq> None \<longleftrightarrow> fst (frame st) i"
  by (simp add: frame_def)

lemma frame_resources: "st_resources st = st_resources (snd (frame st))"
  by (simp add: frame_def)

lemma same_frame_resources: "frame st' = frame st \<Longrightarrow> st_resources st' = st_resources st"
  using frame_resources by metis

lemma same_frame_client: "frame st' = frame st \<Longrightarrow> hm_get (st_clients st') i = None \<longleftrightarrow> hm_get (st_clients st) i = None"
  by (metis frame_client)

lemma notify_resources [simp]:
  "st_resources (fanout_xfixes_selection_notify sel subtype w t t' st) = st_resources st"
  by (rule same_frame_resources) simp

lemma drop_selections_resources [simp]: "st_resources (drop_selections_owned_by_windows ws sub st) = st_resources st"
proof -
  have "st_resources (fold (\<lambda>(sel, prior) st.
          (let st = fanout_xfixes_selection_notify sel sub 0 now prior st
           in st\<lparr>st_selections := hm_remove sel (st_selections st)\<rparr>)) xs st) = st_resources st" for now xs st
    by (induction xs arbitrary: st) (auto simp: Let_def)
  then show ?thesis by (simp add: drop_selections_owned_by_windows_def Let_def)
qed

lemma client_close_resources [simp]:
  "st_resources (fanout_xfixes_selection_client_close_for_client c st) = st_resources st"
  by (simp add: fanout_xfixes_selection_client_close_for_client_def Let_def)

lemma drop_subscriptions_resources [simp]: "st_resources (drop_window_subscriptions ws st) = st_resources st"
  by (simp add: drop_window_subscriptions_def)

section \<open>The windows\<close>

lemma owned_roots_destroyed:
  assumes inv: "tree_inv t" and rs: "ROOT_WINDOW \<notin> set rs" and t: "without_subtrees t R (st_resources st)"
    and gone: "set gone = {k. window t k \<noteq> None \<and> (\<exists>r \<in> R. window t r \<noteq> None \<and> descends t r k)}"
    and res: "fold destroy_owned_root rs (st, pending, gone) = (st', pending', gone')"
  shows "without_subtrees t (R \<union> set rs) (st_resources st') \<and>
    set gone' = {k. window t k \<noteq> None \<and> (\<exists>r \<in> R \<union> set rs. window t r \<noteq> None \<and> descends t r k)}"
  using rs t gone res
proof (induction rs arbitrary: R st pending gone)
  case (Cons r rs)
  define s where "s = revert_focus_for_dying_subtree r st"
  have sr: "st_resources s = st_resources st" unfolding s_def by (rule same_frame_resources) simp
  let ?t = "st_resources st"
  note inv' = without_subtreesD(1) [OF Cons.prems(2)]
  have order: "set (collect_destroy_order ?t r) = (if window ?t r = None then {} else {k. descends ?t r k})"
    by (rule destroy_order_set [OF inv'])
  have left: "window ?t k \<noteq> None \<Longrightarrow> descends ?t r k \<longleftrightarrow> descends t r k" for k
    by (rule without_descends [OF inv Cons.prems(2)])
  have "k \<in> set (collect_destroy_order ?t r) \<longleftrightarrow> window ?t k \<noteq> None \<and> descends t r k" for k
    using order left [of k] descends_present [of ?t r k] ancestor_present [OF inv', of r k] by auto
  moreover have "k \<in> set gone \<longleftrightarrow> window t k \<noteq> None \<and> (\<exists>a \<in> R. window t a \<noteq> None \<and> descends t a k)" for k
    using Cons.prems(3) by simp
  moreover have "window t k \<noteq> None \<Longrightarrow> descends t r k \<Longrightarrow> window t r \<noteq> None" for k
    using ancestor_present [OF inv, of r k] by blast
  ultimately have "k \<in> set (gone @ collect_destroy_order ?t r) \<longleftrightarrow>
      window t k \<noteq> None \<and> (\<exists>a \<in> insert r R. window t a \<noteq> None \<and> descends t a k)" for k
    unfolding set_append Un_iff bex_simps using without_subtreesD(2) [OF Cons.prems(2), of k] by metis
  then have gone': "set (gone @ collect_destroy_order ?t r) =
      {k. window t k \<noteq> None \<and> (\<exists>a \<in> insert r R. window t a \<noteq> None \<and> descends t a k)}"
    by blast
  have "without_subtrees t (insert r R) (fst (destroy_window r ?t))"
    using Cons.prems(1) by (intro without_step [OF inv Cons.prems(2)]) auto
  then show ?case
    using Cons.IH [where R = "insert r R" and st = "s\<lparr>st_resources := fst (destroy_window r ?t)\<rparr>"
        and gone = "gone @ collect_destroy_order ?t r"]
      Cons.prems(1,4) gone' by (simp add: destroy_owned_root_def Let_def sr s_def [symmetric])
qed simp

text \<open>After the windows of a client are destroyed, exactly those inside one of them are missing.\<close>

lemma owned_windows_destroyed:
  assumes inv: "tree_inv (st_resources st)" and root: "window_owner (st_resources st) ROOT_WINDOW \<noteq> Some c"
    and res: "destroy_owned_windows c st = (st', pending, dead)"
  shows "tree_inv (st_resources st')"
    "window (st_resources st') k = None \<longleftrightarrow> window (st_resources st) k = None \<or> inside_windows_of (st_resources st) c k"
    "window (st_resources st') k \<noteq> None \<Longrightarrow> window_owner (st_resources st') k = window_owner (st_resources st) k"
    "k \<in> set dead \<longleftrightarrow> window (st_resources st) k \<noteq> None \<and> inside_windows_of (st_resources st) c k"
proof -
  let ?t = "st_resources st"
  let ?roots = "set (collect_owned_window_roots ?t c)"
  have nroot: "ROOT_WINDOW \<notin> ?roots"
    using root owned_roots_iff [of ?t ROOT_WINDOW c] inv by (simp add: tree_inv_def)
  obtain s p g where run: "fold destroy_owned_root (collect_owned_window_roots ?t c) (st, [], []) = (s, p, g)"
    by (metis prod_cases3)
  then have st': "st' = drop_window_subscriptions g s" "dead = g"
    using res by (auto simp: destroy_owned_windows_def)
  have "without_subtrees ?t ({} \<union> ?roots) (st_resources s) \<and>
      set g = {k. window ?t k \<noteq> None \<and> (\<exists>r \<in> {} \<union> ?roots. window ?t r \<noteq> None \<and> descends ?t r k)}"
    by (rule owned_roots_destroyed [OF inv nroot without_none [OF inv] _ run]) simp
  then have wo: "without_subtrees ?t ?roots (st_resources st')"
    and g: "set g = {k. window ?t k \<noteq> None \<and> (\<exists>r \<in> ?roots. window ?t r \<noteq> None \<and> descends ?t r k)}"
    by (simp_all add: st')
  note cover = owned_roots_cover [OF inv root]
  show "tree_inv (st_resources st')" by (rule without_subtreesD(1) [OF wo])
  show "window (st_resources st') k = None \<longleftrightarrow> window ?t k = None \<or> inside_windows_of ?t c k"
    unfolding without_subtreesD(2) [OF wo] cover ..
  show "window_owner (st_resources st') k = window_owner ?t k" if "window (st_resources st') k \<noteq> None"
    using without_subtreesD(3) [OF wo that] by simp
  show "k \<in> set dead \<longleftrightarrow> window ?t k \<noteq> None \<and> inside_windows_of ?t c k"
    unfolding st'(2) g cover by simp
qed

section \<open>What a state knows of a client\<close>

definition owns_no_resource :: "ClientId \<Rightarrow> ResourceTable \<Rightarrow> bool" where
  "owns_no_resource c t \<longleftrightarrow>
     list_all (\<lambda>(_, x). pm_owner x \<noteq> c) (rt_pixmaps t) \<and> list_all (\<lambda>(_, x). gc_owner x \<noteq> c) (rt_gcs t) \<and>
     list_all (\<lambda>(_, x). font_owner x \<noteq> c) (rt_fonts t) \<and> list_all (\<lambda>(_, x). cur_owner x \<noteq> c) (rt_cursors t) \<and>
     list_all (\<lambda>(_, x). pict_client x \<noteq> c) (rt_pictures t) \<and>
     list_all (\<lambda>(_, x). glyph_client x \<noteq> c) (rt_glyphsets t) \<and>
     list_all (\<lambda>(_, x). cm_owner x \<noteq> c) (rt_colormaps t)"

definition no_extension_state :: "ClientId \<Rightarrow> ServerState \<Rightarrow> bool" where
  "no_extension_state c st \<longleftrightarrow>
     list_all (\<lambda>(_, x). xr_owner x \<noteq> c) (st_xfixes_regions st) \<and>
     list_all (\<lambda>((i, _), _). i \<noteq> c) (st_xfixes_selection_masks st) \<and>
     list_all (\<lambda>((i, _), _). i \<noteq> c) (st_xfixes_cursor_masks st) \<and>
     list_all (\<lambda>((i, _), _). i \<noteq> c) (st_shape_select_masks st) \<and>
     list_all (\<lambda>(_, x). sc_owner x \<noteq> c) (st_sync_counters st) \<and>
     list_all (\<lambda>(_, x). sa_owner x \<noteq> c) (st_sync_alarms st) \<and>
     list_all (\<lambda>(_, x). sf_owner x \<noteq> c) (st_sync_fences st) \<and>
     list_all (\<lambda>x. pa_client x \<noteq> c) (st_sync_pending_awaits st) \<and>
     list_all (\<lambda>(_, i). i \<noteq> c) (st_glx_contexts st) \<and>
     list_all (\<lambda>(_, x). gd_owner x \<noteq> c) (st_glx_drawables st) \<and>
     list_all (\<lambda>(_, x). dmg_owner x \<noteq> c) (st_damage_objects st) \<and>
     list_all (\<lambda>(_, x). rr_owner x \<noteq> c) (st_composite_redirects st) \<and>
     list_all (\<lambda>(_, x). pe_owner x \<noteq> c) (st_present_event_selections st) \<and>
     list_all (\<lambda>(_, i). i \<noteq> c) (st_mit_shm_segments st) \<and>
     list_all (\<lambda>((i, _), _). i \<noteq> c) (st_randr_select_masks st) \<and>
     list_all (\<lambda>((i, _), _). i \<noteq> c) (st_xkb_select_event_masks st)"

definition no_timer_state :: "ClientId \<Rightarrow> ServerState \<Rightarrow> bool" where
  "no_timer_state c st \<longleftrightarrow> c \<notin> set (dpms_selected_by (st_dpms st)) \<and>
     hm_get (ss_selected_by (st_screensaver st)) c = None \<and> hm_get (ss_suspend_counts (st_screensaver st)) c = None"

definition no_core_grab :: "ClientId \<Rightarrow> ServerState \<Rightarrow> bool" where
  "no_core_grab c st \<longleftrightarrow> list_all (\<lambda>g. bg_owner g \<noteq> c) (st_button_grabs st) \<and>
     list_all (\<lambda>g. kg_owner g \<noteq> c) (st_key_grabs st) \<and> list_all (\<lambda>g. xp_owner g \<noteq> c) (st_xi1_passive_grabs st) \<and>
     map_option fst (st_pointer_grab st) \<noteq> Some c \<and> map_option ap_owner (st_active_pointer_grab st) \<noteq> Some c"

text \<open>All of these are part of the frame.\<close>

lemma same_frame_known:
  assumes "frame st' = frame st"
  shows "no_extension_state c st' \<longleftrightarrow> no_extension_state c st" "no_timer_state c st' \<longleftrightarrow> no_timer_state c st"
    "no_core_grab c st' \<longleftrightarrow> no_core_grab c st"
proof -
  have "no_extension_state c s \<longleftrightarrow> no_extension_state c (snd (frame s))"
    "no_timer_state c s \<longleftrightarrow> no_timer_state c (snd (frame s))" "no_core_grab c s \<longleftrightarrow> no_core_grab c (snd (frame s))" for s
    by (simp_all add: frame_def no_extension_state_def no_timer_state_def no_core_grab_def)
  then show "no_extension_state c st' \<longleftrightarrow> no_extension_state c st" "no_timer_state c st' \<longleftrightarrow> no_timer_state c st"
    "no_core_grab c st' \<longleftrightarrow> no_core_grab c st"
    using assms by metis+
qed

lemma retained_all: "list_all (\<lambda>(k, v). q k v) (hm_retain p m) \<longleftrightarrow> (\<forall>(k, v) \<in> set m. p k v \<longrightarrow> q k v)"
  by (auto simp: hm_retain_def list_all_iff)

text \<open>Tables with the same windows, owners and parents, and the same other resources.\<close>

definition same_owners :: "ResourceTable \<Rightarrow> ResourceTable \<Rightarrow> bool" where
  "same_owners t t' \<longleftrightarrow> t'\<lparr>rt_windows := []\<rparr> = t\<lparr>rt_windows := []\<rparr> \<and>
     (\<forall>k. map_option (\<lambda>w. (win_owner w, win_parent w)) (window t' k) =
          map_option (\<lambda>w. (win_owner w, win_parent w)) (window t k))"

lemma same_owners_refl [simp]: "same_owners t t"
  by (simp add: same_owners_def)

lemma same_owners_trans: "same_owners a b \<Longrightarrow> same_owners b c \<Longrightarrow> same_owners a c"
  by (simp add: same_owners_def)

lemma same_owners_backing: "same_owners t (modify_window w (\<lambda>x. x\<lparr>win_redirected_backing := b\<rparr>) t)"
proof -
  have "map_option (\<lambda>w. (win_owner w, win_parent w)) (window (modify_window w (\<lambda>x. x\<lparr>win_redirected_backing := b\<rparr>) t) k) =
      map_option (\<lambda>w. (win_owner w, win_parent w)) (window t k)" for k
    by (cases "window t k") auto
  then show ?thesis by (simp add: same_owners_def modify_window_def)
qed

lemma same_ownersD:
  assumes "same_owners t t'"
  shows "window_owner t' k = window_owner t k" "window t' k = None \<longleftrightarrow> window t k = None"
    "owns_no_resource c t' \<longleftrightarrow> owns_no_resource c t"
proof -
  have k: "map_option (\<lambda>w. (win_owner w, win_parent w)) (window t' k) =
      map_option (\<lambda>w. (win_owner w, win_parent w)) (window t k)"
    and rest: "t'\<lparr>rt_windows := []\<rparr> = t\<lparr>rt_windows := []\<rparr>" using assms by (simp_all add: same_owners_def)
  show "window_owner t' k = window_owner t k" "window t' k = None \<longleftrightarrow> window t k = None"
    using k by (cases "window t k"; cases "window t' k"; simp add: window_owner_def)+
  have "owns_no_resource c s \<longleftrightarrow> owns_no_resource c (s\<lparr>rt_windows := []\<rparr>)" for s
    by (simp add: owns_no_resource_def)
  then show "owns_no_resource c t' \<longleftrightarrow> owns_no_resource c t" using rest by metis
qed

lemma teardown_redirects_state:
  "\<exists>t. fst (teardown_redirects ws st) = st\<lparr>st_resources := t\<rparr> \<and> same_owners (st_resources st) t"
proof (induction ws arbitrary: st)
  case Nil
  show ?case by (rule exI [of _ "st_resources st"]) simp
next
  case (Cons w ws)
  have "\<exists>t. fst (teardown_redirect_for_window w st) = st\<lparr>st_resources := t\<rparr> \<and> same_owners (st_resources st) t"
  proof (cases "window (st_resources st) w")
    case None
    then show ?thesis
      by (intro exI [of _ "st_resources st"]) (simp add: teardown_redirect_for_window_def)
  next
    case (Some x)
    then show ?thesis
      by (intro exI [of _ "modify_window w (\<lambda>x. x\<lparr>win_redirected_backing := None\<rparr>) (st_resources st)"])
        (simp add: teardown_redirect_for_window_def Let_def same_owners_backing split: option.split)
  qed
  then obtain t1 where t1: "fst (teardown_redirect_for_window w st) = st\<lparr>st_resources := t1\<rparr>"
    "same_owners (st_resources st) t1" by blast
  obtain t2 where t2: "fst (teardown_redirects ws (st\<lparr>st_resources := t1\<rparr>)) = st\<lparr>st_resources := t2\<rparr>"
    "same_owners t1 t2" using Cons.IH [of "st\<lparr>st_resources := t1\<rparr>"] by auto
  show ?case
    using t1 t2 same_owners_trans by (intro exI [of _ t2]) (auto simp: case_prod_beta)
qed

lemma retained [simp]: "list_all q (hm_retain p m) \<longleftrightarrow> (\<forall>(k, v) \<in> set m. p k v \<longrightarrow> q (k, v))"
  by (auto simp: hm_retain_def list_all_iff)

lemma filtered [simp]: "list_all q (filter p xs) \<longleftrightarrow> (\<forall>x \<in> set xs. p x \<longrightarrow> q x)"
  by (auto simp: list_all_iff)

lemma teardown_fields [simp]:
  "st_clients (fst (teardown_redirects ws st)) = st_clients st"
  "st_xfixes_regions (fst (teardown_redirects ws st)) = st_xfixes_regions st"
  "st_xfixes_selection_masks (fst (teardown_redirects ws st)) = st_xfixes_selection_masks st"
  "st_xfixes_cursor_masks (fst (teardown_redirects ws st)) = st_xfixes_cursor_masks st"
  "st_shape_select_masks (fst (teardown_redirects ws st)) = st_shape_select_masks st"
  "st_sync_counters (fst (teardown_redirects ws st)) = st_sync_counters st"
  "st_sync_alarms (fst (teardown_redirects ws st)) = st_sync_alarms st"
  "st_sync_fences (fst (teardown_redirects ws st)) = st_sync_fences st"
  "st_sync_pending_awaits (fst (teardown_redirects ws st)) = st_sync_pending_awaits st"
  "st_glx_contexts (fst (teardown_redirects ws st)) = st_glx_contexts st"
  "st_glx_drawables (fst (teardown_redirects ws st)) = st_glx_drawables st"
  "st_damage_objects (fst (teardown_redirects ws st)) = st_damage_objects st"
  "st_composite_redirects (fst (teardown_redirects ws st)) = st_composite_redirects st"
  "st_present_event_selections (fst (teardown_redirects ws st)) = st_present_event_selections st"
  "st_mit_shm_segments (fst (teardown_redirects ws st)) = st_mit_shm_segments st"
  "st_randr_select_masks (fst (teardown_redirects ws st)) = st_randr_select_masks st"
  "st_xkb_select_event_masks (fst (teardown_redirects ws st)) = st_xkb_select_event_masks st"
  using teardown_redirects_state [of ws st] by auto

lemma teardown_owners: "same_owners (st_resources st) (st_resources (fst (teardown_redirects ws st)))"
  using teardown_redirects_state [of ws st] by auto

lemma extension_state_dropped:
  shows "no_extension_state c (fst (drop_extension_state c dead st))"
    "same_owners (st_resources st) (st_resources (fst (drop_extension_state c dead st)))"
    "st_clients (fst (drop_extension_state c dead st)) = st_clients st"
proof -
  show "st_clients (fst (drop_extension_state c dead st)) = st_clients st"
    by (simp add: drop_extension_state_def drop_redirects_def case_prod_beta Let_def)
  have red: "st_resources s = st_resources st \<Longrightarrow>
      same_owners (st_resources st) (st_resources (fst (drop_redirects c dead s)))" for s
    using teardown_owners [of s] by (simp add: drop_redirects_def case_prod_beta Let_def)
  show "same_owners (st_resources st) (st_resources (fst (drop_extension_state c dead st)))"
    by (simp add: drop_extension_state_def case_prod_beta Let_def red)
  show "no_extension_state c (fst (drop_extension_state c dead st))"
    unfolding no_extension_state_def drop_extension_state_def drop_redirects_def case_prod_beta Let_def
    by auto
qed

section \<open>The disconnect\<close>

lemma timer_state_dropped:
  "no_timer_state c (drop_timer_state now c st)"
  "st_resources (drop_timer_state now c st) = st_resources st" "st_clients (drop_timer_state now c st) = st_clients st"
  "no_extension_state c (drop_timer_state now c st) \<longleftrightarrow> no_extension_state c st"
  by (auto simp: drop_timer_state_def no_timer_state_def no_extension_state_def Let_def
      reset_idletime_state_after_suspend_release_def)

lemma core_grabs_dropped:
  "no_timer_state c (drop_core_grabs c st) \<longleftrightarrow> no_timer_state c st"
  "st_resources (drop_core_grabs c st) = st_resources st" "st_clients (drop_core_grabs c st) = st_clients st"
  "no_extension_state c (drop_core_grabs c st) \<longleftrightarrow> no_extension_state c st"
  by (simp_all add: drop_core_grabs_def no_timer_state_def no_extension_state_def Let_def)

lemma frames_for_devices:
  "(\<And>d st. frames st (f d st)) \<Longrightarrow> frames st (for_devices f ds st)"
proof (induction ds arbitrary: st)
  case (Cons d ds)
  then show ?case by (auto intro!: frames_bind intro: frames_after)
qed simp

lemma device_grabs_dropped:
  assumes "drop_device_grabs c st = Some st'"
  shows "frame st' = frame (st\<lparr>st_xi1_passive_grabs := filter (\<lambda>g. xp_owner g \<noteq> c) (st_xi1_passive_grabs st)\<rparr>)"
proof -
  have "frames (st\<lparr>st_xi1_passive_grabs := filter (\<lambda>g. xp_owner g \<noteq> c) (st_xi1_passive_grabs st)\<rparr>)
      (drop_device_grabs c st)"
    unfolding drop_device_grabs_def Let_def
    by (intro frames_bind frames_for_devices frames_deactivate frame_ok_compute)
      (auto intro!: frames_after [OF frames_for_devices] frames_thaw)
  then show ?thesis using assms by simp
qed

text \<open>The frozen devices play no part in any step before the release of the device grabs.\<close>

lemma same_but_clients_frozen: "same_but_clients st st' \<Longrightarrow> st_xi1_frozen st' = st_xi1_frozen st"
  by (rule same_but_clients_fields)

lemma fold_frozen:
  "(\<And>x s. st_xi1_frozen (f x s) = st_xi1_frozen s) \<Longrightarrow> st_xi1_frozen (fold f xs st) = st_xi1_frozen st"
  by (induction xs arbitrary: st) simp_all

lemma revert_frozen [simp]: "st_xi1_frozen (revert_focus_for_dying_subtree r st) = st_xi1_frozen st"
proof -
  have events: "st_xi1_frozen (device_focus_events d fr to mode s) = st_xi1_frozen s" for d fr to mode s
    by (rule same_but_clients_frozen) simp
  have "st_xi1_frozen (revert_step lost dying dev s) = st_xi1_frozen s" for lost dying dev s
    by (simp add: revert_step_def do_revert_def insert_device_focus_def Let_def case_prod_beta events
        split: Xi1FocusTarget.split)
  then show ?thesis
    by (simp add: revert_focus_for_dying_subtree_def fold_frozen)
qed

lemma client_close_frozen [simp]:
  "st_xi1_frozen (fanout_xfixes_selection_client_close_for_client c st) = st_xi1_frozen st"
proof -
  have "st_xi1_frozen (fanout_xfixes_selection_notify sel subtype w t t' s) = st_xi1_frozen s"
    for sel subtype w t t' s
    unfolding fanout_xfixes_selection_notify_def Let_def
    by (rule fold_frozen) (simp add: case_prod_beta same_but_clients_frozen)
  then have "st_xi1_frozen (fold (\<lambda>(sel, prior) st.
          (let st = fanout_xfixes_selection_notify sel sub 0 now prior st
           in st\<lparr>st_selections := hm_remove sel (st_selections st)\<rparr>)) xs s) = st_xi1_frozen s" for sub now xs s
    by (induction xs arbitrary: s) (auto simp: Let_def)
  then show ?thesis
    by (simp add: fanout_xfixes_selection_client_close_for_client_def drop_selections_owned_by_windows_def Let_def)
qed

lemma destroy_owned_frozen:
  "st_xi1_frozen (fst (fold destroy_owned_root rs r)) = st_xi1_frozen (fst r)"
  by (induction rs arbitrary: r) (simp_all add: destroy_owned_root_def Let_def case_prod_beta)

lemma for_devices_rest:
  assumes step: "\<And>d st. queues_ok st \<Longrightarrow> \<exists>st'. f d st = Some st' \<and> queues_ok st'" and st: "queues_ok st"
  shows "\<exists>st'. for_devices f ds st = Some st' \<and> queues_ok st'"
  using st
proof (induction ds arbitrary: st)
  case (Cons d ds)
  from step [OF Cons.prems, of d] obtain s where s: "f d st = Some s" "queues_ok s" by blast
  then show ?case using Cons.IH [OF s(2)] by simp
qed simp

lemma deactivate_settles:
  assumes "queues_ok st"
  shows "\<exists>st'. xi1_deactivate_device_grab xi1_compute_freezes d st = Some st' \<and> queues_ok st'"
proof -
  obtain st' where "xi1_deactivate_device_grab xi1_compute_freezes d st = Some st'" "progress 0 st st'"
    using deactivate_replays [OF compute_freezes_replays assms order_refl] by blast
  then show ?thesis using progress_keeps by blast
qed

lemma thaw_settles:
  assumes "queues_ok st"
  shows "\<exists>st'. xi1_thaw_device d st = Some st' \<and> queues_ok st'"
proof -
  have "same_queues st (modify_freeze d (\<lambda>f. f\<lparr>fz_state := Thawed, fz_other := None\<rparr>) st)"
    by (intro allI queues_modify_freeze) simp_all
  from rests_after [OF assms this] obtain s' where
    "xi1_compute_freezes (modify_freeze d (\<lambda>f. f\<lparr>fz_state := Thawed, fz_other := None\<rparr>) st) = Some s'" "at_rest s'"
    by blast
  then show ?thesis unfolding xi1_thaw_device_def by (blast intro: rest_queues)
qed

lemma device_grabs_settle:
  assumes "queues_ok st"
  shows "\<exists>st'. drop_device_grabs c st = Some st'"
proof -
  define s where "s = st\<lparr>st_xi1_passive_grabs := filter (\<lambda>g. xp_owner g \<noteq> c) (st_xi1_passive_grabs st)\<rparr>"
  have s: "queues_ok s"
    using assms by (simp add: s_def queues_ok_def device_queues_def)
  define released where "released = map fst (filter (\<lambda>(_, g). xa_owner g = c) (st_xi1_active_grabs s))"
  obtain a where a: "for_devices (xi1_deactivate_device_grab xi1_compute_freezes) released s = Some a" "queues_ok a"
    using for_devices_rest [where f = "xi1_deactivate_device_grab xi1_compute_freezes", OF deactivate_settles s] by blast
  obtain b where b: "for_devices xi1_thaw_device (map fst (filter (\<lambda>(_, f). frozen f) (st_xi1_frozen a))) a = Some b"
    using for_devices_rest [where f = xi1_thaw_device, OF thaw_settles a(2)] by blast
  show ?thesis
    unfolding drop_device_grabs_def Let_def s_def [symmetric] released_def [symmetric] a(1) by (simp add: b)
qed

lemma glyphset_refs_table: "\<exists>n. fst (release_glyphset_refs hs t) = t\<lparr>rt_host_glyphset_refcounts := n\<rparr>"
proof (induction hs arbitrary: t)
  case Nil
  show ?case by (rule exI [of _ "rt_host_glyphset_refcounts t"]) simp
next
  case (Cons h hs)
  have "fst (release_host_glyphset_ref h t) =
      t\<lparr>rt_host_glyphset_refcounts := rt_host_glyphset_refcounts (fst (release_host_glyphset_ref h t))\<rparr>"
    by (simp add: release_host_glyphset_ref_def Let_def split: option.split)
  then obtain m where m: "fst (release_host_glyphset_ref h t) = t\<lparr>rt_host_glyphset_refcounts := m\<rparr>" by blast
  obtain n where "fst (release_glyphset_refs hs (t\<lparr>rt_host_glyphset_refcounts := m\<rparr>)) =
      t\<lparr>rt_host_glyphset_refcounts := m\<rparr>\<lparr>rt_host_glyphset_refcounts := n\<rparr>"
    using Cons.IH by blast
  then show ?case using m by (intro exI [of _ n]) (simp add: case_prod_beta)
qed

lemma non_window_resources_dropped:
  shows "owns_no_resource c (fst (remove_non_window_resources_owned_by c t))"
    "rt_windows (fst (remove_non_window_resources_owned_by c t)) = rt_windows t"
proof -
  define t1 where "t1 = t\<lparr>rt_pixmaps := hm_retain (\<lambda>_ p. pm_owner p \<noteq> c) (rt_pixmaps t),
                rt_gcs := hm_retain (\<lambda>_ g. gc_owner g \<noteq> c) (rt_gcs t),
                rt_colormaps := hm_retain (\<lambda>_ x. cm_owner x \<noteq> c) (rt_colormaps t),
                rt_cursors := hm_retain (\<lambda>_ x. cur_owner x \<noteq> c) (rt_cursors t),
                rt_fonts := hm_retain (\<lambda>_ f. font_owner f \<noteq> c) (rt_fonts t),
                rt_pictures := hm_retain (\<lambda>_ p. pict_client p \<noteq> c) (rt_pictures t),
                rt_glyphsets := hm_retain (\<lambda>_ g. glyph_client g \<noteq> c) (rt_glyphsets t)\<rparr>"
  obtain hs where run: "fst (remove_non_window_resources_owned_by c t) = fst (release_glyphset_refs hs t1)"
    by (auto simp: remove_non_window_resources_owned_by_def t1_def [symmetric] Let_def case_prod_beta)
  obtain n where eq: "fst (remove_non_window_resources_owned_by c t) = t1\<lparr>rt_host_glyphset_refcounts := n\<rparr>"
    unfolding run using glyphset_refs_table by blast
  show "owns_no_resource c (fst (remove_non_window_resources_owned_by c t))"
    unfolding eq owns_no_resource_def by (simp add: t1_def)
  show "rt_windows (fst (remove_non_window_resources_owned_by c t)) = rt_windows t"
    unfolding eq by (simp add: t1_def)
qed

text \<open>The steps between the destruction of the windows and the release of the device grabs.\<close>

definition after_windows ::
  "nat \<Rightarrow> ClientId \<Rightarrow> bool \<Rightarrow> ResourceId list \<Rightarrow> ServerState \<Rightarrow> ServerState" where
  "after_windows now c retain dead st =
     drop_core_grabs c (drop_timer_state now c (fst (drop_extension_state c dead (forget_client c retain st))))"

lemma forget_fields [simp]:
  "st_resources (forget_client c retain st) = st_resources st" "st_xi1_frozen (forget_client c retain st) = st_xi1_frozen st"
  "st_core_focus (forget_client c retain st) = st_core_focus st"
  "st_clients (forget_client c retain st) = hm_remove c (st_clients st)"
  by (auto simp: forget_client_def Let_def split: option.split)

lemma core_grabs_fields [simp]:
  "st_xi1_frozen (drop_core_grabs c st) = st_xi1_frozen st" "st_core_focus (drop_core_grabs c st) = st_core_focus st"
  by (simp_all add: drop_core_grabs_def Let_def)

lemma timer_state_fields [simp]:
  "st_xi1_frozen (drop_timer_state now c st) = st_xi1_frozen st"
  "st_core_focus (drop_timer_state now c st) = st_core_focus st"
  by (simp_all add: drop_timer_state_def reset_idletime_state_after_suspend_release_def Let_def)

lemma teardown_input_fields [simp]:
  "st_xi1_frozen (fst (teardown_redirects ws st)) = st_xi1_frozen st"
  "st_core_focus (fst (teardown_redirects ws st)) = st_core_focus st"
  using teardown_redirects_state [of ws st] by auto

lemma extension_state_fields [simp]:
  "st_xi1_frozen (fst (drop_extension_state c dead st)) = st_xi1_frozen st"
  "st_core_focus (fst (drop_extension_state c dead st)) = st_core_focus st"
  by (simp_all add: drop_extension_state_def drop_redirects_def case_prod_beta Let_def)

lemma after_windows_input:
  "st_xi1_frozen (after_windows now c retain dead st) = st_xi1_frozen st"
  "st_core_focus (after_windows now c retain dead st) = st_core_focus st"
  by (simp_all add: after_windows_def)

lemma after_windows_forgets:
  "same_owners (st_resources st) (st_resources (after_windows now c retain dead st))"
  "hm_get (st_clients (after_windows now c retain dead st)) c = None"
  "no_extension_state c (after_windows now c retain dead st)" "no_timer_state c (after_windows now c retain dead st)"
  using extension_state_dropped [where c = c and dead = dead and st = "forget_client c retain st"]
  by (simp_all add: after_windows_def core_grabs_dropped timer_state_dropped)

lemma core_grabs_gone: "no_core_grab c (drop_core_grabs c st\<lparr>st_xi1_passive_grabs := filter (\<lambda>g. xp_owner g \<noteq> c) gs\<rparr>)"
  by (auto simp: no_core_grab_def drop_core_grabs_def Let_def)

text \<open>Whether the close-down mode of a client keeps its resources.\<close>

definition retains :: "ClientId \<Rightarrow> ServerState \<Rightarrow> bool" where
  "retains c st \<longleftrightarrow> unwrap_or (hm_get (st_close_down_modes st) c) 0 \<in> {1, 2}"

lemma process_disconnect_steps:
  assumes conn: "hm_contains (st_clients st) c"
    and windows: "destroy_owned_windows c (fanout_xfixes_selection_client_close_for_client c
      (st\<lparr>st_close_down_modes := hm_remove c (st_close_down_modes st)\<rparr>)) = (s, pending, dead)"
  obtains s' calls where "st_xi1_frozen s' = st_xi1_frozen s" "rt_windows (st_resources s') = rt_windows (st_resources s)"
    "st_core_focus s' = st_core_focus s" "\<not> retains c st \<Longrightarrow> owns_no_resource c (st_resources s')"
    "process_disconnect now c st = map_option (\<lambda>st. (fold fanout_destroy_sequence pending
       (st\<lparr>st_selections := hm_retain (\<lambda>_ (w, _). w \<notin> set dead) (st_selections st)\<rparr>), calls))
       (drop_device_grabs c (after_windows now c (retains c st) dead s'))"
proof -
  define mode where "mode = unwrap_or (hm_get (st_close_down_modes st) c) 0"
  obtain client where client: "hm_get (st_clients st) c = Some client" using conn by auto
  have keep: "(mode = 1 \<or> mode = 2) \<longleftrightarrow> retains c st" by (simp add: mode_def retains_def)
  show thesis
  proof (cases "retains c st")
    case True
    show thesis
      by (rule that [of "s\<lparr>st_zombie_clients := hm_insert c mode (st_zombie_clients s)\<rparr>"])
        (auto simp: process_disconnect_def client Let_def windows mode_def [symmetric] keep True
          after_windows_def case_prod_beta comp_def)
  next
    case False
    show thesis
      by (rule that [of "s\<lparr>st_resources := fst (remove_non_window_resources_owned_by c (st_resources s))\<rparr>"])
        (auto simp: process_disconnect_def client Let_def windows mode_def [symmetric] keep False
          after_windows_def case_prod_beta comp_def drop_non_window_resources_def non_window_resources_dropped)
  qed
qed

lemma destroy_sequence_frame: "frame (fold fanout_destroy_sequence pending st) = frame st"
  by (rule frame_fold) simp

lemma frame_core_focus_state: "st_core_focus st = st_core_focus (snd (frame st))"
  by (simp add: frame_def)

lemma same_frame_focus: "frame st' = frame st \<Longrightarrow> st_core_focus st' = st_core_focus st"
  using frame_core_focus_state by metis

lemma destroy_owned_focus: "st_core_focus (fst (fold destroy_owned_root rs r)) = st_core_focus (fst r)"
proof (induction rs arbitrary: r)
  case (Cons root rs)
  have "st_core_focus (revert_focus_for_dying_subtree root s) = st_core_focus s" for s
    by (rule same_frame_focus) simp
  then have "st_core_focus (fst (destroy_owned_root root r)) = st_core_focus (fst r)"
    by (simp add: destroy_owned_root_def Let_def case_prod_beta)
  then show ?case using Cons.IH by simp
qed simp

lemma client_close_focus:
  "st_core_focus (fanout_xfixes_selection_client_close_for_client c st) = st_core_focus st"
proof -
  have notify: "st_core_focus (fanout_xfixes_selection_notify sel subtype w t t' s) = st_core_focus s"
    for sel subtype w t t' s by (rule same_frame_focus) simp
  have "st_core_focus (fold (\<lambda>(sel, prior) st.
          (let st = fanout_xfixes_selection_notify sel sub 0 now prior st
           in st\<lparr>st_selections := hm_remove sel (st_selections st)\<rparr>)) xs st) = st_core_focus st" for sub now xs st
    by (induction xs arbitrary: st) (auto simp: Let_def notify)
  then show ?thesis
    by (simp add: fanout_xfixes_selection_client_close_for_client_def drop_selections_owned_by_windows_def Let_def)
qed

lemma disconnect_outcome:
  assumes tree: "windows_reachable (st_resources st)" and root: "window_owner (st_resources st) ROOT_WINDOW \<noteq> Some c"
    and rest: "at_rest st" and conn: "hm_contains (st_clients st) c"
  obtains st' calls where "process_disconnect now c st = Some (st', calls)" "hm_get (st_clients st') c = None"
    "\<And>k. window (st_resources st') k = None \<longleftrightarrow>
       window (st_resources st) k = None \<or> inside_windows_of (st_resources st) c k"
    "\<And>k. window_owner (st_resources st') k \<noteq> Some c" "retains c st \<or> owns_no_resource c (st_resources st')"
    "no_extension_state c st'" "no_timer_state c st'" "no_core_grab c st'" "st_core_focus st' = st_core_focus st"
proof -
  define s1 where "s1 = fanout_xfixes_selection_client_close_for_client c
    (st\<lparr>st_close_down_modes := hm_remove c (st_close_down_modes st)\<rparr>)"
  have s1: "st_resources s1 = st_resources st" "st_xi1_frozen s1 = st_xi1_frozen st" by (simp_all add: s1_def)
  obtain s2 pending dead where s2: "destroy_owned_windows c s1 = (s2, pending, dead)" by (metis prod_cases3)
  have inv: "tree_inv (st_resources s1)" using reachable_tree [OF tree] s1(1) by simp
  have root1: "window_owner (st_resources s1) ROOT_WINDOW \<noteq> Some c" using root s1(1) by simp
  note gone = owned_windows_destroyed [OF inv root1 s2, unfolded s1(1)]
  have frozen2: "st_xi1_frozen s2 = st_xi1_frozen st"
    using s2 destroy_owned_frozen [of "collect_owned_window_roots (st_resources s1) c" "(s1, [], [])"] s1(2)
    by (auto simp: destroy_owned_windows_def drop_window_subscriptions_def split: prod.splits)
  obtain s3 calls where s3: "st_xi1_frozen s3 = st_xi1_frozen s2" "rt_windows (st_resources s3) = rt_windows (st_resources s2)"
    "st_core_focus s3 = st_core_focus s2" "\<not> retains c st \<Longrightarrow> owns_no_resource c (st_resources s3)"
    and run: "process_disconnect now c st = map_option (\<lambda>st. (fold fanout_destroy_sequence pending
       (st\<lparr>st_selections := hm_retain (\<lambda>_ (w, _). w \<notin> set dead) (st_selections st)\<rparr>), calls))
       (drop_device_grabs c (after_windows now c (retains c st) dead s3))"
    by (rule process_disconnect_steps [OF conn s2 [unfolded s1_def], where now = now]) (rule that)
  define s4 where "s4 = after_windows now c (retains c st) dead s3"
  have "queues_ok s4"
    using rest_queues [OF rest] by (simp add: s4_def queues_ok_def device_queues_def after_windows_input s3(1) frozen2)
  from device_grabs_settle [OF this] obtain s5 where s5: "drop_device_grabs c s4 = Some s5" by blast
  define s6 where "s6 = fold fanout_destroy_sequence pending
    (s5\<lparr>st_selections := hm_retain (\<lambda>_ (w, _). w \<notin> set dead) (st_selections s5)\<rparr>)"
  define s4' where "s4' = s4\<lparr>st_xi1_passive_grabs := filter (\<lambda>g. xp_owner g \<noteq> c) (st_xi1_passive_grabs s4)\<rparr>"
  have f5: "frame s5 = frame s4'" unfolding s4'_def by (rule device_grabs_dropped [OF s5])
  have f6: "frame s6 = frame (s5\<lparr>st_selections := hm_retain (\<lambda>_ (w, _). w \<notin> set dead) (st_selections s5)\<rparr>)"
    unfolding s6_def by (rule destroy_sequence_frame)
  have known6: "no_extension_state c s6 \<longleftrightarrow> no_extension_state c s5" "no_timer_state c s6 \<longleftrightarrow> no_timer_state c s5"
    "no_core_grab c s6 \<longleftrightarrow> no_core_grab c s5"
    unfolding same_frame_known [OF f6] by (simp_all add: no_extension_state_def no_timer_state_def no_core_grab_def)
  note known5 = same_frame_known [OF f5]
  have "no_extension_state c s4'" "no_timer_state c s4'"
    using after_windows_forgets(3,4) [of c now "retains c st" dead s3]
    by (simp_all add: s4'_def s4_def no_extension_state_def no_timer_state_def)
  moreover have "no_core_grab c s4'"
    unfolding s4'_def s4_def after_windows_def by (rule core_grabs_gone)
  ultimately have known: "no_extension_state c s6" "no_timer_state c s6" "no_core_grab c s6"
    unfolding known6 known5 by simp_all
  have res6: "st_resources s6 = st_resources s4"
    using same_frame_resources [OF f6] same_frame_resources [OF f5] by (simp add: s4'_def)
  have "hm_get (st_clients s4) c = None" unfolding s4_def by (rule after_windows_forgets)
  then have client: "hm_get (st_clients s6) c = None"
    using same_frame_client [OF f6, of c] same_frame_client [OF f5, of c] by (simp add: s4'_def)
  have owners: "same_owners (st_resources s3) (st_resources s6)"
    unfolding res6 s4_def by (rule after_windows_forgets)
  have same: "window (st_resources s3) k = window (st_resources s2) k" for k
    by (simp add: window_def s3(2))
  then have same_owner: "window_owner (st_resources s3) k = window_owner (st_resources s2) k" for k
    by (simp add: window_owner_def)
  have windows: "window (st_resources s6) k = None \<longleftrightarrow>
      window (st_resources st) k = None \<or> inside_windows_of (st_resources st) c k" for k
    unfolding same_ownersD(2) [OF owners] same by (rule gone)
  have "window_owner (st_resources s6) k \<noteq> Some c" for k
  proof
    assume own: "window_owner (st_resources s6) k = Some c"
    then have "window (st_resources s6) k \<noteq> None" by (auto simp: window_owner_def)
    moreover have "window_owner (st_resources s2) k = Some c"
      using own by (simp add: same_ownersD(1) [OF owners] same_owner)
    then have "window (st_resources s2) k \<noteq> None" by (auto simp: window_owner_def)
    then have "window_owner (st_resources st) k = Some c"
      using gone(3) \<open>window_owner (st_resources s2) k = Some c\<close> by simp
    then have "inside_windows_of (st_resources st) c k"
      unfolding inside_windows_of_def by (blast intro: below.refl)
    ultimately show False using windows [of k] by simp
  qed
  moreover have "retains c st \<or> owns_no_resource c (st_resources s6)"
    using s3(4) same_ownersD(3) [OF owners] by blast
  moreover have "process_disconnect now c st = Some (s6, calls)"
    unfolding run s4_def [symmetric] s5 by (simp add: s6_def)
  moreover have "st_core_focus s2 = st_core_focus st"
    using s2 destroy_owned_focus [of "collect_owned_window_roots (st_resources s1) c" "(s1, [], [])"]
    by (auto simp: destroy_owned_windows_def drop_window_subscriptions_def s1_def client_close_focus split: prod.splits)
  then have "st_core_focus s6 = st_core_focus st"
    using same_frame_focus [OF f6] same_frame_focus [OF f5]
    by (simp add: s4'_def s4_def after_windows_input s3(3))
  ultimately show thesis using that client windows known by blast
qed

section \<open>A client frame around the window of another client\<close>

text \<open>\<open>tree3\<close> with a window of client 2 inside a window of client 1, as a window manager leaves it.\<close>

definition framed_table :: ResourceTable where
  "framed_table = create_window 2 (plain_window 0x200001 0x100001) tree3"

definition framed_client :: ClientState where
  "framed_client = \<lparr>cs_byte_order = BigEndian, cs_last_sequence = 3, cs_resource_id_base = 0x100000,
     cs_resource_id_mask = 0xFFFFF, cs_event_masks = [], cs_save_set = [0x200001], cs_big_requests_enabled = False,
     cs_xi2_masks = [], cs_out = \<lparr>co_outbound = [], co_writer = \<lparr>wr_sent = [], wr_turns = []\<rparr>\<rparr>, cs_focused_window = 0,
     cs_xi1_window_event_classes = []\<rparr>"

definition framed_state :: ServerState where
  "framed_state = server_new\<lparr>st_resources := framed_table, st_clients := [(1, framed_client)],
     st_core_focus := \<lparr>cf_raw = 0x200001, cf_revert_to = 2, cf_time = 0\<rparr>\<rparr>"

lemma framed_window: "window framed_table k =
    (if k = 0x200001 then Some ((tree_window 0x200001 0x100001 [])\<lparr>win_owner := 2\<rparr>)
     else if k = 0x100001 then Some (tree_window 0x100001 ROOT_WINDOW [0x100002, 0x200001])
     else window tree3 k)"
  by (simp add: framed_table_def create_window_get [where p = "tree_window 0x100001 ROOT_WINDOW [0x100002]"]
      tree3_window new_plain cow_aware_top_index_def vec_insert_def COMPOSITE_OVERLAY_WINDOW_def)
    (simp add: tree_window_def window_placeholder_def)

lemma framed_reachable: "windows_reachable framed_table"
proof -
  have tables: "rt_pixmaps tree3 = []" "rt_gcs tree3 = []" "rt_fonts tree3 = []" "rt_cursors tree3 = []"
    by (simp_all add: tree3_def tree_tables)
  have "validate_owned 0x200001 (base_of 2) PER_CLIENT_MASK" by (simp add: validate_owned_iff)
  then have "create_window_check (base_of 2) PER_CLIENT_MASK (plain_window 0x200001 0x100001) tree3 = Proceed"
    by (intro plain_check [where w = "tree_window 0x100001 ROOT_WINDOW [0x100002]"])
      (simp_all add: tree3_window exists_window tables ROOT_WINDOW_def tree_window_def
        window_placeholder_def)
  then show ?thesis
    unfolding framed_table_def
    by (intro windows_reachable.step [OF reachable3 window_step.create]) simp_all
qed

lemma framed_inside: "inside_windows_of framed_table 1 0x100001" "inside_windows_of framed_table 1 0x200001"
proof -
  have owner: "window_owner framed_table 0x100001 = Some 1"
    by (simp add: window_owner_def framed_window tree_window_def)
  have self: "descends framed_table 0x100001 0x100001" by (rule below.refl)
  have "descends framed_table 0x100001 0x200001"
    by (rule below.step [OF _ _ self]) (simp_all add: framed_window tree_window_def parent_of_def ROOT_WINDOW_def)
  then show "inside_windows_of framed_table 1 0x100001" "inside_windows_of framed_table 1 0x200001"
    unfolding inside_windows_of_def using owner self by blast+
qed

lemma framed_root: "window_owner (st_resources framed_state) ROOT_WINDOW \<noteq> Some 1"
  by (simp add: framed_state_def window_owner_def framed_window tree3_window root_window_def ROOT_WINDOW_def
      SERVER_OWNER_def)

lemma framed_simps:
  "st_resources framed_state = framed_table" "st_clients framed_state = [(1, framed_client)]"
  "cf_raw (st_core_focus framed_state) = 0x200001"
  by (simp_all add: framed_state_def)

lemma framed_rest: "at_rest framed_state"
  by (simp add: at_rest_def queues_ok_def settled_def device_queues_def framed_state_def server_new_def)

section \<open>Properties\<close>



text \<open>
  Claim C37. The windows that a client put into its save set are destroyed with it when they are inside one of
  its windows, and a core focus on such a window stays there: the disconnect reads neither the save
  set nor the core focus.
\<close>

theorem save_set_and_focus_lost:
  assumes "windows_reachable (st_resources st)" and "window_owner (st_resources st) ROOT_WINDOW \<noteq> Some c"
    and "at_rest st" and "hm_get (st_clients st) c = Some client" and "w \<in> set (cs_save_set client)"
    and "inside_windows_of (st_resources st) c w" and "cf_raw (st_core_focus st) = w"
  shows "\<exists>st' calls. process_disconnect now c st = Some (st', calls) \<and>
    window (st_resources st') w = None \<and> cf_raw (st_core_focus st') = w"
proof -
  have "hm_contains (st_clients st) c" using assms(4) by simp
  from disconnect_outcome [OF assms(1-3) this] show ?thesis using assms(6,7) by metis
qed

theorem save_set_and_focus_lost_witness:
  "\<exists>st' calls. process_disconnect 0 1 framed_state = Some (st', calls) \<and> window (st_resources st') 0x200001 = None \<and>
     cf_raw (st_core_focus st') = 0x200001"
proof (rule save_set_and_focus_lost [where client = framed_client])
  show "windows_reachable (st_resources framed_state)" by (simp add: framed_simps framed_reachable)
  show "window_owner (st_resources framed_state) ROOT_WINDOW \<noteq> Some 1" by (rule framed_root)
  show "at_rest framed_state" by (rule framed_rest)
  show "hm_get (st_clients framed_state) 1 = Some framed_client" by (simp add: framed_simps hm_get_Cons)
  show "0x200001 \<in> set (cs_save_set framed_client)" by (simp add: framed_client_def)
  show "inside_windows_of (st_resources framed_state) 1 0x200001" by (simp add: framed_simps framed_inside)
  show "cf_raw (st_core_focus framed_state) = 0x200001" by (rule framed_simps)
qed

end
