(* ===== verification/TeardownClaims.thy ===== *)
theory TeardownClaims
  imports DisconnectClaims InputClaims
begin

text \<open>
  What DestroyWindow does: exactly the subtree goes, with its selections, its redirections, its host
  windows and a core focus inside it; the shapes and damage objects of the subtree stay. Nothing
  guards the root window.
\<close>

section \<open>The part of the state that neither events nor the end of a grab touch\<close>

definition rest_of :: "ServerState \<Rightarrow> ServerState" where
  "rest_of st = (snd (frame st))\<lparr>st_pointer_confine_to := 0, st_pointer_grab := None,
     st_pointer_grab_is_passive := False, st_active_pointer_grab := None, st_frozen_pointer_event := None\<rparr>"

lemma rest_of_frame: "frame st' = frame st \<Longrightarrow> rest_of st' = rest_of st"
  by (simp add: rest_of_def)

lemma rest_of_fields:
  assumes "rest_of st' = rest_of st"
  shows "st_resources st' = st_resources st" "st_selections st' = st_selections st"
    "st_core_focus st' = st_core_focus st" "st_composite_redirects st' = st_composite_redirects st"
    "st_shape_windows st' = st_shape_windows st" "st_damage_objects st' = st_damage_objects st"
    "st_present_event_selections st' = st_present_event_selections st"
proof -
  have "st_resources s = st_resources (rest_of s) \<and> st_selections s = st_selections (rest_of s) \<and>
      st_core_focus s = st_core_focus (rest_of s) \<and> st_composite_redirects s = st_composite_redirects (rest_of s) \<and>
      st_shape_windows s = st_shape_windows (rest_of s) \<and> st_damage_objects s = st_damage_objects (rest_of s) \<and>
      st_present_event_selections s = st_present_event_selections (rest_of s)" for s
    by (simp add: rest_of_def frame_def)
  then show "st_resources st' = st_resources st" "st_selections st' = st_selections st"
    "st_core_focus st' = st_core_focus st" "st_composite_redirects st' = st_composite_redirects st"
    "st_shape_windows st' = st_shape_windows st" "st_damage_objects st' = st_damage_objects st"
    "st_present_event_selections st' = st_present_event_selections st"
    using assms by metis+
qed

lemma rest_of_grab_chain [simp]: "rest_of (emit_core_pointer_grab_chain a b mode st) = rest_of st"
proof -
  obtain cl where "emit_core_pointer_grab_chain a b mode st = st\<lparr>st_clients := cl\<rparr>"
    using grab_chain_same unfolding same_but_clients_def by blast
  then show ?thesis by (simp add: rest_of_def frame_def)
qed

lemma rest_of_bridge:
  assumes "xi1_core_grab_bridge_release xi1_compute_freezes d owner st = Some st'"
  shows "rest_of st' = rest_of st"
proof -
  have "frames st (xi1_core_grab_bridge_release xi1_compute_freezes d owner st)"
    by (rule frames_bridge [OF frame_ok_compute])
  then show ?thesis using assms rest_of_frame unfolding frames_def by blast
qed

lemma rest_of_deactivate_pointer:
  assumes "deactivate_core_pointer_grab c st = Some st'"
  shows "rest_of st' = rest_of st"
proof -
  define s where "s = st\<lparr>st_pointer_confine_to := 0, st_pointer_grab := None, st_pointer_grab_is_passive := False,
      st_active_pointer_grab := None, st_frozen_pointer_event := None, st_frozen_pointer_queue := []\<rparr>"
  have s: "rest_of s = rest_of st" by (simp add: s_def rest_of_def frame_def)
  obtain s' where s': "xi1_core_grab_bridge_release xi1_compute_freezes DEVICEID_SLAVE_POINTER c s = Some s'"
    "st' = s' \<or> (\<exists>a b. st' = emit_core_pointer_grab_chain a b 2 s')"
    using assms by (auto simp: deactivate_core_pointer_grab_def Let_def s_def [symmetric] bind_eq_Some_conv
        split: option.splits if_splits)
  then show ?thesis using rest_of_bridge [OF s'(1)] s by auto
qed

lemma rest_of_deactivate_keyboard:
  assumes "deactivate_core_keyboard_grab c st = Some st'"
  shows "rest_of st' = rest_of st"
proof -
  define s where "s = st\<lparr>st_active_keyboard_grab := None, st_frozen_keyboard_event := None\<rparr>"
  have s: "rest_of s = rest_of st" by (simp add: s_def rest_of_def frame_def)
  have focus: "rest_of (emit_core_focus_transition a b mode x) = rest_of x" for a b mode x
    by (rule rest_of_frame) simp
  have "st' = st \<or> (\<exists>s' a b. xi1_core_grab_bridge_release xi1_compute_freezes DEVICEID_SLAVE_KEYBOARD c s = Some s' \<and>
      st' = emit_core_focus_transition a b 2 s')"
    using assms by (auto simp: deactivate_core_keyboard_grab_def Let_def s_def [symmetric] bind_eq_Some_conv
        split: option.splits if_splits)
  then show ?thesis using rest_of_bridge s focus by metis
qed

lemma rest_of_unviewable:
  assumes "release_core_grabs_for_unviewable st = Some st'"
  shows "rest_of st' = rest_of st"
proof -
  obtain s where s: "(case st_pointer_grab st of
      Some (owner, win) \<Rightarrow>
        if \<not> is_viewable st win \<or> st_pointer_confine_to st \<noteq> 0 \<and> \<not> is_viewable st (st_pointer_confine_to st)
        then deactivate_core_pointer_grab owner st else Some st
    | None \<Rightarrow> Some st) = Some s"
    "(case st_active_keyboard_grab s of
      Some g \<Rightarrow> if \<not> is_viewable s (ak_window g) then deactivate_core_keyboard_grab (ak_owner g) s else Some s
    | None \<Rightarrow> Some s) = Some st'"
    using assms unfolding release_core_grabs_for_unviewable_def by (auto simp: bind_eq_Some_conv)
  have "rest_of s = rest_of st"
    using s(1) rest_of_deactivate_pointer [of _ st s] by (auto split: option.splits if_splits)
  moreover have "rest_of st' = rest_of s"
    using s(2) rest_of_deactivate_keyboard [of _ s st'] by (auto split: option.splits if_splits)
  ultimately show ?thesis by simp
qed

section \<open>The core focus of a dying window\<close>

lemma revert_parent_survives:
  assumes inv: "tree_inv t"
  shows "root_dist (parent_of t) ROOT_WINDOW p d \<Longrightarrow> d < n \<Longrightarrow>
    revert_parent_loop t dying n p = ROOT_WINDOW \<or> revert_parent_loop t dying n p \<notin> set dying"
proof (induction n arbitrary: p d)
  case (Suc n)
  show ?case
  proof (cases "p = ROOT_WINDOW \<or> window t p = None")
    case False
    then obtain w where w: "window t p = Some w" and p: "p \<noteq> ROOT_WINDOW" by auto
    obtain e where e: "d = Suc e" "root_dist (parent_of t) ROOT_WINDOW (win_parent w) e"
    proof (cases rule: root_distE [OF Suc.prems(1)])
      case (2 q n)
      have "q = win_parent w" using 2(3) w by (simp add: parent_of_def)
      then show ?thesis using that [of n] 2 by simp
    qed (use p in simp)
    have "win_parent w \<noteq> p"
      using root_dist_unique [OF Suc.prems(1), of e] e by auto
    then show ?thesis using Suc.IH [OF e(2)] Suc.prems(2) e(1) w p by simp
  qed auto
qed simp

lemma mirror_fields [simp]:
  "st_core_focus (mirror_focus r st) = st_core_focus st" "rest_of (mirror_focus r st) = rest_of st"
  "frame (mirror_focus r st) = frame st"
proof -
  have "hm_get (map (\<lambda>(i, c). (i, c\<lparr>cs_focused_window := m\<rparr>)) cl) k =
      map_option (\<lambda>c. c\<lparr>cs_focused_window := m\<rparr>) (hm_get cl k)" for m cl k
    by (induction cl) (auto simp: hm_get_Cons)
  then have "(hm_get (map (\<lambda>(i, c). (i, c\<lparr>cs_focused_window := m\<rparr>)) cl) k \<noteq> None) = (hm_get cl k \<noteq> None)" for m cl k
    by (metis option.map_disc_iff)
  then show frame: "frame (mirror_focus r st) = frame st"
    unfolding mirror_focus_def Let_def by (rule frame_set_clients)
  show "st_core_focus (mirror_focus r st) = st_core_focus st" by (simp add: mirror_focus_def Let_def)
  show "rest_of (mirror_focus r st) = rest_of st" by (rule rest_of_frame [OF frame])
qed

lemma frame_set_focus:
  assumes "frame s = frame st"
  shows "frame (s\<lparr>st_core_focus := f\<rparr>) = frame (st\<lparr>st_core_focus := f\<rparr>)"
proof -
  have "frame (x\<lparr>st_core_focus := f\<rparr>) = (fst (frame x), (snd (frame x))\<lparr>st_core_focus := f\<rparr>)" for x
    by (simp add: frame_def)
  then show ?thesis using assms by metis
qed

text \<open>The new focus is none, the pointer root or the end of the walk up from the parent.\<close>

lemma revert_focus_state:
  assumes "cf_raw (st_core_focus st) = win" and "win \<noteq> ROOT_WINDOW"
  obtains f where "frame (revert_core_focus_from win dying st) = frame (st\<lparr>st_core_focus := f\<rparr>)"
    "cf_raw f \<le> 1 \<or> cf_raw f = revert_parent_loop (st_resources st) dying (Suc (hm_len (rt_windows (st_resources st))))
       (case window (st_resources st) win of None \<Rightarrow> ROOT_WINDOW | Some w \<Rightarrow> win_parent w)"
proof -
  define mode :: u8 where "mode = (if st_active_keyboard_grab st \<noteq> None then 3 else 0)"
  define start where "start = (case window (st_resources st) win of None \<Rightarrow> ROOT_WINDOW | Some w \<Rightarrow> win_parent w)"
  define r where "r = (if cf_revert_to (st_core_focus st) = 2
    then (revert_parent_loop (st_resources st) dying (Suc (hm_len (rt_windows (st_resources st)))) start, 0)
    else if cf_revert_to (st_core_focus st) = 1 then (1, cf_revert_to (st_core_focus st))
    else (0, cf_revert_to (st_core_focus st)))"
  define s where "s = emit_core_focus_transition win (fst r) mode st"
  have "revert_core_focus_from win dying st =
      mirror_focus (fst r) (s\<lparr>st_core_focus := (st_core_focus s)\<lparr>cf_raw := fst r, cf_revert_to := snd r\<rparr>\<rparr>)"
    using assms unfolding revert_core_focus_from_def Let_def mode_def [symmetric] start_def [symmetric]
      r_def [symmetric] by (simp add: case_prod_beta s_def)
  then have "frame (revert_core_focus_from win dying st) =
      frame (s\<lparr>st_core_focus := (st_core_focus s)\<lparr>cf_raw := fst r, cf_revert_to := snd r\<rparr>\<rparr>)"
    by (simp only: mirror_fields)
  moreover have "frame s = frame st" unfolding s_def by (rule frame_core_focus)
  note frame_set_focus [OF this]
  ultimately have "frame (revert_core_focus_from win dying st) =
      frame (st\<lparr>st_core_focus := (st_core_focus s)\<lparr>cf_raw := fst r, cf_revert_to := snd r\<rparr>\<rparr>)"
    by (rule trans)
  moreover have "fst r \<le> 1 \<or> fst r = revert_parent_loop (st_resources st) dying
      (Suc (hm_len (rt_windows (st_resources st)))) start"
    by (simp add: r_def)
  ultimately show thesis using that unfolding start_def by simp
qed

lemma dying_focus_state:
  assumes inv: "tree_inv (st_resources st)" and order: "ROOT_WINDOW \<notin> set order"
  obtains f where "frame (revert_dying_focus order st) = frame (st\<lparr>st_core_focus := f\<rparr>)"
    "cf_raw f \<le> 1 \<or> cf_raw f \<notin> set order"
proof -
  let ?t = "st_resources st" and ?win = "cf_raw (st_core_focus st)"
  show thesis
  proof (cases "?win > 1 \<and> ?win \<in> set order")
    case False
    have "revert_dying_focus order st = st" using False by (auto simp: revert_dying_focus_def Let_def)
    moreover have "cf_raw (st_core_focus st) \<le> 1 \<or> cf_raw (st_core_focus st) \<notin> set order"
      using False by (auto simp: not_less)
    ultimately show ?thesis using that [of "st_core_focus st"] by simp
  next
    case True
    then have win: "?win \<noteq> ROOT_WINDOW" using order by auto
    define start where "start = (case window ?t ?win of None \<Rightarrow> ROOT_WINDOW | Some w \<Rightarrow> win_parent w)"
    obtain f where f: "frame (revert_core_focus_from ?win order st) = frame (st\<lparr>st_core_focus := f\<rparr>)"
      "cf_raw f \<le> 1 \<or> cf_raw f = revert_parent_loop ?t order (Suc (hm_len (rt_windows ?t))) start"
      using revert_focus_state [OF HOL.refl win, of order] unfolding start_def by metis
    have "window ?t start \<noteq> None"
    proof (cases "window ?t ?win")
      case None
      then show ?thesis using tree_root [OF inv] by (auto simp: start_def parent_of_def)
    next
      case (Some w)
      then show ?thesis using tree_in_parent [OF inv Some win] by (auto simp: start_def)
    qed
    then obtain d where d: "root_dist (parent_of ?t) ROOT_WINDOW start d" using inv by (auto simp: tree_inv_def)
    have "d < Suc (hm_len (rt_windows ?t))" using dist_table_bound [OF inv d] by simp
    from revert_parent_survives [OF inv d this] have "cf_raw f \<le> 1 \<or> cf_raw f \<notin> set order"
      using f(2) order by metis
    then show ?thesis using that f(1) True by (simp add: revert_dying_focus_def Let_def)
  qed
qed

section \<open>Selections of the subtree\<close>

definition drop_step :: "u8 \<Rightarrow> u32 \<Rightarrow> AtomId \<times> u32 \<Rightarrow> ServerState \<Rightarrow> ServerState" where
  "drop_step sub now e st =
     (fanout_xfixes_selection_notify (fst e) sub 0 now (snd e) st)\<lparr>st_selections :=
        hm_remove (fst e) (st_selections (fanout_xfixes_selection_notify (fst e) sub 0 now (snd e) st))\<rparr>"

definition owned_selections :: "ResourceId list \<Rightarrow> ServerState \<Rightarrow> (AtomId \<times> u32) list" where
  "owned_selections ws st =
     map (\<lambda>(sel, (_, t)). (sel, t)) (filter (\<lambda>(_, (owner, _)). owner \<in> set ws) (st_selections st))"

lemma drop_selections_fold:
  "drop_selections_owned_by_windows ws sub st = fold (drop_step sub (st_timestamp st)) (owned_selections ws st) st"
proof -
  have "(\<lambda>(sel, prior) s. (let s = fanout_xfixes_selection_notify sel sub 0 now prior s
           in s\<lparr>st_selections := hm_remove sel (st_selections s)\<rparr>)) = drop_step sub now" for now
    by (rule ext)+ (simp add: drop_step_def Let_def case_prod_beta)
  then show ?thesis unfolding drop_selections_owned_by_windows_def Let_def owned_selections_def by simp
qed

lemma frame_set_selections:
  "frame (s\<lparr>st_selections := x\<rparr>) = (fst (frame s), (snd (frame s))\<lparr>st_selections := x\<rparr>)"
  by (simp add: frame_def)

lemma drop_steps_frame: "frame (fold (drop_step sub now) xs s) =
    frame (s\<lparr>st_selections := st_selections (fold (drop_step sub now) xs s)\<rparr>)"
proof (induction xs arbitrary: s)
  case (Cons x xs)
  have "frame (drop_step sub now x s) = (fst (frame s), (snd (frame s))\<lparr>st_selections := st_selections (drop_step sub now x s)\<rparr>)"
    by (simp add: drop_step_def frame_set_selections)
  then show ?case using Cons.IH [of "drop_step sub now x s"] by (simp add: frame_set_selections)
qed (simp add: frame_set_selections)

lemma drop_selections_frame:
  "frame (drop_selections_owned_by_windows ws sub st) =
     frame (st\<lparr>st_selections := st_selections (drop_selections_owned_by_windows ws sub st)\<rparr>)"
  unfolding drop_selections_fold by (rule drop_steps_frame)

lemma drop_steps_selections:
  "set (st_selections (fold (drop_step sub now) xs s)) = {e \<in> set (st_selections s). fst e \<notin> fst ` set xs}"
proof (induction xs arbitrary: s)
  case (Cons x xs)
  have notify: "st_selections (fanout_xfixes_selection_notify sel sub 0 now prior s) = st_selections s" for sel prior
    by (rule rest_of_fields(2) [OF rest_of_frame]) simp
  have "set (st_selections (drop_step sub now x s)) = {e \<in> set (st_selections s). fst e \<noteq> fst x}"
    by (auto simp: drop_step_def notify hm_remove_def AList.delete_eq)
  then show ?case using Cons.IH [of "drop_step sub now x s"] by auto
qed simp

lemma dropped_selections:
  assumes "hm_get (st_selections (drop_selections_owned_by_windows ws sub st)) sel = Some (w, tm)"
  shows "w \<notin> set ws"
proof
  assume w: "w \<in> set ws"
  have "(sel, (w, tm)) \<in> set (st_selections (drop_selections_owned_by_windows ws sub st))"
    using assms by (simp add: hm_get_def map_of_SomeD)
  then have "(sel, (w, tm)) \<in> set (st_selections st)" "sel \<notin> fst ` set (owned_selections ws st)"
    unfolding drop_selections_fold by (auto simp: drop_steps_selections)
  then show False using w by (force simp: owned_selections_def)
qed

section \<open>The request\<close>

lemma destroy_sequence_rest: "rest_of (fold fanout_destroy_sequence pending st) = rest_of st"
  by (rule rest_of_frame [OF destroy_sequence_frame])

lemma forget_subtree_fields:
  assumes "forget_subtree order root st = (st', calls)"
  shows "st_resources st' = fst (destroy_window root (st_resources st))"
    "st_core_focus st' = st_core_focus st" "st_shape_windows st' = st_shape_windows st"
    "st_damage_objects st' = st_damage_objects st"
    "st_composite_redirects st' = hm_retain (\<lambda>(w, _) _. w \<notin> set order) (st_composite_redirects st)"
    "st_xi1_frozen st' = st_xi1_frozen st"
    "hm_get (st_selections st') sel = Some (w, tm) \<Longrightarrow> w \<notin> set order"
proof -
  define s where "s = st\<lparr>st_present_scheduler := fst (drain_windows order (st_present_scheduler st)),
    st_composite_redirects := hm_retain (\<lambda>(w, _) _. w \<notin> set order) (st_composite_redirects st)\<rparr>"
  define s' where "s' = drop_selections_owned_by_windows order SELECTION_NOTIFY_WINDOW_DESTROY s"
  have st': "st' = drop_window_subscriptions order (s'\<lparr>st_resources := fst (destroy_window root (st_resources s'))\<rparr>)"
    using assms by (auto simp: forget_subtree_def Let_def s_def s'_def split: prod.splits)
  have s': "rest_of s' = rest_of (s\<lparr>st_selections := st_selections s'\<rparr>)"
    unfolding s'_def by (rule rest_of_frame [OF drop_selections_frame])
  note fields = rest_of_fields [OF s']
  show "st_resources st' = fst (destroy_window root (st_resources st))"
    using fields(1) by (simp add: st' s_def)
  show "st_core_focus st' = st_core_focus st" "st_shape_windows st' = st_shape_windows st"
    "st_damage_objects st' = st_damage_objects st"
    "st_composite_redirects st' = hm_retain (\<lambda>(w, _) _. w \<notin> set order) (st_composite_redirects st)"
    using fields(3-6) by (simp_all add: st' drop_window_subscriptions_def s_def)
  have "st_xi1_frozen (fold (drop_step sub now) xs x) = st_xi1_frozen x" for sub now xs x
  proof (rule fold_frozen)
    have "st_xi1_frozen (fanout_xfixes_selection_notify sel sb w t t' x) = st_xi1_frozen x" for sel sb w t t' x
      unfolding fanout_xfixes_selection_notify_def Let_def
      by (rule fold_frozen) (simp add: case_prod_beta same_but_clients_frozen)
    then show "st_xi1_frozen (drop_step sub now e x) = st_xi1_frozen x" for e x by (simp add: drop_step_def)
  qed
  then show "st_xi1_frozen st' = st_xi1_frozen st"
    by (simp add: st' drop_window_subscriptions_def s'_def drop_selections_fold s_def)
  show "hm_get (st_selections st') sel = Some (w, tm) \<Longrightarrow> w \<notin> set order"
    using dropped_selections [of order SELECTION_NOTIFY_WINDOW_DESTROY s sel w tm]
    by (simp add: st' drop_window_subscriptions_def s'_def)
qed

lemma dying_focus_frozen: "st_xi1_frozen (revert_dying_focus order st) = st_xi1_frozen st"
  by (simp add: revert_dying_focus_def revert_core_focus_from_def mirror_focus_def Let_def case_prod_beta)

lemma dying_focus_other:
  "st_resources (revert_dying_focus order st) = st_resources st"
  "st_shape_windows (revert_dying_focus order st) = st_shape_windows st"
  "st_damage_objects (revert_dying_focus order st) = st_damage_objects st"
  "st_composite_redirects (revert_dying_focus order st) = st_composite_redirects st"
proof -
  have "rest_of (emit_core_focus_transition a b mode s) = rest_of s" for a b mode s
    by (rule rest_of_frame) simp
  note emit = rest_of_fields [OF this]
  show "st_resources (revert_dying_focus order st) = st_resources st"
    "st_shape_windows (revert_dying_focus order st) = st_shape_windows st"
    "st_damage_objects (revert_dying_focus order st) = st_damage_objects st"
    "st_composite_redirects (revert_dying_focus order st) = st_composite_redirects st"
    by (simp_all add: revert_dying_focus_def revert_core_focus_from_def mirror_focus_def Let_def case_prod_beta emit)
qed

lemma destroy_sequence_frozen: "st_xi1_frozen (fold fanout_destroy_sequence pending st) = st_xi1_frozen st"
  by (rule fold_frozen) (simp add: fanout_destroy_sequence_def Let_def same_but_clients_frozen)

lemma destroy_outcome:
  assumes inv: "tree_inv (st_resources st)" and queues: "queues_ok st"
  obtains st' calls where "destroy_window_subtree root st = Some (st', calls)"
    "st_resources st' = fst (destroy_window root (st_resources st))"
    "\<forall>k w x. window (st_resources st) k = Some w \<and> window (st_resources st) root \<noteq> None \<and>
       descends (st_resources st) root k \<and> win_host_xid w = Some x \<longrightarrow> CallDestroySubwindow x \<in> set calls"
    "\<forall>sel k tm. hm_get (st_selections st') sel = Some (k, tm) \<longrightarrow>
       window (st_resources st) root = None \<or> \<not> descends (st_resources st) root k"
    "root = ROOT_WINDOW \<or> cf_raw (st_core_focus st') \<le> 1 \<or> window (st_resources st) root = None \<or>
       \<not> descends (st_resources st) root (cf_raw (st_core_focus st'))"
    "st_shape_windows st' = st_shape_windows st" "st_damage_objects st' = st_damage_objects st"
proof -
  define t where "t = st_resources st"
  define s1 where "s1 = revert_focus_for_dying_subtree root st"
  define order where "order = collect_destroy_order t root"
  define s2 where "s2 = revert_dying_focus order s1"
  define pending where "pending = map (pending_destroy s2) order"
  obtain s3 calls1 where s3: "forget_subtree order root s2 = (s3, calls1)" by (metis surj_pair)
  define s4 where "s4 = fold fanout_destroy_sequence pending s3"
  define calls where "calls = calls1 @ orphaned_backgrounds (st_resources s3) (collect_bg_pixmap_host_xids t root) @
    concat (map teardown_calls pending)"
  have f1: "rest_of s1 = rest_of st" unfolding s1_def by (rule rest_of_frame) simp
  note r1 = rest_of_fields [OF f1]
  have t1: "st_resources s1 = t" using r1(1) by (simp add: t_def)
  have t2: "st_resources s2 = t" unfolding s2_def by (simp only: dying_focus_other t1)
  note r3 = forget_subtree_fields [OF s3]
  have f4: "rest_of s4 = rest_of s3" unfolding s4_def by (rule destroy_sequence_rest)
  have "st_xi1_frozen s4 = st_xi1_frozen st"
    unfolding s4_def destroy_sequence_frozen r3(6) s2_def dying_focus_frozen s1_def by simp
  then have "queues_ok s4" using queues by (simp add: queues_ok_def device_queues_def)
  from unviewable_goes [OF this] obtain s5 where s5: "release_core_grabs_for_unviewable s4 = Some s5"
    by (auto simp: goes_def)
  have f5: "rest_of s5 = rest_of s3" using rest_of_unviewable [OF s5] f4 by simp
  note r5 = rest_of_fields [OF f5]
  have order: "set order = (if window t root = None then {} else {k. descends t root k})"
    unfolding order_def by (rule destroy_order_set) (simp add: t_def inv)
  have run: "destroy_window_subtree root st = Some (s5, calls)"
    unfolding destroy_window_subtree_def Let_def s1_def [symmetric] t1 order_def [symmetric]
      s2_def [symmetric] t2 s3 prod.case pending_def [symmetric] s4_def [symmetric] s5 calls_def by simp
  show thesis
  proof (rule that [OF run])
    show "st_resources s5 = fst (destroy_window root (st_resources st))"
      unfolding r5(1) r3(1) t2 t_def ..
    have "CallDestroySubwindow x \<in> set calls"
      if "window (st_resources st) k = Some w" "window (st_resources st) root \<noteq> None"
        "descends (st_resources st) root k" "win_host_xid w = Some x" for k w x
    proof -
      have "k \<in> set order" using that(2,3) unfolding order by (simp add: t_def)
      moreover have "pd_host_xid (pending_destroy s2 k) = Some x"
        using that(1,4) t2 by (simp add: pending_destroy_def Let_def t_def)
      ultimately show ?thesis
        by (auto simp: calls_def pending_def teardown_calls_def intro!: bexI [of _ k])
    qed
    then show "\<forall>k w x. window (st_resources st) k = Some w \<and> window (st_resources st) root \<noteq> None \<and>
       descends (st_resources st) root k \<and> win_host_xid w = Some x \<longrightarrow> CallDestroySubwindow x \<in> set calls"
      by blast
    have "window (st_resources st) root = None \<or> \<not> descends (st_resources st) root k"
      if "hm_get (st_selections s5) sel = Some (k, tm)" for sel k tm
      using r3(7) [of sel k tm] that r5(2) unfolding order t_def by (auto split: if_splits)
    then show "\<forall>sel k tm. hm_get (st_selections s5) sel = Some (k, tm) \<longrightarrow>
       window (st_resources st) root = None \<or> \<not> descends (st_resources st) root k" by blast
    show "root = ROOT_WINDOW \<or> cf_raw (st_core_focus s5) \<le> 1 \<or> window (st_resources st) root = None \<or>
        \<not> descends (st_resources st) root (cf_raw (st_core_focus s5))"
    proof (cases "root = ROOT_WINDOW")
      case False
      then have "ROOT_WINDOW \<notin> set order" unfolding order by (simp add: below_root)
      moreover have "tree_inv (st_resources s1)" using inv t1 by (simp add: t_def)
      ultimately obtain f where f: "frame s2 = frame (s1\<lparr>st_core_focus := f\<rparr>)" "cf_raw f \<le> 1 \<or> cf_raw f \<notin> set order"
        unfolding s2_def using dying_focus_state by blast
      have "st_core_focus s5 = f" using same_frame_focus [OF f(1)] r5(3) r3(2) by simp
      then show ?thesis using f(2) unfolding order t_def by (auto split: if_splits)
    qed simp
    show "st_shape_windows s5 = st_shape_windows st" "st_damage_objects s5 = st_damage_objects st"
      unfolding r5 r3 s2_def dying_focus_other r1 by (rule HOL.refl)+
  qed
qed

lemma destroy_runs:
  assumes "length body \<ge> 4" and "u32_le_at body 0 = root" and "window (st_resources st) root = Some w"
    and "destroy_window_subtree root st = Some (st', calls)"
  shows "handle_destroy_window client sequence body st = Some (st', calls, Handled)"
  using assms by (simp add: handle_destroy_window_def Let_def)

section \<open>Properties\<close>



text \<open>
  Claim C38. DestroyWindow on the root window is accepted: every host window is destroyed, the table still lists
  all windows as they were.
\<close>

theorem destroy_root_loses_host_windows:
  assumes "windows_reachable (st_resources st)" and "at_rest st" and "length body \<ge> 4"
    and "u32_le_at body 0 = ROOT_WINDOW"
  shows "\<exists>st' calls. handle_destroy_window client sequence body st = Some (st', calls, Handled) \<and>
    st_resources st' = st_resources st \<and>
    (\<forall>k w x. window (st_resources st) k = Some w \<and> win_host_xid w = Some x \<longrightarrow> CallDestroySubwindow x \<in> set calls)"
proof -
  have inv: "tree_inv (st_resources st)" by (rule reachable_tree [OF assms(1)])
  have root: "window (st_resources st) ROOT_WINDOW \<noteq> None" by (rule tree_root_present [OF inv])
  obtain st' calls where out: "destroy_window_subtree ROOT_WINDOW st = Some (st', calls)"
    "st_resources st' = fst (destroy_window ROOT_WINDOW (st_resources st))"
    "\<forall>k w x. window (st_resources st) k = Some w \<and> window (st_resources st) ROOT_WINDOW \<noteq> None \<and>
       descends (st_resources st) ROOT_WINDOW k \<and> win_host_xid w = Some x \<longrightarrow> CallDestroySubwindow x \<in> set calls"
    by (rule destroy_outcome [OF inv rest_queues [OF assms(2)], of ROOT_WINDOW]) (rule that)
  have "CallDestroySubwindow x \<in> set calls" if "window (st_resources st) k = Some w" "win_host_xid w = Some x" for k w x
    using out(3) root tree_descends_root [OF inv, of k] that by blast
  moreover have "handle_destroy_window client sequence body st = Some (st', calls, Handled)"
    using root destroy_runs [OF assms(3,4) _ out(1)] by blast
  moreover have "st_resources st' = st_resources st" unfolding out(2) by (simp add: destroy_noop)
  ultimately show ?thesis by blast
qed

theorem destroy_root_loses_host_windows_witness:
  "\<exists>st' calls. handle_destroy_window 1 5 [0, 1, 0, 0] framed_state = Some (st', calls, Handled) \<and>
     st_resources st' = framed_table"
proof -
  have reach: "windows_reachable (st_resources framed_state)" by (simp add: framed_simps framed_reachable)
  have body: "u32_le_at [0, 1, 0, 0] 0 = ROOT_WINDOW" by (simp add: u32_le_at_def u32_from_le_bytes_def ROOT_WINDOW_def)
  from destroy_root_loses_host_windows [OF reach framed_rest _ body, of 1 5] show ?thesis
    unfolding framed_simps by force
qed

text \<open>
  The shape of a destroyed window and the damage objects on it stay in the tables under its id, which
  the client may give to another window; a disconnect takes them away.
\<close>

theorem destroy_keeps_shape:
  assumes "windows_reachable (st_resources st)" and "at_rest st" and "length body \<ge> 4"
    and "u32_le_at body 0 = root" and "window (st_resources st) root \<noteq> None" and "root \<noteq> ROOT_WINDOW"
    and "hm_get (st_shape_windows st) root = Some shape"
  shows "\<exists>st' calls. handle_destroy_window client sequence body st = Some (st', calls, Handled) \<and>
    window (st_resources st') root = None \<and> hm_get (st_shape_windows st') root = Some shape \<and>
    st_damage_objects st' = st_damage_objects st"
proof -
  have inv: "tree_inv (st_resources st)" by (rule reachable_tree [OF assms(1)])
  obtain w where w: "window (st_resources st) root = Some w" using assms(5) by blast
  obtain st' calls where out: "destroy_window_subtree root st = Some (st', calls)"
    "st_resources st' = fst (destroy_window root (st_resources st))"
    "st_shape_windows st' = st_shape_windows st" "st_damage_objects st' = st_damage_objects st"
    by (rule destroy_outcome [OF inv rest_queues [OF assms(2)], of root]) (rule that)
  have "window (st_resources st') root = None"
    unfolding out(2) using destroy_window_correct(6) [OF inv assms(6) w, of _ _ root] below.refl
    by (metis prod.collapse)
  moreover have "handle_destroy_window client sequence body st = Some (st', calls, Handled)"
    by (rule destroy_runs [OF assms(3,4) w out(1)])
  ultimately show ?thesis using out(3,4) assms(7) by simp
qed

theorem destroy_keeps_shape_witness:
  "\<exists>st' calls. handle_destroy_window 1 5 [1, 0, 16, 0] (framed_state\<lparr>st_shape_windows := [(0x100001, shape_default)]\<rparr>) =
       Some (st', calls, Handled) \<and> window (st_resources st') 0x100001 = None \<and>
     hm_get (st_shape_windows st') 0x100001 = Some shape_default"
proof -
  define s where "s = framed_state\<lparr>st_shape_windows := [(0x100001, shape_default)]\<rparr>"
  have res: "st_resources s = framed_table" by (simp add: s_def framed_simps)
  have reach: "windows_reachable (st_resources s)" by (simp add: res framed_reachable)
  have rest: "at_rest s"
    using framed_rest by (simp add: s_def at_rest_def queues_ok_def settled_def device_queues_def device_frozen_def)
  have body: "u32_le_at [1, 0, 16, 0] 0 = 0x100001" by (simp add: u32_le_at_def u32_from_le_bytes_def)
  have "window (st_resources s) 0x100001 \<noteq> None" "0x100001 \<noteq> ROOT_WINDOW"
    by (simp_all add: res framed_window ROOT_WINDOW_def)
  moreover have "hm_get (st_shape_windows s) 0x100001 = Some shape_default" by (simp add: s_def hm_get_Cons)
  ultimately show ?thesis
    using destroy_keeps_shape [OF reach rest _ body, of shape_default 1 5] unfolding s_def [symmetric] by force
qed

end
