(* ===== verification/Drawing.thy ===== *)
theory Drawing
  imports Damage Timers
begin

text \<open>
  The core drawing requests of \<open>crates/xserver-core/src/core_loop/process_request.rs\<close> that draw with a
  graphics context: the checks of the drawable and the context, the calls of the backend in their
  order, the damage. ClearArea is here as well, CopyArea and CopyPlane are in the theory \<open>CopyArea\<close>.

  A call of the backend that fails is a value of the parameter \<open>ok\<close>; the handler then returns the
  error of \<open>io::Result\<close>, here None in place of the outcome, unless the code ignores it.
\<close>

section \<open>The drawable and the context\<close>

datatype DrawableLookup = LookupWindow u8 | LookupInputOnly | LookupPixmap u8 | LookupMissing

definition drawable_lookup :: "ServerState \<Rightarrow> ResourceId \<Rightarrow> DrawableLookup" where
  "drawable_lookup st i =
     (case window (st_resources st) i of
        Some w \<Rightarrow> (case win_class w of InputOnly \<Rightarrow> LookupInputOnly | _ \<Rightarrow> LookupWindow (win_depth w))
      | None \<Rightarrow> (case pixmap (st_resources st) i of Some p \<Rightarrow> LookupPixmap (pm_depth p) | None \<Rightarrow> LookupMissing))"

definition DRAW_BAD_VALUE :: u8 where "DRAW_BAD_VALUE = 2"
definition BAD_DRAWABLE :: u8 where "BAD_DRAWABLE = 9"

text \<open>None is \<open>Ok(())\<close>, otherwise the error code and its value.\<close>

definition validate_drawable_and_gc :: "ServerState \<Rightarrow> ResourceId \<Rightarrow> ResourceId \<Rightarrow> (u8 \<times> u32) option" where
  "validate_drawable_and_gc st drawable gcid =
     (let check = (\<lambda>target_depth.
            (case gc (st_resources st) gcid of
               None \<Rightarrow> Some (BAD_GC, gcid)
             | Some g \<Rightarrow> if gc_depth g \<noteq> 0 \<and> gc_depth g \<noteq> target_depth then Some (BAD_MATCH, 0) else None))
      in case drawable_lookup st drawable of
           LookupWindow d \<Rightarrow> check d
         | LookupPixmap d \<Rightarrow> check d
         | LookupInputOnly \<Rightarrow> Some (BAD_MATCH, 0)
         | LookupMissing \<Rightarrow> Some (BAD_DRAWABLE, drawable))"

definition validate_drawable_only :: "ServerState \<Rightarrow> ResourceId \<Rightarrow> (u8 \<times> u32) option" where
  "validate_drawable_only st drawable =
     (case drawable_lookup st drawable of
        LookupWindow _ \<Rightarrow> None
      | LookupPixmap _ \<Rightarrow> None
      | LookupInputOnly \<Rightarrow> Some (BAD_MATCH, 0)
      | LookupMissing \<Rightarrow> Some (BAD_DRAWABLE, drawable))"

definition validate_gc_only :: "ServerState \<Rightarrow> ResourceId \<Rightarrow> (u8 \<times> u32) option" where
  "validate_gc_only st gcid = (if gc (st_resources st) gcid \<noteq> None then None else Some (BAD_GC, gcid))"

fun target_host_xid :: "HostDrawableTarget \<Rightarrow> u32" where
  "target_host_xid (TargetWindow _ h _) = h"
| "target_host_xid (TargetPixmap _ h _ _ _) = h"

fun target_depth :: "HostDrawableTarget \<Rightarrow> u8" where
  "target_depth (TargetWindow _ _ d) = d"
| "target_depth (TargetPixmap _ _ _ _ d) = d"

definition draw_state_default :: DrawState where
  "draw_state_default = \<lparr>ds_foreground = 0, ds_background = 0x00FFFFFF, ds_line_width = 0,
     ds_line_style = LineStyle_Solid, ds_cap_style = CapStyle_Butt, ds_join_style = JoinStyle_Miter,
     ds_fill_style = FillStyle_Solid, ds_fill_rule = FillRule_EvenOdd, ds_function = GcFunction_Copy,
     ds_plane_mask = 0xFFFFFFFF, ds_font = None, ds_clip = Clip_None, ds_fill = Fill_Solid,
     ds_subwindow_mode = SubwindowMode_ClipByChildren, ds_graphics_exposures = True, ds_dashes = [4, 4],
     ds_dash_offset = 0, ds_arc_mode = ArcMode_PieSlice\<rparr>"

section \<open>The calls of the backend\<close>

datatype DrawCall =
    ApplyClipState ClipState
  | ApplyFillState FillState
  | ApplyDrawState DrawState
  | SetGcFillSolid
  | PolyPoint u32 u32 u8 "u8 list"
  | PolyLine u32 u32 u8 "u8 list"
  | PolySegment u32 u32 "u8 list"
  | PolyRectangle u32 u32 "u8 list"
  | PolyArc u32 u32 "u8 list"
  | FillPoly u32 u32 u8 "u8 list"
  | PolyFillRectangle u32 u32 "u8 list"
  | PolyFillArc u32 u32 "u8 list"
  | ClearAreaCall u32 u32 "u32 option" RegionRect "int \<times> int"
  | CopyAreaCall u32 u32 i16 i16 RegionRect
  | CopyPlaneCall u32 u32 i16 i16 RegionRect u32
  | PaintBackground u32 RegionRect

type_synonym backend = "DrawCall \<Rightarrow> bool"

text \<open>A sequence of calls each followed by \<open>?\<close>: it ends with the first that fails.\<close>

fun run_calls :: "backend \<Rightarrow> DrawCall list \<Rightarrow> DrawCall list \<times> bool" where
  "run_calls ok [] = ([], True)"
| "run_calls ok (c # cs) =
     (if ok c then (case run_calls ok cs of (made, fine) \<Rightarrow> (c # made, fine)) else ([c], False))"

type_synonym draw_result = "ServerState \<times> DrawCall list \<times> RequestOutcome option"

definition draw_answer :: "ServerState \<times> RequestOutcome \<Rightarrow> draw_result" where
  "draw_answer r = (fst r, [], Some (snd r))"

section \<open>Drawing with a context\<close>

text \<open>The common body of the handlers: \<open>must\<close> are the calls whose failure ends the request, \<open>rest\<close> those
  whose result is ignored.\<close>

definition draw_request ::
  "backend \<Rightarrow> ClientId \<Rightarrow> u16 \<Rightarrow> u8 \<Rightarrow> ResourceId \<Rightarrow> ResourceId \<Rightarrow> (DrawState \<Rightarrow> DrawCall list) \<Rightarrow>
    (u32 \<Rightarrow> DrawState \<Rightarrow> DrawCall list) \<Rightarrow> ServerState \<Rightarrow> draw_result" where
  "draw_request ok client_id sequence opcode drawable gcid must rest st =
     (case validate_drawable_and_gc st drawable gcid of
        Some (code, bad_value) \<Rightarrow> draw_answer (emit_x11_error client_id sequence code bad_value opcode st)
      | None \<Rightarrow>
          let damaged = fst (accumulate_damage_full_to_state (st_timestamp st) drawable st)
          in case host_drawable_target (st_resources st) drawable of
               None \<Rightarrow> (damaged, [], Some Handled)
             | Some target \<Rightarrow>
                 let s = unwrap_or (resolve_draw_state (st_resources st) gcid) draw_state_default
                 in case run_calls ok (must s) of
                      (made, True) \<Rightarrow> (damaged, made @ rest (target_host_xid target) s, Some Handled)
                    | (made, False) \<Rightarrow> (st, made, None))"

definition set_up :: "DrawState \<Rightarrow> DrawCall list" where
  "set_up s = [ApplyClipState (ds_clip s), ApplyDrawState s]"

definition set_up_fill :: "DrawState \<Rightarrow> DrawCall list" where
  "set_up_fill s = [ApplyClipState (ds_clip s), ApplyFillState (ds_fill s), ApplyDrawState s]"

definition then_reset :: "DrawState \<Rightarrow> DrawCall \<Rightarrow> DrawCall list" where
  "then_reset s call = call # (if ds_fill s \<noteq> Fill_Solid then [SetGcFillSolid] else [])"

text \<open>The readers of the bodies: the context and the items, which are whole.\<close>

definition items_of :: "nat \<Rightarrow> u8 list \<Rightarrow> (ResourceId \<times> u8 list) option" where
  "items_of n body =
     (if length body < 8 \<or> (length body - 8) mod n \<noteq> 0 then None else Some (u32_le_at body 4, drop 8 body))"

definition poly_line_data :: "u8 list \<Rightarrow> (ResourceId \<times> u8 list) option" where
  "poly_line_data = items_of 4"

definition poly_segment_data :: "u8 list \<Rightarrow> (ResourceId \<times> u8 list) option" where
  "poly_segment_data = items_of 8"

definition poly_fill_rectangle_data :: "u8 list \<Rightarrow> (ResourceId \<times> u8 list) option" where
  "poly_fill_rectangle_data = items_of 8"

definition arc_request_data :: "u8 list \<Rightarrow> (ResourceId \<times> u8 list) option" where
  "arc_request_data = items_of 12"

text \<open>PolyPoint ignores every failure of the backend.\<close>

definition handle_poly_point ::
  "backend \<Rightarrow> ClientId \<Rightarrow> u16 \<Rightarrow> u8 \<Rightarrow> u8 list \<Rightarrow> ServerState \<Rightarrow> draw_result" where
  "handle_poly_point ok client_id sequence data body st =
     (if length body < 8 then (st, [], Some Handled)
      else draw_request ok client_id sequence 64 (u32_le_at body 0) (u32_le_at body 4) (\<lambda>_. [])
             (\<lambda>host s. fst (run_calls ok (set_up s @ [PolyPoint host (ds_foreground s) data (drop 8 body)]))) st)"

text \<open>The others: \<open>mk\<close> is the call that draws.\<close>

definition outline_request ::
  "backend \<Rightarrow> ClientId \<Rightarrow> u16 \<Rightarrow> u8 \<Rightarrow> (ResourceId \<times> u8 list) option \<Rightarrow> (u32 \<Rightarrow> u32 \<Rightarrow> u8 list \<Rightarrow> DrawCall) \<Rightarrow>
    u8 list \<Rightarrow> ServerState \<Rightarrow> draw_result" where
  "outline_request ok client_id sequence opcode data mk body st =
     (case data of
        None \<Rightarrow> (st, [], Some Handled)
      | Some (gcid, items) \<Rightarrow>
          draw_request ok client_id sequence opcode (u32_le_at body 0) gcid set_up
            (\<lambda>host s. [mk host (ds_foreground s) items]) st)"

definition fill_request ::
  "backend \<Rightarrow> ClientId \<Rightarrow> u16 \<Rightarrow> u8 \<Rightarrow> (ResourceId \<times> u8 list) option \<Rightarrow> (u32 \<Rightarrow> u32 \<Rightarrow> u8 list \<Rightarrow> DrawCall) \<Rightarrow>
    u8 list \<Rightarrow> ServerState \<Rightarrow> draw_result" where
  "fill_request ok client_id sequence opcode data mk body st =
     (case data of
        None \<Rightarrow> (st, [], Some Handled)
      | Some (gcid, items) \<Rightarrow>
          draw_request ok client_id sequence opcode (u32_le_at body 0) gcid set_up_fill
            (\<lambda>host s. then_reset s (mk host (ds_foreground s) items)) st)"

definition handle_poly_line ::
  "backend \<Rightarrow> ClientId \<Rightarrow> u16 \<Rightarrow> u8 \<Rightarrow> u8 list \<Rightarrow> ServerState \<Rightarrow> draw_result" where
  "handle_poly_line ok client_id sequence data body st =
     outline_request ok client_id sequence 65 (poly_line_data body) (\<lambda>host fg. PolyLine host fg data) body st"

definition handle_poly_segment :: "backend \<Rightarrow> ClientId \<Rightarrow> u16 \<Rightarrow> u8 list \<Rightarrow> ServerState \<Rightarrow> draw_result" where
  "handle_poly_segment ok client_id sequence body st =
     outline_request ok client_id sequence 66 (poly_segment_data body) PolySegment body st"

definition handle_poly_rectangle :: "backend \<Rightarrow> ClientId \<Rightarrow> u16 \<Rightarrow> u8 list \<Rightarrow> ServerState \<Rightarrow> draw_result" where
  "handle_poly_rectangle ok client_id sequence body st =
     outline_request ok client_id sequence 67 (poly_fill_rectangle_data body) PolyRectangle body st"

definition handle_poly_arc :: "backend \<Rightarrow> ClientId \<Rightarrow> u16 \<Rightarrow> u8 list \<Rightarrow> ServerState \<Rightarrow> draw_result" where
  "handle_poly_arc ok client_id sequence body st =
     outline_request ok client_id sequence 68 (arc_request_data body) PolyArc body st"

definition handle_fill_poly :: "backend \<Rightarrow> ClientId \<Rightarrow> u16 \<Rightarrow> u8 list \<Rightarrow> ServerState \<Rightarrow> draw_result" where
  "handle_fill_poly ok client_id sequence body st =
     fill_request ok client_id sequence 69
       (if length body < 12 then None else Some (u32_le_at body 4, drop 12 body))
       (\<lambda>host fg. FillPoly host fg (body ! 9)) body st"

definition handle_poly_fill_rectangle :: "backend \<Rightarrow> ClientId \<Rightarrow> u16 \<Rightarrow> u8 list \<Rightarrow> ServerState \<Rightarrow> draw_result" where
  "handle_poly_fill_rectangle ok client_id sequence body st =
     fill_request ok client_id sequence 70 (poly_fill_rectangle_data body) PolyFillRectangle body st"

definition handle_poly_fill_arc :: "backend \<Rightarrow> ClientId \<Rightarrow> u16 \<Rightarrow> u8 list \<Rightarrow> ServerState \<Rightarrow> draw_result" where
  "handle_poly_fill_arc ok client_id sequence body st =
     fill_request ok client_id sequence 71 (arc_request_data body) PolyFillArc body st"

section \<open>ClearArea\<close>

text \<open>The recursion ends at a window it has seen; the windows bound it.\<close>

fun resolved_background_within :: "ResourceTable \<Rightarrow> nat \<Rightarrow> ResourceId list \<Rightarrow> ResourceId \<Rightarrow> ResolvedWindowBackground option" where
  "resolved_background_within t 0 seen i = None"
| "resolved_background_within t (Suc n) seen i =
     (if i \<in> set seen then None
      else
        (case window t i of
           None \<Rightarrow> None
         | Some w \<Rightarrow>
             if win_background_pixmap w = Some 1
             then map_option (\<lambda>r. r\<lparr>rbg_tile_origin_offset :=
                      (fst (rbg_tile_origin_offset r) + sint (win_x w), snd (rbg_tile_origin_offset r) + sint (win_y w))\<rparr>)
                    (resolved_background_within t n (i # seen) (win_parent w))
             else if win_background_none w then None
             else Some \<lparr>rbg_background_pixel = win_background_pixel w, rbg_background_pixmap_host_xid = win_background_pixmap_host_xid w,
                    rbg_tile_origin_offset = (0, 0)\<rparr>))"

definition window_resolved_background :: "ResourceTable \<Rightarrow> ResourceId \<Rightarrow> ResolvedWindowBackground option" where
  "window_resolved_background t i = resolved_background_within t (Suc (hm_len (rt_windows t))) [] i"

definition clear_extent :: "u16 \<Rightarrow> i16 \<Rightarrow> u16 \<Rightarrow> u16" where
  "clear_extent requested offset window_extent =
     (if requested \<noteq> 0 then requested
      else if offset \<le>s 0 then window_extent
      else word_of_nat (unat window_extent - unat (ucast offset :: u16)))"

definition encode_expose_event ::
  "u16 \<Rightarrow> ClientByteOrder \<Rightarrow> ResourceId \<Rightarrow> u16 \<Rightarrow> u16 \<Rightarrow> u16 \<Rightarrow> u16 \<Rightarrow> u16 \<Rightarrow> u8 list" where
  "encode_expose_event sequence order w x y width height count =
     [12, 0] @ enc16 order sequence @ enc32 order w @ enc16 order x @ enc16 order y @ enc16 order width @
     enc16 order height @ enc16 order count @ replicate 14 0"

definition clear_window ::
  "backend \<Rightarrow> bool \<Rightarrow> ResourceId \<Rightarrow> RegionRect \<Rightarrow> u32 \<Rightarrow> ServerState \<Rightarrow> draw_result" where
  "clear_window ok exposures w area host st =
     (let expose = (\<lambda>st. if exposures
            then fst (emit_window_event_to_state w 0x00008000 (\<lambda>seq order.
                   encode_expose_event seq order w (ucast (rect_x area)) (ucast (rect_y area))
                     (rect_width area) (rect_height area) 0) st)
            else st)
      in case window_resolved_background (st_resources st) w of
           None \<Rightarrow> (expose st, [], Some Handled)
         | Some bg \<Rightarrow>
             let call = ClearAreaCall host (rbg_background_pixel bg) (rbg_background_pixmap_host_xid bg) area (rbg_tile_origin_offset bg)
             in if ok call
                then (expose (fst (accumulate_damage_to_state (st_timestamp st) w area st)), [call], Some Handled)
                else (st, [call], None))"

definition handle_clear_area ::
  "backend \<Rightarrow> ClientId \<Rightarrow> u16 \<Rightarrow> u8 \<Rightarrow> u8 list \<Rightarrow> ServerState \<Rightarrow> draw_result" where
  "handle_clear_area ok client_id sequence data body st =
     (if length body < 12 then (st, [], Some Handled)
      else
        let w = u32_le_at body 0; area = rect_le_at body 4
        in if data > 1
           then draw_answer (emit_x11_error client_id sequence DRAW_BAD_VALUE (ucast data) 61 st)
           else
             (case window (st_resources st) w of
                None \<Rightarrow> draw_answer (emit_x11_error client_id sequence BAD_WINDOW w 61 st)
              | Some win \<Rightarrow>
                  if win_class win = InputOnly
                  then draw_answer (emit_x11_error client_id sequence BAD_MATCH w 61 st)
                  else
                    (case host_drawable_target (st_resources st) w of
                       None \<Rightarrow> (st, [], Some Handled)
                     | Some target \<Rightarrow>
                         let area = area\<lparr>rect_width := clear_extent (rect_width area) (rect_x area) (win_width win),
                               rect_height := clear_extent (rect_height area) (rect_y area) (win_height win)\<rparr>
                         in if rect_width area = 0 \<or> rect_height area = 0 then (st, [], Some Handled)
                            else clear_window ok (data \<noteq> 0) w area (target_host_xid target) st)))"

end
