(* ===== verification/CopyArea.thy ===== *)
theory CopyArea
  imports Drawing
begin

text \<open>
  CopyArea and CopyPlane (\<open>crates/xserver-core/src/core_loop/process_request.rs\<close>): the part of the
  source that exists, the clip of the destination by the rectangles of the context and by the
  children, and the exposures of the rest. Edges are computed in \<open>i32\<close>, which no sum here leaves, so
  they are of type \<^typ>\<open>int\<close>. A \<open>CopyAreaSubRect\<close> has the four fields of a \<open>RegionRect\<close>.
\<close>

type_synonym CopyAreaSubRect = RegionRect

section \<open>The part of the source that exists\<close>

definition drawable_size :: "ServerState \<Rightarrow> ResourceId \<Rightarrow> (u16 \<times> u16) option" where
  "drawable_size st i =
     (case window (st_resources st) i of
        Some w \<Rightarrow> Some (win_width w, win_height w)
      | None \<Rightarrow> map_option (\<lambda>p. (pm_width p, pm_height p)) (pixmap (st_resources st) i))"

text \<open>\<open>i16::try_from(v)\<close> and \<open>u16::try_from(v)\<close>\<close>

definition try_i16 :: "int \<Rightarrow> i16 option" where
  "try_i16 v = (if - 32768 \<le> v \<and> v \<le> 32767 then Some (word_of_int v) else None)"

definition try_u16 :: "int \<Rightarrow> u16 option" where
  "try_u16 v = (if 0 \<le> v \<and> v \<le> 65535 then Some (word_of_int v) else None)"

text \<open>A rectangle of the source between the given edges, at its place in the destination.\<close>

definition to_dst :: "i16 \<times> i16 \<Rightarrow> i16 \<times> i16 \<Rightarrow> int \<times> int \<times> int \<times> int \<Rightarrow> RegionRect" where
  "to_dst src dst r =
     (case r of
        (x0, y0, x1, y1) \<Rightarrow>
          \<lparr>rect_x = unwrap_or (try_i16 (sint (fst dst) + (x0 - sint (fst src)))) 32767,
           rect_y = unwrap_or (try_i16 (sint (snd dst) + (y0 - sint (snd src)))) 32767,
           rect_width = unwrap_or (try_u16 (x1 - x0)) 0, rect_height = unwrap_or (try_u16 (y1 - y0)) 0\<rparr>)"

definition copy_area_source_split ::
  "ServerState \<Rightarrow> ResourceId \<Rightarrow> i16 \<times> i16 \<Rightarrow> i16 \<times> i16 \<Rightarrow> u16 \<times> u16
    \<Rightarrow> ((i16 \<times> i16) \<times> RegionRect) option \<times> RegionRect list" where
  "copy_area_source_split st src src_xy dst_xy size_wh =
     (case drawable_size st src of
        None \<Rightarrow> (Some (src_xy, \<lparr>rect_x = fst dst_xy, rect_y = snd dst_xy, rect_width = fst size_wh,
                   rect_height = snd size_wh\<rparr>), [])
      | Some (sw, sh) \<Rightarrow>
          let rx0 = sint (fst src_xy); ry0 = sint (snd src_xy);
              rx1 = rx0 + uint (fst size_wh); ry1 = ry0 + uint (snd size_wh);
              ax0 = max rx0 0; ay0 = max ry0 0; ax1 = min rx1 (uint sw); ay1 = min ry1 (uint sh);
              place = to_dst src_xy dst_xy
          in if ax1 \<le> ax0 \<or> ay1 \<le> ay0 then (None, [place (rx0, ry0, rx1, ry1)])
             else
               (Some ((unwrap_or (try_i16 ax0) 0, unwrap_or (try_i16 ay0) 0), place (ax0, ay0, ax1, ay1)),
                (if ay0 > ry0 then [place (rx0, ry0, rx1, ay0)] else []) @
                (if ay1 < ry1 then [place (rx0, ay1, rx1, ry1)] else []) @
                (if ax0 > rx0 then [place (rx0, ay0, ax0, ay1)] else []) @
                (if ax1 < rx1 then [place (ax1, ay0, rx1, ay1)] else [])))"

section \<open>The exposures\<close>

definition encode_graphics_expose_event ::
  "u16 \<Rightarrow> ClientByteOrder \<Rightarrow> ResourceId \<Rightarrow> u16 \<Rightarrow> u16 \<Rightarrow> u16 \<Rightarrow> u16 \<Rightarrow> u16 \<Rightarrow> u16 \<Rightarrow> u8 \<Rightarrow> u8 list" where
  "encode_graphics_expose_event sequence order drawable x y width height minor_opcode count major_opcode =
     [13, 0] @ enc16 order sequence @ enc32 order drawable @ enc16 order x @ enc16 order y @
     enc16 order width @ enc16 order height @ enc16 order minor_opcode @ enc16 order count @ [major_opcode] @
     replicate 11 0"

definition encode_no_exposure_event ::
  "u16 \<Rightarrow> ClientByteOrder \<Rightarrow> ResourceId \<Rightarrow> u16 \<Rightarrow> u8 \<Rightarrow> u8 list" where
  "encode_no_exposure_event sequence order drawable minor_opcode major_opcode =
     [14, 0] @ enc16 order sequence @ enc32 order drawable @ enc16 order minor_opcode @ [major_opcode] @
     replicate 21 0"

text \<open>\<open>u16::try_from(*x).unwrap_or(0)\<close> of a signed coordinate\<close>

definition u16_of_i16 :: "i16 \<Rightarrow> u16" where
  "u16_of_i16 x = unwrap_or (try_u16 (sint x)) 0"

definition exposure_events :: "u16 \<Rightarrow> ClientByteOrder \<Rightarrow> ResourceId \<Rightarrow> RegionRect list \<Rightarrow> u8 \<Rightarrow> u8 list list" where
  "exposure_events seq order dst missing major_opcode =
     (if missing = [] then [encode_no_exposure_event seq order dst 0 major_opcode]
      else
        map (\<lambda>(i, r). encode_graphics_expose_event seq order dst (u16_of_i16 (rect_x r)) (u16_of_i16 (rect_y r))
               (rect_width r) (rect_height r) 0
               (unwrap_or (try_u16 (int (length missing) - 1 - int i)) 0) major_opcode)
          (enumerate 0 missing))"

definition emit_copy_exposures ::
  "ClientId \<Rightarrow> ResourceId \<Rightarrow> RegionRect list \<Rightarrow> u8 \<Rightarrow> ServerState \<Rightarrow> ServerState" where
  "emit_copy_exposures client_id dst missing major_opcode st =
     (case hm_get (st_clients st) client_id of
        None \<Rightarrow> st
      | Some client \<Rightarrow>
          set_client client_id
            (fold (\<lambda>bytes c. fst (write_to_client c client_id bytes))
               (exposure_events (cs_last_sequence client) (cs_byte_order client) dst missing major_opcode) client) st)"

section \<open>The clip of the destination\<close>

definition effective_redirect_mode_for_window :: "ServerState \<Rightarrow> ResourceId \<Rightarrow> CompositeRedirectMode option" where
  "effective_redirect_mode_for_window st w =
     (case hm_get (st_composite_redirects st) (w, False) of
        Some record \<Rightarrow> Some (rr_mode record)
      | None \<Rightarrow>
          Option.bind (window (st_resources st) w)
            (\<lambda>win. map_option rr_mode (hm_get (st_composite_redirects st) (win_parent win, True))))"

definition intersect_sub_rects :: "CopyAreaSubRect \<Rightarrow> CopyAreaSubRect \<Rightarrow> CopyAreaSubRect option" where
  "intersect_sub_rects a b =
     (let ix0 = max (edge_l a) (edge_l b); iy0 = max (edge_t a) (edge_t b);
          ix1 = min (edge_r a) (edge_r b); iy1 = min (edge_b a) (edge_b b)
      in if ix0 \<ge> ix1 \<or> iy0 \<ge> iy1 then None
         else
           (case (try_i16 ix0, try_i16 iy0, try_u16 (ix1 - ix0), try_u16 (iy1 - iy0)) of
              (Some x, Some y, Some w, Some h) \<Rightarrow>
                Some \<lparr>rect_x = x, rect_y = y, rect_width = w, rect_height = h\<rparr>
            | _ \<Rightarrow> None))"

text \<open>\<open>mk\<close>: a strip that no \<open>i16\<close> can name is left out.\<close>

definition strip :: "int \<Rightarrow> int \<Rightarrow> int \<Rightarrow> int \<Rightarrow> CopyAreaSubRect list" where
  "strip x y w h =
     (case (try_i16 x, try_i16 y, try_u16 w, try_u16 h) of
        (Some x, Some y, Some w, Some h) \<Rightarrow> [\<lparr>rect_x = x, rect_y = y, rect_width = w, rect_height = h\<rparr>]
      | _ \<Rightarrow> [])"

definition subtract_sub_rect :: "CopyAreaSubRect \<Rightarrow> CopyAreaSubRect \<Rightarrow> CopyAreaSubRect list" where
  "subtract_sub_rect outer inner =
     (let ox0 = edge_l outer; oy0 = edge_t outer; ox1 = edge_r outer; oy1 = edge_b outer;
          ix0 = max (edge_l inner) ox0; iy0 = max (edge_t inner) oy0;
          ix1 = min (edge_r inner) ox1; iy1 = min (edge_b inner) oy1
      in if ix0 \<ge> ix1 \<or> iy0 \<ge> iy1 then [outer]
         else (if oy0 < iy0 then strip ox0 oy0 (ox1 - ox0) (iy0 - oy0) else []) @
              (if iy1 < oy1 then strip ox0 iy1 (ox1 - ox0) (oy1 - iy1) else []) @
              (if ox0 < ix0 then strip ox0 iy0 (ix0 - ox0) (iy1 - iy0) else []) @
              (if ix1 < ox1 then strip ix1 iy0 (ox1 - ix1) (iy1 - iy0) else []))"

definition gc_clip_rects :: "i16 \<times> i16 \<Rightarrow> ClipRectangles \<Rightarrow> CopyAreaSubRect list" where
  "gc_clip_rects origin rects =
     filter (\<lambda>r. rect_width r > 0 \<and> rect_height r > 0)
       (map (\<lambda>r. r\<lparr>rect_x := saturating_add_i16 (rect_x r) (fst origin),
                  rect_y := saturating_add_i16 (rect_y r) (snd origin)\<rparr>) (parse_rectangles (clip_rectangles rects)))"

definition clip_to :: "ClipState \<Rightarrow> CopyAreaSubRect list \<Rightarrow> CopyAreaSubRect list" where
  "clip_to clip current =
     (case clip of
        Clip_Rectangles origin rects \<Rightarrow>
          concat (map (\<lambda>r. List.map_filter (intersect_sub_rects r) (gc_clip_rects origin rects)) current)
      | _ \<Rightarrow> current)"

definition child_rect :: "ServerState \<Rightarrow> ResourceId \<Rightarrow> CopyAreaSubRect option" where
  "child_rect st cid =
     (case window (st_resources st) cid of
        None \<Rightarrow> None
      | Some c \<Rightarrow>
          if win_class c = InputOutput \<and> win_map_state c = Viewable \<and> win_width c > 0 \<and> win_height c > 0 \<and>
             effective_redirect_mode_for_window st cid \<noteq> Some RedirectManual
          then Some \<lparr>rect_x = win_x c, rect_y = win_y c, rect_width = win_width c, rect_height = win_height c\<rparr>
          else None)"

text \<open>The loop over the children; it returns early when nothing is left.\<close>

fun subtract_children :: "CopyAreaSubRect list \<Rightarrow> CopyAreaSubRect list \<Rightarrow> CopyAreaSubRect list" where
  "subtract_children [] current = current"
| "subtract_children (child # rest) current =
     (let next = concat (map (\<lambda>r. subtract_sub_rect r child) current)
      in if next = [] then [] else subtract_children rest next)"

definition copy_area_effective_dst_rects ::
  "ServerState \<Rightarrow> ResourceId \<Rightarrow> DrawState \<Rightarrow> CopyAreaSubRect \<Rightarrow> CopyAreaSubRect list" where
  "copy_area_effective_dst_rects st dst s area =
     (let current = clip_to (ds_clip s) [area]
      in if current = [] then []
         else
           (case window (st_resources st) dst of
              None \<Rightarrow> current
            | Some w \<Rightarrow>
                if ds_subwindow_mode s \<noteq> SubwindowMode_ClipByChildren then current
                else subtract_children (List.map_filter (child_rect st) (win_children w)) current))"

section \<open>CopyArea\<close>

definition saturating_sub_i16 :: "i16 \<Rightarrow> i16 \<Rightarrow> i16" where
  "saturating_sub_i16 a b = clamp_i16 (sint a - sint b)"

text \<open>The copy of one rectangle: the source moves by as much as the destination.\<close>

definition sub_copy :: "u32 \<Rightarrow> u32 \<Rightarrow> i16 \<times> i16 \<Rightarrow> RegionRect \<Rightarrow> CopyAreaSubRect \<Rightarrow> DrawCall" where
  "sub_copy src_host dst_host src_xy area r =
     CopyAreaCall src_host dst_host
       (saturating_add_i16 (fst src_xy) (saturating_sub_i16 (rect_x r) (rect_x area)))
       (saturating_add_i16 (snd src_xy) (saturating_sub_i16 (rect_y r) (rect_y area))) r"

definition damage_rects :: "ResourceId \<Rightarrow> RegionRect list \<Rightarrow> ServerState \<Rightarrow> ServerState" where
  "damage_rects dst = fold (\<lambda>r st. fst (accumulate_damage_to_state (st_timestamp st) dst r st))"

text \<open>The background of the destination where the source does not exist.\<close>

fun paint_missing ::
  "backend \<Rightarrow> ResourceId \<Rightarrow> u32 \<Rightarrow> RegionRect list \<Rightarrow> ServerState \<Rightarrow> ServerState \<times> DrawCall list \<times> bool" where
  "paint_missing ok dst host [] st = (st, [], True)"
| "paint_missing ok dst host (r # rs) st =
     (if ok (PaintBackground host r)
      then (case paint_missing ok dst host rs (damage_rects dst [r] st) of
              (st', calls, fine) \<Rightarrow> (st', PaintBackground host r # calls, fine))
      else (st, [PaintBackground host r], False))"

definition finish_copy ::
  "backend \<Rightarrow> ClientId \<Rightarrow> ResourceId \<Rightarrow> u32 \<Rightarrow> ResourceId \<Rightarrow> RegionRect list \<Rightarrow> u8 \<Rightarrow> DrawCall list \<Rightarrow> ServerState
    \<Rightarrow> draw_result" where
  "finish_copy ok client_id dst host gcid missing opcode calls st =
     (case (if window (st_resources st) dst \<noteq> None then paint_missing ok dst host missing st else (st, [], True)) of
        (st', painted, True) \<Rightarrow>
          (if map_or False gc_graphics_exposures (gc (st_resources st') gcid)
           then emit_copy_exposures client_id dst missing opcode st' else st', calls @ painted, Some Handled)
      | (st', painted, False) \<Rightarrow> (st', calls @ painted, None))"

definition sub_copies :: "ServerState \<Rightarrow> ResourceId \<Rightarrow> DrawState \<Rightarrow> ((i16 \<times> i16) \<times> RegionRect) option
    \<Rightarrow> CopyAreaSubRect list" where
  "sub_copies st dst s avail =
     (case avail of
        None \<Rightarrow> []
      | Some (_, area) \<Rightarrow>
          if rect_width area = 0 \<or> rect_height area = 0 then [] else copy_area_effective_dst_rects st dst s area)"

definition copy_between ::
  "backend \<Rightarrow> ClientId \<Rightarrow> ResourceId \<Rightarrow> ResourceId \<Rightarrow> ResourceId \<Rightarrow> i16 \<times> i16 \<Rightarrow> RegionRect \<Rightarrow> u32 \<Rightarrow> u32 \<Rightarrow> ServerState
    \<Rightarrow> draw_result" where
  "copy_between ok client_id src dst gcid src_xy area src_host dst_host st =
     (let s = unwrap_or (resolve_draw_state (st_resources st) gcid) draw_state_default;
          (avail, missing) = copy_area_source_split st src src_xy (rect_x area, rect_y area)
             (rect_width area, rect_height area);
          rects = sub_copies st dst s avail;
          copies = (case avail of None \<Rightarrow> [] | Some (xy, a) \<Rightarrow> map (sub_copy src_host dst_host xy a) rects)
      in case run_calls ok (set_up s @ copies) of
           (made, False) \<Rightarrow> (st, made, None)
         | (made, True) \<Rightarrow>
             finish_copy ok client_id dst dst_host gcid missing 62 made (damage_rects dst rects st))"

definition handle_copy_area :: "backend \<Rightarrow> ClientId \<Rightarrow> u16 \<Rightarrow> u8 list \<Rightarrow> ServerState \<Rightarrow> draw_result" where
  "handle_copy_area ok client_id sequence body st =
     (if length body < 24 then (st, [], Some Handled)
      else
        let src = u32_le_at body 0; dst = u32_le_at body 4; gcid = u32_le_at body 8;
            src_xy = (u16_le_at body 12, u16_le_at body 14); area = rect_le_at body 16;
            fail = (\<lambda>(code, bad_value). draw_answer (emit_x11_error client_id sequence code bad_value 62 st))
        in if rect_width area = 0 \<or> rect_height area = 0 then (st, [], Some Handled)
           else
             (case validate_drawable_and_gc st src gcid of
                Some e \<Rightarrow> fail e
              | None \<Rightarrow>
                  (case validate_drawable_and_gc st dst gcid of
                     Some e \<Rightarrow> fail e
                   | None \<Rightarrow>
                       (case (host_drawable_target (st_resources st) src, host_drawable_target (st_resources st) dst) of
                          (Some from, Some to) \<Rightarrow>
                            if target_depth from \<noteq> target_depth to then fail (BAD_MATCH, dst)
                            else copy_between ok client_id src dst gcid src_xy area (target_host_xid from)
                                   (target_host_xid to) st
                        | _ \<Rightarrow> (st, [], Some Handled)))))"

section \<open>CopyPlane\<close>

definition copy_plane_between ::
  "backend \<Rightarrow> ClientId \<Rightarrow> ResourceId \<Rightarrow> ResourceId \<Rightarrow> ResourceId \<Rightarrow> i16 \<times> i16 \<Rightarrow> RegionRect \<Rightarrow> u32 \<Rightarrow> u32 \<Rightarrow> u32
    \<Rightarrow> ServerState \<Rightarrow> draw_result" where
  "copy_plane_between ok client_id src dst gcid src_xy area plane src_host dst_host st =
     (let s = unwrap_or (resolve_draw_state (st_resources st) gcid) draw_state_default;
          (avail, missing) = copy_area_source_split st src src_xy (rect_x area, rect_y area)
             (rect_width area, rect_height area);
          copies = (case avail of None \<Rightarrow> [] | Some (xy, a) \<Rightarrow> [CopyPlaneCall src_host dst_host (fst xy) (snd xy) a plane]);
          rects = (case avail of None \<Rightarrow> [] | Some (_, a) \<Rightarrow> [a])
      in case run_calls ok (set_up s @ copies) of
           (made, False) \<Rightarrow> (st, made, None)
         | (made, True) \<Rightarrow>
             finish_copy ok client_id dst dst_host gcid missing 63 made (damage_rects dst rects st))"

definition handle_copy_plane :: "backend \<Rightarrow> ClientId \<Rightarrow> u16 \<Rightarrow> u8 list \<Rightarrow> ServerState \<Rightarrow> draw_result" where
  "handle_copy_plane ok client_id sequence body st =
     (if length body < 28 then (st, [], Some Handled)
      else
        let src = u32_le_at body 0; dst = u32_le_at body 4; gcid = u32_le_at body 8;
            src_xy = (u16_le_at body 12, u16_le_at body 14); area = rect_le_at body 16; plane = u32_le_at body 24;
            fail = (\<lambda>(code, bad_value). draw_answer (emit_x11_error client_id sequence code bad_value 63 st))
        in if rect_width area = 0 \<or> rect_height area = 0 then (st, [], Some Handled)
           else
             (case validate_drawable_only st src of
                Some e \<Rightarrow> fail e
              | None \<Rightarrow>
                  (case validate_drawable_and_gc st dst gcid of
                     Some e \<Rightarrow> fail e
                   | None \<Rightarrow>
                       (case (host_drawable_target (st_resources st) src, host_drawable_target (st_resources st) dst) of
                          (Some from, Some to) \<Rightarrow>
                            copy_plane_between ok client_id src dst gcid src_xy area plane (target_host_xid from)
                              (target_host_xid to) st
                        | _ \<Rightarrow> (st, [], Some Handled)))))"

end
