(* ===== verification/CopyAreaClaims.thy ===== *)
theory CopyAreaClaims
  imports CopyArea RegionClaims DamageClaims
begin

text \<open>
  CopyArea pixel by pixel: the rectangles copied and those painted with the background are the parts of
  the destination that the protocol names, and every pixel comes from its place in the source.
\<close>

section \<open>Two rectangles\<close>

lemma try_i16_Some: "- 32768 \<le> v \<Longrightarrow> v \<le> 32767 \<Longrightarrow> try_i16 v = Some (clamp_i16 v)"
  by (simp add: try_i16_def clamp_i16_def)

lemma try_u16_Some: "0 \<le> v \<Longrightarrow> v \<le> 65535 \<Longrightarrow> try_u16 v = Some (clamp_u16 v)"
  by (simp add: try_u16_def clamp_u16_def)

lemma rect_size: "edge_r a - edge_l a \<le> 65535" "edge_b a - edge_t a \<le> 65535"
  using u16_range by (auto simp: edge_defs)

text \<open>The intersection never leaves the coordinates, so it is the one of the region algebra.\<close>

lemma intersect_sub_rects_eq: "intersect_sub_rects a b = intersect_rect a b"
proof -
  let ?l = "max (edge_l a) (edge_l b)" and ?t = "max (edge_t a) (edge_t b)"
  let ?r = "min (edge_r a) (edge_r b)" and ?m = "min (edge_b a) (edge_b b)"
  show ?thesis
  proof (cases "?l \<ge> ?r \<or> ?t \<ge> ?m")
    case True
    then show ?thesis unfolding intersect_sub_rects_def intersect_rect_def Let_def by simp
  next
    case False
    have "- 32768 \<le> ?l" "?l \<le> 32767" "- 32768 \<le> ?t" "?t \<le> 32767"
      using edge_bounds [of a] edge_bounds [of b] by auto
    moreover have "0 \<le> ?r - ?l" "?r - ?l \<le> 65535" "0 \<le> ?m - ?t" "?m - ?t \<le> 65535"
      using False rect_size [of a] by linarith+
    ultimately have t: "try_i16 ?l = Some (clamp_i16 ?l)" "try_i16 ?t = Some (clamp_i16 ?t)"
      "try_u16 (?r - ?l) = Some (clamp_u16 (?r - ?l))" "try_u16 (?m - ?t) = Some (clamp_u16 (?m - ?t))"
      by (simp_all only: try_i16_Some try_u16_Some)
    show ?thesis
      using False unfolding intersect_sub_rects_def intersect_rect_def Let_def t mk_rect_def by auto
  qed
qed

lemma strip_covers:
  assumes "- 32768 \<le> x" "x \<le> 32767" "- 32768 \<le> y" "y \<le> 32767" "0 \<le> w" "w \<le> 65535" "0 \<le> h" "h \<le> 65535"
  shows "in_region (strip x y w h) p \<longleftrightarrow> x \<le> fst p \<and> fst p < x + w \<and> y \<le> snd p \<and> snd p < y + h"
    "x + w \<le> 32767 \<Longrightarrow> y + h \<le> 32767 \<Longrightarrow> \<forall>r \<in> set (strip x y w h). fits r"
proof -
  have r: "strip x y w h = [mk_rect x y w h]"
    using assms by (simp add: strip_def try_i16_Some try_u16_Some mk_rect_def)
  have e: "edge_l (mk_rect x y w h) = x" "edge_t (mk_rect x y w h) = y" "edge_r (mk_rect x y w h) = x + w"
    "edge_b (mk_rect x y w h) = y + h"
    using mk_rect_edges [OF assms] by simp_all
  show "in_region (strip x y w h) p \<longleftrightarrow> x \<le> fst p \<and> fst p < x + w \<and> y \<le> snd p \<and> snd p < y + h"
    by (simp add: r covers_def e)
  show "x + w \<le> 32767 \<Longrightarrow> y + h \<le> 32767 \<Longrightarrow> \<forall>r \<in> set (strip x y w h). fits r"
    by (simp add: r fits_def e)
qed

lemma in_region_if: "in_region (if c then rs else []) p \<longleftrightarrow> c \<and> in_region rs p"
  by simp

lemma subtract_sub_rect_exact:
  assumes fits: "fits a"
  shows "in_region (subtract_sub_rect a b) p \<longleftrightarrow> covers a p \<and> \<not> covers b p"
    "\<forall>r \<in> set (subtract_sub_rect a b). fits r"
proof -
  let ?la = "edge_l a" and ?ra = "edge_r a" and ?ta = "edge_t a" and ?ba = "edge_b a"
  define l where "l = max (edge_l b) ?la"
  define t where "t = max (edge_t b) ?ta"
  define r where "r = min (edge_r b) ?ra"
  define m where "m = min (edge_b b) ?ba"
  note defs = l_def t_def r_def m_def
  note bnd = edge_bounds [of a] rect_size [of a]
  have in_b: "covers a p \<Longrightarrow> covers b p \<longleftrightarrow> l \<le> fst p \<and> fst p < r \<and> t \<le> snd p \<and> snd p < m"
    by (auto simp: covers_def defs)
  have "(in_region (subtract_sub_rect a b) p \<longleftrightarrow> covers a p \<and> \<not> covers b p) \<and>
    (\<forall>r \<in> set (subtract_sub_rect a b). fits r)"
  proof (cases "l \<ge> r \<or> t \<ge> m")
    case True
    then have "subtract_sub_rect a b = [a]"
      unfolding subtract_sub_rect_def Let_def defs [symmetric] by simp
    then show ?thesis using True in_b fits by auto
  next
    case False
    have "l < r" "t < m" using False by simp_all
    moreover have "?la \<le> l" "r \<le> ?ra" "?ta \<le> t" "m \<le> ?ba" by (simp_all add: defs)
    ultimately have le: "?la \<le> l" "l < r" "r \<le> ?ra" "?ta \<le> t" "t < m" "m \<le> ?ba" by simp_all
    have f: "?ra \<le> 32767" "?ba \<le> 32767" using fits by (simp_all add: fits_def)
    have sub: "subtract_sub_rect a b =
        (if ?ta < t then strip ?la ?ta (?ra - ?la) (t - ?ta) else []) @
        (if m < ?ba then strip ?la m (?ra - ?la) (?ba - m) else []) @
        (if ?la < l then strip ?la t (l - ?la) (m - t) else []) @
        (if r < ?ra then strip r t (?ra - r) (m - t) else [])"
      using False unfolding subtract_sub_rect_def Let_def defs [symmetric] by simp
    have s1: "in_region (strip ?la ?ta (?ra - ?la) (t - ?ta)) p \<longleftrightarrow>
        ?la \<le> fst p \<and> fst p < ?ra \<and> ?ta \<le> snd p \<and> snd p < t"
      "\<forall>r \<in> set (strip ?la ?ta (?ra - ?la) (t - ?ta)). fits r"
      using strip_covers(1) [of ?la ?ta "?ra - ?la" "t - ?ta" p] strip_covers(2) [of ?la ?ta "?ra - ?la" "t - ?ta"] bnd le f by simp_all
    have s2: "in_region (strip ?la m (?ra - ?la) (?ba - m)) p \<longleftrightarrow>
        ?la \<le> fst p \<and> fst p < ?ra \<and> m \<le> snd p \<and> snd p < ?ba"
      "\<forall>r \<in> set (strip ?la m (?ra - ?la) (?ba - m)). fits r"
      using strip_covers(1) [of ?la m "?ra - ?la" "?ba - m" p] strip_covers(2) [of ?la m "?ra - ?la" "?ba - m"] bnd le f by simp_all
    have s3: "in_region (strip ?la t (l - ?la) (m - t)) p \<longleftrightarrow>
        ?la \<le> fst p \<and> fst p < l \<and> t \<le> snd p \<and> snd p < m"
      "\<forall>r \<in> set (strip ?la t (l - ?la) (m - t)). fits r"
      using strip_covers(1) [of ?la t "l - ?la" "m - t" p] strip_covers(2) [of ?la t "l - ?la" "m - t"] bnd le f by simp_all
    have s4: "in_region (strip r t (?ra - r) (m - t)) p \<longleftrightarrow>
        r \<le> fst p \<and> fst p < ?ra \<and> t \<le> snd p \<and> snd p < m"
      "\<forall>r \<in> set (strip r t (?ra - r) (m - t)). fits r"
      using strip_covers(1) [of r t "?ra - r" "m - t" p] strip_covers(2) [of r t "?ra - r" "m - t"] bnd le f by simp_all
    have "in_region (subtract_sub_rect a b) p \<longleftrightarrow>
        covers a p \<and> \<not> (l \<le> fst p \<and> fst p < r \<and> t \<le> snd p \<and> snd p < m)"
      unfolding sub in_region_simps(3) in_region_if s1(1) s2(1) s3(1) s4(1) covers_def
      by (rule four_strips [OF le])
    moreover have "\<forall>r \<in> set (subtract_sub_rect a b). fits r"
      unfolding sub using s1(2) s2(2) s3(2) s4(2) by auto
    ultimately show ?thesis using in_b by blast
  qed
  then show "in_region (subtract_sub_rect a b) p \<longleftrightarrow> covers a p \<and> \<not> covers b p"
    "\<forall>r \<in> set (subtract_sub_rect a b). fits r" by blast+
qed

section \<open>The clip\<close>

lemma subtract_children_exact:
  assumes "\<forall>r \<in> set current. fits r"
  shows "in_region (subtract_children cs current) p \<longleftrightarrow> in_region current p \<and> \<not> in_region cs p"
  using assms
proof (induction cs arbitrary: current)
  case (Cons c cs)
  have one: "(in_region (concat (map (\<lambda>r. subtract_sub_rect r c) rs)) p \<longleftrightarrow> in_region rs p \<and> \<not> covers c p) \<and>
      (\<forall>r \<in> set (concat (map (\<lambda>r. subtract_sub_rect r c) rs)). fits r)"
    if "\<forall>r \<in> set rs. fits r" for rs
    using that
  proof (induction rs)
    case (Cons q qs)
    then show ?case using subtract_sub_rect_exact(1) [of q c p] subtract_sub_rect_exact(2) [of q c] by auto
  qed simp
  note now = one [OF Cons.prems]
  show ?case
  proof (cases "concat (map (\<lambda>r. subtract_sub_rect r c) current) = []")
    case True
    have "subtract_children (c # cs) current = []" by (simp add: Let_def True del: concat_eq_Nil_conv)
    moreover have "in_region current p \<longrightarrow> covers c p" using now unfolding True by auto
    ultimately show ?thesis by auto
  next
    case False
    then show ?thesis using now Cons.IH [OF now [THEN conjunct2]] by (auto simp: Let_def)
  qed
qed simp

text \<open>The pixels that the clip of the context allows.\<close>

definition clip_allows :: "ClipState \<Rightarrow> int \<times> int \<Rightarrow> bool" where
  "clip_allows clip p \<longleftrightarrow>
     (case clip of Clip_Rectangles origin rects \<Rightarrow> in_region (gc_clip_rects origin rects) p | _ \<Rightarrow> True)"

lemma clip_to_exact:
  assumes "fits a"
  shows "in_region (clip_to clip [a]) p \<longleftrightarrow> covers a p \<and> clip_allows clip p" "\<forall>r \<in> set (clip_to clip [a]). fits r"
proof -
  have meet: "in_region (List.map_filter (intersect_sub_rects a) cs) p \<longleftrightarrow> covers a p \<and> in_region cs p" for cs
  proof (induction cs)
    case (Cons c cs)
    then show ?case
      using intersect_rect_option [where a = a and b = c and p = p]
      by (cases "intersect_rect a c") (auto simp: map_filter_simps intersect_sub_rects_eq)
  qed (simp add: map_filter_simps)
  show "in_region (clip_to clip [a]) p \<longleftrightarrow> covers a p \<and> clip_allows clip p"
    by (cases clip) (simp_all add: clip_to_def clip_allows_def meet)
  show "\<forall>r \<in> set (clip_to clip [a]). fits r"
    using assms intersect_rect_fits
    by (cases clip) (auto simp: clip_to_def intersect_sub_rects_eq set_map_filter)
qed

text \<open>The children that are in the way.\<close>

definition child_covers :: "ServerState \<Rightarrow> ResourceId \<Rightarrow> DrawState \<Rightarrow> int \<times> int \<Rightarrow> bool" where
  "child_covers st dst s p \<longleftrightarrow> ds_subwindow_mode s = SubwindowMode_ClipByChildren \<and>
     in_region (List.map_filter (child_rect st) (children (st_resources st) dst)) p"

lemma effective_rects_exact:
  assumes "fits a"
  shows "in_region (copy_area_effective_dst_rects st dst s a) p \<longleftrightarrow>
    covers a p \<and> clip_allows (ds_clip s) p \<and> \<not> child_covers st dst s p"
proof (cases "window (st_resources st) dst")
  case None
  then show ?thesis
    using clip_to_exact(1) [OF assms, of "ds_clip s" p]
    by (auto simp: copy_area_effective_dst_rects_def Let_def child_covers_def children_def map_filter_simps)
next
  case (Some w)
  have cs: "children (st_resources st) dst = win_children w" using Some by (simp add: children_def)
  show ?thesis
    using clip_to_exact(1) [OF assms, of "ds_clip s" p]
      subtract_children_exact [OF clip_to_exact(2) [OF assms, of "ds_clip s"], of "List.map_filter (child_rect st) (win_children w)" p]
    by (auto simp: copy_area_effective_dst_rects_def Let_def child_covers_def cs Some)
qed

section \<open>The source\<close>

text \<open>The pixel of the source that belongs to a pixel of the destination exists.\<close>

definition source_has :: "u16 \<times> u16 \<Rightarrow> i16 \<times> i16 \<Rightarrow> i16 \<times> i16 \<Rightarrow> int \<times> int \<Rightarrow> bool" where
  "source_has wh src dst p \<longleftrightarrow>
     (let x = sint (fst src) + (fst p - sint (fst dst)); y = sint (snd src) + (snd p - sint (snd dst))
      in 0 \<le> x \<and> x < uint (fst wh) \<and> 0 \<le> y \<and> y < uint (snd wh))"

text \<open>A piece of the source inside the request lands at its place.\<close>

lemma to_dst_edges:
  fixes area :: RegionRect and src :: "i16 \<times> i16"
  defines "dst \<equiv> (rect_x area, rect_y area)"
  assumes fits: "fits area" and x: "sint (fst src) \<le> x0" "x0 < x1" "x1 \<le> sint (fst src) + uint (rect_width area)"
    and y: "sint (snd src) \<le> y0" "y0 < y1" "y1 \<le> sint (snd src) + uint (rect_height area)"
  shows "edge_l (to_dst src dst (x0, y0, x1, y1)) = edge_l area + (x0 - sint (fst src))"
    "edge_r (to_dst src dst (x0, y0, x1, y1)) = edge_l area + (x1 - sint (fst src))"
    "edge_t (to_dst src dst (x0, y0, x1, y1)) = edge_t area + (y0 - sint (snd src))"
    "edge_b (to_dst src dst (x0, y0, x1, y1)) = edge_t area + (y1 - sint (snd src))"
proof -
  note bnd = edge_bounds [of area]
  have f: "edge_l area + uint (rect_width area) \<le> 32767" "edge_t area + uint (rect_height area) \<le> 32767"
    using fits by (simp_all add: fits_def edge_defs)
  have wh: "uint (rect_width area) \<le> 65535" "uint (rect_height area) \<le> 65535" using u16_range by blast+
  have l: "sint (rect_x area) = edge_l area" "sint (rect_y area) = edge_t area" by (simp_all add: edge_defs)
  have "try_i16 (edge_l area + (x0 - sint (fst src))) = Some (clamp_i16 (edge_l area + (x0 - sint (fst src))))"
    "sint (clamp_i16 (edge_l area + (x0 - sint (fst src)))) = edge_l area + (x0 - sint (fst src))"
    using bnd f x by (intro try_i16_Some sint_clamp; linarith)+
  moreover have "try_i16 (edge_t area + (y0 - sint (snd src))) = Some (clamp_i16 (edge_t area + (y0 - sint (snd src))))"
    "sint (clamp_i16 (edge_t area + (y0 - sint (snd src)))) = edge_t area + (y0 - sint (snd src))"
    using bnd f y by (intro try_i16_Some sint_clamp; linarith)+
  moreover have "try_u16 (x1 - x0) = Some (clamp_u16 (x1 - x0))" "uint (clamp_u16 (x1 - x0)) = x1 - x0"
    using x wh by (intro try_u16_Some uint_clamp; linarith)+
  moreover have "try_u16 (y1 - y0) = Some (clamp_u16 (y1 - y0))" "uint (clamp_u16 (y1 - y0)) = y1 - y0"
    using y wh by (intro try_u16_Some uint_clamp; linarith)+
  ultimately show "edge_l (to_dst src dst (x0, y0, x1, y1)) = edge_l area + (x0 - sint (fst src))"
    "edge_r (to_dst src dst (x0, y0, x1, y1)) = edge_l area + (x1 - sint (fst src))"
    "edge_t (to_dst src dst (x0, y0, x1, y1)) = edge_t area + (y0 - sint (snd src))"
    "edge_b (to_dst src dst (x0, y0, x1, y1)) = edge_t area + (y1 - sint (snd src))"
    unfolding to_dst_def dst_def by (simp_all add: l) (simp_all add: edge_defs)
qed

lemma to_dst_covers:
  fixes area :: RegionRect and src :: "i16 \<times> i16"
  defines "dst \<equiv> (rect_x area, rect_y area)"
  assumes fits: "fits area" and x: "sint (fst src) \<le> x0" "x0 < x1" "x1 \<le> sint (fst src) + uint (rect_width area)"
    and y: "sint (snd src) \<le> y0" "y0 < y1" "y1 \<le> sint (snd src) + uint (rect_height area)"
  shows "covers (to_dst src dst (x0, y0, x1, y1)) p \<longleftrightarrow>
      x0 \<le> sint (fst src) + (fst p - edge_l area) \<and> sint (fst src) + (fst p - edge_l area) < x1 \<and>
      y0 \<le> sint (snd src) + (snd p - edge_t area) \<and> sint (snd src) + (snd p - edge_t area) < y1"
  unfolding covers_def dst_def to_dst_edges [OF fits x y] by auto

lemma source_split_exact:
  fixes area :: RegionRect and src_xy :: "i16 \<times> i16"
  defines "dst \<equiv> (rect_x area, rect_y area)"
  assumes fits: "fits area" and wh: "drawable_size st src = Some wh"
    and full: "rect_width area \<noteq> 0" "rect_height area \<noteq> 0"
    and split: "copy_area_source_split st src src_xy dst (rect_width area, rect_height area) = (avail, missing)"
  shows "in_region missing p \<longleftrightarrow> covers area p \<and> \<not> source_has wh src_xy dst p"
    "(\<exists>xy a. avail = Some (xy, a) \<and> covers a p) \<longleftrightarrow> covers area p \<and> source_has wh src_xy dst p"
    "avail = Some (xy, a) \<Longrightarrow> fits a \<and> sint (fst xy) = sint (fst src_xy) + (edge_l a - edge_l area) \<and>
       sint (snd xy) = sint (snd src_xy) + (edge_t a - edge_t area) \<and> edge_l area \<le> edge_l a \<and> edge_t area \<le> edge_t a \<and>
       edge_r a \<le> edge_r area \<and> edge_b a \<le> edge_b area \<and> edge_l a < edge_r a \<and> edge_t a < edge_b a \<and>
       sint (fst xy) + (edge_r a - edge_l a) \<le> uint (fst wh) \<and> sint (snd xy) + (edge_b a - edge_t a) \<le> uint (snd wh) \<and>
       0 \<le> sint (fst xy) \<and> 0 \<le> sint (snd xy)"
proof -
  define rx0 where "rx0 = sint (fst src_xy)"
  define ry0 where "ry0 = sint (snd src_xy)"
  define rx1 where "rx1 = rx0 + uint (rect_width area)"
  define ry1 where "ry1 = ry0 + uint (rect_height area)"
  define ax0 where "ax0 = max rx0 0"
  define ay0 where "ay0 = max ry0 0"
  define ax1 where "ax1 = min rx1 (uint (fst wh))"
  define ay1 where "ay1 = min ry1 (uint (snd wh))"
  note defs = rx0_def ry0_def rx1_def ry1_def ax0_def ay0_def ax1_def ay1_def
  define X where "X = rx0 + (fst p - edge_l area)"
  define Y where "Y = ry0 + (snd p - edge_t area)"
  have pos: "uint (rect_width area) > 0" "uint (rect_height area) > 0"
    using full by (simp_all add: word_neq_0_conv [symmetric] uint_0_iff order_less_le)
  have in_area: "covers area p \<longleftrightarrow> (rx0 \<le> X \<and> X < rx1 \<and> ry0 \<le> Y \<and> Y < ry1)"
    unfolding covers_def X_def Y_def rx1_def ry1_def by (auto simp: edge_defs)
  have has: "source_has wh src_xy dst p \<longleftrightarrow> 0 \<le> X \<and> X < uint (fst wh) \<and> 0 \<le> Y \<and> Y < uint (snd wh)"
    by (simp add: source_has_def Let_def dst_def X_def Y_def rx0_def ry0_def edge_defs)
  have piece: "covers (to_dst src_xy dst (x0, y0, x1, y1)) p \<longleftrightarrow> x0 \<le> X \<and> X < x1 \<and> y0 \<le> Y \<and> Y < y1"
    if "rx0 \<le> x0" "x0 < x1" "x1 \<le> rx1" "ry0 \<le> y0" "y0 < y1" "y1 \<le> ry1" for x0 y0 x1 y1
    using to_dst_covers [OF fits, of src_xy x0 x1 y0 y1 p] that by (simp add: dst_def defs X_def Y_def)
  have run: "copy_area_source_split st src src_xy dst (rect_width area, rect_height area) =
     (if ax1 \<le> ax0 \<or> ay1 \<le> ay0 then (None, [to_dst src_xy dst (rx0, ry0, rx1, ry1)])
      else (Some ((unwrap_or (try_i16 ax0) 0, unwrap_or (try_i16 ay0) 0), to_dst src_xy dst (ax0, ay0, ax1, ay1)),
        (if ry0 < ay0 then [to_dst src_xy dst (rx0, ry0, rx1, ay0)] else []) @
        (if ay1 < ry1 then [to_dst src_xy dst (rx0, ay1, rx1, ry1)] else []) @
        (if rx0 < ax0 then [to_dst src_xy dst (rx0, ay0, ax0, ay1)] else []) @
        (if ax1 < rx1 then [to_dst src_xy dst (ax1, ay0, rx1, ay1)] else [])))"
    unfolding copy_area_source_split_def wh option.case case_prod_beta fst_conv snd_conv Let_def
      rx0_def [symmetric] ry0_def [symmetric] rx1_def [symmetric] ry1_def [symmetric] ax0_def [symmetric]
      ay0_def [symmetric] ax1_def [symmetric] ay1_def [symmetric] ..
  have area: "rx0 < rx1" "ry0 < ry1" using pos by (simp_all add: rx1_def ry1_def)
  show "in_region missing p \<longleftrightarrow> covers area p \<and> \<not> source_has wh src_xy dst p"
    "(\<exists>xy a. avail = Some (xy, a) \<and> covers a p) \<longleftrightarrow> covers area p \<and> source_has wh src_xy dst p"
    "avail = Some (xy, a) \<Longrightarrow> fits a \<and> sint (fst xy) = sint (fst src_xy) + (edge_l a - edge_l area) \<and>
       sint (snd xy) = sint (snd src_xy) + (edge_t a - edge_t area) \<and> edge_l area \<le> edge_l a \<and> edge_t area \<le> edge_t a \<and>
       edge_r a \<le> edge_r area \<and> edge_b a \<le> edge_b area \<and> edge_l a < edge_r a \<and> edge_t a < edge_b a \<and>
       sint (fst xy) + (edge_r a - edge_l a) \<le> uint (fst wh) \<and> sint (snd xy) + (edge_b a - edge_t a) \<le> uint (snd wh) \<and>
       0 \<le> sint (fst xy) \<and> 0 \<le> sint (snd xy)"
  proof -
    consider (out) "ax1 \<le> ax0 \<or> ay1 \<le> ay0" | (inside) "ax0 < ax1" "ay0 < ay1" by linarith
    then have "(in_region missing p \<longleftrightarrow> covers area p \<and> \<not> source_has wh src_xy dst p) \<and>
      ((\<exists>xy a. avail = Some (xy, a) \<and> covers a p) \<longleftrightarrow> covers area p \<and> source_has wh src_xy dst p)"
    proof cases
      case out
      then have r: "avail = None" "missing = [to_dst src_xy dst (rx0, ry0, rx1, ry1)]"
        using split run by simp_all
      have "\<not> source_has wh src_xy dst p" if "covers area p"
        using that out unfolding has in_area ax0_def ax1_def ay0_def ay1_def by linarith
      then show ?thesis using piece [of rx0 rx1 ry0 ry1] area in_area by (auto simp: r)
    next
      case inside
      have le: "rx0 \<le> ax0" "ax0 < ax1" "ax1 \<le> rx1" "ry0 \<le> ay0" "ay0 < ay1" "ay1 \<le> ry1"
        using inside by (simp_all add: ax0_def ax1_def ay0_def ay1_def)
      have r: "avail = Some ((unwrap_or (try_i16 ax0) 0, unwrap_or (try_i16 ay0) 0), to_dst src_xy dst (ax0, ay0, ax1, ay1))"
        "missing = (if ry0 < ay0 then [to_dst src_xy dst (rx0, ry0, rx1, ay0)] else []) @
        (if ay1 < ry1 then [to_dst src_xy dst (rx0, ay1, rx1, ry1)] else []) @
        (if rx0 < ax0 then [to_dst src_xy dst (rx0, ay0, ax0, ay1)] else []) @
        (if ax1 < rx1 then [to_dst src_xy dst (ax1, ay0, rx1, ay1)] else [])"
        using split run inside by simp_all
      have in_avail: "ax0 \<le> X \<and> X < ax1 \<and> ay0 \<le> Y \<and> Y < ay1 \<longleftrightarrow> covers area p \<and> source_has wh src_xy dst p"
        unfolding has in_area ax0_def ax1_def ay0_def ay1_def by auto
      have p1: "ry0 < ay0 \<and> covers (to_dst src_xy dst (rx0, ry0, rx1, ay0)) p \<longleftrightarrow>
          ry0 < ay0 \<and> rx0 \<le> X \<and> X < rx1 \<and> ry0 \<le> Y \<and> Y < ay0"
        using piece [of rx0 rx1 ry0 ay0] le by (auto simp: area)
      have p2: "ay1 < ry1 \<and> covers (to_dst src_xy dst (rx0, ay1, rx1, ry1)) p \<longleftrightarrow>
          ay1 < ry1 \<and> rx0 \<le> X \<and> X < rx1 \<and> ay1 \<le> Y \<and> Y < ry1"
        using piece [of rx0 rx1 ay1 ry1] le by (auto simp: area)
      have p3: "rx0 < ax0 \<and> covers (to_dst src_xy dst (rx0, ay0, ax0, ay1)) p \<longleftrightarrow>
          rx0 < ax0 \<and> rx0 \<le> X \<and> X < ax0 \<and> ay0 \<le> Y \<and> Y < ay1"
        using piece [of rx0 ax0 ay0 ay1] le by auto
      have p4: "ax1 < rx1 \<and> covers (to_dst src_xy dst (ax1, ay0, rx1, ay1)) p \<longleftrightarrow>
          ax1 < rx1 \<and> ax1 \<le> X \<and> X < rx1 \<and> ay0 \<le> Y \<and> Y < ay1"
        using piece [of ax1 rx1 ay0 ay1] le by auto
      have one: "in_region [q] p \<longleftrightarrow> covers q p" for q by simp
      have "in_region missing p \<longleftrightarrow> (rx0 \<le> X \<and> X < rx1 \<and> ry0 \<le> Y \<and> Y < ry1) \<and>
          \<not> (ax0 \<le> X \<and> X < ax1 \<and> ay0 \<le> Y \<and> Y < ay1)"
        unfolding r(2) in_region_simps(3) in_region_if one p1 p2 p3 p4 by (rule four_strips [OF le])
      then have "in_region missing p \<longleftrightarrow> covers area p \<and> \<not> source_has wh src_xy dst p"
        using in_avail in_area by blast
      moreover have "(\<exists>xy a. avail = Some (xy, a) \<and> covers a p) \<longleftrightarrow> covers area p \<and> source_has wh src_xy dst p"
        unfolding in_avail [symmetric] r(1) using piece [OF le] by simp
      ultimately show ?thesis by blast
    qed
    then show "in_region missing p \<longleftrightarrow> covers area p \<and> \<not> source_has wh src_xy dst p"
      "(\<exists>xy a. avail = Some (xy, a) \<and> covers a p) \<longleftrightarrow> covers area p \<and> source_has wh src_xy dst p" by blast+
    assume some: "avail = Some (xy, a)"
    then have inside: "ax0 < ax1" "ay0 < ay1" using split run by (auto split: if_splits)
    have le: "rx0 \<le> ax0" "ax0 < ax1" "ax1 \<le> rx1" "ry0 \<le> ay0" "ay0 < ay1" "ay1 \<le> ry1"
      using inside by (simp_all add: ax0_def ax1_def ay0_def ay1_def)
    have a: "a = to_dst src_xy dst (ax0, ay0, ax1, ay1)" "xy = (unwrap_or (try_i16 ax0) 0, unwrap_or (try_i16 ay0) 0)"
      using some split run inside by simp_all
    have "- 32768 \<le> ax0" "ax0 \<le> 32767" "- 32768 \<le> ay0" "ay0 \<le> 32767"
      using i16_range [of "fst src_xy"] i16_range [of "snd src_xy"] by (simp_all add: ax0_def ay0_def rx0_def ry0_def)
    then have xy: "sint (fst xy) = ax0" "sint (snd xy) = ay0"
      by (simp_all add: a(2) try_i16_Some sint_clamp)
    have bounds: "ax1 \<le> uint (fst wh)" "ay1 \<le> uint (snd wh)" "0 \<le> ax0" "0 \<le> ay0"
      by (simp_all add: ax1_def ay1_def ax0_def ay0_def)
    have e: "edge_l a = edge_l area + (ax0 - rx0)" "edge_r a = edge_l area + (ax1 - rx0)"
      "edge_t a = edge_t area + (ay0 - ry0)" "edge_b a = edge_t area + (ay1 - ry0)"
      unfolding a(1) dst_def rx0_def ry0_def
      by (rule to_dst_edges [OF fits le [unfolded rx1_def ry1_def rx0_def ry0_def]])+
    have ar: "edge_r area = edge_l area + (rx1 - rx0)" "edge_b area = edge_t area + (ry1 - ry0)"
      by (simp_all add: edge_defs rx1_def ry1_def)
    show "fits a \<and> sint (fst xy) = sint (fst src_xy) + (edge_l a - edge_l area) \<and>
       sint (snd xy) = sint (snd src_xy) + (edge_t a - edge_t area) \<and> edge_l area \<le> edge_l a \<and> edge_t area \<le> edge_t a \<and>
       edge_r a \<le> edge_r area \<and> edge_b a \<le> edge_b area \<and> edge_l a < edge_r a \<and> edge_t a < edge_b a \<and>
       sint (fst xy) + (edge_r a - edge_l a) \<le> uint (fst wh) \<and> sint (snd xy) + (edge_b a - edge_t a) \<le> uint (snd wh) \<and>
       0 \<le> sint (fst xy) \<and> 0 \<le> sint (snd xy)"
      using fits e ar xy le bounds unfolding fits_def rx0_def [symmetric] ry0_def [symmetric]
      by (intro conjI) linarith+
  qed
qed

section \<open>No empty copies\<close>

definition solid :: "RegionRect \<Rightarrow> bool" where
  "solid r \<longleftrightarrow> edge_l r < edge_r r \<and> edge_t r < edge_b r"

lemma solid_strip:
  assumes "0 < w" "0 < h" "r \<in> set (strip x y w h)"
  shows "solid r"
proof -
  obtain x' y' w' h' where r: "r = \<lparr>rect_x = x', rect_y = y', rect_width = w', rect_height = h'\<rparr>"
    "try_u16 w = Some w'" "try_u16 h = Some h'"
    using assms(3) by (auto simp: strip_def split: option.splits)
  have "uint w' = w" "uint h' = h"
    using r(2,3) by (auto simp: try_u16_def unsigned_of_int take_bit_int_eq_self split: if_splits)
  then show ?thesis using assms(1,2) by (simp add: solid_def r(1) edge_defs)
qed

lemma solid_subtract:
  assumes "solid a" and q: "q \<in> set (subtract_sub_rect a b)"
  shows "solid q"
proof -
  define l where "l = max (edge_l b) (edge_l a)"
  define t where "t = max (edge_t b) (edge_t a)"
  define r where "r = min (edge_r b) (edge_r a)"
  define m where "m = min (edge_b b) (edge_b a)"
  have a: "edge_l a < edge_r a" "edge_t a < edge_b a" using assms(1) by (simp_all add: solid_def)
  consider "q = a" | "r > l" "m > t" "edge_t a < t" "q \<in> set (strip (edge_l a) (edge_t a) (edge_r a - edge_l a) (t - edge_t a))"
    | "r > l" "m > t" "m < edge_b a" "q \<in> set (strip (edge_l a) m (edge_r a - edge_l a) (edge_b a - m))"
    | "r > l" "m > t" "edge_l a < l" "q \<in> set (strip (edge_l a) t (l - edge_l a) (m - t))"
    | "r > l" "m > t" "r < edge_r a" "q \<in> set (strip r t (edge_r a - r) (m - t))"
    using q unfolding subtract_sub_rect_def Let_def l_def [symmetric] t_def [symmetric] r_def [symmetric]
      m_def [symmetric] by (auto split: if_splits)
  then show ?thesis
  proof cases
    case 1
    then show ?thesis using assms(1) by simp
  next
    case 2
    then show ?thesis using a by (intro solid_strip [OF _ _ 2(4)]) simp_all
  next
    case 3
    then show ?thesis using a by (intro solid_strip [OF _ _ 3(4)]) simp_all
  next
    case 4
    then show ?thesis using a by (intro solid_strip [OF _ _ 4(4)]) simp_all
  next
    case 5
    then show ?thesis using a by (intro solid_strip [OF _ _ 5(4)]) simp_all
  qed
qed

lemma solid_children: "\<forall>r \<in> set rs. solid r \<Longrightarrow> \<forall>r \<in> set (subtract_children cs rs). solid r"
proof (induction cs arbitrary: rs)
  case (Cons c cs)
  have "\<forall>r \<in> set (concat (map (\<lambda>r. subtract_sub_rect r c) rs)). solid r"
    using Cons.prems solid_subtract by fastforce
  from Cons.IH [OF this] show ?case by (simp add: Let_def)
qed simp

lemma solid_effective:
  assumes "solid a" and r: "r \<in> set (copy_area_effective_dst_rects st dst s a)"
  shows "solid r"
proof -
  have "\<forall>r \<in> set (clip_to (ds_clip s) [a]). solid r"
    using assms(1) intersect_rect_Some(5,6)
    by (cases "ds_clip s") (auto simp: clip_to_def intersect_sub_rects_eq set_map_filter solid_def)
  from solid_children [OF this] this show ?thesis
    using r by (auto simp: copy_area_effective_dst_rects_def Let_def split: if_splits option.splits)
qed

text \<open>A rectangle of the copy lies inside the part of the source that exists.\<close>

lemma effective_within:
  assumes "fits a" and "solid a" and "r \<in> set (copy_area_effective_dst_rects st dst s a)"
  shows "edge_l a \<le> edge_l r" "edge_l r < edge_r a" "edge_t a \<le> edge_t r" "edge_t r < edge_b a"
proof -
  have "covers r (edge_l r, edge_t r)" using solid_effective [OF assms(2,3)] by (simp add: solid_def covers_def)
  then have "in_region (copy_area_effective_dst_rects st dst s a) (edge_l r, edge_t r)"
    using assms(3) by (auto simp: in_region_def list_ex_iff)
  then have "covers a (edge_l r, edge_t r)" using effective_rects_exact [OF assms(1)] by blast
  then show "edge_l a \<le> edge_l r" "edge_l r < edge_r a" "edge_t a \<le> edge_t r" "edge_t r < edge_b a"
    by (simp_all add: covers_def)
qed

section \<open>The request\<close>

text \<open>The pixels that the calls copy, those they paint, and that every pixel comes from its place.\<close>

definition copied :: "DrawCall list \<Rightarrow> int \<times> int \<Rightarrow> bool" where
  "copied calls p \<longleftrightarrow> list_ex (\<lambda>c. case c of CopyAreaCall _ _ _ _ r \<Rightarrow> covers r p | _ \<Rightarrow> False) calls"

definition painted :: "DrawCall list \<Rightarrow> int \<times> int \<Rightarrow> bool" where
  "painted calls p \<longleftrightarrow> list_ex (\<lambda>c. case c of PaintBackground _ r \<Rightarrow> covers r p | _ \<Rightarrow> False) calls"

definition copies_in_place :: "i16 \<times> i16 \<Rightarrow> RegionRect \<Rightarrow> DrawCall list \<Rightarrow> bool" where
  "copies_in_place src area calls \<longleftrightarrow> list_all (\<lambda>c. case c of
     CopyAreaCall _ _ sx sy r \<Rightarrow> sint sx - edge_l r = sint (fst src) - edge_l area \<and>
       sint sy - edge_t r = sint (snd src) - edge_t area
   | _ \<Rightarrow> True) calls"

lemma accumulate_resources: "st_resources (fst (accumulate_damage_to_state ts d r st)) = st_resources st"
proof -
  have levels: "st_resources (fst (fold add_level ls s)) = st_resources (fst s)" for ls s
    by (induction ls arbitrary: s) (auto simp: add_level_def split: prod.splits)
  have sends: "st_resources (fst (send_notifies ts ns x)) = st_resources (fst x)" for ns x
    using send_notifies_tables [of ts ns "fst x" "snd x" "fst (send_notifies ts ns x)" "snd (send_notifies ts ns x)"]
    by simp
  show ?thesis
    by (simp add: accumulate_damage_to_state_def Let_def case_prod_beta sends ancestor_walk_levels levels)
qed

lemma damage_rects_resources [simp]: "st_resources (damage_rects dst rs st) = st_resources st"
  unfolding damage_rects_def by (induction rs arbitrary: st) (simp_all add: accumulate_resources)

lemma run_all: "run_calls (\<lambda>_. True) cs = (cs, True)"
  by (induction cs) simp_all

lemma paint_all: "\<exists>st'. paint_missing (\<lambda>_. True) dst host rs st = (st', map (PaintBackground host) rs, True)"
proof (induction rs arbitrary: st)
  case (Cons r rs)
  obtain st' where "paint_missing (\<lambda>_. True) dst host rs (damage_rects dst [r] st) = (st', map (PaintBackground host) rs, True)"
    using Cons.IH by blast
  then show ?case by simp
qed simp

lemma finish_all:
  "\<exists>st'. finish_copy (\<lambda>_. True) client dst host gcid missing opcode calls st =
    (st', calls @ (if window (st_resources st) dst = None then [] else map (PaintBackground host) missing), Some Handled)"
  using paint_all [of dst host missing st] by (auto simp: finish_copy_def)

lemma call_groups:
  "copied (cs @ ds) p \<longleftrightarrow> copied cs p \<or> copied ds p" "painted (cs @ ds) p \<longleftrightarrow> painted cs p \<or> painted ds p"
  "copies_in_place src area (cs @ ds) \<longleftrightarrow> copies_in_place src area cs \<and> copies_in_place src area ds"
  "\<not> copied [] p" "\<not> painted [] p" "copies_in_place src area []"
  "\<not> copied (set_up s) p" "\<not> painted (set_up s) p" "copies_in_place src area (set_up s)"
  "\<not> copied (map (PaintBackground host) rs) p" "copies_in_place src area (map (PaintBackground host) rs)"
  "\<not> painted (map (sub_copy sh dh xy a) as) p"
  by (auto simp: copied_def painted_def copies_in_place_def set_up_def sub_copy_def list_ex_iff list_all_iff)

lemma sub_copy_in_place:
  assumes "fits a" and "solid a" and r: "r \<in> set (copy_area_effective_dst_rects st dst s a)"
    and xy: "0 \<le> sint (fst xy)" "0 \<le> sint (snd xy)" "sint (fst xy) + (edge_r a - edge_l a) \<le> 32768"
      "sint (snd xy) + (edge_b a - edge_t a) \<le> 32768"
    and place: "sint (fst xy) = sint (fst src) + (edge_l a - edge_l area)"
      "sint (snd xy) = sint (snd src) + (edge_t a - edge_t area)"
  shows "copies_in_place src area [sub_copy sh dh xy a r]"
proof -
  note w = effective_within [OF assms(1-3)]
  have e: "sint (rect_x r) = edge_l r" "sint (rect_y r) = edge_t r" "sint (rect_x a) = edge_l a" "sint (rect_y a) = edge_t a"
    by (simp_all add: edge_defs)
  have dx: "sint (saturating_sub_i16 (rect_x r) (rect_x a)) = edge_l r - edge_l a"
    unfolding saturating_sub_i16_def e using w xy by (intro sint_clamp) linarith+
  have dy: "sint (saturating_sub_i16 (rect_y r) (rect_y a)) = edge_t r - edge_t a"
    unfolding saturating_sub_i16_def e using w xy by (intro sint_clamp) linarith+
  have sx: "sint (saturating_add_i16 (fst xy) (saturating_sub_i16 (rect_x r) (rect_x a))) = sint (fst xy) + (edge_l r - edge_l a)"
    unfolding saturating_add_i16_def dx using w xy by (intro sint_clamp) linarith+
  have sy: "sint (saturating_add_i16 (snd xy) (saturating_sub_i16 (rect_y r) (rect_y a))) = sint (snd xy) + (edge_t r - edge_t a)"
    unfolding saturating_add_i16_def dy using w xy by (intro sint_clamp) linarith+
  show ?thesis using place by (simp add: copies_in_place_def sub_copy_def sx sy)
qed

section \<open>Properties\<close>


text \<open>
  A four by two rectangle is asked for from a two by two pixmap into a window.
\<close>

definition copy_window :: Window where
  "copy_window = (window_placeholder 0x100001)\<lparr>win_width := 10, win_height := 10, win_host_xid := Some 7\<rparr>"

definition copy_pixmap :: Pixmap where
  "copy_pixmap = \<lparr>pm_id = 0x100002, pm_drawable = 0x100001, pm_width = 2, pm_height = 2, pm_depth = 24,
     pm_owner = 1, pm_host_xid = Some 8\<rparr>"

definition copy_state :: ServerState where
  "copy_state = server_new\<lparr>st_resources := default_table
     \<lparr>rt_windows := [(0x100001, copy_window)], rt_pixmaps := [(0x100002, copy_pixmap)],
      rt_gcs := [(0x100003, (Gc_with_defaults 0x100003 0x100001 1)\<lparr>gc_depth := 24\<rparr>)]\<rparr>\<rparr>"

definition copy_body :: "u8 list" where
  "copy_body = [2, 0, 16, 0,  1, 0, 16, 0,  3, 0, 16, 0,  0, 0, 0, 0,  1, 0, 1, 0,  4, 0, 2, 0]"

lemma copy_state_tables:
  "window (st_resources copy_state) k = (if k = 0x100001 then Some copy_window else None)"
  "pixmap (st_resources copy_state) k = (if k = 0x100002 then Some copy_pixmap else None)"
  "gc (st_resources copy_state) k = (if k = 0x100003 then Some ((Gc_with_defaults 0x100003 0x100001 1)\<lparr>gc_depth := 24\<rparr>) else None)"
  by (simp_all add: copy_state_def window_def pixmap_def gc_def hm_get_Cons)

lemma copy_body_fields:
  "24 \<le> length copy_body" "u32_le_at copy_body 0 = 0x100002" "u32_le_at copy_body 4 = 0x100001"
  "u32_le_at copy_body 8 = 0x100003" "(u16_le_at copy_body 12, u16_le_at copy_body 14) = (0, 0)"
  "rect_le_at copy_body 16 = \<lparr>rect_x = 1, rect_y = 1, rect_width = 4, rect_height = 2\<rparr>"
  unfolding copy_body_def u32_le_at_def u16_le_at_def rect_le_at_def by code_simp+

lemma copy_checks:
  "validate_drawable_and_gc copy_state 0x100002 0x100003 = None"
  "validate_drawable_and_gc copy_state 0x100001 0x100003 = None"
  "host_drawable_target (st_resources copy_state) 0x100002 = Some (TargetPixmap 0x100002 8 2 2 24)"
  "host_drawable_target (st_resources copy_state) 0x100001 = Some (TargetWindow 0x100001 7 24)"
  "drawable_size copy_state 0x100002 = Some (2, 2)"
  by (simp_all add: validate_drawable_and_gc_def drawable_lookup_def host_drawable_target_def drawable_size_def
      copy_state_tables copy_window_def copy_pixmap_def window_placeholder_def)


end
