(* ===== verification/MapRequests.thy ===== *)
theory MapRequests
  imports Disconnect CopyArea
begin

text \<open>
  MapWindow, MapSubwindows, UnmapWindow, UnmapSubwindows and CirculateWindow of
  \<open>crates/xserver-core/src/core_loop/process_request.rs\<close>: the redirection to a window manager, the change
  of the table, the calls of the backend, the events and the damage, and the backing pixmaps
  that COMPOSITE gives to the children of a redirected window.

  The backend is the parameter \<open>env\<close>: whether it redirects at all, its root window, and what it answers to the
  calls whose failure the code reads, after the calls made so far in the request. The failures of
  the other calls are only logged.
\<close>

section \<open>The calls of the backend\<close>

datatype WindowCall =
    HostCall HostCall
  | MapSubwindow u32
  | UnmapSubwindow u32
  | ConfigureSubwindow u32 ConfigureWindowRequest "u32 option"
  | ReparentSubwindow u32 u32 i16 i16
  | RegisterSubwindow ResourceId u32
  | RegisterTopLevel ResourceId u32
  | BecameTopLevel u32
  | AllocateBacking u32 u16 u16 u8
  | RetainBacking u32
  | DropBacking u32
  | CopyBacking u32 u32 u16 u16
  | BackingParticipation u32 bool

record redirect_backend =
  supports_redirect_activation :: bool
  backend_window_id :: u32
  allocate_redirected_backing :: "WindowCall list \<Rightarrow> u32 \<Rightarrow> u16 \<Rightarrow> u16 \<Rightarrow> u8 \<Rightarrow> u32 option"
  reparent_subwindow_ok :: "WindowCall list \<Rightarrow> u32 \<Rightarrow> u32 \<Rightarrow> bool"
  register_top_level_ok :: "WindowCall list \<Rightarrow> bool"

type_synonym window_state = "ServerState \<times> WindowCall list"

definition also_call :: "WindowCall list \<Rightarrow> window_state \<Rightarrow> window_state" where
  "also_call cs s = (fst s, snd s @ cs)"

definition scene_participation :: "u32 \<Rightarrow> bool \<Rightarrow> WindowCall" where
  "scene_participation host on = HostCall (CallSceneParticipation host on)"

section \<open>Backing pixmaps\<close>

definition set_backing :: "ResourceId \<Rightarrow> RedirectedBacking option \<Rightarrow> ServerState \<Rightarrow> ServerState" where
  "set_backing w b st =
     st\<lparr>st_resources := modify_window w (\<lambda>win. win\<lparr>win_redirected_backing := b\<rparr>) (st_resources st)\<rparr>"

definition activate_redirect_backing_for ::
  "redirect_backend \<Rightarrow> ResourceId \<Rightarrow> CompositeRedirectMode \<Rightarrow> window_state \<Rightarrow> window_state" where
  "activate_redirect_backing_for env w mode s =
     (if w = COMPOSITE_OVERLAY_WINDOW then s
      else
        (case window (st_resources (fst s)) w of
           None \<Rightarrow> s
         | Some win \<Rightarrow>
             if win_redirected_backing win \<noteq> None then s
             else
               (case win_host_xid win of
                  None \<Rightarrow> s
                | Some host \<Rightarrow>
                    let s1 = also_call [AllocateBacking host (win_width win) (win_height win) (win_depth win)] s
                    in case allocate_redirected_backing env (snd s) host (win_width win) (win_height win)
                             (win_depth win) of
                         None \<Rightarrow> s1
                       | Some p \<Rightarrow>
                           also_call [scene_participation host (mode = RedirectAutomatic), BackingParticipation p True]
                             (set_backing w (Some \<lparr>rb_host_pixmap = p, rb_width = win_width win,
                                rb_height = win_height win, rb_depth = win_depth win\<rparr>) (fst s1), snd s1))))"

definition maybe_activate_child_under_redirected_parent ::
  "redirect_backend \<Rightarrow> ResourceId \<Rightarrow> window_state \<Rightarrow> window_state" where
  "maybe_activate_child_under_redirected_parent env child s =
     (if \<not> supports_redirect_activation env then s
      else
        (case window (st_resources (fst s)) child of
           None \<Rightarrow> s
         | Some w \<Rightarrow>
             if win_redirected_backing w \<noteq> None then s
             else
               (case hm_get (st_composite_redirects (fst s)) (win_parent w, True) of
                  None \<Rightarrow> s
                | Some record \<Rightarrow> activate_redirect_backing_for env child (rr_mode record) s)))"

definition reapply_redirect_mode_after_map :: "ResourceId \<Rightarrow> window_state \<Rightarrow> window_state" where
  "reapply_redirect_mode_after_map w s =
     (case effective_redirect_mode_for_window (fst s) w of
        None \<Rightarrow> s
      | Some mode \<Rightarrow>
          (case Option.bind (window (st_resources (fst s)) w) win_host_xid of
             None \<Rightarrow> s
           | Some host \<Rightarrow> also_call [scene_participation host (mode = RedirectAutomatic)] s))"

section \<open>Events\<close>

definition encode_visibility_notify_event :: "u16 \<Rightarrow> ClientByteOrder \<Rightarrow> ResourceId \<Rightarrow> u8 \<Rightarrow> u8 list" where
  "encode_visibility_notify_event sequence order w state =
     [15, 0] @ enc16 order sequence @ enc32 order w @ [state] @ replicate 23 0"

definition encode_map_notify_event ::
  "u16 \<Rightarrow> ClientByteOrder \<Rightarrow> ResourceId \<Rightarrow> ResourceId \<Rightarrow> bool \<Rightarrow> u8 list" where
  "encode_map_notify_event sequence order event_window w override_redirect =
     [19, 0] @ enc16 order sequence @ enc32 order event_window @ enc32 order w @ [of_bool override_redirect] @
     replicate 19 0"

definition encode_map_request_event :: "u16 \<Rightarrow> ClientByteOrder \<Rightarrow> ResourceId \<Rightarrow> ResourceId \<Rightarrow> u8 list" where
  "encode_map_request_event sequence order parent w =
     [20, 0] @ enc16 order sequence @ enc32 order parent @ enc32 order w @ replicate 20 0"

definition circulate_event :: "u8 \<Rightarrow> u16 \<Rightarrow> ClientByteOrder \<Rightarrow> ResourceId \<Rightarrow> ResourceId \<Rightarrow> u8 \<Rightarrow> u8 list" where
  "circulate_event code sequence order first_window w place =
     [code, 0] @ enc16 order sequence @ enc32 order first_window @ enc32 order w @ replicate 4 0 @ [place] @
     replicate 15 0"

definition write_circulate_notify_event ::
  "u16 \<Rightarrow> ClientByteOrder \<Rightarrow> ResourceId \<Rightarrow> ResourceId \<Rightarrow> u8 \<Rightarrow> u8 list" where
  "write_circulate_notify_event = circulate_event 26"

definition write_circulate_request_event ::
  "u16 \<Rightarrow> ClientByteOrder \<Rightarrow> ResourceId \<Rightarrow> ResourceId \<Rightarrow> u8 \<Rightarrow> u8 list" where
  "write_circulate_request_event = circulate_event 27"

definition EXPOSURE_MASK_BIT :: u32 where "EXPOSURE_MASK_BIT = 0x8000"
definition VISIBILITY_MASK_BIT :: u32 where "VISIBILITY_MASK_BIT = 0x10000"

definition emit :: "ResourceId \<Rightarrow> u32 \<Rightarrow> (u16 \<Rightarrow> ClientByteOrder \<Rightarrow> u8 list) \<Rightarrow> ServerState \<Rightarrow> ServerState" where
  "emit w bits encode st = fst (emit_window_event_to_state w bits encode st)"

text \<open>
  The viewable windows below a window, in the order of the recursions over them. No event
  changes the table, so that the recursion may be done first; it is no deeper than the table is long.
\<close>

fun viewable_below_within :: "ResourceTable \<Rightarrow> nat \<Rightarrow> ResourceId \<Rightarrow> ResourceId list" where
  "viewable_below_within t 0 root = []"
| "viewable_below_within t (Suc n) root =
     concat (map (\<lambda>c. if map_or False (\<lambda>w. win_map_state w = Viewable) (window t c)
                      then c # viewable_below_within t n c else []) (children t root))"

definition viewable_below :: "ResourceTable \<Rightarrow> ResourceId \<Rightarrow> ResourceId list" where
  "viewable_below t root = viewable_below_within t (Suc (hm_len (rt_windows t))) root"

definition expose_window :: "ResourceId \<Rightarrow> ServerState \<Rightarrow> ServerState" where
  "expose_window w st =
     (case window (st_resources st) w of
        None \<Rightarrow> st
      | Some win \<Rightarrow>
          emit w EXPOSURE_MASK_BIT
            (\<lambda>seq order. encode_expose_event seq order w 0 0 (win_width win) (win_height win) 0) st)"

definition unobscured_window :: "ResourceId \<Rightarrow> ServerState \<Rightarrow> ServerState" where
  "unobscured_window w st =
     emit w VISIBILITY_MASK_BIT (\<lambda>seq order. encode_visibility_notify_event seq order w 0) st"

definition emit_expose_subtree_to_state :: "ResourceId \<Rightarrow> ServerState \<Rightarrow> ServerState" where
  "emit_expose_subtree_to_state root st = fold expose_window (viewable_below (st_resources st) root) st"

definition emit_visibility_unobscured_subtree_to_state :: "ResourceId \<Rightarrow> ServerState \<Rightarrow> ServerState" where
  "emit_visibility_unobscured_subtree_to_state root st =
     fold unobscured_window (viewable_below (st_resources st) root) st"

definition damage_window :: "ResourceId \<Rightarrow> ServerState \<Rightarrow> ServerState" where
  "damage_window w st = fst (accumulate_damage_full_to_state (st_timestamp st) w st)"

definition accumulate_damage_viewable_descendants_to_state :: "ResourceId \<Rightarrow> ServerState \<Rightarrow> ServerState" where
  "accumulate_damage_viewable_descendants_to_state root st =
     fold damage_window (viewable_below (st_resources st) root) st"

section \<open>MapWindow\<close>

definition SUBSTRUCTURE_REDIRECT :: u32 where "SUBSTRUCTURE_REDIRECT = 0x100000"

text \<open>The clients that a request is redirected to.\<close>

definition redirect_targets :: "ServerState \<Rightarrow> ClientId \<Rightarrow> ResourceId \<Rightarrow> bool \<Rightarrow> ClientId list" where
  "redirect_targets st client_id parent override_redirect =
     (if override_redirect then []
      else if map_or False (\<lambda>c. event_mask_of c parent AND SUBSTRUCTURE_REDIRECT \<noteq> 0) (hm_get (st_clients st) client_id)
      then [] else subscribers_by_id st parent SUBSTRUCTURE_REDIRECT)"

definition map_notifies :: "ResourceId \<Rightarrow> ResourceId \<Rightarrow> bool \<Rightarrow> ServerState \<Rightarrow> ServerState" where
  "map_notifies w parent override_redirect st =
     emit parent 0x80000 (\<lambda>seq order. encode_map_notify_event seq order parent w override_redirect)
       (emit w 0x20000 (\<lambda>seq order. encode_map_notify_event seq order w w override_redirect) st)"

definition announce_viewable :: "ResourceId \<Rightarrow> ServerState \<Rightarrow> ServerState" where
  "announce_viewable w st =
     (if map_or False (\<lambda>win. win_map_state win = Viewable) (window (st_resources st) w)
      then emit_expose_subtree_to_state w
             (expose_window w (emit_visibility_unobscured_subtree_to_state w (unobscured_window w st)))
      else st)"

definition map_on_host :: "redirect_backend \<Rightarrow> ResourceId \<Rightarrow> window_state \<Rightarrow> window_state" where
  "map_on_host env w s =
     (case Option.bind (window (st_resources (fst s)) w) win_host_xid of
        None \<Rightarrow> s
      | Some host \<Rightarrow>
          reapply_redirect_mode_after_map w
            (maybe_activate_child_under_redirected_parent env w (also_call [MapSubwindow host] s)))"

definition has_host_window :: "ServerState \<Rightarrow> ResourceId \<Rightarrow> bool" where
  "has_host_window st w = (Option.bind (window (st_resources st) w) win_host_xid \<noteq> None)"

definition map_now :: "redirect_backend \<Rightarrow> ResourceId \<Rightarrow> ServerState \<Rightarrow> window_state option" where
  "map_now env w st =
     (case map_window w (st_resources st) of
        None \<Rightarrow> None
      | Some (t, _) \<Rightarrow>
          let s = map_on_host env w (st\<lparr>st_resources := t\<rparr>, []);
              st = (case window t w of
                      None \<Rightarrow> fst s
                    | Some win \<Rightarrow> announce_viewable w
                        (map_notifies w (win_parent win) (win_override_redirect win) (fst s)));
              st = (if has_host_window st w
                    then accumulate_damage_viewable_descendants_to_state w (damage_window w st) else st)
          in Some (st, snd s))"

type_synonym window_result = "(ServerState \<times> WindowCall list \<times> RequestOutcome) option"

definition no_calls :: "ServerState \<times> RequestOutcome \<Rightarrow> window_result" where
  "no_calls r = Some (fst r, [], snd r)"

definition map_handled :: "window_state option \<Rightarrow> window_result" where
  "map_handled r = map_option (\<lambda>s. (fst s, snd s, Handled)) r"

definition handle_map_window ::
  "redirect_backend \<Rightarrow> ClientId \<Rightarrow> u16 \<Rightarrow> u8 list \<Rightarrow> ServerState \<Rightarrow> window_result" where
  "handle_map_window env client_id sequence body st =
     (if length body < 4 then no_calls (st, Handled)
      else
        let w = u32_le_at body 0
        in case window (st_resources st) w of
             None \<Rightarrow> no_calls (emit_x11_error client_id sequence BAD_WINDOW w 8 st)
           | Some win \<Rightarrow>
               if win_map_state win \<noteq> Unmapped then no_calls (st, Handled)
               else
                 let targets = redirect_targets st client_id (win_parent win) (win_override_redirect win)
                 in if targets \<noteq> []
                    then no_calls (fst (fanout_event_to_clients targets
                           (\<lambda>seq order. encode_map_request_event seq order (win_parent win) w) st), Handled)
                    else map_handled (map_now env w st))"

section \<open>MapSubwindows\<close>

definition map_child :: "redirect_backend \<Rightarrow> ResourceId \<Rightarrow> ResourceId \<Rightarrow> window_state \<Rightarrow> window_state option" where
  "map_child env parent child s =
     (case map_window child (st_resources (fst s)) of
        None \<Rightarrow> None
      | Some (t, was_unmapped) \<Rightarrow>
          let s = map_on_host env child ((fst s)\<lparr>st_resources := t\<rparr>, snd s);
              st = (if has_host_window (fst s) child then damage_window child (fst s) else fst s);
              st = (if was_unmapped
                    then map_notifies child parent (map_or False win_override_redirect (window t child)) st else st);
              st = (if was_unmapped \<and> map_or False (\<lambda>w. win_map_state w = Viewable) (window t child)
                    then expose_window child st else st)
          in Some (st, snd s))"

fun map_children :: "redirect_backend \<Rightarrow> ResourceId \<Rightarrow> ResourceId list \<Rightarrow> window_state \<Rightarrow> window_state option" where
  "map_children env parent [] s = Some s"
| "map_children env parent (c # cs) s = Option.bind (map_child env parent c s) (map_children env parent cs)"

definition handle_map_subwindows ::
  "redirect_backend \<Rightarrow> ClientId \<Rightarrow> u16 \<Rightarrow> u8 list \<Rightarrow> ServerState \<Rightarrow> window_result" where
  "handle_map_subwindows env client_id sequence body st =
     (if length body < 4 then no_calls (st, Handled)
      else
        let parent = u32_le_at body 0
        in if window (st_resources st) parent = None
           then no_calls (emit_x11_error client_id sequence BAD_WINDOW parent 9 st)
           else map_handled (map_children env parent (children (st_resources st) parent) (st, [])))"

section \<open>UnmapWindow and UnmapSubwindows\<close>

definition unmap_notifies :: "ResourceId \<Rightarrow> ResourceId \<Rightarrow> ServerState \<Rightarrow> ServerState" where
  "unmap_notifies w parent st =
     emit parent 0x80000 (\<lambda>seq order. encode_unmap_notify_event seq order parent w False)
       (emit w 0x20000 (\<lambda>seq order. encode_unmap_notify_event seq order w w False) st)"

definition release_device_grabs_for_unviewable :: "ServerState \<Rightarrow> ServerState option" where
  "release_device_grabs_for_unviewable st =
     for_devices (\<lambda>d st. xi1_thaw_device d (st\<lparr>st_xi1_active_grabs := hm_remove d (st_xi1_active_grabs st)\<rparr>))
       (map fst (filter (\<lambda>(_, g). map_or True (\<lambda>w. win_map_state w \<noteq> Viewable) (window (st_resources st) (xa_window g)))
          (st_xi1_active_grabs st))) st"

definition revert_focus_and_grabs :: "ServerState \<Rightarrow> ServerState option" where
  "revert_focus_and_grabs st =
     release_core_grabs_for_unviewable (revert_core_focus_if_unviewable (revert_unviewable_focus st))"

definition handle_unmap_window :: "ClientId \<Rightarrow> u16 \<Rightarrow> u8 list \<Rightarrow> ServerState \<Rightarrow> window_result" where
  "handle_unmap_window client_id sequence body st =
     (if length body < 4 then no_calls (st, Handled)
      else
        let w = u32_le_at body 0
        in case window (st_resources st) w of
             None \<Rightarrow> no_calls (emit_x11_error client_id sequence BAD_WINDOW w 10 st)
           | Some win \<Rightarrow>
               let (t, was_mapped) = unmap_window w (st_resources st);
                   calls = (case win_host_xid win of None \<Rightarrow> [] | Some host \<Rightarrow> [UnmapSubwindow host]);
                   st = st\<lparr>st_resources := t\<rparr>
               in if \<not> was_mapped then Some (st, calls, Handled)
                  else map_option (\<lambda>st. (st, calls, Handled))
                    (Option.bind (release_device_grabs_for_unviewable st)
                       (\<lambda>st. revert_focus_and_grabs (unmap_notifies w (win_parent win) st))))"

text \<open>The children are unmapped in the table first, then each is announced.\<close>

fun unmap_pending :: "ResourceId list \<Rightarrow> ResourceTable \<Rightarrow> ResourceTable \<times> (ResourceId \<times> u32 option) list" where
  "unmap_pending [] t = (t, [])"
| "unmap_pending (c # cs) t =
     (let host = Option.bind (window t c) win_host_xid; (t1, was_mapped) = unmap_window c t;
          (t2, pending) = unmap_pending cs t1
      in (t2, (if was_mapped then [(c, host)] else []) @ pending))"

definition handle_unmap_subwindows :: "ClientId \<Rightarrow> u16 \<Rightarrow> u8 list \<Rightarrow> ServerState \<Rightarrow> window_result" where
  "handle_unmap_subwindows client_id sequence body st =
     (if length body < 4 then no_calls (st, Handled)
      else
        let parent = u32_le_at body 0
        in case mapped_children_bottom_to_top (st_resources st) parent of
             None \<Rightarrow> no_calls (emit_x11_error client_id sequence BAD_WINDOW parent 11 st)
           | Some kids \<Rightarrow>
               let (t, pending) = unmap_pending kids (st_resources st);
                   st = fold (\<lambda>(c, _). unmap_notifies c parent) pending (st\<lparr>st_resources := t\<rparr>);
                   calls = map UnmapSubwindow (List.map_filter snd pending)
               in map_option (\<lambda>st. (st, calls, Handled)) (revert_focus_and_grabs st))"

section \<open>CirculateWindow\<close>

definition circulate_choice :: "ResourceId list \<Rightarrow> u8 \<Rightarrow> ResourceId option" where
  "circulate_choice kids direction =
     (if kids = [] then None else if direction = 0 then Some (last kids)
      else if direction = 1 then Some (hd kids) else None)"

definition circulate_targets :: "ServerState \<Rightarrow> ResourceId \<Rightarrow> ResourceId \<Rightarrow> ClientId list" where
  "circulate_targets st child container =
     (let on_child = subscribers_by_id st child 0x20000
      in on_child @ filter (\<lambda>c. c \<notin> set on_child) (subscribers_by_id st container 0x80000))"

definition handle_circulate_window :: "ClientId \<Rightarrow> u16 \<Rightarrow> u8 \<Rightarrow> u8 list \<Rightarrow> ServerState \<Rightarrow> ServerState \<times> RequestOutcome" where
  "handle_circulate_window client_id sequence direction body st =
     (if length body < 4 then (st, Handled)
      else
        let container = u32_le_at body 0
        in if window (st_resources st) container = None
           then emit_x11_error client_id sequence BAD_WINDOW container 13 st
           else
             (case circulate_choice (children (st_resources st) container) direction of
                None \<Rightarrow> (st, Handled)
              | Some child \<Rightarrow>
                  (case subscribers_by_id st container SUBSTRUCTURE_REDIRECT of
                     target # _ \<Rightarrow>
                       (fst (fanout_event_to_clients [target]
                          (\<lambda>seq order. write_circulate_request_event seq order container child direction) st), Handled)
                   | [] \<Rightarrow>
                       let st = st\<lparr>st_resources := fst (circulate_window container direction (st_resources st))\<rparr>
                       in (fst (fanout_event_to_clients (circulate_targets st child container)
                             (\<lambda>seq order. write_circulate_notify_event seq order child child direction) st), Handled))))"

end
