(* ===== verification/MapClaims.thy ===== *)
theory MapClaims
  imports MapRequests DisconnectClaims CopyAreaClaims
begin

text \<open>
  What MapWindow, MapSubwindows and CirculateWindow do: the redirection to a window manager, the
  windows that become viewable and the windows that are told so.
\<close>

section \<open>The viewable windows below a window\<close>

lemma below_same_dist:
  "below par root a x \<Longrightarrow> below par root b x \<Longrightarrow> root_dist par root a m \<Longrightarrow> root_dist par root b m \<Longrightarrow>
    root_dist par root x n \<Longrightarrow> a = b"
proof (induction arbitrary: n rule: below.induct)
  case refl
  then show ?case by (metis below_dist root_dist_unique less_irrefl)
next
  case (step x p)
  show ?case
  proof (cases "b = x")
    case True
    have "below par root a x" using step.hyps by (blast intro: below.step)
    then have "a = x"
      using step.prems True below_dist [of par root a x m] root_dist_unique by (metis less_irrefl)
    then show ?thesis using True by simp
  next
    case False
    then have "below par root b p" using step.prems(1) step.hyps by (auto elim: belowE)
    moreover obtain k where "root_dist par root p k"
      using step.prems(4) step.hyps by (auto elim: root_dist.cases)
    ultimately show ?thesis using step.IH step.prems by blast
  qed
qed

lemma viewable_up:
  assumes tree: "tree_inv t" and view: "view_inv t" and k: "viewable t k" and a: "descends t a k"
  shows "viewable t a"
proof -
  have "window t k \<noteq> None" using k by (auto simp: viewable_def split: option.splits)
  then have up: "\<forall>b. descends t b k \<longrightarrow> mapped t b" using viewable_iff_ancestors_mapped [OF tree view] k by blast
  have "window t a \<noteq> None" using up a by (auto simp: mapped_def split: option.splits)
  moreover have "mapped t b" if "descends t b a" for b using up below_trans [OF a that] by blast
  ultimately show ?thesis using viewable_iff_ancestors_mapped [OF tree view] by blast
qed

lemma below_window_within:
  assumes tree: "tree_inv t" and view: "view_inv t"
  shows "root_dist (parent_of t) ROOT_WINDOW i d \<Longrightarrow> hm_len (rt_windows t) < n + d \<Longrightarrow>
    set (viewable_below_within t n i) = {k. k \<noteq> i \<and> descends t i k \<and> viewable t k} \<and>
    distinct (viewable_below_within t n i)"
proof (induction n arbitrary: i d)
  case 0
  then show ?case using dist_table_bound [OF tree 0(1)] by simp
next
  case (Suc n)
  let ?kids = "children t i"
  let ?f = "\<lambda>c. if viewable t c then c # viewable_below_within t n c else []"
  have kid: "c \<noteq> ROOT_WINDOW \<and> parent_of t c = Some i" if "c \<in> set ?kids" for c
    using that by (simp add: tree_children_iff [OF tree])
  have dist: "root_dist (parent_of t) ROOT_WINDOW c (Suc d)" if "c \<in> set ?kids" for c
    using kid [OF that] Suc.prems(1) by (auto intro: root_dist.step)
  have IH: "set (viewable_below_within t n c) = {k. k \<noteq> c \<and> descends t c k \<and> viewable t k}"
    "distinct (viewable_below_within t n c)" if "c \<in> set ?kids" for c
    using Suc.IH [OF dist [OF that]] Suc.prems(2) by simp_all
  have part: "set (?f c) = {k. descends t c k \<and> viewable t k}" if "c \<in> set ?kids" for c
    using IH(1) [OF that] viewable_up [OF tree view] by (auto intro: below.refl)
  have eq: "viewable_below_within t (Suc n) i = concat (map ?f ?kids)"
    by (simp add: viewable_def cong: map_cong option.case_cong)
  have "set (concat (map ?f ?kids)) = (\<Union>c \<in> set ?kids. set (?f c))"
    by (simp only: set_concat set_map image_image)
  also have "\<dots> = (\<Union>c \<in> set ?kids. {k. descends t c k \<and> viewable t k})" by (rule SUP_cong [OF HOL.refl part])
  also have "\<dots> = {k. k \<noteq> i \<and> descends t i k \<and> viewable t k}"
  proof (intro set_eqI iffI)
    fix k assume "k \<in> (\<Union>c \<in> set ?kids. {k. descends t c k \<and> viewable t k})"
    then obtain c where c: "c \<in> set ?kids" "descends t c k" "viewable t k" by blast
    have "descends t i c" using kid [OF c(1)] by (auto intro: below.step below.refl)
    then have "descends t i k" by (rule below_trans [OF c(2)])
    moreover have "k \<noteq> i"
    proof
      assume "k = i"
      then obtain m where "root_dist (parent_of t) ROOT_WINDOW c m" "m \<le> d"
        using below_dist [OF c(2), of d] Suc.prems(1) by blast
      then show False using root_dist_unique [OF dist [OF c(1)]] by fastforce
    qed
    ultimately show "k \<in> {k. k \<noteq> i \<and> descends t i k \<and> viewable t k}" using c by simp
  next
    fix k assume "k \<in> {k. k \<noteq> i \<and> descends t i k \<and> viewable t k}"
    then have k: "k \<noteq> i" "descends t i k" "viewable t k" by simp_all
    obtain c where "c \<noteq> ROOT_WINDOW" "parent_of t c = Some i" "descends t c k"
      using below_top_cases [OF k(2)] k(1) by blast
    then show "k \<in> (\<Union>c \<in> set ?kids. {k. descends t c k \<and> viewable t k})"
      using k(3) by (auto simp: tree_children_iff [OF tree])
  qed
  finally have s: "set (concat (map ?f ?kids)) = {k. k \<noteq> i \<and> descends t i k \<and> viewable t k}" .
  have "distinct (concat (map ?f cs))" if "set cs \<subseteq> set ?kids" "distinct cs" for cs
    using that
  proof (induction cs)
    case (Cons c cs)
    have c: "c \<in> set ?kids" using Cons.prems by simp
    have "distinct (?f c)" using IH [OF c] by simp
    moreover have "distinct (concat (map ?f cs))" using Cons by simp
    moreover have "k \<notin> set (concat (map ?f cs))" if "k \<in> set (?f c)" for k
    proof
      assume "k \<in> set (concat (map ?f cs))"
      then obtain c' where c': "c' \<in> set cs" "k \<in> set (?f c')" by auto
      then have kid': "c' \<in> set ?kids" using Cons.prems by auto
      have k: "descends t c k" "descends t c' k" "window t k \<noteq> None"
        using that c'(2) part [OF c] part [OF kid'] by (auto simp: viewable_def split: option.splits)
      obtain m where "root_dist (parent_of t) ROOT_WINDOW k m" using tree k(3) by (auto simp: tree_inv_def)
      then have "c = c'" by (rule below_same_dist [OF k(1,2) dist [OF c] dist [OF kid']])
      then show False using c'(1) Cons.prems(2) by simp
    qed
    ultimately have "distinct (?f c @ concat (map ?f cs))" unfolding distinct_append by blast
    then show ?case by (simp only: list.map concat.simps)
  qed simp
  moreover have "distinct ?kids" using tree by (simp add: tree_inv_def children_def split: option.splits)
  ultimately have "distinct (concat (map ?f ?kids))" by blast
  then show ?case using s eq by simp
qed

lemma viewable_below_exact:
  assumes "tree_inv t" and "view_inv t" and "window t i \<noteq> None"
  shows "set (viewable_below t i) = {k. k \<noteq> i \<and> descends t i k \<and> viewable t k}" "distinct (viewable_below t i)"
proof -
  obtain d where "root_dist (parent_of t) ROOT_WINDOW i d" using assms by (auto simp: tree_inv_def)
  from below_window_within [OF assms(1,2) this, of "Suc (hm_len (rt_windows t))"]
  show "set (viewable_below t i) = {k. k \<noteq> i \<and> descends t i k \<and> viewable t k}" "distinct (viewable_below t i)"
    unfolding viewable_below_def by simp_all
qed

section \<open>What mapping leaves alone\<close>

text \<open>Two tables that differ in the backing pixmaps of the windows only.\<close>

definition same_windows :: "ResourceTable \<Rightarrow> ResourceTable \<Rightarrow> bool" where
  "same_windows t t' \<longleftrightarrow> (tree_inv t \<longrightarrow> tree_inv t') \<and> (\<forall>k. map_option (\<lambda>w. w\<lparr>win_redirected_backing := None\<rparr>) (window t' k) =
     map_option (\<lambda>w. w\<lparr>win_redirected_backing := None\<rparr>) (window t k))"

lemma same_windows_refl [simp]: "same_windows t t"
  by (simp add: same_windows_def)

lemma same_windows_trans: "same_windows t t' \<Longrightarrow> same_windows t' t'' \<Longrightarrow> same_windows t t''"
  by (simp add: same_windows_def)

lemma same_windowsE:
  assumes "same_windows t t'"
  obtains (absent) "window t' k = None" "window t k = None"
  | (present) w w' where "window t k = Some w" "window t' k = Some w'"
      "w'\<lparr>win_redirected_backing := None\<rparr> = w\<lparr>win_redirected_backing := None\<rparr>"
proof -
  have k: "map_option (\<lambda>w. w\<lparr>win_redirected_backing := None\<rparr>) (window t' k) =
      map_option (\<lambda>w. w\<lparr>win_redirected_backing := None\<rparr>) (window t k)"
    using assms by (simp only: same_windows_def)
  show thesis
  proof (cases "window t k")
    case None
    then show thesis using k by (intro absent) simp_all
  next
    case (Some w)
    then obtain w' where w': "window t' k = Some w'" using k by (cases "window t' k") simp_all
    show thesis by (rule present [OF Some w']) (use k Some w' in simp)
  qed
qed

lemma backing_only:
  assumes "(w' :: Window)\<lparr>win_redirected_backing := None\<rparr> = w\<lparr>win_redirected_backing := None\<rparr>"
  shows "win_map_state w' = win_map_state w" "win_children w' = win_children w" "win_parent w' = win_parent w"
    "win_host_xid w' = win_host_xid w" "win_override_redirect w' = win_override_redirect w"
  using arg_cong [where f = win_map_state, OF assms] arg_cong [where f = win_children, OF assms]
    arg_cong [where f = win_parent, OF assms] arg_cong [where f = win_host_xid, OF assms]
    arg_cong [where f = win_override_redirect, OF assms] by simp_all

lemma same_windowsD:
  assumes "same_windows t t'"
  shows "viewable t' k = viewable t k" "mapped t' k = mapped t k" "children t' k = children t k"
    "parent_of t' k = parent_of t k" "window t' k = None \<longleftrightarrow> window t k = None"
proof -
  have "viewable t' k = viewable t k \<and> mapped t' k = mapped t k \<and> children t' k = children t k \<and>
      parent_of t' k = parent_of t k \<and> (window t' k = None \<longleftrightarrow> window t k = None)"
    using assms
  proof (cases rule: same_windowsE [where k = k])
    case (present w w')
    show ?thesis
      by (simp add: present(1,2) backing_only [OF present(3)] viewable_def mapped_def children_def parent_of_def)
  qed (simp add: viewable_def mapped_def children_def parent_of_def)
  then show "viewable t' k = viewable t k" "mapped t' k = mapped t k" "children t' k = children t k"
    "parent_of t' k = parent_of t k" "window t' k = None \<longleftrightarrow> window t k = None" by blast+
qed

lemma set_backing_same: "same_windows (st_resources st) (st_resources (set_backing w b st))"
  by (cases "window (st_resources st) w") (simp_all add: set_backing_def same_windows_def tree_inv_modify)

lemma activate_same: "same_windows (st_resources (fst s)) (st_resources (fst (activate_redirect_backing_for env w mode s)))"
proof -
  have "fst (activate_redirect_backing_for env w mode s) = fst s \<or>
      (\<exists>b. fst (activate_redirect_backing_for env w mode s) = set_backing w b (fst s))"
    unfolding activate_redirect_backing_for_def also_call_def Let_def
    by (simp split: option.split) blast
  then show ?thesis by (elim disjE exE) (simp_all add: set_backing_same)
qed

lemma maybe_activate_same:
  "same_windows (st_resources (fst s)) (st_resources (fst (maybe_activate_child_under_redirected_parent env w s)))"
  by (auto simp: maybe_activate_child_under_redirected_parent_def activate_same split: option.splits)

lemma reapply_same [simp]: "fst (reapply_redirect_mode_after_map w s) = fst s"
  by (auto simp: reapply_redirect_mode_after_map_def also_call_def split: option.splits)

lemma map_on_host_same: "same_windows (st_resources (fst s)) (st_resources (fst (map_on_host env w s)))"
  using maybe_activate_same [of "also_call cs s" env w for cs]
  by (auto simp: map_on_host_def also_call_def split: option.splits)

lemma emit_same [simp]: "same_but_clients st (emit w bits encode st)"
  by (simp add: emit_def)

lemma emit_resources [simp]: "st_resources (emit w bits encode st) = st_resources st"
  using emit_same [of st w bits encode] unfolding same_but_clients_def by auto

lemma announcements_resources [simp]:
  "st_resources (map_notifies w p b st) = st_resources st" "st_resources (expose_window w st) = st_resources st"
  "st_resources (unobscured_window w st) = st_resources st" "st_resources (damage_window w st) = st_resources st"
  by (simp_all add: map_notifies_def expose_window_def unobscured_window_def damage_window_def
      accumulate_damage_full_to_state_def Let_def accumulate_resources split: option.split)

lemma fold_resources: "(\<And>w st. st_resources (f w st) = st_resources st) \<Longrightarrow> st_resources (fold f ws st) = st_resources st"
  by (induction ws arbitrary: st) simp_all

lemma subtree_resources [simp]:
  "st_resources (emit_expose_subtree_to_state w st) = st_resources st"
  "st_resources (emit_visibility_unobscured_subtree_to_state w st) = st_resources st"
  "st_resources (accumulate_damage_viewable_descendants_to_state w st) = st_resources st"
  "st_resources (announce_viewable w st) = st_resources st"
  by (simp_all add: emit_expose_subtree_to_state_def emit_visibility_unobscured_subtree_to_state_def
      accumulate_damage_viewable_descendants_to_state_def announce_viewable_def fold_resources)

lemma map_now_table:
  assumes "map_window w (st_resources st) = Some (t, b)"
  shows "\<exists>st' calls. map_now env w st = Some (st', calls) \<and> same_windows t (st_resources st')"
  using map_on_host_same [of "(st\<lparr>st_resources := t\<rparr>, [])" env w] assms
  by (auto simp: map_now_def Let_def split: option.splits)

lemma same_windows_inv:
  assumes s: "same_windows t t'" and "tree_inv t" and "view_inv t"
  shows "tree_inv t'" "view_inv t'"
proof -
  show "tree_inv t'" using assms by (simp add: same_windows_def)
  show "view_inv t'"
    using \<open>view_inv t\<close> by (simp add: view_inv_def view_ok_def same_windowsD [OF s] cong: option.case_cong)
qed

text \<open>Mapping a window that may not be there.\<close>

lemma map_window_outcome:
  assumes "tree_inv u" and "view_inv u"
  shows "\<exists>t b. map_window c u = Some (t, b) \<and> tree_inv t \<and> view_inv t \<and>
    (\<forall>k. mapped t k \<longleftrightarrow> (k = c \<and> window u c \<noteq> None) \<or> mapped u k) \<and> (\<forall>k. window t k = None \<longleftrightarrow> window u k = None) \<and>
    (\<forall>k. children t k = children u k) \<and> parent_of t = parent_of u"
proof (cases "window u c")
  case None
  then have "map_window c u = Some (u, False)" by (simp add: map_window_def parent_of_def)
  then show ?thesis using assms None by auto
next
  case (Some w)
  obtain t where t: "map_window c u = Some (t, win_map_state w = Unmapped)" "tree_inv t" "view_inv t"
    and m: "\<And>k. mapped t k \<longleftrightarrow> k = c \<or> mapped u k"
    using map_window_correct [OF assms Some] by blast
  have kids: "children t k = children u k" for k using map_window_total [OF assms(1), of c] t(1) by auto
  have par: "parent_of t = parent_of u" using same_children_same_parents [OF assms(1) t(2) kids] .
  have "window t k = None \<longleftrightarrow> window u k = None" for k using par by (metis parent_of_None)
  then show ?thesis using t m kids par Some by auto
qed

lemma map_child_correct:
  assumes inv: "tree_inv (st_resources (fst s))" "view_inv (st_resources (fst s))"
  shows "\<exists>s'. map_child env parent c s = Some s' \<and> tree_inv (st_resources (fst s')) \<and> view_inv (st_resources (fst s')) \<and>
    (\<forall>k. mapped (st_resources (fst s')) k \<longleftrightarrow>
       (k = c \<and> window (st_resources (fst s)) c \<noteq> None) \<or> mapped (st_resources (fst s)) k) \<and>
    (\<forall>k. window (st_resources (fst s')) k = None \<longleftrightarrow> window (st_resources (fst s)) k = None)"
proof -
  obtain t b where t: "map_window c (st_resources (fst s)) = Some (t, b)" "tree_inv t" "view_inv t"
    and m: "\<And>k. mapped t k \<longleftrightarrow> (k = c \<and> window (st_resources (fst s)) c \<noteq> None) \<or> mapped (st_resources (fst s)) k"
    and there: "\<And>k. window t k = None \<longleftrightarrow> window (st_resources (fst s)) k = None"
    using map_window_outcome [OF inv] by blast
  obtain s' where s': "map_child env parent c s = Some s'" "same_windows t (st_resources (fst s'))"
    using map_on_host_same [of "((fst s)\<lparr>st_resources := t\<rparr>, snd s)" env c] t(1)
    by (simp add: map_child_def Let_def)
  show ?thesis
    using s'(1) same_windows_inv [OF s'(2) t(2,3)] by (auto simp: same_windowsD [OF s'(2)] m there)
qed

section \<open>Properties\<close>

lemma fanout_resources: "st_resources (fst (fanout_event_to_clients ids encode st)) = st_resources st"
  using fanout_frame [of ids encode st] by auto

lemma subscribers_iff:
  "hm_wf (st_clients st) \<Longrightarrow> i \<in> set (subscribers_by_id st w bits) \<longleftrightarrow>
    (\<exists>x. hm_get (st_clients st) i = Some x \<and> event_mask_of x w AND bits \<noteq> 0)"
  by (force simp: subscribers_by_id_def hm_get_def hm_wf_def map_of_eq_Some_iff)

lemma redirect_targets_iff:
  assumes "hm_wf (st_clients st)"
  shows "i \<in> set (redirect_targets st c parent override) \<longleftrightarrow> \<not> override \<and>
    \<not> (\<exists>x. hm_get (st_clients st) c = Some x \<and> event_mask_of x parent AND SUBSTRUCTURE_REDIRECT \<noteq> 0) \<and>
    (\<exists>x. hm_get (st_clients st) i = Some x \<and> event_mask_of x parent AND SUBSTRUCTURE_REDIRECT \<noteq> 0)"
  by (cases "hm_get (st_clients st) c") (simp_all add: redirect_targets_def subscribers_iff [OF assms])



lemma map_children_correct:
  assumes "tree_inv (st_resources (fst s))" "view_inv (st_resources (fst s))"
  shows "\<exists>s'. map_children env parent cs s = Some s' \<and>
    (\<forall>k. mapped (st_resources (fst s')) k \<longleftrightarrow>
       (k \<in> set cs \<and> window (st_resources (fst s)) k \<noteq> None) \<or> mapped (st_resources (fst s)) k)"
  using assms
proof (induction cs arbitrary: s)
  case (Cons c cs)
  obtain s1 where s1: "map_child env parent c s = Some s1" "tree_inv (st_resources (fst s1))" "view_inv (st_resources (fst s1))"
    and m: "\<And>k. mapped (st_resources (fst s1)) k \<longleftrightarrow>
       (k = c \<and> window (st_resources (fst s)) c \<noteq> None) \<or> mapped (st_resources (fst s)) k"
    and there: "\<And>k. window (st_resources (fst s1)) k = None \<longleftrightarrow> window (st_resources (fst s)) k = None"
    using map_child_correct [OF Cons.prems] by blast
  from Cons.IH [OF s1(2,3)] show ?case by (auto simp: s1(1) m there)
qed simp

text \<open>
  Claim C39. MapSubwindows maps every child at once, also a child whose own MapWindow request would be redirected to a window
  manager.
\<close>

theorem map_subwindows_not_redirected:
  assumes reach: "windows_reachable (st_resources st)" and view: "view_inv (st_resources st)"
    and body: "4 \<le> length body" "u32_le_at body 0 = parent"
    and child: "k \<in> set (children (st_resources st) parent)" "window (st_resources st) k = Some win"
      "win_map_state win = Unmapped"
    and redirect: "redirect_targets st c parent (win_override_redirect win) \<noteq> []"
    and single: "4 \<le> length body'" "u32_le_at body' 0 = k"
  shows "(\<exists>st' calls. handle_map_subwindows env c sequence body st = Some (st', calls, Handled) \<and>
      mapped (st_resources st') k) \<and>
    (\<exists>st'. handle_map_window env c sequence body' st = Some (st', [], Handled) \<and> \<not> mapped (st_resources st') k)"
proof
  have parent: "window (st_resources st) parent \<noteq> None"
    using child(1) by (cases "window (st_resources st) parent") (simp_all add: children_def)
  obtain s' where s': "map_children env parent (children (st_resources st) parent) (st, []) = Some s'"
    and m: "\<And>j. mapped (st_resources (fst s')) j \<longleftrightarrow> (j \<in> set (children (st_resources st) parent) \<and>
      window (st_resources st) j \<noteq> None) \<or> mapped (st_resources st) j"
    using map_children_correct [of "(st, [])" env parent "children (st_resources st) parent"] reachable_tree [OF reach] view
    by auto
  have "handle_map_subwindows env c sequence body st = Some (fst s', snd s', Handled)"
    using body parent s' by (auto simp: handle_map_subwindows_def Let_def map_handled_def)
  moreover have "mapped (st_resources (fst s')) k" using child by (simp add: m)
  ultimately show "\<exists>st' calls. handle_map_subwindows env c sequence body st = Some (st', calls, Handled) \<and>
    mapped (st_resources st') k" by blast
  have "win_parent win = parent"
    using child(1,2) tree_children_iff [OF reachable_tree [OF reach]] by (simp add: parent_of_def)
  then have "handle_map_window env c sequence body' st =
      Some (fst (fanout_event_to_clients (redirect_targets st c parent (win_override_redirect win))
        (\<lambda>seq order. encode_map_request_event seq order parent k) st), [], Handled)"
    using single child redirect by (simp add: handle_map_window_def Let_def no_calls_def)
  moreover have "\<not> mapped (st_resources st) k" using child by (simp add: mapped_def)
  ultimately show "\<exists>st'. handle_map_window env c sequence body' st = Some (st', [], Handled) \<and>
    \<not> mapped (st_resources st') k"
    by (intro exI conjI) (assumption, metis fanout_resources)
qed

definition manager :: ClientState where
  "manager = framed_client\<lparr>cs_event_masks := [(ROOT_WINDOW, 0x100000)]\<rparr>"

definition managed_state :: ServerState where
  "managed_state = server_new\<lparr>st_resources := tree3, st_clients := [(1, framed_client), (2, manager)]\<rparr>"

definition open_backend :: redirect_backend where
  "open_backend = \<lparr>supports_redirect_activation = True, backend_window_id = 1,
     allocate_redirected_backing = (\<lambda>_ _ _ _ _. Some 99), reparent_subwindow_ok = (\<lambda>_ _ _. True),
     register_top_level_ok = (\<lambda>_. True)\<rparr>"

lemma managed_simps:
  "st_resources managed_state = tree3" "hm_wf (st_clients managed_state)"
  "hm_get (st_clients managed_state) 1 = Some framed_client" "hm_get (st_clients managed_state) 2 = Some manager"
  "event_mask_of manager ROOT_WINDOW AND SUBSTRUCTURE_REDIRECT \<noteq> 0"
  "event_mask_of framed_client ROOT_WINDOW AND SUBSTRUCTURE_REDIRECT = 0"
  by (simp_all add: managed_state_def hm_wf_def hm_get_Cons event_mask_of_def manager_def SUBSTRUCTURE_REDIRECT_def
      framed_client_def)

lemma managed_window:
  "window (st_resources managed_state) 0x100001 = Some (tree_window 0x100001 ROOT_WINDOW [0x100002])"
  "win_map_state (tree_window 0x100001 ROOT_WINDOW [0x100002]) = Unmapped"
  "\<not> win_override_redirect (tree_window 0x100001 ROOT_WINDOW [0x100002])"
  "win_parent (tree_window 0x100001 ROOT_WINDOW [0x100002]) = ROOT_WINDOW"
  by (simp_all add: managed_simps tree3_window tree_window_def window_placeholder_def)

lemma managed_body: "4 \<le> length [1, 0, 16, 0 :: u8]" "u32_le_at [1, 0, 16, 0] 0 = 0x100001"
  by (simp, code_simp)



theorem map_subwindows_not_redirected_witness:
  "\<exists>st' calls. handle_map_subwindows open_backend 1 4 [0, 1, 0, 0] managed_state = Some (st', calls, Handled) \<and>
     mapped (st_resources st') 0x100001"
proof -
  have reach: "windows_reachable (st_resources managed_state)" "view_inv (st_resources managed_state)"
    by (simp_all add: managed_simps reachable3 tree3_view_inv)
  have body: "4 \<le> length [0, 1, 0, 0 :: u8]" "u32_le_at [0, 1, 0, 0] 0 = ROOT_WINDOW"
    unfolding ROOT_WINDOW_def by (simp, code_simp)
  have child: "0x100001 \<in> set (children (st_resources managed_state) ROOT_WINDOW)"
    by (simp add: managed_simps children_def tree3_window root_window_def ROOT_WINDOW_def)
  have "2 \<in> set (redirect_targets managed_state 1 ROOT_WINDOW False)"
    using managed_simps by (simp add: redirect_targets_iff)
  then have redirect: "redirect_targets managed_state 1 ROOT_WINDOW
      (win_override_redirect (tree_window 0x100001 ROOT_WINDOW [0x100002])) \<noteq> []"
    using managed_window(3) by auto
  from map_subwindows_not_redirected [OF reach body child managed_window(1,2) redirect managed_body, of open_backend 4]
  show ?thesis by blast
qed

end
