(* ===== verification/RequestBodies.thy ===== *)
theory RequestBodies
  imports RequestGate GcRequests Shapes
begin

text \<open>
  The readers of the bodies of the window and context requests (\<open>crates/xserver-protocol/src/x11/mod.rs\<close>),
  with the value lists that follow a mask, one word for each bit that is set.
\<close>

section \<open>Value lists\<close>

fun value_loop :: "u32 \<Rightarrow> u8 list \<Rightarrow> nat \<Rightarrow> nat list \<Rightarrow> nat \<Rightarrow> u32 option" where
  "value_loop m vs target [] offset = None"
| "value_loop m vs target (b # bs) offset =
     (if \<not> bit m b then value_loop m vs target bs offset
      else if length vs < offset + 4 then None
      else if b = target then Some (u32_le_at vs offset)
      else value_loop m vs target bs (offset + 4))"

definition ValueList_value :: "u32 \<Rightarrow> u8 list \<Rightarrow> nat \<Rightarrow> u32 option" where
  "ValueList_value m vs target = value_loop m vs target [0..<32] 0"

section \<open>The requests\<close>

definition create_window_request :: "u8 \<Rightarrow> u8 list \<Rightarrow> CreateWindowRequest option" where
  "create_window_request depth body =
     (if length body < 28 then None
      else
        let m = u32_le_at body 24; v = ValueList_value m (drop 28 body)
        in Some \<lparr>cw_depth = depth, cw_window = u32_le_at body 0, cw_parent = u32_le_at body 4,
         cw_x = u16_le_at body 8, cw_y = u16_le_at body 10, cw_width = u16_le_at body 12,
         cw_height = u16_le_at body 14, cw_border_width = u16_le_at body 16, cw_class = u16_le_at body 18,
         cw_visual = u32_le_at body 20, cw_value_mask = m,
         cw_background_pixmap = v 0, cw_background_pixel = v 1, cw_bit_gravity = map_option ucast (v 4),
         cw_win_gravity = map_option ucast (v 5), cw_backing_store = map_option ucast (v 6),
         cw_backing_planes = v 7, cw_backing_pixel = v 8,
         cw_override_redirect = map_option (\<lambda>x. x \<noteq> 0) (v 9),
         cw_save_under = map_option (\<lambda>x. x \<noteq> 0) (v 10), cw_event_mask = v 11,
         cw_do_not_propagate_mask = map_option ucast (v 12),
         cw_colormap = map_option (\<lambda>x. if x = 0 then None else Some x) (v 13)\<rparr>)"

definition change_window_attributes_request :: "u8 list \<Rightarrow> ChangeWindowAttributesRequest option" where
  "change_window_attributes_request body =
     (if length body < 8 then None
      else
        let m = u32_le_at body 4; v = ValueList_value m (drop 8 body)
        in Some \<lparr>cwa_window = u32_le_at body 0, cwa_value_mask = m,
         cwa_background_pixmap = v 0, cwa_background_pixel = v 1, cwa_bit_gravity = map_option ucast (v 4),
         cwa_win_gravity = map_option ucast (v 5), cwa_backing_store = map_option ucast (v 6),
         cwa_backing_planes = v 7, cwa_backing_pixel = v 8,
         cwa_override_redirect = map_option (\<lambda>x. x \<noteq> 0) (v 9),
         cwa_save_under = map_option (\<lambda>x. x \<noteq> 0) (v 10), cwa_event_mask = v 11,
         cwa_do_not_propagate_mask = map_option ucast (v 12),
         cwa_colormap = map_option (\<lambda>x. if x = 0 then None else Some x) (v 13), cwa_cursor = v 14\<rparr>)"

definition configure_window_request :: "u8 list \<Rightarrow> ConfigureWindowRequest option" where
  "configure_window_request body =
     (if length body < 8 then None
      else
        let m = u16_le_at body 4; v = ValueList_value (ucast m) (drop 8 body)
        in Some \<lparr>cfg_window = u32_le_at body 0, cfg_value_mask = m,
         cfg_x = map_option ucast (v 0), cfg_y = map_option ucast (v 1), cfg_width = map_option ucast (v 2),
         cfg_height = map_option ucast (v 3), cfg_border_width = map_option ucast (v 4), cfg_sibling = v 5,
         cfg_stack_mode = map_option ucast (v 6)\<rparr>)"

definition reparent_window_request :: "u8 list \<Rightarrow> ReparentWindowRequest option" where
  "reparent_window_request body =
     (if length body < 12 then None
      else Some \<lparr>rep_window = u32_le_at body 0, rep_parent = u32_le_at body 4,
        rep_x = u16_le_at body 8, rep_y = u16_le_at body 10\<rparr>)"

definition create_pixmap_request :: "u8 \<Rightarrow> u8 list \<Rightarrow> CreatePixmapRequest option" where
  "create_pixmap_request depth body =
     (if length body < 12 then None
      else Some \<lparr>cp_depth = depth, cp_pixmap = u32_le_at body 0, cp_drawable = u32_le_at body 4,
        cp_width = u16_le_at body 8, cp_height = u16_le_at body 10\<rparr>)"

definition create_gc_request :: "u8 list \<Rightarrow> CreateGcRequest option" where
  "create_gc_request body =
     (if length body < 12 then None
      else
        let v = ValueList_value (u32_le_at body 8) (drop 12 body)
        in Some \<lparr>cgc_gc = u32_le_at body 0, cgc_drawable = u32_le_at body 4,
         cgc_function = map_option ucast (v 0), cgc_plane_mask = v 1, cgc_foreground = v 2,
         cgc_background = v 3, cgc_line_width = map_option ucast (v 4),
         cgc_line_style = map_option ucast (v 5), cgc_cap_style = map_option ucast (v 6),
         cgc_join_style = map_option ucast (v 7), cgc_fill_style = map_option ucast (v 8),
         cgc_fill_rule = map_option ucast (v 9), cgc_tile = v 10, cgc_stipple = v 11,
         cgc_tile_x_origin = map_option ucast (v 12), cgc_tile_y_origin = map_option ucast (v 13),
         cgc_font = v 14, cgc_subwindow_mode = map_option ucast (v 15),
         cgc_graphics_exposures = map_option (\<lambda>x. x \<noteq> 0) (v 16),
         cgc_clip_x_origin = map_option ucast (v 17), cgc_clip_y_origin = map_option ucast (v 18),
         cgc_clip_mask = map_option (\<lambda>x. if x = 0 then None else Some x) (v 19),
         cgc_dash_offset = map_option ucast (v 20), cgc_dashes = map_option ucast (v 21),
         cgc_arc_mode = map_option ucast (v 22)\<rparr>)"

definition change_gc_request :: "u8 list \<Rightarrow> GcChange option" where
  "change_gc_request body =
     (if length body < 8 then None
      else
        let v = ValueList_value (u32_le_at body 4) (drop 8 body)
        in Some \<lparr>gch_gc = u32_le_at body 0,
         gch_function = map_option ucast (v 0), gch_plane_mask = v 1, gch_foreground = v 2,
         gch_background = v 3, gch_line_width = map_option ucast (v 4),
         gch_line_style = map_option ucast (v 5), gch_cap_style = map_option ucast (v 6),
         gch_join_style = map_option ucast (v 7), gch_fill_style = map_option ucast (v 8),
         gch_fill_rule = map_option ucast (v 9), gch_tile = v 10, gch_stipple = v 11,
         gch_tile_x_origin = map_option ucast (v 12), gch_tile_y_origin = map_option ucast (v 13),
         gch_font = v 14, gch_subwindow_mode = map_option ucast (v 15),
         gch_graphics_exposures = map_option (\<lambda>x. x \<noteq> 0) (v 16),
         gch_clip_mask = map_option (\<lambda>x. if x = 0 then None else Some x) (v 19),
         gch_clip_x_origin = map_option ucast (v 17), gch_clip_y_origin = map_option ucast (v 18),
         gch_dash_offset = map_option ucast (v 20), gch_dashes = map_option ucast (v 21),
         gch_arc_mode = map_option ucast (v 22)\<rparr>)"

definition set_clip_rectangles_request :: "u8 \<Rightarrow> u8 list \<Rightarrow> SetClipRectanglesRequest option" where
  "set_clip_rectangles_request order body =
     (if length body < 8 \<or> (length body - 8) mod 8 \<noteq> 0 then None
      else Some \<lparr>scr_gc = u32_le_at body 0, scr_clip = \<lparr>clip_ordering = order, clip_x_origin = u16_le_at body 4,
        clip_y_origin = u16_le_at body 6, clip_rectangles = drop 8 body\<rparr>\<rparr>)"

section \<open>The values of a list\<close>

lemma u32_le_at_le32: "u32_le_at body i = le32_at body i"
  by (simp add: u32_le_at_def le32_at_def u32_from_le_bytes_def)

text \<open>Where the value of a bit is: one word for each lower bit of the mask.\<close>

definition value_index :: "u32 \<Rightarrow> nat \<Rightarrow> nat" where
  "value_index m b = length (filter (bit m) [0..<b])"

lemma value_loop_eq:
  "offset + 4 * length (filter (bit m) bs) \<le> length vs \<Longrightarrow> value_loop m vs target bs offset =
    (if target \<in> set bs \<and> bit m target
     then Some (u32_le_at vs (offset + 4 * length (filter (bit m) (takeWhile (\<lambda>b. b \<noteq> target) bs)))) else None)"
  by (induction bs arbitrary: offset) (auto simp: algebra_simps)

lemma takeWhile_upt: "b < n \<Longrightarrow> takeWhile (\<lambda>x. x \<noteq> b) [0..<n] = [0..<b]"
proof (induction n)
  case (Suc n)
  show ?case
  proof (cases "b = n")
    case True
    have "takeWhile (\<lambda>x. x \<noteq> n) ([0..<n] @ [n]) = [0..<n]" by (subst takeWhile_append2) auto
    then show ?thesis using True by simp
  next
    case False
    then have "b < n" using Suc.prems by simp
    then show ?thesis using Suc.IH by (simp add: takeWhile_append1 [where x = b])
  qed
qed simp

lemma ValueList_value_eq:
  assumes "4 * length (set_bits_of m) \<le> length vs" and "b < 32"
  shows "ValueList_value m vs b = (if bit m b then Some (u32_le_at vs (4 * value_index m b)) else None)"
  using assms value_loop_eq [of 0 m "[0..<32]" vs b] takeWhile_upt [OF assms(2)]
  by (simp add: ValueList_value_def value_index_def set_bits_of_def)

lemma value_index_less:
  assumes "bit m b" and "b < 32"
  shows "value_index m b < length (set_bits_of m)" "set_bits_of m ! value_index m b = b"
proof -
  have "[0..<32] = [0..<b] @ b # [Suc b..<32]"
    using assms(2) upt_add_eq_append [of 0 b "32 - b"] by (simp add: upt_conv_Cons)
  then have "set_bits_of m = filter (bit m) [0..<b] @ b # filter (bit m) [Suc b..<32]"
    using assms(1) by (simp add: set_bits_of_def)
  then show "value_index m b < length (set_bits_of m)" "set_bits_of m ! value_index m b = b"
    unfolding value_index_def by simp_all
qed

lemma u32_le_at_drop: "start + i + 4 \<le> length body \<Longrightarrow> u32_le_at (drop start body) i = u32_le_at body (start + i)"
  by (simp add: u32_le_at_def add.assoc)

section \<open>Properties\<close>

text \<open>
  A CreateWindow, ChangeWindowAttributes, CreateGC, ChangeGC or ChangeKeyboardControl request that
  the gate lets through is read in full: the reader finds a value exactly for the bits of the mask,
  each at its own word of the list, and it is the value that the gate has validated for that bit.
\<close>

theorem accepted_values_read:
  assumes "request_gate big hdr body = GatePass"
    and "length body + 4 = 4 * unat (rh_length_units hdr)"
    and "value_list_layout (rh_opcode hdr) = Some (moff, start, f)" and "b < 32"
  shows "ValueList_value (u32_le_at body moff) (drop start body) b =
      (if bit (u32_le_at body moff) b
       then Some (u32_le_at body (start + 4 * value_index (u32_le_at body moff) b)) else None) \<and>
    (bit (u32_le_at body moff) b \<longrightarrow>
      f b (u32_le_at body (start + 4 * value_index (u32_le_at body moff) b)) = None)"
proof -
  let ?m = "u32_le_at body moff"
  have len: "length body = start + 4 * length (set_bits_of ?m)"
    and ok: "\<forall>k < length (set_bits_of ?m). f (set_bits_of ?m ! k) (u32_le_at body (start + 4 * k)) = None"
    using gate_value_list [OF assms(1-3)] by (simp_all add: u32_le_at_le32)
  have "ValueList_value ?m (drop start body) b =
      (if bit ?m b then Some (u32_le_at (drop start body) (4 * value_index ?m b)) else None)"
    by (rule ValueList_value_eq) (use len assms(4) in simp_all)
  moreover have "u32_le_at (drop start body) (4 * value_index ?m b) = u32_le_at body (start + 4 * value_index ?m b)"
    if "bit ?m b" using value_index_less(1) [OF that assms(4)] len by (intro u32_le_at_drop) simp
  moreover have "f b (u32_le_at body (start + 4 * value_index ?m b)) = None" if "bit ?m b"
    using ok value_index_less [OF that assms(4)] by metis
  ultimately show ?thesis by simp
qed

theorem accepted_values_read_witness:
  "map_option cgc_line_width (create_gc_request sample_create_gc) = Some (Some 2)"
proof -
  have l: "value_list_layout (rh_opcode \<lparr>rh_opcode = 55, rh_data = 0, rh_length_units = 6\<rparr>)
      = Some (8, 12, gc_validate_bit)"
    by (simp add: value_list_layout_def)
  have "length sample_create_gc + 4 =
      4 * unat (rh_length_units \<lparr>rh_opcode = 55, rh_data = 0, rh_length_units = 6\<rparr>)"
    by (simp add: sample_create_gc_def)
  from accepted_values_read [OF sample_gate this l, of 4]
  have "ValueList_value 0x11 (drop 12 sample_create_gc) 4 = Some (u32_le_at sample_create_gc 16)"
    by (simp add: u32_le_at_le32 sample_mask value_index_def upt_rec)
  then show ?thesis
    by (simp add: create_gc_request_def u32_le_at_le32 sample_mask Let_def) (simp add: le32_at_def sample_create_gc_def)
qed

end
