(* ===== verification/ConfigureRequests.thy ===== *)
theory ConfigureRequests
  imports MapRequests RequestBodies WindowSteps
begin

text \<open>
  ConfigureWindow and ReparentWindow of \<open>crates/xserver-core/src/core_loop/process_request.rs\<close>: the
  redirection, the change of the table, the calls of the backend, the events to the clients
  and the damage, with the replacement of the backing pixmap of a redirected window that is resized and the
  reconciliation of the redirection with the new parent of a reparented one.
\<close>

section \<open>Geometry and events\<close>

record Geometry =
  geo_root :: ResourceId
  geo_x :: i16
  geo_y :: i16
  geo_width :: u16
  geo_height :: u16
  geo_border_width :: u16
  geo_depth :: u8

definition window_geometry :: "Window \<Rightarrow> Geometry" where
  "window_geometry w = \<lparr>geo_root = ROOT_WINDOW, geo_x = win_x w, geo_y = win_y w, geo_width = win_width w,
     geo_height = win_height w, geo_border_width = win_border_width w, geo_depth = win_depth w\<rparr>"

definition encode_configure_notify_event ::
  "u16 \<Rightarrow> ClientByteOrder \<Rightarrow> ResourceId \<Rightarrow> ResourceId \<Rightarrow> ResourceId option \<Rightarrow> Geometry \<Rightarrow> bool \<Rightarrow> u8 list" where
  "encode_configure_notify_event sequence order event_window w above_sibling g override_redirect =
     [22, 0] @ enc16 order sequence @ enc32 order event_window @ enc32 order w @
     enc32 order (unwrap_or above_sibling 0) @ enc16 order (geo_x g) @ enc16 order (geo_y g) @
     enc16 order (geo_width g) @ enc16 order (geo_height g) @ enc16 order (geo_border_width g) @
     [of_bool override_redirect] @ replicate 5 0"

definition encode_configure_request_event ::
  "u16 \<Rightarrow> ClientByteOrder \<Rightarrow> ResourceId \<Rightarrow> ResourceId \<Rightarrow> ConfigureWindowRequest \<Rightarrow> u8 list" where
  "encode_configure_request_event sequence order parent w r =
     [23, unwrap_or (cfg_stack_mode r) 0] @ enc16 order sequence @ enc32 order parent @ enc32 order w @
     enc32 order (unwrap_or (cfg_sibling r) 0) @ enc16 order (unwrap_or (cfg_x r) 0) @
     enc16 order (unwrap_or (cfg_y r) 0) @ enc16 order (unwrap_or (cfg_width r) 0) @
     enc16 order (unwrap_or (cfg_height r) 0) @ enc16 order (unwrap_or (cfg_border_width r) 0) @
     enc16 order (cfg_value_mask r) @ replicate 4 0"

definition encode_reparent_notify_event ::
  "u16 \<Rightarrow> ClientByteOrder \<Rightarrow> ResourceId \<Rightarrow> ResourceId \<Rightarrow> ResourceId \<Rightarrow> i16 \<Rightarrow> i16 \<Rightarrow> bool \<Rightarrow> u8 list" where
  "encode_reparent_notify_event sequence order event_window w parent x y override_redirect =
     [21, 0] @ enc16 order sequence @ enc32 order event_window @ enc32 order w @ enc32 order parent @
     enc16 order x @ enc16 order y @ [of_bool override_redirect] @ replicate 11 0"

definition PRESENT_MAJOR_OPCODE :: u8 where "PRESENT_MAJOR_OPCODE = 145"
definition EVENT_MASK_CONFIGURE_NOTIFY :: u32 where "EVENT_MASK_CONFIGURE_NOTIFY = 1"

definition present_encode_configure_notify ::
  "ClientByteOrder \<Rightarrow> u16 \<Rightarrow> u32 \<Rightarrow> ResourceId \<Rightarrow> Geometry \<Rightarrow> u8 list" where
  "present_encode_configure_notify order sequence eid w g =
     [35, PRESENT_MAJOR_OPCODE] @ enc16 order sequence @ enc32 order 2 @ enc16 order 0 @ enc16 order 0 @
     enc32 order eid @ enc32 order w @ enc16 order (geo_x g) @ enc16 order (geo_y g) @
     enc16 order (geo_width g) @ enc16 order (geo_height g) @ enc16 order 0 @ enc16 order 0 @
     enc16 order (geo_width g) @ enc16 order (geo_height g) @ enc32 order 0"

definition present_configure_one :: "ResourceId \<Rightarrow> Geometry \<Rightarrow> u32 \<times> PresentEventSelection \<Rightarrow> ServerState \<Rightarrow> ServerState" where
  "present_configure_one w g target st =
     (case target of
        (eid, sel) \<Rightarrow>
          if pe_event_mask sel AND EVENT_MASK_CONFIGURE_NOTIFY = 0 then st
          else
            (case hm_get (st_clients st) (pe_owner sel) of
               None \<Rightarrow> st
             | Some client \<Rightarrow>
                 set_client (pe_owner sel)
                   (fst (write_to_client client (pe_owner sel)
                      (present_encode_configure_notify (cs_byte_order client) (cs_last_sequence client) eid w g))) st))"

definition fire_present_configure_notify_for_window :: "ResourceId \<Rightarrow> Geometry \<Rightarrow> ServerState \<Rightarrow> ServerState" where
  "fire_present_configure_notify_for_window w g st =
     fold (present_configure_one w g) (filter (\<lambda>(_, sel). pe_window sel = w) (st_present_event_selections st)) st"

section \<open>The backing of a window that is resized or changes its mode\<close>

definition participate :: "ResourceId \<Rightarrow> u32 \<Rightarrow> u32 \<Rightarrow> window_state \<Rightarrow> window_state" where
  "participate w host backing s =
     (case effective_redirect_mode_for_window (fst s) w of
        None \<Rightarrow> s
      | Some mode \<Rightarrow>
          also_call [scene_participation host (mode = RedirectAutomatic), BackingParticipation backing True] s)"

definition rotate_redirected_backing_on_resize ::
  "redirect_backend \<Rightarrow> ResourceId \<Rightarrow> u16 \<Rightarrow> u16 \<Rightarrow> window_state \<Rightarrow> window_state" where
  "rotate_redirected_backing_on_resize env w new_width new_height s =
     (case window (st_resources (fst s)) w of
        None \<Rightarrow> s
      | Some win \<Rightarrow>
          (case (win_redirected_backing win, win_host_xid win) of
             (Some old, Some host) \<Rightarrow>
               let released = snd s @ [RetainBacking (rb_host_pixmap old), HostCall (CallReleaseBacking (rb_host_pixmap old))];
                   calls = released @ [AllocateBacking host new_width new_height (win_depth win)]
               in case allocate_redirected_backing env released host new_width new_height (win_depth win) of
                    None \<Rightarrow> (set_backing w None (fst s), calls)
                  | Some p \<Rightarrow>
                      let cw = min (rb_width old) new_width; ch = min (rb_height old) new_height;
                          st = set_backing w (Some \<lparr>rb_host_pixmap = p, rb_width = new_width, rb_height = new_height,
                                 rb_depth = win_depth win\<rparr>) (fst s);
                          copies = (if cw > 0 \<and> ch > 0 then [CopyBacking (rb_host_pixmap old) p cw ch] else [])
                      in participate w host p (st, calls @ copies @ [DropBacking (rb_host_pixmap old)])
           | _ \<Rightarrow> s))"

definition flip_redirect_target_mode ::
  "redirect_backend \<Rightarrow> ResourceId \<Rightarrow> CompositeRedirectMode \<Rightarrow> window_state \<Rightarrow> window_state" where
  "flip_redirect_target_mode env target new_mode s =
     (case Option.bind (window (st_resources (fst s)) target)
             (\<lambda>w. Option.bind (win_host_xid w) (\<lambda>h. map_option (\<lambda>b. (h, rb_host_pixmap b)) (win_redirected_backing w))) of
        Some (host, backing) \<Rightarrow>
          also_call [scene_participation host (new_mode = RedirectAutomatic), BackingParticipation backing True] s
      | None \<Rightarrow> activate_redirect_backing_for env target new_mode s)"

section \<open>ConfigureWindow\<close>

definition configure_notifies :: "ResourceId \<Rightarrow> ResourceId option \<Rightarrow> Geometry \<Rightarrow> bool \<Rightarrow> ServerState \<Rightarrow> ServerState" where
  "configure_notifies w parent g override_redirect st =
     (let above = configure_notify_above_sibling (st_resources st) w;
          st = emit w 0x20000 (\<lambda>seq order. encode_configure_notify_event seq order w w above g override_redirect) st
      in case parent of
           None \<Rightarrow> st
         | Some p \<Rightarrow> emit p 0x80000 (\<lambda>seq order. encode_configure_notify_event seq order p w above g override_redirect) st)"

definition configure_now :: "redirect_backend \<Rightarrow> ConfigureWindowRequest \<Rightarrow> Window \<Rightarrow> ServerState \<Rightarrow> window_state" where
  "configure_now env r old st =
     (let sibling_host = Option.bind (Option.bind (cfg_sibling r) (window (st_resources st))) win_host_xid;
          (t, new) = configure_window r (st_resources st);
          st = st\<lparr>st_resources := t\<rparr>
      in case new of
           None \<Rightarrow> (st, [])
         | Some w \<Rightarrow>
             let i = win_id w; g = window_geometry w;
                 calls = (case Option.bind (window t i) win_host_xid of
                            None \<Rightarrow> [] | Some host \<Rightarrow> [ConfigureSubwindow host r sibling_host]);
                 st = configure_notifies i (map_option win_parent (window t i)) g (win_override_redirect w) st;
                 s = (if win_width w \<noteq> win_width old \<or> win_height w \<noteq> win_height old
                      then (case rotate_redirected_backing_on_resize env i (win_width w) (win_height w) (st, calls) of
                              (st, calls) \<Rightarrow> (fire_present_configure_notify_for_window i g st, calls))
                      else (st, calls));
                 st = (if cfg_value_mask r AND 0x001F \<noteq> 0 \<and> effective_redirect_mode_for_window (fst s) i \<noteq> None
                       then damage_window i (fst s) else fst s);
                 st = (if (win_width w > win_width old \<or> win_height w > win_height old) \<and>
                          map_or False (\<lambda>w. win_map_state w = Viewable) (window (st_resources st) i)
                       then emit_expose_subtree_to_state i (expose_window i st) else st)
             in (st, snd s))"

definition handle_configure_window ::
  "redirect_backend \<Rightarrow> (ServerState \<Rightarrow> int \<Rightarrow> int \<Rightarrow> ServerState) \<Rightarrow> ClientId \<Rightarrow> u16 \<Rightarrow> u8 list \<Rightarrow> ServerState
    \<Rightarrow> window_result" where
  "handle_configure_window env warp client_id sequence body st =
     (case configure_window_request body of
        None \<Rightarrow> no_calls (st, Handled)
      | Some r \<Rightarrow>
          (case configure_window_check r (st_resources st) of
             Ignore \<Rightarrow> no_calls (st, Handled)
           | Reject code bad \<Rightarrow> no_calls (emit_x11_error client_id sequence code bad 12 st)
           | Proceed \<Rightarrow>
               (case window (st_resources st) (cfg_window r) of
                  None \<Rightarrow> no_calls (st, Handled)
                | Some old \<Rightarrow>
                    let targets = redirect_targets st client_id (win_parent old) (win_override_redirect old)
                    in if targets \<noteq> []
                       then no_calls (fst (fanout_event_to_clients targets
                              (\<lambda>seq order. encode_configure_request_event seq order (win_parent old) (cfg_window r) r) st),
                              Handled)
                       else
                         let s = configure_now env r old st
                         in map_handled (Some (if st_pointer_confine_to (fst s) \<noteq> 0 then confine_pointer_now warp (fst s)
                                           else fst s, snd s)))))"

section \<open>ReparentWindow\<close>

definition reparent_on_host :: "redirect_backend \<Rightarrow> ReparentResult \<Rightarrow> ResourceTable \<Rightarrow> u32 \<Rightarrow> WindowCall list option" where
  "reparent_on_host env res t xid =
     (let host_parent = (if rr_new_parent res = ROOT_WINDOW then Some (backend_window_id env)
                         else Option.bind (window t (rr_new_parent res)) win_host_xid);
          moved = (case host_parent of None \<Rightarrow> [] | Some hp \<Rightarrow> [ReparentSubwindow xid hp (rr_x res) (rr_y res)])
      in if (case host_parent of None \<Rightarrow> False | Some hp \<Rightarrow> \<not> reparent_subwindow_ok env [] xid hp) then None
         else
           let left_root = (if rr_old_parent res = ROOT_WINDOW \<and> rr_new_parent res \<noteq> ROOT_WINDOW
                  then [HostCall (CallEventMask xid POINTER_EVENT_MASK False), RegisterSubwindow (rr_window res) xid] else []);
               to_root = (if rr_old_parent res \<noteq> ROOT_WINDOW \<and> rr_new_parent res = ROOT_WINDOW
                  then [HostCall (CallEventMask xid SUBWINDOW_EVENT_MASK False), RegisterTopLevel (rr_window res) xid] @
                       (if register_top_level_ok env moved then [BecameTopLevel xid] else []) else [])
           in Some (moved @ left_root @ to_root))"

definition reconcile_redirect :: "redirect_backend \<Rightarrow> ReparentResult \<Rightarrow> window_state \<Rightarrow> window_state" where
  "reconcile_redirect env res s =
     (let w = rr_window res; redirects = st_composite_redirects (fst s);
          old = hm_get redirects (rr_old_parent res, True); new = hm_get redirects (rr_new_parent res, True);
          had_backing = map_or False (\<lambda>win. win_redirected_backing win \<noteq> None) (window (st_resources (fst s)) w)
      in if \<not> supports_redirect_activation env \<or> hm_contains redirects (w, False) then s
         else
           (case (old, new) of
              (Some _, None) \<Rightarrow>
                if had_backing
                then (case teardown_redirect_for_window w (fst s) of (st, calls) \<Rightarrow> (st, snd s @ map HostCall calls))
                else s
            | (None, Some n) \<Rightarrow> if had_backing then s else activate_redirect_backing_for env w (rr_mode n) s
            | (Some old_record, Some n) \<Rightarrow>
                if rr_mode old_record \<noteq> rr_mode n then flip_redirect_target_mode env w (rr_mode n) s else s
            | (None, None) \<Rightarrow> s))"

definition reparent_notifies :: "ReparentResult \<Rightarrow> ServerState \<Rightarrow> ServerState" where
  "reparent_notifies res st =
     (let tell = (\<lambda>event_window targets st. fst (fanout_event_to_clients targets (\<lambda>seq order.
            encode_reparent_notify_event seq order event_window (rr_window res) (rr_new_parent res) (rr_x res) (rr_y res)
              (rr_override_redirect res)) st));
          on_window = subscribers_by_id st (rr_window res) 0x20000;
          on_old_parent = subscribers_by_id st (rr_old_parent res) 0x80000;
          on_new_parent = (if rr_old_parent res = rr_new_parent res then []
                           else subscribers_by_id st (rr_new_parent res) 0x80000)
      in tell (rr_new_parent res) on_new_parent (tell (rr_old_parent res) on_old_parent (tell (rr_window res) on_window st)))"

definition handle_reparent_window :: "redirect_backend \<Rightarrow> ClientId \<Rightarrow> u16 \<Rightarrow> u8 list \<Rightarrow> ServerState \<Rightarrow> window_result" where
  "handle_reparent_window env client_id sequence body st =
     (case reparent_window_request body of
        None \<Rightarrow> no_calls (st, Handled)
      | Some r \<Rightarrow>
          (case reparent_window r (st_resources st) of
             Inl ReparentBadWindow \<Rightarrow> no_calls (emit_x11_error client_id sequence BAD_WINDOW (rep_window r) 7 st)
           | Inl ReparentBadMatch \<Rightarrow> no_calls (emit_x11_error client_id sequence BAD_MATCH (rep_window r) 7 st)
           | Inr (t, res) \<Rightarrow>
               (case (case rr_host_xid res of None \<Rightarrow> Some [] | Some xid \<Rightarrow> reparent_on_host env res t xid) of
                  None \<Rightarrow> None
                | Some calls \<Rightarrow>
                    let s = reconcile_redirect env res (st\<lparr>st_resources := t\<rparr>, calls)
                    in map_handled (Some (reparent_notifies res (fst s), snd s)))))"

end
