(* ===== verification/WindowBackings.thy ===== *)
theory WindowBackings
  imports ConfigureRequests MapClaims TeardownClaims
begin

text \<open>
  The backing pixmaps that COMPOSITE gives to redirected windows have the size and the depth of
  their windows, whatever sequence of map, unmap, configure, circulate and reparent requests arrives and whatever
  the backend answers.
\<close>

section \<open>The invariant\<close>

text \<open>What the invariant reads of a window.\<close>

definition surface :: "Window \<Rightarrow> ResourceId \<times> RedirectedBacking option \<times> u32 option \<times> u16 \<times> u16 \<times> u8" where
  "surface w = (win_id w, win_redirected_backing w, win_host_xid w, win_width w, win_height w, win_depth w)"

definition surface_ok :: "ResourceId \<Rightarrow> ResourceId \<times> RedirectedBacking option \<times> u32 option \<times> u16 \<times> u16 \<times> u8 \<Rightarrow> bool" where
  "surface_ok k s = (case s of
     (i, Some b, host, width, height, depth) \<Rightarrow>
       i = k \<and> host \<noteq> None \<and> rb_width b = width \<and> rb_height b = height \<and> rb_depth b = depth
   | (i, None, _) \<Rightarrow> i = k)"

definition backings_ok :: "ResourceTable \<Rightarrow> bool" where
  "backings_ok t \<longleftrightarrow> (\<forall>k w. window t k = Some w \<longrightarrow> surface_ok k (surface w))"

lemma backings_ok_id: "backings_ok t \<Longrightarrow> window t k = Some w \<Longrightarrow> win_id w = k"
  unfolding backings_ok_def surface_ok_def surface_def by (drule spec [of _ k], drule spec [of _ w]) (simp split: option.splits)

text \<open>Two tables that agree on it, but for one window.\<close>

definition same_surfaces_but :: "ResourceId set \<Rightarrow> ResourceTable \<Rightarrow> ResourceTable \<Rightarrow> bool" where
  "same_surfaces_but X t t' \<longleftrightarrow>
     (\<forall>k. k \<notin> X \<longrightarrow> map_option surface (window t' k) = map_option surface (window t k))"

abbreviation same_surfaces :: "ResourceTable \<Rightarrow> ResourceTable \<Rightarrow> bool" where
  "same_surfaces \<equiv> same_surfaces_but {}"

lemma same_surfaces_refl [simp]: "same_surfaces_but X t t"
  by (simp add: same_surfaces_but_def)

lemma same_surfaces_trans: "same_surfaces_but X t t' \<Longrightarrow> same_surfaces_but X t' t'' \<Longrightarrow> same_surfaces_but X t t''"
  by (simp add: same_surfaces_but_def)

lemma same_surfaces_modify:
  "(\<And>w. window t k = Some w \<Longrightarrow> surface (f w) = surface w) \<Longrightarrow> same_surfaces t (modify_window k f t)"
  by (cases "window t k") (simp_all add: same_surfaces_but_def)

lemma same_surfaces_insert:
  "(\<And>w. window t k = Some w \<Longrightarrow> surface v = surface w) \<Longrightarrow> window t k \<noteq> None \<Longrightarrow> same_surfaces t (insert_window k v t)"
  by (auto simp: same_surfaces_but_def insert_window_def window_def)

lemma surfaces_ok_same:
  assumes "same_surfaces t t'" and "backings_ok t"
  shows "backings_ok t'"
  unfolding backings_ok_def
proof (intro allI impI)
  fix k w assume w: "window t' k = Some w"
  have "map_option surface (window t' k) = map_option surface (window t k)"
    using assms(1) unfolding same_surfaces_but_def by blast
  then obtain v where v: "window t k = Some v" "surface v = surface w" using w by (cases "window t k") simp_all
  have "surface_ok k (surface v)" using assms(2) v(1) unfolding backings_ok_def by blast
  then show "surface_ok k (surface w)" by (simp only: v(2))
qed

section \<open>The table operations\<close>

lemma surface_fields [simp]:
  "surface (w\<lparr>win_map_state := s\<rparr>) = surface w" "surface (w\<lparr>win_children := cs\<rparr>) = surface w"
  "surface (w\<lparr>win_parent := p, win_x := x, win_y := y\<rparr>) = surface w"
  by (simp_all add: surface_def)

lemma promote_surfaces: "promote_loop t pending = Some t' \<Longrightarrow> same_surfaces t t'"
proof (rule promote_loop.raw_induct [where P = "\<lambda>t _ t'. same_surfaces t t'"])
  fix promote t pending t'
  assume IH: "\<And>t pending t'. promote t pending = Some t' \<Longrightarrow> same_surfaces t t'"
    and step: "(case pending of [] \<Rightarrow> Some t
      | child # rest \<Rightarrow> (case window t child of None \<Rightarrow> promote t rest
          | Some w \<Rightarrow> (if win_map_state w = Unmapped then promote t rest
              else promote (modify_window child (\<lambda>w. w\<lparr>win_map_state := Viewable\<rparr>) t) (win_children w @ rest)))) = Some t'"
  have state: "same_surfaces t (modify_window c (\<lambda>w. w\<lparr>win_map_state := Viewable\<rparr>) t)" for c
    by (rule same_surfaces_modify) simp
  show "same_surfaces t t'"
    using step by (auto split: list.splits option.splits if_splits dest!: IH intro: same_surfaces_trans [OF state])
qed

lemma map_surfaces:
  assumes "map_window w t = Some (t', b)"
  shows "same_surfaces t t'"
proof -
  have state: "same_surfaces t (modify_window w (\<lambda>w. w\<lparr>win_map_state := s\<rparr>) t)" for s
    by (rule same_surfaces_modify) simp
  show ?thesis
    using assms state
    by (auto simp: map_window_def Let_def promote_unviewable_descendants_def split: option.splits if_splits
        dest!: promote_surfaces intro: same_surfaces_trans)
qed

lemma unmap_surfaces: "same_surfaces t (fst (unmap_window w t))"
  by (auto simp: unmap_window_def intro!: same_surfaces_modify split: option.split)

lemma circulate_surfaces: "same_surfaces t (fst (circulate_window c d t))"
  by (auto simp: circulate_window_def Let_def intro!: same_surfaces_insert split: option.split)

lemma restack_surfaces: "same_surfaces t (restack_window w sibling mode t)"
  by (auto simp: restack_window_def apply_restack_def Let_def intro!: same_surfaces_insert
      split: option.split RestackAction.split)

lemma reparent_surfaces:
  assumes "reparent_window r t = Inr (t', res)"
  shows "same_surfaces t t'"
  using assms
  by (auto simp: reparent_window_def Let_def split: if_splits option.splits
      intro!: same_surfaces_trans [OF same_surfaces_modify same_surfaces_trans [OF same_surfaces_modify same_surfaces_modify]])

lemma configure_surfaces:
  "same_surfaces_but {cfg_window r} t (fst (configure_window r t))"
proof (cases "window t (cfg_window r)")
  case (Some w)
  have "same_surfaces_but {cfg_window r} t (insert_window (cfg_window r) (configure_geometry r w) t)"
    by (simp add: same_surfaces_but_def)
  then show ?thesis
    using restack_surfaces [of "insert_window (cfg_window r) (configure_geometry r w) t"]
    by (simp add: configure_window_def Some Let_def same_surfaces_but_def)
qed (simp add: configure_window_def)

lemma configured_window:
  assumes w: "window t (cfg_window r) = Some w"
  shows "\<exists>w'. snd (configure_window r t) = Some w' \<and> window (fst (configure_window r t)) (cfg_window r) = Some w' \<and>
    surface w' = surface (configure_geometry r w) \<and> win_id w' = win_id w"
proof -
  let ?t = "insert_window (cfg_window r) (configure_geometry r w) t"
  let ?u = "restack_window (cfg_window r) (cfg_sibling r) (cfg_stack_mode r) ?t"
  have "map_option (\<lambda>w. (surface w, win_id w)) (window ?u (cfg_window r)) =
      map_option (\<lambda>w. (surface w, win_id w)) (window ?t (cfg_window r))"
    by (auto simp: restack_window_def apply_restack_def Let_def split: option.split RestackAction.split)
  then obtain w' where "window ?u (cfg_window r) = Some w'" "surface w' = surface (configure_geometry r w)"
    "win_id w' = win_id (configure_geometry r w)"
    by (cases "window ?u (cfg_window r)") simp_all
  then show ?thesis using w by (simp add: configure_window_def Let_def configure_geometry_def)
qed

section \<open>The handlers\<close>

lemma error_resources [simp]: "st_resources (fst (emit_x11_error c sequence code bad opcode st)) = st_resources st"
proof -
  have "same_but_clients st (fst (emit_x11_error c sequence code bad opcode st))"
    by (simp add: emit_x11_error_def emit_x11_error_with_minor_def)
  then show ?thesis by (auto simp: same_but_clients_def)
qed

lemma set_backing_ok:
  assumes "backings_ok (st_resources st)" and "window (st_resources st) w = Some win" and "win_host_xid win \<noteq> None"
  shows "backings_ok (st_resources (set_backing w (Some \<lparr>rb_host_pixmap = p, rb_width = win_width win,
    rb_height = win_height win, rb_depth = win_depth win\<rparr>) st))"
  using assms backings_ok_id [OF assms(1,2)] by (auto simp: backings_ok_def set_backing_def surface_ok_def surface_def split: if_splits)

lemma clear_backing_ok: "backings_ok (st_resources st) \<Longrightarrow> backings_ok (st_resources (set_backing w None st))"
  using backings_ok_id [of "st_resources st" w]
  by (auto simp: backings_ok_def set_backing_def surface_ok_def surface_def split: if_splits)

lemma activate_ok:
  assumes "backings_ok (st_resources (fst s))"
  shows "backings_ok (st_resources (fst (activate_redirect_backing_for env w mode s)))"
  using assms
  by (auto simp: activate_redirect_backing_for_def also_call_def Let_def intro!: set_backing_ok split: option.split)

lemma map_on_host_ok:
  assumes "backings_ok (st_resources (fst s))"
  shows "backings_ok (st_resources (fst (map_on_host env w s)))"
proof -
  have "backings_ok (st_resources (fst (maybe_activate_child_under_redirected_parent env w s)))"
    if "backings_ok (st_resources (fst s))" for s
    using that by (auto simp: maybe_activate_child_under_redirected_parent_def intro: activate_ok split: option.split)
  then show ?thesis using assms by (auto simp: map_on_host_def also_call_def split: option.split)
qed

lemma map_now_ok:
  assumes "backings_ok (st_resources st)" and "map_now env w st = Some (st', calls)"
  shows "backings_ok (st_resources st')"
proof -
  obtain t b where t: "map_window w (st_resources st) = Some (t, b)"
    using assms(2) by (auto simp: map_now_def split: option.splits)
  have "backings_ok (st_resources (fst (map_on_host env w (st\<lparr>st_resources := t\<rparr>, []))))"
    by (rule map_on_host_ok) (use surfaces_ok_same [OF map_surfaces [OF t] assms(1)] in simp)
  moreover have "st_resources st' = st_resources (fst (map_on_host env w (st\<lparr>st_resources := t\<rparr>, [])))"
    using assms(2) by (auto simp: map_now_def t Let_def split: option.splits)
  ultimately show ?thesis by simp
qed

lemma map_child_ok:
  assumes "backings_ok (st_resources (fst s))" and "map_child env parent c s = Some s'"
  shows "backings_ok (st_resources (fst s'))"
proof -
  obtain t b where t: "map_window c (st_resources (fst s)) = Some (t, b)"
    using assms(2) by (auto simp: map_child_def split: option.splits)
  have "backings_ok (st_resources (fst (map_on_host env c ((fst s)\<lparr>st_resources := t\<rparr>, snd s))))"
    by (rule map_on_host_ok) (use surfaces_ok_same [OF map_surfaces [OF t] assms(1)] in simp)
  moreover have "st_resources (fst s') = st_resources (fst (map_on_host env c ((fst s)\<lparr>st_resources := t\<rparr>, snd s)))"
    using assms(2) by (auto simp: map_child_def t Let_def)
  ultimately show ?thesis by simp
qed

lemma map_children_ok:
  "backings_ok (st_resources (fst s)) \<Longrightarrow> map_children env parent cs s = Some s' \<Longrightarrow> backings_ok (st_resources (fst s'))"
  by (induction cs arbitrary: s) (auto simp: bind_eq_Some_conv dest: map_child_ok)

lemma handle_map_ok:
  assumes ok: "backings_ok (st_resources st)"
  shows "handle_map_window env c sequence body st = Some (st', calls, out) \<Longrightarrow> backings_ok (st_resources st')"
    and "handle_map_subwindows env c sequence body st = Some (st', calls, out) \<Longrightarrow> backings_ok (st_resources st')"
proof -
  assume "handle_map_window env c sequence body st = Some (st', calls, out)"
  then have "st_resources st' = st_resources st \<or> (\<exists>w. map_now env w st = Some (st', calls))"
    by (auto simp: handle_map_window_def no_calls_def map_handled_def Let_def fanout_resources split: if_splits option.splits)
  then show "backings_ok (st_resources st')" using ok map_now_ok [OF ok] by auto
next
  assume "handle_map_subwindows env c sequence body st = Some (st', calls, out)"
  then have "st_resources st' = st_resources st \<or>
      (\<exists>p cs. map_children env p cs (st, []) = Some (st', calls))"
    by (auto simp: handle_map_subwindows_def no_calls_def map_handled_def Let_def split: if_splits option.splits)
  then show "backings_ok (st_resources st')" using ok map_children_ok [of "(st, [])"] by auto
qed

lemma emit_frame [simp]: "frame (emit w bits encode st) = frame st"
  by (simp add: emit_def)

lemma revert_unviewable_resources: "st_resources (revert_unviewable_focus st) = st_resources st"
proof -
  have "frame (revert_step lost ds d st) = frame st" for lost ds d st
    by (auto simp: revert_step_def do_revert_def Let_def case_prod_beta split: Xi1FocusTarget.split)
  then have "frame (revert_unviewable_focus st) = frame st"
    unfolding revert_unviewable_focus_def by (rule frame_fold)
  then show ?thesis by (rule same_frame_resources)
qed

lemma core_focus_resources: "st_resources (revert_core_focus_if_unviewable st) = st_resources st"
proof -
  have "st_resources (emit_core_focus_transition a b m s) = st_resources s" for a b m s
    by (rule same_frame_resources) simp
  then have "st_resources (revert_core_focus_from w dying st) = st_resources st" for w dying
    by (simp add: revert_core_focus_from_def mirror_focus_def Let_def case_prod_beta)
  then show ?thesis by (simp add: revert_core_focus_if_unviewable_def Let_def split: option.split)
qed

lemma revert_focus_and_grabs_resources:
  assumes "revert_focus_and_grabs st = Some st'"
  shows "st_resources st' = st_resources st"
proof -
  have "rest_of st' = rest_of (revert_core_focus_if_unviewable (revert_unviewable_focus st))"
    by (rule rest_of_unviewable) (use assms in \<open>simp add: revert_focus_and_grabs_def\<close>)
  then have "st_resources st' = st_resources (revert_core_focus_if_unviewable (revert_unviewable_focus st))"
    by (rule rest_of_fields)
  then show ?thesis by (simp add: core_focus_resources revert_unviewable_resources)
qed

lemma release_device_grabs_resources:
  assumes "release_device_grabs_for_unviewable st = Some st'"
  shows "st_resources st' = st_resources st"
proof -
  let ?f = "\<lambda>d st. xi1_thaw_device d (st\<lparr>st_xi1_active_grabs := hm_remove d (st_xi1_active_grabs st)\<rparr>)"
  have step: "st_resources s' = st_resources s" if "?f d s = Some s'" for d s s'
  proof -
    have "frame s' = frame (s\<lparr>st_xi1_active_grabs := hm_remove d (st_xi1_active_grabs s)\<rparr>)"
      using frames_thaw that by (auto simp: frames_def)
    then show ?thesis by (auto dest: same_frame_resources)
  qed
  have "for_devices ?f ds s = Some s' \<Longrightarrow> st_resources s' = st_resources s" for ds s s'
    by (induction ds arbitrary: s) (auto simp: bind_eq_Some_conv dest: step)
  then show ?thesis using assms unfolding release_device_grabs_for_unviewable_def by blast
qed

lemma unmap_notifies_resources [simp]: "st_resources (unmap_notifies w p st) = st_resources st"
  by (simp add: unmap_notifies_def)

lemma unmap_pending_surfaces: "same_surfaces t (fst (unmap_pending cs t))"
proof (induction cs arbitrary: t)
  case (Cons c cs)
  show ?case
    using same_surfaces_trans [OF unmap_surfaces Cons.IH, of t c]
    by (simp add: Let_def case_prod_beta)
qed simp

lemma handle_unmap_ok:
  assumes ok: "backings_ok (st_resources st)"
  shows "handle_unmap_window c sequence body st = Some (st', calls, out) \<Longrightarrow> backings_ok (st_resources st')"
    and "handle_unmap_subwindows c sequence body st = Some (st', calls, out) \<Longrightarrow> backings_ok (st_resources st')"
proof -
  assume "handle_unmap_window c sequence body st = Some (st', calls, out)"
  then have "st_resources st' = st_resources st \<or> (\<exists>w. st_resources st' = fst (unmap_window w (st_resources st)))"
    by (auto simp: handle_unmap_window_def no_calls_def Let_def case_prod_beta bind_eq_Some_conv
        dest!: release_device_grabs_resources revert_focus_and_grabs_resources split: if_splits option.splits)
  then show "backings_ok (st_resources st')" using ok surfaces_ok_same [OF unmap_surfaces ok] by auto
next
  have told: "st_resources (fold (\<lambda>(c, _). unmap_notifies c p) ps s) = st_resources s" for p ps s
    by (rule fold_resources) (simp add: case_prod_beta)
  assume "handle_unmap_subwindows c sequence body st = Some (st', calls, out)"
  then have "st_resources st' = st_resources st \<or> (\<exists>cs. st_resources st' = fst (unmap_pending cs (st_resources st)))"
    by (auto simp: handle_unmap_subwindows_def no_calls_def Let_def case_prod_beta told
        dest!: revert_focus_and_grabs_resources split: if_splits option.splits)
  then show "backings_ok (st_resources st')" using ok surfaces_ok_same [OF unmap_pending_surfaces ok] by auto
qed

lemma handle_circulate_ok:
  assumes ok: "backings_ok (st_resources st)" and "handle_circulate_window c sequence d body st = (st', out)"
  shows "backings_ok (st_resources st')"
proof -
  have "st_resources (fst (handle_circulate_window c sequence d body st)) = st_resources st \<or>
      (\<exists>w. st_resources (fst (handle_circulate_window c sequence d body st)) = fst (circulate_window w d (st_resources st)))"
    by (auto simp: handle_circulate_window_def Let_def fanout_resources split: option.split list.split)
  then have "st_resources st' = st_resources st \<or> (\<exists>w. st_resources st' = fst (circulate_window w d (st_resources st)))"
    by (simp add: assms(2))
  then show ?thesis using ok surfaces_ok_same [OF circulate_surfaces ok] by auto
qed

lemma teardown_ok:
  assumes "backings_ok (st_resources st)"
  shows "backings_ok (st_resources (fst (teardown_redirect_for_window w st)))"
  using clear_backing_ok [OF assms, of w] assms
  by (auto simp: teardown_redirect_for_window_def Let_def set_backing_def split: option.split)

lemma flip_ok:
  assumes "backings_ok (st_resources (fst s))"
  shows "backings_ok (st_resources (fst (flip_redirect_target_mode env w mode s)))"
  using assms by (auto simp: flip_redirect_target_mode_def also_call_def activate_ok split: option.split)

lemma reconcile_ok:
  assumes "backings_ok (st_resources (fst s))"
  shows "backings_ok (st_resources (fst (reconcile_redirect env res s)))"
  using assms teardown_ok [OF assms, of "rr_window res"]
  by (auto simp: reconcile_redirect_def Let_def activate_ok flip_ok case_prod_beta split: option.split)

lemma reparent_notifies_resources [simp]: "st_resources (reparent_notifies res st) = st_resources st"
  by (simp add: reparent_notifies_def Let_def fanout_resources)

lemma handle_reparent_ok:
  assumes ok: "backings_ok (st_resources st)" and "handle_reparent_window env c sequence body st = Some (st', calls, out)"
  shows "backings_ok (st_resources st')"
proof -
  have "st_resources st' = st_resources st \<or> (\<exists>r t res cs. reparent_window r (st_resources st) = Inr (t, res) \<and>
      st_resources st' = st_resources (fst (reconcile_redirect env res (st\<lparr>st_resources := t\<rparr>, cs))))"
    using assms(2)
    by (auto simp: handle_reparent_window_def no_calls_def map_handled_def Let_def
        split: option.splits sum.splits ReparentWindowError.splits; blast)
  then show ?thesis
  proof (elim disjE exE conjE)
    fix r t res cs
    assume t: "reparent_window r (st_resources st) = Inr (t, res)"
      and st': "st_resources st' = st_resources (fst (reconcile_redirect env res (st\<lparr>st_resources := t\<rparr>, cs)))"
    show ?thesis
      unfolding st' by (rule reconcile_ok) (use surfaces_ok_same [OF reparent_surfaces [OF t] ok] in simp)
  qed (simp add: ok)
qed

section \<open>ConfigureWindow\<close>

definition ok_but :: "ResourceId \<Rightarrow> ResourceTable \<Rightarrow> bool" where
  "ok_but i t \<longleftrightarrow> (\<forall>k w. k \<noteq> i \<longrightarrow> window t k = Some w \<longrightarrow> surface_ok k (surface w))"

lemma participate_fst [simp]: "fst (participate w host b s) = fst s"
  by (simp add: participate_def also_call_def split: option.split)

lemma rotate_ok:
  assumes others: "ok_but i (st_resources (fst s))" and w: "window (st_resources (fst s)) i = Some w"
    and i: "win_id w = i" and host: "win_redirected_backing w \<noteq> None \<Longrightarrow> win_host_xid w \<noteq> None"
  shows "backings_ok (st_resources (fst (rotate_redirected_backing_on_resize env i (win_width w) (win_height w) s)))"
proof (cases "win_redirected_backing w")
  case None
  then have "surface_ok i (surface w)" using i by (simp add: surface_ok_def surface_def)
  then have "backings_ok (st_resources (fst s))"
    using others w unfolding backings_ok_def ok_but_def by (metis option.inject)
  then show ?thesis by (simp add: rotate_redirected_backing_on_resize_def w None)
next
  case (Some b)
  then obtain h where h: "win_host_xid w = Some h" using host by auto
  have put: "backings_ok (st_resources (set_backing i c (fst s)))"
    if "c = None \<or> (\<exists>p. c = Some \<lparr>rb_host_pixmap = p, rb_width = win_width w, rb_height = win_height w, rb_depth = win_depth w\<rparr>)"
    for c
    using that others w h i
    by (auto simp: backings_ok_def ok_but_def set_backing_def surface_ok_def surface_def split: if_splits)
  show ?thesis
    by (simp add: rotate_redirected_backing_on_resize_def w Some h Let_def put split: option.split)
qed

lemma present_configure_resources [simp]:
  "st_resources (fire_present_configure_notify_for_window w g st) = st_resources st"
  unfolding fire_present_configure_notify_for_window_def
  by (rule fold_resources) (simp add: present_configure_one_def set_client_def split: prod.split option.split)

lemma configure_notifies_resources [simp]: "st_resources (configure_notifies w p g b st) = st_resources st"
  by (simp add: configure_notifies_def Let_def split: option.split)

lemma configure_now_ok:
  assumes ok: "backings_ok (st_resources st)" and w: "window (st_resources st) (cfg_window r) = Some old"
  shows "backings_ok (st_resources (fst (configure_now env r old st)))"
proof -
  let ?i = "cfg_window r"
  have old: "surface_ok ?i (surface old)" using ok w unfolding backings_ok_def by blast
  have i: "win_id old = ?i" using old by (simp add: surface_ok_def surface_def split: option.splits)
  obtain t w' where c: "configure_window r (st_resources st) = (t, Some w')" and t: "window t ?i = Some w'"
    and s: "surface w' = surface (configure_geometry r old)" and id: "win_id w' = ?i"
    using configured_window [OF w] i by (metis prod.collapse)
  have same: "win_redirected_backing w' = win_redirected_backing old" "win_host_xid w' = win_host_xid old"
    "win_depth w' = win_depth old"
    using s by (simp_all add: surface_def configure_geometry_def)
  have host: "win_host_xid w' \<noteq> None" if "win_redirected_backing w' \<noteq> None"
    using old that by (auto simp: same surface_ok_def surface_def)
  have others: "ok_but ?i t"
    unfolding ok_but_def
  proof (intro allI impI)
    fix k v assume k: "k \<noteq> ?i" "window t k = Some v"
    have "map_option surface (window t k) = map_option surface (window (st_resources st) k)"
      using configure_surfaces [of r "st_resources st"] k(1) by (simp add: c same_surfaces_but_def)
    then obtain u where "window (st_resources st) k = Some u" "surface u = surface v"
      using k(2) by (cases "window (st_resources st) k") simp_all
    then show "surface_ok k (surface v)" using ok unfolding backings_ok_def by metis
  qed
  define calls where "calls = (case Option.bind (window t ?i) win_host_xid of
    None \<Rightarrow> [] | Some host \<Rightarrow> [ConfigureSubwindow host r
      (Option.bind (Option.bind (cfg_sibling r) (window (st_resources st))) win_host_xid)])"
  define told where "told = configure_notifies ?i (map_option win_parent (window t ?i)) (window_geometry w')
    (win_override_redirect w') (st\<lparr>st_resources := t\<rparr>)"
  have told: "st_resources told = t" by (simp add: told_def)
  have out: "st_resources (fst (configure_now env r old st)) =
      (if win_width w' \<noteq> win_width old \<or> win_height w' \<noteq> win_height old
       then st_resources (fst (rotate_redirected_backing_on_resize env ?i (win_width w') (win_height w') (told, calls)))
       else t)"
    unfolding configure_now_def c prod.case Let_def option.case id calls_def [symmetric] told_def [symmetric]
    by (simp add: case_prod_beta told)
  show ?thesis
  proof (cases "win_width w' \<noteq> win_width old \<or> win_height w' \<noteq> win_height old")
    case True
    have "backings_ok (st_resources (fst (rotate_redirected_backing_on_resize env ?i (win_width w') (win_height w') (told, calls))))"
      by (rule rotate_ok) (use others t host told id in simp_all)
    then show ?thesis using True by (simp only: out if_True)
  next
    case False
    then have "surface w' = surface old" using i id by (simp add: surface_def same)
    then have "backings_ok t" using others t old unfolding backings_ok_def ok_but_def by (metis option.inject)
    then show ?thesis using False by (simp only: out if_False)
  qed
qed

lemma handle_configure_ok:
  assumes ok: "backings_ok (st_resources st)" and warp: "\<And>st x y. st_resources (warp st x y) = st_resources st"
    and "handle_configure_window env warp c sequence body st = Some (st', calls, out)"
  shows "backings_ok (st_resources st')"
proof -
  have confine: "st_resources (confine_pointer_now warp s) = st_resources s" for s
    by (simp add: confine_pointer_now_def Let_def case_prod_beta warp split: option.split)
  have "st_resources st' = st_resources st \<or> (\<exists>r old. window (st_resources st) (cfg_window r) = Some old \<and>
      st_resources st' = st_resources (fst (configure_now env r old st)))"
    using assms(3)
    by (auto simp: handle_configure_window_def no_calls_def map_handled_def Let_def fanout_resources confine
        split: option.splits verdict.splits if_splits; blast)
  then show ?thesis
    using ok configure_now_ok [OF ok] by auto
qed

section \<open>All the requests\<close>

text \<open>
  A handled request that maps, unmaps, configures, circulates or reparents windows. The backend's
  \<open>warp_pointer_root\<close> is the argument \<open>warp\<close>.
\<close>

inductive window_request ::
  "redirect_backend \<Rightarrow> (ServerState \<Rightarrow> int \<Rightarrow> int \<Rightarrow> ServerState) \<Rightarrow> ServerState \<Rightarrow> ServerState \<Rightarrow> bool"
  for env warp where
  Map: "handle_map_window env c sequence body st = Some (st', calls, out) \<Longrightarrow> window_request env warp st st'"
| MapSub: "handle_map_subwindows env c sequence body st = Some (st', calls, out) \<Longrightarrow> window_request env warp st st'"
| Unmap: "handle_unmap_window c sequence body st = Some (st', calls, out) \<Longrightarrow> window_request env warp st st'"
| UnmapSub: "handle_unmap_subwindows c sequence body st = Some (st', calls, out) \<Longrightarrow> window_request env warp st st'"
| Configure: "handle_configure_window env warp c sequence body st = Some (st', calls, out) \<Longrightarrow> window_request env warp st st'"
| Circulate: "handle_circulate_window c sequence d body st = (st', out) \<Longrightarrow> window_request env warp st st'"
| Reparent: "handle_reparent_window env c sequence body st = Some (st', calls, out) \<Longrightarrow> window_request env warp st st'"


lemma window_request_ok:
  assumes "window_request env warp st st'" and "\<And>st x y. st_resources (warp st x y) = st_resources st"
    and "backings_ok (st_resources st)"
  shows "backings_ok (st_resources st')"
  using assms(1)
proof cases
  case (Configure c sequence body calls out)
  show ?thesis by (rule handle_configure_ok [OF assms(3) _ Configure]) (rule assms(2))
qed (use assms(3) in \<open>auto intro: handle_map_ok handle_unmap_ok handle_circulate_ok handle_reparent_ok\<close>)

lemma window_requests_ok:
  assumes "(window_request env warp)\<^sup>*\<^sup>* st st'" and "\<And>st x y. st_resources (warp st x y) = st_resources st"
    and "backings_ok (st_resources st)"
  shows "backings_ok (st_resources st')"
  using assms(1)
proof (induction rule: rtranclp_induct)
  case base
  show ?case by (rule assms(3))
next
  case (step s s')
  show ?case by (rule window_request_ok [OF step(2) _ step(3)]) (rule assms(2))
qed

lemma backings_okD:
  assumes "backings_ok t" and "window t k = Some w" and "win_redirected_backing w = Some b"
  shows "win_host_xid w \<noteq> None \<and> rb_width b = win_width w \<and> rb_height b = win_height w \<and> rb_depth b = win_depth w"
proof -
  have "surface_ok k (surface w)" using assms(1,2) unfolding backings_ok_def by blast
  then show ?thesis using assms(3) by (simp add: surface_ok_def surface_def)
qed


lemma configure_answers: "\<exists>st' calls out. handle_configure_window env warp c sequence body st = Some (st', calls, out)"
  by (auto simp: handle_configure_window_def no_calls_def map_handled_def Let_def split: option.split verdict.split)

text \<open>\<open>tree3\<close> with its first window redirected, and the ConfigureWindow that makes it 80 by 60.\<close>

definition backed_state :: ServerState where
  "backed_state = managed_state\<lparr>st_resources := modify_window 0x100001
     (\<lambda>w. w\<lparr>win_host_xid := Some 7, win_redirected_backing :=
       Some \<lparr>rb_host_pixmap = 9, rb_width = win_width w, rb_height = win_height w, rb_depth = win_depth w\<rparr>\<rparr>) tree3\<rparr>"

definition resize_body :: "u8 list" where
  "resize_body = [1, 0, 16, 0, 12, 0, 0, 0, 80, 0, 0, 0, 60, 0, 0, 0]"

lemma backed_state_ok: "backings_ok (st_resources backed_state)"
  by (auto simp: backed_state_def backings_ok_def tree3_window tree_window_def root_window_def window_placeholder_def
      surface_ok_def surface_def ROOT_WINDOW_def split: if_splits)


end
