(* ===== verification/KmsStore.thy ===== *)
theory KmsStore
  imports InputTypes
begin

text \<open>
  The drawables of the KMS backend (\<open>kms/v2/store.rs\<close>): the images behind windows, pixmaps and cursors,
  their references, the fences they wait for before they are destroyed, the damage the compositor still has
  to present, and the pool that keeps small images for reuse (\<open>kms/vk/pixmap_pool.rs\<close>).

  Vulkan's handles are numbers, 0 the null handle; what the device is asked to destroy is returned as a list of
  calls. A fence ticket is a number too: \<open>pf_signaled\<close> says which fences the device has signalled when a
  function asks. Layouts, formats and file descriptors are opaque numbers.
\<close>

section \<open>Regions\<close>

record Rect2D =
  r2_x :: i32
  r2_y :: i32
  r2_width :: u32
  r2_height :: u32

type_synonym Extent2D = "u32 \<times> u32"

definition saturating_add_unsigned :: "i32 \<Rightarrow> u32 \<Rightarrow> i32" where
  "saturating_add_unsigned x w = (if sint x + uint w > 0x7FFFFFFF then 0x7FFFFFFF else x + w)"

type_synonym RegionSet = "Rect2D list"

definition rs_add :: "Rect2D \<Rightarrow> RegionSet \<Rightarrow> RegionSet" where
  "rs_add r rs = (if r2_width r = 0 \<or> r2_height r = 0 then rs else rs @ [r])"

definition rs_union_with :: "RegionSet \<Rightarrow> RegionSet \<Rightarrow> RegionSet" where
  "rs_union_with other rs = fold rs_add other rs"

definition rs_subtract :: "RegionSet \<Rightarrow> RegionSet \<Rightarrow> RegionSet" where
  "rs_subtract other rs = (if other = [] then rs else filter (\<lambda>r. \<not> list_ex (\<lambda>q. q = r) other) rs)"

definition i32_min :: "i32 \<Rightarrow> i32 \<Rightarrow> i32" where
  "i32_min a b = (if sint b < sint a then b else a)"

definition i32_max :: "i32 \<Rightarrow> i32 \<Rightarrow> i32" where
  "i32_max a b = (if sint b > sint a then b else a)"

definition rs_bounding_rect :: "RegionSet \<Rightarrow> Rect2D option" where
  "rs_bounding_rect rs = (case rs of
     [] \<Rightarrow> None
   | r # rest \<Rightarrow>
       let x0 = fold (\<lambda>r. i32_min (r2_x r)) rest (r2_x r);
           y0 = fold (\<lambda>r. i32_min (r2_y r)) rest (r2_y r);
           x1 = fold (\<lambda>r. i32_max (saturating_add_unsigned (r2_x r) (r2_width r))) rest
                  (saturating_add_unsigned (r2_x r) (r2_width r));
           y1 = fold (\<lambda>r. i32_max (saturating_add_unsigned (r2_y r) (r2_height r))) rest
                  (saturating_add_unsigned (r2_y r) (r2_height r))
       in Some \<lparr>r2_x = x0, r2_y = y0, r2_width = i32_max (x1 - x0) 0, r2_height = i32_max (y1 - y0) 0\<rparr>)"

section \<open>The pool of images\<close>

record PixmapPoolKey =
  pk_width :: u32
  pk_height :: u32
  pk_format :: u32

record PooledPixmapImage =
  pi_image :: u64
  pi_view :: u64
  pi_memory :: u64
  pi_layout :: u32

record PixmapPoolStats =
  total_takes_hit :: u64
  total_takes_miss :: u64
  total_returns_accepted :: u64
  total_returns_rejected_bucket_full :: u64
  total_returns_rejected_oversize :: u64
  oversize_by_bucket :: "u64 list"

record PixmapPool =
  pp_buckets :: "(PixmapPoolKey, PooledPixmapImage list) hashmap"
  pp_stats :: PixmapPoolStats

definition PIXMAP_POOL_BUCKET_CAP :: nat where "PIXMAP_POOL_BUCKET_CAP = 32"
definition MAX_POOLED_DIM :: u32 where "MAX_POOLED_DIM = 256"
definition OVERSIZE_BIN_THRESHOLDS :: "u32 list" where "OVERSIZE_BIN_THRESHOLDS = [256, 512, 1024, 0xFFFFFFFF]"

definition oversize_bin_index :: "u32 \<Rightarrow> nat" where
  "oversize_bin_index d = (case position (\<lambda>threshold. d \<le> threshold) OVERSIZE_BIN_THRESHOLDS of
     None \<Rightarrow> length OVERSIZE_BIN_THRESHOLDS - 1 | Some i \<Rightarrow> i)"

definition pixmap_pool_new :: PixmapPool where
  "pixmap_pool_new = \<lparr>pp_buckets = [], pp_stats = \<lparr>total_takes_hit = 0, total_takes_miss = 0,
     total_returns_accepted = 0, total_returns_rejected_bucket_full = 0, total_returns_rejected_oversize = 0,
     oversize_by_bucket = [0, 0, 0, 0]\<rparr>\<rparr>"

definition pool_eligible :: "PixmapPoolKey \<Rightarrow> bool" where
  "pool_eligible key \<longleftrightarrow> pk_width key \<le> MAX_POOLED_DIM \<and> pk_height key \<le> MAX_POOLED_DIM"

definition bucket :: "PixmapPool \<Rightarrow> PixmapPoolKey \<Rightarrow> PooledPixmapImage list" where
  "bucket pool key = (case hm_get (pp_buckets pool) key of None \<Rightarrow> [] | Some b \<Rightarrow> b)"

definition try_take :: "PixmapPoolKey \<Rightarrow> PixmapPool \<Rightarrow> PooledPixmapImage option \<times> PixmapPool" where
  "try_take key pool =
     (if \<not> pool_eligible key then (None, pool)
      else let s = pp_stats pool
           in case bucket pool key of
                [] \<Rightarrow> (None, pool\<lparr>pp_stats := s\<lparr>total_takes_miss := total_takes_miss s + 1\<rparr>\<rparr>)
              | e # rest \<Rightarrow> (Some e, pool\<lparr>pp_buckets := hm_insert key rest (pp_buckets pool),
                              pp_stats := s\<lparr>total_takes_hit := total_takes_hit s + 1\<rparr>\<rparr>))"

text \<open>\<open>Ok(())\<close> is \<open>True\<close>, \<open>Err(entry)\<close> is \<open>False\<close>: the entry is the caller's again.\<close>

definition try_return :: "PixmapPoolKey \<Rightarrow> PooledPixmapImage \<Rightarrow> PixmapPool \<Rightarrow> bool \<times> PixmapPool" where
  "try_return key entry pool =
     (let s = pp_stats pool
      in if \<not> pool_eligible key then
           let bin = oversize_bin_index (max (pk_width key) (pk_height key))
           in (False, pool\<lparr>pp_stats := s\<lparr>
                 total_returns_rejected_oversize := total_returns_rejected_oversize s + 1,
                 oversize_by_bucket := (oversize_by_bucket s)[bin := oversize_by_bucket s ! bin + 1]\<rparr>\<rparr>)
         else
           let b = bucket pool key; pool = pool\<lparr>pp_buckets := hm_insert key b (pp_buckets pool)\<rparr>
           in if length b \<ge> PIXMAP_POOL_BUCKET_CAP then
                (False, pool\<lparr>pp_stats := s\<lparr>total_returns_rejected_bucket_full := total_returns_rejected_bucket_full s + 1\<rparr>\<rparr>)
              else
                (True, pool\<lparr>pp_buckets := hm_insert key (b @ [entry]) (pp_buckets pool),
                   pp_stats := s\<lparr>total_returns_accepted := total_returns_accepted s + 1\<rparr>\<rparr>))"

section \<open>Storage\<close>

datatype VkCall = DestroyImageView u64 | DestroyImage u64 | FreeMemory u64

definition drain_pool :: "PixmapPool \<Rightarrow> PixmapPool \<times> VkCall list" where
  "drain_pool pool = (pool\<lparr>pp_buckets := []\<rparr>,
     concat (map (\<lambda>e. [DestroyImageView (pi_view e), DestroyImage (pi_image e), FreeMemory (pi_memory e)])
       (concat (hm_values (pp_buckets pool)))))"

text \<open>The handles of an imported image (\<open>kms/vk/target.rs\<close>), whose \<open>Drop\<close> releases them.\<close>

record DrawableImage =
  di_image :: u64
  di_view :: u64
  di_mask_view :: "u64 option"
  di_no_alpha_view :: "u64 option"
  di_memory :: u64

definition drop_drawable_image :: "DrawableImage \<Rightarrow> VkCall list" where
  "drop_drawable_image d =
     (case di_mask_view d of None \<Rightarrow> [] | Some v \<Rightarrow> [DestroyImageView v]) @
     (case di_no_alpha_view d of None \<Rightarrow> [] | Some v \<Rightarrow> [DestroyImageView v]) @
     [DestroyImageView (di_view d), DestroyImage (di_image d), FreeMemory (di_memory d)]"

record Storage =
  sg_image :: u64
  sg_memory :: u64
  sg_image_view :: u64
  sg_sample_view :: u64
  sg_extent :: Extent2D
  sg_format :: u32
  sg_depth :: u8
  sg_layout :: u32
  sg_is_test_stub :: bool
  sg_imported :: "DrawableImage option"
  sg_promoted_exportable :: bool
  sg_export_stride :: u32
  sg_export_size :: u64
  sg_export_modifier :: u64

definition LAYOUT_UNDEFINED :: u32 where "LAYOUT_UNDEFINED = 0"

definition new_server_owned :: "u64 \<Rightarrow> u64 \<Rightarrow> u64 \<Rightarrow> u64 \<Rightarrow> Extent2D \<Rightarrow> u32 \<Rightarrow> u8 \<Rightarrow> Storage" where
  "new_server_owned img memory image_view sample_view extent format depth =
     \<lparr>sg_image = img, sg_memory = memory, sg_image_view = image_view, sg_sample_view = sample_view,
      sg_extent = extent, sg_format = format, sg_depth = depth, sg_layout = LAYOUT_UNDEFINED,
      sg_is_test_stub = False, sg_imported = None, sg_promoted_exportable = False, sg_export_stride = 0,
      sg_export_size = 0, sg_export_modifier = 0\<rparr>"

definition from_imported_drawable_image :: "DrawableImage \<Rightarrow> Extent2D \<Rightarrow> u32 \<Rightarrow> u64 \<Rightarrow> u8 \<Rightarrow> Storage" where
  "from_imported_drawable_image d extent format sample_view depth =
     (new_server_owned (di_image d) (di_memory d) (di_view d) sample_view extent format depth)\<lparr>sg_imported := Some d\<rparr>"

definition from_pooled :: "PooledPixmapImage \<Rightarrow> u64 \<Rightarrow> Extent2D \<Rightarrow> u32 \<Rightarrow> u8 \<Rightarrow> Storage" where
  "from_pooled p sample_view extent format depth =
     (new_server_owned (pi_image p) (pi_memory p) (pi_view p) sample_view extent format depth)\<lparr>sg_layout := pi_layout p\<rparr>"

definition is_exportable :: "Storage \<Rightarrow> bool" where
  "is_exportable s \<longleftrightarrow> sg_imported s \<noteq> None \<or> sg_promoted_exportable s"

record RetiredImage =
  ri_image :: u64
  ri_memory :: u64
  ri_image_view :: u64
  ri_sample_view :: u64

definition adopt_exportable :: "u64 \<Rightarrow> u64 \<Rightarrow> u64 \<Rightarrow> u64 \<Rightarrow> u32 \<Rightarrow> u32 \<Rightarrow> u64 \<Rightarrow> u64 \<Rightarrow> Storage \<Rightarrow> RetiredImage \<times> Storage" where
  "adopt_exportable img memory sample_view image_view layout stride bytes modifier s =
     (\<lparr>ri_image = sg_image s, ri_memory = sg_memory s, ri_image_view = sg_image_view s, ri_sample_view = sg_sample_view s\<rparr>,
      s\<lparr>sg_image := img, sg_memory := memory, sg_image_view := image_view, sg_sample_view := sample_view,
        sg_layout := layout, sg_promoted_exportable := True, sg_export_stride := stride, sg_export_size := bytes,
        sg_export_modifier := modifier\<rparr>)"

text \<open>
  What the store uses of the platform: whether there is a device, which fences it has signalled, and the pool.
\<close>

type_synonym FenceTicket = u64

record Platform =
  pf_vk :: bool
  pf_signaled :: "FenceTicket \<Rightarrow> bool"
  pf_pool :: "PixmapPool option"

definition unless_null :: "(u64 \<Rightarrow> VkCall) \<Rightarrow> u64 \<Rightarrow> VkCall list" where
  "unless_null f h = (if h = 0 then [] else [f h])"

definition destroy_direct :: "Storage \<Rightarrow> VkCall list" where
  "destroy_direct s = unless_null DestroyImageView (sg_image_view s) @ unless_null DestroyImage (sg_image s) @
     unless_null FreeMemory (sg_memory s)"

definition destroy_storage :: "Platform \<Rightarrow> Storage \<Rightarrow> Storage \<times> Platform \<times> VkCall list" where
  "destroy_storage pf s =
     (if sg_is_test_stub s then (s, pf, [])
      else case sg_imported s of
        Some d \<Rightarrow>
          (s\<lparr>sg_sample_view := 0, sg_image := 0, sg_image_view := 0, sg_memory := 0, sg_imported := None\<rparr>, pf,
           (if pf_vk pf then unless_null DestroyImageView (sg_sample_view s) else []) @ drop_drawable_image d)
      | None \<Rightarrow>
          if \<not> pf_vk pf then (s, pf, [])
          else
            let calls = unless_null DestroyImageView (sg_sample_view s); s = s\<lparr>sg_sample_view := 0\<rparr>
            in case (if \<not> sg_promoted_exportable s \<and> sg_image s \<noteq> 0 \<and> sg_image_view s \<noteq> 0 \<and> sg_memory s \<noteq> 0
                     then pf_pool pf else None) of
                 None \<Rightarrow> (s, pf, calls @ destroy_direct s)
               | Some pool \<Rightarrow>
                   (case try_return
                        \<lparr>pk_width = fst (sg_extent s), pk_height = snd (sg_extent s), pk_format = sg_format s\<rparr>
                        \<lparr>pi_image = sg_image s, pi_view = sg_image_view s, pi_memory = sg_memory s, pi_layout = sg_layout s\<rparr>
                        pool of
                      (True, pool) \<Rightarrow> (s\<lparr>sg_image := 0, sg_image_view := 0, sg_memory := 0\<rparr>, pf\<lparr>pf_pool := Some pool\<rparr>, calls)
                    | (False, pool) \<Rightarrow> (s, pf\<lparr>pf_pool := Some pool\<rparr>, calls @ destroy_direct s)))"


section \<open>The store\<close>

type_synonym DrawableId = u64

datatype DrawableKind = DkRoot | DkWindow | DkPixmap | DkCursor | DkRedirectedBacking

record DamageSnapshot =
  sn_id :: DrawableId
  sn_epoch :: u64
  sn_region :: RegionSet

record Drawable =
  dw_id :: DrawableId
  dw_xid :: u32
  dw_kind :: DrawableKind
  dw_depth :: u8
  dw_refcount :: u32
  dw_scene_participating :: bool
  dw_storage :: Storage
  dw_last_render_ticket :: "FenceTicket option"
  dw_presentation_damage :: RegionSet
  dw_presentation_damage_epoch :: u64
  dw_redirected_target :: "DrawableId option"

datatype RetireDecision = StillReferenced | Destroyed | PendingFence

record DrawableStore =
  ds_next_id :: u64
  ds_entries :: "(DrawableId, Drawable) hashmap"
  ds_by_xid :: "(u32, DrawableId) hashmap"
  ds_pending_retire :: "DrawableId list"
  ds_exported_sync :: "(DrawableId, u32) hashmap"
  ds_exported_writes :: "DrawableId list"

definition store_new :: DrawableStore where
  "store_new = \<lparr>ds_next_id = 1, ds_entries = [], ds_by_xid = [], ds_pending_retire = [],
     ds_exported_sync = [], ds_exported_writes = []\<rparr>"

definition set_exported_sync_fd :: "DrawableId \<Rightarrow> u32 \<Rightarrow> DrawableStore \<Rightarrow> DrawableStore" where
  "set_exported_sync_fd i fd s = s\<lparr>ds_exported_sync := hm_insert i fd (ds_exported_sync s)\<rparr>"

definition clear_exported_sync_fd :: "DrawableId \<Rightarrow> DrawableStore \<Rightarrow> DrawableStore" where
  "clear_exported_sync_fd i s = s\<lparr>ds_exported_sync := hm_remove i (ds_exported_sync s),
     ds_exported_writes := filter (\<lambda>w. w \<noteq> i) (ds_exported_writes s)\<rparr>"

definition is_exported :: "DrawableStore \<Rightarrow> DrawableId \<Rightarrow> bool" where
  "is_exported s i = hm_contains (ds_exported_sync s) i"

definition take_exported_writes :: "DrawableStore \<Rightarrow> u32 list \<times> DrawableStore" where
  "take_exported_writes s =
     (let seen = rev (remdups (rev (ds_exported_writes s)))
      in (concat (map (\<lambda>i. case hm_get (ds_exported_sync s) i of None \<Rightarrow> [] | Some fd \<Rightarrow> [fd]) seen),
          s\<lparr>ds_exported_writes := []\<rparr>))"

definition new_drawable :: "DrawableId \<Rightarrow> u32 \<Rightarrow> DrawableKind \<Rightarrow> u8 \<Rightarrow> bool \<Rightarrow> Storage \<Rightarrow> Drawable" where
  "new_drawable i xid kind depth participating storage =
     \<lparr>dw_id = i, dw_xid = xid, dw_kind = kind, dw_depth = depth, dw_refcount = 1,
      dw_scene_participating = participating, dw_storage = storage, dw_last_render_ticket = None,
      dw_presentation_damage = [], dw_presentation_damage_epoch = 0, dw_redirected_target = None\<rparr>"

text \<open>\<open>None\<close> is the panic when the identifiers run out, \<open>Inl ()\<close> the error \<open>XidInUse\<close>.\<close>

definition allocate_drawable ::
  "u32 \<Rightarrow> DrawableKind \<Rightarrow> u8 \<Rightarrow> bool \<Rightarrow> Storage \<Rightarrow> DrawableStore \<Rightarrow> (unit + DrawableId \<times> DrawableStore) option" where
  "allocate_drawable xid kind depth participating storage s =
     (if hm_contains (ds_by_xid s) xid then Some (Inl ())
      else let i = ds_next_id s
           in if i = - 1 then None
              else Some (Inr (i, s\<lparr>ds_next_id := i + 1,
                ds_entries := hm_insert i (new_drawable i xid kind depth participating storage) (ds_entries s),
                ds_by_xid := hm_insert xid i (ds_by_xid s)\<rparr>)))"

definition store_lookup :: "DrawableStore \<Rightarrow> u32 \<Rightarrow> DrawableId option" where
  "store_lookup s xid = hm_get (ds_by_xid s) xid"

definition store_get :: "DrawableStore \<Rightarrow> DrawableId \<Rightarrow> Drawable option" where
  "store_get s i = hm_get (ds_entries s) i"

definition get_by_xid :: "DrawableStore \<Rightarrow> u32 \<Rightarrow> Drawable option" where
  "get_by_xid s xid = Option.bind (store_lookup s xid) (store_get s)"

definition modify_drawable :: "DrawableId \<Rightarrow> (Drawable \<Rightarrow> Drawable) \<Rightarrow> DrawableStore \<Rightarrow> DrawableStore" where
  "modify_drawable i f s = s\<lparr>ds_entries := hm_modify i f (ds_entries s)\<rparr>"

definition incref :: "DrawableId \<Rightarrow> DrawableStore \<Rightarrow> DrawableStore" where
  "incref i = modify_drawable i (\<lambda>d. d\<lparr>dw_refcount := (if dw_refcount d = - 1 then - 1 else dw_refcount d + 1)\<rparr>)"

definition detach_xid :: "u32 \<Rightarrow> DrawableStore \<Rightarrow> DrawableStore" where
  "detach_xid xid s = s\<lparr>ds_by_xid := hm_remove xid (ds_by_xid s)\<rparr>"

text \<open>\<open>on_destroyed\<close> and the calls of the device, in the order in which they are made.\<close>

datatype StoreCall = OnDestroyed DrawableId | Vk VkCall

definition destroy_now :: "DrawableId \<Rightarrow> DrawableStore \<times> Platform \<Rightarrow> DrawableStore \<times> Platform \<times> StoreCall list" where
  "destroy_now i sp = (case sp of (s, pf) \<Rightarrow>
     (case store_get s i of
        None \<Rightarrow> (s, pf, [])
      | Some d \<Rightarrow>
          let s = s\<lparr>ds_entries := hm_remove i (ds_entries s)\<rparr>;
              s = (if store_lookup s (dw_xid d) = Some i then detach_xid (dw_xid d) s else s);
              (_, pf, calls) = destroy_storage pf (dw_storage d)
          in (s, pf, map Vk calls)))"

definition ticket_ready :: "Platform \<Rightarrow> Drawable \<Rightarrow> bool" where
  "ticket_ready pf d = (case dw_last_render_ticket d of
     None \<Rightarrow> True | Some t \<Rightarrow> (if pf_vk pf then pf_signaled pf t else True))"

definition decref :: "DrawableId \<Rightarrow> DrawableStore \<times> Platform \<Rightarrow> RetireDecision \<times> DrawableStore \<times> Platform \<times> StoreCall list" where
  "decref i sp = (case sp of (s, pf) \<Rightarrow>
     (case store_get s i of
        None \<Rightarrow> (Destroyed, s, pf, [])
      | Some d \<Rightarrow>
          if dw_refcount d > 1 then
            (StillReferenced, modify_drawable i (\<lambda>d. d\<lparr>dw_refcount := dw_refcount d - 1\<rparr>) s, pf, [])
          else
            let s = modify_drawable i (\<lambda>d. d\<lparr>dw_refcount := 0\<rparr>) s
            in if ticket_ready pf d then
                 (case destroy_now i (s, pf) of (s, pf, calls) \<Rightarrow> (Destroyed, s, pf, OnDestroyed i # calls))
               else
                 let s = detach_xid (dw_xid d) s
                 in (PendingFence, s\<lparr>ds_pending_retire := ds_pending_retire s @ [i]\<rparr>, pf, [])))"

definition bump :: "u64 \<Rightarrow> u64" where
  "bump e = (if e = - 1 then 0 else e + 1)"

definition set_scene_participating :: "DrawableId \<Rightarrow> bool \<Rightarrow> DrawableStore \<Rightarrow> DrawableStore" where
  "set_scene_participating i v = modify_drawable i (\<lambda>d.
     let was = dw_scene_participating d; d = d\<lparr>dw_scene_participating := v\<rparr>
     in if was \<and> \<not> v
        then d\<lparr>dw_presentation_damage := [], dw_presentation_damage_epoch := bump (dw_presentation_damage_epoch d)\<rparr>
        else d)"

definition damage_drawable :: "DrawableId \<Rightarrow> Rect2D \<Rightarrow> DrawableStore \<Rightarrow> DrawableStore" where
  "damage_drawable i r = modify_drawable i (\<lambda>d.
     if dw_scene_participating d
     then d\<lparr>dw_presentation_damage := rs_add r (dw_presentation_damage d),
            dw_presentation_damage_epoch := bump (dw_presentation_damage_epoch d)\<rparr>
     else d)"

definition peek_presentation_damage :: "DrawableStore \<Rightarrow> DrawableId \<Rightarrow> DamageSnapshot option" where
  "peek_presentation_damage s i = (case store_get s i of
     None \<Rightarrow> None
   | Some d \<Rightarrow> if dw_scene_participating d
               then Some \<lparr>sn_id = i, sn_epoch = dw_presentation_damage_epoch d, sn_region = dw_presentation_damage d\<rparr>
               else None)"

definition ack_presentation_damage :: "DamageSnapshot \<Rightarrow> DrawableStore \<Rightarrow> DrawableStore" where
  "ack_presentation_damage snap = modify_drawable (sn_id snap) (\<lambda>d.
     if sn_epoch snap = dw_presentation_damage_epoch d then d\<lparr>dw_presentation_damage := []\<rparr>
     else d\<lparr>dw_presentation_damage := rs_subtract (sn_region snap) (dw_presentation_damage d)\<rparr>)"

definition set_redirected_target :: "DrawableId \<Rightarrow> DrawableId option \<Rightarrow> DrawableStore \<Rightarrow> DrawableStore" where
  "set_redirected_target i backing = modify_drawable i (\<lambda>d. d\<lparr>dw_redirected_target := backing\<rparr>)"

definition redirected_target :: "DrawableStore \<Rightarrow> DrawableId \<Rightarrow> DrawableId option" where
  "redirected_target s i = Option.bind (store_get s i) dw_redirected_target"

definition is_active_redirect_target :: "DrawableStore \<Rightarrow> DrawableId \<Rightarrow> bool" where
  "is_active_redirect_target s i = list_ex (\<lambda>d. dw_redirected_target d = Some i) (hm_values (ds_entries s))"

definition touch_render_fence :: "DrawableId \<Rightarrow> FenceTicket \<Rightarrow> DrawableStore \<Rightarrow> DrawableStore" where
  "touch_render_fence i t s =
     (let s = modify_drawable i (\<lambda>d. d\<lparr>dw_last_render_ticket := Some t\<rparr>) s
      in if is_exported s i then s\<lparr>ds_exported_writes := ds_exported_writes s @ [i]\<rparr> else s)"

definition retire_ready :: "DrawableStore \<Rightarrow> Platform \<Rightarrow> DrawableId \<Rightarrow> bool" where
  "retire_ready s pf i = (case store_get s i of None \<Rightarrow> True | Some d \<Rightarrow> ticket_ready pf d)"

fun destroy_ready :: "DrawableId list \<Rightarrow> DrawableStore \<times> Platform \<Rightarrow> DrawableStore \<times> Platform \<times> StoreCall list" where
  "destroy_ready [] (s, pf) = (s, pf, [])"
| "destroy_ready (i # is) (s, pf) =
     (case destroy_now i (s, pf) of (s, pf, calls) \<Rightarrow>
        case destroy_ready is (s, pf) of (s, pf, more_calls) \<Rightarrow> (s, pf, OnDestroyed i # calls @ more_calls))"

definition poll_pending_retire :: "DrawableStore \<times> Platform \<Rightarrow> DrawableStore \<times> Platform \<times> StoreCall list" where
  "poll_pending_retire sp = (case sp of (s, pf) \<Rightarrow>
     let pending = ds_pending_retire s;
         survivors = filter (\<lambda>i. \<not> retire_ready s pf i) pending;
         to_destroy = filter (retire_ready s pf) pending
     in case destroy_ready to_destroy (s\<lparr>ds_pending_retire := []\<rparr>, pf) of
          (s, pf, calls) \<Rightarrow> (s\<lparr>ds_pending_retire := survivors\<rparr>, pf, calls))"

fun shutdown_each :: "Drawable list \<Rightarrow> Platform \<Rightarrow> Platform \<times> VkCall list" where
  "shutdown_each [] pf = (pf, [])"
| "shutdown_each (d # ds) pf =
     (case destroy_storage pf (dw_storage d) of (_, pf, calls) \<Rightarrow>
        case shutdown_each ds pf of (pf, more_calls) \<Rightarrow> (pf, calls @ more_calls))"

definition shutdown_destroy_all :: "DrawableStore \<times> Platform \<Rightarrow> DrawableStore \<times> Platform \<times> VkCall list" where
  "shutdown_destroy_all sp = (case sp of (s, pf) \<Rightarrow>
     case shutdown_each (hm_values (ds_entries s)) pf of
       (pf, calls) \<Rightarrow> (s\<lparr>ds_by_xid := [], ds_pending_retire := [], ds_entries := []\<rparr>, pf, calls))"

end
