(* ===== verification/KmsWindows.thy ===== *)
theory KmsWindows
  imports KmsStore ConfigureRequests
begin

text \<open>
  The windows of the KMS backend (\<open>kms/v2/backend.rs\<close>): the geometry, the storage and the stacking of the host
  windows, and the pictures that hold references to their storage. What the rendering engine does is an
  argument: \<open>paint\<close> is the effect of a fill or a clear on the store (a fence ticket and damage), and the storage that the
  platform allocates, or its failure, is handed to the operation that asks for it.
\<close>

record WindowGeometryV2 =
  wg_x :: i16
  wg_y :: i16
  wg_width :: u16
  wg_height :: u16
  wg_depth :: u8
  wg_mapped :: bool
  wg_parent :: "u32 option"
  wg_stack_rank :: u64
  wg_bg_pixel :: "u32 option"
  wg_bg_pixmap :: "u32 option"
  wg_cursor :: "u32 option"

text \<open>
  The fields of \<open>KmsBackendV2\<close> and its \<open>KmsCore\<close> that the window operations use. Of a picture the drawable it wraps is kept.
  \<open>kb_dirty\<close> counts the calls of \<open>mark_scene_structure_dirty\<close>.
\<close>

record KmsBackendV2 =
  kb_store :: DrawableStore
  kb_platform :: Platform
  kb_windows :: "(u32, WindowGeometryV2) hashmap"
  kb_pictures :: "(u32, u32 option) hashmap"
  kb_top_level_order :: "u32 list"
  kb_xid_map :: "(u32, ResourceId) hashmap"
  kb_next_stack_rank :: u64
  kb_next_host_xid :: u32
  kb_window_id :: u32
  kb_dirty :: nat

type_synonym paint = "u32 \<Rightarrow> DrawableStore \<Rightarrow> DrawableStore"

definition mark_dirty :: "KmsBackendV2 \<Rightarrow> KmsBackendV2" where
  "mark_dirty b = b\<lparr>kb_dirty := kb_dirty b + 1\<rparr>"

definition alloc_window_stack_rank :: "KmsBackendV2 \<Rightarrow> u64 \<times> KmsBackendV2" where
  "alloc_window_stack_rank b = (kb_next_stack_rank b,
     b\<lparr>kb_next_stack_rank := (if kb_next_stack_rank b = - 1 then - 1 else kb_next_stack_rank b + 1)\<rparr>)"

text \<open>\<open>None\<close> is the panic at the overflow of the counter.\<close>

definition next_host_xid :: "KmsBackendV2 \<Rightarrow> (u32 \<times> KmsBackendV2) option" where
  "next_host_xid b = (if kb_next_host_xid b = - 1 then None
     else Some (kb_next_host_xid b + 1, b\<lparr>kb_next_host_xid := kb_next_host_xid b + 1\<rparr>))"

definition store_decref_with_invalidate :: "DrawableId \<Rightarrow> KmsBackendV2 \<Rightarrow> KmsBackendV2" where
  "store_decref_with_invalidate i b =
     (case decref i (kb_store b, kb_platform b) of (_, s, pf, _) \<Rightarrow> b\<lparr>kb_store := s, kb_platform := pf\<rparr>)"

section \<open>Storage of windows\<close>

text \<open>\<open>None\<close> is the panic at the overflow of the drawable identifiers.\<close>

definition allocate_window_storage ::
  "paint \<Rightarrow> Storage option \<Rightarrow> u32 \<Rightarrow> i16 \<Rightarrow> i16 \<Rightarrow> u16 \<Rightarrow> u16 \<Rightarrow> u8 \<Rightarrow> u32 option \<Rightarrow> u32 option \<Rightarrow> KmsBackendV2 \<Rightarrow> KmsBackendV2 option" where
  "allocate_window_storage paint storage xid x y width height depth parent bg_pixel b =
     (if hm_contains (kb_windows b) xid then Some b
      else
        let (rank, b) = alloc_window_stack_rank b;
            geom = \<lparr>wg_x = x, wg_y = y, wg_width = width, wg_height = height, wg_depth = depth, wg_mapped = False,
              wg_parent = parent, wg_stack_rank = rank, wg_bg_pixel = bg_pixel, wg_bg_pixmap = None, wg_cursor = None\<rparr>
        in case storage of
             None \<Rightarrow> Some (b\<lparr>kb_windows := hm_insert xid geom (kb_windows b)\<rparr>)
           | Some g \<Rightarrow>
               (case allocate_drawable xid DkWindow depth False g (kb_store b) of
                  None \<Rightarrow> None
                | Some (Inl _) \<Rightarrow> Some b
                | Some (Inr (_, s)) \<Rightarrow>
                    Some (b\<lparr>kb_store := paint xid s, kb_windows := hm_insert xid geom (kb_windows b)\<rparr>)))"

datatype HostSubwindowVisual = CopyFromParentVisual | DepthOnly u8 | ExplicitVisual u8

definition depth_for_visual :: "HostSubwindowVisual \<Rightarrow> u8 option \<Rightarrow> u8" where
  "depth_for_visual vis parent_depth = (case vis of
     CopyFromParentVisual \<Rightarrow> unwrap_or parent_depth 24
   | DepthOnly d \<Rightarrow> (if d = 0 then unwrap_or parent_depth 24 else d)
   | ExplicitVisual d \<Rightarrow> (if d = 0 then unwrap_or parent_depth 24 else d))"

definition create_subwindow ::
  "paint \<Rightarrow> Storage option \<Rightarrow> u32 \<Rightarrow> i16 \<Rightarrow> i16 \<Rightarrow> u16 \<Rightarrow> u16 \<Rightarrow> HostSubwindowVisual \<Rightarrow> u32 option \<Rightarrow> u32 option
    \<Rightarrow> KmsBackendV2 \<Rightarrow> (u32 \<times> KmsBackendV2) option" where
  "create_subwindow paint storage parent x y width height vis bg_pixel bg_pixmap b =
     (case next_host_xid b of
        None \<Rightarrow> None
      | Some (xid, b) \<Rightarrow>
          let parent_depth = (if parent = kb_window_id b then Some 24 else map_option wg_depth (hm_get (kb_windows b) parent));
              depth = depth_for_visual vis parent_depth
          in (case allocate_window_storage paint storage xid x y (max width 1) (max height 1) depth (Some parent) bg_pixel b of
                None \<Rightarrow> None
              | Some b \<Rightarrow>
                  let b = (case bg_pixmap of None \<Rightarrow> b
                           | Some p \<Rightarrow> b\<lparr>kb_windows := hm_modify xid (\<lambda>g. g\<lparr>wg_bg_pixmap := Some p\<rparr>) (kb_windows b)\<rparr>)
                  in Some (xid, mark_dirty b)))"

definition destroy_subwindow :: "u32 \<Rightarrow> KmsBackendV2 \<Rightarrow> KmsBackendV2" where
  "destroy_subwindow xid b =
     (let b = (case store_lookup (kb_store b) xid of None \<Rightarrow> b | Some i \<Rightarrow> store_decref_with_invalidate i b)
      in mark_dirty (b\<lparr>kb_windows := hm_remove xid (kb_windows b),
           kb_top_level_order := filter (\<lambda>x. x \<noteq> xid) (kb_top_level_order b)\<rparr>))"

section \<open>Mapping\<close>

partial_function (option) host_viewable_loop :: "(u32, WindowGeometryV2) hashmap \<Rightarrow> u32 option \<Rightarrow> bool option" where
  "host_viewable_loop ws cursor = (case cursor of
     None \<Rightarrow> Some True
   | Some p \<Rightarrow> (case hm_get ws p of
       None \<Rightarrow> Some True
     | Some g \<Rightarrow> if \<not> wg_mapped g then Some False else host_viewable_loop ws (wg_parent g)))"

definition host_window_viewable :: "KmsBackendV2 \<Rightarrow> u32 \<Rightarrow> bool option" where
  "host_window_viewable b xid = host_viewable_loop (kb_windows b) (Option.bind (hm_get (kb_windows b) xid) wg_parent)"

definition children_of :: "(u32, WindowGeometryV2) hashmap \<Rightarrow> u32 \<Rightarrow> u32 list" where
  "children_of ws xid = map fst (filter (\<lambda>(_, g). wg_parent g = Some xid) ws)"

text \<open>The stack of the loop, its end first: \<open>pop\<close> takes the head, \<open>extend\<close> puts the last of the new entries in front.\<close>

partial_function (option) collect_loop ::
  "(u32, WindowGeometryV2) hashmap \<Rightarrow> u32 \<Rightarrow> u32 list \<Rightarrow> (u32 \<times> u32 \<times> u32 option \<times> u16 \<times> u16) list
    \<Rightarrow> (u32 \<times> u32 \<times> u32 option \<times> u16 \<times> u16) list option" where
  "collect_loop ws start stack out = (case stack of
     [] \<Rightarrow> Some out
   | xid # rest \<Rightarrow> (case hm_get ws xid of
       None \<Rightarrow> collect_loop ws start rest out
     | Some g \<Rightarrow>
         if xid \<noteq> start \<and> \<not> wg_mapped g then collect_loop ws start rest out
         else
           let out = (if wg_bg_pixel g \<noteq> None \<or> wg_bg_pixmap g \<noteq> None
                      then out @ [(xid, unwrap_or (wg_bg_pixel g) 0, wg_bg_pixmap g, max (wg_width g) 1, max (wg_height g) 1)]
                      else out)
           in collect_loop ws start (rev (children_of ws xid) @ rest) out))"

definition collect_viewable_bg_paint_targets ::
  "KmsBackendV2 \<Rightarrow> u32 \<Rightarrow> (u32 \<times> u32 \<times> u32 option \<times> u16 \<times> u16) list option" where
  "collect_viewable_bg_paint_targets b xid = collect_loop (kb_windows b) xid [xid] []"

definition set_mapped :: "bool \<Rightarrow> u32 \<Rightarrow> KmsBackendV2 \<Rightarrow> KmsBackendV2" where
  "set_mapped v xid b =
     (let b = b\<lparr>kb_windows := hm_modify xid (\<lambda>g. g\<lparr>wg_mapped := v\<rparr>) (kb_windows b)\<rparr>
      in case store_lookup (kb_store b) xid of
           None \<Rightarrow> b
         | Some i \<Rightarrow> b\<lparr>kb_store := set_scene_participating i v (kb_store b)\<rparr>)"

text \<open>\<open>None\<close>: the parents or the children form a cycle and a walk does not end.\<close>

definition map_subwindow :: "paint \<Rightarrow> u32 \<Rightarrow> KmsBackendV2 \<Rightarrow> KmsBackendV2 option" where
  "map_subwindow paint xid b =
     (let b = set_mapped True xid b
      in case host_window_viewable b xid of
           None \<Rightarrow> None
         | Some False \<Rightarrow> Some (mark_dirty b)
         | Some True \<Rightarrow>
             (case collect_viewable_bg_paint_targets b xid of
                None \<Rightarrow> None
              | Some targets \<Rightarrow>
                  Some (mark_dirty (b\<lparr>kb_store := fold (\<lambda>(xid, _). paint xid) targets (kb_store b)\<rparr>))))"

definition unmap_subwindow :: "u32 \<Rightarrow> KmsBackendV2 \<Rightarrow> KmsBackendV2" where
  "unmap_subwindow xid b = mark_dirty (set_mapped False xid b)"

section \<open>Stacking\<close>

definition place :: "u8 \<Rightarrow> nat option \<Rightarrow> 'a \<Rightarrow> 'a list \<Rightarrow> 'a list" where
  "place stack_mode sibling_pos x xs =
     (if stack_mode \<in> {0, 2, 4} then (case sibling_pos of Some i \<Rightarrow> vec_insert (i + 1) x xs | None \<Rightarrow> xs @ [x])
      else if stack_mode \<in> {1, 3} then (case sibling_pos of Some i \<Rightarrow> vec_insert i x xs | None \<Rightarrow> vec_insert 0 x xs)
      else xs @ [x])"

definition restack_top_level :: "u32 \<Rightarrow> u8 \<Rightarrow> u32 option \<Rightarrow> KmsBackendV2 \<Rightarrow> KmsBackendV2" where
  "restack_top_level xid stack_mode sibling b =
     (if xid \<notin> set (kb_top_level_order b) then b
      else
        let stack = filter (\<lambda>x. x \<noteq> xid) (kb_top_level_order b);
            sibling_pos = Option.bind sibling (\<lambda>s. position (\<lambda>x. x = s) stack)
        in mark_dirty (b\<lparr>kb_top_level_order := place stack_mode sibling_pos xid stack\<rparr>))"

definition set_ranks :: "(u32 \<times> u64) list \<Rightarrow> (u32, WindowGeometryV2) hashmap \<Rightarrow> (u32, WindowGeometryV2) hashmap" where
  "set_ranks order ws = fold (\<lambda>(rank, xid). hm_modify xid (\<lambda>g. g\<lparr>wg_stack_rank := of_nat rank\<rparr>))
     (zip [0..<length order] (map fst order)) ws"

definition restack_subwindow :: "u32 \<Rightarrow> u8 \<Rightarrow> u32 option \<Rightarrow> KmsBackendV2 \<Rightarrow> KmsBackendV2" where
  "restack_subwindow xid stack_mode sibling b =
     (case hm_get (kb_windows b) xid of
        None \<Rightarrow> b
      | Some current \<Rightarrow>
          let siblings = sort_key snd (map (\<lambda>(x, g). (x, wg_stack_rank g))
                (filter (\<lambda>(_, g). wg_parent g = wg_parent current) (kb_windows b)))
          in case position (\<lambda>(x, _). x = xid) siblings of
               None \<Rightarrow> b
             | Some pos \<Rightarrow>
                 let entry = siblings ! pos; siblings = vec_remove pos siblings;
                     sibling_pos = Option.bind sibling (\<lambda>s. position (\<lambda>(x, _). x = s) siblings)
                 in b\<lparr>kb_windows := set_ranks (place stack_mode sibling_pos entry siblings) (kb_windows b)\<rparr>)"

section \<open>Configuration\<close>

record HostSubwindowConfig =
  hc_x :: "i16 option"
  hc_y :: "i16 option"
  hc_width :: "u16 option"
  hc_height :: "u16 option"
  hc_border_width :: "u16 option"
  hc_sibling :: "u32 option"
  hc_stack_mode :: "u8 option"

text \<open>A new storage in place of the old one, whose holders keep it.\<close>

definition replace_storage :: "paint \<Rightarrow> Storage option \<Rightarrow> u32 \<Rightarrow> u8 \<Rightarrow> bool \<Rightarrow> DrawableId \<Rightarrow> KmsBackendV2 \<Rightarrow> KmsBackendV2 option" where
  "replace_storage paint storage xid depth participating old b =
     (let b = store_decref_with_invalidate old (b\<lparr>kb_store := detach_xid xid (kb_store b)\<rparr>)
      in case storage of
           None \<Rightarrow> Some b
         | Some g \<Rightarrow>
             (case allocate_drawable xid DkWindow depth participating g (kb_store b) of
                None \<Rightarrow> None
              | Some (Inl _) \<Rightarrow> Some b
              | Some (Inr (_, s)) \<Rightarrow> Some (b\<lparr>kb_store := paint xid s\<rparr>)))"

definition configure_subwindow :: "paint \<Rightarrow> Storage option \<Rightarrow> u32 \<Rightarrow> HostSubwindowConfig \<Rightarrow> KmsBackendV2 \<Rightarrow> KmsBackendV2 option" where
  "configure_subwindow paint storage xid config b =
     (case hm_get (kb_windows b) xid of
        None \<Rightarrow> Some b
      | Some g \<Rightarrow>
          let g' = g\<lparr>wg_x := unwrap_or (hc_x config) (wg_x g), wg_y := unwrap_or (hc_y config) (wg_y g),
                wg_width := unwrap_or (hc_width config) (wg_width g), wg_height := unwrap_or (hc_height config) (wg_height g)\<rparr>;
              size_changed = (wg_width g' \<noteq> wg_width g \<or> wg_height g' \<noteq> wg_height g);
              b = b\<lparr>kb_windows := hm_insert xid g' (kb_windows b)\<rparr>
          in case (if size_changed
                   then (case store_lookup (kb_store b) xid of
                           None \<Rightarrow> Some b
                         | Some old \<Rightarrow> replace_storage paint storage xid (wg_depth g) (wg_mapped g) old b)
                   else Some b) of
               None \<Rightarrow> None
             | Some b \<Rightarrow>
                 let b = (case hc_stack_mode config of
                            None \<Rightarrow> b
                          | Some m \<Rightarrow> if xid \<in> set (kb_top_level_order b) then restack_top_level xid m (hc_sibling config) b
                                      else restack_subwindow xid m (hc_sibling config) b)
                 in Some (mark_dirty b))"

text \<open>\<open>None\<close>: the panic on a parent that the backend does not know.\<close>

definition reparent_subwindow :: "u32 \<Rightarrow> u32 \<Rightarrow> i16 \<Rightarrow> i16 \<Rightarrow> KmsBackendV2 \<Rightarrow> KmsBackendV2 option" where
  "reparent_subwindow xid host_parent x y b =
     (case (if host_parent = 0 \<or> host_parent = kb_window_id b then Some None
            else if hm_contains (kb_windows b) host_parent then Some (Some host_parent) else None) of
        None \<Rightarrow> None
      | Some parent \<Rightarrow>
          let (rank, b) = alloc_window_stack_rank b;
              b = b\<lparr>kb_windows := hm_modify xid (\<lambda>g. g\<lparr>wg_x := x, wg_y := y, wg_parent := parent, wg_stack_rank := rank\<rparr>) (kb_windows b)\<rparr>;
              order = kb_top_level_order b
          in Some (mark_dirty (b\<lparr>kb_top_level_order := (case parent of
               None \<Rightarrow> (if xid \<in> set order then order else order @ [xid])
             | Some _ \<Rightarrow> filter (\<lambda>x. x \<noteq> xid) order)\<rparr>)))"

definition change_subwindow_attributes :: "u32 \<Rightarrow> u32 \<Rightarrow> u32 list \<Rightarrow> KmsBackendV2 \<Rightarrow> KmsBackendV2" where
  "change_subwindow_attributes xid value_mask values b =
     b\<lparr>kb_windows := hm_modify xid (\<lambda>g.
        let (g, idx) = (if value_mask AND 1 \<noteq> 0 \<and> 0 < length values
                        then (g\<lparr>wg_bg_pixmap := (if values ! 0 = 0 then None else Some (values ! 0))\<rparr>, 1) else (g, 0 :: nat))
        in if value_mask AND 2 \<noteq> 0 \<and> idx < length values then g\<lparr>wg_bg_pixel := Some (values ! idx)\<rparr> else g) (kb_windows b)\<rparr>"

definition register_top_level :: "paint \<Rightarrow> Storage option \<Rightarrow> ResourceId \<Rightarrow> u32 \<Rightarrow> KmsBackendV2 \<Rightarrow> KmsBackendV2 option" where
  "register_top_level paint storage nested_id xid b =
     (let b = b\<lparr>kb_xid_map := hm_insert xid nested_id (kb_xid_map b)\<rparr>
      in case (if hm_contains (kb_windows b) xid then Some b
               else allocate_window_storage paint storage xid 0 0 1 1 24 None None b) of
           None \<Rightarrow> None
         | Some b \<Rightarrow> Some (mark_dirty (b\<lparr>kb_top_level_order :=
             (if xid \<in> set (kb_top_level_order b) then kb_top_level_order b else kb_top_level_order b @ [xid])\<rparr>)))"

definition register_subwindow :: "paint \<Rightarrow> Storage option \<Rightarrow> ResourceId \<Rightarrow> u32 \<Rightarrow> KmsBackendV2 \<Rightarrow> KmsBackendV2 option" where
  "register_subwindow paint storage nested_id xid b =
     (let b = b\<lparr>kb_xid_map := hm_insert xid nested_id (kb_xid_map b)\<rparr>
      in map_option mark_dirty (if hm_contains (kb_windows b) xid then Some b
           else allocate_window_storage paint storage xid 0 0 1 1 32 None None b))"

definition unregister_host_window :: "u32 \<Rightarrow> KmsBackendV2 \<Rightarrow> KmsBackendV2" where
  "unregister_host_window xid b = b\<lparr>kb_xid_map := hm_remove xid (kb_xid_map b)\<rparr>"

section \<open>Pictures\<close>

definition render_create_picture :: "u32 \<Rightarrow> KmsBackendV2 \<Rightarrow> (u32 \<times> KmsBackendV2) option" where
  "render_create_picture drawable_xid b =
     (case next_host_xid b of
        None \<Rightarrow> None
      | Some (p, b) \<Rightarrow>
          let b = b\<lparr>kb_pictures := hm_insert p (Some drawable_xid) (kb_pictures b)\<rparr>
          in Some (p, case store_lookup (kb_store b) drawable_xid of
               None \<Rightarrow> b | Some i \<Rightarrow> b\<lparr>kb_store := incref i (kb_store b)\<rparr>))"

definition render_free_picture :: "u32 \<Rightarrow> KmsBackendV2 \<Rightarrow> KmsBackendV2" where
  "render_free_picture p b =
     (let wrapped = Option.bind (hm_get (kb_pictures b) p) (\<lambda>d. d);
          b = b\<lparr>kb_pictures := hm_remove p (kb_pictures b)\<rparr>
      in case Option.bind wrapped (store_lookup (kb_store b)) of
           None \<Rightarrow> b | Some i \<Rightarrow> store_decref_with_invalidate i b)"

section \<open>Where paint goes\<close>

record PaintTarget =
  pt_id :: DrawableId
  pt_offset :: "int \<times> int"

definition leaf_target :: "DrawableId \<Rightarrow> PaintTarget" where
  "leaf_target i = \<lparr>pt_id = i, pt_offset = (0, 0)\<rparr>"

partial_function (option) resolve_loop :: "KmsBackendV2 \<Rightarrow> DrawableId \<Rightarrow> u32 \<Rightarrow> DrawableId \<Rightarrow> int \<times> int \<Rightarrow> PaintTarget option" where
  "resolve_loop b leaf cur_xid at_id offset =
     (case redirected_target (kb_store b) at_id of
        Some target \<Rightarrow> Some \<lparr>pt_id = target, pt_offset = offset\<rparr>
      | None \<Rightarrow>
          (case hm_get (kb_windows b) cur_xid of
             None \<Rightarrow> Some (leaf_target leaf)
           | Some g \<Rightarrow>
               let offset = (fst offset + sint (wg_x g), snd offset + sint (wg_y g))
               in case wg_parent g of
                    None \<Rightarrow>
                      (case Option.bind (store_lookup (kb_store b) (kb_window_id b)) (redirected_target (kb_store b)) of
                         Some target \<Rightarrow> Some \<lparr>pt_id = target, pt_offset = offset\<rparr>
                       | None \<Rightarrow> Some (leaf_target leaf))
                  | Some parent_xid \<Rightarrow>
                      (case store_lookup (kb_store b) parent_xid of
                         None \<Rightarrow> Some (leaf_target leaf)
                       | Some next_id \<Rightarrow> resolve_loop b leaf parent_xid next_id offset)))"

text \<open>The outer option is the code's; \<open>Some None\<close> stands for a walk without end.\<close>

definition resolve_paint_target :: "KmsBackendV2 \<Rightarrow> u32 \<Rightarrow> PaintTarget option option" where
  "resolve_paint_target b xid =
     (case store_lookup (kb_store b) xid of
        None \<Rightarrow> None
      | Some leaf \<Rightarrow>
          if \<not> hm_contains (kb_windows b) xid
          then Some (Some (case redirected_target (kb_store b) leaf of
                 Some target \<Rightarrow> leaf_target target | None \<Rightarrow> leaf_target leaf))
          else Some (resolve_loop b leaf xid leaf (0, 0)))"

end
