(* ===== verification/KmsStoreClaims.thy ===== *)
theory KmsStoreClaims
  imports KmsStore "HOL-Library.Multiset"
begin

text \<open>
  What the drawable store of the KMS backend promises: an identifier that a window or pixmap resolves to is
  alive, nothing is destroyed while the device may still use it, and no image is lost or destroyed twice.
\<close>

section \<open>The histories of a store\<close>

text \<open>
  The steps of a store and its pool with the images the caller hands over, the images the caller takes from the pool and the
  calls of the device. The backend takes a further reference only on a drawable that it has just looked up. Between steps the device may signal fences. Every storage that is handed over is a real one, with
  an image of its own.
\<close>

definition real_storage :: "Storage \<Rightarrow> bool" where
  "real_storage g \<longleftrightarrow> \<not> sg_is_test_stub g \<and> sg_image g \<noteq> 0 \<and> (\<forall>d. sg_imported g = Some d \<longrightarrow> di_image d = sg_image g)"

datatype StoreAction = Given u64 | Taken u64 | Called StoreCall

inductive store_step :: "DrawableStore \<times> Platform \<Rightarrow> StoreAction list \<Rightarrow> DrawableStore \<times> Platform \<Rightarrow> bool" where
  Allocate: "allocate_drawable xid kind depth v g s = Some (Inr (i, s')) \<Longrightarrow> real_storage g \<Longrightarrow>
    store_step (s, pf) [Given (sg_image g)] (s', pf)"
| Take: "try_take key pool = (Some e, pool') \<Longrightarrow> pf_pool pf = Some pool \<Longrightarrow>
    store_step (s, pf) [Taken (pi_image e)] (s, pf\<lparr>pf_pool := Some pool'\<rparr>)"
| Incref: "store_lookup s xid = Some i \<Longrightarrow> store_step (s, pf) [] (incref i s, pf)"
| Decref: "decref i (s, pf) = (r, s', pf', calls) \<Longrightarrow> store_step (s, pf) (map Called calls) (s', pf')"
| Detach: "store_step (s, pf) [] (detach_xid xid s, pf)"
| Participate: "store_step (s, pf) [] (set_scene_participating i v s, pf)"
| Damage: "store_step (s, pf) [] (damage_drawable i r s, pf)"
| Ack: "store_step (s, pf) [] (ack_presentation_damage snap s, pf)"
| Redirect: "store_step (s, pf) [] (set_redirected_target i b s, pf)"
| Touch: "store_step (s, pf) [] (touch_render_fence i t s, pf)"
| Poll: "poll_pending_retire (s, pf) = (s', pf', calls) \<Longrightarrow> store_step (s, pf) (map Called calls) (s', pf')"
| Export: "store_step (s, pf) [] (set_exported_sync_fd i fd s, pf)"
| Unexport: "store_step (s, pf) [] (clear_exported_sync_fd i s, pf)"
| Flush: "take_exported_writes s = (fds, s') \<Longrightarrow> store_step (s, pf) [] (s', pf)"
| Signal: "store_step (s, pf) [] (s, pf\<lparr>pf_signaled := f\<rparr>)"

inductive store_run :: "DrawableStore \<times> Platform \<Rightarrow> StoreAction list \<Rightarrow> DrawableStore \<times> Platform \<Rightarrow> bool" where
  Start: "store_run sp [] sp"
| Step: "store_run sp acts sp' \<Longrightarrow> store_step sp' acts' sp'' \<Longrightarrow> store_run sp (acts @ acts') sp''"

section \<open>Identifiers\<close>

definition store_inv :: "DrawableStore \<Rightarrow> bool" where
  "store_inv s \<longleftrightarrow>
     (\<forall>i d. store_get s i = Some d \<longrightarrow> i < ds_next_id s) \<and>
     (\<forall>x i. store_lookup s x = Some i \<longrightarrow> (\<exists>d. store_get s i = Some d \<and> dw_xid d = x)) \<and>
     (\<forall>i d. store_get s i = Some d \<longrightarrow> (dw_refcount d = 0) = (i \<in> set (ds_pending_retire s))) \<and>
     (\<forall>i \<in> set (ds_pending_retire s). i < ds_next_id s \<and> (\<forall>x. store_lookup s x \<noteq> Some i))"

lemma store_invI:
  assumes "\<And>i d. store_get s i = Some d \<Longrightarrow> i < ds_next_id s"
    and "\<And>x i. store_lookup s x = Some i \<Longrightarrow> \<exists>d. store_get s i = Some d \<and> dw_xid d = x"
    and "\<And>i d. store_get s i = Some d \<Longrightarrow> (dw_refcount d = 0) = (i \<in> set (ds_pending_retire s))"
    and "\<And>i. i \<in> set (ds_pending_retire s) \<Longrightarrow> i < ds_next_id s"
    and "\<And>i x. i \<in> set (ds_pending_retire s) \<Longrightarrow> store_lookup s x \<noteq> Some i"
  shows "store_inv s"
  using assms unfolding store_inv_def by blast

lemma store_invD:
  assumes "store_inv s"
  shows "store_get s i = Some d \<Longrightarrow> i < ds_next_id s"
    and "store_lookup s x = Some i \<Longrightarrow> \<exists>d. store_get s i = Some d \<and> dw_xid d = x"
    and "store_get s i = Some d \<Longrightarrow> (dw_refcount d = 0) = (i \<in> set (ds_pending_retire s))"
    and "i \<in> set (ds_pending_retire s) \<Longrightarrow> i < ds_next_id s"
    and "i \<in> set (ds_pending_retire s) \<Longrightarrow> store_lookup s x \<noteq> Some i"
  using assms unfolding store_inv_def by blast+

lemma modify_drawable_get [simp]:
  "store_get (modify_drawable i f s) k = (if k = i then map_option f (store_get s i) else store_get s k)"
  by (simp add: store_get_def modify_drawable_def)

lemma modify_drawable_fields [simp]:
  "ds_next_id (modify_drawable i f s) = ds_next_id s" "ds_by_xid (modify_drawable i f s) = ds_by_xid s"
  "ds_pending_retire (modify_drawable i f s) = ds_pending_retire s" "ds_exported_sync (modify_drawable i f s) = ds_exported_sync s"
  "ds_exported_writes (modify_drawable i f s) = ds_exported_writes s"
  "store_lookup (modify_drawable i f s) x = store_lookup s x"
  by (simp_all add: modify_drawable_def store_lookup_def)

lemma modify_drawable_inv:
  assumes "store_inv s" and "\<And>d. dw_xid (f d) = dw_xid d"
    and "\<And>d. store_get s i = Some d \<Longrightarrow> (dw_refcount (f d) = 0) = (dw_refcount d = 0)"
  shows "store_inv (modify_drawable i f s)"
proof (rule store_invI)
  fix x k assume "store_lookup (modify_drawable i f s) x = Some k"
  then obtain d where "store_get s k = Some d" "dw_xid d = x" using store_invD(2) [OF assms(1)] by auto
  then show "\<exists>d. store_get (modify_drawable i f s) k = Some d \<and> dw_xid d = x" using assms(2) by auto
next
  fix k d assume k: "store_get (modify_drawable i f s) k = Some d"
  show "(dw_refcount d = 0) = (k \<in> set (ds_pending_retire (modify_drawable i f s)))"
  proof (cases "k = i")
    case True
    then obtain e where e: "store_get s i = Some e" "d = f e" using k by auto
    then show ?thesis using assms(3) [OF e(1)] store_invD(3) [OF assms(1) e(1)] True by simp
  qed (use k store_invD(3) [OF assms(1), of k] in auto)
next
  fix k assume "k \<in> set (ds_pending_retire (modify_drawable i f s))"
  then show "k < ds_next_id (modify_drawable i f s)" using store_invD(4) [OF assms(1)] by simp
next
  fix k x assume "k \<in> set (ds_pending_retire (modify_drawable i f s))"
  then show "store_lookup (modify_drawable i f s) x \<noteq> Some k" using store_invD(5) [OF assms(1)] by simp
qed (use store_invD(1) [OF assms(1)] in \<open>auto split: if_splits\<close>)

lemma allocate_inv:
  assumes inv: "store_inv s" and a: "allocate_drawable xid kind depth v g s = Some (Inr (i, s'))"
  shows "store_inv s'"
proof -
  have i: "i = ds_next_id s" "ds_next_id s \<noteq> - 1" and s': "s' = s\<lparr>ds_next_id := i + 1,
      ds_entries := hm_insert i (new_drawable i xid kind depth v g) (ds_entries s), ds_by_xid := hm_insert xid i (ds_by_xid s)\<rparr>"
    using a by (auto simp: allocate_drawable_def Let_def split: if_splits)
  have "1 + i \<noteq> 0" using i by (metis add.commute add_eq_0_iff)
  then have next_id: "k < i + 1 \<longleftrightarrow> k \<le> i" for k
    by (simp add: word_less_nat_alt word_le_nat_alt unatSuc add.commute [of i 1] less_Suc_eq_le)
  have get: "store_get s' k = (if k = i then Some (new_drawable i xid kind depth v g) else store_get s k)" for k
    by (simp add: s' store_get_def)
  have look: "store_lookup s' x = (if x = xid then Some i else store_lookup s x)" for x
    by (simp add: s' store_lookup_def)
  have pending: "ds_pending_retire s' = ds_pending_retire s" "ds_next_id s' = i + 1" by (simp_all add: s')
  have fresh: "store_get s i = None" using store_invD(1) [OF inv] i by (cases "store_get s i") auto
  have new: "dw_xid (new_drawable i xid kind depth v g) = xid" "dw_refcount (new_drawable i xid kind depth v g) = 1"
    by (simp_all add: new_drawable_def)
  show ?thesis
  proof (rule store_invI)
    fix k d assume k: "store_get s' k = Some d"
    have "k \<le> i"
      using k store_invD(1) [OF inv, of k] unfolding get i(1) [symmetric] by (auto split: if_splits)
    then show "k < ds_next_id s'" by (simp only: pending next_id)
  next
    fix x k assume "store_lookup s' x = Some k"
    then show "\<exists>d. store_get s' k = Some d \<and> dw_xid d = x"
      using store_invD(2) [OF inv] fresh new by (fastforce simp: get look split: if_splits)
  next
    fix k d assume k: "store_get s' k = Some d"
    have "i \<notin> set (ds_pending_retire s)" using store_invD(4) [OF inv, of i] unfolding i(1) by auto
    then show "(dw_refcount d = 0) = (k \<in> set (ds_pending_retire s'))"
      using k store_invD(3) [OF inv, of k] new by (auto simp: get pending split: if_splits)
  next
    fix k assume "k \<in> set (ds_pending_retire s')"
    then have "k \<le> i" using store_invD(4) [OF inv, of k] unfolding pending i(1) [symmetric] by simp
    then show "k < ds_next_id s'" by (simp only: pending next_id)
  next
    fix k x assume "k \<in> set (ds_pending_retire s')"
    then show "store_lookup s' x \<noteq> Some k"
      using store_invD(4,5) [OF inv] i by (auto simp: look pending)
  qed
qed

text \<open>What the two ends of a drawable do to the table.\<close>

lemma destroy_now_store:
  "fst (destroy_now i (s, pf)) = (case store_get s i of None \<Rightarrow> s
     | Some d \<Rightarrow> s\<lparr>ds_entries := hm_remove i (ds_entries s),
         ds_by_xid := (if store_lookup s (dw_xid d) = Some i then hm_remove (dw_xid d) (ds_by_xid s) else ds_by_xid s)\<rparr>)"
  by (simp add: destroy_now_def Let_def case_prod_beta store_lookup_def detach_xid_def split: option.split)

lemma destroy_now_frame:
  assumes d: "destroy_now i (s, pf) = (s', pf', calls)" and inv: "store_inv s"
  shows "store_get s' k = (if k = i then None else store_get s k)"
    and "store_lookup s' x = (if store_lookup s x = Some i then None else store_lookup s x)"
    and "ds_next_id s' = ds_next_id s" and "ds_pending_retire s' = ds_pending_retire s"
    and "ds_exported_sync s' = ds_exported_sync s" and "ds_exported_writes s' = ds_exported_writes s"
proof -
  have s': "s' = (case store_get s i of None \<Rightarrow> s
     | Some d \<Rightarrow> s\<lparr>ds_entries := hm_remove i (ds_entries s),
         ds_by_xid := (if store_lookup s (dw_xid d) = Some i then hm_remove (dw_xid d) (ds_by_xid s) else ds_by_xid s)\<rparr>)"
    using destroy_now_store [of i s pf] d by simp
  show "store_get s' k = (if k = i then None else store_get s k)"
    unfolding s' by (simp add: store_get_def split: option.split)
  show "store_lookup s' x = (if store_lookup s x = Some i then None else store_lookup s x)"
  proof (cases "store_get s i")
    case None
    then show ?thesis using store_invD(2) [OF inv, of x i] by (auto simp: s')
  next
    case (Some e)
    have look: "store_lookup s' x = (if store_lookup s (dw_xid e) = Some i \<and> x = dw_xid e then None else store_lookup s x)"
      unfolding s' Some by (simp add: store_lookup_def)
    show ?thesis
    proof (cases "store_lookup s x = Some i")
      case True
      then have "dw_xid e = x" using store_invD(2) [OF inv, of x i] Some by simp
      then show ?thesis using True look by simp
    next
      case False
      then show ?thesis using look by (cases "x = dw_xid e") simp_all
    qed
  qed
  show "ds_next_id s' = ds_next_id s" "ds_pending_retire s' = ds_pending_retire s"
    "ds_exported_sync s' = ds_exported_sync s" "ds_exported_writes s' = ds_exported_writes s"
    unfolding s' by (simp_all split: option.split)
qed

lemma destroy_now_inv:
  assumes d: "destroy_now i (s, pf) = (s', pf', calls)" and inv: "store_inv s"
  shows "store_inv s'"
proof (rule store_invI)
  fix k e assume "store_get s' k = Some e"
  then show "k < ds_next_id s'"
    using store_invD(1) [OF inv, of k] by (simp add: destroy_now_frame(1,3) [OF d inv] split: if_splits)
next
  fix x k assume "store_lookup s' x = Some k"
  then have k: "store_lookup s x = Some k" "k \<noteq> i"
    by (simp_all add: destroy_now_frame(2) [OF d inv] split: if_splits)
  show "\<exists>e. store_get s' k = Some e \<and> dw_xid e = x"
    using store_invD(2) [OF inv k(1)] k(2) by (simp add: destroy_now_frame(1) [OF d inv])
next
  fix k e assume "store_get s' k = Some e"
  then show "(dw_refcount e = 0) = (k \<in> set (ds_pending_retire s'))"
    using store_invD(3) [OF inv, of k] by (simp add: destroy_now_frame(1,4) [OF d inv] split: if_splits)
next
  fix k assume "k \<in> set (ds_pending_retire s')"
  then show "k < ds_next_id s'" using store_invD(4) [OF inv, of k] by (simp add: destroy_now_frame(3,4) [OF d inv])
next
  fix k x assume "k \<in> set (ds_pending_retire s')"
  then show "store_lookup s' x \<noteq> Some k"
    using store_invD(5) [OF inv, of k] by (simp add: destroy_now_frame(2,4) [OF d inv])
qed


text \<open>A drawable whose last reference is dropped while the device still uses it is parked.\<close>

definition parked :: "DrawableId \<Rightarrow> Drawable \<Rightarrow> DrawableStore \<Rightarrow> DrawableStore" where
  "parked i d s = (let s = detach_xid (dw_xid d) (modify_drawable i (\<lambda>d. d\<lparr>dw_refcount := 0\<rparr>) s)
     in s\<lparr>ds_pending_retire := ds_pending_retire s @ [i]\<rparr>)"

lemma parked_frame:
  "store_get (parked i d s) k = (if k = i then map_option (\<lambda>d. d\<lparr>dw_refcount := 0\<rparr>) (store_get s i) else store_get s k)"
  "store_lookup (parked i d s) x = (if x = dw_xid d then None else store_lookup s x)"
  "ds_next_id (parked i d s) = ds_next_id s" "ds_pending_retire (parked i d s) = ds_pending_retire s @ [i]"
  by (simp_all add: parked_def Let_def detach_xid_def store_get_def store_lookup_def modify_drawable_def)

lemma parked_inv:
  assumes inv: "store_inv s" and d: "store_get s i = Some d"
  shows "store_inv (parked i d s)"
proof (rule store_invI)
  fix k e assume "store_get (parked i d s) k = Some e"
  then show "k < ds_next_id (parked i d s)"
    using store_invD(1) [OF inv, of k] d by (auto simp: parked_frame split: if_splits)
next
  fix x k assume "store_lookup (parked i d s) x = Some k"
  then have k: "store_lookup s x = Some k" by (simp add: parked_frame split: if_splits)
  obtain e where "store_get s k = Some e" "dw_xid e = x" using store_invD(2) [OF inv k] by blast
  then show "\<exists>e. store_get (parked i d s) k = Some e \<and> dw_xid e = x" by (auto simp: parked_frame)
next
  fix k e assume "store_get (parked i d s) k = Some e"
  then show "(dw_refcount e = 0) = (k \<in> set (ds_pending_retire (parked i d s)))"
    using store_invD(3) [OF inv, of k] by (auto simp: parked_frame split: if_splits)
next
  fix k assume "k \<in> set (ds_pending_retire (parked i d s))"
  then show "k < ds_next_id (parked i d s)"
    using store_invD(4) [OF inv, of k] store_invD(1) [OF inv d] by (auto simp: parked_frame)
next
  fix k x assume k: "k \<in> set (ds_pending_retire (parked i d s))"
  show "store_lookup (parked i d s) x \<noteq> Some k"
  proof (cases "k = i")
    case True
    show ?thesis using store_invD(2) [OF inv, of x i] d by (auto simp: parked_frame True)
  qed (use k store_invD(5) [OF inv, of k] in \<open>auto simp: parked_frame\<close>)
qed

lemma destroy_now_refcount:
  "destroy_now i (modify_drawable i (\<lambda>d. d\<lparr>dw_refcount := n\<rparr>) s, pf) = destroy_now i (s, pf)"
proof -
  have "hm_remove i (hm_modify i f m) = hm_remove i m" for f :: "Drawable \<Rightarrow> Drawable" and m
    by (simp add: hm_modify_def hm_remove_def hm_insert_def delete_update_same split: option.split)
  moreover have "hm_get m i = None \<Longrightarrow> hm_modify i f m = m" for f :: "Drawable \<Rightarrow> Drawable" and m
    by (simp add: hm_modify_def)
  ultimately show ?thesis
    by (simp add: destroy_now_def Let_def store_lookup_def modify_drawable_def store_get_def split: option.split)
qed

text \<open>The four ends of \<open>decref\<close>.\<close>

lemma decref_cases:
  assumes "decref i (s, pf) = (r, s', pf', calls)"
  obtains (Missing) "store_get s i = None" "s' = s" "pf' = pf" "calls = []"
  | (Shared) d where "store_get s i = Some d" "dw_refcount d > 1" "pf' = pf" "calls = []"
      "s' = modify_drawable i (\<lambda>d. d\<lparr>dw_refcount := dw_refcount d - 1\<rparr>) s"
  | (Last) d calls' where "store_get s i = Some d" "\<not> dw_refcount d > 1" "ticket_ready pf d" "calls = OnDestroyed i # calls'"
      "destroy_now i (s, pf) = (s', pf', calls')"
  | (Parked) d where "store_get s i = Some d" "\<not> dw_refcount d > 1" "\<not> ticket_ready pf d" "s' = parked i d s" "pf' = pf" "calls = []"
proof (cases "store_get s i")
  case None
  then show thesis using assms by (intro Missing) (auto simp: decref_def)
next
  case (Some d)
  consider "dw_refcount d > 1" | "\<not> dw_refcount d > 1" "ticket_ready pf d" | "\<not> dw_refcount d > 1" "\<not> ticket_ready pf d" by blast
  then show thesis
  proof cases
    case 1
    then show thesis using assms Some by (intro Shared) (auto simp: decref_def)
  next
    case 2
    obtain t pf'' calls' where "destroy_now i (s, pf) = (t, pf'', calls')" by (cases "destroy_now i (s, pf)")
    then show thesis
      using 2 assms Some by (intro Last [of d calls']) (simp_all add: decref_def Let_def destroy_now_refcount)
  next
    case 3
    then show thesis using assms Some by (intro Parked) (auto simp: decref_def Let_def parked_def)
  qed
qed

lemma decref_inv:
  assumes inv: "store_inv s" and "decref i (s, pf) = (r, s', pf', calls)"
  shows "store_inv s'"
  using assms(2)
proof (cases rule: decref_cases)
  case (Shared d)
  have "dw_refcount d - 1 \<noteq> 0" "dw_refcount d \<noteq> 0" using Shared(2) by (auto simp: eq_iff_diff_eq_0 [symmetric])
  then show ?thesis
    unfolding Shared(5) using Shared(1) by (intro modify_drawable_inv [OF inv]) auto
next
  case (Last d calls')
  show ?thesis by (rule destroy_now_inv [OF Last(5) inv])
qed (use inv in \<open>simp_all add: parked_inv\<close>)


lemma destroy_now_pending:
  assumes "destroy_now i (s, pf) = (s', pf', calls)"
  shows "destroy_now i (s\<lparr>ds_pending_retire := p\<rparr>, pf) = (s'\<lparr>ds_pending_retire := p\<rparr>, pf', calls)"
  using assms
  by (cases "store_get s i")
    (auto simp: destroy_now_def Let_def case_prod_beta store_get_def store_lookup_def detach_xid_def split: if_splits)

lemma destroy_all_pending:
  "destroy_ready is (s, pf) = (s', pf', calls) \<Longrightarrow>
    destroy_ready is (s\<lparr>ds_pending_retire := p\<rparr>, pf) = (s'\<lparr>ds_pending_retire := p\<rparr>, pf', calls)"
proof (induction "is" arbitrary: s pf s' pf' calls)
  case (Cons i "is")
  obtain t q cs where i: "destroy_now i (s, pf) = (t, q, cs)" by (cases "destroy_now i (s, pf)")
  obtain u r ds where "destroy_ready is (t, q) = (u, r, ds)" by (cases "destroy_ready is (t, q)")
  then show ?case using Cons.prems Cons.IH i destroy_now_pending [OF i, of p] by simp
qed simp

lemma destroy_all_frame:
  "destroy_ready is (s, pf) = (s', pf', calls) \<Longrightarrow> store_inv s \<Longrightarrow>
    store_inv s' \<and> (\<forall>k. store_get s' k = (if k \<in> set is then None else store_get s k)) \<and>
    ds_pending_retire s' = ds_pending_retire s"
proof (induction "is" arbitrary: s pf s' pf' calls)
  case (Cons i "is")
  obtain t q cs where i: "destroy_now i (s, pf) = (t, q, cs)" by (cases "destroy_now i (s, pf)")
  obtain u r ds where rest: "destroy_ready is (t, q) = (u, r, ds)" by (cases "destroy_ready is (t, q)")
  have "s' = u" using Cons.prems(1) i rest by simp
  then show ?case
    using Cons.IH [OF rest destroy_now_inv [OF i Cons.prems(2)]] destroy_now_frame(1,4) [OF i Cons.prems(2)] by auto
qed simp

lemma poll_store:
  assumes "poll_pending_retire (s, pf) = (s', pf', calls)"
  obtains t where "destroy_ready (filter (retire_ready s pf) (ds_pending_retire s)) (s, pf) = (t, pf', calls)"
    and "s' = t\<lparr>ds_pending_retire := filter (\<lambda>i. \<not> retire_ready s pf i) (ds_pending_retire s)\<rparr>"
proof -
  obtain t q cs where t: "destroy_ready (filter (retire_ready s pf) (ds_pending_retire s)) (s, pf) = (t, q, cs)"
    by (cases "destroy_ready (filter (retire_ready s pf) (ds_pending_retire s)) (s, pf)")
  show thesis
    using assms destroy_all_pending [OF t, of "[]"] t by (intro that [of t]) (auto simp: poll_pending_retire_def Let_def)
qed

lemma poll_inv:
  assumes inv: "store_inv s" and "poll_pending_retire (s, pf) = (s', pf', calls)"
  shows "store_inv s'"
proof -
  let ?p = "filter (\<lambda>i. \<not> retire_ready s pf i) (ds_pending_retire s)"
  obtain t where t: "destroy_ready (filter (retire_ready s pf) (ds_pending_retire s)) (s, pf) = (t, pf', calls)"
    and s': "s' = t\<lparr>ds_pending_retire := ?p\<rparr>"
    using assms(2) by (rule poll_store)
  have ti: "store_inv t" and get: "store_get t k = (if k \<in> set (filter (retire_ready s pf) (ds_pending_retire s)) then None else store_get s k)"
    and pending: "ds_pending_retire t = ds_pending_retire s" for k
    using destroy_all_frame [OF t inv] by blast+
  have same: "store_get s' = store_get t" "store_lookup s' = store_lookup t" "ds_next_id s' = ds_next_id t"
    "ds_pending_retire s' = ?p"
    by (simp_all add: s' store_get_def store_lookup_def fun_eq_iff)
  show ?thesis
  proof (rule store_invI)
    fix k e assume k: "store_get s' k = Some e"
    have "(dw_refcount e = 0) = (k \<in> set (ds_pending_retire t))" using store_invD(3) [OF ti, of k e] k by (simp add: same)
    then show "(dw_refcount e = 0) = (k \<in> set (ds_pending_retire s'))" using k get [of k] by (auto simp: same pending)
  next
    fix k assume "k \<in> set (ds_pending_retire s')"
    then show "k < ds_next_id s'" using store_invD(4) [OF ti, of k] by (simp add: same pending)
  next
    fix k x assume "k \<in> set (ds_pending_retire s')"
    then show "store_lookup s' x \<noteq> Some k" using store_invD(5) [OF ti, of k] by (simp add: same pending)
  qed (use store_invD(1,2) [OF ti] in \<open>auto simp: same\<close>)
qed

lemma same_tables_inv:
  assumes "store_inv s" and "ds_next_id s' = ds_next_id s" and "ds_entries s' = ds_entries s" and "ds_by_xid s' = ds_by_xid s"
    and "ds_pending_retire s' = ds_pending_retire s"
  shows "store_inv s'"
  using assms by (simp add: store_inv_def store_get_def store_lookup_def)

lemma detach_inv:
  assumes "store_inv s"
  shows "store_inv (detach_xid xid s)"
proof -
  have "store_lookup (detach_xid xid s) x = (if x = xid then None else store_lookup s x)" for x
    by (simp add: detach_xid_def store_lookup_def)
  moreover have "store_get (detach_xid xid s) = store_get s" "ds_next_id (detach_xid xid s) = ds_next_id s"
    "ds_pending_retire (detach_xid xid s) = ds_pending_retire s"
    by (simp_all add: detach_xid_def store_get_def fun_eq_iff)
  ultimately show ?thesis using assms by (simp add: store_inv_def)
qed

lemma step_inv: "store_step sp acts sp' \<Longrightarrow> store_inv (fst sp) \<Longrightarrow> store_inv (fst sp')"
proof (induction rule: store_step.induct)
  case (Incref s xid i pf)
  then have inv: "store_inv s" by simp
  have "store_inv (incref i s)"
    unfolding incref_def
  proof (rule modify_drawable_inv [OF inv])
    fix d assume d: "store_get s i = Some d"
    have "dw_refcount d \<noteq> 0" using store_invD(3) [OF inv d] store_invD(5) [OF inv] Incref by blast
    then show "(dw_refcount (d\<lparr>dw_refcount := if dw_refcount d = - 1 then - 1 else dw_refcount d + 1\<rparr>) = 0) = (dw_refcount d = 0)"
      by (auto simp: add_eq_0_iff2)
  qed simp
  then show ?case by simp
next
  case (Participate s pf i v)
  then show ?case by (auto simp: set_scene_participating_def Let_def intro!: modify_drawable_inv split: if_splits)
next
  case (Damage s pf i r)
  then show ?case by (auto simp: damage_drawable_def intro!: modify_drawable_inv split: if_splits)
next
  case (Ack s pf snap)
  then show ?case by (auto simp: ack_presentation_damage_def intro!: modify_drawable_inv split: if_splits)
next
  case (Redirect s pf i b)
  then show ?case by (auto simp: set_redirected_target_def intro!: modify_drawable_inv)
next
  case (Touch s pf i t)
  have "store_inv (modify_drawable i (\<lambda>d. d\<lparr>dw_last_render_ticket := Some t\<rparr>) s)"
    by (rule modify_drawable_inv) (use Touch in simp_all)
  then show ?case by (rule same_tables_inv) (simp_all add: touch_render_fence_def Let_def)
qed (auto intro: allocate_inv decref_inv poll_inv detach_inv same_tables_inv
    simp: set_exported_sync_fd_def clear_exported_sync_fd_def take_exported_writes_def Let_def)

lemma run_inv: "store_run sp acts sp' \<Longrightarrow> store_inv (fst sp) \<Longrightarrow> store_inv (fst sp')"
  by (induction rule: store_run.induct) (auto intro: step_inv)

lemma store_new_inv: "store_inv store_new"
  by (simp add: store_inv_def store_new_def store_get_def store_lookup_def)


text \<open>
  Claim: whatever sequence of operations the backend performs on a new store, an identifier that resolves to a drawable
  resolves to one that exists under this very identifier, is referenced, and is not waiting for its destruction.
\<close>

theorem lookup_finds_live_drawable:
  assumes "store_run (store_new, pf) acts (s, pf')" and "store_lookup s xid = Some i"
  shows "\<exists>d. store_get s i = Some d \<and> dw_xid d = xid \<and> dw_refcount d > 0 \<and> i \<notin> set (ds_pending_retire s)"
proof -
  have inv: "store_inv s" using run_inv [OF assms(1)] store_new_inv by simp
  obtain d where d: "store_get s i = Some d" "dw_xid d = xid" using store_invD(2) [OF inv assms(2)] by blast
  have free: "i \<notin> set (ds_pending_retire s)" using store_invD(5) [OF inv] assms(2) by blast
  then have "dw_refcount d \<noteq> 0" using store_invD(3) [OF inv d(1)] by blast
  then show ?thesis using d free by (auto simp: word_neq_0_conv)
qed

section \<open>Destruction\<close>

text \<open>Which drawables a step destroys, and when.\<close>

lemma destroy_all_calls:
  "destroy_ready is (s, pf) = (s', pf', calls) \<Longrightarrow> OnDestroyed k \<in> set calls \<Longrightarrow> k \<in> set is"
proof (induction "is" arbitrary: s pf s' pf' calls)
  case (Cons i "is")
  obtain t q cs where i: "destroy_now i (s, pf) = (t, q, cs)" by (cases "destroy_now i (s, pf)")
  obtain u r ds where rest: "destroy_ready is (t, q) = (u, r, ds)" by (cases "destroy_ready is (t, q)")
  have "OnDestroyed k \<notin> set cs" using i by (auto simp: destroy_now_def Let_def case_prod_beta split: option.splits)
  moreover have "calls = OnDestroyed i # cs @ ds" using Cons.prems(1) i rest by simp
  ultimately show ?case using Cons.prems(2) Cons.IH [OF rest] by auto
qed simp


lemma destroyed_only:
  assumes inv: "store_inv s" and step: "store_step (s, pf) acts (s', pf')" and k: "Called (OnDestroyed k) \<in> set acts"
    and d: "store_get s k = Some d"
  shows "ticket_ready pf d \<and> dw_refcount d \<le> 1 \<and> store_get s' k = None"
  using step
proof (cases rule: store_step.cases)
  case (Decref i r calls)
  have called: "OnDestroyed k \<in> set calls" using k Decref(1) by auto
  from Decref(2) show ?thesis
  proof (cases rule: decref_cases)
    case (Last e calls')
    have "OnDestroyed k \<notin> set calls'"
      using Last(5) by (auto simp: destroy_now_def Let_def case_prod_beta split: option.splits)
    then have "k = i" using called Last(4) by simp
    then show ?thesis using Last d destroy_now_frame(1) [OF Last(5) inv, of i] by simp
  qed (use called in simp_all)
next
  case (Poll calls)
  have called: "OnDestroyed k \<in> set calls" using k Poll(1) by auto
  obtain t where t: "destroy_ready (filter (retire_ready s pf) (ds_pending_retire s)) (s, pf) = (t, pf', calls)"
    and s': "s' = t\<lparr>ds_pending_retire := filter (\<lambda>i. \<not> retire_ready s pf i) (ds_pending_retire s)\<rparr>"
    using Poll(2) by (rule poll_store)
  have parked: "k \<in> set (filter (retire_ready s pf) (ds_pending_retire s))" by (rule destroy_all_calls [OF t called])
  have "store_get t k = None" using destroy_all_frame [OF t inv] parked by simp
  moreover have "dw_refcount d = 0" using store_invD(3) [OF inv d] parked by simp
  ultimately show ?thesis using parked d by (simp add: s' store_get_def retire_ready_def)
qed (use k in auto)


section \<open>Images\<close>

lemma mset_values_remove:
  "hm_wf m \<Longrightarrow> hm_get m k = Some v \<Longrightarrow> mset (hm_values m) = add_mset v (mset (hm_values (hm_remove k m)))"
proof (induction m)
  case (Cons a m)
  obtain x y where a: "a = (x, y)" by (cases a)
  have wf: "hm_wf m" and new: "x \<notin> fst ` set m" using Cons.prems(1) by (auto simp: hm_wf_def a)
  show ?case
  proof (cases "x = k")
    case True
    then have "hm_remove k m = m" using new by (simp add: hm_remove_def delete_id)
    then show ?thesis using Cons.prems(2) by (simp add: a True hm_values_def hm_get_def hm_remove_def)
  next
    case False
    then show ?thesis using Cons.IH [OF wf] Cons.prems(2) by (simp add: a hm_values_def hm_get_def hm_remove_def)
  qed
qed simp

lemma mset_values_insert:
  "hm_wf m \<Longrightarrow> mset (hm_values (hm_insert k v m)) = add_mset v (mset (hm_values (hm_remove k m)))"
proof -
  assume wf: "hm_wf m"
  have "hm_remove k (hm_insert k v m) = hm_remove k m"
    by (simp add: hm_remove_def hm_insert_def delete_update_same)
  then show ?thesis using mset_values_remove [of "hm_insert k v m" k v] wf by simp
qed

lemma mset_values_replace:
  "hm_wf m \<Longrightarrow> hm_get m k = Some v \<Longrightarrow>
    add_mset v (mset (hm_values (hm_insert k w m))) = add_mset w (mset (hm_values m))"
  by (simp add: mset_values_insert mset_values_remove)

lemma mset_values_new:
  "hm_wf m \<Longrightarrow> hm_get m k = None \<Longrightarrow> mset (hm_values (hm_insert k v m)) = add_mset v (mset (hm_values m))"
  by (simp add: mset_values_insert hm_remove_def hm_get_def map_of_eq_None_iff delete_id)

text \<open>The images that the store and the pool hold.\<close>

definition pool_images :: "PixmapPool \<Rightarrow> u64 multiset" where
  "pool_images pool = \<Sum>\<^sub># (image_mset (\<lambda>b. mset (map pi_image b)) (mset (hm_values (pp_buckets pool))))"

definition platform_images :: "Platform \<Rightarrow> u64 multiset" where
  "platform_images pf = (case pf_pool pf of None \<Rightarrow> {#} | Some pool \<Rightarrow> pool_images pool)"

definition store_images :: "DrawableStore \<Rightarrow> u64 multiset" where
  "store_images s = image_mset (\<lambda>d. sg_image (dw_storage d)) (mset (hm_values (ds_entries s)))"

definition tables_ok :: "DrawableStore \<times> Platform \<Rightarrow> bool" where
  "tables_ok sp \<longleftrightarrow> hm_wf (ds_entries (fst sp)) \<and> (\<forall>i d. store_get (fst sp) i = Some d \<longrightarrow> real_storage (dw_storage d)) \<and>
     pf_vk (snd sp) \<and> (\<forall>pool. pf_pool (snd sp) = Some pool \<longrightarrow> hm_wf (pp_buckets pool))"

lemma bucket_images:
  assumes "hm_wf (pp_buckets pool)"
  shows "pool_images (pool\<lparr>pp_buckets := hm_insert key b (pp_buckets pool)\<rparr>) + mset (map pi_image (bucket pool key)) =
    pool_images pool + mset (map pi_image b)"
proof (cases "hm_get (pp_buckets pool) key")
  case None
  then show ?thesis using mset_values_new [OF assms None] by (simp add: pool_images_def bucket_def)
next
  case (Some c)
  have "\<Sum>\<^sub># (image_mset (\<lambda>b. mset (map pi_image b)) (add_mset c (mset (hm_values (hm_insert key b (pp_buckets pool)))))) =
      \<Sum>\<^sub># (image_mset (\<lambda>b. mset (map pi_image b)) (add_mset b (mset (hm_values (pp_buckets pool)))))"
    by (simp only: mset_values_replace [OF assms Some])
  then show ?thesis by (simp add: pool_images_def bucket_def Some add.commute)
qed

lemma try_return_images:
  assumes "hm_wf (pp_buckets pool)" and "try_return key e pool = (ok, pool')"
  shows "pool_images pool' = pool_images pool + (if ok then {#pi_image e#} else {#}) \<and> hm_wf (pp_buckets pool')"
proof -
  have stats: "pool_images (p\<lparr>pp_stats := t\<rparr>) = pool_images p" for p t by (simp add: pool_images_def)
  let ?put = "\<lambda>b. pool\<lparr>pp_buckets := hm_insert key b (pp_buckets pool)\<rparr>"
  have same: "pool_images (?put (bucket pool key)) = pool_images pool"
    using bucket_images [OF assms(1), of key "bucket pool key"] by simp
  let ?p = "?put (bucket pool key)"
  have "bucket ?p key = bucket pool key" by (simp add: bucket_def)
  then have one: "pool_images (?p\<lparr>pp_buckets := hm_insert key (bucket pool key @ [e]) (pp_buckets ?p)\<rparr>) =
      pool_images pool + {#pi_image e#}"
    using bucket_images [of ?p key "bucket pool key @ [e]"] assms(1) same by simp
  show ?thesis
    using assms same one by (auto simp: try_return_def Let_def stats split: if_splits)
qed


lemma try_take_images:
  assumes "hm_wf (pp_buckets pool)" and "try_take key pool = (Some e, pool')"
  shows "pool_images pool = pool_images pool' + {#pi_image e#} \<and> hm_wf (pp_buckets pool')"
proof -
  obtain rest where b: "bucket pool key = e # rest" and pool': "pool' = pool\<lparr>pp_buckets := hm_insert key rest (pp_buckets pool),
      pp_stats := (pp_stats pool)\<lparr>total_takes_hit := total_takes_hit (pp_stats pool) + 1\<rparr>\<rparr>"
    using assms(2) by (auto simp: try_take_def Let_def split: if_splits list.splits)
  have "pool_images pool' = pool_images (pool\<lparr>pp_buckets := hm_insert key rest (pp_buckets pool)\<rparr>)"
    by (simp add: pool' pool_images_def)
  then show ?thesis using bucket_images [OF assms(1), of key rest] assms(1) by (simp add: b pool')
qed

text \<open>The images that a list of calls destroys, and those of an action.\<close>

fun call_images :: "VkCall \<Rightarrow> u64 multiset" where
  "call_images (DestroyImage h) = {#h#}"
| "call_images _ = {#}"

definition destroyed_by :: "VkCall list \<Rightarrow> u64 multiset" where
  "destroyed_by calls = \<Sum>\<^sub># (mset (map call_images calls))"

lemma destroyed_by_simps [simp]:
  "destroyed_by [] = {#}" "destroyed_by (c # cs) = call_images c + destroyed_by cs"
  "destroyed_by (cs @ ds) = destroyed_by cs + destroyed_by ds"
  by (simp_all add: destroyed_by_def)

lemma destroy_direct_images: "sg_image g \<noteq> 0 \<Longrightarrow> destroyed_by (destroy_direct g) = {#sg_image g#}"
  by (simp add: destroy_direct_def unless_null_def)

lemma drop_images: "destroyed_by (drop_drawable_image d) = {#di_image d#}"
  by (simp add: drop_drawable_image_def split: option.split)

lemma destroy_storage_images:
  assumes "real_storage g" and "pf_vk pf" and "\<forall>pool. pf_pool pf = Some pool \<longrightarrow> hm_wf (pp_buckets pool)"
    and "destroy_storage pf g = (g', pf', calls)"
  shows "platform_images pf' + destroyed_by calls = platform_images pf + {#sg_image g#} \<and> pf_vk pf' \<and>
    (\<forall>pool. pf_pool pf' = Some pool \<longrightarrow> hm_wf (pp_buckets pool))"
proof (cases "sg_imported g")
  case (Some d)
  then show ?thesis
    using assms by (auto simp: destroy_storage_def real_storage_def unless_null_def drop_images split: if_splits)
next
  case None
  let ?s = "g\<lparr>sg_sample_view := 0\<rparr>"
  let ?pool = "if \<not> sg_promoted_exportable g \<and> sg_image g \<noteq> 0 \<and> sg_image_view g \<noteq> 0 \<and> sg_memory g \<noteq> 0 then pf_pool pf else None"
  have img: "sg_image g \<noteq> 0" "\<not> sg_is_test_stub g" using assms(1) by (simp_all add: real_storage_def)
  have direct: "destroyed_by (destroy_direct ?s) = {#sg_image g#}" using destroy_direct_images [of ?s] img by simp
  have view: "destroyed_by (unless_null DestroyImageView (sg_sample_view g)) = {#}" by (simp add: unless_null_def)
  show ?thesis
  proof (cases ?pool)
    case None
    then show ?thesis
      using assms(2-4) img \<open>sg_imported g = None\<close> direct view
      by (auto simp: destroy_storage_def Let_def split: if_splits)
  next
    case (Some pool)
    then have pool: "pf_pool pf = Some pool" by (simp split: if_splits)
    obtain ok pool' where ret: "try_return
        \<lparr>pk_width = fst (sg_extent g), pk_height = snd (sg_extent g), pk_format = sg_format g\<rparr>
        \<lparr>pi_image = sg_image g, pi_view = sg_image_view g, pi_memory = sg_memory g, pi_layout = sg_layout g\<rparr> pool = (ok, pool')"
      by (cases "try_return
        \<lparr>pk_width = fst (sg_extent g), pk_height = snd (sg_extent g), pk_format = sg_format g\<rparr>
        \<lparr>pi_image = sg_image g, pi_view = sg_image_view g, pi_memory = sg_memory g, pi_layout = sg_layout g\<rparr> pool")
    have wf: "hm_wf (pp_buckets pool)" using assms(3) pool by blast
    have out: "pf' = pf\<lparr>pf_pool := Some pool'\<rparr> \<and>
        calls = unless_null DestroyImageView (sg_sample_view g) @ (if ok then [] else destroy_direct ?s)"
      using assms(2,4) img \<open>sg_imported g = None\<close> Some ret
      by (cases ok) (auto simp: destroy_storage_def Let_def)
    show ?thesis
      using out try_return_images [OF wf ret] assms(2) direct view
      by (cases ok) (simp_all add: platform_images_def pool)
  qed
qed


fun given_by :: "StoreAction \<Rightarrow> u64 multiset" where
  "given_by (Given h) = {#h#}"
| "given_by _ = {#}"

text \<open>What an action takes out of the hands of the store and the pool: to the caller, or to the device's destroyer.\<close>

fun taken_by :: "StoreAction \<Rightarrow> u64 multiset" where
  "taken_by (Taken h) = {#h#}"
| "taken_by _ = {#}"

fun destroyed_in :: "StoreAction \<Rightarrow> u64 multiset" where
  "destroyed_in (Called (Vk c)) = call_images c"
| "destroyed_in _ = {#}"

definition total :: "(StoreAction \<Rightarrow> u64 multiset) \<Rightarrow> StoreAction list \<Rightarrow> u64 multiset" where
  "total f acts = \<Sum>\<^sub># (mset (map f acts))"

lemma total_simps [simp]:
  "total f [] = {#}" "total f (a # as) = f a + total f as" "total f (as @ bs) = total f as + total f bs"
  by (simp_all add: total_def)

lemma total_calls [simp]:
  "total given_by (map Called cs) = {#}" "total taken_by (map Called cs) = {#}"
  by (induction cs) simp_all

lemma total_destroyed [simp]: "total destroyed_in (map (Called \<circ> Vk) vs) = destroyed_by vs"
  by (induction vs) simp_all

lemma modify_drawable_images:
  assumes "hm_wf (ds_entries s)" and "\<And>d. dw_storage (f d) = dw_storage d"
  shows "store_images (modify_drawable i f s) = store_images s"
proof (cases "hm_get (ds_entries s) i")
  case (Some d)
  have "image_mset (\<lambda>d. sg_image (dw_storage d)) (add_mset d (mset (hm_values (hm_insert i (f d) (ds_entries s))))) =
      image_mset (\<lambda>d. sg_image (dw_storage d)) (add_mset (f d) (mset (hm_values (ds_entries s))))"
    by (simp only: mset_values_replace [OF assms(1) Some])
  then show ?thesis using assms(2) [of d] by (simp add: store_images_def modify_drawable_def hm_modify_def Some)
qed (simp add: modify_drawable_def hm_modify_def)

lemma modify_drawable_ok:
  assumes "tables_ok (s, pf)" and "\<And>d. dw_storage (f d) = dw_storage d"
  shows "tables_ok (modify_drawable i f s, pf) \<and> store_images (modify_drawable i f s) = store_images s"
proof -
  have wf: "hm_wf (ds_entries s)" using assms(1) by (simp add: tables_ok_def)
  have "tables_ok (modify_drawable i f s, pf)"
    using assms by (auto simp: tables_ok_def modify_drawable_def store_get_def split: if_splits)
  then show ?thesis using modify_drawable_images [of s f i, OF wf assms(2)] by blast
qed

lemma destroy_now_images:
  assumes ok: "tables_ok (s, pf)" and d: "destroy_now i (s, pf) = (s', pf', calls)"
  shows "tables_ok (s', pf') \<and>
    store_images s + platform_images pf = store_images s' + platform_images pf' + total destroyed_in (map Called calls)"
proof (cases "store_get s i")
  case None
  then show ?thesis using d ok by (simp add: destroy_now_def)
next
  case (Some e)
  obtain g pf2 vs where g: "destroy_storage pf (dw_storage e) = (g, pf2, vs)" by (cases "destroy_storage pf (dw_storage e)")
  have out: "pf' = pf2" "calls = map Vk vs" using d by (simp_all add: destroy_now_def Some Let_def g)
  have s': "ds_entries s' = hm_remove i (ds_entries s)"
    using destroy_now_store [of i s pf] d by (simp add: Some)
  have wf: "hm_wf (ds_entries s)" "real_storage (dw_storage e)" "pf_vk pf" "\<forall>pool. pf_pool pf = Some pool \<longrightarrow> hm_wf (pp_buckets pool)"
    using ok Some by (auto simp: tables_ok_def)
  have real: "real_storage (dw_storage u)" if "store_get s k = Some u" for k u
    using ok that by (auto simp: tables_ok_def)
  have images: "store_images s = add_mset (sg_image (dw_storage e)) (store_images s')"
    using mset_values_remove [OF wf(1)] Some by (simp add: store_images_def s' store_get_def)
  have platform: "platform_images pf' + destroyed_by vs = platform_images pf + {#sg_image (dw_storage e)#}" "pf_vk pf'"
    "\<forall>pool. pf_pool pf' = Some pool \<longrightarrow> hm_wf (pp_buckets pool)"
    using destroy_storage_images [OF wf(2-4) g] out(1) by simp_all
  have "tables_ok (s', pf')"
    using wf(1) platform(2,3) real by (auto simp: tables_ok_def s' store_get_def split: if_splits)
  then show ?thesis using images platform(1) by (simp add: out(2) ac_simps)
qed

lemma destroy_all_images:
  "destroy_ready is (s, pf) = (s', pf', calls) \<Longrightarrow> tables_ok (s, pf) \<Longrightarrow> tables_ok (s', pf') \<and>
    store_images s + platform_images pf = store_images s' + platform_images pf' + total destroyed_in (map Called calls)"
proof (induction "is" arbitrary: s pf s' pf' calls)
  case (Cons i "is")
  obtain t q cs where i: "destroy_now i (s, pf) = (t, q, cs)" by (cases "destroy_now i (s, pf)")
  obtain u r ds where rest: "destroy_ready is (t, q) = (u, r, ds)" by (cases "destroy_ready is (t, q)")
  have out: "s' = u" "pf' = r" "calls = OnDestroyed i # cs @ ds" using Cons.prems(1) i rest by simp_all
  show ?case
    using destroy_now_images [OF Cons.prems(2) i] Cons.IH [OF rest] by (simp add: out ac_simps)
qed simp


text \<open>What one step does to the balance.\<close>

definition balanced :: "DrawableStore \<times> Platform \<Rightarrow> StoreAction list \<Rightarrow> DrawableStore \<times> Platform \<Rightarrow> bool" where
  "balanced sp acts sp' \<longleftrightarrow> tables_ok sp' \<and>
     total given_by acts + store_images (fst sp) + platform_images (snd sp) =
       store_images (fst sp') + platform_images (snd sp') + total taken_by acts + total destroyed_in acts"

lemma balanced_same:
  "tables_ok (s', pf) \<and> store_images s' = store_images s \<Longrightarrow> balanced (s, pf) [] (s', pf)"
  by (simp add: balanced_def)

lemma allocate_balanced:
  assumes ok: "tables_ok (s, pf)" and inv: "store_inv s"
    and a: "allocate_drawable xid kind depth v g s = Some (Inr (i, s'))" and g: "real_storage g"
  shows "balanced (s, pf) [Given (sg_image g)] (s', pf)"
proof -
  have i: "i = ds_next_id s" and s': "ds_entries s' = hm_insert i (new_drawable i xid kind depth v g) (ds_entries s)"
    using a by (auto simp: allocate_drawable_def Let_def split: if_splits)
  have "store_get s i = None" using store_invD(1) [OF inv] i by (cases "store_get s i") auto
  then have new: "mset (hm_values (ds_entries s')) = add_mset (new_drawable i xid kind depth v g) (mset (hm_values (ds_entries s)))"
    unfolding s' store_get_def using ok by (intro mset_values_new) (simp_all add: tables_ok_def)
  have storage: "dw_storage (new_drawable i xid kind depth v g) = g" by (simp add: new_drawable_def)
  have "tables_ok (s', pf)" using ok g storage by (auto simp: tables_ok_def s' store_get_def split: if_splits)
  then show ?thesis by (simp add: balanced_def store_images_def new storage)
qed

lemma decref_balanced:
  assumes ok: "tables_ok (s, pf)" and d: "decref i (s, pf) = (r, s', pf', calls)"
  shows "balanced (s, pf) (map Called calls) (s', pf')"
  using d
proof (cases rule: decref_cases)
  case (Shared d)
  have "tables_ok (s', pf) \<and> store_images s' = store_images s"
    unfolding Shared(5) by (rule modify_drawable_ok [OF ok]) simp
  then show ?thesis by (simp add: balanced_def Shared(3,4))
next
  case (Last d calls')
  then show ?thesis using destroy_now_images [OF ok Last(5)] by (simp add: balanced_def)
next
  case (Parked d)
  have "tables_ok (modify_drawable i (\<lambda>d. d\<lparr>dw_refcount := 0\<rparr>) s, pf) \<and>
      store_images (modify_drawable i (\<lambda>d. d\<lparr>dw_refcount := 0\<rparr>) s) = store_images s"
    by (rule modify_drawable_ok [OF ok]) simp
  then show ?thesis
    by (simp add: balanced_def Parked(4-6) parked_def Let_def detach_xid_def tables_ok_def store_images_def store_get_def)
qed (use ok in \<open>simp add: balanced_def\<close>)

lemma poll_balanced:
  assumes ok: "tables_ok (s, pf)" and p: "poll_pending_retire (s, pf) = (s', pf', calls)"
  shows "balanced (s, pf) (map Called calls) (s', pf')"
proof -
  obtain t where t: "destroy_ready (filter (retire_ready s pf) (ds_pending_retire s)) (s, pf) = (t, pf', calls)"
    and s': "s' = t\<lparr>ds_pending_retire := filter (\<lambda>i. \<not> retire_ready s pf i) (ds_pending_retire s)\<rparr>"
    using p by (rule poll_store)
  have "tables_ok (s', pf') = tables_ok (t, pf')" "store_images s' = store_images t"
    by (simp_all add: s' tables_ok_def store_images_def store_get_def)
  then show ?thesis using destroy_all_images [OF t ok] by (simp add: balanced_def)
qed

lemma step_balanced:
  assumes "store_step sp acts sp'" and "tables_ok sp" and "store_inv (fst sp)"
  shows "balanced sp acts sp'"
  using assms
proof (induction rule: store_step.induct)
  case (Allocate xid kind depth v g s i s' pf)
  then show ?case by (auto intro: allocate_balanced)
next
  case (Take key pool e pool' pf s)
  have "hm_wf (pp_buckets pool)" using Take by (simp add: tables_ok_def)
  then show ?case using Take try_take_images [OF _ Take(1)] by (simp add: balanced_def tables_ok_def platform_images_def)
next
  case (Decref i s pf r s' pf' calls)
  then show ?case by (auto intro: decref_balanced)
next
  case (Poll s pf s' pf' calls)
  then show ?case by (auto intro: poll_balanced)
next
  case (Touch s pf i t)
  have "tables_ok (modify_drawable i (\<lambda>d. d\<lparr>dw_last_render_ticket := Some t\<rparr>) s, pf) \<and>
      store_images (modify_drawable i (\<lambda>d. d\<lparr>dw_last_render_ticket := Some t\<rparr>) s) = store_images s"
    by (rule modify_drawable_ok) (use Touch in simp_all)
  then show ?case
    by (simp add: balanced_def touch_render_fence_def Let_def tables_ok_def store_images_def store_get_def)
next
  case (Signal s pf f)
  then show ?case by (simp add: balanced_def tables_ok_def platform_images_def)
next
  case (Incref s xid i pf)
  then show ?case by (auto intro!: balanced_same modify_drawable_ok simp: incref_def)
next
  case (Participate s pf i v)
  then show ?case by (auto intro!: balanced_same modify_drawable_ok simp: set_scene_participating_def Let_def)
next
  case (Damage s pf i r)
  then show ?case by (auto intro!: balanced_same modify_drawable_ok simp: damage_drawable_def)
next
  case (Ack s pf snap)
  then show ?case by (auto intro!: balanced_same modify_drawable_ok simp: ack_presentation_damage_def)
next
  case (Redirect s pf i b)
  then show ?case by (auto intro!: balanced_same modify_drawable_ok simp: set_redirected_target_def)
qed (auto simp: balanced_def detach_xid_def set_exported_sync_fd_def clear_exported_sync_fd_def take_exported_writes_def Let_def
    tables_ok_def store_images_def store_get_def)

lemma balance_trans:
  fixes g :: "'a multiset"
  assumes "g + a = b + t + d" and "g' + b = c + t' + d'"
  shows "(g + g') + a = c + (t + t') + (d + d')"
proof -
  have "(g + g') + a = g' + (g + a)" by (simp only: ac_simps)
  also have "\<dots> = (g' + b) + (t + d)" unfolding assms(1) by (simp only: ac_simps)
  also have "\<dots> = c + (t + t') + (d + d')" unfolding assms(2) by (simp only: ac_simps)
  finally show ?thesis .
qed

lemma run_balanced:
  assumes "store_run sp acts sp'"
  shows "tables_ok sp \<Longrightarrow> store_inv (fst sp) \<Longrightarrow> balanced sp acts sp'"
  using assms
proof (induction rule: store_run.induct)
  case (Start sp)
  then show ?case by (simp add: balanced_def)
next
  case (Step sp acts sp' acts' sp'')
  have so_far: "balanced sp acts sp'" by (rule Step.IH [OF Step.prems])
  then have "balanced sp' acts' sp''"
    using step_balanced [OF Step.hyps(2)] run_inv [OF Step.hyps(1) Step.prems(2)] by (simp add: balanced_def)
  then show ?case
    using so_far
      balance_trans [of "total given_by acts" "store_images (fst sp) + platform_images (snd sp)"
        "store_images (fst sp') + platform_images (snd sp')" "total taken_by acts" "total destroyed_in acts"
        "total given_by acts'" "store_images (fst sp'') + platform_images (snd sp'')" "total taken_by acts'" "total destroyed_in acts'"]
    unfolding balanced_def total_simps by (simp only: add.assoc)
qed


section \<open>A history\<close>

text \<open>A pixmap that the device still reads when it is freed: it is parked, then destroyed into the pool.\<close>

definition small_storage :: Storage where
  "small_storage = new_server_owned 7 8 9 10 (16, 16) 44 24"

definition busy :: Platform where
  "busy = \<lparr>pf_vk = True, pf_signaled = (\<lambda>_. False), pf_pool = Some pixmap_pool_new\<rparr>"

definition one_drawable :: DrawableStore where
  "one_drawable = \<lparr>ds_next_id = 2, ds_entries = [(1, new_drawable 1 40 DkPixmap 24 False small_storage)],
     ds_by_xid = [(40, 1)], ds_pending_retire = [], ds_exported_sync = [], ds_exported_writes = []\<rparr>"

lemma one_drawable_run: "store_run (store_new, busy) [Given 7] (one_drawable, busy)"
proof -
  have "allocate_drawable 40 DkPixmap 24 False small_storage store_new = Some (Inr (1, one_drawable))"
    by (simp add: allocate_drawable_def store_new_def one_drawable_def hm_insert_def Let_def)
  then have "store_step (store_new, busy) [Given (sg_image small_storage)] (one_drawable, busy)"
    by (rule store_step.Allocate) (simp add: real_storage_def small_storage_def new_server_owned_def)
  then show ?thesis
    using store_run.Step [OF store_run.Start [of "(store_new, busy)"]] by (simp add: small_storage_def new_server_owned_def)
qed

theorem lookup_finds_live_drawable_witness:
  "\<exists>d. store_get one_drawable 1 = Some d \<and> dw_xid d = 40 \<and> dw_refcount d > 0 \<and> 1 \<notin> set (ds_pending_retire one_drawable)"
  by (rule lookup_finds_live_drawable [OF one_drawable_run]) (simp add: one_drawable_def store_lookup_def hm_get_Cons)



section \<open>Damage between a snapshot and its acknowledgement\<close>

lemma bump_increments: "bump e = e + 1"
  by (simp add: bump_def)

lemma painted_after:
  assumes "store_get s i = Some d" and "dw_scene_participating d"
  shows "store_get (fold (damage_drawable i) rs s) i = Some (d\<lparr>
    dw_presentation_damage := dw_presentation_damage d @ filter (\<lambda>r. r2_width r \<noteq> 0 \<and> r2_height r \<noteq> 0) rs,
    dw_presentation_damage_epoch := dw_presentation_damage_epoch d + of_nat (length rs)\<rparr>)"
  using assms
proof (induction rs arbitrary: s d)
  case (Cons r rs)
  let ?d = "d\<lparr>dw_presentation_damage := rs_add r (dw_presentation_damage d),
    dw_presentation_damage_epoch := dw_presentation_damage_epoch d + 1\<rparr>"
  have "store_get (damage_drawable i r s) i = Some ?d"
    using Cons.prems by (simp add: damage_drawable_def bump_increments)
  moreover have "dw_scene_participating ?d" using Cons.prems(2) by simp
  ultimately show ?case by (simp add: Cons.IH rs_add_def add.assoc)
qed simp

text \<open>
  Claim C24. Claim: a snapshot of a drawable's damage that is acknowledged after more has been painted. What remains is the
  later damage, in order, less the empty rectangles and less every rectangle that equals one of the snapshot: a rectangle
  painted again after the snapshot is forgotten.
\<close>

theorem ack_forgets_repeated_damage:
  assumes "peek_presentation_damage s i = Some snap" and "length rs < 2 ^ 64"
  shows "\<exists>d. store_get (ack_presentation_damage snap (fold (damage_drawable i) rs s)) i = Some d \<and>
    dw_presentation_damage d = filter (\<lambda>r. r2_width r \<noteq> 0 \<and> r2_height r \<noteq> 0 \<and> r \<notin> set (sn_region snap)) rs"
proof -
  obtain d where d: "store_get s i = Some d" "dw_scene_participating d"
    and snap: "snap = \<lparr>sn_id = i, sn_epoch = dw_presentation_damage_epoch d, sn_region = dw_presentation_damage d\<rparr>"
    using assms(1) by (auto simp: peek_presentation_damage_def split: option.splits if_splits)
  have "(of_nat (length rs) :: u64) = 0 \<longleftrightarrow> rs = []"
    using assms(2) nat_dvd_not_less [of "length rs" "2 ^ 64"] by (cases "rs = []") (simp_all add: word_of_nat_eq_0_iff)
  then show ?thesis
    by (simp add: ack_presentation_damage_def snap painted_after [OF d] rs_subtract_def list_ex_iff)
qed

definition whole_rect :: Rect2D where
  "whole_rect = \<lparr>r2_x = 0, r2_y = 0, r2_width = 16, r2_height = 16\<rparr>"

definition painted_once :: DrawableStore where
  "painted_once = damage_drawable 1 whole_rect (set_scene_participating 1 True one_drawable)"

theorem ack_forgets_repeated_damage_witness:
  "\<exists>snap d. peek_presentation_damage painted_once 1 = Some snap \<and>
     store_get (ack_presentation_damage snap (damage_drawable 1 whole_rect painted_once)) 1 = Some d \<and>
     dw_presentation_damage d = []"
proof -
  have "store_get (set_scene_participating 1 True one_drawable) 1 =
      Some (new_drawable 1 40 DkPixmap 24 True small_storage)"
    by (simp add: set_scene_participating_def one_drawable_def store_get_def modify_drawable_def hm_get_Cons new_drawable_def)
  then have d: "store_get painted_once 1 = Some (new_drawable 1 40 DkPixmap 24 True small_storage
      \<lparr>dw_presentation_damage := [whole_rect], dw_presentation_damage_epoch := 1\<rparr>)"
    by (simp add: painted_once_def damage_drawable_def rs_add_def whole_rect_def new_drawable_def bump_increments)
  obtain snap where snap: "peek_presentation_damage painted_once 1 = Some snap" "sn_region snap = [whole_rect]"
    using d by (simp add: peek_presentation_damage_def new_drawable_def)
  show ?thesis using ack_forgets_repeated_damage [OF snap(1), of "[whole_rect]"] snap by auto
qed

end
