(* ===== verification/KmsWindowClaims.thy ===== *)
theory KmsWindowClaims
  imports KmsWindows KmsStoreClaims WindowClaims
begin

text \<open>
  The windows of the KMS backend against the resource table and against their own storage: where the stacking on the
  screen follows the table, and what becomes of a window whose size changes while a picture refers to it.
\<close>

section \<open>A picture on a window that is resized\<close>

text \<open>What the engine's painting leaves alone.\<close>

definition keeps_references :: "paint \<Rightarrow> bool" where
  "keeps_references paint \<longleftrightarrow> (\<forall>xid s. store_lookup (paint xid s) = store_lookup s \<and>
     (\<forall>i. map_option dw_refcount (store_get (paint xid s) i) = map_option dw_refcount (store_get s i)) \<and>
     (\<forall>i. map_option dw_xid (store_get (paint xid s) i) = map_option dw_xid (store_get s i)))"

lemma decref_last_lookup:
  assumes "decref i (s, pf) = (r, s', pf', calls)" and "store_get s i = Some d" and "\<not> dw_refcount d > 1"
    and "store_lookup s (dw_xid d) = Some i"
  shows "store_lookup s' (dw_xid d) = None"
  using assms(1)
proof (cases rule: decref_cases)
  case (Last e calls')
  have "fst (destroy_now i (s, pf)) = s'" using Last(5) by simp
  then show ?thesis using assms(2,4) by (auto simp: destroy_now_store store_lookup_def)
next
  case (Parked e)
  then show ?thesis using assms(2) by (simp add: parked_frame)
qed (use assms(2,3) in auto)

lemma decref_shared:
  assumes "decref i (s, pf) = (r, s', pf', calls)" and "store_get s i = Some d" and "dw_refcount d > 1"
  shows "pf' = pf \<and> s' = modify_drawable i (\<lambda>d. d\<lparr>dw_refcount := dw_refcount d - 1\<rparr>) s"
  using assms(1) by (cases rule: decref_cases) (use assms(2,3) in auto)

lemma decref_other:
  assumes "decref i (s, pf) = (r, s', pf', calls)" and "k \<noteq> i"
  shows "store_get s' k = store_get s k"
  using assms(1)
proof (cases rule: decref_cases)
  case (Last e calls')
  have "fst (destroy_now i (s, pf)) = s'" using Last(5) by simp
  then show ?thesis using assms(2) by (auto simp: destroy_now_store store_get_def split: option.splits)
qed (use assms(2) in \<open>simp_all add: parked_frame\<close>)


lemma mark_dirty_fields [simp]:
  "kb_store (mark_dirty b) = kb_store b" "kb_platform (mark_dirty b) = kb_platform b" "kb_pictures (mark_dirty b) = kb_pictures b"
  "kb_windows (mark_dirty b) = kb_windows b" "kb_top_level_order (mark_dirty b) = kb_top_level_order b"
  by (simp_all add: mark_dirty_def)

lemma set_ranks_keys: "hm_get (set_ranks order ws) x = None \<longleftrightarrow> hm_get ws x = None"
proof -
  have step: "hm_get (hm_modify k f ws) x = None \<longleftrightarrow> hm_get ws x = None" for k f and ws :: "(u32, WindowGeometryV2) hashmap"
    by (cases "x = k") (simp_all)
  have "hm_get (fold (\<lambda>(rank, xid). hm_modify xid (\<lambda>g. g\<lparr>wg_stack_rank := of_nat rank\<rparr>)) ps ws) x = None \<longleftrightarrow> hm_get ws x = None" for ps
  proof (induction ps arbitrary: ws)
    case (Cons p ps)
    then show ?case by (cases p) (simp only: fold_Cons o_apply split_conv step)
  qed simp
  then show ?thesis unfolding set_ranks_def .
qed

lemma restack_top_level_frame:
  "kb_store (restack_top_level x m sib b) = kb_store b \<and> kb_pictures (restack_top_level x m sib b) = kb_pictures b \<and>
   kb_windows (restack_top_level x m sib b) = kb_windows b"
  by (simp add: restack_top_level_def Let_def)

lemma restack_subwindow_cases:
  obtains "restack_subwindow x m sib b = b"
  | order where "restack_subwindow x m sib b = b\<lparr>kb_windows := set_ranks order (kb_windows b)\<rparr>"
proof (cases "hm_get (kb_windows b) x")
  case None
  then show thesis by (intro that(1)) (simp add: restack_subwindow_def)
next
  case (Some g)
  let ?siblings = "sort_key snd (map (\<lambda>(x, g). (x, wg_stack_rank g)) (filter (\<lambda>(_, h). wg_parent h = wg_parent g) (kb_windows b)))"
  show thesis
  proof (cases "position (\<lambda>(y, _). y = x) ?siblings")
    case None
    then show thesis using Some by (intro that(1)) (simp add: restack_subwindow_def)
  next
    fix pos assume "position (\<lambda>(y, _). y = x) ?siblings = Some pos"
    then show thesis using Some by (intro that(2)) (simp add: restack_subwindow_def Let_def)
  qed
qed

lemma restack_subwindow_frame:
  "kb_store (restack_subwindow x m sib b) = kb_store b \<and> kb_pictures (restack_subwindow x m sib b) = kb_pictures b \<and>
   (hm_get (kb_windows (restack_subwindow x m sib b)) y = None \<longleftrightarrow> hm_get (kb_windows b) y = None)"
  by (cases x m sib b rule: restack_subwindow_cases) (simp_all add: set_ranks_keys)

lemmas restack_frame = restack_top_level_frame restack_subwindow_frame

text \<open>What a change of size does to a drawable that somebody else refers to as well.\<close>

lemma replace_shared:
  assumes inv: "store_inv (kb_store b)" and paint: "keeps_references paint"
    and old: "store_lookup (kb_store b) xid = Some old" "store_get (kb_store b) old = Some d" and shared: "dw_refcount d = 2"
    and run: "replace_storage paint (Some g) xid depth v old b = Some b'"
  shows "\<exists>i e e'. store_lookup (kb_store b') xid = Some i \<and> i \<noteq> old \<and>
    store_get (kb_store b') i = Some e \<and> dw_refcount e = 1 \<and> dw_xid e = xid \<and>
    store_get (kb_store b') old = Some e' \<and> dw_refcount e' = 1 \<and>
    kb_pictures b' = kb_pictures b \<and> kb_windows b' = kb_windows b"
proof -
  let ?s1 = "detach_xid xid (kb_store b)"
  let ?s2 = "modify_drawable old (\<lambda>d. d\<lparr>dw_refcount := dw_refcount d - 1\<rparr>) ?s1"
  have d1: "store_get ?s1 old = Some d" using old(2) by (simp add: detach_xid_def store_get_def)
  obtain r s2 pf2 calls where dec: "decref old (?s1, kb_platform b) = (r, s2, pf2, calls)"
    by (cases "decref old (?s1, kb_platform b)")
  have s2: "s2 = ?s2" "pf2 = kb_platform b" using decref_shared [OF dec d1] shared by simp_all
  have free: "store_lookup ?s2 xid = None" by (simp add: detach_xid_def store_lookup_def)
  define i where "i = ds_next_id (kb_store b)"
  have next_id: "ds_next_id ?s2 = i" by (simp add: detach_xid_def i_def)
  have new: "i \<noteq> old" using store_invD(1) [OF inv old(2)] by (auto simp: i_def)
  have ok: "i \<noteq> - 1"
  proof
    assume "i = - 1"
    then have "allocate_drawable xid DkWindow depth v g ?s2 = None"
      using free next_id by (simp add: allocate_drawable_def store_lookup_def)
    then show False using run by (simp add: replace_storage_def store_decref_with_invalidate_def dec s2)
  qed
  define s4 where "s4 = ?s2\<lparr>ds_next_id := i + 1, ds_entries := hm_insert i (new_drawable i xid DkWindow depth v g) (ds_entries ?s2),
      ds_by_xid := hm_insert xid i (ds_by_xid ?s2)\<rparr>"
  have alloc: "allocate_drawable xid DkWindow depth v g ?s2 = Some (Inr (i, s4))"
    using free next_id ok by (simp add: allocate_drawable_def store_lookup_def s4_def)
  have b': "kb_store b' = paint xid s4" "kb_pictures b' = kb_pictures b" "kb_windows b' = kb_windows b"
    using run by (auto simp: replace_storage_def store_decref_with_invalidate_def dec s2 alloc)
  have "store_lookup (kb_store b') = store_lookup s4" using paint by (simp add: b' keeps_references_def)
  then have look: "store_lookup (kb_store b') xid = Some i" by (simp add: s4_def store_lookup_def)
  have entries: "store_get s4 i = Some (new_drawable i xid DkWindow depth v g)"
    "map_option dw_refcount (store_get s4 old) = Some 1"
    using new d1 shared by (simp_all add: s4_def store_get_def modify_drawable_def)
  have keep: "map_option dw_refcount (store_get (kb_store b') k) = map_option dw_refcount (store_get s4 k)"
    "map_option dw_xid (store_get (kb_store b') k) = map_option dw_xid (store_get s4 k)" for k
    using paint by (simp_all add: b' keeps_references_def)
  obtain e where e: "store_get (kb_store b') i = Some e" "dw_refcount e = 1" "dw_xid e = xid"
    using keep [of i] entries(1) by (auto simp: new_drawable_def)
  obtain e' where e': "store_get (kb_store b') old = Some e'" "dw_refcount e' = 1"
    using keep(1) [of old] entries(2) by auto
  show ?thesis using look new e e' b'(2,3) by blast
qed

lemma free_last_picture:
  assumes "hm_get (kb_pictures b) p = Some (Some xid)" and "store_lookup (kb_store b) xid = Some i"
    and "store_get (kb_store b) i = Some e" and "dw_refcount e = 1" and "dw_xid e = xid"
  shows "store_lookup (kb_store (render_free_picture p b)) xid = None"
    and "k \<noteq> i \<Longrightarrow> store_get (kb_store (render_free_picture p b)) k = store_get (kb_store b) k"
    and "kb_windows (render_free_picture p b) = kb_windows b"
proof -
  obtain r s' pf' calls where dec: "decref i (kb_store b, kb_platform b) = (r, s', pf', calls)"
    by (cases "decref i (kb_store b, kb_platform b)")
  have b': "kb_store (render_free_picture p b) = s'" "kb_windows (render_free_picture p b) = kb_windows b"
    using assms(1,2) by (simp_all add: render_free_picture_def Let_def store_decref_with_invalidate_def dec)
  show "store_lookup (kb_store (render_free_picture p b)) xid = None"
    using decref_last_lookup [OF dec assms(3)] assms(2,4,5) by (simp add: b')
  show "k \<noteq> i \<Longrightarrow> store_get (kb_store (render_free_picture p b)) k = store_get (kb_store b) k"
    using decref_other [OF dec] by (simp add: b')
  show "kb_windows (render_free_picture p b) = kb_windows b" by (rule b')
qed

text \<open>
  Claim C40. Claim: a window whose size changes while a picture refers to it loses its storage when the picture is freed. The
  picture took its reference on the storage of that time; freeing it looks the window up again and drops
  the only reference to the new storage. The window is left without any, and the old storage stays for good, since nobody
  can drop its last reference.
\<close>

theorem resize_loses_pictured_window:
  assumes "store_inv (kb_store b)" and "keeps_references paint"
    and "hm_get (kb_windows b) xid = Some g" and "store_lookup (kb_store b) xid = Some old"
    and "store_get (kb_store b) old = Some d" and "dw_refcount d = 1"
    and "render_create_picture xid b = Some (p, b1)"
    and "hc_width config = Some w" and "w \<noteq> wg_width g"
    and "configure_subwindow paint (Some storage) xid config b1 = Some b2"
  shows "store_lookup (kb_store (render_free_picture p b2)) xid = None \<and>
    hm_get (kb_windows (render_free_picture p b2)) xid \<noteq> None \<and>
    (\<exists>e. store_get (kb_store (render_free_picture p b2)) old = Some e \<and> dw_refcount e = 1)"
proof -
  have b1: "kb_store b1 = incref old (kb_store b)" "kb_windows b1 = kb_windows b" "hm_get (kb_pictures b1) p = Some (Some xid)"
    using assms(4,7) by (auto simp: render_create_picture_def next_host_xid_def split: if_splits)
  have inv1: "store_inv (incref old (kb_store b))"
    using step_inv [OF store_step.Incref [OF assms(4)]] assms(1) by simp
  define g' where "g' = g\<lparr>wg_x := unwrap_or (hc_x config) (wg_x g), wg_y := unwrap_or (hc_y config) (wg_y g),
    wg_width := unwrap_or (hc_width config) (wg_width g), wg_height := unwrap_or (hc_height config) (wg_height g)\<rparr>"
  have changed: "wg_width g' \<noteq> wg_width g" using assms(8,9) by (simp add: g'_def)
  define c where "c = b1\<lparr>kb_windows := hm_insert xid g' (kb_windows b1)\<rparr>"
  have look: "store_lookup (incref old (kb_store b)) xid = Some old" using assms(4) by (simp add: incref_def)
  obtain b3 where b3: "replace_storage paint (Some storage) xid (wg_depth g) (wg_mapped g) old c = Some b3"
    and same: "kb_store b2 = kb_store b3" "kb_pictures b2 = kb_pictures b3"
      "hm_get (kb_windows b2) xid = None \<longleftrightarrow> hm_get (kb_windows b3) xid = None"
  proof (cases "replace_storage paint (Some storage) xid (wg_depth g) (wg_mapped g) old c")
    case None
    then show thesis
      using assms(3,10) look changed b1 unfolding configure_subwindow_def by (simp add: Let_def g'_def [symmetric] c_def [symmetric])
        (simp add: c_def g'_def)
  next
    case (Some b3)
    have "kb_store b2 = kb_store b3 \<and> kb_pictures b2 = kb_pictures b3 \<and>
        (hm_get (kb_windows b2) xid = None \<longleftrightarrow> hm_get (kb_windows b3) xid = None)"
      using assms(3,10) look changed b1 Some unfolding configure_subwindow_def c_def g'_def
      by (auto simp: Let_def restack_frame split: option.splits if_splits)
    then show thesis using Some by (intro that [of b3]) auto
  qed
  have two: "store_get (kb_store c) old = Some (d\<lparr>dw_refcount := 2\<rparr>)" "dw_refcount (d\<lparr>dw_refcount := 2\<rparr>) = 2"
    using assms(5,6) b1(1) by (simp_all add: c_def incref_def)
  have shared: "\<exists>i e e'. store_lookup (kb_store b3) xid = Some i \<and> i \<noteq> old \<and>
    store_get (kb_store b3) i = Some e \<and> dw_refcount e = 1 \<and> dw_xid e = xid \<and>
    store_get (kb_store b3) old = Some e' \<and> dw_refcount e' = 1 \<and>
    kb_pictures b3 = kb_pictures c \<and> kb_windows b3 = kb_windows c"
    by (rule replace_shared [OF _ assms(2) _ two b3]) (use inv1 look b1(1) in \<open>simp_all add: c_def\<close>)
  then obtain i e e' where r: "store_lookup (kb_store b2) xid = Some i" "i \<noteq> old" "store_get (kb_store b2) i = Some e"
    "dw_refcount e = 1" "dw_xid e = xid" "store_get (kb_store b2) old = Some e'" "dw_refcount e' = 1"
    and pics: "kb_pictures b2 = kb_pictures c" and wins: "kb_windows b3 = kb_windows c"
    unfolding same(1) same(2) by blast
  have pic: "hm_get (kb_pictures b2) p = Some (Some xid)" using pics b1(3) by (simp add: c_def)
  have win: "hm_get (kb_windows b2) xid \<noteq> None" using same(3) wins by (simp add: c_def)
  show ?thesis
    using free_last_picture(1) [OF pic r(1) r(3-5)] free_last_picture(2) [OF pic r(1) r(3-5), of old]
      free_last_picture(3) [OF pic r(1) r(3-5)] r(2,6,7) win by auto
qed

definition small_window :: WindowGeometryV2 where
  "small_window = \<lparr>wg_x = 0, wg_y = 0, wg_width = 16, wg_height = 16, wg_depth = 24, wg_mapped = True, wg_parent = None,
     wg_stack_rank = 1, wg_bg_pixel = None, wg_bg_pixmap = None, wg_cursor = None\<rparr>"

definition small_screen :: KmsBackendV2 where
  "small_screen = \<lparr>kb_store = one_drawable, kb_platform = busy, kb_windows = [(40, small_window)], kb_pictures = [],
     kb_top_level_order = [40], kb_xid_map = [], kb_next_stack_rank = 2, kb_next_host_xid = 99, kb_window_id = 1, kb_dirty = 0\<rparr>"

definition wider :: HostSubwindowConfig where
  "wider = \<lparr>hc_x = None, hc_y = None, hc_width = Some 32, hc_height = None, hc_border_width = None, hc_sibling = None,
     hc_stack_mode = None\<rparr>"

theorem resize_loses_pictured_window_witness:
  "\<exists>p b1 b2. render_create_picture 40 small_screen = Some (p, b1) \<and>
     configure_subwindow (\<lambda>_ s. s) (Some small_storage) 40 wider b1 = Some b2 \<and>
     store_lookup (kb_store (render_free_picture p b2)) 40 = None"
proof -
  have inv: "store_inv (kb_store small_screen)" using run_inv [OF one_drawable_run] store_new_inv by (simp add: small_screen_def)
  have win: "hm_get (kb_windows small_screen) 40 = Some small_window" by (simp add: small_screen_def hm_get_Cons)
  have look: "store_lookup (kb_store small_screen) 40 = Some 1"
    by (simp add: small_screen_def one_drawable_def store_lookup_def hm_get_Cons)
  have d: "store_get (kb_store small_screen) 1 = Some (new_drawable 1 40 DkPixmap 24 False small_storage)"
    by (simp add: small_screen_def one_drawable_def store_get_def hm_get_Cons)
  obtain b1 where pic: "render_create_picture 40 small_screen = Some (100, b1)"
    by (simp add: render_create_picture_def next_host_xid_def small_screen_def one_drawable_def store_lookup_def hm_get_Cons)
  have b1: "kb_store b1 = incref 1 one_drawable" "kb_platform b1 = busy" "kb_windows b1 = [(40, small_window)]"
    using pic look by (auto simp: render_create_picture_def next_host_xid_def small_screen_def)
  obtain b2 where conf: "configure_subwindow (\<lambda>_ s. s) (Some small_storage) 40 wider b1 = Some b2"
    by (cases "configure_subwindow (\<lambda>_ s. s) (Some small_storage) 40 wider b1")
      (simp_all add: configure_subwindow_def b1 wider_def small_window_def hm_get_Cons replace_storage_def
        store_decref_with_invalidate_def allocate_drawable_def decref_def incref_def detach_xid_def modify_drawable_def
        one_drawable_def store_lookup_def store_get_def new_drawable_def hm_insert_def hm_remove_def hm_modify_def Let_def)
  show ?thesis
    using resize_loses_pictured_window [OF inv _ win look d _ pic _ _ conf, of 32] pic conf
    by (auto simp: keeps_references_def new_drawable_def wider_def small_window_def)
qed

section \<open>The stacking on the screen\<close>

text \<open>A position, seen through an injective renaming.\<close>

lemma position_renamed:
  assumes "inj_on h (insert s (set xs))"
  shows "position (\<lambda>y. y = h s) (map h xs) = position (\<lambda>x. x = s) xs"
  using assms
proof (induction xs)
  case (Cons x xs)
  have eq: "h x = h s \<longleftrightarrow> x = s" by (rule inj_on_eq_iff [OF Cons.prems]) simp_all
  have "position (\<lambda>y. y = h s) (map h xs) = position (\<lambda>x. x = s) xs"
    by (rule Cons.IH [OF inj_on_subset [OF Cons.prems]]) auto
  then show ?case by (simp only: list.map position.simps eq)
qed simp

lemma place_renamed:
  assumes "distinct (lo @ up)"
    and "a = (if m = 0 then (case sib of Some s \<Rightarrow> AboveSibling s | None \<Rightarrow> Top)
              else (case sib of Some s \<Rightarrow> BelowSibling s | None \<Rightarrow> Bottom))"
    and "m \<in> {0, 1}" and "stacked a lo up" and "COMPOSITE_OVERLAY_WINDOW \<notin> set (lo @ up)"
    and "\<And>s. sib = Some s \<Longrightarrow> s \<in> set (lo @ up)"
  shows "place m (Option.bind sib (\<lambda>s. position (\<lambda>x. x = s) (lo @ up))) i (lo @ up) = lo @ i # up"
proof (cases sib)
  case None
  then show ?thesis using assms(2-5) by (auto simp: place_def vec_insert_def)
next
  case (Some s)
  then have s: "s \<noteq> COMPOSITE_OVERLAY_WINDOW" using assms(5,6) by auto
  obtain k where pos: "position (\<lambda>x. x = s) (lo @ up) = Some k" using position_eq_Some assms(6) [OF Some] by metis
  then have k: "position (\<lambda>x. x = s) (lo @ up) = Some k" "k < length (lo @ up)" "(lo @ up) ! k = s"
    using position_Some [OF pos] by blast+
  have at_index: "k = j" if "j < length (lo @ up)" "(lo @ up) ! j = s" for j
    using nth_eq_iff_index_eq [OF assms(1) k(2) that(1)] k(3) that(2) by simp
  show ?thesis
  proof (cases "m = 0")
    case True
    then have "lo \<noteq> []" "last lo = s" using assms(2,4) s Some by simp_all
    moreover have "length lo - 1 < length lo" using \<open>lo \<noteq> []\<close> by simp
    ultimately have "k = length lo - 1" by (intro at_index) (simp_all add: nth_append last_conv_nth trans_less_add1)
    then show ?thesis using True \<open>lo \<noteq> []\<close> by (simp add: Some k(1) place_def vec_insert_def)
  next
    case False
    then have m: "m = 1" using assms(3) by simp
    then have "up \<noteq> []" "hd up = s" using assms(2,4) Some by simp_all
    then have "k = length lo" by (intro at_index) (simp_all add: nth_append hd_conv_nth)
    then show ?thesis by (simp add: Some k(1) m place_def vec_insert_def)
  qed
qed

lemma vec_insert_renamed: "map h (vec_insert k x xs) = vec_insert k (h x) (map h xs)"
  by (simp add: vec_insert_def take_map drop_map)

lemma place_map:
  assumes "inj_on h (set_option sib \<union> set xs)"
  shows "place m (Option.bind (map_option h sib) (\<lambda>s. position (\<lambda>y. y = s) (map h xs))) (h i) (map h xs) =
    map h (place m (Option.bind sib (\<lambda>s. position (\<lambda>x. x = s) xs)) i xs)"
proof -
  have "Option.bind (map_option h sib) (\<lambda>s. position (\<lambda>y. y = s) (map h xs)) =
      Option.bind sib (\<lambda>s. position (\<lambda>x. x = s) xs)"
    using assms by (cases sib) (simp_all add: position_renamed)
  then show ?thesis by (simp add: place_def vec_insert_renamed split: option.split)
qed

text \<open>
  Claim C23. Claim: raising or lowering a top-level window moves it on the screen to where it is among the children
  of the root, if the two orders agreed before and the overlay window is not among the children.
\<close>

theorem stacking_mirrored:
  assumes "windows_reachable t" and "parent_of t i = Some ROOT_WINDOW" and "i \<noteq> ROOT_WINDOW"
    and "\<And>s. sib = Some s \<Longrightarrow> s \<in> set (children t ROOT_WINDOW) \<and> s \<noteq> i" and "m \<in> {0, 1}"
    and "COMPOSITE_OVERLAY_WINDOW \<notin> set (children t ROOT_WINDOW)"
    and "inj_on host (set (children t ROOT_WINDOW))"
    and "kb_top_level_order b = map host (children t ROOT_WINDOW)"
  shows "kb_top_level_order (restack_top_level (host i) m (map_option host sib) b) =
    map host (children (restack_window i sib (Some m) t) ROOT_WINDOW)"
proof -
  let ?kids = "children t ROOT_WINDOW"
  have inv: "tree_inv t" using assms(1) by (rule reachable_tree)
  have m: "m \<le> 4" using assms(5) by auto
  obtain a lo up where split: "filter (\<lambda>c. c \<noteq> i) ?kids = lo @ up"
    "children (restack_window i sib (Some m) t) ROOT_WINDOW = lo @ i # up" "stacked a lo up"
    and act: "m = 0 \<longrightarrow> a = (case sib of Some s \<Rightarrow> AboveSibling s | None \<Rightarrow> Top)"
      "m = 1 \<longrightarrow> a = (case sib of Some s \<Rightarrow> BelowSibling s | None \<Rightarrow> Bottom)"
    using restack_stacked [OF inv assms(2,3,4) m] by blast
  have ip: "i \<in> set ?kids" using tree_children_iff [OF inv] assms(2,3) by simp
  obtain w where "window t ROOT_WINDOW = Some w" "?kids = win_children w"
    using ip by (cases "window t ROOT_WINDOW") (auto simp: children_def)
  then have kids: "distinct ?kids" using tree_distinct [OF inv] by simp
  have others: "set (lo @ up) = set ?kids - {i}" unfolding split(1) [symmetric] by auto
  have placed: "place m (Option.bind sib (\<lambda>s. position (\<lambda>x. x = s) (lo @ up))) i (lo @ up) = lo @ i # up"
  proof (rule place_renamed)
    show "distinct (lo @ up)" unfolding split(1) [symmetric] using kids by simp
  qed (use act assms(4,5,6) others split(3) in auto)
  have renamed: "filter (\<lambda>x. x \<noteq> host i) (map host ?kids) = map host (filter (\<lambda>c. c \<noteq> i) ?kids)"
  proof -
    have "host c = host i \<longleftrightarrow> c = i" if "c \<in> set ?kids" for c using inj_on_eq_iff [OF assms(7) that ip] .
    then show ?thesis by (simp add: filter_map o_def cong: filter_cong)
  qed
  have inj: "inj_on host (set_option sib \<union> set (lo @ up))"
    by (rule inj_on_subset [OF assms(7)]) (use others assms(4) in auto)
  have "host i \<in> set (kb_top_level_order b)" using ip assms(8) by simp
  then have "kb_top_level_order (restack_top_level (host i) m (map_option host sib) b) =
      place m (Option.bind (map_option host sib) (\<lambda>s. position (\<lambda>y. y = s) (map host (lo @ up)))) (host i) (map host (lo @ up))"
    by (simp only: restack_top_level_def Let_def assms(8) renamed split(1)) (simp add: mark_dirty_def)
  also have "\<dots> = map host (lo @ i # up)" unfolding place_map [OF inj] placed ..
  finally show ?thesis unfolding split(2) .
qed

theorem stacking_mirrored_witness:
  "kb_top_level_order (restack_top_level 0x100001 0 None (small_screen\<lparr>kb_top_level_order := [0x100001, 0x100003]\<rparr>)) =
    children (restack_window 0x100001 None (Some 0) tree3) ROOT_WINDOW"
proof -
  have kids: "children tree3 ROOT_WINDOW = [0x100001, 0x100003]" by (simp add: children_def tree3_window ROOT_WINDOW_def)
  have p: "parent_of tree3 0x100001 = Some ROOT_WINDOW" by (simp add: parent_of_def tree3_window tree_window_def ROOT_WINDOW_def)
  show ?thesis
    using stacking_mirrored [OF reachable3 p, of None 0 "\<lambda>x. x" "small_screen\<lparr>kb_top_level_order := [0x100001, 0x100003]\<rparr>"]
    by (simp add: kids [unfolded ROOT_WINDOW_def] ROOT_WINDOW_def COMPOSITE_OVERLAY_WINDOW_def)
qed

section \<open>Where paint goes\<close>

text \<open>
  The way up the tree: windows that the backend knows, each the child of the next and the last a child of \<open>y\<close>, and none
  redirected.
\<close>

definition first_of :: "(u32 \<times> WindowGeometryV2) list \<Rightarrow> u32 \<Rightarrow> u32" where
  "first_of ps y = (case ps of [] \<Rightarrow> y | (x, _) # _ \<Rightarrow> x)"

fun climbs :: "KmsBackendV2 \<Rightarrow> (u32 \<times> WindowGeometryV2) list \<Rightarrow> u32 \<Rightarrow> bool" where
  "climbs b [] y = True"
| "climbs b ((x, g) # ps) y \<longleftrightarrow> hm_get (kb_windows b) x = Some g \<and> wg_parent g = Some (first_of ps y) \<and>
     (\<exists>i. store_lookup (kb_store b) x = Some i \<and> redirected_target (kb_store b) i = None) \<and> climbs b ps y"

lemma climbs_stored:
  assumes "climbs b ps y" and "store_lookup (kb_store b) y \<noteq> None"
  obtains i where "store_lookup (kb_store b) (first_of ps y) = Some i"
  using assms by (cases ps) (auto simp: first_of_def)

lemma resolve_loop_climbs:
  assumes "climbs b ps y" and "store_lookup (kb_store b) y = Some j" and "redirected_target (kb_store b) j = Some t"
    and "store_lookup (kb_store b) (first_of ps y) = Some i"
  shows "resolve_loop b leaf (first_of ps y) i off = Some \<lparr>pt_id = t,
    pt_offset = (fst off + (\<Sum>(_, g) \<leftarrow> ps. sint (wg_x g)), snd off + (\<Sum>(_, g) \<leftarrow> ps. sint (wg_y g)))\<rparr>"
  using assms
proof (induction ps arbitrary: i off)
  case Nil
  then show ?case by (subst resolve_loop.simps) (simp add: first_of_def)
next
  case (Cons p ps)
  obtain x g where p: "p = (x, g)" by (cases p)
  have rest: "climbs b ps y" using Cons.prems(1) by (simp add: p)
  obtain k where k: "store_lookup (kb_store b) (first_of ps y) = Some k"
    using climbs_stored [OF rest] Cons.prems(2) by auto
  have here: "hm_get (kb_windows b) x = Some g" "wg_parent g = Some (first_of ps y)" "redirected_target (kb_store b) i = None"
    using Cons.prems(1,4) by (auto simp: p first_of_def)
  show ?case
    by (subst resolve_loop.simps)
      (simp add: p first_of_def [of "(x, g) # ps"] here k Cons.IH [OF rest Cons.prems(2,3) k] add.assoc)
qed


definition inner_window :: WindowGeometryV2 where
  "inner_window = small_window\<lparr>wg_x := 3, wg_y := 5, wg_parent := Some 40\<rparr>"

definition nested_screen :: KmsBackendV2 where
  "nested_screen = small_screen\<lparr>kb_windows := [(40, small_window), (41, inner_window)],
     kb_store := \<lparr>ds_next_id = 4, ds_entries = [(1, (new_drawable 1 40 DkWindow 24 True small_storage)\<lparr>dw_redirected_target := Some 3\<rparr>),
         (2, new_drawable 2 41 DkWindow 24 True small_storage), (3, new_drawable 3 42 DkPixmap 24 True small_storage)],
       ds_by_xid = [(40, 1), (41, 2), (42, 3)], ds_pending_retire = [], ds_exported_sync = [], ds_exported_writes = []\<rparr>\<rparr>"


end
